(* ===== verification/Prelude.thy ===== *)
theory Prelude
  imports Main "HOL-Library.Word"
begin

text \<open>
  Shared vocabulary of the development: the machine integer types, byte buffers, the error
  codes the C functions return, the monad in which fallible stateful functions are written,
  and the generic lemmas (with their \<open>named_theorems\<close> collections) that the component
  theories use.
\<close>

unbundle bit_operations_syntax

type_synonym u8 = "8 word"
type_synonym u16 = "16 word"
type_synonym u32 = "32 word"
type_synonym u64 = "64 word"

text \<open>
  A C buffer \<open>uint8_t *p\<close> of known size is a function from byte offsets to bytes. A
  pointer into a buffer is the buffer together with an offset.
\<close>

type_synonym buf = "nat \<Rightarrow> u8"

text \<open>
  The error codes: \<open>-EIO\<close> of the C source is \<open>Inl EIO\<close> here. \<open>EOS n\<close> stands for any other
  \<open>errno\<close> value the operating system reports, \<open>EXIT n\<close> for leaving the program with status \<open>n\<close>.
  \<open>UNDEF\<close> is not an error code of the program: it is the outcome of the executions in which the C
  code has undefined behaviour (division by zero, an access outside a fixed array), so that these
  are visible in the model.
\<close>

datatype errno = EIO | EINVAL | ENOMEM | ENOSPC | EROFS | ENOENT | EEXIST | ENOTDIR
  | EISDIR | ENOTEMPTY | EPERM | EACCES | EFBIG | ELOOP | ENAMETOOLONG | EOVERFLOW
  | ENOTSUP | EOS nat | EXIT nat | UNDEF

section \<open>Stateful computations with error codes\<close>

text \<open>
  A C function that returns a negative error code or fills in a result is a function from
  the state to a result and the new state; the state survives an error, as the disk does.
\<close>

type_synonym ('s, 'a) io = "'s \<Rightarrow> (errno + 'a) \<times> 's"

definition ret :: "'a \<Rightarrow> ('s, 'a) io" where
  "ret x = (\<lambda>s. (Inr x, s))"

definition fail :: "errno \<Rightarrow> ('s, 'a) io" where
  "fail e = (\<lambda>s. (Inl e, s))"

text \<open>\<open>rc = m(); if (rc < 0) return rc;\<close> and then the rest \<open>k\<close>.\<close>

definition andthen :: "('s, 'a) io \<Rightarrow> ('a \<Rightarrow> ('s, 'b) io) \<Rightarrow> ('s, 'b) io" where
  "andthen m k = (\<lambda>s. case m s of (Inl e, t) \<Rightarrow> (Inl e, t) | (Inr x, t) \<Rightarrow> k x t)"

text \<open>\<open>rc = m();\<close> with the return code handed to the rest, which inspects it itself.\<close>

definition attempt :: "('s, 'a) io \<Rightarrow> (errno + 'a \<Rightarrow> ('s, 'b) io) \<Rightarrow> ('s, 'b) io" where
  "attempt m k = (\<lambda>s. case m s of (r, t) \<Rightarrow> k r t)"

text \<open>\<open>if (!b) return -e;\<close>\<close>

definition check :: "bool \<Rightarrow> errno \<Rightarrow> ('s, unit) io" where
  "check b e = (if b then ret () else fail e)"

text \<open>
  \<open>if (m() < 0) return -e;\<close>, an error code replaced by another one. An execution that is
  undefined stays undefined whatever the code would do with an error.
\<close>

definition instead :: "errno \<Rightarrow> errno \<Rightarrow> errno" where
  "instead e x = (if x = UNDEF then UNDEF else e)"

definition or_else :: "('s, 'a) io \<Rightarrow> errno \<Rightarrow> ('s, 'a) io" where
  "or_else m e = (\<lambda>s. case m s of (Inl x, t) \<Rightarrow> (Inl (instead e x), t) | (Inr x, t) \<Rightarrow> (Inr x, t))"

text \<open>\<open>if (m() < 0) { cleanup(); return rc; }\<close>, the error path with a clean-up call whose own
  result is ignored.\<close>

definition on_error :: "('s, 'a) io \<Rightarrow> ('s, 'b) io \<Rightarrow> ('s, 'a) io" where
  "on_error m c = (\<lambda>s. case m s of
     (Inl e, t) \<Rightarrow> (case c t of (Inl x, u) \<Rightarrow> (Inl (instead e x), u) | (Inr _, u) \<Rightarrow> (Inl e, u))
   | (Inr x, t) \<Rightarrow> (Inr x, t))"

text \<open>\<open>(void)m();\<close>, a call whose result is ignored.\<close>

definition ignoring :: "('s, 'a) io \<Rightarrow> ('s, unit) io" where
  "ignoring m = (\<lambda>s. case m s of
     (Inl x, t) \<Rightarrow> (if x = UNDEF then Inl UNDEF else Inr (), t) | (Inr _, t) \<Rightarrow> (Inr (), t))"

named_theorems io_simps "unfolding of the monad"
named_theorems io_elims "inversion of successful and failing runs"

lemma ret_apply [simp]: "ret x s = (Inr x, s)"
  by (simp add: ret_def)

lemma fail_apply [simp]: "fail e s = (Inl e, s)"
  by (simp add: fail_def)

lemma check_apply [io_simps]: "check b e s = (if b then (Inr (), s) else (Inl e, s))"
  by (simp add: check_def)

lemma andthen_Inr [io_elims]:
  "andthen m k s = (Inr y, u) \<longleftrightarrow> (\<exists>x t. m s = (Inr x, t) \<and> k x t = (Inr y, u))"
  by (auto simp: andthen_def split: prod.splits sum.splits)

lemma andthen_Inl [io_elims]:
  "andthen m k s = (Inl e, u) \<longleftrightarrow>
     m s = (Inl e, u) \<or> (\<exists>x t. m s = (Inr x, t) \<and> k x t = (Inl e, u))"
  by (auto simp: andthen_def split: prod.splits sum.splits)

lemma andthen_step: "m s = (Inr x, t) \<Longrightarrow> andthen m k s = k x t"
  by (simp add: andthen_def)

lemma andthen_stop: "m s = (Inl e, t) \<Longrightarrow> andthen m k s = (Inl e, t)"
  by (simp add: andthen_def)

lemma andthen_ret [simp]: "andthen (ret x) k = k x"
  by (simp add: andthen_def fun_eq_iff)

lemma andthen_fail [simp]: "andthen (fail e) k = fail e"
  by (simp add: andthen_def fun_eq_iff)

lemma andthen_check [io_simps]:
  "andthen (check b e) k = (if b then k () else fail e)"
  by (simp add: check_def)

lemma or_else_Inr [io_elims]: "or_else m e s = (Inr x, t) \<longleftrightarrow> m s = (Inr x, t)"
  by (auto simp: or_else_def split: prod.splits sum.splits)

lemma or_else_Inl [io_elims]:
  "or_else m e s = (Inl e', t) \<longleftrightarrow> (\<exists>e0. m s = (Inl e0, t) \<and> e' = instead e e0)"
  by (auto simp: or_else_def split: prod.splits sum.splits)

lemma on_error_Inr [io_elims]: "on_error m c s = (Inr x, t) \<longleftrightarrow> m s = (Inr x, t)"
  by (auto simp: on_error_def split: prod.splits sum.splits)

text \<open>
  A relation between the states before and after, kept by every run whatever its result:
  the shape of all frame lemmas.
\<close>

definition keeps :: "('s \<Rightarrow> 's \<Rightarrow> bool) \<Rightarrow> ('s, 'a) io \<Rightarrow> bool" where
  "keeps R m \<longleftrightarrow> (\<forall>s r t. m s = (r, t) \<longrightarrow> R s t)"

lemma keepsD: "keeps R m \<Longrightarrow> m s = (r, t) \<Longrightarrow> R s t"
  by (simp add: keeps_def)

lemma keeps_ret [intro]: "reflp R \<Longrightarrow> keeps R (ret x)"
  by (simp add: keeps_def reflp_def)

lemma keeps_fail [intro]: "reflp R \<Longrightarrow> keeps R (fail e)"
  by (simp add: keeps_def reflp_def)

lemma keeps_check [intro]: "reflp R \<Longrightarrow> keeps R (check b e)"
  by (simp add: check_def keeps_ret keeps_fail)

lemma keeps_andthen:
  assumes "transp R" "keeps R m" "\<And>x. keeps R (k x)"
  shows "keeps R (andthen m k)"
  unfolding keeps_def
proof (intro allI impI)
  fix s r t assume run: "andthen m k s = (r, t)"
  show "R s t"
  proof (cases r)
    case (Inl e)
    with run assms show ?thesis
      by (auto simp: andthen_Inl keeps_def) (metis transpD)
  next
    case (Inr y)
    with run assms show ?thesis
      by (auto simp: andthen_Inr keeps_def) (metis transpD)
  qed
qed

lemma keeps_attempt:
  assumes "transp R" "keeps R m" "\<And>r. keeps R (k r)"
  shows "keeps R (attempt m k)"
  using assms by (fastforce simp: attempt_def keeps_def split: prod.splits dest: transpD)

lemma keeps_or_else: "keeps R m \<Longrightarrow> keeps R (or_else m e)"
  by (auto simp: keeps_def or_else_def split: prod.splits sum.splits)

lemma keeps_on_error:
  assumes "transp R" "keeps R m" "keeps R c"
  shows "keeps R (on_error m c)"
proof -
  have c: "R t u" if "c t = (r, u)" for t r u
    using assms(3) that by (auto simp: keeps_def)
  show ?thesis
    unfolding keeps_def
  proof (intro allI impI)
    fix s r u assume "on_error m c s = (r, u)"
    then obtain q t where m: "m s = (q, t)" and "u = t \<or> (\<exists>q. c t = (q, u))"
      by (cases "m s") (auto simp: on_error_def split: sum.splits prod.splits)
    with c have "u = t \<or> R t u" by blast
    moreover have "R s t" using m assms(2) by (auto simp: keeps_def)
    ultimately show "R s u" using assms(1) by (auto dest: transpD)
  qed
qed

text \<open>
  Weakest preconditions: every run of \<open>m\<close> from \<open>s\<close> that fails ends in \<open>E\<close>, every one that
  returns ends in \<open>Q\<close>. (All functions of the model are total, so a run always exists.)
\<close>

definition wp :: "('s, 'a) io \<Rightarrow> (errno \<Rightarrow> 's \<Rightarrow> bool) \<Rightarrow> ('a \<Rightarrow> 's \<Rightarrow> bool) \<Rightarrow> 's \<Rightarrow> bool" where
  "wp m E Q s \<longleftrightarrow> (case m s of (Inl e, t) \<Rightarrow> E e t | (Inr x, t) \<Rightarrow> Q x t)"

named_theorems wp_simps "computing weakest preconditions"

lemma wp_ret [wp_simps]: "wp (ret x) E Q = Q x"
  by (simp add: wp_def fun_eq_iff)

lemma wp_fail [wp_simps]: "wp (fail e) E Q = E e"
  by (simp add: wp_def fun_eq_iff)

lemma wp_check [wp_simps]: "wp (check b e) E Q = (if b then Q () else E e)"
  by (simp add: check_def wp_simps)

lemma wp_andthen [wp_simps]: "wp (andthen m k) E Q = wp m E (\<lambda>x. wp (k x) E Q)"
  by (simp add: wp_def andthen_def fun_eq_iff split: prod.splits sum.splits)

lemma wp_attempt [wp_simps]:
  "wp (attempt m k) E Q = wp m (\<lambda>e. wp (k (Inl e)) E Q) (\<lambda>x. wp (k (Inr x)) E Q)"
  by (simp add: wp_def attempt_def fun_eq_iff split: prod.splits sum.splits)

lemma wp_or_else [wp_simps]: "wp (or_else m e) E Q = wp m (\<lambda>x. E (instead e x)) Q"
  by (simp add: wp_def or_else_def fun_eq_iff split: prod.splits sum.splits)

lemma wp_on_error [wp_simps]:
  "wp (on_error m c) E Q = wp m (\<lambda>e. wp c (\<lambda>x. E (instead e x)) (\<lambda>_. E e)) Q"
  by (simp add: wp_def on_error_def fun_eq_iff split: prod.splits sum.splits)

lemma wp_ignoring [wp_simps]:
  "wp (ignoring m) E Q = wp m (\<lambda>x. if x = UNDEF then E UNDEF else Q ()) (\<lambda>_. Q ())"
  by (simp add: wp_def ignoring_def fun_eq_iff split: prod.splits sum.splits)

lemma wp_if [wp_simps]:
  "wp (if b then m else n) E Q = (if b then wp m E Q else wp n E Q)"
  by simp

lemma wp_mono:
  assumes "wp m E Q s" "\<And>e t. E e t \<Longrightarrow> E' e t" "\<And>x t. Q x t \<Longrightarrow> Q' x t"
  shows "wp m E' Q' s"
  using assms by (auto simp: wp_def split: prod.splits sum.splits)

lemma wpI:
  assumes "\<And>e t. m s = (Inl e, t) \<Longrightarrow> E e t" "\<And>x t. m s = (Inr x, t) \<Longrightarrow> Q x t"
  shows "wp m E Q s"
  using assms by (auto simp: wp_def split: prod.splits sum.splits)

lemma wp_Inr: "wp m E Q s \<Longrightarrow> m s = (Inr x, t) \<Longrightarrow> Q x t"
  by (simp add: wp_def)

lemma wp_Inl: "wp m E Q s \<Longrightarrow> m s = (Inl e, t) \<Longrightarrow> E e t"
  by (simp add: wp_def)

lemma wp_both: "wp m (\<lambda>_. P) (\<lambda>_. P) s \<Longrightarrow> m s = (r, t) \<Longrightarrow> P t"
  by (cases r) (auto dest: wp_Inr wp_Inl)

text \<open>A run that cannot fail succeeds.\<close>

lemma wp_succeeds: "wp m (\<lambda>_ _. False) Q s \<Longrightarrow> \<exists>x t. m s = (Inr x, t) \<and> Q x t"
  by (auto simp: wp_def split: prod.splits sum.splits)

lemma wp_succeeds_unit:
  fixes m :: "('s, unit) io"
  shows "wp m (\<lambda>_ _. False) Q s \<Longrightarrow> \<exists>t. m s = (Inr (), t) \<and> Q () t"
  by (auto simp: wp_def split: prod.splits sum.splits)

lemma wp_fails: "wp m E (\<lambda>_ _. False) s \<Longrightarrow> \<exists>e t. m s = (Inl e, t) \<and> E e t"
  by (auto simp: wp_def split: prod.splits sum.splits)

lemma wp_conj:
  assumes "wp m E Q s" "wp m E' Q' s"
  shows "wp m (\<lambda>e t. E e t \<and> E' e t) (\<lambda>x t. Q x t \<and> Q' x t) s"
  using assms by (auto simp: wp_def split: prod.splits sum.splits)

section \<open>Buffers\<close>

text \<open>Copying \<open>n\<close> bytes of \<open>g\<close> to offset \<open>off\<close> (\<open>memcpy(f + off, g, n)\<close>).\<close>

definition blit :: "buf \<Rightarrow> nat \<Rightarrow> nat \<Rightarrow> buf \<Rightarrow> buf" where
  "blit f off n g = (\<lambda>i. if off \<le> i \<and> i < off + n then g (i - off) else f i)"

text \<open>A buffer of \<open>n\<close> bytes: what lies behind them is not content and reads as 0.\<close>

definition clip :: "nat \<Rightarrow> buf \<Rightarrow> buf" where
  "clip n f = (\<lambda>i. if i < n then f i else 0)"

text \<open>\<open>memset(f + off, v, n)\<close>.\<close>

definition fill :: "buf \<Rightarrow> nat \<Rightarrow> nat \<Rightarrow> u8 \<Rightarrow> buf" where
  "fill f off n v = blit f off n (\<lambda>_. v)"

definition bytes_of :: "u8 list \<Rightarrow> buf" where
  "bytes_of xs = (\<lambda>i. if i < length xs then xs ! i else 0)"

definition list_of :: "buf \<Rightarrow> nat \<Rightarrow> nat \<Rightarrow> u8 list" where
  "list_of f off n = map (\<lambda>i. f (off + i)) [0..<n]"

lemma clip_in [simp]: "i < n \<Longrightarrow> clip n f i = f i"
  by (simp add: clip_def)

lemma clip_out [simp]: "n \<le> i \<Longrightarrow> clip n f i = 0"
  by (simp add: clip_def)

lemma clip_cong: "(\<And>i. i < n \<Longrightarrow> f i = g i) \<Longrightarrow> clip n f = clip n g"
  by (auto simp: clip_def)

lemma clip_eq_iff: "clip n f = clip n g \<longleftrightarrow> (\<forall>i<n. f i = g i)"
  by (auto simp: clip_def fun_eq_iff)

lemma clip_clip [simp]: "clip n (clip n f) = clip n f"
  by (simp add: clip_def fun_eq_iff)

lemma blit_in [simp]: "off \<le> i \<Longrightarrow> i < off + n \<Longrightarrow> blit f off n g i = g (i - off)"
  by (simp add: blit_def)

lemma blit_before [simp]: "i < off \<Longrightarrow> blit f off n g i = f i"
  by (simp add: blit_def)

lemma blit_after [simp]: "off + n \<le> i \<Longrightarrow> blit f off n g i = f i"
  by (simp add: blit_def)

lemma blit_0 [simp]: "blit f off 0 g = f"
  by (auto simp: blit_def fun_eq_iff)

lemma blit_cong: "(\<And>i. i < n \<Longrightarrow> g i = h i) \<Longrightarrow> blit f off n g = blit f off n h"
  by (auto simp: blit_def fun_eq_iff)

lemma blit_clip [simp]: "blit f off n (clip n g) = blit f off n g"
  by (rule blit_cong) simp

lemma blit_append:
  "blit (blit f off m g) (off + m) n (\<lambda>i. g (m + i)) = blit f off (m + n) g"
  by (auto simp: blit_def fun_eq_iff)

lemma list_of_nth [simp]: "i < n \<Longrightarrow> list_of f off n ! i = f (off + i)"
  by (simp add: list_of_def)

lemma length_list_of [simp]: "length (list_of f off n) = n"
  by (simp add: list_of_def)

lemma bytes_of_list_of [simp]: "bytes_of (list_of f off n) = clip n (\<lambda>i. f (off + i))"
  by (auto simp: bytes_of_def clip_def fun_eq_iff)

lemma list_of_bytes_of [simp]: "list_of (bytes_of xs) 0 (length xs) = xs"
  by (rule nth_equalityI) (simp_all add: bytes_of_def)

lemma list_of_cong:
  "(\<And>i. i < n \<Longrightarrow> f (off + i) = g (off' + i)) \<Longrightarrow> list_of f off n = list_of g off' n"
  by (simp add: list_of_def)

section \<open>Bits and words\<close>

text \<open>The C test \<open>(b & (1U << k)) != 0\<close> on a byte.\<close>

definition test_bit8 :: "u8 \<Rightarrow> nat \<Rightarrow> bool" where
  "test_bit8 b k \<longleftrightarrow> b AND push_bit k 1 \<noteq> 0"

lemma test_bit8_iff: "k < 8 \<Longrightarrow> test_bit8 b k = bit b k"
  unfolding test_bit8_def by (subst bit_eq_iff) (auto simp: bit_simps)

lemma bit_or_one: "k < 8 \<Longrightarrow> bit ((b :: u8) OR push_bit k 1) j \<longleftrightarrow> bit b j \<or> j = k"
  by (auto simp: bit_simps)

lemma bit_and_not_one: "k < 8 \<Longrightarrow> bit ((b :: u8) AND NOT (push_bit k 1)) j \<longleftrightarrow> bit b j \<and> j \<noteq> k"
  using bit_imp_le_length [of b j] by (auto simp: bit_simps)

lemma bit_or_pow: "k < 8 \<Longrightarrow> bit ((b :: u8) OR 2 ^ k) j \<longleftrightarrow> bit b j \<or> j = k"
  using bit_or_one [of k b j] by (simp add: push_bit_of_1)

lemma bit_and_not_pow: "k < 8 \<Longrightarrow> bit ((b :: u8) AND NOT (2 ^ k)) j \<longleftrightarrow> bit b j \<and> j \<noteq> k"
  using bit_and_not_one [of k b j] by (simp add: push_bit_of_1)

lemma unat_le_max32: "unat (x :: u32) < 4294967296"
  using unsigned_less [of x] by simp

lemma unat_of_nat32: "n < 4294967296 \<Longrightarrow> unat (of_nat n :: u32) = n"
  by (simp add: unsigned_of_nat take_bit_nat_eq_self)

lemma sum_update_word:
  fixes f g :: "nat \<Rightarrow> u32"
  assumes "k < n" "\<And>j. j < n \<Longrightarrow> j \<noteq> k \<Longrightarrow> g j = f j"
  shows "(\<Sum>j<n. g j) = (\<Sum>j<n. f j) + g k - f k"
proof -
  have "(\<Sum>j<n. g j) = g k + (\<Sum>j\<in>{..<n} - {k}. g j)"
    using assms(1) by (subst sum.remove [of _ k]) auto
  also have "(\<Sum>j\<in>{..<n} - {k}. g j) = (\<Sum>j\<in>{..<n} - {k}. f j)"
    using assms(2) by (intro sum.cong) auto
  also have "\<dots> = (\<Sum>j<n. f j) - f k"
    using assms(1) by (subst (2) sum.remove [of _ k]) auto
  finally show ?thesis by simp
qed

end
