(* ===== verification/Bytes.thy ===== *)
theory Bytes
  imports Prelude
begin

text \<open>
  Big-endian and little-endian integer access to byte buffers (\<open>src/src/core/layout.c\<close> and the
  little-endian readers of \<open>src/src/core/image.c\<close>): each access is a definition over a buffer and
  an offset, with the laws a memory of cells has: what was written is read back, and disjoint
  accesses do not interfere.
\<close>

definition read_be16 :: "buf \<Rightarrow> nat \<Rightarrow> u16" where
  "read_be16 b p = push_bit 8 (ucast (b p)) OR ucast (b (p + 1))"

definition read_be32 :: "buf \<Rightarrow> nat \<Rightarrow> u32" where
  "read_be32 b p = push_bit 24 (ucast (b p)) OR push_bit 16 (ucast (b (p + 1))) OR
     push_bit 8 (ucast (b (p + 2))) OR ucast (b (p + 3))"

definition write_be16 :: "buf \<Rightarrow> nat \<Rightarrow> u16 \<Rightarrow> buf" where
  "write_be16 b p v = b(p := ucast (drop_bit 8 v), p + 1 := ucast v)"

definition write_be32 :: "buf \<Rightarrow> nat \<Rightarrow> u32 \<Rightarrow> buf" where
  "write_be32 b p v = b(p := ucast (drop_bit 24 v), p + 1 := ucast (drop_bit 16 v),
     p + 2 := ucast (drop_bit 8 v), p + 3 := ucast v)"

definition write_be64 :: "buf \<Rightarrow> nat \<Rightarrow> u64 \<Rightarrow> buf" where
  "write_be64 b p v = write_be32 (write_be32 b p (ucast (drop_bit 32 v))) (p + 4) (ucast v)"

definition read_be64 :: "buf \<Rightarrow> nat \<Rightarrow> u64" where
  "read_be64 b p = push_bit 32 (ucast (read_be32 b p)) OR ucast (read_be32 b (p + 4))"

definition read_le32 :: "buf \<Rightarrow> nat \<Rightarrow> u32" where
  "read_le32 b p = ucast (b p) OR push_bit 8 (ucast (b (p + 1))) OR
     push_bit 16 (ucast (b (p + 2))) OR push_bit 24 (ucast (b (p + 3)))"

definition read_le64 :: "buf \<Rightarrow> nat \<Rightarrow> u64" where
  "read_le64 b p = ucast (read_le32 b p) OR push_bit 32 (ucast (read_le32 b (p + 4)))"

text \<open>The four bytes \<open>nextufs_vdi_write_le32\<close> assembles before its write.\<close>

definition le32_bytes :: "u32 \<Rightarrow> buf" where
  "le32_bytes v = bytes_of [ucast v, ucast (drop_bit 8 v), ucast (drop_bit 16 v),
     ucast (drop_bit 24 v)]"

named_theorems cell_simps "reading what was written, and not reading what was not"

lemma read_write_be16 [cell_simps]: "read_be16 (write_be16 b p v) p = v"
  unfolding read_be16_def write_be16_def
  by (rule bit_word_eqI) (auto simp: bit_simps)

lemma read_write_be32 [cell_simps]: "read_be32 (write_be32 b p v) p = v"
proof (rule bit_word_eqI)
  fix n assume "n < LENGTH(32)"
  then show "bit (read_be32 (write_be32 b p v) p) n \<longleftrightarrow> bit v n"
    unfolding read_be32_def write_be32_def
    by (cases "n < 8"; cases "n < 16"; cases "n < 24") (auto simp: bit_simps)
qed

lemma write_be16_other [cell_simps]:
  "i < p \<or> p + 2 \<le> i \<Longrightarrow> write_be16 b p v i = b i"
  by (auto simp: write_be16_def)

lemma write_be32_other [cell_simps]:
  "i < p \<or> p + 4 \<le> i \<Longrightarrow> write_be32 b p v i = b i"
  by (auto simp: write_be32_def)

lemma read_be32_cong:
  "(\<And>i. p \<le> i \<Longrightarrow> i < p + 4 \<Longrightarrow> b i = c i) \<Longrightarrow> read_be32 b p = read_be32 c p"
  by (simp add: read_be32_def)

lemma read_be16_cong:
  "(\<And>i. p \<le> i \<Longrightarrow> i < p + 2 \<Longrightarrow> b i = c i) \<Longrightarrow> read_be16 b p = read_be16 c p"
  by (simp add: read_be16_def)

lemma read_be32_write_be32_other [cell_simps]:
  "q + 4 \<le> p \<or> p + 4 \<le> q \<Longrightarrow> read_be32 (write_be32 b p v) q = read_be32 b q"
  by (rule read_be32_cong) (auto simp: cell_simps)

lemma read_be32_write_be16_other [cell_simps]:
  "q + 4 \<le> p \<or> p + 2 \<le> q \<Longrightarrow> read_be32 (write_be16 b p v) q = read_be32 b q"
  by (rule read_be32_cong) (auto simp: cell_simps)

lemma read_be16_write_be32_other [cell_simps]:
  "q + 2 \<le> p \<or> p + 4 \<le> q \<Longrightarrow> read_be16 (write_be32 b p v) q = read_be16 b q"
  by (rule read_be16_cong) (auto simp: cell_simps)

lemma read_be16_write_be16_other [cell_simps]:
  "q + 2 \<le> p \<or> p + 2 \<le> q \<Longrightarrow> read_be16 (write_be16 b p v) q = read_be16 b q"
  by (rule read_be16_cong) (auto simp: cell_simps)

lemma read_be32_upd_other [cell_simps]:
  "i < q \<or> q + 4 \<le> i \<Longrightarrow> read_be32 (b(i := x)) q = read_be32 b q"
  by (rule read_be32_cong) auto

lemma read_be16_upd_other [cell_simps]:
  "i < q \<or> q + 2 \<le> i \<Longrightarrow> read_be16 (b(i := x)) q = read_be16 b q"
  by (rule read_be16_cong) auto

lemma read_be32_clip [cell_simps]: "p + 4 \<le> n \<Longrightarrow> read_be32 (clip n b) p = read_be32 b p"
  by (rule read_be32_cong) simp

lemma read_be16_clip [cell_simps]: "p + 2 \<le> n \<Longrightarrow> read_be16 (clip n b) p = read_be16 b p"
  by (rule read_be16_cong) simp

lemma read_be32_shift: "read_be32 (\<lambda>i. b (k + i)) p = read_be32 b (k + p)"
  by (simp add: read_be32_def add.assoc)

lemma read_be16_shift: "read_be16 (\<lambda>i. b (k + i)) p = read_be16 b (k + p)"
  by (simp add: read_be16_def add.assoc)

lemma write_be64_other [cell_simps]:
  "i < p \<or> p + 8 \<le> i \<Longrightarrow> write_be64 b p v i = b i"
  by (auto simp: write_be64_def cell_simps)

lemma read_be32_write_be64_other [cell_simps]:
  "q + 4 \<le> p \<or> p + 8 \<le> q \<Longrightarrow> read_be32 (write_be64 b p v) q = read_be32 b q"
  by (rule read_be32_cong) (auto simp: cell_simps)

lemma read_be16_write_be64_other [cell_simps]:
  "q + 2 \<le> p \<or> p + 8 \<le> q \<Longrightarrow> read_be16 (write_be64 b p v) q = read_be16 b q"
  by (rule read_be16_cong) (auto simp: cell_simps)

lemma read_be64_cong:
  "(\<And>i. p \<le> i \<Longrightarrow> i < p + 8 \<Longrightarrow> b i = c i) \<Longrightarrow> read_be64 b p = read_be64 c p"
  by (simp add: read_be64_def read_be32_def)

lemma read_write_be64 [cell_simps]: "read_be64 (write_be64 b p v) p = v"
proof -
  have "read_be32 (write_be64 b p v) p = ucast (drop_bit 32 v)"
    "read_be32 (write_be64 b p v) (p + 4) = ucast v"
    by (simp_all add: write_be64_def cell_simps)
  then show ?thesis
    unfolding read_be64_def by (auto intro!: bit_word_eqI simp: bit_simps)
qed

lemma read_be64_write_be32_other [cell_simps]:
  "q + 8 \<le> p \<or> p + 4 \<le> q \<Longrightarrow> read_be64 (write_be32 b p v) q = read_be64 b q"
  by (rule read_be64_cong) (auto simp: cell_simps)

lemma read_be64_write_be16_other [cell_simps]:
  "q + 8 \<le> p \<or> p + 2 \<le> q \<Longrightarrow> read_be64 (write_be16 b p v) q = read_be64 b q"
  by (rule read_be64_cong) (auto simp: cell_simps)

lemma read_be64_clip [cell_simps]: "p + 8 \<le> n \<Longrightarrow> read_be64 (clip n b) p = read_be64 b p"
  by (rule read_be64_cong) simp

lemma read_le32_le32_bytes: "read_le32 (le32_bytes v) 0 = v"
proof (rule bit_word_eqI)
  fix n assume "n < LENGTH(32)"
  then show "bit (read_le32 (le32_bytes v) 0) n \<longleftrightarrow> bit v n"
    unfolding read_le32_def le32_bytes_def bytes_of_def
    by (cases "n < 8"; cases "n < 16"; cases "n < 24") (auto simp: bit_simps nth_Cons')
qed

lemma read_be32_zero [simp]: "read_be32 (\<lambda>_. 0) p = 0"
  by (simp add: read_be32_def)

lemma read_be16_zero [simp]: "read_be16 (\<lambda>_. 0) p = 0"
  by (simp add: read_be16_def)

text \<open>The bytes of a word that has been read.\<close>

lemma be32_bytes:
  "ucast (drop_bit 24 (read_be32 b p)) = b p" "ucast (drop_bit 16 (read_be32 b p)) = b (p + 1)"
  "ucast (drop_bit 8 (read_be32 b p)) = b (p + 2)" "ucast (read_be32 b p) = b (p + 3)"
  by (rule bit_word_eqI; auto simp: read_be32_def bit_simps dest: bit_imp_le_length)+

end
