(* ===== verification/HostIO.thy ===== *)
theory HostIO
  imports Bytes
begin

text \<open>
  The host side: regular files accessed with \<open>pread\<close> and \<open>pwrite\<close>, the clock and the heap. The
  operating system is an oracle: the event at the current tick says whether the next call
  transfers everything it can, only some bytes (a short count, 0 included) or fails with an
  \<open>errno\<close>. On top of it, the loops \<open>nextufs__read_exact_fd\<close> and \<open>nextufs__write_exact_fd\<close> of
  \<open>src/src/core/layout.c\<close> transfer a whole range or report an error.
\<close>

datatype os_event = OsFull | OsShort nat | OsFail errno

record os =
  events :: "nat \<Rightarrow> os_event"
  clock :: "nat \<Rightarrow> u32"
  ticks :: nat

definition tick :: "os \<Rightarrow> os" where
  "tick s = s\<lparr>ticks := Suc (ticks s)\<rparr>"

text \<open>\<open>malloc\<close> and \<open>calloc\<close>: the outcome only, the contents are the caller's.\<close>

definition malloc :: "(os, unit) io" where
  "malloc = (\<lambda>s. case events s (ticks s) of
     OsFail _ \<Rightarrow> (Inl ENOMEM, tick s) | _ \<Rightarrow> (Inr (), tick s))"

definition time :: "(os, u32) io" where
  "time = (\<lambda>s. (Inr (clock s (ticks s)), tick s))"

text \<open>A regular file: its size, and its bytes (those behind the end are not content).\<close>

record hostfile =
  fsize :: nat
  fbytes :: buf

definition file_byte :: "hostfile \<Rightarrow> buf" where
  "file_byte f = clip (fsize f) (fbytes f)"

definition file_write :: "hostfile \<Rightarrow> nat \<Rightarrow> nat \<Rightarrow> buf \<Rightarrow> hostfile" where
  "file_write f off n data = f\<lparr>fsize := max (fsize f) (off + n),
     fbytes := blit (file_byte f) off n data\<rparr>"

text \<open>The number of bytes one system call transfers out of \<open>n\<close> possible ones, or its error.\<close>

fun transferred :: "os_event \<Rightarrow> nat \<Rightarrow> errno + nat" where
  "transferred OsFull n = Inr n"
| "transferred (OsShort k) n = Inr (min k n)"
| "transferred (OsFail e) n = Inl e"

definition pread :: "hostfile \<Rightarrow> nat \<Rightarrow> int \<Rightarrow> (os, nat) io" where
  "pread f n off = (\<lambda>s.
     (if off < 0 then Inl EINVAL
      else transferred (events s (ticks s)) (min n (fsize f - nat off)), tick s))"

definition pwrite :: "buf \<Rightarrow> nat \<Rightarrow> int \<Rightarrow> (hostfile \<times> os, nat) io" where
  "pwrite data n off = (\<lambda>(f, s).
     if off < 0 then (Inl EINVAL, (f, tick s))
     else case transferred (events s (ticks s)) n of
       Inl e \<Rightarrow> (Inl e, (f, tick s))
     | Inr k \<Rightarrow> (Inr k, (if k = 0 then f else file_write f (nat off) k data, tick s)))"

function read_loop :: "hostfile \<Rightarrow> nat \<Rightarrow> int \<Rightarrow> nat \<Rightarrow> buf \<Rightarrow> (os, buf) io" where
  "read_loop f sz off done out s =
     (if done < sz then
        (case pread f (sz - done) (off + int done) s of
           (Inl e, t) \<Rightarrow> (Inl e, t)
         | (Inr n, t) \<Rightarrow>
             if n = 0 then (Inl EIO, t)
             else read_loop f sz off (done + n)
               (blit out done n (\<lambda>i. fbytes f (nat (off + int done) + i))) t)
      else (Inr out, s))"
  by pat_completeness auto
termination
  by (relation "measure (\<lambda>(f, sz, off, done, out, s). sz - done)") auto

definition read_exact_fd :: "hostfile \<Rightarrow> nat \<Rightarrow> int \<Rightarrow> (os, buf) io" where
  "read_exact_fd f sz off = read_loop f sz off 0 (\<lambda>_. 0)"

function write_loop :: "buf \<Rightarrow> nat \<Rightarrow> int \<Rightarrow> nat \<Rightarrow> (hostfile \<times> os, unit) io" where
  "write_loop data sz off done st =
     (if done < sz then
        (case pwrite (\<lambda>i. data (done + i)) (sz - done) (off + int done) st of
           (Inl e, t) \<Rightarrow> (Inl e, t)
         | (Inr n, t) \<Rightarrow>
             if n = 0 then (Inl EIO, t) else write_loop data sz off (done + n) t)
      else (Inr (), st))"
  by pat_completeness auto
termination
  by (relation "measure (\<lambda>(data, sz, off, done, st). sz - done)") auto

definition write_exact_fd :: "buf \<Rightarrow> nat \<Rightarrow> int \<Rightarrow> (hostfile \<times> os, unit) io" where
  "write_exact_fd data sz off = write_loop data sz off 0"

declare read_loop.simps [simp del] write_loop.simps [simp del]

section \<open>What the transfer loops guarantee\<close>

lemma fsize_file_write [simp]: "fsize (file_write f off n data) = max (fsize f) (off + n)"
  by (simp add: file_write_def)

lemma file_byte_file_write [simp]:
  "file_byte (file_write f off n data) = blit (file_byte f) off n data"
  by (auto simp: file_byte_def file_write_def blit_def clip_def fun_eq_iff)

lemma transferred_le: "transferred e n = Inr k \<Longrightarrow> k \<le> n"
  by (cases e) auto

lemma pread_Inr:
  "pread f n off s = (Inr k, t) \<Longrightarrow> 0 \<le> off \<and> k \<le> n \<and> k \<le> fsize f - nat off"
  by (auto simp: pread_def split: if_splits dest: transferred_le)

text \<open>
  A read that succeeds, whatever the short counts on the way, returns exactly the bytes of the
  range, and the range lies inside the file.
\<close>

lemma read_loop_Inr:
  assumes "read_loop f sz off done out s = (Inr b, t)" "done \<le> sz"
    "done = 0 \<or> 0 \<le> off \<and> nat off + done \<le> fsize f"
    "out = clip done (\<lambda>i. fbytes f (nat off + i))"
  shows "b = clip sz (\<lambda>i. fbytes f (nat off + i)) \<and>
    (sz = 0 \<or> 0 \<le> off \<and> nat off + sz \<le> fsize f)"
  using assms
proof (induction f sz off "done" out s rule: read_loop.induct)
  case (1 f sz off "done" out s)
  show ?case
  proof (cases "done < sz")
    case False
    with "1.prems" show ?thesis by (auto simp: read_loop.simps [of f sz off "done"])
  next
    case True
    with "1.prems"(1) obtain n s' where p: "pread f (sz - done) (off + int done) s = (Inr n, s')"
      and n: "n \<noteq> 0"
      and rest: "read_loop f sz off (done + n)
        (blit out done n (\<lambda>i. fbytes f (nat (off + int done) + i))) s' = (Inr b, t)"
      by (subst (asm) read_loop.simps) (auto split: prod.splits sum.splits if_splits)
    from pread_Inr [OF p] have k: "0 \<le> off + int done" "n \<le> sz - done"
      "n \<le> fsize f - nat (off + int done)" by auto
    have off: "0 \<le> off" using "1.prems"(3) k(1) by auto
    have out: "blit out done n (\<lambda>i. fbytes f (nat (off + int done) + i)) =
      clip (done + n) (\<lambda>i. fbytes f (nat off + i))"
      using off "1.prems"(4) by (auto simp: blit_def clip_def fun_eq_iff nat_add_distrib)
    show ?thesis
      using "1.IH" [OF True p [symmetric] _ n rest] k off n True out
      by (auto simp: nat_add_distrib)
  qed
qed

lemma read_exact_fd_Inr:
  assumes "read_exact_fd f sz off s = (Inr b, t)"
  shows "b = clip sz (\<lambda>i. file_byte f (nat off + i))"
    and "sz = 0 \<or> 0 \<le> off \<and> nat off + sz \<le> fsize f"
proof -
  have b: "b = clip sz (\<lambda>i. fbytes f (nat off + i))"
    and sz: "sz = 0 \<or> 0 \<le> off \<and> nat off + sz \<le> fsize f"
    using read_loop_Inr [OF assms [unfolded read_exact_fd_def]] by (auto simp: clip_def)
  show "sz = 0 \<or> 0 \<le> off \<and> nat off + sz \<le> fsize f" by (fact sz)
  show "b = clip sz (\<lambda>i. file_byte f (nat off + i))"
    unfolding b using sz by (intro clip_cong) (auto simp: file_byte_def)
qed

lemma pwrite_Inr:
  "pwrite data n off (f, s) = (Inr k, (f', s')) \<Longrightarrow>
     0 \<le> off \<and> k \<le> n \<and> file_byte f' = blit (file_byte f) (nat off) k data \<and>
     fsize f' = (if k = 0 then fsize f else max (fsize f) (nat off + k))"
  by (auto simp: pwrite_def split: if_splits sum.splits dest: transferred_le)

lemma pwrite_Inl: "pwrite data n off (f, s) = (Inl e, (f', s')) \<Longrightarrow> f' = f"
  by (auto simp: pwrite_def split: if_splits sum.splits)

text \<open>
  A write, even one that fails half way, has written a prefix of the data and touched nothing
  else; when it succeeds the prefix is everything.
\<close>

lemma write_loop_prefix:
  assumes "write_loop data sz off done (f, s) = (r, (f', s'))" "done \<le> sz"
  shows "\<exists>k. done \<le> k \<and> k \<le> sz \<and> (k = done \<or> 0 \<le> off + int done) \<and>
    file_byte f' = blit (file_byte f) (nat (off + int done)) (k - done) (\<lambda>i. data (done + i)) \<and>
    fsize f' = (if k = done then fsize f else max (fsize f) (nat (off + int k))) \<and>
    (r = Inr () \<longrightarrow> k = sz)"
  using assms
proof (induction data sz off "done" "(f, s)" arbitrary: f s rule: write_loop.induct)
  case (1 data sz off "done" f s)
  let ?p = "pwrite (\<lambda>i. data (done + i)) (sz - done) (off + int done) (f, s)"
  show ?case
  proof (cases "done < sz")
    case False
    with "1.prems" show ?thesis
      by (intro exI [of _ "done"]) (auto simp: write_loop.simps [of data sz off "done"])
  next
    case less: True
    obtain f1 s1 where t: "snd ?p = (f1, s1)" by (cases "snd ?p") auto
    show ?thesis
    proof (cases "fst ?p")
      case (Inl e)
      with t have p: "?p = (Inl e, (f1, s1))" by (simp add: prod_eq_iff)
      with less "1.prems"(1) have "r = Inl e \<and> f' = f1"
        by (simp add: write_loop.simps [of data sz off "done"])
      with pwrite_Inl [OF p] less show ?thesis by (intro exI [of _ "done"]) auto
    next
      case (Inr n)
      with t have p: "?p = (Inr n, (f1, s1))" by (simp add: prod_eq_iff)
      note w = pwrite_Inr [OF p]
      show ?thesis
      proof (cases "n = 0")
        case True
        with less p "1.prems"(1) have "r = Inl EIO \<and> f' = f1"
          by (simp add: write_loop.simps [of data sz off "done"])
        with w True less show ?thesis by (intro exI [of _ "done"]) auto
      next
        case False
        with less p "1.prems"(1) have rest: "write_loop data sz off (done + n) (f1, s1) = (r, (f', s'))"
          by (simp add: write_loop.simps [of data sz off "done"])
        from w less have le: "done + n \<le> sz" by auto
        from "1.hyps" [OF less p [symmetric] refl False rest le]
        obtain k where k: "done + n \<le> k" "k \<le> sz" "r = Inr () \<longrightarrow> k = sz"
          and fb: "file_byte f' = blit (file_byte f1) (nat (off + int (done + n))) (k - (done + n))
            (\<lambda>i. data (done + n + i))"
          and fs: "fsize f' = (if k = done + n then fsize f1 else max (fsize f1) (nat (off + int k)))"
          by auto
        have split: "nat (off + int (done + n)) = nat (off + int done) + n"
          using w by arith
        have "file_byte f' = blit (blit (file_byte f) (nat (off + int done)) n (\<lambda>i. data (done + i)))
            (nat (off + int done) + n) (k - (done + n)) (\<lambda>i. data (done + (n + i)))"
          unfolding fb split using w by (simp add: add.assoc)
        then have "file_byte f' = blit (file_byte f) (nat (off + int done)) (n + (k - (done + n)))
            (\<lambda>i. data (done + i))"
          by (simp only: blit_append [of _ _ n "\<lambda>i. data (done + i)"])
        moreover have "n + (k - (done + n)) = k - done" using k by simp
        moreover have "nat (off + int done) + n \<le> nat (off + int k)"
          "k = done + n \<Longrightarrow> nat (off + int k) = nat (off + int done) + n"
          using w k(1) by arith+
        then have "fsize f' = max (fsize f) (nat (off + int k))"
          using fs w False by (simp add: max.absorb2 max.assoc split: if_splits)
        moreover have "k \<noteq> done" using k(1) False by simp
        ultimately show ?thesis
          using w k by (intro exI [of _ k]) simp
      qed
    qed
  qed
qed

lemma write_exact_fd_prefix:
  assumes "write_exact_fd data sz off (f, s) = (r, (f', s'))"
  obtains k where "k \<le> sz" "file_byte f' = blit (file_byte f) (nat off) k data"
    "fsize f' = (if k = 0 then fsize f else max (fsize f) (nat off + k))"
    "k = 0 \<or> 0 \<le> off" "r = Inr () \<Longrightarrow> k = sz"
proof -
  from write_loop_prefix [OF assms [unfolded write_exact_fd_def]]
  obtain k where "k \<le> sz" "file_byte f' = blit (file_byte f) (nat off) k data"
    "k = 0 \<or> 0 \<le> off" "fsize f' = (if k = 0 then fsize f else max (fsize f) (nat (off + int k)))"
    "r = Inr () \<longrightarrow> k = sz"
    by auto
  then show ?thesis
    by (intro that [of k]) (auto simp: nat_add_distrib)
qed

end
