(* ===== verification/Backend.thy ===== *)
theory Backend
  imports HostIO
begin

text \<open>
  The storage backends of \<open>src/src/core/image.c\<close>: a raw file, and a VirtualBox VDI file with an
  optional parent image (a chain of differencing images). \<open>image_store\<close> states what the rest of
  the program relies on when it calls \<open>ops->read\<close> and \<open>ops->write\<close>: a linear array of bytes.
  Both backends are shown to provide it.
\<close>

section \<open>The interface\<close>

locale image_store =
  fixes rd :: "nat \<Rightarrow> int \<Rightarrow> ('s, buf) io"
    and wr :: "buf \<Rightarrow> nat \<Rightarrow> int \<Rightarrow> ('s, unit) io"
    and content :: "'s \<Rightarrow> buf"
    and inv :: "'s \<Rightarrow> bool"
  assumes rd_keeps: "inv s \<Longrightarrow> rd n off s = (r, t) \<Longrightarrow> inv t \<and> content t = content s"
    and rd_value: "inv s \<Longrightarrow> rd n off s = (Inr b, t) \<Longrightarrow>
      b = clip n (\<lambda>i. content s (nat off + i))"
    and wr_prefix: "inv s \<Longrightarrow> wr d n off s = (q, t) \<Longrightarrow>
      inv t \<and> (\<exists>k\<le>n. content t = blit (content s) (nat off) k d \<and> (q = Inr () \<longrightarrow> k = n))"
begin

lemma wr_inv: "inv s \<Longrightarrow> wr d n off s = (r, t) \<Longrightarrow> inv t"
  by (simp add: wr_prefix)

lemma rd_inv: "inv s \<Longrightarrow> rd n off s = (r, t) \<Longrightarrow> inv t"
  by (simp add: rd_keeps)

lemma rd_content: "inv s \<Longrightarrow> rd n off s = (r, t) \<Longrightarrow> content t = content s"
  by (simp add: rd_keeps)

lemma wr_value:
  "inv s \<Longrightarrow> wr d n off s = (Inr (), t) \<Longrightarrow> content t = blit (content s) (nat off) n d"
  using wr_prefix [of s d n off "Inr ()" t] by auto

text \<open>Whatever its result, a write leaves everything outside its range alone.\<close>

lemma wr_frame:
  assumes "inv s" "wr d n off s = (r, t)" "i < nat off \<or> nat off + n \<le> i"
  shows "content t i = content s i"
proof -
  from wr_prefix [OF assms(1,2)] obtain k where "k \<le> n" "content t = blit (content s) (nat off) k d"
    by auto
  with assms(3) show ?thesis by (auto simp: blit_def)
qed

lemma read_back:
  assumes "inv s" "wr d n off s = (Inr (), t)" "rd n off t = (Inr b, u)"
  shows "b = clip n d"
proof -
  from assms have "b = clip n (\<lambda>i. blit (content s) (nat off) n d (nat off + i))"
    using rd_value [OF wr_inv [OF assms(1,2)] assms(3)] wr_value [OF assms(1,2)] by simp
  then show ?thesis by (auto simp: clip_def fun_eq_iff)
qed

lemma read_disjoint:
  assumes "inv s" "wr d n off s = (r, t)" "rd m off' t = (Inr b, u)"
    "nat off' + m \<le> nat off \<or> nat off + n \<le> nat off'"
  shows "b = clip m (\<lambda>i. content s (nat off' + i))"
  unfolding rd_value [OF wr_inv [OF assms(1,2)] assms(3)]
  by (intro clip_cong wr_frame [OF assms(1,2)]) (use assms(4) in auto)

text \<open>The same laws as rules for weakest preconditions.\<close>

lemma wp_rd:
  assumes "inv s" "\<And>e t. inv t \<Longrightarrow> content t = content s \<Longrightarrow> E e t"
    "\<And>t. inv t \<Longrightarrow> content t = content s \<Longrightarrow> Q (clip n (\<lambda>i. content s (nat off + i))) t"
  shows "wp (rd n off) E Q s"
  by (rule wpI) (use assms rd_keeps rd_value in metis)+

lemma wp_wr:
  assumes "inv s"
    "\<And>e t k. inv t \<Longrightarrow> k \<le> n \<Longrightarrow> content t = blit (content s) (nat off) k d \<Longrightarrow> E e t"
    "\<And>t. inv t \<Longrightarrow> content t = blit (content s) (nat off) n d \<Longrightarrow> Q () t"
  shows "wp (wr d n off) E Q s"
proof (rule wpI)
  fix e t assume "wr d n off s = (Inl e, t)"
  from wr_prefix [OF assms(1) this] assms(2) show "E e t" by blast
next
  fix x t assume "wr d n off s = (Inr x, t)"
  then have run: "wr d n off s = (Inr (), t)" by simp
  from wr_prefix [OF assms(1) this] assms(3) show "Q x t" by auto
qed

end

section \<open>Raw files\<close>

definition raw_backend_read :: "nat \<Rightarrow> int \<Rightarrow> (hostfile \<times> os, buf) io" where
  "raw_backend_read n off = (\<lambda>(f, s). case read_exact_fd f n off s of (r, t) \<Rightarrow> (r, (f, t)))"

definition raw_backend_write :: "buf \<Rightarrow> nat \<Rightarrow> int \<Rightarrow> (hostfile \<times> os, unit) io" where
  "raw_backend_write d n off = write_exact_fd d n off"

interpretation raw: image_store raw_backend_read raw_backend_write
  "\<lambda>(f, s). file_byte f" "\<lambda>_. True"
proof (unfold_locales, goal_cases)
  case (1 s n off r t)
  then show ?case by (auto simp: raw_backend_read_def split: prod.splits)
next
  case (2 s n off b t)
  then show ?case
    by (auto simp: raw_backend_read_def split: prod.splits dest: read_exact_fd_Inr(1))
next
  case (3 s d n off r t)
  obtain f o1 f' o2 where st: "s = (f, o1)" "t = (f', o2)" by (cases s, cases t) auto
  from 3 st show ?case
    by (auto simp: raw_backend_write_def elim!: write_exact_fd_prefix)
qed

section \<open>VDI images\<close>

definition VDI_MAP_UNALLOCATED :: u32 where "VDI_MAP_UNALLOCATED = 0xffffffff"
definition VDI_MAP_ZERO :: u32 where "VDI_MAP_ZERO = 0xfffffffe"
definition VDI_BLOCKS_ALLOC_OFF :: int where "VDI_BLOCKS_ALLOC_OFF = 0x184"

record vdi_backend =
  vfile :: hostfile
  image_type :: u32
  map_offset :: u32
  data_offset :: u32
  sector_size :: u32
  vblock_size :: u32
  block_extra :: u32
  block_count :: u32
  blocks_allocated :: u32
  disk_size :: u64
  block_map :: "nat \<Rightarrow> u32"
  image_uuid :: "u8 list"
  parent_uuid :: "u8 list"

text \<open>Each turn of the transfer loops below handles a positive number of bytes.\<close>

lemma chunk_progress:
  fixes bs sz x :: nat
  assumes "done < sz" "0 < bs"
  shows "sz - (done + min (bs - x mod bs) (sz - done)) < sz - done"
proof -
  have "x mod bs < bs" using assms(2) by simp
  then have "0 < min (bs - x mod bs) (sz - done)" using assms(1) by simp
  then show ?thesis using assms(1) by linarith
qed

text \<open>What a VDI file sees of its parent: the parent's size and its read operation.\<close>

type_synonym parent = "(nat \<times> (nat \<Rightarrow> int \<Rightarrow> (os, buf) io)) option"

text \<open>
  \<open>(off_t)((uint64_t)map_entry * stride)\<close>, where \<open>stride\<close> is \<open>(uint64_t)block_size + block_extra\<close>: the product
  wraps and is then read as signed. \<open>vdi_file_off\<close> is the sum of \<open>data_offset\<close>, the product, \<open>block_extra\<close> and
  \<open>block_off\<close>.
\<close>

definition vdi_entry_off :: "vdi_backend \<Rightarrow> u32 \<Rightarrow> int" where
  "vdi_entry_off v e = sint (ucast e * (ucast (vblock_size v) + ucast (block_extra v)) :: u64)"

definition vdi_file_off :: "vdi_backend \<Rightarrow> u32 \<Rightarrow> nat \<Rightarrow> int" where
  "vdi_file_off v e block_off = uint (data_offset v) + vdi_entry_off v e + uint (block_extra v) + int block_off"

definition vdi_read_chunk ::
    "vdi_backend \<Rightarrow> parent \<Rightarrow> nat \<Rightarrow> nat \<Rightarrow> nat \<Rightarrow> nat \<Rightarrow> (os, buf) io" where
  "vdi_read_chunk v par block_index guest_off block_off chunk =
     (let map_entry = block_map v block_index in
      if map_entry = VDI_MAP_UNALLOCATED then
        (case par of
           Some (psize, prd) \<Rightarrow>
             if psize \<le> guest_off then ret (\<lambda>_. 0)
             else let parent_chunk = min chunk (psize - guest_off) in
               or_else (andthen (prd parent_chunk (int guest_off)) (\<lambda>b. ret (clip parent_chunk b))) EIO
         | None \<Rightarrow> ret (\<lambda>_. 0))
      else if map_entry = VDI_MAP_ZERO then ret (\<lambda>_. 0)
      else or_else (read_exact_fd (vfile v) chunk (vdi_file_off v map_entry block_off)) EIO)"

function vdi_read_loop ::
    "vdi_backend \<Rightarrow> parent \<Rightarrow> nat \<Rightarrow> nat \<Rightarrow> nat \<Rightarrow> buf \<Rightarrow> (os, buf) io" where
  "vdi_read_loop v par sz offset done out s =
     (if sz \<le> done then (Inr out, s)
      else if vblock_size v = 0 then (Inl UNDEF, s)
      else let bs = unat (vblock_size v); guest_off = offset + done;
             block_index = (guest_off div bs) mod 2 ^ 32; block_off = guest_off mod bs;
             chunk = min (bs - block_off) (sz - done)
        in if unat (block_count v) \<le> block_index then (Inl EIO, s)
           else (case vdi_read_chunk v par block_index guest_off block_off chunk s of
               (Inl e, t) \<Rightarrow> (Inl e, t)
             | (Inr b, t) \<Rightarrow> vdi_read_loop v par sz offset (done + chunk) (blit out done chunk b) t))"
  by pat_completeness auto
termination
  by (relation "measure (\<lambda>(v, par, sz, offset, done, out, s). sz - done)")
    (simp_all add: chunk_progress unat_gt_0 not_le)

definition vdi_backend_read :: "vdi_backend \<Rightarrow> parent \<Rightarrow> nat \<Rightarrow> int \<Rightarrow> (os, buf) io" where
  "vdi_backend_read v par sz offset =
     (if offset < 0 \<or> unat (disk_size v) < nat offset + sz then fail EIO
      else vdi_read_loop v par sz (nat offset) 0 (\<lambda>_. 0))"

text \<open>File access of the backend itself, in the state of the backend and the host.\<close>

type_synonym 'a vdi_io = "(vdi_backend \<times> os, 'a) io"

definition vdi_os :: "(os, 'a) io \<Rightarrow> 'a vdi_io" where
  "vdi_os m = (\<lambda>(v, s). case m s of (r, t) \<Rightarrow> (r, (v, t)))"

definition vdi_write_fd :: "buf \<Rightarrow> nat \<Rightarrow> int \<Rightarrow> unit vdi_io" where
  "vdi_write_fd d n off = (\<lambda>(v, s).
     case write_exact_fd d n off (vfile v, s) of (r, (f, t)) \<Rightarrow> (r, (v\<lparr>vfile := f\<rparr>, t)))"

definition vdi_get :: "vdi_backend vdi_io" where
  "vdi_get = (\<lambda>(v, s). (Inr v, (v, s)))"

definition vdi_update :: "(vdi_backend \<Rightarrow> vdi_backend) \<Rightarrow> unit vdi_io" where
  "vdi_update g = (\<lambda>(v, s). (Inr (), (g v, s)))"

definition vdi_write_le32 :: "int \<Rightarrow> u32 \<Rightarrow> unit vdi_io" where
  "vdi_write_le32 off value = vdi_write_fd (le32_bytes value) 4 off"

definition vdi_materialize_block :: "parent \<Rightarrow> nat \<Rightarrow> unit vdi_io" where
  "vdi_materialize_block par block_index =
     andthen vdi_get (\<lambda>v.
     let map_entry = block_map v block_index in
     if map_entry \<noteq> VDI_MAP_UNALLOCATED \<and> map_entry \<noteq> VDI_MAP_ZERO then ret ()
     else if block_count v \<le> blocks_allocated v then fail ENOSPC
     else
     andthen (vdi_os malloc) (\<lambda>_.
     let bs = unat (vblock_size v); guest_off = block_index * bs in
     andthen (case (if map_entry = VDI_MAP_UNALLOCATED then par else None) of
         Some (_, prd) \<Rightarrow> vdi_os (prd bs (int guest_off))
       | None \<Rightarrow> ret (\<lambda>_. 0)) (\<lambda>block_buf.
     let new_entry = blocks_allocated v;
         extra = unat (block_extra v);
         block_file_off = uint (data_offset v) + vdi_entry_off v new_entry in
     andthen (if extra \<noteq> 0 then
         andthen (vdi_os malloc) (\<lambda>_. vdi_write_fd (\<lambda>_. 0) extra block_file_off)
       else ret ()) (\<lambda>_.
     andthen (vdi_write_fd block_buf bs (block_file_off + int extra)) (\<lambda>_.
     andthen (vdi_write_le32 (int (unat (map_offset v) + block_index * 4)) new_entry) (\<lambda>_.
     andthen (vdi_update (\<lambda>v. v\<lparr>block_map := (block_map v)(block_index := new_entry),
         blocks_allocated := blocks_allocated v + 1\<rparr>)) (\<lambda>_.
     vdi_write_le32 VDI_BLOCKS_ALLOC_OFF (new_entry + 1))))))))"

function vdi_write_loop :: "parent \<Rightarrow> buf \<Rightarrow> nat \<Rightarrow> nat \<Rightarrow> nat \<Rightarrow> unit vdi_io" where
  "vdi_write_loop par data sz offset done st =
     (if sz \<le> done then (Inr (), st)
      else if vblock_size (fst st) = 0 then (Inl UNDEF, st)
      else let bs = unat (vblock_size (fst st)); guest_off = offset + done;
             block_index = (guest_off div bs) mod 2 ^ 32; block_off = guest_off mod bs;
             chunk = min (bs - block_off) (sz - done)
        in if unat (block_count (fst st)) \<le> block_index then (Inl EIO, st)
           else (case vdi_materialize_block par block_index st of
               (Inl e, t) \<Rightarrow> (Inl e, t)
             | (Inr _, t) \<Rightarrow>
                 let map_entry = block_map (fst t) block_index in
                 if map_entry = VDI_MAP_UNALLOCATED \<or> map_entry = VDI_MAP_ZERO then (Inl EIO, t)
                 else (case vdi_write_fd (\<lambda>i. data (done + i)) chunk
                           (vdi_file_off (fst t) map_entry block_off) t of
                     (Inl e, u) \<Rightarrow> (Inl e, u)
                   | (Inr _, u) \<Rightarrow> vdi_write_loop par data sz offset (done + chunk) u)))"
  by pat_completeness auto
termination
  by (relation "measure (\<lambda>(par, data, sz, offset, done, st). sz - done)")
    (simp_all add: chunk_progress unat_gt_0 not_le)

definition vdi_backend_write :: "parent \<Rightarrow> buf \<Rightarrow> nat \<Rightarrow> int \<Rightarrow> unit vdi_io" where
  "vdi_backend_write par data sz offset = (\<lambda>st.
     if offset < 0 \<or> unat (disk_size (fst st)) < nat offset + sz then (Inl EIO, st)
     else vdi_write_loop par data sz (nat offset) 0 st)"

declare vdi_read_loop.simps [simp del] vdi_write_loop.simps [simp del]

end
