(* ===== verification/VdiStore.thy ===== *)
theory VdiStore
  imports Backend
begin

text \<open>
  The VDI backend refines a linear disk. \<open>vdi_content\<close> is the guest's view of an image and its
  parent; under the well-formedness \<open>vdi_ok\<close> of the block map, reads return the guest view, and
  writes, including the materialisation of unallocated blocks and writes that fail half way,
  update exactly the guest bytes they write.
\<close>

text \<open>Where a block lies in the file: the entry counts blocks of the data area.\<close>

definition vdi_place :: "vdi_backend \<Rightarrow> u32 \<Rightarrow> nat \<Rightarrow> nat" where
  "vdi_place v e j = unat (data_offset v) +
     unat e * (unat (vblock_size v) + unat (block_extra v)) + unat (block_extra v) + j"

definition vdi_content :: "vdi_backend \<Rightarrow> nat \<Rightarrow> buf \<Rightarrow> buf" where
  "vdi_content v psize pcontent x =
     (let bs = unat (vblock_size v); bi = x div bs; e = block_map v bi in
      if unat (block_count v) \<le> bi then 0
      else if e = VDI_MAP_UNALLOCATED then (if x < psize then pcontent x else 0)
      else if e = VDI_MAP_ZERO then 0
      else file_byte (vfile v) (vdi_place v e (x mod bs)))"

definition vdi_special :: "u32 \<Rightarrow> bool" where
  "vdi_special e \<longleftrightarrow> e = VDI_MAP_UNALLOCATED \<or> e = VDI_MAP_ZERO"

text \<open>
  A well-formed image: entries in use are distinct and below the allocation counter, the map
  lies before the data area, the disk is covered by the map, and a file with all its blocks
  allocated has offsets that fit into \<open>off_t\<close>.
\<close>

definition vdi_ok :: "vdi_backend \<Rightarrow> bool" where
  "vdi_ok v \<longleftrightarrow>
     vblock_size v \<noteq> 0 \<and>
     unat (disk_size v) \<le> unat (block_count v) * unat (vblock_size v) \<and>
     unat (blocks_allocated v) \<le> unat (block_count v) \<and>
     unat (block_count v) < 0xfffffffe \<and>
     0x188 \<le> unat (data_offset v) \<and>
     unat (data_offset v) + unat (block_count v) * (unat (vblock_size v) + unat (block_extra v)) \<le> 2 ^ 63 \<and>
     unat (map_offset v) + 4 * unat (block_count v) \<le> unat (data_offset v) \<and>
     (\<forall>i < unat (block_count v). vdi_special (block_map v i) \<or>
        unat (block_map v i) < unat (blocks_allocated v)) \<and>
     (\<forall>i < unat (block_count v). \<forall>j < unat (block_count v).
        \<not> vdi_special (block_map v i) \<longrightarrow> block_map v i = block_map v j \<longrightarrow> i = j)"

definition parent_ok :: "parent \<Rightarrow> nat \<Rightarrow> buf \<Rightarrow> bool" where
  "parent_ok par psize pcontent \<longleftrightarrow> (case par of
     None \<Rightarrow> psize = 0
   | Some (z, prd) \<Rightarrow> z = psize \<and> (\<forall>n off s b t. prd n off s = (Inr b, t) \<longrightarrow>
       b = clip n (\<lambda>i. pcontent (nat off + i)) \<and> (n = 0 \<or> nat off + n \<le> psize)))"

lemma parent_okD:
  "parent_ok (Some (z, prd)) psize pc \<Longrightarrow> prd n off s = (Inr b, t) \<Longrightarrow>
     b = clip n (\<lambda>i. pc (nat off + i)) \<and> (n = 0 \<or> nat off + n \<le> psize)"
  unfolding parent_ok_def by (simp only: option.case prod.case)

definition vdi_stride :: "vdi_backend \<Rightarrow> nat" where
  "vdi_stride v = unat (vblock_size v) + unat (block_extra v)"

definition data_end :: "vdi_backend \<Rightarrow> nat" where
  "data_end v = unat (data_offset v) + unat (blocks_allocated v) * vdi_stride v"

lemma vdi_block_pos: "vdi_ok v \<Longrightarrow> 0 < unat (vblock_size v)"
  by (simp add: vdi_ok_def unat_gt_0)

lemma div_mod_add:
  fixes bs :: nat
  assumes "x mod bs + i < bs"
  shows "(x + i) div bs = x div bs" "(x + i) mod bs = x mod bs + i"
proof -
  have x: "x + i = (x mod bs + i) + (x div bs) * bs"
    using mod_mult_div_eq [of x bs] by (simp add: mult.commute)
  have "0 < bs" using assms by simp
  then have "((x mod bs + i) + (x div bs) * bs) div bs = x div bs"
    using assms by (subst div_mult_self1) auto
  with arg_cong [OF x, of "\<lambda>y. y div bs"] show "(x + i) div bs = x div bs" by (rule trans)
  have "(x mod bs + i + (x div bs) * bs) mod bs = x mod bs + i"
    using assms by (subst mod_mult_self1) simp
  with arg_cong [OF x, of "\<lambda>y. y mod bs"] show "(x + i) mod bs = x mod bs + i" by (rule trans)
qed

text \<open>Under this bound the offset that the code computes is the place of the block.\<close>

lemma sint_of_nat_small: "n < 2 ^ 63 \<Longrightarrow> sint (of_nat n :: u64) = int n"
  using signed_take_bit_int_eq_self [of 63 "int n"] by (simp add: signed_of_nat)

lemma vdi_entry_off_eq:
  assumes "vdi_ok v" "unat e < unat (block_count v)"
  shows "vdi_entry_off v e = int (unat e * vdi_stride v)"
proof -
  have "unat e * vdi_stride v \<le> unat (block_count v) * vdi_stride v" using assms(2) by (intro mult_right_mono) simp_all
  moreover have "unat (block_count v) * vdi_stride v < 2 ^ 63" using assms(1) by (simp add: vdi_ok_def vdi_stride_def)
  ultimately have lt: "unat e * vdi_stride v < 2 ^ 63" by linarith
  have "ucast e * (ucast (vblock_size v) + ucast (block_extra v)) = (of_nat (unat e * vdi_stride v) :: u64)"
    by (simp add: vdi_stride_def)
  moreover have "sint (of_nat (unat e * vdi_stride v) :: u64) = int (unat e * vdi_stride v)"
    by (rule sint_of_nat_small [OF lt])
  ultimately show ?thesis by (simp add: vdi_entry_off_def)
qed

lemma vdi_file_off_eq:
  "vdi_ok v \<Longrightarrow> unat e < unat (block_count v) \<Longrightarrow> vdi_file_off v e j = int (vdi_place v e j)"
  by (simp add: vdi_file_off_def vdi_entry_off_eq vdi_place_def vdi_stride_def)

lemma vdi_entry_less:
  assumes "vdi_ok v" "i < unat (block_count v)" "\<not> vdi_special (block_map v i)"
  shows "unat (block_map v i) < unat (block_count v)"
proof -
  have "unat (block_map v i) < unat (blocks_allocated v)" using assms unfolding vdi_ok_def by blast
  also have "\<dots> \<le> unat (block_count v)" using assms(1) by (simp add: vdi_ok_def)
  finally show ?thesis .
qed

section \<open>Reading\<close>

lemma vdi_read_chunk_value:
  assumes "vdi_read_chunk v par (x div bs) x (x mod bs) chunk s = (Inr b, t)"
    "bs = unat (vblock_size v)" "0 < bs" "chunk \<le> bs - x mod bs" "parent_ok par psize pc"
    "x div bs < unat (block_count v)" "i < chunk" "vdi_ok v"
  shows "b i = vdi_content v psize pc (x + i)"
proof -
  have lt: "x mod bs + i < bs" using assms(3,4,7) by simp
  let ?e = "block_map v (x div bs)"
  have c: "vdi_content v psize pc (x + i) =
      (if ?e = VDI_MAP_UNALLOCATED then (if x + i < psize then pc (x + i) else 0)
       else if ?e = VDI_MAP_ZERO then 0
       else file_byte (vfile v) (vdi_place v ?e (x mod bs + i)))"
    using assms(2,6) div_mod_add [OF lt] by (simp add: vdi_content_def Let_def)
  consider (un) "?e = VDI_MAP_UNALLOCATED" | (zero) "?e \<noteq> VDI_MAP_UNALLOCATED" "?e = VDI_MAP_ZERO"
    | (data) "?e \<noteq> VDI_MAP_UNALLOCATED" "?e \<noteq> VDI_MAP_ZERO" by blast
  then show ?thesis
  proof cases
    case un
    show ?thesis
    proof (cases par)
      case None
      with un assms(1,5) have "b i = 0" "psize = 0" by (auto simp: vdi_read_chunk_def parent_ok_def)
      then show ?thesis unfolding c using un by simp
    next
      case (Some p)
      obtain prd where p: "p = (psize, prd)" using assms(5) Some by (cases p) (simp add: parent_ok_def)
      show ?thesis
      proof (cases "psize \<le> x")
        case True
        with un Some p assms(1) show ?thesis by (auto simp: c vdi_read_chunk_def)
      next
        case False
        with un Some p assms(1) obtain d where
          d: "prd (min chunk (psize - x)) (int x) s = (Inr d, t)" "b = clip (min chunk (psize - x)) d"
          by (auto simp: vdi_read_chunk_def Let_def io_elims)
        from assms(5) Some p d(1) have "d = clip (min chunk (psize - x)) (\<lambda>i. pc (nat (int x) + i))"
          unfolding parent_ok_def by fastforce
        with d(2) un assms(7) show ?thesis by (auto simp: c clip_def)
      qed
    qed
  next
    case zero
    with assms(1) show ?thesis by (auto simp: c vdi_read_chunk_def Let_def)
  next
    case data
    have "vdi_file_off v ?e (x mod bs) = int (vdi_place v ?e (x mod bs))"
      using data by (intro vdi_file_off_eq vdi_entry_less assms(6,8)) (simp add: vdi_special_def)
    with data assms(1) have "read_exact_fd (vfile v) chunk (int (vdi_place v ?e (x mod bs))) s = (Inr b, t)"
      by (simp add: vdi_read_chunk_def Let_def io_elims)
    from read_exact_fd_Inr(1) [OF this] assms(7)
    have "b i = file_byte (vfile v) (vdi_place v ?e (x mod bs) + i)"
      by (simp only: nat_int clip_in)
    moreover have "vdi_place v ?e (x mod bs) + i = vdi_place v ?e (x mod bs + i)"
      by (simp only: vdi_place_def add.assoc)
    ultimately show ?thesis unfolding c using data by simp
  qed
qed

lemma vdi_block_index:
  assumes "vdi_ok v" "x < unat (disk_size v)"
  shows "(x div unat (vblock_size v)) mod 4294967296 = x div unat (vblock_size v)"
    and "x div unat (vblock_size v) < unat (block_count v)"
proof -
  from assms show lt: "x div unat (vblock_size v) < unat (block_count v)"
    using vdi_block_pos [OF assms(1)] by (auto simp: vdi_ok_def less_mult_imp_div_less)
  then show "(x div unat (vblock_size v)) mod 4294967296 = x div unat (vblock_size v)"
    using unat_le_max32 [of "block_count v"] by simp
qed

lemma vdi_read_loop_value:
  assumes "vdi_read_loop v par sz offset done out s = (Inr b, t)"
    "vdi_ok v" "parent_ok par psize pc" "offset + sz \<le> unat (disk_size v)" "done \<le> sz"
    "out = clip done (\<lambda>i. vdi_content v psize pc (offset + i))"
  shows "b = clip sz (\<lambda>i. vdi_content v psize pc (offset + i))"
  using assms
proof (induction v par sz offset "done" out s rule: vdi_read_loop.induct)
  case (1 v par sz offset "done" out s)
  let ?bs = "unat (vblock_size v)" and ?x = "offset + done"
  let ?chunk = "min (?bs - ?x mod ?bs) (sz - done)"
  show ?case
  proof (cases "sz \<le> done")
    case True
    with "1.prems" show ?thesis by (simp add: vdi_read_loop.simps)
  next
    case False
    have bs: "0 < ?bs" "vblock_size v \<noteq> 0" using vdi_block_pos "1.prems"(2) by (auto simp: vdi_ok_def)
    have "?x < unat (disk_size v)" using False "1.prems"(4) by simp
    note bi = vdi_block_index [OF "1.prems"(2) this]
    from "1.prems"(1) False bs bi obtain c s' where
      c: "vdi_read_chunk v par (?x div ?bs) ?x (?x mod ?bs) ?chunk s = (Inr c, s')" and
      rest: "vdi_read_loop v par sz offset (done + ?chunk) (blit out done ?chunk c) s' = (Inr b, t)"
      by (subst (asm) vdi_read_loop.simps) (auto simp: Let_def split: prod.splits sum.splits)
    have le: "done + ?chunk \<le> sz" using False by simp
    have "c i = vdi_content v psize pc (?x + i)" if "i < ?chunk" for i
      using vdi_read_chunk_value [OF c refl bs(1) _ "1.prems"(3) bi(2) that "1.prems"(2)] by simp
    then have "blit out done ?chunk c = blit out done ?chunk (\<lambda>i. vdi_content v psize pc (?x + i))"
      by (rule blit_cong)
    then have out: "blit out done ?chunk c =
        clip (done + ?chunk) (\<lambda>i. vdi_content v psize pc (offset + i))"
      unfolding "1.prems"(6) by (auto simp: blit_def clip_def fun_eq_iff add.assoc)
    show ?thesis
      by (rule "1.IH" [OF False bs(2) refl refl _ refl refl _ _ refl rest "1.prems"(2-4) le out])
        (use bi c [symmetric] in \<open>auto simp: not_le\<close>)
  qed
qed

lemma vdi_backend_read_value:
  assumes "vdi_backend_read v par n off s = (Inr b, t)" "vdi_ok v" "parent_ok par psize pc"
  shows "b = clip n (\<lambda>i. vdi_content v psize pc (nat off + i)) \<and>
    0 \<le> off \<and> nat off + n \<le> unat (disk_size v)"
proof -
  from assms(1) have off: "0 \<le> off" "nat off + n \<le> unat (disk_size v)"
    and run: "vdi_read_loop v par n (nat off) 0 (\<lambda>_. 0) s = (Inr b, t)"
    by (auto simp: vdi_backend_read_def split: if_splits)
  have "b = clip n (\<lambda>i. vdi_content v psize pc (nat off + i))"
    by (rule vdi_read_loop_value [OF run assms(2,3) off(2)]) (auto simp: clip_def)
  with off show ?thesis by simp
qed

section \<open>Writing\<close>

lemma vdi_write_fd_run:
  assumes "vdi_write_fd d n off (v, s) = (r, (v', s'))"
  obtains k where "v' = v\<lparr>vfile := vfile v'\<rparr>" "k \<le> n"
    "file_byte (vfile v') = blit (file_byte (vfile v)) (nat off) k d" "r = Inr () \<Longrightarrow> k = n"
proof -
  from assms have "write_exact_fd d n off (vfile v, s) = (r, (vfile v', s'))"
    and v': "v' = v\<lparr>vfile := vfile v'\<rparr>"
    by (auto simp: vdi_write_fd_def split: prod.splits)
  from this(1) show ?thesis
    by (elim write_exact_fd_prefix) (use v' that in auto)
qed

lemma vdi_ok_vfile [simp]: "vdi_ok (v\<lparr>vfile := f\<rparr>) = vdi_ok v"
  by (simp add: vdi_ok_def)

lemma vdi_off_bounds:
  assumes "vdi_ok v" "\<not> vdi_special (block_map v i)" "i < unat (block_count v)"
    "j < unat (vblock_size v)"
  shows "unat (data_offset v) \<le> vdi_place v (block_map v i) j"
    and "vdi_place v (block_map v i) j < data_end v"
proof -
  have "unat (block_map v i) < unat (blocks_allocated v)" using assms by (auto simp: vdi_ok_def)
  then have "Suc (unat (block_map v i)) * vdi_stride v \<le> unat (blocks_allocated v) * vdi_stride v"
    by (intro mult_le_mono1) simp
  then show "vdi_place v (block_map v i) j < data_end v"
    using assms(4) by (simp add: vdi_place_def data_end_def vdi_stride_def)
qed (simp add: vdi_place_def)

text \<open>A write that stays out of the allocated data area does not change the guest view.\<close>

lemma vdi_content_vfile:
  assumes "vdi_ok v" "\<And>x. unat (data_offset v) \<le> x \<Longrightarrow> x < data_end v \<Longrightarrow>
    file_byte f x = file_byte (vfile v) x"
  shows "vdi_content (v\<lparr>vfile := f\<rparr>) psize pc = vdi_content v psize pc"
proof
  fix x
  let ?bs = "unat (vblock_size v)" and ?e = "block_map v (x div unat (vblock_size v))"
  have m: "x mod ?bs < ?bs" using vdi_block_pos [OF assms(1)] by simp
  have "file_byte f (vdi_place v ?e (x mod ?bs)) = file_byte (vfile v) (vdi_place v ?e (x mod ?bs))"
    if "\<not> vdi_special ?e" "x div ?bs < unat (block_count v)"
    using vdi_off_bounds [OF assms(1) that m] by (rule assms(2))
  then show "vdi_content (v\<lparr>vfile := f\<rparr>) psize pc x = vdi_content v psize pc x"
    by (auto simp: vdi_content_def Let_def vdi_special_def vdi_place_def)
qed

lemma vdi_write_outside:
  assumes "vdi_write_fd d n off (v, s) = (r, (v', s'))" "vdi_ok v"
    "nat off + n \<le> unat (data_offset v) \<or> data_end v \<le> nat off"
  shows "vdi_ok v' \<and> vdi_content v' psize pc = vdi_content v psize pc \<and>
    v' = v\<lparr>vfile := vfile v'\<rparr> \<and>
    (\<forall>x. x < nat off \<or> nat off + n \<le> x \<longrightarrow> file_byte (vfile v') x = file_byte (vfile v) x)"
proof -
  from assms(1) obtain k where v': "v' = v\<lparr>vfile := vfile v'\<rparr>" and k: "k \<le> n"
    and f: "file_byte (vfile v') = blit (file_byte (vfile v)) (nat off) k d"
    by (rule vdi_write_fd_run)
  have "vdi_content (v\<lparr>vfile := vfile v'\<rparr>) psize pc = vdi_content v psize pc"
    using assms(2) by (rule vdi_content_vfile) (use assms(3) k f in \<open>auto simp: blit_def\<close>)
  with v' have "vdi_content v' psize pc = vdi_content v psize pc" by simp
  moreover have "vdi_ok v'" using v' assms(2) by (metis vdi_ok_vfile)
  moreover have "\<forall>x. x < nat off \<or> nat off + n \<le> x \<longrightarrow> file_byte (vfile v') x = file_byte (vfile v) x"
    using f k by (auto simp: blit_def)
  ultimately show ?thesis using v' by blast
qed

section \<open>Allocating a block\<close>

text \<open>The bookkeeping of \<open>vdi_materialize_block\<close>: the block gets the next entry of the data area.\<close>

definition vdi_assign :: "vdi_backend \<Rightarrow> nat \<Rightarrow> vdi_backend" where
  "vdi_assign v i = v\<lparr>block_map := (block_map v)(i := blocks_allocated v),
     blocks_allocated := blocks_allocated v + 1\<rparr>"

lemma vdi_entry_not_special:
  "vdi_ok v \<Longrightarrow> blocks_allocated v < block_count v \<Longrightarrow> \<not> vdi_special (blocks_allocated v)"
  by (auto simp: vdi_ok_def vdi_special_def word_less_nat_alt VDI_MAP_UNALLOCATED_def VDI_MAP_ZERO_def)

lemma vdi_assign_allocated:
  "blocks_allocated v < block_count v \<Longrightarrow>
     unat (blocks_allocated (vdi_assign v i)) = Suc (unat (blocks_allocated v))"
  using unat_le_max32 [of "block_count v"]
  by (simp add: vdi_assign_def word_less_nat_alt unat_word_ariths)

lemma vdi_ok_assign:
  assumes "vdi_ok v" "blocks_allocated v < block_count v" "i < unat (block_count v)"
  shows "vdi_ok (vdi_assign v i)"
proof -
  let ?n = "blocks_allocated v"
  have s: "unat (?n + 1) = Suc (unat ?n)"
    using vdi_assign_allocated [OF assms(2)] by (simp add: vdi_assign_def)
  have "block_map v j \<noteq> ?n" if "j < unat (block_count v)" for j
    using assms(1) that vdi_entry_not_special [OF assms(1,2)] by (auto simp: vdi_ok_def)
  with assms s show ?thesis
    unfolding vdi_ok_def vdi_assign_def by (auto simp: word_less_nat_alt less_Suc_eq)
qed

lemma vdi_content_assign:
  assumes ok: "vdi_ok v" and lt: "blocks_allocated v < block_count v" "i < unat (block_count v)"
    and val: "\<And>j. j < unat (vblock_size v) \<Longrightarrow>
      file_byte (vfile v) (vdi_place v (blocks_allocated v) j) =
      vdi_content v psize pc (i * unat (vblock_size v) + j)"
  shows "vdi_content (vdi_assign v i) psize pc = vdi_content v psize pc"
proof
  fix x
  let ?bs = "unat (vblock_size v)"
  have geom: "vblock_size (vdi_assign v i) = vblock_size v" "block_count (vdi_assign v i) = block_count v"
    "vfile (vdi_assign v i) = vfile v" by (simp_all add: vdi_assign_def)
  have same: "vdi_place (vdi_assign v i) e j = vdi_place v e j" for e j
    by (simp add: vdi_place_def vdi_assign_def)
  show "vdi_content (vdi_assign v i) psize pc x = vdi_content v psize pc x"
  proof (cases "x div ?bs = i")
    case False
    then have "block_map (vdi_assign v i) (x div ?bs) = block_map v (x div ?bs)"
      by (simp add: vdi_assign_def)
    then show ?thesis by (simp only: vdi_content_def Let_def same geom)
  next
    case True
    have "x mod ?bs < ?bs" using vdi_block_pos [OF ok] by simp
    note v = val [OF this]
    have "i * ?bs + x mod ?bs = x" using True by (metis div_mult_mod_eq)
    with v have v: "file_byte (vfile v) (vdi_place v (blocks_allocated v) (x mod ?bs)) =
      vdi_content v psize pc x" by simp
    from True lt(2) vdi_entry_not_special [OF ok lt(1)] show ?thesis
      unfolding v [symmetric]
      by (simp add: vdi_content_def [of "vdi_assign v i"] same Let_def)
        (simp add: vdi_assign_def vdi_special_def)
  qed
qed

text \<open>What every step of the backend keeps: the invariant, the guest view and the geometry.\<close>

definition vdi_geometry :: "vdi_backend \<Rightarrow> u32 \<times> u32 \<times> u32 \<times> u32 \<times> u32 \<times> u64" where
  "vdi_geometry v = (vblock_size v, block_extra v, block_count v, data_offset v, map_offset v,
     disk_size v)"

definition vdi_same :: "nat \<Rightarrow> buf \<Rightarrow> vdi_backend \<Rightarrow> vdi_backend \<Rightarrow> bool" where
  "vdi_same psize pc v v' \<longleftrightarrow> vdi_ok v' \<and> vdi_content v' psize pc = vdi_content v psize pc \<and>
     vdi_geometry v' = vdi_geometry v"

lemma vdi_same_refl: "vdi_ok v \<Longrightarrow> vdi_same psize pc v v"
  by (simp add: vdi_same_def)

lemma vdi_same_trans:
  "vdi_same psize pc v w \<Longrightarrow> vdi_same psize pc w x \<Longrightarrow> vdi_same psize pc v x"
  by (simp add: vdi_same_def)

lemma vdi_geometry_vfile [simp]: "vdi_geometry (v\<lparr>vfile := f\<rparr>) = vdi_geometry v"
  by (simp add: vdi_geometry_def)

lemma vdi_write_same:
  assumes "vdi_write_fd d n off (v, s) = (r, (v', s'))" "vdi_ok v"
    "nat off + n \<le> unat (data_offset v) \<or> data_end v \<le> nat off"
  shows "v' = v\<lparr>vfile := vfile v'\<rparr> \<and> vdi_same psize pc v v'"
proof -
  from vdi_write_outside [OF assms, of psize pc]
  have v': "v' = v\<lparr>vfile := vfile v'\<rparr>" and "vdi_ok v' \<and> vdi_content v' psize pc = vdi_content v psize pc"
    by simp_all
  moreover from v' have "vdi_geometry v' = vdi_geometry v" by (metis vdi_geometry_vfile)
  ultimately show ?thesis by (simp add: vdi_same_def)
qed

lemma wp_vdi_os [wp_simps]:
  "wp (vdi_os m) E Q = (\<lambda>(v, s). wp m (\<lambda>e t. E e (v, t)) (\<lambda>x t. Q x (v, t)) s)"
  by (auto simp: wp_def vdi_os_def fun_eq_iff split: prod.splits sum.splits)

lemma wp_vdi_get [wp_simps]: "wp vdi_get E Q = (\<lambda>(v, s). Q v (v, s))"
  by (simp add: wp_def vdi_get_def fun_eq_iff)

lemma wp_vdi_update [wp_simps]: "wp (vdi_update g) E Q = (\<lambda>(v, s). Q () (g v, s))"
  by (simp add: wp_def vdi_update_def fun_eq_iff)

text \<open>A write outside the allocated data, as a rule for weakest preconditions.\<close>

lemma wp_vdi_write_outside:
  assumes "vdi_ok v" "nat off + n \<le> unat (data_offset v) \<or> data_end v \<le> nat off"
    "\<And>e f t. vdi_same psize pc v (v\<lparr>vfile := f\<rparr>) \<Longrightarrow> E e (v\<lparr>vfile := f\<rparr>, t)"
    "\<And>f t. vdi_same psize pc v (v\<lparr>vfile := f\<rparr>) \<Longrightarrow>
       file_byte f = blit (file_byte (vfile v)) (nat off) n d \<Longrightarrow> Q () (v\<lparr>vfile := f\<rparr>, t)"
  shows "wp (vdi_write_fd d n off) E Q (v, s)"
proof (rule wpI)
  fix e t assume run: "vdi_write_fd d n off (v, s) = (Inl e, t)"
  obtain v' s' where t: "t = (v', s')" by (cases t)
  from vdi_write_same [OF run [unfolded t] assms(1,2), of psize pc]
  show "E e t" unfolding t using assms(3) [of "vfile v'"] by metis
next
  fix x t assume run: "vdi_write_fd d n off (v, s) = (Inr x, t)"
  obtain v' s' where t: "t = (v', s')" by (cases t)
  note v' = vdi_write_same [OF run [unfolded t] assms(1,2), of psize pc]
  have "file_byte (vfile v') = blit (file_byte (vfile v)) (nat off) n d"
    using run unfolding t by (elim vdi_write_fd_run) auto
  with v' show "Q x t" unfolding t using assms(4) [of "vfile v'"] by (metis (full_types) unit.exhaust)
qed

lemma vdi_same_ok: "vdi_same psize pc v w \<Longrightarrow> vdi_ok w"
  by (simp add: vdi_same_def)

lemma wp_parent_read:
  assumes "parent_ok par psize pc" "par = Some (z, prd)"
    "\<And>e t. E e t" "\<And>t. n = 0 \<or> nat off + n \<le> psize \<Longrightarrow> Q (clip n (\<lambda>i. pc (nat off + i))) t"
  shows "wp (prd n off) E Q s"
proof (rule wpI)
  fix b t assume "prd n off s = (Inr b, t)"
  with assms(1,2) have "b = clip n (\<lambda>i. pc (nat off + i)) \<and> (n = 0 \<or> nat off + n \<le> psize)"
    by (metis parent_okD)
  with assms(4) show "Q b t" by blast
qed (rule assms(3))

text \<open>The first offset behind the allocated data, and what is written there.\<close>

lemma data_end_eq:
  "vdi_ok v \<Longrightarrow> blocks_allocated v < block_count v \<Longrightarrow>
    uint (data_offset v) + vdi_entry_off v (blocks_allocated v) = int (data_end v)"
  by (simp add: vdi_entry_off_eq data_end_def word_less_nat_alt)

lemma data_end_new:
  "vdi_place v (blocks_allocated v) j = data_end v + unat (block_extra v) + j"
  by (simp add: vdi_place_def data_end_def vdi_stride_def)

lemma data_end_vfile [simp]: "data_end (v\<lparr>vfile := f\<rparr>) = data_end v"
  by (simp add: data_end_def vdi_stride_def)

lemma vdi_map_room:
  assumes "vdi_ok v" "i < unat (block_count v)"
  shows "unat (map_offset v) + i * 4 + 4 \<le> unat (data_offset v)"
proof -
  have "i * 4 + 4 \<le> 4 * unat (block_count v)" using assms(2) by simp
  with assms(1) show ?thesis by (auto simp: vdi_ok_def)
qed

text \<open>The last three steps of the materialisation: map entry, bookkeeping, counter.\<close>

lemma vdi_commit_entry:
  assumes ok: "vdi_ok v" and lt: "blocks_allocated v < block_count v" "i < unat (block_count v)"
    and val: "\<And>j. j < unat (vblock_size v) \<Longrightarrow>
      file_byte (vfile v) (data_end v + unat (block_extra v) + j) =
      vdi_content v psize pc (i * unat (vblock_size v) + j)"
  shows "wp (andthen (vdi_write_le32 (int (unat (map_offset v) + i * 4)) (blocks_allocated v)) (\<lambda>_.
     andthen (vdi_update (\<lambda>w. w\<lparr>block_map := (block_map w)(i := blocks_allocated v),
         blocks_allocated := blocks_allocated w + 1\<rparr>)) (\<lambda>_.
     vdi_write_le32 VDI_BLOCKS_ALLOC_OFF (blocks_allocated v + 1))))
    (\<lambda>_ (v', _). vdi_same psize pc v v')
    (\<lambda>_ (v', _). vdi_same psize pc v v' \<and> \<not> vdi_special (block_map v' i)) (v, s)"
proof -
  note room = vdi_map_room [OF ok lt(2)]
  have "wp (vdi_write_fd (le32_bytes (blocks_allocated v + 1)) 4 VDI_BLOCKS_ALLOC_OFF)
     (\<lambda>_ (v', _). vdi_same psize pc v v')
     (\<lambda>_ (v', _). vdi_same psize pc v v' \<and> \<not> vdi_special (block_map v' i))
     (v\<lparr>vfile := f, block_map := (block_map v)(i := blocks_allocated v),
        blocks_allocated := blocks_allocated v + 1\<rparr>, t)"
    if same: "vdi_same psize pc v (v\<lparr>vfile := f\<rparr>)"
      and f: "file_byte f = blit (file_byte (vfile v)) (unat (map_offset v) + i * 4) 4
        (le32_bytes (blocks_allocated v))" for f t
  proof -
    let ?w = "v\<lparr>vfile := f\<rparr>"
    let ?a = "vdi_assign ?w i"
    have a: "v\<lparr>vfile := f, block_map := (block_map v)(i := blocks_allocated v),
        blocks_allocated := blocks_allocated v + 1\<rparr> = ?a" by (simp add: vdi_assign_def)
    have "file_byte f (data_end v + unat (block_extra v) + j) =
        file_byte (vfile v) (data_end v + unat (block_extra v) + j)" for j
      unfolding f using room by (simp add: data_end_def)
    with val same have "vdi_content ?a psize pc = vdi_content ?w psize pc"
      using lt by (intro vdi_content_assign) (auto simp: vdi_same_def data_end_new [of "?w", simplified])
    moreover have "vdi_ok ?a" using same lt by (intro vdi_ok_assign) (auto simp: vdi_same_def)
    moreover have "vdi_geometry ?a = vdi_geometry v"
      by (simp add: vdi_geometry_def vdi_assign_def)
    ultimately have *: "vdi_same psize pc v ?a" using same by (simp add: vdi_same_def)
    have ns: "\<not> vdi_special (block_map ?a i)"
      using vdi_entry_not_special [OF ok lt(1)] by (simp add: vdi_assign_def)
    show ?thesis
      unfolding a
    proof (rule wp_vdi_write_outside [where psize = psize and pc = pc])
      show "vdi_ok ?a" using * by (rule vdi_same_ok)
      show "nat VDI_BLOCKS_ALLOC_OFF + 4 \<le> unat (data_offset ?a) \<or>
          data_end ?a \<le> nat VDI_BLOCKS_ALLOC_OFF"
        using ok by (simp add: vdi_assign_def vdi_ok_def VDI_BLOCKS_ALLOC_OFF_def)
    qed (use * ns in \<open>auto intro: vdi_same_trans\<close>)
  qed
  then show ?thesis
    unfolding vdi_write_le32_def wp_simps
    by (intro wp_vdi_write_outside [where psize = psize and pc = pc])
      (use ok room in \<open>auto simp: wp_simps nat_add_distrib nat_mult_distrib\<close>)
qed

text \<open>What \<open>vdi_materialize_block\<close> guarantees on every path.\<close>

abbreviation vdi_same_post :: "nat \<Rightarrow> buf \<Rightarrow> vdi_backend \<Rightarrow> vdi_backend \<times> os \<Rightarrow> bool" where
  "vdi_same_post psize pc v \<equiv> (\<lambda>(v', _). vdi_same psize pc v v')"

lemma wp_malloc: "(\<And>t. E ENOMEM t) \<Longrightarrow> (\<And>t. Q () t) \<Longrightarrow> wp malloc E Q s"
  by (auto simp: wp_def malloc_def split: os_event.splits)

lemma vdi_content_special:
  assumes "vdi_ok v" "i < unat (block_count v)" "j < unat (vblock_size v)"
  shows "block_map v i = VDI_MAP_UNALLOCATED \<Longrightarrow> vdi_content v psize pc (i * unat (vblock_size v) + j) =
      (if i * unat (vblock_size v) + j < psize then pc (i * unat (vblock_size v) + j) else 0)"
    and "block_map v i = VDI_MAP_ZERO \<Longrightarrow> vdi_content v psize pc (i * unat (vblock_size v) + j) = 0"
  using assms by (auto simp: vdi_content_def Let_def VDI_MAP_UNALLOCATED_def VDI_MAP_ZERO_def)

lemma vdi_store_block:
  assumes ok: "vdi_ok v" and lt: "blocks_allocated v < block_count v" "i < unat (block_count v)"
    and val: "\<And>j. j < unat (vblock_size v) \<Longrightarrow>
      buf j = vdi_content v psize pc (i * unat (vblock_size v) + j)"
  shows "wp (andthen (if unat (block_extra v) \<noteq> 0 then
         andthen (vdi_os malloc) (\<lambda>_. vdi_write_fd (\<lambda>_. 0) (unat (block_extra v)) (int (data_end v)))
       else ret ()) (\<lambda>_.
     andthen (vdi_write_fd buf (unat (vblock_size v)) (int (data_end v + unat (block_extra v)))) (\<lambda>_.
     andthen (vdi_write_le32 (int (unat (map_offset v) + i * 4)) (blocks_allocated v)) (\<lambda>_.
     andthen (vdi_update (\<lambda>w. w\<lparr>block_map := (block_map w)(i := blocks_allocated v),
         blocks_allocated := blocks_allocated w + 1\<rparr>)) (\<lambda>_.
     vdi_write_le32 VDI_BLOCKS_ALLOC_OFF (blocks_allocated v + 1))))))
    (\<lambda>_. vdi_same_post psize pc v)
    (\<lambda>_ (v', _). vdi_same psize pc v v' \<and> \<not> vdi_special (block_map v' i)) (v, s)"
    (is "wp (andthen ?extra ?rest) ?E ?Q _")
proof -
  have rest: "wp (?rest ()) ?E ?Q (v\<lparr>vfile := f\<rparr>, t)"
    if same: "vdi_same psize pc v (v\<lparr>vfile := f\<rparr>)" for f t
    unfolding wp_andthen
  proof (rule wp_vdi_write_outside [where psize = psize and pc = pc], goal_cases)
    case (4 g t)
    let ?w = "v\<lparr>vfile := g\<rparr>"
    from 4 same have w: "vdi_same psize pc v ?w" by (auto intro: vdi_same_trans)
    have sel: "map_offset ?w = map_offset v" "blocks_allocated ?w = blocks_allocated v"
      "block_count ?w = block_count v" "data_end ?w = data_end v" "block_extra ?w = block_extra v"
      "vblock_size ?w = vblock_size v" "vfile ?w = g" by simp_all
    have "file_byte g (data_end v + unat (block_extra v) + j) =
        vdi_content ?w psize pc (i * unat (vblock_size v) + j)" if "j < unat (vblock_size v)" for j
      using 4(2) w val [OF that] that by (simp add: vdi_same_def nat_add_distrib)
    note c = vdi_commit_entry [of ?w i psize pc t, unfolded sel, OF vdi_same_ok [OF w] lt this]
    have "wp (andthen (vdi_write_le32 (int (unat (map_offset v) + i * 4)) (blocks_allocated v)) (\<lambda>_.
       andthen (vdi_update (\<lambda>w. w\<lparr>block_map := (block_map w)(i := blocks_allocated v),
         blocks_allocated := blocks_allocated w + 1\<rparr>)) (\<lambda>_.
       vdi_write_le32 VDI_BLOCKS_ALLOC_OFF (blocks_allocated v + 1)))) ?E ?Q (?w, t)"
      by (rule wp_mono [OF c]) (use w in \<open>auto intro: vdi_same_trans\<close>)
    then show ?case by (simp add: wp_andthen)
  qed (use ok same in \<open>auto intro: vdi_same_trans simp: vdi_same_def nat_add_distrib\<close>)
  have extra: "wp (vdi_write_fd (\<lambda>_. 0) (unat (block_extra v)) (int (data_end v))) ?E
      (\<lambda>x. wp (?rest x) ?E ?Q) (v, t)" for t
    by (rule wp_vdi_write_outside [where psize = psize and pc = pc]) (use ok rest in auto)
  have "wp (?rest ()) ?E ?Q (v, s)"
    using rest [of "vfile v"] vdi_same_refl [OF ok] by simp
  with extra show ?thesis
    by (auto simp: wp_simps intro!: wp_malloc vdi_same_refl [OF ok])
qed

lemma vdi_materialize_block_keeps:
  assumes ok: "vdi_ok v" and par: "parent_ok par psize pc" and i: "i < unat (block_count v)"
  shows "wp (vdi_materialize_block par i) (\<lambda>_. vdi_same_post psize pc v)
    (\<lambda>_ (v', _). vdi_same psize pc v v' \<and> \<not> vdi_special (block_map v' i)) (v, s)"
proof (cases "vdi_special (block_map v i)")
  case False
  with vdi_same_refl [OF ok] show ?thesis
    by (simp add: vdi_materialize_block_def vdi_special_def wp_simps)
next
  case special: True
  show ?thesis
  proof (cases "blocks_allocated v < block_count v")
    case False
    with special vdi_same_refl [OF ok] show ?thesis
      by (auto simp: vdi_materialize_block_def vdi_special_def wp_simps not_less)
  next
    case lt: True
    let ?bs = "unat (vblock_size v)"
    let ?src = "case (if block_map v i = VDI_MAP_UNALLOCATED then par else None) of
         Some (_, prd) \<Rightarrow> vdi_os (prd ?bs (int (i * ?bs))) | None \<Rightarrow> ret (\<lambda>_. 0)"
    let ?Q = "\<lambda>_ (v', _). vdi_same psize pc v v' \<and> \<not> vdi_special (block_map v' i)"
    note store = vdi_store_block [OF ok lt i, of _ psize pc]
    have src: "wp ?src (\<lambda>_. vdi_same_post psize pc v)
      (\<lambda>b (w, t). w = v \<and> (\<forall>j < ?bs. b j = vdi_content v psize pc (i * ?bs + j))) (v, t)" for t
    proof (cases "if block_map v i = VDI_MAP_UNALLOCATED then par else None")
      case None
      with special par vdi_content_special [OF ok i, of _ psize pc] show ?thesis
        by (auto simp: wp_simps vdi_special_def parent_ok_def split: if_splits)
    next
      case (Some p)
      obtain z prd where p: "par = Some (z, prd)" and un: "block_map v i = VDI_MAP_UNALLOCATED"
        using Some by (cases p) (auto split: if_splits)
      have "vdi_content v psize pc (i * ?bs + j) = clip ?bs (\<lambda>k. pc (nat (int (i * ?bs)) + k)) j"
        if "j < ?bs" "?bs = 0 \<or> nat (int (i * ?bs)) + ?bs \<le> psize" for j
      proof -
        from that have "i * ?bs + j < psize" by (auto simp: nat_mult_distrib)
        with vdi_content_special(1) [OF ok i that(1) un, of psize pc] that(1) show ?thesis
          by (simp add: nat_mult_distrib)
      qed
      then show ?thesis
        unfolding p un
        by (simp add: wp_vdi_os, intro wp_parent_read [OF par p])
          (auto simp: vdi_same_refl [OF ok])
    qed
    have "wp ?src (\<lambda>_. vdi_same_post psize pc v) (\<lambda>b. wp (andthen
      (if unat (block_extra v) \<noteq> 0 then
         andthen (vdi_os malloc) (\<lambda>_. vdi_write_fd (\<lambda>_. 0) (unat (block_extra v)) (int (data_end v)))
       else ret ()) (\<lambda>_.
     andthen (vdi_write_fd b ?bs (int (data_end v + unat (block_extra v)))) (\<lambda>_.
     andthen (vdi_write_le32 (int (unat (map_offset v) + i * 4)) (blocks_allocated v)) (\<lambda>_.
     andthen (vdi_update (\<lambda>w. w\<lparr>block_map := (block_map w)(i := blocks_allocated v),
         blocks_allocated := blocks_allocated w + 1\<rparr>)) (\<lambda>_.
     vdi_write_le32 VDI_BLOCKS_ALLOC_OFF (blocks_allocated v + 1))))))
       (\<lambda>_. vdi_same_post psize pc v) ?Q) (v, t)" for t
      by (rule wp_mono [OF src], assumption, clarify, rule store, blast)
    moreover have "\<not> block_count v \<le> blocks_allocated v" using lt by simp
    moreover have "\<not> (block_map v i \<noteq> VDI_MAP_UNALLOCATED \<and> block_map v i \<noteq> VDI_MAP_ZERO)"
      using special by (simp add: vdi_special_def)
    ultimately show ?thesis
      unfolding vdi_materialize_block_def
      by (simp only: wp_andthen wp_vdi_get wp_vdi_os Let_def if_False data_end_eq [OF ok lt] of_nat_add [symmetric] prod.case)
        (auto intro!: wp_malloc vdi_same_refl [OF ok])
  qed
qed

section \<open>Writing allocated blocks\<close>

lemma vdi_off_mono:
  assumes "unat e < unat e'" "j < unat (vblock_size v)"
  shows "vdi_place v e j < vdi_place v e' j'"
proof -
  let ?st = "unat (vblock_size v) + unat (block_extra v)"
  from assms(1) have "Suc (unat e) * ?st \<le> unat e' * ?st" by (intro mult_le_mono1) simp
  then have "unat e * ?st + ?st \<le> unat e' * ?st" by simp
  with assms(2) show ?thesis unfolding vdi_place_def by linarith
qed

text \<open>Two guest bytes in allocated blocks never share a byte of the file.\<close>

lemma vdi_off_inj:
  assumes ok: "vdi_ok v" and "i < unat (block_count v)" "i' < unat (block_count v)"
    "\<not> vdi_special (block_map v i)" "\<not> vdi_special (block_map v i')"
    "j < unat (vblock_size v)" "j' < unat (vblock_size v)"
    "vdi_place v (block_map v i) j = vdi_place v (block_map v i') j'"
  shows "i = i' \<and> j = j'"
proof -
  have "\<not> unat (block_map v i) < unat (block_map v i')"
    using vdi_off_mono [of "block_map v i" "block_map v i'" j v j', OF _ assms(6)] assms(8) by linarith
  moreover have "\<not> unat (block_map v i') < unat (block_map v i)"
    using vdi_off_mono [of "block_map v i'" "block_map v i" j' v j, OF _ assms(7)] assms(8) by linarith
  ultimately have "unat (block_map v i) = unat (block_map v i')" by linarith
  then have e: "block_map v i = block_map v i'" by (simp only: word_unat_eq_iff)
  with assms(2-4) ok have "i = i'" by (simp add: vdi_ok_def)
  with assms(8) show ?thesis by (simp add: vdi_place_def)
qed

lemma vdi_write_data:
  assumes run: "vdi_write_fd d n (vdi_file_off v (block_map v (x div bs)) (x mod bs)) (v, s) = (r, (v', s'))"
    and ok: "vdi_ok v" and bs: "bs = unat (vblock_size v)" and bi: "x div bs < unat (block_count v)"
    and ns: "\<not> vdi_special (block_map v (x div bs))" and n: "n \<le> bs - x mod bs"
  shows "\<exists>k\<le>n. vdi_ok v' \<and> vdi_geometry v' = vdi_geometry v \<and>
    vdi_content v' psize pc = blit (vdi_content v psize pc) x k d \<and> (r = Inr () \<longrightarrow> k = n)"
proof -
  let ?e = "block_map v (x div bs)"
  have "vdi_file_off v ?e (x mod bs) = int (vdi_place v ?e (x mod bs))"
    by (rule vdi_file_off_eq [OF ok vdi_entry_less [OF ok bi ns]])
  with run obtain k where v': "v' = v\<lparr>vfile := vfile v'\<rparr>" and k: "k \<le> n" "r = Inr () \<longrightarrow> k = n"
    and f: "file_byte (vfile v') = blit (file_byte (vfile v)) (vdi_place v ?e (x mod bs)) k d"
    by (elim vdi_write_fd_run) auto
  have pos: "0 < bs" using vdi_block_pos [OF ok] bs by simp
  define f' where "f' = vfile v'"
  have v'': "v' = v\<lparr>vfile := f'\<rparr>" using v' f'_def by simp
  have "vdi_content v' psize pc y = blit (vdi_content v psize pc) x k d y" for y
  proof (cases "x \<le> y \<and> y < x + k")
    case True
    then obtain t where t: "y = x + t" "t < k" by (metis le_iff_add nat_add_left_cancel_less)
    then have lt: "x mod bs + t < bs" using k n by auto
    have o: "vdi_place v ?e (y mod bs) = vdi_place v ?e (x mod bs) + t"
      using div_mod_add(2) [OF lt] by (simp add: vdi_place_def t)
    have "file_byte f' (vdi_place v ?e (y mod bs)) = d t"
      unfolding f'_def f o using t(2) by (simp add: blit_def)
    moreover have "vdi_content v' psize pc y = file_byte f' (vdi_place v ?e (y mod bs))"
      using bi ns div_mod_add(1) [OF lt]
      by (simp add: v'' vdi_content_def Let_def bs [symmetric] t vdi_special_def vdi_place_def)
    ultimately show ?thesis using t by simp
  next
    case False
    have "file_byte f' (vdi_place v (block_map v (y div bs)) (y mod bs)) =
      file_byte (vfile v) (vdi_place v (block_map v (y div bs)) (y mod bs))"
      if q: "y div bs < unat (block_count v)" "\<not> vdi_special (block_map v (y div bs))"
    proof -
      let ?o = "vdi_place v (block_map v (y div bs)) (y mod bs)"
      have "\<not> (vdi_place v ?e (x mod bs) \<le> ?o \<and> ?o < vdi_place v ?e (x mod bs) + k)"
      proof
        assume o: "vdi_place v ?e (x mod bs) \<le> ?o \<and> ?o < vdi_place v ?e (x mod bs) + k"
        define j where "j = x mod bs + (?o - vdi_place v ?e (x mod bs))"
        have j: "j < bs" "x mod bs \<le> j" "j < x mod bs + k" using o k n by (auto simp: j_def)
        have "?o = vdi_place v ?e j" using o by (auto simp: j_def vdi_place_def)
        then have "y div bs = x div bs \<and> y mod bs = j"
          using vdi_off_inj [OF ok q(1) bi q(2) ns, of "y mod bs" j] pos j(1) bs by auto
        then have "y = x div bs * bs + j" by (metis div_mult_mod_eq)
        moreover have "x = x div bs * bs + x mod bs" by simp
        ultimately have "x \<le> y \<and> y < x + k" using j by linarith
        with False show False by simp
      qed
      then show ?thesis by (auto simp: f'_def f blit_def)
    qed
    with False show ?thesis
      by (auto simp: v'' vdi_content_def Let_def bs [symmetric] vdi_special_def vdi_place_def blit_def)
  qed
  moreover have "vdi_ok v'" "vdi_geometry v' = vdi_geometry v" using ok v'' by simp_all
  ultimately show ?thesis using k by blast
qed

text \<open>A guest write, whatever its result, has written a prefix of its data and nothing else.\<close>

lemma vdi_write_loop_prefix:
  assumes "vdi_write_loop par data sz offset done (v, s) = (r, (v', s'))"
    "vdi_ok v" "parent_ok par psize pc" "offset + sz \<le> unat (disk_size v)" "done \<le> sz"
  shows "\<exists>k. done \<le> k \<and> k \<le> sz \<and> vdi_ok v' \<and> vdi_geometry v' = vdi_geometry v \<and>
    vdi_content v' psize pc =
      blit (vdi_content v psize pc) (offset + done) (k - done) (\<lambda>i. data (done + i)) \<and>
    (r = Inr () \<longrightarrow> k = sz)"
  using assms
proof (induction "sz - done" arbitrary: "done" v s rule: less_induct)
  case less
  let ?bs = "unat (vblock_size v)" and ?x = "offset + done"
  let ?i = "?x div ?bs" and ?chunk = "min (?bs - ?x mod ?bs) (sz - done)"
  show ?case
  proof (cases "sz \<le> done")
    case True
    with less.prems show ?thesis by (intro exI [of _ "done"]) (simp add: vdi_write_loop.simps)
  next
    case False
    have bs: "0 < ?bs" "vblock_size v \<noteq> 0" using vdi_block_pos less.prems(2) by (auto simp: vdi_ok_def)
    have x: "?x < unat (disk_size v)" using False less.prems(4) by simp
    note bi = vdi_block_index [OF less.prems(2) x]
    obtain rm vm sm where m: "vdi_materialize_block par ?i (v, s) = (rm, (vm, sm))"
      by (cases "vdi_materialize_block par ?i (v, s)") auto
    note mat = vdi_materialize_block_keeps [OF less.prems(2,3) bi(2), of s]
    show ?thesis
    proof (cases rm)
      case (Inl e)
      with m mat have "vdi_same psize pc v vm" by (auto dest: wp_Inl)
      moreover have "r = Inl e \<and> v' = vm"
        using less.prems(1) False bs bi m Inl by (simp add: vdi_write_loop.simps Let_def not_le)
      ultimately show ?thesis using False by (intro exI [of _ "done"]) (auto simp: vdi_same_def)
    next
      case (Inr u)
      with m mat have same: "vdi_same psize pc v vm" and ns: "\<not> vdi_special (block_map vm ?i)"
        by (auto dest: wp_Inr)
      have g: "vblock_size vm = vblock_size v" "block_count vm = block_count v" "disk_size vm = disk_size v"
        using same by (auto simp: vdi_same_def vdi_geometry_def)
      obtain rw vw sw where w: "vdi_write_fd (\<lambda>i. data (done + i)) ?chunk
          (vdi_file_off vm (block_map vm ?i) (?x mod ?bs)) (vm, sm) = (rw, (vw, sw))"
        by (cases "vdi_write_fd (\<lambda>i. data (done + i)) ?chunk
          (vdi_file_off vm (block_map vm ?i) (?x mod ?bs)) (vm, sm)") auto
      from vdi_write_data [OF w vdi_same_ok [OF same], of psize pc] ns bi g
      obtain k where k: "k \<le> ?chunk" "rw = Inr () \<longrightarrow> k = ?chunk" and vw: "vdi_ok vw"
        "vdi_geometry vw = vdi_geometry v"
        "vdi_content vw psize pc = blit (vdi_content v psize pc) ?x k (\<lambda>i. data (done + i))"
        using same by (auto simp: vdi_same_def)
      show ?thesis
      proof (cases rw)
        case (Inl e)
        with less.prems(1) False bs bi m Inr w ns have "r = Inl e \<and> v' = vw"
          by (simp add: vdi_write_loop.simps Let_def not_le vdi_special_def)
        with vw k False show ?thesis by (intro exI [of _ "done + k"]) auto
      next
        case (Inr u')
        with k have kc: "k = ?chunk" by (cases u') simp
        from less.prems(1) False bs bi m \<open>rm = Inr u\<close> w ns Inr
        have rest: "vdi_write_loop par data sz offset (done + ?chunk) (vw, sw) = (r, (v', s'))"
          by (simp add: vdi_write_loop.simps [of par data sz offset "done"] Let_def not_le vdi_special_def)
        have sz: "done + ?chunk \<le> sz" using False by simp
        have ds: "offset + sz \<le> unat (disk_size vw)" using vw(2) less.prems(4) by (simp add: vdi_geometry_def)
        have "\<exists>k. done + ?chunk \<le> k \<and> k \<le> sz \<and> vdi_ok v' \<and> vdi_geometry v' = vdi_geometry vw \<and>
          vdi_content v' psize pc = blit (vdi_content vw psize pc) (offset + (done + ?chunk))
            (k - (done + ?chunk)) (\<lambda>i. data (done + ?chunk + i)) \<and> (r = Inr () \<longrightarrow> k = sz)"
          by (rule less.hyps [OF _ rest vw(1) less.prems(3) ds sz])
            (use False chunk_progress [OF _ bs(1), of "done" sz ?x] in simp)
        then obtain k' where k': "done + ?chunk \<le> k'" "k' \<le> sz" "vdi_ok v'" "vdi_geometry v' = vdi_geometry vw"
          "vdi_content v' psize pc = blit (vdi_content vw psize pc) (offset + (done + ?chunk))
            (k' - (done + ?chunk)) (\<lambda>i. data (done + ?chunk + i))" "r = Inr () \<longrightarrow> k' = sz" by blast
        have "vdi_content v' psize pc =
          blit (vdi_content v psize pc) ?x (?chunk + (k' - (done + ?chunk))) (\<lambda>i. data (done + i))"
          unfolding k'(5) vw(3) kc
          using blit_append [of "vdi_content v psize pc" ?x ?chunk "\<lambda>i. data (done + i)" "k' - (done + ?chunk)"]
          by (simp add: add.assoc)
        moreover have "?chunk + (k' - (done + ?chunk)) = k' - done" using k'(1) by simp
        ultimately show ?thesis using k' vw by (intro exI [of _ k']) auto
      qed
    qed
  qed
qed

lemma vdi_backend_write_prefix:
  assumes "vdi_backend_write par d n off (v, s) = (r, (v', s'))" "vdi_ok v" "parent_ok par psize pc"
  shows "\<exists>k\<le>n. vdi_ok v' \<and> vdi_geometry v' = vdi_geometry v \<and>
    vdi_content v' psize pc = blit (vdi_content v psize pc) (nat off) k d \<and> (r = Inr () \<longrightarrow> k = n)"
proof (cases "off < 0 \<or> unat (disk_size v) < nat off + n")
  case True
  with assms(1,2) show ?thesis by (auto simp: vdi_backend_write_def)
next
  case False
  with assms(1) have "vdi_write_loop par d n (nat off) 0 (v, s) = (r, (v', s'))"
    by (auto simp: vdi_backend_write_def)
  from vdi_write_loop_prefix [OF this assms(2,3)] False show ?thesis by auto
qed

end
