(* ===== verification/Store.thy ===== *)
theory Store
  imports VdiStore
begin

text \<open>
  The backend of an open image as the program sees it through \<open>nextufs_image_backend_ops\<close>: none
  (a closed image), a raw file, or a VDI image whose parent is a backend in turn. The
  dispatching reads and writes, over the state of the backend and the operating system, provide
  the interface \<open>image_store\<close> for every chain of backends whose block maps are well formed.
\<close>

text \<open>The parent of a differencing image comes with the \<open>image_size\<close> recorded when it was opened.\<close>

datatype backend = NoBackend | RawBackend hostfile | VdiBackend vdi_backend "(nat \<times> backend) option"

fun backend_size :: "backend \<Rightarrow> nat" where
  "backend_size NoBackend = 0"
| "backend_size (RawBackend f) = fsize f"
| "backend_size (VdiBackend v _) = unat (disk_size v)"

fun backend_read :: "backend \<Rightarrow> nat \<Rightarrow> int \<Rightarrow> (os, buf) io" where
  "backend_read NoBackend n off = fail EINVAL"
| "backend_read (RawBackend f) n off = read_exact_fd f n off"
| "backend_read (VdiBackend v None) n off = vdi_backend_read v None n off"
| "backend_read (VdiBackend v (Some (z, p))) n off =
     vdi_backend_read v (Some (z, backend_read p)) n off"

fun backend_content :: "backend \<Rightarrow> buf" where
  "backend_content NoBackend = (\<lambda>_. 0)"
| "backend_content (RawBackend f) = file_byte f"
| "backend_content (VdiBackend v None) = vdi_content v 0 (\<lambda>_. 0)"
| "backend_content (VdiBackend v (Some (z, p))) = vdi_content v z (backend_content p)"

fun backend_ok :: "backend \<Rightarrow> bool" where
  "backend_ok NoBackend \<longleftrightarrow> True"
| "backend_ok (RawBackend f) \<longleftrightarrow> True"
| "backend_ok (VdiBackend v None) \<longleftrightarrow> vdi_ok v"
| "backend_ok (VdiBackend v (Some (z, p))) \<longleftrightarrow> vdi_ok v \<and> z = backend_size p \<and> backend_ok p"

fun vdi_parent :: "(nat \<times> backend) option \<Rightarrow> parent" where
  "vdi_parent None = None"
| "vdi_parent (Some (z, p)) = Some (z, backend_read p)"

type_synonym sys = "backend \<times> os"

definition sys_read :: "nat \<Rightarrow> int \<Rightarrow> (sys, buf) io" where
  "sys_read n off = (\<lambda>(b, s). case backend_read b n off s of (r, t) \<Rightarrow> (r, (b, t)))"

fun sys_write :: "buf \<Rightarrow> nat \<Rightarrow> int \<Rightarrow> (sys, unit) io" where
  "sys_write d n off (NoBackend, s) = (Inl EINVAL, (NoBackend, s))"
| "sys_write d n off (RawBackend f, s) =
     (case write_exact_fd d n off (f, s) of (r, (g, t)) \<Rightarrow> (r, (RawBackend g, t)))"
| "sys_write d n off (VdiBackend v par, s) =
     (case vdi_backend_write (vdi_parent par) d n off (v, s) of
        (r, (w, t)) \<Rightarrow> (r, (VdiBackend w par, t)))"

definition sys_os :: "(os, 'a) io \<Rightarrow> (sys, 'a) io" where
  "sys_os m = (\<lambda>(b, s). case m s of (r, t) \<Rightarrow> (r, (b, t)))"

text \<open>\<open>fsync\<close> of the backend's file: it may fail, and changes nothing the program sees.\<close>

definition fsync :: "(os, unit) io" where
  "fsync = (\<lambda>s. case events s (ticks s) of OsFail e \<Rightarrow> (Inl e, tick s) | _ \<Rightarrow> (Inr (), tick s))"

section \<open>Every chain of backends is an image store\<close>

lemma backend_read_value:
  assumes "backend_read b n off s = (Inr d, t)" "backend_ok b"
  shows "d = clip n (\<lambda>i. backend_content b (nat off + i)) \<and> (n = 0 \<or> nat off + n \<le> backend_size b)"
  using assms
proof (induction b n off arbitrary: s d t rule: backend_read.induct)
  case (1 n off)
  then show ?case by simp
next
  case (2 f n off)
  then show ?case using read_exact_fd_Inr [of f n off s d t] by auto
next
  case (3 v n off)
  then show ?case
    using vdi_backend_read_value [of v None n off s d t 0 "\<lambda>_. 0"] by (simp add: parent_ok_def)
next
  case (4 v z p n off)
  have "parent_ok (Some (z, backend_read p)) z (backend_content p)"
    unfolding parent_ok_def option.case prod.case
    using "4.IH" "4.prems"(2) by (metis backend_ok.simps(4))
  with 4 show ?case
    using vdi_backend_read_value [of v "Some (z, backend_read p)" n off s d t z "backend_content p"]
    by simp
qed

lemma vdi_parent_ok:
  assumes "backend_ok (VdiBackend v par)"
  shows "\<exists>z pc. parent_ok (vdi_parent par) z pc \<and>
    (\<forall>w. backend_content (VdiBackend w par) = vdi_content w z pc \<and>
      (vdi_ok w \<longrightarrow> backend_ok (VdiBackend w par)))"
proof (cases par)
  case None
  then show ?thesis by (intro exI [of _ 0] exI [of _ "\<lambda>_. 0"]) (simp add: parent_ok_def)
next
  case (Some q)
  then obtain z p where par: "par = Some (z, p)" by (cases q) auto
  with assms have p: "z = backend_size p" "backend_ok p" by auto
  have "parent_ok (Some (z, backend_read p)) z (backend_content p)"
    unfolding parent_ok_def option.case prod.case using backend_read_value p by metis
  with par p show ?thesis by (intro exI [of _ z] exI [of _ "backend_content p"]) simp
qed

lemma backend_ok_vdi: "backend_ok (VdiBackend v par) \<Longrightarrow> vdi_ok v"
  by (cases par) auto

lemma sys_write_prefix:
  assumes "backend_ok b" "sys_write d n off (b, s) = (r, (b', s'))"
  shows "backend_ok b' \<and> (\<exists>k\<le>n. backend_content b' = blit (backend_content b) (nat off) k d \<and>
    (r = Inr () \<longrightarrow> k = n))"
proof (cases b)
  case NoBackend
  with assms show ?thesis by (auto intro!: exI [of _ 0])
next
  case (RawBackend f)
  with assms show ?thesis
    by (auto split: prod.splits elim!: write_exact_fd_prefix)
next
  case (VdiBackend v par)
  from vdi_parent_ok [OF assms(1) [unfolded VdiBackend]] obtain z pc where
    p: "parent_ok (vdi_parent par) z pc" and
    c: "\<And>w. backend_content (VdiBackend w par) = vdi_content w z pc"
      "\<And>w. vdi_ok w \<Longrightarrow> backend_ok (VdiBackend w par)" by blast
  obtain w where run: "vdi_backend_write (vdi_parent par) d n off (v, s) = (r, (w, s'))"
    and b': "b' = VdiBackend w par"
    using assms(2) VdiBackend by (auto split: prod.splits)
  have "vdi_ok v" using assms(1) VdiBackend backend_ok_vdi by blast
  from vdi_backend_write_prefix [OF run this p] c show ?thesis
    by (auto simp: b' VdiBackend)
qed

interpretation sys: image_store sys_read sys_write
  "\<lambda>(b, s). backend_content b" "\<lambda>(b, s). backend_ok b"
proof (unfold_locales, goal_cases)
  case (1 s n off r t)
  then show ?case by (auto simp: sys_read_def split: prod.splits)
next
  case (2 s n off b t)
  then show ?case
    by (auto simp: sys_read_def split: prod.splits dest: backend_read_value)
next
  case (3 s d n off q t)
  obtain b o1 b' o2 where st: "s = (b, o1)" "t = (b', o2)" by (cases s, cases t) auto
  with 3 show ?case using sys_write_prefix [of b d n off o1 q b' o2] by simp
qed

end
