(* ===== verification/Layout.thy ===== *)
theory Layout
  imports Store
begin

text \<open>
  The on-disk layout (\<open>src/src/core/layout.c\<close> and the decoders of \<open>src/src/core/image.c\<close>): the
  superblock and the inode, the open image, its range-checked reads and writes, the addresses of
  cylinder groups and inodes, the summary counters, directory entry headers and path splitting.
\<close>

section \<open>Superblock and inode\<close>

record nextufs_superblock =
  sb_off :: u32
  cg_off :: u32
  ino_off :: u32
  data_off :: u32
  cg_delta :: u32
  cg_cyc_mask :: u32
  write_time :: u32
  frag_count :: u32
  data_frag_count :: u32
  cg_count :: u32
  block_size :: u32
  frag_size :: u32
  frags_per_block :: u32
  minfree :: u32
  rotdelay :: u32
  rps :: u32
  block_mask :: u32
  frag_mask :: u32
  block_shift :: u32
  frag_shift_calc :: u32
  maxcontig :: u32
  maxbpg :: u32
  frag_shift :: u32
  fsbtodb :: u32
  super_size :: u32
  csum_mask :: u32
  csum_shift :: u32
  nindir :: u32
  sectors_per_frag :: u32
  optim :: u32
  inodes_per_block :: u32
  cyl_summary_addr :: u32
  csum_size :: u32
  cg_size :: u32
  tracks_per_cyl :: u32
  sectors_per_track :: u32
  sectors_per_cyl :: u32
  ncyl :: u32
  cpg :: u32
  inodes_per_group :: u32
  frags_per_group :: u32
  dir_count :: u32
  free_block_count :: u32
  free_inode_count :: u32
  free_frag_count :: u32
  sb_state :: u8
  fs_magic :: u32

definition UFS_FS_MAGIC :: u32 where "UFS_FS_MAGIC = 0x00011954"
definition UFS_SBLOCK_OFFSET :: nat where "UFS_SBLOCK_OFFSET = 0x2000"
definition UFS_SUPER_MAGIC_OFFSET :: nat where "UFS_SUPER_MAGIC_OFFSET = 0x55c"
definition UFS_INODE_SIZE :: nat where "UFS_INODE_SIZE = 128"

definition decode_superblock :: "buf \<Rightarrow> nextufs_superblock" where
  "decode_superblock buf =
     \<lparr>sb_off = read_be32 buf 0x8, cg_off = read_be32 buf 0xc,
      ino_off = read_be32 buf 0x10, data_off = read_be32 buf 0x14,
      cg_delta = read_be32 buf 0x18, cg_cyc_mask = read_be32 buf 0x1c,
      write_time = read_be32 buf 0x20, frag_count = read_be32 buf 0x24,
      data_frag_count = read_be32 buf 0x28, cg_count = read_be32 buf 0x2c,
      block_size = read_be32 buf 0x30, frag_size = read_be32 buf 0x34,
      frags_per_block = read_be32 buf 0x38, minfree = read_be32 buf 0x3c,
      rotdelay = read_be32 buf 0x40, rps = read_be32 buf 0x44, block_mask = read_be32 buf 0x48,
      frag_mask = read_be32 buf 0x4c, block_shift = read_be32 buf 0x50,
      frag_shift_calc = read_be32 buf 0x54, maxcontig = read_be32 buf 0x58,
      maxbpg = read_be32 buf 0x5c, frag_shift = read_be32 buf 0x60,
      fsbtodb = read_be32 buf 0x64, super_size = read_be32 buf 0x68,
      csum_mask = read_be32 buf 0x6c, csum_shift = read_be32 buf 0x70,
      nindir = read_be32 buf 0x74, sectors_per_frag = read_be32 buf 0x7c,
      optim = read_be32 buf 0x80, inodes_per_block = read_be32 buf 0x78,
      cyl_summary_addr = read_be32 buf 0x98, csum_size = read_be32 buf 0x9c,
      cg_size = read_be32 buf 0xa0, tracks_per_cyl = read_be32 buf 0xa4,
      sectors_per_track = read_be32 buf 0xa8, sectors_per_cyl = read_be32 buf 0xac,
      ncyl = read_be32 buf 0xb0, cpg = read_be32 buf 0xb4,
      inodes_per_group = read_be32 buf 0xb8, frags_per_group = read_be32 buf 0xbc,
      dir_count = read_be32 buf 0xc0, free_block_count = read_be32 buf 0xc4,
      free_inode_count = read_be32 buf 0xc8, free_frag_count = read_be32 buf 0xcc,
      sb_state = buf 0xd1, fs_magic = read_be32 buf UFS_SUPER_MAGIC_OFFSET\<rparr>"

text \<open>The arrays \<open>db\<close> and \<open>ib\<close> are lists of 12 and 3 words.\<close>

record nextufs_inode =
  mode :: u16
  nlink :: u16
  uid :: u16
  gid :: u16
  isize :: u64
  atime :: u32
  mtime :: u32
  ctime :: u32
  db :: "u32 list"
  ib :: "u32 list"
  flags :: u32
  blocks :: u32
  gen :: u32

definition inode_wf :: "nextufs_inode \<Rightarrow> bool" where
  "inode_wf ino \<longleftrightarrow> length (db ino) = 12 \<and> length (ib ino) = 3"

definition read_words :: "buf \<Rightarrow> nat \<Rightarrow> nat \<Rightarrow> u32 list" where
  "read_words b p n = map (\<lambda>i. read_be32 b (p + i * 4)) [0..<n]"

primrec write_words :: "buf \<Rightarrow> nat \<Rightarrow> u32 list \<Rightarrow> buf" where
  "write_words b p [] = b"
| "write_words b p (x # xs) = write_words (write_be32 b p x) (p + 4) xs"

definition decode_inode :: "buf \<Rightarrow> nextufs_inode" where
  "decode_inode buf =
     \<lparr>mode = read_be16 buf 0, nlink = read_be16 buf 2, uid = read_be16 buf 4,
      gid = read_be16 buf 6, isize = read_be64 buf 8, atime = read_be32 buf 0x10,
      mtime = read_be32 buf 0x18, ctime = read_be32 buf 0x20,
      db = read_words buf 0x28 12, ib = read_words buf 0x58 3,
      flags = read_be32 buf 0x64, blocks = read_be32 buf 0x68, gen = read_be32 buf 0x6c\<rparr>"

text \<open>The 128 bytes \<open>nextufs__write_inode_raw\<close> writes.\<close>

definition encode_inode :: "nextufs_inode \<Rightarrow> buf" where
  "encode_inode ino =
     (let raw = (\<lambda>_. 0);
          raw = write_be16 raw 0 (mode ino);
          raw = write_be16 raw 2 (nlink ino);
          raw = write_be16 raw 4 (uid ino);
          raw = write_be16 raw 6 (gid ino);
          raw = write_be64 raw 8 (isize ino);
          raw = write_be32 raw 0x10 (atime ino);
          raw = write_be32 raw 0x18 (mtime ino);
          raw = write_be32 raw 0x20 (ctime ino);
          raw = write_words raw 0x28 (db ino);
          raw = write_words raw 0x58 (ib ino);
          raw = write_be32 raw 0x64 (flags ino);
          raw = write_be32 raw 0x68 (blocks ino)
      in write_be32 raw 0x6c (gen ino))"

lemma write_words_other:
  "i < p \<or> p + 4 * length xs \<le> i \<Longrightarrow> write_words b p xs i = b i"
  by (induction xs arbitrary: b p) (auto simp: cell_simps)

lemma read_be32_write_words_other:
  "q + 4 \<le> p \<or> p + 4 * length xs \<le> q \<Longrightarrow> read_be32 (write_words b p xs) q = read_be32 b q"
  by (rule read_be32_cong) (auto intro: write_words_other)

lemma read_be16_write_words_other:
  "q + 2 \<le> p \<or> p + 4 * length xs \<le> q \<Longrightarrow> read_be16 (write_words b p xs) q = read_be16 b q"
  by (rule read_be16_cong) (auto intro: write_words_other)

lemma read_be64_write_words_other:
  "q + 8 \<le> p \<or> p + 4 * length xs \<le> q \<Longrightarrow> read_be64 (write_words b p xs) q = read_be64 b q"
  by (rule read_be64_cong) (auto intro: write_words_other)

lemmas words_other = read_be32_write_words_other read_be16_write_words_other
  read_be64_write_words_other

lemma read_be32_write_words:
  "i < length xs \<Longrightarrow> read_be32 (write_words b p xs) (p + i * 4) = xs ! i"
proof (induction xs arbitrary: b p i)
  case (Cons x xs)
  show ?case
  proof (cases i)
    case 0
    then show ?thesis by (simp add: words_other cell_simps)
  next
    case (Suc j)
    with Cons.IH [of j "write_be32 b p x" "p + 4"] Cons.prems show ?thesis by (simp add: add.assoc)
  qed
qed simp

lemma read_words_write_words:
  "length xs = n \<Longrightarrow> read_words (write_words b p xs) p n = xs"
  by (rule nth_equalityI) (auto simp: read_words_def read_be32_write_words)

lemma read_words_cong:
  "(\<And>i. p \<le> i \<Longrightarrow> i < p + n * 4 \<Longrightarrow> b i = c i) \<Longrightarrow> read_words b p n = read_words c p n"
  by (auto simp: read_words_def intro!: read_be32_cong)

lemma read_words_other:
  "q + n * 4 \<le> p \<or> p + 4 \<le> q \<Longrightarrow> read_words (write_be32 b p v) q n = read_words b q n"
  "q + n * 4 \<le> p \<or> p + 4 * length xs \<le> q \<Longrightarrow>
     read_words (write_words b p xs) q n = read_words b q n"
  by (auto intro!: read_words_cong write_words_other write_be32_other)

lemma read_words_clip: "p + n * 4 \<le> m \<Longrightarrow> read_words (clip m b) p n = read_words b p n"
  by (rule read_words_cong) simp

lemma decode_encode_inode: "inode_wf ino \<Longrightarrow> decode_inode (encode_inode ino) = ino"
  by (cases ino) (simp add: inode_wf_def decode_inode_def encode_inode_def Let_def cell_simps
    words_other read_words_other read_words_write_words)

lemma decode_inode_clip: "128 \<le> n \<Longrightarrow> decode_inode (clip n b) = decode_inode b"
  by (simp add: decode_inode_def cell_simps read_words_clip)

lemma decode_inode_wf [simp]: "inode_wf (decode_inode b)"
  by (simp add: inode_wf_def decode_inode_def read_words_def)

section \<open>The open image\<close>

text \<open>
  The fields of \<open>struct nextufs_image\<close> that stay fixed once it is open; the backend (\<open>fd\<close>,
  \<open>backend_ops\<close>, \<open>backend_ctx\<close>) is the state. Offsets (\<open>off_t\<close>) are integers: sums of offsets are
  taken exactly, products computed in \<open>uint64_t\<close> by the code wrap and are then read as signed.
\<close>

record nextufs_image =
  writable :: bool
  source_is_container :: bool
  image_size :: int
  slice_base :: int
  slice_size :: int
  label_off :: int
  label_version :: u32
  label_secsize :: u32
  label_front :: u16
  label_name :: "u8 list"
  rootpartition :: u8
  used_disk_label :: bool
  sb :: nextufs_superblock

type_synonym 'a fs = "(sys, 'a) io"

text \<open>\<open>sys_read\<close> answers \<open>EINVAL\<close> when no backend is open.\<close>

definition read_exact :: "nat \<Rightarrow> int \<Rightarrow> buf fs" where
  "read_exact n off = sys_read n off"

definition write_exact :: "nextufs_image \<Rightarrow> buf \<Rightarrow> nat \<Rightarrow> int \<Rightarrow> unit fs" where
  "write_exact img d n off = (\<lambda>(b, s). case b of NoBackend \<Rightarrow> (Inl EINVAL, (b, s))
     | _ \<Rightarrow> if \<not> writable img then (Inl EROFS, (b, s)) else sys_write d n off (b, s))"

definition image_fsync :: "nextufs_image \<Rightarrow> unit fs" where
  "image_fsync img = (\<lambda>(b, s). case b of NoBackend \<Rightarrow> (Inl EINVAL, (b, s))
     | _ \<Rightarrow> if \<not> writable img then (Inr (), (b, s)) else sys_os fsync (b, s))"

definition image_pread :: "nextufs_image \<Rightarrow> nat \<Rightarrow> int \<Rightarrow> buf fs" where
  "image_pread img n off =
     (if off < 0 then fail EINVAL else read_exact n (slice_base img + off))"

definition image_pwrite :: "nextufs_image \<Rightarrow> buf \<Rightarrow> nat \<Rightarrow> int \<Rightarrow> unit fs" where
  "image_pwrite img d n off =
     (if off < 0 then fail EINVAL else write_exact img d n (slice_base img + off))"

definition disk :: "sys \<Rightarrow> buf" where
  "disk s = backend_content (fst s)"

definition sys_ok :: "sys \<Rightarrow> bool" where
  "sys_ok s \<longleftrightarrow> backend_ok (fst s)"

lemma disk_sys_simps: "disk = (\<lambda>(b, s). backend_content b)" "sys_ok = (\<lambda>(b, s). backend_ok b)"
  by (auto simp: disk_def sys_ok_def)

interpretation img: image_store read_exact "write_exact im" disk sys_ok for im
proof (unfold_locales, goal_cases)
  case (1 s n off r t)
  then show ?case unfolding read_exact_def disk_sys_simps by (rule sys.rd_keeps)
next
  case (2 s n off b t)
  then show ?case unfolding read_exact_def disk_sys_simps by (rule sys.rd_value)
next
  case (3 s d n off q t)
  show ?case
  proof (cases "\<exists>e. write_exact im d n off s = (Inl e, s)")
    case True
    with 3 show ?thesis by (auto intro!: exI [of _ 0])
  next
    case False
    with 3(2) have "sys_write d n off s = (q, t)"
      by (auto simp: write_exact_def split: prod.splits backend.splits if_splits)
    from sys.wr_prefix [OF _ this] 3(1) show ?thesis by (simp add: disk_sys_simps)
  qed
qed

text \<open>The slice of the image that holds the file system is an image store of its own.\<close>

lemma blit_shift: "(\<lambda>i. blit f (a + p) k d (a + i)) = blit (\<lambda>i. f (a + i)) p k d"
  by (auto simp: blit_def fun_eq_iff)

interpretation slice: image_store "image_pread im" "image_pwrite im"
  "\<lambda>s i. disk s (nat (slice_base im) + i)" "\<lambda>s. sys_ok s \<and> 0 \<le> slice_base im" for im
proof (unfold_locales, goal_cases)
  case (1 s n off r t)
  then show ?case using img.rd_keeps [of s n "slice_base im + off" r t]
    by (auto simp: image_pread_def split: if_splits)
next
  case (2 s n off b t)
  then show ?case using img.rd_value [of s n "slice_base im + off" b t]
    by (auto simp: image_pread_def nat_add_distrib add.assoc split: if_splits)
next
  case (3 s d n off q t)
  show ?case
  proof (cases "off < 0")
    case True
    with 3 show ?thesis by (auto simp: image_pwrite_def intro!: exI [of _ 0])
  next
    case False
    with 3(2) have run: "write_exact im d n (slice_base im + off) s = (q, t)"
      by (simp add: image_pwrite_def)
    obtain k where "sys_ok t" "k \<le> n" "q = Inr () \<longrightarrow> k = n"
      "disk t = blit (disk s) (nat (slice_base im + off)) k d"
      using img.wr_prefix [OF _ run] 3(1) by auto
    moreover have "nat (slice_base im + off) = nat (slice_base im) + nat off"
      using False 3(1) by (simp add: nat_add_distrib)
    ultimately show ?thesis using 3(1) by (auto simp: blit_shift)
  qed
qed

lemma wp_sys_os:
  "wp (sys_os m) E Q = (\<lambda>(b, s). wp m (\<lambda>e t. E e (b, t)) (\<lambda>x t. Q x (b, t)) s)"
  by (auto simp: wp_def sys_os_def fun_eq_iff split: prod.splits sum.splits)

text \<open>The heap and the clock do not touch the disk.\<close>

definition same_disk :: "sys \<Rightarrow> sys \<Rightarrow> bool" where
  "same_disk s t \<longleftrightarrow> disk t = disk s \<and> (sys_ok s \<longrightarrow> sys_ok t)"

lemma wp_sys_malloc:
  assumes "\<And>t. same_disk s t \<Longrightarrow> E ENOMEM t" "\<And>t. same_disk s t \<Longrightarrow> Q () t"
  shows "wp (sys_os malloc) E Q s"
  using assms by (cases s) (auto simp: wp_sys_os same_disk_def disk_def sys_ok_def intro!: wp_malloc)

lemma wp_sys_time:
  assumes "\<And>now t. same_disk s t \<Longrightarrow> Q now t"
  shows "wp (sys_os time) E Q s"
  using assms by (cases s) (auto simp: wp_sys_os wp_def time_def same_disk_def disk_def sys_ok_def)

section \<open>Addresses\<close>

definition cgstart :: "nextufs_image \<Rightarrow> u32 \<Rightarrow> u64" where
  "cgstart img cg =
     (let cgbase = ucast (frags_per_group (sb img)) * ucast cg;
          cyc_mask_bits = ucast (NOT (cg_cyc_mask (sb img)))
      in cgbase + ucast (cg_delta (sb img)) * (ucast cg AND cyc_mask_bits))"

definition cg_block_offset :: "nextufs_image \<Rightarrow> u32 \<Rightarrow> int" where
  "cg_block_offset img cg = slice_base img +
     sint ((cgstart img cg + ucast (cg_off (sb img))) * ucast (frag_size (sb img)))"

text \<open>The result is negative exactly where the C function returns -1 or an offset that wrapped;
  a shift count of 64 or more is undefined in C and yields 0 here.\<close>

definition inode_offset :: "nextufs_image \<Rightarrow> u32 \<Rightarrow> int" where
  "inode_offset img inode_no =
     (if inodes_per_group (sb img) = 0 \<or> frags_per_group (sb img) = 0 \<or> inodes_per_block (sb img) = 0
      then -1
      else let cg = ucast (inode_no div inodes_per_group (sb img)) :: u64;
               inum_in_group = ucast (inode_no mod inodes_per_group (sb img)) :: u64;
               cgbase = ucast (frags_per_group (sb img)) * cg;
               cgstart = cgbase + ucast (cg_delta (sb img)) * (cg AND ucast (NOT (cg_cyc_mask (sb img))));
               cgimin = cgstart + ucast (ino_off (sb img));
               frag_addr = cgimin + push_bit (unat (frag_shift (sb img)))
                 (inum_in_group div ucast (inodes_per_block (sb img)));
               inode_slot = inum_in_group mod ucast (inodes_per_block (sb img))
        in slice_base img + sint (frag_addr * ucast (frag_size (sb img))) +
           sint (inode_slot * of_nat UFS_INODE_SIZE))"

definition inode_read :: "nextufs_image \<Rightarrow> u32 \<Rightarrow> (nextufs_inode \<times> int) fs" where
  "inode_read img inode_no =
     (let off = inode_offset img inode_no in
      if off < 0 then fail EINVAL
      else andthen (read_exact UFS_INODE_SIZE off) (\<lambda>ibuf. ret (decode_inode ibuf, off)))"

definition write_inode_raw :: "nextufs_image \<Rightarrow> u32 \<Rightarrow> nextufs_inode \<Rightarrow> unit fs" where
  "write_inode_raw img inode_no ino =
     (let raw = encode_inode ino; off = inode_offset img inode_no in
      if off < 0 then fail EINVAL else write_exact img raw UFS_INODE_SIZE off)"

section \<open>Summary counters\<close>

definition SB_TIME_OFF :: nat where "SB_TIME_OFF = 0x20"
definition SB_NDIR_OFF :: nat where "SB_NDIR_OFF = 0x0c0"
definition SB_NBFREE_OFF :: nat where "SB_NBFREE_OFF = 0x0c4"
definition SB_NIFREE_OFF :: nat where "SB_NIFREE_OFF = 0x0c8"
definition SB_NFFREE_OFF :: nat where "SB_NFFREE_OFF = 0x0cc"

text \<open>\<open>v = read_be32(p); write_be32(p, v + d)\<close>\<close>

definition add_be32 :: "buf \<Rightarrow> nat \<Rightarrow> u32 \<Rightarrow> buf" where
  "add_be32 b p d = write_be32 b p (read_be32 b p + d)"

definition update_summary_counts ::
    "nextufs_image \<Rightarrow> u32 \<Rightarrow> int \<Rightarrow> int \<Rightarrow> int \<Rightarrow> int \<Rightarrow> unit fs" where
  "update_summary_counts img cg d_ndir d_nbfree d_nifree d_nffree =
     (let sb_off = slice_base img + 0x2000 in
      andthen (read_exact 2048 sb_off) (\<lambda>sbuf.
      let sbuf = add_be32 sbuf SB_NDIR_OFF (word_of_int d_ndir);
          sbuf = add_be32 sbuf SB_NBFREE_OFF (word_of_int d_nbfree);
          sbuf = add_be32 sbuf SB_NIFREE_OFF (word_of_int d_nifree);
          sbuf = add_be32 sbuf SB_NFFREE_OFF (word_of_int d_nffree) in
      andthen (sys_os time) (\<lambda>now.
      let sbuf = write_be32 sbuf SB_TIME_OFF now in
      andthen (write_exact img sbuf 2048 sb_off) (\<lambda>_.
      let cs_off = slice_base img +
            int (unat (cyl_summary_addr (sb img)) * unat (frag_size (sb img))) + int (unat cg * 16) in
      andthen (read_exact 16 cs_off) (\<lambda>csum_buf.
      let csum_buf = add_be32 csum_buf 0 (word_of_int d_ndir);
          csum_buf = add_be32 csum_buf 4 (word_of_int d_nbfree);
          csum_buf = add_be32 csum_buf 8 (word_of_int d_nifree);
          csum_buf = add_be32 csum_buf 12 (word_of_int d_nffree) in
      write_exact img csum_buf 16 cs_off)))))"

end
