(* ===== verification/CgBitmap.thy ===== *)
theory CgBitmap
  imports Layout
begin

text \<open>
  The fragment map of a cylinder group and the counters that summarise it
  (\<open>src/src/core/alloc.c\<close>): the bit-level helpers, an abstract description of the map as a set of
  free fragments, and the proof that the counters kept in the group follow the map.
\<close>

definition CG_TIME_OFF :: nat where "CG_TIME_OFF = 8"
definition CG_NDBLK_OFF :: nat where "CG_NDBLK_OFF = 20"
definition CG_CS_NDIR_OFF :: nat where "CG_CS_NDIR_OFF = 24"
definition CG_CS_NBFREE_OFF :: nat where "CG_CS_NBFREE_OFF = 28"
definition CG_CS_NIFREE_OFF :: nat where "CG_CS_NIFREE_OFF = 32"
definition CG_CS_NFFREE_OFF :: nat where "CG_CS_NFFREE_OFF = 36"
definition CG_ROTOR_OFF :: nat where "CG_ROTOR_OFF = 40"
definition CG_IROTOR_OFF :: nat where "CG_IROTOR_OFF = 48"
definition CG_BTOT_OFF :: nat where "CG_BTOT_OFF = 84"
definition CG_BPOS_OFF :: nat where "CG_BPOS_OFF = 212"
definition CG_IUSED_OFF :: nat where "CG_IUSED_OFF = 724"
definition CG_MAGIC_OFF :: nat where "CG_MAGIC_OFF = 980"
definition CG_FREE_OFF :: nat where "CG_FREE_OFF = 984"
definition CG_MAGIC :: u32 where "CG_MAGIC = 0x00090255"
definition NRPOS :: nat where "NRPOS = 8"

lemmas cg_offsets = CG_TIME_OFF_def CG_NDBLK_OFF_def CG_CS_NDIR_OFF_def CG_CS_NBFREE_OFF_def
  CG_CS_NIFREE_OFF_def CG_CS_NFFREE_OFF_def CG_ROTOR_OFF_def CG_IROTOR_OFF_def CG_BTOT_OFF_def
  CG_BPOS_OFF_def CG_IUSED_OFF_def CG_MAGIC_OFF_def NRPOS_def

section \<open>The bit-level helpers\<close>

text \<open>\<open>(free_map[k / 8] & (1U << (k % 8))) != 0\<close> for the map at offset \<open>off\<close> of the buffer.\<close>

definition free_bit :: "buf \<Rightarrow> nat \<Rightarrow> nat \<Rightarrow> bool" where
  "free_bit m off k = test_bit8 (m (off + k div 8)) (k mod 8)"

definition clear_bit :: "nat \<Rightarrow> nat \<Rightarrow> buf \<Rightarrow> buf" where
  "clear_bit off k m = m(off + k div 8 := m (off + k div 8) AND NOT (push_bit (k mod 8) 1))"

definition set_bit8 :: "nat \<Rightarrow> nat \<Rightarrow> buf \<Rightarrow> buf" where
  "set_bit8 off k m = m(off + k div 8 := m (off + k div 8) OR push_bit (k mod 8) 1)"

definition block_is_free :: "buf \<Rightarrow> nat \<Rightarrow> nat \<Rightarrow> nat \<Rightarrow> bool" where
  "block_is_free m off frag_base frags = list_all (\<lambda>i. free_bit m off (frag_base + i)) [0..<frags]"

definition clear_block_bits :: "nat \<Rightarrow> nat \<Rightarrow> nat \<Rightarrow> buf \<Rightarrow> buf" where
  "clear_block_bits off frag_base frags m = fold (\<lambda>i. clear_bit off (frag_base + i)) [0..<frags] m"

definition set_run_bits :: "buf \<Rightarrow> nat \<Rightarrow> nat \<Rightarrow> nat \<Rightarrow> bool" where
  "set_run_bits m off frag_base frags = list_all (\<lambda>i. free_bit m off (frag_base + i)) [0..<frags]"

text \<open>The two nested loops of \<open>nextufs__count_free_runs_in_block\<close>.\<close>

function run_length :: "(nat \<Rightarrow> bool) \<Rightarrow> nat \<Rightarrow> nat \<Rightarrow> nat \<Rightarrow> nat" where
  "run_length isfree fpb i run =
     (if i + run < fpb \<and> isfree (i + run)
      then run_length isfree fpb i (run + 1) else run)"
  by pat_completeness auto
termination by (relation "measure (\<lambda>(isfree, n, i, run). n - (i + run))") auto

declare run_length.simps [simp del]

function count_loop :: "(nat \<Rightarrow> bool) \<Rightarrow> nat \<Rightarrow> nat \<Rightarrow> (nat \<Rightarrow> u32) \<Rightarrow> (nat \<Rightarrow> u32)" where
  "count_loop isfree fpb i counts =
     (if i < fpb then
        let run = run_length isfree fpb i 0;
            counts = (if 0 < run \<and> run < fpb then counts(run := counts run + 1) else counts)
        in count_loop isfree fpb (i + (if 0 < run then run else 1)) counts
      else counts)"
  by pat_completeness auto
termination by (relation "measure (\<lambda>(isfree, n, i, counts). n - i)") auto

declare count_loop.simps [simp del]

definition count_free_runs_in_block :: "buf \<Rightarrow> nat \<Rightarrow> nat \<Rightarrow> nat \<Rightarrow> (nat \<Rightarrow> u32)" where
  "count_free_runs_in_block m off block_frag_base fpb =
     count_loop (\<lambda>i. free_bit m off (block_frag_base + i)) fpb 0 (\<lambda>_. 0)"

definition frsum_off :: "nat \<Rightarrow> nat" where
  "frsum_off i = 52 + i * 4"

definition apply_cg_frsum_delta :: "(nat \<Rightarrow> u32) \<Rightarrow> (nat \<Rightarrow> u32) \<Rightarrow> nat \<Rightarrow> buf \<Rightarrow> buf" where
  "apply_cg_frsum_delta before after fpb buf =
     fold (\<lambda>i buf. let v = read_be32 buf (frsum_off i); delta = after i - before i in
       if delta \<noteq> 0 then write_be32 buf (frsum_off i) (v + delta) else buf)
     [1..<fpb] buf"

section \<open>The map as a set of free fragments\<close>

definition free_map :: "buf \<Rightarrow> nat \<Rightarrow> bool" where
  "free_map buf = free_bit buf CG_FREE_OFF"

lemma free_bit_iff: "free_bit m off k \<longleftrightarrow> bit (m (off + k div 8)) (k mod 8)"
  by (simp add: free_bit_def test_bit8_iff)

lemma div_mod_8_eq: "(k :: nat) div 8 = j div 8 \<Longrightarrow> k mod 8 = j mod 8 \<Longrightarrow> k = j"
  by (metis div_mult_mod_eq)

lemma free_bit_clear [simp]: "free_bit (clear_bit off k m) off j \<longleftrightarrow> free_bit m off j \<and> j \<noteq> k"
  by (cases "j div 8 = k div 8")
    (auto simp: free_bit_iff clear_bit_def bit_and_not_pow dest: div_mod_8_eq)

lemma free_bit_set [simp]: "free_bit (set_bit8 off k m) off j \<longleftrightarrow> free_bit m off j \<or> j = k"
  by (cases "j div 8 = k div 8")
    (auto simp: free_bit_iff set_bit8_def bit_or_pow dest: div_mod_8_eq)

lemma clear_bit_below [simp]: "i < off \<Longrightarrow> clear_bit off k m i = m i"
  by (simp add: clear_bit_def)

lemma set_bit8_below [simp]: "i < off \<Longrightarrow> set_bit8 off k m i = m i"
  by (simp add: set_bit8_def)

lemma clear_block_bits_below [simp]: "i < off \<Longrightarrow> clear_block_bits off p n m i = m i"
  unfolding clear_block_bits_def by (induction n) auto

lemma free_bit_clear_block [simp]:
  "free_bit (clear_block_bits off p n m) off j \<longleftrightarrow> free_bit m off j \<and> \<not> (p \<le> j \<and> j < p + n)"
  unfolding clear_block_bits_def by (induction n) auto

lemma block_is_free_iff: "block_is_free m off p n \<longleftrightarrow> (\<forall>i<n. free_bit m off (p + i))"
  by (auto simp: block_is_free_def list_all_iff)

lemma set_run_bits_iff: "set_run_bits m off p n \<longleftrightarrow> (\<forall>i<n. free_bit m off (p + i))"
  by (auto simp: set_run_bits_def list_all_iff)

lemma free_map_cong: "(\<And>i. CG_FREE_OFF \<le> i \<Longrightarrow> b i = c i) \<Longrightarrow> free_map b = free_map c"
  by (simp add: free_map_def free_bit_def fun_eq_iff)

lemma free_map_write [cell_simps]:
  "p + 4 \<le> 984 \<Longrightarrow> free_map (write_be32 b p v) = free_map b"
  "p + 2 \<le> 984 \<Longrightarrow> free_map (write_be16 b p w) = free_map b"
  by (auto intro!: free_map_cong simp: cell_simps CG_FREE_OFF_def)

section \<open>Runs of free fragments\<close>

text \<open>A maximal run of \<open>k\<close> free fragments that starts at \<open>i\<close>, in a block of \<open>n\<close>.\<close>

definition max_run :: "(nat \<Rightarrow> bool) \<Rightarrow> nat \<Rightarrow> nat \<Rightarrow> nat \<Rightarrow> bool" where
  "max_run P n i k \<longleftrightarrow> 0 < k \<and> i + k \<le> n \<and> (\<forall>j. i \<le> j \<and> j < i + k \<longrightarrow> P j) \<and>
     (i = 0 \<or> \<not> P (i - 1)) \<and> (i + k = n \<or> \<not> P (i + k))"

definition runs :: "(nat \<Rightarrow> bool) \<Rightarrow> nat \<Rightarrow> nat \<Rightarrow> nat" where
  "runs P n k = card {i. max_run P n i k}"

lemma run_length_spec:
  assumes "i + r \<le> n" "\<forall>j. i \<le> j \<and> j < i + r \<longrightarrow> P j"
  shows "let l = run_length P n i r in r \<le> l \<and> i + l \<le> n \<and> (\<forall>j. i \<le> j \<and> j < i + l \<longrightarrow> P j) \<and>
    (i + l = n \<or> \<not> P (i + l))"
  using assms
proof (induction P n i r rule: run_length.induct)
  case (1 P n i r)
  show ?case
  proof (cases "i + r < n \<and> P (i + r)")
    case True
    then have "\<forall>j. i \<le> j \<and> j < i + (r + 1) \<longrightarrow> P j"
      using "1.prems"(2) by (metis Suc_eq_plus1 add_Suc_right less_antisym)
    with "1.IH" [OF True] True show ?thesis
      by (simp add: Let_def run_length.simps [of P n i r])
  next
    case False
    with "1.prems" show ?thesis by (auto simp: Let_def run_length.simps [of P n i r])
  qed
qed

lemma finite_max_runs [simp]: "finite {j. i \<le> j \<and> max_run P n j k}"
  by (rule finite_subset [of _ "{..n}"]) (auto simp: max_run_def)

lemma max_run_starts: "max_run P n j k \<Longrightarrow> j < n \<and> P j \<and> (j = 0 \<or> \<not> P (j - 1))"
  by (auto simp: max_run_def)

text \<open>Two maximal runs that start at the same place have the same length.\<close>

lemma max_run_unique: "max_run P n i k \<Longrightarrow> max_run P n i k' \<Longrightarrow> k = k'"
  unfolding max_run_def by (metis add_less_cancel_left le_add1 linorder_neqE_nat order_less_le_trans nat_less_le)

lemma count_loop_spec:
  assumes "i = 0 \<or> \<not> P (i - 1) \<or> \<not> P i \<or> n \<le> i" "k < n"
  shows "count_loop P n i c k = c k + of_nat (card {j. i \<le> j \<and> max_run P n j k})"
  using assms
proof (induction P n i c rule: count_loop.induct)
  case (1 P n i c)
  show ?case
  proof (cases "i < n")
    case False
    then have none: "{j. i \<le> j \<and> max_run P n j k} = {}" by (auto dest: max_run_starts)
    show ?thesis using False by (subst count_loop.simps) (simp add: none)
  next
    case True
    define r where "r = run_length P n i 0"
    have none: "\<forall>j. i \<le> j \<and> j < i + 0 \<longrightarrow> P j" by auto
    have r: "i + r \<le> n" "\<forall>j. i \<le> j \<and> j < i + r \<longrightarrow> P j" "i + r = n \<or> \<not> P (i + r)"
      using run_length_spec [OF _ none, of n] True by (auto simp: r_def Let_def)
    let ?c = "if 0 < r \<and> r < n then c(r := c r + 1) else c"
    have unroll: "count_loop P n i c = count_loop P n (i + (if 0 < r then r else 1)) ?c"
      using True by (subst count_loop.simps) (simp add: Let_def r_def)
    show ?thesis
    proof (cases "0 < r")
      case False
      then have np: "\<not> P i" using r(3) True by simp
      have "{j. i \<le> j \<and> max_run P n j k} = {j. i + 1 \<le> j \<and> max_run P n j k}"
        using np by (auto dest: max_run_starts simp: le_eq_less_or_eq)
      moreover have "count_loop P n (i + 1) c k = c k + of_nat (card {j. i + 1 \<le> j \<and> max_run P n j k})"
        using "1.IH" [OF True r_def refl] False np "1.prems"(2) by simp
      ultimately show ?thesis using unroll False by simp
    next
      case pos: True
      have Pi: "P i" using r(2) pos by simp
      have run: "max_run P n i r"
        using r True pos "1.prems"(1) Pi by (auto simp: max_run_def)
      have tail: "\<not> P (i + r) \<or> n \<le> i + r" using r(3) by auto
      have split: "{j. i \<le> j \<and> max_run P n j k} =
          (if k = r then {i} else {}) \<union> {j. i + r \<le> j \<and> max_run P n j k}"
      proof -
        have "j = i \<and> k = r \<or> i + r \<le> j" if "i \<le> j" "max_run P n j k" for j
        proof (cases "j = i")
          case True
          with that(2) run show ?thesis using max_run_unique by blast
        next
          case False
          show ?thesis
          proof (rule ccontr)
            assume "\<not> ?thesis"
            with False that(1) have "i \<le> j - 1" "j - 1 < i + r" "0 < j" by auto
            with r(2) have "P (j - 1)" by simp
            with max_run_starts [OF that(2)] \<open>0 < j\<close> show False by simp
          qed
        qed
        with run show ?thesis by auto
      qed
      define A where "A = {j. i + r \<le> j \<and> max_run P n j k}"
      have "i \<notin> A" "finite A" unfolding A_def using pos by (simp, intro finite_max_runs)
      then have card: "card {j. i \<le> j \<and> max_run P n j k} = (if k = r then 1 else 0) + card A"
        unfolding split A_def [symmetric] by simp
      have "count_loop P n (i + r) ?c k = ?c k + of_nat (card {j. i + r \<le> j \<and> max_run P n j k})"
        using "1.IH" [OF True r_def refl] pos tail "1.prems"(2) by auto
      moreover have "?c k = c k + (if k = r then 1 else 0)" using pos "1.prems"(2) by auto
      ultimately show ?thesis using unroll pos by (simp add: card A_def)
    qed
  qed
qed

lemma count_free_runs_eq:
  "k < n \<Longrightarrow> count_free_runs_in_block m off base n k =
     of_nat (runs (\<lambda>i. free_bit m off (base + i)) n k)"
  unfolding count_free_runs_in_block_def runs_def by (subst count_loop_spec) auto


section \<open>The accounts of a cylinder group\<close>

text \<open>
  What block \<open>b\<close> contributes to the three kinds of counters: the number of wholly free blocks,
  the number of free fragments in other blocks, and the number of free runs of each length.
\<close>

definition blk_full :: "(nat \<Rightarrow> bool) \<Rightarrow> nat \<Rightarrow> nat \<Rightarrow> bool" where
  "blk_full F n b \<longleftrightarrow> (\<forall>i<n. F (b * n + i))"

definition blk_frags :: "(nat \<Rightarrow> bool) \<Rightarrow> nat \<Rightarrow> nat \<Rightarrow> nat" where
  "blk_frags F n b = (if blk_full F n b then 0 else card {i. i < n \<and> F (b * n + i)})"

definition blk_runs :: "(nat \<Rightarrow> bool) \<Rightarrow> nat \<Rightarrow> nat \<Rightarrow> nat \<Rightarrow> nat" where
  "blk_runs F n b k = runs (\<lambda>i. F (b * n + i)) n k"

text \<open>
  The accounts hold: the counters of the group agree with the map of its \<open>nblk\<close> blocks, as
  32-bit words.
\<close>

definition cg_accounts :: "nat \<Rightarrow> nat \<Rightarrow> buf \<Rightarrow> bool" where
  "cg_accounts n nblk buf \<longleftrightarrow>
     read_be32 buf CG_CS_NBFREE_OFF = (\<Sum>b<nblk. if blk_full (free_map buf) n b then 1 else 0) \<and>
     read_be32 buf CG_CS_NFFREE_OFF = (\<Sum>b<nblk. of_nat (blk_frags (free_map buf) n b)) \<and>
     (\<forall>k. 1 \<le> k \<and> k < n \<longrightarrow> read_be32 buf (frsum_off k) =
        (\<Sum>b<nblk. of_nat (blk_runs (free_map buf) n b k)))"

lemma max_run_cong:
  assumes "\<And>i. i < n \<Longrightarrow> P i = Q i"
  shows "max_run P n i k = max_run Q n i k"
proof (cases "0 < k \<and> i + k \<le> n")
  case True
  then have "\<forall>j. i \<le> j \<and> j < i + k \<longrightarrow> P j = Q j" "i - 1 < n" "i + k = n \<or> i + k < n"
    using assms by auto
  then show ?thesis using assms unfolding max_run_def by metis
qed (auto simp: max_run_def)

lemma blk_cong:
  assumes "\<And>i. i < n \<Longrightarrow> F (b * n + i) = G (b * n + i)"
  shows "blk_full F n b = blk_full G n b" "blk_frags F n b = blk_frags G n b"
    "blk_runs F n b k = blk_runs G n b k"
proof -
  show full: "blk_full F n b = blk_full G n b" using assms by (simp add: blk_full_def)
  show "blk_frags F n b = blk_frags G n b"
    unfolding blk_frags_def full using assms by (metis (mono_tags, lifting) Collect_cong)
  have "max_run (\<lambda>i. F (b * n + i)) n i k = max_run (\<lambda>i. G (b * n + i)) n i k" for i
    by (rule max_run_cong) (rule assms)
  then show "blk_runs F n b k = blk_runs G n b k" by (simp add: blk_runs_def runs_def)
qed

lemma blk_none:
  assumes "\<And>i. i < n \<Longrightarrow> \<not> F (b * n + i)" "0 < n"
  shows "\<not> blk_full F n b" "blk_frags F n b = 0" "blk_runs F n b k = 0"
proof -
  show full: "\<not> blk_full F n b" using assms by (auto simp: blk_full_def)
  have "{i. i < n \<and> F (b * n + i)} = {}" using assms(1) by blast
  then show "blk_frags F n b = 0" by (simp add: blk_frags_def full)
  have "\<not> max_run (\<lambda>i. F (b * n + i)) n i k" for i using assms(1) by (fastforce simp: max_run_def)
  then show "blk_runs F n b k = 0" by (simp add: blk_runs_def runs_def)
qed

text \<open>The accounts after a change confined to one block: each counter moves by its difference.\<close>

lemma cg_accounts_update:
  assumes acc: "cg_accounts n nblk buf" and b: "b < nblk"
    and other: "\<And>c i. c \<noteq> b \<Longrightarrow> i < n \<Longrightarrow> free_map buf' (c * n + i) = free_map buf (c * n + i)"
    and nb: "read_be32 buf' CG_CS_NBFREE_OFF = read_be32 buf CG_CS_NBFREE_OFF +
      (if blk_full (free_map buf') n b then 1 else 0) - (if blk_full (free_map buf) n b then 1 else 0)"
    and nf: "read_be32 buf' CG_CS_NFFREE_OFF = read_be32 buf CG_CS_NFFREE_OFF +
      of_nat (blk_frags (free_map buf') n b) - of_nat (blk_frags (free_map buf) n b)"
    and fr: "\<And>k. 1 \<le> k \<Longrightarrow> k < n \<Longrightarrow> read_be32 buf' (frsum_off k) = read_be32 buf (frsum_off k) +
      of_nat (blk_runs (free_map buf') n b k) - of_nat (blk_runs (free_map buf) n b k)"
  shows "cg_accounts n nblk buf'"
proof -
  have same: "blk_full (free_map buf') n c = blk_full (free_map buf) n c"
    "blk_frags (free_map buf') n c = blk_frags (free_map buf) n c"
    "blk_runs (free_map buf') n c k = blk_runs (free_map buf) n c k" if "c \<noteq> b" for c k
    using blk_cong [of n "free_map buf'" c "free_map buf"] other [OF that] by blast+
  show ?thesis
    unfolding cg_accounts_def
  proof (intro conjI allI impI)
    show "read_be32 buf' CG_CS_NBFREE_OFF = (\<Sum>b<nblk. if blk_full (free_map buf') n b then 1 else 0)"
      using acc by (subst sum_update_word [OF b, of _ "\<lambda>b. if blk_full (free_map buf) n b then 1 else 0"])
        (auto simp: same nb cg_accounts_def)
    show "read_be32 buf' CG_CS_NFFREE_OFF = (\<Sum>b<nblk. of_nat (blk_frags (free_map buf') n b))"
      using acc by (subst sum_update_word [OF b, of _ "\<lambda>b. of_nat (blk_frags (free_map buf) n b)"])
        (auto simp: same nf cg_accounts_def)
    fix k assume k: "1 \<le> k \<and> k < n"
    then show "read_be32 buf' (frsum_off k) = (\<Sum>b<nblk. of_nat (blk_runs (free_map buf') n b k))"
      using acc by (subst sum_update_word [OF b, of _ "\<lambda>b. of_nat (blk_runs (free_map buf) n b k)"])
        (auto simp: same fr cg_accounts_def)
  qed
qed


section \<open>Updating the counters of run lengths\<close>

lemma apply_frsum_other:
  "i < 56 \<or> 52 + 4 * n \<le> i \<Longrightarrow> apply_cg_frsum_delta before after n buf i = buf i"
proof (induction n)
  case (Suc n)
  then show ?case
    by (cases "1 \<le> n") (auto simp: apply_cg_frsum_delta_def Let_def frsum_off_def cell_simps)
qed (simp add: apply_cg_frsum_delta_def)

lemma apply_frsum_Suc:
  "1 \<le> n \<Longrightarrow> apply_cg_frsum_delta before after (Suc n) buf =
     (let b = apply_cg_frsum_delta before after n buf; d = after n - before n in
      if d \<noteq> 0 then write_be32 b (frsum_off n) (read_be32 b (frsum_off n) + d) else b)"
  by (simp add: apply_cg_frsum_delta_def Let_def)

lemma apply_frsum_read:
  assumes "1 \<le> k"
  shows "read_be32 (apply_cg_frsum_delta before after n buf) (frsum_off k) =
    read_be32 buf (frsum_off k) + (if k < n then after k - before k else 0)"
proof (induction n)
  case (Suc n)
  show ?case
  proof (cases "1 \<le> n")
    case True
    have new: "read_be32 (apply_cg_frsum_delta before after n buf) (frsum_off n) = read_be32 buf (frsum_off n)"
      by (rule read_be32_cong) (rule apply_frsum_other, simp add: frsum_off_def)
    show ?thesis
    proof (cases "k = n")
      case True
      with \<open>1 \<le> n\<close> new show ?thesis by (auto simp: apply_frsum_Suc Let_def cell_simps)
    next
      case False
      with Suc.IH \<open>1 \<le> n\<close> show ?thesis
        by (auto simp: apply_frsum_Suc Let_def cell_simps frsum_off_def)
    qed
  next
    case False
    with assms show ?thesis by (simp add: apply_cg_frsum_delta_def)
  qed
qed (simp add: apply_cg_frsum_delta_def)

text \<open>
  The counters, the maps and the other areas of a group are disjoint, as long as a block has at
  most eight fragments: each read below an update is unaffected by it.
\<close>

lemma read_be32_apply_frsum [cell_simps]:
  "n \<le> 8 \<Longrightarrow> p + 4 \<le> 56 \<or> 84 \<le> p \<Longrightarrow>
     read_be32 (apply_cg_frsum_delta before after n buf) p = read_be32 buf p"
  by (rule read_be32_cong) (auto intro!: apply_frsum_other)

lemma free_map_apply_frsum [cell_simps]:
  "n \<le> 8 \<Longrightarrow> free_map (apply_cg_frsum_delta before after n buf) = free_map buf"
  by (rule free_map_cong) (auto intro!: apply_frsum_other simp: CG_FREE_OFF_def)

lemma read_be32_map_below [cell_simps]:
  "p + 4 \<le> 984 \<Longrightarrow> read_be32 (clear_block_bits CG_FREE_OFF i n buf) p = read_be32 buf p"
  "p + 4 \<le> 984 \<Longrightarrow> read_be32 (set_bit8 CG_FREE_OFF j buf) p = read_be32 buf p"
  by (rule read_be32_cong; simp add: CG_FREE_OFF_def)+

lemma free_map_clear_block [simp]:
  "free_map (clear_block_bits CG_FREE_OFF i n buf) = (\<lambda>k. free_map buf k \<and> \<not> (i \<le> k \<and> k < i + n))"
  by (simp add: free_map_def fun_eq_iff)

lemma free_map_set_bit [simp]:
  "free_map (set_bit8 CG_FREE_OFF j buf) = (\<lambda>k. free_map buf k \<or> k = j)"
  by (simp add: free_map_def fun_eq_iff)

lemma add_be32_read [cell_simps]:
  "read_be32 (add_be32 b p d) p = read_be32 b p + d"
  "q + 4 \<le> p \<or> p + 4 \<le> q \<Longrightarrow> read_be32 (add_be32 b p d) q = read_be32 b q"
  "p + 4 \<le> 984 \<Longrightarrow> free_map (add_be32 b p d) = free_map b"
  by (simp_all add: add_be32_def cell_simps)

section \<open>Taking and releasing fragments\<close>

text \<open>
  The update both \<open>allocate_frags_in_group\<close> (its first loop) and \<open>extend_fragment_run\<close> make:
  fragments \<open>start, \<dots>, start + frags - 1\<close> of the block at \<open>block_base\<close> are taken, the run counters follow.
\<close>

definition take_run :: "nat \<Rightarrow> nat \<Rightarrow> nat \<Rightarrow> nat \<Rightarrow> buf \<Rightarrow> buf" where
  "take_run fpb block_base start frags buf =
     (let before = count_free_runs_in_block buf CG_FREE_OFF block_base fpb;
          buf = clear_block_bits CG_FREE_OFF start frags buf;
          after = count_free_runs_in_block buf CG_FREE_OFF block_base fpb;
          buf = apply_cg_frsum_delta before after fpb buf
      in add_be32 buf CG_CS_NFFREE_OFF (- of_nat frags))"

text \<open>The whole block at \<open>local_frag\<close> is split: its first \<open>frags\<close> fragments are taken.\<close>

definition take_block :: "nat \<Rightarrow> nat \<Rightarrow> nat \<Rightarrow> buf \<Rightarrow> buf" where
  "take_block fpb local_frag frags buf =
     (let buf = clear_block_bits CG_FREE_OFF local_frag frags buf;
          buf = write_be32 buf CG_ROTOR_OFF (of_nat local_frag);
          buf = add_be32 buf CG_CS_NBFREE_OFF (- 1);
          free_frags = fpb - frags;
          buf = add_be32 buf CG_CS_NFFREE_OFF (of_nat free_frags)
      in if 0 < free_frags then add_be32 buf (frsum_off free_frags) 1 else buf)"

text \<open>The loop of \<open>free_fragment_run\<close>: \<open>None\<close> when a fragment is free already.\<close>

primrec release_bits :: "nat \<Rightarrow> nat \<Rightarrow> buf \<Rightarrow> buf option" where
  "release_bits local_frag 0 buf = Some buf"
| "release_bits local_frag (Suc i) buf =
     (case release_bits local_frag i buf of
        None \<Rightarrow> None
      | Some b \<Rightarrow> if free_bit b CG_FREE_OFF (local_frag + i) then None
          else Some (set_bit8 CG_FREE_OFF (local_frag + i) b))"

lemma release_bits_iff:
  "release_bits p n buf = Some b \<Longrightarrow>
     (\<forall>i<n. \<not> free_map buf (p + i)) \<and> free_map b = (\<lambda>k. free_map buf k \<or> p \<le> k \<and> k < p + n) \<and>
     (\<forall>i<CG_FREE_OFF. b i = buf i)"
proof (induction n arbitrary: b)
  case (Suc n)
  from Suc.prems obtain c where c: "release_bits p n buf = Some c"
    "\<not> free_map c (p + n)" "b = set_bit8 CG_FREE_OFF (p + n) c"
    by (auto simp: free_map_def split: option.splits if_splits)
  with Suc.IH [OF c(1)] show ?case by (auto simp: less_Suc_eq fun_eq_iff)
qed (auto intro!: ext)

lemma release_bits_total:
  "\<forall>i<n. \<not> free_map buf (p + i) \<Longrightarrow> \<exists>b. release_bits p n buf = Some b"
proof (induction n)
  case (Suc n)
  then obtain b where b: "release_bits p n buf = Some b" by auto
  from release_bits_iff [OF b] Suc.prems show ?case by (auto simp: b free_map_def fun_eq_iff)
qed simp

lemma release_bits_None:
  "release_bits p n buf = None \<longleftrightarrow> (\<exists>i<n. free_map buf (p + i))"
  using release_bits_iff release_bits_total by (metis not_Some_eq)


lemma free_runs_of_map:
  "k < n \<Longrightarrow> count_free_runs_in_block buf CG_FREE_OFF (b * n) n k = of_nat (blk_runs (free_map buf) n b k)"
  by (simp add: count_free_runs_eq blk_runs_def free_map_def)

lemma same_block:
  fixes c b n i s :: nat
  assumes "c * n + i = s" "i < n" "b * n \<le> s" "s < b * n + n"
  shows "c = b"
proof -
  have "s div n = c" using assms(1,2) by auto
  moreover have "s div n = b" using assms(2-4) by (intro div_nat_eqI) (auto simp: mult.commute)
  ultimately show ?thesis by simp
qed

text \<open>The frags of a block that is not wholly free, before and after some of them are taken.\<close>

lemma card_take_run:
  fixes n s m c :: nat
  assumes "c \<le> s" "s + m \<le> c + n" "\<And>i. i < m \<Longrightarrow> F (s + i)"
  shows "card {i. i < n \<and> F (c + i)} =
    card {i. i < n \<and> F (c + i) \<and> \<not> (s \<le> c + i \<and> c + i < s + m)} + m"
proof -
  let ?A = "{i. i < n \<and> F (c + i) \<and> \<not> (s \<le> c + i \<and> c + i < s + m)}"
  let ?B = "{s - c..<s - c + m}"
  have "{i. i < n \<and> F (c + i)} = ?A \<union> ?B"
  proof (intro equalityI subsetI)
    fix i assume i: "i \<in> ?A \<union> ?B"
    show "i \<in> {i. i < n \<and> F (c + i)}"
    proof (cases "i \<in> ?B")
      case True
      then have "c + i = s + (c + i - s)" "c + i - s < m" "i < n" using assms(1,2) by auto
      then show ?thesis using assms(3) [of "c + i - s"] by simp
    qed (use i in auto)
  qed (use assms(1) in auto)
  moreover have "finite ?A" by (rule finite_subset [of _ "{..<n}"]) auto
  moreover have "?A \<inter> ?B = {}" using assms(1) by auto
  ultimately show ?thesis by (simp add: card_Un_disjoint)
qed

lemma take_run_map:
  "n \<le> 8 \<Longrightarrow> free_map (take_run n c s m buf) = (\<lambda>k. free_map buf k \<and> \<not> (s \<le> k \<and> k < s + m))"
  by (simp add: take_run_def Let_def cell_simps cg_offsets)

lemma take_run_accounts:
  assumes acc: "cg_accounts n nblk buf" and n: "n \<le> 8" and b: "b < nblk" and m: "0 < m"
    and run: "b * n \<le> s" "s + m \<le> b * n + n" "\<And>i. i < m \<Longrightarrow> free_map buf (s + i)"
    and part: "\<not> blk_full (free_map buf) n b"
  shows "cg_accounts n nblk (take_run n (b * n) s m buf)"
proof (rule cg_accounts_update [OF acc b])
  let ?F = "free_map buf" and ?F' = "free_map (take_run n (b * n) s m buf)"
  note map = take_run_map [OF n, of "b * n" s m buf]
  have full': "\<not> blk_full ?F' n b"
    using m run(1,2) by (auto simp: blk_full_def map intro!: exI [of _ "s - b * n"])
  show "?F' (c * n + i) = ?F (c * n + i)" if "c \<noteq> b" "i < n" for c i
  proof -
    have "\<not> (s \<le> c * n + i \<and> c * n + i < s + m)"
      using same_block [of c n i "c * n + i" b, OF refl that(2)] that(1) run(1,2) by linarith
    then show ?thesis by (simp add: map)
  qed
  show "read_be32 (take_run n (b * n) s m buf) CG_CS_NBFREE_OFF = read_be32 buf CG_CS_NBFREE_OFF +
      (if blk_full ?F' n b then 1 else 0) - (if blk_full ?F n b then 1 else 0)"
    using full' part n by (simp add: take_run_def Let_def cell_simps cg_offsets)
  have "blk_frags ?F n b = blk_frags ?F' n b + m"
    using card_take_run [of "b * n" s m n ?F, OF run] full' part by (simp add: blk_frags_def map)
  then show "read_be32 (take_run n (b * n) s m buf) CG_CS_NFFREE_OFF = read_be32 buf CG_CS_NFFREE_OFF +
      of_nat (blk_frags ?F' n b) - of_nat (blk_frags ?F n b)"
    using n by (simp add: take_run_def Let_def cell_simps cg_offsets)
  fix k assume k: "1 \<le> k" "k < n"
  show "read_be32 (take_run n (b * n) s m buf) (frsum_off k) = read_be32 buf (frsum_off k) +
      of_nat (blk_runs ?F' n b k) - of_nat (blk_runs ?F n b k)"
    using k n by (simp add: take_run_def Let_def cell_simps cg_offsets frsum_off_def)
      (simp add: apply_frsum_read [unfolded frsum_off_def] free_runs_of_map map cell_simps cg_offsets)
qed


text \<open>A wholly free block has no partial run; a block with only its tail free has exactly one.\<close>

lemma runs_full: "\<forall>i<n. P i \<Longrightarrow> k < n \<Longrightarrow> runs P n k = 0"
proof -
  assume P: "\<forall>i<n. P i" and k: "k < n"
  have "\<not> max_run P n i k" for i
  proof
    assume r: "max_run P n i k"
    then have "i = 0" using P by (cases i) (auto simp: max_run_def)
    with r P k show False by (auto simp: max_run_def)
  qed
  then show ?thesis by (simp add: runs_def)
qed

lemma runs_tail:
  assumes P: "\<And>i. i < n \<Longrightarrow> P i \<longleftrightarrow> m \<le> i" and m: "0 < m" "m \<le> n"
  shows "runs P n k = (if 0 < k \<and> k = n - m then 1 else 0)"
proof -
  have "max_run P n i k \<longleftrightarrow> i = m \<and> 0 < k \<and> k = n - m" for i
  proof
    assume r: "max_run P n i k"
    then have b: "0 < k" "i + k \<le> n" by (auto simp: max_run_def)
    have "P i" using r by (simp add: max_run_def)
    then have "m \<le> i" using P b by simp
    moreover have "\<not> P (i - 1)" using r \<open>m \<le> i\<close> m by (auto simp: max_run_def)
    then have "\<not> m \<le> i - 1" using P [of "i - 1"] b by simp
    ultimately have "i = m" by simp
    moreover have "i + k = n" using r P [of "i + k"] b \<open>m \<le> i\<close> by (auto simp: max_run_def)
    ultimately show "i = m \<and> 0 < k \<and> k = n - m" using b by simp
  next
    assume "i = m \<and> 0 < k \<and> k = n - m"
    then show "max_run P n i k" using P m by (auto simp: max_run_def)
  qed
  then have "{i. max_run P n i k} = (if 0 < k \<and> k = n - m then {m} else {})" by auto
  then show ?thesis by (auto simp: runs_def)
qed

lemma frsum_neq:
  "k \<noteq> j \<Longrightarrow> read_be32 (add_be32 b (frsum_off j) d) (frsum_off k) = read_be32 b (frsum_off k)"
  by (intro add_be32_read(2)) (auto simp: frsum_off_def)

lemma take_block_map:
  "n \<le> 8 \<Longrightarrow> free_map (take_block n c m buf) = (\<lambda>k. free_map buf k \<and> \<not> (c \<le> k \<and> k < c + m))"
  by (simp add: take_block_def Let_def cell_simps cg_offsets frsum_off_def)

lemma take_block_accounts:
  assumes acc: "cg_accounts n nblk buf" and n: "n \<le> 8" and b: "b < nblk" and m: "0 < m" "m \<le> n"
    and full: "blk_full (free_map buf) n b"
  shows "cg_accounts n nblk (take_block n (b * n) m buf)"
proof (rule cg_accounts_update [OF acc b])
  let ?F = "free_map buf" and ?B = "take_block n (b * n) m buf"
  let ?F' = "free_map ?B"
  note map = take_block_map [OF n, of "b * n" m buf]
  have bits: "i < n \<Longrightarrow> ?F' (b * n + i) \<longleftrightarrow> m \<le> i" for i using full by (auto simp: map blk_full_def)
  have full': "\<not> blk_full ?F' n b" using m bits [of 0] by (auto simp: blk_full_def intro!: exI [of _ 0])
  show "?F' (c * n + i) = ?F (c * n + i)" if "c \<noteq> b" "i < n" for c i
  proof -
    have "\<not> (b * n \<le> c * n + i \<and> c * n + i < b * n + m)"
      using same_block [of c n i "c * n + i" b, OF refl that(2)] that(1) m by linarith
    then show ?thesis by (simp add: map)
  qed
  show "read_be32 ?B CG_CS_NBFREE_OFF = read_be32 buf CG_CS_NBFREE_OFF +
      (if blk_full ?F' n b then 1 else 0) - (if blk_full ?F n b then 1 else 0)"
    using full' full n by (simp add: take_block_def Let_def cell_simps cg_offsets frsum_off_def)
  have "{i. i < n \<and> ?F' (b * n + i)} = {m..<n}" using bits by auto
  then have "blk_frags ?F' n b = n - m" using full' by (simp add: blk_frags_def)
  moreover have "blk_frags ?F n b = 0" using full by (simp add: blk_frags_def)
  ultimately show "read_be32 ?B CG_CS_NFFREE_OFF = read_be32 buf CG_CS_NFFREE_OFF +
      of_nat (blk_frags ?F' n b) - of_nat (blk_frags ?F n b)"
    using n by (simp add: take_block_def Let_def cell_simps cg_offsets frsum_off_def)
  fix k assume k: "1 \<le> k" "k < n"
  have "blk_runs ?F' n b k = (if 0 < k \<and> k = n - m then 1 else 0)"
    unfolding blk_runs_def by (rule runs_tail) (use bits m in auto)
  moreover have "blk_runs ?F n b k = 0"
    unfolding blk_runs_def using full k by (intro runs_full) (auto simp: blk_full_def)
  ultimately show "read_be32 ?B (frsum_off k) = read_be32 buf (frsum_off k) +
      of_nat (blk_runs ?F' n b k) - of_nat (blk_runs ?F n b k)"
    using k n by (cases "k = n - m") (auto simp: take_block_def Let_def frsum_neq,
      simp_all add: cell_simps cg_offsets frsum_off_def)
qed

text \<open>The update \<open>free_fragment_run\<close> makes once the bits are set.\<close>

definition release_counts :: "nat \<Rightarrow> nat \<Rightarrow> nat \<Rightarrow> (nat \<Rightarrow> u32) \<Rightarrow> buf \<Rightarrow> buf" where
  "release_counts fpb block_base frags before buf =
     (let after = count_free_runs_in_block buf CG_FREE_OFF block_base fpb;
          buf = apply_cg_frsum_delta before after fpb buf
      in if block_is_free buf CG_FREE_OFF block_base fpb
         then add_be32 (add_be32 buf CG_CS_NFFREE_OFF (of_nat frags - of_nat fpb)) CG_CS_NBFREE_OFF 1
         else add_be32 buf CG_CS_NFFREE_OFF (of_nat frags))"

lemma block_is_free_map: "block_is_free buf CG_FREE_OFF (b * n) n \<longleftrightarrow> blk_full (free_map buf) n b"
  by (simp add: block_is_free_iff blk_full_def free_map_def)

lemma release_counts_map: "n \<le> 8 \<Longrightarrow> free_map (release_counts n c m before buf) = free_map buf"
  by (simp add: release_counts_def Let_def cell_simps cg_offsets)

lemma release_accounts:
  assumes acc: "cg_accounts n nblk buf" and n: "n \<le> 8" and b: "b < nblk" and m: "0 < m"
    and run: "b * n \<le> p" "p + m \<le> b * n + n" and rel: "release_bits p m buf = Some buf1"
  shows "cg_accounts n nblk (release_counts n (b * n) m
    (count_free_runs_in_block buf CG_FREE_OFF (b * n) n) buf1)" (is "cg_accounts n nblk ?B")
proof (rule cg_accounts_update [OF acc b])
  let ?F = "free_map buf"
  define F' where "F' = (\<lambda>k. ?F k \<or> p \<le> k \<and> k < p + m)"
  from release_bits_iff [OF rel] have taken: "\<forall>i<m. \<not> ?F (p + i)"
    and map1: "free_map buf1 = F'"
    and low: "\<forall>i<CG_FREE_OFF. buf1 i = buf i" by (auto simp: F'_def)
  have rd: "q + 4 \<le> 984 \<Longrightarrow> read_be32 buf1 q = read_be32 buf q" for q
    by (rule read_be32_cong) (use low in \<open>auto simp: CG_FREE_OFF_def\<close>)
  have map: "free_map ?B = F'"
    using release_counts_map [OF n] map1 by simp
  have free: "block_is_free (apply_cg_frsum_delta x y n buf1) CG_FREE_OFF (b * n) n \<longleftrightarrow> blk_full F' n b"
    for x y using n by (simp add: block_is_free_map cell_simps map1)
  have nF: "\<not> ?F q" if "p \<le> q" "q < p + m" for q
    using taken that by (metis le_iff_add nat_add_left_cancel_less)
  have part: "\<not> blk_full ?F n b"
    using taken m run by (auto simp: blk_full_def intro!: exI [of _ "p - b * n"])
  show "free_map ?B (c * n + i) = ?F (c * n + i)" if "c \<noteq> b" "i < n" for c i
  proof -
    have "\<not> (p \<le> c * n + i \<and> c * n + i < p + m)"
      using same_block [of c n i "c * n + i" b, OF refl that(2)] that(1) run by linarith
    then show ?thesis by (auto simp: map F'_def)
  qed
  show "read_be32 ?B CG_CS_NBFREE_OFF = read_be32 buf CG_CS_NBFREE_OFF +
      (if blk_full (free_map ?B) n b then 1 else 0) - (if blk_full ?F n b then 1 else 0)"
    unfolding map using part n free by (simp add: release_counts_def Let_def cell_simps cg_offsets rd)
  have "card {i. i < n \<and> F' (b * n + i)} = card {i. i < n \<and> ?F (b * n + i)} + m"
  proof -
    have "{i. i < n \<and> F' (b * n + i) \<and> \<not> (p \<le> b * n + i \<and> b * n + i < p + m)} =
        {i. i < n \<and> ?F (b * n + i)}"
      using nF by (auto simp: F'_def)
    then show ?thesis using card_take_run [of "b * n" p m n F', OF run] by (simp add: F'_def)
  qed
  moreover have "card {i. i < n \<and> F' (b * n + i)} = n" if "blk_full F' n b"
  proof -
    have "{i. i < n \<and> F' (b * n + i)} = {..<n}" using that by (auto simp: blk_full_def)
    then show ?thesis by simp
  qed
  ultimately have "blk_full F' n b \<Longrightarrow> of_nat n = (of_nat (blk_frags ?F n b) + of_nat m :: u32)"
    "\<not> blk_full F' n b \<Longrightarrow> of_nat (blk_frags F' n b) = (of_nat (blk_frags ?F n b) + of_nat m :: u32)"
    "blk_full F' n b \<Longrightarrow> blk_frags F' n b = 0"
    using part by (simp_all add: blk_frags_def flip: of_nat_add)
  then have "of_nat (blk_frags F' n b) - of_nat (blk_frags ?F n b) =
      (if blk_full F' n b then of_nat m - of_nat n else of_nat m :: u32)"
    by auto
  then show "read_be32 ?B CG_CS_NFFREE_OFF = read_be32 buf CG_CS_NFFREE_OFF +
      of_nat (blk_frags (free_map ?B) n b) - of_nat (blk_frags ?F n b)"
    unfolding map using n free by (simp add: release_counts_def Let_def cell_simps cg_offsets rd add_diff_eq [symmetric])
  fix k assume k: "1 \<le> k" "k < n"
  have cnt: "count_free_runs_in_block buf1 CG_FREE_OFF (b * n) n k = of_nat (blk_runs F' n b k)"
    using k by (simp add: free_runs_of_map map1)
  have rd': "read_be32 buf1 (52 + k * 4) = read_be32 buf (52 + k * 4)" using k n by (intro rd) simp
  show "read_be32 ?B (frsum_off k) = read_be32 buf (frsum_off k) +
      of_nat (blk_runs (free_map ?B) n b k) - of_nat (blk_runs ?F n b k)"
    unfolding map using k n free cnt rd'
    by (simp add: release_counts_def Let_def cell_simps cg_offsets frsum_off_def)
      (simp add: apply_frsum_read [unfolded frsum_off_def] free_runs_of_map)
qed

end
