(* ===== verification/Alloc.thy ===== *)
theory Alloc
  imports CgBitmap
begin

text \<open>
  The allocator of \<open>src/src/core/alloc.c\<close>: inodes and runs of fragments are taken from and
  returned to a cylinder group. Every operation reads the group into a buffer, changes the
  buffer, writes it back and adjusts the summary counters. Loop counters are natural numbers;
  the buffer ends after \<open>cg_size\<close> bytes, so a bit behind its end reads as 0.
\<close>

section \<open>Inodes\<close>

definition inode_used :: "buf \<Rightarrow> nat \<Rightarrow> bool" where
  "inode_used buf idx = free_bit buf CG_IUSED_OFF idx"

text \<open>The search loop: the first unused inode from \<open>start\<close> on, cyclically.\<close>

function find_inode :: "buf \<Rightarrow> u32 \<Rightarrow> u32 \<Rightarrow> nat \<Rightarrow> u32 option" where
  "find_inode buf ipg start i =
     (if i < unat ipg then
        let idx = (start + of_nat i) mod ipg in
        if \<not> inode_used buf (unat idx) then Some idx else find_inode buf ipg start (i + 1)
      else None)"
  by pat_completeness auto
termination by (relation "measure (\<lambda>(buf, ipg, start, i). unat ipg - i)") auto

declare find_inode.simps [simp del]

definition is_dir_mode :: "u16 \<Rightarrow> bool" where
  "is_dir_mode m \<longleftrightarrow> m AND 0xf000 = 0x4000"

text \<open>The changes \<open>allocate_inode_in_group\<close> makes to the group: bit, rotor and counters.\<close>

definition take_inode :: "u16 \<Rightarrow> u32 \<Rightarrow> u32 \<Rightarrow> buf \<Rightarrow> buf" where
  "take_inode md ipref now buf =
     (let buf = set_bit8 CG_IUSED_OFF (unat ipref) buf;
          buf = write_be32 buf CG_IROTOR_OFF ipref;
          buf = add_be32 buf CG_CS_NIFREE_OFF (- 1);
          buf = write_be32 buf CG_TIME_OFF now
      in if is_dir_mode md then add_be32 buf CG_CS_NDIR_OFF 1 else buf)"

definition allocate_inode_in_group :: "nextufs_image \<Rightarrow> u32 \<Rightarrow> u16 \<Rightarrow> u32 fs" where
  "allocate_inode_in_group img cg md =
     andthen (sys_os malloc) (\<lambda>_.
     let size = unat (cg_size (sb img)); cg_off = cg_block_offset img cg; ipg = inodes_per_group (sb img) in
     andthen (read_exact size cg_off) (\<lambda>buf.
     if read_be32 buf CG_MAGIC_OFF \<noteq> CG_MAGIC then fail EINVAL
     else if read_be32 buf CG_CS_NIFREE_OFF = 0 then fail ENOSPC
     else
     let start = read_be32 buf CG_IROTOR_OFF;
         start = (if ipg \<le> start then 0 else start) in
     case find_inode buf ipg start 0 of
       None \<Rightarrow> fail ENOSPC
     | Some ipref \<Rightarrow>
     andthen (sys_os time) (\<lambda>now.
     andthen (write_exact img (take_inode md ipref now buf) size cg_off) (\<lambda>_.
     andthen (update_summary_counts img cg (if is_dir_mode md then 1 else 0) 0 (- 1) 0) (\<lambda>_.
     ret (cg * ipg + ipref))))))"

definition release_inode :: "u16 \<Rightarrow> u32 \<Rightarrow> u32 \<Rightarrow> buf \<Rightarrow> buf" where
  "release_inode md local_ino now buf =
     (let buf = clear_bit CG_IUSED_OFF (unat local_ino) buf;
          buf = add_be32 buf CG_CS_NIFREE_OFF 1;
          buf = write_be32 buf CG_TIME_OFF now
      in if is_dir_mode md then add_be32 buf CG_CS_NDIR_OFF (- 1) else buf)"

definition free_inode_in_group :: "nextufs_image \<Rightarrow> u32 \<Rightarrow> u16 \<Rightarrow> unit fs" where
  "free_inode_in_group img inode_no md =
     (let ipg = inodes_per_group (sb img) in
      if ipg = 0 then fail UNDEF
      else let cg = inode_no div ipg; local_ino = inode_no mod ipg;
               size = unat (cg_size (sb img)); cg_off = cg_block_offset img cg in
      andthen (sys_os malloc) (\<lambda>_.
      andthen (read_exact size cg_off) (\<lambda>buf.
      if read_be32 buf CG_MAGIC_OFF \<noteq> CG_MAGIC then fail EINVAL
      else if \<not> inode_used buf (unat local_ino) then fail EINVAL
      else
      andthen (sys_os time) (\<lambda>now.
      andthen (write_exact img (release_inode md local_ino now buf) size cg_off) (\<lambda>_.
      update_summary_counts img cg (if is_dir_mode md then - 1 else 0) 0 1 0)))))"

section \<open>Fragments\<close>

text \<open>
  The block counts per cylinder and rotational position move by one with each whole block. The
  divisions by \<open>sectors_per_cyl\<close> and \<open>sectors_per_track\<close> are unguarded in the code: \<open>None\<close> stands
  for a division by zero.
\<close>

definition adjust_rotation :: "nextufs_image \<Rightarrow> nat \<Rightarrow> u32 \<Rightarrow> u16 \<Rightarrow> buf \<Rightarrow> buf option" where
  "adjust_rotation img local_frag d32 d16 buf =
     (let sects = of_nat local_frag * sectors_per_frag (sb img);
          spc = sectors_per_cyl (sb img); spt = sectors_per_track (sb img) in
      if spc = 0 \<or> spt = 0 then None
      else let cylno = sects div spc; rotpos = (sects mod spc mod spt) * 8 div spt in
      Some (if cylno < 32 \<and> rotpos < 8 then
          let btotp = CG_BTOT_OFF + unat cylno * 4;
              buf = write_be32 buf btotp (read_be32 buf btotp + d32);
              bposp = CG_BPOS_OFF + (unat cylno * NRPOS + unat rotpos) * 2
          in write_be16 buf bposp (read_be16 buf bposp + d16)
        else buf))"

function find_run :: "buf \<Rightarrow> nat \<Rightarrow> nat \<Rightarrow> nat \<Rightarrow> nat option" where
  "find_run buf frags_needed start stop =
     (if 0 < frags_needed \<and> start + frags_needed \<le> stop then
        if set_run_bits buf CG_FREE_OFF start frags_needed then Some start
        else find_run buf frags_needed (start + 1) stop
      else None)"
  by pat_completeness auto
termination by (relation "measure (\<lambda>(buf, n, start, stop). stop - start)") auto

text \<open>The first loop of \<open>allocate_frags_in_group\<close>: block base and start of a run in a partial block.\<close>

function find_partial :: "buf \<Rightarrow> nat \<Rightarrow> nat \<Rightarrow> nat \<Rightarrow> nat \<Rightarrow> (nat \<times> nat) option" where
  "find_partial buf fpb limit frags_needed local_frag =
     (if 0 < fpb \<and> local_frag < limit then
        let stop = min (local_frag + fpb) limit in
        if stop - local_frag = fpb \<and> block_is_free buf CG_FREE_OFF local_frag fpb
        then find_partial buf fpb limit frags_needed (local_frag + fpb)
        else (case find_run buf frags_needed local_frag stop of
            Some start \<Rightarrow> Some (local_frag, start)
          | None \<Rightarrow> find_partial buf fpb limit frags_needed (local_frag + fpb))
      else None)"
  by pat_completeness auto
termination by (relation "measure (\<lambda>(buf, fpb, limit, n, k). limit - k)") auto

text \<open>The second loop: the first wholly free block.\<close>

function find_full :: "buf \<Rightarrow> nat \<Rightarrow> nat \<Rightarrow> nat \<Rightarrow> nat option" where
  "find_full buf fpb limit local_frag =
     (if 0 < fpb \<and> local_frag + fpb \<le> limit then
        if \<not> block_is_free buf CG_FREE_OFF local_frag fpb
        then find_full buf fpb limit (local_frag + fpb) else Some local_frag
      else None)"
  by pat_completeness auto
termination by (relation "measure (\<lambda>(buf, fpb, limit, k). limit - k)") auto

declare find_run.simps [simp del] find_partial.simps [simp del] find_full.simps [simp del]

text \<open>
  The two ways to satisfy a request, each ending with the write-back of the group. The arrays
  \<open>before[9]\<close> and \<open>after[9]\<close> hold the run counts of a block of at most eight fragments.
\<close>

definition alloc_from_partial ::
    "nextufs_image \<Rightarrow> u32 \<Rightarrow> u32 \<Rightarrow> buf \<Rightarrow> nat \<Rightarrow> nat \<Rightarrow> u32 fs" where
  "alloc_from_partial img cg frags_needed buf local_frag start =
     (let fpb = unat (frags_per_block (sb img)); size = unat (cg_size (sb img)) in
      if 8 < fpb then fail UNDEF
      else let buf = take_run fpb local_frag start (unat frags_needed) buf in
      andthen (sys_os time) (\<lambda>now.
      andthen (write_exact img (write_be32 buf CG_TIME_OFF now) size (cg_block_offset img cg)) (\<lambda>_.
      andthen (update_summary_counts img cg 0 0 0 (- int (unat frags_needed))) (\<lambda>_.
      ret (cg * frags_per_group (sb img) + of_nat start)))))"

definition alloc_from_full :: "nextufs_image \<Rightarrow> u32 \<Rightarrow> u32 \<Rightarrow> buf \<Rightarrow> nat \<Rightarrow> u32 fs" where
  "alloc_from_full img cg frags_needed buf local_frag =
     (let fpb = unat (frags_per_block (sb img)); size = unat (cg_size (sb img));
          free_frags = fpb - unat frags_needed;
          buf = take_block fpb local_frag (unat frags_needed) buf in
      andthen (sys_os time) (\<lambda>now.
      case adjust_rotation img local_frag (- 1) (- 1) (write_be32 buf CG_TIME_OFF now) of
        None \<Rightarrow> fail UNDEF
      | Some buf \<Rightarrow>
      andthen (write_exact img buf size (cg_block_offset img cg)) (\<lambda>_.
      andthen (update_summary_counts img cg 0 (- 1) 0 (int free_frags)) (\<lambda>_.
      ret (cg * frags_per_group (sb img) + of_nat local_frag)))))"

text \<open>
  The guard of \<open>allocate_frags_in_group\<close> on \<open>cg_ndblk\<close>, with the sum \<open>limit + 7\<close> in 32 bits. Where the
  loop counters of the code could wrap (\<open>limit\<close> within a block of \<open>2^32\<close>) the model says \<open>UNDEF\<close>.
\<close>

definition limit_invalid :: "nextufs_image \<Rightarrow> u32 \<Rightarrow> u32 \<Rightarrow> bool" where
  "limit_invalid img cg limit \<longleftrightarrow>
     frags_per_group (sb img) < limit \<or>
     unat (frag_count (sb img)) < unat cg * unat (frags_per_group (sb img)) + unat limit \<or>
     cg_size (sb img) < of_nat CG_FREE_OFF + (limit + 7) div 8"

definition allocate_frags_in_group :: "nextufs_image \<Rightarrow> u32 \<Rightarrow> u32 \<Rightarrow> u32 fs" where
  "allocate_frags_in_group img cg frags_needed =
     (let fpb = frags_per_block (sb img) in
      if frags_needed = 0 \<or> fpb < frags_needed then fail EINVAL
      else
      andthen (sys_os malloc) (\<lambda>_.
      andthen (read_exact (unat (cg_size (sb img))) (cg_block_offset img cg)) (\<lambda>buf.
      if read_be32 buf CG_MAGIC_OFF \<noteq> CG_MAGIC then fail EINVAL
      else let limit = read_be32 buf CG_NDBLK_OFF in
      if limit_invalid img cg limit then fail EINVAL
      else if 2 ^ 32 \<le> unat limit + unat fpb then fail UNDEF
      else
      case (if frags_needed < fpb \<and> frags_needed \<le> read_be32 buf CG_CS_NFFREE_OFF
            then find_partial buf (unat fpb) (unat limit) (unat frags_needed) 0 else None) of
        Some (local_frag, start) \<Rightarrow> alloc_from_partial img cg frags_needed buf local_frag start
      | None \<Rightarrow>
      if read_be32 buf CG_CS_NBFREE_OFF = 0 then fail ENOSPC
      else
      case find_full buf (unat fpb) (unat limit) 0 of
        None \<Rightarrow> fail ENOSPC
      | Some local_frag \<Rightarrow> alloc_from_full img cg frags_needed buf local_frag)))"

text \<open>Groups are tried from the preferred one on, cyclically, as long as they answer \<open>ENOSPC\<close>.\<close>

function frags_anycg_loop :: "nextufs_image \<Rightarrow> u32 \<Rightarrow> u32 \<Rightarrow> nat \<Rightarrow> u32 fs" where
  "frags_anycg_loop img preferred_cg frags_needed i s =
     (if i < unat (cg_count (sb img)) then
        let cg = (preferred_cg + of_nat i) mod cg_count (sb img) in
        case allocate_frags_in_group img cg frags_needed s of
          (Inr frag, t) \<Rightarrow> (Inr frag, t)
        | (Inl e, t) \<Rightarrow> if e \<noteq> ENOSPC then (Inl e, t)
            else frags_anycg_loop img preferred_cg frags_needed (i + 1) t
      else (Inl ENOSPC, s))"
  by pat_completeness auto
termination by (relation "measure (\<lambda>(img, p, n, i, s). unat (cg_count (sb img)) - i)") auto

declare frags_anycg_loop.simps [simp del]

definition allocate_frags_anycg :: "nextufs_image \<Rightarrow> u32 \<Rightarrow> u32 \<Rightarrow> u32 fs" where
  "allocate_frags_anycg img preferred_cg frags_needed = frags_anycg_loop img preferred_cg frags_needed 0"

definition allocate_full_block_anycg :: "nextufs_image \<Rightarrow> u32 \<Rightarrow> u32 fs" where
  "allocate_full_block_anycg img preferred_cg =
     allocate_frags_anycg img preferred_cg (frags_per_block (sb img))"

definition extend_fragment_run :: "nextufs_image \<Rightarrow> u32 \<Rightarrow> u32 \<Rightarrow> u32 \<Rightarrow> unit fs" where
  "extend_fragment_run img frag_base old_frags new_frags =
     (let fpb = frags_per_block (sb img); fpg = frags_per_group (sb img) in
      if new_frags \<le> old_frags \<or> fpb < new_frags then fail EINVAL
      else if fpg = 0 then fail UNDEF
      else let cg = frag_base div fpg; local_frag = frag_base mod fpg in
      if fpb < local_frag mod fpb + new_frags then fail ENOSPC
      else
      andthen (sys_os malloc) (\<lambda>_.
      let size = unat (cg_size (sb img)); cg_off = cg_block_offset img cg in
      andthen (read_exact size cg_off) (\<lambda>buf.
      if read_be32 buf CG_MAGIC_OFF \<noteq> CG_MAGIC then fail EINVAL
      else let added_frags = new_frags - old_frags;
               block_frag_base = local_frag - local_frag mod fpb;
               start = unat local_frag + unat old_frags in
      if \<not> set_run_bits buf CG_FREE_OFF start (unat added_frags) then fail ENOSPC
      else if 8 < fpb then fail UNDEF
      else let buf = take_run (unat fpb) (unat block_frag_base) start (unat added_frags) buf in
      andthen (sys_os time) (\<lambda>now.
      andthen (write_exact img (write_be32 buf CG_TIME_OFF now) size cg_off) (\<lambda>_.
      update_summary_counts img cg 0 0 0 (- int (unat added_frags)))))))"

definition free_fragment_run :: "nextufs_image \<Rightarrow> u32 \<Rightarrow> u32 \<Rightarrow> unit fs" where
  "free_fragment_run img frag_base frags =
     (let fpb = frags_per_block (sb img); fpg = frags_per_group (sb img) in
      if frags = 0 \<or> fpb < frags then fail EINVAL
      else if fpg = 0 then fail UNDEF
      else let cg = frag_base div fpg; local_frag = frag_base mod fpg;
               block_frag_base = unat (local_frag - local_frag mod fpb) in
      andthen (sys_os malloc) (\<lambda>_.
      let size = unat (cg_size (sb img)); cg_off = cg_block_offset img cg in
      andthen (read_exact size cg_off) (\<lambda>buf.
      if read_be32 buf CG_MAGIC_OFF \<noteq> CG_MAGIC then fail EINVAL
      else if 8 < fpb then fail UNDEF
      else let before = count_free_runs_in_block buf CG_FREE_OFF block_frag_base (unat fpb) in
      case release_bits (unat local_frag) (unat frags) buf of
        None \<Rightarrow> fail EINVAL
      | Some buf \<Rightarrow>
      let whole = block_is_free buf CG_FREE_OFF block_frag_base (unat fpb);
          buf = release_counts (unat fpb) block_frag_base (unat frags) before buf in
      case (if whole then adjust_rotation img block_frag_base 1 1 buf else Some buf) of
        None \<Rightarrow> fail UNDEF
      | Some buf \<Rightarrow>
      andthen (sys_os time) (\<lambda>now.
      andthen (write_exact img (write_be32 buf CG_TIME_OFF now) size cg_off) (\<lambda>_.
      update_summary_counts img cg 0 (if whole then 1 else 0) 0
        (if whole then int (unat frags) - int (unat fpb) else int (unat frags)))))))"

definition reallocate_fragment_run :: "nextufs_image \<Rightarrow> u32 \<Rightarrow> u32 \<Rightarrow> u32 \<Rightarrow> u32 \<Rightarrow> u32 fs" where
  "reallocate_fragment_run img old_frag old_frags new_frags preferred_cg =
     (let frag_off = (\<lambda>f. slice_base img + int (unat f * unat (frag_size (sb img))));
          old_bytes = unat old_frags * unat (frag_size (sb img));
          new_bytes = unat new_frags * unat (frag_size (sb img)) in
      andthen (sys_os malloc) (\<lambda>_.
      if new_bytes < old_bytes then fail UNDEF
      else andthen (read_exact old_bytes (frag_off old_frag)) (\<lambda>tmp.
      andthen (allocate_frags_anycg img preferred_cg new_frags) (\<lambda>new_frag.
      andthen (write_exact img tmp new_bytes (frag_off new_frag)) (\<lambda>_.
      andthen (free_fragment_run img old_frag old_frags) (\<lambda>_.
      ret new_frag))))))"

end
