(* ===== verification/Accounts.thy ===== *)
theory Accounts
  imports Alloc
begin

text \<open>
  The accounting invariant of the file system. The maps of every cylinder group, the counters in
  the group, the entry of the group in the summary area and the totals in the superblock agree;
  every allocator operation that succeeds keeps them in agreement, and no operation, even one
  that fails, touches anything but the group, its summary entry and the superblock.
\<close>

section \<open>Where the accounts live\<close>

definition sb_addr :: "nextufs_image \<Rightarrow> nat" where
  "sb_addr img = nat (slice_base img + 0x2000)"

definition cs_addr :: "nextufs_image \<Rightarrow> u32 \<Rightarrow> nat" where
  "cs_addr img cg = nat (slice_base img +
     int (unat (cyl_summary_addr (sb img)) * unat (frag_size (sb img))) + int (unat cg * 16))"

definition cg_addr :: "nextufs_image \<Rightarrow> u32 \<Rightarrow> nat" where
  "cg_addr img cg = nat (cg_block_offset img cg)"

definition cg_bytes :: "nextufs_image \<Rightarrow> nat" where
  "cg_bytes img = unat (cg_size (sb img))"

definition view :: "sys \<Rightarrow> nat \<Rightarrow> nat \<Rightarrow> buf" where
  "view s a n = clip n (\<lambda>i. disk s (a + i))"

abbreviation sb_view :: "nextufs_image \<Rightarrow> sys \<Rightarrow> buf" where
  "sb_view img s \<equiv> view s (sb_addr img) 2048"

abbreviation cs_view :: "nextufs_image \<Rightarrow> u32 \<Rightarrow> sys \<Rightarrow> buf" where
  "cs_view img cg s \<equiv> view s (cs_addr img cg) 16"

abbreviation cg_view :: "nextufs_image \<Rightarrow> u32 \<Rightarrow> sys \<Rightarrow> buf" where
  "cg_view img cg s \<equiv> view s (cg_addr img cg) (cg_bytes img)"

definition apart :: "nat \<Rightarrow> nat \<Rightarrow> nat \<Rightarrow> nat \<Rightarrow> bool" where
  "apart a n b m \<longleftrightarrow> a + n \<le> b \<or> b + m \<le> a"

text \<open>
  The geometry of a sane image: the divisors are positive, a block has at most eight fragments,
  the maps fit into the group, and superblock, summary entries and groups do not overlap.
\<close>

definition geometry_ok :: "nextufs_image \<Rightarrow> bool" where
  "geometry_ok img \<longleftrightarrow> (let g = sb img; n = unat (frags_per_block g) in
     0 \<le> slice_base img \<and> 0 < n \<and> n \<le> 8 \<and> 0 < unat (frags_per_group g) \<and>
     n dvd unat (frags_per_group g) \<and> unat (frags_per_group g) + 16 < 2 ^ 32 \<and>
     984 + (unat (frags_per_group g) + 7) div 8 \<le> cg_bytes img \<and>
     0 < unat (inodes_per_group g) \<and> unat (inodes_per_group g) \<le> 2048 \<and>
     0 < unat (sectors_per_cyl g) \<and> 0 < unat (sectors_per_track g) \<and>
     (\<forall>c < unat (cg_count g). apart (cg_addr img (of_nat c)) (cg_bytes img) (sb_addr img) 2048 \<and>
        apart (cs_addr img (of_nat c)) 16 (sb_addr img) 2048 \<and>
        (\<forall>d < unat (cg_count g). apart (cg_addr img (of_nat c)) (cg_bytes img) (cs_addr img (of_nat d)) 16 \<and>
          (c \<noteq> d \<longrightarrow> apart (cg_addr img (of_nat c)) (cg_bytes img) (cg_addr img (of_nat d)) (cg_bytes img)))))"

section \<open>The invariant\<close>

text \<open>Number of blocks of a group with \<open>limit\<close> fragments; the last one may be incomplete.\<close>

definition nblk :: "nat \<Rightarrow> nat \<Rightarrow> nat" where
  "nblk n limit = (limit + n - 1) div n"

definition inode_accounts :: "nat \<Rightarrow> buf \<Rightarrow> bool" where
  "inode_accounts ipg buf \<longleftrightarrow>
     read_be32 buf CG_CS_NIFREE_OFF = (\<Sum>i<ipg. if inode_used buf i then 0 else 1)"

definition cg_wf :: "nextufs_image \<Rightarrow> buf \<Rightarrow> bool" where
  "cg_wf img buf \<longleftrightarrow> (let n = unat (frags_per_block (sb img));
       limit = unat (read_be32 buf CG_NDBLK_OFF) in
     read_be32 buf CG_MAGIC_OFF = CG_MAGIC \<and> limit \<le> unat (frags_per_group (sb img)) \<and>
     cg_accounts n (nblk n limit) buf \<and>
     (\<forall>k. limit \<le> k \<and> k < nblk n limit * n \<longrightarrow> \<not> free_map buf k) \<and>
     inode_accounts (unat (inodes_per_group (sb img))) buf)"

text \<open>The four counters: directories, free blocks, free inodes, free fragments.\<close>

definition in_step :: "nextufs_image \<Rightarrow> u32 \<Rightarrow> sys \<Rightarrow> bool" where
  "in_step img cg s \<longleftrightarrow> (\<forall>j<4. read_be32 (cs_view img cg s) (j * 4) =
     read_be32 (cg_view img cg s) (CG_CS_NDIR_OFF + j * 4))"

definition totals :: "nextufs_image \<Rightarrow> sys \<Rightarrow> bool" where
  "totals img s \<longleftrightarrow> (\<forall>j<4. read_be32 (sb_view img s) (SB_NDIR_OFF + j * 4) =
     (\<Sum>c<unat (cg_count (sb img)). read_be32 (cs_view img (of_nat c) s) (j * 4)))"

definition fs_ok :: "nextufs_image \<Rightarrow> sys \<Rightarrow> bool" where
  "fs_ok img s \<longleftrightarrow> sys_ok s \<and> totals img s \<and>
     (\<forall>c < unat (cg_count (sb img)). cg_wf img (cg_view img (of_nat c) s) \<and> in_step img (of_nat c) s)"

text \<open>What an operation on group \<open>cg\<close> may change.\<close>

definition meta_only :: "nextufs_image \<Rightarrow> u32 \<Rightarrow> sys \<Rightarrow> sys \<Rightarrow> bool" where
  "meta_only img cg s t \<longleftrightarrow> (\<forall>x. \<not> (cg_addr img cg \<le> x \<and> x < cg_addr img cg + cg_bytes img) \<and>
     \<not> (sb_addr img \<le> x \<and> x < sb_addr img + 2048) \<and>
     \<not> (cs_addr img cg \<le> x \<and> x < cs_addr img cg + 16) \<longrightarrow> disk t x = disk s x)"

lemma view_cong: "(\<And>i. i < n \<Longrightarrow> disk t (a + i) = disk s (a + i)) \<Longrightarrow> view t a n = view s a n"
  by (simp add: view_def clip_eq_iff)

lemma view_clip [simp]: "clip n (view s a n) = view s a n"
  by (simp add: view_def)

lemma view_blit_same: "disk t = blit (disk s) a n d \<Longrightarrow> view t a n = clip n d"
  by (simp add: view_def clip_eq_iff)

lemma view_blit_other:
  "disk t = blit (disk s) a k d \<Longrightarrow> k \<le> n \<Longrightarrow> apart a n b m \<Longrightarrow> view t b m = view s b m"
  by (rule view_cong) (auto simp: apart_def)

lemma apart_sym: "apart a n b m \<longleftrightarrow> apart b m a n"
  by (auto simp: apart_def)

section \<open>Updating the summary counters\<close>

definition bump :: "nat \<Rightarrow> (nat \<Rightarrow> u32) \<Rightarrow> buf \<Rightarrow> buf" where
  "bump p d b = add_be32 (add_be32 (add_be32 (add_be32 b p (d 0)) (p + 4) (d 1)) (p + 8) (d 2)) (p + 12) (d 3)"

lemma less_4: "(j :: nat) < 4 \<longleftrightarrow> j = 0 \<or> j = 1 \<or> j = 2 \<or> j = 3"
  by auto

lemma bump_read: "j < 4 \<Longrightarrow> read_be32 (bump p d b) (p + j * 4) = read_be32 b (p + j * 4) + d j"
  unfolding less_4 by (elim disjE) (simp_all add: bump_def cell_simps)

lemma update_summary_counts_bump:
  assumes "d 0 = word_of_int d0" "d 1 = word_of_int d1" "d 2 = word_of_int d2" "d 3 = word_of_int d3"
  shows "update_summary_counts img cg d0 d1 d2 d3 =
     andthen (read_exact 2048 (slice_base img + 0x2000)) (\<lambda>sbuf.
     andthen (sys_os time) (\<lambda>now.
     andthen (write_exact img (write_be32 (bump SB_NDIR_OFF d sbuf) SB_TIME_OFF now) 2048
       (slice_base img + 0x2000)) (\<lambda>_.
     let cs_off = slice_base img + int (unat (cyl_summary_addr (sb img)) * unat (frag_size (sb img))) +
       int (unat cg * 16) in
     andthen (read_exact 16 cs_off) (\<lambda>csum_buf.
     write_exact img (bump 0 d csum_buf) 16 cs_off))))"
proof -
  have off: "SB_NBFREE_OFF = SB_NDIR_OFF + 4" "SB_NIFREE_OFF = SB_NDIR_OFF + 8"
    "SB_NFFREE_OFF = SB_NDIR_OFF + 12"
    by (simp_all add: SB_NDIR_OFF_def SB_NBFREE_OFF_def SB_NIFREE_OFF_def SB_NFFREE_OFF_def)
  show ?thesis by (simp only: update_summary_counts_def Let_def bump_def assms off add_0)
qed

lemma wp_update_summary:
  assumes ok: "sys_ok s" and sep: "apart (cs_addr img cg) 16 (sb_addr img) 2048"
    and E: "\<And>e t. sys_ok t \<Longrightarrow> meta_only img cg s t \<Longrightarrow> E e t"
    and Q: "\<And>t. sys_ok t \<Longrightarrow> meta_only img cg s t \<Longrightarrow>
      (\<And>a n. apart (cs_addr img cg) 16 a n \<Longrightarrow> apart (sb_addr img) 2048 a n \<Longrightarrow> view t a n = view s a n) \<Longrightarrow>
      (\<And>j. j < 4 \<Longrightarrow> read_be32 (sb_view img t) (SB_NDIR_OFF + j * 4) =
        read_be32 (sb_view img s) (SB_NDIR_OFF + j * 4) + word_of_int (d j)) \<Longrightarrow>
      (\<And>j. j < 4 \<Longrightarrow> read_be32 (cs_view img cg t) (j * 4) =
        read_be32 (cs_view img cg s) (j * 4) + word_of_int (d j)) \<Longrightarrow> Q () t"
  shows "wp (update_summary_counts img cg (d 0) (d 1) (d 2) (d 3)) E Q s"
proof -
  let ?d = "\<lambda>j. word_of_int (d j) :: u32"
  let ?so = "slice_base img + 0x2000"
  let ?co = "slice_base img + int (unat (cyl_summary_addr (sb img)) * unat (frag_size (sb img))) +
    int (unat cg * 16)"
  have addr: "nat ?so = sb_addr img" "nat ?co = cs_addr img cg" by (simp_all add: sb_addr_def cs_addr_def)
  have last: "wp (write_exact img (bump 0 ?d (cs_view img cg u)) 16 ?co) E Q v"
    if v: "sys_ok v" "disk v = disk u" and u: "disk u = blit (disk s) (sb_addr img) 2048
      (write_be32 (bump SB_NDIR_OFF ?d (sb_view img s)) SB_TIME_OFF now)" for u v now
  proof (rule img.wp_wr [OF v(1)], unfold addr)
    fix e t k
    assume "sys_ok t" "k \<le> 16" "disk t = blit (disk v) (cs_addr img cg) k (bump 0 ?d (cs_view img cg u))"
    then show "E e t" by (intro E) (auto simp: meta_only_def u v(2) blit_def)
  next
    fix t assume t: "sys_ok t" "disk t = blit (disk v) (cs_addr img cg) 16 (bump 0 ?d (cs_view img cg u))"
    have other: "view t a n = view s a n" if "apart (cs_addr img cg) 16 a n" "apart (sb_addr img) 2048 a n" for a n
      by (rule view_cong) (use that in \<open>auto simp: t(2) v(2) u apart_def blit_def\<close>)
    have csu: "cs_view img cg u = cs_view img cg s"
      by (rule view_blit_other [OF u order_refl]) (use sep in \<open>simp add: apart_sym\<close>)
    have sbt: "sb_view img t = sb_view img u"
      by (rule view_blit_other [OF t(2) [unfolded v(2)] order_refl sep])
    show "Q () t"
    proof (rule Q [OF t(1)])
      show "meta_only img cg s t" by (auto simp: meta_only_def t(2) u v(2) blit_def)
      fix j :: nat assume j: "j < 4"
      have "SB_NDIR_OFF + j * 4 + 4 \<le> 2048" "SB_TIME_OFF + 4 \<le> SB_NDIR_OFF + j * 4"
        using j by (simp_all add: SB_NDIR_OFF_def SB_TIME_OFF_def)
      then show "read_be32 (sb_view img t) (SB_NDIR_OFF + j * 4) =
          read_be32 (sb_view img s) (SB_NDIR_OFF + j * 4) + word_of_int (d j)"
        unfolding sbt view_blit_same [OF u] using bump_read [OF j, of SB_NDIR_OFF ?d]
        by (simp add: cell_simps)
      show "read_be32 (cs_view img cg t) (j * 4) = read_be32 (cs_view img cg s) (j * 4) + word_of_int (d j)"
        unfolding view_blit_same [OF t(2)] csu using bump_read [OF j, of 0 ?d] j
        by (simp add: cell_simps)
    qed (rule other)
  qed
  show ?thesis
    unfolding update_summary_counts_bump [of ?d, OF refl refl refl refl] wp_simps Let_def
  proof (rule img.wp_rd [OF ok], goal_cases)
    case (1 e t)
    then show ?case by (intro E) (simp_all add: meta_only_def)
  next
    case (2 t)
    show ?case
      unfolding addr view_def [symmetric]
    proof (rule wp_sys_time, rule img.wp_wr, unfold addr, goal_cases)
      case (1 now u)
      with 2 show ?case by (simp add: same_disk_def)
    next
      case (2 now u e v k)
      with \<open>disk t = disk s\<close> show ?case
        by (intro E) (auto simp: same_disk_def meta_only_def blit_def)
    next
      case (3 now u v)
      with \<open>disk t = disk s\<close> have v: "sys_ok v" "disk v = blit (disk s) (sb_addr img) 2048
        (write_be32 (bump SB_NDIR_OFF ?d (sb_view img s)) SB_TIME_OFF now)"
        by (simp_all add: same_disk_def)
      show ?case
      proof (rule img.wp_rd [OF v(1)], goal_cases)
        case (1 e w)
        then show ?case by (intro E) (auto simp: meta_only_def v(2) blit_def)
      next
        case (2 w)
        show ?case unfolding addr view_def [symmetric] by (rule last [OF 2 v(2)])
      qed
    qed
  qed
qed


section \<open>Committing a changed group\<close>

lemma geometryD:
  assumes "geometry_ok img" "unat cg < unat (cg_count (sb img))"
  shows "apart (cg_addr img cg) (cg_bytes img) (sb_addr img) 2048"
    "apart (cs_addr img cg) 16 (sb_addr img) 2048"
    "unat c < unat (cg_count (sb img)) \<Longrightarrow> apart (cg_addr img cg) (cg_bytes img) (cs_addr img c) 16"
    "unat c < unat (cg_count (sb img)) \<Longrightarrow> c \<noteq> cg \<Longrightarrow>
      apart (cg_addr img cg) (cg_bytes img) (cg_addr img c) (cg_bytes img)"
proof -
  have w: "of_nat (unat cg) = cg" "of_nat (unat c) = c" by simp_all
  note g = assms(1) [unfolded geometry_ok_def Let_def]
  from g assms(2) have all: "apart (cg_addr img (of_nat (unat cg))) (cg_bytes img) (sb_addr img) 2048 \<and>
        apart (cs_addr img (of_nat (unat cg))) 16 (sb_addr img) 2048 \<and>
        (\<forall>d < unat (cg_count (sb img)).
          apart (cg_addr img (of_nat (unat cg))) (cg_bytes img) (cs_addr img (of_nat d)) 16 \<and>
          (unat cg \<noteq> d \<longrightarrow> apart (cg_addr img (of_nat (unat cg))) (cg_bytes img) (cg_addr img (of_nat d)) (cg_bytes img)))"
    by blast
  then show "apart (cg_addr img cg) (cg_bytes img) (sb_addr img) 2048"
    "apart (cs_addr img cg) 16 (sb_addr img) 2048" by simp_all
  assume c: "unat c < unat (cg_count (sb img))"
  with all have "apart (cg_addr img cg) (cg_bytes img) (cs_addr img (of_nat (unat c))) 16 \<and>
    (unat cg \<noteq> unat c \<longrightarrow> apart (cg_addr img cg) (cg_bytes img) (cg_addr img (of_nat (unat c))) (cg_bytes img))"
    unfolding w(1) by blast
  then show "apart (cg_addr img cg) (cg_bytes img) (cs_addr img c) 16"
    and "c \<noteq> cg \<Longrightarrow> apart (cg_addr img cg) (cg_bytes img) (cg_addr img c) (cg_bytes img)"
    unfolding w(2) by (simp_all add: word_unat_eq_iff [of c cg])
qed

lemma cs_addr_apart:
  assumes "geometry_ok img" "c \<noteq> cg"
  shows "apart (cs_addr img cg) 16 (cs_addr img c) 16"
proof -
  have "unat c \<noteq> unat cg" using assms(2) by (simp add: word_unat_eq_iff)
  moreover have "0 \<le> slice_base img" using assms(1) by (simp add: geometry_ok_def Let_def)
  then have "cs_addr img x = nat (slice_base img) +
      unat (cyl_summary_addr (sb img)) * unat (frag_size (sb img)) + unat x * 16" for x
    unfolding cs_addr_def by (simp only: nat_add_distrib nat_int zero_le of_nat_0_le_iff add_nonneg_nonneg)
  ultimately show ?thesis unfolding apart_def by (simp only:) arith
qed

lemma wp_commit_group:
  fixes d :: "nat \<Rightarrow> int"
  assumes geo: "geometry_ok img" and fs: "fs_ok img s0" and cg: "unat cg < unat (cg_count (sb img))"
    and s: "sys_ok s" "disk s = disk s0"
    and wf: "cg_wf img (clip (cg_bytes img) b)"
    and step: "\<And>j. j < 4 \<Longrightarrow> read_be32 (clip (cg_bytes img) b) (CG_CS_NDIR_OFF + j * 4) =
      read_be32 (cg_view img cg s0) (CG_CS_NDIR_OFF + j * 4) + word_of_int (d j)"
    and E: "\<And>e t. sys_ok t \<Longrightarrow> meta_only img cg s0 t \<Longrightarrow> E e t"
    and Q: "\<And>t. fs_ok img t \<Longrightarrow> meta_only img cg s0 t \<Longrightarrow> cg_view img cg t = clip (cg_bytes img) b \<Longrightarrow>
      (\<And>c. unat c < unat (cg_count (sb img)) \<Longrightarrow> c \<noteq> cg \<Longrightarrow> cg_view img c t = cg_view img c s0) \<Longrightarrow> Q () t"
  shows "wp (write_exact img b (unat (cg_size (sb img))) (cg_block_offset img cg)) E
    (\<lambda>_. wp (update_summary_counts img cg (d 0) (d 1) (d 2) (d 3)) E Q) s"
proof (rule img.wp_wr [OF s(1)], unfold cg_addr_def [symmetric] cg_bytes_def [symmetric] s(2), goal_cases)
  case (1 e t k)
  then show ?case by (intro E) (auto simp: meta_only_def blit_def)
next
  case (2 u)
  note g = geometryD [OF geo cg]
  let ?n = "unat (cg_count (sb img))"
  have u_other: "view u a m = view s0 a m" if "apart (cg_addr img cg) (cg_bytes img) a m" for a m
    by (rule view_blit_other [OF 2(2) order_refl that])
  show ?case
  proof (rule wp_update_summary [OF 2(1) g(2)], goal_cases)
    case (1 e t)
    with 2 show ?case by (intro E) (auto simp: meta_only_def blit_def)
  next
    case (2 t)
    note t = 2
    have meta: "meta_only img cg s0 t"
      using t(2) \<open>disk u = _\<close> by (auto simp: meta_only_def blit_def)
    have cgv: "cg_view img cg t = clip (cg_bytes img) b"
      using t(3) [of "cg_addr img cg" "cg_bytes img"] g(1) g(3) [OF cg] view_blit_same [OF \<open>disk u = _\<close>]
      by (simp add: apart_sym)
    have ucs: "view u (cs_addr img c) 16 = view s0 (cs_addr img c) 16" if "unat c < ?n" for c
      by (rule u_other) (rule g(3) [OF that])
    have usb: "sb_view img u = sb_view img s0" by (rule u_other) (rule g(1))
    have other: "cg_view img c t = cg_view img c s0 \<and> cs_view img c t = cs_view img c s0"
      if c: "unat c < ?n" "c \<noteq> cg" for c
    proof -
      note gc = geometryD [OF geo c(1)]
      have "cg_view img c t = cg_view img c u"
        by (rule t(3)) (use gc(1) gc(3) [OF cg] in \<open>simp_all add: apart_sym\<close>)
      moreover have "cg_view img c u = cg_view img c s0" by (rule u_other) (rule g(4) [OF c])
      moreover have "cs_view img c t = cs_view img c u"
        by (rule t(3)) (use gc(2) cs_addr_apart [OF geo c(2)] in \<open>simp_all add: apart_sym\<close>)
      ultimately show ?thesis using ucs [OF c(1)] by simp
    qed
    have cs: "read_be32 (cs_view img cg t) (j * 4) = read_be32 (cs_view img cg s0) (j * 4) + word_of_int (d j)"
      if "j < 4" for j
      using t(5) [OF that] ucs [OF cg] by simp
    have sbt: "read_be32 (sb_view img t) (SB_NDIR_OFF + j * 4) =
        read_be32 (sb_view img s0) (SB_NDIR_OFF + j * 4) + word_of_int (d j)" if "j < 4" for j
      using t(4) [OF that] usb by simp
    have idx: "of_nat c \<noteq> cg" "unat (of_nat c :: u32) = c" if "c < ?n" "c \<noteq> unat cg" for c
      using that unat_le_max32 [of "cg_count (sb img)"]
      by (auto simp: unat_of_nat32)
    have idx': "unat (of_nat c :: u32) = c" if "c < ?n" for c
      using that unat_le_max32 [of "cg_count (sb img)"] by (simp add: unat_of_nat32)
    have "totals img t"
      unfolding totals_def
    proof (intro allI impI)
      fix j :: nat assume j: "j < 4"
      have "(\<Sum>c<?n. read_be32 (cs_view img (of_nat c) t) (j * 4)) =
          (\<Sum>c<?n. read_be32 (cs_view img (of_nat c) s0) (j * 4)) +
          read_be32 (cs_view img (of_nat (unat cg)) t) (j * 4) -
          read_be32 (cs_view img (of_nat (unat cg)) s0) (j * 4)"
        by (rule sum_update_word [OF cg]) (use other idx idx' in \<open>simp\<close>)
      also have "\<dots> = read_be32 (sb_view img t) (SB_NDIR_OFF + j * 4)"
        using fs j cs [OF j] sbt [OF j] by (simp add: fs_ok_def totals_def)
      finally show "read_be32 (sb_view img t) (SB_NDIR_OFF + j * 4) =
        (\<Sum>c<?n. read_be32 (cs_view img (of_nat c) t) (j * 4))" by simp
    qed
    moreover have "cg_wf img (cg_view img (of_nat c) t) \<and> in_step img (of_nat c) t" if c: "c < ?n" for c
    proof (cases "c = unat cg")
      case True
      have "in_step img (of_nat (unat cg)) s0" using fs cg unfolding fs_ok_def by blast
      then have "in_step img cg s0" by simp
      then have "in_step img cg t" using cs step by (simp add: in_step_def cgv)
      with wf cgv True show ?thesis by simp
    next
      case False
      with fs c other [of "of_nat c"] idx [OF c False] show ?thesis by (simp add: fs_ok_def in_step_def)
    qed
    ultimately have "fs_ok img t" using t(1) by (simp add: fs_ok_def)
    then show ?case by (rule Q [OF _ meta cgv]) (use other in blast)
  qed
qed

end
