(* ===== verification/AllocOk.thy ===== *)
theory AllocOk
  imports Accounts
begin

text \<open>
  The allocator keeps the accounts: for each operation, a weakest-precondition lemma that says
  what it does to the map of the group and that the file-system-wide invariant \<open>fs_ok\<close> survives.
\<close>

section \<open>Well-formed groups\<close>

lemma nblk_mult_le:
  assumes "n dvd m" "limit \<le> m" "0 < n"
  shows "nblk n limit * n \<le> m"
proof -
  obtain q where q: "m = n * q" using assms(1) by (rule dvdE)
  define r where "r = n - 1"
  have r: "r < n" "limit + n - 1 = limit + r" using assms(3) by (simp_all add: r_def)
  have "nblk n limit \<le> (r + n * q) div n"
    unfolding nblk_def r(2) using assms(2) q by (intro div_le_mono) simp
  also have "\<dots> = q" using r(1) by simp
  finally show ?thesis using q by (simp add: mult.commute)
qed

lemma geometry_simps:
  assumes "geometry_ok img"
  shows "0 < unat (frags_per_block (sb img))" "unat (frags_per_block (sb img)) \<le> 8"
    "0 < unat (frags_per_group (sb img))" "unat (frags_per_block (sb img)) dvd unat (frags_per_group (sb img))"
    "unat (frags_per_group (sb img)) + 16 < 2 ^ 32"
    "984 + (unat (frags_per_group (sb img)) + 7) div 8 \<le> cg_bytes img"
    "0 < unat (inodes_per_group (sb img))" "unat (inodes_per_group (sb img)) \<le> 2048"
    "sectors_per_cyl (sb img) \<noteq> 0" "sectors_per_track (sb img) \<noteq> 0" "0 \<le> slice_base img"
  using assms by (auto simp: geometry_ok_def Let_def unat_gt_0)

lemma cg_accounts_cong:
  assumes "read_be32 b CG_CS_NBFREE_OFF = read_be32 c CG_CS_NBFREE_OFF"
    "read_be32 b CG_CS_NFFREE_OFF = read_be32 c CG_CS_NFFREE_OFF"
    "\<And>k. 1 \<le> k \<Longrightarrow> k < n \<Longrightarrow> read_be32 b (frsum_off k) = read_be32 c (frsum_off k)"
    "\<And>k. k < m * n \<Longrightarrow> free_map b k = free_map c k"
  shows "cg_accounts n m b = cg_accounts n m c"
proof -
  have bits: "free_map b (j * n + i) = free_map c (j * n + i)" if "j < m" "i < n" for i j
  proof (rule assms(4))
    have "Suc j * n \<le> m * n" using that(1) by (intro mult_le_mono1) simp
    with that(2) show "j * n + i < m * n" by simp
  qed
  have "blk_full (free_map b) n j = blk_full (free_map c) n j"
    "blk_frags (free_map b) n j = blk_frags (free_map c) n j"
    "blk_runs (free_map b) n j k = blk_runs (free_map c) n j k" if "j < m" for j k
    using blk_cong [of n "free_map b" j "free_map c"] bits [OF that] by blast+
  then show ?thesis using assms(1-3) by (simp add: cg_accounts_def)
qed

lemma inode_accounts_cong:
  assumes "read_be32 b CG_CS_NIFREE_OFF = read_be32 c CG_CS_NIFREE_OFF"
    "\<And>i. i < ipg \<Longrightarrow> inode_used b i = inode_used c i"
  shows "inode_accounts ipg b = inode_accounts ipg c"
  using assms by (simp add: inode_accounts_def)

lemma frsum_range: "1 \<le> k \<Longrightarrow> k < n \<Longrightarrow> n \<le> 8 \<Longrightarrow> 56 \<le> frsum_off k \<and> frsum_off k + 4 \<le> 84"
  by (simp add: frsum_off_def)

text \<open>The bytes that matter: not the time stamp, the rotors and the rotational counts.\<close>

definition counted :: "nat \<Rightarrow> bool" where
  "counted i \<longleftrightarrow> \<not> (8 \<le> i \<and> i < 12) \<and> \<not> (40 \<le> i \<and> i < 52) \<and> \<not> (84 \<le> i \<and> i < 724)"

lemma cg_wf_counted:
  assumes geo: "geometry_ok img" and same: "\<And>i. counted i \<Longrightarrow> i < cg_bytes img \<Longrightarrow> b i = c i"
  shows "cg_wf img b = cg_wf img c"
proof -
  note g = geometry_simps [OF geo]
  let ?n = "unat (frags_per_block (sb img))"
  have size: "984 < cg_bytes img" using g(3,6) by linarith
  have rd: "read_be32 b p = read_be32 c p" if "12 \<le> p \<and> p + 4 \<le> 40 \<or> 52 \<le> p \<and> p + 4 \<le> 84 \<or> p = 980" for p
    by (rule read_be32_cong, rule same) (use that size in \<open>auto simp: counted_def\<close>)
  have lim: "read_be32 b CG_NDBLK_OFF = read_be32 c CG_NDBLK_OFF" by (rule rd) (simp add: cg_offsets)
  have bits: "free_map b k = free_map c k" if "k < unat (frags_per_group (sb img))" for k
  proof -
    have "k div 8 < (unat (frags_per_group (sb img)) + 7) div 8" using that by linarith
    then have "b (984 + k div 8) = c (984 + k div 8)"
      using g(6) by (intro same) (auto simp: counted_def)
    then show ?thesis by (simp add: free_map_def free_bit_def CG_FREE_OFF_def)
  qed
  have used: "inode_used b i = inode_used c i" if "i < unat (inodes_per_group (sb img))" for i
  proof -
    have "b (724 + i div 8) = c (724 + i div 8)"
      using that g(8) size by (intro same) (auto simp: counted_def)
    then show ?thesis by (simp add: inode_used_def free_bit_def CG_IUSED_OFF_def)
  qed
  show ?thesis
  proof (cases "unat (read_be32 c CG_NDBLK_OFF) \<le> unat (frags_per_group (sb img))")
    case True
    note le = nblk_mult_le [OF g(4) True g(1)]
    have "cg_accounts ?n (nblk ?n (unat (read_be32 c CG_NDBLK_OFF))) b =
        cg_accounts ?n (nblk ?n (unat (read_be32 c CG_NDBLK_OFF))) c"
    proof (rule cg_accounts_cong)
      fix k assume "1 \<le> k" "k < ?n"
      with frsum_range [OF this g(2)] show "read_be32 b (frsum_off k) = read_be32 c (frsum_off k)"
        by (intro rd) simp
    qed (use le in \<open>auto intro!: rd bits simp: cg_offsets\<close>)
    moreover have "inode_accounts (unat (inodes_per_group (sb img))) b =
        inode_accounts (unat (inodes_per_group (sb img))) c"
      by (rule inode_accounts_cong) (auto intro!: rd used simp: cg_offsets)
    moreover have "read_be32 b CG_MAGIC_OFF = read_be32 c CG_MAGIC_OFF" by (rule rd) (simp add: cg_offsets)
    moreover have "(\<forall>k. unat (read_be32 c CG_NDBLK_OFF) \<le> k \<and>
          k < nblk ?n (unat (read_be32 c CG_NDBLK_OFF)) * ?n \<longrightarrow> \<not> free_map b k) =
        (\<forall>k. unat (read_be32 c CG_NDBLK_OFF) \<le> k \<and>
          k < nblk ?n (unat (read_be32 c CG_NDBLK_OFF)) * ?n \<longrightarrow> \<not> free_map c k)"
      using bits le by (metis order_less_le_trans)
    ultimately show ?thesis by (simp add: cg_wf_def lim Let_def)
  qed (simp add: cg_wf_def lim Let_def)
qed

lemma cg_wf_clip: "geometry_ok img \<Longrightarrow> cg_wf img (clip (cg_bytes img) b) = cg_wf img b"
  by (rule cg_wf_counted) simp_all

lemma cg_wf_time: "geometry_ok img \<Longrightarrow> cg_wf img (write_be32 b CG_TIME_OFF now) = cg_wf img b"
  by (rule cg_wf_counted) (auto simp: counted_def cg_offsets cell_simps)

lemma adjust_rotation_counted:
  assumes "adjust_rotation img k d32 d16 b = Some c" "counted i"
  shows "c i = b i"
proof -
  have "c = b \<or> (\<exists>cyl rot. cyl < 32 \<and> rot < 8 \<and> c = write_be16
     (write_be32 b (84 + cyl * 4) (read_be32 b (84 + cyl * 4) + d32)) (212 + (cyl * 8 + rot) * 2)
     (read_be16 (write_be32 b (84 + cyl * 4) (read_be32 b (84 + cyl * 4) + d32)) (212 + (cyl * 8 + rot) * 2) + d16))"
    using assms(1) by (auto simp: adjust_rotation_def Let_def cg_offsets word_less_nat_alt split: if_splits)
  then show ?thesis
    using assms(2) by (auto simp: counted_def cell_simps)
qed

lemma cg_counters_clip:
  "geometry_ok img \<Longrightarrow> j < 4 \<Longrightarrow> read_be32 (clip (cg_bytes img) b) (CG_CS_NDIR_OFF + j * 4) =
     read_be32 b (CG_CS_NDIR_OFF + j * 4)"
  using geometry_simps(6) [of img] by (intro read_be32_clip) (simp add: CG_CS_NDIR_OFF_def)


section \<open>Inodes\<close>

lemma find_inode_Some:
  "find_inode buf ipg start i = Some idx \<Longrightarrow> idx < ipg \<and> \<not> inode_used buf (unat idx)"
proof (induction buf ipg start i rule: find_inode.induct)
  case (1 buf ipg start i)
  have "ipg \<noteq> 0" if "i < unat ipg" using that by auto
  with 1 show ?case
    by (subst (asm) (2) find_inode.simps) (auto simp: Let_def word_mod_less_divisor word_gt_0 split: if_splits)
qed

lemma find_inode_None:
  "find_inode buf ipg start i = None \<Longrightarrow> i \<le> k \<Longrightarrow> k < unat ipg \<Longrightarrow>
     inode_used buf (unat ((start + of_nat k) mod ipg))"
proof (induction buf ipg start i rule: find_inode.induct)
  case (1 buf ipg start i)
  have used: "inode_used buf (unat ((start + of_nat i) mod ipg))"
    and rest: "find_inode buf ipg start (i + 1) = None"
    using "1.prems" find_inode.simps [of buf ipg start i] by (simp_all add: Let_def split: if_splits)
  show ?case
  proof (cases "i = k")
    case False
    with "1.prems" have "i < unat ipg" "i + 1 \<le> k" by simp_all
    with "1.IH" used rest "1.prems"(3) show ?thesis by simp
  qed (use used in simp)
qed

text \<open>When the search fails, starting inside the group, every inode of the group is in use.\<close>

lemma find_inode_exhausted:
  assumes none: "find_inode buf ipg start 0 = None" and start: "start < ipg" and small: "unat ipg \<le> 2048"
    and k: "k < unat ipg"
  shows "inode_used buf k"
proof -
  let ?s = "unat start" and ?n = "unat ipg"
  have s: "?s < ?n" using start by (simp add: word_less_nat_alt)
  have used: "inode_used buf ((?s + j) mod ?n)" if "j < ?n" for j
  proof -
    have j: "unat (of_nat j :: u32) = j" using that small by (intro unat_of_nat32) simp
    then have "unat (start + of_nat j) = ?s + j"
      using that s small by (intro unat_add_lem [THEN iffD1, THEN trans]) simp_all
    then have "unat ((start + of_nat j) mod ipg) = (?s + j) mod ?n" by (simp add: unat_mod)
    with find_inode_None [OF none _ that] show ?thesis by simp
  qed
  show ?thesis
  proof (cases "?s \<le> k")
    case True
    with used [of "k - ?s"] k show ?thesis by simp
  next
    case False
    then have "(?s + (k + ?n - ?s)) mod ?n = k" using s k by simp
    moreover have "k + ?n - ?s < ?n" using False s by simp
    ultimately show ?thesis using used by metis
  qed
qed

lemma inode_used_below [cell_simps]:
  "p + 4 \<le> 724 \<Longrightarrow> inode_used (write_be32 b p v) = inode_used b"
  "p + 4 \<le> 724 \<Longrightarrow> inode_used (add_be32 b p v) = inode_used b"
  by (auto simp: inode_used_def free_bit_def CG_IUSED_OFF_def add_be32_def fun_eq_iff cell_simps)

lemma inode_bit_used [simp]:
  "inode_used (set_bit8 CG_IUSED_OFF k b) i \<longleftrightarrow> inode_used b i \<or> i = k"
  "inode_used (clear_bit CG_IUSED_OFF k b) i \<longleftrightarrow> inode_used b i \<and> i \<noteq> k"
  by (simp_all add: inode_used_def)

lemma inode_bit_other:
  "i < 724 \<or> 980 \<le> i \<Longrightarrow> k < 2048 \<Longrightarrow> set_bit8 CG_IUSED_OFF k b i = b i"
  "i < 724 \<or> 980 \<le> i \<Longrightarrow> k < 2048 \<Longrightarrow> clear_bit CG_IUSED_OFF k b i = b i"
  by (auto simp: set_bit8_def clear_bit_def CG_IUSED_OFF_def)

lemma inode_bit_read [cell_simps]:
  "p + 4 \<le> 724 \<or> 980 \<le> p \<Longrightarrow> k < 2048 \<Longrightarrow> read_be32 (set_bit8 CG_IUSED_OFF k b) p = read_be32 b p"
  "p + 4 \<le> 724 \<or> 980 \<le> p \<Longrightarrow> k < 2048 \<Longrightarrow> read_be32 (clear_bit CG_IUSED_OFF k b) p = read_be32 b p"
  "k < 2048 \<Longrightarrow> free_map (set_bit8 CG_IUSED_OFF k b) = free_map b"
  "k < 2048 \<Longrightarrow> free_map (clear_bit CG_IUSED_OFF k b) = free_map b"
  by (auto intro!: read_be32_cong free_map_cong simp: inode_bit_other CG_FREE_OFF_def)

text \<open>One inode changes state: the counter of free inodes follows.\<close>

lemma inode_accounts_step:
  assumes "inode_accounts ipg b" "k < ipg" "\<And>i. i \<noteq> k \<Longrightarrow> inode_used c i = inode_used b i"
    "read_be32 c CG_CS_NIFREE_OFF = read_be32 b CG_CS_NIFREE_OFF +
      (if inode_used c k then 0 else 1) - (if inode_used b k then 0 else 1)"
  shows "inode_accounts ipg c"
proof -
  have "(\<Sum>i<ipg. if inode_used c i then 0 else 1 :: u32) = (\<Sum>i<ipg. if inode_used b i then 0 else 1) +
      (if inode_used c k then 0 else 1) - (if inode_used b k then 0 else 1)"
    by (rule sum_update_word [OF assms(2)]) (simp add: assms(3))
  with assms(1,4) show ?thesis by (simp add: inode_accounts_def)
qed

text \<open>An update of the group that leaves the fragment side alone.\<close>

lemma cg_wf_inode_side:
  assumes "cg_wf img b" "free_map c = free_map b"
    "\<And>p. p + 4 \<le> 24 \<and> 12 \<le> p \<or> p = 28 \<or> p = 36 \<or> 52 \<le> p \<and> p + 4 \<le> 84 \<or> p = 980 \<Longrightarrow>
      read_be32 c p = read_be32 b p"
    "inode_accounts (unat (inodes_per_group (sb img))) c" "geometry_ok img"
  shows "cg_wf img c"
proof -
  have lim: "read_be32 c CG_NDBLK_OFF = read_be32 b CG_NDBLK_OFF" "read_be32 c CG_MAGIC_OFF = read_be32 b CG_MAGIC_OFF"
    by (rule assms(3), simp add: cg_offsets)+
  let ?n = "unat (frags_per_block (sb img))"
  have "cg_accounts ?n m c = cg_accounts ?n m b" for m
  proof (rule cg_accounts_cong)
    fix k assume "1 \<le> k" "k < ?n"
    with frsum_range [OF this geometry_simps(2) [OF assms(5)]]
    show "read_be32 c (frsum_off k) = read_be32 b (frsum_off k)" by (intro assms(3)) simp
  qed (auto intro!: assms(3) simp: assms(2) cg_offsets)
  with assms(1,2,4) lim show ?thesis by (simp add: cg_wf_def Let_def)
qed

lemma take_inode_wf:
  assumes geo: "geometry_ok img" and wf: "cg_wf img b" and k: "unat k < unat (inodes_per_group (sb img))"
    and new: "\<not> inode_used b (unat k)"
  shows "cg_wf img (take_inode md k now b)"
    and "inode_used (take_inode md k now b) i \<longleftrightarrow> inode_used b i \<or> i = unat k"
    and "free_map (take_inode md k now b) = free_map b"
proof -
  have k': "unat k < 2048" using geometry_simps(8) [OF geo] k by simp
  note simps = take_inode_def Let_def cg_offsets cell_simps
  show used: "inode_used (take_inode md k now b) i \<longleftrightarrow> inode_used b i \<or> i = unat k" for i
    using inode_bit_used(1) [of "unat k" b] by (simp add: simps CG_IUSED_OFF_def)
  show fm: "free_map (take_inode md k now b) = free_map b"
    using inode_bit_read(3) [OF k', of b] by (simp add: simps CG_IUSED_OFF_def)
  show "cg_wf img (take_inode md k now b)"
  proof (rule cg_wf_inode_side [OF wf fm _ _ geo])
    show "inode_accounts (unat (inodes_per_group (sb img))) (take_inode md k now b)"
    proof (rule inode_accounts_step [OF _ k])
      show "inode_accounts (unat (inodes_per_group (sb img))) b" using wf by (simp add: cg_wf_def Let_def)
      show "read_be32 (take_inode md k now b) CG_CS_NIFREE_OFF = read_be32 b CG_CS_NIFREE_OFF +
          (if inode_used (take_inode md k now b) (unat k) then 0 else 1) -
          (if inode_used b (unat k) then 0 else 1)"
        unfolding used using new inode_bit_read(1) [of 32 "unat k" b] k' by (simp add: simps CG_IUSED_OFF_def)
    qed (simp add: used)
  next
    fix p :: nat
    assume p: "p + 4 \<le> 24 \<and> 12 \<le> p \<or> p = 28 \<or> p = 36 \<or> 52 \<le> p \<and> p + 4 \<le> 84 \<or> p = 980"
    then have "read_be32 (set_bit8 CG_IUSED_OFF (unat k) b) p = read_be32 b p"
      by (intro inode_bit_read(1) [OF _ k']) auto
    with p show "read_be32 (take_inode md k now b) p = read_be32 b p"
      by (auto simp: simps CG_IUSED_OFF_def)
  qed
qed


lemma release_inode_wf:
  assumes geo: "geometry_ok img" and wf: "cg_wf img b" and k: "unat k < unat (inodes_per_group (sb img))"
    and old: "inode_used b (unat k)"
  shows "cg_wf img (release_inode md k now b)"
    and "inode_used (release_inode md k now b) i \<longleftrightarrow> inode_used b i \<and> i \<noteq> unat k"
    and "free_map (release_inode md k now b) = free_map b"
proof -
  have k': "unat k < 2048" using geometry_simps(8) [OF geo] k by simp
  note simps = release_inode_def Let_def cg_offsets cell_simps
  show used: "inode_used (release_inode md k now b) i \<longleftrightarrow> inode_used b i \<and> i \<noteq> unat k" for i
    using inode_bit_used(2) [of "unat k" b] by (simp add: simps CG_IUSED_OFF_def)
  show fm: "free_map (release_inode md k now b) = free_map b"
    using inode_bit_read(4) [OF k', of b] by (simp add: simps CG_IUSED_OFF_def)
  show "cg_wf img (release_inode md k now b)"
  proof (rule cg_wf_inode_side [OF wf fm _ _ geo])
    show "inode_accounts (unat (inodes_per_group (sb img))) (release_inode md k now b)"
    proof (rule inode_accounts_step [OF _ k])
      show "inode_accounts (unat (inodes_per_group (sb img))) b" using wf by (simp add: cg_wf_def Let_def)
      show "read_be32 (release_inode md k now b) CG_CS_NIFREE_OFF = read_be32 b CG_CS_NIFREE_OFF +
          (if inode_used (release_inode md k now b) (unat k) then 0 else 1) -
          (if inode_used b (unat k) then 0 else 1)"
        unfolding used using old inode_bit_read(2) [of 32 "unat k" b] k' by (simp add: simps CG_IUSED_OFF_def)
    qed (simp add: used)
  next
    fix p :: nat
    assume p: "p + 4 \<le> 24 \<and> 12 \<le> p \<or> p = 28 \<or> p = 36 \<or> 52 \<le> p \<and> p + 4 \<le> 84 \<or> p = 980"
    then have "read_be32 (clear_bit CG_IUSED_OFF (unat k) b) p = read_be32 b p"
      by (intro inode_bit_read(2) [OF _ k']) auto
    with p show "read_be32 (release_inode md k now b) p = read_be32 b p"
      by (auto simp: simps CG_IUSED_OFF_def)
  qed
qed

lemma inode_counters:
  assumes "unat k < 2048" "j < 4"
  shows "read_be32 (take_inode md k now b) (CG_CS_NDIR_OFF + j * 4) =
      read_be32 b (CG_CS_NDIR_OFF + j * 4) + word_of_int ([if is_dir_mode md then 1 else 0, 0, - 1, 0] ! j)"
    "read_be32 (release_inode md k now b) (CG_CS_NDIR_OFF + j * 4) =
      read_be32 b (CG_CS_NDIR_OFF + j * 4) + word_of_int ([if is_dir_mode md then - 1 else 0, 0, 1, 0] ! j)"
proof -
  have rd: "read_be32 (set_bit8 CG_IUSED_OFF (unat k) b) p = read_be32 b p"
    "read_be32 (clear_bit CG_IUSED_OFF (unat k) b) p = read_be32 b p" if "p + 4 \<le> 724" for p
    using inode_bit_read(1,2) [of p "unat k" b] assms(1) that by simp_all
  from assms(2) show "read_be32 (take_inode md k now b) (CG_CS_NDIR_OFF + j * 4) =
      read_be32 b (CG_CS_NDIR_OFF + j * 4) + word_of_int ([if is_dir_mode md then 1 else 0, 0, - 1, 0] ! j)"
    unfolding less_4 by (elim disjE) (simp_all add: take_inode_def Let_def cg_offsets cell_simps
      rd [unfolded CG_IUSED_OFF_def] CG_IUSED_OFF_def)
  from assms(2) show "read_be32 (release_inode md k now b) (CG_CS_NDIR_OFF + j * 4) =
      read_be32 b (CG_CS_NDIR_OFF + j * 4) + word_of_int ([if is_dir_mode md then - 1 else 0, 0, 1, 0] ! j)"
    unfolding less_4 by (elim disjE) (simp_all add: release_inode_def Let_def cg_offsets cell_simps
      rd [unfolded CG_IUSED_OFF_def] CG_IUSED_OFF_def)
qed

lemma inode_used_clip:
  assumes "geometry_ok img" "i < unat (inodes_per_group (sb img))"
  shows "inode_used (clip (cg_bytes img) b) i = inode_used b i"
proof -
  have "724 + i div 8 < cg_bytes img" using assms(2) geometry_simps(3,6,8) [OF assms(1)] by linarith
  then show ?thesis by (simp add: inode_used_def free_bit_def CG_IUSED_OFF_def)
qed

lemma fs_ok_group:
  assumes "fs_ok img s" "unat cg < unat (cg_count (sb img))"
  shows "cg_wf img (cg_view img cg s)"
proof -
  from assms have "cg_wf img (cg_view img (of_nat (unat cg)) s)" unfolding fs_ok_def by blast
  then show ?thesis by simp
qed

lemma fs_okD: "fs_ok img s \<Longrightarrow> sys_ok s"
  by (simp add: fs_ok_def)

lemma meta_only_refl: "disk t = disk s \<Longrightarrow> meta_only img cg s t"
  by (simp add: meta_only_def)

text \<open>The common start of the operations: allocate a buffer and read the group into it.\<close>

lemma wp_load_group:
  assumes s: "sys_ok s"
    and E: "\<And>e t. sys_ok t \<Longrightarrow> disk t = disk s \<Longrightarrow> E e t"
    and Q: "\<And>t. sys_ok t \<Longrightarrow> disk t = disk s \<Longrightarrow> wp (k (cg_view img cg s)) E Q t"
  shows "wp (sys_os malloc) E (\<lambda>_. wp (read_exact (unat (cg_size (sb img))) (cg_block_offset img cg)) E
    (\<lambda>b. wp (k b) E Q)) s"
proof (rule wp_sys_malloc)
  fix t assume "same_disk s t"
  with s show "E ENOMEM t" by (intro E) (simp_all add: same_disk_def)
next
  fix t assume "same_disk s t"
  with s have t: "sys_ok t" "disk t = disk s" by (simp_all add: same_disk_def)
  show "wp (read_exact (unat (cg_size (sb img))) (cg_block_offset img cg)) E (\<lambda>b. wp (k b) E Q) t"
    by (rule img.wp_rd [OF t(1)]) (use t E Q in \<open>simp_all add: view_def cg_addr_def cg_bytes_def\<close>)
qed

definition inode_taken :: "nextufs_image \<Rightarrow> u32 \<Rightarrow> nat \<Rightarrow> sys \<Rightarrow> sys \<Rightarrow> bool" where
  "inode_taken img cg k s t \<longleftrightarrow> k < unat (inodes_per_group (sb img)) \<and>
     \<not> inode_used (cg_view img cg s) k \<and>
     (\<forall>i < unat (inodes_per_group (sb img)).
        inode_used (cg_view img cg t) i \<longleftrightarrow> inode_used (cg_view img cg s) i \<or> i = k)"

lemma wp_allocate_inode:
  assumes geo: "geometry_ok img" and fs: "fs_ok img s" and cg: "unat cg < unat (cg_count (sb img))"
  shows "wp (allocate_inode_in_group img cg md) (\<lambda>e t. sys_ok t \<and> meta_only img cg s t)
    (\<lambda>ino t. fs_ok img t \<and> meta_only img cg s t \<and>
      (\<exists>k. ino = cg * inodes_per_group (sb img) + of_nat k \<and> inode_taken img cg k s t)) s"
  unfolding allocate_inode_in_group_def wp_andthen Let_def
proof (rule wp_load_group [OF fs_okD [OF fs]])
  fix e t assume "sys_ok t" "disk t = disk s"
  then show "sys_ok t \<and> meta_only img cg s t" by (simp add: meta_only_refl)
next
  fix t assume t: "sys_ok t" "disk t = disk s"
  let ?b = "cg_view img cg s" and ?ipg = "inodes_per_group (sb img)"
  let ?E = "\<lambda>e t. sys_ok t \<and> meta_only img cg s t"
  let ?Q = "\<lambda>ino t. fs_ok img t \<and> meta_only img cg s t \<and>
      (\<exists>k. ino = cg * ?ipg + of_nat k \<and> inode_taken img cg k s t)"
  have commit: "wp (sys_os time) ?E (\<lambda>now. wp (write_exact img (take_inode md k now ?b) (unat (cg_size (sb img)))
      (cg_block_offset img cg)) ?E (\<lambda>_. wp (update_summary_counts img cg (if is_dir_mode md then 1 else 0) 0 (- 1) 0) ?E
      (\<lambda>_. ?Q (cg * ?ipg + k)))) t"
    if k: "k < ?ipg" "\<not> inode_used ?b (unat k)" for k
  proof (rule wp_sys_time)
    fix now u assume "same_disk t u"
    with t have u: "sys_ok u" "disk u = disk s" by (simp_all add: same_disk_def)
    have k': "unat k < unat ?ipg" "unat k < 2048"
      using k(1) geometry_simps(8) [OF geo] by (simp_all add: word_less_nat_alt)
    note wf = take_inode_wf [OF geo fs_ok_group [OF fs cg] k'(1) k(2), of md now]
    show "wp (write_exact img (take_inode md k now ?b) (unat (cg_size (sb img))) (cg_block_offset img cg)) ?E
      (\<lambda>_. wp (update_summary_counts img cg (if is_dir_mode md then 1 else 0) 0 (- 1) 0) ?E
      (\<lambda>_. ?Q (cg * ?ipg + k))) u"
    proof (rule wp_commit_group [OF geo fs cg u, of _ "\<lambda>j. [if is_dir_mode md then 1 else 0, 0, - 1, 0] ! j",
        simplified nth_Cons_0 nth_Cons_Suc numeral_2_eq_2 numeral_3_eq_3 One_nat_def], goal_cases)
      case 1
      show ?case using wf(1) by (simp add: cg_wf_clip [OF geo])
    next
      case (2 j)
      then show ?case using inode_counters(1) [OF k'(2), of j md now ?b]
        by (simp add: cg_counters_clip [OF geo])
    next
      case (4 v)
      have "inode_taken img cg (unat k) s v"
        using k k' wf(2) 4(3) by (simp add: inode_taken_def inode_used_clip [OF geo])
      moreover have "k = of_nat (unat k)" by simp
      ultimately show ?case using 4(1,2) by metis
    qed simp
  qed
  have err: "?E e t" for e using t by (simp add: meta_only_refl)
  show "wp (if read_be32 ?b CG_MAGIC_OFF \<noteq> CG_MAGIC then fail EINVAL
     else if read_be32 ?b CG_CS_NIFREE_OFF = 0 then fail ENOSPC
     else case find_inode ?b ?ipg (if ?ipg \<le> read_be32 ?b CG_IROTOR_OFF then 0 else read_be32 ?b CG_IROTOR_OFF) 0 of
       None \<Rightarrow> fail ENOSPC
     | Some ipref \<Rightarrow> andthen (sys_os time) (\<lambda>now.
         andthen (write_exact img (take_inode md ipref now ?b) (unat (cg_size (sb img))) (cg_block_offset img cg)) (\<lambda>_.
         andthen (update_summary_counts img cg (if is_dir_mode md then 1 else 0) 0 (- 1) 0) (\<lambda>_.
         ret (cg * ?ipg + ipref))))) ?E ?Q t"
    using err commit find_inode_Some by (auto simp: wp_simps split: option.splits)
qed


definition inode_released :: "nextufs_image \<Rightarrow> u32 \<Rightarrow> nat \<Rightarrow> sys \<Rightarrow> sys \<Rightarrow> bool" where
  "inode_released img cg k s t \<longleftrightarrow> k < unat (inodes_per_group (sb img)) \<and>
     inode_used (cg_view img cg s) k \<and>
     (\<forall>i < unat (inodes_per_group (sb img)).
        inode_used (cg_view img cg t) i \<longleftrightarrow> inode_used (cg_view img cg s) i \<and> i \<noteq> k)"

lemma wp_free_inode:
  assumes geo: "geometry_ok img" and fs: "fs_ok img s"
    and cg: "unat (ino div inodes_per_group (sb img)) < unat (cg_count (sb img))"
  shows "wp (free_inode_in_group img ino md)
    (\<lambda>e t. sys_ok t \<and> meta_only img (ino div inodes_per_group (sb img)) s t)
    (\<lambda>_ t. fs_ok img t \<and> meta_only img (ino div inodes_per_group (sb img)) s t \<and>
      inode_released img (ino div inodes_per_group (sb img)) (unat (ino mod inodes_per_group (sb img))) s t) s"
proof -
  let ?ipg = "inodes_per_group (sb img)"
  let ?cg = "ino div ?ipg" and ?k = "ino mod ?ipg"
  let ?b = "cg_view img ?cg s"
  let ?E = "\<lambda>e t. sys_ok t \<and> meta_only img ?cg s t"
  let ?Q = "\<lambda>_ t. fs_ok img t \<and> meta_only img ?cg s t \<and> inode_released img ?cg (unat ?k) s t"
  have ipg: "?ipg \<noteq> 0" using geometry_simps(7) [OF geo] by auto
  then have k': "unat ?k < unat ?ipg"
    by (metis word_less_nat_alt word_mod_less_divisor word_gt_0)
  then have k2: "unat ?k < 2048" using geometry_simps(8) [OF geo] by simp
  have commit: "wp (sys_os time) ?E (\<lambda>now. wp (write_exact img (release_inode md ?k now ?b) (unat (cg_size (sb img)))
      (cg_block_offset img ?cg)) ?E
      (\<lambda>_. wp (update_summary_counts img ?cg (if is_dir_mode md then - 1 else 0) 0 1 0) ?E ?Q)) t"
    if t: "sys_ok t" "disk t = disk s" and used: "inode_used ?b (unat ?k)" for t
  proof (rule wp_sys_time)
    fix now u assume "same_disk t u"
    with t have u: "sys_ok u" "disk u = disk s" by (simp_all add: same_disk_def)
    note wf = release_inode_wf [OF geo fs_ok_group [OF fs cg] k' used, of md now]
    show "wp (write_exact img (release_inode md ?k now ?b) (unat (cg_size (sb img))) (cg_block_offset img ?cg)) ?E
      (\<lambda>_. wp (update_summary_counts img ?cg (if is_dir_mode md then - 1 else 0) 0 1 0) ?E ?Q) u"
    proof (rule wp_commit_group [OF geo fs cg u, of _ "\<lambda>j. [if is_dir_mode md then - 1 else 0, 0, 1, 0] ! j",
        simplified nth_Cons_0 nth_Cons_Suc numeral_2_eq_2 numeral_3_eq_3 One_nat_def], goal_cases)
      case 1
      show ?case using wf(1) by (simp add: cg_wf_clip [OF geo])
    next
      case (2 j)
      then show ?case using inode_counters(2) [OF k2, of j md now ?b]
        by (simp add: cg_counters_clip [OF geo])
    next
      case (4 v)
      have "inode_released img ?cg (unat ?k) s v"
        using k' used wf(2) 4(3) by (simp add: inode_released_def inode_used_clip [OF geo])
      then show ?case using 4(1,2) by metis
    qed simp
  qed
  show ?thesis
    unfolding free_inode_in_group_def Let_def wp_andthen if_not_P [OF ipg]
  proof (rule wp_load_group [OF fs_okD [OF fs]], goal_cases)
    case (1 e t)
    then show ?case by (simp add: meta_only_refl)
  next
    case (2 t)
    have err: "?E e t" for e using 2 by (simp add: meta_only_refl)
    show ?case using err commit [OF 2] by (auto simp: wp_simps)
  qed
qed


section \<open>Fragments: the searches\<close>

lemma find_run_Some:
  "find_run b m start stop = Some p \<Longrightarrow>
     start \<le> p \<and> p + m \<le> stop \<and> (\<forall>i<m. free_map b (p + i))"
proof (induction b m start stop rule: find_run.induct)
  case (1 b m start stop)
  from "1.prems" consider "start + m \<le> stop" "set_run_bits b CG_FREE_OFF start m" "p = start"
    | "0 < m" "start + m \<le> stop" "\<not> set_run_bits b CG_FREE_OFF start m" "find_run b m (start + 1) stop = Some p"
    by (subst (asm) find_run.simps) (auto split: if_splits)
  then show ?case
  proof cases
    case 1
    then show ?thesis by (simp add: set_run_bits_iff free_map_def)
  next
    case 2
    with "1.IH" show ?thesis by auto
  qed
qed

lemma find_run_None:
  assumes "find_run b m start stop = None" "0 < m" "start \<le> p" "p + m \<le> stop"
  shows "\<not> (\<forall>i<m. free_map b (p + i))"
  using assms
proof (induction b m start stop rule: find_run.induct)
  case (1 b m start stop)
  have no: "\<not> set_run_bits b CG_FREE_OFF start m" and rest: "find_run b m (start + 1) stop = None"
    using "1.prems" find_run.simps [of b m start stop] by (simp_all split: if_splits)
  show ?case
  proof (cases "p = start")
    case True
    with no show ?thesis by (simp add: set_run_bits_iff free_map_def)
  next
    case False
    with "1.prems" "1.IH" no rest show ?thesis by simp
  qed
qed

text \<open>A run found lies in one block, inside the group, and the block is not wholly free.\<close>

lemma find_partial_Some:
  assumes "find_partial b n limit m (c * n) = Some (base, p)" "0 < m"
    "\<And>k. limit \<le> k \<Longrightarrow> k < nblk n limit * n \<Longrightarrow> \<not> free_map b k"
  shows "\<exists>q. base = q * n \<and> q < nblk n limit \<and> \<not> blk_full (free_map b) n q \<and>
    base \<le> p \<and> p + m \<le> base + n \<and> p + m \<le> limit \<and> (\<forall>i<m. free_map b (p + i))"
  using assms(1)
proof (induction "limit - c * n" arbitrary: c rule: less_induct)
  case less
  let ?stop = "min (c * n + n) limit"
  from less.prems have n: "0 < n" "c * n < limit"
    by (subst (asm) find_partial.simps, simp split: if_splits)+
  have next_c: "c * n + n = Suc c * n" by simp
  have IH: "find_partial b n limit m (Suc c * n) = Some (base, p) \<Longrightarrow> ?case"
    by (rule less.hyps [of "Suc c"]) (use n in auto)
  show ?case
  proof (cases "?stop - c * n = n \<and> block_is_free b CG_FREE_OFF (c * n) n")
    case True
    with less.prems n have "find_partial b n limit m (Suc c * n) = Some (base, p)"
      by (subst (asm) find_partial.simps) (simp add: Let_def add.commute)
    then show ?thesis by (rule IH)
  next
    case part: False
    show ?thesis
    proof (cases "find_run b m (c * n) ?stop")
      case None
      with less.prems n part have "find_partial b n limit m (c * n + n) = Some (base, p)"
        by (subst (asm) find_partial.simps) (auto simp: Let_def)
      then have "find_partial b n limit m (Suc c * n) = Some (base, p)" by (simp only: next_c)
      then show ?thesis by (rule IH)
    next
      case (Some p')
      with less.prems n part have eq: "base = c * n" "p = p'"
        by (subst (asm) find_partial.simps; auto simp: Let_def)+
      note run = find_run_Some [OF Some]
      have q: "c < nblk n limit"
      proof -
        have "Suc c * n \<le> limit + n - 1" using n by simp
        then have "Suc c \<le> (limit + n - 1) div n" using n by (simp add: less_eq_div_iff_mult_less_eq)
        then show ?thesis by (simp add: nblk_def)
      qed
      have "\<not> blk_full (free_map b) n c"
      proof (cases "?stop - c * n = n")
        case True
        with part show ?thesis by (simp add: block_is_free_map)
      next
        case False
        then have short: "limit < c * n + n" using n by auto
        have "Suc c * n \<le> nblk n limit * n" using q by (intro mult_le_mono1) simp
        then have "\<not> free_map b (c * n + (limit - c * n))"
          using short n by (intro assms(3)) simp_all
        then show ?thesis using short n by (auto simp: blk_full_def intro!: exI [of _ "limit - c * n"])
      qed
      with run q eq show ?thesis by (intro exI [of _ c]) auto
    qed
  qed
qed

lemma find_full_Some:
  assumes "find_full b n limit (c * n) = Some p"
  shows "\<exists>q. p = q * n \<and> q < nblk n limit \<and> q * n + n \<le> limit \<and> blk_full (free_map b) n q"
  using assms
proof (induction "limit - c * n" arbitrary: c rule: less_induct)
  case less
  from less.prems have n: "0 < n" "c * n + n \<le> limit"
    by (subst (asm) find_full.simps, simp split: if_splits)+
  show ?case
  proof (cases "block_is_free b CG_FREE_OFF (c * n) n")
    case True
    with less.prems n have "p = c * n" by (subst (asm) find_full.simps) simp
    moreover have "Suc c \<le> (limit + n - 1) div n"
      using n by (simp add: less_eq_div_iff_mult_less_eq)
    ultimately show ?thesis using n True by (auto simp: block_is_free_map nblk_def intro!: exI [of _ c])
  next
    case False
    with less.prems n have "find_full b n limit (Suc c * n) = Some p"
      by (subst (asm) find_full.simps) (simp add: add.commute)
    then show ?thesis by (rule less.hyps [of "Suc c", rotated]) (use n in auto)
  qed
qed


section \<open>Fragments: the updates\<close>

lemma take_run_other:
  "n \<le> 8 \<Longrightarrow> i < 36 \<or> 40 \<le> i \<and> i < 56 \<or> 84 \<le> i \<and> i < 984 \<Longrightarrow> take_run n c p m b i = b i"
  by (auto simp: take_run_def Let_def add_be32_def cg_offsets cell_simps apply_frsum_other CG_FREE_OFF_def)

lemma frsum_high:
  "n \<le> 8 \<Longrightarrow> 0 < m \<Longrightarrow> 84 \<le> i \<Longrightarrow> write_be32 b (52 + (n - m) * 4) v i = b i"
  by (rule write_be32_other) arith

lemma take_block_other:
  "n \<le> 8 \<Longrightarrow> 0 < m \<Longrightarrow> i < 28 \<or> 32 \<le> i \<and> i < 36 \<or> 44 \<le> i \<and> i < 56 \<or> 84 \<le> i \<and> i < 984 \<Longrightarrow>
     take_block n c m b i = b i"
  by (auto simp: frsum_high take_block_def Let_def add_be32_def cg_offsets cell_simps frsum_off_def CG_FREE_OFF_def)

lemma release_counts_other:
  "n \<le> 8 \<Longrightarrow> i < 28 \<or> 32 \<le> i \<and> i < 36 \<or> 40 \<le> i \<and> i < 56 \<or> 84 \<le> i \<Longrightarrow>
     release_counts n c m before b i = b i"
  by (auto simp: release_counts_def Let_def add_be32_def cg_offsets cell_simps apply_frsum_other)

text \<open>An update of the group that leaves the inode side alone.\<close>

lemma cg_wf_frag_side:
  assumes wf: "cg_wf img b" and geo: "geometry_ok img"
    and acc: "cg_accounts (unat (frags_per_block (sb img)))
      (nblk (unat (frags_per_block (sb img))) (unat (read_be32 b CG_NDBLK_OFF))) c"
    and tail: "\<And>k. unat (read_be32 b CG_NDBLK_OFF) \<le> k \<Longrightarrow> free_map c k \<Longrightarrow> free_map b k"
    and same: "\<And>i. 20 \<le> i \<and> i < 24 \<or> 32 \<le> i \<and> i < 36 \<or> 724 \<le> i \<and> i < 984 \<Longrightarrow> c i = b i"
  shows "cg_wf img c"
proof -
  have rd: "read_be32 c CG_NDBLK_OFF = read_be32 b CG_NDBLK_OFF" "read_be32 c CG_MAGIC_OFF = read_be32 b CG_MAGIC_OFF"
    "read_be32 c CG_CS_NIFREE_OFF = read_be32 b CG_CS_NIFREE_OFF"
    by (rule read_be32_cong, rule same, simp add: cg_offsets)+
  have "inode_used c i = inode_used b i" if "i < unat (inodes_per_group (sb img))" for i
    using same [of "724 + i div 8"] that geometry_simps(8) [OF geo]
    by (simp add: inode_used_def free_bit_def CG_IUSED_OFF_def)
  then have "inode_accounts (unat (inodes_per_group (sb img))) c = inode_accounts (unat (inodes_per_group (sb img))) b"
    by (intro inode_accounts_cong) (simp_all add: rd)
  with wf acc tail rd show ?thesis by (auto simp: cg_wf_def Let_def)
qed

lemma free_map_clip:
  assumes "geometry_ok img" "k < unat (frags_per_group (sb img))"
  shows "free_map (clip (cg_bytes img) b) k = free_map b k"
proof -
  have "k div 8 < (unat (frags_per_group (sb img)) + 7) div 8" using assms(2) by linarith
  then have "984 + k div 8 < cg_bytes img" using geometry_simps(6) [OF assms(1)] by linarith
  then show ?thesis by (simp add: free_map_def free_bit_def CG_FREE_OFF_def)
qed

lemma counted_map: "(\<And>i. counted i \<Longrightarrow> b i = c i) \<Longrightarrow> free_map b = free_map c"
  by (rule free_map_cong) (simp add: counted_def CG_FREE_OFF_def)

lemma wp_commit_frags:
  fixes d :: "nat \<Rightarrow> int"
  assumes geo: "geometry_ok img" and fs: "fs_ok img s" and cg: "unat cg < unat (cg_count (sb img))"
    and u: "sys_ok u" "disk u = disk s"
    and wf: "cg_wf img b1"
    and step: "\<And>j. j < 4 \<Longrightarrow> read_be32 b1 (CG_CS_NDIR_OFF + j * 4) =
      read_be32 (cg_view img cg s) (CG_CS_NDIR_OFF + j * 4) + word_of_int (d j)"
    and same: "\<And>i. counted i \<Longrightarrow> b2 i = b1 i"
    and E: "\<And>e t. sys_ok t \<Longrightarrow> meta_only img cg s t \<Longrightarrow> E e t"
    and Q: "\<And>t. fs_ok img t \<Longrightarrow> meta_only img cg s t \<Longrightarrow>
      (\<And>k. k < unat (frags_per_group (sb img)) \<Longrightarrow> free_map (cg_view img cg t) k = free_map b1 k) \<Longrightarrow> Q () t"
  shows "wp (write_exact img b2 (unat (cg_size (sb img))) (cg_block_offset img cg)) E
    (\<lambda>_. wp (update_summary_counts img cg (d 0) (d 1) (d 2) (d 3)) E Q) u"
proof (rule wp_commit_group [OF geo fs cg u], goal_cases)
  case 1
  show ?case using wf cg_wf_counted [OF geo same] by (simp add: cg_wf_clip [OF geo])
next
  case (2 j)
  have "read_be32 b2 (CG_CS_NDIR_OFF + j * 4) = read_be32 b1 (CG_CS_NDIR_OFF + j * 4)"
    by (rule read_be32_cong, rule same) (use 2 in \<open>auto simp: counted_def CG_CS_NDIR_OFF_def\<close>)
  with 2 step show ?case by (simp add: cg_counters_clip [OF geo])
next
  case (3 e t)
  then show ?case by (rule E)
next
  case (4 t)
  show ?case
    by (rule Q [OF 4(1,2)]) (simp add: 4(3) free_map_clip [OF geo] counted_map [OF same])
qed

text \<open>The effect of taking and of releasing \<open>m\<close> fragments from \<open>p\<close> on, as seen on the disk.\<close>

definition frags_taken :: "nextufs_image \<Rightarrow> u32 \<Rightarrow> nat \<Rightarrow> nat \<Rightarrow> sys \<Rightarrow> sys \<Rightarrow> bool" where
  "frags_taken img cg p m s t \<longleftrightarrow> (\<forall>i<m. free_map (cg_view img cg s) (p + i)) \<and>
     (\<forall>k < unat (frags_per_group (sb img)). free_map (cg_view img cg t) k \<longleftrightarrow>
        free_map (cg_view img cg s) k \<and> \<not> (p \<le> k \<and> k < p + m))"

definition frags_released :: "nextufs_image \<Rightarrow> u32 \<Rightarrow> nat \<Rightarrow> nat \<Rightarrow> sys \<Rightarrow> sys \<Rightarrow> bool" where
  "frags_released img cg p m s t \<longleftrightarrow> (\<forall>i<m. \<not> free_map (cg_view img cg s) (p + i)) \<and>
     (\<forall>k < unat (frags_per_group (sb img)). free_map (cg_view img cg t) k \<longleftrightarrow>
        free_map (cg_view img cg s) k \<or> p \<le> k \<and> k < p + m)"

definition cg_limit :: "nextufs_image \<Rightarrow> u32 \<Rightarrow> sys \<Rightarrow> nat" where
  "cg_limit img cg s = unat (read_be32 (cg_view img cg s) CG_NDBLK_OFF)"

text \<open>A run that lies inside one block and inside its group.\<close>

definition in_one_block :: "nextufs_image \<Rightarrow> nat \<Rightarrow> nat \<Rightarrow> nat \<Rightarrow> bool" where
  "in_one_block img limit p m \<longleftrightarrow> p + m \<le> limit \<and>
     p mod unat (frags_per_block (sb img)) + m \<le> unat (frags_per_block (sb img))"

lemma in_one_blockI:
  assumes "q * n \<le> p" "p + m \<le> q * n + n" "p + m \<le> limit" "0 < m" "n = unat (frags_per_block (sb img))"
  shows "in_one_block img limit p m"
proof -
  have "p div n = q" using assms by (intro div_nat_eqI) (auto simp: mult.commute)
  then have "p = q * n + p mod n" using div_mult_mod_eq [of p n] by simp
  with assms(1-4) show ?thesis unfolding in_one_block_def assms(5) [symmetric] by linarith
qed

lemma in_one_blockD:
  assumes "in_one_block img limit p m" "n = unat (frags_per_block (sb img))" "0 < m"
  shows "p div n * n \<le> p" "p + m \<le> p div n * n + n" "p div n < nblk n limit"
proof -
  have n: "0 < n" using assms by (cases "n = 0") (auto simp: in_one_block_def)
  show 1: "p div n * n \<le> p" by simp
  have "p = p div n * n + p mod n" by simp
  with assms(1) show 2: "p + m \<le> p div n * n + n"
    unfolding in_one_block_def assms(2) [symmetric] by linarith
  have "Suc (p div n) * n \<le> limit + n - 1"
    using assms(1,3) 1 n unfolding in_one_block_def by (simp, linarith)
  then have "Suc (p div n) \<le> (limit + n - 1) div n" using n by (simp add: less_eq_div_iff_mult_less_eq)
  then show "p div n < nblk n limit" by (simp add: nblk_def)
qed


lemma take_run_counters:
  assumes "n \<le> 8" "j < 4"
  shows "read_be32 (take_run n c p m b) (CG_CS_NDIR_OFF + j * 4) =
    read_be32 b (CG_CS_NDIR_OFF + j * 4) + word_of_int ([0, 0, 0, - int m] ! j)"
  using assms(2) unfolding less_4
  by (elim disjE) (simp_all add: take_run_def Let_def cg_offsets cell_simps assms(1))

lemma take_block_counters:
  assumes "n \<le> 8" "0 < m" "m \<le> n" "j < 4"
  shows "read_be32 (take_block n c m b) (CG_CS_NDIR_OFF + j * 4) =
    read_be32 b (CG_CS_NDIR_OFF + j * 4) + word_of_int ([0, - 1, 0, int (n - m)] ! j)"
  using assms(4) unfolding less_4
  by (elim disjE) (simp_all add: take_block_def Let_def cg_offsets cell_simps frsum_off_def)

lemma cg_wf_taken:
  assumes geo: "geometry_ok img" and wf: "cg_wf img b"
    and n: "n = unat (frags_per_block (sb img))" and limit: "limit = unat (read_be32 b CG_NDBLK_OFF)"
    and q: "q < nblk n limit" and m: "0 < m" "m \<le> n"
  shows "\<not> blk_full (free_map b) n q \<Longrightarrow> q * n \<le> p \<Longrightarrow> p + m \<le> q * n + n \<Longrightarrow>
      \<forall>i<m. free_map b (p + i) \<Longrightarrow> cg_wf img (take_run n (q * n) p m b)"
    and "blk_full (free_map b) n q \<Longrightarrow> cg_wf img (take_block n (q * n) m b)"
proof -
  have n8: "n \<le> 8" using geometry_simps(2) [OF geo] n by simp
  have acc: "cg_accounts n (nblk n limit) b" using wf by (simp add: cg_wf_def Let_def n limit)
  { assume "\<not> blk_full (free_map b) n q" "q * n \<le> p" "p + m \<le> q * n + n" "\<forall>i<m. free_map b (p + i)"
    then have "cg_accounts n (nblk n limit) (take_run n (q * n) p m b)"
      by (intro take_run_accounts [OF acc n8 q m(1)]) auto
    then show "cg_wf img (take_run n (q * n) p m b)"
      by (intro cg_wf_frag_side [OF wf geo])
        (auto simp: n [symmetric] limit take_run_map [OF n8] take_run_other [OF n8]) }
  { assume "blk_full (free_map b) n q"
    then have "cg_accounts n (nblk n limit) (take_block n (q * n) m b)"
      by (intro take_block_accounts [OF acc n8 q m])
    then show "cg_wf img (take_block n (q * n) m b)"
      by (intro cg_wf_frag_side [OF wf geo])
        (auto simp: n [symmetric] limit take_block_map [OF n8] take_block_other [OF n8 m(1)]) }
qed

lemma time_counted: "counted i \<Longrightarrow> write_be32 b CG_TIME_OFF now i = b i"
  by (auto simp: counted_def cg_offsets cell_simps)

definition frag_post :: "nextufs_image \<Rightarrow> u32 \<Rightarrow> nat \<Rightarrow> sys \<Rightarrow> u32 \<Rightarrow> sys \<Rightarrow> bool" where
  "frag_post img cg m s frag t \<longleftrightarrow> fs_ok img t \<and> meta_only img cg s t \<and>
     (\<exists>p. frag = cg * frags_per_group (sb img) + of_nat p \<and>
        in_one_block img (cg_limit img cg s) p m \<and> frags_taken img cg p m s t)"

lemma wp_alloc_from_partial:
  assumes geo: "geometry_ok img" and fs: "fs_ok img s" and cg: "unat cg < unat (cg_count (sb img))"
    and t: "sys_ok t" "disk t = disk s" and b: "b = cg_view img cg s"
    and m: "need \<noteq> 0" "need \<le> frags_per_block (sb img)"
    and found: "find_partial b (unat (frags_per_block (sb img))) (cg_limit img cg s) (unat need) 0 = Some (base, p)"
  shows "wp (alloc_from_partial img cg need b base p) (\<lambda>e t. sys_ok t \<and> meta_only img cg s t)
    (frag_post img cg (unat need) s) t"
proof -
  let ?n = "unat (frags_per_block (sb img))" and ?m = "unat need"
  have wf: "cg_wf img b" using fs_ok_group [OF fs cg] b by simp
  have lim: "cg_limit img cg s = unat (read_be32 b CG_NDBLK_OFF)" by (simp add: cg_limit_def b)
  have m': "0 < ?m" "?m \<le> ?n" using m by (simp_all add: unat_gt_0 word_le_nat_alt)
  note n8 = geometry_simps(2) [OF geo]
  from find_partial_Some [of b ?n "cg_limit img cg s" ?m 0 base p] found m' wf
  obtain q where q: "base = q * ?n" "q < nblk ?n (cg_limit img cg s)" "\<not> blk_full (free_map b) ?n q"
    "base \<le> p" "p + ?m \<le> base + ?n" "p + ?m \<le> cg_limit img cg s" "\<forall>i<?m. free_map b (p + i)"
    by (auto simp: cg_wf_def Let_def lim)
  have wf1: "cg_wf img (take_run ?n base p ?m b)"
    using cg_wf_taken(1) [OF geo wf refl lim q(2) m' q(3)] q by simp
  have block: "in_one_block img (cg_limit img cg s) p ?m"
    using q m' by (intro in_one_blockI [of q ?n]) auto
  show ?thesis
    unfolding alloc_from_partial_def Let_def
  proof (simp only: if_not_P [of "8 < ?n"] n8 not_less wp_andthen wp_ret, rule wp_sys_time)
    fix now u assume "same_disk t u"
    with t have u: "sys_ok u" "disk u = disk s" by (simp_all add: same_disk_def)
    show "wp (write_exact img (write_be32 (take_run ?n base p ?m b) CG_TIME_OFF now) (unat (cg_size (sb img)))
        (cg_block_offset img cg)) (\<lambda>e t. sys_ok t \<and> meta_only img cg s t)
      (\<lambda>_. wp (update_summary_counts img cg 0 0 0 (- int ?m)) (\<lambda>e t. sys_ok t \<and> meta_only img cg s t)
        (\<lambda>_. frag_post img cg ?m s (cg * frags_per_group (sb img) + of_nat p))) u"
    proof (rule wp_commit_frags [OF geo fs cg u wf1, of "\<lambda>j. [0, 0, 0, - int ?m] ! j",
        simplified nth_Cons_0 nth_Cons_Suc numeral_2_eq_2 numeral_3_eq_3 One_nat_def], goal_cases)
      case (1 j)
      then show ?case using take_run_counters [OF n8, of j base p ?m b] by (simp add: b)
    next
      case (4 v)
      have "frags_taken img cg p ?m s v"
        using q(7) 4(3) by (simp add: frags_taken_def take_run_map [OF n8] flip: b)
      with 4 block show ?case by (auto simp: frag_post_def)
    qed (simp_all add: time_counted)
  qed
qed

lemma wp_alloc_from_full:
  assumes geo: "geometry_ok img" and fs: "fs_ok img s" and cg: "unat cg < unat (cg_count (sb img))"
    and t: "sys_ok t" "disk t = disk s" and b: "b = cg_view img cg s"
    and m: "need \<noteq> 0" "need \<le> frags_per_block (sb img)"
    and found: "find_full b (unat (frags_per_block (sb img))) (cg_limit img cg s) 0 = Some p"
  shows "wp (alloc_from_full img cg need b p) (\<lambda>e t. sys_ok t \<and> meta_only img cg s t)
    (frag_post img cg (unat need) s) t"
proof -
  let ?n = "unat (frags_per_block (sb img))" and ?m = "unat need"
  let ?E = "\<lambda>e t. sys_ok t \<and> meta_only img cg s t"
  have wf: "cg_wf img b" using fs_ok_group [OF fs cg] b by simp
  have lim: "cg_limit img cg s = unat (read_be32 b CG_NDBLK_OFF)" by (simp add: cg_limit_def b)
  have m': "0 < ?m" "?m \<le> ?n" using m by (simp_all add: unat_gt_0 word_le_nat_alt)
  note n8 = geometry_simps(2) [OF geo]
  from find_full_Some [of b ?n "cg_limit img cg s" 0 p] found
  obtain q where q: "p = q * ?n" "q < nblk ?n (cg_limit img cg s)" "q * ?n + ?n \<le> cg_limit img cg s"
    "blk_full (free_map b) ?n q" by auto
  have wf1: "cg_wf img (take_block ?n p ?m b)"
    using cg_wf_taken(2) [OF geo wf refl lim q(2) m' q(4)] q by simp
  have block: "in_one_block img (cg_limit img cg s) p ?m"
    using q m' by (intro in_one_blockI [of q ?n]) auto
  have free: "\<forall>i<?m. free_map b (p + i)" using q m' by (simp add: blk_full_def)
  have commit: "wp (write_exact img b2 (unat (cg_size (sb img))) (cg_block_offset img cg)) ?E
      (\<lambda>_. wp (update_summary_counts img cg 0 (- 1) 0 (int (?n - ?m))) ?E
        (\<lambda>_. frag_post img cg ?m s (cg * frags_per_group (sb img) + of_nat p))) u"
    if u: "sys_ok u" "disk u = disk s"
      and b2: "adjust_rotation img p (- 1) (- 1) (write_be32 (take_block ?n p ?m b) CG_TIME_OFF now) = Some b2"
    for u b2 now
  proof (rule wp_commit_frags [OF geo fs cg u wf1, of "\<lambda>j. [0, - 1, 0, int (?n - ?m)] ! j",
      simplified nth_Cons_0 nth_Cons_Suc numeral_2_eq_2 numeral_3_eq_3 One_nat_def], goal_cases)
    case (1 j)
    then show ?case using take_block_counters [OF n8 m', of j p b] by (simp add: b)
  next
    case (2 i)
    then show ?case using adjust_rotation_counted [OF b2 2] by (simp add: time_counted)
  next
    case (4 v)
    have "frags_taken img cg p ?m s v"
      using free 4(3) by (simp add: frags_taken_def take_block_map [OF n8] flip: b)
    with 4 block show ?case by (auto simp: frag_post_def)
  qed simp
  show ?thesis
    unfolding alloc_from_full_def Let_def wp_andthen
  proof (rule wp_sys_time)
    fix now u assume "same_disk t u"
    with t have u: "sys_ok u" "disk u = disk s" by (simp_all add: same_disk_def)
    show "wp (case adjust_rotation img p (- 1) (- 1) (write_be32 (take_block ?n p ?m b) CG_TIME_OFF now) of
        None \<Rightarrow> fail UNDEF
      | Some buf \<Rightarrow> andthen (write_exact img buf (unat (cg_size (sb img))) (cg_block_offset img cg)) (\<lambda>_.
        andthen (update_summary_counts img cg 0 (- 1) 0 (int (?n - ?m))) (\<lambda>_.
        ret (cg * frags_per_group (sb img) + of_nat p)))) ?E (frag_post img cg ?m s) u"
      using commit [OF u] u by (auto simp: wp_simps meta_only_refl split: option.splits)
  qed
qed


section \<open>Fragments: the operations\<close>

lemma wp_allocate_frags:
  assumes geo: "geometry_ok img" and fs: "fs_ok img s" and cg: "unat cg < unat (cg_count (sb img))"
  shows "wp (allocate_frags_in_group img cg need) (\<lambda>e t. sys_ok t \<and> meta_only img cg s t)
    (frag_post img cg (unat need) s) s"
proof (cases "need = 0 \<or> frags_per_block (sb img) < need")
  case True
  then show ?thesis
    unfolding allocate_frags_in_group_def Let_def if_P [OF True] wp_fail
    by (simp add: fs_okD [OF fs] meta_only_refl)
next
  case False
  then have m: "need \<noteq> 0" "need \<le> frags_per_block (sb img)" by (simp_all add: not_less)
  show ?thesis
    unfolding allocate_frags_in_group_def Let_def if_not_P [OF False] wp_andthen
  proof (rule wp_load_group [OF fs_okD [OF fs]], goal_cases)
    case (1 e t)
    then show ?case by (simp add: meta_only_refl)
  next
    case (2 t)
    have err: "sys_ok t \<and> meta_only img cg s t" using 2 by (simp add: meta_only_refl)
    note partial = wp_alloc_from_partial [OF geo fs cg 2 refl m, unfolded cg_limit_def]
    note full = wp_alloc_from_full [OF geo fs cg 2 refl m, unfolded cg_limit_def]
    show ?case
      using err by (auto simp: wp_simps intro: partial full split: option.splits prod.splits if_splits)
  qed
qed

lemma word_mod_less: "(b :: u32) \<noteq> 0 \<Longrightarrow> unat (a mod b) < unat b"
  by (metis unat_gt_0 unat_mod mod_less_divisor)

lemma extend_block_base:
  fixes a b :: u32
  assumes "b \<noteq> 0"
  shows "unat (a - a mod b) = unat a div unat b * unat b"
proof -
  have "a mod b \<le> a" by (simp add: word_le_nat_alt unat_mod)
  then have "unat (a - a mod b) = unat a - unat a mod unat b" by (simp add: unat_sub unat_mod)
  also have "\<dots> = unat a div unat b * unat b" by (simp add: minus_mod_eq_div_mult)
  finally show ?thesis .
qed

lemma wp_extend:
  assumes geo: "geometry_ok img" and fs: "fs_ok img s"
    and cg: "unat (frag div frags_per_group (sb img)) < unat (cg_count (sb img))"
    and limit: "unat (frag mod frags_per_group (sb img)) + unat new \<le> cg_limit img (frag div frags_per_group (sb img)) s"
    and old: "0 < old" "\<not> free_map (cg_view img (frag div frags_per_group (sb img)) s) (unat (frag mod frags_per_group (sb img)))"
  shows "wp (extend_fragment_run img frag old new)
    (\<lambda>e t. sys_ok t \<and> meta_only img (frag div frags_per_group (sb img)) s t)
    (\<lambda>_ t. fs_ok img t \<and> meta_only img (frag div frags_per_group (sb img)) s t \<and>
      frags_taken img (frag div frags_per_group (sb img))
        (unat (frag mod frags_per_group (sb img)) + unat old) (unat new - unat old) s t) s"
proof -
  let ?fpb = "frags_per_block (sb img)" and ?fpg = "frags_per_group (sb img)"
  let ?cg = "frag div ?fpg" and ?l = "frag mod ?fpg"
  let ?n = "unat ?fpb" and ?b = "cg_view img ?cg s"
  let ?m = "unat (new - old)" and ?p = "unat ?l + unat old"
  let ?E = "\<lambda>e t. sys_ok t \<and> meta_only img ?cg s t"
  let ?Q = "\<lambda>_ t. fs_ok img t \<and> meta_only img ?cg s t \<and>
      frags_taken img ?cg ?p (unat new - unat old) s t"
  note n8 = geometry_simps(2) [OF geo]
  have fpg: "?fpg \<noteq> 0" and fpb: "?fpb \<noteq> 0" using geometry_simps(1,3) [OF geo] by auto
  have start: "?E e s" for e using fs_okD [OF fs] by (simp add: meta_only_refl)
  show ?thesis
  proof (cases "new \<le> old \<or> ?fpb < new")
    case True
    then show ?thesis
      unfolding extend_fragment_run_def Let_def if_P [OF True] wp_fail using start by blast
  next
    case guard: False
    then have nm: "unat old < unat new" "unat new \<le> ?n"
      by (simp_all add: word_less_nat_alt word_le_nat_alt)
    then have m: "?m = unat new - unat old" by (intro unat_sub) (simp add: word_le_nat_alt)
    show ?thesis
    proof (cases "?fpb < ?l mod ?fpb + new")
      case True
      show ?thesis
        unfolding extend_fragment_run_def Let_def if_not_P [OF guard] if_not_P [OF fpg] if_P [OF True] wp_fail
        using start by blast
    next
      case fits: False
      have lm: "unat (?l mod ?fpb) < ?n" by (rule word_mod_less [OF fpb])
      have "unat (?l mod ?fpb + new) = unat (?l mod ?fpb) + unat new"
        by (intro unat_add_lem [THEN iffD1]) (use lm nm n8 in simp)
      with fits have fits': "unat ?l mod ?n + unat new \<le> ?n" by (simp add: word_less_nat_alt not_less unat_mod)
      have base: "unat (?l - ?l mod ?fpb) = unat ?l div ?n * ?n" by (rule extend_block_base [OF fpb])
      have wf: "cg_wf img ?b" by (rule fs_ok_group [OF fs cg])
      let ?limit = "unat (read_be32 ?b CG_NDBLK_OFF)"
      have ob: "in_one_block img ?limit (unat ?l) (unat new)"
        using limit fits' by (simp add: in_one_block_def cg_limit_def)
      have new0: "0 < unat new" using nm by simp
      note q = in_one_blockD [OF ob refl new0]
      have part: "\<not> blk_full (free_map ?b) ?n (unat ?l div ?n)"
      proof -
        have "unat ?l div ?n * ?n + unat ?l mod ?n = unat ?l" "unat ?l mod ?n < ?n"
          using geometry_simps(1) [OF geo] by simp_all
        with old(2) show ?thesis by (auto simp: blk_full_def intro!: exI [of _ "unat ?l mod ?n"])
      qed
      show ?thesis
        unfolding extend_fragment_run_def Let_def if_not_P [OF guard] if_not_P [OF fpg] if_not_P [OF fits] wp_andthen
      proof (rule wp_load_group [OF fs_okD [OF fs]], goal_cases)
        case (1 e t)
        then show ?case by (simp add: meta_only_refl)
      next
        case (2 t)
        have err: "?E e t" for e using 2 by (simp add: meta_only_refl)
        have commit: "wp (sys_os time) ?E (\<lambda>now.
            wp (write_exact img (write_be32 (take_run ?n (unat ?l div ?n * ?n) ?p ?m ?b) CG_TIME_OFF now)
              (unat (cg_size (sb img))) (cg_block_offset img ?cg)) ?E
            (\<lambda>_. wp (update_summary_counts img ?cg 0 0 0 (- int ?m)) ?E ?Q)) t"
          if run: "\<forall>i<?m. free_map ?b (?p + i)"
        proof (rule wp_sys_time)
          fix now u assume "same_disk t u"
          with 2 have u: "sys_ok u" "disk u = disk s" by (simp_all add: same_disk_def)
          have wf1: "cg_wf img (take_run ?n (unat ?l div ?n * ?n) ?p ?m ?b)"
            by (rule cg_wf_taken(1) [OF geo wf refl refl q(3) _ _ part trans_le_add1 [OF q(1)]])
              (use q(2) nm m run in auto)
          show "wp (write_exact img (write_be32 (take_run ?n (unat ?l div ?n * ?n) ?p ?m ?b) CG_TIME_OFF now)
              (unat (cg_size (sb img))) (cg_block_offset img ?cg)) ?E
            (\<lambda>_. wp (update_summary_counts img ?cg 0 0 0 (- int ?m)) ?E ?Q) u"
          proof (rule wp_commit_frags [OF geo fs cg u wf1, of "\<lambda>j. [0, 0, 0, - int ?m] ! j",
              simplified nth_Cons_0 nth_Cons_Suc numeral_2_eq_2 numeral_3_eq_3 One_nat_def], goal_cases)
            case (1 j)
            then show ?case using take_run_counters [OF n8, of j _ ?p ?m ?b] by simp
          next
            case (4 v)
            have "frags_taken img ?cg ?p (unat new - unat old) s v"
              using run 4(3) by (simp add: frags_taken_def take_run_map [OF n8] m)
            with 4 show ?case by simp
          qed (simp_all add: time_counted)
        qed
        have n8': "\<not> 8 < ?fpb" using n8 by (simp add: word_less_nat_alt)
        show ?case
          using err commit n8' by (auto simp: wp_simps base set_run_bits_iff free_map_def)
      qed
    qed
  qed
qed


text \<open>
  Releasing a run. The caller names a run inside one block of the group; a run of which a
  fragment is free already is refused (\<open>free_fragment_run_double\<close> below).
\<close>

lemma release_counters:
  assumes "n \<le> 8" "j < 4" "\<And>i. i < 984 \<Longrightarrow> b1 i = b i"
  shows "read_be32 (release_counts n c m before b1) (CG_CS_NDIR_OFF + j * 4) =
    read_be32 b (CG_CS_NDIR_OFF + j * 4) + word_of_int (
      (if block_is_free b1 CG_FREE_OFF c n then [0, 1, 0, int m - int n] else [0, 0, 0, int m]) ! j)"
proof -
  have rd: "p + 4 \<le> 984 \<Longrightarrow> read_be32 b1 p = read_be32 b p" for p
    by (rule read_be32_cong) (use assms(3) in auto)
  have whole: "block_is_free (apply_cg_frsum_delta before x n b1) CG_FREE_OFF c n = block_is_free b1 CG_FREE_OFF c n" for x
    using free_map_apply_frsum [OF assms(1), of before x b1]
    by (simp add: block_is_free_iff free_map_def fun_eq_iff)
  from assms(2) show ?thesis
    unfolding less_4
    by (elim disjE) (simp_all add: release_counts_def Let_def whole cg_offsets cell_simps assms(1) rd)
qed

lemma cg_wf_released:
  assumes geo: "geometry_ok img" and wf: "cg_wf img b"
    and n: "n = unat (frags_per_block (sb img))" and limit: "limit = unat (read_be32 b CG_NDBLK_OFF)"
    and block: "in_one_block img limit p m" and m: "0 < m" and rel: "release_bits p m b = Some b1"
  shows "cg_wf img (release_counts n (p div n * n) m
    (count_free_runs_in_block b CG_FREE_OFF (p div n * n) n) b1)" (is "cg_wf img ?c")
proof -
  have n8: "n \<le> 8" using geometry_simps(2) [OF geo] n by simp
  note q = in_one_blockD [OF block n m]
  note bits = release_bits_iff [OF rel]
  have "cg_accounts n (nblk n limit) b" using wf by (simp add: cg_wf_def Let_def n limit)
  then have acc: "cg_accounts n (nblk n limit) ?c"
    by (rule release_accounts [OF _ n8 q(3) m q(1,2) rel])
  show ?thesis
  proof (rule cg_wf_frag_side [OF wf geo], goal_cases)
    case 1
    show ?case unfolding n [symmetric] limit [symmetric] by (rule acc)
  next
    case (2 k)
    then show ?case
      using bits block by (auto simp: release_counts_map [OF n8] in_one_block_def limit)
  next
    case (3 i)
    then show ?case using bits by (auto simp: release_counts_other [OF n8] CG_FREE_OFF_def)
  qed
qed

lemma wp_free_frags:
  assumes geo: "geometry_ok img" and fs: "fs_ok img s"
    and cg: "unat (frag div frags_per_group (sb img)) < unat (cg_count (sb img))"
    and block: "in_one_block img (cg_limit img (frag div frags_per_group (sb img)) s)
      (unat (frag mod frags_per_group (sb img))) (unat m)"
  shows "wp (free_fragment_run img frag m)
    (\<lambda>e t. sys_ok t \<and> meta_only img (frag div frags_per_group (sb img)) s t)
    (\<lambda>_ t. fs_ok img t \<and> meta_only img (frag div frags_per_group (sb img)) s t \<and>
      frags_released img (frag div frags_per_group (sb img))
        (unat (frag mod frags_per_group (sb img))) (unat m) s t) s"
proof -
  let ?fpb = "frags_per_block (sb img)" and ?fpg = "frags_per_group (sb img)"
  let ?cg = "frag div ?fpg" and ?l = "frag mod ?fpg"
  let ?n = "unat ?fpb" and ?b = "cg_view img ?cg s" and ?m = "unat m"
  let ?base = "unat ?l div ?n * ?n"
  let ?before = "count_free_runs_in_block ?b CG_FREE_OFF ?base ?n"
  let ?E = "\<lambda>e t. sys_ok t \<and> meta_only img ?cg s t"
  let ?Q = "\<lambda>_ t. fs_ok img t \<and> meta_only img ?cg s t \<and> frags_released img ?cg (unat ?l) ?m s t"
  note n8 = geometry_simps(2) [OF geo]
  have fpg: "?fpg \<noteq> 0" and fpb: "?fpb \<noteq> 0" using geometry_simps(1,3) [OF geo] by auto
  have start: "?E e s" for e using fs_okD [OF fs] by (simp add: meta_only_refl)
  have wf: "cg_wf img ?b" by (rule fs_ok_group [OF fs cg])
  have base: "unat (?l - ?l mod ?fpb) = ?base" by (rule extend_block_base [OF fpb])
  show ?thesis
  proof (cases "m = 0 \<or> ?fpb < m")
    case True
    then show ?thesis
      unfolding free_fragment_run_def Let_def if_P [OF True] wp_fail using start by blast
  next
    case guard: False
    then have m: "0 < ?m" by (simp add: unat_gt_0)
    have commit: "wp (sys_os time) ?E (\<lambda>now.
        wp (write_exact img (write_be32 b2 CG_TIME_OFF now) (unat (cg_size (sb img))) (cg_block_offset img ?cg)) ?E
        (\<lambda>_. wp (update_summary_counts img ?cg 0 (if whole then 1 else 0) 0
          (if whole then int ?m - int ?n else int ?m)) ?E ?Q)) t"
      if t: "sys_ok t" "disk t = disk s" and rel: "release_bits (unat ?l) ?m ?b = Some b1"
        and whole: "whole = block_is_free b1 CG_FREE_OFF ?base ?n"
        and b2: "\<And>i. counted i \<Longrightarrow> b2 i = release_counts ?n ?base ?m ?before b1 i"
      for t b1 b2 whole
    proof (rule wp_sys_time)
      fix now u assume "same_disk t u"
      with t have u: "sys_ok u" "disk u = disk s" by (simp_all add: same_disk_def)
      have wf1: "cg_wf img (release_counts ?n ?base ?m ?before b1)"
        by (rule cg_wf_released [OF geo wf refl refl block [unfolded cg_limit_def] m rel])
      have low: "b1 i = ?b i" if "i < 984" for i
        using release_bits_iff [OF rel] that by (simp add: CG_FREE_OFF_def)
      let ?d = "\<lambda>j. [0, if whole then 1 else 0, 0, if whole then int ?m - int ?n else int ?m] ! j"
      show "wp (write_exact img (write_be32 b2 CG_TIME_OFF now) (unat (cg_size (sb img))) (cg_block_offset img ?cg)) ?E
        (\<lambda>_. wp (update_summary_counts img ?cg 0 (if whole then 1 else 0) 0
          (if whole then int ?m - int ?n else int ?m)) ?E ?Q) u"
      proof (rule wp_commit_frags [OF geo fs cg u wf1, of ?d,
          simplified nth_Cons_0 nth_Cons_Suc numeral_2_eq_2 numeral_3_eq_3 One_nat_def], goal_cases)
        case (1 j)
        then show ?case
          using release_counters [OF n8 1, of b1 ?b ?base ?m ?before] low
          by (cases whole) (simp_all add: whole [symmetric])
      next
        case (4 v)
        have "frags_released img ?cg (unat ?l) ?m s v"
          using 4(3) release_bits_iff [OF rel]
          by (simp add: frags_released_def release_counts_map [OF n8])
        with 4 show ?case by simp
      qed (simp_all add: time_counted b2)
    qed
    show ?thesis
      unfolding free_fragment_run_def Let_def if_not_P [OF guard] if_not_P [OF fpg] wp_andthen
    proof (rule wp_load_group [OF fs_okD [OF fs]], goal_cases)
      case (1 e t)
      then show ?case by (simp add: meta_only_refl)
    next
      case (2 t)
      have err: "?E e t" for e using 2 by (simp add: meta_only_refl)
      have n8': "\<not> 8 < ?fpb" using n8 by (simp add: word_less_nat_alt)
      let ?c = "\<lambda>b1. release_counts ?n ?base ?m ?before b1"
      let ?whole = "\<lambda>b1. block_is_free b1 CG_FREE_OFF ?base ?n"
      have tail: "wp (case (if ?whole b1 then adjust_rotation img ?base 1 1 (?c b1) else Some (?c b1)) of
          None \<Rightarrow> fail UNDEF
        | Some buf \<Rightarrow> andthen (sys_os time) (\<lambda>now.
          andthen (write_exact img (write_be32 buf CG_TIME_OFF now) (unat (cg_size (sb img))) (cg_block_offset img ?cg))
          (\<lambda>_. update_summary_counts img ?cg 0 (if ?whole b1 then 1 else 0) 0
            (if ?whole b1 then int ?m - int ?n else int ?m)))) ?E ?Q t"
        if rel: "release_bits (unat ?l) ?m ?b = Some b1" for b1
      proof (cases "if ?whole b1 then adjust_rotation img ?base 1 1 (?c b1) else Some (?c b1)")
        case None
        then show ?thesis using err by (simp only: option.case wp_fail)
      next
        case (Some b2)
        then have "counted i \<Longrightarrow> b2 i = ?c b1 i" for i
          using adjust_rotation_counted [of img ?base 1 1 "?c b1" b2 i] by (auto split: if_splits)
        from commit [OF 2 rel refl this] show ?thesis
          by (simp only: Some option.case wp_andthen)
      qed
      show ?case
        unfolding base
      proof (cases "release_bits (unat ?l) ?m ?b", goal_cases)
        case 1
        then show ?case using err by (simp add: wp_simps)
      next
        case (2 b1)
        from tail [OF 2] err n8' show ?case
          by (cases "read_be32 ?b CG_MAGIC_OFF = CG_MAGIC")
            (simp_all only: 2 option.case if_True if_False not_True_eq_False simp_thms wp_fail)
      qed
    qed
  qed
qed

end
