(* ===== verification/Live.thy ===== *)
theory Live
  imports AllocOk
begin

text \<open>
  On a host whose calls transfer everything they are asked to, over a raw writable image that
  covers the addresses in use, the operations go through: this theory shows that the allocator
  succeeds exactly where the maps say there is something to allocate.
\<close>

definition calm :: "nat \<Rightarrow> sys \<Rightarrow> bool" where
  "calm N s \<longleftrightarrow> (\<exists>f. fst s = RawBackend f \<and> N \<le> fsize f) \<and> (\<forall>k. events (snd s) k = OsFull)"

lemma calm_sys_ok: "calm N s \<Longrightarrow> sys_ok s"
  by (auto simp: calm_def sys_ok_def)

lemma read_exact_fd_full:
  assumes "\<forall>k. events s k = OsFull" "0 \<le> off" "nat off + n \<le> fsize f"
  shows "\<exists>b t. read_exact_fd f n off s = (Inr b, t) \<and> events t = events s"
proof (cases "n = 0")
  case True
  then show ?thesis by (simp add: read_exact_fd_def read_loop.simps)
next
  case False
  have "min n (fsize f - nat off) = n" using assms(3) by simp
  with False assms show ?thesis
    by (simp add: read_exact_fd_def read_loop.simps pread_def tick_def)
qed

lemma write_exact_fd_full:
  assumes "\<forall>k. events s k = OsFull" "0 \<le> off"
  shows "\<exists>g t. write_exact_fd d n off (f, s) = (Inr (), (g, t)) \<and> events t = events s \<and> fsize f \<le> fsize g"
proof (cases "n = 0")
  case True
  then show ?thesis by (simp add: write_exact_fd_def write_loop.simps)
next
  case False
  with assms show ?thesis
    by (simp add: write_exact_fd_def write_loop.simps pwrite_def tick_def)
qed

lemma wp_read_calm:
  assumes "calm N s" "0 \<le> off" "nat off + n \<le> N"
    "\<And>t. calm N t \<Longrightarrow> disk t = disk s \<Longrightarrow> Q (clip n (\<lambda>i. disk s (nat off + i))) t"
  shows "wp (read_exact n off) E Q s"
proof -
  from assms(1) obtain f os where s: "s = (RawBackend f, os)" "N \<le> fsize f" "\<forall>k. events os k = OsFull"
    unfolding calm_def by (cases s) auto
  from read_exact_fd_full [OF s(3) assms(2), of n f] assms(3) s(2) obtain b t where
    run: "read_exact n off s = (Inr b, (RawBackend f, t))" and ev: "events t = events os"
    by (auto simp: read_exact_def sys_read_def s(1))
  have "calm N (RawBackend f, t)" using s(2,3) ev by (simp add: calm_def)
  moreover have "b = clip n (\<lambda>i. disk s (nat off + i))" "disk (RawBackend f, t) = disk s"
    using img.rd_value [OF calm_sys_ok [OF assms(1)] run] by (simp_all add: disk_def s(1))
  ultimately show ?thesis using assms(4) run by (simp add: wp_def)
qed

lemma wp_write_calm:
  assumes "calm N s" "writable img" "0 \<le> off"
    "\<And>t. calm N t \<Longrightarrow> disk t = blit (disk s) (nat off) n d \<Longrightarrow> Q () t"
  shows "wp (write_exact img d n off) E Q s"
proof -
  from assms(1) obtain f os where s: "s = (RawBackend f, os)" "N \<le> fsize f" "\<forall>k. events os k = OsFull"
    unfolding calm_def by (cases s) auto
  from write_exact_fd_full [OF s(3) assms(3), of d n f] s(2) obtain g t where
    run: "write_exact img d n off s = (Inr (), (RawBackend g, t))" and ev: "events t = events os" "fsize f \<le> fsize g"
    by (auto simp: write_exact_def s(1) assms(2))
  have "calm N (RawBackend g, t)" using s(2,3) ev by (simp add: calm_def)
  with img.wr_value [OF calm_sys_ok [OF assms(1)] run] assms(4) run show ?thesis by (simp add: wp_def)
qed

lemma wp_malloc_calm:
  assumes "calm N s" "\<And>t. calm N t \<Longrightarrow> disk t = disk s \<Longrightarrow> Q () t"
  shows "wp (sys_os malloc) E Q s"
  using assms by (cases s) (auto simp: wp_sys_os wp_def malloc_def calm_def disk_def tick_def)

lemma wp_time_calm:
  assumes "calm N s" "\<And>now t. calm N t \<Longrightarrow> disk t = disk s \<Longrightarrow> Q now t"
  shows "wp (sys_os time) E Q s"
  using assms by (cases s) (auto simp: wp_sys_os wp_def time_def calm_def disk_def tick_def)

lemma wp_fsync_calm:
  assumes "calm N s" "\<And>t. calm N t \<Longrightarrow> disk t = disk s \<Longrightarrow> Q () t"
  shows "wp (image_fsync img) E Q s"
  using assms by (cases s) (auto simp: image_fsync_def wp_sys_os wp_def fsync_def sys_os_def calm_def disk_def tick_def
    split: backend.splits)

text \<open>All metadata addresses lie inside the first \<open>N\<close> bytes.\<close>

definition reach :: "nextufs_image \<Rightarrow> nat \<Rightarrow> bool" where
  "reach img N \<longleftrightarrow> writable img \<and> 0 \<le> slice_base img \<and> sb_addr img + 2048 \<le> N \<and>
     (\<forall>c < unat (cg_count (sb img)). 0 \<le> cg_block_offset img (of_nat c) \<and>
        cg_addr img (of_nat c) + cg_bytes img \<le> N \<and> cs_addr img (of_nat c) + 16 \<le> N)"

lemma reachD:
  assumes "reach img N" "unat cg < unat (cg_count (sb img))"
  shows "writable img" "0 \<le> slice_base img" "sb_addr img + 2048 \<le> N" "0 \<le> cg_block_offset img cg"
    "cg_addr img cg + cg_bytes img \<le> N" "cs_addr img cg + 16 \<le> N"
proof -
  have "of_nat (unat cg) = cg" by simp
  with assms show "writable img" "0 \<le> slice_base img" "sb_addr img + 2048 \<le> N" "0 \<le> cg_block_offset img cg"
    "cg_addr img cg + cg_bytes img \<le> N" "cs_addr img cg + 16 \<le> N"
    unfolding reach_def by metis+
qed

lemma wp_update_summary_calm:
  assumes "calm N s" "reach img N" "unat cg < unat (cg_count (sb img))" "\<And>t. calm N t \<Longrightarrow> Q () t"
  shows "wp (update_summary_counts img cg d0 d1 d2 d3) E Q s"
proof -
  note r = reachD [OF assms(2,3)]
  have a: "0 \<le> slice_base img + 0x2000" "nat (slice_base img + 0x2000) + 2048 \<le> N"
    "0 \<le> slice_base img + int (unat (cyl_summary_addr (sb img)) * unat (frag_size (sb img))) + int (unat cg * 16)"
    "nat (slice_base img + int (unat (cyl_summary_addr (sb img)) * unat (frag_size (sb img))) + int (unat cg * 16)) + 16 \<le> N"
    using r by (simp_all add: sb_addr_def cs_addr_def)
  show ?thesis
    unfolding update_summary_counts_def Let_def wp_andthen
    by (intro wp_read_calm [OF assms(1) a(1,2)] wp_time_calm wp_write_calm [OF _ r(1) a(1)]
      wp_read_calm [OF _ a(3,4)] wp_write_calm [OF _ r(1) a(3)] assms(4))
qed

lemma wp_load_group_calm:
  assumes "calm N s" "reach img N" "unat cg < unat (cg_count (sb img))"
    "\<And>t. calm N t \<Longrightarrow> disk t = disk s \<Longrightarrow> wp (k (cg_view img cg s)) E Q t"
  shows "wp (sys_os malloc) E (\<lambda>_. wp (read_exact (unat (cg_size (sb img))) (cg_block_offset img cg)) E
    (\<lambda>b. wp (k b) E Q)) s"
proof (rule wp_malloc_calm [OF assms(1)])
  note r = reachD [OF assms(2,3)]
  fix t assume t: "calm N t" "disk t = disk s"
  show "wp (read_exact (unat (cg_size (sb img))) (cg_block_offset img cg)) E (\<lambda>b. wp (k b) E Q) t"
  proof (rule wp_read_calm [OF t(1) r(4)])
    show "nat (cg_block_offset img cg) + unat (cg_size (sb img)) \<le> N"
      using r(5) by (simp add: cg_addr_def cg_bytes_def)
  qed (use assms(4) t in \<open>simp add: view_def cg_addr_def cg_bytes_def\<close>)
qed

lemma wp_commit_calm:
  assumes "calm N s" "reach img N" "unat cg < unat (cg_count (sb img))" "\<And>t. calm N t \<Longrightarrow> Q () t"
  shows "wp (write_exact img b n (cg_block_offset img cg)) E
    (\<lambda>_. wp (update_summary_counts img cg d0 d1 d2 d3) E Q) s"
  using reachD [OF assms(2,3)]
  by (intro wp_write_calm [OF assms(1)] wp_update_summary_calm [OF _ assms(2,3)] assms(4))

section \<open>Exact counters\<close>

text \<open>A counter that is a sum of \<open>0\<close>s and \<open>1\<close>s over fewer than \<open>2^32\<close> items is 0 only if all are 0.\<close>

lemma sum_flags_zero:
  fixes P :: "nat \<Rightarrow> bool"
  assumes "(\<Sum>i<n. if P i then 1 else 0 :: u32) = 0" "n < 4294967296" "k < n"
  shows "\<not> P k"
proof
  assume "P k"
  have "(\<Sum>i<n. if P i then 1 else 0 :: u32) = of_nat (card {i. i < n \<and> P i})"
  proof -
    have "(\<Sum>i<n. if P i then 1 else 0 :: u32) = (\<Sum>i\<in>{i. i < n \<and> P i}. 1)"
      by (rule sum.mono_neutral_cong_right) auto
    then show ?thesis by simp
  qed
  moreover have "card {i. i < n \<and> P i} \<le> n" using card_mono [of "{..<n}" "{i. i < n \<and> P i}"] by auto
  ultimately have "card {i. i < n \<and> P i} = 0"
    using assms(1,2) unat_of_nat32 [of "card {i. i < n \<and> P i}"] by simp
  moreover have "finite {i. i < n \<and> P i}" by simp
  ultimately show False using \<open>P k\<close> assms(3) by auto
qed

lemma find_full_None:
  assumes "find_full b n limit (c * n) = None" "c \<le> q" "q * n + n \<le> limit" "0 < n"
  shows "\<not> blk_full (free_map b) n q"
  using assms
proof (induction "limit - c * n" arbitrary: c rule: less_induct)
  case less
  have "c * n \<le> q * n" using less.prems(2) by simp
  then have le: "c * n + n \<le> limit" using less.prems(3) by linarith
  have no: "\<not> block_is_free b CG_FREE_OFF (c * n) n" and rest: "find_full b n limit (Suc c * n) = None"
    using less.prems(1,4) le find_full.simps [of b n limit "c * n"] by (auto simp: add.commute split: if_splits)
  show ?case
  proof (cases "c = q")
    case True
    with no show ?thesis by (simp add: block_is_free_map)
  next
    case False
    with less.prems(2) have "Suc c \<le> q" by simp
    with less.hyps [OF _ rest] less.prems le show ?thesis by auto
  qed
qed

section \<open>The allocator finds what there is\<close>

lemma wp_allocate_inode_live:
  assumes geo: "geometry_ok img" and fs: "fs_ok img s" and cg: "unat cg < unat (cg_count (sb img))"
    and calm: "calm N s" and reach: "reach img N"
    and k: "k < unat (inodes_per_group (sb img))" "\<not> inode_used (cg_view img cg s) k"
  shows "wp (allocate_inode_in_group img cg md) (\<lambda>_ _. False) (\<lambda>_. calm N) s"
  unfolding allocate_inode_in_group_def Let_def wp_andthen
proof (rule wp_load_group_calm [OF calm reach cg])
  fix t assume t: "calm N t" "disk t = disk s"
  let ?b = "cg_view img cg s" and ?ipg = "inodes_per_group (sb img)"
  let ?start = "if ?ipg \<le> read_be32 ?b CG_IROTOR_OFF then 0 else read_be32 ?b CG_IROTOR_OFF"
  note wf = fs_ok_group [OF fs cg, unfolded cg_wf_def Let_def]
  have nz: "read_be32 ?b CG_CS_NIFREE_OFF \<noteq> 0"
  proof
    assume "read_be32 ?b CG_CS_NIFREE_OFF = 0"
    moreover have "(\<Sum>i<unat ?ipg. if inode_used ?b i then 0 else 1 :: u32) =
        (\<Sum>i<unat ?ipg. if \<not> inode_used ?b i then 1 else 0)" by (rule sum.cong) auto
    ultimately have "(\<Sum>i<unat ?ipg. if \<not> inode_used ?b i then 1 else 0 :: u32) = 0"
      using wf by (simp add: inode_accounts_def)
    from sum_flags_zero [OF this unat_le_max32 k(1)] k(2) show False by simp
  qed
  have "?start < ?ipg" using geometry_simps(7) [OF geo] by (auto simp: word_less_nat_alt not_le)
  then obtain idx where idx: "find_inode ?b ?ipg ?start 0 = Some idx"
    using find_inode_exhausted [of ?b ?ipg ?start k] geometry_simps(8) [OF geo] k by fastforce
  have magic: "read_be32 ?b CG_MAGIC_OFF = CG_MAGIC" using wf by simp
  show "wp (if read_be32 ?b CG_MAGIC_OFF \<noteq> CG_MAGIC then fail EINVAL
     else if read_be32 ?b CG_CS_NIFREE_OFF = 0 then fail ENOSPC
     else case find_inode ?b ?ipg ?start 0 of
       None \<Rightarrow> fail ENOSPC
     | Some ipref \<Rightarrow> andthen (sys_os time) (\<lambda>now.
         andthen (write_exact img (take_inode md ipref now ?b) (unat (cg_size (sb img))) (cg_block_offset img cg)) (\<lambda>_.
         andthen (update_summary_counts img cg (if is_dir_mode md then 1 else 0) 0 (- 1) 0) (\<lambda>_.
         ret (cg * ?ipg + ipref))))) (\<lambda>_ _. False) (\<lambda>_. calm N) t"
    unfolding idx using magic nz
    by (auto simp: wp_andthen wp_ret intro!: wp_time_calm [OF t(1)] wp_commit_calm [OF _ reach cg])
qed

lemma wp_allocate_frags_live:
  assumes geo: "geometry_ok img" and fs: "fs_ok img s" and cg: "unat cg < unat (cg_count (sb img))"
    and calm: "calm N s" and reach: "reach img N"
    and need: "need \<noteq> 0" "need \<le> frags_per_block (sb img)"
    and count: "unat cg * unat (frags_per_group (sb img)) + cg_limit img cg s \<le> unat (frag_count (sb img))"
    and q: "q * unat (frags_per_block (sb img)) + unat (frags_per_block (sb img)) \<le> cg_limit img cg s"
      "blk_full (free_map (cg_view img cg s)) (unat (frags_per_block (sb img))) q"
  shows "wp (allocate_frags_in_group img cg need) (\<lambda>_ _. False) (\<lambda>_. calm N) s"
proof -
  have guard: "\<not> (need = 0 \<or> frags_per_block (sb img) < need)" using need by (simp add: not_less)
  let ?b = "cg_view img cg s" and ?n = "unat (frags_per_block (sb img))"
  let ?limit = "read_be32 ?b CG_NDBLK_OFF"
  note g = geometry_simps [OF geo]
  note wf = fs_ok_group [OF fs cg, unfolded cg_wf_def Let_def]
  have lim: "unat ?limit \<le> unat (frags_per_group (sb img))" using wf by blast
  have l7: "unat (?limit + 7) = unat ?limit + 7"
    by (intro unat_add_lem [THEN iffD1, THEN trans]) (use lim g(5) in simp_all)
  have valid: "\<not> limit_invalid img cg ?limit"
  proof -
    have "unat ((?limit + 7) div 8) = (unat ?limit + 7) div 8" by (simp add: unat_div l7)
    moreover have "unat (of_nat CG_FREE_OFF + (?limit + 7) div 8 :: u32) =
        984 + unat ((?limit + 7) div 8)"
      by (subst unat_add_lem [THEN iffD1]) (use lim g(5) calculation in \<open>simp_all add: CG_FREE_OFF_def\<close>)
    moreover have "(unat ?limit + 7) div 8 \<le> (unat (frags_per_group (sb img)) + 7) div 8"
      using lim by (intro div_le_mono) simp
    ultimately show ?thesis
      using lim count g(6) by (simp add: limit_invalid_def word_less_nat_alt cg_limit_def cg_bytes_def)
  qed
  have small: "\<not> 2 ^ 32 \<le> unat ?limit + ?n" using lim g(2,5) by simp
  have nblk: "nblk ?n (unat ?limit) < 4294967296" "q < nblk ?n (unat ?limit)"
  proof -
    have "nblk ?n (unat ?limit) \<le> nblk ?n (unat ?limit) * ?n" using g(1) by simp
    also have "\<dots> \<le> unat (frags_per_group (sb img))" by (rule nblk_mult_le [OF g(4) lim g(1)])
    finally show "nblk ?n (unat ?limit) < 4294967296" using g(5) by simp
    have "Suc q * ?n \<le> unat ?limit + ?n - 1" using q(1) g(1) by (simp add: cg_limit_def)
    then have "Suc q \<le> (unat ?limit + ?n - 1) div ?n" using g(1) by (simp add: less_eq_div_iff_mult_less_eq)
    then show "q < nblk ?n (unat ?limit)" by (simp add: nblk_def)
  qed
  have nz: "read_be32 ?b CG_CS_NBFREE_OFF \<noteq> 0"
    using sum_flags_zero [OF _ nblk] q(2) wf by (auto simp: cg_accounts_def)
  obtain p where p: "find_full ?b ?n (unat ?limit) 0 = Some p"
    using find_full_None [of ?b ?n "unat ?limit" 0 q] q g(1) by (fastforce simp: cg_limit_def)
  have magic: "read_be32 ?b CG_MAGIC_OFF = CG_MAGIC" using wf by blast
  have full: "wp (alloc_from_full img cg need ?b p) (\<lambda>_ _. False) (\<lambda>_. calm N) t" if "calm N t" for t
  proof -
    have some: False if "adjust_rotation img p (- 1) (- 1) b = None" for b
      using that g(9,10) by (simp add: adjust_rotation_def Let_def)
    show ?thesis
      unfolding alloc_from_full_def Let_def wp_andthen
      by (intro wp_time_calm [OF that]) (auto simp: wp_andthen wp_ret split: option.split
        intro!: wp_commit_calm [OF _ reach cg] dest: some)
  qed
  have partial: "wp (alloc_from_partial img cg need ?b base p) (\<lambda>_ _. False) (\<lambda>_. calm N) t"
    if "calm N t" for base p t
    unfolding alloc_from_partial_def Let_def using g(2)
    by (auto simp: wp_andthen wp_ret intro!: wp_time_calm [OF that] wp_commit_calm [OF _ reach cg])
  show ?thesis
    unfolding allocate_frags_in_group_def Let_def if_not_P [OF guard] wp_andthen
  proof (rule wp_load_group_calm [OF calm reach cg], goal_cases)
    case (1 t)
    show ?case
      using magic valid small nz p partial [OF 1(1)] full [OF 1(1)] by (auto split: option.split prod.split)
  qed
qed


section \<open>Releasing goes through\<close>

lemma wp_free_inode_live:
  assumes geo: "geometry_ok img" and fs: "fs_ok img s"
    and cg: "unat (ino div inodes_per_group (sb img)) < unat (cg_count (sb img))"
    and calm: "calm N s" and reach: "reach img N"
    and used: "inode_used (cg_view img (ino div inodes_per_group (sb img)) s)
      (unat (ino mod inodes_per_group (sb img)))"
  shows "wp (free_inode_in_group img ino md) (\<lambda>_ _. False) (\<lambda>_. calm N) s"
proof -
  have ipg: "inodes_per_group (sb img) \<noteq> 0" using geometry_simps(7) [OF geo] by auto
  have magic: "read_be32 (cg_view img (ino div inodes_per_group (sb img)) s) CG_MAGIC_OFF = CG_MAGIC"
    using fs_ok_group [OF fs cg] by (simp add: cg_wf_def Let_def)
  show ?thesis
    unfolding free_inode_in_group_def Let_def if_not_P [OF ipg] wp_andthen
  proof (rule wp_load_group_calm [OF calm reach cg], goal_cases)
    case (1 t)
    then show ?case
      using magic used
      by (auto simp: wp_andthen intro!: wp_time_calm [OF 1(1)] wp_commit_calm [OF _ reach cg])
  qed
qed

lemma wp_free_frags_live:
  assumes geo: "geometry_ok img" and fs: "fs_ok img s"
    and cg: "unat (frag div frags_per_group (sb img)) < unat (cg_count (sb img))"
    and calm: "calm N s" and reach: "reach img N"
    and m: "m \<noteq> 0" "m \<le> frags_per_block (sb img)"
    and taken: "\<forall>i<unat m. \<not> free_map (cg_view img (frag div frags_per_group (sb img)) s)
      (unat (frag mod frags_per_group (sb img)) + i)"
  shows "wp (free_fragment_run img frag m) (\<lambda>_ _. False) (\<lambda>_. calm N) s"
proof -
  let ?fpb = "frags_per_block (sb img)" and ?fpg = "frags_per_group (sb img)"
  let ?cg = "frag div ?fpg" and ?l = "frag mod ?fpg"
  note g = geometry_simps [OF geo]
  have guard: "\<not> (m = 0 \<or> ?fpb < m)" using m by (simp add: not_less)
  have fpg: "?fpg \<noteq> 0" using g(3) by auto
  have n8: "\<not> 8 < ?fpb" using g(2) by (simp add: word_less_nat_alt)
  have magic: "read_be32 (cg_view img ?cg s) CG_MAGIC_OFF = CG_MAGIC"
    using fs_ok_group [OF fs cg] by (simp add: cg_wf_def Let_def)
  obtain b1 where rel: "release_bits (unat ?l) (unat m) (cg_view img ?cg s) = Some b1"
    using release_bits_total taken by blast
  have some: "adjust_rotation img p d e b \<noteq> None" for p d e b
    using g(9,10) by (simp add: adjust_rotation_def Let_def)
  have tail: "wp (case q of None \<Rightarrow> fail UNDEF
      | Some buf \<Rightarrow> andthen (sys_os time) (\<lambda>now.
        andthen (write_exact img (write_be32 buf CG_TIME_OFF now) (unat (cg_size (sb img))) (cg_block_offset img ?cg))
        (\<lambda>_. update_summary_counts img ?cg d0 d1 d2 d3))) (\<lambda>_ _. False) (\<lambda>_. calm N) t"
    if t: "calm N t" and q: "q \<noteq> None" for q d0 d1 d2 d3 t
    using q by (auto simp: wp_andthen intro!: wp_time_calm [OF t] wp_commit_calm [OF _ reach cg])
  show ?thesis
    unfolding free_fragment_run_def Let_def if_not_P [OF guard] if_not_P [OF fpg] wp_andthen
  proof (rule wp_load_group_calm [OF calm reach cg], goal_cases)
    case (1 t)
    show ?case
      unfolding magic rel if_not_P [OF n8] option.case simp_thms not_True_eq_False if_False
      by (rule tail [OF 1(1)]) (use some in auto)
  qed
qed

lemma wp_extend_live:
  assumes geo: "geometry_ok img" and fs: "fs_ok img s"
    and cg: "unat (frag div frags_per_group (sb img)) < unat (cg_count (sb img))"
    and calm: "calm N s" and reach: "reach img N"
    and new: "old < new" "new \<le> frags_per_block (sb img)"
      "(frag mod frags_per_group (sb img)) mod frags_per_block (sb img) + new \<le> frags_per_block (sb img)"
    and free: "\<forall>i<unat (new - old). free_map (cg_view img (frag div frags_per_group (sb img)) s)
      (unat (frag mod frags_per_group (sb img)) + unat old + i)"
  shows "wp (extend_fragment_run img frag old new) (\<lambda>_ _. False) (\<lambda>_. calm N) s"
proof -
  let ?fpb = "frags_per_block (sb img)" and ?fpg = "frags_per_group (sb img)"
  note g = geometry_simps [OF geo]
  have guard: "\<not> (new \<le> old \<or> ?fpb < new)" "\<not> ?fpb < frag mod ?fpg mod ?fpb + new"
    using new by (simp_all add: not_less not_le)
  have fpg: "?fpg \<noteq> 0" using g(3) by auto
  have n8: "\<not> 8 < ?fpb" using g(2) by (simp add: word_less_nat_alt)
  have magic: "read_be32 (cg_view img (frag div ?fpg) s) CG_MAGIC_OFF = CG_MAGIC"
    using fs_ok_group [OF fs cg] by (simp add: cg_wf_def Let_def)
  show ?thesis
    unfolding extend_fragment_run_def Let_def if_not_P [OF guard(1)] if_not_P [OF fpg]
      if_not_P [OF guard(2)] wp_andthen
  proof (rule wp_load_group_calm [OF calm reach cg], goal_cases)
    case (1 t)
    show ?case
      using magic n8 free
      by (auto simp: wp_andthen set_run_bits_iff free_map_def [symmetric]
        intro!: wp_time_calm [OF 1(1)] wp_commit_calm [OF _ reach cg])
  qed
qed

section \<open>Releasing twice is refused\<close>

lemma wp_free_frags_twice:
  assumes ok: "sys_ok s" and i: "i < unat m"
    "free_map (cg_view img (frag div frags_per_group (sb img)) s)
      (unat (frag mod frags_per_group (sb img)) + i)"
  shows "wp (free_fragment_run img frag m) (\<lambda>_ t. disk t = disk s) (\<lambda>_ _. False) s"
proof -
  let ?fpg = "frags_per_group (sb img)"
  have none: "release_bits (unat (frag mod ?fpg)) (unat m) (cg_view img (frag div ?fpg) s) = None"
    using i by (auto simp: release_bits_None)
  show ?thesis
  proof (cases "(m = 0 \<or> frags_per_block (sb img) < m) \<or> ?fpg = 0")
    case True
    then show ?thesis by (auto simp: free_fragment_run_def Let_def wp_fail)
  next
    case False
    then have c: "\<not> (m = 0 \<or> frags_per_block (sb img) < m)" "?fpg \<noteq> 0" by auto
    show ?thesis
      unfolding free_fragment_run_def Let_def if_not_P [OF c(1)] if_not_P [OF c(2)] wp_andthen
    proof (rule wp_load_group [OF ok], goal_cases)
      case (2 t)
      then show ?case by (simp add: wp_simps none)
    qed
  qed
qed

lemma wp_free_inode_twice:
  assumes ok: "sys_ok s"
    and free: "\<not> inode_used (cg_view img (ino div inodes_per_group (sb img)) s)
      (unat (ino mod inodes_per_group (sb img)))"
  shows "wp (free_inode_in_group img ino md) (\<lambda>_ t. disk t = disk s) (\<lambda>_ _. False) s"
proof (cases "inodes_per_group (sb img) = 0")
  case True
  then show ?thesis by (simp add: free_inode_in_group_def Let_def wp_fail)
next
  case False
  show ?thesis
    unfolding free_inode_in_group_def Let_def if_not_P [OF False] wp_andthen
  proof (rule wp_load_group [OF ok], goal_cases)
    case (2 t)
    then show ?case by (simp add: wp_simps free)
  qed
qed

end
