(* ===== verification/Tiny.thy ===== *)
theory Tiny
  imports Live
begin

text \<open>
  A concrete file system, small enough to evaluate the model on: one cylinder group with one
  block of two fragments and two inodes, all free, in a raw file, on a host whose calls succeed.
\<close>

definition tiny_sb :: nextufs_superblock where
  "tiny_sb = (decode_superblock (\<lambda>_. 0))\<lparr>cg_off := 12, ino_off := 20, frag_count := 2,
     cg_count := 1, block_size := 2048, frag_size := 1024, frags_per_block := 2,
     sectors_per_frag := 2, inodes_per_block := 16, cyl_summary_addr := 16, cg_size := 985,
     sectors_per_track := 4, sectors_per_cyl := 4, inodes_per_group := 2, frags_per_group := 2,
     frag_shift := 1, fs_magic := UFS_FS_MAGIC\<rparr>"

definition tiny_image :: nextufs_image where
  "tiny_image = \<lparr>writable = True, source_is_container = False, image_size = 32768, slice_base = 0,
     slice_size = 32768, label_off = 0, label_version = 0, label_secsize = 0, label_front = 0,
     label_name = [], rootpartition = 0, used_disk_label = False, sb = tiny_sb\<rparr>"

definition tiny_disk :: buf where
  "tiny_disk = (let d = (\<lambda>_. 0);
     d = write_be32 d 8388 1; d = write_be32 d 8392 2;
     d = write_be32 d 16388 1; d = write_be32 d 16392 2;
     d = write_be32 d 12308 2; d = write_be32 d 12316 1; d = write_be32 d 12320 2;
     d = write_be32 d 13268 CG_MAGIC in d(13272 := 3))"

definition tiny_os :: os where
  "tiny_os = \<lparr>events = \<lambda>_. OsFull, clock = \<lambda>_. 7, ticks = 0\<rparr>"

definition tiny_state :: sys where
  "tiny_state = (RawBackend \<lparr>fsize = 32768, fbytes = tiny_disk\<rparr>, tiny_os)"


lemma tiny_fields [simp]:
  "cg_off tiny_sb = 12" "ino_off tiny_sb = 20" "frag_count tiny_sb = 2" "cg_count tiny_sb = 1"
  "block_size tiny_sb = 2048" "frag_size tiny_sb = 1024" "frags_per_block tiny_sb = 2"
  "sectors_per_frag tiny_sb = 2" "inodes_per_block tiny_sb = 16" "cyl_summary_addr tiny_sb = 16"
  "cg_size tiny_sb = 985" "sectors_per_track tiny_sb = 4" "sectors_per_cyl tiny_sb = 4"
  "inodes_per_group tiny_sb = 2" "frags_per_group tiny_sb = 2" "frag_shift tiny_sb = 1"
  "cg_delta tiny_sb = 0" "cg_cyc_mask tiny_sb = 0"
  "sb tiny_image = tiny_sb" "slice_base tiny_image = 0" "writable tiny_image = True"
  by (simp_all add: tiny_sb_def tiny_image_def decode_superblock_def)

lemma tiny_addrs [simp]:
  "sb_addr tiny_image = 8192" "cs_addr tiny_image 0 = 16384" "cg_addr tiny_image 0 = 12288"
  "cg_block_offset tiny_image 0 = 12288" "cg_bytes tiny_image = 985"
  by (simp_all add: sb_addr_def cs_addr_def cg_addr_def cg_block_offset_def cgstart_def cg_bytes_def)

lemma tiny_geometry: "geometry_ok tiny_image"
  by (simp add: geometry_ok_def Let_def apart_def)

lemma tiny_calm: "calm 32768 tiny_state"
  by (simp add: calm_def tiny_state_def tiny_os_def)

lemma tiny_reach: "reach tiny_image 32768"
  by (simp add: reach_def)

lemma read_be32_view: "p + 4 \<le> n \<Longrightarrow> read_be32 (view s a n) p = read_be32 (disk s) (a + p)"
  by (simp add: view_def cell_simps read_be32_shift)

lemma tiny_disk_view: "disk tiny_state = clip 32768 tiny_disk"
  by (simp add: disk_def tiny_state_def file_byte_def)

lemma tiny_words [simp]:
  "read_be32 (view tiny_state 8192 2048) 192 = 0" "read_be32 (view tiny_state 8192 2048) 196 = 1"
  "read_be32 (view tiny_state 8192 2048) 200 = 2" "read_be32 (view tiny_state 8192 2048) 204 = 0"
  "read_be32 (view tiny_state 16384 16) 0 = 0" "read_be32 (view tiny_state 16384 16) 4 = 1"
  "read_be32 (view tiny_state 16384 16) 8 = 2" "read_be32 (view tiny_state 16384 16) 12 = 0"
  "read_be32 (view tiny_state 12288 985) 20 = 2" "read_be32 (view tiny_state 12288 985) 24 = 0"
  "read_be32 (view tiny_state 12288 985) 28 = 1" "read_be32 (view tiny_state 12288 985) 32 = 2"
  "read_be32 (view tiny_state 12288 985) 36 = 0" "read_be32 (view tiny_state 12288 985) 56 = 0"
  "read_be32 (view tiny_state 12288 985) 980 = CG_MAGIC"
  by (simp_all add: read_be32_view tiny_disk_view cell_simps)
    (simp_all add: tiny_disk_def Let_def cell_simps)

lemma tiny_bits [simp]:
  "free_map (view tiny_state 12288 985) 0" "free_map (view tiny_state 12288 985) (Suc 0)"
  "\<not> inode_used (view tiny_state 12288 985) 0" "\<not> inode_used (view tiny_state 12288 985) (Suc 0)"
  by (simp_all add: free_map_def inode_used_def free_bit_def test_bit8_def view_def tiny_disk_view
    CG_FREE_OFF_def CG_IUSED_OFF_def tiny_disk_def Let_def cell_simps)

lemma lessThan_2: "{..<2 :: nat} = {0, Suc 0}"
  by auto

lemma all_less_2: "(\<forall>i<2. P i) \<longleftrightarrow> P 0 \<and> P (Suc 0)"
  by (auto simp: less_2_cases_iff)

lemma tiny_cg_wf: "cg_wf tiny_image (view tiny_state 12288 985)"
proof -
  let ?b = "view tiny_state 12288 985"
  have full: "blk_full (free_map ?b) 2 0" by (simp add: blk_full_def all_less_2)
  have "cg_accounts 2 1 ?b"
  proof -
    have "blk_runs (free_map ?b) 2 0 k = 0" if "k < 2" for k
      unfolding blk_runs_def using full that by (intro runs_full) (simp_all add: blk_full_def)
    moreover have "read_be32 ?b (frsum_off k) = 0" if "1 \<le> k \<and> k < 2" for k
      using that by (cases "k = 1") (auto simp: frsum_off_def)
    ultimately show ?thesis using full by (simp add: cg_accounts_def cg_offsets blk_frags_def)
  qed
  then show ?thesis
    by (auto simp: cg_wf_def Let_def cg_offsets nblk_def inode_accounts_def lessThan_2)
qed

lemma tiny_fs_ok: "fs_ok tiny_image tiny_state"
proof -
  have "totals tiny_image tiny_state"
    unfolding totals_def less_4 by (auto simp: SB_NDIR_OFF_def)
  moreover have "in_step tiny_image 0 tiny_state"
    unfolding in_step_def less_4 by (auto simp: cg_offsets)
  ultimately show ?thesis
    using tiny_cg_wf calm_sys_ok [OF tiny_calm] by (simp add: fs_ok_def)
qed

text \<open>The same file system with the first fragment and the first inode in use.\<close>

definition used_disk :: buf where
  "used_disk = (let d = (\<lambda>_. 0);
     d = write_be32 d 8392 1; d = write_be32 d 8396 1;
     d = write_be32 d 16392 1; d = write_be32 d 16396 1;
     d = write_be32 d 12308 2; d = write_be32 d 12320 1; d = write_be32 d 12324 1;
     d = write_be32 d 12344 1;
     d = write_be32 d 13268 CG_MAGIC in d(13012 := 1, 13272 := 2))"

definition used_state :: sys where
  "used_state = (RawBackend \<lparr>fsize = 32768, fbytes = used_disk\<rparr>, tiny_os)"

lemma used_calm: "calm 32768 used_state"
  by (simp add: calm_def used_state_def tiny_os_def)

lemma used_disk_view: "disk used_state = clip 32768 used_disk"
  by (simp add: disk_def used_state_def file_byte_def)

lemma used_words [simp]:
  "read_be32 (view used_state 8192 2048) 192 = 0" "read_be32 (view used_state 8192 2048) 196 = 0"
  "read_be32 (view used_state 8192 2048) 200 = 1" "read_be32 (view used_state 8192 2048) 204 = 1"
  "read_be32 (view used_state 16384 16) 0 = 0" "read_be32 (view used_state 16384 16) 4 = 0"
  "read_be32 (view used_state 16384 16) 8 = 1" "read_be32 (view used_state 16384 16) 12 = 1"
  "read_be32 (view used_state 12288 985) 20 = 2" "read_be32 (view used_state 12288 985) 24 = 0"
  "read_be32 (view used_state 12288 985) 28 = 0" "read_be32 (view used_state 12288 985) 32 = 1"
  "read_be32 (view used_state 12288 985) 36 = 1" "read_be32 (view used_state 12288 985) 56 = 1"
  "read_be32 (view used_state 12288 985) 980 = CG_MAGIC"
  by (simp_all add: read_be32_view used_disk_view cell_simps)
    (simp_all add: used_disk_def Let_def cell_simps)

lemma used_bits [simp]:
  "\<not> free_map (view used_state 12288 985) 0" "free_map (view used_state 12288 985) (Suc 0)"
  "inode_used (view used_state 12288 985) 0" "\<not> inode_used (view used_state 12288 985) (Suc 0)"
  by (simp_all add: free_map_def inode_used_def free_bit_def test_bit8_def view_def used_disk_view
    CG_FREE_OFF_def CG_IUSED_OFF_def used_disk_def Let_def cell_simps)

lemma used_cg_wf: "cg_wf tiny_image (view used_state 12288 985)"
proof -
  let ?b = "view used_state 12288 985"
  have full: "\<not> blk_full (free_map ?b) 2 0" by (simp add: blk_full_def all_less_2)
  have "{i. i < 2 \<and> free_map ?b i} = {Suc 0}" by (auto simp: less_2_cases_iff)
  then have frags: "blk_frags (free_map ?b) 2 0 = 1" using full by (simp add: blk_frags_def)
  have "blk_runs (free_map ?b) 2 0 k = (if 0 < k \<and> k = 2 - 1 then 1 else 0)" for k
    unfolding blk_runs_def by (rule runs_tail) (auto simp: less_2_cases_iff)
  moreover have "(1 \<le> k \<and> k < 2) = (k = Suc 0)" for k :: nat by auto
  ultimately have "cg_accounts 2 1 ?b"
    using full frags by (simp add: cg_accounts_def cg_offsets frsum_off_def)
  then show ?thesis
    by (auto simp: cg_wf_def Let_def cg_offsets nblk_def inode_accounts_def lessThan_2)
qed

lemma used_fs_ok: "fs_ok tiny_image used_state"
proof -
  have "totals tiny_image used_state"
    unfolding totals_def less_4 by (auto simp: SB_NDIR_OFF_def)
  moreover have "in_step tiny_image 0 used_state"
    unfolding in_step_def less_4 by (auto simp: cg_offsets)
  ultimately show ?thesis
    using used_cg_wf calm_sys_ok [OF used_calm] by (simp add: fs_ok_def)
qed

end
