(* ===== verification/AllocClaims.thy ===== *)
theory AllocClaims
  imports Tiny
begin

text \<open>
  What the allocator guarantees, operation by operation: the statements that the rest of the
  program relies on, each with a run on the concrete file systems of \<open>Tiny\<close>.
\<close>

section \<open>Keeping the accounts\<close>

text \<open>C3. A successful \<open>nextufs__allocate_frags_in_group\<close> on a consistent file system hands out a run
  of fragments that lies inside one block of the group and was free, marks exactly this run as
  taken, and leaves the whole file system consistent: the map of every group, the counters in the
  group, the summary entry and the superblock totals agree again.\<close>

theorem allocate_frags_keeps_accounts:
  assumes "geometry_ok img" "fs_ok img s" "unat cg < unat (cg_count (sb img))"
    and "allocate_frags_in_group img cg need s = (Inr frag, t)"
  shows "fs_ok img t \<and> (\<exists>p. frag = cg * frags_per_group (sb img) + of_nat p \<and>
    in_one_block img (cg_limit img cg s) p (unat need) \<and> frags_taken img cg p (unat need) s t)"
  using wp_Inr [OF wp_allocate_frags [OF assms(1-3)] assms(4)] by (auto simp: frag_post_def)

lemma tiny_frags_run: "\<exists>frag t. allocate_frags_in_group tiny_image 0 1 tiny_state = (Inr frag, t)"
proof -
  have "wp (allocate_frags_in_group tiny_image 0 1) (\<lambda>_ _. False) (\<lambda>_. calm 32768) tiny_state"
    by (rule wp_allocate_frags_live [OF tiny_geometry tiny_fs_ok _ tiny_calm tiny_reach, of _ _ 0])
      (simp_all add: cg_limit_def cg_offsets blk_full_def all_less_2)
  from wp_succeeds [OF this] show ?thesis by blast
qed

theorem allocate_frags_keeps_accounts_witness:
  "\<exists>frag t. allocate_frags_in_group tiny_image 0 1 tiny_state = (Inr frag, t) \<and> fs_ok tiny_image t"
proof -
  obtain frag t where run: "allocate_frags_in_group tiny_image 0 1 tiny_state = (Inr frag, t)"
    using tiny_frags_run by blast
  from allocate_frags_keeps_accounts [OF tiny_geometry tiny_fs_ok _ run] have "fs_ok tiny_image t"
    by simp
  with run show ?thesis by blast
qed

text \<open>C6. A successful \<open>nextufs__free_fragment_run\<close> of a run inside one block gives back exactly this
  run, all of which was in use, joins it with its free neighbours in the counts of free runs (or
  makes the block a free block), and leaves the file system consistent.\<close>

theorem free_fragment_run_keeps_accounts:
  assumes "geometry_ok img" "fs_ok img s" "unat (frag div frags_per_group (sb img)) < unat (cg_count (sb img))"
    and "in_one_block img (cg_limit img (frag div frags_per_group (sb img)) s)
      (unat (frag mod frags_per_group (sb img))) (unat m)"
    and "free_fragment_run img frag m s = (Inr u, t)"
  shows "fs_ok img t \<and> frags_released img (frag div frags_per_group (sb img))
    (unat (frag mod frags_per_group (sb img))) (unat m) s t"
  using wp_Inr [OF wp_free_frags [OF assms(1-4)] assms(5)] by blast

lemma used_free_run: "\<exists>t. free_fragment_run tiny_image 0 1 used_state = (Inr (), t)"
proof -
  have "wp (free_fragment_run tiny_image 0 1) (\<lambda>_ _. False) (\<lambda>_. calm 32768) used_state"
    by (rule wp_free_frags_live [OF tiny_geometry used_fs_ok _ used_calm tiny_reach]) simp_all
  from wp_succeeds_unit [OF this] show ?thesis by blast
qed

theorem free_fragment_run_keeps_accounts_witness:
  "\<exists>t. free_fragment_run tiny_image 0 1 used_state = (Inr (), t) \<and> fs_ok tiny_image t \<and>
    free_map (cg_view tiny_image 0 t) 0"
proof -
  obtain t where run: "free_fragment_run tiny_image 0 1 used_state = (Inr (), t)"
    using used_free_run by blast
  from free_fragment_run_keeps_accounts [OF tiny_geometry used_fs_ok _ _ run]
  have "fs_ok tiny_image t \<and> frags_released tiny_image 0 0 1 used_state t"
    by (simp add: in_one_block_def cg_limit_def cg_offsets)
  with run show ?thesis by (auto simp: frags_released_def)
qed

text \<open>C13. A successful \<open>nextufs__extend_fragment_run\<close> takes exactly the fragments behind the old run,
  which were free, does not move the run, and leaves the file system consistent.\<close>

theorem extend_fragment_run_keeps_accounts:
  assumes "geometry_ok img" "fs_ok img s" "unat (frag div frags_per_group (sb img)) < unat (cg_count (sb img))"
    and "unat (frag mod frags_per_group (sb img)) + unat new \<le> cg_limit img (frag div frags_per_group (sb img)) s"
    and "0 < old" "\<not> free_map (cg_view img (frag div frags_per_group (sb img)) s) (unat (frag mod frags_per_group (sb img)))"
    and "extend_fragment_run img frag old new s = (Inr u, t)"
  shows "fs_ok img t \<and> frags_taken img (frag div frags_per_group (sb img))
    (unat (frag mod frags_per_group (sb img)) + unat old) (unat new - unat old) s t"
  using wp_Inr [OF wp_extend [OF assms(1-6)] assms(7)] by blast

theorem extend_fragment_run_keeps_accounts_witness:
  "\<exists>t. extend_fragment_run tiny_image 0 1 2 used_state = (Inr (), t) \<and> fs_ok tiny_image t \<and>
    \<not> free_map (cg_view tiny_image 0 t) 1"
proof -
  have "wp (extend_fragment_run tiny_image 0 1 2) (\<lambda>_ _. False) (\<lambda>_. calm 32768) used_state"
    by (rule wp_extend_live [OF tiny_geometry used_fs_ok _ used_calm tiny_reach]) simp_all
  from wp_succeeds_unit [OF this] obtain t where run: "extend_fragment_run tiny_image 0 1 2 used_state = (Inr (), t)"
    by blast
  from extend_fragment_run_keeps_accounts [OF tiny_geometry used_fs_ok _ _ _ _ run]
  have "fs_ok tiny_image t \<and> frags_taken tiny_image 0 1 1 used_state t"
    by (simp add: cg_limit_def cg_offsets)
  with run show ?thesis by (auto simp: frags_taken_def)
qed

text \<open>C14. A successful \<open>nextufs__allocate_inode_in_group\<close> hands out an inode of the group that was
  free, marks exactly this inode as used, and leaves the file system consistent.\<close>

theorem allocate_inode_keeps_accounts:
  assumes "geometry_ok img" "fs_ok img s" "unat cg < unat (cg_count (sb img))"
    and "allocate_inode_in_group img cg md s = (Inr ino, t)"
  shows "fs_ok img t \<and> (\<exists>k. ino = cg * inodes_per_group (sb img) + of_nat k \<and> inode_taken img cg k s t)"
  using wp_Inr [OF wp_allocate_inode [OF assms(1-3)] assms(4)] by blast

theorem allocate_inode_keeps_accounts_witness:
  "\<exists>ino t. allocate_inode_in_group tiny_image 0 0x81a4 used_state = (Inr ino, t) \<and> fs_ok tiny_image t \<and>
    inode_used (cg_view tiny_image 0 t) 1"
proof -
  have "wp (allocate_inode_in_group tiny_image 0 0x81a4) (\<lambda>_ _. False) (\<lambda>_. calm 32768) used_state"
    by (rule wp_allocate_inode_live [OF tiny_geometry used_fs_ok _ used_calm tiny_reach, of _ 1]) simp_all
  from wp_succeeds [OF this] obtain ino t where run: "allocate_inode_in_group tiny_image 0 0x81a4 used_state = (Inr ino, t)"
    by blast
  from allocate_inode_keeps_accounts [OF tiny_geometry used_fs_ok _ run]
  obtain k where t: "fs_ok tiny_image t" "inode_taken tiny_image 0 k used_state t" by auto
  then have "k < 2" "\<not> inode_used (view used_state 12288 985) k" by (simp_all add: inode_taken_def)
  then have "k = 1" using used_bits(3) by (cases "k = 0") auto
  with t(2) have "inode_used (cg_view tiny_image 0 t) 1" by (simp add: inode_taken_def)
  with run t(1) show ?thesis by blast
qed

text \<open>C15. A successful \<open>nextufs__free_inode_in_group\<close> frees an inode that was in use, and no other,
  and leaves the file system consistent.\<close>

theorem free_inode_keeps_accounts:
  assumes "geometry_ok img" "fs_ok img s" "unat (ino div inodes_per_group (sb img)) < unat (cg_count (sb img))"
    and "free_inode_in_group img ino md s = (Inr u, t)"
  shows "fs_ok img t \<and> inode_released img (ino div inodes_per_group (sb img))
    (unat (ino mod inodes_per_group (sb img))) s t"
  using wp_Inr [OF wp_free_inode [OF assms(1-3)] assms(4)] by blast

theorem free_inode_keeps_accounts_witness:
  "\<exists>t. free_inode_in_group tiny_image 0 0x81a4 used_state = (Inr (), t) \<and> fs_ok tiny_image t \<and>
    \<not> inode_used (cg_view tiny_image 0 t) 0"
proof -
  have "wp (free_inode_in_group tiny_image 0 0x81a4) (\<lambda>_ _. False) (\<lambda>_. calm 32768) used_state"
    by (rule wp_free_inode_live [OF tiny_geometry used_fs_ok _ used_calm tiny_reach]) simp_all
  from wp_succeeds_unit [OF this] obtain t where run: "free_inode_in_group tiny_image 0 0x81a4 used_state = (Inr (), t)"
    by blast
  from free_inode_keeps_accounts [OF tiny_geometry used_fs_ok _ run]
  have "fs_ok tiny_image t \<and> inode_released tiny_image 0 0 used_state t" by simp
  with run show ?thesis by (auto simp: inode_released_def)
qed

section \<open>Failures\<close>

text \<open>Whatever the outcome, even when a write fails half way, a fragment allocation changes
  nothing outside the superblock, the cylinder group and its summary entry: file data, inodes and
  the other groups are as before.\<close>

theorem allocate_frags_touches_metadata_only:
  assumes "geometry_ok img" "fs_ok img s" "unat cg < unat (cg_count (sb img))"
    and "allocate_frags_in_group img cg need s = (r, t)"
  shows "meta_only img cg s t"
proof -
  have "wp (allocate_frags_in_group img cg need) (\<lambda>_. meta_only img cg s) (\<lambda>_. meta_only img cg s) s"
    by (rule wp_mono [OF wp_allocate_frags [OF assms(1-3)]]) (auto simp: frag_post_def)
  from wp_both [OF this assms(4)] show ?thesis .
qed

theorem allocate_frags_touches_metadata_only_witness:
  "meta_only tiny_image 0 tiny_state (snd (allocate_frags_in_group tiny_image 0 1 tiny_state))"
  by (rule allocate_frags_touches_metadata_only [OF tiny_geometry tiny_fs_ok _ prod.collapse [symmetric]]) simp

text \<open>C16. Freeing a run of which a fragment is free already is refused, and the image is unchanged:
  a double free cannot corrupt the accounts.\<close>

theorem free_fragment_run_refuses_double_free:
  assumes "sys_ok s" "i < unat m"
    and "free_map (cg_view img (frag div frags_per_group (sb img)) s) (unat (frag mod frags_per_group (sb img)) + i)"
  shows "\<exists>e t. free_fragment_run img frag m s = (Inl e, t) \<and> disk t = disk s"
  using wp_fails [OF wp_free_frags_twice [OF assms]] .

theorem free_fragment_run_refuses_double_free_witness:
  "\<exists>e t. free_fragment_run tiny_image 1 1 used_state = (Inl e, t) \<and> disk t = disk used_state"
  by (rule free_fragment_run_refuses_double_free [OF calm_sys_ok [OF used_calm], of 0]) simp_all

text \<open>Freeing an inode that is not in use is refused, and the image is unchanged.\<close>

theorem free_inode_refuses_double_free:
  assumes "sys_ok s"
    and "\<not> inode_used (cg_view img (ino div inodes_per_group (sb img)) s) (unat (ino mod inodes_per_group (sb img)))"
  shows "\<exists>e t. free_inode_in_group img ino md s = (Inl e, t) \<and> disk t = disk s"
  using wp_fails [OF wp_free_inode_twice [OF assms]] .

theorem free_inode_refuses_double_free_witness:
  "\<exists>e t. free_inode_in_group tiny_image 1 0x81a4 used_state = (Inl e, t) \<and> disk t = disk used_state"
  by (rule free_inode_refuses_double_free [OF calm_sys_ok [OF used_calm]]) simp

section \<open>Success\<close>

text \<open>C17. On a host whose calls succeed, a consistent group with a block that is free as a whole
  satisfies every request of at most a block: the search does not miss it.\<close>

theorem allocate_frags_finds_space:
  assumes "geometry_ok img" "fs_ok img s" "unat cg < unat (cg_count (sb img))" "calm N s" "reach img N"
    and "need \<noteq> 0" "need \<le> frags_per_block (sb img)"
    and "unat cg * unat (frags_per_group (sb img)) + cg_limit img cg s \<le> unat (frag_count (sb img))"
    and "q * unat (frags_per_block (sb img)) + unat (frags_per_block (sb img)) \<le> cg_limit img cg s"
    and "blk_full (free_map (cg_view img cg s)) (unat (frags_per_block (sb img))) q"
  shows "\<exists>frag t. allocate_frags_in_group img cg need s = (Inr frag, t) \<and> calm N t"
  using wp_succeeds [OF wp_allocate_frags_live [OF assms]] .

theorem allocate_frags_finds_space_witness:
  "\<exists>frag t. allocate_frags_in_group tiny_image 0 2 tiny_state = (Inr frag, t) \<and> calm 32768 t"
  by (rule allocate_frags_finds_space [OF tiny_geometry tiny_fs_ok _ tiny_calm tiny_reach, of _ _ 0])
    (simp_all add: cg_limit_def cg_offsets blk_full_def all_less_2)

text \<open>On a host whose calls succeed, a consistent group with a free inode satisfies a request
  for an inode: the search around the rotor, which skips full bytes, does not miss it.\<close>

theorem allocate_inode_finds_space:
  assumes "geometry_ok img" "fs_ok img s" "unat cg < unat (cg_count (sb img))" "calm N s" "reach img N"
    and "k < unat (inodes_per_group (sb img))" "\<not> inode_used (cg_view img cg s) k"
  shows "\<exists>ino t. allocate_inode_in_group img cg md s = (Inr ino, t) \<and> calm N t"
  using wp_succeeds [OF wp_allocate_inode_live [OF assms]] .

theorem allocate_inode_finds_space_witness:
  "\<exists>ino t. allocate_inode_in_group tiny_image 0 0x41ed used_state = (Inr ino, t) \<and> calm 32768 t"
  by (rule allocate_inode_finds_space [OF tiny_geometry used_fs_ok _ used_calm tiny_reach, of _ 1]) simp_all

text \<open>C18. \<open>nextufs__count_free_runs_in_block\<close> computes, for every length, the number of maximal runs
  of free fragments of this length inside the block (of less than the whole block: a free block is
  counted as such).\<close>

theorem count_free_runs_counts_maximal_runs:
  assumes "k < fpb"
  shows "count_free_runs_in_block b off base fpb k = of_nat (runs (\<lambda>i. free_bit b off (base + i)) fpb k)"
  using assms by (rule count_free_runs_eq)

theorem count_free_runs_counts_maximal_runs_witness:
  "count_free_runs_in_block (\<lambda>_. 2) 0 0 2 1 = of_nat (runs (\<lambda>i. free_bit (\<lambda>_. 2) 0 (0 + i)) 2 1)"
  by (rule count_free_runs_counts_maximal_runs) simp

end
