(* ===== verification/StoreClaims.thy ===== *)
theory StoreClaims
  imports Tiny
begin

text \<open>
  What the storage layer guarantees: the transfer loops, the VDI backend as an array of bytes
  whatever its allocation state, and inodes written and read back.
\<close>

section \<open>Transfer loops\<close>

text \<open>\<open>nextufs__write_exact_fd\<close>, whatever short counts and errors the host reports, has written
  a prefix of the data at the right place and nothing else; when it returns 0 the prefix is all
  of the data.\<close>

theorem write_exact_fd_writes_prefix:
  assumes "write_exact_fd d n off (f, s) = (r, (g, t))"
  shows "\<exists>k\<le>n. file_byte g = blit (file_byte f) (nat off) k d \<and> (r = Inr () \<longrightarrow> k = n)"
  using assms by (auto elim!: write_exact_fd_prefix)

definition short_os :: os where
  "short_os = \<lparr>events = (\<lambda>k. if k = 0 then OsShort 2 else OsFail EIO), clock = \<lambda>_. 0, ticks = 0\<rparr>"

definition small_file :: hostfile where
  "small_file = \<lparr>fsize = 8, fbytes = \<lambda>i. of_nat i\<rparr>"

theorem write_exact_fd_writes_prefix_witness:
  "\<exists>k\<le>4. file_byte (fst (snd (write_exact_fd (\<lambda>_. 9) 4 3 (small_file, short_os)))) =
     blit (file_byte small_file) (nat 3) k (\<lambda>_. 9)"
  using write_exact_fd_writes_prefix [of "\<lambda>_. 9" 4 3 small_file short_os
    "fst (write_exact_fd (\<lambda>_. 9) 4 3 (small_file, short_os))"
    "fst (snd (write_exact_fd (\<lambda>_. 9) 4 3 (small_file, short_os)))"
    "snd (snd (write_exact_fd (\<lambda>_. 9) 4 3 (small_file, short_os)))"]
  by auto

text \<open>A read that \<open>nextufs__read_exact_fd\<close> reports as complete returns the bytes of the file in
  the range, all of which lie inside the file.\<close>

theorem read_exact_fd_reads_range:
  assumes "read_exact_fd f n off s = (Inr b, t)"
  shows "b = clip n (\<lambda>i. file_byte f (nat off + i)) \<and> (n = 0 \<or> 0 \<le> off \<and> nat off + n \<le> fsize f)"
  using read_exact_fd_Inr [OF assms] by blast

theorem read_exact_fd_reads_range_witness:
  "\<exists>b t. read_exact_fd small_file 2 1 \<lparr>events = \<lambda>_. OsShort 1, clock = \<lambda>_. 0, ticks = 0\<rparr> = (Inr b, t) \<and>
    b 0 = 1 \<and> b 1 = 2"
proof -
  let ?s = "\<lparr>events = \<lambda>_. OsShort 1, clock = \<lambda>_. 0 :: u32, ticks = 0\<rparr>"
  have "\<exists>b t. read_exact_fd small_file 2 1 ?s = (Inr b, t)"
    by (simp add: read_exact_fd_def read_loop.simps pread_def tick_def small_file_def)
  then obtain b t where run: "read_exact_fd small_file 2 1 ?s = (Inr b, t)" by blast
  from read_exact_fd_reads_range [OF run] have "b 0 = 1 \<and> b 1 = 2"
    by (simp add: file_byte_def small_file_def)
  with run show ?thesis by blast
qed

section \<open>VDI images\<close>

definition small_vdi :: vdi_backend where
  "small_vdi = \<lparr>vfile = \<lparr>fsize = 1024, fbytes = \<lambda>_. 0\<rparr>, image_type = 1, map_offset = 512,
     data_offset = 1024, sector_size = 512, vblock_size = 4, block_extra = 0, block_count = 2,
     blocks_allocated = 0, disk_size = 8, block_map = \<lambda>_. VDI_MAP_UNALLOCATED, image_uuid = [],
     parent_uuid = []\<rparr>"

lemma small_vdi_ok: "vdi_ok small_vdi"
  by (simp add: vdi_ok_def small_vdi_def vdi_special_def)

lemma no_parent_ok: "parent_ok None 0 pc"
  by (simp add: parent_ok_def)

text \<open>C19. A read of a well-formed VDI image (\<open>vdi_ok\<close>: distinct entries, and offsets within \<open>off_t\<close>) returns the bytes of the virtual disk: allocated blocks
  from the file, unallocated ones from the parent (zeros behind its end, or without a parent),
  zero blocks as zeros, across any number of block boundaries.\<close>

theorem vdi_backend_read_refines_content:
  assumes "vdi_ok v" "parent_ok par psize pc" "vdi_backend_read v par n off s = (Inr b, t)"
  shows "b = clip n (\<lambda>i. vdi_content v psize pc (nat off + i)) \<and> nat off + n \<le> unat (disk_size v)"
  using vdi_backend_read_value [OF assms(3,1,2)] by blast

definition calm_os :: os where
  "calm_os = \<lparr>events = \<lambda>_. OsFull, clock = \<lambda>_. 0, ticks = 0\<rparr>"

text \<open>A parent of 7 bytes: its second block is cut off.\<close>

definition parent_file :: hostfile where
  "parent_file = \<lparr>fsize = 7, fbytes = \<lambda>_. 5\<rparr>"

lemma file_parent_ok: "parent_ok (Some (fsize f, read_exact_fd f)) (fsize f) (file_byte f)"
  using read_exact_fd_Inr [of f] by (fastforce simp: parent_ok_def)

theorem vdi_backend_read_refines_content_witness:
  "\<exists>b t. vdi_backend_read small_vdi (Some (7, read_exact_fd parent_file)) 3 5 calm_os = (Inr b, t) \<and>
     b 1 = 5 \<and> b 2 = 0"
proof -
  have par: "parent_ok (Some (7, read_exact_fd parent_file)) 7 (file_byte parent_file)"
    using file_parent_ok [of parent_file] by (simp add: parent_file_def)
  have "\<exists>b t. vdi_backend_read small_vdi (Some (7, read_exact_fd parent_file)) 3 5 calm_os = (Inr b, t)"
    by (simp add: vdi_backend_read_def vdi_read_loop.simps vdi_read_chunk_def small_vdi_def calm_os_def
      or_else_def andthen_def read_exact_fd_def read_loop.simps pread_def tick_def parent_file_def Let_def)
  then obtain b t where
    run: "vdi_backend_read small_vdi (Some (7, read_exact_fd parent_file)) 3 5 calm_os = (Inr b, t)"
    by blast
  from vdi_backend_read_refines_content [OF small_vdi_ok par run]
  have "b 1 = 5 \<and> b 2 = 0"
    by (simp add: vdi_content_def small_vdi_def Let_def file_byte_def parent_file_def)
  with run show ?thesis by blast
qed

text \<open>C5. A write to a well-formed VDI image (\<open>vdi_ok\<close>, with all offsets within \<open>off_t\<close>), successful or not, leaves a well-formed image whose
  virtual disk has a prefix of the data written at the offset and is otherwise unchanged, although
  blocks may have been allocated in the file and the map changed on the way.\<close>

theorem vdi_backend_write_refines_blit:
  assumes "vdi_ok v" "parent_ok par psize pc" "vdi_backend_write par d n off (v, s) = (r, (w, t))"
  shows "vdi_ok w \<and> (\<exists>k\<le>n. vdi_content w psize pc = blit (vdi_content v psize pc) (nat off) k d \<and>
    (r = Inr () \<longrightarrow> k = n))"
  using vdi_backend_write_prefix [OF assms(3,1,2)] by blast

theorem vdi_backend_write_refines_blit_witness:
  "vdi_ok (fst (snd (vdi_backend_write None (\<lambda>_. 3) 2 3 (small_vdi, calm_os))))"
  using vdi_backend_write_refines_blit [OF small_vdi_ok no_parent_ok,
    of "\<lambda>_. 3" 2 3 calm_os "fst (vdi_backend_write None (\<lambda>_. 3) 2 3 (small_vdi, calm_os))"
      "fst (snd (vdi_backend_write None (\<lambda>_. 3) 2 3 (small_vdi, calm_os)))"
      "snd (snd (vdi_backend_write None (\<lambda>_. 3) 2 3 (small_vdi, calm_os)))" "\<lambda>_. 0"] by simp

text \<open>Giving a block of a VDI image a place in the file (copying it from the parent, or zeroing
  it) does not change the virtual disk, whether it succeeds or fails at any of its writes.\<close>

theorem vdi_materialize_block_keeps_content:
  assumes "vdi_ok v" "parent_ok par psize pc" "i < unat (block_count v)"
    and "vdi_materialize_block par i (v, s) = (r, (w, t))"
  shows "vdi_ok w \<and> vdi_content w psize pc = vdi_content v psize pc"
proof -
  have "wp (vdi_materialize_block par i) (\<lambda>_. vdi_same_post psize pc v) (\<lambda>_. vdi_same_post psize pc v) (v, s)"
    by (rule wp_mono [OF vdi_materialize_block_keeps [OF assms(1-3)]]) auto
  from wp_both [OF this assms(4)] show ?thesis by (simp add: vdi_same_def)
qed

theorem vdi_materialize_block_keeps_content_witness:
  "vdi_content (fst (snd (vdi_materialize_block (Some (7, read_exact_fd parent_file)) 0 (small_vdi, calm_os))))
     7 (file_byte parent_file) 6 = 5"
proof -
  have par: "parent_ok (Some (7, read_exact_fd parent_file)) 7 (file_byte parent_file)"
    using file_parent_ok [of parent_file] by (simp add: parent_file_def)
  let ?r = "vdi_materialize_block (Some (7, read_exact_fd parent_file)) 0 (small_vdi, calm_os)"
  have "vdi_content (fst (snd ?r)) 7 (file_byte parent_file) = vdi_content small_vdi 7 (file_byte parent_file)"
    using vdi_materialize_block_keeps_content [OF small_vdi_ok par, of 0 calm_os "fst ?r" "fst (snd ?r)" "snd (snd ?r)"]
    by (simp add: small_vdi_def)
  then show ?thesis
    by (simp add: vdi_content_def small_vdi_def Let_def file_byte_def parent_file_def)
qed

text \<open>Writing into a block that reaches beyond the end of its parent always fails: the block is
  copied with a read of the full block, which a parent that ends inside it cannot serve (reading
  the same block, in contrast, pads with zeros).\<close>

theorem vdi_materialize_block_short_parent_fails:
  assumes "parent_ok (Some (psize, prd)) psize pc" "block_map v i = VDI_MAP_UNALLOCATED" "vblock_size v \<noteq> 0"
    and "psize < i * unat (vblock_size v) + unat (vblock_size v)"
  shows "\<exists>e t. vdi_materialize_block (Some (psize, prd)) i (v, s) = (Inl e, t) \<and> fst t = v"
proof -
  let ?bs = "unat (vblock_size v)"
  have full: "prd ?bs (int (i * ?bs)) u \<noteq> (Inr b, u')" for u b u'
    using parent_okD [OF assms(1), of ?bs "int (i * ?bs)" u b u'] assms(3,4) by (auto simp: unat_gt_0 nat_mult_distrib)
  have "wp (vdi_materialize_block (Some (psize, prd)) i) (\<lambda>_ t. fst t = v) (\<lambda>_ _. False) (v, s)"
    unfolding vdi_materialize_block_def
    using assms(2) full
    by (auto simp: wp_def vdi_get_def vdi_os_def malloc_def andthen_def Let_def
        split: prod.splits sum.splits os_event.splits)
  from wp_fails [OF this] show ?thesis .
qed

theorem vdi_materialize_block_short_parent_fails_witness:
  "\<exists>e t. vdi_materialize_block (Some (7, read_exact_fd parent_file)) 1 (small_vdi, calm_os) = (Inl e, t) \<and>
     fst t = small_vdi"
  by (rule vdi_materialize_block_short_parent_fails [where pc = "file_byte parent_file"])
    (use file_parent_ok [of parent_file] in \<open>simp_all add: small_vdi_def parent_file_def\<close>)

section \<open>Inodes on disk\<close>

text \<open>C20. What \<open>nextufs__write_inode_raw\<close> has stored, \<open>nextufs_inode_read\<close> returns: every field
  survives the trip through the image, on every kind of backend.\<close>

theorem write_inode_read_back:
  assumes "sys_ok s" "inode_wf ino" "write_inode_raw img n ino s = (Inr (), t)"
    and "inode_read img n t = (Inr (got, off), u)"
  shows "got = ino \<and> off = inode_offset img n"
proof -
  from assms(3) have wr: "write_exact img (encode_inode ino) UFS_INODE_SIZE (inode_offset img n) s = (Inr (), t)"
    by (auto simp: write_inode_raw_def Let_def split: if_splits)
  from assms(4) obtain b where rd: "read_exact UFS_INODE_SIZE (inode_offset img n) t = (Inr b, u)"
    and got: "got = decode_inode b" "off = inode_offset img n"
    by (auto simp: inode_read_def Let_def andthen_Inr split: if_splits)
  from img.read_back [OF assms(1) wr rd] got assms(2) show ?thesis
    by (simp add: decode_inode_clip UFS_INODE_SIZE_def decode_encode_inode)
qed

definition some_inode :: nextufs_inode where
  "some_inode = \<lparr>mode = 0x81a4, nlink = 1, uid = 20, gid = 7, isize = 5, atime = 1, mtime = 2,
     ctime = 3, db = 9 # replicate 11 0, ib = replicate 3 0, flags = 0, blocks = 2, gen = 4\<rparr>"

lemma tiny_inode_offset: "inode_offset tiny_image 0 = 20480"
  by (simp add: inode_offset_def Let_def UFS_INODE_SIZE_def)

lemma tiny_inode_written: "\<exists>t. write_inode_raw tiny_image 0 some_inode tiny_state = (Inr (), t) \<and> calm 32768 t"
proof -
  have "wp (write_inode_raw tiny_image 0 some_inode) (\<lambda>_ _. False) (\<lambda>_. calm 32768) tiny_state"
    by (auto simp: write_inode_raw_def tiny_inode_offset intro!: wp_write_calm [OF tiny_calm])
  from wp_succeeds_unit [OF this] show ?thesis .
qed

lemma tiny_inode_readable: "calm 32768 t \<Longrightarrow> \<exists>ino off u. inode_read tiny_image 0 t = (Inr (ino, off), u)"
proof -
  assume "calm 32768 t"
  then have "wp (inode_read tiny_image 0) (\<lambda>_ _. False) (\<lambda>_ _. True) t"
    by (auto simp: inode_read_def tiny_inode_offset UFS_INODE_SIZE_def wp_simps intro!: wp_read_calm)
  from wp_succeeds [OF this] show ?thesis by auto
qed

theorem write_inode_read_back_witness:
  "\<exists>t u. write_inode_raw tiny_image 0 some_inode tiny_state = (Inr (), t) \<and>
     inode_read tiny_image 0 t = (Inr (some_inode, 20480), u)"
proof -
  obtain t where t: "write_inode_raw tiny_image 0 some_inode tiny_state = (Inr (), t)" "calm 32768 t"
    using tiny_inode_written by blast
  then obtain ino off u where u: "inode_read tiny_image 0 t = (Inr (ino, off), u)"
    using tiny_inode_readable by blast
  have "inode_wf some_inode" by (simp add: inode_wf_def some_inode_def)
  from write_inode_read_back [OF calm_sys_ok [OF tiny_calm] this t(1) u] t u tiny_inode_offset
  show ?thesis by auto
qed

end
