(* ===== verification/BlockMap.thy ===== *)
theory BlockMap
  imports Alloc
begin

text \<open>
  The block map of an inode: twelve direct blocks and three trees of indirect blocks. The
  allocating side is \<open>src/src/core/alloc.c\<close>, the reading side \<open>src/src/core/image.c\<close>. Index and
  span arithmetic is in \<open>uint64_t\<close> as in the code; a division by a span that wrapped to 0 is \<open>UNDEF\<close>.
\<close>

definition frag_offset :: "nextufs_image \<Rightarrow> u32 \<Rightarrow> int" where
  "frag_offset img frag = slice_base img + int (unat frag * unat (frag_size (sb img)))"

definition entries_per_block :: "nextufs_image \<Rightarrow> u64" where
  "entries_per_block img = ucast (block_size (sb img)) div 4"

definition read_indirect_entry :: "nextufs_image \<Rightarrow> u32 \<Rightarrow> u64 \<Rightarrow> u32 fs" where
  "read_indirect_entry img block_frag entry_index =
     (if entries_per_block img \<le> entry_index then fail EINVAL
      else andthen (read_exact 4 (frag_offset img block_frag + int (unat entry_index * 4)))
        (\<lambda>raw. ret (read_be32 raw 0)))"

definition write_indirect_entry :: "nextufs_image \<Rightarrow> u32 \<Rightarrow> u64 \<Rightarrow> u32 \<Rightarrow> unit fs" where
  "write_indirect_entry img block_frag entry_index entry_value =
     (if entries_per_block img \<le> entry_index then fail EINVAL
      else write_exact img (write_be32 (\<lambda>_. 0) 0 entry_value) 4
        (frag_offset img block_frag + int (unat entry_index * 4)))"

text \<open>\<open>span\<close>: the number of data blocks below one entry of a tree of the given level.\<close>

definition level_span :: "nextufs_image \<Rightarrow> nat \<Rightarrow> u64" where
  "level_span img level = entries_per_block img ^ (level - 1)"

section \<open>Reading\<close>

fun resolve_indirect_block_frag :: "nextufs_image \<Rightarrow> u32 \<Rightarrow> nat \<Rightarrow> u64 \<Rightarrow> u32 fs" where
  "resolve_indirect_block_frag img block_frag 0 logical_index = fail EINVAL"
| "resolve_indirect_block_frag img block_frag (Suc l) logical_index =
     (if block_frag = 0 \<or> entries_per_block img = 0 then fail EINVAL
      else let span = level_span img (Suc l) in
      if span = 0 then fail UNDEF
      else let entry_index = logical_index div span; remainder = logical_index mod span in
      andthen (or_else (read_indirect_entry img block_frag entry_index) EIO) (\<lambda>next_frag.
      if l = 0 then ret next_frag
      else if next_frag = 0 then ret 0
      else resolve_indirect_block_frag img next_frag l remainder))"

text \<open>The loop over the three roots, from slot \<open>i\<close> on.\<close>

fun resolve_file_slots :: "nextufs_image \<Rightarrow> u32 list \<Rightarrow> nat \<Rightarrow> u64 \<Rightarrow> u64 \<Rightarrow> u32 fs" where
  "resolve_file_slots img [] i idx span = fail EINVAL"
| "resolve_file_slots img (root # roots) i idx span =
     (if idx < span then resolve_indirect_block_frag img root (i + 1) idx
      else resolve_file_slots img roots (i + 1) (idx - span) (span * entries_per_block img))"

definition resolve_file_block_frag :: "nextufs_image \<Rightarrow> nextufs_inode \<Rightarrow> u64 \<Rightarrow> u32 fs" where
  "resolve_file_block_frag img ino logical_block_index =
     (if logical_block_index < 12 then ret (db ino ! unat logical_block_index)
      else resolve_file_slots img (ib ino) 0 (logical_block_index - 12) (entries_per_block img))"

text \<open>
  The transfer loop of \<open>nextufs_inode_read_data\<close>: \<open>done\<close> bytes are in \<open>out\<close>, \<open>remaining\<close> are to
  come. The offset in the block is below the block size throughout; the guard states it.
\<close>

function read_data_loop ::
    "nextufs_image \<Rightarrow> nextufs_inode \<Rightarrow> nat \<Rightarrow> nat \<Rightarrow> u64 \<Rightarrow> nat \<Rightarrow> buf \<Rightarrow> buf fs" where
  "read_data_loop img ino done remaining lbi block_offset out s =
     (if remaining = 0 then (Inr out, s)
      else if unat (block_size (sb img)) \<le> block_offset then (Inl UNDEF, s)
      else let chunk = min (unat (block_size (sb img)) - block_offset) remaining in
      case resolve_file_block_frag img ino lbi s of
        (Inl e, t) \<Rightarrow> (Inl e, t)
      | (Inr data_frag, t) \<Rightarrow>
        if data_frag = 0
        then read_data_loop img ino (done + chunk) (remaining - chunk) (lbi + 1) 0
          (blit out done chunk (\<lambda>_. 0)) t
        else case read_exact chunk (frag_offset img data_frag + int block_offset) t of
          (Inl e, u) \<Rightarrow> (Inl e, u)
        | (Inr b, u) \<Rightarrow> read_data_loop img ino (done + chunk) (remaining - chunk) (lbi + 1) 0
            (blit out done chunk b) u)"
  by pat_completeness auto
termination
  by (relation "measure (\<lambda>(img, ino, done, remaining, lbi, block_offset, out, s). remaining)") auto

declare read_data_loop.simps [simp del]

text \<open>The result is the buffer (behind the bytes read it is unchanged: \<open>out\<close>) and the count.\<close>

definition inode_read_data ::
    "nextufs_image \<Rightarrow> nextufs_inode \<Rightarrow> u64 \<Rightarrow> nat \<Rightarrow> buf \<Rightarrow> (buf \<times> nat) fs" where
  "inode_read_data img ino start buf_size out =
     (if isize ino \<le> start then ret (out, 0)
      else if block_size (sb img) = 0 then fail UNDEF
      else let n = min (unat (isize ino - start)) buf_size;
               bs = unat (block_size (sb img)) in
      andthen (read_data_loop img ino 0 n (of_nat (unat start div bs)) (unat start mod bs) out)
        (\<lambda>b. ret (b, n)))"

section \<open>Symbolic links\<close>

definition IFMT :: u16 where "IFMT = 0xf000"
definition IFIFO :: u16 where "IFIFO = 0x1000"
definition IFCHR :: u16 where "IFCHR = 0x2000"
definition IFDIR :: u16 where "IFDIR = 0x4000"
definition IFBLK :: u16 where "IFBLK = 0x6000"
definition IFREG :: u16 where "IFREG = 0x8000"
definition IFLNK :: u16 where "IFLNK = 0xa000"
definition IFSOCK :: u16 where "IFSOCK = 0xc000"
definition IC_FASTLINK :: u32 where "IC_FASTLINK = 1"

definition ifmt :: "nextufs_inode \<Rightarrow> u16" where
  "ifmt ino = mode ino AND IFMT"

definition word_bytes :: "u32 \<Rightarrow> u8 list" where
  "word_bytes w = [ucast (drop_bit 24 w), ucast (drop_bit 16 w), ucast (drop_bit 8 w), ucast w]"

text \<open>The bytes returned; the empty list stands for the result 0.\<close>

definition decode_inline_symlink :: "nextufs_inode \<Rightarrow> nat \<Rightarrow> u8 list" where
  "decode_inline_symlink ino out_size =
     (if ifmt ino \<noteq> IFLNK \<or> flags ino AND IC_FASTLINK = 0 \<or> isize ino = 0 \<or> 60 < isize ino \<or> out_size = 0
      then []
      else let raw = concat (map word_bytes (take 12 (db ino) @ take 3 (ib ino)));
               nbytes = unat (isize ino);
               nbytes = (if out_size \<le> nbytes then out_size - 1 else nbytes)
      in take nbytes raw)"

definition inode_readlink :: "nextufs_image \<Rightarrow> nextufs_inode \<Rightarrow> nat \<Rightarrow> u8 list fs" where
  "inode_readlink img ino out_size =
     (if ifmt ino \<noteq> IFLNK \<or> out_size = 0 then fail EINVAL
      else let target = decode_inline_symlink ino out_size in
      if target \<noteq> [] then ret target
      else andthen (or_else (inode_read_data img ino 0 (out_size - 1) (\<lambda>_. 0)) EIO)
        (\<lambda>(b, got). ret (list_of b 0 got)))"

text \<open>\<open>nextufs__store_inline_symlink\<close>; a target of more than 60 bytes would overrun its buffer.\<close>

definition be_word :: "u8 list \<Rightarrow> nat \<Rightarrow> u32" where
  "be_word raw i = read_be32 (bytes_of raw) i"

definition store_inline_symlink :: "u8 list \<Rightarrow> nextufs_inode \<Rightarrow> nextufs_inode" where
  "store_inline_symlink target ino =
     (let raw = target @ replicate (60 - length target) 0
      in ino\<lparr>db := map (\<lambda>i. be_word raw (i * 4)) [0..<12],
             ib := map (\<lambda>i. be_word raw (48 + i * 4)) [0..<3]\<rparr>)"

section \<open>Allocating\<close>

definition allocate_zeroed_full_block :: "nextufs_image \<Rightarrow> u32 \<Rightarrow> u32 fs" where
  "allocate_zeroed_full_block img preferred_cg =
     andthen (allocate_full_block_anycg img preferred_cg) (\<lambda>frag.
     andthen (on_error (sys_os malloc) (free_fragment_run img frag (frags_per_block (sb img)))) (\<lambda>_.
     andthen (on_error (write_exact img (\<lambda>_. 0) (unat (block_size (sb img))) (frag_offset img frag))
       (free_fragment_run img frag (frags_per_block (sb img)))) (\<lambda>_.
     ret frag)))"

text \<open>The result is the running total \<open>*metadata_frags_out\<close>.\<close>

fun set_indirect_data_block ::
    "nextufs_image \<Rightarrow> u32 \<Rightarrow> nat \<Rightarrow> u64 \<Rightarrow> u32 \<Rightarrow> u32 \<Rightarrow> u32 \<Rightarrow> u32 fs" where
  "set_indirect_data_block img block_frag 0 idx data_frag preferred_cg tot = fail EINVAL"
| "set_indirect_data_block img block_frag (Suc l) idx data_frag preferred_cg tot =
     (if l = 0 then andthen (write_indirect_entry img block_frag idx data_frag) (\<lambda>_. ret tot)
      else let span = level_span img (Suc l) in
      if span = 0 then fail UNDEF
      else let entry_index = idx div span; remainder = idx mod span in
      andthen (read_indirect_entry img block_frag entry_index) (\<lambda>next_frag.
      if next_frag = 0 then
        andthen (allocate_zeroed_full_block img preferred_cg) (\<lambda>new_frag.
        andthen (on_error (write_indirect_entry img block_frag entry_index new_frag)
          (free_fragment_run img new_frag (frags_per_block (sb img)))) (\<lambda>_.
        set_indirect_data_block img new_frag l remainder data_frag preferred_cg
          (tot + frags_per_block (sb img))))
      else set_indirect_data_block img next_frag l remainder data_frag preferred_cg tot))"

text \<open>
  The inode is an in/out parameter: it keeps a freshly allocated root even when a later step
  fails, so the result is a pair of a return code with the total, and the inode.
\<close>

fun set_inode_slots ::
    "nextufs_image \<Rightarrow> nextufs_inode \<Rightarrow> nat list \<Rightarrow> u64 \<Rightarrow> u64 \<Rightarrow> u32 \<Rightarrow> u32 \<Rightarrow> u32
     \<Rightarrow> ((errno + u32) \<times> nextufs_inode) fs" where
  "set_inode_slots img ino [] idx span data_frag preferred_cg tot = ret (Inl EFBIG, ino)"
| "set_inode_slots img ino (slot # slots) idx span data_frag preferred_cg tot =
     (if idx < span then
        (if ib ino ! slot = 0 then
           attempt (allocate_zeroed_full_block img preferred_cg) (\<lambda>r. case r of
             Inl e \<Rightarrow> ret (Inl e, ino)
           | Inr root \<Rightarrow> let ino = ino\<lparr>ib := (ib ino)[slot := root]\<rparr> in
               attempt (set_indirect_data_block img root (slot + 1) idx data_frag preferred_cg
                 (tot + frags_per_block (sb img))) (\<lambda>r. ret (r, ino)))
         else attempt (set_indirect_data_block img (ib ino ! slot) (slot + 1) idx data_frag
             preferred_cg tot) (\<lambda>r. ret (r, ino)))
      else set_inode_slots img ino slots (idx - span) (span * entries_per_block img)
        data_frag preferred_cg tot)"

definition set_inode_data_block ::
    "nextufs_image \<Rightarrow> nextufs_inode \<Rightarrow> u32 \<Rightarrow> u32 \<Rightarrow> u32 \<Rightarrow> u32
     \<Rightarrow> ((errno + u32) \<times> nextufs_inode) fs" where
  "set_inode_data_block img ino logical_block data_frag preferred_cg tot =
     (if logical_block < 12
      then ret (Inr tot, ino\<lparr>db := (db ino)[unat logical_block := data_frag]\<rparr>)
      else set_inode_slots img ino [0, 1, 2] (ucast (logical_block - 12)) (entries_per_block img)
        data_frag preferred_cg tot)"

fun resolve_indirect_data_block :: "nextufs_image \<Rightarrow> u32 \<Rightarrow> nat \<Rightarrow> u64 \<Rightarrow> u32 fs" where
  "resolve_indirect_data_block img block_frag 0 idx = fail UNDEF"
| "resolve_indirect_data_block img block_frag (Suc l) idx =
     (if block_frag = 0 then ret 0
      else if l = 0 then read_indirect_entry img block_frag idx
      else let span = level_span img (Suc l) in
      if span = 0 then fail UNDEF
      else andthen (read_indirect_entry img block_frag (idx div span)) (\<lambda>next_frag.
        resolve_indirect_data_block img next_frag l (idx mod span)))"

fun resolve_inode_slots :: "nextufs_image \<Rightarrow> u32 list \<Rightarrow> nat \<Rightarrow> u64 \<Rightarrow> u64 \<Rightarrow> u32 fs" where
  "resolve_inode_slots img [] i idx span = fail EFBIG"
| "resolve_inode_slots img (root # roots) i idx span =
     (if idx < span then resolve_indirect_data_block img root (i + 1) idx
      else resolve_inode_slots img roots (i + 1) (idx - span) (span * entries_per_block img))"

definition resolve_inode_data_block :: "nextufs_image \<Rightarrow> nextufs_inode \<Rightarrow> u32 \<Rightarrow> u32 fs" where
  "resolve_inode_data_block img ino logical_block =
     (if logical_block < 12 then ret (db ino ! unat logical_block)
      else resolve_inode_slots img (ib ino) 0 (ucast (logical_block - 12)) (entries_per_block img))"

section \<open>Freeing\<close>

text \<open>\<open>for_each\<close>: run \<open>f\<close> on each element, stopping at the first error.\<close>

primrec for_each :: "('a \<Rightarrow> ('s, unit) io) \<Rightarrow> 'a list \<Rightarrow> ('s, unit) io" where
  "for_each f [] = ret ()"
| "for_each f (x # xs) = andthen (f x) (\<lambda>_. for_each f xs)"

fun free_indirect_metadata_tree :: "nextufs_image \<Rightarrow> nat \<Rightarrow> u32 \<Rightarrow> unit fs" where
  "free_indirect_metadata_tree img 0 block_frag =
     (if block_frag = 0 then ret () else free_fragment_run img block_frag (frags_per_block (sb img)))"
| "free_indirect_metadata_tree img (Suc l) block_frag =
     (if block_frag = 0 then ret ()
      else
      andthen (if 0 < l then
          for_each (\<lambda>i. andthen (read_indirect_entry img block_frag (of_nat i)) (\<lambda>child_frag.
            if child_frag = 0 then ret () else free_indirect_metadata_tree img l child_frag))
          [0..<unat (entries_per_block img)]
        else ret ()) (\<lambda>_.
      free_fragment_run img block_frag (frags_per_block (sb img))))"

text \<open>The number of fragments of a data block: the last direct block may be partial.\<close>

definition block_frags :: "nextufs_image \<Rightarrow> u32 \<Rightarrow> nat \<Rightarrow> u32" where
  "block_frags img logical_block chunk_bytes =
     (if 12 \<le> logical_block then frags_per_block (sb img)
      else of_nat ((chunk_bytes + unat (frag_size (sb img)) - 1) div unat (frag_size (sb img))))"

function free_blocks_loop :: "nextufs_image \<Rightarrow> nextufs_inode \<Rightarrow> u32 \<Rightarrow> nat \<Rightarrow> unit fs" where
  "free_blocks_loop img ino logical_block remaining s =
     (if remaining = 0 then (Inr (), s)
      else if block_size (sb img) = 0 \<or> frag_size (sb img) = 0 then (Inl UNDEF, s)
      else let chunk_bytes = min (unat (block_size (sb img))) remaining in
      case andthen (resolve_inode_data_block img ino logical_block) (\<lambda>data_frag.
          if data_frag \<noteq> 0
          then free_fragment_run img data_frag (block_frags img logical_block chunk_bytes)
          else ret ()) s of
        (Inl e, t) \<Rightarrow> (Inl e, t)
      | (Inr _, t) \<Rightarrow> free_blocks_loop img ino (logical_block + 1) (remaining - chunk_bytes) t)"
  by pat_completeness auto
termination
  by (relation "measure (\<lambda>(img, ino, lb, remaining, s). remaining)") (auto simp: unat_gt_0)

declare free_blocks_loop.simps [simp del]

text \<open>The third loop of \<open>free_file_storage\<close>: each root is cleared once its tree is freed.\<close>

fun free_roots :: "nextufs_image \<Rightarrow> nextufs_inode \<Rightarrow> nat list \<Rightarrow> ((errno + unit) \<times> nextufs_inode) fs" where
  "free_roots img ino [] = ret (Inr (), ino)"
| "free_roots img ino (slot # slots) =
     attempt (free_indirect_metadata_tree img (slot + 1) (ib ino ! slot)) (\<lambda>r. case r of
       Inl e \<Rightarrow> ret (Inl e, ino)
     | Inr _ \<Rightarrow> free_roots img (ino\<lparr>ib := (ib ino)[slot := 0]\<rparr>) slots)"

definition free_file_storage ::
    "nextufs_image \<Rightarrow> nextufs_inode \<Rightarrow> ((errno + unit) \<times> nextufs_inode) fs" where
  "free_file_storage img ino =
     (if ifmt ino = IFLNK \<and> flags ino AND IC_FASTLINK \<noteq> 0
      then ret (Inr (), ino\<lparr>db := replicate 12 0, ib := replicate 3 0,
        flags := flags ino AND NOT IC_FASTLINK, isize := 0, blocks := 0\<rparr>)
      else attempt (free_blocks_loop img ino 0 (unat (isize ino))) (\<lambda>r. case r of
        Inl e \<Rightarrow> ret (Inl e, ino)
      | Inr _ \<Rightarrow>
        attempt (free_roots img (ino\<lparr>db := replicate 12 0\<rparr>) [0, 1, 2]) (\<lambda>r. case r of
          Inl e \<Rightarrow> fail UNDEF
        | Inr (Inl e, ino) \<Rightarrow> ret (Inl e, ino)
        | Inr (Inr _, ino) \<Rightarrow> ret (Inr (), ino\<lparr>isize := 0, blocks := 0\<rparr>))))"

text \<open>
  The loop of \<open>allocate_data_for_inode\<close>. A failure ends the loop with its code; the clean-up at
  the label \<open>fail\<close> is done by the caller of the loop, with the inode as it was then.
\<close>

function allocate_data_loop ::
    "nextufs_image \<Rightarrow> u32 \<Rightarrow> buf \<Rightarrow> u32 \<Rightarrow> nat \<Rightarrow> u32 \<Rightarrow> nextufs_inode
     \<Rightarrow> ((errno + u32) \<times> nextufs_inode) fs" where
  "allocate_data_loop img preferred_cg data logical_block remaining tot ino s =
     (if remaining = 0 then (Inr (Inr tot, ino), s)
      else if block_size (sb img) = 0 \<or> frag_size (sb img) = 0 then (Inl UNDEF, s)
      else
      let bs = unat (block_size (sb img));
          chunk_bytes = min bs remaining;
          frags_needed = block_frags img logical_block chunk_bytes in
      case allocate_frags_anycg img preferred_cg frags_needed s of
        (Inl e, t) \<Rightarrow> (Inr (Inl e, ino), t)
      | (Inr alloc_frag, t) \<Rightarrow>
      (case set_inode_data_block img ino logical_block alloc_frag preferred_cg tot t of
        (Inl e, u) \<Rightarrow> (Inl e, u)
      | (Inr (Inl e, ino), u) \<Rightarrow>
        andthen (ignoring (free_fragment_run img alloc_frag frags_needed)) (\<lambda>_. ret (Inl e, ino)) u
      | (Inr (Inr tot, ino), u) \<Rightarrow>
        let tot = tot + frags_needed;
            ino = ino\<lparr>isize := of_nat (unat logical_block * bs + chunk_bytes),
              blocks := tot * sectors_per_frag (sb img)\<rparr>;
            alloc_bytes = unat frags_needed * unat (frag_size (sb img));
            block = clip chunk_bytes (\<lambda>i. data (unat logical_block * bs + i)) in
        (case andthen (sys_os malloc) (\<lambda>_. write_exact img block alloc_bytes (frag_offset img alloc_frag)) u of
           (Inl e, v) \<Rightarrow> (Inr (Inl e, ino), v)
         | (Inr _, v) \<Rightarrow> allocate_data_loop img preferred_cg data (logical_block + 1)
             (remaining - chunk_bytes) tot ino v)))"
  by pat_completeness auto
termination
  by (relation "measure (\<lambda>(img, cg, data, lb, remaining, tot, ino, s). remaining)")
    (auto simp: unat_gt_0)

declare allocate_data_loop.simps [simp del]

definition allocate_data_for_inode ::
    "nextufs_image \<Rightarrow> u32 \<Rightarrow> buf \<Rightarrow> nat \<Rightarrow> nextufs_inode \<Rightarrow> ((errno + unit) \<times> nextufs_inode) fs" where
  "allocate_data_for_inode img preferred_cg data data_len ino =
     andthen (allocate_data_loop img preferred_cg data 0 data_len 0 ino) (\<lambda>r. case r of
       (Inr tot, ino) \<Rightarrow> ret (Inr (), ino\<lparr>isize := of_nat data_len,
         blocks := tot * sectors_per_frag (sb img)\<rparr>)
     | (Inl e, ino) \<Rightarrow> andthen (free_file_storage img ino) (\<lambda>(q, ino).
         ret (Inl (case q of Inl x \<Rightarrow> instead e x | Inr _ \<Rightarrow> e), ino)))"

end
