(* ===== verification/Dirs.thy ===== *)
theory Dirs
  imports BlockMap
begin

text \<open>
  Directories: the entries of a directory block (\<open>nextufs__read_dirent\<close> and friends of
  \<open>src/src/core/layout.c\<close>) and the iteration over a directory (\<open>src/src/core/directory.c\<close>). A name is
  the list of its bytes; a C string is such a list without a zero byte.
\<close>

definition DIRBLKSIZ :: nat where "DIRBLKSIZ = 1024"

definition slash :: u8 where "slash = 0x2f"
definition dot :: u8 where "dot = 0x2e"

text \<open>\<open>8U + ((name_len + 1U + 3U) & ~3U)\<close>: the mask \<open>~3U\<close> has 32 bits, the sum 64.\<close>

definition dirent_size :: "nat \<Rightarrow> nat" where
  "dirent_size name_len = unat (8 + ((of_nat name_len + 1 + 3) AND 0xfffffffc :: u64))"

record nextufs_dirent_view =
  d_ino :: u32
  reclen :: u16
  namlen :: u16
  dname :: "u8 list"

definition read_dirent :: "buf \<Rightarrow> nat \<Rightarrow> nat \<Rightarrow> nextufs_dirent_view option" where
  "read_dirent buf sz off =
     (if sz < off + 8 then None
      else let rl = read_be16 buf (off + 4); nl = read_be16 buf (off + 6) in
      if rl < 8 \<or> sz < off + unat rl \<or> sz < off + 8 + unat nl then None
      else Some \<lparr>d_ino = read_be32 buf off, reclen = rl, namlen = nl,
        dname = list_of buf (off + 8) (unat nl)\<rparr>)"

lemma read_dirent_advances:
  "read_dirent buf sz off = Some ent \<Longrightarrow> off < off + unat (reclen ent) \<and> off + unat (reclen ent) \<le> sz"
  by (auto simp: read_dirent_def Let_def word_less_nat_alt split: if_splits)

text \<open>
  The loop \<open>while (off < size) { read_dirent(...); ...; off += ent.reclen; }\<close>: the entries it
  visits with their offsets, up to the first unreadable one, and the offset where it stops.
\<close>

function walk :: "buf \<Rightarrow> nat \<Rightarrow> nat \<Rightarrow> (nat \<times> nextufs_dirent_view) list" where
  "walk buf sz off =
     (if off < sz then
        (case read_dirent buf sz off of
           None \<Rightarrow> []
         | Some ent \<Rightarrow> (off, ent) # walk buf sz (off + unat (reclen ent)))
      else [])"
  by pat_completeness auto
termination
  by (relation "measure (\<lambda>(buf, sz, off). sz - off)") (auto dest!: read_dirent_advances)

declare walk.simps [simp del]

definition walk_end :: "buf \<Rightarrow> nat \<Rightarrow> nat \<Rightarrow> nat" where
  "walk_end buf sz off = (case walk buf sz off of [] \<Rightarrow> off
     | es \<Rightarrow> fst (last es) + unat (reclen (snd (last es))))"

section \<open>Iterating over a directory\<close>

text \<open>
  A callback gets the inode number, the name and its context; it returns a code (0 to go on)
  with the context, or fails. (No caller reads the context after a failure.)
\<close>

type_synonym 'c dir_iter_cb = "u32 \<Rightarrow> u8 list \<Rightarrow> 'c \<Rightarrow> (nat \<times> 'c) fs"

primrec iterate_entries ::
    "'c dir_iter_cb \<Rightarrow> (nat \<times> nextufs_dirent_view) list \<Rightarrow> 'c \<Rightarrow> (nat \<times> 'c) fs" where
  "iterate_entries cb [] c = ret (0, c)"
| "iterate_entries cb (e # es) c =
     (if d_ino (snd e) \<noteq> 0 \<and> namlen (snd e) \<noteq> 0
      then andthen (cb (d_ino (snd e)) (dname (snd e)) c) (\<lambda>(rc, c).
        if rc \<noteq> 0 then ret (rc, c) else iterate_entries cb es c)
      else iterate_entries cb es c)"

definition read_chunk :: "nextufs_image \<Rightarrow> nextufs_inode \<Rightarrow> nat \<Rightarrow> nat \<Rightarrow> buf \<Rightarrow> buf fs" where
  "read_chunk img dirino block_index chunk_size buf =
     andthen (or_else (inode_read_data img dirino
         (of_nat block_index * ucast (block_size (sb img))) chunk_size buf) EIO) (\<lambda>(b, _). ret b)"

function iterate_blocks ::
    "nextufs_image \<Rightarrow> nextufs_inode \<Rightarrow> 'c dir_iter_cb \<Rightarrow> nat \<Rightarrow> nat \<Rightarrow> buf \<Rightarrow> 'c \<Rightarrow> (nat \<times> 'c) fs" where
  "iterate_blocks img dirino cb block_index remaining buf c s =
     (if remaining = 0 then (Inr (0, c), s)
      else if block_size (sb img) = 0 then (Inl UNDEF, s)
      else let chunk_size = min (unat (block_size (sb img))) remaining in
      case andthen (read_chunk img dirino block_index chunk_size buf) (\<lambda>buf.
          andthen (iterate_entries cb (walk buf chunk_size 0) c) (\<lambda>r. ret (buf, r))) s of
        (Inl e, t) \<Rightarrow> (Inl e, t)
      | (Inr (buf, (rc, c)), t) \<Rightarrow>
          if rc \<noteq> 0 then (Inr (rc, c), t)
          else iterate_blocks img dirino cb (block_index + 1) (remaining - chunk_size) buf c t)"
  by pat_completeness auto
termination
  by (relation "measure (\<lambda>(img, ino, cb, i, remaining, buf, c, s). remaining)") (auto simp: unat_gt_0)

declare iterate_blocks.simps [simp del]

definition directory_iterate ::
    "nextufs_image \<Rightarrow> nextufs_inode \<Rightarrow> 'c dir_iter_cb \<Rightarrow> 'c \<Rightarrow> (nat \<times> 'c) fs" where
  "directory_iterate img dirino cb c =
     andthen (sys_os malloc) (\<lambda>_.
     iterate_blocks img dirino cb 0 (unat (isize dirino)) (\<lambda>_. 0) c)"

definition find_name_cb :: "u8 list \<Rightarrow> u32 dir_iter_cb" where
  "find_name_cb target_name ino name c = ret (if name = target_name then (1, ino) else (0, c))"

text \<open>The inode number found, 0 when the directory has no such entry.\<close>

definition find_name_in_directory :: "nextufs_image \<Rightarrow> nextufs_inode \<Rightarrow> u8 list \<Rightarrow> u32 fs" where
  "find_name_in_directory img dirino target_name =
     andthen (directory_iterate img dirino (find_name_cb target_name) 0) (\<lambda>(_, ino). ret ino)"

section \<open>Nodes\<close>

text \<open>\<open>struct nextufs_node\<close>: an inode with its number and place.\<close>

record nextufs_node =
  inode_no :: u32
  inode_off :: int
  inode :: nextufs_inode

definition node_get_by_inode :: "nextufs_image \<Rightarrow> u32 \<Rightarrow> nextufs_node fs" where
  "node_get_by_inode img ino =
     andthen (inode_read img ino) (\<lambda>(i, off). ret \<lparr>inode_no = ino, inode_off = off, inode = i\<rparr>)"

definition dir_node_cb ::
    "nextufs_image \<Rightarrow> (nextufs_node \<Rightarrow> u8 list \<Rightarrow> 'c \<Rightarrow> (nat \<times> 'c) fs) \<Rightarrow> 'c dir_iter_cb" where
  "dir_node_cb img cb ino name c = andthen (node_get_by_inode img ino) (\<lambda>node. cb node name c)"

definition directory_iterate_nodes ::
    "nextufs_image \<Rightarrow> nextufs_inode \<Rightarrow> (nextufs_node \<Rightarrow> u8 list \<Rightarrow> 'c \<Rightarrow> (nat \<times> 'c) fs) \<Rightarrow> 'c
     \<Rightarrow> (nat \<times> 'c) fs" where
  "directory_iterate_nodes img dirino cb = directory_iterate img dirino (dir_node_cb img cb)"

definition node_is_dir :: "nextufs_node \<Rightarrow> bool" where
  "node_is_dir node \<longleftrightarrow> mode (inode node) AND IFMT = IFDIR"

definition node_is_reg :: "nextufs_node \<Rightarrow> bool" where
  "node_is_reg node \<longleftrightarrow> mode (inode node) AND IFMT = IFREG"

definition node_is_lnk :: "nextufs_node \<Rightarrow> bool" where
  "node_is_lnk node \<longleftrightarrow> mode (inode node) AND IFMT = IFLNK"

definition R_OK :: u32 where "R_OK = 4"
definition W_OK :: u32 where "W_OK = 2"
definition X_OK :: u32 where "X_OK = 1"
definition F_OK :: u32 where "F_OK = 0"

definition node_check_access_bits ::
    "nextufs_node \<Rightarrow> u32 \<Rightarrow> u32 \<Rightarrow> u32 list \<Rightarrow> u32 \<Rightarrow> bool \<Rightarrow> errno + unit" where
  "node_check_access_bits node user grp groups access allow_write =
     (let md = mode (inode node) in
      if \<not> allow_write \<and> access AND W_OK \<noteq> 0 then Inl EROFS
      else if access = F_OK then Inr ()
      else if user = 0 then
        (if access AND X_OK \<noteq> 0 \<and> md AND 0x49 = 0 then Inl EACCES else Inr ())
      else
      let perms = (if user = ucast (uid (inode node)) then drop_bit 6 md AND 7
             else if grp = ucast (gid (inode node)) \<or> ucast (gid (inode node)) \<in> set groups
             then drop_bit 3 md AND 7
             else md AND 7);
          bits = (if access AND R_OK \<noteq> 0 then 4 else 0) OR (if access AND W_OK \<noteq> 0 then 2 else 0) OR
             (if access AND X_OK \<noteq> 0 then 1 else 0)
      in if perms AND bits \<noteq> bits then Inl EACCES else Inr ())"

definition node_check_access :: "nextufs_node \<Rightarrow> u32 \<Rightarrow> u32 \<Rightarrow> u32 \<Rightarrow> errno + unit" where
  "node_check_access node user grp access = node_check_access_bits node user grp [] access False"

record file_stat =
  st_ino :: u32
  st_mode :: u16
  st_nlink :: u16
  st_uid :: u16
  st_gid :: u16
  st_size :: int
  st_blocks :: u32
  st_rdev :: u32
  st_atime :: u32
  st_mtime :: u32
  st_ctime :: u32

definition node_stat :: "nextufs_node \<Rightarrow> file_stat" where
  "node_stat node = (let i = inode node in
     \<lparr>st_ino = inode_no node, st_mode = mode i, st_nlink = (if nlink i \<noteq> 0 then nlink i else 1),
      st_uid = uid i, st_gid = gid i, st_size = sint (isize i), st_blocks = blocks i,
      st_rdev = (if mode i AND IFMT = IFCHR \<or> mode i AND IFMT = IFBLK then db i ! 0 else 0),
      st_atime = atime i, st_mtime = mtime i, st_ctime = ctime i\<rparr>)"

record file_statvfs =
  f_bsize :: u64
  f_frsize :: u64
  f_blocks :: u64
  f_bfree :: u64
  f_bavail :: u64
  f_files :: u64
  f_ffree :: u64
  f_favail :: u64
  f_namemax :: u64

definition fs_statvfs :: "nextufs_image \<Rightarrow> errno + file_statvfs" where
  "fs_statvfs img = (let p = sb img in
     if frag_size p = 0 \<or> block_size p = 0 \<or> frags_per_block p = 0 then Inl EINVAL
     else
     let free_frags = ucast (free_block_count p) * ucast (frags_per_block p) + ucast (free_frag_count p);
         reserved_frags = (ucast (data_frag_count p) * ucast (minfree p)) div 100;
         avail_frags = (if reserved_frags < free_frags then free_frags - reserved_frags else 0);
         total_inodes = ucast (cg_count p) * ucast (inodes_per_group p)
     in Inr \<lparr>f_bsize = ucast (block_size p), f_frsize = ucast (frag_size p),
       f_blocks = ucast (data_frag_count p), f_bfree = free_frags, f_bavail = avail_frags,
       f_files = total_inodes, f_ffree = ucast (free_inode_count p),
       f_favail = ucast (free_inode_count p), f_namemax = 255\<rparr>)"

end
