(* ===== verification/Paths.thy ===== *)
theory Paths
  imports Dirs
begin

text \<open>
  Path names: splitting off the last component (\<open>nextufs__path_split\<close> of \<open>src/src/core/layout.c\<close>),
  the lookup with its symbolic links (\<open>src/src/core/path.c\<close>) and the operations of
  \<open>src/src/core/node.c\<close> that start from a path. A path is a C string, the list of its bytes.
\<close>

definition MAX_LOOKUP_DEPTH :: nat where "MAX_LOOKUP_DEPTH = 16"
definition MAX_PATH_LEN :: nat where "MAX_PATH_LEN = 4096"
definition ROOT_INODE :: u32 where "ROOT_INODE = 2"

text \<open>The results are the parent and the name; the sizes are those of their buffers.\<close>

definition path_split :: "u8 list \<Rightarrow> nat \<Rightarrow> nat \<Rightarrow> errno + (u8 list \<times> u8 list)" where
  "path_split path parent_size name_size =
     (if path = [] \<or> hd path \<noteq> slash then Inl EINVAL
      else let name = rev (takeWhile (\<lambda>c. c \<noteq> slash) (rev path));
               parent_len = length path - length name - 1 in
      if name = [] then Inl EINVAL
      else if name_size \<le> length name then Inl ENAMETOOLONG
      else if parent_len = 0 then (if parent_size < 2 then Inl ENAMETOOLONG else Inr ([slash], name))
      else if parent_size < parent_len + 1 then Inl ENAMETOOLONG
      else Inr (take parent_len path, name))"

section \<open>Lookup\<close>

text \<open>
  \<open>strsep(&cursor, "/")\<close> until it returns \<open>NULL\<close>: the segments, each with the value of \<open>cursor\<close>
  after it (\<open>None\<close> for \<open>NULL\<close>).
\<close>

function strsep_all :: "u8 list \<Rightarrow> (u8 list \<times> u8 list option) list" where
  "strsep_all path =
     (let segment = takeWhile (\<lambda>c. c \<noteq> slash) path; rest = dropWhile (\<lambda>c. c \<noteq> slash) path in
      case rest of [] \<Rightarrow> [(segment, None)]
      | _ # cursor \<Rightarrow> (segment, Some cursor) # strsep_all cursor)"
  by pat_completeness auto
termination
  by (relation "measure length") (auto dest!: arg_cong [of _ _ length]
    intro: le_less_trans [OF length_dropWhile_le] simp: Suc_le_eq [symmetric] length_dropWhile_le)

declare strsep_all.simps [simp del]

text \<open>\<open>snprintf\<close> into the buffer of \<open>MAX_PATH_LEN\<close> bytes: \<open>None\<close> when it does not fit.\<close>

definition bounded_path :: "u8 list \<Rightarrow> u8 list option" where
  "bounded_path p = (if MAX_PATH_LEN \<le> length p then None else Some p)"

definition append_path_component :: "u8 list \<Rightarrow> u8 list \<Rightarrow> u8 list option" where
  "append_path_component path component =
     bounded_path (if path = [slash] \<or> path = [] then slash # component else path @ slash # component)"

text \<open>The path a symbolic link in the directory \<open>prefix\<close> stands for, \<open>remainder\<close> still to come.\<close>

definition link_path :: "u8 list \<Rightarrow> u8 list \<Rightarrow> u8 list \<Rightarrow> u8 list" where
  "link_path prefix link_target remainder =
     (if link_target \<noteq> [] \<and> hd link_target = slash
      then (if remainder \<noteq> [] then link_target @ slash # remainder else link_target)
      else (if remainder \<noteq> [] then prefix @ slash # link_target @ slash # remainder
            else prefix @ slash # link_target))"

text \<open>\<open>again\<close> is the recursive call on the path of a link, \<open>follow\<close> is \<open>follow_final_symlink\<close>.\<close>

primrec lookup_segments ::
    "nextufs_image \<Rightarrow> bool \<Rightarrow> (u8 list \<Rightarrow> nextufs_node fs) \<Rightarrow> (u8 list \<times> u8 list option) list
     \<Rightarrow> u8 list \<Rightarrow> nextufs_node \<Rightarrow> nextufs_node fs" where
  "lookup_segments img follow again [] prefix cur = ret cur"
| "lookup_segments img follow again (sc # rest) prefix cur =
     (case sc of (segment, cursor) \<Rightarrow>
      if segment = [] then lookup_segments img follow again rest prefix cur
      else if mode (inode cur) AND IFMT \<noteq> IFDIR then fail ENOTDIR
      else
      andthen (or_else (find_name_in_directory img (inode cur) segment) EIO) (\<lambda>next_inode_no.
      if next_inode_no = 0 then fail ENOENT
      else
      andthen (or_else (node_get_by_inode img next_inode_no) EIO) (\<lambda>nxt.
      let remainder = (case cursor of None \<Rightarrow> [] | Some c \<Rightarrow> c) in
      if MAX_PATH_LEN \<le> length remainder then fail ENAMETOOLONG
      else if mode (inode nxt) AND IFMT = IFLNK \<and> (remainder = [] \<longrightarrow> follow) then
        andthen (or_else (inode_readlink img (inode nxt) MAX_PATH_LEN) EIO) (\<lambda>t.
        case bounded_path (link_path prefix (takeWhile (\<lambda>c. c \<noteq> 0) t) remainder) of
          None \<Rightarrow> fail ENAMETOOLONG
        | Some new_path \<Rightarrow> again new_path)
      else case append_path_component prefix segment of
          None \<Rightarrow> fail ENAMETOOLONG
        | Some prefix \<Rightarrow> lookup_segments img follow again rest prefix nxt)))"

text \<open>The first argument counts the nested lookups still allowed: \<open>depth\<close> is 17 minus it.\<close>

primrec lookup_path_recursive :: "nat \<Rightarrow> nextufs_image \<Rightarrow> u8 list \<Rightarrow> bool \<Rightarrow> nextufs_node fs" where
  "lookup_path_recursive 0 img path follow = fail ELOOP"
| "lookup_path_recursive (Suc n) img path follow =
     andthen (or_else (node_get_by_inode img ROOT_INODE) EIO) (\<lambda>root.
     let path = dropWhile (\<lambda>c. c = slash) path in
     if path = [] then ret root
     else andthen (sys_os malloc) (\<lambda>_.
       lookup_segments img follow (\<lambda>p. lookup_path_recursive n img p follow)
         (strsep_all path) [slash] root))"

definition node_lookup :: "nextufs_image \<Rightarrow> u8 list \<Rightarrow> bool \<Rightarrow> nextufs_node fs" where
  "node_lookup img path follow = lookup_path_recursive (Suc MAX_LOOKUP_DEPTH) img path follow"

definition path_lookup :: "nextufs_image \<Rightarrow> u8 list \<Rightarrow> nextufs_node fs" where
  "path_lookup img path = lookup_path_recursive (Suc MAX_LOOKUP_DEPTH) img path True"

definition path_lookup_nofollow :: "nextufs_image \<Rightarrow> u8 list \<Rightarrow> nextufs_node fs" where
  "path_lookup_nofollow img path = lookup_path_recursive (Suc MAX_LOOKUP_DEPTH) img path False"

definition node_get_root :: "nextufs_image \<Rightarrow> nextufs_node fs" where
  "node_get_root img = node_lookup img [slash] True"

section \<open>Operations on paths\<close>

definition path_readlink :: "nextufs_image \<Rightarrow> u8 list \<Rightarrow> nat \<Rightarrow> u8 list fs" where
  "path_readlink img path out_size =
     andthen (node_lookup img path False) (\<lambda>node. inode_readlink img (inode node) out_size)"

definition directory_iterate_path ::
    "nextufs_image \<Rightarrow> u8 list \<Rightarrow> bool \<Rightarrow> 'c dir_iter_cb \<Rightarrow> 'c \<Rightarrow> (nat \<times> 'c) fs" where
  "directory_iterate_path img path follow cb c =
     andthen (node_lookup img path follow) (\<lambda>node.
     if \<not> node_is_dir node then fail ENOTDIR else directory_iterate img (inode node) cb c)"

definition directory_iterate_nodes_path ::
    "nextufs_image \<Rightarrow> u8 list \<Rightarrow> bool \<Rightarrow> (nextufs_node \<Rightarrow> u8 list \<Rightarrow> 'c \<Rightarrow> (nat \<times> 'c) fs) \<Rightarrow> 'c
     \<Rightarrow> (nat \<times> 'c) fs" where
  "directory_iterate_nodes_path img path follow cb c =
     andthen (node_lookup img path follow) (\<lambda>node.
     if \<not> node_is_dir node then fail ENOTDIR else directory_iterate_nodes img (inode node) cb c)"

definition path_read :: "nextufs_image \<Rightarrow> u8 list \<Rightarrow> u64 \<Rightarrow> nat \<Rightarrow> buf \<Rightarrow> (buf \<times> nat) fs" where
  "path_read img path start buf_size out =
     andthen (node_lookup img path True) (\<lambda>node.
     if \<not> node_is_reg node then fail EINVAL else inode_read_data img (inode node) start buf_size out)"

end
