(* ===== verification/DirMutate.thy ===== *)
theory DirMutate
  imports Paths
begin

text \<open>
  Changing directories (\<open>src/src/mutate/dir_mutate.c\<close>): the entry-level operations on the bytes of
  a directory block, and the functions that read a directory, apply them and write it back. An
  access outside the block's buffer is \<open>UNDEF\<close>.
\<close>

section \<open>Entries in a block\<close>

definition write_dirent_raw ::
    "buf \<Rightarrow> nat \<Rightarrow> nat \<Rightarrow> u32 \<Rightarrow> u16 \<Rightarrow> u8 list \<Rightarrow> errno + buf" where
  "write_dirent_raw b sz p ino rl name =
     (if 255 < length name then Inl ENAMETOOLONG
      else if sz < p + max (unat rl) (8 + length name) then Inl UNDEF
      else let b = fill b p (unat rl) 0;
               b = write_be32 b p ino;
               b = write_be16 b (p + 4) rl;
               b = write_be16 b (p + 6) (of_nat (length name))
      in Inr (blit b (p + 8) (length name) (bytes_of name)))"

definition used_size :: "nextufs_dirent_view \<Rightarrow> nat" where
  "used_size ent = (if d_ino ent = 0 then 0 else dirent_size (unat (namlen ent)))"

text \<open>\<open>slack = ent.reclen - used\<close> in \<open>size_t\<close>.\<close>

definition slack :: "nextufs_dirent_view \<Rightarrow> u64" where
  "slack ent = ucast (reclen ent) - of_nat (used_size ent)"

definition has_room :: "nat \<Rightarrow> nextufs_dirent_view \<Rightarrow> bool" where
  "has_room need ent \<longleftrightarrow> d_ino ent = 0 \<and> need \<le> unat (reclen ent) \<or>
     d_ino ent \<noteq> 0 \<and> need \<le> unat (slack ent)"

definition insert_at ::
    "buf \<Rightarrow> nat \<Rightarrow> nat \<Rightarrow> nextufs_dirent_view \<Rightarrow> u8 list \<Rightarrow> u32 \<Rightarrow> errno + buf" where
  "insert_at block bsize off ent name new_inode =
     (case (if d_ino ent = 0 then write_dirent_raw block bsize off new_inode (reclen ent) name
            else write_dirent_raw (write_be16 block (off + 4) (of_nat (used_size ent))) bsize
              (off + used_size ent) new_inode (ucast (slack ent)) name) of
        Inl e \<Rightarrow> Inl (instead EINVAL e)
      | Inr b \<Rightarrow> Inr b)"

text \<open>The scan of one block for room: \<open>None\<close> when no entry has any.\<close>

definition insert_in_block :: "buf \<Rightarrow> nat \<Rightarrow> nat \<Rightarrow> u8 list \<Rightarrow> u32 \<Rightarrow> (errno + buf) option" where
  "insert_in_block block bsize chunk_size name new_inode =
     (case find (\<lambda>(off, ent). has_room (dirent_size (length name)) ent) (walk block chunk_size 0) of
        None \<Rightarrow> None
      | Some (off, ent) \<Rightarrow> Some (insert_at block bsize off ent name new_inode))"

text \<open>The entry to remove, with the offset of the last entry in use before it.\<close>

primrec find_victim :: "u8 list \<Rightarrow> nat option \<Rightarrow> (nat \<times> nextufs_dirent_view) list
    \<Rightarrow> (nat option \<times> nat \<times> nextufs_dirent_view) option" where
  "find_victim name prev [] = None"
| "find_victim name prev (e # es) =
     (if d_ino (snd e) \<noteq> 0 \<and> dname (snd e) = name then Some (prev, e)
      else find_victim name (if d_ino (snd e) \<noteq> 0 then Some (fst e) else prev) es)"

text \<open>
  One directory block of \<open>dirblk_size\<close> bytes at \<open>base\<close> of the buffer. The result is the changed
  buffer and the inode number of the removed entry.
\<close>

definition remove_in_dirblk ::
    "buf \<Rightarrow> nat \<Rightarrow> nat \<Rightarrow> u8 list \<Rightarrow> (errno + (buf \<times> u32)) option" where
  "remove_in_dirblk block base dirblk_size name =
     (let dirblk = (\<lambda>i. block (base + i)) in
      case find_victim name None (walk dirblk dirblk_size 0) of
        None \<Rightarrow> None
      | Some (prev, off, ent) \<Rightarrow> Some (
          if name = [dot] \<or> name = [dot, dot] then Inl EINVAL
          else case prev of
            None \<Rightarrow> Inr (write_be32 block (base + off) 0, d_ino ent)
          | Some prev_off \<Rightarrow>
            (case read_dirent dirblk dirblk_size prev_off of
               None \<Rightarrow> Inl EINVAL
             | Some prev_ent \<Rightarrow>
               Inr (write_be16 block (base + prev_off + 4) (reclen prev_ent + reclen ent), d_ino ent))))"

text \<open>The loop over the directory blocks of a file system block.\<close>

function remove_in_block :: "buf \<Rightarrow> nat \<Rightarrow> nat \<Rightarrow> u8 list \<Rightarrow> (errno + (buf \<times> u32)) option" where
  "remove_in_block block chunk_size base name =
     (if base < chunk_size then
        (case remove_in_dirblk block base (min (chunk_size - base) DIRBLKSIZ) name of
           Some r \<Rightarrow> Some r
         | None \<Rightarrow> remove_in_block block chunk_size (base + DIRBLKSIZ) name)
      else None)"
  by pat_completeness auto
termination
  by (relation "measure (\<lambda>(block, chunk_size, base, name). chunk_size - base)") (auto simp: DIRBLKSIZ_def)

declare remove_in_block.simps [simp del]

section \<open>Directories\<close>

definition update_node_times :: "nextufs_image \<Rightarrow> nextufs_node \<Rightarrow> nextufs_node fs" where
  "update_node_times img node =
     andthen (sys_os time) (\<lambda>now.
     let ino = (inode node)\<lparr>mtime := now, ctime := now, atime := now\<rparr> in
     andthen (write_inode_raw img (inode_no node) ino) (\<lambda>_.
     node_get_by_inode img (inode_no node)))"

text \<open>The results are the node with its new size and the offset of the new directory block.\<close>

definition grow_directory_by_dirblk :: "nextufs_image \<Rightarrow> nextufs_node \<Rightarrow> (nextufs_node \<times> int) fs" where
  "grow_directory_by_dirblk img dirnode =
     (let ino = inode dirnode; old_size = isize ino; bs = block_size (sb img); fs = frag_size (sb img) in
      if old_size mod of_nat DIRBLKSIZ \<noteq> 0 then fail EINVAL
      else if bs = 0 then fail UNDEF
      else
      let new_size = old_size + of_nat DIRBLKSIZ;
          logical_block = ucast (old_size div ucast bs) :: u32;
          inblock_old_size = ucast (old_size mod ucast bs) :: u32;
          preferred = inode_no dirnode div inodes_per_group (sb img);
          old_frags = (if inblock_old_size = 0 then 0 else (inblock_old_size + fs - 1) div fs);
          new_frags = (if inblock_old_size = 0 then 1
            else (inblock_old_size + of_nat DIRBLKSIZ + fs - 1) div fs) in
      if 12 \<le> logical_block then fail EFBIG
      else
      andthen
        (if inblock_old_size = 0 then
           if inodes_per_group (sb img) = 0 then fail UNDEF else allocate_frags_anycg img preferred 1
         else if fs = 0 then fail UNDEF
         else let alloc_frag = db ino ! unat logical_block in
           if alloc_frag = 0 then fail EINVAL
           else if old_frags < new_frags then
             attempt (extend_fragment_run img alloc_frag old_frags new_frags) (\<lambda>r. case r of
               Inr _ \<Rightarrow> ret alloc_frag
             | Inl e \<Rightarrow> if e = ENOSPC
                 then if inodes_per_group (sb img) = 0 then fail UNDEF
                 else reallocate_fragment_run img alloc_frag old_frags new_frags preferred
                 else fail e)
           else ret alloc_frag) (\<lambda>alloc_frag.
      let ino = ino\<lparr>db := (db ino)[unat logical_block := alloc_frag], isize := new_size,
            blocks := blocks ino + (new_frags - old_frags) * sectors_per_frag (sb img)\<rparr>;
          new_block_off = frag_offset img alloc_frag + int (unat inblock_old_size) in
      andthen (update_node_times img (dirnode\<lparr>inode := ino\<rparr>)) (\<lambda>node. ret (node, new_block_off))))"

definition insert_in_new_dirblk ::
    "nextufs_image \<Rightarrow> nextufs_node \<Rightarrow> u8 list \<Rightarrow> u32 \<Rightarrow> nextufs_node fs" where
  "insert_in_new_dirblk img dirnode name new_inode =
     (if DIRBLKSIZ < dirent_size (length name) then fail ENOSPC
      else andthen (or_else (grow_directory_by_dirblk img dirnode) ENOSPC) (\<lambda>(dirnode, new_block_off).
      case write_dirent_raw (\<lambda>_. 0) DIRBLKSIZ 0 new_inode (of_nat DIRBLKSIZ) name of
        Inl e \<Rightarrow> fail (instead EINVAL e)
      | Inr new_dirblk \<Rightarrow>
        andthen (or_else (write_exact img new_dirblk DIRBLKSIZ new_block_off) EIO) (\<lambda>_. ret dirnode)))"

function insert_loop ::
    "nextufs_image \<Rightarrow> nextufs_node \<Rightarrow> u8 list \<Rightarrow> u32 \<Rightarrow> nat \<Rightarrow> nat \<Rightarrow> buf \<Rightarrow> nextufs_node fs" where
  "insert_loop img dirnode name new_inode block_index remaining block s =
     (if remaining = 0 then insert_in_new_dirblk img dirnode name new_inode s
      else if block_size (sb img) = 0 then (Inl UNDEF, s)
      else let chunk_size = min (unat (block_size (sb img))) remaining in
      case read_chunk img (inode dirnode) block_index chunk_size block s of
        (Inl e, t) \<Rightarrow> (Inl e, t)
      | (Inr block, t) \<Rightarrow>
      (case insert_in_block block (unat (block_size (sb img))) chunk_size name new_inode of
         None \<Rightarrow> insert_loop img dirnode name new_inode (block_index + 1) (remaining - chunk_size) block t
       | Some (Inl e) \<Rightarrow> (Inl e, t)
       | Some (Inr block) \<Rightarrow>
         (if 12 \<le> block_index then (Inl ENOSPC, t)
          else andthen (or_else (write_exact img block chunk_size
              (frag_offset img (db (inode dirnode) ! block_index))) EIO) (\<lambda>_.
            update_node_times img dirnode) t)))"
  by pat_completeness auto
termination
  by (relation "measure (\<lambda>(img, node, name, ino, i, remaining, block, s). remaining)")
    (auto simp: unat_gt_0)

declare insert_loop.simps [simp del]

definition insert_dirent ::
    "nextufs_image \<Rightarrow> nextufs_node \<Rightarrow> u8 list \<Rightarrow> u32 \<Rightarrow> nextufs_node fs" where
  "insert_dirent img dirnode name new_inode =
     andthen (sys_os malloc) (\<lambda>_.
     insert_loop img dirnode name new_inode 0 (unat (isize (inode dirnode))) (\<lambda>_. 0))"

function remove_loop ::
    "nextufs_image \<Rightarrow> nextufs_node \<Rightarrow> u8 list \<Rightarrow> nat \<Rightarrow> nat \<Rightarrow> buf \<Rightarrow> (nextufs_node \<times> u32) fs" where
  "remove_loop img dirnode name block_index remaining block s =
     (if remaining = 0 then (Inl ENOENT, s)
      else if block_size (sb img) = 0 then (Inl UNDEF, s)
      else let chunk_size = min (unat (block_size (sb img))) remaining in
      case read_chunk img (inode dirnode) block_index chunk_size block s of
        (Inl e, t) \<Rightarrow> (Inl e, t)
      | (Inr block, t) \<Rightarrow>
      (if 12 \<le> block_index \<or> db (inode dirnode) ! block_index = 0 then (Inl EINVAL, t)
       else case remove_in_block block chunk_size 0 name of
         None \<Rightarrow> remove_loop img dirnode name (block_index + 1) (remaining - chunk_size) block t
       | Some (Inl e) \<Rightarrow> (Inl e, t)
       | Some (Inr (block, removed_inode)) \<Rightarrow>
          andthen (or_else (write_exact img block chunk_size
            (frag_offset img (db (inode dirnode) ! block_index))) EIO) (\<lambda>_.
          andthen (update_node_times img dirnode) (\<lambda>node. ret (node, removed_inode))) t))"
  by pat_completeness auto
termination
  by (relation "measure (\<lambda>(img, node, name, i, remaining, block, s). remaining)")
    (auto simp: unat_gt_0)

declare remove_loop.simps [simp del]

definition remove_dirent :: "nextufs_image \<Rightarrow> nextufs_node \<Rightarrow> u8 list \<Rightarrow> (nextufs_node \<times> u32) fs" where
  "remove_dirent img dirnode name =
     andthen (sys_os malloc) (\<lambda>_.
     remove_loop img dirnode name 0 (unat (isize (inode dirnode))) (\<lambda>_. 0))"

definition new_directory_block :: "u32 \<Rightarrow> u32 \<Rightarrow> errno + buf" where
  "new_directory_block self_ino parent_ino =
     (case write_dirent_raw (\<lambda>_. 0) DIRBLKSIZ 0 self_ino (of_nat (dirent_size 1)) [dot] of
        Inl e \<Rightarrow> Inl (instead EINVAL e)
      | Inr dirblk \<Rightarrow>
        (case write_dirent_raw dirblk DIRBLKSIZ (dirent_size 1) parent_ino
            (of_nat (DIRBLKSIZ - dirent_size 1)) [dot, dot] of
           Inl e \<Rightarrow> Inl (instead EINVAL e)
         | Inr dirblk \<Rightarrow> Inr dirblk))"

definition write_new_directory_block :: "nextufs_image \<Rightarrow> u32 \<Rightarrow> u32 \<Rightarrow> u32 \<Rightarrow> unit fs" where
  "write_new_directory_block img frag_addr self_ino parent_ino =
     (case new_directory_block self_ino parent_ino of
        Inl e \<Rightarrow> fail e
      | Inr dirblk \<Rightarrow> write_exact img dirblk DIRBLKSIZ (frag_offset img frag_addr))"

text \<open>
  The scan of one block for \<open>directory_is_empty\<close>: \<open>None\<close> as soon as something is wrong or another
  name is found, else which of the two special names have been seen.
\<close>

fun only_dots :: "u32 \<Rightarrow> u32 \<Rightarrow> (nat \<times> nextufs_dirent_view) list \<Rightarrow> bool \<times> bool \<Rightarrow> (bool \<times> bool) option" where
  "only_dots self parent [] seen = Some seen"
| "only_dots self parent ((off, ent) # es) seen =
     (if d_ino ent = 0 then only_dots self parent es seen
      else if dname ent = [dot] then
        (if d_ino ent \<noteq> self then None else only_dots self parent es (True, snd seen))
      else if dname ent = [dot, dot] then
        (if d_ino ent \<noteq> parent then None else only_dots self parent es (fst seen, True))
      else None)"

function is_empty_loop ::
    "nextufs_image \<Rightarrow> nextufs_node \<Rightarrow> u32 \<Rightarrow> nat \<Rightarrow> nat \<Rightarrow> buf \<Rightarrow> bool \<times> bool \<Rightarrow> bool fs" where
  "is_empty_loop img dirnode parent_ino block_index remaining block seen s =
     (if remaining = 0 then (Inr (fst seen \<and> snd seen), s)
      else if block_size (sb img) = 0 then (Inl UNDEF, s)
      else let chunk_size = min (unat (block_size (sb img))) remaining in
      case read_chunk img (inode dirnode) block_index chunk_size block s of
        (Inl e, t) \<Rightarrow> (if e = UNDEF then Inl UNDEF else Inr False, t)
      | (Inr block, t) \<Rightarrow>
      (case only_dots (inode_no dirnode) parent_ino (walk block chunk_size 0) seen of
         None \<Rightarrow> (Inr False, t)
       | Some seen \<Rightarrow> if walk_end block chunk_size 0 < chunk_size then (Inr False, t)
           else is_empty_loop img dirnode parent_ino (block_index + 1) (remaining - chunk_size) block seen t))"
  by pat_completeness auto
termination
  by (relation "measure (\<lambda>(img, node, p, i, remaining, block, seen, s). remaining)")
    (auto simp: unat_gt_0)

declare is_empty_loop.simps [simp del]

definition directory_is_empty :: "nextufs_image \<Rightarrow> nextufs_node \<Rightarrow> u32 \<Rightarrow> bool fs" where
  "directory_is_empty img dirnode parent_ino =
     (if \<not> node_is_dir dirnode then ret False
      else attempt (sys_os malloc) (\<lambda>r. case r of
        Inl _ \<Rightarrow> ret False
      | Inr _ \<Rightarrow> is_empty_loop img dirnode parent_ino 0 (unat (isize (inode dirnode))) (\<lambda>_. 0)
          (False, False)))"

definition parent_entry :: "u32 \<Rightarrow> buf \<Rightarrow> (nat \<times> u32) option" where
  "parent_entry self dirblk =
     (case read_dirent dirblk DIRBLKSIZ 0 of
        None \<Rightarrow> None
      | Some ent \<Rightarrow>
        if d_ino ent \<noteq> self \<or> dname ent \<noteq> [dot] then None
        else (case read_dirent dirblk DIRBLKSIZ (unat (reclen ent)) of
           None \<Rightarrow> None
         | Some dd \<Rightarrow> if dname dd \<noteq> [dot, dot] then None else Some (unat (reclen ent), d_ino dd)))"

definition read_directory_parent_inode :: "nextufs_image \<Rightarrow> nextufs_node \<Rightarrow> u32 fs" where
  "read_directory_parent_inode img dirnode =
     (if \<not> node_is_dir dirnode \<or> isize (inode dirnode) < of_nat DIRBLKSIZ then fail ENOTDIR
      else andthen (or_else (inode_read_data img (inode dirnode) 0 DIRBLKSIZ (\<lambda>_. 0)) EIO) (\<lambda>(dirblk, _).
      case parent_entry (inode_no dirnode) dirblk of
        None \<Rightarrow> fail EINVAL
      | Some (_, ino) \<Rightarrow> ret ino))"

definition update_directory_parent_inode ::
    "nextufs_image \<Rightarrow> nextufs_node \<Rightarrow> u32 \<Rightarrow> nextufs_node fs" where
  "update_directory_parent_inode img dirnode parent_inode =
     (if \<not> node_is_dir dirnode \<or> isize (inode dirnode) < of_nat DIRBLKSIZ \<or> db (inode dirnode) ! 0 = 0
      then fail ENOTDIR
      else andthen (or_else (inode_read_data img (inode dirnode) 0 DIRBLKSIZ (\<lambda>_. 0)) EIO) (\<lambda>(dirblk, _).
      case read_dirent dirblk DIRBLKSIZ 0 of
        None \<Rightarrow> fail EINVAL
      | Some ent \<Rightarrow> let second_off = unat (reclen ent) in
        (case read_dirent dirblk DIRBLKSIZ second_off of
           None \<Rightarrow> fail EINVAL
         | Some dd \<Rightarrow>
           if dname dd \<noteq> [dot, dot] then fail EINVAL
           else andthen (write_exact img (write_be32 dirblk second_off parent_inode) DIRBLKSIZ
               (frag_offset img (db (inode dirnode) ! 0))) (\<lambda>_.
             update_node_times img dirnode))))"

end
