(* ===== verification/DirBlock.thy ===== *)
theory DirBlock
  imports DirMutate
begin

text \<open>
  The entries of a directory block as a list, and what inserting and removing an entry does to
  this list: the entry-level functions of \<open>DirMutate\<close> refine operations on lists of entries.
\<close>

section \<open>Sizes\<close>

lemma align_mask: "(w :: u64) AND 0xfffffffc = push_bit 2 (drop_bit 2 w AND mask 30)"
proof -
  have "(0xfffffffc :: u64) = push_bit 2 (mask 30)" by (simp add: mask_eq_exp_minus_1 push_bit_eq_mult)
  moreover have "w AND push_bit 2 (mask 30) = push_bit 2 (drop_bit 2 w AND mask 30)"
  proof (rule bit_word_eqI)
    fix n
    have "2 \<le> n \<Longrightarrow> Suc (Suc (n - 2)) = n" by arith
    then show "bit (w AND push_bit 2 (mask 30)) n = bit (push_bit 2 (drop_bit 2 w AND mask 30)) n"
      if "n < LENGTH(64)" using that by (auto simp: bit_simps)
  qed
  ultimately show ?thesis by simp
qed

lemma dirent_size_eq:
  assumes "n < 65536"
  shows "dirent_size n = 8 + 4 * ((n + 4) div 4)"
proof -
  have a: "unat (of_nat n + 1 + 3 :: u64) = n + 4"
  proof -
    have "of_nat n + 1 + 3 = (of_nat (n + 4) :: u64)" by simp
    then show ?thesis using assms by (simp only: unsigned_of_nat) (simp add: take_bit_nat_eq_self)
  qed
  have d: "unat (drop_bit 2 (of_nat n + 1 + 3 :: u64)) = (n + 4) div 4"
    unfolding unat_drop_bit_eq a by (simp add: drop_bit_eq_div)
  have "unat (drop_bit 2 (of_nat n + 1 + 3 :: u64) AND mask 30) = (n + 4) div 4"
    using d assms by (simp add: unsigned_take_bit_eq flip: take_bit_eq_mask) (simp add: take_bit_nat_eq_self)
  then have "unat ((of_nat n + 1 + 3 :: u64) AND 0xfffffffc) = 4 * ((n + 4) div 4)"
    unfolding align_mask push_bit_eq_mult using assms by (subst unat_mult_lem [THEN iffD1]) simp_all
  moreover have "4 * ((n + 4) div 4) < 65544" using assms by linarith
  ultimately show ?thesis unfolding dirent_size_def by (subst unat_add_lem [THEN iffD1]) simp_all
qed

lemma dirent_size_name: "n < 65536 \<Longrightarrow> 8 + n < dirent_size n \<and> dirent_size n \<le> n + 12"
  using dirent_size_eq [of n] by linarith

section \<open>Blocks as lists of entries\<close>

definition sound_dirent :: "nextufs_dirent_view \<Rightarrow> bool" where
  "sound_dirent e \<longleftrightarrow> 8 + unat (namlen e) \<le> unat (reclen e) \<and> used_size e \<le> unat (reclen e)"

text \<open>The bytes from \<open>off\<close> to \<open>stop\<close> are exactly the entries \<open>es\<close>, whose names fit their records.\<close>

primrec holds_entries :: "buf \<Rightarrow> nat \<Rightarrow> nat \<Rightarrow> nextufs_dirent_view list \<Rightarrow> nat \<Rightarrow> bool" where
  "holds_entries b sz off [] stop \<longleftrightarrow> off = stop"
| "holds_entries b sz off (e # es) stop \<longleftrightarrow> read_dirent b sz off = Some e \<and> sound_dirent e \<and>
     holds_entries b sz (off + unat (reclen e)) es stop"

primrec offsets :: "nat \<Rightarrow> nextufs_dirent_view list \<Rightarrow> (nat \<times> nextufs_dirent_view) list" where
  "offsets off [] = []"
| "offsets off (e # es) = (off, e) # offsets (off + unat (reclen e)) es"

text \<open>The names a reader of the directory sees, with their inode numbers.\<close>

definition live :: "nextufs_dirent_view list \<Rightarrow> (u8 list \<times> u32) list" where
  "live es = map (\<lambda>e. (dname e, d_ino e)) (filter (\<lambda>e. d_ino e \<noteq> 0) es)"

lemma live_simps [simp]:
  "live [] = []" "live (es @ fs) = live es @ live fs"
  "live (e # es) = (if d_ino e \<noteq> 0 then [(dname e, d_ino e)] else []) @ live es"
  by (simp_all add: live_def)

lemma read_dirent_bounds:
  "read_dirent b sz off = Some e \<Longrightarrow> 8 \<le> unat (reclen e) \<and> off + unat (reclen e) \<le> sz \<and>
     length (dname e) = unat (namlen e)"
  by (auto simp: read_dirent_def Let_def word_less_nat_alt split: if_splits)

lemma holds_entries_le: "holds_entries b sz off es stop \<Longrightarrow> off \<le> stop \<and> (es \<noteq> [] \<longrightarrow> stop \<le> sz)"
proof (induction es arbitrary: off)
  case (Cons e es)
  then have "read_dirent b sz off = Some e" "holds_entries b sz (off + unat (reclen e)) es stop" by auto
  from read_dirent_bounds [OF this(1)] Cons.IH [OF this(2)] this(2) show ?case
    by (cases es) auto
qed simp

lemma holds_entries_append:
  "holds_entries b sz off (es @ fs) stop \<longleftrightarrow>
     (\<exists>m. holds_entries b sz off es m \<and> holds_entries b sz m fs stop)"
  by (induction es arbitrary: off) auto

lemma read_dirent_cong:
  assumes "read_dirent b sz off = Some e" "sound_dirent e"
    "\<And>i. off \<le> i \<Longrightarrow> i < off + unat (reclen e) \<Longrightarrow> c i = b i"
  shows "read_dirent c sz off = Some e"
proof -
  note bd = read_dirent_bounds [OF assms(1)]
  from assms(1) have nl: "namlen e = read_be16 b (off + 6)" "reclen e = read_be16 b (off + 4)"
    by (auto simp: read_dirent_def Let_def split: if_splits)
  have "8 + unat (namlen e) \<le> unat (reclen e)" using assms(2) by (simp add: sound_dirent_def)
  then have "list_of c (off + 8) (unat (namlen e)) = list_of b (off + 8) (unat (namlen e))"
    using assms(3) by (intro list_of_cong) simp
  moreover have "read_be32 c off = read_be32 b off" "read_be16 c (off + 4) = read_be16 b (off + 4)"
    "read_be16 c (off + 6) = read_be16 b (off + 6)"
    using assms(3) bd by (auto intro!: read_be32_cong read_be16_cong)
  ultimately show ?thesis using assms(1) by (auto simp: read_dirent_def Let_def nl split: if_splits)
qed

lemma holds_entries_cong:
  assumes "holds_entries b sz off es stop" "\<And>i. off \<le> i \<Longrightarrow> i < stop \<Longrightarrow> c i = b i"
  shows "holds_entries c sz off es stop"
  using assms
proof (induction es arbitrary: off)
  case (Cons e es)
  then have e: "read_dirent b sz off = Some e" "sound_dirent e"
    "holds_entries b sz (off + unat (reclen e)) es stop" by auto
  note le = holds_entries_le [OF e(3)]
  have "read_dirent c sz off = Some e"
    using le by (intro read_dirent_cong [OF e(1,2)] Cons.prems(2)) auto
  with e(2) Cons.IH [OF e(3)] Cons.prems(2) show ?case by simp
qed simp

lemma walk_holds:
  "holds_entries b sz off es sz \<Longrightarrow> walk b sz off = offsets off es"
proof (induction es arbitrary: off)
  case Nil
  then show ?case by (simp add: walk.simps)
next
  case (Cons e es)
  then have e: "read_dirent b sz off = Some e" "holds_entries b sz (off + unat (reclen e)) es sz"
    by auto
  from read_dirent_bounds [OF e(1)] have "off < sz" by simp
  with e Cons.IH [OF e(2)] show ?case by (simp add: walk.simps [of b sz off])
qed

text \<open>A reader that walks the block sees exactly the list.\<close>

lemma walk_end_holds: "holds_entries b sz off es sz \<Longrightarrow> walk_end b sz off = sz"
proof (induction es arbitrary: off)
  case Nil
  then show ?case by (simp add: walk_end_def walk.simps)
next
  case (Cons e es)
  then have rest: "holds_entries b sz (off + unat (reclen e)) es sz" by auto
  from Cons.IH [OF rest] walk_holds [OF rest] walk_holds [OF Cons.prems] show ?case
    by (cases es) (auto simp: walk_end_def)
qed

lemma find_offsets:
  "find (\<lambda>(off, ent). P ent) (offsets off es) = Some (o1, ent) \<Longrightarrow>
     \<exists>pre post. es = pre @ ent # post \<and> P ent \<and> o1 = off + sum_list (map (\<lambda>e. unat (reclen e)) pre)"
proof (induction es arbitrary: off)
  case (Cons e es)
  show ?case
  proof (cases "P e")
    case True
    with Cons.prems show ?thesis by (intro exI [of _ "[]"] exI [of _ es]) simp
  next
    case False
    with Cons.prems have "find (\<lambda>(off, ent). P ent) (offsets (off + unat (reclen e)) es) = Some (o1, ent)"
      by simp
    from Cons.IH [OF this] obtain pre post where "es = pre @ ent # post" "P ent"
      "o1 = off + unat (reclen e) + sum_list (map (\<lambda>e. unat (reclen e)) pre)" by blast
    then show ?thesis by (intro exI [of _ "e # pre"] exI [of _ post]) simp
  qed
qed simp

lemma holds_entries_stop:
  "holds_entries b sz off es stop \<Longrightarrow> stop = off + sum_list (map (\<lambda>e. unat (reclen e)) es)"
proof (induction es arbitrary: off)
  case (Cons e es)
  then have "holds_entries b sz (off + unat (reclen e)) es stop" by simp
  from Cons.IH [OF this] show ?case by simp
qed simp

lemma holds_entries_split:
  assumes "holds_entries b sz off (pre @ ent # post) stop" "o1 = off + sum_list (map (\<lambda>e. unat (reclen e)) pre)"
  shows "holds_entries b sz off pre o1" "read_dirent b sz o1 = Some ent" "sound_dirent ent"
    "holds_entries b sz (o1 + unat (reclen ent)) post stop"
proof -
  from assms(1) obtain m where m: "holds_entries b sz off pre m" "holds_entries b sz m (ent # post) stop"
    by (auto simp: holds_entries_append)
  from holds_entries_stop [OF m(1)] assms(2) have "m = o1" by simp
  with m show "holds_entries b sz off pre o1" "read_dirent b sz o1 = Some ent" "sound_dirent ent"
    "holds_entries b sz (o1 + unat (reclen ent)) post stop" by auto
qed

lemma unat_u16: "unat (w :: u16) < 65536"
  using unsigned_less [of w] by simp

section \<open>Writing an entry\<close>

lemma write_dirent_raw_Inr:
  assumes "write_dirent_raw b bsize p ino rl name = Inr c"
  shows "length name \<le> 255" "p + max (unat rl) (8 + length name) \<le> bsize"
    and "\<And>i. i < p \<or> p + max (unat rl) (8 + length name) \<le> i \<Longrightarrow> c i = b i"
    and "read_be32 c p = ino" "read_be16 c (p + 4) = rl" "read_be16 c (p + 6) = of_nat (length name)"
    and "list_of c (p + 8) (length name) = name"
proof -
  from assms show l: "length name \<le> 255" "p + max (unat rl) (8 + length name) \<le> bsize"
    by (auto simp: write_dirent_raw_def split: if_splits)
  define b1 where "b1 = write_be16 (write_be16 (write_be32 (fill b p (unat rl) 0) p ino) (p + 4) rl)
    (p + 6) (of_nat (length name))"
  have c: "c = blit b1 (p + 8) (length name) (bytes_of name)"
    using assms by (auto simp: write_dirent_raw_def b1_def Let_def split: if_splits)
  show "c i = b i" if "i < p \<or> p + max (unat rl) (8 + length name) \<le> i" for i
  proof -
    from that have "i < p \<or> p + unat rl \<le> i \<and> p + 8 + length name \<le> i" by auto
    then show ?thesis by (auto simp: c b1_def cell_simps fill_def)
  qed
  have hd: "read_be32 c p = read_be32 b1 p" "read_be16 c (p + 4) = read_be16 b1 (p + 4)"
    "read_be16 c (p + 6) = read_be16 b1 (p + 6)"
    by (auto simp: c intro!: read_be32_cong read_be16_cong)
  show "read_be32 c p = ino" "read_be16 c (p + 4) = rl" "read_be16 c (p + 6) = of_nat (length name)"
    by (simp_all add: hd b1_def cell_simps)
  show "list_of c (p + 8) (length name) = name"
    by (rule nth_equalityI) (simp_all add: c bytes_of_def)
qed

text \<open>The entry as a reader sees it afterwards.\<close>

definition new_dirent :: "u32 \<Rightarrow> u16 \<Rightarrow> u8 list \<Rightarrow> nextufs_dirent_view" where
  "new_dirent ino rl name = \<lparr>d_ino = ino, reclen = rl, namlen = of_nat (length name), dname = name\<rparr>"

lemma new_dirent_simps [simp]:
  "d_ino (new_dirent ino rl name) = ino" "reclen (new_dirent ino rl name) = rl"
  "dname (new_dirent ino rl name) = name" "namlen (new_dirent ino rl name) = of_nat (length name)"
  by (simp_all add: new_dirent_def)

lemma unat_of_nat16: "n < 65536 \<Longrightarrow> unat (of_nat n :: u16) = n"
  by (simp add: unsigned_of_nat take_bit_nat_eq_self)

lemma read_new_dirent:
  assumes w: "write_dirent_raw b bsize p ino rl name = Inr c"
    and room: "dirent_size (length name) \<le> unat rl" "p + unat rl \<le> sz"
  shows "read_dirent c sz p = Some (new_dirent ino rl name)" "sound_dirent (new_dirent ino rl name)"
proof -
  note r = write_dirent_raw_Inr [OF w]
  have nl: "unat (of_nat (length name) :: u16) = length name" using r(1) by (intro unat_of_nat16) simp
  have sz: "8 + length name < unat rl" using room(1) dirent_size_name [of "length name"] r(1) by simp
  then have "\<not> rl < 8" by (simp add: word_less_nat_alt)
  with r sz room nl show "read_dirent c sz p = Some (new_dirent ino rl name)"
    by (simp add: read_dirent_def new_dirent_def)
  from sz room nl show "sound_dirent (new_dirent ino rl name)"
    by (simp add: sound_dirent_def used_size_def)
qed

section \<open>Inserting\<close>

text \<open>What becomes of the entry that has the room: a free one is reused, a used one is split.\<close>

definition insert_entry :: "nextufs_dirent_view \<Rightarrow> u32 \<Rightarrow> u8 list \<Rightarrow> nextufs_dirent_view list" where
  "insert_entry ent new name =
     (if d_ino ent = 0 then [new_dirent new (reclen ent) name]
      else [ent\<lparr>reclen := of_nat (used_size ent)\<rparr>, new_dirent new (ucast (slack ent)) name])"

lemma live_insert_entry:
  "new \<noteq> 0 \<Longrightarrow> live (insert_entry ent new name) = live [ent] @ [(name, new)]"
  by (simp add: insert_entry_def)

lemma unat_slack:
  assumes "sound_dirent ent"
  shows "unat (slack ent) = unat (reclen ent) - used_size ent"
    "unat (ucast (slack ent) :: u16) = unat (reclen ent) - used_size ent"
proof -
  have le: "used_size ent \<le> unat (reclen ent)" "unat (reclen ent) < 65536"
    using assms unsigned_less [of "reclen ent"] by (simp_all add: sound_dirent_def)
  have "unat (of_nat (used_size ent) :: u64) = used_size ent"
    using le by (simp add: unsigned_of_nat take_bit_nat_eq_self)
  then show s: "unat (slack ent) = unat (reclen ent) - used_size ent"
    unfolding slack_def using le by (subst unat_sub) (simp_all add: word_le_nat_alt unsigned_ucast_eq take_bit_nat_eq_self)
  show "unat (ucast (slack ent) :: u16) = unat (reclen ent) - used_size ent"
    using s le by (simp add: unsigned_ucast_eq take_bit_nat_eq_self)
qed

lemma read_dirent_split:
  assumes "read_dirent b sz off = Some ent" "sound_dirent ent" "d_ino ent \<noteq> 0"
    "\<And>i. off \<le> i \<Longrightarrow> i < off + used_size ent \<Longrightarrow> c i = write_be16 b (off + 4) (of_nat (used_size ent)) i"
  shows "read_dirent c sz off = Some (ent\<lparr>reclen := of_nat (used_size ent)\<rparr>)"
    "sound_dirent (ent\<lparr>reclen := of_nat (used_size ent)\<rparr>)"
proof -
  let ?u = "used_size ent" and ?n = "unat (namlen ent)"
  have u: "?u = dirent_size ?n" using assms(3) by (simp add: used_size_def)
  have n: "?n < 65536" using unsigned_less [of "namlen ent"] by simp
  note sz = dirent_size_name [OF n]
  note bd = read_dirent_bounds [OF assms(1)]
  have le: "?u \<le> unat (reclen ent)" "unat (reclen ent) < 65536"
    using assms(2) unsigned_less [of "reclen ent"] by (simp_all add: sound_dirent_def)
  then have uu: "unat (of_nat ?u :: u16) = ?u" by (intro unat_of_nat16) simp
  then have rl: "\<not> (of_nat ?u :: u16) < 8" using sz u by (simp add: word_less_nat_alt)
  from assms(1) have e: "namlen ent = read_be16 b (off + 6)" "d_ino ent = read_be32 b off"
    "dname ent = list_of b (off + 8) (unat (read_be16 b (off + 6)))"
    by (auto simp: read_dirent_def Let_def split: if_splits)
  have c: "read_be32 c off = d_ino ent" "read_be16 c (off + 4) = of_nat ?u" "read_be16 c (off + 6) = namlen ent"
  proof -
    have "read_be32 c off = read_be32 (write_be16 b (off + 4) (of_nat ?u)) off"
      "read_be16 c (off + 4) = read_be16 (write_be16 b (off + 4) (of_nat ?u)) (off + 4)"
      "read_be16 c (off + 6) = read_be16 (write_be16 b (off + 4) (of_nat ?u)) (off + 6)"
      using sz u assms(4) by (auto intro!: read_be32_cong read_be16_cong)
    then show "read_be32 c off = d_ino ent" "read_be16 c (off + 4) = of_nat ?u" "read_be16 c (off + 6) = namlen ent"
      by (simp_all add: cell_simps e)
  qed
  have nm: "list_of c (off + 8) ?n = dname ent"
    unfolding e(3) e(1) [symmetric] using sz u assms(4) by (intro list_of_cong) (simp add: cell_simps)
  have "off + 8 \<le> sz" "off + ?u \<le> sz" "off + 8 + ?n \<le> sz" using bd le sz u by linarith+
  with c nm uu rl show "read_dirent c sz off = Some (ent\<lparr>reclen := of_nat ?u\<rparr>)"
    by (simp add: read_dirent_def)
  show "sound_dirent (ent\<lparr>reclen := of_nat ?u\<rparr>)"
    using uu u sz by (simp add: sound_dirent_def used_size_def)
qed

lemma insert_at_entries:
  assumes e: "read_dirent b sz off = Some ent" "sound_dirent ent"
    and room: "has_room (dirent_size (length name)) ent" and sz: "sz \<le> bsize" "length name \<le> 255"
  shows "\<exists>c. insert_at b bsize off ent name new = Inr c \<and>
    holds_entries c sz off (insert_entry ent new name) (off + unat (reclen ent)) \<and>
    (\<forall>i. i < off \<or> off + unat (reclen ent) \<le> i \<longrightarrow> c i = b i)"
proof -
  note bd = read_dirent_bounds [OF e(1)]
  note nm = dirent_size_name [of "length name"]
  show ?thesis
  proof (cases "d_ino ent = 0")
    case True
    with room have need: "dirent_size (length name) \<le> unat (reclen ent)" by (simp add: has_room_def)
    have max: "max (unat (reclen ent)) (8 + length name) = unat (reclen ent)" using need nm sz(2) by simp
    then obtain c where c: "write_dirent_raw b bsize off new (reclen ent) name = Inr c"
      using bd sz by (simp add: write_dirent_raw_def Let_def)
    note w = write_dirent_raw_Inr [OF c]
    from read_new_dirent [OF c need] bd True c w(3) max show ?thesis
      by (auto simp: insert_at_def insert_entry_def)
  next
    case False
    let ?u = "used_size ent" and ?s = "ucast (slack ent) :: u16"
    let ?b = "write_be16 b (off + 4) (of_nat ?u)"
    note us = unat_slack [OF e(2)]
    have need: "dirent_size (length name) \<le> unat ?s" using room False us by (simp add: has_room_def)
    have le: "?u \<le> unat (reclen ent)" using e(2) by (simp add: sound_dirent_def)
    have u8: "8 \<le> ?u"
      using False dirent_size_name [OF unat_u16, of "namlen ent"] by (simp add: used_size_def)
    have max: "max (unat ?s) (8 + length name) = unat ?s" using need nm sz(2) by simp
    have fit: "off + ?u + unat ?s = off + unat (reclen ent)" using us le by simp
    then obtain c where c: "write_dirent_raw ?b bsize (off + ?u) new ?s name = Inr c"
      using bd sz max by (simp add: write_dirent_raw_def Let_def)
    note w = write_dirent_raw_Inr [OF c]
    have new: "read_dirent c sz (off + ?u) = Some (new_dirent new ?s name)" "sound_dirent (new_dirent new ?s name)"
      using read_new_dirent(1) [OF c need, of sz] read_new_dirent(2) [OF c need order.refl] bd fit
      by simp_all
    have old: "read_dirent c sz off = Some (ent\<lparr>reclen := of_nat ?u\<rparr>)" "sound_dirent (ent\<lparr>reclen := of_nat ?u\<rparr>)"
      using read_dirent_split [OF e False, of c] w(3) by simp_all
    have uu: "unat (of_nat ?u :: u16) = ?u"
      using le unat_u16 [of "reclen ent"] by (intro unat_of_nat16) linarith
    have "c i = b i" if "i < off \<or> off + unat (reclen ent) \<le> i" for i
      using w(3) [of i] that max fit u8 by (auto simp: cell_simps)
    with new old uu fit False c show ?thesis
      by (auto simp: insert_at_def insert_entry_def)
  qed
qed

lemma insert_in_block_entries:
  assumes hold: "holds_entries b sz 0 es sz" and sz: "sz \<le> bsize" "length name \<le> 255"
    and run: "insert_in_block b bsize sz name new = Some r"
  shows "\<exists>c pre ent post. r = Inr c \<and> es = pre @ ent # post \<and>
    holds_entries c sz 0 (pre @ insert_entry ent new name @ post) sz \<and> (\<forall>i\<ge>sz. c i = b i)"
proof -
  from run walk_holds [OF hold] obtain off ent where
    f: "find (\<lambda>(off, ent). has_room (dirent_size (length name)) ent) (offsets 0 es) = Some (off, ent)"
    and r: "r = insert_at b bsize off ent name new"
    by (auto simp: insert_in_block_def split: option.splits prod.splits)
  from find_offsets [OF f] obtain pre post where es: "es = pre @ ent # post"
    and room: "has_room (dirent_size (length name)) ent"
    and off: "off = sum_list (map (\<lambda>e. unat (reclen e)) pre)" by auto
  from hold es have pre: "holds_entries b sz 0 pre off"
    and ent: "read_dirent b sz off = Some ent" "sound_dirent ent"
    and post: "holds_entries b sz (off + unat (reclen ent)) post sz"
    using holds_entries_split [of b sz 0 pre ent post sz off] off by simp_all
  from insert_at_entries [OF ent room sz] obtain c where c: "insert_at b bsize off ent name new = Inr c"
    and mid: "holds_entries c sz off (insert_entry ent new name) (off + unat (reclen ent))"
    and frame: "\<forall>i. i < off \<or> off + unat (reclen ent) \<le> i \<longrightarrow> c i = b i" by blast
  have "holds_entries c sz 0 pre off" "holds_entries c sz (off + unat (reclen ent)) post sz"
    using frame by (auto intro: holds_entries_cong [OF pre] holds_entries_cong [OF post])
  with mid have "holds_entries c sz 0 (pre @ insert_entry ent new name @ post) sz"
    by (auto simp: holds_entries_append)
  with r c es frame read_dirent_bounds [OF ent(1)] show ?thesis by auto
qed

section \<open>Removing\<close>

text \<open>\<open>del_name\<close> is the specification: the first binding of the name goes.\<close>

fun del_name :: "u8 list \<Rightarrow> (u8 list \<times> u32) list \<Rightarrow> (u8 list \<times> u32) list" where
  "del_name name [] = []"
| "del_name name (x # xs) = (if fst x = name then xs else x # del_name name xs)"

lemma del_name_append: "name \<notin> fst ` set xs \<Longrightarrow> del_name name (xs @ ys) = xs @ del_name name ys"
  by (induction xs) auto

primrec last_used :: "nat option \<Rightarrow> nat \<Rightarrow> nextufs_dirent_view list \<Rightarrow> nat option" where
  "last_used prev off [] = prev"
| "last_used prev off (e # es) =
     last_used (if d_ino e \<noteq> 0 then Some off else prev) (off + unat (reclen e)) es"

lemma last_used_snoc:
  "last_used prev off (es @ [e]) = (if d_ino e \<noteq> 0
     then Some (off + sum_list (map (\<lambda>e. unat (reclen e)) es)) else last_used prev off es)"
  by (induction es arbitrary: prev off) (auto simp: add.assoc)

lemma last_used_free: "\<forall>e\<in>set es. d_ino e = 0 \<Longrightarrow> last_used prev off es = prev"
  by (induction es arbitrary: off) auto

lemma find_victim_offsets:
  "find_victim name prev (offsets off es) = Some (q, o1, ent) \<Longrightarrow>
     \<exists>pre post. es = pre @ ent # post \<and> o1 = off + sum_list (map (\<lambda>e. unat (reclen e)) pre) \<and>
       d_ino ent \<noteq> 0 \<and> dname ent = name \<and> name \<notin> fst ` set (live pre) \<and> q = last_used prev off pre"
proof (induction es arbitrary: off prev)
  case (Cons e es)
  show ?case
  proof (cases "d_ino e \<noteq> 0 \<and> dname e = name")
    case True
    with Cons.prems show ?thesis by (intro exI [of _ "[]"] exI [of _ es]) simp
  next
    case False
    with Cons.prems have "find_victim name (if d_ino e \<noteq> 0 then Some off else prev)
        (offsets (off + unat (reclen e)) es) = Some (q, o1, ent)" by auto
    from Cons.IH [OF this] obtain pre post where "es = pre @ ent # post"
      "o1 = off + unat (reclen e) + sum_list (map (\<lambda>e. unat (reclen e)) pre)"
      "d_ino ent \<noteq> 0" "dname ent = name" "name \<notin> fst ` set (live pre)"
      "q = last_used (if d_ino e \<noteq> 0 then Some off else prev) (off + unat (reclen e)) pre" by blast
    with False show ?thesis by (intro exI [of _ "e # pre"] exI [of _ post]) auto
  qed
qed simp

lemma find_victim_None:
  "find_victim name prev (offsets off es) = None \<longleftrightarrow> name \<notin> fst ` set (live es)"
  by (induction es arbitrary: off prev) auto

text \<open>
  Free entries come before the used ones. Blocks written by this code have this form as long as a
  free entry at the front is not filled while another one stays free behind it.
\<close>

definition frees_first :: "nextufs_dirent_view list \<Rightarrow> bool" where
  "frees_first es \<longleftrightarrow> (\<forall>pre e f post. es = pre @ e # f # post \<longrightarrow> d_ino e \<noteq> 0 \<longrightarrow> d_ino f \<noteq> 0)"

lemma frees_firstD:
  assumes "frees_first (pre @ ent # post)" "d_ino ent \<noteq> 0" "last_used None off pre = Some q"
  shows "\<exists>pre1 p. pre = pre1 @ [p] \<and> d_ino p \<noteq> 0 \<and> q = off + sum_list (map (\<lambda>e. unat (reclen e)) pre1)"
  using assms
proof (induction pre arbitrary: ent post rule: rev_induct)
  case (snoc p pre1)
  show ?case
  proof (cases "d_ino p = 0")
    case False
    with snoc.prems(3) show ?thesis by (auto simp: last_used_snoc)
  next
    case True
    have free: "\<forall>e\<in>set pre1. d_ino e = 0" if "frees_first (pre1 @ p # post)" "d_ino p = 0" for post
      using that
    proof (induction pre1 arbitrary: p post rule: rev_induct)
      case (snoc x xs)
      have "d_ino x = 0" using snoc.prems unfolding frees_first_def by (metis append.assoc append_Cons append_Nil)
      moreover have "frees_first (xs @ x # p # post)" using snoc.prems(1) by simp
      ultimately show ?case using snoc.IH [of x "p # post"] by simp
    qed simp
    have "frees_first (pre1 @ p # ent # post)" using snoc.prems(1) by simp
    from free [OF this True] snoc.prems(3) True show ?thesis
      by (simp add: last_used_snoc last_used_free)
  qed
qed simp

lemma write_be32_shift: "(\<lambda>i. write_be32 b (k + p) v (k + i)) = write_be32 (\<lambda>i. b (k + i)) p v"
  by (auto simp: write_be32_def fun_eq_iff)

lemma write_be16_shift: "(\<lambda>i. write_be16 b (k + p) v (k + i)) = write_be16 (\<lambda>i. b (k + i)) p v"
  by (auto simp: write_be16_def fun_eq_iff)

lemma read_dirent_retag:
  assumes "read_dirent b sz off = Some ent" "\<And>i. off + 4 \<le> i \<Longrightarrow> c i = b i" "read_be32 c off = v"
  shows "read_dirent c sz off = Some (ent\<lparr>d_ino := v\<rparr>)"
proof -
  have "read_be16 c (off + 4) = read_be16 b (off + 4)" "read_be16 c (off + 6) = read_be16 b (off + 6)"
    using assms(2) by (auto intro!: read_be16_cong)
  moreover have "list_of c (off + 8) n = list_of b (off + 8) n" for n
    using assms(2) by (intro list_of_cong) simp
  ultimately show ?thesis using assms(1,3) by (auto simp: read_dirent_def Let_def split: if_splits)
qed

lemma read_dirent_widen:
  assumes "read_dirent b sz off = Some ent" "sound_dirent ent"
    "\<And>i. i < off + 4 \<or> off + 6 \<le> i \<Longrightarrow> c i = b i"
    "read_be16 c (off + 4) = v" "unat (reclen ent) \<le> unat v" "off + unat v \<le> sz"
  shows "read_dirent c sz off = Some (ent\<lparr>reclen := v\<rparr>)" "sound_dirent (ent\<lparr>reclen := v\<rparr>)"
proof -
  have "read_be32 c off = read_be32 b off" "read_be16 c (off + 6) = read_be16 b (off + 6)"
    using assms(3) by (auto intro!: read_be16_cong read_be32_cong)
  moreover have "list_of c (off + 8) n = list_of b (off + 8) n" for n
    using assms(3) by (intro list_of_cong) simp
  ultimately show "read_dirent c sz off = Some (ent\<lparr>reclen := v\<rparr>)"
    using assms(1,4-6) by (auto simp: read_dirent_def Let_def word_less_nat_alt split: if_splits)
  show "sound_dirent (ent\<lparr>reclen := v\<rparr>)"
    using assms(2,5) by (auto simp: sound_dirent_def used_size_def split: if_splits)
qed

text \<open>Widening the record of an entry swallows the entries behind it that it then covers.\<close>

lemma widen_entries:
  assumes hold: "holds_entries b m 0 (pre @ p # gone @ post) m"
    and q: "q = sum_list (map (\<lambda>e. unat (reclen e)) pre)"
    and v: "unat v = unat (reclen p) + sum_list (map (\<lambda>e. unat (reclen e)) gone)"
  shows "holds_entries (write_be16 b (q + 4) v) m 0 (pre @ p\<lparr>reclen := v\<rparr> # post) m"
    "q + unat (reclen p) \<le> m" "8 \<le> unat (reclen p)"
proof -
  let ?c = "write_be16 b (q + 4) v"
  have q0: "q = 0 + sum_list (map (\<lambda>e. unat (reclen e)) pre)" using q by simp
  note p = holds_entries_split [OF hold q0]
  note bd = read_dirent_bounds [OF p(2)]
  show "q + unat (reclen p) \<le> m" "8 \<le> unat (reclen p)" using bd by simp_all
  from p(4) obtain k where k: "holds_entries b m (q + unat (reclen p)) gone k" "holds_entries b m k post m"
    by (auto simp: holds_entries_append)
  have "k = q + unat v" using holds_entries_stop [OF k(1)] v by simp
  with k have post: "holds_entries b m (q + unat v) post m" by simp
  have fits: "unat (reclen p) \<le> unat v" "q + unat v \<le> m" using v holds_entries_le [OF post] by simp_all
  have wide: "?c i = b i" if "i < q + 4 \<or> q + 6 \<le> i" for i using that by (auto simp: cell_simps)
  have "holds_entries ?c m 0 pre q" by (rule holds_entries_cong [OF p(1)]) (simp add: cell_simps)
  moreover have "holds_entries ?c m (q + unat v) post m"
    by (rule holds_entries_cong [OF post]) (use fits bd in \<open>simp add: cell_simps\<close>)
  moreover note read_dirent_widen [OF p(2,3) wide read_write_be16 fits]
  ultimately show "holds_entries ?c m 0 (pre @ p\<lparr>reclen := v\<rparr> # post) m"
    by (auto simp: holds_entries_append)
qed

lemma remove_in_dirblk_entries:
  assumes hold: "holds_entries (\<lambda>i. block (base + i)) m 0 es m" and m: "m < 65536"
    and form: "frees_first es"
    and run: "remove_in_dirblk block base m name = Some r" and dots: "name \<noteq> [dot]" "name \<noteq> [dot, dot]"
  shows "\<exists>c ino es'. r = Inr (c, ino) \<and> holds_entries (\<lambda>i. c (base + i)) m 0 es' m \<and>
    (name, ino) \<in> set (live es) \<and> live es' = del_name name (live es) \<and>
    (\<forall>i. i < base \<or> base + m \<le> i \<longrightarrow> c i = block i)"
proof -
  let ?b = "\<lambda>i. block (base + i)"
  from run obtain q o1 ent where v: "find_victim name None (offsets 0 es) = Some (q, o1, ent)"
    unfolding remove_in_dirblk_def Let_def walk_holds [OF hold] by (auto split: option.splits)
  from find_victim_offsets [OF v] obtain pre post where es: "es = pre @ ent # post"
    and o1: "o1 = sum_list (map (\<lambda>e. unat (reclen e)) pre)" and ent: "d_ino ent \<noteq> 0" "dname ent = name"
    and first: "name \<notin> fst ` set (live pre)" and q: "q = last_used None 0 pre" by auto
  note parts = holds_entries_split [OF hold [unfolded es], of o1, unfolded o1, simplified, folded o1]
  note bd = read_dirent_bounds [OF parts(2)]
  have del: "(name, d_ino ent) \<in> set (live es)" "del_name name (live es) = live pre @ live post"
    using ent first by (auto simp: es del_name_append)
  show ?thesis
  proof (cases q)
    case None
    let ?c = "write_be32 block (base + o1) 0"
    have r: "r = Inr (?c, d_ino ent)"
      using run None dots unfolding remove_in_dirblk_def Let_def walk_holds [OF hold] v by simp
    have sh: "(\<lambda>i. ?c (base + i)) = write_be32 ?b o1 0" by (rule write_be32_shift)
    have "holds_entries (\<lambda>i. ?c (base + i)) m 0 pre o1"
      "holds_entries (\<lambda>i. ?c (base + i)) m (o1 + unat (reclen ent)) post m"
      unfolding sh using bd
      by (auto intro!: holds_entries_cong [OF parts(1)] holds_entries_cong [OF parts(4)] simp: cell_simps)
    moreover have "read_dirent (\<lambda>i. ?c (base + i)) m o1 = Some (ent\<lparr>d_ino := 0\<rparr>)"
      unfolding sh by (rule read_dirent_retag [OF parts(2)]) (simp_all add: cell_simps)
    moreover have "sound_dirent (ent\<lparr>d_ino := 0\<rparr>)"
      using parts(3) by (simp add: sound_dirent_def used_size_def)
    ultimately have "holds_entries (\<lambda>i. ?c (base + i)) m 0 (pre @ ent\<lparr>d_ino := 0\<rparr> # post) m"
      by (auto simp: holds_entries_append)
    moreover have "\<forall>i. i < base \<or> base + m \<le> i \<longrightarrow> ?c i = block i"
      using bd by (auto simp: cell_simps)
    ultimately show ?thesis using r del by (intro exI conjI) auto
  next
    case (Some q1)
    from frees_firstD [OF form [unfolded es] ent(1), of 0 q1] Some q obtain pre1 p where
      pre: "pre = pre1 @ [p]" "d_ino p \<noteq> 0" "q1 = sum_list (map (\<lambda>e. unat (reclen e)) pre1)" by auto
    have hold1: "holds_entries ?b m 0 (pre1 @ p # [ent] @ post) m" using hold es pre by simp
    have q1: "q1 = 0 + sum_list (map (\<lambda>e. unat (reclen e)) pre1)" using pre by simp
    note p = holds_entries_split [OF hold1 q1]
    let ?v = "reclen p + reclen ent"
    let ?c = "write_be16 block (base + q1 + 4) ?v"
    have r: "r = Inr (?c, d_ino ent)"
      using run Some dots p(2) unfolding remove_in_dirblk_def Let_def walk_holds [OF hold] v by simp
    have "o1 = q1 + unat (reclen p)" using o1 pre by simp
    then have "unat ?v = unat (reclen p) + unat (reclen ent)"
      using bd m by (intro unat_add_lem [THEN iffD1]) simp
    then have "unat ?v = unat (reclen p) + sum_list (map (\<lambda>e. unat (reclen e)) [ent])" by simp
    note wide = widen_entries [OF hold1 pre(3) this]
    have "holds_entries (\<lambda>i. ?c (base + i)) m 0 (pre1 @ p\<lparr>reclen := ?v\<rparr> # post) m"
      using wide(1) write_be16_shift [of block base "q1 + 4" ?v] by (simp add: add.assoc)
    moreover have "\<forall>i. i < base \<or> base + m \<le> i \<longrightarrow> ?c i = block i"
      using wide(2,3) by (auto simp: cell_simps)
    moreover have "live (pre1 @ p\<lparr>reclen := ?v\<rparr> # post) = del_name name (live es)"
      using pre by (simp add: del)
    ultimately show ?thesis using r del(1) by blast
  qed
qed

end
