(* ===== verification/DirClaims.thy ===== *)
theory DirClaims
  imports DirBlock
begin

text \<open>
  What the operations on directory blocks guarantee to a reader of the directory, and where the
  removal of an entry goes wrong.
\<close>

definition sample_block :: buf where
  "sample_block = bytes_of [0, 0, 0, 3, 0, 12, 0, 1, 0x61, 0, 0, 0, 0, 0, 0, 5, 0, 28, 0, 1, 0x63, 0, 0, 0,
     0, 0, 0, 0, 0, 0, 0, 0, 0, 0, 0, 0, 0, 0, 0, 0]"

abbreviation name_a :: "u8 list" where "name_a \<equiv> [0x61]"
abbreviation name_b :: "u8 list" where "name_b \<equiv> [0x62]"
abbreviation name_c :: "u8 list" where "name_c \<equiv> [0x63]"

lemma sample_entries: "holds_entries sample_block 40 0 [new_dirent 3 12 name_a, new_dirent 5 28 name_c] 40"
  by code_simp

section \<open>Looking up\<close>

lemma iterate_find_name:
  assumes "name \<noteq> []" "holds_entries b sz off es stop"
  shows "iterate_entries (find_name_cb name) (offsets off es) c s =
    (Inr (case map_of (live es) name of None \<Rightarrow> (0, c) | Some ino \<Rightarrow> (1, ino)), s)"
  using assms(2)
proof (induction es arbitrary: off)
  case (Cons e es)
  then have e: "read_dirent b sz off = Some e" "holds_entries b sz (off + unat (reclen e)) es stop" by auto
  have "namlen e = 0 \<longleftrightarrow> dname e = []"
    using read_dirent_bounds [OF e(1)] by (auto simp: unat_eq_zero)
  with Cons.IH [OF e(2)] assms(1) show ?case by (auto simp: find_name_cb_def andthen_def)
qed simp

text \<open>The lookup of a name in a directory block visits the entries in order and finds exactly
  the names a reader sees: the inode number of the first entry in use with this name, or nothing.\<close>

theorem find_name_in_block_finds_live_names:
  assumes "name \<noteq> []" "holds_entries b sz 0 es sz"
  shows "iterate_entries (find_name_cb name) (walk b sz 0) 0 s =
    (Inr (case map_of (live es) name of None \<Rightarrow> (0, 0) | Some ino \<Rightarrow> (1, ino)), s)"
  by (simp add: walk_holds [OF assms(2)] iterate_find_name [OF assms])

theorem find_name_in_block_finds_live_names_witness:
  "\<forall>s. iterate_entries (find_name_cb name_c) (walk sample_block 40 0) 0 s = (Inr (1, 5), s)"
  using find_name_in_block_finds_live_names [OF _ sample_entries, of name_c] by simp

section \<open>Inserting\<close>

text \<open>C7. If \<open>nextufs__insert_dirent\<close> finds room in a well-formed block, the block afterwards is
  well formed, has the new name with its inode number, has all the old names in their old order,
  and the bytes behind the entries are unchanged.\<close>

theorem insert_in_block_adds_name:
  assumes "holds_entries b sz 0 es sz" "sz \<le> bsize" "length name \<le> 255" "new \<noteq> 0"
    and "insert_in_block b bsize sz name new = Some r"
  shows "\<exists>c es' pre post. r = Inr c \<and> holds_entries c sz 0 es' sz \<and> live es = pre @ post \<and>
    live es' = pre @ (name, new) # post \<and> (\<forall>i\<ge>sz. c i = b i)"
proof -
  from insert_in_block_entries [OF assms(1-3,5)] obtain c pre ent post where r: "r = Inr c"
    and es: "es = pre @ ent # post" and c: "holds_entries c sz 0 (pre @ insert_entry ent new name @ post) sz"
    and frame: "\<forall>i\<ge>sz. c i = b i" by blast
  have "live es = (live pre @ live [ent]) @ live post" by (simp add: es)
  moreover have "live (pre @ insert_entry ent new name @ post) =
      (live pre @ live [ent]) @ (name, new) # live post"
    by (simp add: live_insert_entry [OF assms(4)])
  ultimately show ?thesis using r c frame by blast
qed

theorem insert_in_block_adds_name_witness:
  "\<exists>c es'. insert_in_block sample_block 40 40 name_b 9 = Some (Inr c) \<and> holds_entries c 40 0 es' 40 \<and>
     (name_b, 9) \<in> set (live es')"
proof -
  have "insert_in_block sample_block 40 40 name_b 9 \<noteq> None" by code_simp
  then obtain r where r: "insert_in_block sample_block 40 40 name_b 9 = Some r" by blast
  from insert_in_block_adds_name [OF sample_entries _ _ _ r] obtain c es' where
    "r = Inr c" "holds_entries c 40 0 es' 40" "(name_b, 9) \<in> set (live es')" by fastforce
  with r show ?thesis by blast
qed

text \<open>C21. After a successful insertion of a name that was not there, the lookup finds the new
  inode under it, and finds under every other name what it found before.\<close>

theorem insert_then_find:
  assumes "holds_entries b sz 0 es sz" "sz \<le> bsize" "length name \<le> 255" "new \<noteq> 0" "name \<noteq> []"
    and "name \<notin> fst ` set (live es)" "insert_in_block b bsize sz name new = Some (Inr c)" "other \<noteq> []"
  shows "iterate_entries (find_name_cb other) (walk c sz 0) 0 s =
    (if other = name then (Inr (1, new), s) else iterate_entries (find_name_cb other) (walk b sz 0) 0 s)"
proof -
  from insert_in_block_entries [OF assms(1-3,7)] obtain pre ent post where
    es: "es = pre @ ent # post" and c: "holds_entries c sz 0 (pre @ insert_entry ent new name @ post) sz" by auto
  let ?new = "pre @ insert_entry ent new name @ post"
  have new: "live ?new = live pre @ live [ent] @ (name, new) # live post"
    by (simp add: live_insert_entry [OF assms(4)])
  have old: "live es = live pre @ live [ent] @ live post" by (simp add: es)
  have "map_of (live ?new) other = (if other = name then Some new else map_of (live es) other)"
  proof (cases "other = name")
    case True
    define xs where "xs = live pre @ live [ent]"
    have "map_of xs name = None"
      using assms(6) unfolding xs_def old map_of_eq_None_iff by auto
    then have "map_of (xs @ (name, new) # live post) name = Some new" by (simp add: map_add_def)
    with True show ?thesis unfolding new xs_def by simp
  next
    case False
    then show ?thesis unfolding new old by (auto simp: map_add_def split: option.splits)
  qed
  then show ?thesis
    using iterate_find_name [OF assms(8) assms(1)] iterate_find_name [OF assms(8) c]
    by (simp add: walk_holds [OF assms(1)] walk_holds [OF c])
qed

theorem insert_then_find_witness:
  "\<exists>c. insert_in_block sample_block 40 40 name_b 9 = Some (Inr c) \<and>
     (\<forall>s. iterate_entries (find_name_cb name_b) (walk c 40 0) 0 s = (Inr (1, 9), s))"
proof -
  have "insert_in_block sample_block 40 40 name_b 9 \<noteq> None" by code_simp
  then obtain r where r: "insert_in_block sample_block 40 40 name_b 9 = Some r" by blast
  then obtain c where c: "insert_in_block sample_block 40 40 name_b 9 = Some (Inr c)"
    using insert_in_block_entries [OF sample_entries _ _ r] by auto
  from insert_then_find [OF sample_entries _ _ _ _ _ c, of name_b] c show ?thesis by auto
qed

section \<open>Removing\<close>

text \<open>C22. If in a well-formed directory block the free entries come first, \<open>nextufs__remove_dirent\<close>
  takes out exactly the first entry with the name, reports the inode number it had, keeps all other
  names in their order, and touches no byte outside the directory block.\<close>

theorem remove_in_dirblk_deletes_name:
  assumes "holds_entries (\<lambda>i. block (base + i)) m 0 es m" "m < 65536" "frees_first es"
    and "name \<noteq> [dot]" "name \<noteq> [dot, dot]" "remove_in_dirblk block base m name = Some r"
  shows "\<exists>c ino es'. r = Inr (c, ino) \<and> holds_entries (\<lambda>i. c (base + i)) m 0 es' m \<and>
    (name, ino) \<in> set (live es) \<and> live es' = del_name name (live es) \<and>
    (\<forall>i. i < base \<or> base + m \<le> i \<longrightarrow> c i = block i)"
  by (rule remove_in_dirblk_entries [OF assms(1-3,6,4,5)])

theorem remove_in_dirblk_deletes_name_witness:
  "\<exists>c es'. remove_in_dirblk sample_block 0 40 name_c = Some (Inr (c, 5)) \<and> holds_entries c 40 0 es' 40 \<and>
     live es' = [(name_a, 3)]"
proof -
  have "remove_in_dirblk sample_block 0 40 name_c \<noteq> None" by code_simp
  then obtain r where r: "remove_in_dirblk sample_block 0 40 name_c = Some r" by blast
  have "frees_first [new_dirent 3 12 name_a, new_dirent 5 28 name_c]"
    by (auto simp: frees_first_def Cons_eq_append_conv)
  from remove_in_dirblk_deletes_name [of sample_block 0 40 _ name_c r, simplified, OF sample_entries this _ r]
  obtain c ino es' where "r = Inr (c, ino)" "holds_entries c 40 0 es' 40" "ino = 5" "live es' = [(name_a, 3)]"
    by (auto simp: dot_def)
  with r show ?thesis by blast
qed

text \<open>C23. The removal goes wrong when a free entry lies between the entry to remove and the last
  entry in use before it: the length of the removed record is added to this earlier entry, which
  need not be its neighbour. If the free record is as long as the removed one, the removal reports
  success and the name is still there for every reader.\<close>

theorem remove_behind_free_entry_keeps_name:
  assumes "holds_entries (\<lambda>i. block (base + i)) m 0 (pre @ p # f # ent # post) m" "m < 65536"
    and "d_ino p \<noteq> 0" "d_ino f = 0" "d_ino ent \<noteq> 0" "reclen f = reclen ent" "dname ent = name"
    and "name \<notin> fst ` set (live (pre @ [p]))" "name \<noteq> [dot]" "name \<noteq> [dot, dot]"
  shows "\<exists>c. remove_in_dirblk block base m name = Some (Inr (c, d_ino ent)) \<and>
    holds_entries (\<lambda>i. c (base + i)) m 0 (pre @ p\<lparr>reclen := reclen p + reclen ent\<rparr> # ent # post) m"
proof -
  let ?b = "\<lambda>i. block (base + i)" and ?v = "reclen p + reclen ent"
  let ?es = "pre @ p # f # ent # post"
  define q where "q = sum_list (map (\<lambda>e. unat (reclen e)) pre)"
  define o1 where "o1 = q + unat (reclen p) + unat (reclen f)"
  have ho: "holds_entries ?b m 0 ((pre @ [p, f]) @ ent # post) m" using assms(1) by simp
  have "o1 = 0 + sum_list (map (\<lambda>e. unat (reclen e)) (pre @ [p, f]))" by (simp add: o1_def q_def)
  note e = holds_entries_split [OF ho this]
  have p: "read_dirent ?b m q = Some p"
    by (rule holds_entries_split(2) [OF assms(1)]) (simp add: q_def)
  have "find_victim name prev (offsets off ?es) =
      Some (Some (off + q), off + o1, ent)" for prev off
    using assms(3-8) unfolding q_def o1_def
    by (induction pre arbitrary: prev off) (auto simp: add.assoc)
  from this [of None 0] have v: "find_victim name None (offsets 0 ?es) = Some (Some q, o1, ent)" by simp
  have run: "remove_in_dirblk block base m name = Some (Inr (write_be16 block (base + q + 4) ?v, d_ino ent))"
    unfolding remove_in_dirblk_def Let_def walk_holds [OF assms(1)] v using assms(9,10) p by simp
  have "unat ?v = unat (reclen p) + unat (reclen ent)"
    using read_dirent_bounds [OF e(2)] assms(2,6) by (intro unat_add_lem [THEN iffD1]) (simp add: o1_def)
  then have sum: "unat ?v = unat (reclen p) + sum_list (map (\<lambda>e. unat (reclen e)) [f])" by (simp add: assms(6))
  have "holds_entries ?b m 0 (pre @ p # [f] @ ent # post) m" using assms(1) by simp
  from widen_entries(1) [OF this q_def sum] run show ?thesis
    using write_be16_shift [of block base "q + 4" ?v] by (simp add: add.assoc)
qed

definition gap_block :: buf where
  "gap_block = bytes_of [0, 0, 0, 3, 0, 12, 0, 1, 0x61, 0, 0, 0, 0, 0, 0, 0, 0, 12, 0, 1, 0x62, 0, 0, 0,
     0, 0, 0, 5, 0, 12, 0, 1, 0x63, 0, 0, 0]"

lemma gap_entries: "holds_entries gap_block 36 0
    [new_dirent 3 12 name_a, new_dirent 0 12 name_b, new_dirent 5 12 name_c] 36"
  by code_simp

theorem remove_behind_free_entry_keeps_name_witness:
  "\<exists>c es'. remove_in_dirblk gap_block 0 36 name_c = Some (Inr (c, 5)) \<and> holds_entries c 36 0 es' 36 \<and>
     (name_c, 5) \<in> set (live es')"
proof -
  have "\<exists>c. remove_in_dirblk gap_block 0 36 name_c = Some (Inr (c, d_ino (new_dirent 5 12 name_c))) \<and>
    holds_entries (\<lambda>i. c (0 + i)) 36 0 ([] @ (new_dirent 3 12 name_a)\<lparr>reclen := reclen (new_dirent 3 12 name_a) +
      reclen (new_dirent 5 12 name_c)\<rparr> # new_dirent 5 12 name_c # []) 36"
    by (rule remove_behind_free_entry_keeps_name [where f = "new_dirent 0 12 name_b"])
      (use gap_entries in \<open>simp_all add: dot_def\<close>)
  then obtain c where c: "remove_in_dirblk gap_block 0 36 name_c = Some (Inr (c, 5))"
    "holds_entries c 36 0 [(new_dirent 3 12 name_a)\<lparr>reclen := 24\<rparr>, new_dirent 5 12 name_c] 36" by auto
  moreover have "(name_c, 5) \<in> set (live [(new_dirent 3 12 name_a)\<lparr>reclen := 24\<rparr>, new_dirent 5 12 name_c])"
    by simp
  ultimately show ?thesis by blast
qed

section \<open>New directories\<close>

text \<open>The block \<open>nextufs_path_mkdir\<close> writes for a new directory holds exactly the entries \<open>.\<close>
  and \<open>..\<close>, with the inode numbers of the directory and its parent; the emptiness check accepts it,
  and the parent is found in it.\<close>

theorem new_directory_block_entries:
  assumes "self \<noteq> 0" "parent \<noteq> 0"
  shows "\<exists>b es. new_directory_block self parent = Inr b \<and> holds_entries b DIRBLKSIZ 0 es DIRBLKSIZ \<and>
    live es = [([dot], self), ([dot, dot], parent)] \<and>
    only_dots self parent (walk b DIRBLKSIZ 0) (False, False) = Some (True, True) \<and>
    parent_entry self b = Some (12, parent)"
proof -
  have sizes: "dirent_size (length [dot]) = 12" "dirent_size (length [dot, dot]) = 12" "dirent_size (Suc 0) = 12"
    by (simp_all add: dirent_size_eq)
  obtain b1 where b1: "write_dirent_raw (\<lambda>_. 0) DIRBLKSIZ 0 self 12 [dot] = Inr b1"
    by (simp add: write_dirent_raw_def DIRBLKSIZ_def Let_def)
  obtain b where b: "write_dirent_raw b1 DIRBLKSIZ 12 parent 1012 [dot, dot] = Inr b"
    by (simp add: write_dirent_raw_def DIRBLKSIZ_def Let_def)
  have nd: "new_directory_block self parent = Inr b"
    using b1 b by (simp add: new_directory_block_def sizes DIRBLKSIZ_def)
  have e1: "read_dirent b1 DIRBLKSIZ 0 = Some (new_dirent self 12 [dot])" "sound_dirent (new_dirent self 12 [dot])"
    using read_new_dirent [OF b1, of DIRBLKSIZ] by (simp_all add: sizes DIRBLKSIZ_def del: length_Cons list.size)
  have e2: "read_dirent b DIRBLKSIZ 12 = Some (new_dirent parent 1012 [dot, dot])"
    "sound_dirent (new_dirent parent 1012 [dot, dot])"
    using read_new_dirent [OF b, of DIRBLKSIZ] by (simp_all add: sizes DIRBLKSIZ_def del: length_Cons list.size)
  have "read_dirent b DIRBLKSIZ 0 = Some (new_dirent self 12 [dot])"
    by (rule read_dirent_cong [OF e1]) (use write_dirent_raw_Inr(3) [OF b] in simp)
  with e1(2) e2 have h: "holds_entries b DIRBLKSIZ 0
      [new_dirent self 12 [dot], new_dirent parent 1012 [dot, dot]] DIRBLKSIZ"
    by (simp add: DIRBLKSIZ_def)
  have "parent_entry self b = Some (12, parent)" using h by (simp add: parent_entry_def)
  moreover have "only_dots self parent (walk b DIRBLKSIZ 0) (False, False) = Some (True, True)"
    using assms by (simp add: walk_holds [OF h])
  ultimately show ?thesis using nd h assms by fastforce
qed

theorem new_directory_block_entries_witness:
  "\<exists>b. new_directory_block 5 2 = Inr b \<and> parent_entry 5 b = Some (12, 2)"
  using new_directory_block_entries [of 5 2] by auto

end
