(* ===== verification/Mutate.thy ===== *)
theory Mutate
  imports DirMutate
begin

text \<open>
  The operations on paths that change an image (\<open>src/src/mutate/mutate.c\<close>). Each opens the image,
  works on it, and closes it. The opening is the argument \<open>open_rw\<close>, which stands for
  \<open>nextufs__open_image_rw(image_path, &img)\<close>; closing releases the file and leaves its content, so
  it has no effect in the model. A null context is \<open>None\<close>.
\<close>

datatype write_policy = WriteSu | WriteUser

record nextufs_write_ctx =
  policy :: write_policy
  cuid :: u32
  cgid :: u32
  groups :: "u32 list"

definition lift :: "errno + 'a \<Rightarrow> 'a fs" where
  "lift r = (case r of Inl e \<Rightarrow> fail e | Inr x \<Rightarrow> ret x)"

definition with_ctx :: "nextufs_write_ctx option \<Rightarrow> (nextufs_write_ctx \<Rightarrow> 'a fs) \<Rightarrow> 'a fs" where
  "with_ctx ctx k = (case ctx of None \<Rightarrow> fail EINVAL | Some c \<Rightarrow> k c)"

section \<open>Permissions\<close>

definition ctx_is_root :: "nextufs_write_ctx \<Rightarrow> bool" where
  "ctx_is_root ctx \<longleftrightarrow> cuid ctx = 0"

definition id_fits_nextstep :: "u32 \<Rightarrow> bool" where
  "id_fits_nextstep i \<longleftrightarrow> i \<le> 32767"

definition require_ctx_ids_fit :: "nextufs_write_ctx \<Rightarrow> errno + unit" where
  "require_ctx_ids_fit ctx =
     (if policy ctx \<noteq> WriteUser then Inr ()
      else if \<not> id_fits_nextstep (cuid ctx) \<or> \<not> id_fits_nextstep (cgid ctx) then Inl EOVERFLOW
      else Inr ())"

text \<open>\<open>(uid_t)-1\<close> is \<open>- 1\<close>.\<close>

definition require_owner_ids_fit :: "u32 \<Rightarrow> u32 \<Rightarrow> errno + unit" where
  "require_owner_ids_fit user grp =
     (if user \<noteq> - 1 \<and> \<not> id_fits_nextstep user then Inl EOVERFLOW
      else if grp \<noteq> - 1 \<and> \<not> id_fits_nextstep grp then Inl EOVERFLOW
      else Inr ())"

definition ctx_in_group :: "nextufs_write_ctx \<Rightarrow> u32 \<Rightarrow> bool" where
  "ctx_in_group ctx grp \<longleftrightarrow> cgid ctx = grp \<or> grp \<in> set (groups ctx)"

definition require_user_access :: "nextufs_write_ctx \<Rightarrow> nextufs_node \<Rightarrow> u32 \<Rightarrow> errno + unit" where
  "require_user_access ctx node access =
     (if policy ctx \<noteq> WriteUser then Inr ()
      else node_check_access_bits node (cuid ctx) (cgid ctx) (groups ctx) access True)"

definition require_parent_mutation :: "nextufs_write_ctx \<Rightarrow> nextufs_node \<Rightarrow> errno + unit" where
  "require_parent_mutation ctx parent = require_user_access ctx parent (W_OK OR X_OK)"

definition check_sticky_parent ::
    "nextufs_write_ctx \<Rightarrow> nextufs_node \<Rightarrow> nextufs_node \<Rightarrow> errno + unit" where
  "check_sticky_parent ctx parent target =
     (if policy ctx \<noteq> WriteUser then Inr ()
      else if mode (inode parent) AND 0x200 = 0 then Inr ()
      else if ctx_is_root ctx then Inr ()
      else if cuid ctx = ucast (uid (inode parent)) \<or> cuid ctx = ucast (uid (inode target)) then Inr ()
      else Inl EPERM)"

definition set_new_inode_owner ::
    "nextufs_write_ctx \<Rightarrow> nextufs_node \<Rightarrow> nextufs_inode \<Rightarrow> nextufs_inode" where
  "set_new_inode_owner ctx parent ino =
     (if policy ctx = WriteUser then ino\<lparr>uid := ucast (cuid ctx), gid := ucast (cgid ctx)\<rparr>
      else ino\<lparr>uid := 0, gid := gid (inode parent)\<rparr>)"

definition require_chmod_allowed :: "nextufs_write_ctx \<Rightarrow> nextufs_node \<Rightarrow> errno + unit" where
  "require_chmod_allowed ctx node =
     (if policy ctx \<noteq> WriteUser then Inr ()
      else if ctx_is_root ctx \<or> cuid ctx = ucast (uid (inode node)) then Inr ()
      else Inl EPERM)"

definition require_chown_allowed ::
    "nextufs_write_ctx \<Rightarrow> nextufs_node \<Rightarrow> u32 \<Rightarrow> u32 \<Rightarrow> errno + unit" where
  "require_chown_allowed ctx node user grp =
     (if policy ctx \<noteq> WriteUser then Inr ()
      else if ctx_is_root ctx then Inr ()
      else if cuid ctx \<noteq> ucast (uid (inode node)) then Inl EPERM
      else if user \<noteq> ucast (uid (inode node)) then Inl EPERM
      else if ctx_in_group ctx grp then Inr () else Inl EPERM)"

definition strip_special_bits :: "nextufs_write_ctx \<Rightarrow> u16 \<Rightarrow> u16 \<Rightarrow> u16" where
  "strip_special_bits ctx grp md =
     (let md = (if md AND IFMT \<noteq> IFDIR then md AND NOT 0x200 else md)
      in if md AND 0x400 \<noteq> 0 \<and> \<not> ctx_in_group ctx (ucast grp) then md AND NOT 0x400 else md)"

definition sanitize_new_inode_mode :: "nextufs_write_ctx \<Rightarrow> nextufs_inode \<Rightarrow> nextufs_inode" where
  "sanitize_new_inode_mode ctx ino =
     (if policy ctx \<noteq> WriteUser \<or> ctx_is_root ctx then ino
      else ino\<lparr>mode := strip_special_bits ctx (gid ino) (mode ino)\<rparr>)"

definition sanitize_chmod_mode :: "nextufs_write_ctx \<Rightarrow> nextufs_node \<Rightarrow> u16 \<Rightarrow> u16" where
  "sanitize_chmod_mode ctx node md =
     (let new_mode = (mode (inode node) AND IFMT) OR (md AND 0xfff)
      in if policy ctx \<noteq> WriteUser \<or> ctx_is_root ctx then new_mode
         else strip_special_bits ctx (gid (inode node)) new_mode)"

section \<open>Inodes\<close>

text \<open>\<open>memset(&ino, 0, sizeof(ino))\<close>\<close>

definition cleared_inode :: nextufs_inode where
  "cleared_inode = \<lparr>mode = 0, nlink = 0, uid = 0, gid = 0, isize = 0, atime = 0, mtime = 0, ctime = 0,
     db = replicate 12 0, ib = replicate 3 0, flags = 0, blocks = 0, gen = 0\<rparr>"

text \<open>A call whose in/out inode is handed on when it succeeds.\<close>

definition settled :: "((errno + unit) \<times> nextufs_inode) fs \<Rightarrow> nextufs_inode fs" where
  "settled m = andthen m (\<lambda>(r, ino). case r of Inl e \<Rightarrow> fail e | Inr _ \<Rightarrow> ret ino)"

definition has_no_storage :: "u16 \<Rightarrow> bool" where
  "has_no_storage md \<longleftrightarrow> md AND IFMT = IFIFO \<or> md AND IFMT = IFCHR \<or> md AND IFMT = IFBLK \<or>
     md AND IFMT = IFSOCK"

definition remove_linked_inode :: "nextufs_image \<Rightarrow> nextufs_node \<Rightarrow> unit fs" where
  "remove_linked_inode img target =
     (let ino = inode target in
      if nlink ino = 0 then fail EINVAL
      else let ino = ino\<lparr>nlink := nlink ino - 1\<rparr> in
      if nlink ino = 0 then
        andthen (if has_no_storage (mode ino) then ret () else
          andthen (settled (free_file_storage img ino)) (\<lambda>_. ret ())) (\<lambda>_.
        andthen (write_inode_raw img (inode_no target) cleared_inode) (\<lambda>_.
        free_inode_in_group img (inode_no target) (mode ino)))
      else andthen (sys_os time) (\<lambda>now.
        write_inode_raw img (inode_no target) (ino\<lparr>ctime := now\<rparr>)))"

text \<open>The result is the parent with its changed inode.\<close>

definition remove_dir_inode ::
    "nextufs_image \<Rightarrow> nextufs_node \<Rightarrow> nextufs_node \<Rightarrow> nextufs_node fs" where
  "remove_dir_inode img parent target =
     andthen (settled (free_file_storage img (inode target))) (\<lambda>_.
     andthen (write_inode_raw img (inode_no target) cleared_inode) (\<lambda>_.
     andthen (free_inode_in_group img (inode_no target) (mode (inode target))) (\<lambda>_.
     andthen (sys_os time) (\<lambda>now.
     let ino = (inode parent)\<lparr>nlink := nlink (inode parent) - 1, ctime := now, mtime := now\<rparr> in
     andthen (write_inode_raw img (inode_no parent) ino) (\<lambda>_. ret (parent\<lparr>inode := ino\<rparr>))))))"

definition clear_inode_layout :: "nextufs_inode \<Rightarrow> nextufs_inode" where
  "clear_inode_layout ino = ino\<lparr>db := replicate 12 0, ib := replicate 3 0, isize := 0, blocks := 0\<rparr>"

definition rewrite_inode_contents ::
    "nextufs_image \<Rightarrow> u32 \<Rightarrow> nextufs_inode \<Rightarrow> u32 \<Rightarrow> buf \<Rightarrow> nat \<Rightarrow> unit fs" where
  "rewrite_inode_contents img ino_no old_inode preferred_cg data data_len =
     andthen (settled (allocate_data_for_inode img preferred_cg data data_len
       (old_inode\<lparr>db := replicate 12 0, ib := replicate 3 0, isize := 0, blocks := 0\<rparr>))) (\<lambda>ino.
     andthen (sys_os time) (\<lambda>now.
     andthen (write_inode_raw img ino_no (ino\<lparr>mtime := now, ctime := now, atime := now\<rparr>)) (\<lambda>_.
     andthen (settled (free_file_storage img old_inode)) (\<lambda>_. ret ()))))"

text \<open>
  \<open>nextufs__directory_has_ancestor\<close> follows the \<open>..\<close> entries without a bound: on a cycle that
  avoids both the root and the ancestor the C loop does not end. The fuel is the number of
  directories it may visit; running out of it is \<open>UNDEF\<close>.
\<close>

primrec directory_has_ancestor :: "nat \<Rightarrow> nextufs_image \<Rightarrow> nextufs_node \<Rightarrow> u32 \<Rightarrow> bool fs" where
  "directory_has_ancestor 0 img cur ancestor_inode = fail UNDEF"
| "directory_has_ancestor (Suc n) img cur ancestor_inode =
     (if inode_no cur = ancestor_inode then ret True
      else if inode_no cur = ROOT_INODE then ret False
      else attempt (read_directory_parent_inode img cur) (\<lambda>r. case r of
        Inl e \<Rightarrow> if e = UNDEF then fail UNDEF else ret False
      | Inr parent_inode \<Rightarrow>
        if parent_inode = inode_no cur then ret False
        else attempt (node_get_by_inode img parent_inode) (\<lambda>r. case r of
          Inl e \<Rightarrow> if e = UNDEF then fail UNDEF else ret False
        | Inr cur \<Rightarrow> directory_has_ancestor n img cur ancestor_inode)))"

definition name_is_dot_or_dotdot :: "u8 list \<Rightarrow> bool" where
  "name_is_dot_or_dotdot name \<longleftrightarrow> name = [dot] \<or> name = [dot, dot]"

definition disallow_dot_names :: "u8 list \<Rightarrow> errno + unit" where
  "disallow_dot_names name = (if name_is_dot_or_dotdot name then Inl EINVAL else Inr ())"

definition disallow_target_dot_names :: "u8 list \<Rightarrow> errno + unit" where
  "disallow_target_dot_names name = (if name_is_dot_or_dotdot name then Inl ENOTEMPTY else Inr ())"

definition discard_new_inode :: "nextufs_image \<Rightarrow> u32 \<Rightarrow> nextufs_inode \<Rightarrow> nextufs_inode fs" where
  "discard_new_inode img ino_no ino =
     andthen (settled (free_file_storage img ino)) (\<lambda>ino.
     andthen (write_inode_raw img ino_no cleared_inode) (\<lambda>_.
     andthen (free_inode_in_group img ino_no (mode ino)) (\<lambda>_.
     ret (clear_inode_layout ino))))"

section \<open>What the operations share\<close>

text \<open>The checks before the image is opened, and the parent and the name of the path.\<close>

definition split_new_name :: "nextufs_write_ctx \<Rightarrow> u8 list \<Rightarrow> (u8 list \<times> u8 list) fs" where
  "split_new_name ctx path =
     andthen (lift (require_ctx_ids_fit ctx)) (\<lambda>_.
     andthen (lift (path_split path 4096 256)) (\<lambda>(parent_path, name).
     andthen (lift (disallow_dot_names name)) (\<lambda>_. ret (parent_path, name))))"

text \<open>Nothing may be there yet at the path.\<close>

definition require_absent :: "nextufs_image \<Rightarrow> u8 list \<Rightarrow> unit fs" where
  "require_absent img path =
     attempt (node_lookup img path False) (\<lambda>r. case r of
       Inr _ \<Rightarrow> fail EEXIST
     | Inl e \<Rightarrow> if e \<noteq> ENOENT then fail e else ret ())"

definition preferred_group :: "nextufs_image \<Rightarrow> u32 \<Rightarrow> u32 fs" where
  "preferred_group img ino_no =
     (if inodes_per_group (sb img) = 0 then fail UNDEF else ret (ino_no div inodes_per_group (sb img)))"

text \<open>The new inode is written, then its name; a failure of either discards the inode.\<close>

definition publish_inode ::
    "nextufs_image \<Rightarrow> nextufs_node \<Rightarrow> u8 list \<Rightarrow> u32 \<Rightarrow> nextufs_inode \<Rightarrow> nextufs_node fs" where
  "publish_inode img parent name ino_no ino =
     andthen (on_error (write_inode_raw img ino_no ino) (discard_new_inode img ino_no ino)) (\<lambda>_.
     on_error (insert_dirent img parent name ino_no) (discard_new_inode img ino_no ino))"

text \<open>
  \<open>allocate_data_for_inode\<close> with its clean-up on failure: \<open>ino\<close> is what the call left of it.
\<close>

definition store_data ::
    "nextufs_image \<Rightarrow> u32 \<Rightarrow> u32 \<Rightarrow> buf \<Rightarrow> nat \<Rightarrow> nextufs_inode \<Rightarrow> nextufs_inode fs" where
  "store_data img ino_no preferred_cg data data_len ino =
     andthen (allocate_data_for_inode img preferred_cg data data_len ino) (\<lambda>(r, ino).
     case r of
       Inr _ \<Rightarrow> ret ino
     | Inl e \<Rightarrow> andthen (ignoring (discard_new_inode img ino_no ino)) (\<lambda>_. fail e))"

section \<open>The operations\<close>

definition path_create_file ::
    "nextufs_image fs \<Rightarrow> nextufs_write_ctx option \<Rightarrow> u8 list \<Rightarrow> buf \<Rightarrow> nat \<Rightarrow> unit fs" where
  "path_create_file open_rw octx path data data_len =
     with_ctx octx (\<lambda>ctx.
     andthen (split_new_name ctx path) (\<lambda>(parent_path, name).
     andthen open_rw (\<lambda>img.
     andthen (node_lookup img parent_path True) (\<lambda>parent.
     andthen (check (node_is_dir parent) ENOTDIR) (\<lambda>_.
     andthen (lift (require_parent_mutation ctx parent)) (\<lambda>_.
     andthen (require_absent img path) (\<lambda>_.
     andthen (preferred_group img (inode_no parent)) (\<lambda>parent_cg.
     andthen (allocate_inode_in_group img parent_cg (IFREG OR 0x1a4)) (\<lambda>new_inode_no.
     andthen (sys_os time) (\<lambda>now.
     let ino = cleared_inode\<lparr>mode := IFREG OR 0x1a4, nlink := 1\<rparr>;
         ino = set_new_inode_owner ctx parent ino;
         ino = sanitize_new_inode_mode ctx ino;
         ino = ino\<lparr>isize := of_nat data_len, atime := now, mtime := now, ctime := now\<rparr> in
     andthen (store_data img new_inode_no parent_cg data data_len ino) (\<lambda>ino.
     andthen (publish_inode img parent name new_inode_no ino) (\<lambda>_.
     image_fsync img))))))))))))"

definition path_unlink :: "nextufs_image fs \<Rightarrow> nextufs_write_ctx option \<Rightarrow> u8 list \<Rightarrow> unit fs" where
  "path_unlink open_rw octx path =
     with_ctx octx (\<lambda>ctx.
     andthen (split_new_name ctx path) (\<lambda>(parent_path, name).
     andthen open_rw (\<lambda>img.
     andthen (node_lookup img parent_path True) (\<lambda>parent.
     andthen (check (node_is_dir parent) ENOTDIR) (\<lambda>_.
     andthen (lift (require_parent_mutation ctx parent)) (\<lambda>_.
     andthen (node_lookup img path False) (\<lambda>target.
     andthen (check (\<not> node_is_dir target) EISDIR) (\<lambda>_.
     andthen (lift (check_sticky_parent ctx parent target)) (\<lambda>_.
     andthen (lift (require_user_access ctx target W_OK)) (\<lambda>_.
     andthen (remove_dirent img parent name) (\<lambda>(parent, removed_inode).
     andthen (check (removed_inode = inode_no target) EINVAL) (\<lambda>_.
     andthen (remove_linked_inode img target) (\<lambda>_.
     image_fsync img)))))))))))))"

definition path_mkdir :: "nextufs_image fs \<Rightarrow> nextufs_write_ctx option \<Rightarrow> u8 list \<Rightarrow> u16 \<Rightarrow> unit fs" where
  "path_mkdir open_rw octx path md =
     with_ctx octx (\<lambda>ctx.
     andthen (split_new_name ctx path) (\<lambda>(parent_path, name).
     andthen open_rw (\<lambda>img.
     andthen (node_lookup img parent_path True) (\<lambda>parent.
     andthen (check (node_is_dir parent) ENOTDIR) (\<lambda>_.
     andthen (lift (require_parent_mutation ctx parent)) (\<lambda>_.
     andthen (require_absent img path) (\<lambda>_.
     andthen (preferred_group img (inode_no parent)) (\<lambda>parent_cg.
     let dir_mode = IFDIR OR (md AND 0x1ff) in
     andthen (allocate_inode_in_group img parent_cg dir_mode) (\<lambda>new_inode_no.
     andthen (allocate_frags_anycg img parent_cg 1) (\<lambda>alloc_frag.
     andthen (on_error (write_new_directory_block img alloc_frag new_inode_no (inode_no parent))
       (andthen (ignoring (free_fragment_run img alloc_frag 1)) (\<lambda>_.
        ignoring (free_inode_in_group img new_inode_no dir_mode)))) (\<lambda>_.
     andthen (sys_os time) (\<lambda>now.
     let ino = cleared_inode\<lparr>mode := dir_mode, nlink := 2\<rparr>;
         ino = set_new_inode_owner ctx parent ino;
         ino = sanitize_new_inode_mode ctx ino;
         ino = ino\<lparr>isize := of_nat DIRBLKSIZ, atime := now, mtime := now, ctime := now,
           db := (db ino)[0 := alloc_frag], blocks := sectors_per_frag (sb img)\<rparr> in
     andthen (publish_inode img parent name new_inode_no ino) (\<lambda>parent.
     andthen (write_inode_raw img (inode_no parent)
       ((inode parent)\<lparr>nlink := nlink (inode parent) + 1, ctime := now, mtime := now\<rparr>)) (\<lambda>_.
     image_fsync img))))))))))))))"

end
