(* ===== verification/PathOps.thy ===== *)
theory PathOps
  imports Mutate
begin

text \<open>
  The remaining operations of \<open>src/src/mutate/mutate.c\<close>: changing the content of a file, removing
  directories, links, special files, renaming, and changing attributes.
\<close>

section \<open>File contents\<close>

definition rewrite_file_contents ::
    "nextufs_image fs \<Rightarrow> nextufs_write_ctx option \<Rightarrow> u8 list \<Rightarrow> buf \<Rightarrow> nat \<Rightarrow> bool \<Rightarrow> unit fs" where
  "rewrite_file_contents open_rw octx path data data_len appending =
     with_ctx octx (\<lambda>ctx.
     andthen (lift (require_ctx_ids_fit ctx)) (\<lambda>_.
     andthen open_rw (\<lambda>img.
     andthen (node_lookup img path False) (\<lambda>target.
     andthen (check (node_is_reg target) EISDIR) (\<lambda>_.
     andthen (lift (require_user_access ctx target W_OK)) (\<lambda>_.
     let ino = inode target; old_size = unat (isize ino);
         final_size = (if appending then old_size + data_len else data_len) in
     if 2 ^ 64 \<le> final_size then fail UNDEF
     else
     andthen (sys_os malloc) (\<lambda>_.
     andthen (if appending \<and> old_size \<noteq> 0
       then andthen (inode_read_data img ino 0 old_size (\<lambda>_. 0)) (\<lambda>(b, _).
         ret (blit b old_size data_len data))
       else ret data) (\<lambda>buf.
     andthen (preferred_group img (inode_no target)) (\<lambda>preferred_cg.
     andthen (rewrite_inode_contents img (inode_no target) ino preferred_cg buf final_size) (\<lambda>_.
     image_fsync img))))))))))"

definition path_overwrite_file ::
    "nextufs_image fs \<Rightarrow> nextufs_write_ctx option \<Rightarrow> u8 list \<Rightarrow> buf \<Rightarrow> nat \<Rightarrow> unit fs" where
  "path_overwrite_file open_rw octx path data data_len =
     rewrite_file_contents open_rw octx path data data_len False"

definition path_append_file ::
    "nextufs_image fs \<Rightarrow> nextufs_write_ctx option \<Rightarrow> u8 list \<Rightarrow> buf \<Rightarrow> nat \<Rightarrow> unit fs" where
  "path_append_file open_rw octx path data data_len =
     rewrite_file_contents open_rw octx path data data_len True"

text \<open>The content a truncation or a write in the middle gives to the file: the old one, then zeros.\<close>

definition zero_extended :: "nextufs_image \<Rightarrow> nextufs_inode \<Rightarrow> nat \<Rightarrow> buf fs" where
  "zero_extended img ino copy_size =
     (if copy_size \<noteq> 0
      then andthen (inode_read_data img ino 0 copy_size (\<lambda>_. 0)) (\<lambda>(b, _). ret b)
      else ret (\<lambda>_. 0))"

definition path_truncate :: "nextufs_image fs \<Rightarrow> nextufs_write_ctx option \<Rightarrow> u8 list \<Rightarrow> u64 \<Rightarrow> unit fs" where
  "path_truncate open_rw octx path new_size =
     with_ctx octx (\<lambda>ctx.
     andthen (lift (require_ctx_ids_fit ctx)) (\<lambda>_.
     andthen open_rw (\<lambda>img.
     andthen (node_lookup img path False) (\<lambda>target.
     andthen (check (node_is_reg target) EINVAL) (\<lambda>_.
     andthen (lift (require_user_access ctx target W_OK)) (\<lambda>_.
     let ino = inode target in
     andthen (sys_os malloc) (\<lambda>_.
     andthen (zero_extended img ino (min (unat (isize ino)) (unat new_size))) (\<lambda>buf.
     andthen (preferred_group img (inode_no target)) (\<lambda>preferred_cg.
     andthen (rewrite_inode_contents img (inode_no target) ino preferred_cg buf (unat new_size)) (\<lambda>_.
     image_fsync img))))))))))"

definition path_pwrite ::
    "nextufs_image fs \<Rightarrow> nextufs_write_ctx option \<Rightarrow> u8 list \<Rightarrow> buf \<Rightarrow> nat \<Rightarrow> u64 \<Rightarrow> unit fs" where
  "path_pwrite open_rw octx path data data_len offset =
     with_ctx octx (\<lambda>ctx.
     if 2 ^ 64 \<le> unat offset + data_len then fail EFBIG
     else
     andthen (lift (require_ctx_ids_fit ctx)) (\<lambda>_.
     andthen open_rw (\<lambda>img.
     andthen (node_lookup img path False) (\<lambda>target.
     andthen (check (node_is_reg target) EINVAL) (\<lambda>_.
     andthen (lift (require_user_access ctx target W_OK)) (\<lambda>_.
     let ino = inode target; old_size = unat (isize ino);
         final_size = max old_size (unat offset + data_len) in
     andthen (sys_os malloc) (\<lambda>_.
     andthen (zero_extended img ino old_size) (\<lambda>buf.
     andthen (preferred_group img (inode_no target)) (\<lambda>preferred_cg.
     andthen (rewrite_inode_contents img (inode_no target) ino preferred_cg
       (blit buf (unat offset) data_len data) final_size) (\<lambda>_.
     image_fsync img))))))))))"

section \<open>Names\<close>

definition path_rmdir :: "nextufs_image fs \<Rightarrow> nextufs_write_ctx option \<Rightarrow> u8 list \<Rightarrow> unit fs" where
  "path_rmdir open_rw octx path =
     with_ctx octx (\<lambda>ctx.
     andthen (lift (require_ctx_ids_fit ctx)) (\<lambda>_.
     andthen (lift (path_split path 4096 256)) (\<lambda>(parent_path, name).
     andthen open_rw (\<lambda>img.
     andthen (node_lookup img parent_path True) (\<lambda>parent.
     andthen (lift (require_parent_mutation ctx parent)) (\<lambda>_.
     andthen (node_lookup img path False) (\<lambda>target.
     andthen (check (node_is_dir target) ENOTDIR) (\<lambda>_.
     andthen (lift (check_sticky_parent ctx parent target)) (\<lambda>_.
     andthen (if nlink (inode target) \<noteq> 2 then ret False
       else directory_is_empty img target (inode_no parent)) (\<lambda>empty.
     andthen (check empty ENOTEMPTY) (\<lambda>_.
     andthen (remove_dirent img parent name) (\<lambda>(parent, removed_inode).
     andthen (check (removed_inode = inode_no target) EINVAL) (\<lambda>_.
     andthen (remove_dir_inode img parent target) (\<lambda>_.
     image_fsync img))))))))))))))"

definition path_link ::
    "nextufs_image fs \<Rightarrow> nextufs_write_ctx option \<Rightarrow> u8 list \<Rightarrow> u8 list \<Rightarrow> unit fs" where
  "path_link open_rw octx source_path target_path =
     with_ctx octx (\<lambda>ctx.
     andthen (split_new_name ctx target_path) (\<lambda>(parent_path, name).
     andthen open_rw (\<lambda>img.
     andthen (node_lookup img parent_path True) (\<lambda>parent.
     andthen (lift (require_parent_mutation ctx parent)) (\<lambda>_.
     andthen (node_lookup img source_path False) (\<lambda>source.
     andthen (check (\<not> node_is_dir source) EPERM) (\<lambda>_.
     andthen (require_absent img target_path) (\<lambda>_.
     andthen (sys_os time) (\<lambda>now.
     andthen (write_inode_raw img (inode_no source)
       ((inode source)\<lparr>nlink := nlink (inode source) + 1, ctime := now\<rparr>)) (\<lambda>_.
     andthen (insert_dirent img parent name (inode_no source)) (\<lambda>_.
     image_fsync img)))))))))))"

definition path_symlink ::
    "nextufs_image fs \<Rightarrow> nextufs_write_ctx option \<Rightarrow> u8 list \<Rightarrow> u8 list \<Rightarrow> unit fs" where
  "path_symlink open_rw octx target lpath =
     with_ctx octx (\<lambda>ctx.
     andthen (split_new_name ctx lpath) (\<lambda>(parent_path, name).
     andthen open_rw (\<lambda>img.
     andthen (node_lookup img parent_path True) (\<lambda>parent.
     andthen (lift (require_parent_mutation ctx parent)) (\<lambda>_.
     andthen (require_absent img lpath) (\<lambda>_.
     andthen (preferred_group img (inode_no parent)) (\<lambda>parent_cg.
     andthen (allocate_inode_in_group img parent_cg (IFLNK OR 0x1ff)) (\<lambda>new_inode_no.
     andthen (sys_os time) (\<lambda>now.
     let ino = cleared_inode\<lparr>mode := IFLNK OR 0x1ff, nlink := 1\<rparr>;
         ino = set_new_inode_owner ctx parent ino;
         ino = sanitize_new_inode_mode ctx ino;
         ino = ino\<lparr>isize := of_nat (length target), atime := now, mtime := now, ctime := now\<rparr> in
     andthen (if length target \<le> 60
       then ret (store_inline_symlink target (ino\<lparr>flags := IC_FASTLINK\<rparr>))
       else store_data img new_inode_no parent_cg (bytes_of target) (length target) ino) (\<lambda>ino.
     andthen (publish_inode img parent name new_inode_no ino) (\<lambda>_.
     image_fsync img)))))))))))"

definition path_mknod ::
    "nextufs_image fs \<Rightarrow> nextufs_write_ctx option \<Rightarrow> u8 list \<Rightarrow> u16 \<Rightarrow> u32 \<Rightarrow> unit fs" where
  "path_mknod open_rw octx path md rdev =
     with_ctx octx (\<lambda>ctx.
     let fmt = md AND IFMT in
     andthen (check (fmt \<in> {IFREG, IFIFO, IFCHR, IFBLK, IFSOCK}) EINVAL) (\<lambda>_.
     andthen (split_new_name ctx path) (\<lambda>(parent_path, name).
     andthen open_rw (\<lambda>img.
     andthen (node_lookup img parent_path True) (\<lambda>parent.
     andthen (check (node_is_dir parent) ENOTDIR) (\<lambda>_.
     andthen (lift (require_parent_mutation ctx parent)) (\<lambda>_.
     andthen (require_absent img path) (\<lambda>_.
     andthen (preferred_group img (inode_no parent)) (\<lambda>parent_cg.
     andthen (allocate_inode_in_group img parent_cg md) (\<lambda>new_inode_no.
     andthen (sys_os time) (\<lambda>now.
     let ino = cleared_inode\<lparr>mode := md, nlink := 1\<rparr>;
         ino = set_new_inode_owner ctx parent ino;
         ino = sanitize_new_inode_mode ctx ino;
         ino = ino\<lparr>atime := now, mtime := now, ctime := now,
           db := (if fmt = IFCHR \<or> fmt = IFBLK then (db ino)[0 := rdev] else db ino)\<rparr> in
     andthen (publish_inode img parent name new_inode_no ino) (\<lambda>_.
     image_fsync img))))))))))))"

text \<open>
  Renaming replaces an existing target first: the result is the new parent after that. The fuel
  is that of \<open>directory_has_ancestor\<close>.
\<close>

definition replace_target ::
    "nextufs_image \<Rightarrow> nextufs_write_ctx \<Rightarrow> nextufs_node \<Rightarrow> nextufs_node \<Rightarrow> nextufs_node \<Rightarrow> u8 list
     \<Rightarrow> nextufs_node fs" where
  "replace_target img ctx source new_parent existing new_name =
     (let moving_dir = node_is_dir source in
      andthen (check (moving_dir = node_is_dir existing) (if moving_dir then ENOTDIR else EISDIR)) (\<lambda>_.
      andthen (lift (check_sticky_parent ctx new_parent existing)) (\<lambda>_.
      andthen (if \<not> moving_dir then ret True
        else if 2 < nlink (inode existing) then ret False
        else directory_is_empty img existing (inode_no new_parent)) (\<lambda>empty.
      andthen (check empty ENOTEMPTY) (\<lambda>_.
      andthen (remove_dirent img new_parent new_name) (\<lambda>(new_parent, removed_inode).
      andthen (check (removed_inode = inode_no existing) EINVAL) (\<lambda>_.
      if moving_dir then remove_dir_inode img new_parent existing
      else andthen (remove_linked_inode img existing) (\<lambda>_. ret new_parent))))))))"

definition reparent ::
    "nextufs_image \<Rightarrow> nextufs_node \<Rightarrow> nextufs_node \<Rightarrow> nextufs_node \<Rightarrow> u32 \<Rightarrow> nextufs_node fs" where
  "reparent img source old_parent new_parent now =
     andthen (update_directory_parent_inode img source (inode_no new_parent)) (\<lambda>source.
     andthen (write_inode_raw img (inode_no old_parent)
       ((inode old_parent)\<lparr>nlink := nlink (inode old_parent) - 1, ctime := now, mtime := now\<rparr>)) (\<lambda>_.
     andthen (write_inode_raw img (inode_no new_parent)
       ((inode new_parent)\<lparr>nlink := nlink (inode new_parent) + 1, ctime := now, mtime := now\<rparr>)) (\<lambda>_.
     ret source)))"

definition move_name ::
    "nextufs_image \<Rightarrow> nextufs_node \<Rightarrow> nextufs_node \<Rightarrow> nextufs_node \<Rightarrow> u8 list \<Rightarrow> u8 list \<Rightarrow> unit fs" where
  "move_name img source old_parent new_parent old_name new_name =
     (let changing_parent = inode_no old_parent \<noteq> inode_no new_parent in
      andthen (insert_dirent img new_parent new_name (inode_no source)) (\<lambda>new_parent.
      andthen (remove_dirent img old_parent old_name) (\<lambda>(old_parent, removed_inode).
      andthen (check (removed_inode = inode_no source) EINVAL) (\<lambda>_.
      andthen (sys_os time) (\<lambda>now.
      andthen (if node_is_dir source \<and> changing_parent
        then reparent img source old_parent new_parent now else ret source) (\<lambda>source.
      andthen (write_inode_raw img (inode_no source) ((inode source)\<lparr>ctime := now\<rparr>)) (\<lambda>_.
      image_fsync img)))))))"

definition path_rename ::
    "nat \<Rightarrow> nextufs_image fs \<Rightarrow> nextufs_write_ctx option \<Rightarrow> u8 list \<Rightarrow> u8 list \<Rightarrow> unit fs" where
  "path_rename fuel open_rw octx source_path target_path =
     with_ctx octx (\<lambda>ctx.
     andthen (split_new_name ctx source_path) (\<lambda>(old_parent_path, old_name).
     andthen (lift (path_split target_path 4096 256)) (\<lambda>(new_parent_path, new_name).
     andthen (lift (disallow_target_dot_names new_name)) (\<lambda>_.
     if source_path = target_path then ret ()
     else
     andthen open_rw (\<lambda>img.
     andthen (node_lookup img source_path False) (\<lambda>source.
     andthen (node_lookup img old_parent_path True) (\<lambda>old_parent.
     andthen (lift (require_parent_mutation ctx old_parent)) (\<lambda>_.
     andthen (node_lookup img new_parent_path True) (\<lambda>new_parent.
     andthen (check (node_is_dir new_parent) ENOTDIR) (\<lambda>_.
     andthen (lift (require_parent_mutation ctx new_parent)) (\<lambda>_.
     let moving_dir = node_is_dir source;
         changing_parent = inode_no old_parent \<noteq> inode_no new_parent in
     andthen (lift (check_sticky_parent ctx old_parent source)) (\<lambda>_.
     andthen (if moving_dir \<and> changing_parent then lift (require_user_access ctx source W_OK)
       else ret ()) (\<lambda>_.
     andthen (if moving_dir then directory_has_ancestor fuel img new_parent (inode_no source)
       else ret False) (\<lambda>inside.
     andthen (check (\<not> inside) EINVAL) (\<lambda>_.
     attempt (node_lookup img target_path False) (\<lambda>r. case r of
       Inl e \<Rightarrow> if e \<noteq> ENOENT then fail e
         else move_name img source old_parent new_parent old_name new_name
     | Inr existing \<Rightarrow>
       if inode_no existing = inode_no source then ret ()
       else andthen (replace_target img ctx source new_parent existing new_name) (\<lambda>new_parent.
         move_name img source old_parent new_parent old_name new_name)))))))))))))))))"

section \<open>Attributes\<close>

definition path_chmod :: "nextufs_image fs \<Rightarrow> nextufs_write_ctx option \<Rightarrow> u8 list \<Rightarrow> u16 \<Rightarrow> unit fs" where
  "path_chmod open_rw octx path md =
     with_ctx octx (\<lambda>ctx.
     andthen (lift (require_ctx_ids_fit ctx)) (\<lambda>_.
     andthen open_rw (\<lambda>img.
     andthen (node_lookup img path False) (\<lambda>node.
     andthen (lift (require_chmod_allowed ctx node)) (\<lambda>_.
     andthen (sys_os time) (\<lambda>now.
     andthen (write_inode_raw img (inode_no node)
       ((inode node)\<lparr>mode := sanitize_chmod_mode ctx node md, ctime := now\<rparr>)) (\<lambda>_.
     image_fsync img)))))))"

definition path_chown ::
    "nextufs_image fs \<Rightarrow> nextufs_write_ctx option \<Rightarrow> u8 list \<Rightarrow> u32 \<Rightarrow> u32 \<Rightarrow> unit fs" where
  "path_chown open_rw octx path user grp =
     with_ctx octx (\<lambda>ctx.
     andthen (lift (require_ctx_ids_fit ctx)) (\<lambda>_.
     andthen (lift (require_owner_ids_fit user grp)) (\<lambda>_.
     andthen open_rw (\<lambda>img.
     andthen (node_lookup img path False) (\<lambda>node.
     let ino = inode node;
         new_uid = (if user = - 1 then ucast (uid ino) else user);
         new_gid = (if grp = - 1 then ucast (gid ino) else grp) in
     andthen (lift (require_chown_allowed ctx node new_uid new_gid)) (\<lambda>_.
     andthen (sys_os time) (\<lambda>now.
     let md = (if policy ctx = WriteUser \<and> \<not> ctx_is_root ctx then mode ino AND NOT (0x800 OR 0x400)
               else mode ino) in
     andthen (write_inode_raw img (inode_no node)
       (ino\<lparr>uid := ucast new_uid, gid := ucast new_gid, mode := md, ctime := now\<rparr>)) (\<lambda>_.
     image_fsync img))))))))"

definition path_utimes ::
    "nextufs_image fs \<Rightarrow> nextufs_write_ctx option \<Rightarrow> u8 list \<Rightarrow> u32 \<Rightarrow> u32 \<Rightarrow> unit fs" where
  "path_utimes open_rw octx path new_atime new_mtime =
     with_ctx octx (\<lambda>ctx.
     andthen (lift (require_ctx_ids_fit ctx)) (\<lambda>_.
     andthen open_rw (\<lambda>img.
     andthen (node_lookup img path False) (\<lambda>node.
     andthen (check (\<not> (policy ctx = WriteUser \<and> \<not> ctx_is_root ctx \<and>
       cuid ctx \<noteq> ucast (uid (inode node)))) EPERM) (\<lambda>_.
     andthen (sys_os time) (\<lambda>now.
     andthen (write_inode_raw img (inode_no node)
       ((inode node)\<lparr>atime := new_atime, mtime := new_mtime, ctime := now\<rparr>)) (\<lambda>_.
     image_fsync img)))))))"

end
