(* ===== verification/FileData.thy ===== *)
theory FileData
  imports BlockMap
begin

text \<open>
  The contents of a file, as a function of the bytes of the disk: the fragment of a logical block
  is found in the inode or by descending a tree of indirect blocks, a missing fragment is a hole of
  zeros. The reading routines of \<open>image.c\<close> refine it, and the two routines that resolve a logical
  block (\<open>image.c\<close> for reading, \<open>alloc.c\<close> for freeing) agree on every block that has a fragment.
\<close>

section \<open>Reading does not change the disk\<close>

lemma wp_result [wp_simps]: "wp (Pair (Inr x)) E Q = Q x" "wp (Pair (Inl e)) E Q = E e"
  by (simp_all add: wp_def fun_eq_iff)

text \<open>The postcondition of a read: whatever its result, disk and invariant are as before.\<close>

definition untouched :: "sys \<Rightarrow> sys \<Rightarrow> bool" where
  "untouched s t \<longleftrightarrow> sys_ok t \<and> disk t = disk s"

lemma untouched_refl: "sys_ok s \<Longrightarrow> untouched s s"
  by (simp add: untouched_def)

lemma untouched_trans [trans]: "untouched s t \<Longrightarrow> untouched t u \<Longrightarrow> untouched s u"
  by (simp add: untouched_def)

lemma wp_read_exact:
  assumes "sys_ok s" "\<And>e t. untouched s t \<Longrightarrow> E e t"
    "\<And>t. untouched s t \<Longrightarrow> Q (clip n (\<lambda>i. disk s (nat off + i))) t"
  shows "wp (read_exact n off) E Q s"
  by (rule img.wp_rd [OF assms(1)]) (use assms in \<open>simp_all add: untouched_def\<close>)

section \<open>The specification\<close>

abbreviation epb :: "nextufs_image \<Rightarrow> nat" where
  "epb img \<equiv> unat (block_size (sb img)) div 4"

definition entry_at :: "nextufs_image \<Rightarrow> buf \<Rightarrow> u32 \<Rightarrow> nat \<Rightarrow> u32" where
  "entry_at img d frag i = read_be32 (\<lambda>j. d (nat (frag_offset img frag) + i * 4 + j)) 0"

text \<open>The fragment below \<open>frag\<close>, at depth \<open>l\<close>, that holds the \<open>i\<close>-th block of the tree.\<close>

fun tree_frag :: "nextufs_image \<Rightarrow> buf \<Rightarrow> nat \<Rightarrow> u32 \<Rightarrow> nat \<Rightarrow> u32" where
  "tree_frag img d 0 frag i = frag"
| "tree_frag img d (Suc l) frag i =
     (if frag = 0 then 0
      else tree_frag img d l (entry_at img d frag (i div epb img ^ l)) (i mod epb img ^ l))"

lemma tree_frag_0: "tree_frag img d (Suc l) 0 i = 0"
  by simp

fun root_frag :: "nextufs_image \<Rightarrow> buf \<Rightarrow> u32 list \<Rightarrow> nat \<Rightarrow> nat \<Rightarrow> u32" where
  "root_frag img d [] l i = 0"
| "root_frag img d (root # roots) l i =
     (if i < epb img ^ l then tree_frag img d l root i
      else root_frag img d roots (l + 1) (i - epb img ^ l))"

definition file_frag :: "nextufs_image \<Rightarrow> buf \<Rightarrow> nextufs_inode \<Rightarrow> nat \<Rightarrow> u32" where
  "file_frag img d ino k = (if k < 12 then db ino ! k else root_frag img d (ib ino) 1 (k - 12))"

definition file_at :: "nextufs_image \<Rightarrow> buf \<Rightarrow> nextufs_inode \<Rightarrow> nat \<Rightarrow> u8" where
  "file_at img d ino i =
     (let bs = unat (block_size (sb img)); f = file_frag img d ino (i div bs)
      in if f = 0 then 0 else d (nat (frag_offset img f) + i mod bs))"

text \<open>
  Blocks of at most 64 KB (the file systems have 8 KB): then the \<open>uint64_t\<close> arithmetic of the tree
  walk does not wrap.
\<close>

definition block_sane :: "nextufs_image \<Rightarrow> bool" where
  "block_sane img \<longleftrightarrow> 4 \<le> unat (block_size (sb img)) \<and> unat (block_size (sb img)) \<le> 65536 \<and> 0 \<le> slice_base img"

lemma block_saneD:
  assumes "block_sane img"
  shows "0 < epb img" "epb img \<le> 16384" "unat (entries_per_block img) = epb img" "0 \<le> frag_offset img f"
proof -
  show b: "0 < epb img" "epb img \<le> 16384" using assms by (auto simp: block_sane_def)
  show "unat (entries_per_block img) = epb img"
    using take_bit_nat_eq_self [of "unat (block_size (sb img))" 64] unat_le_max32 [of "block_size (sb img)"]
    by (simp add: entries_per_block_def unat_div unsigned_ucast_eq)
  show "0 \<le> frag_offset img f" using assms by (simp add: block_sane_def frag_offset_def)
qed

lemma epb_power:
  assumes "block_sane img" "l \<le> 3"
  shows "epb img ^ l \<le> 4398046511104"
proof -
  have "epb img ^ l \<le> 16384 ^ l" using block_saneD(2) [OF assms(1)] by (rule power_mono) simp
  also have "\<dots> \<le> (16384 :: nat) ^ 3" using assms(2) by (intro power_increasing) auto
  finally show ?thesis by simp
qed

lemma unat_less_2_64: "unat (x :: u64) < 2 ^ 64"
  using unsigned_less [of x] by simp

lemma unat_power64: "unat (x :: u64) ^ n < 2 ^ 64 \<Longrightarrow> unat (x ^ n) = unat x ^ n"
proof (induction n)
  case (Suc n)
  have "unat x ^ n < 2 ^ 64" if "x \<noteq> 0"
  proof -
    from that have "0 < unat x" by (simp add: unat_gt_0)
    then have "unat x ^ n \<le> unat x ^ Suc n" by simp
    with Suc.prems show ?thesis by (simp only: le_less_trans)
  qed
  with Suc.IH have "unat (x ^ n) = unat x ^ n" if "x \<noteq> 0" using that by blast
  with Suc.prems show ?case by (cases "x = 0") (simp_all add: unat_word_ariths)
qed simp

lemma unat_level_span:
  assumes "block_sane img" "l < 3"
  shows "unat (level_span img (Suc l)) = epb img ^ l"
  using unat_power64 [of "entries_per_block img" l] epb_power [OF assms(1), of l] assms(2)
  by (simp add: level_span_def block_saneD(3) [OF assms(1)])

section \<open>Resolving a block\<close>

lemma wp_read_indirect_entry:
  assumes "block_sane img" "sys_ok s" "unat i < epb img"
  shows "wp (read_indirect_entry img frag i) (\<lambda>_. untouched s)
    (\<lambda>f t. f = entry_at img (disk s) frag (unat i) \<and> untouched s t) s"
proof -
  have i: "\<not> entries_per_block img \<le> i" using assms(3) block_saneD(3) [OF assms(1)] by (simp add: word_le_nat_alt)
  have off: "frag_offset img frag + int (unat i * 4) = int (nat (frag_offset img frag) + unat i * 4)"
    using block_saneD(4) [OF assms(1), of frag] by simp
  show ?thesis
    unfolding read_indirect_entry_def off using i
    by (simp add: wp_simps del: of_nat_add of_nat_mult)
      (rule wp_read_exact [OF assms(2)], simp_all add: entry_at_def read_be32_def del: of_nat_add of_nat_mult)
qed

lemma wp_resolve_indirect:
  assumes "block_sane img"
  shows "l < 3 \<Longrightarrow> sys_ok s \<Longrightarrow> unat idx < epb img ^ Suc l \<Longrightarrow>
    wp (resolve_indirect_block_frag img frag (Suc l) idx) (\<lambda>_. untouched s)
      (\<lambda>f t. f = tree_frag img (disk s) (Suc l) frag (unat idx) \<and> untouched s t) s"
proof (induction l arbitrary: frag idx s)
  case (0 frag idx s)
  have "wp (read_indirect_entry img frag idx) (\<lambda>_. untouched s)
    (\<lambda>f t. f = entry_at img (disk s) frag (unat idx) \<and> untouched s t) s"
    by (rule wp_read_indirect_entry [OF assms]) (use 0 in simp_all)
  with 0 assms show ?case
    by (auto simp: level_span_def wp_simps Let_def untouched_refl elim!: wp_mono)
next
  case (Suc l frag idx s)
  let ?sp = "level_span img (Suc (Suc l))"
  have sp: "unat ?sp = epb img ^ Suc l" using unat_level_span [OF assms, of "Suc l"] Suc.prems(1) by simp
  have pos: "0 < epb img ^ Suc l" using block_saneD(1) [OF assms] by simp
  have "unat (idx div ?sp) = unat idx div epb img ^ Suc l" "unat (idx mod ?sp) = unat idx mod epb img ^ Suc l"
    using sp by (simp_all add: unat_div unat_mod)
  moreover have "unat idx div epb img ^ Suc l < epb img"
    using Suc.prems(3) pos by (simp add: less_mult_imp_div_less mult.commute)
  ultimately have q: "unat (idx div ?sp) < epb img"
    "unat (idx div ?sp) = unat idx div epb img ^ Suc l" "unat (idx mod ?sp) = unat idx mod epb img ^ Suc l"
    by simp_all
  have step: "wp (resolve_indirect_block_frag img f (Suc l) (idx mod ?sp)) (\<lambda>_. untouched s)
      (\<lambda>f' t. f' = tree_frag img (disk s) (Suc l) f (unat idx mod epb img ^ Suc l) \<and> untouched s t) t"
    if "untouched s t" for f t
  proof -
    from that have "sys_ok t" "disk t = disk s" by (simp_all add: untouched_def)
    have r: "unat (idx mod ?sp) < epb img ^ Suc l" unfolding q(3) by (rule mod_less_divisor [OF pos])
    have "wp (resolve_indirect_block_frag img f (Suc l) (idx mod ?sp)) (\<lambda>_. untouched t)
        (\<lambda>f' u. f' = tree_frag img (disk s) (Suc l) f (unat idx mod epb img ^ Suc l) \<and> untouched t u) t"
      using Suc.IH [OF _ \<open>sys_ok t\<close> r, of f] Suc.prems(1) unfolding q(3) \<open>disk t = disk s\<close> by simp
    then show ?thesis by (rule wp_mono) (use that in \<open>blast intro: untouched_trans\<close>)+
  qed
  have *: "wp (read_indirect_entry img frag (idx div ?sp)) (\<lambda>_. untouched s)
    (\<lambda>f t. f = entry_at img (disk s) frag (unat idx div epb img ^ Suc l) \<and> untouched s t) s"
    using wp_read_indirect_entry [OF assms Suc.prems(2) q(1)] by (simp only: q(2))
  have rd: "wp (read_indirect_entry img frag (idx div ?sp)) (\<lambda>_. untouched s)
    (\<lambda>f. wp (if f = 0 then ret 0 else resolve_indirect_block_frag img f (Suc l) (idx mod ?sp)) (\<lambda>_. untouched s)
      (\<lambda>f' t. f' = tree_frag img (disk s) (Suc l) (entry_at img (disk s) frag (unat idx div epb img ^ Suc l))
        (unat idx mod epb img ^ Suc l) \<and> untouched s t)) s"
  proof (rule wp_mono [OF *], assumption)
    fix f t assume f: "f = entry_at img (disk s) frag (unat idx div epb img ^ Suc l) \<and> untouched s t"
    show "wp (if f = 0 then ret 0 else resolve_indirect_block_frag img f (Suc l) (idx mod ?sp)) (\<lambda>_. untouched s)
      (\<lambda>f' t. f' = tree_frag img (disk s) (Suc l) (entry_at img (disk s) frag (unat idx div epb img ^ Suc l))
        (unat idx mod epb img ^ Suc l) \<and> untouched s t) t"
    proof (cases "f = 0")
      case True
      then show ?thesis using f by (simp add: wp_ret tree_frag_0 del: tree_frag.simps)
    next
      case False
      then show ?thesis using step [of t f] f by (simp only: if_False)
    qed
  qed
  have "?sp \<noteq> 0" using sp pos by (metis less_irrefl unat_0)
  moreover have "entries_per_block img \<noteq> 0" using block_saneD(1,3) [OF assms] by (metis less_irrefl unat_0)
  ultimately show ?case
    unfolding resolve_indirect_block_frag.simps(2) [of img frag "Suc l"] tree_frag.simps(2) [of img "disk s" "Suc l" frag]
    using rd Suc.prems(2) by (simp add: wp_simps Let_def untouched_refl del: tree_frag.simps resolve_indirect_block_frag.simps)
qed


lemma wp_resolve_slots:
  assumes "block_sane img" "sys_ok s"
  shows "i + length roots = 3 \<Longrightarrow> unat sp = epb img ^ (i + 1) \<Longrightarrow>
    wp (resolve_file_slots img roots i idx sp) (\<lambda>_. untouched s)
      (\<lambda>f t. f = root_frag img (disk s) roots (i + 1) (unat idx) \<and> untouched s t) s"
proof (induction roots arbitrary: i idx sp)
  case Nil
  show ?case by (simp add: wp_def untouched_refl assms(2))
next
  case (Cons root roots)
  have lt: "idx < sp \<longleftrightarrow> unat idx < epb img ^ (i + 1)" using Cons.prems(2) by (simp add: word_less_nat_alt)
  show ?case
  proof (cases "idx < sp")
    case True
    then show ?thesis
      using wp_resolve_indirect [OF assms(1), of i s idx root] Cons.prems assms(2) lt
      by (simp del: resolve_indirect_block_frag.simps tree_frag.simps)
  next
    case False
    have "wp (resolve_file_slots img roots (i + 1) (idx - sp) (sp * entries_per_block img)) (\<lambda>_. untouched s)
      (\<lambda>f t. f = root_frag img (disk s) roots (i + 2) (unat idx - epb img ^ (i + 1)) \<and> untouched s t) s"
    proof (cases roots)
      case Nil
      then show ?thesis by (simp add: wp_def untouched_refl assms(2))
    next
      case (Cons r rs)
      have "epb img ^ (i + 2) \<le> 4398046511104" using Cons Cons.prems(1) by (intro epb_power [OF assms(1)]) simp
      then have "unat sp * unat (entries_per_block img) < 2 ^ 64"
        using Cons.prems(2) by (simp add: block_saneD(3) [OF assms(1)] mult.commute)
      then have "unat (sp * entries_per_block img) = epb img ^ (i + 2)"
        using Cons.prems(2) by (simp add: unat_word_ariths block_saneD(3) [OF assms(1)] mult.commute)
      moreover have "unat (idx - sp) = unat idx - epb img ^ (i + 1)"
        using False Cons.prems(2) by (simp add: unat_sub not_less)
      ultimately show ?thesis using Cons.IH [of "i + 1" "sp * entries_per_block img" "idx - sp"] Cons.prems(1) by simp
    qed
    then show ?thesis using False lt by simp
  qed
qed

lemma wp_resolve_file:
  assumes "block_sane img" "sys_ok s" "inode_wf ino"
  shows "wp (resolve_file_block_frag img ino k) (\<lambda>_. untouched s)
    (\<lambda>f t. f = file_frag img (disk s) ino (unat k) \<and> untouched s t) s"
proof (cases "k < 12")
  case True
  then have "unat k < 12" by (simp add: word_less_nat_alt)
  then show ?thesis using True assms(2) by (simp add: resolve_file_block_frag_def file_frag_def wp_simps untouched_refl)
next
  case False
  then have "\<not> unat k < 12" "unat (k - 12) = unat k - 12" by (simp_all add: word_less_nat_alt unat_sub word_le_nat_alt)
  then show ?thesis
    using False wp_resolve_slots [OF assms(1,2), of 0 "ib ino" "entries_per_block img" "k - 12"] assms(3)
    by (simp add: resolve_file_block_frag_def file_frag_def inode_wf_def block_saneD(3) [OF assms(1)])
qed

section \<open>Reading data\<close>

text \<open>The transfer loop fills in the bytes of the file from its position on, one block at a time.\<close>

lemma read_data_loop_0: "read_data_loop img ino done 0 lbi off out = ret out"
  by (simp add: fun_eq_iff read_data_loop.simps)

lemma read_data_loop_step:
  assumes "0 < n" "off < unat (block_size (sb img))"
  shows "read_data_loop img ino done n lbi off out =
    (let chunk = min (unat (block_size (sb img)) - off) n in
     andthen (resolve_file_block_frag img ino lbi) (\<lambda>f.
     andthen (if f = 0 then ret (\<lambda>_. 0) else read_exact chunk (frag_offset img f + int off)) (\<lambda>b.
     read_data_loop img ino (done + chunk) (n - chunk) (lbi + 1) 0 (blit out done chunk b))))"
  using assms by (subst read_data_loop.simps [abs_def])
    (auto simp: fun_eq_iff andthen_def Let_def split: prod.splits sum.splits)

lemma file_at_block:
  assumes "off + i < unat (block_size (sb img))" "f = file_frag img d ino k"
  shows "file_at img d ino (k * unat (block_size (sb img)) + off + i) =
    (if f = 0 then 0 else d (nat (frag_offset img f) + off + i))"
proof -
  have "k * unat (block_size (sb img)) + off + i = (off + i) + k * unat (block_size (sb img))" by simp
  moreover have "((off + i) + k * unat (block_size (sb img))) div unat (block_size (sb img)) = k"
    using assms(1) by (subst div_mult_self1) auto
  moreover have "((off + i) + k * unat (block_size (sb img))) mod unat (block_size (sb img)) = off + i"
    using assms(1) by (simp only: mod_mult_self1 mod_less)
  ultimately show ?thesis using assms(2) by (simp only: file_at_def Let_def add.assoc)
qed

lemma wp_read_data_loop:
  assumes "block_sane img" "inode_wf ino"
  shows "sys_ok s \<Longrightarrow> off < unat (block_size (sb img)) \<Longrightarrow>
    unat lbi * unat (block_size (sb img)) + off + n \<le> 2 ^ 64 \<Longrightarrow>
    wp (read_data_loop img ino done n lbi off out) (\<lambda>_. untouched s)
      (\<lambda>b t. b = blit out done n
        (\<lambda>i. file_at img (disk s) ino (unat lbi * unat (block_size (sb img)) + off + i)) \<and> untouched s t) s"
proof (induction n arbitrary: s "done" lbi off out rule: less_induct)
  case (less n s "done" lbi off out)
  let ?bs = "unat (block_size (sb img))"
  let ?p = "unat lbi * ?bs + off"
  show ?case
  proof (cases "n = 0")
    case True
    then show ?thesis by (simp add: read_data_loop_0 wp_def untouched_refl less.prems(1))
  next
    case False
    then have n: "0 < n" by simp
    let ?c = "min (?bs - off) n"
    have c: "0 < ?c" "?c \<le> n" using False less.prems(2) by auto
    have rest: "wp (read_data_loop img ino (done + ?c) (n - ?c) (lbi + 1) 0 (blit out done ?c b)) (\<lambda>_. untouched s)
      (\<lambda>b' t. b' = blit out done n (\<lambda>i. file_at img (disk s) ino (?p + i)) \<and> untouched s t) t"
      if t: "untouched s t" and b: "\<And>i. i < ?c \<Longrightarrow> b i = file_at img (disk s) ino (?p + i)" for b t
    proof -
      have b': "blit out done ?c b = blit out done ?c (\<lambda>i. file_at img (disk s) ino (?p + i))"
        using b by (rule blit_cong)
      show ?thesis
      proof (cases "n \<le> ?bs - off")
        case True
        then show ?thesis using t b' by (simp add: read_data_loop_0 wp_def)
      next
        case False
        then have c': "?c = ?bs - off" by simp
        have "(unat lbi + 1) * ?bs < 2 ^ 64" using False less.prems(2,3) by (simp add: algebra_simps)
        then have "unat lbi + 1 < 2 ^ 64" using less.prems(2) by (metis gr_zeroI le_less_trans mult_le_mono2 mult_1_right less_one not_less Suc_leI One_nat_def not_less0)
        then have l: "unat (lbi + 1) = unat lbi + 1" by (simp add: unat_word_ariths)
        have q: "unat (lbi + 1) * ?bs + 0 = ?p + ?c" using less.prems(2) by (simp add: l c')
        have t': "sys_ok t" "disk t = disk s" using t by (simp_all add: untouched_def)
        have "wp (read_data_loop img ino (done + ?c) (n - ?c) (lbi + 1) 0 (blit out done ?c b)) (\<lambda>_. untouched t)
          (\<lambda>b' u. b' = blit (blit out done ?c b) (done + ?c) (n - ?c)
            (\<lambda>i. file_at img (disk t) ino (?p + ?c + i)) \<and> untouched t u) t"
          using less.IH [of "n - ?c" t 0 "lbi + 1" "done + ?c" "blit out done ?c b"] c less.prems(2,3) t'(1)
          unfolding q by simp
        then show ?thesis
        proof (rule wp_mono)
          fix b2 u assume u: "b2 = blit (blit out done ?c b) (done + ?c) (n - ?c)
            (\<lambda>i. file_at img (disk t) ino (?p + ?c + i)) \<and> untouched t u"
          have "b2 = blit out done (?c + (n - ?c)) (\<lambda>i. file_at img (disk s) ino (?p + i))"
            using u unfolding b' t'(2) by (simp only: blit_append [symmetric] add.assoc)
          then show "b2 = blit out done n (\<lambda>i. file_at img (disk s) ino (?p + i)) \<and> untouched s u"
            using u c(2) untouched_trans [OF t] by simp
        qed (use untouched_trans [OF t] in blast)
      qed
    qed
    show ?thesis
      unfolding read_data_loop_step [OF n less.prems(2)] Let_def wp_andthen
    proof (rule wp_mono [OF wp_resolve_file [OF assms(1) less.prems(1) assms(2)]], assumption)
      fix f t assume f: "f = file_frag img (disk s) ino (unat lbi) \<and> untouched s t"
      then have t: "sys_ok t" "disk t = disk s" "untouched s t" by (simp_all add: untouched_def)
      have at: "file_at img (disk s) ino (?p + i) = (if f = 0 then 0 else disk s (nat (frag_offset img f) + off + i))"
        if "i < ?c" for i
        using that f by (intro file_at_block) auto
      have o: "nat (frag_offset img f + int off) = nat (frag_offset img f) + off"
        using block_saneD(4) [OF assms(1), of f] by (simp add: nat_add_distrib)
      show "wp (if f = 0 then ret (\<lambda>_. 0) else read_exact ?c (frag_offset img f + int off)) (\<lambda>_. untouched s)
        (\<lambda>b. wp (read_data_loop img ino (done + ?c) (n - ?c) (lbi + 1) 0 (blit out done ?c b)) (\<lambda>_. untouched s)
          (\<lambda>b' t. b' = blit out done n (\<lambda>i. file_at img (disk s) ino (?p + i)) \<and> untouched s t)) t"
      proof (cases "f = 0")
        case True
        then show ?thesis using rest [OF t(3)] at by (simp add: wp_ret)
      next
        case False
        then show ?thesis
          by (simp only: if_False)
            (rule wp_read_exact [OF t(1)], use untouched_trans [OF t(3)] in blast,
             rule rest [OF untouched_trans [OF t(3)]], use at False o t(2) in auto)
      qed
    qed
  qed
qed


lemma wp_inode_read_data:
  assumes "block_sane img" "inode_wf ino" "sys_ok s"
  shows "wp (inode_read_data img ino start n out) (\<lambda>_. untouched s)
    (\<lambda>(b, k) t. k = min n (unat (isize ino) - unat start) \<and>
      b = blit out 0 k (\<lambda>i. file_at img (disk s) ino (unat start + i)) \<and> untouched s t) s"
proof (cases "isize ino \<le> start")
  case True
  then show ?thesis by (simp add: inode_read_data_def wp_simps word_le_nat_alt untouched_refl assms(3))
next
  case False
  let ?bs = "unat (block_size (sb img))"
  let ?n = "min (unat (isize ino - start)) n"
  have bs: "0 < ?bs" using assms(1) by (simp add: block_sane_def)
  then have "block_size (sb img) \<noteq> 0" by (metis less_irrefl unat_0)
  have sub: "unat (isize ino - start) = unat (isize ino) - unat start" "unat start < unat (isize ino)"
    using False unat_sub [of start "isize ino"] by (simp_all add: not_le word_less_nat_alt word_le_nat_alt)
  have "unat start div ?bs \<le> unat start" by simp
  also have "\<dots> < 2 ^ 64" by (rule unat_less_2_64)
  finally have lbi: "unat (of_nat (unat start div ?bs) :: u64) = unat start div ?bs"
    by (simp add: unat_of_nat)
  have at: "unat start div ?bs * ?bs + unat start mod ?bs = unat start" by simp
  have "unat start + ?n \<le> 2 ^ 64"
    using sub unat_less_2_64 [of "isize ino"] by simp
  then have "wp (read_data_loop img ino 0 ?n (of_nat (unat start div ?bs)) (unat start mod ?bs) out) (\<lambda>_. untouched s)
      (\<lambda>b t. b = blit out 0 ?n (\<lambda>i. file_at img (disk s) ino (unat start + i)) \<and> untouched s t) s"
    using wp_read_data_loop [OF assms, of "unat start mod ?bs" "of_nat (unat start div ?bs)" ?n 0 out] bs
    unfolding lbi at by simp
  then show ?thesis
    using False \<open>block_size (sb img) \<noteq> 0\<close>
    by (auto simp: inode_read_data_def wp_simps Let_def sub(1) min.commute elim!: wp_mono)
qed

section \<open>The two ways to resolve a block\<close>

lemma read_indirect_entry_no_entries:
  "entries_per_block img = 0 \<Longrightarrow> read_indirect_entry img frag i = fail EINVAL"
  by (simp add: read_indirect_entry_def)

lemma resolve_tree_agree:
  assumes "f \<noteq> 0"
  shows "resolve_indirect_block_frag img frag (Suc l) idx s = (Inr f, t) \<longleftrightarrow>
    resolve_indirect_data_block img frag (Suc l) idx s = (Inr f, t)"
proof (induction l arbitrary: frag idx s)
  case 0
  show ?case
    using assms by (cases "entries_per_block img = 0"; cases t)
      (auto simp: level_span_def Let_def io_elims read_indirect_entry_no_entries)
next
  case (Suc l)
  have sp: "entries_per_block img = 0 \<Longrightarrow> level_span img (Suc (Suc l)) = 0" by (simp add: level_span_def)
  have 0: "resolve_indirect_data_block img 0 (Suc l) i = ret 0" for i by simp
  show ?case
    unfolding resolve_indirect_block_frag.simps(2) [of img frag "Suc l"]
      resolve_indirect_data_block.simps(2) [of img frag "Suc l"] Let_def
    using assms sp Suc.IH
    by (auto simp: io_elims 0 simp del: resolve_indirect_block_frag.simps resolve_indirect_data_block.simps
        split: if_splits) (metis 0 Inr_inject old.prod.inject ret_apply)+
qed

lemma resolve_slots_agree:
  assumes "f \<noteq> 0"
  shows "resolve_file_slots img roots i idx sp s = (Inr f, t) \<longleftrightarrow>
    resolve_inode_slots img roots i idx sp s = (Inr f, t)"
  using resolve_tree_agree [OF assms]
  by (induction roots arbitrary: i idx sp)
    (simp_all del: resolve_indirect_block_frag.simps resolve_indirect_data_block.simps)

lemma resolvers_agree:
  assumes "f \<noteq> 0"
  shows "resolve_file_block_frag img ino (ucast k) s = (Inr f, t) \<longleftrightarrow>
    resolve_inode_data_block img ino k s = (Inr f, t)"
proof -
  have n: "unat (ucast k :: u64) = unat k"
    using take_bit_nat_eq_self [of "unat k" 64] unat_le_max32 [of k] by (simp add: unsigned_ucast_eq)
  then have lt: "(ucast k :: u64) < 12 \<longleftrightarrow> k < 12" by (simp add: word_less_nat_alt)
  have sub: "(ucast k - 12 :: u64) = ucast (k - 12)" if "\<not> k < 12"
  proof -
    have 12: "(12 :: u32) \<le> k" "(12 :: u64) \<le> ucast k" using that lt by simp_all
    have "unat (k - 12) = unat k - 12" using unat_sub [OF 12(1)] by simp
    moreover have "unat (ucast (k - 12) :: u64) = unat (k - 12)"
      using take_bit_nat_eq_self [of "unat (k - 12)" 64] unat_le_max32 [of "k - 12"] by (simp add: unsigned_ucast_eq)
    moreover have "unat (ucast k - 12 :: u64) = unat k - 12" using unat_sub [OF 12(2)] n by simp
    ultimately show ?thesis by (metis unsigned_word_eqI)
  qed
  show ?thesis
  proof (cases "k < 12")
    case True
    then show ?thesis using lt n by (simp add: resolve_file_block_frag_def resolve_inode_data_block_def)
  next
    case False
    then show ?thesis using lt sub resolve_slots_agree [OF assms]
      by (simp add: resolve_file_block_frag_def resolve_inode_data_block_def)
  qed
qed

text \<open>Where they differ: a hole below a root that is missing. Freeing skips it, reading fails.\<close>

lemma missing_root_unreadable:
  assumes "i < 3" "length roots = 1" "hd roots = 0" "idx < sp"
  shows "resolve_file_slots img roots i idx sp s = (Inl EINVAL, s)"
    "resolve_inode_slots img roots i idx sp s = (Inr 0, s)"
  using assms by (cases roots; simp)+

end
