(* ===== verification/Quiet.thy ===== *)
theory Quiet
  imports PathOps FileData
begin

text \<open>
  The operations that only read: whatever they return, and whatever the host does to them, the
  disk is as before. A changing operation is such a part followed by its writes, so what its
  checks have established when the disk has changed can be read off the composition.
\<close>

definition quiet :: "'a fs \<Rightarrow> bool" where
  "quiet m \<longleftrightarrow> keeps (\<lambda>s t. fst t = fst s) m"

named_theorems quiets "operations that leave the disk alone"

lemma quiet_fst: "quiet m \<Longrightarrow> m s = (r, t) \<Longrightarrow> fst t = fst s"
  unfolding quiet_def keeps_def by blast

lemma quietI: "(\<And>s r t. m s = (r, t) \<Longrightarrow> fst t = fst s) \<Longrightarrow> quiet m"
  unfolding quiet_def keeps_def by blast

text \<open>Disk and well-formedness are those of the backend.\<close>

lemma same_backend: "fst t = fst s \<Longrightarrow> disk t = disk s \<and> (sys_ok t \<longleftrightarrow> sys_ok s)"
  by (cases s; cases t) (simp add: disk_def sys_ok_def)

lemma quiet_disk: "quiet m \<Longrightarrow> m s = (r, t) \<Longrightarrow> disk t = disk s \<and> (sys_ok t \<longleftrightarrow> sys_ok s)"
  using quiet_fst same_backend by blast

lemma quietD: "quiet m \<Longrightarrow> m s = (r, t) \<Longrightarrow> sys_ok s \<Longrightarrow> untouched s t"
  using quiet_disk unfolding untouched_def by blast

lemma quiet_rel: "reflp (\<lambda>s t. fst t = fst s)" "transp (\<lambda>s t. fst t = fst s)"
  by (auto simp: reflp_def transp_def)

lemma quiet_ret [quiets]: "quiet (ret x)"
  and quiet_fail [quiets]: "quiet (fail e)"
  and quiet_check [quiets]: "quiet (check b e)"
  using quiet_rel unfolding quiet_def by (auto intro: keeps_ret keeps_fail keeps_check)

lemma quiet_results [quiets]: "quiet (Pair (Inr x))" "quiet (Pair (Inl e))"
  using quiet_ret [of x] quiet_fail [of e] by (simp_all add: ret_def fail_def)

lemma quiet_lift [quiets]: "quiet (lift r)"
  by (cases r) (simp_all add: lift_def quiets)

lemma quiet_andthen [quiets]: "quiet m \<Longrightarrow> (\<And>x. quiet (k x)) \<Longrightarrow> quiet (andthen m k)"
  unfolding quiet_def by (intro keeps_andthen quiet_rel)

lemma quiet_attempt [quiets]: "quiet m \<Longrightarrow> (\<And>r. quiet (k r)) \<Longrightarrow> quiet (attempt m k)"
  unfolding quiet_def by (intro keeps_attempt quiet_rel)

lemma quiet_or_else [quiets]: "quiet m \<Longrightarrow> quiet (or_else m e)"
  unfolding quiet_def by (rule keeps_or_else)

lemma quiet_if [quiets]: "(b \<Longrightarrow> quiet m) \<Longrightarrow> (\<not> b \<Longrightarrow> quiet n) \<Longrightarrow> quiet (if b then m else n)"
  by simp

lemma quiet_let [quiets]: "quiet (f x) \<Longrightarrow> quiet (Let x f)"
  by simp

lemma quiet_option [quiets]: "quiet m \<Longrightarrow> (\<And>x. quiet (k x)) \<Longrightarrow> quiet (case y of None \<Rightarrow> m | Some x \<Rightarrow> k x)"
  by (cases y) simp_all

lemma quiet_sum [quiets]: "(\<And>e. quiet (h e)) \<Longrightarrow> (\<And>x. quiet (k x)) \<Longrightarrow> quiet (case r of Inl e \<Rightarrow> h e | Inr x \<Rightarrow> k x)"
  by (cases r) simp_all

lemma quiet_prod [quiets]: "(\<And>x y. quiet (k x y)) \<Longrightarrow> quiet (case p of (x, y) \<Rightarrow> k x y)"
  by (cases p) simp

section \<open>Basic reads\<close>

lemma quiet_os [quiets]: "quiet (sys_os m)"
  by (rule quietI) (auto simp: sys_os_def split: prod.splits)

lemma quiet_image_fsync [quiets]: "quiet (image_fsync img)"
  by (rule quietI) (auto simp: image_fsync_def sys_os_def split: prod.splits if_splits backend.splits)

lemma quiet_read_exact [quiets]: "quiet (read_exact n off)"
  by (rule quietI) (auto simp: read_exact_def sys_read_def split: prod.splits)

lemma quiet_read_indirect_entry [quiets]: "quiet (read_indirect_entry img frag i)"
  unfolding read_indirect_entry_def by (intro quiets)

lemma quiet_resolve_indirect_block_frag [quiets]: "quiet (resolve_indirect_block_frag img frag l i)"
  by (induction img frag l i rule: resolve_indirect_block_frag.induct) (auto intro!: quiets simp: Let_def)

lemma quiet_resolve_file_slots [quiets]: "quiet (resolve_file_slots img roots i idx sp)"
  by (induction roots arbitrary: i idx sp) (auto intro!: quiets simp del: resolve_indirect_block_frag.simps)

lemma quiet_resolve_file_block_frag [quiets]: "quiet (resolve_file_block_frag img ino k)"
  unfolding resolve_file_block_frag_def by (intro quiets)

lemma quiet_read_data_loop [quiets]: "quiet (read_data_loop img ino d n lbi off out)"
proof (induction n arbitrary: d lbi off out rule: less_induct)
  case (less n)
  show ?case
  proof (cases "n = 0 \<or> unat (block_size (sb img)) \<le> off")
    case True
    then have "read_data_loop img ino d n lbi off out = (if n = 0 then ret out else fail UNDEF)"
      by (auto simp: fun_eq_iff read_data_loop.simps)
    then show ?thesis by (simp add: quiets)
  next
    case False
    then have "0 < n" "off < unat (block_size (sb img))" by auto
    then show ?thesis
      by (simp only: read_data_loop_step Let_def) (intro quiets less, auto)
  qed
qed

lemma quiet_inode_read_data [quiets]: "quiet (inode_read_data img ino start n out)"
  unfolding inode_read_data_def by (intro quiets)

lemma quiet_inode_readlink [quiets]: "quiet (inode_readlink img ino n)"
  unfolding inode_readlink_def by (intro quiets)

lemma quiet_inode_read [quiets]: "quiet (inode_read img n)"
  unfolding inode_read_def by (intro quiets)

lemma quiet_node_get [quiets]: "quiet (node_get_by_inode img n)"
  unfolding node_get_by_inode_def by (intro quiets)

section \<open>Directories and paths\<close>

lemma quiet_iterate_entries [quiets]: "(\<And>i nm c. quiet (cb i nm c)) \<Longrightarrow> quiet (iterate_entries cb es c)"
  by (induction es arbitrary: c) (auto intro!: quiets)

lemma quiet_read_chunk [quiets]: "quiet (read_chunk img ino i n buf)"
  unfolding read_chunk_def by (intro quiets)

lemma iterate_blocks_unfold:
  "iterate_blocks img dirino cb i n buf c =
     (if n = 0 then ret (0, c)
      else if block_size (sb img) = 0 then fail UNDEF
      else let chunk_size = min (unat (block_size (sb img))) n in
      andthen (andthen (read_chunk img dirino i chunk_size buf) (\<lambda>buf.
          andthen (iterate_entries cb (walk buf chunk_size 0) c) (\<lambda>r. ret (buf, r)))) (\<lambda>(buf, (rc, c)).
        if rc \<noteq> 0 then ret (rc, c)
        else iterate_blocks img dirino cb (i + 1) (n - chunk_size) buf c))"
  by (subst iterate_blocks.simps [abs_def])
    (auto simp: fun_eq_iff andthen_def [of "andthen _ _"] Let_def split: prod.splits sum.splits)

lemma quiet_iterate_blocks [quiets]:
  assumes "\<And>i nm c. quiet (cb i nm c)"
  shows "quiet (iterate_blocks img ino cb i n buf c)"
proof (induction n arbitrary: i buf c rule: less_induct)
  case (less n)
  show ?case
    by (subst iterate_blocks_unfold) (auto intro!: quiets assms less simp: unat_gt_0 Let_def split: prod.splits)
qed

lemma quiet_directory_iterate [quiets]:
  "(\<And>i nm c. quiet (cb i nm c)) \<Longrightarrow> quiet (directory_iterate img ino cb c)"
  unfolding directory_iterate_def by (intro quiets)

lemma quiet_find_name [quiets]: "quiet (find_name_in_directory img ino name)"
  unfolding find_name_in_directory_def find_name_cb_def by (intro quiets)

lemma quiet_lookup_segments:
  "(\<And>p. quiet (again p)) \<Longrightarrow> quiet (lookup_segments img follow again segs prefix cur)"
  by (induction segs arbitrary: prefix cur) (auto intro!: quiets simp: Let_def split: prod.splits)

lemma quiet_lookup_path_recursive: "quiet (lookup_path_recursive n img path follow)"
  by (induction n arbitrary: path) (auto intro!: quiets quiet_lookup_segments simp: Let_def)

lemma quiet_node_lookup [quiets]: "quiet (node_lookup img path follow)"
  unfolding node_lookup_def by (rule quiet_lookup_path_recursive)

lemma quiet_path_read [quiets]: "quiet (path_read img path start n out)"
  unfolding path_read_def by (intro quiets)

lemma quiet_path_readlink [quiets]: "quiet (path_readlink img path n)"
  unfolding path_readlink_def by (intro quiets)

lemma quiet_directory_iterate_path [quiets]:
  "(\<And>i nm c. quiet (cb i nm c)) \<Longrightarrow> quiet (directory_iterate_path img path follow cb c)"
  unfolding directory_iterate_path_def by (intro quiets)

lemma quiet_directory_iterate_nodes_path [quiets]:
  assumes "\<And>node nm c. quiet (cb node nm c)"
  shows "quiet (directory_iterate_nodes_path img path follow cb c)"
  unfolding directory_iterate_nodes_path_def directory_iterate_nodes_def dir_node_cb_def
  by (intro quiets assms)

lemma quiet_split_new_name [quiets]: "quiet (split_new_name ctx path)"
  unfolding split_new_name_def by (intro quiets)

lemma quiet_require_absent [quiets]: "quiet (require_absent img path)"
  unfolding require_absent_def by (intro quiets)

lemma quiet_preferred_group [quiets]: "quiet (preferred_group img n)"
  unfolding preferred_group_def by (intro quiets)

section \<open>What has been checked when the disk has changed\<close>

text \<open>A run that changes the disk has passed every step that only reads.\<close>

lemma changed_andthen:
  assumes "andthen m k s = (r, t)" "quiet m" "disk t \<noteq> disk s"
  obtains x u where "m s = (Inr x, u)" "k x u = (r, t)" "disk u = disk s"
proof -
  obtain q u where m: "m s = (q, u)" by (cases "m s")
  from quiet_disk [OF assms(2) m] have u: "disk u = disk s" by blast
  with assms m show ?thesis by (cases q) (auto simp: andthen_def intro: that)
qed

lemma lift_Inr [simp]: "lift r s = (Inr x, t) \<longleftrightarrow> r = Inr x \<and> t = s"
  by (cases r) (auto simp: lift_def)

lemma check_Inr [simp]: "check b e s = (Inr x, t) \<longleftrightarrow> b \<and> t = s"
  by (auto simp: check_def)

end
