(* ===== verification/TinyDir.thy ===== *)
theory TinyDir
  imports Tiny Quiet DirBlock
begin

text \<open>
  A concrete directory to run path operations on: the root directory with one file \<open>/f\<close> of user 7, of
  mode 04666 and with a second link elsewhere, on the tiny image and a host whose calls succeed.
\<close>

definition name_f :: "u8 list" where
  "name_f = [0x66]"

definition names_block :: buf where
  "names_block = bytes_of [0, 0, 0, 2, 0, 12, 0, 1, 0x2e, 0, 0, 0, 0, 0, 0, 2, 0, 12, 0, 2, 0x2e, 0x2e, 0, 0,
     0, 0, 0, 3, 0, 12, 0, 1, 0x66, 0, 0, 0]"

definition dir_ino :: nextufs_inode where
  "dir_ino = cleared_inode\<lparr>mode := 0x41ff, nlink := 2, isize := 36, db := 24 # replicate 11 0\<rparr>"

definition file_ino :: nextufs_inode where
  "file_ino = cleared_inode\<lparr>mode := 0x89b6, nlink := 2, uid := 7, gid := 7\<rparr>"

definition dir_node :: nextufs_node where
  "dir_node = \<lparr>inode_no = 2, inode_off = 22528, inode = dir_ino\<rparr>"

definition file_node :: nextufs_node where
  "file_node = \<lparr>inode_no = 3, inode_off = 22656, inode = file_ino\<rparr>"

definition dir_disk :: buf where
  "dir_disk = blit (blit (blit (\<lambda>_. 0) 22528 128 (encode_inode dir_ino)) 22656 128 (encode_inode file_ino))
     24576 36 names_block"

definition dir_state :: sys where
  "dir_state = (RawBackend \<lparr>fsize = 32768, fbytes = dir_disk\<rparr>, tiny_os)"

lemma dir_calm: "calm 32768 dir_state"
  by (simp add: calm_def dir_state_def tiny_os_def)

lemma dir_disk_view: "disk dir_state = clip 32768 dir_disk"
  by (simp add: disk_def dir_state_def file_byte_def)

lemma dir_inode_wf: "inode_wf dir_ino" "inode_wf file_ino"
  by (simp_all add: inode_wf_def dir_ino_def file_ino_def cleared_inode_def)

lemma dir_inode_fields [simp]:
  "mode dir_ino = 0x41ff" "nlink dir_ino = 2" "isize dir_ino = 36" "uid dir_ino = 0" "gid dir_ino = 0"
  "db dir_ino = 24 # replicate 11 0" "flags dir_ino = 0"
  "mode file_ino = 0x89b6" "nlink file_ino = 2" "uid file_ino = 7" "gid file_ino = 7"
  "inode_no dir_node = 2" "inode dir_node = dir_ino" "inode_no file_node = 3" "inode file_node = file_ino"
  by (simp_all add: dir_ino_def file_ino_def cleared_inode_def dir_node_def file_node_def)

lemma dir_offsets [simp]: "inode_offset tiny_image 2 = 22528" "inode_offset tiny_image 3 = 22656"
  by (simp_all add: inode_offset_def Let_def UFS_INODE_SIZE_def)

lemma dir_disk_parts:
  "clip 128 (\<lambda>i. disk dir_state (22528 + i)) = clip 128 (encode_inode dir_ino)"
  "clip 128 (\<lambda>i. disk dir_state (22656 + i)) = clip 128 (encode_inode file_ino)"
  "clip 36 (\<lambda>i. disk dir_state (24576 + i)) = clip 36 names_block"
  unfolding dir_disk_view by (rule clip_cong, simp add: dir_disk_def)+

lemma names_entries: "holds_entries names_block 36 0
    [new_dirent 2 12 [dot], new_dirent 2 12 [dot, dot], new_dirent 3 12 name_f] 36"
  by code_simp

section \<open>Running on it\<close>

lemma wp_get_dir:
  assumes "calm 32768 s" "disk s = disk dir_state" "\<And>t. calm 32768 t \<Longrightarrow> disk t = disk dir_state \<Longrightarrow> Q dir_node t"
  shows "wp (node_get_by_inode tiny_image 2) E Q s"
  by (simp add: node_get_by_inode_def inode_read_def wp_simps UFS_INODE_SIZE_def)
    (rule wp_read_calm [OF assms(1)],
     use assms(2,3) dir_disk_parts(1) in \<open>simp_all add: decode_inode_clip decode_encode_inode dir_inode_wf dir_node_def\<close>)

lemma wp_get_file:
  assumes "calm 32768 s" "disk s = disk dir_state" "\<And>t. calm 32768 t \<Longrightarrow> disk t = disk dir_state \<Longrightarrow> Q file_node t"
  shows "wp (node_get_by_inode tiny_image 3) E Q s"
  by (simp add: node_get_by_inode_def inode_read_def wp_simps UFS_INODE_SIZE_def)
    (rule wp_read_calm [OF assms(1)],
     use assms(2,3) dir_disk_parts(2) in \<open>simp_all add: decode_inode_clip decode_encode_inode dir_inode_wf file_node_def\<close>)

lemma wp_read_names:
  assumes "calm 32768 s" "disk s = disk dir_state"
    "\<And>t. calm 32768 t \<Longrightarrow> disk t = disk dir_state \<Longrightarrow> Q (blit buf 0 36 names_block) t"
  shows "wp (read_chunk tiny_image dir_ino 0 36 buf) E Q s"
proof -
  have "resolve_file_block_frag tiny_image dir_ino 0 = ret 24" by (simp add: resolve_file_block_frag_def)
  moreover have "blit buf 0 36 (clip 36 (\<lambda>i. disk dir_state (24576 + i))) = blit buf 0 36 names_block"
    unfolding dir_disk_parts(3) by simp
  ultimately show ?thesis
    by (simp add: read_chunk_def inode_read_data_def read_data_loop_step read_data_loop_0 wp_simps frag_offset_def Let_def)
      (rule wp_read_calm [OF assms(1)], use assms(2,3) in simp_all)
qed

lemma names_walk:
  "walk (blit buf 0 36 names_block) 36 0 =
    offsets 0 [new_dirent 2 12 [dot], new_dirent 2 12 [dot, dot], new_dirent 3 12 name_f]"
  by (rule walk_holds) (rule holds_entries_cong [OF names_entries], simp)

lemma names_offsets [simp]:
  "offsets 0 [new_dirent 2 12 [dot], new_dirent 2 12 [dot, dot], new_dirent 3 12 name_f] =
    [(0, new_dirent 2 12 [dot]), (12, new_dirent 2 12 [dot, dot]), (24, new_dirent 3 12 name_f)]"
  by simp

lemma wp_find_f:
  assumes "calm 32768 s" "disk s = disk dir_state" "\<And>t. calm 32768 t \<Longrightarrow> disk t = disk dir_state \<Longrightarrow> Q 3 t"
  shows "wp (find_name_in_directory tiny_image dir_ino name_f) E Q s"
proof -
  have "iterate_entries (find_name_cb name_f) (walk (blit buf 0 36 names_block) 36 0) 0 = ret (1, 3)" for buf
    by (simp add: names_walk find_name_cb_def new_dirent_def name_f_def dot_def fun_eq_iff andthen_def)
  then show ?thesis
    unfolding find_name_in_directory_def directory_iterate_def
      iterate_blocks_unfold [of tiny_image dir_ino "find_name_cb name_f" 0 "unat (isize dir_ino)"]
    by (simp add: wp_simps Let_def)
      (rule wp_malloc_calm [OF assms(1)], rule wp_read_names, use assms(2,3) in \<open>simp_all add: wp_ret\<close>)
qed

lemma tiny_root_lookup: "node_lookup tiny_image [slash] follow = or_else (node_get_by_inode tiny_image ROOT_INODE) EIO"
  by (simp add: node_lookup_def andthen_def fun_eq_iff ret_def split: prod.splits sum.splits)

lemma wp_lookup_root:
  assumes "calm 32768 s" "disk s = disk dir_state" "\<And>t. calm 32768 t \<Longrightarrow> disk t = disk dir_state \<Longrightarrow> Q dir_node t"
  shows "wp (node_lookup tiny_image [slash] follow) E Q s"
  unfolding tiny_root_lookup wp_or_else ROOT_INODE_def by (rule wp_get_dir) (fact assms)+

lemma wp_segment_f:
  assumes "calm 32768 s" "disk s = disk dir_state" "\<And>t. calm 32768 t \<Longrightarrow> disk t = disk dir_state \<Longrightarrow> Q file_node t"
  shows "wp (lookup_segments tiny_image follow again [(name_f, None)] [slash] dir_node) E Q s"
proof -
  have c: "name_f \<noteq> []" "mode (inode file_node) AND IFMT \<noteq> IFLNK" "mode (inode dir_node) AND IFMT = IFDIR"
    "append_path_component [slash] name_f = Some (slash # name_f)"
    by (simp_all add: IFMT_def IFLNK_def IFDIR_def append_path_component_def bounded_path_def MAX_PATH_LEN_def name_f_def)
  show ?thesis
    unfolding lookup_segments.simps prod.case Let_def if_not_P [OF c(1)] c(3) wp_andthen wp_or_else
    by (simp add: wp_andthen wp_or_else)
      (rule wp_find_f [OF assms(1,2)], simp add: wp_andthen wp_or_else, rule wp_get_file,
       use c in \<open>simp_all add: wp_ret assms(3) MAX_PATH_LEN_def\<close>)
qed

lemma wp_lookup_f:
  assumes "calm 32768 s" "disk s = disk dir_state" "\<And>t. calm 32768 t \<Longrightarrow> disk t = disk dir_state \<Longrightarrow> Q file_node t"
  shows "wp (node_lookup tiny_image (slash # name_f) follow) E Q s"
proof -
  have seg: "strsep_all name_f = [(name_f, None)]"
    by (subst strsep_all.simps) (simp add: name_f_def slash_def)
  have nz: "name_f \<noteq> []" and path: "dropWhile (\<lambda>c. c = slash) (slash # name_f) = name_f"
    by (simp_all add: name_f_def slash_def)
  show ?thesis
    unfolding node_lookup_def lookup_path_recursive.simps Let_def path if_not_P [OF nz] seg wp_andthen wp_or_else ROOT_INODE_def
    by (rule wp_get_dir [OF assms(1,2)], rule wp_malloc_calm, assumption, rule wp_segment_f) (simp_all add: assms(3))
qed

text \<open>Taking \<open>f\<close> out gives its record to \<open>..\<close>, whose length is then at byte 24592 of the disk.\<close>

lemma wp_remove_f:
  assumes "calm 32768 s" "disk s = disk dir_state" "\<And>t node. calm 32768 t \<Longrightarrow> disk t 24593 = 24 \<Longrightarrow> Q (node, 3) t"
  shows "wp (remove_dirent tiny_image dir_node name_f) E Q s"
proof -
  let ?b = "blit (\<lambda>_. 0) 0 36 names_block"
  have "find_victim name_f None (walk ?b 36 0) = Some (Some 12, 24, new_dirent 3 12 name_f)"
    by (simp add: names_walk new_dirent_def name_f_def dot_def)
  moreover have "read_dirent ?b 36 12 = Some (new_dirent 2 12 [dot, dot])"
    by (rule holds_entries_split(2) [of _ _ 0 "[new_dirent 2 12 [dot]]" _ "[new_dirent 3 12 name_f]" 36],
        simp only: append.simps, rule holds_entries_cong [OF names_entries], simp_all add: new_dirent_def)
  ultimately have "remove_in_block ?b 36 0 name_f = Some (Inr (write_be16 ?b 16 24, 3))"
    by (simp add: remove_in_block.simps remove_in_dirblk_def DIRBLKSIZ_def Let_def new_dirent_def name_f_def dot_def)
  note block = this
  have wf: "inode_wf (dir_ino\<lparr>mtime := now, ctime := now, atime := now\<rparr>)" for now
    using dir_inode_wf(1) by (simp add: inode_wf_def)
  have upd: "wp (update_node_times tiny_image dir_node) E Q' v"
    if "calm 32768 v" "\<And>x w. calm 32768 w \<Longrightarrow> disk w 24593 = disk v 24593 \<Longrightarrow> Q' x w" for Q' v
    unfolding update_node_times_def Let_def wp_andthen node_get_by_inode_def inode_read_def write_inode_raw_def
    by (rule wp_time_calm [OF that(1)], simp add: wp_simps UFS_INODE_SIZE_def, rule wp_write_calm, assumption, simp, simp)
      (rule wp_read_calm, use that(2) in auto)
  have unfold: "remove_loop tiny_image dir_node name_f 0 36 buf =
    andthen (read_chunk tiny_image dir_ino 0 36 buf) (\<lambda>block. case remove_in_block block 36 0 name_f of
      None \<Rightarrow> remove_loop tiny_image dir_node name_f 1 0 block
    | Some (Inl e) \<Rightarrow> fail e
    | Some (Inr (block, i)) \<Rightarrow> andthen (or_else (write_exact tiny_image block 36 24576) EIO) (\<lambda>_.
        andthen (update_node_times tiny_image dir_node) (\<lambda>node. ret (node, i))))" for buf
    by (subst remove_loop.simps [abs_def])
      (auto simp: fun_eq_iff andthen_def [of "read_chunk _ _ _ _ _"] frag_offset_def split: prod.splits sum.splits option.splits)
  show ?thesis
    unfolding remove_dirent_def wp_andthen
    by (rule wp_malloc_calm [OF assms(1)], simp add: unfold wp_andthen, rule wp_read_names, assumption, simp add: assms(2))
      (simp add: block wp_andthen wp_or_else, rule wp_write_calm, assumption, simp, simp, rule upd,
       simp_all add: wp_ret assms(3) write_be16_def)
qed

definition user_ctx :: nextufs_write_ctx where
  "user_ctx = \<lparr>policy = WriteUser, cuid = 7, cgid = 7, groups = []\<rparr>"

lemma user_ctx_fields [simp]:
  "policy user_ctx = WriteUser" "cuid user_ctx = 7" "cgid user_ctx = 7" "groups user_ctx = []"
  "require_ctx_ids_fit user_ctx = Inr ()"
  by (simp_all add: user_ctx_def require_ctx_ids_fit_def id_fits_nextstep_def)

lemma split_f: "path_split (slash # name_f) 4096 256 = Inr ([slash], name_f)"
  by (simp add: path_split_def name_f_def slash_def)

lemma wp_unlink_f:
  "wp (path_unlink (ret tiny_image) (Some user_ctx) (slash # name_f)) (\<lambda>_ _. False) (\<lambda>_ t. disk t 24593 = 24) dir_state"
proof -
  have c: "node_is_dir dir_node" "\<not> node_is_dir file_node" "disallow_dot_names name_f = Inr ()"
    "require_parent_mutation user_ctx dir_node = Inr ()" "check_sticky_parent user_ctx dir_node file_node = Inr ()"
    "require_user_access user_ctx file_node W_OK = Inr ()"
    by (simp_all add: node_is_dir_def IFMT_def IFDIR_def disallow_dot_names_def name_is_dot_or_dotdot_def name_f_def
      dot_def require_parent_mutation_def require_user_access_def node_check_access_bits_def check_sticky_parent_def
      W_OK_def X_OK_def F_OK_def R_OK_def ctx_is_root_def Let_def)
  have l: "lift (Inr x) = ret x" for x :: 'b by (simp add: lift_def)
  have rm: "wp (remove_linked_inode tiny_image file_node) (\<lambda>_ _. False) (\<lambda>_ t. calm 32768 t \<and> disk t 24593 = disk s 24593) s"
    if "calm 32768 s" for s
    unfolding remove_linked_inode_def Let_def write_inode_raw_def
    by (simp add: wp_andthen UFS_INODE_SIZE_def)
      (rule wp_time_calm [OF that], rule wp_write_calm, assumption, simp_all)
  have rest: "wp (andthen (check (3 = inode_no file_node) EINVAL) (\<lambda>_.
     andthen (remove_linked_inode tiny_image file_node) (\<lambda>_. image_fsync tiny_image))) (\<lambda>_ _. False) (\<lambda>_ t. disk t 24593 = 24) s"
    if "calm 32768 s" "disk s 24593 = 24" for s
    by (simp add: wp_simps, rule wp_mono [OF rm [OF that(1)]], simp) (rule wp_fsync_calm, use that(2) in auto)
  show ?thesis
    unfolding path_unlink_def with_ctx_def option.case split_new_name_def andthen_ret
    by (simp add: split_f c l io_simps wp_simps)
      (rule wp_lookup_root [OF dir_calm refl], simp add: c l io_simps wp_simps, rule wp_lookup_f, assumption,
       assumption, simp add: c l io_simps wp_simps, rule wp_remove_f, assumption, assumption,
       use rest in \<open>simp add: io_simps wp_simps\<close>)
qed

end
