(* ===== verification/FileClaims.thy ===== *)
theory FileClaims
  imports TinyDir
begin

text \<open>
  What the reading side and the permission checks guarantee: file contents, symbolic links, path
  names, and which checks stand before every change of the disk.
\<close>

section \<open>File contents\<close>

text \<open>C8. \<open>nextufs_inode_read_data\<close> returns the bytes of the file from the offset on, as many as
  asked for up to the end of the file: the fragment of each block is found in the inode or in the
  trees of indirect blocks, holes are zeros; behind them the buffer is unchanged, and so is the
  disk. Blocks of up to 64 KB are covered.\<close>

theorem inode_read_data_refines_contents:
  assumes "block_sane img" "inode_wf ino" "sys_ok s" "inode_read_data img ino start n out s = (Inr (b, k), t)"
  shows "k = min n (unat (isize ino) - unat start) \<and>
    b = blit out 0 k (\<lambda>i. file_at img (disk s) ino (unat start + i)) \<and> disk t = disk s"
  using wp_Inr [OF wp_inode_read_data [OF assms(1-3)] assms(4)] by (simp add: untouched_def)

definition hole_inode :: nextufs_inode where
  "hole_inode = cleared_inode\<lparr>isize := 2100, db := [0, 12] @ replicate 10 0\<rparr>"

theorem inode_read_data_refines_contents_witness:
  "\<exists>b t. inode_read_data tiny_image hole_inode 2040 100 (\<lambda>_. 9) tiny_state = (Inr (b, 60), t) \<and>
     b 7 = 0 \<and> b 31 = 2 \<and> b 60 = 9"
proof -
  have sane: "block_sane tiny_image" by (simp add: block_sane_def)
  have wf: "inode_wf hole_inode" by (simp add: inode_wf_def hole_inode_def cleared_inode_def)
  have f: "resolve_file_block_frag tiny_image hole_inode 0 = ret 0"
    "resolve_file_block_frag tiny_image hole_inode 1 = ret 12"
    by (simp_all add: resolve_file_block_frag_def hole_inode_def)
  have "wp (inode_read_data tiny_image hole_inode 2040 100 (\<lambda>_. 9)) (\<lambda>_ _. False) (\<lambda>(b, k) _. k = 60) tiny_state"
    by (simp add: inode_read_data_def wp_simps hole_inode_def [THEN arg_cong [of _ _ isize]] read_data_loop_step f Let_def)
      (auto simp: read_data_loop_0 wp_simps frag_offset_def intro!: wp_read_calm [OF tiny_calm])
  then obtain b t where run: "inode_read_data tiny_image hole_inode 2040 100 (\<lambda>_. 9) tiny_state = (Inr (b, 60), t)"
    by (auto dest!: wp_succeeds)
  from inode_read_data_refines_contents [OF sane wf calm_sys_ok [OF tiny_calm] run]
  have b: "b = blit (\<lambda>_. 9) 0 60 (\<lambda>i. file_at tiny_image (disk tiny_state) hole_inode (2040 + i))" by simp
  have "file_at tiny_image (disk tiny_state) hole_inode 2047 = 0" "file_at tiny_image (disk tiny_state) hole_inode 2071 = 2"
    by (simp_all add: file_at_def file_frag_def hole_inode_def frag_offset_def tiny_disk_view tiny_disk_def Let_def cell_simps
      write_be32_def)
  then have "b 7 = 0 \<and> b 31 = 2 \<and> b 60 = 9" unfolding b by simp
  with run show ?thesis by blast
qed

text \<open>The two routines that find the fragment of a logical block, \<open>resolve_file_block_frag\<close> for
  reading and \<open>nextufs__resolve_inode_data_block\<close> for freeing, agree on every block that has a
  fragment, in result, error-freeness and host calls.\<close>

theorem resolvers_agree_on_data:
  assumes "f \<noteq> 0"
  shows "resolve_file_block_frag img ino (ucast k) s = (Inr f, t) \<longleftrightarrow>
    resolve_inode_data_block img ino k s = (Inr f, t)"
  using assms by (rule resolvers_agree)

theorem resolvers_agree_on_data_witness:
  "resolve_file_block_frag tiny_image hole_inode (ucast (1 :: u32)) tiny_state = (Inr 12, tiny_state) \<longleftrightarrow>
    resolve_inode_data_block tiny_image hole_inode 1 tiny_state = (Inr 12, tiny_state)"
  by (rule resolvers_agree_on_data) simp

text \<open>C24. They differ on a hole below a missing indirect root: freeing takes it for a hole, while
  reading such a block fails with \<open>EINVAL\<close> although the same hole below an existing root reads as
  zeros.\<close>

theorem missing_indirect_root_unreadable:
  assumes "ib ino = 0 # roots" "12 \<le> k" "unat k - 12 < epb img" "block_sane img"
  shows "resolve_file_block_frag img ino (ucast k) s = (Inl EINVAL, s) \<and>
    resolve_inode_data_block img ino k s = (Inr 0, s)"
proof -
  have n: "unat (ucast k :: u64) = unat k"
    using take_bit_nat_eq_self [of "unat k" 64] unat_le_max32 [of k] by (simp add: unsigned_ucast_eq)
  then have lt: "\<not> (ucast k :: u64) < 12" "\<not> k < 12" using assms(2) by (auto simp: word_less_nat_alt word_le_nat_alt)
  have "unat (ucast k - 12 :: u64) = unat k - 12"
    using n lt unat_sub [of 12 "ucast k :: u64"] by (simp add: not_less)
  moreover have "unat (ucast (k - 12) :: u64) = unat k - 12"
    using take_bit_nat_eq_self [of "unat (k - 12)" 64] unat_le_max32 [of "k - 12"] unat_sub [OF assms(2)]
    by (simp add: unsigned_ucast_eq)
  ultimately have "(ucast k - 12 :: u64) < entries_per_block img" "(ucast (k - 12) :: u64) < entries_per_block img"
    using assms(3) by (simp_all add: word_less_nat_alt block_saneD(3) [OF assms(4)])
  with lt assms(1) show ?thesis
    by (simp add: resolve_file_block_frag_def resolve_inode_data_block_def)
qed

theorem missing_indirect_root_unreadable_witness:
  "resolve_file_block_frag tiny_image cleared_inode (ucast (12 :: u32)) tiny_state = (Inl EINVAL, tiny_state) \<and>
    resolve_inode_data_block tiny_image cleared_inode 12 tiny_state = (Inr 0, tiny_state)"
  by (rule missing_indirect_root_unreadable [of _ "[0, 0]"])
    (simp_all add: cleared_inode_def block_sane_def numeral_3_eq_3)

section \<open>Symbolic links and paths\<close>

text \<open>A target that \<open>nextufs__store_inline_symlink\<close> has put into the pointers of an inode comes back
  from \<open>nextufs_inode_readlink\<close>, byte for byte, without a disk access.\<close>

lemma word_bytes_be_word: "word_bytes (be_word raw p) = list_of (bytes_of raw) p 4"
  by (simp add: word_bytes_def be_word_def be32_bytes list_of_def upt_rec numeral_3_eq_3)

lemma concat_list_of: "concat (map (\<lambda>i. list_of f (i * 4) 4) [0..<n]) = list_of f 0 (n * 4)"
proof (induction n)
  case (Suc n)
  have "list_of f 0 (n * 4) @ list_of f (n * 4) 4 = list_of f 0 (Suc n * 4)"
    by (rule nth_equalityI) (auto simp: nth_append)
  with Suc show ?case by simp
qed (simp add: list_of_def)

lemma stored_symlink_bytes:
  assumes "length raw = 60"
  shows "concat (map word_bytes (map (\<lambda>i. be_word raw (i * 4)) [0..<12] @ map (\<lambda>i. be_word raw (48 + i * 4)) [0..<3])) = raw"
proof -
  have "map (\<lambda>i. be_word raw (i * 4)) [0..<12] @ map (\<lambda>i. be_word raw (48 + i * 4)) [0..<3] =
    map (\<lambda>i. be_word raw (i * 4)) [0..<15]"
    by (simp add: upt_rec)
  moreover have "map word_bytes (map (\<lambda>i. be_word raw (i * 4)) [0..<15]) = map (\<lambda>i. list_of (bytes_of raw) (i * 4) 4) [0..<15]"
    using assms by (simp add: word_bytes_be_word del: upt_rec_numeral)
  ultimately show ?thesis
    using concat_list_of [of "bytes_of raw" 15] list_of_bytes_of [of raw] assms by (simp only: mult_numeral_left_semiring_numeral) simp
qed

theorem inline_symlink_roundtrip:
  assumes "ifmt ino = IFLNK" "flags ino AND IC_FASTLINK \<noteq> 0" "unat (isize ino) = length target"
    and "target \<noteq> []" "length target \<le> 60" "length target < out_size"
  shows "inode_readlink img (store_inline_symlink target ino) out_size s = (Inr target, s)"
proof -
  let ?raw = "target @ replicate (60 - length target) 0"
  have "isize ino \<noteq> 0" "\<not> 60 < isize ino" using assms(3-5) by (auto simp: word_less_nat_alt)
  moreover have "take (length target) (concat (map word_bytes (map (\<lambda>i. be_word ?raw (i * 4)) [0..<12] @
    map (\<lambda>i. be_word ?raw (48 + i * 4)) [0..<3]))) = target"
    by (subst stored_symlink_bytes) (use assms(5) in auto)
  ultimately have "decode_inline_symlink (store_inline_symlink target ino) out_size = target"
    using assms by (simp add: decode_inline_symlink_def store_inline_symlink_def ifmt_def Let_def
      del: upt_rec_numeral map_append concat_append)
  then show ?thesis
    using assms by (simp add: inode_readlink_def ifmt_def store_inline_symlink_def Let_def)
qed

theorem inline_symlink_roundtrip_witness:
  "inode_readlink tiny_image (store_inline_symlink [0x61, 0x62] (cleared_inode\<lparr>mode := 0xa1ff, isize := 2, flags := 1\<rparr>))
     64 tiny_state = (Inr [0x61, 0x62], tiny_state)"
  by (rule inline_symlink_roundtrip) (simp_all add: ifmt_def IFLNK_def IFMT_def IC_FASTLINK_def)

lemma takeWhile_last: "slash \<notin> set nm \<Longrightarrow> takeWhile (\<lambda>c. c \<noteq> slash) (rev (p @ slash # nm)) = rev nm"
  by (subst rev_append, simp, subst takeWhile_append2) auto

lemma last_slash_unique:
  assumes "slash \<notin> set nm" "slash \<notin> set r"
  shows "q @ slash # r = p @ slash # nm \<longleftrightarrow> p = q \<and> nm = r"
proof
  assume e: "q @ slash # r = p @ slash # nm"
  with takeWhile_last [OF assms(1), of p] takeWhile_last [OF assms(2), of q] have "rev nm = rev r" by simp
  with e show "p = q \<and> nm = r" by simp
qed simp

text \<open>\<open>nextufs__path_split\<close> succeeds exactly on an absolute path that is a parent and a
  name without a slash, joined by one, both short enough for their buffers; the parent of a name
  at the top is \<open>/\<close>.\<close>

theorem path_split_iff:
  "path_split path ps ns = Inr (parent, name) \<longleftrightarrow>
     name \<noteq> [] \<and> slash \<notin> set name \<and> length name < ns \<and> length parent < ps \<and>
     (parent = [slash] \<and> path = slash # name \<or>
      parent \<noteq> [] \<and> hd parent = slash \<and> path = parent @ slash # name)"
proof (cases "slash \<in> set path")
  case True
  then obtain q r where q: "path = q @ slash # r" "slash \<notin> set r"
    using split_list_last [of slash path] by auto
  have nm: "rev (takeWhile (\<lambda>c. c \<noteq> slash) (rev path)) = r"
    using takeWhile_last [OF q(2), of q] by (simp add: q(1))
  have run: "path_split path ps ns =
    (if r = [] \<or> q \<noteq> [] \<and> hd q \<noteq> slash then Inl EINVAL
     else if ns \<le> length r then Inl ENAMETOOLONG
     else if q = [] then (if ps < 2 then Inl ENAMETOOLONG else Inr ([slash], r))
     else if ps < length q + 1 then Inl ENAMETOOLONG else Inr (q, r))"
    unfolding path_split_def Let_def nm using q(1) by (cases q) simp_all
  have "path = parent @ slash # name \<longleftrightarrow> parent = q \<and> name = r" "path = slash # name \<longleftrightarrow> q = [] \<and> name = r"
    if "slash \<notin> set name"
    using last_slash_unique [OF that q(2), of q parent] last_slash_unique [OF that q(2), of q "[]"]
    by (auto simp: q(1))
  then show ?thesis
    unfolding run using q(2) by (cases "q = []"; cases "slash \<in> set name"; auto split: if_splits)
next
  case False
  then have "path \<noteq> slash # name" "path \<noteq> parent @ slash # name" by auto
  with False show ?thesis by (cases path) (auto simp: path_split_def)
qed

section \<open>Reading and checking\<close>

text \<open>Looking up and reading a file by its path never changes the disk, whatever the path, the
  file system and the host do: not on success, and not on any error.\<close>

theorem path_read_leaves_disk:
  assumes "path_read img path start n out s = (r, t)"
  shows "disk t = disk s"
  using quiet_disk [OF quiet_path_read assms] by blast

theorem path_read_leaves_disk_witness:
  "disk (snd (path_read tiny_image [slash] 0 10 (\<lambda>_. 0) tiny_state)) = disk tiny_state"
  using path_read_leaves_disk [OF prod.collapse [symmetric]] by blast

text \<open>The inodes a lookup returns come from the disk and have their twelve and three pointers.\<close>

definition yields :: "('a \<Rightarrow> bool) \<Rightarrow> ('s, 'a) io \<Rightarrow> bool" where
  "yields P m \<longleftrightarrow> (\<forall>s x t. m s = (Inr x, t) \<longrightarrow> P x)"

lemma yields_bind: "yields R m \<Longrightarrow> (\<And>x. R x \<Longrightarrow> yields P (k x)) \<Longrightarrow> yields P (andthen m k)"
  unfolding yields_def andthen_Inr by blast

lemma yields_intros:
  "P x \<Longrightarrow> yields P (ret x)" "yields P (fail e)" "(\<And>x. yields P (k x)) \<Longrightarrow> yields P (andthen m k)"
  "(b \<Longrightarrow> yields P m') \<Longrightarrow> (\<not> b \<Longrightarrow> yields P n) \<Longrightarrow> yields P (if b then m' else n)"
  "yields P m' \<Longrightarrow> (\<And>x. yields P (k' x)) \<Longrightarrow> yields P (case y of None \<Rightarrow> m' | Some x \<Rightarrow> k' x)"
      apply (simp add: yields_def)
     apply (simp add: yields_def)
    apply (rule yields_bind [of "\<lambda>_. True"])
     apply (simp_all add: yields_def split: option.split)
  done

lemma yields_node: "yields (\<lambda>node. inode_wf (inode node)) (or_else (node_get_by_inode img i) e)"
  by (auto simp: yields_def node_get_by_inode_def inode_read_def io_elims Let_def split: if_splits)

lemma yields_lookup_segments:
  assumes "\<And>p. yields (\<lambda>node. inode_wf (inode node)) (again p)"
  shows "inode_wf (inode cur) \<Longrightarrow>
    yields (\<lambda>node. inode_wf (inode node)) (lookup_segments img follow again segs prefix cur)"
proof (induction segs arbitrary: prefix cur)
  case Nil
  then show ?case by (simp add: yields_def)
next
  case (Cons sc segs)
  then show ?case
    unfolding lookup_segments.simps Let_def
    by (cases sc) (auto intro!: yields_intros(2-5) assms yields_bind [OF yields_node])
qed

lemma node_lookup_wf:
  assumes "node_lookup img path follow s = (Inr node, t)"
  shows "inode_wf (inode node)"
proof -
  have "yields (\<lambda>node. inode_wf (inode node)) (lookup_path_recursive n img path follow)" for n path
    by (induction n arbitrary: path)
      (auto simp: Let_def intro!: yields_intros yields_bind [OF yields_node] yields_lookup_segments)
  then have "yields (\<lambda>node. inode_wf (inode node)) (node_lookup img path follow)" by (simp only: node_lookup_def)
  with assms show ?thesis unfolding yields_def by blast
qed

text \<open>A successful rewrite of an inode: the new inode at its place, the rest as before.\<close>

definition inode_replaced :: "nextufs_image \<Rightarrow> u32 \<Rightarrow> nextufs_inode \<Rightarrow> sys \<Rightarrow> sys \<Rightarrow> bool" where
  "inode_replaced img n ino s t \<longleftrightarrow> (let off = nat (inode_offset img n) in
     decode_inode (\<lambda>i. disk t (off + i)) = ino \<and> (\<forall>i. i < off \<or> off + 128 \<le> i \<longrightarrow> disk t i = disk s i))"

lemma write_inode_raw_replaces:
  assumes "sys_ok s" "inode_wf ino" "write_inode_raw img n ino s = (Inr (), t)"
  shows "inode_replaced img n ino s t \<and> sys_ok t"
proof -
  let ?off = "nat (inode_offset img n)"
  have wr: "write_exact img (encode_inode ino) 128 (inode_offset img n) s = (Inr (), t)"
    using assms(3) by (auto simp: write_inode_raw_def Let_def UFS_INODE_SIZE_def split: if_splits)
  have d: "disk t = blit (disk s) ?off 128 (encode_inode ino)" by (rule img.wr_value [OF assms(1) wr])
  have "decode_inode (\<lambda>i. disk t (?off + i)) = decode_inode (clip 128 (\<lambda>i. disk t (?off + i)))"
    by (simp add: decode_inode_clip)
  also have "clip 128 (\<lambda>i. disk t (?off + i)) = clip 128 (encode_inode ino)"
    by (rule clip_cong) (simp add: d)
  finally have "decode_inode (\<lambda>i. disk t (?off + i)) = ino"
    by (simp add: decode_inode_clip decode_encode_inode [OF assms(2)])
  then show ?thesis using img.wr_inv [OF assms(1) wr] by (auto simp: inode_replaced_def Let_def d)
qed

text \<open>C25. A successful \<open>nextufs_path_chmod\<close> was asked for by root, by the owner of the file or under
  the \<open>su\<close> policy, and has replaced the inode of the file by itself with the new permission bits and
  time; file type and everything outside the inode are unchanged.\<close>

theorem path_chmod_sets_mode:
  assumes "open_rw s = (Inr img, u)" "sys_ok u" "path_chmod open_rw (Some ctx) path md s = (Inr (), t)"
  shows "\<exists>node v now. node_lookup img path False u = (Inr node, v) \<and>
    (policy ctx = WriteUser \<longrightarrow> cuid ctx = 0 \<or> cuid ctx = ucast (uid (inode node))) \<and>
    inode_replaced img (inode_no node)
      ((inode node)\<lparr>mode := sanitize_chmod_mode ctx node md, ctime := now\<rparr>) u t"
proof -
  from assms obtain node v now w x where run:
    "node_lookup img path False u = (Inr node, v)" "require_chmod_allowed ctx node = Inr ()"
    "sys_os time v = (Inr now, w)"
    "write_inode_raw img (inode_no node) ((inode node)\<lparr>mode := sanitize_chmod_mode ctx node md, ctime := now\<rparr>) w = (Inr (), x)"
    "image_fsync img x = (Inr (), t)"
    by (auto simp: path_chmod_def with_ctx_def io_elims)
  have v: "sys_ok w" "disk w = disk u"
    using quietD [OF quiet_node_lookup run(1) assms(2)] quietD [OF quiet_os run(3)] by (auto simp: untouched_def)
  have "inode_wf ((inode node)\<lparr>mode := sanitize_chmod_mode ctx node md, ctime := now\<rparr>)"
    using node_lookup_wf [OF run(1)] by (simp add: inode_wf_def)
  from write_inode_raw_replaces [OF v(1) this run(4)]
  have "inode_replaced img (inode_no node) ((inode node)\<lparr>mode := sanitize_chmod_mode ctx node md, ctime := now\<rparr>) w x"
    "sys_ok x" by simp_all
  moreover have "disk t = disk x" using quietD [OF quiet_image_fsync run(5)] \<open>sys_ok x\<close> by (simp add: untouched_def)
  ultimately have "inode_replaced img (inode_no node)
      ((inode node)\<lparr>mode := sanitize_chmod_mode ctx node md, ctime := now\<rparr>) u t"
    by (simp add: inode_replaced_def v(2))
  moreover have "policy ctx = WriteUser \<longrightarrow> cuid ctx = 0 \<or> cuid ctx = ucast (uid (inode node))"
    using run(2) by (auto simp: require_chmod_allowed_def ctx_is_root_def split: if_splits)
  ultimately show ?thesis using run(1) by blast
qed

definition root_ctx :: nextufs_write_ctx where
  "root_ctx = \<lparr>policy = WriteUser, cuid = 0, cgid = 0, groups = []\<rparr>"

theorem path_chmod_sets_mode_witness:
  "\<exists>t node now. path_chmod (ret tiny_image) (Some root_ctx) [slash] 0x1ed tiny_state = (Inr (), t) \<and>
     inode_replaced tiny_image (inode_no node)
       ((inode node)\<lparr>mode := sanitize_chmod_mode root_ctx node 0x1ed, ctime := now\<rparr>) tiny_state t"
proof -
  have off: "inode_offset tiny_image 2 = 22528"
    by (simp add: inode_offset_def Let_def UFS_INODE_SIZE_def)
  have "wp (path_chmod (ret tiny_image) (Some root_ctx) [slash] 0x1ed) (\<lambda>_ _. False) (\<lambda>_ _. True) tiny_state"
    by (auto simp: path_chmod_def with_ctx_def require_ctx_ids_fit_def root_ctx_def id_fits_nextstep_def lift_def
      tiny_root_lookup node_get_by_inode_def inode_read_def ROOT_INODE_def off UFS_INODE_SIZE_def wp_simps
      require_chmod_allowed_def ctx_is_root_def write_inode_raw_def Let_def
      intro!: wp_read_calm [OF tiny_calm] wp_time_calm wp_write_calm wp_fsync_calm)
  from wp_succeeds_unit [OF this] obtain t where
    run: "path_chmod (ret tiny_image) (Some root_ctx) [slash] 0x1ed tiny_state = (Inr (), t)" by blast
  from path_chmod_sets_mode [OF ret_apply calm_sys_ok [OF tiny_calm] run] run show ?thesis by blast
qed

text \<open>The permission bits of the class the caller is in.\<close>

definition class_perms :: "nextufs_write_ctx \<Rightarrow> nextufs_node \<Rightarrow> u16" where
  "class_perms ctx node =
     (let md = mode (inode node) in
      if cuid ctx = ucast (uid (inode node)) then drop_bit 6 md AND 7
      else if cgid ctx = ucast (gid (inode node)) \<or> ucast (gid (inode node)) \<in> set (groups ctx)
      then drop_bit 3 md AND 7 else md AND 7)"

lemma require_user_access_granted:
  assumes "policy ctx = WriteUser" "cuid ctx \<noteq> 0"
  shows "require_user_access ctx node W_OK = Inr () \<Longrightarrow> class_perms ctx node AND 2 = 2"
    "require_parent_mutation ctx node = Inr () \<Longrightarrow> class_perms ctx node AND 3 = 3"
  using assms by (auto simp: require_parent_mutation_def require_user_access_def node_check_access_bits_def
    class_perms_def W_OK_def X_OK_def R_OK_def F_OK_def Let_def split: if_splits)

lemma check_sticky_parent_granted:
  assumes "check_sticky_parent ctx parent target = Inr ()" "policy ctx = WriteUser" "cuid ctx \<noteq> 0"
    and "mode (inode parent) AND 0x200 \<noteq> 0"
  shows "cuid ctx = ucast (uid (inode parent)) \<or> cuid ctx = ucast (uid (inode target))"
  using assms by (auto simp: check_sticky_parent_def ctx_is_root_def split: if_splits)

text \<open>C26. \<open>nextufs_path_unlink\<close>, successful or not, changes the disk only when the path names something
  that is not a directory, in a directory, and, for an ordinary user, the directory grants write
  and search permission, the file itself grants write permission, and a sticky directory or the
  file belongs to the user.\<close>

theorem path_unlink_needs_permission:
  assumes "open_rw s = (Inr img, u)" "path_unlink open_rw (Some ctx) path s = (r, t)"
    and "disk t \<noteq> disk s" "disk t \<noteq> disk u"
  shows "\<exists>parent_path name parent target v w.
    path_split path 4096 256 = Inr (parent_path, name) \<and> name \<noteq> [dot] \<and> name \<noteq> [dot, dot] \<and>
    node_lookup img parent_path True u = (Inr parent, v) \<and> node_is_dir parent \<and>
    node_lookup img path False v = (Inr target, w) \<and> \<not> node_is_dir target \<and>
    (policy ctx = WriteUser \<longrightarrow> cuid ctx \<noteq> 0 \<longrightarrow>
      class_perms ctx parent AND 3 = 3 \<and> class_perms ctx target AND 2 = 2 \<and>
      (mode (inode parent) AND 0x200 \<noteq> 0 \<longrightarrow>
        cuid ctx = ucast (uid (inode parent)) \<or> cuid ctx = ucast (uid (inode target))))"
proof -
  obtain q s' where pre: "split_new_name ctx path s = (q, s')" by (cases "split_new_name ctx path s")
  have s': "s' = s" using pre by (auto simp: split_new_name_def andthen_def lift_def split: sum.splits prod.splits)
  obtain parent_path name where q: "q = Inr (parent_path, name)"
    using assms(2,3) pre s' by (cases q) (auto simp: path_unlink_def with_ctx_def andthen_def)
  have name: "path_split path 4096 256 = Inr (parent_path, name)" "name \<noteq> [dot]" "name \<noteq> [dot, dot]"
    using pre q by (auto simp: split_new_name_def io_elims disallow_dot_names_def name_is_dot_or_dotdot_def split: if_splits)
  define rest where "rest parent target = andthen (remove_dirent img parent name) (\<lambda>(parent, removed_inode).
     andthen (check (removed_inode = inode_no target) EINVAL) (\<lambda>_.
     andthen (remove_linked_inode img target) (\<lambda>_. image_fsync img)))" for parent target
  have "andthen (node_lookup img parent_path True) (\<lambda>parent.
     andthen (check (node_is_dir parent) ENOTDIR) (\<lambda>_.
     andthen (lift (require_parent_mutation ctx parent)) (\<lambda>_.
     andthen (node_lookup img path False) (\<lambda>target.
     andthen (check (\<not> node_is_dir target) EISDIR) (\<lambda>_.
     andthen (lift (check_sticky_parent ctx parent target)) (\<lambda>_.
     andthen (lift (require_user_access ctx target W_OK)) (\<lambda>_. rest parent target))))))) u = (r, t)"
    using assms(1,2) pre unfolding q s' by (simp add: path_unlink_def with_ctx_def andthen_step rest_def)
  then obtain parent v target w where p: "node_lookup img parent_path True u = (Inr parent, v)" "node_is_dir parent"
    "require_parent_mutation ctx parent = Inr ()"
    "node_lookup img path False v = (Inr target, w)" "\<not> node_is_dir target"
    "check_sticky_parent ctx parent target = Inr ()" "require_user_access ctx target W_OK = Inr ()"
    by (elim changed_andthen) (use assms(4) in \<open>auto intro: quiets\<close>)
  with name require_user_access_granted [of ctx] check_sticky_parent_granted [of ctx parent target]
  show ?thesis by blast
qed

theorem path_unlink_needs_permission_witness:
  "\<exists>r t. path_unlink (ret tiny_image) (Some user_ctx) (slash # name_f) dir_state = (r, t) \<and>
     disk t \<noteq> disk dir_state \<and> (\<exists>parent v. node_lookup tiny_image [slash] True dir_state = (Inr parent, v) \<and>
       class_perms user_ctx parent AND 3 = 3)"
proof -
  obtain t where run: "path_unlink (ret tiny_image) (Some user_ctx) (slash # name_f) dir_state = (Inr (), t)"
    and "disk t 24593 = 24"
    using wp_succeeds_unit [OF wp_unlink_f] by blast
  moreover have "disk dir_state 24593 = 12"
    by (simp add: dir_disk_view dir_disk_def names_block_def bytes_of_def)
  ultimately have d: "disk t \<noteq> disk dir_state" by auto
  from path_unlink_needs_permission [OF ret_apply run d d] run d split_f
  show ?thesis by auto
qed

text \<open>C27. A successful \<open>nextufs_path_chown\<close> by an ordinary user was asked for by the owner, left the
  owner as it was, set a group the user is in, and cleared the set-user-id and set-group-id bits;
  nothing else of the inode but its time has changed.\<close>

theorem path_chown_strips_setid:
  assumes "open_rw s = (Inr img, u)" "sys_ok u" "path_chown open_rw (Some ctx) path user grp s = (Inr (), t)"
    and "policy ctx = WriteUser" "cuid ctx \<noteq> 0"
  shows "\<exists>node v now new_gid. node_lookup img path False u = (Inr node, v) \<and>
    cuid ctx = ucast (uid (inode node)) \<and> ctx_in_group ctx new_gid \<and>
    inode_replaced img (inode_no node)
      ((inode node)\<lparr>gid := ucast new_gid, mode := mode (inode node) AND NOT (0x800 OR 0x400), ctime := now\<rparr>) u t"
proof -
  from assms(1,3-5) obtain node v now w x new_uid new_gid where run:
    "node_lookup img path False u = (Inr node, v)" "require_chown_allowed ctx node new_uid new_gid = Inr ()"
    "sys_os time v = (Inr now, w)"
    "write_inode_raw img (inode_no node) ((inode node)\<lparr>uid := ucast new_uid, gid := ucast new_gid,
       mode := mode (inode node) AND NOT (0x800 OR 0x400), ctime := now\<rparr>) w = (Inr (), x)"
    "image_fsync img x = (Inr (), t)"
    by (auto simp: path_chown_def with_ctx_def io_elims Let_def ctx_is_root_def)
  have allowed: "new_uid = ucast (uid (inode node))" "cuid ctx = ucast (uid (inode node))" "ctx_in_group ctx new_gid"
    using run(2) assms(4,5) by (auto simp: require_chown_allowed_def ctx_is_root_def split: if_splits)
  let ?ino = "(inode node)\<lparr>gid := ucast new_gid, mode := mode (inode node) AND NOT (0x800 OR 0x400), ctime := now\<rparr>"
  have "ucast (ucast (uid (inode node)) :: u32) = uid (inode node)" by (rule bit_word_eqI) (simp add: bit_simps)
  then have ino: "(inode node)\<lparr>uid := ucast new_uid, gid := ucast new_gid,
       mode := mode (inode node) AND NOT (0x800 OR 0x400), ctime := now\<rparr> = ?ino"
    by (simp add: allowed(1))
  have v: "sys_ok w" "disk w = disk u"
    using quietD [OF quiet_node_lookup run(1) assms(2)] quietD [OF quiet_os run(3)] by (auto simp: untouched_def)
  have "inode_wf ?ino" using node_lookup_wf [OF run(1)] by (simp add: inode_wf_def)
  from write_inode_raw_replaces [OF v(1) this] run(4) have "inode_replaced img (inode_no node) ?ino w x" "sys_ok x"
    unfolding ino by blast+
  moreover have "disk t = disk x" using quietD [OF quiet_image_fsync run(5)] \<open>sys_ok x\<close> by (simp add: untouched_def)
  ultimately have "inode_replaced img (inode_no node) ?ino u t" by (simp add: inode_replaced_def v(2))
  with allowed run(1) show ?thesis by blast
qed

theorem path_chown_strips_setid_witness:
  "\<exists>t (node :: nextufs_node) now new_gid. path_chown (ret tiny_image) (Some user_ctx) (slash # name_f) (- 1) (- 1) dir_state = (Inr (), t) \<and>
     inode_replaced tiny_image (inode_no node) ((inode node)\<lparr>gid := ucast (new_gid :: u32),
       mode := mode (inode node) AND NOT (0x800 OR 0x400), ctime := now\<rparr>) dir_state t"
proof -
  have c: "require_owner_ids_fit (- 1) (- 1) = Inr ()" "require_chown_allowed user_ctx file_node 7 7 = Inr ()"
    by (simp_all add: require_owner_ids_fit_def require_chown_allowed_def ctx_is_root_def ctx_in_group_def)
  have "wp (path_chown (ret tiny_image) (Some user_ctx) (slash # name_f) (- 1) (- 1)) (\<lambda>_ _. False) (\<lambda>_ _. True) dir_state"
    unfolding path_chown_def with_ctx_def option.case
    by (simp add: c lift_def wp_simps io_simps Let_def)
      (rule wp_lookup_f [OF dir_calm refl], simp add: c wp_simps write_inode_raw_def Let_def ctx_is_root_def,
       rule wp_time_calm, assumption, rule wp_write_calm, assumption, simp, simp, rule wp_fsync_calm, assumption, simp)
  from wp_succeeds_unit [OF this] obtain t where
    run: "path_chown (ret tiny_image) (Some user_ctx) (slash # name_f) (- 1) (- 1) dir_state = (Inr (), t)" by blast
  have "policy user_ctx = WriteUser" "cuid user_ctx \<noteq> 0" by simp_all
  from path_chown_strips_setid [OF ret_apply calm_sys_ok [OF dir_calm] run this] run show ?thesis by blast
qed

end
