(* ===== verification/Label.thy ===== *)
theory Label
  imports Backend "HOL-Library.Char_ord"
begin

text \<open>
  The NeXT disk label (\<open>src/src/core/label.c\<close>): decoding and choosing the slice, writing the four
  copies of a fresh label, checking and patching the copies of an existing one. The functions on
  a file descriptor run over the file and the operating system, with the transfer loops of
  \<open>HostIO\<close>.
\<close>

definition LABEL_SECTOR_SIZE :: nat where "LABEL_SECTOR_SIZE = 1024"
definition DEV_SECTOR_SIZE :: nat where "DEV_SECTOR_SIZE = 512"
definition LABEL_SCAN_LIMIT :: nat where "LABEL_SCAN_LIMIT = 131072"
definition LABEL_DECODE_SIZE :: nat where "LABEL_DECODE_SIZE = 0x1c5a"
definition LABEL_VALIDATE_SIZE :: nat where "LABEL_VALIDATE_SIZE = 0x660"
definition LABEL_WRITE_SIZE :: nat where "LABEL_WRITE_SIZE = 0x300"
definition LABEL_CKSUM_SIZE :: nat where "LABEL_CKSUM_SIZE = 0x230"
definition LABEL_COPY_COUNT :: nat where "LABEL_COPY_COUNT = 4"
definition LABEL_COPY_STRIDE :: nat where "LABEL_COPY_STRIDE = 7680"
definition LABEL_PART_COUNT :: nat where "LABEL_PART_COUNT = 8"
definition LABEL_FRONT_PORCH_BYTES :: nat where "LABEL_FRONT_PORCH_BYTES = 163840"
definition DL_V1 :: u32 where "DL_V1 = 0x4e655854"
definition DL_V2 :: u32 where "DL_V2 = 0x646c5632"
definition DL_V3 :: u32 where "DL_V3 = 0x646c5633"
definition DL_DISKTAB_OFF :: nat where "DL_DISKTAB_OFF = 0x2c"
definition DL_V3_CKSUM_OFF :: nat where "DL_V3_CKSUM_OFF = 0x22e"
definition DL_CKSUM_OFF :: nat where "DL_CKSUM_OFF = 0x1c58"
definition DT_SECSIZE_OFF :: nat where "DT_SECSIZE_OFF = 0x32"
definition DT_FRONT_OFF :: nat where "DT_FRONT_OFF = 0x44"
definition DT_ROOTPART_OFF :: nat where "DT_ROOTPART_OFF = 0x90"
definition DT_PARTITIONS_OFF :: nat where "DT_PARTITIONS_OFF = 0x94"
definition DT_PARTITION_SIZE :: nat where "DT_PARTITION_SIZE = 0x40"
definition PART_SIZE_OFF :: nat where "PART_SIZE_OFF = 3"
definition PART_BSIZE_OFF :: nat where "PART_BSIZE_OFF = 6"
definition PART_FSIZE_OFF :: nat where "PART_FSIZE_OFF = 8"
definition PART_TYPE_OFF :: nat where "PART_TYPE_OFF = 0x23"

text \<open>Byte offsets of the disktab fields and of partition \<open>i\<close> in a label.\<close>

definition part_off :: "nat \<Rightarrow> nat" where
  "part_off i = DL_DISKTAB_OFF + DT_PARTITIONS_OFF + i * DT_PARTITION_SIZE"

definition ascii :: "string \<Rightarrow> u8 list" where
  "ascii s = map of_char s"

definition read_be24 :: "buf \<Rightarrow> nat \<Rightarrow> u32" where
  "read_be24 b p = push_bit 16 (ucast (b p)) OR push_bit 8 (ucast (b (p + 1))) OR ucast (b (p + 2))"

definition write_be24 :: "buf \<Rightarrow> nat \<Rightarrow> u32 \<Rightarrow> buf" where
  "write_be24 b p v =
     b(p := ucast (drop_bit 16 v), p + 1 := ucast (drop_bit 8 v), p + 2 := ucast v)"

definition checksum_be16 :: "buf \<Rightarrow> nat \<Rightarrow> u16" where
  "checksum_be16 b sz = ucast (foldl (\<lambda>acc i.
     let acc = acc + ucast (read_be16 b (2 * i)) :: u32 in if 65535 < acc then acc - 65535 else acc)
     0 [0..<sz div 2])"

definition put_string :: "buf \<Rightarrow> nat \<Rightarrow> nat \<Rightarrow> u8 list \<Rightarrow> buf" where
  "put_string b p len s = (let n = (if len \<le> length s then len - 1 else length s)
     in blit b p n (bytes_of s))"

text \<open>The string a field of \<open>src_size\<close> bytes holds, cut to fit \<open>dst_size\<close> bytes with its end.\<close>

definition copy_cstr_field :: "nat \<Rightarrow> buf \<Rightarrow> nat \<Rightarrow> nat \<Rightarrow> u8 list" where
  "copy_cstr_field dst_size b p src_size =
     (let s = takeWhile (\<lambda>c. c \<noteq> 0) (list_of b p src_size)
      in if dst_size \<le> length s then take (dst_size - 1) s else s)"

definition label_partition_present :: "buf \<Rightarrow> nat \<Rightarrow> bool" where
  "label_partition_present b p \<longleftrightarrow>
     (let base = read_be24 b p; sz = read_be24 b (p + PART_SIZE_OFF);
          bsize = read_be16 b (p + PART_BSIZE_OFF); fsz = read_be16 b (p + PART_FSIZE_OFF);
          type_empty = list_all (\<lambda>c. c = 0) (list_of b (p + PART_TYPE_OFF) 8)
      in \<not> (base = 0xffffff \<or> sz = 0 \<or> sz = 0xffffff \<or> bsize = 0 \<or> bsize = 0xffff \<or>
        fsz = 0 \<or> fsz = 0xffff \<or> type_empty))"

definition label_is_version :: "u32 \<Rightarrow> bool" where
  "label_is_version version \<longleftrightarrow> version = DL_V1 \<or> version = DL_V2 \<or> version = DL_V3"

section \<open>Decoding\<close>

record label_partition =
  part_present :: bool
  base_blocks :: u32
  size_blocks :: u32
  part_block_size :: u16
  part_frag_size :: u16
  part_type :: "u8 list"

record disk_label =
  dl_off :: int
  dl_version :: u32
  dl_blkno :: u32
  dl_secsize :: u32
  dl_front :: u16
  dl_name :: "u8 list"
  dl_rootpartition :: u8
  dl_part :: "label_partition list"
  dl_checksum :: u16
  checksum_valid :: bool
  checksum_present :: bool

definition decode_partition :: "buf \<Rightarrow> nat \<Rightarrow> label_partition" where
  "decode_partition b p =
     (let raw = list_of b p DT_PARTITION_SIZE;
          base = read_be24 b p; sz = read_be24 b (p + PART_SIZE_OFF);
          bsize = read_be16 b (p + PART_BSIZE_OFF); fsz = read_be16 b (p + PART_FSIZE_OFF);
          type = copy_cstr_field 9 b (p + PART_TYPE_OFF) 8
      in \<lparr>part_present = \<not> list_all (\<lambda>c. c = 0) raw \<and> \<not> list_all (\<lambda>c. c = 0xff) raw \<and>
            base \<noteq> 0xffffff \<and> sz \<noteq> 0 \<and> sz \<noteq> 0xffffff \<and> bsize \<noteq> 0 \<and> bsize \<noteq> 0xffff \<and>
            fsz \<noteq> 0 \<and> fsz \<noteq> 0xffff \<and> fsz \<le> bsize \<and> type \<noteq> [],
          base_blocks = base, size_blocks = sz, part_block_size = bsize, part_frag_size = fsz,
          part_type = type\<rparr>)"

text \<open>The bytes the checksum is taken over: the block number and the checksum count as 0.\<close>

definition cksum_bytes :: "buf \<Rightarrow> buf" where
  "cksum_bytes b = fill (fill (clip LABEL_CKSUM_SIZE b) 4 4 0) DL_V3_CKSUM_OFF 2 0"

definition label_decode :: "buf \<Rightarrow> nat \<Rightarrow> int \<Rightarrow> disk_label option" where
  "label_decode b sz off =
     (if sz < LABEL_DECODE_SIZE then None
      else let version = read_be32 b 0 in
      if \<not> label_is_version version then None
      else
      let blkno = read_be32 b 4;
          secsize = ucast (read_be16 b (DL_DISKTAB_OFF + DT_SECSIZE_OFF)) :: u32;
          cksum = read_be16 b (if version = DL_V3 then DL_V3_CKSUM_OFF else DL_CKSUM_OFF);
          valid = (version = DL_V3 \<and> checksum_be16 (cksum_bytes b) LABEL_CKSUM_SIZE = cksum);
          dl = \<lparr>dl_off = off, dl_version = version, dl_blkno = blkno, dl_secsize = secsize,
            dl_front = read_be16 b (DL_DISKTAB_OFF + DT_FRONT_OFF),
            dl_name = copy_cstr_field 25 b 0x0c 24,
            dl_rootpartition = b (DL_DISKTAB_OFF + DT_ROOTPART_OFF),
            dl_part = map (\<lambda>i. decode_partition b (part_off i)) [0..<LABEL_PART_COUNT],
            dl_checksum = cksum, checksum_valid = valid, checksum_present = cksum \<noteq> 0\<rparr> in
      if secsize = 0 \<or> secsize mod of_nat DEV_SECTOR_SIZE \<noteq> 0 then None
      else if ucast blkno * of_nat DEV_SECTOR_SIZE \<noteq> (word_of_int off :: u64) then None
      else if checksum_present dl \<and> \<not> checksum_valid dl then None
      else Some dl)"

definition slice_of_partition :: "disk_label \<Rightarrow> label_partition \<Rightarrow> int \<times> int" where
  "slice_of_partition dl p =
     (sint ((ucast (dl_front dl) + ucast (base_blocks p)) * ucast (dl_secsize dl) :: u64),
      sint (ucast (size_blocks p) * ucast (dl_secsize dl) :: u64))"

text \<open>\<open>'a'\<close> is 0x61; the byte of the root partition is a signed \<open>char\<close>, so 0x80 and more is no letter.\<close>

definition label_pick_slice :: "disk_label \<Rightarrow> (int \<times> int) option" where
  "label_pick_slice dl =
     (let usable = (\<lambda>p. part_present p \<and> size_blocks p \<noteq> 0);
          rp = dl_rootpartition dl;
          root = dl_part dl ! unat (rp - 0x61) in
      if 0x61 \<le> rp \<and> rp < 0x69 \<and> usable root then Some (slice_of_partition dl root)
      else map_option (slice_of_partition dl)
        (find (\<lambda>p. usable p \<and> part_type p = ascii ''4.3BSD'') (dl_part dl)))"

section \<open>Writing\<close>

text \<open>The fields of a new label; its checksum is still open.\<close>

definition label_body :: "int \<Rightarrow> u32 \<Rightarrow> u32 \<Rightarrow> u16 \<Rightarrow> u8 list \<Rightarrow> buf" where
  "label_body off total_blocks slice_blocks ncyl label =
     (let b = (\<lambda>_. 0);
          b = write_be32 b 0 DL_V3;
          b = write_be32 b 4 (word_of_int (off div 512));
          b = write_be32 b 8 total_blocks;
          b = put_string b 0x0c 24 label;
          dt = DL_DISKTAB_OFF;
          b = put_string b dt 24 (ascii ''nextufs'');
          b = put_string b (dt + 0x18) 24 (ascii ''fixed_rw_scsi'');
          b = write_be16 b (dt + DT_SECSIZE_OFF) 1024;
          b = write_be16 b (dt + 0x36) 4;
          b = write_be16 b (dt + 0x3a) 32;
          b = write_be16 b (dt + 0x3e) ncyl;
          b = write_be16 b (dt + 0x42) 3600;
          b = write_be16 b (dt + DT_FRONT_OFF) (of_nat (LABEL_FRONT_PORCH_BYTES div LABEL_SECTOR_SIZE));
          b = write_be16 b (dt + 0x46) 0;
          b = write_be32 b (dt + 0x56) 32;
          b = write_be32 b (dt + 0x5a) 96;
          b = put_string b (dt + 0x58) 24 (ascii ''sdmach'');
          b = put_string b (dt + 0x70) 32 (ascii ''localhost'');
          b = b(dt + DT_ROOTPART_OFF := 0x61, dt + 0x91 := 0x62);
          b = fill b (part_off 0) (LABEL_PART_COUNT * DT_PARTITION_SIZE) 0xff;
          b = fill b (part_off 0) DT_PARTITION_SIZE 0;
          b = write_be24 b (part_off 0) 0;
          b = write_be24 b (part_off 0 + PART_SIZE_OFF) slice_blocks;
          b = write_be16 b (part_off 0 + PART_BSIZE_OFF) 8192;
          b = write_be16 b (part_off 0 + PART_FSIZE_OFF) 1024;
          b = b(part_off 0 + 0x0a := 0x74);
          b = write_be16 b (part_off 0 + 0x0c) 16;
          b = write_be16 b (part_off 0 + 0x0e) 4096;
          b = b(part_off 0 + 0x10 := 10, part_off 0 + 0x11 := 1, part_off 0 + 0x22 := 1)
      in put_string b (part_off 0 + PART_TYPE_OFF) 8 (ascii ''4.3BSD''))"

definition label_copy_bytes :: "int \<Rightarrow> u32 \<Rightarrow> u32 \<Rightarrow> u16 \<Rightarrow> u8 list \<Rightarrow> buf" where
  "label_copy_bytes off total_blocks slice_blocks ncyl label =
     (let b = label_body off total_blocks slice_blocks ncyl label;
          b = fill b 4 4 0;
          b = fill b DL_V3_CKSUM_OFF 2 0;
          b = write_be16 b DL_V3_CKSUM_OFF (checksum_be16 b LABEL_CKSUM_SIZE)
      in write_be32 b 4 (word_of_int (off div 512)))"

definition write_label_copy ::
    "int \<Rightarrow> u32 \<Rightarrow> u32 \<Rightarrow> u16 \<Rightarrow> u8 list \<Rightarrow> (hostfile \<times> os, unit) io" where
  "write_label_copy off total_blocks slice_blocks ncyl label =
     write_exact_fd (label_copy_bytes off total_blocks slice_blocks ncyl label) LABEL_WRITE_SIZE off"

primrec run_all :: "('a \<Rightarrow> ('s, nat) io) \<Rightarrow> 'a list \<Rightarrow> ('s, nat) io" where
  "run_all f [] = ret 0"
| "run_all f (x # xs) = andthen (f x) (\<lambda>n. andthen (run_all f xs) (\<lambda>m. ret (n + m)))"

text \<open>The target is open: the state is its file. \<open>open\<close> itself may fail.\<close>

definition label_open :: "(hostfile \<times> os, unit) io" where
  "label_open = (\<lambda>(f, s). case events s (ticks s) of
     OsFail e \<Rightarrow> (Inl e, (f, tick s)) | _ \<Rightarrow> (Inr (), (f, tick s)))"

definition label_write_path :: "u64 \<Rightarrow> u64 \<Rightarrow> u8 list \<Rightarrow> (hostfile \<times> os, unit) io" where
  "label_write_path image_bytes slice_bytes label =
     (let total_blocks = ucast (image_bytes div of_nat LABEL_SECTOR_SIZE) :: u32;
          slice_blocks = ucast (slice_bytes div of_nat LABEL_SECTOR_SIZE) :: u32;
          ncyl32 = total_blocks div (4 * 32) in
      if 0xffffff < total_blocks \<or> 0xffffff < slice_blocks then fail EFBIG
      else if 0xffff < ncyl32 then fail EFBIG
      else
      andthen label_open (\<lambda>_.
      andthen (run_all (\<lambda>i. andthen (write_label_copy (int (i * LABEL_COPY_STRIDE)) total_blocks
          slice_blocks (ucast ncyl32) label) (\<lambda>_. ret 1)) [0..<LABEL_COPY_COUNT]) (\<lambda>_. ret ())))"

section \<open>Checking and patching the copies\<close>

definition is_bsd_type :: "buf \<Rightarrow> nat \<Rightarrow> bool" where
  "is_bsd_type b p \<longleftrightarrow> list_of b p 6 = ascii ''4.3BSD'' \<and> b (p + 6) = 0"

text \<open>Both read one copy, whether it is a label at all, and its root partition's start.\<close>

definition label_start :: "buf \<Rightarrow> nat \<Rightarrow> u64" where
  "label_start b p = (ucast (read_be16 b (DL_DISKTAB_OFF + DT_FRONT_OFF)) + ucast (read_be24 b p)) *
     ucast (read_be16 b (DL_DISKTAB_OFF + DT_SECSIZE_OFF))"

definition is_label_at :: "buf \<Rightarrow> int \<Rightarrow> bool" where
  "is_label_at b label_off \<longleftrightarrow> label_is_version (read_be32 b 0) \<and>
     ucast (read_be32 b 4) * of_nat DEV_SECTOR_SIZE = (word_of_int label_off :: u64)"

text \<open>1 for a copy that matches, 0 for a place without a label.\<close>

definition validate_one_label_copy :: "int \<Rightarrow> int \<Rightarrow> (hostfile \<times> os, nat) io" where
  "validate_one_label_copy label_off slice_base =
     andthen (raw_backend_read LABEL_VALIDATE_SIZE label_off) (\<lambda>b.
     if \<not> is_label_at b label_off then ret 0
     else let rp = b (DL_DISKTAB_OFF + DT_ROOTPART_OFF) in
     if \<not> (0x61 \<le> rp \<and> rp < 0x69) then fail EINVAL
     else let root = part_off (unat (rp - 0x61));
              present_count = length (filter (\<lambda>i. label_partition_present b (part_off i))
                [0..<LABEL_PART_COUNT]) in
     if \<not> label_partition_present b root then fail EINVAL
     else if present_count \<noteq> 1 then fail ENOTSUP
     else if \<not> is_bsd_type b (root + PART_TYPE_OFF) then fail ENOTSUP
     else if label_start b root \<noteq> word_of_int slice_base then fail EINVAL
     else ret 1)"

definition label_scan_offsets :: "int list" where
  "label_scan_offsets = map (\<lambda>i. int (i * DEV_SECTOR_SIZE))
     [0..<(LABEL_SCAN_LIMIT - LABEL_VALIDATE_SIZE) div DEV_SECTOR_SIZE + 1]"

definition label_validate_single_slice_fd :: "int \<Rightarrow> (hostfile \<times> os, unit) io" where
  "label_validate_single_slice_fd slice_base =
     andthen (run_all (\<lambda>off. validate_one_label_copy off slice_base) label_scan_offsets) (\<lambda>matched.
     if matched = 0 then fail EINVAL else ret ())"

definition patched_label :: "buf \<Rightarrow> nat \<Rightarrow> u32 \<Rightarrow> buf" where
  "patched_label b part new_size =
     (let b = write_be24 b (part + PART_SIZE_OFF) new_size
      in if read_be32 b 0 = DL_V3
         then write_be16 b DL_V3_CKSUM_OFF (checksum_be16 (cksum_bytes b) LABEL_CKSUM_SIZE)
         else b)"

definition patch_one_label_partition_size :: "int \<Rightarrow> int \<Rightarrow> u64 \<Rightarrow> (hostfile \<times> os, nat) io" where
  "patch_one_label_partition_size label_off slice_base slice_bytes =
     andthen (raw_backend_read LABEL_VALIDATE_SIZE label_off) (\<lambda>b.
     if \<not> is_label_at b label_off then ret 0
     else let rp = b (DL_DISKTAB_OFF + DT_ROOTPART_OFF);
              secsize = ucast (read_be16 b (DL_DISKTAB_OFF + DT_SECSIZE_OFF)) :: u64 in
     if \<not> (0x61 \<le> rp \<and> rp < 0x69) \<or> secsize = 0 \<or> slice_bytes mod secsize \<noteq> 0 then ret 0
     else let new_size = ucast (slice_bytes div secsize) :: u32 in
     if 0xffffff < new_size then fail EFBIG
     else let part = part_off (unat (rp - 0x61)) in
     if label_start b part \<noteq> word_of_int slice_base then ret 0
     else andthen (write_exact_fd (patched_label b part new_size) LABEL_VALIDATE_SIZE label_off)
       (\<lambda>_. ret 1))"

text \<open>The result is the number of copies patched.\<close>

definition label_patch_slice_size_fd :: "int \<Rightarrow> u64 \<Rightarrow> (hostfile \<times> os, nat) io" where
  "label_patch_slice_size_fd slice_base slice_bytes =
     andthen (run_all (\<lambda>off. patch_one_label_partition_size off slice_base slice_bytes)
       label_scan_offsets) (\<lambda>patched.
     if patched = 0 then fail EINVAL else ret patched)"

end
