(* ===== verification/OpenImage.thy ===== *)
theory OpenImage
  imports Paths Label
begin

text \<open>
  Opening an image (\<open>src/src/core/image.c\<close>): choosing the backend from the header of the file,
  finding the parents of a differencing VDI image, and locating the file system, through the disk
  label or by its magic number. The host file system is given by two functions: what \<open>open\<close>
  answers for a path, and the names \<open>readdir\<close> lists for a directory. Paths are byte strings.
\<close>

record host =
  host_open :: "u8 list \<Rightarrow> errno + hostfile"
  host_dir :: "u8 list \<Rightarrow> errno + u8 list list"

text \<open>A call of \<open>open\<close>, \<open>fstat\<close> or \<open>opendir\<close>; each may also fail by itself.\<close>

definition host_call :: "errno + 'a \<Rightarrow> (os, 'a) io" where
  "host_call r = (\<lambda>s. case events s (ticks s) of
     OsFail e \<Rightarrow> (Inl e, tick s) | _ \<Rightarrow> (r, tick s))"

section \<open>The parents of a VDI image\<close>

definition VDI_SIGNATURE :: u32 where "VDI_SIGNATURE = 0xbeda107f"
definition VDI_TYPE_DYNAMIC :: u32 where "VDI_TYPE_DYNAMIC = 1"
definition VDI_TYPE_DIFF :: u32 where "VDI_TYPE_DIFF = 4"

definition path_dirname :: "nat \<Rightarrow> u8 list \<Rightarrow> errno + u8 list" where
  "path_dirname out_size path =
     (if slash \<notin> set path then (if out_size < 2 then Inl ENAMETOOLONG else Inr [dot])
      else let at = length path - length (takeWhile (\<lambda>c. c \<noteq> slash) (rev path)) - 1;
               len = (if at = 0 then 1 else at) in
      if out_size < len + 1 then Inl ENAMETOOLONG else Inr (take len path))"

definition vdi_uuid_matches :: "host \<Rightarrow> u8 list \<Rightarrow> u8 list \<Rightarrow> (os, bool) io" where
  "vdi_uuid_matches h path target_uuid =
     attempt (andthen (host_call (host_open h path)) (\<lambda>f. read_exact_fd f 0x1b8 0)) (\<lambda>r. case r of
       Inl e \<Rightarrow> ret False
     | Inr hdr \<Rightarrow> ret (read_le32 hdr 0x40 = VDI_SIGNATURE \<and> list_of hdr 0x188 16 = target_uuid))"

text \<open>The candidates among the names of a directory, in the order \<open>readdir\<close> returns them.\<close>

definition vdi_candidate :: "u8 list \<Rightarrow> u8 list \<Rightarrow> u8 list \<Rightarrow> bool" where
  "vdi_candidate dir self_path name \<longleftrightarrow>
     \<not> (name \<noteq> [] \<and> hd name = dot) \<and> 4 \<le> length name \<and>
     drop (length name - 4) name = ascii ''.vdi'' \<and>
     length dir + 1 + length name + 1 \<le> MAX_PATH_LEN \<and> dir @ slash # name \<noteq> self_path"

primrec vdi_search_names ::
    "host \<Rightarrow> nat \<Rightarrow> u8 list \<Rightarrow> u8 list \<Rightarrow> u8 list list \<Rightarrow> (os, u8 list) io" where
  "vdi_search_names h out_size dir uuid [] = fail ENOENT"
| "vdi_search_names h out_size dir uuid (name # names) =
     (let candidate = dir @ slash # name in
      andthen (vdi_uuid_matches h candidate uuid) (\<lambda>found.
      if \<not> found then vdi_search_names h out_size dir uuid names
      else if out_size < length candidate + 1 then fail ENAMETOOLONG
      else ret candidate))"

definition vdi_search_dir ::
    "host \<Rightarrow> nat \<Rightarrow> u8 list \<Rightarrow> u8 list \<Rightarrow> u8 list \<Rightarrow> (os, u8 list) io" where
  "vdi_search_dir h out_size dir self_path uuid =
     andthen (host_call (host_dir h dir)) (\<lambda>names.
     vdi_search_names h out_size dir uuid (filter (vdi_candidate dir self_path) names))"

definition vdi_find_parent :: "host \<Rightarrow> nat \<Rightarrow> u8 list \<Rightarrow> u8 list \<Rightarrow> (os, u8 list) io" where
  "vdi_find_parent h out_size path uuid =
     (case path_dirname MAX_PATH_LEN path of
        Inl e \<Rightarrow> fail e
      | Inr dir \<Rightarrow>
        attempt (vdi_search_dir h out_size dir path uuid) (\<lambda>r. case r of
          Inr found \<Rightarrow> ret found
        | Inl _ \<Rightarrow>
          (case path_dirname MAX_PATH_LEN dir of
             Inl e \<Rightarrow> fail e
           | Inr parent_dir \<Rightarrow>
             if parent_dir = dir then fail ENOENT
             else vdi_search_dir h out_size parent_dir path uuid)))"

section \<open>The backend\<close>

text \<open>What \<open>nextufs_init_backend\<close> sets in the image, with the size of the source file.\<close>

record attached =
  at_backend :: backend
  at_container :: bool
  at_image_size :: int
  at_source_size :: nat

definition vdi_of_header :: "hostfile \<Rightarrow> buf \<Rightarrow> vdi_backend" where
  "vdi_of_header f hdr =
     \<lparr>vfile = f, image_type = read_le32 hdr 0x4c, map_offset = read_le32 hdr 0x154,
      data_offset = read_le32 hdr 0x158, sector_size = read_le32 hdr 0x168,
      vblock_size = read_le32 hdr 0x178, block_extra = read_le32 hdr 0x17c,
      block_count = read_le32 hdr 0x180, blocks_allocated = read_le32 hdr 0x184,
      disk_size = read_le64 hdr 0x170, block_map = (\<lambda>_. 0),
      image_uuid = list_of hdr 0x188 16, parent_uuid = list_of hdr 0x1a8 16\<rparr>"

definition vdi_header_ok :: "vdi_backend \<Rightarrow> u32 \<Rightarrow> bool" where
  "vdi_header_ok v header_size \<longleftrightarrow>
     (image_type v = VDI_TYPE_DYNAMIC \<or> image_type v = VDI_TYPE_DIFF) \<and> sector_size v \<noteq> 0 \<and>
     vblock_size v \<noteq> 0 \<and> block_count v \<noteq> 0 \<and> header_size \<le> map_offset v \<and>
     map_offset v \<le> data_offset v"

text \<open>
  The chain of parents is followed without a bound in the code; the fuel is its length, and
  running out of it is \<open>UNDEF\<close>. The block map is read as an array of host integers (of a
  little-endian host).
\<close>

primrec init_backend :: "nat \<Rightarrow> host \<Rightarrow> u8 list \<Rightarrow> (os, attached) io" where
  "init_backend 0 h path = fail UNDEF"
| "init_backend (Suc n) h path =
     andthen (host_call (host_open h path)) (\<lambda>f.
     andthen (host_call (Inr ())) (\<lambda>_.
     andthen (or_else (read_exact_fd f 512 0) EIO) (\<lambda>hdr.
     if read_le32 hdr 0x40 \<noteq> VDI_SIGNATURE then
       andthen malloc (\<lambda>_. ret \<lparr>at_backend = RawBackend f, at_container = False,
         at_image_size = int (fsize f), at_source_size = fsize f\<rparr>)
     else let header_size = read_le32 hdr 0x48 in
     if 0x40 + unat header_size < 0x1b8 \<or> read_le32 hdr 0x44 \<noteq> 0x00010001 then fail EINVAL
     else
     andthen malloc (\<lambda>_.
     let v = vdi_of_header f hdr in
     if \<not> vdi_header_ok v header_size then fail EINVAL
     else
     andthen malloc (\<lambda>_.
     andthen (or_else (read_exact_fd f (unat (block_count v) * 4) (int (unat (map_offset v)))) EIO) (\<lambda>map.
     let v = v\<lparr>block_map := (\<lambda>i. read_le32 map (i * 4))\<rparr> in
     andthen (if image_type v = VDI_TYPE_DIFF then
         andthen (vdi_find_parent h MAX_PATH_LEN path (parent_uuid v)) (\<lambda>parent_path.
         andthen (init_backend n h parent_path) (\<lambda>p.
         ret (Some (nat (at_image_size p), at_backend p))))
       else ret None) (\<lambda>parent.
     ret \<lparr>at_backend = VdiBackend v parent, at_container = True,
       at_image_size = sint (disk_size v), at_source_size = fsize f\<rparr>)))))))"

section \<open>Locating the file system\<close>

definition SCAN_LIMIT :: nat where "SCAN_LIMIT = 33554432"

definition superblock_ok :: "nextufs_superblock \<Rightarrow> bool" where
  "superblock_ok p \<longleftrightarrow> fs_magic p = UFS_FS_MAGIC \<and> block_size p \<noteq> 0 \<and> frag_size p \<noteq> 0"

text \<open>The superblock of the slice at \<open>base\<close>, as it is on the disk.\<close>

definition disk_superblock :: "sys \<Rightarrow> int \<Rightarrow> nextufs_superblock" where
  "disk_superblock s base = decode_superblock (clip 2048 (\<lambda>i. disk s (nat (base + 8192) + i)))"

text \<open>One step of a scan: \<open>None\<close> stands for \<open>continue\<close>.\<close>

definition try_superblock :: "int \<Rightarrow> nextufs_superblock option fs" where
  "try_superblock base =
     attempt (read_exact 2048 (base + int UFS_SBLOCK_OFFSET)) (\<lambda>r. case r of
       Inl e \<Rightarrow> if e = UNDEF then fail UNDEF else ret None
     | Inr sbuf \<Rightarrow> let p = decode_superblock sbuf in ret (if superblock_ok p then Some p else None))"

definition try_label :: "nextufs_image \<Rightarrow> buf \<Rightarrow> nat \<Rightarrow> nat \<Rightarrow> nextufs_image option fs" where
  "try_label img scanbuf scan_size off =
     (let lbuf = (\<lambda>i. scanbuf (off + i)) in
      if \<not> label_is_version (read_be32 lbuf 0) then ret None
      else case label_decode lbuf (scan_size - off) (int off) of None \<Rightarrow> ret None
      | Some dl \<Rightarrow> (case label_pick_slice dl of None \<Rightarrow> ret None
        | Some (base, slen) \<Rightarrow>
          let magic_off = nat base + UFS_SBLOCK_OFFSET + UFS_SUPER_MAGIC_OFFSET in
          if base < 0 \<or> image_size img \<le> base \<or> slen \<le> 0 \<or> image_size img < base + slen \<or>
            scan_size < magic_off + 4 \<or> read_be32 scanbuf magic_off \<noteq> UFS_FS_MAGIC
          then ret None
          else andthen (try_superblock base) (\<lambda>p.
            ret (map_option (\<lambda>p. img\<lparr>sb := p, slice_base := base, slice_size := slen,
              label_off := dl_off dl, label_version := dl_version dl, label_secsize := dl_secsize dl,
              label_front := dl_front dl, label_name := dl_name dl,
              rootpartition := dl_rootpartition dl, used_disk_label := True\<rparr>) p))))"

definition try_magic :: "nextufs_image \<Rightarrow> buf \<Rightarrow> nat \<Rightarrow> nextufs_image option fs" where
  "try_magic img scanbuf off =
     (let base = int off - int UFS_SUPER_MAGIC_OFFSET - int UFS_SBLOCK_OFFSET in
      if read_be32 scanbuf off \<noteq> UFS_FS_MAGIC \<or> base < 0 then ret None
      else andthen (try_superblock base) (\<lambda>p.
        ret (map_option (\<lambda>p. img\<lparr>sb := p, slice_base := base,
          slice_size := image_size img - base\<rparr>) p)))"

primrec first_some :: "('a \<Rightarrow> ('s, 'b option) io) \<Rightarrow> 'a list \<Rightarrow> ('s, 'b option) io" where
  "first_some f [] = ret None"
| "first_some f (x # xs) =
     andthen (f x) (\<lambda>r. case r of None \<Rightarrow> first_some f xs | Some y \<Rightarrow> ret (Some y))"

definition label_offsets :: "nat \<Rightarrow> nat list" where
  "label_offsets scan_size = (let limit = min scan_size LABEL_SCAN_LIMIT in
     filter (\<lambda>off. off + LABEL_DECODE_SIZE \<le> limit)
       (map (\<lambda>i. i * DEV_SECTOR_SIZE) [0..<limit div DEV_SECTOR_SIZE + 1]))"

definition magic_offsets :: "nat \<Rightarrow> nat list" where
  "magic_offsets scan_size = map (\<lambda>i. i * 4) [0..<scan_size div 4]"

definition locate_file_system :: "nextufs_image \<Rightarrow> nextufs_image fs" where
  "locate_file_system img =
     (let scan_size = (if 0 \<le> image_size img then min SCAN_LIMIT (nat (image_size img)) else SCAN_LIMIT) in
      andthen (sys_os malloc) (\<lambda>_.
      andthen (or_else (read_exact scan_size 0) EIO) (\<lambda>scanbuf.
      andthen (first_some (try_label img scanbuf scan_size) (label_offsets scan_size)) (\<lambda>r.
      case r of Some img \<Rightarrow> ret img
      | None \<Rightarrow>
        andthen (first_some (try_magic img scanbuf) (magic_offsets scan_size)) (\<lambda>r.
        case r of Some img \<Rightarrow> ret img | None \<Rightarrow> fail EINVAL)))))"

definition empty_superblock :: nextufs_superblock where
  "empty_superblock = decode_superblock (\<lambda>_. 0)"

definition attach_backend :: "nat \<Rightarrow> host \<Rightarrow> u8 list \<Rightarrow> bool \<Rightarrow> nextufs_image fs" where
  "attach_backend fuel h path wr = (\<lambda>(b, s). case init_backend fuel h path s of
     (Inl e, t) \<Rightarrow> (Inl e, (NoBackend, t))
   | (Inr a, t) \<Rightarrow> (Inr \<lparr>writable = wr, source_is_container = at_container a,
       image_size = at_image_size a, slice_base = 0, slice_size = 0, label_off = 0,
       label_version = 0, label_secsize = 0, label_front = 0, label_name = [], rootpartition = 0,
       used_disk_label = False, sb = empty_superblock\<rparr>, (at_backend a, t)))"

definition image_close :: "unit fs" where
  "image_close = (\<lambda>(b, s). (Inr (), (NoBackend, s)))"

definition open_with_mode :: "nat \<Rightarrow> host \<Rightarrow> u8 list \<Rightarrow> bool \<Rightarrow> nextufs_image fs" where
  "open_with_mode fuel h path wr =
     andthen (attach_backend fuel h path wr) (\<lambda>img.
     on_error (locate_file_system img) image_close)"

datatype open_mode = OpenReadOnly | OpenReadWrite

definition image_open_source :: "nat \<Rightarrow> host \<Rightarrow> u8 list \<Rightarrow> open_mode \<Rightarrow> nextufs_image fs" where
  "image_open_source fuel h path md = open_with_mode fuel h path (md = OpenReadWrite)"

end
