(* ===== verification/Sizes.thy ===== *)
theory Sizes
  imports Prelude "HOL-Library.Char_ord"
begin

text \<open>
  Parsing sizes on the command line (\<open>src/src/core/size.c\<close>). The standard library's \<open>strtoull\<close> in
  base 10 is modelled as C defines it: leading white space, an optional sign, digits; a minus sign
  negates the value in \<open>unsigned long long\<close>, a value that does not fit is a range error.
\<close>

definition is_space :: "u8 \<Rightarrow> bool" where
  "is_space c \<longleftrightarrow> c = 0x20 \<or> 9 \<le> c \<and> c \<le> 13"

definition is_digit :: "u8 \<Rightarrow> bool" where
  "is_digit c \<longleftrightarrow> 0x30 \<le> c \<and> c \<le> 0x39"

definition digits_value :: "u8 list \<Rightarrow> nat" where
  "digits_value ds = foldl (\<lambda>v d. v * 10 + (unat d - 0x30)) 0 ds"

text \<open>\<open>None\<close> when there are no digits or the value is out of range, else value and rest.\<close>

definition strtoull10 :: "u8 list \<Rightarrow> (u64 \<times> u8 list) option" where
  "strtoull10 s =
     (let s = dropWhile is_space s;
          neg = (s \<noteq> [] \<and> hd s = 0x2d);
          s = (if s \<noteq> [] \<and> (hd s = 0x2d \<or> hd s = 0x2b) then tl s else s);
          ds = takeWhile is_digit s; v = digits_value ds in
      if ds = [] \<or> 2 ^ 64 \<le> v then None
      else Some (if neg then - of_nat v else of_nat v, dropWhile is_digit s))"

definition parse_u64 :: "u8 list \<Rightarrow> u64 option" where
  "parse_u64 s = (case strtoull10 s of Some (v, []) \<Rightarrow> Some v | _ \<Rightarrow> None)"

datatype bare_size_unit = BareSizeBytes | BareSize1kSectors

definition KIB_BYTES :: u64 where "KIB_BYTES = 1024"

definition suffix_multiplier :: "u8 \<Rightarrow> u64 option" where
  "suffix_multiplier c =
     (if c = of_char CHR ''k'' \<or> c = of_char CHR ''K'' then Some KIB_BYTES
      else if c = of_char CHR ''m'' \<or> c = of_char CHR ''M'' then Some (KIB_BYTES * KIB_BYTES)
      else if c = of_char CHR ''g'' \<or> c = of_char CHR ''G'' then Some (KIB_BYTES * KIB_BYTES * KIB_BYTES)
      else None)"

definition unit_multiplier :: "bare_size_unit \<Rightarrow> u8 list \<Rightarrow> u64 option" where
  "unit_multiplier bare_unit rest =
     (case rest of
        [] \<Rightarrow> Some (if bare_unit = BareSize1kSectors then KIB_BYTES else 1)
      | [c] \<Rightarrow> suffix_multiplier c
      | _ \<Rightarrow> None)"

definition parse_size_bytes :: "u8 list \<Rightarrow> bare_size_unit \<Rightarrow> u64 option" where
  "parse_size_bytes s bare_unit =
     (case strtoull10 s of None \<Rightarrow> None
      | Some (v, rest) \<Rightarrow>
        (case unit_multiplier bare_unit rest of None \<Rightarrow> None
         | Some mult \<Rightarrow> if v = 0 \<or> - 1 div mult < v then None else Some (v * mult)))"

text \<open>A size that is accepted is the value times its unit, without wrap-around, and not 0.\<close>

lemma unit_multiplier_pos: "unit_multiplier u rest = Some m \<Longrightarrow> m \<noteq> 0"
  by (auto simp: unit_multiplier_def suffix_multiplier_def KIB_BYTES_def
      split: if_splits list.splits)

lemma mult_no_wrap: "(m :: u64) \<noteq> 0 \<Longrightarrow> v \<le> - 1 div m \<Longrightarrow> unat (v * m) = unat v * unat m"
proof -
  assume m: "m \<noteq> 0" and "v \<le> - 1 div m"
  moreover have "unat (- 1 :: u64) = 2 ^ 64 - 1" by (simp add: unsigned_minus_1_eq_mask mask_eq_exp_minus_1)
  ultimately have "unat v \<le> (2 ^ 64 - 1) div unat m"
    by (simp add: word_le_nat_alt unat_div)
  then have "unat v * unat m \<le> 2 ^ 64 - 1"
    using m by (simp add: less_eq_div_iff_mult_less_eq unat_gt_0)
  then show ?thesis by (simp add: unat_word_ariths)
qed

lemma parse_size_bytes_Some:
  assumes "parse_size_bytes s u = Some n"
  shows "\<exists>v rest m. strtoull10 s = Some (v, rest) \<and> unit_multiplier u rest = Some m \<and>
    unat n = unat v * unat m \<and> 0 < unat n"
proof -
  from assms obtain v rest m where st: "strtoull10 s = Some (v, rest)" and v: "v \<noteq> 0"
    and le: "v \<le> - 1 div m" and n: "n = v * m" and m: "unit_multiplier u rest = Some m"
    by (auto simp: parse_size_bytes_def not_less split: option.splits if_splits)
  with mult_no_wrap [OF unit_multiplier_pos [OF m] le] unit_multiplier_pos [OF m] st m
  show ?thesis by (auto simp: unat_gt_0)
qed

end
