(* ===== verification/LabelClaims.thy ===== *)
theory LabelClaims
  imports OpenImage Sizes Tiny Quiet
begin

text \<open>
  Disk labels written, read back and patched, the opening of an image, and sizes on the command
  line.
\<close>

section \<open>Buffers\<close>

lemma put_string_out: "i < p \<or> p + len \<le> i \<Longrightarrow> put_string b p len s i = b i"
  by (auto simp: put_string_def Let_def)

lemma put_string_in: "length s < len \<Longrightarrow> p \<le> i \<Longrightarrow> i < p + length s \<Longrightarrow> put_string b p len s i = s ! (i - p)"
  by (auto simp: put_string_def Let_def bytes_of_def)

lemma put_string_behind: "length s < len \<Longrightarrow> p + length s \<le> i \<Longrightarrow> put_string b p len s i = b i"
  by (auto simp: put_string_def Let_def)

lemma fill_in: "p \<le> i \<Longrightarrow> i < p + n \<Longrightarrow> fill b p n v i = v"
  and fill_out: "i < p \<or> p + n \<le> i \<Longrightarrow> fill b p n v i = b i"
  by (auto simp: fill_def)

lemma write_be24_other: "i < p \<or> p + 3 \<le> i \<Longrightarrow> write_be24 b p v i = b i"
  by (auto simp: write_be24_def)

lemma read_write_be24: "v \<le> 0xffffff \<Longrightarrow> read_be24 (write_be24 b p v) p = v"
proof (rule bit_word_eqI)
  fix n assume v: "v \<le> 0xffffff" and n: "n < LENGTH(32)"
  have u: "unat v < 2 ^ 24" using v by (simp add: word_le_nat_alt)
  have "\<not> bit v n" if "24 \<le> n"
  proof -
    have "(2 :: nat) ^ 24 \<le> 2 ^ n" using that by (rule power_increasing) simp
    with u have "unat v div 2 ^ n = 0" by simp
    then have "\<not> bit (unat v) n" by (simp add: bit_iff_odd)
    with n show ?thesis by (simp add: bit_unsigned_iff)
  qed
  then show "bit (read_be24 (write_be24 b p v) p) n \<longleftrightarrow> bit v n"
    unfolding read_be24_def write_be24_def
    by (cases "n < 8"; cases "n < 16"; cases "n < 24") (auto simp: bit_simps)
qed

lemmas label_offs = DL_DISKTAB_OFF_def DT_SECSIZE_OFF_def DT_FRONT_OFF_def DT_ROOTPART_OFF_def DT_PARTITIONS_OFF_def
  DT_PARTITION_SIZE_def PART_SIZE_OFF_def PART_BSIZE_OFF_def PART_FSIZE_OFF_def PART_TYPE_OFF_def part_off_def
  LABEL_PART_COUNT_def LABEL_FRONT_PORCH_BYTES_def LABEL_SECTOR_SIZE_def DL_V3_CKSUM_OFF_def

lemmas cell_bytes = write_be32_other write_be16_other write_be24_other put_string_out fill_in fill_out

section \<open>The fields of a new label\<close>

lemma body_bytes:
  fixes off tb sl nc nm
  defines "b \<equiv> label_body off tb sl nc nm"
  shows "read_be32 b 0 = DL_V3" "read_be16 b 94 = 1024" "read_be16 b 112 = 160" "b 188 = 0x61"
  unfolding b_def
  by (simp_all add: label_body_def Let_def label_offs read_be32_def read_be16_def cell_bytes)
     (simp_all add: write_be32_def write_be16_def DL_V3_def)

lemma body_root_partition:
  fixes off tb sl nc nm
  defines "b \<equiv> label_body off tb sl nc nm"
  assumes "sl \<le> 0xffffff"
  shows "read_be24 b 192 = 0" "read_be24 b 195 = sl" "read_be16 b 198 = 8192" "read_be16 b 200 = 1024"
    "list_of b 227 8 = ascii ''4.3BSD'' @ [0, 0]"
proof -
  have raw: "b 192 = 0" "b 193 = 0" "b 194 = 0" "b 198 = 0x20" "b 199 = 0" "b 200 = 4" "b 201 = 0"
    unfolding b_def
    by (simp_all add: label_body_def Let_def label_offs cell_bytes) (simp_all add: write_be24_def write_be16_def)
  have sz: "b 195 = ucast (drop_bit 16 sl)" "b 196 = ucast (drop_bit 8 sl)" "b 197 = ucast sl"
    unfolding b_def
    by (simp_all add: label_body_def Let_def label_offs cell_bytes) (simp_all add: write_be24_def)
  have "read_be24 b 195 = read_be24 (write_be24 (\<lambda>_. 0) 195 sl) 195"
    using sz by (simp add: read_be24_def write_be24_def)
  then show "read_be24 b 195 = sl" using read_write_be24 [OF assms(2)] by simp
  show "read_be24 b 192 = 0" "read_be16 b 198 = 8192" "read_be16 b 200 = 1024"
    using raw by (simp_all add: read_be24_def read_be16_def)
  show "list_of b 227 8 = ascii ''4.3BSD'' @ [0, 0]"
    unfolding b_def
    by (simp add: list_of_def upt_rec label_body_def Let_def label_offs put_string_in put_string_behind ascii_def cell_bytes)
qed

lemma body_unused_bytes:
  "list_all (\<lambda>i. label_body off tb sl nc nm (192 + 64 * i) = 0xff \<and> label_body off tb sl nc nm (193 + 64 * i) = 0xff \<and>
     label_body off tb sl nc nm (194 + 64 * i) = 0xff) [1, 2, 3, 4, 5, 6, 7]"
  by (simp add: label_body_def Let_def label_offs cell_bytes)

lemma body_other_partitions:
  assumes "0 < i" "i < 8"
  shows "read_be24 (label_body off tb sl nc nm) (part_off i) = 0xffffff"
proof -
  have "i \<in> set [1, 2, 3, 4, 5, 6, 7]" using assms by auto
  with body_unused_bytes [of off tb sl nc nm] show ?thesis
    unfolding list_all_iff read_be24_def label_offs by (auto simp: mult.commute)
qed

section \<open>The checksum\<close>

lemma checksum_be16_cong: "(\<And>i. i < n \<Longrightarrow> b i = c i) \<Longrightarrow> checksum_be16 b n = checksum_be16 c n"
  unfolding checksum_be16_def
  by (intro arg_cong [of _ _ ucast] foldl_cong refl) (auto simp: read_be16_def Let_def)

text \<open>The bytes under the checksum do not include the checksum.\<close>

lemma cksum_bytes_seal: "cksum_bytes (write_be16 b DL_V3_CKSUM_OFF v) = cksum_bytes b"
  by (auto simp: cksum_bytes_def fill_def blit_def clip_def write_be16_def DL_V3_CKSUM_OFF_def fun_eq_iff)

lemma cksum_bytes_blkno: "cksum_bytes (write_be32 b 4 v) = cksum_bytes b"
  by (auto simp: cksum_bytes_def fill_def blit_def clip_def write_be32_def DL_V3_CKSUM_OFF_def fun_eq_iff)

lemma cksum_bytes_cong: "(\<And>i. i < LABEL_CKSUM_SIZE \<Longrightarrow> b i = c i) \<Longrightarrow> cksum_bytes b = cksum_bytes c"
  using clip_cong [of LABEL_CKSUM_SIZE b c] by (simp add: cksum_bytes_def)

lemma new_label_checksum:
  fixes off tb sl nc nm
  defines "c \<equiv> label_copy_bytes off tb sl nc nm"
  shows "checksum_be16 (cksum_bytes c) LABEL_CKSUM_SIZE = read_be16 c DL_V3_CKSUM_OFF"
proof -
  let ?b = "fill (fill (label_body off tb sl nc nm) 4 4 0) DL_V3_CKSUM_OFF 2 0"
  have "cksum_bytes c = cksum_bytes ?b"
    by (simp add: c_def label_copy_bytes_def Let_def cksum_bytes_seal cksum_bytes_blkno)
  moreover have "checksum_be16 (cksum_bytes ?b) LABEL_CKSUM_SIZE = checksum_be16 ?b LABEL_CKSUM_SIZE"
    by (rule checksum_be16_cong) (auto simp: cksum_bytes_def fill_def blit_def)
  moreover have "read_be16 c DL_V3_CKSUM_OFF = checksum_be16 ?b LABEL_CKSUM_SIZE"
    by (simp add: c_def label_copy_bytes_def Let_def DL_V3_CKSUM_OFF_def cell_simps)
  ultimately show ?thesis by simp
qed

lemma copy_bytes:
  assumes "i < 4 \<or> 8 \<le> i" "i \<noteq> 558" "i \<noteq> 559"
  shows "label_copy_bytes off tb sl nc nm i = label_body off tb sl nc nm i"
  using assms by (auto simp: label_copy_bytes_def Let_def write_be32_def write_be16_def fill_def blit_def DL_V3_CKSUM_OFF_def)

section \<open>A label that was written is found again\<close>

lemma be24_bytes: "ucast (drop_bit 16 (read_be24 b p)) = b p"
  by (rule bit_word_eqI) (auto simp: read_be24_def bit_simps dest: bit_imp_le_length)

lemma sint_blocks: "sint (ucast (n :: u32) * 1024 :: u64) = uint n * 1024"
proof -
  have n: "uint n < 2 ^ 32" using unsigned_less [of n] by simp
  then have "uint (ucast n * 1024 :: u64) = uint n * 1024"
    by (simp add: uint_word_ariths unsigned_ucast_eq take_bit_int_eq_self)
  moreover have "0 \<le> uint n" by simp
  then have "- 9223372036854775808 \<le> uint n * 1024 \<and> uint n * 1024 < 9223372036854775808"
    using n [simplified] by linarith
  ultimately show ?thesis using signed_take_bit_int_eq_self [of 63 "uint n * 1024"] by (auto simp: sint_uint)
qed

lemma new_label_decodes:
  assumes "\<forall>i<LABEL_WRITE_SIZE. b i = label_copy_bytes off total_blocks slice_blocks nc label i"
    and "LABEL_DECODE_SIZE \<le> sz" "0 \<le> off" "off mod 512 = 0" "off div 512 < 2 ^ 32"
    and "slice_blocks \<noteq> 0" "slice_blocks < 0xffffff"
  shows "\<exists>dl. label_decode b sz off = Some dl \<and> dl_version dl = DL_V3 \<and> checksum_valid dl \<and>
    label_pick_slice dl = Some (int LABEL_FRONT_PORCH_BYTES, int (unat slice_blocks) * 1024)"
proof -
  let ?c = "label_copy_bytes off total_blocks slice_blocks nc label"
  let ?l = "label_body off total_blocks slice_blocks nc label"
  have bc: "b i = ?c i" if "i < 768" for i using assms(1) that by (simp add: LABEL_WRITE_SIZE_def)
  have bl: "b i = ?l i" if "i < 768" "i < 4 \<or> 8 \<le> i" "i \<noteq> 558" "i \<noteq> 559" for i
    using bc copy_bytes that by simp
  have w32: "read_be32 b p = read_be32 ?l p" if "p + 4 \<le> 4 \<or> 8 \<le> p \<and> p + 4 \<le> 558" for p
    by (rule read_be32_cong) (use that bl in auto)
  have w16: "read_be16 b p = read_be16 ?l p" if "p + 2 \<le> 4 \<or> 8 \<le> p \<and> p + 2 \<le> 558" for p
    by (rule read_be16_cong) (use that bl in auto)
  have le: "slice_blocks \<le> 0xffffff" using assms(7) by simp
  have v: "read_be32 b 0 = DL_V3" using w32 [of 0] body_bytes(1) by simp
  have "read_be32 b 4 = read_be32 ?c 4" by (rule read_be32_cong) (use bc in auto)
  then have blk: "read_be32 b 4 = word_of_int (off div 512)"
    by (simp add: label_copy_bytes_def Let_def cell_simps)
  have "cksum_bytes b = cksum_bytes ?c" by (rule cksum_bytes_cong) (use bc in \<open>simp add: LABEL_CKSUM_SIZE_def\<close>)
  moreover have "read_be16 b DL_V3_CKSUM_OFF = read_be16 ?c DL_V3_CKSUM_OFF"
    by (rule read_be16_cong) (use bc in \<open>simp add: DL_V3_CKSUM_OFF_def\<close>)
  ultimately have ck: "checksum_be16 (cksum_bytes b) LABEL_CKSUM_SIZE = read_be16 b DL_V3_CKSUM_OFF"
    using new_label_checksum by simp
  have p0: "part_present (decode_partition b 192) \<and> base_blocks (decode_partition b 192) = 0 \<and>
      size_blocks (decode_partition b 192) = slice_blocks"
  proof -
    have "b i = ?l i" if "192 \<le> i" "i < 256" for i using bl that by simp
    then have eq: "read_be24 b 192 = read_be24 ?l 192" "read_be24 b 195 = read_be24 ?l 195" "list_of b 227 8 = list_of ?l 227 8"
      by (auto simp: read_be24_def intro!: list_of_cong)
    have f: "read_be16 b 198 = 8192" "read_be16 b 200 = 1024"
      using w16 [of 198] w16 [of 200] body_root_partition(3,4) [OF le] by simp_all
    have "b 192 = 0" using eq(1) body_root_partition(1) [OF le] be24_bytes(1) [of b 192] by simp
    have "b 198 \<noteq> 0 \<or> b 199 \<noteq> 0" using f(1) by (auto simp: read_be16_def)
    then have "\<exists>n<64. b (192 + n) \<noteq> 0" by (auto intro: exI [of _ "6 :: nat"] exI [of _ "7 :: nat"])
    moreover from \<open>b 192 = 0\<close> have "\<exists>n<64. b (192 + n) \<noteq> 0xff" by (intro exI [of _ "0 :: nat"]) simp
    ultimately have raw: "\<not> list_all (\<lambda>c. c = 0) (list_of b 192 64)" "\<not> list_all (\<lambda>c. c = 0xff) (list_of b 192 64)"
      by (auto simp: list_all_length)
    have "copy_cstr_field 9 b 227 8 = ascii ''4.3BSD''"
      using eq(3) body_root_partition(5) [OF le] by (simp add: copy_cstr_field_def ascii_def)
    with raw f eq(1,2) body_root_partition(1,2) [OF le] assms(6,7) show ?thesis
      by (simp add: decode_partition_def Let_def label_offs ascii_def)
  qed
  have pi: "\<not> part_present (decode_partition b (part_off i))" if "0 < i" "i < 8" for i
  proof -
    have "read_be24 b (part_off i) = read_be24 ?l (part_off i)"
    proof -
      have k: "b (192 + i * 64 + k) = ?l (192 + i * 64 + k)" if "k < 3" for k
        by (rule bl) (use \<open>i < 8\<close> that in presburger)+
      from k [of 0] k [of 1] k [of 2] show ?thesis by (simp add: read_be24_def label_offs)
    qed
    with body_other_partitions [OF that] show ?thesis by (simp add: decode_partition_def Let_def)
  qed
  define dl where "dl = \<lparr>dl_off = off, dl_version = DL_V3, dl_blkno = read_be32 b 4, dl_secsize = 1024,
     dl_front = 160, dl_name = copy_cstr_field 25 b 0x0c 24, dl_rootpartition = 0x61,
     dl_part = map (\<lambda>i. decode_partition b (part_off i)) [0..<8],
     dl_checksum = read_be16 b DL_V3_CKSUM_OFF, checksum_valid = True,
     checksum_present = read_be16 b DL_V3_CKSUM_OFF \<noteq> 0\<rparr>"
  have "ucast (read_be32 b 4) * 512 = (word_of_int off :: u64)"
  proof -
    have "uint (ucast (read_be32 b 4) :: u64) = off div 512"
      using assms(3,5) by (simp add: blk unsigned_ucast_eq uint_word_of_int take_bit_int_eq_self pos_imp_zdiv_nonneg_iff)
    then have "(ucast (read_be32 b 4) :: u64) = word_of_int (off div 512)" by (metis word_of_int_uint)
    then have "ucast (read_be32 b 4) * (512 :: u64) = word_of_int (off div 512 * 512)" by simp
    also have "off div 512 * 512 = off" using assms(4) by (metis add.right_neutral div_mult_mod_eq)
    finally show ?thesis .
  qed
  then have dec: "label_decode b sz off = Some dl"
    using assms(2) v w16 [of 94] w16 [of 112] body_bytes(2,3) bl [of 188] body_bytes(4) ck
    by (simp add: label_decode_def Let_def label_offs DEV_SECTOR_SIZE_def label_is_version_def dl_def)
  have "label_pick_slice dl = Some (slice_of_partition dl (decode_partition b 192))"
    using p0 assms(6) by (simp add: label_pick_slice_def Let_def dl_def label_offs)
  moreover have "slice_of_partition dl (decode_partition b 192) = (163840, int (unat slice_blocks) * 1024)"
    using p0 by (simp add: slice_of_partition_def dl_def sint_blocks)
  ultimately show ?thesis using dec by (simp add: dl_def LABEL_FRONT_PORCH_BYTES_def)
qed

text \<open>C28. A label as \<open>nextufs_label_write_path\<close> writes it (the first 768 bytes of a copy) is accepted
  by \<open>nextufs_label_decode\<close> at its place, checksum and block number included, and
  \<open>nextufs_label_pick_slice\<close> finds in it exactly one slice: the one behind the front porch of
  160 KB, of the size that was written.\<close>

theorem written_label_found:
  assumes "\<forall>i<LABEL_WRITE_SIZE. b i = label_copy_bytes off total_blocks slice_blocks nc label i"
    and "LABEL_DECODE_SIZE \<le> sz" "0 \<le> off" "off mod 512 = 0" "off div 512 < 2 ^ 32"
    and "slice_blocks \<noteq> 0" "slice_blocks < 0xffffff"
  shows "\<exists>dl. label_decode b sz off = Some dl \<and> checksum_valid dl \<and>
    label_pick_slice dl = Some (int LABEL_FRONT_PORCH_BYTES, int (unat slice_blocks) * 1024)"
  using new_label_decodes [OF assms] by blast

theorem written_label_found_witness:
  "\<exists>dl. label_decode (label_copy_bytes 7680 2000 1800 15 [0x78]) LABEL_DECODE_SIZE 7680 = Some dl \<and>
     label_pick_slice dl = Some (163840, 1800 * 1024)"
proof -
  have "\<exists>dl. label_decode (label_copy_bytes 7680 2000 1800 15 [0x78]) LABEL_DECODE_SIZE 7680 = Some dl \<and>
    checksum_valid dl \<and>
    label_pick_slice dl = Some (int LABEL_FRONT_PORCH_BYTES, int (unat (1800 :: u32)) * 1024)"
    by (rule written_label_found [where total_blocks = 2000 and nc = 15 and label = "[0x78]"]) simp_all
  then show ?thesis by (simp add: LABEL_FRONT_PORCH_BYTES_def) blast
qed

text \<open>The tests for a record of all zeros or all ones add nothing to those of its fields.\<close>

lemma decode_partition_fields:
  "decode_partition b p = (let base = read_be24 b p; sz = read_be24 b (p + PART_SIZE_OFF);
     bsize = read_be16 b (p + PART_BSIZE_OFF); fsz = read_be16 b (p + PART_FSIZE_OFF);
     type = copy_cstr_field 9 b (p + PART_TYPE_OFF) 8
   in \<lparr>part_present = base \<noteq> 0xffffff \<and> sz \<noteq> 0 \<and> sz \<noteq> 0xffffff \<and> bsize \<noteq> 0 \<and> bsize \<noteq> 0xffff \<and>
         fsz \<noteq> 0 \<and> fsz \<noteq> 0xffff \<and> fsz \<le> bsize \<and> type \<noteq> [],
       base_blocks = base, size_blocks = sz, part_block_size = bsize, part_frag_size = fsz, part_type = type\<rparr>)"
proof -
  have z: "read_be24 b (p + PART_SIZE_OFF) = 0" if "list_all (\<lambda>c. c = 0) (list_of b p DT_PARTITION_SIZE)"
  proof -
    from that have "b (p + i) = 0" if "i < 64" for i
      using that by (simp add: list_all_length DT_PARTITION_SIZE_def)
    from this [of 3] this [of 4] this [of 5] show ?thesis by (simp add: read_be24_def PART_SIZE_OFF_def add.commute)
  qed
  have f: "read_be24 b p = 0xffffff" if "list_all (\<lambda>c. c = 0xff) (list_of b p DT_PARTITION_SIZE)"
  proof -
    from that have "b (p + i) = 0xff" if "i < 64" for i
      using that by (simp add: list_all_length DT_PARTITION_SIZE_def)
    from this [of 0] this [of 1] this [of 2] show ?thesis by (simp add: read_be24_def)
  qed
  show ?thesis unfolding decode_partition_def Let_def using z f by auto
qed

lemma decode_partition_cong:
  "(\<And>k. k < 43 \<Longrightarrow> b (p + k) = c (p + k)) \<Longrightarrow> decode_partition b p = decode_partition c p"
proof -
  assume k: "\<And>k. k < 43 \<Longrightarrow> b (p + k) = c (p + k)"
  have "list_of b (p + 35) 8 = list_of c (p + 35) 8"
    by (rule list_of_cong) (use k [of "35 + _"] in \<open>simp add: add.assoc\<close>)
  moreover have "read_be24 b p = read_be24 c p" "read_be24 b (p + 3) = read_be24 c (p + 3)"
    "read_be16 b (p + 6) = read_be16 c (p + 6)" "read_be16 b (p + 8) = read_be16 c (p + 8)"
    using k [of 0] k [of 1] k [of 2] k [of 3] k [of 4] k [of 5] k [of 6] k [of 7] k [of 8] k [of 9]
    by (simp_all add: read_be24_def read_be16_def add.commute)
  ultimately show ?thesis
    by (simp add: decode_partition_fields copy_cstr_field_def label_offs Let_def)
qed

lemma patched_v3:
  assumes "read_be32 b 0 = DL_V3"
  defines "w i s \<equiv> write_be24 b (part_off i + 3) s"
  shows "patched_label b (part_off i) s = write_be16 (w i s) DL_V3_CKSUM_OFF (checksum_be16 (cksum_bytes (w i s)) LABEL_CKSUM_SIZE)"
proof -
  have "read_be32 (w i s) 0 = read_be32 b 0" by (rule read_be32_cong) (simp add: w_def write_be24_def label_offs)
  then show ?thesis using assms(1) by (simp add: w_def patched_label_def Let_def PART_SIZE_OFF_def)
qed

lemma patched_same:
  assumes "read_be32 b 0 = DL_V3" "k < 195 + i * 64 \<or> 198 + i * 64 \<le> k" "k \<noteq> 558" "k \<noteq> 559"
  shows "patched_label b (part_off i) s k = b k"
  unfolding patched_v3 [OF assms(1)] using assms(2-4)
  by (auto simp: write_be16_def write_be24_def label_offs DL_V3_CKSUM_OFF_def)

lemma patched_checksum:
  assumes "read_be32 b 0 = DL_V3"
  shows "checksum_be16 (cksum_bytes (patched_label b (part_off i) s)) LABEL_CKSUM_SIZE =
    read_be16 (patched_label b (part_off i) s) DL_V3_CKSUM_OFF"
  unfolding patched_v3 [OF assms] by (simp add: cksum_bytes_seal cell_simps)

lemma patched_size:
  assumes "read_be32 b 0 = DL_V3" "s \<le> 0xffffff"
  shows "read_be24 (patched_label b (part_off i) s) (part_off i + 3) = s"
proof -
  let ?w = "write_be24 b (part_off i + 3) s"
  have "patched_label b (part_off i) s (part_off i + 3 + k) = ?w (part_off i + 3 + k)" if "k < 3" for k
  proof -
    have "part_off i + 3 + k \<noteq> 558" "part_off i + 3 + k \<noteq> 559"
      using that unfolding label_offs by presburger+
    then show ?thesis by (simp add: patched_v3 [OF assms(1)] write_be16_def DL_V3_CKSUM_OFF_def)
  qed
  from this [of 0] this [of 1] this [of 2] show ?thesis
    using read_write_be24 [OF assms(2), of b "part_off i + 3"] by (simp add: read_be24_def)
qed

lemma patched_other_partition:
  assumes "read_be32 b 0 = DL_V3" "j < 8" "j \<noteq> i"
  shows "decode_partition (patched_label b (part_off i) s) (part_off j) = decode_partition b (part_off j)"
proof (rule decode_partition_cong, rule patched_same [OF assms(1)])
  fix k :: nat assume k: "k < 43"
  have j: "part_off j = 192 + j * 64" by (simp add: label_offs)
  have "j \<le> i - 1 \<and> 0 < i \<or> i + 1 \<le> j" using assms(3) by linarith
  with k show "part_off j + k < 195 + i * 64 \<or> 198 + i * 64 \<le> part_off j + k" unfolding j by linarith
  have "j \<le> 4 \<or> j = 5 \<or> 6 \<le> j" by linarith
  with k show "part_off j + k \<noteq> 558" "part_off j + k \<noteq> 559" unfolding j by linarith+
qed

lemma patched_partition:
  assumes v: "read_be32 b 0 = DL_V3" and s: "s \<le> 0xffffff" and i: "i < 8"
  defines "p \<equiv> decode_partition (patched_label b (part_off i) s) (part_off i)"
    and "q \<equiv> decode_partition b (part_off i)"
  shows "p = q\<lparr>size_blocks := s, part_present := part_present p\<rparr>"
    "part_present q \<Longrightarrow> part_present p \<longleftrightarrow> s \<noteq> 0 \<and> s \<noteq> 0xffffff"
proof -
  let ?b2 = "patched_label b (part_off i) s"
  have rest: "?b2 (part_off i + k) = b (part_off i + k)" if "k < 43" "k < 3 \<or> 6 \<le> k" for k
    using that i by (intro patched_same [OF v]) (unfold label_offs, presburger+)
  have "read_be24 ?b2 (part_off i) = read_be24 b (part_off i)"
    using rest [of 0] rest [of 1] rest [of 2] by (simp add: read_be24_def)
  moreover have "read_be16 ?b2 (part_off i + 6) = read_be16 b (part_off i + 6)"
    "read_be16 ?b2 (part_off i + 8) = read_be16 b (part_off i + 8)"
    using rest [of 6] rest [of 7] rest [of 8] rest [of 9] by (simp_all add: read_be16_def add.commute)
  moreover have "list_of ?b2 (part_off i + 35) 8 = list_of b (part_off i + 35) 8"
    by (rule list_of_cong) (use rest [of "35 + _"] in \<open>simp add: add.assoc\<close>)
  then have "copy_cstr_field 9 ?b2 (part_off i + 35) 8 = copy_cstr_field 9 b (part_off i + 35) 8"
    by (simp add: copy_cstr_field_def)
  moreover note patched_size [OF v s, of i]
  ultimately show "p = q\<lparr>size_blocks := s, part_present := part_present p\<rparr>"
    "part_present q \<Longrightarrow> part_present p \<longleftrightarrow> s \<noteq> 0 \<and> s \<noteq> 0xffffff"
    by (simp_all add: p_def q_def decode_partition_fields Let_def PART_SIZE_OFF_def PART_BSIZE_OFF_def
        PART_FSIZE_OFF_def PART_TYPE_OFF_def)
qed

lemma patched_head:
  assumes "read_be32 b 0 = DL_V3"
  defines "b2 i s \<equiv> patched_label b (part_off i) s"
  shows "read_be32 (b2 i s) 0 = read_be32 b 0" "read_be32 (b2 i s) 4 = read_be32 b 4"
    "read_be16 (b2 i s) 94 = read_be16 b 94" "read_be16 (b2 i s) 112 = read_be16 b 112" "b2 i s 188 = b 188"
    "copy_cstr_field 25 (b2 i s) 12 24 = copy_cstr_field 25 b 12 24"
proof -
  have low: "b2 i s k = b k" if "k < 192" for k using that by (simp add: b2_def patched_same [OF assms(1)])
  show "read_be32 (b2 i s) 0 = read_be32 b 0" "read_be32 (b2 i s) 4 = read_be32 b 4"
    "read_be16 (b2 i s) 94 = read_be16 b 94" "read_be16 (b2 i s) 112 = read_be16 b 112" "b2 i s 188 = b 188"
    "copy_cstr_field 25 (b2 i s) 12 24 = copy_cstr_field 25 b 12 24"
    using list_of_cong [of 24 "b2 i s" 12 b 12] low
    by (auto intro!: read_be32_cong read_be16_cong simp: copy_cstr_field_def)
qed

text \<open>C29. Patching the size of a partition in a version 3 label, as \<open>patch_one_label_partition_size\<close>
  does, gives a label that is accepted again, with a valid checksum. The partition has the new size and else
  what it had (it is present if it was, for a size that is neither 0 nor all ones), no other field of the
  label but the checksum changes, and no other byte but those of the size and of the checksum.\<close>

theorem patched_label_resized:
  assumes "label_decode b sz off = Some dl" "dl_version dl = DL_V3" "i < 8" "new_size \<le> 0xffffff"
  shows "\<exists>p c present. label_decode (patched_label b (part_off i) new_size) sz off =
      Some (dl\<lparr>dl_part := (dl_part dl)[i := p], dl_checksum := c, checksum_valid := True, checksum_present := c \<noteq> 0\<rparr>) \<and>
    p = (dl_part dl ! i)\<lparr>size_blocks := new_size, part_present := present\<rparr> \<and>
    (part_present (dl_part dl ! i) \<longrightarrow> present = (new_size \<noteq> 0 \<and> new_size \<noteq> 0xffffff)) \<and>
    (\<forall>k. k \<notin> {part_off i + 3..<part_off i + 6} \<union> {DL_V3_CKSUM_OFF, DL_V3_CKSUM_OFF + 1} \<longrightarrow>
      patched_label b (part_off i) new_size k = b k)"
proof -
  let ?b2 = "patched_label b (part_off i) new_size"
  let ?p = "decode_partition ?b2 (part_off i)"
  have v: "read_be32 b 0 = DL_V3"
    using assms(1,2) by (auto simp: label_decode_def Let_def split: if_splits)
  have dl: "dl_part dl = map (\<lambda>i. decode_partition b (part_off i)) [0..<8]"
    using assms(1) by (auto simp: label_decode_def Let_def LABEL_PART_COUNT_def split: if_splits)
  have parts: "map (\<lambda>i. decode_partition ?b2 (part_off i)) [0..<8] = (dl_part dl)[i := ?p]"
    using patched_other_partition [OF v] assms(3) by (intro nth_equalityI) (auto simp: dl nth_list_update)
  have "label_decode ?b2 sz off = Some (dl\<lparr>dl_part := (dl_part dl)[i := ?p], dl_checksum := read_be16 ?b2 DL_V3_CKSUM_OFF,
      checksum_valid := True, checksum_present := read_be16 ?b2 DL_V3_CKSUM_OFF \<noteq> 0\<rparr>)"
    using assms(1) v patched_head [OF v] patched_checksum [OF v] unfolding parts [symmetric]
    by (auto simp: label_decode_def Let_def label_offs [unfolded part_off_def] LABEL_PART_COUNT_def split: if_splits)
  moreover have "?p = (dl_part dl ! i)\<lparr>size_blocks := new_size, part_present := part_present ?p\<rparr>"
    "part_present (dl_part dl ! i) \<longrightarrow> part_present ?p = (new_size \<noteq> 0 \<and> new_size \<noteq> 0xffffff)"
    using patched_partition [OF v assms(4,3)] assms(3) by (simp_all add: dl)
  moreover have "?b2 k = b k" if "k \<notin> {part_off i + 3..<part_off i + 6} \<union> {DL_V3_CKSUM_OFF, DL_V3_CKSUM_OFF + 1}" for k
    using that by (intro patched_same [OF v]) (auto simp: label_offs DL_V3_CKSUM_OFF_def)
  ultimately show ?thesis by blast
qed

theorem patched_label_resized_witness:
  "\<exists>dl dl'. label_decode (label_copy_bytes 7680 2000 1800 15 [0x78]) LABEL_DECODE_SIZE 7680 = Some dl \<and>
     label_decode (patched_label (label_copy_bytes 7680 2000 1800 15 [0x78]) (part_off 0) 1900) LABEL_DECODE_SIZE 7680 = Some dl' \<and>
     size_blocks (dl_part dl' ! 0) = 1900 \<and> dl_part dl' ! 1 = dl_part dl ! 1"
proof -
  let ?b = "label_copy_bytes 7680 2000 1800 15 [0x78]"
  have "\<exists>dl. label_decode ?b LABEL_DECODE_SIZE 7680 = Some dl \<and> dl_version dl = DL_V3 \<and> checksum_valid dl \<and>
    label_pick_slice dl = Some (int LABEL_FRONT_PORCH_BYTES, int (unat (1800 :: u32)) * 1024)"
    by (rule new_label_decodes [where total_blocks = 2000 and nc = 15 and label = "[0x78]"]) simp_all
  then obtain dl where dl: "label_decode ?b LABEL_DECODE_SIZE 7680 = Some dl" "dl_version dl = DL_V3" by blast
  from patched_label_resized [OF dl, of 0 1900] obtain p c present where
    p: "label_decode (patched_label ?b (part_off 0) 1900) LABEL_DECODE_SIZE 7680 =
      Some (dl\<lparr>dl_part := (dl_part dl)[0 := p], dl_checksum := c, checksum_valid := True, checksum_present := c \<noteq> 0\<rparr>)"
    "p = (dl_part dl ! 0)\<lparr>size_blocks := 1900, part_present := present\<rparr>" by auto
  have "length (dl_part dl) = 8"
    using dl(1) by (auto simp: label_decode_def Let_def LABEL_PART_COUNT_def split: if_splits)
  with dl(1) p show ?thesis by auto
qed

text \<open>The label writer never stores the numbers of the boot blocks: it puts 32 and 96 at the
  offsets 0x56 and 0x5a of the disk table, and the name of the boot file, which starts at 0x58,
  overwrites them.\<close>

theorem boot_block_numbers_lost:
  "read_be32 (label_copy_bytes off total_blocks slice_blocks nc label) (DL_DISKTAB_OFF + 0x56) = 0x7364 \<and>
   read_be32 (label_copy_bytes off total_blocks slice_blocks nc label) (DL_DISKTAB_OFF + 0x5a) = 0x6d616368"
proof -
  let ?l = "label_body off total_blocks slice_blocks nc label"
  have "read_be32 (label_copy_bytes off total_blocks slice_blocks nc label) p = read_be32 ?l p" if "8 \<le> p" "p < 500" for p
    by (rule read_be32_cong) (use copy_bytes that in auto)
  moreover have "?l 130 = 0" "?l 131 = 0" "?l 132 = 0x73" "?l 133 = 0x64" "?l 134 = 0x6d" "?l 135 = 0x61" "?l 136 = 0x63" "?l 137 = 0x68"
    by (simp_all add: label_body_def Let_def label_offs ascii_def put_string_in put_string_behind cell_bytes)
      (simp_all add: write_be32_def)
  ultimately show ?thesis by (simp add: DL_DISKTAB_OFF_def) (simp add: read_be32_def)
qed

section \<open>Opening an image\<close>

lemma quiet_try_superblock [quiets]: "quiet (try_superblock base)"
  unfolding try_superblock_def by (intro quiets)

lemma quiet_try_label [quiets]: "quiet (try_label im scanbuf n off)"
  unfolding try_label_def by (intro quiets)

lemma quiet_try_magic [quiets]: "quiet (try_magic im scanbuf off)"
  unfolding try_magic_def by (intro quiets)

lemma quiet_first_some [quiets]: "(\<And>x. quiet (f x)) \<Longrightarrow> quiet (first_some f xs)"
  by (induction xs) (auto intro!: quiets)

lemma quiet_locate [quiets]: "quiet (locate_file_system im)"
  unfolding locate_file_system_def by (intro quiets)

lemma first_some_found:
  assumes "\<And>x. quiet (f x)" "first_some f xs s = (Inr (Some y), t)"
  shows "\<exists>x\<in>set xs. \<exists>u v. f x u = (Inr (Some y), v) \<and> fst u = fst s"
  using assms(2)
proof (induction xs arbitrary: s)
  case (Cons x xs)
  then obtain r u where u: "f x s = (Inr r, u)" and
    rest: "(case r of None \<Rightarrow> first_some f xs | Some y \<Rightarrow> ret (Some y)) u = (Inr (Some y), t)"
    by (auto simp: andthen_Inr)
  have "fst u = fst s" by (rule quiet_fst [OF assms(1) u])
  show ?case
  proof (cases r)
    case None
    with rest Cons.IH [of u] \<open>fst u = fst s\<close> show ?thesis by auto
  next
    case (Some z)
    with rest u show ?thesis by (intro bexI [of _ x] exI [of _ s] exI [of _ u]) simp_all
  qed
qed simp

lemma try_superblock_found:
  assumes "try_superblock base s = (Inr (Some p), t)" "sys_ok s"
  shows "superblock_ok p \<and> p = disk_superblock s base"
proof -
  obtain q u where rd: "read_exact 2048 (base + 8192) s = (q, u)" by (cases "read_exact 2048 (base + 8192) s")
  show ?thesis
  proof (cases q)
    case (Inl e)
    with assms(1) rd show ?thesis by (auto simp: try_superblock_def attempt_def UFS_SBLOCK_OFFSET_def split: if_splits)
  next
    case (Inr b)
    with assms(1) rd have "superblock_ok p" "p = decode_superblock b"
      by (auto simp: try_superblock_def attempt_def UFS_SBLOCK_OFFSET_def Let_def split: if_splits)
    with img.rd_value [OF assms(2)] rd Inr show ?thesis by (auto simp: disk_superblock_def)
  qed
qed

definition opened_ok :: "nextufs_image \<Rightarrow> sys \<Rightarrow> bool" where
  "opened_ok im s \<longleftrightarrow> superblock_ok (sb im) \<and> sb im = disk_superblock s (slice_base im) \<and> 0 \<le> slice_base im \<and>
     (if used_disk_label im then 0 < slice_size im \<and> slice_base im + slice_size im \<le> image_size im
      else slice_size im = image_size im - slice_base im \<and> slice_base im + 9568 \<le> image_size im)"

lemma try_label_found:
  assumes "try_label im scanbuf n off s = (Inr (Some im'), t)" "sys_ok s"
  shows "opened_ok im' s \<and> writable im' = writable im \<and> image_size im' = image_size im"
proof -
  from assms(1) obtain base p where p: "try_superblock base s = (Inr (Some p), t)"
    and "0 \<le> base" "sb im' = p" "slice_base im' = base" "used_disk_label im'" "0 < slice_size im'"
    "base + slice_size im' \<le> image_size im'" "writable im' = writable im" "image_size im' = image_size im"
    by (auto simp: try_label_def Let_def andthen_Inr not_less not_le split: if_splits option.splits)
  with try_superblock_found [OF p assms(2)] show ?thesis by (auto simp: opened_ok_def)
qed

lemma try_magic_found:
  assumes "try_magic im scanbuf off s = (Inr (Some im'), t)" "sys_ok s" "\<not> used_disk_label im"
    "int off + 4 \<le> image_size im"
  shows "opened_ok im' s \<and> writable im' = writable im \<and> image_size im' = image_size im"
proof -
  from assms(1,3) obtain base p where p: "try_superblock base s = (Inr (Some p), t)"
    and "0 \<le> base" "sb im' = p" "slice_base im' = base" "\<not> used_disk_label im'"
    "slice_size im' = image_size im' - base" "writable im' = writable im" "image_size im' = image_size im"
    "base + 9568 = int off + 4"
    by (auto simp: try_magic_def Let_def andthen_Inr not_less UFS_SUPER_MAGIC_OFFSET_def UFS_SBLOCK_OFFSET_def split: if_splits)
  with try_superblock_found [OF p assms(2)] assms(4) show ?thesis by (auto simp: opened_ok_def)
qed

lemma locate_found:
  assumes "locate_file_system im s = (Inr im', t)" "sys_ok s" "\<not> used_disk_label im" "0 \<le> image_size im"
  shows "opened_ok im' t \<and> writable im' = writable im \<and> image_size im' = image_size im \<and> fst t = fst s"
proof -
  have same: "opened_ok x u \<longleftrightarrow> opened_ok x v" "sys_ok u \<longleftrightarrow> sys_ok v" if "fst u = fst v" for x u v
    using same_backend [OF that] by (simp_all add: opened_ok_def disk_superblock_def)
  define n where "n = (if 0 \<le> image_size im then min SCAN_LIMIT (nat (image_size im)) else SCAN_LIMIT)"
  from assms(1) obtain x u buf v r w where
    u: "sys_os malloc s = (Inr x, u)" and v: "or_else (read_exact n 0) EIO u = (Inr buf, v)"
    and w: "first_some (try_label im buf n) (label_offsets n) v = (Inr r, w)"
    and rest: "(case r of Some im \<Rightarrow> ret im | None \<Rightarrow> andthen (first_some (try_magic im buf) (magic_offsets n)) (\<lambda>r.
        case r of Some im \<Rightarrow> ret im | None \<Rightarrow> fail EINVAL)) w = (Inr im', t)"
    unfolding locate_file_system_def Let_def n_def [symmetric] andthen_Inr by blast
  have fs: "fst t = fst s" by (rule quiet_fst [OF quiet_locate assms(1)])
  have fv: "fst v = fst s" "fst w = fst s"
    using quiet_fst [OF quiet_os u] quiet_fst [OF quiet_or_else [OF quiet_read_exact] v]
      quiet_fst [OF quiet_first_some [OF quiet_try_label] w] by simp_all
  have "\<exists>x. fst x = fst s \<and> opened_ok im' x \<and> writable im' = writable im \<and> image_size im' = image_size im"
  proof (cases r)
    case (Some y)
    with rest have "y = im'" by simp
    with first_some_found [OF quiet_try_label w [unfolded Some]] obtain off x x' where
      "try_label im buf n off x = (Inr (Some im'), x')" "fst x = fst v" by blast
    with try_label_found same(2) [of x s] assms(2) fv show ?thesis by metis
  next
    case None
    with rest obtain q where "first_some (try_magic im buf) (magic_offsets n) w = (Inr (Some im'), q)"
      by (auto simp: andthen_Inr split: option.splits)
    from first_some_found [OF quiet_try_magic this] obtain off x x' where
      x: "off \<in> set (magic_offsets n)" "try_magic im buf off x = (Inr (Some im'), x')" "fst x = fst w" by blast
    have "off + 4 \<le> n" using x(1) by (auto simp: magic_offsets_def)
    then have "int off + 4 \<le> image_size im" using assms(4) by (auto simp: n_def)
    with x try_magic_found [OF x(2) _ assms(3)] same(2) [of x s] assms(2) fv show ?thesis by metis
  qed
  with same(1) fs show ?thesis by metis
qed

text \<open>The size that is recorded is the size of the backend.\<close>

lemma vdi_disk_size_small: "vdi_ok v \<Longrightarrow> sint (disk_size v) = int (unat (disk_size v))"
proof -
  assume v: "vdi_ok v"
  have "unat (disk_size v) \<le> unat (block_count v) * unat (vblock_size v)" using v by (simp add: vdi_ok_def)
  also have "\<dots> \<le> unat (block_count v) * (unat (vblock_size v) + unat (block_extra v))" by (intro mult_left_mono) simp_all
  also have "\<dots> < 2 ^ 63" using v by (simp add: vdi_ok_def)
  finally show ?thesis using sint_of_nat_small [of "unat (disk_size v)"] by simp
qed

lemma attached_size:
  assumes "init_backend fuel h path s = (Inr a, t)" "backend_ok (at_backend a)"
  shows "at_image_size a = int (backend_size (at_backend a))"
proof (cases fuel)
  case (Suc n)
  show ?thesis
  proof (cases "at_container a")
    case False
    with assms(1) Suc show ?thesis by (auto simp: andthen_Inr Let_def split: if_splits)
  next
    case True
    with assms(1) Suc obtain v par where "at_backend a = VdiBackend v par" "at_image_size a = sint (disk_size v)"
      by (auto simp: andthen_Inr Let_def split: if_splits)
    then show ?thesis using assms(2) backend_ok_vdi [of v par] by (simp add: vdi_disk_size_small)
  qed
qed (use assms(1) in simp)

text \<open>C30. An image that \<open>nextufs_open_with_mode\<close> returns has the superblock that is on its disk, which
  carries the magic number and nonzero block and fragment sizes, and a slice that lies inside the image,
  whose size is that of the backend; without a label the slice is all of the image from its start on.
  The image is writable exactly when it was opened so. (A VDI image is taken to have a well-formed block map,
  which opening does not check.)\<close>

theorem opened_image_ok:
  assumes "open_with_mode fuel h path wr s = (Inr im, t)" "sys_ok t"
  shows "superblock_ok (sb im) \<and> sb im = disk_superblock t (slice_base im) \<and> 0 \<le> slice_base im \<and>
    0 < slice_size im \<and> slice_base im + slice_size im \<le> image_size im \<and>
    (\<not> used_disk_label im \<longrightarrow> slice_size im = image_size im - slice_base im) \<and>
    image_size im = int (backend_size (fst t)) \<and> writable im = wr"
proof -
  from assms(1) obtain im0 u where u: "attach_backend fuel h path wr s = (Inr im0, u)"
    and run: "locate_file_system im0 u = (Inr im, t)"
    by (auto simp: open_with_mode_def io_elims)
  have "sys_ok u" using quiet_disk [OF quiet_locate run] assms(2) by simp
  with u have im0: "writable im0 = wr" "\<not> used_disk_label im0" "image_size im0 = int (backend_size (fst u))"
    by (auto simp: attach_backend_def sys_ok_def split: prod.splits sum.splits dest: attached_size)
  from locate_found [OF run \<open>sys_ok u\<close> im0(2)] im0 show ?thesis by (auto simp: opened_ok_def split: if_splits)
qed

text \<open>An image without a label, with a superblock 8192 bytes into the file.\<close>

definition bare_disk :: buf where
  "bare_disk = write_be32 (write_be32 (write_be32 (\<lambda>_. 0) 8240 8192) 8244 1024) 9564 UFS_FS_MAGIC"

definition bare_host :: host where
  "bare_host = \<lparr>host_open = \<lambda>_. Inr \<lparr>fsize = 16384, fbytes = bare_disk\<rparr>, host_dir = \<lambda>_. Inl ENOENT\<rparr>"

definition bare_state :: sys where
  "bare_state = (RawBackend \<lparr>fsize = 16384, fbytes = bare_disk\<rparr>, tiny_os)"

lemma bare_word: "read_be32 (clip 16384 bare_disk) p = (if p = 9564 then UFS_FS_MAGIC else
    if p = 8240 then 8192 else if p = 8244 then 1024 else 0)" if "p mod 4 = 0" "p + 4 \<le> 16384"
proof -
  have *: "p + 4 \<le> q \<or> q + 4 \<le> p" if "q mod 4 = 0" "p \<noteq> q" for q
    using that \<open>p mod 4 = 0\<close> by presburger
  have z: "read_be32 (\<lambda>_. 0) p = 0" by (simp add: read_be32_def)
  show ?thesis
    using * [of 9564] * [of 8240] * [of 8244] that(2) z
    by (cases "p = 9564"; cases "p = 8240"; cases "p = 8244") (simp_all add: bare_disk_def cell_simps)
qed

lemma first_some_skip:
  "(\<And>x. x \<in> set pre \<Longrightarrow> f x s = (Inr None, s)) \<Longrightarrow> first_some f (pre @ xs) s = first_some f xs s"
  by (induction pre) (auto simp: andthen_def)

lemma wp_first_some_magic:
  assumes "calm 16384 s" "disk s = clip 16384 bare_disk"
  shows "wp (first_some (try_magic im (clip 16384 bare_disk)) (magic_offsets 16384)) (\<lambda>_ _. False)
    (\<lambda>r _. \<exists>im'. r = Some im') s"
proof -
  let ?f = "try_magic im (clip 16384 bare_disk)"
  have offs: "magic_offsets 16384 = map (\<lambda>i. i * 4) [0..<2391] @ 9564 # map (\<lambda>i. i * 4) [2392..<4096]"
  proof -
    have "[0..<4096] = [0..<2391] @ 2391 # [2392..<4096]"
      using upt_add_eq_append [of 0 2391 1705] upt_conv_Cons [of 2391 4096] by simp
    then show ?thesis by (simp add: magic_offsets_def)
  qed
  have skip: "?f x s = (Inr None, s)" if "x \<in> set (map (\<lambda>i. i * 4) [0..<2391])" for x
  proof -
    from that have "x mod 4 = 0" "x < 9564" by auto
    then show ?thesis by (simp add: try_magic_def Let_def bare_word UFS_FS_MAGIC_def)
  qed
  have p: "superblock_ok (decode_superblock (clip 2048 (\<lambda>i. disk t (8192 + i))))" if "disk t = clip 16384 bare_disk" for t
    using bare_word [of 9564] bare_word [of 8240] bare_word [of 8244]
    by (simp add: that superblock_ok_def decode_superblock_def cell_simps read_be32_shift UFS_SUPER_MAGIC_OFFSET_def
      UFS_FS_MAGIC_def)
  have "wp (?f 9564) (\<lambda>_ _. False) (\<lambda>r _. \<exists>im'. r = Some im') s"
    using bare_word [of 9564]
    by (simp add: try_magic_def Let_def UFS_SUPER_MAGIC_OFFSET_def UFS_SBLOCK_OFFSET_def try_superblock_def wp_simps)
      (rule wp_read_calm [OF assms(1)], simp_all add: wp_simps p assms(2) [symmetric])
  then have "wp (first_some ?f (9564 # map (\<lambda>i. i * 4) [2392..<4096])) (\<lambda>_ _. False) (\<lambda>r _. \<exists>im'. r = Some im') s"
    by (simp add: wp_simps) (erule wp_mono, auto simp: wp_simps)
  moreover have "first_some ?f (magic_offsets 16384) s = first_some ?f (9564 # map (\<lambda>i. i * 4) [2392..<4096]) s"
    unfolding offs by (rule first_some_skip) (rule skip)
  ultimately show ?thesis unfolding wp_def by (simp only:)
qed

lemma no_label_in_bare: "first_some (try_label im (clip 16384 bare_disk) 16384) (label_offsets 16384) s = (Inr None, s)"
proof -
  have no: "try_label im (clip 16384 bare_disk) 16384 x s = (Inr None, s)" if "x \<in> set (label_offsets 16384)" for x
  proof -
    from that have x: "x mod 512 = 0" "x + 4 \<le> 16384"
      by (auto simp: label_offsets_def Let_def LABEL_DECODE_SIZE_def DEV_SECTOR_SIZE_def LABEL_SCAN_LIMIT_def)
    then have "x mod 4 = 0" "x \<noteq> 9564" "x \<noteq> 8240" "x \<noteq> 8244" using mod_mod_cancel [of 4 512 x] by auto
    with bare_word [of x] x(2) have "read_be32 (\<lambda>i. clip 16384 bare_disk (x + i)) 0 = 0"
      by (simp add: read_be32_shift)
    then show ?thesis by (simp add: try_label_def label_is_version_def DL_V1_def DL_V2_def DL_V3_def)
  qed
  let ?f = "try_label im (clip 16384 bare_disk) 16384"
  have "first_some ?f (label_offsets 16384 @ []) s = first_some ?f [] s" by (rule first_some_skip) (rule no)
  then show ?thesis by simp
qed

lemma wp_locate_bare:
  assumes "calm 16384 s" "disk s = clip 16384 bare_disk" "image_size im = 16384"
  shows "wp (locate_file_system im) (\<lambda>_ _. False) (\<lambda>_ _. True) s"
proof -
  have scan: "(if 0 \<le> image_size im then min SCAN_LIMIT (nat (image_size im)) else SCAN_LIMIT) = 16384"
    by (simp add: assms(3) SCAN_LIMIT_def)
  have labels: "wp (first_some (try_label im (clip 16384 bare_disk) 16384) (label_offsets 16384)) E Q t = Q None t" for E Q t
    unfolding wp_def no_label_in_bare by simp
  show ?thesis
    unfolding locate_file_system_def scan Let_def wp_andthen wp_or_else
  proof (rule wp_malloc_calm [OF assms(1)], rule wp_read_calm)
    fix t u assume t: "calm 16384 t" "disk t = disk s" and u: "calm 16384 u" "disk u = disk t"
    have c: "clip 16384 (\<lambda>i. disk t (nat 0 + i)) = clip 16384 bare_disk" using t(2) assms(2) by simp
    show "wp (first_some (try_label im (clip 16384 (\<lambda>i. disk t (nat 0 + i))) 16384) (label_offsets 16384)) (\<lambda>_ _. False)
      (\<lambda>x. wp (case x of None \<Rightarrow> andthen (first_some (try_magic im (clip 16384 (\<lambda>i. disk t (nat 0 + i)))) (magic_offsets 16384))
        (\<lambda>r. case r of None \<Rightarrow> fail EINVAL | Some img \<Rightarrow> ret img) | Some img \<Rightarrow> ret img) (\<lambda>_ _. False) (\<lambda>_ _. True)) u"
      unfolding c labels option.case wp_andthen
      by (rule wp_mono [OF wp_first_some_magic]) (use u t assms(2) in \<open>auto simp: wp_simps\<close>)
  qed simp_all
qed

lemma open_bare: "\<exists>im t. open_with_mode 1 bare_host [slash] True (NoBackend, tiny_os) = (Inr im, t) \<and> sys_ok t"
proof -
  let ?f = "\<lparr>fsize = 16384, fbytes = bare_disk\<rparr>"
  let ?im = "\<lparr>writable = True, source_is_container = False, image_size = 16384, slice_base = 0, slice_size = 0,
    label_off = 0, label_version = 0, label_secsize = 0, label_front = 0, label_name = [], rootpartition = 0,
    used_disk_label = False, sb = empty_superblock\<rparr>"
  have ev: "\<forall>k. events (tick (tick tiny_os)) k = OsFull" by (simp add: tick_def tiny_os_def)
  from read_exact_fd_full [OF this, of 0 512 ?f] obtain b t where
    rd: "read_exact_fd ?f 512 0 (tick (tick tiny_os)) = (Inr b, t)" and t: "events t = events (tick (tick tiny_os))" by auto
  have "b = clip 512 (file_byte ?f)" using read_exact_fd_Inr [OF rd] by simp
  then have "read_le32 b 64 = 0"
    by (simp add: read_le32_def file_byte_def bare_disk_def write_be32_other)
  with rd t ev have init: "init_backend 1 bare_host [slash] tiny_os = (Inr \<lparr>at_backend = RawBackend ?f, at_container = False,
      at_image_size = 16384, at_source_size = 16384\<rparr>, tick t)"
    by (simp add: andthen_def host_call_def or_else_def malloc_def VDI_SIGNATURE_def bare_host_def tiny_os_def tick_def)
  let ?u = "(RawBackend ?f, tick t)"
  have u: "calm 16384 ?u" "disk ?u = clip 16384 bare_disk"
    using t ev by (simp_all add: calm_def disk_def file_byte_def tick_def)
  from wp_succeeds [OF wp_locate_bare [OF u, of ?im]] obtain im v where
    loc: "locate_file_system ?im ?u = (Inr im, v)" by auto
  have "sys_ok v" using quiet_disk [OF quiet_locate loc] by (simp add: sys_ok_def)
  with loc init show ?thesis
    by (simp add: open_with_mode_def andthen_def attach_backend_def on_error_def)
qed

theorem opened_image_ok_witness:
  "\<exists>im t. open_with_mode 1 bare_host [slash] True (NoBackend, tiny_os) = (Inr im, t) \<and> superblock_ok (sb im) \<and> writable im"
proof -
  obtain im t where run: "open_with_mode 1 bare_host [slash] True (NoBackend, tiny_os) = (Inr im, t)" "sys_ok t"
    using open_bare by blast
  from opened_image_ok [OF this] run show ?thesis by auto
qed

section \<open>Sizes\<close>

text \<open>A size that \<open>nextufs_parse_size_bytes\<close> accepts is the number in front times its unit,
  without wrap-around in 64 bits, and it is not 0.\<close>

theorem parsed_size_does_not_wrap:
  assumes "parse_size_bytes str unit = Some n"
  shows "\<exists>v rest m. strtoull10 str = Some (v, rest) \<and> unit_multiplier unit rest = Some m \<and>
    unat n = unat v * unat m \<and> 0 < unat n"
  using parse_size_bytes_Some [OF assms] .

theorem parsed_size_does_not_wrap_witness:
  "\<exists>v rest m. strtoull10 [0x36, 0x34, 0x6d] = Some (v, rest) \<and> unit_multiplier BareSizeBytes rest = Some m \<and>
     unat (67108864 :: u64) = unat v * unat m \<and> 0 < unat (67108864 :: u64)"
  by (rule parsed_size_does_not_wrap)
    (simp add: parse_size_bytes_def strtoull10_def is_space_def is_digit_def digits_value_def unit_multiplier_def
      suffix_multiplier_def KIB_BYTES_def Let_def)

end
