(* ===== verification/Resize.thy ===== *)
theory Resize
  imports OpenImage Sizes
begin

text \<open>
  Growing a file system (\<open>src/src/commands/resize.c\<close>). \<open>nextufs resize grow\<close> extends the file of
  an image, the last cylinder group and, if need be, the summary area, builds the new groups and
  writes all superblocks. Data in the way of the larger summary area is moved first, and the
  command starts again on the image it has changed.

  The counting of free runs and the counters by rotational position are written out a second time
  in this file of the program, with the same text as in \<open>alloc.c\<close>; the model shares the definitions
  \<open>count_free_runs_in_block\<close>, \<open>apply_cg_frsum_delta\<close> and \<open>adjust_rotation\<close>. What the command prints
  is left out. An exit with status 1 is an error here: the code it reports, or \<open>EINVAL\<close> where it
  reports none.
\<close>

definition CSUM_SIZE :: u32 where "CSUM_SIZE = 16"
definition SB_SIZE_OFF :: nat where "SB_SIZE_OFF = 0x24"
definition SB_DSIZE_OFF :: nat where "SB_DSIZE_OFF = 0x28"
definition SB_NCG_OFF :: nat where "SB_NCG_OFF = 0x2c"
definition SB_CSADDR_OFF :: nat where "SB_CSADDR_OFF = 0x98"
definition SB_CSSIZE_OFF :: nat where "SB_CSSIZE_OFF = 0x9c"
definition SB_NCYL_OFF :: nat where "SB_NCYL_OFF = 0x0b0"
definition CG_CGX_OFF :: nat where "CG_CGX_OFF = 12"
definition CG_NCYL_OFF :: nat where "CG_NCYL_OFF = 16"
definition CG_NIBLK_OFF :: nat where "CG_NIBLK_OFF = 18"
definition COMPAT_MAX_BYTES :: u64 where "COMPAT_MAX_BYTES = 4294836224"

section \<open>Addresses of the parts of a group\<close>

definition cgsblock :: "nextufs_image \<Rightarrow> u32 \<Rightarrow> u64" where
  "cgsblock img cg = cgstart img cg + ucast (sb_off (sb img))"

definition cgtod :: "nextufs_image \<Rightarrow> u32 \<Rightarrow> u64" where
  "cgtod img cg = cgstart img cg + ucast (cg_off (sb img))"

definition cgimin :: "nextufs_image \<Rightarrow> u32 \<Rightarrow> u64" where
  "cgimin img cg = cgstart img cg + ucast (ino_off (sb img))"

definition cgdmin :: "nextufs_image \<Rightarrow> u32 \<Rightarrow> u64" where
  "cgdmin img cg = cgstart img cg + ucast (data_off (sb img))"

text \<open>\<open>(off_t)(addr * img->sb.frag_size)\<close>\<close>

definition frag_bytes :: "nextufs_image \<Rightarrow> u64 \<Rightarrow> int" where
  "frag_bytes img addr = sint (addr * ucast (frag_size (sb img)))"

definition cg_frag_count :: "nextufs_image \<Rightarrow> u32 \<Rightarrow> u64 \<Rightarrow> u32" where
  "cg_frag_count img cg fs_frags =
     (let fpg = frags_per_group (sb img); remaining = fs_frags - ucast cg * ucast fpg in
      if remaining < ucast fpg then ucast remaining else fpg)"

text \<open>The remainder by \<open>cpg\<close>, which is not 0 where the command gets to it.\<close>

definition cg_cylinder_count :: "nextufs_image \<Rightarrow> u32 \<Rightarrow> u32 \<Rightarrow> u32 \<Rightarrow> u16" where
  "cg_cylinder_count img cg ncg nc = ucast (if cg = ncg - 1 then nc mod cpg (sb img) else cpg (sb img))"

section \<open>Freeing a range of fragments\<close>

definition count_free_bits :: "buf \<Rightarrow> nat \<Rightarrow> nat \<Rightarrow> nat \<Rightarrow> nat" where
  "count_free_bits m off start count = length (filter (\<lambda>i. free_bit m off (start + i)) [0..<count])"

text \<open>\<open>None\<close> when a fragment is free already.\<close>

primrec add_free_bits :: "nat list \<Rightarrow> buf \<Rightarrow> buf option" where
  "add_free_bits [] b = Some b"
| "add_free_bits (i # is) b =
     (if free_bit b CG_FREE_OFF i then None else add_free_bits is (set_bit8 CG_FREE_OFF i b))"

text \<open>
  One block of the range: the fragments from \<open>start\<close> to \<open>add_end\<close> become free; the results are the
  changes of the numbers of free blocks and of free fragments.
\<close>

definition add_free_in_block ::
    "nextufs_image \<Rightarrow> nat \<Rightarrow> nat \<Rightarrow> nat \<Rightarrow> buf \<Rightarrow> errno + buf \<times> int \<times> int" where
  "add_free_in_block img block_base start add_end buf =
     (let frags = unat (frags_per_block (sb img));
          before_runs = count_free_runs_in_block buf CG_FREE_OFF block_base frags in
      case add_free_bits [start..<add_end] buf of
        None \<Rightarrow> Inl EINVAL
      | Some buf \<Rightarrow>
      let after_runs = count_free_runs_in_block buf CG_FREE_OFF block_base frags;
          buf = apply_cg_frsum_delta before_runs after_runs frags buf;
          added = int (add_end - start) in
      if count_free_bits buf CG_FREE_OFF block_base frags = frags
      then (case adjust_rotation img block_base 1 1 buf of
          None \<Rightarrow> Inl UNDEF
        | Some buf \<Rightarrow> Inr (buf, 1, added - int frags))
      else Inr (buf, 0, added))"

text \<open>The loop over the blocks; positions are natural numbers, below \<open>2^32 - 8\<close>.\<close>

function add_free_loop ::
    "nextufs_image \<Rightarrow> nat \<Rightarrow> nat \<Rightarrow> buf \<Rightarrow> int \<Rightarrow> int \<Rightarrow> errno + buf \<times> int \<times> int" where
  "add_free_loop img start stop buf d_nbfree d_nffree =
     (let frags = unat (frags_per_block (sb img)) in
      if start < stop \<and> 0 < frags then
        let block_base = start - start mod frags;
            add_end = min stop (block_base + frags) in
        case add_free_in_block img block_base start add_end buf of
          Inl e \<Rightarrow> Inl e
        | Inr (buf, nb, nf) \<Rightarrow> add_free_loop img add_end stop buf (d_nbfree + nb) (d_nffree + nf)
      else Inr (buf, d_nbfree, d_nffree))"
  by pat_completeness auto
termination
proof (relation "measure (\<lambda>(img, start, stop, buf, b, f). stop - start)", goal_cases)
  case (2 img start stop buf nb nf frags block_base add_end r b p c d)
  then have "start mod frags < frags" by simp
  then have "start - start mod frags + frags > start" by simp
  with 2 show ?case by auto
qed simp

declare add_free_loop.simps [simp del]

definition add_free_frag_range ::
    "nextufs_image \<Rightarrow> buf \<Rightarrow> u32 \<Rightarrow> u32 \<Rightarrow> errno + buf \<times> int \<times> int" where
  "add_free_frag_range img buf start stop =
     (let frags = frags_per_block (sb img) in
      if stop < start \<or> frags_per_group (sb img) < stop then Inl EINVAL
      else if frags = 0 \<or> 8 < frags then Inl ENOTSUP
      else if 2 ^ 32 \<le> unat stop + 8 then Inl UNDEF
      else add_free_loop img (unat start) (unat stop) buf 0 0)"

section \<open>Writing zeros and summary entries\<close>

function write_zeroes_loop :: "nextufs_image \<Rightarrow> int \<Rightarrow> nat \<Rightarrow> nat \<Rightarrow> unit fs" where
  "write_zeroes_loop img offset len done s =
     (if done < len then
        let chunk = min (len - done) 8192 in
        case image_pwrite img (\<lambda>_. 0) chunk (offset + int done) s of
          (Inl e, t) \<Rightarrow> (Inl e, t)
        | (Inr _, t) \<Rightarrow> write_zeroes_loop img offset len (done + chunk) t
      else (Inr (), s))"
  by pat_completeness auto
termination by (relation "measure (\<lambda>(img, offset, len, done, s). len - done)") auto

declare write_zeroes_loop.simps [simp del]

definition write_zeroes :: "nextufs_image \<Rightarrow> int \<Rightarrow> u64 \<Rightarrow> unit fs" where
  "write_zeroes img offset len = write_zeroes_loop img offset (unat len) 0"

definition write_csum_entry_at :: "nextufs_image \<Rightarrow> u32 \<Rightarrow> u32 \<Rightarrow> u32 \<Rightarrow> u32 \<Rightarrow> u32 \<Rightarrow> u32 \<Rightarrow> unit fs" where
  "write_csum_entry_at img csum_addr cg ndir nbfree nifree nffree =
     (let buf = (\<lambda>_. 0);
          buf = write_be32 buf 0 ndir;
          buf = write_be32 buf 4 nbfree;
          buf = write_be32 buf 8 nifree;
          buf = write_be32 buf 12 nffree;
          off = frag_bytes img (ucast csum_addr) + sint (ucast cg * ucast CSUM_SIZE :: u64)
      in image_pwrite img buf (unat CSUM_SIZE) off)"

definition write_csum_entry :: "nextufs_image \<Rightarrow> u32 \<Rightarrow> u32 \<Rightarrow> u32 \<Rightarrow> u32 \<Rightarrow> u32 \<Rightarrow> unit fs" where
  "write_csum_entry img = write_csum_entry_at img (cyl_summary_addr (sb img))"

text \<open>The write-back of a changed group, and of its entry in the summary area from its counters.\<close>

definition write_group :: "nextufs_image \<Rightarrow> u32 \<Rightarrow> buf \<Rightarrow> unit fs" where
  "write_group img cg buf = image_pwrite img buf (unat (cg_size (sb img))) (frag_bytes img (cgtod img cg))"

definition write_group_and_csum :: "nextufs_image \<Rightarrow> u32 \<Rightarrow> buf \<Rightarrow> unit fs" where
  "write_group_and_csum img cg buf =
     andthen (write_group img cg buf) (\<lambda>_.
     write_csum_entry img cg (read_be32 buf CG_CS_NDIR_OFF) (read_be32 buf CG_CS_NBFREE_OFF)
       (read_be32 buf CG_CS_NIFREE_OFF) (read_be32 buf CG_CS_NFFREE_OFF))"

section \<open>The summary area\<close>

text \<open>\<open>(bytes + img->sb.frag_size - 1U) / img->sb.frag_size\<close> in 32 bits.\<close>

definition summary_frags :: "nextufs_image \<Rightarrow> u32 \<Rightarrow> u32" where
  "summary_frags img bytes = (bytes + frag_size (sb img) - 1) div frag_size (sb img)"

text \<open>One block of the range the summary area grows into; every fragment has to be free.\<close>

definition reserve_in_block ::
    "nextufs_image \<Rightarrow> nat \<Rightarrow> nat \<Rightarrow> nat \<Rightarrow> buf \<Rightarrow> errno + buf \<times> int \<times> int" where
  "reserve_in_block img block_base pos clear_end buf =
     (let fpb = unat (frags_per_block (sb img)) in
      if 8 < fpb then Inl ENOTSUP
      else if \<not> list_all (free_bit buf CG_FREE_OFF) [pos..<clear_end] then Inl ENOSPC
      else
      let before_free = count_free_bits buf CG_FREE_OFF block_base fpb;
          before_runs = count_free_runs_in_block buf CG_FREE_OFF block_base fpb;
          buf = fold (clear_bit CG_FREE_OFF) [pos..<clear_end] buf;
          after_free = count_free_bits buf CG_FREE_OFF block_base fpb;
          after_runs = count_free_runs_in_block buf CG_FREE_OFF block_base fpb;
          buf = apply_cg_frsum_delta before_runs after_runs fpb buf in
      if before_free = fpb \<and> after_free \<noteq> fpb
      then (case adjust_rotation img block_base (- 1) (- 1) buf of
          None \<Rightarrow> Inl UNDEF
        | Some buf \<Rightarrow> Inr (buf, - 1, int after_free))
      else Inr (buf, 0, int after_free - int before_free))"

function reserve_loop ::
    "nextufs_image \<Rightarrow> nat \<Rightarrow> nat \<Rightarrow> buf \<Rightarrow> int \<Rightarrow> int \<Rightarrow> errno + buf \<times> int \<times> int" where
  "reserve_loop img pos stop buf d_nbfree d_nffree =
     (let fpb = unat (frags_per_block (sb img)) in
      if pos < stop then
        if fpb = 0 then Inl UNDEF
        else let block_base = pos - pos mod fpb;
                 clear_end = min stop (block_base + fpb) in
        case reserve_in_block img block_base pos clear_end buf of
          Inl e \<Rightarrow> Inl e
        | Inr (buf, nb, nf) \<Rightarrow> reserve_loop img clear_end stop buf (d_nbfree + nb) (d_nffree + nf)
      else Inr (buf, d_nbfree, d_nffree))"
  by pat_completeness auto
termination
proof (relation "measure (\<lambda>(img, pos, stop, buf, b, f). stop - pos)", goal_cases)
  case (2 img pos stop buf nb nf frags block_base clear_end r b p c d)
  then have "pos mod frags < frags" by simp
  then have "pos - pos mod frags + frags > pos" by simp
  with 2 show ?case by auto
qed simp

declare reserve_loop.simps [simp del]

definition reserve_summary_extension :: "nextufs_image \<Rightarrow> u32 \<Rightarrow> (int \<times> int) fs" where
  "reserve_summary_extension img new_cssize =
     (if new_cssize \<le> csum_size (sb img) then ret (0, 0)
      else if frag_size (sb img) = 0 then fail UNDEF
      else
      let pos = cyl_summary_addr (sb img) + summary_frags img (csum_size (sb img));
          stop = cyl_summary_addr (sb img) + summary_frags img new_cssize in
      if frags_per_group (sb img) < stop then fail ENOTSUP
      else if 2 ^ 32 \<le> unat stop + unat (frags_per_block (sb img)) then fail UNDEF
      else
      andthen (sys_os malloc) (\<lambda>_.
      andthen (image_pread img (unat (cg_size (sb img))) (frag_bytes img (cgtod img 0))) (\<lambda>buf.
      case reserve_loop img (unat pos) (unat stop) buf 0 0 of
        Inl e \<Rightarrow> fail e
      | Inr (buf, d_nbfree, d_nffree) \<Rightarrow>
      let buf = add_be32 buf CG_CS_NBFREE_OFF (word_of_int d_nbfree);
          buf = add_be32 buf CG_CS_NFFREE_OFF (word_of_int d_nffree) in
      andthen (sys_os time) (\<lambda>now.
      andthen (write_group_and_csum img 0 (write_be32 buf CG_TIME_OFF now)) (\<lambda>_.
      ret (d_nbfree, d_nffree))))))"

section \<open>Moving data out of the way\<close>

definition inode_direct_frags :: "nextufs_image \<Rightarrow> nextufs_inode \<Rightarrow> nat \<Rightarrow> u32" where
  "inode_direct_frags img ino slot =
     (let off = of_nat slot * ucast (block_size (sb img)) :: u64 in
      if isize ino \<le> off then 0
      else let remaining = isize ino - off;
               bytes = (if remaining < ucast (block_size (sb img)) then remaining
                 else ucast (block_size (sb img))) in
      ucast ((bytes + ucast (frag_size (sb img)) - 1) div ucast (frag_size (sb img))))"

definition frag_ranges_overlap :: "u32 \<Rightarrow> u32 \<Rightarrow> u32 \<Rightarrow> u32 \<Rightarrow> bool" where
  "frag_ranges_overlap a_start a_frags b_start b_frags \<longleftrightarrow>
     a_start < b_start + b_frags \<and> b_start < a_start + a_frags"

text \<open>The inode comes back changed, with the answer whether the run was moved.\<close>

definition move_direct_fragment_run ::
    "nextufs_image \<Rightarrow> u32 \<Rightarrow> nextufs_inode \<Rightarrow> nat \<Rightarrow> u32 \<Rightarrow> u32 \<Rightarrow> u32 \<Rightarrow> (nextufs_inode \<times> bool) fs" where
  "move_direct_fragment_run img inode_num ino slot frags protect_start protect_frags =
     (let old_frag = db ino ! slot; bytes = unat frags * unat (frag_size (sb img)) in
      if frags = 0 \<or> old_frag = 0 \<or> \<not> frag_ranges_overlap old_frag frags protect_start protect_frags
      then ret (ino, False)
      else
      andthen (sys_os malloc) (\<lambda>_.
      andthen (image_pread img bytes (frag_bytes img (ucast old_frag))) (\<lambda>buf.
      if frags_per_group (sb img) = 0 then fail UNDEF
      else
      let preferred_cg = old_frag div frags_per_group (sb img);
          preferred_cg = (if 1 < cg_count (sb img) then (preferred_cg + 1) mod cg_count (sb img)
            else preferred_cg) in
      andthen (allocate_frags_anycg img preferred_cg frags) (\<lambda>new_frag.
      if frag_ranges_overlap new_frag frags protect_start protect_frags
      then on_error (fail ENOSPC) (free_fragment_run img new_frag frags)
      else
      andthen (on_error (image_pwrite img buf bytes (frag_bytes img (ucast new_frag)))
        (free_fragment_run img new_frag frags)) (\<lambda>_.
      andthen (sys_os time) (\<lambda>now.
      let ino = ino\<lparr>db := (db ino)[slot := new_frag], ctime := now\<rparr> in
      andthen (write_inode_raw img inode_num ino) (\<lambda>_.
      andthen (free_fragment_run img old_frag frags) (\<lambda>_.
      ret (ino, True)))))))))"

text \<open>The twelve direct slots of an inode; the result is the number of runs moved.\<close>

primrec move_slots ::
    "nextufs_image \<Rightarrow> u32 \<Rightarrow> u32 \<Rightarrow> u32 \<Rightarrow> nat list \<Rightarrow> nextufs_inode \<Rightarrow> nat \<Rightarrow> nat fs" where
  "move_slots img inode_num protect_start protect_frags [] ino moves = ret moves"
| "move_slots img inode_num protect_start protect_frags (slot # slots) ino moves =
     andthen (move_direct_fragment_run img inode_num ino slot (inode_direct_frags img ino slot)
       protect_start protect_frags) (\<lambda>(ino, moved).
     move_slots img inode_num protect_start protect_frags slots ino (if moved then moves + 1 else moves))"

primrec evacuate_inodes :: "nextufs_image \<Rightarrow> u32 \<Rightarrow> u32 \<Rightarrow> nat list \<Rightarrow> nat \<Rightarrow> nat fs" where
  "evacuate_inodes img protect_start protect_frags [] moves = ret moves"
| "evacuate_inodes img protect_start protect_frags (k # ks) moves =
     andthen (inode_read img (of_nat k)) (\<lambda>(ino, _).
     if mode ino = 0 \<or> nlink ino = 0 then evacuate_inodes img protect_start protect_frags ks moves
     else if list_ex (\<lambda>b. b \<noteq> 0 \<and> frag_ranges_overlap b (frags_per_block (sb img)) protect_start protect_frags)
       (ib ino)
     then fail ENOTSUP
     else
     andthen (move_slots img (of_nat k) protect_start protect_frags [0..<12] ino moves) (\<lambda>moves.
     evacuate_inodes img protect_start protect_frags ks moves))"

definition evacuate_summary_extension_range :: "nextufs_image \<Rightarrow> u32 \<Rightarrow> nat fs" where
  "evacuate_summary_extension_range img new_cssize =
     (if new_cssize \<le> csum_size (sb img) then ret 0
      else if frag_size (sb img) = 0 then fail UNDEF
      else
      let old_summary_frags = summary_frags img (csum_size (sb img));
          new_summary_frags = summary_frags img new_cssize;
          protect_start = cyl_summary_addr (sb img) + old_summary_frags;
          protect_frags = new_summary_frags - old_summary_frags in
      if frags_per_group (sb img) < protect_start + protect_frags then fail ENOTSUP
      else evacuate_inodes img protect_start protect_frags
        [0..<unat (cg_count (sb img) * inodes_per_group (sb img))] 0)"

section \<open>The command\<close>

text \<open>Calls on the file descriptor of the image, which is a plain file (a container is refused).\<close>

definition on_file :: "(hostfile \<times> os, 'a) io \<Rightarrow> 'a fs" where
  "on_file m = (\<lambda>(b, s). case b of
     RawBackend f \<Rightarrow> (case m (f, s) of (r, (g, t)) \<Rightarrow> (r, (RawBackend g, t)))
   | _ \<Rightarrow> (Inl EINVAL, (b, s)))"

definition ftruncate :: "u64 \<Rightarrow> (hostfile \<times> os, unit) io" where
  "ftruncate len = (\<lambda>(f, s).
     if sint len < 0 then (Inl EINVAL, (f, tick s))
     else case events s (ticks s) of
       OsFail e \<Rightarrow> (Inl e, (f, tick s))
     | _ \<Rightarrow> (Inr (), (f\<lparr>fsize := unat len, fbytes := clip (unat len) (file_byte f)\<rparr>, tick s)))"

text \<open>\<open>stat\<close> of the source may fail; the size it yields is not used.\<close>

definition open_supported_image :: "nat \<Rightarrow> host \<Rightarrow> u8 list \<Rightarrow> open_mode \<Rightarrow> nextufs_image fs" where
  "open_supported_image fuel h path md =
     andthen (sys_os (host_call (host_open h path))) (\<lambda>_.
     andthen (image_open_source fuel h path md) (\<lambda>img.
     if source_is_container img then fail ENOTSUP else ret img))"

definition validate_labeled_grow_layout :: "nextufs_image \<Rightarrow> unit fs" where
  "validate_labeled_grow_layout img =
     (if \<not> used_disk_label img then ret ()
      else on_file (label_validate_single_slice_fd (slice_base img)))"

definition patch_label_partition_size :: "nextufs_image \<Rightarrow> u64 \<Rightarrow> unit fs" where
  "patch_label_partition_size img slice_bytes =
     (if \<not> used_disk_label img then ret ()
      else andthen (on_file (label_patch_slice_size_fd (slice_base img) slice_bytes)) (\<lambda>_. ret ()))"

text \<open>A new group in memory: its buffer and its numbers of free blocks and fragments.\<close>

definition build_new_cg :: "nextufs_image \<Rightarrow> u32 \<Rightarrow> u16 \<Rightarrow> u32 \<Rightarrow> u32 \<Rightarrow> errno + buf \<times> int \<times> int" where
  "build_new_cg img cg nc ndblk now =
     (let cbase = ucast (frags_per_group (sb img)) * ucast cg :: u64;
          dlower = ucast (cgsblock img cg - cbase) :: u32;
          dupper = ucast (cgdmin img cg - cbase) :: u32 in
      if frags_per_group (sb img) < ndblk \<or> ndblk < dupper then Inl ENOSPC
      else
      let buf = (\<lambda>_. 0);
          buf = write_be32 buf CG_TIME_OFF now;
          buf = write_be32 buf CG_CGX_OFF cg;
          buf = write_be16 buf CG_NCYL_OFF nc;
          buf = write_be16 buf CG_NIBLK_OFF (ucast (inodes_per_group (sb img)));
          buf = write_be32 buf CG_NDBLK_OFF ndblk;
          buf = write_be32 buf CG_IROTOR_OFF 0;
          buf = write_be32 buf CG_MAGIC_OFF CG_MAGIC in
      case add_free_frag_range img buf 0 dlower of
        Inl e \<Rightarrow> Inl e
      | Inr (buf, nbfree, nffree) \<Rightarrow>
      case add_free_frag_range img buf dupper ndblk of
        Inl e \<Rightarrow> Inl e
      | Inr (buf, range_nbfree, range_nffree) \<Rightarrow>
      let nbfree = nbfree + range_nbfree; nffree = nffree + range_nffree;
          buf = write_be32 buf CG_CS_NBFREE_OFF (word_of_int nbfree);
          buf = write_be32 buf CG_CS_NIFREE_OFF (inodes_per_group (sb img));
          buf = write_be32 buf CG_CS_NFFREE_OFF (word_of_int nffree)
      in Inr (buf, nbfree, nffree))"

text \<open>What the group gains, and the fragments added to it.\<close>

definition expanded_group :: "nextufs_image \<Rightarrow> u32 \<Rightarrow> u32 \<Rightarrow> u16 \<Rightarrow> buf \<Rightarrow> errno + buf \<times> int \<times> int" where
  "expanded_group img start stop nc buf =
     (case add_free_frag_range img buf start stop of
        Inl e \<Rightarrow> Inl e
      | Inr (buf, nbfree, nffree) \<Rightarrow>
      let buf = write_be16 buf CG_NCYL_OFF nc;
          buf = write_be32 buf CG_NDBLK_OFF stop;
          buf = add_be32 buf CG_CS_NBFREE_OFF (word_of_int nbfree);
          buf = add_be32 buf CG_CS_NFFREE_OFF (word_of_int nffree)
      in Inr (buf, nbfree, nffree))"

definition expand_old_last_cg ::
    "nextufs_image \<Rightarrow> u32 \<Rightarrow> u64 \<Rightarrow> u64 \<Rightarrow> u16 \<Rightarrow> (int \<times> int \<times> u32) fs" where
  "expand_old_last_cg img cg old_frags target_frags nc =
     (let fpg = ucast (frags_per_group (sb img)) :: u64; cbase = fpg * ucast cg in
      if old_frags \<le> cbase \<or> cbase + fpg < old_frags \<or> target_frags < old_frags then fail EINVAL
      else
      let start = ucast (old_frags - cbase); stop = cg_frag_count img cg target_frags in
      andthen (sys_os malloc) (\<lambda>_.
      andthen (image_pread img (unat (cg_size (sb img))) (frag_bytes img (cgtod img cg))) (\<lambda>buf.
      case expanded_group img start stop nc buf of
        Inl e \<Rightarrow> fail e
      | Inr (buf, nbfree, nffree) \<Rightarrow>
      andthen (sys_os time) (\<lambda>now.
      andthen (write_group_and_csum img cg (write_be32 buf CG_TIME_OFF now)) (\<lambda>_.
      ret (nbfree, nffree, stop - start))))))"

text \<open>The superblock of the grown file system.\<close>

definition patched_superblock ::
    "nextufs_image \<Rightarrow> buf \<Rightarrow> u32 \<Rightarrow> u32 \<Rightarrow> u32 \<Rightarrow> u32 \<Rightarrow> u32 \<Rightarrow> u32 \<Rightarrow> int \<Rightarrow> int \<Rightarrow> int \<Rightarrow> u32 \<Rightarrow> buf" where
  "patched_superblock img old_sb new_ncg new_ncyl new_frag_count new_dsize new_csum_addr new_cssize
     add_nbfree add_nifree add_nffree now =
     (let b = old_sb;
          b = write_be32 b SB_TIME_OFF now;
          b = write_be32 b SB_SIZE_OFF new_frag_count;
          b = write_be32 b SB_DSIZE_OFF new_dsize;
          b = write_be32 b SB_NCG_OFF new_ncg;
          b = write_be32 b SB_CSADDR_OFF new_csum_addr;
          b = write_be32 b SB_CSSIZE_OFF new_cssize;
          b = write_be32 b SB_NCYL_OFF new_ncyl;
          b = write_be32 b SB_NBFREE_OFF (free_block_count (sb img) + word_of_int add_nbfree);
          b = write_be32 b SB_NIFREE_OFF (free_inode_count (sb img) + word_of_int add_nifree);
          b = write_be32 b SB_NFFREE_OFF (free_frag_count (sb img) + word_of_int add_nffree)
      in write_be32 b SB_NDIR_OFF (dir_count (sb img)))"

primrec write_superblock_copies :: "nextufs_image \<Rightarrow> buf \<Rightarrow> nat list \<Rightarrow> unit fs" where
  "write_superblock_copies img b [] = ret ()"
| "write_superblock_copies img b (cg # cgs) =
     andthen (image_pwrite img b (unat (super_size (sb img))) (frag_bytes img (cgsblock img (of_nat cg)))) (\<lambda>_.
     write_superblock_copies img b cgs)"

text \<open>Fields behind the end of a superblock smaller than 208 bytes would be outside the buffer.\<close>

definition patch_and_write_superblocks ::
    "nextufs_image \<Rightarrow> buf \<Rightarrow> u32 \<Rightarrow> u32 \<Rightarrow> u32 \<Rightarrow> u32 \<Rightarrow> u32 \<Rightarrow> u32 \<Rightarrow> int \<Rightarrow> int \<Rightarrow> int \<Rightarrow> unit fs" where
  "patch_and_write_superblocks img old_sb new_ncg new_ncyl new_frag_count new_dsize new_csum_addr
     new_cssize add_nbfree add_nifree add_nffree =
     andthen (sys_os malloc) (\<lambda>_.
     if super_size (sb img) < 0xd0 then fail UNDEF
     else
     andthen (sys_os time) (\<lambda>now.
     let b = patched_superblock img old_sb new_ncg new_ncyl new_frag_count new_dsize new_csum_addr
       new_cssize add_nbfree add_nifree add_nffree now in
     andthen (image_pwrite img b (unat (super_size (sb img))) (int UFS_SBLOCK_OFFSET)) (\<lambda>_.
     write_superblock_copies img b [0..<unat new_ncg])))"

text \<open>
  The figures of the grown file system: fragments, groups, cylinders, bytes of the summary area.
\<close>

record grow_plan =
  target_frags :: u64
  new_ncg :: u32
  new_ncyl :: u32
  new_cssize :: u32

definition make_plan :: "nextufs_image \<Rightarrow> u64 \<Rightarrow> errno + grow_plan" where
  "make_plan img target_slice_bytes =
     (let g = sb img; fs = ucast (frag_size g) :: u64; fpg = ucast (frags_per_group g) :: u64 in
      if fs = 0 then Inl UNDEF
      else if target_slice_bytes mod fs \<noteq> 0 then Inl EINVAL
      else let target = target_slice_bytes div fs in
      if 0xffffffff < target then Inl EINVAL
      else if fpg = 0 then Inl UNDEF
      else let ncg64 = (target + fpg - 1) div fpg in
      if ncg64 < ucast (cg_count g) \<or> 0xffffffff < ncg64 then Inl EINVAL
      else let ncyl64 = (target * ucast (cpg g) + fpg - 1) div fpg in
      if ncyl64 = 0 \<or> 0xffffffff < ncyl64 then Inl EINVAL
      else let cssize64 = (ncg64 * ucast CSUM_SIZE + fs - 1) div fs * fs in
      if 0xffffffff < cssize64 then Inl EINVAL
      else Inr \<lparr>target_frags = target, new_ncg = ucast ncg64, new_ncyl = ucast ncyl64,
        new_cssize = ucast cssize64\<rparr>)"

text \<open>Every new group has room for its own metadata.\<close>

definition new_group_fits :: "nextufs_image \<Rightarrow> u64 \<Rightarrow> u32 \<Rightarrow> bool" where
  "new_group_fits img target cg \<longleftrightarrow>
     ucast (cgdmin img cg - ucast (frags_per_group (sb img)) * ucast cg) \<le> cg_frag_count img cg target"

definition new_groups :: "nextufs_image \<Rightarrow> u32 \<Rightarrow> u32 list" where
  "new_groups img ncg = map of_nat [unat (cg_count (sb img))..<unat ncg]"

text \<open>The running sums over the changes: free blocks, inodes, fragments, and data fragments.\<close>

record grow_sums =
  add_nbfree :: int
  add_nifree :: int
  add_nffree :: int
  new_dsize :: u32

definition build_and_write_group :: "nextufs_image \<Rightarrow> grow_plan \<Rightarrow> u32 \<Rightarrow> grow_sums \<Rightarrow> grow_sums fs" where
  "build_and_write_group img plan cg sums =
     (let g = sb img;
          cg_base = ucast (frags_per_group g) * ucast cg :: u64;
          cg_ndblk = cg_frag_count img cg (target_frags plan);
          cg_ncyl = cg_cylinder_count img cg (new_ncg plan) (new_ncyl plan) in
      andthen (sys_os time) (\<lambda>now.
      case build_new_cg img cg cg_ncyl cg_ndblk now of
        Inl e \<Rightarrow> fail e
      | Inr (buf, cg_nbfree, cg_nffree) \<Rightarrow>
      andthen (write_zeroes img (frag_bytes img (cgimin img cg)) (ucast (inodes_per_group g) * 128)) (\<lambda>_.
      andthen (write_group img cg buf) (\<lambda>_.
      andthen (write_csum_entry img cg 0 (word_of_int cg_nbfree) (inodes_per_group g)
        (word_of_int cg_nffree)) (\<lambda>_.
      let cg_dlower = ucast (cgsblock img cg - cg_base) :: u32;
          cg_dupper = ucast (cgdmin img cg - cg_base) :: u32 in
      ret \<lparr>add_nbfree = add_nbfree sums + cg_nbfree,
        add_nifree = add_nifree sums + int (unat (inodes_per_group g)),
        add_nffree = add_nffree sums + cg_nffree,
        new_dsize = new_dsize sums + (cg_dlower + (cg_ndblk - cg_dupper))\<rparr>)))))"

primrec build_groups :: "nextufs_image \<Rightarrow> grow_plan \<Rightarrow> u32 list \<Rightarrow> grow_sums \<Rightarrow> grow_sums fs" where
  "build_groups img plan [] sums = ret sums"
| "build_groups img plan (cg # cgs) sums =
     andthen (build_and_write_group img plan cg sums) (build_groups img plan cgs)"

text \<open>The larger summary area: its fragments are taken and cleared.\<close>

definition extend_summary :: "nextufs_image \<Rightarrow> grow_plan \<Rightarrow> grow_sums \<Rightarrow> grow_sums fs" where
  "extend_summary img plan sums =
     (if new_cssize plan \<le> csum_size (sb img) then ret sums
      else
      andthen (reserve_summary_extension img (new_cssize plan)) (\<lambda>(nb, nf).
      andthen (write_zeroes img
        (sint (ucast (cyl_summary_addr (sb img)) * ucast (frag_size (sb img)) + ucast (csum_size (sb img)) :: u64))
        (ucast (new_cssize plan) - ucast (csum_size (sb img)))) (\<lambda>_.
      ret (sums\<lparr>add_nbfree := add_nbfree sums + nb, add_nffree := add_nffree sums + nf,
        new_dsize := new_dsize sums -
          (summary_frags img (new_cssize plan) - summary_frags img (csum_size (sb img)))\<rparr>))))"

text \<open>Everything behind the patch of the label: the groups, the summary area, the superblocks.\<close>

definition grow_file_system :: "nextufs_image \<Rightarrow> grow_plan \<Rightarrow> buf \<Rightarrow> unit fs" where
  "grow_file_system img plan old_sb =
     (let old_last_cg = cg_count (sb img) - 1 in
      andthen (expand_old_last_cg img old_last_cg (ucast (frag_count (sb img))) (target_frags plan)
        (cg_cylinder_count img old_last_cg (new_ncg plan) (new_ncyl plan))) (\<lambda>(nb, nf, dsize).
      andthen (extend_summary img plan \<lparr>add_nbfree = nb, add_nifree = 0, add_nffree = nf,
        new_dsize = data_frag_count (sb img) + dsize\<rparr>) (\<lambda>sums.
      andthen (build_groups img plan (new_groups img (new_ncg plan)) sums) (\<lambda>sums.
      andthen (patch_and_write_superblocks img old_sb (new_ncg plan) (new_ncyl plan)
        (ucast (target_frags plan)) (new_dsize sums) (cyl_summary_addr (sb img)) (new_cssize plan)
        (add_nbfree sums) (add_nifree sums) (add_nffree sums)) (\<lambda>_.
      image_fsync img)))))"

text \<open>The part of the command that changes the image for good.\<close>

definition commit_grow :: "nextufs_image \<Rightarrow> grow_plan \<Rightarrow> u64 \<Rightarrow> u64 \<Rightarrow> unit fs" where
  "commit_grow img plan target_backing_bytes target_slice_bytes =
     andthen (sys_os malloc) (\<lambda>_.
     andthen (sys_os malloc) (\<lambda>_.
     andthen (image_pread img (unat (super_size (sb img))) (int UFS_SBLOCK_OFFSET)) (\<lambda>old_sb.
     andthen (on_file (ftruncate target_backing_bytes)) (\<lambda>_.
     andthen (patch_label_partition_size img target_slice_bytes) (\<lambda>_.
     grow_file_system img plan old_sb)))))"

text \<open>The size of the slice that the command line asks for.\<close>

definition requested_slice_bytes :: "nextufs_image \<Rightarrow> u64 \<Rightarrow> u64 option" where
  "requested_slice_bytes img target_backing_bytes =
     (let base = word_of_int (slice_base img) in
      if used_disk_label img
      then (if target_backing_bytes \<le> base then None else Some (target_backing_bytes - base))
      else Some target_backing_bytes)"

text \<open>
  After data has been moved the command closes the image and starts again: the file it then opens
  is the one it has changed. The fuel counts these restarts. Closing the image at the end changes
  nothing on the disk and is left out, so that the final state shows the file as it is left.
\<close>

definition host_update :: "host \<Rightarrow> u8 list \<Rightarrow> backend \<Rightarrow> host" where
  "host_update h path b = (case b of
     RawBackend f \<Rightarrow> h\<lparr>host_open := (host_open h)(path := Inr f)\<rparr> | _ \<Rightarrow> h)"

definition grow_request :: "u8 list \<Rightarrow> bool \<Rightarrow> u64 option" where
  "grow_request sectors_arg force = (case parse_size_bytes sectors_arg BareSize1kSectors of
     None \<Rightarrow> None
   | Some n \<Rightarrow> if n mod KIB_BYTES \<noteq> 0 \<or> \<not> force \<and> COMPAT_MAX_BYTES < n then None else Some n)"

definition summary_fits :: "nextufs_image \<Rightarrow> u32 \<Rightarrow> bool" where
  "summary_fits img cssize \<longleftrightarrow> cssize \<le> csum_size (sb img) \<or>
     cyl_summary_addr (sb img) + cssize div frag_size (sb img) \<le> frags_per_group (sb img)"

text \<open>The checks before anything is written; the result are the bytes of the slice and the plan.\<close>

definition prepare_grow :: "nextufs_image \<Rightarrow> u64 \<Rightarrow> (u64 \<times> grow_plan) fs" where
  "prepare_grow img target_backing_bytes =
     (case requested_slice_bytes img target_backing_bytes of
        None \<Rightarrow> fail EINVAL
      | Some target_slice_bytes \<Rightarrow>
      if target_slice_bytes \<le> word_of_int (slice_size img) then fail EINVAL
      else
      andthen (validate_labeled_grow_layout img) (\<lambda>_.
      case make_plan img target_slice_bytes of
        Inl e \<Rightarrow> fail e
      | Inr plan \<Rightarrow>
      if \<not> list_all (new_group_fits img (target_frags plan)) (new_groups img (new_ncg plan))
      then fail EINVAL
      else ret (target_slice_bytes, plan)))"

primrec resize_grow :: "nat \<Rightarrow> nat \<Rightarrow> host \<Rightarrow> u8 list \<Rightarrow> u8 list \<Rightarrow> bool \<Rightarrow> unit fs" where
  "resize_grow 0 vdi_fuel h path sectors_arg force = fail UNDEF"
| "resize_grow (Suc n) vdi_fuel h path sectors_arg force =
     (case grow_request sectors_arg force of
        None \<Rightarrow> fail EINVAL
      | Some target_backing_bytes \<Rightarrow>
      andthen (open_supported_image vdi_fuel h path OpenReadWrite) (\<lambda>img.
      andthen (prepare_grow img target_backing_bytes) (\<lambda>(slice_bytes, plan).
      andthen (if new_cssize plan \<le> csum_size (sb img) then ret 0
        else andthen (evacuate_summary_extension_range img (new_cssize plan)) (\<lambda>moves.
          if moves \<noteq> 0 then andthen (image_fsync img) (\<lambda>_. ret moves) else ret 0)) (\<lambda>moves.
      if moves \<noteq> 0
      then (\<lambda>(b, s). resize_grow n vdi_fuel (host_update h path b) path sectors_arg force (b, s))
      else if \<not> summary_fits img (new_cssize plan) then fail EINVAL
      else commit_grow img plan target_backing_bytes slice_bytes))))"

end
