(* ===== verification/ResizeOk.thy ===== *)
theory ResizeOk
  imports Resize AllocOk
begin

text \<open>
  The maps and counters of a group while a file system grows: freeing a range of fragments,
  reserving one for the summary area, and the new group, each against the accounts that the
  allocator keeps (\<open>cg_accounts\<close>, \<open>cg_wf\<close>).
\<close>

section \<open>Counters that are settled later\<close>

text \<open>
  The loops change the map and the counters of run lengths, and hand the changes of the two sums
  back; this is the group once they are added.
\<close>

definition settled :: "int \<Rightarrow> int \<Rightarrow> buf \<Rightarrow> buf" where
  "settled d_nbfree d_nffree b =
     add_be32 (add_be32 b CG_CS_NBFREE_OFF (word_of_int d_nbfree)) CG_CS_NFFREE_OFF (word_of_int d_nffree)"

lemma settled_map [simp]: "free_map (settled d e b) = free_map b"
  by (simp add: settled_def add_be32_def cell_simps cg_offsets)

lemma settled_sums:
  "read_be32 (settled d e b) CG_CS_NBFREE_OFF = read_be32 b CG_CS_NBFREE_OFF + word_of_int d"
  "read_be32 (settled d e b) CG_CS_NFFREE_OFF = read_be32 b CG_CS_NFFREE_OFF + word_of_int e"
  by (simp_all add: settled_def add_be32_def cell_simps cg_offsets)

lemma settled_other: "i < 28 \<or> 32 \<le> i \<and> i < 36 \<or> 40 \<le> i \<Longrightarrow> settled d e b i = b i"
  by (auto simp: settled_def add_be32_def cell_simps cg_offsets)

lemma settled_frsum [simp]: "read_be32 (settled d e b) (frsum_off k) = read_be32 b (frsum_off k)"
  by (rule read_be32_cong) (simp add: settled_other frsum_off_def)

lemma cg_accounts_settled_0: "cg_accounts n N (settled 0 0 b) = cg_accounts n N b"
  by (rule cg_accounts_cong) (simp_all add: settled_sums)

lemma adjust_rotation_other:
  assumes "adjust_rotation img k d32 d16 b = Some c" "i < 84 \<or> 724 \<le> i"
  shows "c i = b i"
proof -
  have "c = b \<or> (\<exists>cyl rot. cyl < 32 \<and> rot < 8 \<and> c = write_be16
     (write_be32 b (84 + cyl * 4) (read_be32 b (84 + cyl * 4) + d32)) (212 + (cyl * 8 + rot) * 2)
     (read_be16 (write_be32 b (84 + cyl * 4) (read_be32 b (84 + cyl * 4) + d32)) (212 + (cyl * 8 + rot) * 2) + d16))"
    using assms(1) by (auto simp: adjust_rotation_def Let_def cg_offsets word_less_nat_alt split: if_splits)
  then show ?thesis using assms(2) by (auto simp: cell_simps)
qed

section \<open>Freeing a range\<close>

lemma add_free_bits_release: "add_free_bits [p..<p + m] b = release_bits p m b"
proof -
  have app: "add_free_bits (xs @ [k]) b = (case add_free_bits xs b of None \<Rightarrow> None
      | Some c \<Rightarrow> if free_bit c CG_FREE_OFF k then None else Some (set_bit8 CG_FREE_OFF k c))" for xs k b
    by (induction xs arbitrary: b) auto
  show ?thesis by (induction m) (simp_all add: app)
qed

lemma count_free_bits_card: "count_free_bits b CG_FREE_OFF c n = card {i. i < n \<and> free_map b (c + i)}"
proof -
  have "count_free_bits b CG_FREE_OFF c n = card (set (filter (\<lambda>i. free_map b (c + i)) [0..<n]))"
    unfolding count_free_bits_def free_map_def by (rule distinct_card [symmetric]) simp
  also have "set (filter (\<lambda>i. free_map b (c + i)) [0..<n]) = {i. i < n \<and> free_map b (c + i)}" by auto
  finally show ?thesis .
qed

lemma count_full: "count_free_bits b CG_FREE_OFF (c * n) n = n \<longleftrightarrow> blk_full (free_map b) n c"
proof -
  let ?A = "{i. i < n \<and> free_map b (c * n + i)}"
  have "?A \<subseteq> {..<n}" by auto
  then have "card ?A = n \<longleftrightarrow> ?A = {..<n}" using card_subset_eq [of "{..<n}" ?A] by fastforce
  moreover have "?A = {..<n} \<longleftrightarrow> blk_full (free_map b) n c" unfolding blk_full_def by blast
  ultimately show ?thesis by (simp add: count_free_bits_card)
qed

text \<open>What one block contributes, with the change to the map and to the rest of the buffer.\<close>

lemma add_free_in_block:
  assumes run: "add_free_in_block img (c * n) p e b = Inr (b', nb, nf)"
    and n: "n = unat (frags_per_block (sb img))" "n \<le> 8" and p: "c * n \<le> p" "p < e" "e \<le> c * n + n"
  shows "cg_accounts n N (settled d1 d2 b) \<Longrightarrow> c < N \<Longrightarrow> cg_accounts n N (settled (d1 + nb) (d2 + nf) b')"
    and "free_map b' = (\<lambda>k. free_map b k \<or> p \<le> k \<and> k < e)"
    and "\<And>i. i < 56 \<or> 724 \<le> i \<and> i < 984 \<Longrightarrow> b' i = b i"
    and "\<And>k. p \<le> k \<Longrightarrow> k < e \<Longrightarrow> \<not> free_map b k"
proof -
  let ?before = "count_free_runs_in_block b CG_FREE_OFF (c * n) n"
  have range: "[p..<e] = [p..<p + (e - p)]" using p by simp
  have n0: "unat (frags_per_block (sb img)) = n" using n(1) by simp
  obtain b1 where rel: "release_bits p (e - p) b = Some b1"
    using run unfolding add_free_in_block_def range add_free_bits_release
    by (cases "release_bits p (e - p) b") (simp_all add: Let_def)
  note bits = release_bits_iff [OF rel]
  show "\<not> free_map b k" if "p \<le> k" "k < e" for k
  proof -
    have "k = p + (k - p)" "k - p < e - p" using that by auto
    with bits show ?thesis by metis
  qed
  let ?after = "count_free_runs_in_block b1 CG_FREE_OFF (c * n) n"
  define b2 where "b2 = apply_cg_frsum_delta ?before ?after n b1"
  have map2: "free_map b2 = (\<lambda>k. free_map b k \<or> p \<le> k \<and> k < e)"
    using bits p free_map_apply_frsum [OF n(2), of ?before ?after b1] by (simp add: b2_def)
  define full where "full \<longleftrightarrow> blk_full (free_map b2) n c"
  have fin: "(\<forall>i. i < 84 \<or> 724 \<le> i \<longrightarrow> b' i = b2 i) \<and> nb = (if full then 1 else 0) \<and>
      nf = int (e - p) - (if full then int n else 0)"
  proof (cases full)
    case True
    then obtain b3 where "adjust_rotation img (c * n) 1 1 b2 = Some b3" "b' = b3" "nb = 1" "nf = int (e - p) - int n"
      using run unfolding add_free_in_block_def range add_free_bits_release rel
      by (cases "adjust_rotation img (c * n) 1 1 b2")
        (simp_all add: Let_def n0 count_full b2_def [symmetric] full_def)
    then show ?thesis using True adjust_rotation_other by auto
  next
    case False
    then show ?thesis
      using run unfolding add_free_in_block_def range add_free_bits_release rel
      by (simp add: Let_def n0 count_full b2_def [symmetric] full_def)
  qed
  have map': "free_map b' = free_map b2" by (rule free_map_cong) (use fin in \<open>auto simp: CG_FREE_OFF_def\<close>)
  with map2 show "free_map b' = (\<lambda>k. free_map b k \<or> p \<le> k \<and> k < e)" by simp
  show low: "b' i = b i" if "i < 56 \<or> 724 \<le> i \<and> i < 984" for i
    using fin bits that n(2) by (auto simp: b2_def apply_frsum_other CG_FREE_OFF_def)
  show "cg_accounts n N (settled (d1 + nb) (d2 + nf) b')"
    if acc: "cg_accounts n N (settled d1 d2 b)" and c: "c < N"
  proof -
    let ?s = "settled d1 d2 b" and ?m = "e - p"
    obtain s1 where s1: "release_bits p ?m ?s = Some s1"
      using release_bits_total [of ?m ?s p] bits by auto
    note sbits = release_bits_iff [OF s1]
    have smap: "free_map s1 = free_map b'" using sbits map' map2 p by simp
    let ?sc = "count_free_runs_in_block ?s CG_FREE_OFF (c * n) n"
    let ?R = "release_counts n (c * n) ?m ?sc s1"
    have accR: "cg_accounts n N ?R"
      by (rule release_accounts [OF acc n(2) c _ p(1) _ s1]) (use p in auto)
    have whole: "block_is_free s1 CG_FREE_OFF (c * n) n \<longleftrightarrow> full" by (simp add: block_is_free_map smap full_def map')
    have rd: "read_be32 s1 q = read_be32 ?s q" if "q + 4 \<le> 984" for q
      by (rule read_be32_cong) (use sbits that in \<open>auto simp: CG_FREE_OFF_def\<close>)
    have rd': "read_be32 b' q = read_be32 b q" if "q + 4 \<le> 56" for q
      by (rule read_be32_cong) (use low that in auto)
    have R: "read_be32 ?R CG_CS_NBFREE_OFF = read_be32 ?s CG_CS_NBFREE_OFF + (if full then 1 else 0)"
      "read_be32 ?R CG_CS_NFFREE_OFF = read_be32 ?s CG_CS_NFFREE_OFF + (of_nat ?m - (if full then of_nat n else 0))"
      using release_counters [of n 1 s1 s1 "c * n" ?m ?sc] release_counters [of n 3 s1 s1 "c * n" ?m ?sc] n(2)
      by (simp_all add: cg_offsets whole rd)
    have sums: "read_be32 b' CG_CS_NBFREE_OFF = read_be32 b CG_CS_NBFREE_OFF"
      "read_be32 b' CG_CS_NFFREE_OFF = read_be32 b CG_CS_NFFREE_OFF"
      by (rule rd', simp add: cg_offsets)+
    show ?thesis
    proof (rule iffD2 [OF cg_accounts_cong accR])
      show "read_be32 (settled (d1 + nb) (d2 + nf) b') CG_CS_NBFREE_OFF = read_be32 ?R CG_CS_NBFREE_OFF"
        using fin by (simp add: R settled_sums sums)
      show "read_be32 (settled (d1 + nb) (d2 + nf) b') CG_CS_NFFREE_OFF = read_be32 ?R CG_CS_NFFREE_OFF"
        using fin by (simp add: R settled_sums sums)
      show "read_be32 (settled (d1 + nb) (d2 + nf) b') (frsum_off k) = read_be32 ?R (frsum_off k)"
        if k: "1 \<le> k" "k < n" for k
      proof -
        have q: "56 \<le> frsum_off k" "frsum_off k + 4 \<le> 84" using frsum_range [OF k n(2)] by auto
        have "read_be32 b' (frsum_off k) = read_be32 b2 (frsum_off k)"
          by (rule read_be32_cong) (use fin q in auto)
        also have "\<dots> = read_be32 b1 (frsum_off k) + (?after k - ?before k)"
          using k by (simp add: b2_def apply_frsum_read)
        also have "read_be32 b1 (frsum_off k) = read_be32 b (frsum_off k)"
          by (rule read_be32_cong) (use bits q in \<open>auto simp: CG_FREE_OFF_def\<close>)
        finally have lhs: "read_be32 b' (frsum_off k) = read_be32 b (frsum_off k) + (?after k - ?before k)" .
        have after: "?after k = count_free_runs_in_block s1 CG_FREE_OFF (c * n) n k"
          using k bits sbits by (simp add: free_runs_of_map)
        have before: "?before k = ?sc k" using k by (simp add: free_runs_of_map)
        have "read_be32 ?R (frsum_off k) = read_be32 (apply_cg_frsum_delta ?sc
            (count_free_runs_in_block s1 CG_FREE_OFF (c * n) n) n s1) (frsum_off k)"
          by (rule read_be32_cong) (use q in \<open>auto simp: release_counts_def Let_def add_be32_def cg_offsets cell_simps\<close>)
        also have "\<dots> = read_be32 s1 (frsum_off k) + (?after k - ?before k)"
          using k by (simp add: apply_frsum_read after before)
        also have "read_be32 s1 (frsum_off k) = read_be32 b (frsum_off k)" using rd q by simp
        finally show ?thesis using lhs by simp
      qed
      show "free_map (settled (d1 + nb) (d2 + nf) b') k = free_map ?R k" for k
        by (simp add: release_counts_map n(2) smap)
    qed
  qed
qed

text \<open>The same for the loop over the blocks of the range.\<close>

definition range_added :: "nat \<Rightarrow> nat \<Rightarrow> buf \<Rightarrow> buf \<Rightarrow> bool" where
  "range_added p e b b' \<longleftrightarrow> free_map b' = (\<lambda>k. free_map b k \<or> p \<le> k \<and> k < e) \<and>
     (\<forall>i. i < 56 \<or> 724 \<le> i \<and> i < 984 \<longrightarrow> b' i = b i) \<and> (\<forall>k. p \<le> k \<and> k < e \<longrightarrow> \<not> free_map b k)"

lemma add_free_loop_ok:
  assumes "add_free_loop img p e b d1 d2 = Inr (b', nb, nf)"
    and n: "n = unat (frags_per_block (sb img))" "0 < n" "n \<le> 8" and "p \<le> e" "e \<le> N * n"
    and "cg_accounts n N (settled (d1 + u) (d2 + w) b)"
  shows "cg_accounts n N (settled (nb + u) (nf + w) b') \<and> range_added p e b b'"
  using assms(1,5-)
proof (induction "e - p" arbitrary: p b d1 d2 rule: less_induct)
  case less
  show ?case
  proof (cases "p < e")
    case False
    with less.prems n show ?thesis by (auto simp: add_free_loop.simps [of img p] range_added_def)
  next
    case True
    define c where "c = p div n"
    define q where "q = min e (c * n + n)"
    have base: "p - p mod n = c * n" by (simp add: c_def minus_mod_eq_div_mult)
    have pm: "p mod n < n" "c * n + p mod n = p" using n(2) by (simp_all add: c_def)
    then have q: "c * n \<le> p" "p < q" "q \<le> c * n + n" "q \<le> e" using True by (auto simp: q_def)
    have "c < N"
    proof (rule ccontr)
      assume "\<not> c < N"
      then have "N * n \<le> c * n" by simp
      with q True less.prems(3) show False by simp
    qed
    have n0: "unat (frags_per_block (sb img)) = n" using n(1) by simp
    from less.prems(1) [unfolded add_free_loop.simps [of img p e b d1 d2]] True n(2) obtain b1 x y where
      blk: "add_free_in_block img (c * n) p q b = Inr (b1, x, y)" and
      rest: "add_free_loop img q e b1 (d1 + x) (d2 + y) = Inr (b', nb, nf)"
      by (auto simp: Let_def n0 base q_def split: sum.splits)
    note step = add_free_in_block [OF blk n(1,3) q(1-3)]
    have "cg_accounts n N (settled (d1 + x + u) (d2 + y + w) b1)"
      using step(1) [OF less.prems(4) \<open>c < N\<close>] by (simp add: ac_simps)
    from less.hyps [OF _ rest q(4) less.prems(3) this] q True
    have "cg_accounts n N (settled (nb + u) (nf + w) b') \<and> range_added q e b1 b'" by simp
    then show ?thesis using step(2-) q by (auto simp: range_added_def fun_eq_iff) (metis not_less)
  qed
qed

lemma add_free_frag_range_ok:
  assumes "add_free_frag_range img b p e = Inr (b', nb, nf)"
    and "unat e \<le> N * unat (frags_per_block (sb img))"
    and "cg_accounts (unat (frags_per_block (sb img))) N (settled u w b)"
  shows "cg_accounts (unat (frags_per_block (sb img))) N (settled (nb + u) (nf + w) b')"
    "range_added (unat p) (unat e) b b'" "e \<le> frags_per_group (sb img)" "p \<le> e"
proof -
  let ?n = "frags_per_block (sb img)"
  from assms(1) have g: "p \<le> e" "e \<le> frags_per_group (sb img)" "?n \<noteq> 0" "?n \<le> 8"
    and run: "add_free_loop img (unat p) (unat e) b 0 0 = Inr (b', nb, nf)"
    by (auto simp: add_free_frag_range_def Let_def split: if_splits)
  have n: "0 < unat ?n" "unat ?n \<le> 8" "unat p \<le> unat e"
    using g by (auto simp: word_le_nat_alt unat_gt_0)
  show "cg_accounts (unat ?n) N (settled (nb + u) (nf + w) b')" "range_added (unat p) (unat e) b b'"
    using add_free_loop_ok [OF run refl n assms(2), of u w] assms(3) by simp_all
  show "e \<le> frags_per_group (sb img)" "p \<le> e" by (fact g)+
qed

section \<open>Reserving a range for the summary area\<close>

lemma fold_clear_map:
  "free_map (fold (clear_bit CG_FREE_OFF) ks b) = (\<lambda>k. free_map b k \<and> k \<notin> set ks)"
  "i < CG_FREE_OFF \<Longrightarrow> fold (clear_bit CG_FREE_OFF) ks b i = b i"
proof (induction ks arbitrary: b)
  case (Cons k ks)
  case 1
  then show ?case using Cons(1) [of "clear_bit CG_FREE_OFF k b"] by (auto simp: free_map_def fun_eq_iff)
next
  case (Cons k ks)
  case 2
  then show ?case using Cons(2) [of "clear_bit CG_FREE_OFF k b"] by simp
qed simp_all

lemma reserve_in_block:
  assumes run: "reserve_in_block img (c * n) p e b = Inr (b', nb, nf)"
    and n: "n = unat (frags_per_block (sb img))" "0 < n" and p: "c * n \<le> p" "p < e" "e \<le> c * n + n"
    and acc: "cg_accounts n N (settled d1 d2 b)" and c: "c < N"
  shows "cg_accounts n N (settled (d1 + nb) (d2 + nf) b')"
    and "free_map b' = (\<lambda>k. free_map b k \<and> \<not> (p \<le> k \<and> k < e))"
    and "\<And>i. i < 56 \<or> 724 \<le> i \<and> i < 984 \<Longrightarrow> b' i = b i"
    and "\<And>k. p \<le> k \<Longrightarrow> k < e \<Longrightarrow> free_map b k"
proof -
  have n0: "unat (frags_per_block (sb img)) = n" using n(1) by simp
  from run have n8: "n \<le> 8" and free: "list_all (free_bit b CG_FREE_OFF) [p..<e]"
    unfolding reserve_in_block_def by (auto simp: Let_def n0 split: if_splits)
  define b1 where "b1 = fold (clear_bit CG_FREE_OFF) [p..<e] b"
  let ?before = "count_free_runs_in_block b CG_FREE_OFF (c * n) n"
  let ?after = "count_free_runs_in_block b1 CG_FREE_OFF (c * n) n"
  define b2 where "b2 = apply_cg_frsum_delta ?before ?after n b1"
  have map1: "free_map b1 = (\<lambda>k. free_map b k \<and> \<not> (p \<le> k \<and> k < e))"
    by (auto simp: b1_def fold_clear_map fun_eq_iff)
  have map2: "free_map b2 = free_map b1" using free_map_apply_frsum [OF n8] by (simp add: b2_def)
  define full where "full \<longleftrightarrow> blk_full (free_map b) n c"
  let ?F = "free_map b" and ?F' = "free_map b1"
  have part: "\<not> blk_full ?F' n c"
    using p by (auto simp: blk_full_def map1 intro!: exI [of _ "p - c * n"])
  let ?cb = "card {i. i < n \<and> ?F (c * n + i)}" and ?ca = "card {i. i < n \<and> ?F' (c * n + i)}"
  have cards: "?cb = n \<longleftrightarrow> full" "?ca \<noteq> n"
    using count_full [of b c n] count_full [of b1 c n] part by (simp_all add: count_free_bits_card full_def)
  have fin: "(\<forall>i. i < 84 \<or> 724 \<le> i \<longrightarrow> b' i = b2 i) \<and> nb = (if full then - 1 else 0) \<and>
      nf = (if full then int ?ca else int ?ca - int ?cb)"
  proof (cases full)
    case True
    then obtain b3 where "adjust_rotation img (c * n) (- 1) (- 1) b2 = Some b3" "b' = b3" "nb = - 1" "nf = int ?ca"
      using run free n8 cards unfolding reserve_in_block_def
      by (cases "adjust_rotation img (c * n) (- 1) (- 1) b2")
        (simp_all add: Let_def n0 b2_def [symmetric] b1_def [symmetric] count_free_bits_card)
    then show ?thesis using True adjust_rotation_other by auto
  next
    case False
    then show ?thesis
      using run free n8 cards unfolding reserve_in_block_def
      by (simp add: Let_def n0 b2_def [symmetric] b1_def [symmetric] count_free_bits_card)
  qed
  have map': "free_map b' = ?F'"
    using free_map_cong [of b' b2] fin map2 by (auto simp: CG_FREE_OFF_def)
  with map1 show "free_map b' = (\<lambda>k. free_map b k \<and> \<not> (p \<le> k \<and> k < e))" by simp
  show low: "b' i = b i" if "i < 56 \<or> 724 \<le> i \<and> i < 984" for i
    using fin that n8 by (auto simp: b2_def b1_def apply_frsum_other fold_clear_map(2) [unfolded CG_FREE_OFF_def] CG_FREE_OFF_def)
  show "free_map b k" if "p \<le> k" "k < e" for k
    using free that by (simp add: list_all_iff free_map_def)
  have rd: "read_be32 b' CG_CS_NBFREE_OFF = read_be32 b CG_CS_NBFREE_OFF"
    "read_be32 b' CG_CS_NFFREE_OFF = read_be32 b CG_CS_NFFREE_OFF"
    by (rule read_be32_cong, use low in \<open>auto simp: cg_offsets\<close>)+
  show "cg_accounts n N (settled (d1 + nb) (d2 + nf) b')"
  proof (rule cg_accounts_update [OF acc c])
    show "free_map (settled (d1 + nb) (d2 + nf) b') (d * n + i) = free_map (settled d1 d2 b) (d * n + i)"
      if "d \<noteq> c" "i < n" for d i
    proof -
      have "\<not> (p \<le> d * n + i \<and> d * n + i < e)"
        using same_block [of d n i "d * n + i" c, OF refl that(2)] that(1) p by linarith
      then show ?thesis by (auto simp: map' map1)
    qed
    show "read_be32 (settled (d1 + nb) (d2 + nf) b') CG_CS_NBFREE_OFF = read_be32 (settled d1 d2 b) CG_CS_NBFREE_OFF +
      (if blk_full (free_map (settled (d1 + nb) (d2 + nf) b')) n c then 1 else 0) -
      (if blk_full (free_map (settled d1 d2 b)) n c then 1 else 0)"
      using fin part by (simp add: settled_sums rd map' full_def)
    show "read_be32 (settled (d1 + nb) (d2 + nf) b') CG_CS_NFFREE_OFF = read_be32 (settled d1 d2 b) CG_CS_NFFREE_OFF +
      of_nat (blk_frags (free_map (settled (d1 + nb) (d2 + nf) b')) n c) -
      of_nat (blk_frags (free_map (settled d1 d2 b)) n c)"
      using fin part by (simp add: settled_sums rd map' full_def blk_frags_def)
    fix k assume k: "1 \<le> k" "k < n"
    have q: "56 \<le> frsum_off k" "frsum_off k + 4 \<le> 84" using frsum_range [OF k n8] by auto
    have "read_be32 b' (frsum_off k) = read_be32 b2 (frsum_off k)"
      by (rule read_be32_cong) (use fin q in auto)
    also have "\<dots> = read_be32 b1 (frsum_off k) + (?after k - ?before k)"
      using k by (simp add: b2_def apply_frsum_read)
    also have "read_be32 b1 (frsum_off k) = read_be32 b (frsum_off k)"
      by (rule read_be32_cong) (use q in \<open>auto simp: b1_def fold_clear_map(2) [unfolded CG_FREE_OFF_def] CG_FREE_OFF_def\<close>)
    finally show "read_be32 (settled (d1 + nb) (d2 + nf) b') (frsum_off k) = read_be32 (settled d1 d2 b) (frsum_off k) +
      of_nat (blk_runs (free_map (settled (d1 + nb) (d2 + nf) b')) n c k) -
      of_nat (blk_runs (free_map (settled d1 d2 b)) n c k)"
      using k by (simp add: free_runs_of_map map')
  qed
qed

definition range_taken :: "nat \<Rightarrow> nat \<Rightarrow> buf \<Rightarrow> buf \<Rightarrow> bool" where
  "range_taken p e b b' \<longleftrightarrow> free_map b' = (\<lambda>k. free_map b k \<and> \<not> (p \<le> k \<and> k < e)) \<and>
     (\<forall>i. i < 56 \<or> 724 \<le> i \<and> i < 984 \<longrightarrow> b' i = b i) \<and> (\<forall>k. p \<le> k \<and> k < e \<longrightarrow> free_map b k)"

lemma reserve_loop_ok:
  assumes "reserve_loop img p e b d1 d2 = Inr (b', nb, nf)"
    and n: "n = unat (frags_per_block (sb img))" and "e \<le> N * n"
    and "cg_accounts n N (settled d1 d2 b)"
  shows "cg_accounts n N (settled nb nf b') \<and> range_taken p e b b'"
  using assms(1,3-)
proof (induction "e - p" arbitrary: p b d1 d2 rule: less_induct)
  case less
  have n0: "unat (frags_per_block (sb img)) = n" using n by simp
  show ?case
  proof (cases "p < e")
    case False
    with less.prems show ?thesis by (auto simp: reserve_loop.simps [of img p] range_taken_def)
  next
    case True
    define c where "c = p div n"
    define q where "q = min e (c * n + n)"
    have base: "p - p mod n = c * n" by (simp add: c_def minus_mod_eq_div_mult)
    from less.prems(1) [unfolded reserve_loop.simps [of img p e b d1 d2]] True obtain b1 x y where
      n1: "0 < n" and blk: "reserve_in_block img (c * n) p q b = Inr (b1, x, y)" and
      rest: "reserve_loop img q e b1 (d1 + x) (d2 + y) = Inr (b', nb, nf)"
      by (auto simp: Let_def n0 base q_def split: sum.splits if_splits)
    have pm: "p mod n < n" "c * n + p mod n = p" using n1 by (simp_all add: c_def)
    then have q: "c * n \<le> p" "p < q" "q \<le> c * n + n" "q \<le> e" using True by (auto simp: q_def)
    have "c < N"
    proof (rule ccontr)
      assume "\<not> c < N"
      then have "N * n \<le> c * n" by simp
      with q True less.prems(2) show False by simp
    qed
    note step = reserve_in_block [OF blk n n1 q(1-3) less.prems(3) \<open>c < N\<close>]
    have "cg_accounts n N (settled nb nf b') \<and> range_taken q e b1 b'"
      by (rule less.hyps [OF _ rest less.prems(2) step(1)]) (use q True in simp)
    then show ?thesis using step(2-) q by (auto simp: range_taken_def fun_eq_iff) (metis not_less)
  qed
qed

section \<open>A group without free fragments\<close>

lemma sum_prefix_zero:
  fixes f :: "nat \<Rightarrow> u32"
  assumes "m \<le> N" "\<And>b. m \<le> b \<Longrightarrow> b < N \<Longrightarrow> f b = 0"
  shows "(\<Sum>b<N. f b) = (\<Sum>b<m. f b)"
  by (rule sum.mono_neutral_right) (use assms in auto)

text \<open>Blocks without free fragments behind the end of the group do not count.\<close>

lemma cg_accounts_extend:
  assumes "m \<le> N" "0 < n" and none: "\<And>k. m * n \<le> k \<Longrightarrow> k < N * n \<Longrightarrow> \<not> free_map b k"
  shows "cg_accounts n N b \<longleftrightarrow> cg_accounts n m b"
proof -
  have out: "\<not> free_map b (c * n + i)" if "m \<le> c" "c < N" "i < n" for c i
  proof (rule none)
    show "m * n \<le> c * n + i" using that(1) by (simp add: trans_le_add1)
    have "Suc c * n \<le> N * n" using that(2) by (intro mult_le_mono1) simp
    then show "c * n + i < N * n" using that(3) by simp
  qed
  have z: "\<not> blk_full (free_map b) n c" "blk_frags (free_map b) n c = 0" "blk_runs (free_map b) n c k = 0"
    if "m \<le> c" "c < N" for c k
    using blk_none [of n "free_map b" c] out [OF that] assms(2) by auto
  have "(\<Sum>c<N. if blk_full (free_map b) n c then 1 else 0 :: u32) = (\<Sum>c<m. if blk_full (free_map b) n c then 1 else 0)"
    by (rule sum_prefix_zero) (use assms z in auto)
  moreover have "(\<Sum>c<N. of_nat (blk_frags (free_map b) n c) :: u32) = (\<Sum>c<m. of_nat (blk_frags (free_map b) n c))"
    by (rule sum_prefix_zero) (use assms z in auto)
  moreover have "(\<Sum>c<N. of_nat (blk_runs (free_map b) n c k) :: u32) = (\<Sum>c<m. of_nat (blk_runs (free_map b) n c k))" for k
    by (rule sum_prefix_zero) (use assms z in auto)
  ultimately show ?thesis by (simp add: cg_accounts_def)
qed

lemma nblk_mono: "a \<le> b \<Longrightarrow> nblk n a \<le> nblk n b"
  by (simp add: nblk_def div_le_mono)

lemma nblk_cover: "0 < n \<Longrightarrow> limit \<le> nblk n limit * n"
proof -
  assume n: "0 < n"
  have "limit + n - 1 < (limit + n - 1) div n * n + n"
    using n div_mult_mod_eq [of "limit + n - 1" n] mod_less_divisor [OF n, of "limit + n - 1"] by linarith
  then show ?thesis using n by (simp add: nblk_def)
qed

text \<open>No free fragments behind the end of the group.\<close>

definition tail_clear :: "nextufs_image \<Rightarrow> buf \<Rightarrow> bool" where
  "tail_clear img b \<longleftrightarrow> (\<forall>k. unat (read_be32 b CG_NDBLK_OFF) \<le> k \<and> k < unat (frags_per_group (sb img)) \<longrightarrow>
     \<not> free_map b k)"

section \<open>The last group, larger\<close>

lemma expanded_group_ok:
  assumes geo: "geometry_ok img" and wf: "cg_wf img b"
    and limit: "unat (read_be32 b CG_NDBLK_OFF) = unat p"
    and tail: "\<And>k. unat p \<le> k \<Longrightarrow> k < unat (frags_per_group (sb img)) \<Longrightarrow> \<not> free_map b k"
    and run: "expanded_group img p e nc b = Inr (b', nb, nf)"
  shows "cg_wf img b'" "free_map b' = (\<lambda>k. free_map b k \<or> unat p \<le> k \<and> k < unat e)"
    "read_be32 b' CG_NDBLK_OFF = e"
    "j < 4 \<Longrightarrow> read_be32 b' (CG_CS_NDIR_OFF + j * 4) =
       read_be32 b (CG_CS_NDIR_OFF + j * 4) + word_of_int ([0, nb, 0, nf] ! j)"
    "p \<le> e" "e \<le> frags_per_group (sb img)"
proof -
  note g = geometry_simps [OF geo]
  let ?n = "unat (frags_per_block (sb img))"
  define N where "N = nblk ?n (unat e)"
  from run obtain b1 where add: "add_free_frag_range img b p e = Inr (b1, nb, nf)"
    and b': "b' = settled nb nf (write_be32 (write_be16 b1 CG_NCYL_OFF nc) CG_NDBLK_OFF e)"
    by (auto simp: expanded_group_def settled_def Let_def split: sum.splits)
  have e: "e \<le> frags_per_group (sb img)" "p \<le> e"
    using add by (auto simp: add_free_frag_range_def Let_def split: if_splits)
  then have le: "unat e \<le> unat (frags_per_group (sb img))" "unat p \<le> unat e" by (simp_all add: word_le_nat_alt)
  have acc0: "cg_accounts ?n (nblk ?n (unat p)) b" using wf limit by (simp add: cg_wf_def Let_def)
  have N: "nblk ?n (unat p) \<le> N" "N * ?n \<le> unat (frags_per_group (sb img))"
    using nblk_mono le(2) nblk_mult_le [OF g(4) le(1) g(1)] by (simp_all add: N_def)
  have "cg_accounts ?n N b"
  proof (rule iffD2 [OF cg_accounts_extend [OF N(1) g(1)] acc0])
    fix k assume "nblk ?n (unat p) * ?n \<le> k" "k < N * ?n"
    then show "\<not> free_map b k" using N(2) nblk_cover [OF g(1), of "unat p"] by (intro tail) auto
  qed
  then have "cg_accounts ?n N (settled 0 0 b)" by (simp add: cg_accounts_settled_0)
  from add_free_frag_range_ok [OF add _ this] nblk_cover [OF g(1), of "unat e"]
  have acc: "cg_accounts ?n N (settled nb nf b1)" and added: "range_added (unat p) (unat e) b b1"
    by (simp_all add: N_def)
  have map: "free_map b' = (\<lambda>k. free_map b k \<or> unat p \<le> k \<and> k < unat e)"
    using added by (simp add: b' range_added_def cell_simps CG_NCYL_OFF_def CG_NDBLK_OFF_def)
  show "free_map b' = (\<lambda>k. free_map b k \<or> unat p \<le> k \<and> k < unat e)" by (fact map)
  have same: "b' i = settled nb nf b1 i" if "\<not> (16 \<le> i \<and> i < 18)" "\<not> (20 \<le> i \<and> i < 24)" for i
  proof -
    have "read_be32 (write_be32 (write_be16 b1 CG_NCYL_OFF nc) CG_NDBLK_OFF e) q = read_be32 b1 q" if "24 \<le> q" for q
      using that by (simp add: cell_simps CG_NCYL_OFF_def CG_NDBLK_OFF_def)
    then show ?thesis
      using that by (simp add: b' settled_def add_be32_def cg_offsets cell_simps CG_NCYL_OFF_def)
        (auto simp: write_be32_def write_be16_def)
  qed
  show lim: "read_be32 b' CG_NDBLK_OFF = e"
    by (simp add: b' settled_def add_be32_def cell_simps cg_offsets)
  have low: "b' i = b i" if "32 \<le> i \<and> i < 36 \<or> 24 \<le> i \<and> i < 28 \<or> 724 \<le> i \<and> i < 984" for i
    using same [of i] that added settled_other [of i nb nf b1] by (auto simp: range_added_def)
  have rd1: "read_be32 b1 q = read_be32 b q" if "q + 4 \<le> 56" for q
    by (rule read_be32_cong) (use added that in \<open>auto simp: range_added_def\<close>)
  have sums: "read_be32 b' CG_CS_NBFREE_OFF = read_be32 b CG_CS_NBFREE_OFF + word_of_int nb"
    "read_be32 b' CG_CS_NFFREE_OFF = read_be32 b CG_CS_NFFREE_OFF + word_of_int nf"
    by (simp_all add: b' settled_def add_be32_def cell_simps cg_offsets CG_NCYL_OFF_def rd1)
  have "cg_accounts ?n N b' = cg_accounts ?n N (settled nb nf b1)"
  proof (rule cg_accounts_cong)
    fix k assume "1 \<le> k" "k < ?n"
    from frsum_range [OF this g(2)] show "read_be32 b' (frsum_off k) = read_be32 (settled nb nf b1) (frsum_off k)"
      by (intro read_be32_cong same) auto
  next
    fix k show "free_map b' k = free_map (settled nb nf b1) k"
      using added map by (simp add: range_added_def)
  qed (rule read_be32_cong, rule same, auto simp: cg_offsets)+
  with acc have acc': "cg_accounts ?n N b'" by simp
  have rd: "read_be32 b' CG_MAGIC_OFF = read_be32 b CG_MAGIC_OFF" "read_be32 b' CG_CS_NIFREE_OFF = read_be32 b CG_CS_NIFREE_OFF"
    "read_be32 b' CG_CS_NDIR_OFF = read_be32 b CG_CS_NDIR_OFF"
    by (rule read_be32_cong, rule low, auto simp: cg_offsets)+
  have "inode_used b' i = inode_used b i" if "i < unat (inodes_per_group (sb img))" for i
    using low [of "724 + i div 8"] that g(8) by (simp add: inode_used_def free_bit_def CG_IUSED_OFF_def)
  then have "inode_accounts (unat (inodes_per_group (sb img))) b' = inode_accounts (unat (inodes_per_group (sb img))) b"
    by (intro inode_accounts_cong) (simp_all add: rd)
  moreover have "\<not> free_map b' k" if "unat e \<le> k" "k < N * ?n" for k
    using that tail [of k] le N(2) by (auto simp: map)
  ultimately show "cg_wf img b'"
    using wf acc' le(1) by (auto simp: cg_wf_def Let_def lim rd N_def)
  show "j < 4 \<Longrightarrow> read_be32 b' (CG_CS_NDIR_OFF + j * 4) =
       read_be32 b (CG_CS_NDIR_OFF + j * 4) + word_of_int ([0, nb, 0, nf] ! j)"
    using sums rd unfolding less_4 by (elim disjE) (simp_all add: cg_offsets)
  show "p \<le> e" "e \<le> frags_per_group (sb img)" by (fact e)+
qed

section \<open>A new group\<close>

text \<open>The fragments of a group in front of its superblock copy, and the first behind its inodes.\<close>

definition group_lower :: "nextufs_image \<Rightarrow> u32 \<Rightarrow> u32" where
  "group_lower img cg = ucast (cgsblock img cg - ucast (frags_per_group (sb img)) * ucast cg)"

definition group_upper :: "nextufs_image \<Rightarrow> u32 \<Rightarrow> u32" where
  "group_upper img cg = ucast (cgdmin img cg - ucast (frags_per_group (sb img)) * ucast cg)"

definition group_header :: "nextufs_image \<Rightarrow> u32 \<Rightarrow> u16 \<Rightarrow> u32 \<Rightarrow> u32 \<Rightarrow> buf" where
  "group_header img cg nc ndblk now = write_be32 (write_be32 (write_be32 (write_be16 (write_be16 (write_be32
     (write_be32 (\<lambda>_. 0) CG_TIME_OFF now) CG_CGX_OFF cg) CG_NCYL_OFF nc) CG_NIBLK_OFF
     (ucast (inodes_per_group (sb img)))) CG_NDBLK_OFF ndblk) CG_IROTOR_OFF 0) CG_MAGIC_OFF CG_MAGIC"

lemma group_header_zero:
  "24 \<le> i \<and> i < 48 \<or> 52 \<le> i \<and> i < 980 \<or> 984 \<le> i \<Longrightarrow> group_header img cg nc ndblk now i = 0"
  by (auto simp: group_header_def cg_offsets CG_CGX_OFF_def CG_NCYL_OFF_def CG_NIBLK_OFF_def cell_simps)

lemma group_header_map: "\<not> free_map (group_header img cg nc ndblk now) k"
  by (simp add: free_map_def free_bit_def CG_FREE_OFF_def group_header_zero test_bit8_def)

lemma group_header_read:
  "24 \<le> p \<and> p + 4 \<le> 48 \<or> 52 \<le> p \<and> p + 4 \<le> 980 \<Longrightarrow> read_be32 (group_header img cg nc ndblk now) p = 0"
  "read_be32 (group_header img cg nc ndblk now) CG_NDBLK_OFF = ndblk"
  "read_be32 (group_header img cg nc ndblk now) CG_MAGIC_OFF = CG_MAGIC"
proof -
  assume p: "24 \<le> p \<and> p + 4 \<le> 48 \<or> 52 \<le> p \<and> p + 4 \<le> 980"
  have "read_be32 (group_header img cg nc ndblk now) p = read_be32 (\<lambda>_. 0) p"
    by (rule read_be32_cong, rule group_header_zero) (use p in auto)
  then show "read_be32 (group_header img cg nc ndblk now) p = 0" by simp
qed (simp_all add: group_header_def cg_offsets cell_simps)

lemma group_header_accounts:
  assumes "0 < n" "n \<le> 8"
  shows "cg_accounts n N (group_header img cg nc ndblk now)"
proof -
  let ?h = "group_header img cg nc ndblk now"
  note z = blk_none [of n "free_map ?h", OF group_header_map assms(1)]
  have "read_be32 ?h (frsum_off k) = 0" if "1 \<le> k" "k < n" for k
    using frsum_range [OF that assms(2)] by (intro group_header_read(1)) auto
  then show ?thesis
    by (auto simp: cg_accounts_def z group_header_read(1) cg_offsets)
qed

lemma build_new_cg_ok:
  assumes geo: "geometry_ok img" and order: "group_lower img cg \<le> group_upper img cg"
    and run: "build_new_cg img cg nc ndblk now = Inr (b, nb, nf)"
  shows "cg_wf img b"
    "free_map b = (\<lambda>k. k < unat (group_lower img cg) \<or> unat (group_upper img cg) \<le> k \<and> k < unat ndblk)"
    "read_be32 b CG_NDBLK_OFF = ndblk" "i < unat (inodes_per_group (sb img)) \<Longrightarrow> \<not> inode_used b i"
    "j < 4 \<Longrightarrow> read_be32 b (CG_CS_NDIR_OFF + j * 4) =
       [0, word_of_int nb, inodes_per_group (sb img), word_of_int nf] ! j"
    "ndblk \<le> frags_per_group (sb img)" "tail_clear img b"
proof -
  note g = geometry_simps [OF geo]
  let ?n = "unat (frags_per_block (sb img))" and ?h = "group_header img cg nc ndblk now"
  let ?lo = "group_lower img cg" and ?up = "group_upper img cg"
  define N where "N = nblk ?n (unat ndblk)"
  from run have nd: "ndblk \<le> frags_per_group (sb img)" "?up \<le> ndblk"
    by (auto simp: build_new_cg_def Let_def group_upper_def not_less split: if_splits)
  from run obtain b1 nb1 nf1 b2 nb2 nf2 where
    r1: "add_free_frag_range img ?h 0 ?lo = Inr (b1, nb1, nf1)" and
    r2: "add_free_frag_range img b1 ?up ndblk = Inr (b2, nb2, nf2)" and
    b: "b = write_be32 (write_be32 (write_be32 b2 CG_CS_NBFREE_OFF (word_of_int nb)) CG_CS_NIFREE_OFF
      (inodes_per_group (sb img))) CG_CS_NFFREE_OFF (word_of_int nf)" and
    sums: "nb = nb1 + nb2" "nf = nf1 + nf2"
    by (auto simp: build_new_cg_def Let_def group_upper_def group_lower_def group_header_def
      split: if_splits sum.splits)
  have le: "unat ?lo \<le> unat ?up" "unat ?up \<le> unat ndblk" "unat ndblk \<le> unat (frags_per_group (sb img))"
    using order nd by (simp_all add: word_le_nat_alt)
  have N: "unat ndblk \<le> N * ?n" "N * ?n \<le> unat (frags_per_group (sb img))"
    using nblk_cover [OF g(1)] nblk_mult_le [OF g(4) le(3) g(1)] by (simp_all add: N_def)
  have "cg_accounts ?n N (settled 0 0 ?h)" by (simp add: cg_accounts_settled_0 group_header_accounts g)
  from add_free_frag_range_ok [OF r1 _ this] le N have a1: "cg_accounts ?n N (settled nb1 nf1 b1)"
    and d1: "range_added 0 (unat ?lo) ?h b1" by auto
  from add_free_frag_range_ok [OF r2 N(1) a1] have a2: "cg_accounts ?n N (settled nb nf b2)"
    and d2: "range_added (unat ?up) (unat ndblk) b1 b2" by (auto simp: sums ac_simps)
  have map2: "free_map b2 = (\<lambda>k. k < unat ?lo \<or> unat ?up \<le> k \<and> k < unat ndblk)"
    using d1 d2 by (simp add: range_added_def group_header_map)
  have low: "b2 i = ?h i" if "i < 56 \<or> 724 \<le> i \<and> i < 984" for i
    using d1 d2 that by (auto simp: range_added_def)
  have rd: "read_be32 b2 q = read_be32 ?h q" if "q + 4 \<le> 56 \<or> 724 \<le> q \<and> q + 4 \<le> 984" for q
    by (rule read_be32_cong, rule low) (use that in auto)
  have map: "free_map b = free_map b2" by (simp add: b cell_simps cg_offsets)
  then show "free_map b = (\<lambda>k. k < unat ?lo \<or> unat ?up \<le> k \<and> k < unat ndblk)" using map2 by simp
  have zero: "read_be32 b2 CG_CS_NDIR_OFF = 0" "read_be32 b2 CG_CS_NBFREE_OFF = 0" "read_be32 b2 CG_CS_NFFREE_OFF = 0"
    by (simp_all add: rd group_header_read(1) cg_offsets)
  have cnt: "read_be32 b CG_CS_NDIR_OFF = 0" "read_be32 b CG_CS_NBFREE_OFF = word_of_int nb"
    "read_be32 b CG_CS_NIFREE_OFF = inodes_per_group (sb img)" "read_be32 b CG_CS_NFFREE_OFF = word_of_int nf"
    using zero by (simp_all add: b cell_simps cg_offsets)
  then show "j < 4 \<Longrightarrow> read_be32 b (CG_CS_NDIR_OFF + j * 4) =
       [0, word_of_int nb, inodes_per_group (sb img), word_of_int nf] ! j"
    unfolding less_4 by (elim disjE) (simp_all add: cg_offsets)
  show lim: "read_be32 b CG_NDBLK_OFF = ndblk"
    using rd [of CG_NDBLK_OFF] by (simp add: b cell_simps cg_offsets group_header_read(2) [unfolded cg_offsets])
  have magic: "read_be32 b CG_MAGIC_OFF = CG_MAGIC"
    using rd [of CG_MAGIC_OFF] by (simp add: b cell_simps cg_offsets group_header_read(3) [unfolded cg_offsets])
  have "cg_accounts ?n N b = cg_accounts ?n N (settled nb nf b2)"
  proof (rule cg_accounts_cong)
    fix k assume "1 \<le> k" "k < ?n"
    from frsum_range [OF this g(2)] show "read_be32 b (frsum_off k) = read_be32 (settled nb nf b2) (frsum_off k)"
      by (simp add: b cell_simps cg_offsets)
  qed (simp_all add: cnt settled_sums zero map)
  with a2 have acc: "cg_accounts ?n N b" by simp
  have unused: "\<not> inode_used b i" if "i < unat (inodes_per_group (sb img))" for i
  proof -
    have i: "724 + i div 8 < 980" using that g(8) by linarith
    then have "b (724 + i div 8) = ?h (724 + i div 8)"
      using low [of "724 + i div 8"] by (simp add: b cell_simps cg_offsets)
    also have "\<dots> = 0" using i by (intro group_header_zero) simp
    finally show ?thesis by (simp add: inode_used_def free_bit_def CG_IUSED_OFF_def test_bit8_def)
  qed
  then show "i < unat (inodes_per_group (sb img)) \<Longrightarrow> \<not> inode_used b i" by simp
  have "inode_accounts (unat (inodes_per_group (sb img))) b"
    by (simp add: inode_accounts_def cnt unused)
  with acc lim magic le N(2) show "cg_wf img b" by (auto simp: cg_wf_def Let_def N_def map map2)
  show "ndblk \<le> frags_per_group (sb img)" by (fact nd)
  show "tail_clear img b" using le by (auto simp: tail_clear_def lim map map2)
qed

section \<open>The group of the summary area\<close>

lemma reserved_ok:
  assumes geo: "geometry_ok img" and wf: "cg_wf img b" and tail: "tail_clear img b"
    and run: "reserve_loop img p e b 0 0 = Inr (b1, nb, nf)" and e: "e \<le> unat (frags_per_group (sb img))"
  shows "cg_wf img (settled nb nf b1)" "tail_clear img (settled nb nf b1)" "range_taken p e b b1"
    "j < 4 \<Longrightarrow> read_be32 (settled nb nf b1) (CG_CS_NDIR_OFF + j * 4) =
       read_be32 b (CG_CS_NDIR_OFF + j * 4) + word_of_int ([0, nb, 0, nf] ! j)"
proof -
  note g = geometry_simps [OF geo]
  let ?n = "unat (frags_per_block (sb img))" and ?b = "settled nb nf b1"
  let ?limit = "unat (read_be32 b CG_NDBLK_OFF)"
  let ?fpg = "unat (frags_per_group (sb img))"
  define N where "N = ?fpg div ?n"
  have N: "N * ?n = ?fpg" using g(4) by (simp add: N_def)
  have lim: "?limit \<le> ?fpg" and acc0: "cg_accounts ?n (nblk ?n ?limit) b" using wf by (simp_all add: cg_wf_def Let_def)
  have le: "nblk ?n ?limit \<le> N"
    using nblk_mult_le [OF g(4) lim g(1)] N g(1) by (metis mult_le_cancel2)
  have out: "\<not> free_map b k" if "nblk ?n ?limit * ?n \<le> k" "k < N * ?n" for k
    using tail that nblk_cover [OF g(1), of ?limit] N by (simp add: tail_clear_def)
  have "cg_accounts ?n N (settled 0 0 b)"
    using acc0 cg_accounts_extend [OF le g(1) out] by (simp add: cg_accounts_settled_0)
  from reserve_loop_ok [OF run refl _ this] e N have acc: "cg_accounts ?n N ?b" and taken: "range_taken p e b b1" by auto
  have low: "?b i = b i" if "i < 28 \<or> 32 \<le> i \<and> i < 36 \<or> 40 \<le> i \<and> i < 56 \<or> 724 \<le> i \<and> i < 984" for i
    using taken that settled_other [of i nb nf b1] by (auto simp: range_taken_def)
  have rd: "read_be32 ?b q = read_be32 b q" if "q + 4 \<le> 28 \<or> q = 32 \<or> q = 980" for q
    by (rule read_be32_cong, rule low) (use that in auto)
  show "range_taken p e b b1" by (fact taken)
  have ndblk: "read_be32 ?b CG_NDBLK_OFF = read_be32 b CG_NDBLK_OFF" by (rule rd) (simp add: cg_offsets)
  have sub: "free_map ?b k \<Longrightarrow> free_map b k" for k using taken by (simp add: range_taken_def)
  show tail': "tail_clear img ?b" using tail sub by (auto simp: tail_clear_def ndblk)
  have "cg_accounts ?n (nblk ?n ?limit) ?b"
    using acc cg_accounts_extend [OF le g(1), of ?b] out sub by blast
  moreover have "\<not> free_map b k" if "?limit \<le> k" "k < nblk ?n ?limit * ?n" for k
    using wf that by (simp add: cg_wf_def Let_def)
  ultimately show "cg_wf img ?b"
    by (intro cg_wf_frag_side [OF wf geo]) (use sub low in auto)
  have sums: "read_be32 ?b CG_CS_NBFREE_OFF = read_be32 b CG_CS_NBFREE_OFF + word_of_int nb"
    "read_be32 ?b CG_CS_NFFREE_OFF = read_be32 b CG_CS_NFFREE_OFF + word_of_int nf"
  proof -
    have "read_be32 b1 q = read_be32 b q" if "q + 4 \<le> 56" for q
      by (rule read_be32_cong) (use taken that in \<open>auto simp: range_taken_def\<close>)
    then show "read_be32 ?b CG_CS_NBFREE_OFF = read_be32 b CG_CS_NBFREE_OFF + word_of_int nb"
      "read_be32 ?b CG_CS_NFFREE_OFF = read_be32 b CG_CS_NFFREE_OFF + word_of_int nf"
      unfolding settled_sums by (simp_all add: cg_offsets)
  qed
  show "j < 4 \<Longrightarrow> read_be32 ?b (CG_CS_NDIR_OFF + j * 4) =
       read_be32 b (CG_CS_NDIR_OFF + j * 4) + word_of_int ([0, nb, 0, nf] ! j)"
    using sums rd unfolding less_4 by (elim disjE) (simp_all add: cg_offsets)
qed

end
