(* ===== verification/ResizeFs.thy ===== *)
theory ResizeFs
  imports ResizeOk
begin

text \<open>
  Growing keeps the file system's accounts: from the state the command starts in, through the
  larger last group, the larger summary area and the new groups, to the superblock that ties them
  together. The image is described by the one that has all groups of the grown file system; the
  first so many of them are in order at each point.
\<close>

section \<open>Transfers inside the slice\<close>

lemma wp_unless: "(\<not> b \<Longrightarrow> wp m (\<lambda>_ _. True) Q s) \<Longrightarrow> wp (if b then fail e else m) (\<lambda>_ _. True) Q s"
  by (simp add: wp_fail)

definition in_slice :: "nextufs_image \<Rightarrow> int \<Rightarrow> nat" where
  "in_slice img off = nat (slice_base img + off)"

lemma wp_image_pwrite:
  assumes "sys_ok s" "\<And>t. sys_ok t \<Longrightarrow> 0 \<le> off \<Longrightarrow> disk t = blit (disk s) (in_slice img off) n d \<Longrightarrow> Q () t"
  shows "wp (image_pwrite img d n off) (\<lambda>_ _. True) Q s"
proof (cases "off < 0")
  case False
  then show ?thesis
    unfolding image_pwrite_def by (simp, intro img.wp_wr [OF assms(1)]) (use assms(2) in \<open>auto simp: in_slice_def\<close>)
qed (simp add: image_pwrite_def wp_fail)

lemma wp_image_pread:
  assumes "sys_ok s" "\<And>t. sys_ok t \<Longrightarrow> disk t = disk s \<Longrightarrow> Q (view s (in_slice img off) n) t"
  shows "wp (image_pread img n off) (\<lambda>_ _. True) Q s"
proof (cases "off < 0")
  case False
  then show ?thesis
    unfolding image_pread_def by (simp, intro img.wp_rd [OF assms(1)]) (use assms(2) in \<open>auto simp: view_def in_slice_def\<close>)
qed (simp add: image_pread_def wp_fail)

lemma cg_addr_in_slice: "cg_addr img cg = in_slice img (frag_bytes img (cgtod img cg))"
  by (simp add: cg_addr_def cg_block_offset_def in_slice_def frag_bytes_def cgtod_def)

text \<open>An area that is overwritten, and nothing else.\<close>

definition only_area :: "nat \<Rightarrow> nat \<Rightarrow> sys \<Rightarrow> sys \<Rightarrow> bool" where
  "only_area a n s t \<longleftrightarrow> sys_ok t \<and> (\<forall>i. i < a \<or> a + n \<le> i \<longrightarrow> disk t i = disk s i)"

lemma only_area_view: "only_area a n s t \<Longrightarrow> apart a n b m \<Longrightarrow> view t b m = view s b m"
  by (rule view_cong) (auto simp: only_area_def apart_def)

lemma wp_write_zeroes_loop:
  assumes "sys_ok s" "d = 0 \<or> 0 \<le> off" "d \<le> len" "0 \<le> slice_base img"
  shows "wp (write_zeroes_loop img off len d) (\<lambda>_ _. True)
    (\<lambda>_ t. sys_ok t \<and> disk t = blit (disk s) (in_slice img off + d) (len - d) (\<lambda>_. 0)) s"
  using assms
proof (induction "len - d" arbitrary: d s rule: less_induct)
  case less
  show ?case
  proof (cases "d < len")
    case False
    with less.prems have "d = len" by simp
    with less.prems(1) show ?thesis by (simp add: wp_def write_zeroes_loop.simps [of img off len len])
  next
    case True
    let ?c = "min (len - d) 8192"
    have step: "write_zeroes_loop img off len d =
      andthen (image_pwrite img (\<lambda>_. 0) ?c (off + int d)) (\<lambda>_. write_zeroes_loop img off len (d + ?c))"
      using True by (rule_tac ext) (simp add: write_zeroes_loop.simps [of img off len d] andthen_def Let_def
        split: prod.splits sum.splits)
    show ?thesis
      unfolding step wp_andthen
    proof (rule wp_image_pwrite [OF less.prems(1)])
      fix t assume t: "sys_ok t" "0 \<le> off + int d" "disk t = blit (disk s) (in_slice img (off + int d)) ?c (\<lambda>_. 0)"
      from t(2) less.prems(2) have off: "0 \<le> off" by auto
      have a: "in_slice img (off + int d) = in_slice img off + d"
        using off less.prems(4) by (simp add: in_slice_def nat_add_distrib flip: add.assoc)
      have "wp (write_zeroes_loop img off len (d + ?c)) (\<lambda>_ _. True)
        (\<lambda>_ v. sys_ok v \<and> disk v = blit (disk t) (in_slice img off + (d + ?c)) (len - (d + ?c)) (\<lambda>_. 0)) t"
        by (rule less.hyps) (use True off t less.prems in auto)
      moreover have "blit (disk t) (in_slice img off + (d + ?c)) (len - (d + ?c)) (\<lambda>_. 0) =
          blit (disk s) (in_slice img off + d) (len - d) (\<lambda>_. 0)"
      proof -
        have "len - d = ?c + (len - (d + ?c))" by auto
        then show ?thesis unfolding t(3) a
          using blit_append [of "disk s" "in_slice img off + d" ?c "\<lambda>_. 0" "len - (d + ?c)"]
          by (simp add: add.assoc)
      qed
      ultimately show "wp (write_zeroes_loop img off len (d + ?c)) (\<lambda>_ _. True)
        (\<lambda>_ v. sys_ok v \<and> disk v = blit (disk s) (in_slice img off + d) (len - d) (\<lambda>_. 0)) t" by simp
    qed
  qed
qed

lemma wp_write_zeroes:
  assumes "sys_ok s" "0 \<le> slice_base img"
    "\<And>t. sys_ok t \<Longrightarrow> disk t = blit (disk s) (in_slice img off) (unat len) (\<lambda>_. 0) \<Longrightarrow>
      only_area (in_slice img off) (unat len) s t \<Longrightarrow> Q () t"
  shows "wp (write_zeroes img off len) (\<lambda>_ _. True) Q s"
  unfolding write_zeroes_def
  using wp_write_zeroes_loop [OF assms(1) _ _ assms(2), of 0 off "unat len"]
  by (rule wp_mono) (auto simp: only_area_def intro!: assms(3))

section \<open>One group and its summary entry\<close>

text \<open>The summary entries lie where the allocator expects them.\<close>

definition summary_addressable :: "nextufs_image \<Rightarrow> bool" where
  "summary_addressable img \<longleftrightarrow> 0 \<le> slice_base img \<and>
     unat (cyl_summary_addr (sb img)) * unat (frag_size (sb img)) < 2 ^ 62"

lemma product_in_64: "unat (ucast (a :: u32) * ucast (b :: u32) :: u64) = unat a * unat b"
proof -
  have "unat (ucast a :: u64) = unat a" "unat (ucast b :: u64) = unat b"
    using unat_le_max32 [of a] unat_le_max32 [of b] by (simp_all add: unsigned_ucast_eq take_bit_nat_eq_self)
  moreover have "unat a * unat b < 2 ^ 64"
    using mult_strict_mono [OF unat_le_max32 unat_le_max32, of b a] by simp
  ultimately show ?thesis by (simp add: unat_word_ariths)
qed

lemma sint_small: "unat (x :: u64) < 2 ^ 63 \<Longrightarrow> sint x = int (unat x)"
proof -
  assume lt: "unat x < 2 ^ 63"
  from iffD1 [OF nat_less_iff [OF uint_ge_0] lt [unfolded unat_eq_nat_uint]] have u: "uint x < 2 ^ 63" by simp
  have l: "- (2 ^ 63) \<le> uint x" by (rule order_trans [OF _ uint_ge_0]) simp
  have "signed_take_bit 63 (uint x) = uint x" by (rule signed_take_bit_int_eq_self [OF l u])
  then show "sint x = int (unat x)" by (simp add: sint_uint)
qed

lemma csum_off_value:
  fixes cg :: u32
  assumes "summary_addressable img"
  shows "frag_bytes img (ucast (cyl_summary_addr (sb img))) + sint (ucast cg * ucast CSUM_SIZE :: u64) =
    int (unat (cyl_summary_addr (sb img)) * unat (frag_size (sb img))) + int (unat cg * 16)"
proof -
  have p: "unat (ucast cg * ucast CSUM_SIZE :: u64) = unat cg * 16"
    using product_in_64 [of cg CSUM_SIZE] by (simp add: CSUM_SIZE_def)
  then have "sint (ucast cg * ucast CSUM_SIZE :: u64) = int (unat cg * 16)"
    using unat_le_max32 [of cg] sint_small [of "ucast cg * ucast CSUM_SIZE"] by simp
  moreover have "frag_bytes img (ucast (cyl_summary_addr (sb img))) =
      int (unat (cyl_summary_addr (sb img)) * unat (frag_size (sb img)))"
    using assms sint_small [of "ucast (cyl_summary_addr (sb img)) * ucast (frag_size (sb img))"]
    by (simp add: frag_bytes_def product_in_64 summary_addressable_def)
  ultimately show ?thesis by simp
qed

lemma csum_offset:
  "summary_addressable img \<Longrightarrow>
     in_slice img (frag_bytes img (ucast (cyl_summary_addr (sb img))) + sint (ucast cg * ucast CSUM_SIZE :: u64)) =
     cs_addr img cg"
  unfolding csum_off_value by (simp add: in_slice_def cs_addr_def add.assoc)

text \<open>Group \<open>cg\<close> now holds \<open>b\<close>, its summary entry the counters \<open>e\<close>, and nothing else changed.\<close>

definition group_set :: "nextufs_image \<Rightarrow> u32 \<Rightarrow> buf \<Rightarrow> (nat \<Rightarrow> u32) \<Rightarrow> sys \<Rightarrow> sys \<Rightarrow> bool" where
  "group_set img cg b e s t \<longleftrightarrow> sys_ok t \<and> cg_view img cg t = clip (cg_bytes img) b \<and>
     (\<forall>j<4. read_be32 (cs_view img cg t) (j * 4) = e j) \<and>
     (\<forall>a n. apart (cg_addr img cg) (cg_bytes img) a n \<longrightarrow> apart (cs_addr img cg) 16 a n \<longrightarrow>
       view t a n = view s a n)"

lemma wp_write_group_and_entry:
  assumes "sys_ok s" "summary_addressable img"
    and sep: "apart (cg_addr img cg) (cg_bytes img) (cs_addr img cg) 16"
    and Q: "\<And>t. group_set img cg b e s t \<Longrightarrow> Q () t"
  shows "wp (write_group img cg b) (\<lambda>_ _. True)
    (\<lambda>_. wp (write_csum_entry img cg (e 0) (e 1) (e 2) (e 3)) (\<lambda>_ _. True) Q) s"
  unfolding write_group_def
proof (rule wp_image_pwrite [OF assms(1)], unfold cg_addr_in_slice [symmetric] cg_bytes_def [symmetric])
  fix t assume t: "sys_ok t" "disk t = blit (disk s) (cg_addr img cg) (cg_bytes img) b"
  have size: "unat CSUM_SIZE = 16" by (simp add: CSUM_SIZE_def)
  let ?c = "write_be32 (write_be32 (write_be32 (write_be32 (\<lambda>_. 0) 0 (e 0)) 4 (e 1)) 8 (e 2)) 12 (e 3)"
  show "wp (write_csum_entry img cg (e 0) (e 1) (e 2) (e 3)) (\<lambda>_ _. True) Q t"
    unfolding write_csum_entry_def write_csum_entry_at_def Let_def
  proof (rule wp_image_pwrite [OF t(1)], unfold csum_offset [OF assms(2)] size)
    fix u assume u: "sys_ok u" "disk u = blit (disk t) (cs_addr img cg) 16 ?c"
    have "cg_view img cg u = cg_view img cg t"
      by (rule view_blit_other [OF u(2) order_refl]) (use sep in \<open>simp add: apart_sym\<close>)
    moreover have "cg_view img cg t = clip (cg_bytes img) b" by (rule view_blit_same [OF t(2)])
    moreover have "read_be32 (cs_view img cg u) (j * 4) = e j" if "j < 4" for j
      using that unfolding view_blit_same [OF u(2)] less_4
      by (elim disjE) (simp_all add: cell_simps)
    moreover have "view u a n = view s a n"
      if "apart (cg_addr img cg) (cg_bytes img) a n" "apart (cs_addr img cg) 16 a n" for a n
      using view_blit_other [OF u(2) order_refl that(2)] view_blit_other [OF t(2) order_refl that(1)] by simp
    ultimately show "Q () u" using u(1) by (intro Q) (simp add: group_set_def)
  qed
qed

lemma wp_write_group_and_csum:
  assumes "sys_ok s" "summary_addressable img"
    and "apart (cg_addr img cg) (cg_bytes img) (cs_addr img cg) 16"
    and Q: "\<And>t. group_set img cg b (\<lambda>j. read_be32 b (CG_CS_NDIR_OFF + j * 4)) s t \<Longrightarrow> Q () t"
  shows "wp (write_group_and_csum img cg b) (\<lambda>_ _. True) Q s"
  using wp_write_group_and_entry [OF assms(1-3), of b "\<lambda>j. read_be32 b (CG_CS_NDIR_OFF + j * 4)" Q] Q
  by (simp add: write_group_and_csum_def wp_andthen cg_offsets)

section \<open>The first groups in order\<close>

text \<open>
  The first \<open>m\<close> groups are well formed, without free fragments behind their end, and in step with
  their summary entries, which add up to \<open>tot\<close>.
\<close>

definition groups_ok :: "nextufs_image \<Rightarrow> nat \<Rightarrow> (nat \<Rightarrow> u32) \<Rightarrow> sys \<Rightarrow> bool" where
  "groups_ok img m tot s \<longleftrightarrow> sys_ok s \<and>
     (\<forall>c<m. cg_wf img (cg_view img (of_nat c) s) \<and> tail_clear img (cg_view img (of_nat c) s) \<and>
       in_step img (of_nat c) s) \<and>
     (\<forall>j<4. (\<Sum>c<m. read_be32 (cs_view img (of_nat c) s) (j * 4)) = tot j)"

text \<open>Replacing a group among the first \<open>m\<close>, or adding the next one.\<close>

lemma group_set_others:
  assumes geo: "geometry_ok img" and set: "group_set img cg b e s t"
    and c: "c < unat (cg_count (sb img))" "c \<noteq> unat cg" and cg: "unat cg < unat (cg_count (sb img))"
  shows "cg_view img (of_nat c) t = cg_view img (of_nat c) s" "cs_view img (of_nat c) t = cs_view img (of_nat c) s"
proof -
  have w: "unat (of_nat c :: u32) = c" using c(1) unat_le_max32 [of "cg_count (sb img)"] by (simp add: unat_of_nat32)
  with c have ne: "of_nat c \<noteq> cg" by auto
  have lt: "unat (of_nat c :: u32) < unat (cg_count (sb img))" using w c(1) by simp
  note d = geometryD [OF geo lt] and g = geometryD [OF geo cg]
  show "cg_view img (of_nat c) t = cg_view img (of_nat c) s"
    using set g(4) [OF lt ne] d(3) [OF cg] by (simp add: group_set_def apart_sym)
  show "cs_view img (of_nat c) t = cs_view img (of_nat c) s"
    using set g(3) [OF lt] cs_addr_apart [OF geo ne] by (simp add: group_set_def)
qed

lemma groups_ok_replace:
  assumes geo: "geometry_ok img" and ok: "groups_ok img m tot s" and m: "m \<le> unat (cg_count (sb img))"
    and cg: "unat cg < m" and set: "group_set img cg b e s t"
    and b: "cg_wf img b" "tail_clear img (clip (cg_bytes img) b)" "\<And>j. j < 4 \<Longrightarrow> e j = read_be32 b (CG_CS_NDIR_OFF + j * 4)"
    and d: "\<And>j. j < 4 \<Longrightarrow> e j = read_be32 (cg_view img cg s) (CG_CS_NDIR_OFF + j * 4) + d j"
  shows "groups_ok img m (\<lambda>j. tot j + d j) t"
proof -
  have lt: "unat cg < unat (cg_count (sb img))" using cg m by simp
  have t: "sys_ok t" "cg_view img cg t = clip (cg_bytes img) b"
    "\<And>j. j < 4 \<Longrightarrow> read_be32 (cs_view img cg t) (j * 4) = e j" using set by (auto simp: group_set_def)
  have "in_step img (of_nat (unat cg)) s" using ok cg unfolding groups_ok_def by blast
  then have old: "read_be32 (cs_view img cg s) (j * 4) = read_be32 (cg_view img cg s) (CG_CS_NDIR_OFF + j * 4)" if "j < 4" for j
    using that by (simp add: in_step_def)
  have step: "in_step img cg t" using t b(3) cg_counters_clip [OF geo] by (simp add: in_step_def)
  have "cg_wf img (cg_view img (of_nat c) t) \<and> tail_clear img (cg_view img (of_nat c) t) \<and> in_step img (of_nat c) t"
    if "c < m" for c
  proof (cases "c = unat cg")
    case True
    then show ?thesis using t step b cg_wf_clip [OF geo] by simp
  next
    case False
    with that m have "c < unat (cg_count (sb img))" by simp
    from group_set_others [OF geo set this False lt] ok that show ?thesis by (simp add: groups_ok_def in_step_def)
  qed
  moreover have "(\<Sum>c<m. read_be32 (cs_view img (of_nat c) t) (j * 4)) = tot j + d j" if j: "j < 4" for j
  proof -
    have "(\<Sum>c<m. read_be32 (cs_view img (of_nat c) t) (j * 4)) =
        (\<Sum>c<m. read_be32 (cs_view img (of_nat c) s) (j * 4)) +
        read_be32 (cs_view img (of_nat (unat cg)) t) (j * 4) - read_be32 (cs_view img (of_nat (unat cg)) s) (j * 4)"
      by (rule sum_update_word [OF cg]) (use group_set_others [OF geo set _ _ lt] m in simp)
    with ok j t(3) old d show ?thesis by (simp add: groups_ok_def)
  qed
  ultimately show ?thesis using t(1) by (simp add: groups_ok_def)
qed

lemma groups_ok_add:
  assumes geo: "geometry_ok img" and ok: "groups_ok img m tot s" and m: "m < unat (cg_count (sb img))"
    and cg: "cg = of_nat m" and set: "group_set img cg b e s t"
    and b: "cg_wf img b" "tail_clear img (clip (cg_bytes img) b)" "\<And>j. j < 4 \<Longrightarrow> e j = read_be32 b (CG_CS_NDIR_OFF + j * 4)"
  shows "groups_ok img (Suc m) (\<lambda>j. tot j + e j) t"
proof -
  have cgm: "unat cg = m" using cg m unat_le_max32 [of "cg_count (sb img)"] by (simp add: unat_of_nat32)
  then have lt: "unat cg < unat (cg_count (sb img))" using m by simp
  have t: "sys_ok t" "cg_view img cg t = clip (cg_bytes img) b"
    "\<And>j. j < 4 \<Longrightarrow> read_be32 (cs_view img cg t) (j * 4) = e j" using set by (auto simp: group_set_def)
  have step: "in_step img cg t" using t b(3) cg_counters_clip [OF geo] by (simp add: in_step_def)
  have others: "cg_view img (of_nat c) t = cg_view img (of_nat c) s" "cs_view img (of_nat c) t = cs_view img (of_nat c) s"
    if "c < m" for c
    using group_set_others [OF geo set _ _ lt, of c] that m cgm by auto
  have "cg_wf img (cg_view img (of_nat c) t) \<and> tail_clear img (cg_view img (of_nat c) t) \<and> in_step img (of_nat c) t"
    if "c < Suc m" for c
  proof (cases "c = m")
    case True
    then show ?thesis using t step b cg_wf_clip [OF geo] cg by simp
  next
    case False
    with that others ok show ?thesis by (simp add: groups_ok_def in_step_def)
  qed
  moreover have "(\<Sum>c<Suc m. read_be32 (cs_view img (of_nat c) t) (j * 4)) = tot j + e j" if j: "j < 4" for j
    using ok j t(3) others cg by (simp add: groups_ok_def)
  ultimately show ?thesis using t(1) by (simp add: groups_ok_def)
qed

text \<open>A change outside all groups and summary entries.\<close>

definition clear_of :: "nextufs_image \<Rightarrow> nat \<Rightarrow> nat \<Rightarrow> nat \<Rightarrow> bool" where
  "clear_of img m a n \<longleftrightarrow> (\<forall>c<m. apart a n (cg_addr img (of_nat c)) (cg_bytes img) \<and>
     apart a n (cs_addr img (of_nat c)) 16)"

lemma groups_ok_outside:
  assumes "groups_ok img m tot s" "only_area a n s t" "clear_of img m a n"
  shows "groups_ok img m tot t"
proof -
  have same: "cg_view img (of_nat c) t = cg_view img (of_nat c) s" "cs_view img (of_nat c) t = cs_view img (of_nat c) s"
    if "c < m" for c
    using only_area_view [OF assms(2)] assms(3) that by (simp_all add: clear_of_def)
  moreover have "in_step img (of_nat c) t = in_step img (of_nat c) s" if "c < m" for c
    using same [OF that] by (simp add: in_step_def)
  ultimately show ?thesis using assms(1,2) by (simp add: groups_ok_def only_area_def)
qed

section \<open>The image with all its groups\<close>

definition with_groups :: "nextufs_image \<Rightarrow> u32 \<Rightarrow> nextufs_image" where
  "with_groups img m = img\<lparr>sb := (sb img)\<lparr>cg_count := m\<rparr>\<rparr>"

lemma with_groups_simps [simp]:
  "cg_count (sb (with_groups img m)) = m" "frags_per_group (sb (with_groups img m)) = frags_per_group (sb img)"
  "frags_per_block (sb (with_groups img m)) = frags_per_block (sb img)"
  "inodes_per_group (sb (with_groups img m)) = inodes_per_group (sb img)"
  "slice_base (with_groups img m) = slice_base img"
  "sb_addr (with_groups img m) = sb_addr img" "cs_addr (with_groups img m) = cs_addr img"
  "cg_addr (with_groups img m) = cg_addr img" "cg_bytes (with_groups img m) = cg_bytes img"
  "cg_wf (with_groups img m) = cg_wf img" "tail_clear (with_groups img m) = tail_clear img"
  "in_step (with_groups img m) = in_step img" "group_set (with_groups img m) = group_set img"
  "groups_ok (with_groups img m) = groups_ok img" "clear_of (with_groups img m) = clear_of img"
proof -
  show c: "cs_addr (with_groups img m) = cs_addr img" "cg_addr (with_groups img m) = cg_addr img"
    "cg_bytes (with_groups img m) = cg_bytes img" "sb_addr (with_groups img m) = sb_addr img"
    "cg_wf (with_groups img m) = cg_wf img" "tail_clear (with_groups img m) = tail_clear img"
    by (auto simp: fun_eq_iff with_groups_def cs_addr_def cg_addr_def cg_block_offset_def cgstart_def
      cg_bytes_def sb_addr_def cg_wf_def tail_clear_def)
  show i: "in_step (with_groups img m) = in_step img" by (simp add: fun_eq_iff in_step_def c)
  show "group_set (with_groups img m) = group_set img" by (simp add: fun_eq_iff group_set_def c)
  show "groups_ok (with_groups img m) = groups_ok img" by (simp add: fun_eq_iff groups_ok_def c i)
  show "clear_of (with_groups img m) = clear_of img" by (simp add: fun_eq_iff clear_of_def c)
qed (simp_all add: with_groups_def)

lemma tail_clear_clip:
  "geometry_ok img \<Longrightarrow> tail_clear img (clip (cg_bytes img) b) = tail_clear img b"
  using free_map_clip [of img _ b] geometry_simps(6) [of img]
  by (auto simp: tail_clear_def cg_offsets cell_simps)

lemma group_set_sb:
  assumes "geometry_ok img" "group_set img cg b e s t" "unat cg < unat (cg_count (sb img))"
  shows "sb_view img t = sb_view img s"
  using geometryD [OF assms(1,3)] assms(2) by (simp add: group_set_def)

section \<open>The steps of the command\<close>

text \<open>The four counters a step changes: no directories.\<close>

definition change :: "int \<Rightarrow> int \<Rightarrow> int \<Rightarrow> nat \<Rightarrow> u32" where
  "change nb ni nf j = word_of_int ([0, nb, ni, nf] ! j)"

text \<open>
  The state between two steps: \<open>m\<close> groups in order, their counters changed by so much, and the
  superblock still the old one.
\<close>

definition grown_to :: "nextufs_image \<Rightarrow> buf \<Rightarrow> (nat \<Rightarrow> u32) \<Rightarrow> nat \<Rightarrow> int \<Rightarrow> int \<Rightarrow> int \<Rightarrow> sys \<Rightarrow> bool" where
  "grown_to img old tot m nb ni nf s \<longleftrightarrow> groups_ok img m (\<lambda>j. tot j + change nb ni nf j) s \<and> sb_view img s = old"

lemma wp_load_group_image:
  assumes "sys_ok s" "\<And>t. sys_ok t \<Longrightarrow> disk t = disk s \<Longrightarrow> wp (k (cg_view img cg s)) (\<lambda>_ _. True) Q t"
  shows "wp (andthen (sys_os malloc) (\<lambda>_. andthen (image_pread img (unat (cg_size (sb img)))
    (frag_bytes img (cgtod img cg))) k)) (\<lambda>_ _. True) Q s"
  unfolding wp_andthen
proof (rule wp_sys_malloc)
  fix t assume t: "same_disk s t"
  then have "sys_ok t" "disk t = disk s" using assms(1) by (auto simp: same_disk_def)
  then show "wp (image_pread img (unat (cg_size (sb img))) (frag_bytes img (cgtod img cg))) (\<lambda>_ _. True)
      (\<lambda>x. wp (k x) (\<lambda>_ _. True) Q) t"
    using wp_image_pread [of t _ img "frag_bytes img (cgtod img cg)" "unat (cg_size (sb img))"] assms(2)
    by (simp add: view_def flip: cg_addr_in_slice cg_bytes_def)
qed simp

text \<open>The group at \<open>cg\<close>, read, changed to \<open>b\<close>, and written back with the time.\<close>

lemma wp_commit_image_group:
  assumes geo: "geometry_ok (with_groups img n)" and sa: "summary_addressable img"
    and st: "grown_to img old tot m nb ni nf s" and m: "m \<le> unat n" and cg: "unat cg < m"
    and u: "sys_ok u" "disk u = disk s"
    and b: "cg_wf img b" "tail_clear img b"
    and d: "\<And>j. j < 4 \<Longrightarrow> read_be32 b (CG_CS_NDIR_OFF + j * 4) =
      read_be32 (cg_view img cg s) (CG_CS_NDIR_OFF + j * 4) + change dnb 0 dnf j"
    and Q: "\<And>t. grown_to img old tot m (nb + dnb) ni (nf + dnf) t \<Longrightarrow> Q () t"
  shows "wp (andthen (sys_os time) (\<lambda>now. write_group_and_csum img cg (write_be32 b CG_TIME_OFF now)))
    (\<lambda>_ _. True) Q u"
  unfolding wp_andthen
proof (rule wp_sys_time)
  fix now v assume v: "same_disk u v"
  let ?b = "write_be32 b CG_TIME_OFF now" and ?G = "with_groups img n"
  have lt: "unat cg < unat (cg_count (sb ?G))" using cg m by simp
  have ok: "sys_ok v" "disk v = disk s" using v u by (auto simp: same_disk_def)
  then have view: "view v a k = view s a k" for a k by (intro view_cong) simp
  have cnt: "read_be32 ?b (CG_CS_NDIR_OFF + j * 4) = read_be32 b (CG_CS_NDIR_OFF + j * 4)" for j
    by (simp add: cell_simps cg_offsets)
  have ch: "change nb ni nf j + change dnb 0 dnf j = change (nb + dnb) ni (nf + dnf) j" if "j < 4" for j
    using that unfolding less_4 by (elim disjE) (simp_all add: change_def)
  show "wp (write_group_and_csum img cg ?b) (\<lambda>_ _. True) Q v"
  proof (rule wp_write_group_and_csum [OF ok(1) sa])
    show "apart (cg_addr img cg) (cg_bytes img) (cs_addr img cg) 16"
      using geometryD(3) [OF geo lt lt] by simp
  next
    fix t assume t: "group_set img cg ?b (\<lambda>j. read_be32 ?b (CG_CS_NDIR_OFF + j * 4)) v t"
    have stepv: "in_step img c v = in_step img c s" for c by (simp add: in_step_def view)
    have "groups_ok img m (\<lambda>j. tot j + change nb ni nf j) v"
      using st ok(1) stepv by (simp add: grown_to_def groups_ok_def view)
    moreover have "cg_wf img ?b" using b cg_wf_time [OF geo] by simp
    moreover have "tail_clear img (clip (cg_bytes img) ?b)"
      using b tail_clear_clip [OF geo, of ?b] by (simp add: tail_clear_def cell_simps cg_offsets)
    ultimately have "groups_ok img m (\<lambda>j. tot j + change nb ni nf j + change dnb 0 dnf j) t"
      using groups_ok_replace [OF geo, of m "\<lambda>j. tot j + change nb ni nf j" v cg ?b _ t "change dnb 0 dnf"] t m cg d
      by (simp add: cnt view)
    moreover have "sb_view img t = old"
      using group_set_sb [OF geo _ lt, of ?b _ v t] t st by (simp add: grown_to_def view)
    ultimately show "Q () t"
      using ch by (intro Q) (simp add: grown_to_def groups_ok_def add.assoc)
  qed
qed

lemma geometry_with_groups:
  assumes "geometry_ok (with_groups img n)" "cg_count (sb img) \<le> n"
  shows "geometry_ok img"
proof -
  have le: "c < unat n" if "c < unat (cg_count (sb img))" for c
    using assms(2) that by (simp add: word_le_nat_alt)
  note g = assms(1) [unfolded geometry_ok_def Let_def with_groups_simps]
  then show ?thesis using le by (simp add: geometry_ok_def Let_def with_groups_def)
qed

lemma grown_to_group:
  assumes "grown_to img old tot m nb ni nf s" "unat cg < m"
  shows "sys_ok s" "cg_wf img (cg_view img cg s)" "tail_clear img (cg_view img cg s)"
proof -
  have "cg_wf img (cg_view img (of_nat (unat cg)) s) \<and> tail_clear img (cg_view img (of_nat (unat cg)) s)"
    using assms unfolding grown_to_def groups_ok_def by blast
  then show "cg_wf img (cg_view img cg s)" "tail_clear img (cg_view img cg s)" by simp_all
  show "sys_ok s" using assms(1) by (simp add: grown_to_def groups_ok_def)
qed

lemma wp_expand_old_last_cg:
  assumes geo: "geometry_ok img" "geometry_ok (with_groups img n)" and sa: "summary_addressable img"
    and st: "grown_to img old tot m nb ni nf s" and m: "m \<le> unat n" and cg: "unat cg < m"
    and limit: "read_be32 (cg_view img cg s) CG_NDBLK_OFF =
      ucast (old_frags - ucast (frags_per_group (sb img)) * ucast cg)"
    and Q: "\<And>t x y z. grown_to img old tot m (nb + x) ni (nf + y) t \<Longrightarrow> Q (x, y, z) t"
  shows "wp (expand_old_last_cg img cg old_frags target nc) (\<lambda>_ _. True) Q s"
proof -
  let ?start = "ucast (old_frags - ucast (frags_per_group (sb img)) * ucast cg) :: u32"
  let ?stop = "cg_frag_count img cg target" and ?b = "cg_view img cg s"
  note b = grown_to_group [OF st cg]
  have core: "wp (case expanded_group img ?start ?stop nc ?b of Inl e \<Rightarrow> fail e
    | Inr (buf, nbfree, nffree) \<Rightarrow>
      andthen (sys_os time) (\<lambda>now.
      andthen (write_group_and_csum img cg (write_be32 buf CG_TIME_OFF now)) (\<lambda>_.
      ret (nbfree, nffree, ?stop - ?start)))) (\<lambda>_ _. True) Q u"
    if u: "sys_ok u" "disk u = disk s" for u
  proof (cases "expanded_group img ?start ?stop nc ?b")
    case (Inr r)
    obtain b' x y where r: "r = (b', x, y)" by (cases r)
    have tail: "\<not> free_map ?b k" if "unat ?start \<le> k" "k < unat (frags_per_group (sb img))" for k
      using b(3) that by (simp add: tail_clear_def limit)
    note ex = expanded_group_ok [OF geo(1) b(2) _ tail Inr [unfolded r]]
    have lim: "unat (read_be32 ?b CG_NDBLK_OFF) = unat ?start" by (simp add: limit)
    have "tail_clear img b'"
      using ex(2,3,5) [OF lim] tail by (auto simp: tail_clear_def word_le_nat_alt)
    then have "wp (andthen (sys_os time) (\<lambda>now. write_group_and_csum img cg (write_be32 b' CG_TIME_OFF now)))
        (\<lambda>_ _. True) (\<lambda>_. Q (x, y, ?stop - ?start)) u"
      using ex(1,4) [OF lim]
      by (intro wp_commit_image_group [OF geo(2) sa st m cg u, where dnb = x and dnf = y] Q)
        (simp_all add: change_def)
    then show ?thesis by (simp add: Inr r wp_simps)
  qed (simp add: wp_fail)
  then show ?thesis
    unfolding expand_old_last_cg_def Let_def by (intro wp_unless wp_load_group_image [OF b(1)] core)
qed

text \<open>The range behind the old summary area.\<close>

definition summary_end :: "nextufs_image \<Rightarrow> nat" where
  "summary_end img = in_slice img (int (unat (cyl_summary_addr (sb img)) * unat (frag_size (sb img))) +
     int (unat (csum_size (sb img))))"

lemma extension_offset:
  assumes "summary_addressable img"
  shows "in_slice img (sint (ucast (cyl_summary_addr (sb img)) * ucast (frag_size (sb img)) +
    ucast (csum_size (sb img)) :: u64)) = summary_end img"
proof -
  let ?p = "ucast (cyl_summary_addr (sb img)) * ucast (frag_size (sb img)) :: u64"
  have p: "unat ?p = unat (cyl_summary_addr (sb img)) * unat (frag_size (sb img))" by (rule product_in_64)
  have c: "unat (ucast (csum_size (sb img)) :: u64) = unat (csum_size (sb img))"
    using unat_le_max32 [of "csum_size (sb img)"] by (simp add: unsigned_ucast_eq take_bit_nat_eq_self)
  have "unat ?p < 2 ^ 62" using assms p by (simp add: summary_addressable_def)
  with c unat_le_max32 [of "csum_size (sb img)"] have
    "unat (?p + ucast (csum_size (sb img))) = unat ?p + unat (csum_size (sb img))"
    "unat ?p + unat (csum_size (sb img)) < 2 ^ 63"
    by (simp_all add: unat_word_ariths)
  then show ?thesis by (simp add: summary_end_def sint_small p)
qed

lemma wp_reserve:
  assumes geo: "geometry_ok img" "geometry_ok (with_groups img n)" and sa: "summary_addressable img"
    and st: "grown_to img old tot m nb ni nf s" and m: "0 < m" "m \<le> unat n"
    and Q: "\<And>t x y. grown_to img old tot m (nb + x) ni (nf + y) t \<Longrightarrow> Q (x, y) t"
  shows "wp (reserve_summary_extension img cssize) (\<lambda>_ _. True) Q s"
proof (cases "cssize \<le> csum_size (sb img)")
  case True
  then show ?thesis using Q [of 0 0 s] st by (simp add: reserve_summary_extension_def wp_ret)
next
  case False
  let ?pos = "cyl_summary_addr (sb img) + summary_frags img (csum_size (sb img))"
  let ?stop = "cyl_summary_addr (sb img) + summary_frags img cssize"
  let ?b = "cg_view img 0 s"
  have cg: "unat (0 :: u32) < m" using m by simp
  note b = grown_to_group [OF st cg]
  have core: "wp (case reserve_loop img (unat ?pos) (unat ?stop) ?b 0 0 of Inl e \<Rightarrow> fail e
    | Inr (buf, d_nbfree, d_nffree) \<Rightarrow>
      andthen (sys_os time) (\<lambda>now.
      andthen (write_group_and_csum img 0 (write_be32 (add_be32 (add_be32 buf CG_CS_NBFREE_OFF
        (word_of_int d_nbfree)) CG_CS_NFFREE_OFF (word_of_int d_nffree)) CG_TIME_OFF now)) (\<lambda>_.
      ret (d_nbfree, d_nffree)))) (\<lambda>_ _. True) Q u"
    if u: "sys_ok u" "disk u = disk s" and stop: "\<not> frags_per_group (sb img) < ?stop" for u
  proof (cases "reserve_loop img (unat ?pos) (unat ?stop) ?b 0 0")
    case (Inr r)
    obtain b' x y where r: "r = (b', x, y)" by (cases r)
    have le: "unat ?stop \<le> unat (frags_per_group (sb img))" using stop by (simp add: word_le_nat_alt not_less)
    note re = reserved_ok [OF geo(1) b(2,3) Inr [unfolded r] le]
    have "wp (andthen (sys_os time) (\<lambda>now. write_group_and_csum img 0 (write_be32 (settled x y b') CG_TIME_OFF now)))
        (\<lambda>_ _. True) (\<lambda>_. Q (x, y)) u"
      using re(1,2,4)
      by (intro wp_commit_image_group [OF geo(2) sa st m(2) cg u, where dnb = x and dnf = y] Q)
        (simp_all add: change_def)
    then show ?thesis by (simp add: Inr r wp_simps settled_def)
  qed (simp add: wp_fail)
  then show ?thesis
    unfolding reserve_summary_extension_def Let_def if_not_P [OF False]
    by (intro wp_unless wp_load_group_image [OF b(1)] core)
qed

lemma wp_extend_summary:
  assumes geo: "geometry_ok img" "geometry_ok (with_groups img n)" and sa: "summary_addressable img"
    and st: "grown_to img old tot m (add_nbfree sums) (add_nifree sums) (add_nffree sums) s"
    and m: "0 < m" "m \<le> unat n"
    and area: "csum_size (sb img) < new_cssize plan \<Longrightarrow>
      clear_of img m (summary_end img) (unat (new_cssize plan) - unat (csum_size (sb img))) \<and>
      apart (summary_end img) (unat (new_cssize plan) - unat (csum_size (sb img))) (sb_addr img) 2048"
    and Q: "\<And>t sums. grown_to img old tot m (add_nbfree sums) (add_nifree sums) (add_nffree sums) t \<Longrightarrow> Q sums t"
  shows "wp (extend_summary img plan sums) (\<lambda>_ _. True) Q s"
proof (cases "new_cssize plan \<le> csum_size (sb img)")
  case True
  then show ?thesis using Q st by (simp add: extend_summary_def wp_ret)
next
  case False
  let ?len = "unat (new_cssize plan) - unat (csum_size (sb img))"
  have c: "unat (ucast x :: u64) = unat x" for x :: u32
    using unat_le_max32 [of x] by (simp add: unsigned_ucast_eq take_bit_nat_eq_self)
  have len: "unat (ucast (new_cssize plan) - ucast (csum_size (sb img)) :: u64) = ?len"
    using False by (subst unat_sub) (simp_all add: c word_le_nat_alt not_le)
  have base: "0 \<le> slice_base img" using sa by (simp add: summary_addressable_def)
  show ?thesis
    unfolding extend_summary_def if_not_P [OF False] wp_andthen
  proof (rule wp_reserve [OF geo sa st m], unfold prod.case wp_andthen, rule wp_write_zeroes)
    fix t x y assume t: "grown_to img old tot m (add_nbfree sums + x) (add_nifree sums) (add_nffree sums + y) t"
    then show "sys_ok t" by (simp add: grown_to_def groups_ok_def)
    show "0 \<le> slice_base img" by (fact base)
    fix u assume "only_area (in_slice img (sint (ucast (cyl_summary_addr (sb img)) * ucast (frag_size (sb img)) +
      ucast (csum_size (sb img)) :: u64))) (unat (ucast (new_cssize plan) - ucast (csum_size (sb img)) :: u64)) t u"
    then have only: "only_area (summary_end img) ?len t u" unfolding extension_offset [OF sa] len .
    have sep: "clear_of img m (summary_end img) ?len" "apart (summary_end img) ?len (sb_addr img) 2048"
      using area False by simp_all
    have "grown_to img old tot m (add_nbfree sums + x) (add_nifree sums) (add_nffree sums + y) u"
      using t groups_ok_outside [OF _ only sep(1)] only_area_view [OF only sep(2)] by (simp add: grown_to_def)
    then show "wp (ret (sums\<lparr>add_nbfree := add_nbfree sums + x, add_nffree := add_nffree sums + y,
        new_dsize := new_dsize sums -
          (summary_frags img (new_cssize plan) - summary_frags img (csum_size (sb img)))\<rparr>)) (\<lambda>_ _. True) Q u"
      by (simp add: wp_ret Q)
  qed
qed

text \<open>The inode table of a group.\<close>

definition inode_area :: "nextufs_image \<Rightarrow> u32 \<Rightarrow> nat" where
  "inode_area img cg = in_slice img (frag_bytes img (cgimin img cg))"

definition inode_bytes :: "nextufs_image \<Rightarrow> nat" where
  "inode_bytes img = unat (ucast (inodes_per_group (sb img)) * 128 :: u64)"

lemma grown_to_outside:
  assumes "grown_to img old tot m nb ni nf s" "only_area a n s t" "clear_of img m a n" "apart a n (sb_addr img) 2048"
  shows "grown_to img old tot m nb ni nf t"
  using assms groups_ok_outside [OF _ assms(2,3)] only_area_view [OF assms(2,4)] by (simp add: grown_to_def)

lemma wp_build_group:
  assumes geo: "geometry_ok img" "geometry_ok (with_groups img n)" and sa: "summary_addressable img"
    and st: "grown_to img old tot m (add_nbfree sums) (add_nifree sums) (add_nffree sums) s"
    and m: "m < unat n" "cg = of_nat m" and order: "group_lower img cg \<le> group_upper img cg"
    and area: "clear_of img m (inode_area img cg) (inode_bytes img)"
      "apart (inode_area img cg) (inode_bytes img) (sb_addr img) 2048"
    and Q: "\<And>t sums. grown_to img old tot (Suc m) (add_nbfree sums) (add_nifree sums) (add_nffree sums) t \<Longrightarrow> Q sums t"
  shows "wp (build_and_write_group img plan cg sums) (\<lambda>_ _. True) Q s"
  unfolding build_and_write_group_def Let_def wp_andthen
proof (rule wp_sys_time)
  fix now u assume u: "same_disk s u"
  have s: "sys_ok s" using st by (simp add: grown_to_def groups_ok_def)
  then have "only_area 0 0 s u" using u by (simp add: only_area_def same_disk_def)
  then have stu: "grown_to img old tot m (add_nbfree sums) (add_nifree sums) (add_nffree sums) u"
    by (rule grown_to_outside [OF st]) (simp_all add: clear_of_def apart_def)
  let ?nd = "cg_frag_count img cg (target_frags plan)" and ?nc = "cg_cylinder_count img cg (new_ncg plan) (new_ncyl plan)"
  show "wp (case build_new_cg img cg ?nc ?nd now of Inl e \<Rightarrow> fail e
    | Inr (buf, cg_nbfree, cg_nffree) \<Rightarrow>
      andthen (write_zeroes img (frag_bytes img (cgimin img cg)) (ucast (inodes_per_group (sb img)) * 128)) (\<lambda>_.
      andthen (write_group img cg buf) (\<lambda>_.
      andthen (write_csum_entry img cg 0 (word_of_int cg_nbfree) (inodes_per_group (sb img)) (word_of_int cg_nffree)) (\<lambda>_.
      ret \<lparr>add_nbfree = add_nbfree sums + cg_nbfree,
        add_nifree = add_nifree sums + int (unat (inodes_per_group (sb img))),
        add_nffree = add_nffree sums + cg_nffree,
        new_dsize = new_dsize sums +
          (ucast (cgsblock img cg - ucast (frags_per_group (sb img)) * ucast cg) +
           (?nd - ucast (cgdmin img cg - ucast (frags_per_group (sb img)) * ucast cg)))\<rparr>)))) (\<lambda>_ _. True) Q u"
  proof (cases "build_new_cg img cg ?nc ?nd now")
    case (Inr r)
    obtain b x y where r: "r = (b, x, y)" by (cases r)
    note new = build_new_cg_ok [OF geo(1) order Inr [unfolded r]]
    define e where "e = (\<lambda>j. [0, word_of_int x, inodes_per_group (sb img), word_of_int y] ! j)"
    have e: "e 0 = 0" "e 1 = word_of_int x" "e 2 = inodes_per_group (sb img)" "e 3 = word_of_int y"
      by (simp_all add: e_def)
    have lt: "unat cg < unat (cg_count (sb (with_groups img n)))"
      using m unat_le_max32 [of n] by (simp add: unat_of_nat32)
    have base: "0 \<le> slice_base img" using sa by (simp add: summary_addressable_def)
    show ?thesis
      unfolding Inr r sum.case prod.case wp_andthen
    proof (rule wp_write_zeroes, unfold inode_area_def [symmetric] inode_bytes_def [symmetric])
      show "sys_ok u" using stu by (simp add: grown_to_def groups_ok_def)
      show "0 \<le> slice_base img" by (fact base)
      fix v assume v: "sys_ok v" and only: "only_area (inode_area img cg) (inode_bytes img) u v"
      have stv: "grown_to img old tot m (add_nbfree sums) (add_nifree sums) (add_nffree sums) v"
        by (rule grown_to_outside [OF stu only area])
      show "wp (write_group img cg b) (\<lambda>_ _. True) (\<lambda>_. wp (write_csum_entry img cg 0 (word_of_int x)
          (inodes_per_group (sb img)) (word_of_int y)) (\<lambda>_ _. True) (\<lambda>_. wp (ret
          \<lparr>add_nbfree = add_nbfree sums + x, add_nifree = add_nifree sums + int (unat (inodes_per_group (sb img))),
           add_nffree = add_nffree sums + y, new_dsize = new_dsize sums +
            (ucast (cgsblock img cg - ucast (frags_per_group (sb img)) * ucast cg) +
             (?nd - ucast (cgdmin img cg - ucast (frags_per_group (sb img)) * ucast cg)))\<rparr>) (\<lambda>_ _. True) Q)) v"
        unfolding e [symmetric]
      proof (rule wp_write_group_and_entry [OF v sa])
        show "apart (cg_addr img cg) (cg_bytes img) (cs_addr img cg) 16"
          using geometryD(3) [OF geo(2) lt lt] by simp
      next
        fix t assume t: "group_set img cg b e v t"
        have ej: "e j = read_be32 b (CG_CS_NDIR_OFF + j * 4)" if "j < 4" for j using new(5) [OF that] by (simp add: e_def)
        have "groups_ok img (Suc m) (\<lambda>j. tot j + change (add_nbfree sums) (add_nifree sums) (add_nffree sums) j + e j) t"
          using groups_ok_add [OF geo(2), of m _ v cg b e t] stv m t new(1,7) ej tail_clear_clip [OF geo(1)]
          by (simp add: grown_to_def)
        moreover have "change (add_nbfree sums) (add_nifree sums) (add_nffree sums) j + e j =
            change (add_nbfree sums + x) (add_nifree sums + int (unat (inodes_per_group (sb img)))) (add_nffree sums + y) j"
          if "j < 4" for j
          using that unfolding less_4 by (elim disjE) (simp_all add: change_def e_def)
        moreover have "sb_view img t = old"
          using group_set_sb [OF geo(2) _ lt, of b e v t] t stv by (simp add: grown_to_def)
        ultimately have "grown_to img old tot (Suc m) (add_nbfree sums + x)
            (add_nifree sums + int (unat (inodes_per_group (sb img)))) (add_nffree sums + y) t"
          by (simp add: grown_to_def groups_ok_def add.assoc)
        then show "wp (ret
          \<lparr>add_nbfree = add_nbfree sums + x, add_nifree = add_nifree sums + int (unat (e 2)),
           add_nffree = add_nffree sums + y, new_dsize = new_dsize sums +
            (ucast (cgsblock img cg - ucast (frags_per_group (sb img)) * ucast cg) +
             (?nd - ucast (cgdmin img cg - ucast (frags_per_group (sb img)) * ucast cg)))\<rparr>) (\<lambda>_ _. True) Q t"
          by (simp add: wp_ret Q e)
      qed
    qed
  qed (simp add: wp_fail)
qed

lemma wp_build_groups:
  assumes geo: "geometry_ok img" "geometry_ok (with_groups img n)" and sa: "summary_addressable img"
    and parts: "\<And>c. unat (cg_count (sb img)) \<le> c \<Longrightarrow> c < unat n \<Longrightarrow>
      group_lower img (of_nat c) \<le> group_upper img (of_nat c) \<and>
      clear_of img c (inode_area img (of_nat c)) (inode_bytes img) \<and>
      apart (inode_area img (of_nat c)) (inode_bytes img) (sb_addr img) 2048"
    and Q: "\<And>t sums. grown_to img old tot (unat n) (add_nbfree sums) (add_nifree sums) (add_nffree sums) t \<Longrightarrow> Q sums t"
  shows "unat (cg_count (sb img)) \<le> m \<Longrightarrow> m \<le> unat n \<Longrightarrow>
    grown_to img old tot m (add_nbfree sums) (add_nifree sums) (add_nffree sums) s \<Longrightarrow>
    wp (build_groups img plan (map of_nat [m..<unat n]) sums) (\<lambda>_ _. True) Q s"
proof (induction "unat n - m" arbitrary: m sums s)
  case 0
  then have m: "m = unat n" by simp
  then have un: "[m..<unat n] = []" by simp
  show ?case unfolding un list.map build_groups.simps wp_ret using 0 m by (intro Q) simp
next
  case (Suc k)
  then have lt: "m < unat n" by simp
  have un: "[m..<unat n] = m # [Suc m..<unat n]" by (rule upt_conv_Cons [OF lt])
  note p = parts [OF Suc.prems(1) lt]
  show ?case
    unfolding un list.map build_groups.simps wp_andthen
  proof (rule wp_build_group [OF geo sa Suc.prems(3) lt refl])
    fix t and sums' :: grow_sums
    assume "grown_to img old tot (Suc m) (add_nbfree sums') (add_nifree sums') (add_nffree sums') t"
    then show "wp (build_groups img plan (map of_nat [Suc m..<unat n]) sums') (\<lambda>_ _. True) Q t"
      using Suc by (intro Suc.hyps(1)) auto
  qed (use p in auto)
qed

section \<open>The superblocks\<close>

lemma write_be32_local: "\<forall>i<n. a i = b i \<Longrightarrow> \<forall>i<n. write_be32 a p v i = write_be32 b p v i"
  by (simp add: write_be32_def)

lemma patched_superblock_local:
  assumes "\<forall>i<n. a i = b i"
  shows "\<forall>i<n. patched_superblock img a x1 x2 x3 x4 x5 x6 y1 y2 y3 now i = patched_superblock img b x1 x2 x3 x4 x5 x6 y1 y2 y3 now i"
  unfolding patched_superblock_def Let_def by (intro write_be32_local assms)

lemma patched_superblock_high:
  "208 \<le> i \<Longrightarrow> patched_superblock img a x1 x2 x3 x4 x5 x6 y1 y2 y3 now i = a i"
  by (simp add: patched_superblock_def Let_def cell_simps SB_TIME_OFF_def SB_SIZE_OFF_def SB_DSIZE_OFF_def
    SB_NCG_OFF_def SB_CSADDR_OFF_def SB_CSSIZE_OFF_def SB_NCYL_OFF_def SB_NBFREE_OFF_def SB_NIFREE_OFF_def
    SB_NFFREE_OFF_def SB_NDIR_OFF_def)

lemma decode_patched_superblock:
  "decode_superblock (patched_superblock img a g cy fr ds ca cz nb ni nf now) =
     (decode_superblock a)\<lparr>write_time := now, frag_count := fr, data_frag_count := ds,
       cg_count := g, cyl_summary_addr := ca, csum_size := cz, ncyl := cy,
       dir_count := dir_count (sb img), free_block_count := free_block_count (sb img) + word_of_int nb,
       free_inode_count := free_inode_count (sb img) + word_of_int ni,
       free_frag_count := free_frag_count (sb img) + word_of_int nf\<rparr>"
  by (simp add: patched_superblock_def decode_superblock_def Let_def cell_simps SB_TIME_OFF_def SB_SIZE_OFF_def SB_DSIZE_OFF_def
    SB_NCG_OFF_def SB_CSADDR_OFF_def SB_CSSIZE_OFF_def SB_NCYL_OFF_def SB_NBFREE_OFF_def SB_NIFREE_OFF_def
    SB_NFFREE_OFF_def SB_NDIR_OFF_def UFS_SUPER_MAGIC_OFFSET_def)

definition copy_area :: "nextufs_image \<Rightarrow> u32 \<Rightarrow> nat" where
  "copy_area img cg = in_slice img (frag_bytes img (cgsblock img cg))"

text \<open>All groups in order, and \<open>b\<close> in the place of the first superblock.\<close>

definition superblock_written :: "nextufs_image \<Rightarrow> buf \<Rightarrow> nat \<Rightarrow> (nat \<Rightarrow> u32) \<Rightarrow> buf \<Rightarrow> sys \<Rightarrow> bool" where
  "superblock_written img b m tot old s \<longleftrightarrow> groups_ok img m tot s \<and>
     (\<forall>i<2048. disk s (sb_addr img + i) = (if i < unat (super_size (sb img)) then b i else old i))"

lemma wp_superblock_write:
  assumes pre: "groups_ok img m tot s"
    and old: "\<And>i. i < 2048 \<Longrightarrow> unat (super_size (sb img)) \<le> i \<or> in_slice img off \<noteq> sb_addr img \<Longrightarrow>
      disk s (sb_addr img + i) = (if i < unat (super_size (sb img)) then b i else old i)"
    and area: "clear_of img m (in_slice img off) (unat (super_size (sb img)))"
      "in_slice img off = sb_addr img \<or> apart (in_slice img off) (unat (super_size (sb img))) (sb_addr img) 2048"
    and Q: "\<And>t. superblock_written img b m tot old t \<Longrightarrow> Q () t"
  shows "wp (image_pwrite img b (unat (super_size (sb img))) off) (\<lambda>_ _. True) Q s"
proof (rule wp_image_pwrite)
  show "sys_ok s" using pre by (simp add: groups_ok_def)
  fix t assume t: "sys_ok t" "disk t = blit (disk s) (in_slice img off) (unat (super_size (sb img))) b"
  then have "only_area (in_slice img off) (unat (super_size (sb img))) s t"
    by (auto simp: only_area_def)
  then have ok: "groups_ok img m tot t" by (rule groups_ok_outside [OF pre _ area(1)])
  have "disk t (sb_addr img + i) = (if i < unat (super_size (sb img)) then b i else old i)" if "i < 2048" for i
  proof (cases "in_slice img off = sb_addr img")
    case True
    then show ?thesis using old [OF that] by (simp add: t(2) blit_def)
  next
    case False
    then have "apart (in_slice img off) (unat (super_size (sb img))) (sb_addr img) 2048" using area(2) by simp
    then have "disk t (sb_addr img + i) = disk s (sb_addr img + i)"
      using that by (auto simp: t(2) blit_def apart_def)
    then show ?thesis using old [OF that] False by simp
  qed
  with ok show "Q () t" by (intro Q) (simp add: superblock_written_def)
qed

lemma wp_superblock_copies:
  assumes "\<And>c. c \<in> set cs \<Longrightarrow> clear_of img m (copy_area img (of_nat c)) (unat (super_size (sb img))) \<and>
      (copy_area img (of_nat c) = sb_addr img \<or>
       apart (copy_area img (of_nat c)) (unat (super_size (sb img))) (sb_addr img) 2048)"
    and Q: "\<And>t. superblock_written img b m tot old t \<Longrightarrow> Q () t"
  shows "superblock_written img b m tot old s \<Longrightarrow> wp (write_superblock_copies img b cs) (\<lambda>_ _. True) Q s"
  using assms(1)
proof (induction cs arbitrary: s)
  case Nil
  then show ?case unfolding write_superblock_copies.simps wp_ret by (intro Q)
next
  case (Cons c cs)
  show ?case
    unfolding write_superblock_copies.simps wp_andthen
  proof (rule wp_superblock_write)
    show "groups_ok img m tot s" using Cons.prems(1) by (simp add: superblock_written_def)
  qed (use Cons in \<open>auto simp: superblock_written_def copy_area_def\<close>)
qed

section \<open>The whole command\<close>

definition grow_layout :: "nextufs_image \<Rightarrow> grow_plan \<Rightarrow> bool" where
  "grow_layout img plan \<longleftrightarrow> (let g = sb img; n = unat (new_ncg plan); size = unat (super_size g);
       ext = unat (new_cssize plan) - unat (csum_size g) in
     geometry_ok (with_groups img (new_ncg plan)) \<and> summary_addressable img \<and>
     0 < cg_count g \<and> cg_count g \<le> new_ncg plan \<and> clear_of img n (sb_addr img) size \<and>
     (\<forall>c<n. clear_of img n (copy_area img (of_nat c)) size \<and>
        (copy_area img (of_nat c) = sb_addr img \<or> apart (copy_area img (of_nat c)) size (sb_addr img) 2048)) \<and>
     (\<forall>c. unat (cg_count g) \<le> c \<and> c < n \<longrightarrow> group_lower img (of_nat c) \<le> group_upper img (of_nat c) \<and>
        clear_of img c (inode_area img (of_nat c)) (inode_bytes img) \<and>
        apart (inode_area img (of_nat c)) (inode_bytes img) (sb_addr img) 2048) \<and>
     (csum_size g < new_cssize plan \<longrightarrow> clear_of img (unat (cg_count g)) (summary_end img) ext \<and>
        apart (summary_end img) ext (sb_addr img) 2048))"

text \<open>
  The state a file system is in between commands: its accounts agree, no group has free fragments
  behind its end, and the superblock in memory is the one on the disk.
\<close>

definition fs_consistent :: "nextufs_image \<Rightarrow> sys \<Rightarrow> bool" where
  "fs_consistent img s \<longleftrightarrow> fs_ok img s \<and> sb img = disk_superblock s (slice_base img) \<and>
     (\<forall>c<unat (cg_count (sb img)). tail_clear img (cg_view img (of_nat c) s))"

definition last_group_ends :: "nextufs_image \<Rightarrow> sys \<Rightarrow> bool" where
  "last_group_ends img s \<longleftrightarrow> (let last = cg_count (sb img) - 1 in
     read_be32 (cg_view img last s) CG_NDBLK_OFF =
       ucast (ucast (frag_count (sb img)) - ucast (frags_per_group (sb img)) * ucast last :: u64))"

lemma disk_superblock_view: "disk_superblock s (slice_base img) = decode_superblock (sb_view img s)"
  by (simp add: disk_superblock_def view_def sb_addr_def)

lemma superblock_counts:
  "read_be32 b (SB_NDIR_OFF + 0 * 4) = dir_count (decode_superblock b)"
  "read_be32 b (SB_NDIR_OFF + 1 * 4) = free_block_count (decode_superblock b)"
  "read_be32 b (SB_NDIR_OFF + 2 * 4) = free_inode_count (decode_superblock b)"
  "read_be32 b (SB_NDIR_OFF + 3 * 4) = free_frag_count (decode_superblock b)"
  by (simp_all add: decode_superblock_def SB_NDIR_OFF_def)

lemma wp_image_fsync:
  assumes "sys_ok s" "\<And>t. sys_ok t \<Longrightarrow> disk t = disk s \<Longrightarrow> Q () t"
  shows "wp (image_fsync img) (\<lambda>_ _. True) Q s"
  using assms by (cases s) (auto simp: image_fsync_def wp_def sys_os_def fsync_def disk_def sys_ok_def
    split: backend.splits os_event.splits prod.splits sum.splits)

text \<open>The grown image in memory, as it is opened again.\<close>

definition reread :: "nextufs_image \<Rightarrow> sys \<Rightarrow> nextufs_image" where
  "reread img s = img\<lparr>sb := disk_superblock s (slice_base img)\<rparr>"

lemma consistent_grown_to:
  assumes "fs_consistent img s"
  shows "grown_to img (sb_view img s) (\<lambda>j. read_be32 (sb_view img s) (SB_NDIR_OFF + j * 4))
    (unat (cg_count (sb img))) 0 0 0 s"
proof -
  have "change 0 0 0 j = 0" if "j < 4" for j
    using that unfolding less_4 by (elim disjE) (simp_all add: change_def)
  with assms show ?thesis by (simp add: grown_to_def groups_ok_def fs_consistent_def fs_ok_def totals_def)
qed

text \<open>Fields of the superblock that the groups do not depend on.\<close>

lemma groups_ok_fields:
  assumes "sb im = (sb img)\<lparr>write_time := x1, frag_count := x2, data_frag_count := x3, cg_count := x4,
      csum_size := x5, ncyl := x6, dir_count := x7, free_block_count := x8, free_inode_count := x9, free_frag_count := x10\<rparr>"
    and "slice_base im = slice_base img"
  shows "groups_ok im = groups_ok img" "sb_addr im = sb_addr img" "cs_addr im = cs_addr img"
    "cg_addr im = cg_addr img" "cg_bytes im = cg_bytes img" "cg_wf im = cg_wf img" "in_step im = in_step img"
    "tail_clear im = tail_clear img"
proof -
  show c: "cs_addr im = cs_addr img" "cg_addr im = cg_addr img" "cg_bytes im = cg_bytes img" "sb_addr im = sb_addr img"
    "cg_wf im = cg_wf img" "tail_clear im = tail_clear img"
    by (auto simp: assms fun_eq_iff cs_addr_def cg_addr_def cg_block_offset_def cgstart_def
      cg_bytes_def sb_addr_def cg_wf_def tail_clear_def)
  show i: "in_step im = in_step img" by (simp add: fun_eq_iff in_step_def c)
  show "groups_ok im = groups_ok img" by (simp add: fun_eq_iff groups_ok_def c i)
qed

lemma written_consistent:
  fixes plan :: grow_plan and sums :: grow_sums
  assumes con: "fs_consistent img s" and size: "208 \<le> unat (super_size (sb img))"
    and old: "\<And>i. i < unat (super_size (sb img)) \<Longrightarrow> i < 2048 \<Longrightarrow> old_sb i = sb_view img s i"
    and b: "b = patched_superblock img old_sb (new_ncg plan) (new_ncyl plan) (ucast (target_frags plan)) ds
      (cyl_summary_addr (sb img)) (new_cssize plan) nb ni nf now"
    and w: "superblock_written img b (unat (new_ncg plan)) (\<lambda>j. read_be32 (sb_view img s) (SB_NDIR_OFF + j * 4) + change nb ni nf j)
      (sb_view img s) t"
  shows "fs_consistent (reread img t) t" "cg_count (sb (reread img t)) = new_ncg plan"
    "frag_count (sb (reread img t)) = ucast (target_frags plan)" "csum_size (sb (reread img t)) = new_cssize plan"
proof -
  let ?v = "sb_view img s" and ?im = "reread img t"
  define p where "p = patched_superblock img ?v (new_ncg plan) (new_ncyl plan) (ucast (target_frags plan)) ds
      (cyl_summary_addr (sb img)) (new_cssize plan) nb ni nf now"
  have sbimg: "sb img = decode_superblock ?v" using con by (simp add: fs_consistent_def disk_superblock_view)
  let ?n = "min (unat (super_size (sb img))) 2048"
  have "\<forall>i<?n. old_sb i = ?v i" using old by simp
  then have local: "\<forall>i<?n. b i = p i" unfolding b p_def by (rule patched_superblock_local)
  have view: "sb_view img t i = p i" if "i < 2048" for i
    using w that local size patched_superblock_high by (auto simp: view_def superblock_written_def p_def)
  have "decode_superblock (sb_view img t) = decode_superblock (clip 2048 p)"
    using view by (simp add: view_def clip_eq_iff [of 2048, symmetric] cong: clip_cong)
  also have "\<dots> = decode_superblock p"
    by (simp add: decode_superblock_def cell_simps UFS_SUPER_MAGIC_OFFSET_def)
  finally have dec: "sb ?im = decode_superblock p" by (simp add: reread_def disk_superblock_view)
  have new: "sb ?im = (sb img)\<lparr>write_time := now, frag_count := ucast (target_frags plan), data_frag_count := ds,
      cg_count := new_ncg plan, csum_size := new_cssize plan, ncyl := new_ncyl plan,
      dir_count := dir_count (sb img), free_block_count := free_block_count (sb img) + word_of_int nb,
      free_inode_count := free_inode_count (sb img) + word_of_int ni,
      free_frag_count := free_frag_count (sb img) + word_of_int nf\<rparr>"
    unfolding dec p_def decode_patched_superblock sbimg [symmetric] by simp
  then show "cg_count (sb ?im) = new_ncg plan" "frag_count (sb ?im) = ucast (target_frags plan)"
    "csum_size (sb ?im) = new_cssize plan" by simp_all
  have base: "slice_base ?im = slice_base img" by (simp add: reread_def)
  note same = groups_ok_fields [OF new base]
  have groups: "groups_ok img (unat (new_ncg plan)) (\<lambda>j. read_be32 ?v (SB_NDIR_OFF + j * 4) + change nb ni nf j) t"
    using w by (simp add: superblock_written_def)
  have "read_be32 (sb_view img t) (SB_NDIR_OFF + j * 4) = read_be32 ?v (SB_NDIR_OFF + j * 4) + change nb ni nf j"
    if "j < 4" for j
  proof -
    have im: "decode_superblock (sb_view img t) = sb ?im" by (simp add: reread_def disk_superblock_view)
    from that show ?thesis
      unfolding less_4
      by (elim disjE) (simp_all only: superblock_counts im new sbimg [symmetric], simp_all add: change_def)
  qed
  with groups new have "fs_ok ?im t" by (simp add: fs_ok_def totals_def groups_ok_def same)
  moreover have "sb ?im = disk_superblock t (slice_base ?im)" by (simp add: reread_def)
  moreover have "cg_count (sb ?im) = new_ncg plan" by (simp add: new)
  ultimately show "fs_consistent ?im t"
    unfolding fs_consistent_def using groups by (simp add: groups_ok_def same)
qed

definition grown_result :: "nextufs_image \<Rightarrow> grow_plan \<Rightarrow> sys \<Rightarrow> bool" where
  "grown_result img plan t \<longleftrightarrow> fs_consistent (reread img t) t \<and> cg_count (sb (reread img t)) = new_ncg plan \<and>
     frag_count (sb (reread img t)) = ucast (target_frags plan) \<and> csum_size (sb (reread img t)) = new_cssize plan"

lemma wp_patch_superblocks:
  fixes plan :: grow_plan
  assumes con: "fs_consistent img s0" and lay: "grow_layout img plan"
    and old: "\<And>i. i < unat (super_size (sb img)) \<Longrightarrow> i < 2048 \<Longrightarrow> old_sb i = sb_view img s0 i"
    and st: "grown_to img (sb_view img s0) (\<lambda>j. read_be32 (sb_view img s0) (SB_NDIR_OFF + j * 4))
      (unat (new_ncg plan)) nb ni nf s"
    and Q: "\<And>t. grown_result img plan t \<Longrightarrow> sys_ok t \<Longrightarrow> Q () t"
  shows "wp (patch_and_write_superblocks img old_sb (new_ncg plan) (new_ncyl plan) (ucast (target_frags plan)) ds
    (cyl_summary_addr (sb img)) (new_cssize plan) nb ni nf) (\<lambda>_ _. True) Q s"
  unfolding patch_and_write_superblocks_def Let_def wp_andthen
proof (rule wp_sys_malloc)
  fix u assume u: "same_disk s u"
  let ?tot = "\<lambda>j. read_be32 (sb_view img s0) (SB_NDIR_OFF + j * 4) + change nb ni nf j"
  let ?b = "patched_superblock img old_sb (new_ncg plan) (new_ncyl plan) (ucast (target_frags plan)) ds
    (cyl_summary_addr (sb img)) (new_cssize plan) nb ni nf"
  let ?n = "unat (new_ncg plan)" and ?size = "unat (super_size (sb img))"
  note l = lay [unfolded grow_layout_def Let_def]
  have prim: "in_slice img (int UFS_SBLOCK_OFFSET) = sb_addr img" by (simp add: in_slice_def sb_addr_def UFS_SBLOCK_OFFSET_def)
  have "wp (sys_os time) (\<lambda>_ _. True) (\<lambda>now. wp (image_pwrite img (?b now) ?size (int UFS_SBLOCK_OFFSET)) (\<lambda>_ _. True)
      (\<lambda>_. wp (write_superblock_copies img (?b now) [0..<?n]) (\<lambda>_ _. True) Q)) u" if size: "208 \<le> ?size"
  proof (rule wp_sys_time)
    fix now v assume v: "same_disk u v"
    have s: "sys_ok s" using st by (simp add: grown_to_def groups_ok_def)
    with u v have ok: "sys_ok v" "disk v = disk s" by (auto simp: same_disk_def)
    then have "only_area 0 0 s v" by (simp add: only_area_def)
    then have stv: "grown_to img (sb_view img s0) (\<lambda>j. read_be32 (sb_view img s0) (SB_NDIR_OFF + j * 4)) ?n nb ni nf v"
      by (rule grown_to_outside [OF st]) (simp_all add: clear_of_def apart_def)
    have "sb_view img v = sb_view img s0" using stv by (simp add: grown_to_def)
    then have pre: "disk v (sb_addr img + i) = sb_view img s0 i" if "i < 2048" for i
      using that by (simp add: view_def clip_eq_iff)
    show "wp (image_pwrite img (?b now) ?size (int UFS_SBLOCK_OFFSET)) (\<lambda>_ _. True)
      (\<lambda>_. wp (write_superblock_copies img (?b now) [0..<?n]) (\<lambda>_ _. True) Q) v"
    proof (rule wp_superblock_write [where m = ?n and tot = ?tot and old = "sb_view img s0"])
      show "groups_ok img ?n ?tot v" using stv by (simp add: grown_to_def)
      show "clear_of img ?n (in_slice img (int UFS_SBLOCK_OFFSET)) ?size" using l by (simp add: prim)
      fix t assume t: "superblock_written img (?b now) ?n ?tot (sb_view img s0) t"
      show "wp (write_superblock_copies img (?b now) [0..<?n]) (\<lambda>_ _. True) Q t"
      proof (rule wp_superblock_copies [OF _ _ t])
        fix w assume w: "superblock_written img (?b now) ?n ?tot (sb_view img s0) w"
        from written_consistent [OF con size old refl w] w show "Q () w"
          by (intro Q) (simp_all add: grown_result_def superblock_written_def groups_ok_def)
      qed (use l in auto)
    qed (use pre prim in auto)
  qed
  then show "wp (if super_size (sb img) < 0xd0 then fail UNDEF else andthen (sys_os time) (\<lambda>now.
      andthen (image_pwrite img (?b now) ?size (int UFS_SBLOCK_OFFSET)) (\<lambda>_.
      write_superblock_copies img (?b now) [0..<?n]))) (\<lambda>_ _. True) Q u"
    by (intro wp_unless) (simp add: wp_andthen word_less_nat_alt)
qed simp

lemma wp_grow_file_system:
  fixes plan :: grow_plan
  assumes con: "fs_consistent img s" and last: "last_group_ends img s" and lay: "grow_layout img plan"
    and old: "\<And>i. i < unat (super_size (sb img)) \<Longrightarrow> i < 2048 \<Longrightarrow> old_sb i = sb_view img s i"
  shows "wp (grow_file_system img plan old_sb) (\<lambda>_ _. True) (\<lambda>_. grown_result img plan) s"
proof -
  note l = lay [unfolded grow_layout_def Let_def]
  have geo: "geometry_ok (with_groups img (new_ncg plan))" and sa: "summary_addressable img"
    and pos: "0 < cg_count (sb img)" "cg_count (sb img) \<le> new_ncg plan" using l by auto
  note geo0 = geometry_with_groups [OF geo pos(2)]
  let ?m = "unat (cg_count (sb img))" and ?n = "unat (new_ncg plan)" and ?last = "cg_count (sb img) - 1"
  let ?tot = "\<lambda>j. read_be32 (sb_view img s) (SB_NDIR_OFF + j * 4)"
  have m: "0 < ?m" "?m \<le> ?n" using pos by (simp_all add: word_less_nat_alt word_le_nat_alt)
  have lastm: "unat ?last < ?m" using m(1) pos(1) by (simp add: unat_sub word_le_nat_alt)
  show ?thesis
    unfolding grow_file_system_def Let_def wp_andthen
  proof (rule wp_expand_old_last_cg [OF geo0 geo sa consistent_grown_to [OF con] m(2) lastm])
    show "read_be32 (cg_view img ?last s) CG_NDBLK_OFF =
        ucast (ucast (frag_count (sb img)) - ucast (frags_per_group (sb img)) * ucast ?last :: u64)"
      using last by (simp add: last_group_ends_def Let_def)
    fix t x y z assume t: "grown_to img (sb_view img s) ?tot ?m (0 + x) 0 (0 + y) t"
    show "wp (case (x, y, z) of (nb, nf, dsize) \<Rightarrow>
        andthen (extend_summary img plan \<lparr>add_nbfree = nb, add_nifree = 0, add_nffree = nf,
          new_dsize = data_frag_count (sb img) + dsize\<rparr>) (\<lambda>sums.
        andthen (build_groups img plan (new_groups img (new_ncg plan)) sums) (\<lambda>sums.
        andthen (patch_and_write_superblocks img old_sb (new_ncg plan) (new_ncyl plan)
          (ucast (target_frags plan)) (new_dsize sums) (cyl_summary_addr (sb img)) (new_cssize plan)
          (add_nbfree sums) (add_nifree sums) (add_nffree sums)) (\<lambda>_.
        image_fsync img)))) (\<lambda>_ _. True) (\<lambda>_. grown_result img plan) t"
      unfolding prod.case wp_andthen
    proof (rule wp_extend_summary [OF geo0 geo sa _ m])
      show "grown_to img (sb_view img s) ?tot ?m (add_nbfree \<lparr>add_nbfree = x, add_nifree = 0, add_nffree = y,
          new_dsize = data_frag_count (sb img) + z\<rparr>) (add_nifree \<lparr>add_nbfree = x, add_nifree = 0, add_nffree = y,
          new_dsize = data_frag_count (sb img) + z\<rparr>) (add_nffree \<lparr>add_nbfree = x, add_nifree = 0, add_nffree = y,
          new_dsize = data_frag_count (sb img) + z\<rparr>) t" using t by simp
      fix u and sums :: grow_sums
      assume u: "grown_to img (sb_view img s) ?tot ?m (add_nbfree sums) (add_nifree sums) (add_nffree sums) u"
      show "wp (build_groups img plan (new_groups img (new_ncg plan)) sums) (\<lambda>_ _. True)
          (\<lambda>sums. wp (patch_and_write_superblocks img old_sb (new_ncg plan) (new_ncyl plan)
            (ucast (target_frags plan)) (new_dsize sums) (cyl_summary_addr (sb img)) (new_cssize plan)
            (add_nbfree sums) (add_nifree sums) (add_nffree sums)) (\<lambda>_ _. True)
            (\<lambda>_. wp (image_fsync img) (\<lambda>_ _. True) (\<lambda>_. grown_result img plan))) u"
        unfolding new_groups_def
      proof (rule wp_build_groups [OF geo0 geo sa _ _ order_refl m(2) u])
        fix v and sums :: grow_sums
        assume v: "grown_to img (sb_view img s) ?tot ?n (add_nbfree sums) (add_nifree sums) (add_nffree sums) v"
        show "wp (patch_and_write_superblocks img old_sb (new_ncg plan) (new_ncyl plan)
            (ucast (target_frags plan)) (new_dsize sums) (cyl_summary_addr (sb img)) (new_cssize plan)
            (add_nbfree sums) (add_nifree sums) (add_nffree sums)) (\<lambda>_ _. True)
            (\<lambda>_. wp (image_fsync img) (\<lambda>_ _. True) (\<lambda>_. grown_result img plan)) v"
        proof (rule wp_patch_superblocks [OF con lay old v])
          fix w assume w: "grown_result img plan w" "sys_ok w"
          show "wp (image_fsync img) (\<lambda>_ _. True) (\<lambda>_. grown_result img plan) w"
          proof (rule wp_image_fsync [OF w(2)])
            fix q assume q: "sys_ok q" "disk q = disk w"
            have view: "view q a k = view w a k" for a k by (intro view_cong) (simp add: q)
            have "reread img q = reread img w" by (simp add: reread_def disk_superblock_def q)
            moreover have "fs_consistent im q = fs_consistent im w" for im
              using q w(2) by (simp add: fs_consistent_def fs_ok_def totals_def in_step_def view
                grown_result_def disk_superblock_def)
            ultimately show "grown_result img plan q" using w by (simp add: grown_result_def)
          qed
        qed
      qed (use l in auto)
    qed (use l in auto)
  qed
qed

end
