(* ===== verification/TinyGrow.thy ===== *)
theory TinyGrow
  imports Tiny ResizeFs
begin

text \<open>
  A concrete file system to grow: one cylinder group of 20 fragments out of 32, the four behind
  the metadata free, in a raw file of 20 KB that carries its own superblock.
\<close>

section \<open>Disks given by their words\<close>

definition pokes :: "(nat \<times> u32) list \<Rightarrow> buf" where
  "pokes ws = foldr (\<lambda>(p, v) d. write_be32 d p v) ws (\<lambda>_. 0)"

lemma read_pokes:
  assumes "p mod 4 = 0" "list_all (\<lambda>(q, _). q mod 4 = 0) ws"
  shows "read_be32 (pokes ws) p = (case map_of ws p of None \<Rightarrow> 0 | Some v \<Rightarrow> v)"
  using assms(2)
proof (induction ws)
  case (Cons w ws)
  obtain q v where w: "w = (q, v)" by (cases w)
  then have q: "q mod 4 = 0" using Cons.prems by simp
  have p: "pokes ((q, v) # ws) = write_be32 (pokes ws) q v" by (simp add: pokes_def)
  show ?case
  proof (cases "q = p")
    case True
    with p show ?thesis by (simp add: w cell_simps)
  next
    case False
    then have "p + 4 \<le> q \<or> q + 4 \<le> p" using q assms(1) by presburger
    then show ?thesis using Cons False by (simp add: w p cell_simps)
  qed
qed (simp add: pokes_def)

lemma read_pokes_view:
  assumes "disk s = clip n (pokes ws)" "list_all (\<lambda>(q, _). q mod 4 = 0) ws"
    "p + 4 \<le> m" "a + p + 4 \<le> n" "(a + p) mod 4 = 0"
  shows "read_be32 (view s a m) p = (case map_of ws (a + p) of None \<Rightarrow> 0 | Some v \<Rightarrow> v)"
  using assms read_pokes [of "a + p" ws] by (simp add: read_be32_view cell_simps add.assoc)

definition grow_words :: "(nat \<times> u32) list" where
  "grow_words =
     [(8200, 8), (8204, 10), (8208, 11), (8212, 14), (8228, 20), (8236, 1), (8240, 2048), (8244, 1024),
      (8248, 2), (8296, 2048), (8312, 8), (8316, 2), (8344, 14), (8348, 1024), (8352, 1024), (8360, 8),
      (8364, 8), (8372, 1), (8376, 8), (8380, 32), (8388, 2), (8392, 8),
      (14340, 2), (14344, 8),
      (10260, 20), (10268, 2), (10272, 8), (11220, CG_MAGIC), (11224, 0xf00)]"

definition grow_file :: hostfile where
  "grow_file = \<lparr>fsize = 20480, fbytes = pokes grow_words\<rparr>"

definition grow_state :: sys where
  "grow_state = (RawBackend grow_file, tiny_os)"

definition grow_image :: nextufs_image where
  "grow_image = tiny_image\<lparr>image_size := 20480, slice_size := 20480, sb := disk_superblock grow_state 0\<rparr>"

definition grow_tiny_plan :: grow_plan where
  "grow_tiny_plan = \<lparr>target_frags = 48, new_ncg = 2, new_ncyl = 2, new_cssize = 1024\<rparr>"

lemma grow_disk: "disk grow_state = clip 20480 (pokes grow_words)"
  by (simp add: disk_def grow_state_def grow_file_def file_byte_def)

lemma grow_aligned: "list_all (\<lambda>(q, _). q mod 4 = 0) grow_words"
  by (simp add: grow_words_def)

lemma grow_word:
  "p + 4 \<le> m \<Longrightarrow> a + p + 4 \<le> 20480 \<Longrightarrow> (a + p) mod 4 = 0 \<Longrightarrow>
     read_be32 (view grow_state a m) p = (case map_of grow_words (a + p) of None \<Rightarrow> 0 | Some v \<Rightarrow> v)"
  by (rule read_pokes_view [OF grow_disk grow_aligned])

lemma grow_sb: "sb grow_image = decode_superblock (view grow_state 8192 2048)"
  by (simp add: grow_image_def disk_superblock_def view_def)

lemma grow_fields [simp]:
  "sb_off (sb grow_image) = 8" "cg_off (sb grow_image) = 10" "ino_off (sb grow_image) = 11"
  "data_off (sb grow_image) = 14" "frag_count (sb grow_image) = 20" "cg_count (sb grow_image) = 1"
  "block_size (sb grow_image) = 2048" "frag_size (sb grow_image) = 1024" "frags_per_block (sb grow_image) = 2"
  "super_size (sb grow_image) = 2048" "inodes_per_block (sb grow_image) = 8" "sectors_per_frag (sb grow_image) = 2"
  "cyl_summary_addr (sb grow_image) = 14" "csum_size (sb grow_image) = 1024" "cg_size (sb grow_image) = 1024"
  "sectors_per_track (sb grow_image) = 8" "sectors_per_cyl (sb grow_image) = 8" "cpg (sb grow_image) = 1"
  "inodes_per_group (sb grow_image) = 8" "frags_per_group (sb grow_image) = 32"
  "cg_delta (sb grow_image) = 0" "cg_cyc_mask (sb grow_image) = 0"
  by (simp_all add: grow_sb decode_superblock_def grow_word grow_words_def)

lemma grow_image_fields [simp]:
  "slice_base grow_image = 0" "writable grow_image = True" "used_disk_label grow_image = False"
  by (simp_all add: grow_image_def tiny_image_def)

lemma grow_cgstart [simp]: "cgstart grow_image cg = 32 * ucast cg"
  by (simp add: cgstart_def Let_def)

lemma grow_addrs [simp]:
  "sb_addr grow_image = 8192" "cg_bytes grow_image = 1024"
  "cs_addr grow_image 0 = 14336" "cs_addr grow_image 1 = 14352"
  "cg_addr grow_image 0 = 10240" "cg_addr grow_image 1 = 43008"
  by (simp_all add: sb_addr_def cs_addr_def cg_addr_def cg_block_offset_def cg_bytes_def)

lemma less_2: "(c :: nat) < 2 \<longleftrightarrow> c = 0 \<or> c = 1"
  by auto

lemma grow_with [simp]: "unat (2 :: u32) = 2" "of_nat (Suc 0) = (1 :: u32)"
  by simp_all

lemma grow_geometry: "geometry_ok (with_groups grow_image 2)"
  by (simp add: geometry_ok_def Let_def less_2 apart_def all_conj_distrib) (simp add: with_groups_def)

lemma grow_group_word:
  "read_be32 (view grow_state 10240 1024) 20 = 20" "read_be32 (view grow_state 10240 1024) 24 = 0"
  "read_be32 (view grow_state 10240 1024) 28 = 2" "read_be32 (view grow_state 10240 1024) 32 = 8"
  "read_be32 (view grow_state 10240 1024) 36 = 0" "read_be32 (view grow_state 10240 1024) 56 = 0"
  "read_be32 (view grow_state 10240 1024) 980 = CG_MAGIC" "read_be32 (view grow_state 10240 1024) 984 = 0xf00"
  "read_be32 (view grow_state 10240 1024) 724 = 0"
  "read_be32 (view grow_state 14336 16) 0 = 0" "read_be32 (view grow_state 14336 16) 4 = 2"
  "read_be32 (view grow_state 14336 16) 8 = 8" "read_be32 (view grow_state 14336 16) 12 = 0"
  "read_be32 (view grow_state 8192 2048) 192 = 0" "read_be32 (view grow_state 8192 2048) 196 = 2"
  "read_be32 (view grow_state 8192 2048) 200 = 8" "read_be32 (view grow_state 8192 2048) 204 = 0"
  by (simp_all add: grow_word grow_words_def)

lemma less_4_cases: "(k :: nat) < 4 \<Longrightarrow> k = 0 \<or> k = 1 \<or> k = 2 \<or> k = 3"
  by auto

lemma less_8_cases: "(k :: nat) < 8 \<Longrightarrow> k = 0 \<or> k = 1 \<or> k = 2 \<or> k = 3 \<or> k = 4 \<or> k = 5 \<or> k = 6 \<or> k = 7"
  by auto

lemma grow_map:
  assumes "k < 32"
  shows "free_map (view grow_state 10240 1024) k \<longleftrightarrow> 16 \<le> k \<and> k < 20"
proof -
  let ?b = "view grow_state 10240 1024"
  have bytes: "?b 984 = 0" "?b 985 = 0" "?b 986 = 15" "?b 987 = 0"
    using be32_bytes [of ?b 984] by (simp_all add: grow_group_word)
  have k: "k = k div 8 * 8 + k mod 8" "k div 8 < 4" "k mod 8 < 8" using assms by simp_all
  have k16: "16 \<le> k \<and> k < 20 \<longleftrightarrow> k div 8 = 2 \<and> k mod 8 < 4" by presburger
  have hit: "bit (15 :: u8) j \<longleftrightarrow> j < 4" if "j < 8" for j
    using less_8_cases [OF that] by auto
  show ?thesis
    unfolding free_map_def free_bit_iff CG_FREE_OFF_def
    using less_4_cases [OF k(2)] bytes hit [OF k(3)] k16 by auto
qed

lemma grow_inodes: "i < 8 \<Longrightarrow> \<not> inode_used (view grow_state 10240 1024) i"
  using be32_bytes(1) [of "view grow_state 10240 1024" 724]
  by (simp add: inode_used_def free_bit_iff CG_IUSED_OFF_def grow_group_word)

lemma grow_wf: "cg_wf grow_image (view grow_state 10240 1024)"
proof -
  let ?b = "view grow_state 10240 1024"
  have full: "blk_full (free_map ?b) 2 c \<longleftrightarrow> c = 8 \<or> c = 9" if "c < 10" for c
    using that grow_map [of "c * 2"] grow_map [of "c * 2 + 1"] by (auto simp: blk_full_def all_less_2)
  have none: "\<not> free_map ?b (c * 2 + i)" if "c < 10" "c \<noteq> 8" "c \<noteq> 9" "i < 2" for c i
    using that grow_map [of "c * 2 + i"] by auto
  have frags: "blk_frags (free_map ?b) 2 c = 0" if "c < 10" for c
    using that full [OF that] blk_none(2) [of 2 "free_map ?b" c] none [OF that] by (cases "c = 8 \<or> c = 9") (auto simp: blk_frags_def)
  have runs: "blk_runs (free_map ?b) 2 c k = 0" if "c < 10" "k < 2" for c k
  proof (cases "c = 8 \<or> c = 9")
    case True
    with that full [OF that(1)] show ?thesis unfolding blk_runs_def by (intro runs_full) (auto simp: blk_full_def)
  next
    case False
    then show ?thesis using blk_none(3) [of 2 "free_map ?b" c] none [OF that(1)] by auto
  qed
  have "(\<Sum>c<10. if blk_full (free_map ?b) 2 c then 1 else 0 :: u32) = (\<Sum>c<10. if c = 8 \<or> c = (9 :: nat) then 1 else 0)"
    by (rule sum.cong) (simp_all add: full)
  also have "\<dots> = 2" by (simp add: lessThan_nat_numeral)
  finally have nb: "(\<Sum>c<10. if blk_full (free_map ?b) 2 c then 1 else 0 :: u32) = 2" .
  have k1: "Suc 0 \<le> k \<and> k < 2 \<longleftrightarrow> k = Suc 0" for k :: nat by auto
  have "cg_accounts 2 10 ?b"
    by (simp add: cg_accounts_def cg_offsets grow_group_word nb frags runs frsum_off_def) (simp add: k1 grow_group_word)
  moreover have "inode_accounts 8 ?b"
    by (simp add: inode_accounts_def cg_offsets grow_group_word grow_inodes)
  ultimately show ?thesis
    using grow_map by (auto simp: cg_wf_def Let_def cg_offsets grow_group_word nblk_def)
qed

lemma grow_consistent: "fs_consistent grow_image grow_state"
proof -
  have calm: "calm 20480 grow_state" by (simp add: calm_def grow_state_def grow_file_def tiny_os_def)
  have "totals grow_image grow_state"
    unfolding totals_def less_4 by (auto simp: SB_NDIR_OFF_def grow_group_word)
  moreover have "in_step grow_image 0 grow_state"
    unfolding in_step_def less_4 by (auto simp: cg_offsets grow_group_word)
  moreover have "tail_clear grow_image (view grow_state 10240 1024)"
    using grow_map by (auto simp: tail_clear_def cg_offsets grow_group_word)
  ultimately show ?thesis
    using grow_wf calm_sys_ok [OF calm] by (simp add: fs_consistent_def fs_ok_def) (simp add: grow_image_def)
qed

lemma grow_last: "last_group_ends grow_image grow_state"
  by (simp add: last_group_ends_def cg_offsets grow_group_word)

lemma one_of_two: "Suc 0 \<le> c \<and> (c = 0 \<or> c = Suc 0) \<longleftrightarrow> c = Suc 0"
  by auto

lemma grow_tiny_layout: "grow_layout grow_image grow_tiny_plan"
  using grow_geometry one_of_two
  by (simp add: grow_layout_def Let_def grow_tiny_plan_def summary_addressable_def clear_of_def less_2 apart_def
    copy_area_def inode_area_def inode_bytes_def in_slice_def frag_bytes_def cgsblock_def cgimin_def cgdmin_def
    group_lower_def group_upper_def all_conj_distrib)

end
