(* ===== verification/ResizeClaims.thy ===== *)
theory ResizeClaims
  imports ResizeFs Live TinyGrow
begin

text \<open>
  The properties of \<open>nextufs resize grow\<close>: growing keeps the file system consistent, and it goes
  through on a host whose calls succeed.
\<close>

section \<open>Growing goes through\<close>

lemma adjust_rotation_total:
  "sectors_per_cyl (sb img) \<noteq> 0 \<Longrightarrow> sectors_per_track (sb img) \<noteq> 0 \<Longrightarrow> \<exists>c. adjust_rotation img k x y b = Some c"
  by (simp add: adjust_rotation_def Let_def)

lemma add_free_in_block_total:
  assumes "sectors_per_cyl (sb img) \<noteq> 0" "sectors_per_track (sb img) \<noteq> 0" "p \<le> e"
    and "\<And>k. p \<le> k \<Longrightarrow> k < e \<Longrightarrow> \<not> free_map b k"
  shows "\<exists>r. add_free_in_block img c p e b = Inr r"
proof -
  have range: "[p..<e] = [p..<p + (e - p)]" using assms(3) by simp
  obtain b1 where b1: "release_bits p (e - p) b = Some b1"
    using release_bits_total [of "e - p" b p] assms(4) by auto
  show ?thesis
    using adjust_rotation_total [OF assms(1,2)]
    by (auto simp: add_free_in_block_def range add_free_bits_release b1 Let_def split: option.splits) (metis option.distinct(1))
qed

lemma add_free_loop_total:
  assumes g: "sectors_per_cyl (sb img) \<noteq> 0" "sectors_per_track (sb img) \<noteq> 0"
    and n: "n = unat (frags_per_block (sb img))" "0 < n" "n \<le> 8"
    and "\<And>k. p \<le> k \<Longrightarrow> k < e \<Longrightarrow> \<not> free_map b k"
  shows "\<exists>r. add_free_loop img p e b d1 d2 = Inr r"
  using assms(6)
proof (induction "e - p" arbitrary: p b d1 d2 rule: less_induct)
  case less
  have n0: "unat (frags_per_block (sb img)) = n" using n(1) by simp
  show ?case
  proof (cases "p < e")
    case True
    define c where "c = p div n"
    define q where "q = min e (c * n + n)"
    have base: "p - p mod n = c * n" by (simp add: c_def minus_mod_eq_div_mult)
    have pm: "p mod n < n" "c * n + p mod n = p" using n(2) by (simp_all add: c_def)
    then have q: "c * n \<le> p" "p < q" "q \<le> c * n + n" "q \<le> e" using True by (auto simp: q_def)
    obtain b1 x y where blk: "add_free_in_block img (c * n) p q b = Inr (b1, x, y)"
      using add_free_in_block_total [OF g, of p q b "c * n"] q less.prems by (metis order_less_le_trans order_less_imp_le prod_cases3)
    have free: "free_map b1 = (\<lambda>k. free_map b k \<or> p \<le> k \<and> k < q)"
      by (rule add_free_in_block(2) [OF blk n(1,3) q(1-3)])
    have "\<exists>r. add_free_loop img q e b1 (d1 + x) (d2 + y) = Inr r"
      by (rule less.hyps) (use q True less.prems free in auto)
    then show ?thesis
      using True n blk by (simp add: add_free_loop.simps [of img p] Let_def n0 base q_def [symmetric])
  qed (simp add: add_free_loop.simps [of img p])
qed

lemma add_free_frag_range_total:
  assumes "geometry_ok img" "p \<le> e" "e \<le> frags_per_group (sb img)"
    and "\<And>k. unat p \<le> k \<Longrightarrow> k < unat e \<Longrightarrow> \<not> free_map b k"
  shows "\<exists>b' nb nf. add_free_frag_range img b p e = Inr (b', nb, nf)"
proof -
  note g = geometry_simps [OF assms(1)]
  have "frags_per_block (sb img) \<noteq> 0" "\<not> 8 < frags_per_block (sb img)"
    using g(1,2) by (auto simp: word_less_nat_alt)
  moreover have "unat e + 8 < 2 ^ 32" using assms(3) g(5) by (simp add: word_le_nat_alt)
  moreover obtain r where "add_free_loop img (unat p) (unat e) b 0 0 = Inr r"
    using add_free_loop_total [OF g(9,10) refl g(1,2) assms(4)] by blast
  ultimately show ?thesis using assms(2,3) by (cases r) (auto simp: add_free_frag_range_def Let_def)
qed

lemma build_new_cg_total:
  assumes geo: "geometry_ok img" and "group_lower img cg \<le> group_upper img cg"
    and "group_upper img cg \<le> ndblk" "ndblk \<le> frags_per_group (sb img)"
  shows "\<exists>r. build_new_cg img cg nc ndblk now = Inr r"
proof -
  let ?h = "group_header img cg nc ndblk now"
  let ?lo = "group_lower img cg" and ?up = "group_upper img cg"
  have lo: "?lo \<le> frags_per_group (sb img)" using assms by simp
  obtain b1 nb1 nf1 where r1: "add_free_frag_range img ?h 0 ?lo = Inr (b1, nb1, nf1)"
    using add_free_frag_range_total [OF geo _ lo, of 0 ?h] group_header_map by auto
  have "cg_accounts (unat (frags_per_block (sb img))) (unat ?lo) (settled 0 0 ?h)"
    by (simp add: cg_accounts_settled_0 group_header_accounts geometry_simps [OF geo])
  from add_free_frag_range_ok(2) [OF r1 _ this] have "range_added 0 (unat ?lo) ?h b1"
    using geometry_simps(1) [OF geo] by simp
  then have "\<not> free_map b1 k" if "unat ?up \<le> k" for k
    using that assms(2) by (simp add: range_added_def group_header_map word_le_nat_alt)
  then obtain b2 nb2 nf2 where "add_free_frag_range img b1 ?up ndblk = Inr (b2, nb2, nf2)"
    using add_free_frag_range_total [OF geo assms(3,4), of b1] by blast
  with r1 assms(3,4) show ?thesis
    by (simp add: build_new_cg_def Let_def group_upper_def [symmetric] group_lower_def [symmetric]
      group_header_def [symmetric] not_less)
qed

lemma wp_image_pwrite_calm:
  assumes "calm N s" "writable img" "0 \<le> slice_base img" "0 \<le> off" "\<And>t. calm N t \<Longrightarrow> Q () t"
  shows "wp (image_pwrite img d n off) E Q s"
  using assms by (simp add: image_pwrite_def) (rule wp_write_calm [of N s img], simp_all)

lemma wp_write_zeroes_calm:
  assumes "writable img" "0 \<le> slice_base img" "0 \<le> off" "\<And>t. calm N t \<Longrightarrow> Q () t"
  shows "calm N s \<Longrightarrow> wp (write_zeroes img off len) E Q s"
proof -
  have "calm N s \<Longrightarrow> wp (write_zeroes_loop img off n d) E Q s" for n d s
  proof (induction "n - d" arbitrary: d s rule: less_induct)
    case less
    show ?case
    proof (cases "d < n")
      case False
      have step: "write_zeroes_loop img off n d = ret ()"
        using False by (rule_tac ext) (simp add: write_zeroes_loop.simps [of img off n d])
      show ?thesis unfolding step wp_ret by (rule assms(4)) (rule less.prems)
    next
      case True
      let ?c = "min (n - d) 8192"
      have step: "write_zeroes_loop img off n d =
        andthen (image_pwrite img (\<lambda>_. 0) ?c (off + int d)) (\<lambda>_. write_zeroes_loop img off n (d + ?c))"
        using True by (rule_tac ext) (simp add: write_zeroes_loop.simps [of img off n d] andthen_def Let_def
          split: prod.splits sum.splits)
      show ?thesis
        unfolding step wp_andthen
        by (rule wp_image_pwrite_calm [OF less.prems assms(1,2)])
          (use assms(3) less.hyps True in auto)
    qed
  qed
  then show "calm N s \<Longrightarrow> wp (write_zeroes img off len) E Q s" by (simp add: write_zeroes_def)
qed

text \<open>The addresses the command writes to are representable, and those it reads inside the image.\<close>

definition grow_reach :: "nextufs_image \<Rightarrow> grow_plan \<Rightarrow> nat \<Rightarrow> bool" where
  "grow_reach img plan N \<longleftrightarrow> writable img \<and> 208 \<le> super_size (sb img) \<and>
     cg_addr img (cg_count (sb img) - 1) + cg_bytes img \<le> N \<and>
     (\<forall>c<unat (new_ncg plan). 0 \<le> frag_bytes img (cgtod img (of_nat c)) \<and>
        0 \<le> frag_bytes img (cgsblock img (of_nat c)) \<and> 0 \<le> frag_bytes img (cgimin img (of_nat c)))"

text \<open>The new size lies behind the old end, in the last old group, and leaves room in every new group.\<close>

definition plan_fits :: "nextufs_image \<Rightarrow> grow_plan \<Rightarrow> bool" where
  "plan_fits img plan \<longleftrightarrow> (let fpg = unat (frags_per_group (sb img)); last = unat (cg_count (sb img)) - 1 in
     new_cssize plan \<le> csum_size (sb img) \<and>
     fpg * last < unat (frag_count (sb img)) \<and> unat (frag_count (sb img)) \<le> fpg * last + fpg \<and>
     ucast (frag_count (sb img)) \<le> target_frags plan \<and>
     list_all (new_group_fits img (target_frags plan)) (new_groups img (new_ncg plan)))"

lemma wp_write_csum_calm:
  assumes "calm N s" "writable img" "summary_addressable img" "\<And>t. calm N t \<Longrightarrow> Q () t"
  shows "wp (write_csum_entry img cg a b c d) E Q s"
  unfolding write_csum_entry_def write_csum_entry_at_def Let_def
  by (rule wp_image_pwrite_calm [OF assms(1,2)])
    (use assms(3,4) csum_off_value [OF assms(3)] in \<open>auto simp: summary_addressable_def\<close>)

lemma wp_write_group_calm:
  assumes "calm N s" "writable img" "summary_addressable img" "0 \<le> frag_bytes img (cgtod img cg)" "\<And>t. calm N t \<Longrightarrow> Q () t"
  shows "wp (write_group img cg b) E Q s"
  unfolding write_group_def
  by (rule wp_image_pwrite_calm [OF assms(1,2)]) (use assms(3-5) in \<open>auto simp: summary_addressable_def\<close>)

lemma unat_ucast64: "unat (ucast (x :: u32) :: u64) = unat x"
  using unat_le_max32 [of x] by (simp add: unsigned_ucast_eq take_bit_nat_eq_self)

lemma cg_frag_count_eq:
  assumes "unat (frags_per_group (sb img)) * unat cg \<le> unat target"
  shows "unat (cg_frag_count img cg target) =
    min (unat target - unat (frags_per_group (sb img)) * unat cg) (unat (frags_per_group (sb img)))"
proof -
  let ?fpg = "frags_per_group (sb img)"
  let ?base = "ucast cg * ucast ?fpg :: u64"
  have base: "unat ?base = unat ?fpg * unat cg" by (simp add: product_in_64 mult.commute)
  then have rem: "unat (target - ?base) = unat target - unat ?fpg * unat cg"
    using assms by (simp add: unat_sub word_le_nat_alt)
  show ?thesis
  proof (cases "target - ?base < ucast ?fpg")
    case True
    then have lt: "unat (target - ?base) < unat ?fpg" by (simp add: word_less_nat_alt unat_ucast64)
    then have "unat (ucast (target - ?base) :: u32) = unat (target - ?base)"
      using unat_le_max32 [of ?fpg] by (simp add: unsigned_ucast_eq take_bit_nat_eq_self)
    with lt True show ?thesis by (simp add: cg_frag_count_def Let_def rem)
  next
    case False
    then show ?thesis by (simp add: cg_frag_count_def Let_def rem word_less_nat_alt unat_ucast64)
  qed
qed

lemma cg_frag_count_le: "cg_frag_count img cg t \<le> frags_per_group (sb img)"
proof -
  let ?fpg = "frags_per_group (sb img)" and ?r = "t - ucast cg * ucast (frags_per_group (sb img))"
  have "ucast ?r \<le> ?fpg" if "?r < ucast ?fpg"
  proof -
    have lt: "unat ?r < unat ?fpg" using that by (simp add: word_less_nat_alt unat_ucast64)
    then have "unat (ucast ?r :: u32) = unat ?r"
      using unat_le_max32 [of ?fpg] by (simp add: unsigned_ucast_eq take_bit_nat_eq_self)
    with lt show ?thesis by (simp add: word_le_nat_alt)
  qed
  then show ?thesis by (simp add: cg_frag_count_def Let_def)
qed

lemma wp_expand_calm:
  assumes calm: "calm N s" and con: "fs_consistent img s" and last: "last_group_ends img s"
    and lay: "grow_layout img plan" and reach: "grow_reach img plan N" and fits: "plan_fits img plan"
    and Q: "\<And>x y z t. calm N t \<Longrightarrow> Q (x, y, z) t"
  shows "wp (expand_old_last_cg img (cg_count (sb img) - 1) (ucast (frag_count (sb img))) (target_frags plan) nc) E Q s"
proof -
  let ?cg = "cg_count (sb img) - 1" and ?fpg = "frags_per_group (sb img)"
  let ?old = "ucast (frag_count (sb img)) :: u64" and ?base = "ucast ?fpg * ucast (cg_count (sb img) - 1) :: u64"
  let ?start = "ucast (?old - ?base) :: u32" and ?stop = "cg_frag_count img ?cg (target_frags plan)"
  note l = lay [unfolded grow_layout_def Let_def] and r = reach [unfolded grow_reach_def]
    and f = fits [unfolded plan_fits_def Let_def]
  have pos: "0 < cg_count (sb img)" "cg_count (sb img) \<le> new_ncg plan" and sa: "summary_addressable img"
    and geo: "geometry_ok img" using l geometry_with_groups by auto
  have wr: "writable img" using r by simp
  have cgn: "unat ?cg = unat (cg_count (sb img)) - 1"
    using pos(1) by (subst unat_sub) (simp_all add: word_le_nat_alt word_less_nat_alt)
  then have lt: "unat ?cg < unat (cg_count (sb img))" "unat ?cg < unat (new_ncg plan)"
    using pos by (simp_all add: word_le_nat_alt word_less_nat_alt)
  have "of_nat (unat ?cg) = ?cg" by simp
  with r lt(2) have off: "0 \<le> frag_bytes img (cgtod img ?cg)" by metis
  have base: "unat ?base = unat ?fpg * unat ?cg" by (rule product_in_64)
  have fc: "unat ?fpg * unat ?cg < unat (frag_count (sb img))" "unat (frag_count (sb img)) \<le> unat ?fpg * unat ?cg + unat ?fpg"
    "unat (frag_count (sb img)) \<le> unat (target_frags plan)"
    using f cgn by (simp_all add: word_le_nat_alt unat_ucast64)
  have sum: "unat (?base + ucast ?fpg) = unat ?fpg * unat ?cg + unat ?fpg"
    using base fc(1) unat_le_max32 [of "frag_count (sb img)"] unat_le_max32 [of ?fpg]
    by (simp add: unat_word_ariths unat_ucast64)
  have cond: "\<not> (?old \<le> ?base \<or> ?base + ucast ?fpg < ?old \<or> target_frags plan < ?old)"
    using fc base sum by (simp add: word_le_nat_alt word_less_nat_alt unat_ucast64)
  have "unat (?old - ?base) = unat (frag_count (sb img)) - unat ?fpg * unat ?cg"
    using fc(1) base by (simp add: unat_sub word_le_nat_alt unat_ucast64)
  then have start: "unat ?start = unat (frag_count (sb img)) - unat ?fpg * unat ?cg"
    using unat_le_max32 [of "frag_count (sb img)"] by (simp add: unsigned_ucast_eq take_bit_nat_eq_self)
  have stop: "unat ?stop = min (unat (target_frags plan) - unat ?fpg * unat ?cg) (unat ?fpg)"
    by (rule cg_frag_count_eq) (use fc in simp)
  have le: "?start \<le> ?stop" "?stop \<le> ?fpg" using start stop fc by (auto simp: word_le_nat_alt)
  have "tail_clear img (cg_view img (of_nat (unat ?cg)) s)" using con lt(1) unfolding fs_consistent_def by blast
  then have tail: "\<not> free_map (cg_view img ?cg s) k" if "unat ?start \<le> k" "k < unat ?stop" for k
    using that last le(2) by (simp add: tail_clear_def last_group_ends_def Let_def word_le_nat_alt)
  obtain b x y where ex: "expanded_group img ?start ?stop nc (cg_view img ?cg s) = Inr (b, x, y)"
    using add_free_frag_range_total [OF geo le tail] by (auto simp: expanded_group_def Let_def)
  have slice: "0 \<le> slice_base img" using sa by (simp add: summary_addressable_def)
  show ?thesis
    unfolding expand_old_last_cg_def Let_def if_not_P [OF cond] wp_andthen
  proof (rule wp_malloc_calm [OF calm])
    fix t assume t: "calm N t" "disk t = disk s"
    show "wp (image_pread img (unat (cg_size (sb img))) (frag_bytes img (cgtod img ?cg))) E
      (\<lambda>buf. wp (case expanded_group img ?start ?stop nc buf of Inl e \<Rightarrow> fail e
        | Inr (buf, nbfree, nffree) \<Rightarrow>
          andthen (sys_os time) (\<lambda>now.
          andthen (write_group_and_csum img ?cg (write_be32 buf CG_TIME_OFF now)) (\<lambda>_.
          ret (nbfree, nffree, ?stop - ?start)))) E Q) t"
      unfolding image_pread_def using off
    proof (simp, intro wp_read_calm [OF t(1)])
      show "0 \<le> slice_base img + frag_bytes img (cgtod img ?cg)" using off slice by simp
      show "nat (slice_base img + frag_bytes img (cgtod img ?cg)) + unat (cg_size (sb img)) \<le> N"
        using r cg_addr_in_slice [of img ?cg] by (simp add: in_slice_def cg_bytes_def)
      fix u assume u: "calm N u" "disk u = disk t"
      have v: "clip (unat (cg_size (sb img))) (\<lambda>i. disk t (nat (slice_base img + frag_bytes img (cgtod img ?cg)) + i)) = cg_view img ?cg s"
        by (simp add: view_def cg_addr_in_slice in_slice_def cg_bytes_def t(2))
      show "wp (case expanded_group img ?start ?stop nc (clip (unat (cg_size (sb img)))
            (\<lambda>i. disk t (nat (slice_base img + frag_bytes img (cgtod img ?cg)) + i))) of Inl e \<Rightarrow> fail e
        | Inr (buf, nbfree, nffree) \<Rightarrow>
          andthen (sys_os time) (\<lambda>now.
          andthen (write_group_and_csum img ?cg (write_be32 buf CG_TIME_OFF now)) (\<lambda>_.
          ret (nbfree, nffree, ?stop - ?start)))) E Q u"
        unfolding v ex sum.case prod.case wp_andthen write_group_and_csum_def wp_ret
        by (intro wp_time_calm [OF u(1)] wp_write_group_calm wp_write_csum_calm wr sa off Q)
    qed
  qed
qed

lemma wp_build_groups_calm:
  assumes lay: "grow_layout img plan" and reach: "grow_reach img plan N" and fits: "plan_fits img plan"
    and Q: "\<And>x t. calm N t \<Longrightarrow> Q x t"
  shows "set cgs \<subseteq> set (new_groups img (new_ncg plan)) \<Longrightarrow> calm N s \<Longrightarrow> wp (build_groups img plan cgs sums) E Q s"
proof (induction cgs arbitrary: sums s)
  case Nil
  then show ?case unfolding build_groups.simps wp_ret by (intro Q)
next
  case (Cons cg cgs)
  note l = lay [unfolded grow_layout_def Let_def] and r = reach [unfolded grow_reach_def]
    and f = fits [unfolded plan_fits_def Let_def]
  have pos: "cg_count (sb img) \<le> new_ncg plan" and sa: "summary_addressable img" and geo: "geometry_ok img"
    using l geometry_with_groups by auto
  have wr: "writable img" using r by simp
  have slice: "0 \<le> slice_base img" using sa by (simp add: summary_addressable_def)
  have "cg \<in> set (new_groups img (new_ncg plan))" using Cons.prems(1) by simp
  then obtain c where c: "cg = of_nat c" "unat (cg_count (sb img)) \<le> c" "c < unat (new_ncg plan)"
    by (auto simp: new_groups_def)
  have off: "0 \<le> frag_bytes img (cgtod img cg)" "0 \<le> frag_bytes img (cgimin img cg)" using r c by auto
  have order: "group_lower img cg \<le> group_upper img cg" using l c by blast
  have fit: "group_upper img cg \<le> cg_frag_count img cg (target_frags plan)"
    using f Cons.prems(1) by (simp add: list_all_iff new_group_fits_def group_upper_def)
  show ?case
    unfolding build_groups.simps build_and_write_group_def Let_def wp_andthen
  proof (rule wp_time_calm [OF Cons.prems(2)])
    fix now t assume t: "calm N t"
    obtain b x y where new: "build_new_cg img cg (cg_cylinder_count img cg (new_ncg plan) (new_ncyl plan))
        (cg_frag_count img cg (target_frags plan)) now = Inr (b, x, y)"
      using build_new_cg_total [OF geo order fit cg_frag_count_le] by (metis prod_cases3)
    have IH: "wp (build_groups img plan cgs sums) E Q u" if "calm N u" for sums u
      using Cons that by simp
    show "wp (case build_new_cg img cg (cg_cylinder_count img cg (new_ncg plan) (new_ncyl plan))
            (cg_frag_count img cg (target_frags plan)) now of Inl e \<Rightarrow> fail e
        | Inr (buf, cg_nbfree, cg_nffree) \<Rightarrow>
          andthen (write_zeroes img (frag_bytes img (cgimin img cg)) (ucast (inodes_per_group (sb img)) * 128)) (\<lambda>_.
          andthen (write_group img cg buf) (\<lambda>_.
          andthen (write_csum_entry img cg 0 (word_of_int cg_nbfree) (inodes_per_group (sb img)) (word_of_int cg_nffree)) (\<lambda>_.
          ret \<lparr>add_nbfree = add_nbfree sums + cg_nbfree,
            add_nifree = add_nifree sums + int (unat (inodes_per_group (sb img))),
            add_nffree = add_nffree sums + cg_nffree,
            new_dsize = new_dsize sums +
              (ucast (cgsblock img cg - ucast (frags_per_group (sb img)) * ucast cg) +
               (cg_frag_count img cg (target_frags plan) -
                ucast (cgdmin img cg - ucast (frags_per_group (sb img)) * ucast cg)))\<rparr>)))) E
        (\<lambda>x. wp (build_groups img plan cgs x) E Q) t"
      unfolding new sum.case prod.case wp_andthen wp_ret
      by (intro wp_write_zeroes_calm [OF wr slice off(2) _ t] wp_write_group_calm [OF _ wr sa off(1)]
        wp_write_csum_calm [OF _ wr sa] IH)
  qed
qed

lemma wp_superblock_copies_calm:
  assumes "grow_layout img plan" "grow_reach img plan N" and Q: "\<And>t. calm N t \<Longrightarrow> Q () t"
  shows "set cs \<subseteq> {..<unat (new_ncg plan)} \<Longrightarrow> calm N s \<Longrightarrow> wp (write_superblock_copies img b cs) E Q s"
proof (induction cs arbitrary: s)
  case (Cons c cs)
  have "writable img" "0 \<le> slice_base img" "0 \<le> frag_bytes img (cgsblock img (of_nat c))"
    using assms(1,2) Cons.prems(1) by (auto simp: grow_reach_def grow_layout_def Let_def summary_addressable_def)
  then show ?case
    unfolding write_superblock_copies.simps wp_andthen
    using Cons by (intro wp_image_pwrite_calm [OF Cons.prems(2)]) auto
qed (simp add: wp_ret Q)

lemma wp_grow_calm:
  assumes calm: "calm N s" and con: "fs_consistent img s" and last: "last_group_ends img s"
    and lay: "grow_layout img plan" and reach: "grow_reach img plan N" and fits: "plan_fits img plan"
  shows "wp (grow_file_system img plan old_sb) (\<lambda>_ _. False) (\<lambda>_ _. True) s"
  unfolding grow_file_system_def Let_def wp_andthen
proof (rule wp_expand_calm [OF assms], unfold prod.case wp_andthen)
  fix x y z t assume t: "calm N t"
  note r = reach [unfolded grow_reach_def] and f = fits [unfolded plan_fits_def Let_def]
  have slice: "0 \<le> slice_base img" using lay by (simp add: grow_layout_def Let_def summary_addressable_def)
  have patch: "wp (patch_and_write_superblocks img old_sb a1 a2 a3 a4 a5 a6 a7 a8 a9) (\<lambda>_ _. False)
      (\<lambda>_. wp (image_fsync img) (\<lambda>_ _. False) (\<lambda>_ _. True)) u"
    if "calm N u" "a1 = new_ncg plan" for a1 a2 a3 a4 a5 a6 a7 a8 a9 u
  proof -
    have size: "\<not> super_size (sb img) < 0xd0" using r by (simp add: not_less)
    show ?thesis
      unfolding patch_and_write_superblocks_def Let_def if_not_P [OF size] wp_andthen that(2)
      by (intro wp_malloc_calm [OF that(1)] wp_time_calm wp_image_pwrite_calm wp_superblock_copies_calm [OF lay reach]
        wp_fsync_calm TrueI) (use r slice in \<open>auto simp: lessThan_def\<close>)
  qed
  show "wp (extend_summary img plan \<lparr>add_nbfree = x, add_nifree = 0, add_nffree = y,
      new_dsize = data_frag_count (sb img) + z\<rparr>) (\<lambda>_ _. False)
    (\<lambda>sums. wp (build_groups img plan (new_groups img (new_ncg plan)) sums) (\<lambda>_ _. False)
    (\<lambda>sums. wp (patch_and_write_superblocks img old_sb (new_ncg plan) (new_ncyl plan)
        (ucast (target_frags plan)) (new_dsize sums) (cyl_summary_addr (sb img)) (new_cssize plan)
        (add_nbfree sums) (add_nifree sums) (add_nffree sums)) (\<lambda>_ _. False)
    (\<lambda>_. wp (image_fsync img) (\<lambda>_ _. False) (\<lambda>_ _. True)))) t"
    using f patch by (simp add: extend_summary_def wp_ret)
      (rule wp_build_groups_calm [OF lay reach fits _ order_refl t], simp)
qed

section \<open>From the plan to the file\<close>

lemma consistent_disk:
  assumes "disk t = disk s" "sys_ok t"
  shows "fs_consistent img s \<Longrightarrow> fs_consistent img t" "last_group_ends img t = last_group_ends img s"
proof -
  have view: "view t a k = view s a k" for a k by (intro view_cong) (simp add: assms)
  show "fs_consistent img s \<Longrightarrow> fs_consistent img t"
    by (simp add: fs_consistent_def fs_ok_def totals_def in_step_def view disk_superblock_view assms)
  show "last_group_ends img t = last_group_ends img s" by (simp add: last_group_ends_def view)
qed

text \<open>Extending the file keeps its content.\<close>

lemma wp_extend_file:
  assumes "fst s = RawBackend f" "fsize f \<le> unat len"
    and "\<And>t. sys_ok t \<Longrightarrow> disk t = disk s \<Longrightarrow> Q () t"
  shows "wp (on_file (ftruncate len)) (\<lambda>_ _. True) Q s"
proof -
  obtain os where s: "s = (RawBackend f, os)" using assms(1) by (cases s) auto
  have same: "clip (unat len) (clip (fsize f) (fbytes f)) = clip (fsize f) (fbytes f)"
    using assms(2) by (auto simp: clip_def fun_eq_iff)
  have "Q () (RawBackend (f\<lparr>fsize := unat len, fbytes := clip (unat len) (file_byte f)\<rparr>), t)" for t
    by (rule assms(3)) (simp_all add: sys_ok_def disk_def s file_byte_def same)
  then show ?thesis
    by (auto simp: wp_def on_file_def ftruncate_def s split: os_event.splits)
qed

lemma wp_extend_file_calm:
  assumes "calm N s" "fst s = RawBackend f" "fsize f \<le> unat len" "0 \<le> sint len"
    and "\<And>t. calm N t \<Longrightarrow> disk t = disk s \<Longrightarrow> Q () t"
  shows "wp (on_file (ftruncate len)) E Q s"
proof -
  obtain os where s: "s = (RawBackend f, os)" using assms(2) by (cases s) auto
  have same: "clip (unat len) (clip (fsize f) (fbytes f)) = clip (fsize f) (fbytes f)"
    using assms(3) by (auto simp: clip_def fun_eq_iff)
  have ev: "\<forall>k. events os k = OsFull" and size: "N \<le> fsize f" using assms(1) by (auto simp: calm_def s)
  have "Q () (RawBackend (f\<lparr>fsize := unat len, fbytes := clip (unat len) (file_byte f)\<rparr>), tick os)"
    by (rule assms(5)) (use ev size assms(3) in \<open>simp_all add: calm_def disk_def s file_byte_def tick_def same\<close>)
  then show ?thesis
    using ev assms(4) by (simp add: wp_def on_file_def ftruncate_def s)
qed

text \<open>Reads leave the file alone.\<close>

lemma image_pread_fst: "image_pread img n off s = (r, t) \<Longrightarrow> fst t = fst s"
  by (cases s) (auto simp: image_pread_def read_exact_def sys_read_def split: if_splits prod.splits)

lemma sys_os_fst: "sys_os m s = (r, t) \<Longrightarrow> fst t = fst s"
  by (cases s) (auto simp: sys_os_def split: prod.splits)

lemma wp_with_fst:
  assumes "\<And>r t. m s = (r, t) \<Longrightarrow> fst t = fst s" "wp m E (\<lambda>x t. fst t = fst s \<longrightarrow> Q x t) s"
  shows "wp m E Q s"
proof (rule wpI)
  fix e t assume "m s = (Inl e, t)"
  then show "E e t" by (rule wp_Inl [OF assms(2)])
next
  fix x t assume "m s = (Inr x, t)"
  with wp_Inr [OF assms(2) this] assms(1) show "Q x t" by blast
qed

definition unlabeled_raw :: "nextufs_image \<Rightarrow> u64 \<Rightarrow> sys \<Rightarrow> bool" where
  "unlabeled_raw img bytes s \<longleftrightarrow> \<not> used_disk_label img \<and> (\<exists>f. fst s = RawBackend f \<and> fsize f \<le> unat bytes)"

lemma wp_commit_grow:
  assumes con: "fs_consistent img s" and raw: "unlabeled_raw img bytes s"
    and Q: "\<And>t old_sb. fs_consistent img t \<Longrightarrow> disk t = disk s \<Longrightarrow>
      (\<And>i. i < unat (super_size (sb img)) \<Longrightarrow> i < 2048 \<Longrightarrow> old_sb i = sb_view img t i) \<Longrightarrow>
      wp (grow_file_system img plan old_sb) (\<lambda>_ _. True) Q t"
  shows "wp (commit_grow img plan bytes slice_bytes) (\<lambda>_ _. True) Q s"
  unfolding commit_grow_def patch_label_partition_size_def wp_andthen
proof (rule wp_with_fst [OF sys_os_fst], assumption, rule wp_sys_malloc, simp, intro impI,
    rule wp_with_fst [OF sys_os_fst], assumption, rule wp_sys_malloc, simp, intro impI)
  fix t u assume t: "same_disk s t" "fst t = fst s" and u: "same_disk t u" "fst u = fst t"
  have s: "sys_ok s" using con by (simp add: fs_consistent_def fs_ok_def)
  have ok: "sys_ok u" "disk u = disk s" using s t u by (auto simp: same_disk_def)
  show "wp (image_pread img (unat (super_size (sb img))) (int UFS_SBLOCK_OFFSET)) (\<lambda>_ _. True)
    (\<lambda>x. wp (on_file (ftruncate bytes)) (\<lambda>_ _. True)
      (\<lambda>xa. wp (if \<not> used_disk_label img then ret () else andthen (on_file (label_patch_slice_size_fd (slice_base img) slice_bytes)) (\<lambda>_. ret ()))
        (\<lambda>_ _. True) (\<lambda>_. wp (grow_file_system img plan x) (\<lambda>_ _. True) Q))) u"
  proof (rule wp_with_fst [OF image_pread_fst], assumption, rule wp_image_pread [OF ok(1)], intro impI)
    fix v assume v: "sys_ok v" "disk v = disk u" "fst v = fst u"
    from raw obtain f where f: "fst v = RawBackend f" "fsize f \<le> unat bytes" "\<not> used_disk_label img"
      using t u v by (auto simp: unlabeled_raw_def)
    show "wp (on_file (ftruncate bytes)) (\<lambda>_ _. True)
      (\<lambda>xa. wp (if \<not> used_disk_label img then ret () else andthen (on_file (label_patch_slice_size_fd (slice_base img) slice_bytes)) (\<lambda>_. ret ()))
        (\<lambda>_ _. True) (\<lambda>_. wp (grow_file_system img plan (view u (in_slice img (int UFS_SBLOCK_OFFSET)) (unat (super_size (sb img)))))
          (\<lambda>_ _. True) Q)) v"
    proof (rule wp_extend_file [OF f(1,2)])
      fix w assume w: "sys_ok w" "disk w = disk v"
      have dw: "disk w = disk s" using w v ok by simp
      have "wp (grow_file_system img plan (view u (in_slice img (int UFS_SBLOCK_OFFSET)) (unat (super_size (sb img)))))
          (\<lambda>_ _. True) Q w"
      proof (rule Q [OF consistent_disk(1) [OF dw w(1) con] dw])
        fix i assume "i < unat (super_size (sb img))" "i < 2048"
        then show "view u (in_slice img (int UFS_SBLOCK_OFFSET)) (unat (super_size (sb img))) i = sb_view img w i"
          by (simp add: view_def in_slice_def sb_addr_def UFS_SBLOCK_OFFSET_def ok dw)
      qed
      then show "wp (if \<not> used_disk_label img then ret () else andthen (on_file (label_patch_slice_size_fd (slice_base img) slice_bytes)) (\<lambda>_. ret ()))
        (\<lambda>_ _. True) (\<lambda>_. wp (grow_file_system img plan (view u (in_slice img (int UFS_SBLOCK_OFFSET)) (unat (super_size (sb img)))))
          (\<lambda>_ _. True) Q) w" using f(3) by (simp add: wp_ret)
    qed
  qed
qed

lemma wp_commit_grow_calm:
  assumes calm: "calm N s" and con: "fs_consistent img s" and last: "last_group_ends img s"
    and lay: "grow_layout img plan" and reach: "grow_reach img plan N" and fits: "plan_fits img plan"
    and raw: "unlabeled_raw img bytes s" "0 \<le> sint bytes" and room: "sb_addr img + unat (super_size (sb img)) \<le> N"
  shows "wp (commit_grow img plan bytes slice_bytes) (\<lambda>_ _. False) (\<lambda>_ _. True) s"
  unfolding commit_grow_def patch_label_partition_size_def wp_andthen
proof (rule wp_with_fst [OF sys_os_fst], assumption, rule wp_malloc_calm [OF calm], intro impI,
    rule wp_with_fst [OF sys_os_fst], assumption, rule wp_malloc_calm, assumption, intro impI)
  fix t u assume t: "disk t = disk s" "fst t = fst s" and u: "calm N u" "disk u = disk t" "fst u = fst t"
  have slice: "0 \<le> slice_base img" using lay by (simp add: grow_layout_def Let_def summary_addressable_def)
  let ?k = "\<lambda>x. wp (on_file (ftruncate bytes)) (\<lambda>_ _. False)
      (\<lambda>xa. wp (if \<not> used_disk_label img then ret () else andthen (on_file (label_patch_slice_size_fd (slice_base img) slice_bytes)) (\<lambda>_. ret ()))
        (\<lambda>_ _. False) (\<lambda>_. wp (grow_file_system img plan x) (\<lambda>_ _. False) (\<lambda>_ _. True)))"
  have pread_at: "image_pread img n (int UFS_SBLOCK_OFFSET) = read_exact n (slice_base img + int UFS_SBLOCK_OFFSET)" for n
    by (simp add: image_pread_def)
  show "wp (image_pread img (unat (super_size (sb img))) (int UFS_SBLOCK_OFFSET)) (\<lambda>_ _. False) ?k u"
  proof (rule wp_with_fst [OF image_pread_fst], assumption)
    show "wp (image_pread img (unat (super_size (sb img))) (int UFS_SBLOCK_OFFSET)) (\<lambda>_ _. False)
      (\<lambda>x t. fst t = fst u \<longrightarrow> ?k x t) u"
      unfolding pread_at
    proof (rule wp_read_calm [OF u(1)], goal_cases)
      case 1
      then show ?case using slice by simp
    next
      case 2
      then show ?case using room slice by (simp add: sb_addr_def UFS_SBLOCK_OFFSET_def)
    next
      case (3 v)
      show ?case
      proof
        assume v: "fst v = fst u"
        from raw(1) obtain f where f: "fst v = RawBackend f" "fsize f \<le> unat bytes" "\<not> used_disk_label img"
          using t u v by (auto simp: unlabeled_raw_def)
        show "?k (clip (unat (super_size (sb img))) (\<lambda>i. disk u (nat (slice_base img + int UFS_SBLOCK_OFFSET) + i))) v"
        proof (rule wp_extend_file_calm [OF 3(1) f(1,2) raw(2)])
          fix w assume w: "calm N w" "disk w = disk v"
          have dw: "disk w = disk s" using w 3 u t by simp
          have "fs_consistent img w" "last_group_ends img w"
            using consistent_disk [OF dw calm_sys_ok [OF w(1)]] con last by simp_all
          from wp_grow_calm [OF w(1) this lay reach fits] f(3)
          show "wp (if \<not> used_disk_label img then ret () else andthen (on_file (label_patch_slice_size_fd (slice_base img) slice_bytes)) (\<lambda>_. ret ()))
            (\<lambda>_ _. False) (\<lambda>_. wp (grow_file_system img plan (clip (unat (super_size (sb img)))
              (\<lambda>i. disk u (nat (slice_base img + int UFS_SBLOCK_OFFSET) + i)))) (\<lambda>_ _. False) (\<lambda>_ _. True)) w"
            by (simp add: wp_ret)
        qed
      qed
    qed
  qed
qed

section \<open>The claims\<close>

text \<open>C1. Growing an unlabeled raw image keeps the file system consistent: when the command commits a
  growth successfully, the superblock then on the disk describes a file system with the new number
  of groups and fragments in which all maps, group counters, summary entries and totals agree, and
  no group has free fragments behind its end. The layout of the grown file system must keep its
  metadata areas apart.\<close>

theorem growing_keeps_consistency:
  assumes "fs_consistent img s" "last_group_ends img s" "grow_layout img plan" "unlabeled_raw img bytes s"
    and "commit_grow img plan bytes slice_bytes s = (Inr (), t)"
  shows "fs_consistent (reread img t) t \<and> cg_count (sb (reread img t)) = new_ncg plan \<and>
    frag_count (sb (reread img t)) = ucast (target_frags plan) \<and> csum_size (sb (reread img t)) = new_cssize plan"
proof -
  have "wp (commit_grow img plan bytes slice_bytes) (\<lambda>_ _. True) (\<lambda>_. grown_result img plan) s"
  proof (rule wp_commit_grow [OF assms(1,4)], rule wp_grow_file_system)
    fix u assume u: "fs_consistent img u" "disk u = disk s"
    then have "sys_ok u" by (simp add: fs_consistent_def fs_ok_def)
    then show "last_group_ends img u" using consistent_disk(2) [OF u(2)] assms(2) by simp
  qed (use assms in auto)
  from wp_Inr [OF this assms(5)] show ?thesis by (simp add: grown_result_def)
qed

text \<open>C32. On a host whose calls succeed, over a raw image that covers the old file system, growing goes
  through when the summary area has room and every new group has room for its own metadata.\<close>

theorem growing_succeeds:
  assumes "calm N s" "fs_consistent img s" "last_group_ends img s" "grow_layout img plan" "grow_reach img plan N"
    and "plan_fits img plan" "unlabeled_raw img bytes s" "0 \<le> sint bytes" "sb_addr img + unat (super_size (sb img)) \<le> N"
  shows "\<exists>t. commit_grow img plan bytes slice_bytes s = (Inr (), t)"
  using wp_succeeds_unit [OF wp_commit_grow_calm [OF assms]] by blast

lemma grow_calm: "calm 20480 grow_state"
  by (simp add: calm_def grow_state_def grow_file_def tiny_os_def)

lemma grow_tiny_reach: "grow_reach grow_image grow_tiny_plan 20480"
  by (simp add: grow_reach_def grow_tiny_plan_def less_2 all_conj_distrib frag_bytes_def cgtod_def cgsblock_def cgimin_def)

lemma grow_tiny_fits: "plan_fits grow_image grow_tiny_plan"
  by (simp add: plan_fits_def Let_def grow_tiny_plan_def new_groups_def new_group_fits_def cg_frag_count_def cgdmin_def
    upt_rec)

lemma grow_unlabeled: "unlabeled_raw grow_image 49152 grow_state"
  by (simp add: unlabeled_raw_def grow_state_def grow_file_def)

lemma commit_tiny: "\<exists>t. commit_grow grow_image grow_tiny_plan 49152 49152 grow_state = (Inr (), t)"
proof -
  have "wp (commit_grow grow_image grow_tiny_plan 49152 49152) (\<lambda>_ _. False) (\<lambda>_ _. True) grow_state"
    by (rule wp_commit_grow_calm [OF grow_calm grow_consistent grow_last grow_tiny_layout
      grow_tiny_reach grow_tiny_fits grow_unlabeled]) simp_all
  from wp_succeeds_unit [OF this] show ?thesis by blast
qed

theorem growing_succeeds_witness:
  "\<exists>t. commit_grow grow_image grow_tiny_plan 49152 49152 grow_state = (Inr (), t)"
  by (rule growing_succeeds [OF grow_calm grow_consistent grow_last grow_tiny_layout
    grow_tiny_reach grow_tiny_fits grow_unlabeled]) simp_all

theorem growing_keeps_consistency_witness:
  "\<exists>t. commit_grow grow_image grow_tiny_plan 49152 49152 grow_state = (Inr (), t) \<and>
     fs_consistent (reread grow_image t) t \<and> cg_count (sb (reread grow_image t)) = 2"
proof -
  obtain t where t: "commit_grow grow_image grow_tiny_plan 49152 49152 grow_state = (Inr (), t)"
    using commit_tiny by blast
  from growing_keeps_consistency [OF grow_consistent grow_last grow_tiny_layout grow_unlabeled t] t
  show ?thesis by (auto simp: grow_tiny_plan_def)
qed

end
