(* ===== verification/ByteOrder.thy ===== *)
theory ByteOrder
  imports Bytes
begin

text \<open>
  The byte order of the structures on the disk (\<open>src/src/fsck/byteorder.c\<close>). The checker keeps
  the structures in memory in the order of the host, here a little-endian one, and swaps them
  field by field when they are read and written. A structure in memory is a buffer; \<open>get32\<close> and
  \<open>put32\<close> access a field of it.
\<close>

definition get16 :: "buf \<Rightarrow> nat \<Rightarrow> u16" where
  "get16 b p = ucast (b p) OR push_bit 8 (ucast (b (p + 1)))"

definition get32 :: "buf \<Rightarrow> nat \<Rightarrow> u32" where
  "get32 b p = read_le32 b p"

definition put16 :: "buf \<Rightarrow> nat \<Rightarrow> u16 \<Rightarrow> buf" where
  "put16 b p v = b(p := ucast v, p + 1 := ucast (drop_bit 8 v))"

definition put32 :: "buf \<Rightarrow> nat \<Rightarrow> u32 \<Rightarrow> buf" where
  "put32 b p v = b(p := ucast v, p + 1 := ucast (drop_bit 8 v), p + 2 := ucast (drop_bit 16 v),
     p + 3 := ucast (drop_bit 24 v))"

definition swap16 :: "u16 \<Rightarrow> u16" where
  "swap16 x = drop_bit 8 x OR push_bit 8 x"

definition swap32 :: "u32 \<Rightarrow> u32" where
  "swap32 x = push_bit 24 (x AND 0xff) OR push_bit 8 (x AND 0xff00) OR
     drop_bit 8 (x AND 0xff0000) OR drop_bit 24 (x AND 0xff000000)"

section \<open>Swapping the fields of a structure\<close>

text \<open>A field is given by its offset and its size, 2 or 4.\<close>

fun swap_field :: "nat \<times> nat \<Rightarrow> buf \<Rightarrow> buf" where
  "swap_field (p, n) b = (if n = 4 then put32 b p (swap32 (get32 b p))
     else put16 b p (swap16 (get16 b p)))"

definition swap_fields :: "(nat \<times> nat) list \<Rightarrow> buf \<Rightarrow> buf" where
  "swap_fields fields b = fold swap_field fields b"

definition words_at :: "nat \<Rightarrow> nat \<Rightarrow> (nat \<times> nat) list" where
  "words_at p n = map (\<lambda>i. (p + i * 4, 4)) [0..<n]"

definition halves_at :: "nat \<Rightarrow> nat \<Rightarrow> (nat \<times> nat) list" where
  "halves_at p n = map (\<lambda>i. (p + i * 2, 2)) [0..<n]"

text \<open>\<open>swap_csum\<close>: the four counters.\<close>

definition csum_fields :: "nat \<Rightarrow> (nat \<times> nat) list" where
  "csum_fields p = words_at p 4"

text \<open>
  \<open>swap_superblock\<close>: from \<open>fs_sblkno\<close> to \<open>fs_optim\<close>, the five spare words, \<open>fs_csaddr\<close> to \<open>fs_fpg\<close>,
  the totals, \<open>fs_cgrotor\<close>, \<open>fs_cpc\<close>, the position table and the magic number.
\<close>

definition superblock_fields :: "(nat \<times> nat) list" where
  "superblock_fields = words_at 8 31 @ words_at 132 5 @ words_at 152 10 @ csum_fields 192 @
     [(724, 4), (856, 4)] @ halves_at 860 256 @ [(1372, 4)]"

definition swap_superblock :: "buf \<Rightarrow> buf" where
  "swap_superblock b = swap_fields superblock_fields b"

text \<open>
  \<open>swap_cgblock\<close>: the header of a cylinder group up to its inode map, and the magic number. The
  code interleaves the arrays \<open>cg_btot\<close> and \<open>cg_b\<close>; here they follow each other.
\<close>

definition cg_fields :: "(nat \<times> nat) list" where
  "cg_fields = [(8, 4), (12, 4), (16, 2), (18, 2), (20, 4)] @ csum_fields 24 @
     [(40, 4), (44, 4), (48, 4)] @ words_at 52 8 @
     words_at 84 32 @ halves_at 212 256 @ [(980, 4)]"

definition swap_cgblock :: "buf \<Rightarrow> buf" where
  "swap_cgblock b = swap_fields cg_fields b"

text \<open>\<open>swap_dinode\<close>, for the inode at offset \<open>p\<close>.\<close>

definition dinode_fields :: "nat \<Rightarrow> (nat \<times> nat) list" where
  "dinode_fields p = halves_at p 4 @ words_at (p + 8) 2 @ [(p + 16, 4), (p + 24, 4), (p + 32, 4)] @
     words_at (p + 40) 12 @ words_at (p + 88) 3 @ words_at (p + 100) 3"

definition swap_inode_block :: "nat \<Rightarrow> buf \<Rightarrow> buf" where
  "swap_inode_block count b = fold (\<lambda>i. swap_fields (dinode_fields (i * 128))) [0..<count] b"

definition swap_indir_block :: "nat \<Rightarrow> buf \<Rightarrow> buf" where
  "swap_indir_block count b = swap_fields (words_at 0 count) b"

text \<open>The headers of the entries of a directory block, found by their record lengths.\<close>

function swap_entries :: "nat \<Rightarrow> bool \<Rightarrow> nat \<Rightarrow> buf \<Rightarrow> buf" where
  "swap_entries sz write_pass off b =
     (if off + 8 \<le> sz then
        let c = swap_fields [(off, 4), (off + 4, 2), (off + 6, 2)] b;
            reclen = unat (if write_pass then get16 b (off + 4) else get16 c (off + 4)) in
        if reclen = 0 \<or> sz < off + reclen then c
        else swap_entries sz write_pass (off + reclen) c
      else b)"
  by pat_completeness auto
termination
  by (relation "measure (\<lambda>(sz, w, off, b). sz - off)") auto

declare swap_entries.simps [simp del]

definition swap_dirblock :: "nat \<Rightarrow> bool \<Rightarrow> buf \<Rightarrow> buf" where
  "swap_dirblock sz write_pass b = swap_entries sz write_pass 0 b"

section \<open>What swapping does to a field\<close>

lemma swap32_masks: "swap32 x = push_bit 24 (x AND mask 8) OR push_bit 8 (x AND push_bit 8 (mask 8)) OR
    drop_bit 8 (x AND push_bit 16 (mask 8)) OR drop_bit 24 (x AND push_bit 24 (mask 8))"
  by (simp add: swap32_def mask_eq_exp_minus_1)

lemma byte_eqI:
  fixes x y :: u8
  assumes "\<And>n. n < 8 \<Longrightarrow> bit x n = bit y n"
  shows "x = y"
  by (rule bit_word_eqI) (use assms in simp)

lemma swap32_bytes:
  "ucast (swap32 (get32 b p)) = b (p + 3)" "ucast (drop_bit 8 (swap32 (get32 b p))) = b (p + 2)"
  "ucast (drop_bit 16 (swap32 (get32 b p))) = b (p + 1)" "ucast (drop_bit 24 (swap32 (get32 b p))) = b p"
  by (rule byte_eqI, simp add: swap32_masks get32_def read_le32_def bit_simps
      less_diff_conv not_le, (fastforce dest: bit_imp_le_length)?)+

lemma swap16_bytes:
  "ucast (swap16 (get16 b p)) = b (p + 1)" "ucast (drop_bit 8 (swap16 (get16 b p))) = b p"
  by (rule byte_eqI, simp add: swap16_def get16_def bit_simps less_diff_conv not_le,
      (fastforce dest: bit_imp_le_length)?)+

text \<open>Swapping reverses the bytes of the field.\<close>

lemma swap_field_apply:
  assumes "n = 2 \<or> n = 4"
  shows "swap_field (p, n) b i = (if p \<le> i \<and> i < p + n then b (2 * p + n - 1 - i) else b i)"
  using assms
proof
  assume n: "n = 2"
  consider "i = p" | "i = p + 1" | "\<not> (p \<le> i \<and> i < p + 2)" by linarith
  then show ?thesis
    by cases (auto simp: n put16_def swap16_bytes)
next
  assume n: "n = 4"
  have at: "2 * p + 4 - 1 - (p + 1) = p + 2" "2 * p + 4 - 1 - (p + 2) = p + 1" "2 * p + 4 - 1 - (p + 3) = p"
    "2 * p + 4 - 1 - p = p + 3" by arith+
  consider "i = p" | "i = p + 1" | "i = p + 2" | "i = p + 3" | "\<not> (p \<le> i \<and> i < p + 4)" by linarith
  then show ?thesis
    by cases (simp_all only: n at, auto simp: put32_def swap32_bytes)
qed

declare swap_field.simps [simp del]

text \<open>A list of fields in ascending order, none of them inside another.\<close>

fun fields_ok :: "nat \<Rightarrow> (nat \<times> nat) list \<Rightarrow> bool" where
  "fields_ok lo [] \<longleftrightarrow> True"
| "fields_ok lo ((p, n) # fs) \<longleftrightarrow> (n = 2 \<or> n = 4) \<and> lo \<le> p \<and> fields_ok (p + n) fs"

lemma swap_fields_Nil [simp]: "swap_fields [] b = b"
  by (simp add: swap_fields_def)

lemma swap_fields_Cons [simp]: "swap_fields (f # fs) b = swap_fields fs (swap_field f b)"
  by (simp add: swap_fields_def)

lemma swap_fields_append [simp]: "swap_fields (fs @ gs) b = swap_fields gs (swap_fields fs b)"
  by (simp add: swap_fields_def)

lemma swap_fields_below: "fields_ok lo fs \<Longrightarrow> i < lo \<Longrightarrow> swap_fields fs b i = b i"
  by (induction lo fs arbitrary: b rule: fields_ok.induct) (auto simp: swap_field_apply)

lemma swap_fields_in:
  assumes "fields_ok lo fs" "(p, n) \<in> set fs" "p \<le> i" "i < p + n"
  shows "swap_fields fs b i = b (2 * p + n - 1 - i)"
  using assms
proof (induction lo fs arbitrary: b rule: fields_ok.induct)
  case (2 lo q m fs)
  show ?case
  proof (cases "(p, n) \<in> set fs")
    case True
    moreover have "q + m \<le> p" using True 2(2)
    proof -
      have "fields_ok l gs \<Longrightarrow> (p, n) \<in> set gs \<Longrightarrow> l \<le> p" for l gs
        by (induction l gs rule: fields_ok.induct) auto
      with True 2(2) show ?thesis by auto
    qed
    ultimately show ?thesis using 2 by (auto simp: swap_field_apply)
  next
    case False
    with 2(3) have "p = q" "n = m" by auto
    with 2(2,4,5) show ?thesis by (auto simp: swap_fields_below swap_field_apply)
  qed
qed simp

lemma swap_fields_out:
  "fields_ok lo fs \<Longrightarrow> \<forall>(p, n) \<in> set fs. \<not> (p \<le> i \<and> i < p + n) \<Longrightarrow> swap_fields fs b i = b i"
  by (induction lo fs arbitrary: b rule: fields_ok.induct) (auto simp: swap_field_apply)

lemma swap_fields_swap_fields:
  assumes "fields_ok lo fs"
  shows "swap_fields fs (swap_fields fs b) = b"
proof
  fix i
  show "swap_fields fs (swap_fields fs b) i = b i"
  proof (cases "\<exists>(p, n) \<in> set fs. p \<le> i \<and> i < p + n")
    case True
    then obtain p n where f: "(p, n) \<in> set fs" "p \<le> i" "i < p + n" by auto
    then have "p \<le> 2 * p + n - 1 - i" "2 * p + n - 1 - i < p + n" by auto
    then show ?thesis using f by (simp add: swap_fields_in [OF assms])
  next
    case False
    then have out: "\<forall>(p, n) \<in> set fs. \<not> (p \<le> i \<and> i < p + n)" by blast
    show ?thesis by (simp add: swap_fields_out [OF assms out])
  qed
qed

text \<open>After the swap the host reads what the disk holds in big-endian order.\<close>

lemma get_swapped:
  assumes "fields_ok lo fs"
  shows "(p, 4) \<in> set fs \<Longrightarrow> get32 (swap_fields fs b) p = read_be32 b p"
    and "(p, 2) \<in> set fs \<Longrightarrow> get16 (swap_fields fs b) p = read_be16 b p"
proof -
  assume f: "(p, 4) \<in> set fs"
  have at: "2 * p + 4 - 1 - (p + 1) = p + 2" "2 * p + 4 - 1 - (p + 2) = p + 1" "2 * p + 4 - 1 - (p + 3) = p"
    "2 * p + 4 - 1 - p = p + 3" by arith+
  have "swap_fields fs b p = b (p + 3)" "swap_fields fs b (p + 1) = b (p + 2)"
    "swap_fields fs b (p + 2) = b (p + 1)" "swap_fields fs b (p + 3) = b p"
    using swap_fields_in [OF assms f, of p b] swap_fields_in [OF assms f, of "p + 1" b]
      swap_fields_in [OF assms f, of "p + 2" b] swap_fields_in [OF assms f, of "p + 3" b]
    unfolding at by simp_all
  then show "get32 (swap_fields fs b) p = read_be32 b p"
    by (simp add: get32_def read_le32_def read_be32_def or.commute or.left_commute)
next
  assume f: "(p, 2) \<in> set fs"
  have at: "2 * p + 2 - 1 - (p + 1) = p" "2 * p + 2 - 1 - p = p + 1" by arith+
  have "swap_fields fs b p = b (p + 1)" "swap_fields fs b (p + 1) = b p"
    using swap_fields_in [OF assms f, of p b] swap_fields_in [OF assms f, of "p + 1" b]
    unfolding at by simp_all
  then show "get16 (swap_fields fs b) p = read_be16 b p"
    by (simp add: get16_def read_be16_def or.commute)
qed

lemma read_swapped:
  assumes "fields_ok lo fs"
  shows "(p, 4) \<in> set fs \<Longrightarrow> read_be32 (swap_fields fs b) p = get32 b p"
    and "(p, 2) \<in> set fs \<Longrightarrow> read_be16 (swap_fields fs b) p = get16 b p"
  using get_swapped [OF assms, of p "swap_fields fs b"] swap_fields_swap_fields [OF assms, of b] by simp_all

lemma words_at_Suc: "words_at p (Suc n) = (p, 4) # words_at (p + 4) n"
  by (simp add: words_at_def upt_conv_Cons map_Suc_upt [symmetric] del: upt_Suc)

lemma halves_at_Suc: "halves_at p (Suc n) = (p, 2) # halves_at (p + 2) n"
  by (simp add: halves_at_def upt_conv_Cons map_Suc_upt [symmetric] del: upt_Suc)

lemma fields_ok_words:
  "0 < n \<Longrightarrow> fields_ok lo (words_at p n @ fs) \<longleftrightarrow> lo \<le> p \<and> fields_ok (p + n * 4) fs"
proof (induction n arbitrary: lo p)
  case (Suc n)
  show ?case
  proof (cases n)
    case 0
    then show ?thesis by (simp add: words_at_def)
  next
    case k: (Suc k)
    then show ?thesis unfolding words_at_Suc [of p n] using Suc.IH by (simp add: add.assoc)
  qed
qed simp

lemma fields_ok_halves:
  "0 < n \<Longrightarrow> fields_ok lo (halves_at p n @ fs) \<longleftrightarrow> lo \<le> p \<and> fields_ok (p + n * 2) fs"
proof (induction n arbitrary: lo p)
  case (Suc n)
  show ?case
  proof (cases n)
    case 0
    then show ?thesis by (simp add: halves_at_def)
  next
    case k: (Suc k)
    then show ?thesis unfolding halves_at_Suc [of p n] using Suc.IH by (simp add: add.assoc)
  qed
qed simp

lemmas fields_ok_arrays = fields_ok_words fields_ok_halves
  fields_ok_words [where fs = "[]", simplified] fields_ok_halves [where fs = "[]", simplified]

lemma superblock_fields_ok: "fields_ok 0 superblock_fields"
  by (simp add: superblock_fields_def csum_fields_def fields_ok_arrays)

lemma cg_fields_ok: "fields_ok 0 cg_fields"
  by (simp add: cg_fields_def csum_fields_def fields_ok_arrays)

lemma dinode_fields_ok: "fields_ok p (dinode_fields p)"
  by (simp add: dinode_fields_def fields_ok_arrays)

lemma words_at_ok: "fields_ok p (words_at p n)"
  by (cases "n = 0") (simp_all add: fields_ok_arrays words_at_def [where n = 0])

text \<open>Reading a block and writing it back unchanged leaves it as it was.\<close>

lemma swap_superblock_twice: "swap_superblock (swap_superblock b) = b"
  unfolding swap_superblock_def by (rule swap_fields_swap_fields [OF superblock_fields_ok])

lemma swap_cgblock_twice: "swap_cgblock (swap_cgblock b) = b"
  unfolding swap_cgblock_def by (rule swap_fields_swap_fields [OF cg_fields_ok])

lemma swap_indir_block_twice: "swap_indir_block n (swap_indir_block n b) = b"
  unfolding swap_indir_block_def by (rule swap_fields_swap_fields [OF words_at_ok])

section \<open>Directory blocks\<close>

definition dirent_fields :: "nat \<Rightarrow> (nat \<times> nat) list" where
  "dirent_fields off = [(off, 4), (off + 4, 2), (off + 6, 2)]"

lemma dirent_fields_ok: "fields_ok off (dirent_fields off)"
  by (simp add: dirent_fields_def)

lemma dirent_frame: "i < off \<or> off + 8 \<le> i \<Longrightarrow> swap_fields (dirent_fields off) b i = b i"
  by (rule swap_fields_out [OF dirent_fields_ok]) (auto simp: dirent_fields_def)

text \<open>Where a byte comes from.\<close>

definition dirent_perm :: "nat \<Rightarrow> nat \<Rightarrow> nat" where
  "dirent_perm off i = (if off \<le> i \<and> i < off + 4 then 2 * off + 3 - i
     else if off + 4 \<le> i \<and> i < off + 6 then 2 * off + 9 - i
     else if off + 6 \<le> i \<and> i < off + 8 then 2 * off + 13 - i else i)"

lemma dirent_apply: "swap_fields (dirent_fields off) b i = b (dirent_perm off i)"
proof -
  have f: "(off, 4) \<in> set (dirent_fields off)" "(off + 4, 2) \<in> set (dirent_fields off)"
    "(off + 6, 2) \<in> set (dirent_fields off)" by (simp_all add: dirent_fields_def)
  have at: "2 * off + 4 - 1 - i = 2 * off + 3 - i" "2 * (off + 4) + 2 - 1 - i = 2 * off + 9 - i"
    "2 * (off + 6) + 2 - 1 - i = 2 * off + 13 - i" by arith+
  consider "off \<le> i" "i < off + 4" | "off + 4 \<le> i" "i < off + 6" | "off + 6 \<le> i" "i < off + 8"
    | "i < off \<or> off + 8 \<le> i" by linarith
  then show ?thesis
  proof cases
    case 1
    then show ?thesis using swap_fields_in [OF dirent_fields_ok f(1), of i b] at by (simp add: dirent_perm_def)
  next
    case 2
    then show ?thesis using swap_fields_in [OF dirent_fields_ok f(2), of i b] at by (simp add: dirent_perm_def)
  next
    case 3
    then show ?thesis using swap_fields_in [OF dirent_fields_ok f(3), of i b] at by (simp add: dirent_perm_def)
  next
    case 4
    then show ?thesis by (auto simp: dirent_frame dirent_perm_def)
  qed
qed

lemma dirent_perm_range: "off \<le> i \<Longrightarrow> i < off + 8 \<Longrightarrow> off \<le> dirent_perm off i \<and> dirent_perm off i < off + 8"
  by (auto simp: dirent_perm_def)

lemma dirent_perm_ge: "lo \<le> off \<Longrightarrow> lo \<le> i \<Longrightarrow> lo \<le> dirent_perm off i"
  by (auto simp: dirent_perm_def)

lemma dirent_perm_less: "i < off + r \<Longrightarrow> 8 \<le> r \<Longrightarrow> dirent_perm off i < off + r"
  by (auto simp: dirent_perm_def)

lemma dirent_cong:
  assumes "\<forall>i. lo \<le> i \<longrightarrow> b i = c i" "lo \<le> off" "lo \<le> i"
  shows "swap_fields (dirent_fields off) b i = swap_fields (dirent_fields off) c i"
  using assms dirent_perm_ge [of lo off i] by (simp add: dirent_apply)

lemma get_cong:
  "(\<And>i. p \<le> i \<Longrightarrow> i < p + 2 \<Longrightarrow> b i = c i) \<Longrightarrow> get16 b p = get16 c p"
  "(\<And>i. p \<le> i \<Longrightarrow> i < p + 4 \<Longrightarrow> b i = c i) \<Longrightarrow> get32 b p = get32 c p"
  by (simp_all add: get16_def get32_def read_le32_def)

text \<open>The walk does not change what is in front of it, and does not depend on it.\<close>

lemma swap_entries_frame: "i < off \<Longrightarrow> swap_entries sz w off b i = b i"
proof (induction sz w off b rule: swap_entries.induct)
  case (1 sz w off b)
  define c where "c = swap_fields (dirent_fields off) b"
  define r where "r = unat (if w then get16 b (off + 4) else get16 c (off + 4))"
  have eq: "swap_entries sz w off b = (if off + 8 \<le> sz then if r = 0 \<or> sz < off + r then c
      else swap_entries sz w (off + r) c else b)"
    by (subst swap_entries.simps) (simp add: Let_def dirent_fields_def [symmetric] c_def r_def)
  have c: "c i = b i" unfolding c_def using "1.prems" by (intro dirent_frame) simp
  show ?case
  proof (cases "off + 8 \<le> sz \<and> \<not> (r = 0 \<or> sz < off + r)")
    case True
    then have "swap_entries sz w (off + r) c i = c i"
      using "1.IH" [of c r] "1.prems" by (simp add: dirent_fields_def [symmetric] c_def r_def)
    with True c show ?thesis by (simp add: eq)
  next
    case False
    then show ?thesis using c by (auto simp: eq)
  qed
qed

lemma swap_entries_cong:
  assumes "\<forall>i. off \<le> i \<longrightarrow> b i = c i" "off \<le> i"
  shows "swap_entries sz w off b i = swap_entries sz w off c i"
  using assms
proof (induction sz w off b arbitrary: c rule: swap_entries.induct)
  case (1 sz w off b)
  define b' where "b' = swap_fields (dirent_fields off) b"
  define c' where "c' = swap_fields (dirent_fields off) c"
  define r where "r = unat (if w then get16 b (off + 4) else get16 b' (off + 4))"
  have eq: "\<forall>i. off \<le> i \<longrightarrow> b' i = c' i"
    unfolding b'_def c'_def using dirent_cong [OF "1.prems"(1)] by simp
  have r: "r = unat (if w then get16 c (off + 4) else get16 c' (off + 4))"
    unfolding r_def using eq "1.prems"(1) by (auto intro!: arg_cong [where f = unat] get_cong)
  have b: "swap_entries sz w off b = (if off + 8 \<le> sz then if r = 0 \<or> sz < off + r then b'
      else swap_entries sz w (off + r) b' else b)"
    by (subst swap_entries.simps) (simp add: Let_def dirent_fields_def [symmetric] b'_def r_def)
  have c: "swap_entries sz w off c = (if off + 8 \<le> sz then if r = 0 \<or> sz < off + r then c'
      else swap_entries sz w (off + r) c' else c)"
    by (subst swap_entries.simps) (simp add: Let_def dirent_fields_def [symmetric] c'_def r)
  show ?case
  proof (cases "off + 8 \<le> sz \<and> \<not> (r = 0 \<or> sz < off + r) \<and> off + r \<le> i")
    case True
    have "swap_entries sz w (off + r) b' i = swap_entries sz w (off + r) c' i"
      using "1.IH" [of b' r c'] True eq
      by (simp add: dirent_fields_def [symmetric] b'_def [symmetric] r_def [symmetric])
    with True show ?thesis by (simp add: b c)
  next
    case False
    then show ?thesis using eq "1.prems" by (auto simp: b c swap_entries_frame)
  qed
qed

text \<open>The records of a block as they are on the disk are all long enough for their own header.\<close>

function long_records :: "nat \<Rightarrow> nat \<Rightarrow> buf \<Rightarrow> bool" where
  "long_records sz off b =
     (if off + 8 \<le> sz then
        let reclen = unat (read_be16 b (off + 4)) in
        if reclen = 0 \<or> sz < off + reclen then True
        else 8 \<le> reclen \<and> long_records sz (off + reclen) b
      else True)"
  by pat_completeness auto
termination
  by (relation "measure (\<lambda>(sz, off, b). sz - off)") auto

declare long_records.simps [simp del]

lemma read_pass:
  "swap_entries sz False off b =
     (let c = swap_fields (dirent_fields off) b; r = unat (read_be16 b (off + 4)) in
      if off + 8 \<le> sz then if r = 0 \<or> sz < off + r then c else swap_entries sz False (off + r) c else b)"
proof -
  have "get16 (swap_fields (dirent_fields off) b) (off + 4) = read_be16 b (off + 4)"
    by (rule get_swapped [OF dirent_fields_ok]) (simp add: dirent_fields_def)
  then show ?thesis
    by (subst swap_entries.simps) (simp add: Let_def dirent_fields_def [symmetric])
qed

lemma swap_entries_twice:
  assumes "long_records sz off b"
  shows "swap_entries sz True off (swap_entries sz False off b) = b"
  using assms
proof (induction sz off b rule: long_records.induct)
  case (1 sz off b)
  define c where "c = swap_fields (dirent_fields off) b"
  define r where "r = unat (read_be16 b (off + 4))"
  have cc: "swap_fields (dirent_fields off) c = b"
    unfolding c_def by (rule swap_fields_swap_fields [OF dirent_fields_ok])
  have hdr: "get16 c (off + 4) = read_be16 b (off + 4)"
    unfolding c_def by (rule get_swapped [OF dirent_fields_ok]) (simp add: dirent_fields_def)
  show ?case
  proof (cases "off + 8 \<le> sz \<and> \<not> (r = 0 \<or> sz < off + r)")
    case False
    then show ?thesis
      by (subst read_pass, subst swap_entries.simps)
        (auto simp: Let_def dirent_fields_def [symmetric] c_def [symmetric] r_def [symmetric] cc hdr)
  next
    case True
    then have long: "8 \<le> r" "long_records sz (off + r) b"
      using "1.prems" by (subst (asm) long_records.simps, auto simp: r_def Let_def)+
    define d where "d = swap_entries sz False (off + r) c"
    define e where "e = swap_fields (dirent_fields off) d"
    have rd: "swap_entries sz False off b = d"
      using True by (subst read_pass) (simp add: Let_def c_def r_def d_def)
    have "get16 d (off + 4) = get16 c (off + 4)"
      unfolding d_def using long(1) by (intro get_cong) (simp add: swap_entries_frame)
    then have wr: "swap_entries sz True off d = swap_entries sz True (off + r) e"
      using True by (subst swap_entries.simps)
        (simp add: Let_def dirent_fields_def [symmetric] e_def r_def hdr)
    have e: "e = swap_entries sz False (off + r) b"
    proof
      fix i
      show "e i = swap_entries sz False (off + r) b i"
      proof (cases "i < off + r")
        case True
        have "d j = c j" if "j < off + r" for j using that by (simp add: d_def swap_entries_frame)
        then have "e i = swap_fields (dirent_fields off) c i"
          unfolding e_def dirent_apply using dirent_perm_less [OF True long(1)] by simp
        then show ?thesis using True by (simp add: cc swap_entries_frame)
      next
        case False
        then have "e i = d i" unfolding e_def using long(1) by (simp add: dirent_frame)
        also have "\<dots> = swap_entries sz False (off + r) b i"
          unfolding d_def using False long(1)
          by (intro swap_entries_cong) (auto simp: c_def dirent_frame)
        finally show ?thesis .
      qed
    qed
    have "swap_entries sz True (off + r) (swap_entries sz False (off + r) b) = b"
      using "1.IH" [of r] True long r_def by simp
    then show ?thesis by (simp add: rd wr e)
  qed
qed

end
