(* ===== verification/FragTables.thy ===== *)
theory FragTables
  imports CgBitmap
begin

text \<open>
  The checker's fragment tables (\<open>src/src/fsck/frag_support.c\<close>): counting the free runs of a block
  with bit patterns, and whole blocks in a bit map. C integers are \<open>int\<close>; all values stay below
  \<open>2^18\<close>.
\<close>

section \<open>Counting free runs by table\<close>

definition around :: "int list" where
  "around = [0x3, 0x7, 0xf, 0x1f, 0x3f, 0x7f, 0xff, 0x1ff, 0x3ff]"

definition inside :: "int list" where
  "inside = [0x0, 0x2, 0x6, 0xe, 0x1e, 0x3e, 0x7e, 0xfe, 0x1fe]"

definition fragtbl124 :: "int list" where
  "fragtbl124 = [
     0x00, 0x16, 0x16, 0x2a, 0x16, 0x16, 0x26, 0x4e, 0x16, 0x16, 0x16, 0x3e, 0x2a, 0x3e, 0x4e, 0x8a,
     0x16, 0x16, 0x16, 0x3e, 0x16, 0x16, 0x36, 0x5e, 0x16, 0x16, 0x16, 0x3e, 0x3e, 0x3e, 0x5e, 0x9e,
     0x16, 0x16, 0x16, 0x3e, 0x16, 0x16, 0x36, 0x5e, 0x16, 0x16, 0x16, 0x3e, 0x3e, 0x3e, 0x5e, 0x9e,
     0x2a, 0x3e, 0x3e, 0x2a, 0x3e, 0x3e, 0x2e, 0x6e, 0x3e, 0x3e, 0x3e, 0x3e, 0x2a, 0x3e, 0x6e, 0xaa,
     0x16, 0x16, 0x16, 0x3e, 0x16, 0x16, 0x36, 0x5e, 0x16, 0x16, 0x16, 0x3e, 0x3e, 0x3e, 0x5e, 0x9e,
     0x16, 0x16, 0x16, 0x3e, 0x16, 0x16, 0x36, 0x5e, 0x16, 0x16, 0x16, 0x3e, 0x3e, 0x3e, 0x5e, 0x9e,
     0x26, 0x36, 0x36, 0x2e, 0x36, 0x36, 0x26, 0x6e, 0x36, 0x36, 0x36, 0x3e, 0x2e, 0x3e, 0x6e, 0xae,
     0x4e, 0x5e, 0x5e, 0x6e, 0x5e, 0x5e, 0x6e, 0x4e, 0x5e, 0x5e, 0x5e, 0x7e, 0x6e, 0x7e, 0x4e, 0xce,
     0x16, 0x16, 0x16, 0x3e, 0x16, 0x16, 0x36, 0x5e, 0x16, 0x16, 0x16, 0x3e, 0x3e, 0x3e, 0x5e, 0x9e,
     0x16, 0x16, 0x16, 0x3e, 0x16, 0x16, 0x36, 0x5e, 0x16, 0x16, 0x16, 0x3e, 0x3e, 0x3e, 0x5e, 0x9e,
     0x16, 0x16, 0x16, 0x3e, 0x16, 0x16, 0x36, 0x5e, 0x16, 0x16, 0x16, 0x3e, 0x3e, 0x3e, 0x5e, 0x9e,
     0x3e, 0x3e, 0x3e, 0x3e, 0x3e, 0x3e, 0x3e, 0x7e, 0x3e, 0x3e, 0x3e, 0x3e, 0x3e, 0x3e, 0x7e, 0xbe,
     0x2a, 0x3e, 0x3e, 0x2a, 0x3e, 0x3e, 0x2e, 0x6e, 0x3e, 0x3e, 0x3e, 0x3e, 0x2a, 0x3e, 0x6e, 0xaa,
     0x3e, 0x3e, 0x3e, 0x3e, 0x3e, 0x3e, 0x3e, 0x7e, 0x3e, 0x3e, 0x3e, 0x3e, 0x3e, 0x3e, 0x7e, 0xbe,
     0x4e, 0x5e, 0x5e, 0x6e, 0x5e, 0x5e, 0x6e, 0x4e, 0x5e, 0x5e, 0x5e, 0x7e, 0x6e, 0x7e, 0x4e, 0xce,
     0x8a, 0x9e, 0x9e, 0xaa, 0x9e, 0x9e, 0xae, 0xce, 0x9e, 0x9e, 0x9e, 0xbe, 0xaa, 0xbe, 0xce, 0x8a]"

definition fragtbl8 :: "int list" where
  "fragtbl8 = [
     0x00, 0x01, 0x01, 0x02, 0x01, 0x01, 0x02, 0x04, 0x01, 0x01, 0x01, 0x03, 0x02, 0x03, 0x04, 0x08,
     0x01, 0x01, 0x01, 0x03, 0x01, 0x01, 0x03, 0x05, 0x02, 0x03, 0x03, 0x02, 0x04, 0x05, 0x08, 0x10,
     0x01, 0x01, 0x01, 0x03, 0x01, 0x01, 0x03, 0x05, 0x01, 0x01, 0x01, 0x03, 0x03, 0x03, 0x05, 0x09,
     0x02, 0x03, 0x03, 0x02, 0x03, 0x03, 0x02, 0x06, 0x04, 0x05, 0x05, 0x06, 0x08, 0x09, 0x10, 0x20,
     0x01, 0x01, 0x01, 0x03, 0x01, 0x01, 0x03, 0x05, 0x01, 0x01, 0x01, 0x03, 0x03, 0x03, 0x05, 0x09,
     0x01, 0x01, 0x01, 0x03, 0x01, 0x01, 0x03, 0x05, 0x03, 0x03, 0x03, 0x03, 0x05, 0x05, 0x09, 0x11,
     0x02, 0x03, 0x03, 0x02, 0x03, 0x03, 0x02, 0x06, 0x03, 0x03, 0x03, 0x03, 0x02, 0x03, 0x06, 0x0a,
     0x04, 0x05, 0x05, 0x06, 0x05, 0x05, 0x06, 0x04, 0x08, 0x09, 0x09, 0x0a, 0x10, 0x11, 0x20, 0x40,
     0x01, 0x01, 0x01, 0x03, 0x01, 0x01, 0x03, 0x05, 0x01, 0x01, 0x01, 0x03, 0x03, 0x03, 0x05, 0x09,
     0x01, 0x01, 0x01, 0x03, 0x01, 0x01, 0x03, 0x05, 0x03, 0x03, 0x03, 0x03, 0x05, 0x05, 0x09, 0x11,
     0x01, 0x01, 0x01, 0x03, 0x01, 0x01, 0x03, 0x05, 0x01, 0x01, 0x01, 0x03, 0x03, 0x03, 0x05, 0x09,
     0x03, 0x03, 0x03, 0x03, 0x03, 0x03, 0x03, 0x07, 0x05, 0x05, 0x05, 0x07, 0x09, 0x09, 0x11, 0x21,
     0x02, 0x03, 0x03, 0x02, 0x03, 0x03, 0x02, 0x06, 0x03, 0x03, 0x03, 0x03, 0x02, 0x03, 0x06, 0x0a,
     0x03, 0x03, 0x03, 0x03, 0x03, 0x03, 0x03, 0x07, 0x02, 0x03, 0x03, 0x02, 0x06, 0x07, 0x0a, 0x12,
     0x04, 0x05, 0x05, 0x06, 0x05, 0x05, 0x06, 0x04, 0x05, 0x05, 0x05, 0x07, 0x06, 0x07, 0x04, 0x0c,
     0x08, 0x09, 0x09, 0x0a, 0x09, 0x09, 0x0a, 0x0c, 0x10, 0x11, 0x11, 0x12, 0x20, 0x21, 0x40, 0x80]"

text \<open>The array \<open>fragtbl\<close>, with null pointers for the impossible sizes.\<close>

definition fragtbl :: "nat \<Rightarrow> int list option" where
  "fragtbl frag = (if frag = 8 then Some fragtbl8
     else if frag = 1 \<or> frag = 2 \<or> frag = 4 then Some fragtbl124 else None)"

text \<open>The loop over the positions, for runs of length \<open>siz\<close>.\<close>

function frag_scan ::
    "nat \<Rightarrow> int \<Rightarrow> nat \<Rightarrow> u32 \<Rightarrow> nat \<Rightarrow> int \<Rightarrow> int \<Rightarrow> (nat \<Rightarrow> u32) \<Rightarrow> (nat \<Rightarrow> u32)" where
  "frag_scan frag fragmap siz cnt pos field subfield fraglist =
     (if pos \<le> frag then
        if fragmap AND field = subfield then
          frag_scan frag fragmap siz cnt (pos + siz + 1) (push_bit (siz + 1) field)
            (push_bit (siz + 1) subfield) (fraglist(siz := fraglist siz + cnt))
        else frag_scan frag fragmap siz cnt (pos + 1) (push_bit 1 field) (push_bit 1 subfield) fraglist
      else fraglist)"
  by pat_completeness auto
termination
  by (relation "measure (\<lambda>(frag, m, siz, cnt, pos, f, s, l). Suc frag - pos)") auto

declare frag_scan.simps [simp del]

text \<open>\<open>None\<close> for a table that does not exist, or an access behind its end.\<close>

definition fragacct :: "nat \<Rightarrow> nat \<Rightarrow> (nat \<Rightarrow> u32) \<Rightarrow> u32 \<Rightarrow> (nat \<Rightarrow> u32) option" where
  "fragacct frag fragmap fraglist cnt =
     (case fragtbl frag of None \<Rightarrow> None
      | Some tbl \<Rightarrow> if length tbl \<le> fragmap then None
        else let inblk = push_bit 1 (tbl ! fragmap) in
          Some (fold (\<lambda>siz l. if inblk AND push_bit (siz + frag mod 8) 1 = 0 then l
              else frag_scan frag (push_bit 1 (int fragmap)) siz cnt siz (around ! siz) (inside ! siz) l)
            [1..<frag] fraglist))"

section \<open>The tables count maximal runs\<close>

text \<open>The scan for one size adds a multiple of \<open>cnt\<close> to the count of this size.\<close>

lemma frag_scan_adds:
  "\<exists>n :: nat. \<forall>cnt l. frag_scan frag m siz cnt pos f s l = l(siz := l siz + cnt * of_nat n)"
proof (induction "Suc frag - pos" arbitrary: pos f s rule: less_induct)
  case less
  show ?case
  proof (cases "pos \<le> frag")
    case False
    then show ?thesis by (intro exI [of _ 0]) (simp add: frag_scan.simps [of frag m siz _ pos])
  next
    case pos: True
    show ?thesis
    proof (cases "m AND f = s")
      case True
      obtain n :: nat where n: "frag_scan frag m siz cnt (pos + siz + 1) (push_bit (siz + 1) f)
          (push_bit (siz + 1) s) l = l(siz := l siz + cnt * of_nat n)" for cnt l
        using less [of "pos + siz + 1"] pos by fastforce
      show ?thesis
        using pos True
        by (intro exI [of _ "Suc n"]) (simp add: frag_scan.simps [of frag m siz _ pos] n [simplified] algebra_simps)
    next
      case False
      obtain n :: nat where n: "frag_scan frag m siz cnt (pos + 1) (push_bit 1 f)
          (push_bit 1 s) l = l(siz := l siz + cnt * of_nat n)" for cnt l
        using less [of "pos + 1"] pos by fastforce
      show ?thesis
        using pos False by (intro exI [of _ n]) (simp add: frag_scan.simps [of frag m siz _ pos] n [simplified])
    qed
  qed
qed

lemma fold_adds:
  fixes step :: "u32 \<Rightarrow> nat \<Rightarrow> (nat \<Rightarrow> u32) \<Rightarrow> (nat \<Rightarrow> u32)"
  assumes "\<And>k. \<exists>n :: nat. \<forall>cnt l. step cnt k l = l(k := l k + cnt * of_nat n)"
  shows "\<exists>N :: nat \<Rightarrow> nat. \<forall>cnt l. fold (step cnt) ks l = (\<lambda>k. l k + cnt * of_nat (N k))"
proof (induction ks)
  case Nil
  show ?case by (intro exI [of _ "\<lambda>_. 0"]) simp
next
  case (Cons k ks)
  then obtain N :: "nat \<Rightarrow> nat" where N: "fold (step cnt) ks l = (\<lambda>j. l j + cnt * of_nat (N j))" for cnt l
    by blast
  obtain n :: nat where n: "step cnt k l = l(k := l k + cnt * of_nat n)" for cnt l
    using assms [of k] by blast
  show ?case
    by (intro exI [of _ "N(k := N k + n)"]) (simp add: N n fun_eq_iff algebra_simps)
qed

lemma fragacct_adds:
  assumes "fragtbl frag = Some tbl" "m < length tbl"
  shows "\<exists>N :: nat \<Rightarrow> nat. \<forall>cnt l. fragacct frag m l cnt = Some (\<lambda>k. l k + cnt * of_nat (N k))"
proof -
  let ?step = "\<lambda>cnt siz l. if push_bit 1 (tbl ! m) AND push_bit (siz + frag mod 8) 1 = 0 then l
    else frag_scan frag (push_bit 1 (int m)) siz cnt siz (around ! siz) (inside ! siz) l"
  have "\<exists>n :: nat. \<forall>cnt l. ?step cnt k l = l(k := l k + cnt * of_nat n)" for k
  proof (cases "push_bit 1 (tbl ! m) AND push_bit (k + frag mod 8) 1 = 0")
    case True
    then show ?thesis by (intro exI [of _ 0]) simp
  next
    case False
    then show ?thesis using frag_scan_adds by simp
  qed
  from fold_adds [of ?step, OF this, of "[1..<frag]"] show ?thesis
    using assms by (simp add: fragacct_def not_le Let_def)
qed

text \<open>The counts of one pattern, against the definition of a run: all patterns are evaluated.\<close>

definition pattern_ok :: "nat \<Rightarrow> nat \<Rightarrow> bool" where
  "pattern_ok frag m \<longleftrightarrow> (case fragacct frag m (\<lambda>_. 0) 1 of None \<Rightarrow> False
     | Some l \<Rightarrow> list_all (\<lambda>k. l k = count_loop (bit (int m)) frag 0 (\<lambda>_. 0) k) [1..<frag])"

lemma patterns_124: "list_all (pattern_ok 1) [0..<2] \<and> list_all (pattern_ok 2) [0..<4] \<and>
    list_all (pattern_ok 4) [0..<16]"
  by code_simp

lemma patterns_8a: "list_all (pattern_ok 8) [0..<64]" by code_simp
lemma patterns_8b: "list_all (pattern_ok 8) [64..<128]" by code_simp
lemma patterns_8c: "list_all (pattern_ok 8) [128..<192]" by code_simp
lemma patterns_8d: "list_all (pattern_ok 8) [192..<256]" by code_simp

lemma list_all_upt: "list_all P [a..<b] \<longleftrightarrow> (\<forall>m. a \<le> m \<and> m < b \<longrightarrow> P m)"
  by (auto simp: list_all_iff)

lemma patterns_8: "\<forall>m<256. pattern_ok 8 m"
proof (intro allI impI)
  fix m :: nat assume "m < 256"
  then consider "0 \<le> m \<and> m < 64" | "64 \<le> m \<and> m < 128" | "128 \<le> m \<and> m < 192" | "192 \<le> m \<and> m < 256"
    by linarith
  then show "pattern_ok 8 m"
    using patterns_8a patterns_8b patterns_8c patterns_8d unfolding list_all_upt by cases blast+
qed

lemma pattern_ok:
  assumes "frag \<in> {1, 2, 4, 8}" "m < 2 ^ frag"
  shows "pattern_ok frag m"
  using assms patterns_124 patterns_8 unfolding list_all_upt by (elim insertE) simp_all

lemma fragtbl_length: "frag \<in> {1, 2, 4, 8} \<Longrightarrow> \<exists>tbl. fragtbl frag = Some tbl \<and> length tbl = 256"
  by (auto simp: fragtbl_def fragtbl124_def fragtbl8_def)

lemma fragacct_runs:
  assumes "frag \<in> {1, 2, 4, 8}" "m < 2 ^ frag"
  obtains l' where "fragacct frag m l cnt = Some l'"
    "\<And>k. 0 < k \<Longrightarrow> k < frag \<Longrightarrow> l' k = l k + cnt * of_nat (runs (bit (int m)) frag k)"
proof -
  obtain tbl where tbl: "fragtbl frag = Some tbl" "length tbl = 256" using fragtbl_length [OF assms(1)] by blast
  moreover have "m < 256" using assms by auto
  ultimately obtain N :: "nat \<Rightarrow> nat" where
      N: "fragacct frag m l cnt = Some (\<lambda>k. l k + cnt * of_nat (N k))" for cnt l
    using fragacct_adds [of frag tbl m] by auto
  have "of_nat (N k) = (of_nat (runs (bit (int m)) frag k) :: u32)" if "0 < k" "k < frag" for k
  proof -
    have "of_nat (N k) = count_loop (bit (int m)) frag 0 (\<lambda>_. 0 :: u32) k"
      using pattern_ok [OF assms] that by (simp add: pattern_ok_def N list_all_iff)
    also have "\<dots> = of_nat (runs (bit (int m)) frag k)"
      using that by (simp add: runs_def count_loop_spec)
    finally show ?thesis .
  qed
  then show ?thesis by (intro that [OF N]) simp
qed

section \<open>Whole blocks\<close>

text \<open>\<open>cp\<close> is the map at offset \<open>off\<close> of the buffer. \<open>None\<close> is the default branch of the switch.\<close>

definition isblock :: "nat \<Rightarrow> buf \<Rightarrow> nat \<Rightarrow> nat \<Rightarrow> bool option" where
  "isblock frag b off h =
     (if frag = 8 then Some (b (off + h) = 0xff)
      else if frag = 4 then let m = push_bit (push_bit 2 (h AND 1)) 0x0f in
        Some (b (off + drop_bit 1 h) AND m = m)
      else if frag = 2 then let m = push_bit (push_bit 1 (h AND 3)) 0x03 in
        Some (b (off + drop_bit 2 h) AND m = m)
      else if frag = 1 then let m = push_bit (h AND 7) 0x01 in
        Some (b (off + drop_bit 3 h) AND m = m)
      else None)"

definition clrblock :: "nat \<Rightarrow> nat \<Rightarrow> nat \<Rightarrow> buf \<Rightarrow> buf option" where
  "clrblock frag off h b =
     (if frag = 8 then Some (b(off + h := 0))
      else if frag = 4 then let p = off + drop_bit 1 h in
        Some (b(p := b p AND NOT (push_bit (push_bit 2 (h AND 1)) 0x0f)))
      else if frag = 2 then let p = off + drop_bit 2 h in
        Some (b(p := b p AND NOT (push_bit (push_bit 1 (h AND 3)) 0x03)))
      else if frag = 1 then let p = off + drop_bit 3 h in
        Some (b(p := b p AND NOT (push_bit (h AND 7) 0x01)))
      else None)"

definition setblock :: "nat \<Rightarrow> nat \<Rightarrow> nat \<Rightarrow> buf \<Rightarrow> buf option" where
  "setblock frag off h b =
     (if frag = 8 then Some (b(off + h := 0xff))
      else if frag = 4 then let p = off + drop_bit 1 h in
        Some (b(p := b p OR push_bit (push_bit 2 (h AND 1)) 0x0f))
      else if frag = 2 then let p = off + drop_bit 2 h in
        Some (b(p := b p OR push_bit (push_bit 1 (h AND 3)) 0x03))
      else if frag = 1 then let p = off + drop_bit 3 h in
        Some (b(p := b p OR push_bit (h AND 7) 0x01))
      else None)"

lemma byte_mask: "(0x0f :: u8) = mask 4" "(0x03 :: u8) = mask 2" "(0x01 :: u8) = mask 1" "(0xff :: u8) = mask 8"
  by (simp_all add: mask_eq_exp_minus_1)

lemma and_mask_eq:
  fixes x :: u8
  assumes "s + n \<le> 8"
  shows "x AND push_bit s (mask n) = push_bit s (mask n) \<longleftrightarrow> (\<forall>i<n. bit x (s + i))"
proof
  assume eq: "x AND push_bit s (mask n) = push_bit s (mask n)"
  have "bit (x AND push_bit s (mask n)) (s + i)" if "i < n" for i
    unfolding eq using that assms by (simp add: bit_simps)
  then show "\<forall>i<n. bit x (s + i)" by (simp add: bit_simps)
next
  assume bits: "\<forall>i<n. bit x (s + i)"
  have "bit x j" if "s \<le> j" "j - s < n" for j using bits that by (metis le_add_diff_inverse)
  then show "x AND push_bit s (mask n) = push_bit s (mask n)"
    by (intro bit_word_eqI) (auto simp: bit_simps)
qed

text \<open>Where the bits of block \<open>h\<close> are, for blocks that divide a byte.\<close>

lemma block_in_byte:
  fixes h :: nat
  assumes "frag * q = 8" "i < frag"
  shows "(h * frag + i) div 8 = h div q" "(h * frag + i) mod 8 = (h mod q) * frag + i"
proof -
  have h: "h = h div q * q + h mod q" by simp
  have "h * frag + i = (h div q * q + h mod q) * frag + i" using h by simp
  then have eq: "h * frag + i = h div q * 8 + ((h mod q) * frag + i)"
    unfolding add_mult_distrib mult.assoc using assms(1) by (simp add: mult.commute)
  have "0 < q" using assms(1) by (cases q) auto
  then have "h mod q + 1 \<le> q" by (simp add: Suc_leI)
  then have "(h mod q + 1) * frag \<le> q * frag" by (rule mult_le_mono1)
  then have "(h mod q) * frag + i < 8" using assms by (simp add: algebra_simps)
  then show "(h * frag + i) div 8 = h div q" "(h * frag + i) mod 8 = (h mod q) * frag + i"
    unfolding eq by simp_all
qed

lemma and_low:
  fixes h :: nat
  shows "h AND 1 = h mod 2" "h AND 3 = h mod 4" "h AND 7 = h mod 8"
  using take_bit_eq_mask [of 1 h] take_bit_eq_mask [of 2 h] take_bit_eq_mask [of 3 h]
  by (simp_all add: take_bit_eq_mod mask_eq_exp_minus_1)

text \<open>The byte and the bits of it that the three functions address.\<close>

definition block_byte :: "nat \<Rightarrow> nat \<Rightarrow> nat" where
  "block_byte frag h = h div (8 div frag)"

definition block_mask :: "nat \<Rightarrow> nat \<Rightarrow> u8" where
  "block_mask frag h = push_bit (h mod (8 div frag) * frag) (mask frag)"

lemma and_ff: "(x :: u8) AND 255 = x" "(x :: u8) OR 255 = 255" "x AND - 256 = 0"
proof -
  have ff: "(255 :: u8) = - 1" by simp
  show "x AND 255 = x" "x OR 255 = 255" unfolding ff by simp_all
  have z: "(- 256 :: u8) = 0" by simp
  show "x AND - 256 = 0" unfolding z by simp
qed

lemma mask_values: "(mask 1 :: u8) = 1" "(mask 2 :: u8) = 3" "(mask 4 :: u8) = 15" "(mask 8 :: u8) = 255"
  by (simp_all add: mask_eq_exp_minus_1)

lemma block_forms:
  assumes "frag \<in> {1, 2, 4, 8}"
  shows "isblock frag b off h = (let p = off + block_byte frag h in
      Some (b p AND block_mask frag h = block_mask frag h))" (is ?A)
    and "clrblock frag off h b = (let p = off + block_byte frag h in
      Some (b(p := b p AND NOT (block_mask frag h))))" (is ?B)
    and "setblock frag off h b = (let p = off + block_byte frag h in
      Some (b(p := b p OR block_mask frag h)))" (is ?C)
proof -
  note defs = isblock_def clrblock_def setblock_def block_byte_def block_mask_def Let_def
    drop_bit_eq_div and_low mask_values push_bit_eq_mult [where 'a = nat] 
  consider "frag = 1" | "frag = 2" | "frag = 4" | "frag = 8" using assms by blast
  then have "?A \<and> ?B \<and> ?C"
  proof cases
    case 1
    then show "?A \<and> ?B \<and> ?C" by (simp add: defs)
  next
    case 2
    then show "?A \<and> ?B \<and> ?C" by (simp add: defs)
  next
    case 3
    then show "?A \<and> ?B \<and> ?C" by (simp add: defs)
  next
    case 4
    then show "?A \<and> ?B \<and> ?C" by (simp add: defs and_ff)
  qed
  then show ?A ?B ?C by blast+
qed

lemma block_place:
  assumes "frag \<in> {1, 2, 4, 8}" "i < frag"
  shows "(h * frag + i) div 8 = block_byte frag h" "(h * frag + i) mod 8 = h mod (8 div frag) * frag + i"
    and "h mod (8 div frag) * frag + frag \<le> 8"
proof -
  have q: "frag * (8 div frag) = 8" using assms(1) by auto
  show "(h * frag + i) div 8 = block_byte frag h" "(h * frag + i) mod 8 = h mod (8 div frag) * frag + i"
    using block_in_byte [OF q assms(2)] by (simp_all add: block_byte_def)
  have "h mod (8 div frag) + 1 \<le> 8 div frag" using assms(1) by (auto simp: Suc_leI)
  then have "(h mod (8 div frag) + 1) * frag \<le> 8 div frag * frag" by (rule mult_le_mono1)
  then show "h mod (8 div frag) * frag + frag \<le> 8" using q by (simp add: algebra_simps)
qed

lemma isblock_eq:
  assumes "frag \<in> {1, 2, 4, 8}"
  shows "isblock frag b off h = Some (block_is_free b off (h * frag) frag)"
proof -
  have fit: "h mod (8 div frag) * frag + frag \<le> 8" using block_place(3) [OF assms, of 0 h] assms by auto
  have "block_is_free b off (h * frag) frag \<longleftrightarrow>
      (\<forall>i<frag. bit (b (off + block_byte frag h)) (h mod (8 div frag) * frag + i))"
    using block_place(1,2) [OF assms] by (auto simp: block_is_free_iff free_bit_iff)
  then show ?thesis
    using and_mask_eq [OF fit] by (simp add: block_forms [OF assms] block_mask_def)
qed

lemma bit_block_mask:
  assumes "frag \<in> {1, 2, 4, 8}"
  shows "bit (block_mask frag h) j \<longleftrightarrow> h mod (8 div frag) * frag \<le> j \<and> j < h mod (8 div frag) * frag + frag"
  using block_place(3) [OF assms, of 0 h] assms by (auto simp: block_mask_def bit_simps)

text \<open>The bit \<open>j\<close> of the map is one of the block when its byte and place say so.\<close>

lemma in_block_iff:
  assumes "frag \<in> {1, 2, 4, 8}"
  shows "h * frag \<le> j \<and> j < h * frag + frag \<longleftrightarrow>
    j div 8 = block_byte frag h \<and> bit (block_mask frag h) (j mod 8)"
proof
  assume "h * frag \<le> j \<and> j < h * frag + frag"
  then obtain i where "j = h * frag + i" "i < frag" by (metis le_Suc_ex nat_add_left_cancel_less)
  with block_place(1,2) [OF assms] show "j div 8 = block_byte frag h \<and> bit (block_mask frag h) (j mod 8)"
    by (simp add: bit_block_mask [OF assms])
next
  assume r: "j div 8 = block_byte frag h \<and> bit (block_mask frag h) (j mod 8)"
  define i where "i = j mod 8 - h mod (8 div frag) * frag"
  have i: "i < frag" "j mod 8 = h mod (8 div frag) * frag + i"
    using r by (auto simp: bit_block_mask [OF assms] i_def)
  with block_place(1,2) [OF assms i(1), of h] r have "j = h * frag + i"
    by (metis div_mod_8_eq)
  with i(1) show "h * frag \<le> j \<and> j < h * frag + frag" by simp
qed

lemma free_bit_clrblock:
  assumes "frag \<in> {1, 2, 4, 8}" "clrblock frag off h b = Some c"
  shows "free_bit c off j \<longleftrightarrow> free_bit b off j \<and> \<not> (h * frag \<le> j \<and> j < h * frag + frag)"
proof -
  have c: "c = b(off + block_byte frag h := b (off + block_byte frag h) AND NOT (block_mask frag h))"
    using assms(2) by (simp add: block_forms [OF assms(1)] Let_def)
  have "j mod 8 < LENGTH(8)" by simp
  then show ?thesis
    unfolding in_block_iff [OF assms(1)] c
    by (auto simp: free_bit_iff bit_simps)
qed

lemma free_bit_setblock:
  assumes "frag \<in> {1, 2, 4, 8}" "setblock frag off h b = Some c"
  shows "free_bit c off j \<longleftrightarrow> free_bit b off j \<or> (h * frag \<le> j \<and> j < h * frag + frag)"
proof -
  have c: "c = b(off + block_byte frag h := b (off + block_byte frag h) OR block_mask frag h)"
    using assms(2) by (simp add: block_forms [OF assms(1)] Let_def)
  show ?thesis
    unfolding in_block_iff [OF assms(1)] c by (auto simp: free_bit_iff bit_simps)
qed

lemma block_frame:
  assumes "frag \<in> {1, 2, 4, 8}"
  shows "clrblock frag off h b = Some c \<Longrightarrow> i < off \<Longrightarrow> c i = b i"
    and "setblock frag off h b = Some c \<Longrightarrow> i < off \<Longrightarrow> c i = b i"
  by (auto simp: block_forms [OF assms] Let_def)

text \<open>\<open>blkmap\<close>: the bits of the block at fragment \<open>loc\<close> of a map.\<close>

definition blkmap :: "nat \<Rightarrow> buf \<Rightarrow> nat \<Rightarrow> nat \<Rightarrow> nat" where
  "blkmap frag b off loc = unat (drop_bit (loc mod 8) (b (off + loc div 8)) AND drop_bit (8 - frag) 0xff)"

lemma blkmap_bits:
  assumes "frag \<in> {1, 2, 4, 8}"
  shows "bit (int (blkmap frag b off (h * frag))) i \<longleftrightarrow> i < frag \<and> free_bit b off (h * frag + i)"
    and "blkmap frag b off (h * frag) < 2 ^ frag"
proof -
  have m: "drop_bit (8 - frag) (0xff :: u8) = mask frag"
    using assms by (elim insertE) (simp_all add: mask_values)
  have fit: "h mod (8 div frag) * frag + frag \<le> 8" using block_place(3) [OF assms, of 0 h] assms by auto
  have place: "(h * frag) div 8 = block_byte frag h" "(h * frag) mod 8 = h mod (8 div frag) * frag"
    using block_place(1,2) [OF assms, of 0 h] assms by auto
  show "bit (int (blkmap frag b off (h * frag))) i \<longleftrightarrow> i < frag \<and> free_bit b off (h * frag + i)"
    using fit block_place(1,2) [OF assms, of i h]
    by (auto simp: blkmap_def m place bit_simps free_bit_iff)
  show "blkmap frag b off (h * frag) < 2 ^ frag"
    by (simp add: blkmap_def m take_bit_eq_mask [symmetric] unsigned_take_bit_eq)
qed

end
