(* ===== verification/Fsck.thy ===== *)
theory Fsck
  imports ByteOrder FragTables OpenImage "HOL-Library.Signed_Division"
begin

text \<open>
  The state of the file system checker and its services: the operator, the block buffers, the
  traversal of inodes and directories, and the allocation maps (\<open>src/src/fsck\<close>: \<open>fsck.h\<close>,
  \<open>operator.c\<close>, \<open>device.c\<close>, \<open>buffer.c\<close>, \<open>inode_scan.c\<close>, \<open>alloc_map.c\<close>, \<open>inode_ops.c\<close>, \<open>dir_scan.c\<close>).

  The file system is the image of a regular file. C integers are \<open>int\<close>; \<open>s32\<close> wraps a value around
  to 32 bits where a macro or an assignment can exceed them. A division by zero and an access
  outside an array are \<open>UNDEF\<close>. What is printed is left out; what is typed is the input of
  \<open>reply\<close>. The \<open>longjmp\<close> of \<open>fsck_abort\<close> is the error \<open>EXIT\<close> with the status.
\<close>

section \<open>The context\<close>

datatype buftype = BT_UNKNOWN | BT_INDIR | BT_SUPER | BT_CG | BT_INODE | BT_DIR

record bufarea =
  b_bno :: int
  b_size :: int
  b_errs :: nat
  b_data :: buf
  b_dirty :: bool
  b_swapped :: bool
  b_type :: buftype

text \<open>The states of an inode; \<open>UNSET\<close> is the 0 the map starts with.\<close>

datatype istate = UNSET | USTATE | FSTATE | DSTATE | DFOUND | DCLEAR | FCLEAR

text \<open>
  The list of duplicate blocks is a list, and \<open>muldup\<close> and \<open>duphead\<close> are positions in it. The path
  name of the entry in work is printed only; what counts is its length, the position \<open>pathp\<close>.
\<close>

record fsck_ctx =
  ctx_inoblk :: bufarea
  ctx_fileblk :: bufarea
  ctx_sblk :: bufarea
  ctx_cgblk :: bufarea
  ctx_image :: nextufs_image
  ctx_dev :: sys
  ctx_mod :: bool
  ctx_duplist :: "int list"
  ctx_muldup :: "nat option"
  ctx_zlnhead :: "nat list"
  ctx_needswap :: bool
  ctx_rootfs :: bool
  ctx_readonlyfs :: bool
  ctx_mountedfs :: bool
  ctx_Pflag :: bool
  ctx_nflag :: bool
  ctx_yflag :: bool
  ctx_bflag :: int
  ctx_preen :: bool
  ctx_exitstat :: int
  ctx_blockmap :: buf
  ctx_statemap :: "nat \<Rightarrow> istate"
  ctx_lncntp :: "nat \<Rightarrow> u16"
  ctx_pathp :: nat
  ctx_fs_maxblock :: int
  ctx_imax :: nat
  ctx_lastino :: nat
  ctx_lfdir :: nat
  ctx_bmapsz :: int
  ctx_n_blks :: int
  ctx_n_files :: int
  ctx_badblk :: int
  ctx_dupblk :: int
  ctx_duphead :: nat
  ctx_startinum :: nat
  ctx_error_count :: int
  ctx_csp :: "nat \<Rightarrow> buf"
  ctx_stdin :: "u8 list"

type_synonym 'a ck = "(fsck_ctx, 'a) io"

definition gets :: "(fsck_ctx \<Rightarrow> 'a) \<Rightarrow> 'a ck" where
  "gets f = (\<lambda>s. (Inr (f s), s))"

definition modify :: "(fsck_ctx \<Rightarrow> fsck_ctx) \<Rightarrow> unit ck" where
  "modify f = (\<lambda>s. (Inr (), f s))"

definition skip :: "unit ck" where
  "skip = ret ()"

definition only_if :: "bool \<Rightarrow> unit ck \<Rightarrow> unit ck" where
  "only_if b m = (if b then m else skip)"

definition s32 :: "int \<Rightarrow> int" where
  "s32 x = sint (of_int x :: u32)"

text \<open>A division of C: towards zero, and undefined by zero.\<close>

definition c_div :: "int \<Rightarrow> int \<Rightarrow> int ck" where
  "c_div a b = (if b = 0 then fail UNDEF else ret (a sdiv b))"

definition c_mod :: "int \<Rightarrow> int \<Rightarrow> int ck" where
  "c_mod a b = (if b = 0 then fail UNDEF else ret (a smod b))"

definition howmany :: "int \<Rightarrow> int \<Rightarrow> int ck" where
  "howmany x y = c_div (s32 (x + (y - 1))) y"

section \<open>The operator\<close>

definition fsck_abort :: "nat \<Rightarrow> 'a ck" where
  "fsck_abort status = fail (EXIT status)"

definition errexit :: "'a ck" where
  "errexit = fsck_abort 8"

definition pwarn :: "unit ck" where
  "pwarn = modify (\<lambda>s. s\<lparr>ctx_error_count := ctx_error_count s + 1\<rparr>)"

definition pfatal :: "unit ck" where
  "pfatal = andthen pwarn (\<lambda>_. andthen (gets ctx_preen) (\<lambda>preen.
     if preen then fsck_abort 8 else skip))"

definition panic :: "'a ck" where
  "panic = andthen pfatal (\<lambda>_. errexit)"

definition is_space :: "u8 \<Rightarrow> bool" where
  "is_space c \<longleftrightarrow> c = 0x20 \<or> 9 \<le> c \<and> c \<le> 13"

text \<open>\<open>fsck_getline\<close>: the line without its blanks, cut off at \<open>maxlen - 1\<close> bytes, and the rest.\<close>

fun getline :: "nat \<Rightarrow> u8 list \<Rightarrow> u8 list \<Rightarrow> (u8 list \<times> u8 list) option" where
  "getline maxlen p [] = None"
| "getline maxlen p (c # cs) =
     (if c = 0x0a then Some (p, cs)
      else if \<not> is_space c \<and> length p < maxlen - 1 then getline maxlen (p @ [c]) cs
      else getline maxlen p cs)"

definition file_is_writable :: "fsck_ctx \<Rightarrow> bool" where
  "file_is_writable s = writable (ctx_image s)"

definition reply :: "bool ck" where
  "reply =
     andthen (gets ctx_preen) (\<lambda>preen.
     andthen (only_if preen pfatal) (\<lambda>_.
     andthen (gets (\<lambda>s. ctx_nflag s \<or> \<not> file_is_writable s)) (\<lambda>no.
     if no then andthen (modify (\<lambda>s. s\<lparr>ctx_exitstat := 8\<rparr>)) (\<lambda>_. ret False)
     else
     andthen (gets ctx_yflag) (\<lambda>yes.
     if yes then ret True
     else
     andthen (gets ctx_stdin) (\<lambda>input. case getline 80 [] input of
       None \<Rightarrow> errexit
     | Some (line, rest) \<Rightarrow>
       andthen (modify (\<lambda>s. s\<lparr>ctx_stdin := rest\<rparr>)) (\<lambda>_.
       if line \<noteq> [] \<and> (hd line = 0x79 \<or> hd line = 0x59) then ret True
       else andthen (modify (\<lambda>s. s\<lparr>ctx_exitstat := 8\<rparr>)) (\<lambda>_. ret False)))))))"

definition preen_or_reply :: "bool ck" where
  "preen_or_reply = andthen (gets ctx_preen) (\<lambda>preen. if preen then ret True else reply)"

section \<open>Access to the device\<close>

definition DEV_BSIZE :: int where "DEV_BSIZE = 1024"
definition MAXBSIZE :: int where "MAXBSIZE = 8192"

text \<open>\<open>dbtob\<close> shifts an unsigned int of 32 bits.\<close>

definition dbtob :: "int \<Rightarrow> int" where
  "dbtob blk = uint (push_bit 10 (of_int blk :: u32))"

definition on_device :: "(nextufs_image \<Rightarrow> 'a fs) \<Rightarrow> 'a ck" where
  "on_device m = (\<lambda>s. case m (ctx_image s) (ctx_dev s) of (r, d) \<Rightarrow> (r, s\<lparr>ctx_dev := d\<rparr>))"

definition file_pread :: "nat \<Rightarrow> int \<Rightarrow> buf ck" where
  "file_pread n off = on_device (\<lambda>img. image_pread img n off)"

definition file_pwrite :: "buf \<Rightarrow> nat \<Rightarrow> int \<Rightarrow> unit ck" where
  "file_pwrite d n off = on_device (\<lambda>img. image_pwrite img d n off)"

text \<open>A call whose failure is a branch of the caller; an undefined one stays undefined.\<close>

definition trying :: "'a ck \<Rightarrow> 'a option ck" where
  "trying m = attempt m (\<lambda>r. case r of Inr x \<Rightarrow> ret (Some x)
     | Inl e \<Rightarrow> if e = UNDEF then fail UNDEF else ret None)"

definition rwerr :: "unit ck" where
  "rwerr = andthen pfatal (\<lambda>_. andthen reply (\<lambda>go. if go then skip else errexit))"

definition sectors :: "int \<Rightarrow> nat list" where
  "sectors sz = map (\<lambda>i. i * 1024) [0..<(nat sz + 1023) div 1024]"

text \<open>The loop over the sectors of a block that could not be read as a whole.\<close>

primrec read_sectors :: "int \<Rightarrow> nat list \<Rightarrow> nat \<Rightarrow> buf \<Rightarrow> (nat \<times> buf) ck" where
  "read_sectors offset [] errs b = ret (errs, b)"
| "read_sectors offset (i # is) errs b =
     andthen (trying (file_pread 1024 (offset + int i))) (\<lambda>r. case r of
       Some d \<Rightarrow> read_sectors offset is errs (blit b i 1024 d)
     | None \<Rightarrow> read_sectors offset is (errs + 1) (fill b i 1024 0))"

text \<open>The buffer has \<open>room\<close> bytes; the result is the number of bad sectors and the buffer.\<close>

definition bread :: "int \<Rightarrow> buf \<Rightarrow> int \<Rightarrow> int \<Rightarrow> (nat \<times> buf) ck" where
  "bread room b blk sz =
     (let offset = dbtob blk in
      if sz < 0 \<or> room < sz then fail UNDEF
      else
      andthen (trying (file_pread (nat sz) offset)) (\<lambda>r. case r of
        Some d \<Rightarrow> ret (0, blit b 0 (nat sz) d)
      | None \<Rightarrow>
        andthen rwerr (\<lambda>_.
        andthen pfatal (\<lambda>_.
        read_sectors offset (sectors sz) 0 b))))"

primrec write_sectors :: "int \<Rightarrow> nat list \<Rightarrow> buf \<Rightarrow> unit ck" where
  "write_sectors offset [] b = skip"
| "write_sectors offset (i # is) b =
     andthen (trying (file_pwrite (\<lambda>j. b (i + j)) 1024 (offset + int i))) (\<lambda>_.
     write_sectors offset is b)"

definition bwrite :: "buf \<Rightarrow> int \<Rightarrow> int \<Rightarrow> unit ck" where
  "bwrite b blk sz =
     andthen (gets file_is_writable) (\<lambda>wr.
     if \<not> wr then skip
     else let offset = dbtob blk in
     if sz < 0 then fail UNDEF
     else
     andthen (trying (file_pwrite b (nat sz) offset)) (\<lambda>r. case r of
       Some _ \<Rightarrow> modify (\<lambda>s. s\<lparr>ctx_mod := True\<rparr>)
     | None \<Rightarrow>
       andthen rwerr (\<lambda>_.
       andthen pfatal (\<lambda>_.
       write_sectors offset (sectors sz) b))))"

section \<open>The superblock in memory\<close>

definition sb_int :: "nat \<Rightarrow> fsck_ctx \<Rightarrow> int" where
  "sb_int p s = sint (get32 (b_data (ctx_sblk s)) p)"

definition fs_sblkno :: "fsck_ctx \<Rightarrow> int" where "fs_sblkno = sb_int 8"
definition fs_cblkno :: "fsck_ctx \<Rightarrow> int" where "fs_cblkno = sb_int 12"
definition fs_iblkno :: "fsck_ctx \<Rightarrow> int" where "fs_iblkno = sb_int 16"
definition fs_dblkno :: "fsck_ctx \<Rightarrow> int" where "fs_dblkno = sb_int 20"
definition fs_cgoffset :: "fsck_ctx \<Rightarrow> int" where "fs_cgoffset = sb_int 24"
definition fs_cgmask :: "fsck_ctx \<Rightarrow> int" where "fs_cgmask = sb_int 28"
definition fs_size :: "fsck_ctx \<Rightarrow> int" where "fs_size = sb_int 36"
definition fs_ncg :: "fsck_ctx \<Rightarrow> int" where "fs_ncg = sb_int 44"
definition fs_bsize :: "fsck_ctx \<Rightarrow> int" where "fs_bsize = sb_int 48"
definition fs_fsize :: "fsck_ctx \<Rightarrow> int" where "fs_fsize = sb_int 52"
definition fs_frag :: "fsck_ctx \<Rightarrow> int" where "fs_frag = sb_int 56"
definition fs_minfree :: "fsck_ctx \<Rightarrow> int" where "fs_minfree = sb_int 60"
definition fs_bmask :: "fsck_ctx \<Rightarrow> int" where "fs_bmask = sb_int 72"
definition fs_fmask :: "fsck_ctx \<Rightarrow> int" where "fs_fmask = sb_int 76"
definition fs_bshift :: "fsck_ctx \<Rightarrow> int" where "fs_bshift = sb_int 80"
definition fs_fshift :: "fsck_ctx \<Rightarrow> int" where "fs_fshift = sb_int 84"
definition fs_fragshift :: "fsck_ctx \<Rightarrow> int" where "fs_fragshift = sb_int 96"
definition fs_sbsize :: "fsck_ctx \<Rightarrow> int" where "fs_sbsize = sb_int 104"
definition fs_csmask :: "fsck_ctx \<Rightarrow> int" where "fs_csmask = sb_int 108"
definition fs_csshift :: "fsck_ctx \<Rightarrow> int" where "fs_csshift = sb_int 112"
definition fs_nindir :: "fsck_ctx \<Rightarrow> int" where "fs_nindir = sb_int 116"
definition fs_inopb :: "fsck_ctx \<Rightarrow> int" where "fs_inopb = sb_int 120"
definition fs_nspf :: "fsck_ctx \<Rightarrow> int" where "fs_nspf = sb_int 124"
definition fs_optim :: "fsck_ctx \<Rightarrow> int" where "fs_optim = sb_int 128"
definition fs_csaddr :: "fsck_ctx \<Rightarrow> int" where "fs_csaddr = sb_int 152"
definition fs_cssize :: "fsck_ctx \<Rightarrow> int" where "fs_cssize = sb_int 156"
definition fs_cgsize :: "fsck_ctx \<Rightarrow> int" where "fs_cgsize = sb_int 160"
definition fs_nsect :: "fsck_ctx \<Rightarrow> int" where "fs_nsect = sb_int 168"
definition fs_spc :: "fsck_ctx \<Rightarrow> int" where "fs_spc = sb_int 172"
definition fs_ncyl :: "fsck_ctx \<Rightarrow> int" where "fs_ncyl = sb_int 176"
definition fs_cpg :: "fsck_ctx \<Rightarrow> int" where "fs_cpg = sb_int 180"
definition fs_ipg :: "fsck_ctx \<Rightarrow> int" where "fs_ipg = sb_int 184"
definition fs_fpg :: "fsck_ctx \<Rightarrow> int" where "fs_fpg = sb_int 188"
definition fs_cs_ndir :: "fsck_ctx \<Rightarrow> int" where "fs_cs_ndir = sb_int 192"
definition sb_magic :: "fsck_ctx \<Rightarrow> int" where "sb_magic = sb_int 1372"

text \<open>Addresses in fragments, and in the units of the device.\<close>

definition fsbtodb :: "int \<Rightarrow> fsck_ctx \<Rightarrow> int" where
  "fsbtodb b s = sint (ucast ((of_int b * of_int (fs_fsize s)) div (1024 :: u64)) :: u32)"

definition cgbase :: "int \<Rightarrow> fsck_ctx \<Rightarrow> int" where
  "cgbase c s = s32 (fs_fpg s * c)"

definition cgstart :: "int \<Rightarrow> fsck_ctx \<Rightarrow> int" where
  "cgstart c s = s32 (cgbase c s + fs_cgoffset s * (c AND NOT (fs_cgmask s)))"

definition cgsblock :: "int \<Rightarrow> fsck_ctx \<Rightarrow> int" where
  "cgsblock c s = s32 (cgstart c s + fs_sblkno s)"

definition cgtod :: "int \<Rightarrow> fsck_ctx \<Rightarrow> int" where
  "cgtod c s = s32 (cgstart c s + fs_cblkno s)"

definition cgimin :: "int \<Rightarrow> fsck_ctx \<Rightarrow> int" where
  "cgimin c s = s32 (cgstart c s + fs_iblkno s)"

definition cgdmin :: "int \<Rightarrow> fsck_ctx \<Rightarrow> int" where
  "cgdmin c s = s32 (cgstart c s + fs_dblkno s)"

definition blkoff :: "int \<Rightarrow> fsck_ctx \<Rightarrow> int" where
  "blkoff loc s = loc AND NOT (fs_bmask s)"

definition fragroundup :: "int \<Rightarrow> fsck_ctx \<Rightarrow> int" where
  "fragroundup sz s = s32 (sz + fs_fsize s - 1) AND fs_fmask s"

text \<open>Shifts by an amount from the disk.\<close>

definition shift_right :: "int \<Rightarrow> int \<Rightarrow> int ck" where
  "shift_right x n = (if n < 0 \<or> 32 \<le> n then fail UNDEF else ret (drop_bit (nat n) x))"

definition shift_left :: "int \<Rightarrow> int \<Rightarrow> int ck" where
  "shift_left x n = (if n < 0 \<or> 32 \<le> n then fail UNDEF else ret (s32 (push_bit (nat n) x)))"

definition numfrags :: "int \<Rightarrow> int ck" where
  "numfrags loc = andthen (gets fs_fshift) (\<lambda>n. shift_right loc n)"

definition lblkno :: "int \<Rightarrow> int ck" where
  "lblkno loc = andthen (gets fs_bshift) (\<lambda>n. shift_right loc n)"

definition NSPB :: "int ck" where
  "NSPB = andthen (gets fs_nspf) (\<lambda>nspf. andthen (gets fs_fragshift) (\<lambda>n. shift_left nspf n))"

text \<open>\<open>itod\<close>: computed in an unsigned long, and cut to 32 bits.\<close>

definition itod :: "nat \<Rightarrow> int ck" where
  "itod x = (\<lambda>s.
     if fs_ipg s \<le> 0 \<or> fs_inopb s \<le> 0 \<or> fs_fragshift s < 0 \<or> 32 \<le> fs_fragshift s then (Inl UNDEF, s)
     else let c = int x div fs_ipg s; b = (int x mod fs_ipg s) div fs_inopb s in
       (Inr (s32 (cgimin c s + push_bit (nat (fs_fragshift s)) b)), s))"

section \<open>Buffers\<close>

definition swap_bufarea :: "fsck_ctx \<Rightarrow> bufarea \<Rightarrow> bool \<Rightarrow> buf \<Rightarrow> buf" where
  "swap_bufarea s bp write_pass d =
     (case b_type bp of
        BT_INDIR \<Rightarrow> swap_indir_block (nat (fs_nindir s)) d
      | BT_SUPER \<Rightarrow> swap_superblock d
      | BT_CG \<Rightarrow> swap_cgblock d
      | BT_INODE \<Rightarrow> swap_inode_block (nat (fs_inopb s)) d
      | BT_DIR \<Rightarrow> swap_dirblock (nat (b_size bp)) write_pass d
      | BT_UNKNOWN \<Rightarrow> d)"

definition swap_csum_block :: "int \<Rightarrow> buf \<Rightarrow> buf" where
  "swap_csum_block sz b = swap_fields (concat (map (\<lambda>k. csum_fields (k * 16)) [0..<nat sz div 16])) b"

text \<open>The summary area follows the superblock: its blocks, with their sizes.\<close>

definition csum_blocks :: "fsck_ctx \<Rightarrow> (nat \<times> int) list" where
  "csum_blocks s = map (\<lambda>j. (j, min (fs_cssize s - int j * fs_bsize s) (fs_bsize s)))
     [0..<nat ((fs_cssize s + fs_bsize s - 1) sdiv fs_bsize s)]"

primrec write_csums :: "(nat \<times> int) list \<Rightarrow> unit ck" where
  "write_csums [] = skip"
| "write_csums (jn # rest) = (case jn of (j, sz) \<Rightarrow>
     andthen (gets (\<lambda>s. (ctx_needswap s, ctx_csp s j, fsbtodb (s32 (fs_csaddr s + int j * fs_frag s)) s)))
       (\<lambda>(swp, b, at). andthen (bwrite (if swp then swap_csum_block sz b else b) at sz) (\<lambda>_.
     write_csums rest)))"

definition flush_area :: "bool \<Rightarrow> bufarea \<Rightarrow> bufarea ck" where
  "flush_area is_sblk bp =
     (if \<not> b_dirty bp then ret bp
      else
      andthen (only_if (b_errs bp \<noteq> 0) pfatal) (\<lambda>_.
      andthen (gets id) (\<lambda>s.
      let swp = ctx_needswap s \<and> b_swapped bp;
          out = (if swp then swap_bufarea s bp True (b_data bp) else b_data bp);
          back = (if swp then swap_bufarea s bp False out else out) in
      andthen (bwrite out (b_bno bp) (b_size bp)) (\<lambda>_.
      andthen (if is_sblk then
          if 0 < fs_cssize s \<and> fs_bsize s \<le> 0 then fail UNDEF else write_csums (csum_blocks s)
        else skip) (\<lambda>_.
      ret (bp\<lparr>b_dirty := False, b_errs := 0, b_data := back\<rparr>))))))"

definition getblk_area :: "bool \<Rightarrow> bufarea \<Rightarrow> int \<Rightarrow> int \<Rightarrow> bufarea ck" where
  "getblk_area is_sblk bp blk sz =
     andthen (gets (fsbtodb blk)) (\<lambda>dblk.
     if b_bno bp = dblk then ret bp
     else
     andthen (flush_area is_sblk bp) (\<lambda>bp.
     andthen (bread MAXBSIZE (b_data bp) dblk sz) (\<lambda>(errs, d).
     let bp = bp\<lparr>b_errs := errs, b_data := d, b_bno := dblk, b_size := sz, b_swapped := False\<rparr> in
     andthen (gets id) (\<lambda>s.
     if ctx_needswap s \<and> errs = 0
     then ret (bp\<lparr>b_data := swap_bufarea s bp False d, b_swapped := True\<rparr>)
     else ret bp))))"

datatype area = Inoblk | Fileblk | Sblk | Cgblk

fun area_of :: "area \<Rightarrow> fsck_ctx \<Rightarrow> bufarea" where
  "area_of Inoblk s = ctx_inoblk s"
| "area_of Fileblk s = ctx_fileblk s"
| "area_of Sblk s = ctx_sblk s"
| "area_of Cgblk s = ctx_cgblk s"

fun set_area :: "area \<Rightarrow> bufarea \<Rightarrow> fsck_ctx \<Rightarrow> fsck_ctx" where
  "set_area Inoblk bp s = s\<lparr>ctx_inoblk := bp\<rparr>"
| "set_area Fileblk bp s = s\<lparr>ctx_fileblk := bp\<rparr>"
| "set_area Sblk bp s = s\<lparr>ctx_sblk := bp\<rparr>"
| "set_area Cgblk bp s = s\<lparr>ctx_cgblk := bp\<rparr>"

definition flush :: "area \<Rightarrow> unit ck" where
  "flush a = andthen (gets (area_of a)) (\<lambda>bp.
     andthen (flush_area (a = Sblk) bp) (\<lambda>bp. modify (set_area a bp)))"

definition getblk :: "area \<Rightarrow> int \<Rightarrow> int \<Rightarrow> unit ck" where
  "getblk a blk sz = andthen (gets (area_of a)) (\<lambda>bp.
     andthen (getblk_area (a = Sblk) bp blk sz) (\<lambda>bp. modify (set_area a bp)))"

definition set_dirty :: "area \<Rightarrow> unit ck" where
  "set_dirty a = modify (\<lambda>s. set_area a ((area_of a s)\<lparr>b_dirty := True\<rparr>) s)"

definition edit :: "area \<Rightarrow> (buf \<Rightarrow> buf) \<Rightarrow> unit ck" where
  "edit a f = modify (\<lambda>s. set_area a ((area_of a s)\<lparr>b_data := f (b_data (area_of a s))\<rparr>) s)"

definition data_of :: "area \<Rightarrow> buf ck" where
  "data_of a = gets (\<lambda>s. b_data (area_of a s))"

definition SBLOCK :: int where "SBLOCK = 8"

definition ckfini :: "unit ck" where
  "ckfini =
     andthen (flush Fileblk) (\<lambda>_.
     andthen (flush Sblk) (\<lambda>_.
     andthen (gets (\<lambda>s. b_bno (ctx_sblk s))) (\<lambda>bno.
     andthen (only_if (bno \<noteq> SBLOCK)
       (andthen (modify (\<lambda>s. s\<lparr>ctx_sblk := (ctx_sblk s)\<lparr>b_bno := SBLOCK\<rparr>\<rparr>)) (\<lambda>_.
        andthen (set_dirty Sblk) (\<lambda>_. flush Sblk)))) (\<lambda>_.
     andthen (flush Inoblk) (\<lambda>_. flush Cgblk)))))"

end
