(* ===== verification/FsckScan.thy ===== *)
theory FsckScan
  imports Fsck
begin

text \<open>
  The traversals of the checker (\<open>inode_scan.c\<close>, \<open>dir_scan.c\<close>) and what they do to each block or
  directory entry, apart from the check of path names (\<open>pass1.c\<close>, \<open>pass1b.c\<close>, \<open>pass4.c\<close>), with the
  allocation of blocks and inodes (\<open>alloc_map.c\<close>, \<open>inode_ops.c\<close>).

  A pointer to an inode is its offset in the inode buffer, a pointer to a directory entry its
  offset in the buffer of the directory. The function pointer \<open>id_func\<close> is the name of a function;
  the traversals take the function that calls it as their argument \<open>call\<close>.
\<close>

section \<open>The descriptor of a traversal\<close>

datatype fixstate = DONTKNOW | NOFIX | FIX
datatype idtype = DATA | ADDR
datatype idfunc = Pass1check | Pass1bcheck | Pass2check | Pass4check | Findname | Findino
  | Mkentry | Chgino

record inodesc =
  id_fix :: fixstate
  id_type :: idtype
  id_func :: idfunc
  id_number :: nat
  id_parent :: nat
  id_blkno :: int
  id_numfrags :: int
  id_filesize :: int
  id_loc :: int
  id_entryno :: int
  id_dirp :: buf
  id_name :: "u8 list"

definition new_inodesc :: "idtype \<Rightarrow> idfunc \<Rightarrow> nat \<Rightarrow> inodesc" where
  "new_inodesc ty f ino = \<lparr>id_fix = DONTKNOW, id_type = ty, id_func = f, id_number = ino, id_parent = 0,
     id_blkno = 0, id_numfrags = 0, id_filesize = 0, id_loc = 0, id_entryno = 0,
     id_dirp = (\<lambda>_. 0), id_name = []\<rparr>"

text \<open>The flags a function returns.\<close>

definition ALTERED :: int where "ALTERED = 8"
definition KEEPON :: int where "KEEPON = 4"
definition SKIP :: int where "SKIP = 2"
definition STOP :: int where "STOP = 1"

definition has :: "int \<Rightarrow> int \<Rightarrow> bool" where
  "has ret_flags flag \<longleftrightarrow> ret_flags AND flag \<noteq> 0"

type_synonym caller = "inodesc \<Rightarrow> (int \<times> inodesc) ck"

definition ROOTINO :: nat where "ROOTINO = 2"
definition NDADDR :: nat where "NDADDR = 12"

section \<open>Inodes\<close>

definition IFMT :: u16 where "IFMT = 0xf000"
definition IFDIR :: u16 where "IFDIR = 0x4000"
definition IFREG :: u16 where "IFREG = 0x8000"
definition IFLNK :: u16 where "IFLNK = 0xa000"
definition IFBLK :: u16 where "IFBLK = 0x6000"
definition IFCHR :: u16 where "IFCHR = 0x2000"
definition IFSOCK :: u16 where "IFSOCK = 0xc000"
definition IFIFO :: u16 where "IFIFO = 0x1000"

definition di_mode :: "buf \<Rightarrow> u16" where "di_mode d = get16 d 0"
definition di_nlink :: "buf \<Rightarrow> u16" where "di_nlink d = get16 d 2"
definition di_size :: "buf \<Rightarrow> int" where "di_size d = sint (get32 d 12)"
definition di_db :: "buf \<Rightarrow> nat \<Rightarrow> int" where "di_db d i = sint (get32 d (40 + i * 4))"
definition di_ib :: "buf \<Rightarrow> nat \<Rightarrow> int" where "di_ib d i = sint (get32 d (88 + i * 4))"
definition di_icflags :: "buf \<Rightarrow> u32" where "di_icflags d = get32 d 100"
definition di_blocks :: "buf \<Rightarrow> int" where "di_blocks d = sint (get32 d 104)"

definition DIRCT :: "buf \<Rightarrow> bool" where "DIRCT d \<longleftrightarrow> di_mode d AND IFMT = IFDIR"
definition ALLOC :: "buf \<Rightarrow> bool" where "ALLOC d \<longleftrightarrow> di_mode d AND IFMT \<noteq> 0"
definition SPECIAL :: "buf \<Rightarrow> bool" where
  "SPECIAL d \<longleftrightarrow> di_mode d AND IFMT = IFBLK \<or> di_mode d AND IFMT = IFCHR"

definition ftypeok :: "buf \<Rightarrow> bool" where
  "ftypeok d \<longleftrightarrow> di_mode d AND IFMT \<in> {IFDIR, IFREG, IFBLK, IFCHR, IFLNK, IFSOCK, IFIFO}"

text \<open>The inode at an offset of the inode buffer, as it is now.\<close>

definition dinode :: "nat \<Rightarrow> buf ck" where
  "dinode dp = andthen (data_of Inoblk) (\<lambda>b. ret (\<lambda>i. if i < 128 then b (dp + i) else 0))"

definition edit_dinode :: "nat \<Rightarrow> (buf \<Rightarrow> buf) \<Rightarrow> unit ck" where
  "edit_dinode dp f = edit Inoblk (\<lambda>b. blit b dp 128 (f (\<lambda>i. b (dp + i))))"

definition inodirty :: "unit ck" where "inodirty = set_dirty Inoblk"

definition zapino :: "nat \<Rightarrow> unit ck" where
  "zapino dp = edit_dinode dp (\<lambda>_ _. 0)"

definition ginode :: "nat \<Rightarrow> nat ck" where
  "ginode inumber =
     andthen (gets ctx_imax) (\<lambda>imax.
     if inumber < ROOTINO \<or> imax < inumber then errexit
     else
     andthen (gets (\<lambda>s. (fs_inopb s, ctx_startinum s, fs_bsize s))) (\<lambda>(inopb, start, bsize).
     if inopb \<le> 0 then fail UNDEF
     else
     andthen (only_if (start = 0 \<or> inumber < start \<or> start + nat inopb \<le> inumber)
       (andthen (itod inumber) (\<lambda>iblk.
        andthen (getblk Inoblk iblk bsize) (\<lambda>_.
        modify (\<lambda>s. s\<lparr>ctx_startinum := inumber div nat inopb * nat inopb\<rparr>))))) (\<lambda>_.
     ret (inumber mod nat inopb * 128))))"

definition pinode :: "nat \<Rightarrow> unit ck" where
  "pinode ino = andthen (gets ctx_imax) (\<lambda>imax.
     if ino < ROOTINO \<or> imax < ino then skip else andthen (ginode ino) (\<lambda>_. skip))"

definition direrr :: "nat \<Rightarrow> unit ck" where
  "direrr ino =
     andthen pwarn (\<lambda>_.
     andthen (pinode ino) (\<lambda>_.
     andthen (gets ctx_imax) (\<lambda>imax.
     if ino < ROOTINO \<or> imax < ino then pfatal
     else andthen (ginode ino) (\<lambda>_. pfatal))))"

definition dofix :: "inodesc \<Rightarrow> (bool \<times> inodesc) ck" where
  "dofix idesc =
     (case id_fix idesc of
        DONTKNOW \<Rightarrow>
          andthen (if id_type idesc = DATA then direrr (id_number idesc) else pwarn) (\<lambda>_.
          andthen preen_or_reply (\<lambda>yes.
          ret (yes, idesc\<lparr>id_fix := (if yes then FIX else NOFIX)\<rparr>)))
      | FIX \<Rightarrow> ret (True, idesc)
      | NOFIX \<Rightarrow> ret (False, idesc))"

definition statemap :: "nat \<Rightarrow> istate ck" where
  "statemap ino = gets (\<lambda>s. ctx_statemap s ino)"

definition set_statemap :: "nat \<Rightarrow> istate \<Rightarrow> unit ck" where
  "set_statemap ino st = modify (\<lambda>s. s\<lparr>ctx_statemap := (ctx_statemap s)(ino := st)\<rparr>)"

definition add_lncnt :: "nat \<Rightarrow> u16 \<Rightarrow> unit ck" where
  "add_lncnt ino d = modify (\<lambda>s. s\<lparr>ctx_lncntp := (ctx_lncntp s)(ino := ctx_lncntp s ino + d)\<rparr>)"

definition blkerr :: "nat \<Rightarrow> unit ck" where
  "blkerr ino =
     andthen pfatal (\<lambda>_.
     andthen (statemap ino) (\<lambda>st. case st of
       FSTATE \<Rightarrow> set_statemap ino FCLEAR
     | DSTATE \<Rightarrow> set_statemap ino DCLEAR
     | FCLEAR \<Rightarrow> skip
     | DCLEAR \<Rightarrow> skip
     | _ \<Rightarrow> errexit))"

section \<open>The map of blocks\<close>

definition in_map :: "int \<Rightarrow> fsck_ctx \<Rightarrow> bool" where
  "in_map blk s \<longleftrightarrow> 0 \<le> blk \<and> blk div 8 < ctx_bmapsz s"

definition getbmap :: "int \<Rightarrow> bool ck" where
  "getbmap blk = (\<lambda>s. if in_map blk s then (Inr (free_bit (ctx_blockmap s) 0 (nat blk)), s) else (Inl UNDEF, s))"

definition setbmap :: "int \<Rightarrow> unit ck" where
  "setbmap blk = (\<lambda>s. if in_map blk s
     then (Inr (), s\<lparr>ctx_blockmap := set_bit8 0 (nat blk) (ctx_blockmap s)\<rparr>) else (Inl UNDEF, s))"

definition clrbmap :: "int \<Rightarrow> unit ck" where
  "clrbmap blk = (\<lambda>s. if in_map blk s
     then (Inr (), s\<lparr>ctx_blockmap := clear_bit 0 (nat blk) (ctx_blockmap s)\<rparr>) else (Inl UNDEF, s))"

text \<open>Whether a run of fragments lies outside the part of a group that holds data.\<close>

definition outrange :: "int \<Rightarrow> int \<Rightarrow> bool ck" where
  "outrange blk cnt =
     andthen (gets (\<lambda>s. (ctx_fs_maxblock s, fs_fpg s))) (\<lambda>(fmax, fpg).
     if fmax < s32 (blk + cnt) then ret True
     else
     andthen (c_div blk fpg) (\<lambda>c.
     gets (\<lambda>s. if blk < cgdmin c s then cgsblock c s < s32 (blk + cnt)
       else cgbase (c + 1) s < s32 (blk + cnt))))"

text \<open>\<open>allocblk\<close>: the test of the fragments behind the first, up to the first that is taken.\<close>

fun taken_from :: "int \<Rightarrow> nat \<Rightarrow> nat \<Rightarrow> nat ck" where
  "taken_from blk k 0 = ret k"
| "taken_from blk k (Suc n) = andthen (getbmap (blk + int k)) (\<lambda>taken.
     if taken then ret k else taken_from blk (k + 1) n)"

primrec set_run :: "int \<Rightarrow> nat \<Rightarrow> unit ck" where
  "set_run blk 0 = skip"
| "set_run blk (Suc n) = andthen (setbmap blk) (\<lambda>_. set_run (blk + 1) n)"

text \<open>The positions in the block at \<open>i\<close>; \<open>None\<close> when it has no room.\<close>

function alloc_in_block :: "int \<Rightarrow> nat \<Rightarrow> nat \<Rightarrow> nat \<Rightarrow> int option ck" where
  "alloc_in_block i frag frags j =
     (if j + frags \<le> frag then
        andthen (getbmap (i + int j)) (\<lambda>taken.
        if taken then alloc_in_block i frag frags (j + 1)
        else
        andthen (taken_from (i + int j) 1 (frags - 1)) (\<lambda>k.
        if k < frags then alloc_in_block i frag frags (j + k + 1)
        else
        andthen (set_run (i + int j) frags) (\<lambda>_.
        andthen (modify (\<lambda>s. s\<lparr>ctx_n_blks := s32 (ctx_n_blks s + int frags)\<rparr>)) (\<lambda>_.
        ret (Some (i + int j))))))
      else ret None)"
  by pat_completeness auto
termination
  by (relation "measure (\<lambda>(i, frag, frags, j). frag + 1 - j)") auto

declare alloc_in_block.simps [simp del]

text \<open>The blocks are at the multiples of \<open>frag\<close> below \<open>fmax - frag\<close>.\<close>

primrec alloc_loop :: "nat \<Rightarrow> nat \<Rightarrow> int list \<Rightarrow> int ck" where
  "alloc_loop frag frags [] = ret 0"
| "alloc_loop frag frags (i # is) = andthen (alloc_in_block i frag frags 0) (\<lambda>r. case r of
     Some blk \<Rightarrow> ret blk | None \<Rightarrow> alloc_loop frag frags is)"

definition block_starts :: "int \<Rightarrow> int \<Rightarrow> int list" where
  "block_starts frag fmax = map (\<lambda>n. int n * frag) [0..<nat ((fmax - 1) div frag)]"

definition allocblk :: "int \<Rightarrow> int ck" where
  "allocblk frags =
     andthen (gets (\<lambda>s. (fs_frag s, ctx_fs_maxblock s))) (\<lambda>(frag, fmax).
     if frags \<le> 0 \<or> frag < frags then ret 0
     else alloc_loop (nat frag) (nat frags) (block_starts frag fmax))"

section \<open>What the passes do with a run of fragments\<close>

text \<open>
  \<open>pass1check\<close>: the fragments are marked in the map; one that is marked already goes to the list of
  duplicates, behind \<open>muldup\<close>, and the first time also moves \<open>muldup\<close>.
\<close>

definition add_dup :: "int \<Rightarrow> unit ck" where
  "add_dup blkno = modify (\<lambda>s. case ctx_muldup s of
     None \<Rightarrow> s\<lparr>ctx_duplist := [blkno], ctx_muldup := Some 0\<rparr>
   | Some m \<Rightarrow>
     (let ds = take (m + 1) (ctx_duplist s) @ blkno # drop (m + 1) (ctx_duplist s) in
      s\<lparr>ctx_duplist := ds, ctx_muldup := (if blkno \<in> set (take (m + 1) ds) then Some m else Some (m + 1))\<rparr>))"

definition MAXDUP :: int where "MAXDUP = 10"
definition MAXBAD :: int where "MAXBAD = 10"

definition go_on_or_exit :: "unit ck" where
  "go_on_or_exit = andthen preen_or_reply (\<lambda>go. if go then skip else errexit)"

primrec pass1_frags :: "bool \<Rightarrow> nat \<Rightarrow> int \<Rightarrow> inodesc \<Rightarrow> int \<Rightarrow> (int \<times> inodesc) ck" where
  "pass1_frags anyout 0 blkno idesc res = ret (res, idesc)"
| "pass1_frags anyout (Suc n) blkno idesc res =
     (let counted = idesc\<lparr>id_entryno := id_entryno idesc + 1\<rparr>;
          next_frag = pass1_frags anyout n (blkno + 1) counted in
      andthen (if anyout then outrange blkno 1 else ret False) (\<lambda>out.
      if out then next_frag SKIP
      else
      andthen (getbmap blkno) (\<lambda>used.
      if \<not> used then
        andthen (modify (\<lambda>s. s\<lparr>ctx_n_blks := ctx_n_blks s + 1\<rparr>)) (\<lambda>_.
        andthen (setbmap blkno) (\<lambda>_. next_frag res))
      else
      andthen (blkerr (id_number idesc)) (\<lambda>_.
      andthen (modify (\<lambda>s. s\<lparr>ctx_dupblk := ctx_dupblk s + 1\<rparr>)) (\<lambda>_.
      andthen (gets ctx_dupblk) (\<lambda>dupblk.
      if MAXDUP \<le> dupblk then
        andthen pwarn (\<lambda>_. andthen go_on_or_exit (\<lambda>_. ret (STOP, idesc)))
      else
      andthen (add_dup blkno) (\<lambda>_. next_frag res)))))))"

definition pass1check :: caller where
  "pass1check idesc =
     (let blkno = id_blkno idesc in
      andthen (outrange blkno (id_numfrags idesc)) (\<lambda>anyout.
      andthen (if anyout then
          andthen (blkerr (id_number idesc)) (\<lambda>_.
          andthen (modify (\<lambda>s. s\<lparr>ctx_badblk := ctx_badblk s + 1\<rparr>)) (\<lambda>_.
          andthen (gets ctx_badblk) (\<lambda>badblk.
          if MAXBAD \<le> badblk
          then andthen pwarn (\<lambda>_. andthen go_on_or_exit (\<lambda>_. ret True))
          else ret False)))
        else ret False) (\<lambda>stop.
      if stop then ret (STOP, idesc)
      else pass1_frags anyout (nat (id_numfrags idesc)) blkno idesc KEEPON)))"

text \<open>
  \<open>pass1bcheck\<close>: every fragment that is in the list from \<open>duphead\<close> to \<open>muldup\<close> marks its inode, and
  moves in front of \<open>duphead\<close>.
\<close>

primrec pass1b_list :: "nat \<Rightarrow> int \<Rightarrow> nat list \<Rightarrow> unit ck" where
  "pass1b_list ino blkno [] = skip"
| "pass1b_list ino blkno (i # is) =
     andthen (gets (\<lambda>s. (ctx_duplist s, ctx_duphead s))) (\<lambda>(ds, h).
     if ds ! i \<noteq> blkno then pass1b_list ino blkno is
     else if length ds \<le> h then fail UNDEF
     else
     andthen (blkerr ino) (\<lambda>_.
     andthen (modify (\<lambda>s. s\<lparr>ctx_duplist := ds[i := ds ! h, h := blkno], ctx_duphead := h + 1\<rparr>)) (\<lambda>_.
     pass1b_list ino blkno is)))"

primrec pass1b_frags :: "nat \<Rightarrow> int \<Rightarrow> inodesc \<Rightarrow> int \<Rightarrow> (int \<times> inodesc) ck" where
  "pass1b_frags 0 blkno idesc res = ret (res, idesc)"
| "pass1b_frags (Suc n) blkno idesc res =
     andthen (outrange blkno 1) (\<lambda>out.
     andthen (gets (\<lambda>s. [ctx_duphead s..<(case ctx_muldup s of None \<Rightarrow> length (ctx_duplist s)
        | Some m \<Rightarrow> if ctx_duphead s \<le> m then m + 1 else length (ctx_duplist s))])) (\<lambda>positions.
     andthen (pass1b_list (id_number idesc) blkno positions) (\<lambda>_.
     andthen (gets (\<lambda>s. case ctx_muldup s of None \<Rightarrow> True | Some m \<Rightarrow> ctx_duphead s = m + 1)) (\<lambda>finished.
     if finished then ret (STOP, idesc)
     else pass1b_frags n (blkno + 1) idesc (if out then SKIP else res)))))"

definition pass1bcheck :: caller where
  "pass1bcheck idesc = pass1b_frags (nat (id_numfrags idesc)) (id_blkno idesc) idesc KEEPON"

text \<open>
  \<open>pass4check\<close>: a fragment in the list of duplicates leaves the list, any other the map. The entry
  takes the value of the head of the list, which goes.
\<close>

definition remove_dup :: "int \<Rightarrow> int list \<Rightarrow> int list option" where
  "remove_dup blkno ds = (if blkno \<in> set ds
     then Some (tl (ds[length (takeWhile (\<lambda>d. d \<noteq> blkno) ds) := hd ds])) else None)"

primrec pass4_frags :: "nat \<Rightarrow> int \<Rightarrow> int \<Rightarrow> int ck" where
  "pass4_frags 0 blkno res = ret res"
| "pass4_frags (Suc n) blkno res =
     andthen (outrange blkno 1) (\<lambda>out.
     if out then pass4_frags n (blkno + 1) SKIP
     else
     andthen (getbmap blkno) (\<lambda>used.
     if \<not> used then pass4_frags n (blkno + 1) res
     else
     andthen (gets ctx_duplist) (\<lambda>ds. case remove_dup blkno ds of
       Some ds \<Rightarrow>
         andthen (modify (\<lambda>s. s\<lparr>ctx_duplist := ds\<rparr>)) (\<lambda>_. pass4_frags n (blkno + 1) res)
     | None \<Rightarrow>
         andthen (clrbmap blkno) (\<lambda>_.
         andthen (modify (\<lambda>s. s\<lparr>ctx_n_blks := ctx_n_blks s - 1\<rparr>)) (\<lambda>_.
         pass4_frags n (blkno + 1) res)))))"

definition pass4check :: caller where
  "pass4check idesc = andthen (pass4_frags (nat (id_numfrags idesc)) (id_blkno idesc) KEEPON)
     (\<lambda>res. ret (res, idesc))"

definition freeblk :: "int \<Rightarrow> int \<Rightarrow> unit ck" where
  "freeblk blkno frags = andthen (pass4_frags (nat frags) blkno KEEPON) (\<lambda>_. skip)"

section \<open>Directories\<close>

definition dirent_ino :: "buf \<Rightarrow> nat \<Rightarrow> nat" where "dirent_ino b p = unat (get32 b p)"
definition dirent_reclen :: "buf \<Rightarrow> nat \<Rightarrow> int" where "dirent_reclen b p = uint (get16 b (p + 4))"
definition dirent_namlen :: "buf \<Rightarrow> nat \<Rightarrow> nat" where "dirent_namlen b p = unat (get16 b (p + 6))"

text \<open>\<open>DIRSIZ\<close> of an entry with a name of the given length.\<close>

definition DIRSIZ :: "nat \<Rightarrow> int" where
  "DIRSIZ nlen = 8 + ((int nlen + 1 + 3) AND NOT 3)"

text \<open>A C string in the buffer; no name is longer than the directory block.\<close>

definition cstr :: "buf \<Rightarrow> nat \<Rightarrow> u8 list" where
  "cstr b p = takeWhile (\<lambda>c. c \<noteq> 0) (list_of b p 1016)"

definition spaceleft :: "inodesc \<Rightarrow> int" where
  "spaceleft idesc = 1024 - id_loc idesc smod 1024"

definition dircheck :: "nat \<Rightarrow> inodesc \<Rightarrow> buf \<Rightarrow> nat \<Rightarrow> bool" where
  "dircheck imax idesc b p \<longleftrightarrow>
     (let sz = DIRSIZ (dirent_namlen b p); reclen = dirent_reclen b p; nlen = dirent_namlen b p in
      dirent_ino b p < imax \<and> reclen \<noteq> 0 \<and> reclen \<le> spaceleft idesc \<and> reclen AND 3 = 0 \<and>
      sz \<le> reclen \<and> sz \<le> id_filesize idesc \<and> nlen \<le> 255 \<and>
      (dirent_ino b p = 0 \<or>
       list_all (\<lambda>i. b (p + 8 + i) \<noteq> 0 \<and> b (p + 8 + i) AND 0x80 = 0) [0..<nlen] \<and>
       b (p + 8 + nlen) = 0))"

definition block_bytes :: "inodesc \<Rightarrow> int ck" where
  "block_bytes idesc = gets (\<lambda>s. s32 (id_numfrags idesc * fs_fsize s))"

text \<open>The entry a corrupt chunk of the directory is replaced with.\<close>

definition empty_chunk :: "nat \<Rightarrow> buf \<Rightarrow> buf" where
  "empty_chunk p b = (put16 (put32 (put16 b (p + 4) 1024) p 0) (p + 6) 0)(p + 8 := 0)"

definition dirent_fix :: "inodesc \<Rightarrow> inodesc ck" where
  "dirent_fix idesc = andthen (dofix idesc) (\<lambda>(yes, idesc).
     andthen (only_if yes (set_dirty Fileblk)) (\<lambda>_. ret idesc))"

text \<open>The entry at \<open>id_loc\<close>; an entry behind it that is not valid is added to it.\<close>

definition next_entry :: "inodesc \<Rightarrow> int \<Rightarrow> (nat option \<times> inodesc) ck" where
  "next_entry idesc blksiz =
     (if id_filesize idesc \<le> 0 \<or> blksiz \<le> id_loc idesc then ret (None, idesc)
      else
      andthen (data_of Fileblk) (\<lambda>b.
      let dp = nat (id_loc idesc); reclen = dirent_reclen b dp;
          idesc = idesc\<lparr>id_loc := id_loc idesc + reclen, id_filesize := id_filesize idesc - reclen\<rparr> in
      if id_loc idesc smod 1024 = 0 then ret (Some dp, idesc)
      else
      andthen (gets ctx_imax) (\<lambda>imax.
      if id_loc idesc < blksiz \<and> 0 < id_filesize idesc \<and> \<not> dircheck imax idesc b (nat (id_loc idesc))
      then
        let left = spaceleft idesc;
            idesc = idesc\<lparr>id_loc := id_loc idesc + left, id_filesize := id_filesize idesc - left\<rparr> in
        andthen (edit Fileblk (\<lambda>b. put16 b (dp + 4) (of_int (dirent_reclen b dp + left)))) (\<lambda>_.
        andthen (dirent_fix idesc) (\<lambda>idesc.
        ret (Some dp, idesc)))
      else ret (Some dp, idesc))))"

definition fsck_readdir :: "inodesc \<Rightarrow> (nat option \<times> inodesc) ck" where
  "fsck_readdir idesc =
     andthen (block_bytes idesc) (\<lambda>blksiz.
     andthen (getblk Fileblk (id_blkno idesc) blksiz) (\<lambda>_.
     andthen (gets (\<lambda>s. (b_errs (ctx_fileblk s), b_data (ctx_fileblk s), ctx_imax s))) (\<lambda>(errs, b, imax).
     if errs \<noteq> 0 then ret (None, idesc\<lparr>id_filesize := id_filesize idesc - (blksiz - id_loc idesc)\<rparr>)
     else
     let dp = nat (id_loc idesc) in
     if id_loc idesc smod 1024 = 0 \<and> 0 < id_filesize idesc \<and> id_loc idesc < blksiz \<and>
        \<not> dircheck imax idesc b dp
     then
       let idesc = idesc\<lparr>id_loc := id_loc idesc + 1024, id_filesize := id_filesize idesc - 1024\<rparr> in
       andthen (edit Fileblk (empty_chunk dp)) (\<lambda>_.
       andthen (dirent_fix idesc) (\<lambda>idesc.
       ret (Some dp, idesc)))
     else next_entry idesc blksiz)))"

text \<open>An altered entry goes back to the buffer, which is read again if it holds another block by now.\<close>

definition write_entry :: "int \<Rightarrow> nat \<Rightarrow> nat \<Rightarrow> int \<Rightarrow> inodesc \<Rightarrow> int ck" where
  "write_entry blksiz dp dsize n after =
     (if has n ALTERED
      then
        andthen (getblk Fileblk (id_blkno after) blksiz) (\<lambda>_.
        andthen (gets (\<lambda>s. b_errs (ctx_fileblk s))) (\<lambda>errs.
        if errs \<noteq> 0 then ret (n AND NOT ALTERED)
        else
        andthen (edit Fileblk (\<lambda>c. blit c dp dsize (id_dirp after))) (\<lambda>_.
        andthen (set_dirty Fileblk) (\<lambda>_.
        andthen (set_dirty Sblk) (\<lambda>_. ret n)))))
      else ret n)"

text \<open>
  The loop of \<open>dirscan\<close>: the function gets a copy of the entry, and what it changes goes back to the
  buffer. An entry that does not advance \<open>id_loc\<close> keeps the loop running for ever: \<open>UNDEF\<close>.
\<close>

function dirscan_loop :: "caller \<Rightarrow> int \<Rightarrow> inodesc \<Rightarrow> (int \<times> inodesc) ck" where
  "dirscan_loop call blksiz idesc s =
     (case fsck_readdir idesc s of
        (Inl e, s) \<Rightarrow> (Inl e, s)
      | (Inr (None, idesc), s) \<Rightarrow> (Inr ((if 0 < id_filesize idesc then KEEPON else STOP), idesc), s)
      | (Inr (Some dp, scanned), s) \<Rightarrow>
        let b = b_data (ctx_fileblk s); dsize = nat (dirent_reclen b dp) in
        if 1024 < dsize then (Inl UNDEF, s)
        else case call (scanned\<lparr>id_dirp := clip dsize (\<lambda>i. b (dp + i))\<rparr>) s of
          (Inl e, s) \<Rightarrow> (Inl e, s)
        | (Inr (n, after), s) \<Rightarrow>
          (case write_entry blksiz dp dsize n after s of
             (Inl e, s) \<Rightarrow> (Inl e, s)
           | (Inr n, s) \<Rightarrow>
             if has n STOP then (Inr (n, after), s)
             else if id_loc after \<le> id_loc idesc \<or> blksiz \<le> id_loc idesc then (Inl UNDEF, s)
             else dirscan_loop call blksiz after s))"
  by pat_completeness auto
termination
  by (relation "measure (\<lambda>(call, blksiz, idesc, s). nat (blksiz - id_loc idesc))")
    (auto split: if_splits)

declare dirscan_loop.simps [simp del]

definition dirscan :: "caller \<Rightarrow> caller" where
  "dirscan call idesc =
     (if id_type idesc \<noteq> DATA then errexit
      else
      let idesc = (if id_entryno idesc = 0 \<and> id_filesize idesc AND 1023 \<noteq> 0
        then idesc\<lparr>id_filesize := (id_filesize idesc + 1023) sdiv 1024 * 1024\<rparr> else idesc) in
      andthen (block_bytes idesc) (\<lambda>blksiz.
      andthen (outrange (id_blkno idesc) (id_numfrags idesc)) (\<lambda>out.
      if out then ret (SKIP, idesc\<lparr>id_filesize := id_filesize idesc - blksiz\<rparr>)
      else dirscan_loop call blksiz (idesc\<lparr>id_loc := 0\<rparr>))))"

section \<open>The blocks of an inode\<close>

text \<open>The loop over the pointers of an indirect block, with their numbers from 1.\<close>

primrec pointer_loop :: "(nat \<Rightarrow> caller) \<Rightarrow> (nat \<times> int) list \<Rightarrow> caller" where
  "pointer_loop f [] idesc = ret (KEEPON, idesc)"
| "pointer_loop f (ia # rest) idesc =
     (if snd ia = 0 then pointer_loop f rest idesc
      else andthen (f (fst ia) (idesc\<lparr>id_blkno := snd ia\<rparr>)) (\<lambda>(n, idesc).
        if has n STOP then ret (n, idesc) else pointer_loop f rest idesc))"

text \<open>The pointers behind the end of the file, which pass 1 offers to clear.\<close>

primrec clear_tail :: "nat list \<Rightarrow> inodesc \<Rightarrow> bufarea \<Rightarrow> (bufarea \<times> inodesc) ck" where
  "clear_tail [] idesc ib_area = ret (ib_area, idesc)"
| "clear_tail (i # is) idesc ib_area =
     (if get32 (b_data ib_area) (i * 4) = 0 then clear_tail is idesc ib_area
      else andthen (dofix idesc) (\<lambda>(yes, idesc).
        clear_tail is idesc (if yes
          then ib_area\<lparr>b_data := put32 (b_data ib_area) (i * 4) 0, b_dirty := True\<rparr> else ib_area)))"

definition empty_area :: "buftype \<Rightarrow> bufarea" where
  "empty_area ty = \<lparr>b_bno = -1, b_size = 0, b_errs = 0, b_data = (\<lambda>_. 0), b_dirty = False,
     b_swapped = False, b_type = ty\<rparr>"

primrec iblock :: "caller \<Rightarrow> nat \<Rightarrow> inodesc \<Rightarrow> int \<Rightarrow> (int \<times> inodesc) ck" where
  "iblock call 0 idesc isiz = fail UNDEF"
| "iblock call (Suc lev) idesc isiz =
     (let func = (if id_type idesc = ADDR then call else dirscan call) in
      andthen (if id_type idesc = ADDR then call idesc else ret (KEEPON, idesc)) (\<lambda>(n, idesc).
      if \<not> has n KEEPON then ret (n, idesc)
      else
      andthen (outrange (id_blkno idesc) (id_numfrags idesc)) (\<lambda>out.
      if out then ret (SKIP, idesc)
      else
      andthen (gets (\<lambda>s. (fs_bsize s, fs_nindir s))) (\<lambda>(bsize, nindir).
      andthen (getblk_area False (empty_area BT_INDIR) (id_blkno idesc) bsize) (\<lambda>area.
      if b_errs area \<noteq> 0 then ret (SKIP, idesc)
      else
      let sizepb = ((\<lambda>x. s32 (x * nindir)) ^^ lev) bsize in
      andthen (c_div isiz sizepb) (\<lambda>q.
      let nif = min (s32 (q + 1)) nindir in
      if 2048 < nindir then fail UNDEF
      else
      andthen (if id_func idesc = Pass1check \<and> nif < nindir
        then
          andthen (clear_tail [nat nif..<nat nindir] idesc area) (\<lambda>(area, idesc).
          andthen (flush_area False area) (\<lambda>area. ret (area, idesc)))
        else ret (area, idesc)) (\<lambda>(area, idesc).
      pointer_loop (\<lambda>i idesc. if 0 < lev then iblock call lev idesc (isiz - s32 (int i * sizepb))
          else func idesc)
        (map (\<lambda>i. (i + 1, sint (get32 (b_data area) (i * 4)))) [0..<nat nif]) idesc)))))))"

text \<open>The direct blocks; \<open>Some\<close> is an early return.\<close>

primrec ck_direct :: "caller \<Rightarrow> buf \<Rightarrow> nat list \<Rightarrow> int \<Rightarrow> inodesc \<Rightarrow> (int option \<times> inodesc) ck" where
  "ck_direct call d [] ndb idesc = ret (None, idesc)"
| "ck_direct call d (i # is) ndb idesc =
     (let ndb = ndb - 1 in
      andthen (gets (\<lambda>s. (blkoff (di_size d) s, fs_frag s))) (\<lambda>(offset, frag).
      andthen (if ndb = 0 \<and> offset \<noteq> 0
        then andthen (gets (fragroundup offset)) numfrags else ret frag) (\<lambda>nfrags.
      let idesc = idesc\<lparr>id_numfrags := nfrags\<rparr> in
      if di_db d i = 0 then ck_direct call d is ndb idesc
      else
      let idesc = idesc\<lparr>id_blkno := di_db d i\<rparr> in
      andthen (if id_type idesc = ADDR then call idesc else dirscan call idesc) (\<lambda>(n, idesc).
      if has n STOP then ret (Some n, idesc) else ck_direct call d is ndb idesc))))"

primrec ck_indirect :: "caller \<Rightarrow> buf \<Rightarrow> int \<Rightarrow> nat list \<Rightarrow> inodesc \<Rightarrow> (int \<times> inodesc) ck" where
  "ck_indirect call d isiz [] idesc = ret (KEEPON, idesc)"
| "ck_indirect call d isiz (n # ns) idesc =
     (if di_ib d (n - 1) = 0 then ck_indirect call d isiz ns idesc
      else andthen (iblock call n (idesc\<lparr>id_blkno := di_ib d (n - 1)\<rparr>) isiz) (\<lambda>(flags, idesc).
        if has flags STOP then ret (flags, idesc) else ck_indirect call d isiz ns idesc))"

definition ckinode :: "caller \<Rightarrow> nat \<Rightarrow> inodesc \<Rightarrow> (int \<times> inodesc) ck" where
  "ckinode call dp idesc =
     andthen (dinode dp) (\<lambda>d.
     let idesc = idesc\<lparr>id_fix := DONTKNOW, id_entryno := 0, id_filesize := di_size d\<rparr> in
     if SPECIAL d then ret (KEEPON, idesc)
     else
     andthen (gets (\<lambda>s. (fs_bsize s, fs_frag s))) (\<lambda>(bsize, frag).
     andthen (howmany (di_size d) bsize) (\<lambda>ndb.
     andthen (ck_direct call d [0..<NDADDR] ndb idesc) (\<lambda>(r, idesc).
     case r of Some n \<Rightarrow> ret (n, idesc)
     | None \<Rightarrow> ck_indirect call d (s32 (di_size d - s32 (bsize * 12))) [1, 2, 3]
         (idesc\<lparr>id_numfrags := frag\<rparr>)))))"

end
