(* ===== verification/FsckNames.thy ===== *)
theory FsckNames
  imports FsckScan
begin

text \<open>
  The check of path names and the repair of directories (\<open>src/src/fsck\<close>: \<open>pass2.c\<close>, \<open>dir_scan.c\<close>,
  \<open>dir_repair.c\<close>, \<open>inode_ops.c\<close>). The descent into the directories is a recursion through function
  pointers; here \<open>descend\<close> is an argument of \<open>pass2check\<close>, and the knot is tied by \<open>call_to\<close> with a
  bound on the depth. Bytes of a prototype entry that the code does not set are 0.
\<close>

section \<open>Functions on an entry\<close>

definition findname :: caller where
  "findname idesc =
     (let d = id_dirp idesc in
      ret (if dirent_ino d 0 \<noteq> id_parent idesc then (KEEPON, idesc)
        else (STOP, idesc\<lparr>id_name := takeWhile (\<lambda>c. c \<noteq> 0) (list_of d 8 (dirent_namlen d 0 + 1))\<rparr>)))"

definition findino :: caller where
  "findino idesc =
     (let d = id_dirp idesc; ino = dirent_ino d 0 in
      andthen (gets ctx_imax) (\<lambda>imax.
      ret (if ino \<noteq> 0 \<and> cstr d 8 = id_name idesc \<and> ROOTINO \<le> ino \<and> ino \<le> imax
        then (STOP, idesc\<lparr>id_parent := ino\<rparr>) else (KEEPON, idesc))))"

definition put_entry :: "nat \<Rightarrow> nat \<Rightarrow> int \<Rightarrow> u8 list \<Rightarrow> buf \<Rightarrow> buf" where
  "put_entry p ino rl name b =
     blit (put16 (put16 (put32 b p (of_nat ino)) (p + 4) (of_int rl)) (p + 6) (of_nat (length name)))
       (p + 8) (length name + 1) (bytes_of name)"

text \<open>\<open>mkentry\<close> asks for the room of a name of 11 bytes.\<close>

definition mkentry :: caller where
  "mkentry idesc =
     (let d = id_dirp idesc;
          newlen = DIRSIZ 11;
          oldlen = (if dirent_ino d 0 \<noteq> 0 then DIRSIZ (dirent_namlen d 0) else 0) in
      if dirent_reclen d 0 - oldlen < newlen then ret (KEEPON, idesc)
      else
      let left = dirent_reclen d 0 - oldlen;
          d = put16 d 4 (of_int oldlen);
          d = put_entry (nat oldlen) (id_parent idesc) left (id_name idesc) d in
      ret (ALTERED + STOP, idesc\<lparr>id_dirp := d\<rparr>))"

definition chgino :: caller where
  "chgino idesc =
     (let d = id_dirp idesc; n = dirent_namlen d 0 + 1 in
      ret (if list_of d 8 n \<noteq> list_of (bytes_of (id_name idesc)) 0 n then (KEEPON, idesc)
        else (ALTERED + STOP, idesc\<lparr>id_dirp := put32 d 0 (of_nat (id_parent idesc))\<rparr>)))"

text \<open>The functions that do not descend.\<close>

definition call_flat :: caller where
  "call_flat idesc =
     (case id_func idesc of
        Pass1check \<Rightarrow> pass1check idesc
      | Pass1bcheck \<Rightarrow> pass1bcheck idesc
      | Pass4check \<Rightarrow> pass4check idesc
      | Findname \<Rightarrow> findname idesc
      | Findino \<Rightarrow> findino idesc
      | Mkentry \<Rightarrow> mkentry idesc
      | Chgino \<Rightarrow> chgino idesc
      | Pass2check \<Rightarrow> fail UNDEF)"

section \<open>The path name of a directory\<close>

definition BUFSIZ :: nat where "BUFSIZ = 8192"

text \<open>
  \<open>getpathname\<close> assembles the name from the end of the buffer; \<open>cp\<close> is the position of its first
  byte. Only the traversals and the room left matter here, the name is printed. The walk to the
  root ends when the buffer is full, or where a directory has no entry \<open>..\<close>; with every name it
  takes at least one byte, so that \<open>BUFSIZ\<close> steps are enough.
\<close>

definition dotdot :: "u8 list" where "dotdot = [0x2e, 0x2e]"

primrec path_walk :: "nat \<Rightarrow> nat \<Rightarrow> nat \<Rightarrow> inodesc \<Rightarrow> unit ck" where
  "path_walk 0 cp ino idesc = fail UNDEF"
| "path_walk (Suc fuel) cp ino idesc =
     (if ino = ROOTINO then skip
      else
      andthen (ginode ino) (\<lambda>dp.
      andthen (ckinode call_flat dp (idesc\<lparr>id_number := ino, id_func := Findino, id_name := dotdot\<rparr>))
        (\<lambda>(n, idesc).
      if \<not> has n STOP then skip
      else
      let idesc = idesc\<lparr>id_number := id_parent idesc, id_parent := ino, id_func := Findname\<rparr> in
      andthen (ginode (id_number idesc)) (\<lambda>dp.
      andthen (ckinode call_flat dp idesc) (\<lambda>(n, idesc).
      if \<not> has n STOP \<or> cp < 255 + length (id_name idesc) then skip
      else path_walk fuel (cp - length (id_name idesc) - 1) (id_number idesc) idesc)))))"

text \<open>The only caller passes the same directory twice, so the walk starts at its entry \<open>..\<close>.\<close>

definition getpathname :: "nat \<Rightarrow> unit ck" where
  "getpathname ino =
     andthen (statemap ino) (\<lambda>st.
     if st \<noteq> DSTATE \<and> st \<noteq> DFOUND then skip
     else path_walk BUFSIZ (BUFSIZ - 2) ino (new_inodesc DATA Findino 0))"

section \<open>Checking an entry\<close>

definition dot_name :: "u8 list" where "dot_name = [0x2e]"

definition fix_flag :: "int ck" where
  "fix_flag = andthen reply (\<lambda>yes. ret (if yes then ALTERED else 0))"

text \<open>A prototype copied over an entry: \<open>DIRSIZ\<close> bytes, 12 for both names.\<close>

definition put_proto :: "nat \<Rightarrow> nat \<Rightarrow> int \<Rightarrow> u8 list \<Rightarrow> buf \<Rightarrow> buf" where
  "put_proto p ino rl name b = put_entry p ino rl name (fill b p 12 0)"

text \<open>
  The first entry has to be \<open>.\<close>. The result is the position of \<open>dirp\<close> in the copy of the entry,
  which may have been split, and the fl so far.
\<close>

definition check_dot :: "inodesc \<Rightarrow> (nat \<times> int \<times> inodesc) ck" where
  "check_dot idesc =
     (let d = id_dirp idesc; self = id_number idesc; rl = dirent_reclen d 0 in
      if id_entryno idesc \<noteq> 0 then ret (0, 0, idesc)
      else if dirent_ino d 0 \<noteq> 0 \<and> cstr d 8 = dot_name then
        if dirent_ino d 0 \<noteq> self then
          andthen (direrr self) (\<lambda>_.
          andthen fix_flag (\<lambda>flag.
          ret (0, flag, idesc\<lparr>id_dirp := put32 d 0 (of_nat self)\<rparr>)))
        else ret (0, 0, idesc)
      else
      andthen (direrr self) (\<lambda>_.
      if dirent_ino d 0 \<noteq> 0 \<and> cstr d 8 \<noteq> dotdot then andthen pfatal (\<lambda>_. ret (0, 0, idesc))
      else if rl < 12 then andthen pfatal (\<lambda>_. ret (0, 0, idesc))
      else if rl < 24 then
        andthen fix_flag (\<lambda>flag.
        ret (0, flag, idesc\<lparr>id_dirp := put_proto 0 self rl dot_name d\<rparr>))
      else
        let n = rl - 12;
            d = put_proto 0 self 12 dot_name d;
            d = put16 (fill d 12 (nat n) 0) 16 (of_int n) in
        andthen (add_lncnt self (- 1)) (\<lambda>_.
        andthen fix_flag (\<lambda>flag.
        ret (12, flag, idesc\<lparr>id_dirp := d, id_entryno := id_entryno idesc + 1\<rparr>)))))"

text \<open>The second entry has to be \<open>..\<close>, taken from the rest of the first if that is long enough.\<close>

definition check_dotdot :: "nat \<Rightarrow> int \<Rightarrow> inodesc \<Rightarrow> (nat \<times> int \<times> inodesc) ck" where
  "check_dotdot p fl idesc =
     (if 1 < id_entryno idesc then ret (p, fl, idesc)
      else
      let d = id_dirp idesc; n = DIRSIZ (dirent_namlen d p); first = (id_entryno idesc = 0) in
      if first \<and> dirent_reclen d p < n + 12 then ret (p, fl, idesc)
      else
      andthen (if first
        then
          let q = p + nat n;
              d' = put16 (fill (put16 d (p + 4) (of_int n)) q (nat n) 0) (q + 4) (of_int n) in
          andthen (add_lncnt (dirent_ino d p) (- 1)) (\<lambda>_.
          ret (q, idesc\<lparr>id_dirp := d', id_entryno := id_entryno idesc + 1\<rparr>))
        else ret (p, idesc)) (\<lambda>(p, idesc).
      let d = id_dirp idesc; parent = id_parent idesc; rl = dirent_reclen d p in
      if dirent_ino d p \<noteq> 0 \<and> cstr d (p + 8) = dotdot then
        if dirent_ino d p \<noteq> parent then
          andthen (direrr (id_number idesc)) (\<lambda>_.
          andthen fix_flag (\<lambda>flag.
          ret (p, fl OR flag, idesc\<lparr>id_dirp := put32 d p (of_nat parent)\<rparr>)))
        else ret (p, fl, idesc)
      else
      andthen (direrr (id_number idesc)) (\<lambda>_.
      if dirent_ino d p \<noteq> 0 \<and> cstr d (p + 8) \<noteq> dot_name then
        andthen pfatal (\<lambda>_. ret (p, fl, idesc))
      else if rl < 12 then andthen pfatal (\<lambda>_. ret (p, fl, idesc))
      else
        andthen fix_flag (\<lambda>flag.
        ret (p, fl OR flag, idesc\<lparr>id_dirp := put_proto p parent rl dotdot d\<rparr>)))))"

text \<open>The inode of an entry: whether the entry is to be removed, whether it was cleared.\<close>

definition check_state :: "(inodesc \<Rightarrow> nat \<Rightarrow> unit ck) \<Rightarrow> inodesc \<Rightarrow> nat \<Rightarrow> istate \<Rightarrow> (bool \<times> bool) ck" where
  "check_state descend idesc ino st =
     (let keep = andthen (add_lncnt ino (- 1)) (\<lambda>_. ret (False, False)) in
      case st of
        USTATE \<Rightarrow> andthen (direrr ino) (\<lambda>_. andthen reply (\<lambda>remove. ret (remove, False)))
      | DFOUND \<Rightarrow>
          if id_entryno idesc \<le> 2 then keep
          else
          andthen (getpathname ino) (\<lambda>_.
          andthen pwarn (\<lambda>_.
          andthen (gets ctx_preen) (\<lambda>preen.
          andthen (if preen then ret False else reply) (\<lambda>remove.
          if remove then ret (True, False) else keep))))
      | FSTATE \<Rightarrow> keep
      | DSTATE \<Rightarrow>
          andthen (descend idesc ino) (\<lambda>_.
          andthen (statemap ino) (\<lambda>st.
          if st = DFOUND then keep
          else if st = DCLEAR then ret (False, True)
          else errexit))
      | _ \<Rightarrow> errexit)"

definition check_inode :: "(inodesc \<Rightarrow> nat \<Rightarrow> unit ck) \<Rightarrow> inodesc \<Rightarrow> nat \<Rightarrow> (bool \<times> bool) ck" where
  "check_inode descend idesc ino =
     andthen (gets ctx_imax) (\<lambda>imax.
     if imax < ino \<or> ino = 0 then
       andthen (direrr ino) (\<lambda>_. andthen reply (\<lambda>remove. ret (remove, False)))
     else
     andthen (statemap ino) (\<lambda>st.
     if st = DCLEAR \<or> st = FCLEAR then
       andthen (direrr ino) (\<lambda>_.
       andthen reply (\<lambda>remove.
       if remove then ret (True, False)
       else
       andthen (ginode ino) (\<lambda>dp.
       andthen (dinode dp) (\<lambda>d.
       let st = (if DIRCT d then DSTATE else FSTATE) in
       andthen (set_statemap ino st) (\<lambda>_.
       check_state descend idesc ino st)))))
     else check_state descend idesc ino st))"

definition clear_entry :: "nat \<Rightarrow> inodesc \<Rightarrow> inodesc" where
  "clear_entry p idesc = idesc\<lparr>id_dirp := put32 (id_dirp idesc) p 0\<rparr>"

definition pass2check :: "(inodesc \<Rightarrow> nat \<Rightarrow> unit ck) \<Rightarrow> caller" where
  "pass2check descend idesc =
     andthen (check_dot idesc) (\<lambda>(p, fl, idesc).
     andthen (check_dotdot p fl idesc) (\<lambda>(p, fl, idesc).
     let d = id_dirp idesc; nlen = dirent_namlen d p; ino = dirent_ino d p in
     if ino = 0 then ret (fl OR KEEPON, idesc)
     else if nlen \<le> 2 \<and> d (p + 8) = 0x2e \<and> 2 \<le> id_entryno idesc \<and> (nlen = 1 \<or> d (p + 9) = 0x2e) then
       andthen (direrr (id_number idesc)) (\<lambda>_.
       andthen fix_flag (\<lambda>flag.
       ret (KEEPON OR fl OR flag, clear_entry p idesc)))
     else
     andthen (gets ctx_pathp) (\<lambda>pathp.
     if BUFSIZ - 2 \<le> pathp + 1 + nlen then errexit
     else
     andthen (modify (\<lambda>s. s\<lparr>ctx_pathp := pathp + 1 + nlen\<rparr>)) (\<lambda>_.
     let idesc = idesc\<lparr>id_entryno := id_entryno idesc + 1\<rparr> in
     andthen (check_inode descend idesc ino) (\<lambda>(remove, cleared).
     andthen (modify (\<lambda>s. s\<lparr>ctx_pathp := pathp\<rparr>)) (\<lambda>_.
     let fl = (if cleared then fl OR ALTERED else fl);
         idesc = (if cleared then clear_entry p idesc else idesc) in
     ret (if remove then (fl OR KEEPON OR ALTERED, clear_entry p idesc)
       else (fl OR KEEPON, idesc))))))))"

end
