(* ===== verification/FsckRepair.thy ===== *)
theory FsckRepair
  imports FsckNames
begin

text \<open>
  Changing inodes and directories (\<open>inode_ops.c\<close>, \<open>dir_repair.c\<close>), and the descent into a directory
  (\<open>dir_scan.c\<close>).
\<close>

section \<open>Inodes\<close>

definition put_size :: "int \<Rightarrow> buf \<Rightarrow> buf" where "put_size v d = put32 d 12 (of_int v)"
definition put_db :: "nat \<Rightarrow> int \<Rightarrow> buf \<Rightarrow> buf" where "put_db i v d = put32 d (40 + i * 4) (of_int v)"
definition put_blocks :: "int \<Rightarrow> buf \<Rightarrow> buf" where "put_blocks v d = put32 d 104 (of_int v)"
definition add_nlink :: "u16 \<Rightarrow> buf \<Rightarrow> buf" where "add_nlink v d = put16 d 2 (di_nlink d + v)"

definition add_files :: "int \<Rightarrow> unit ck" where
  "add_files n = modify (\<lambda>s. s\<lparr>ctx_n_files := ctx_n_files s + n\<rparr>)"

text \<open>Releasing an inode: its blocks leave the map and it is cleared.\<close>

definition drop_inode :: "nat \<Rightarrow> inodesc \<Rightarrow> unit ck" where
  "drop_inode dp idesc =
     andthen (ckinode call_flat dp idesc) (\<lambda>_.
     andthen (zapino dp) (\<lambda>_.
     andthen inodirty (\<lambda>_.
     set_statemap (id_number idesc) USTATE)))"

definition clri :: "inodesc \<Rightarrow> bool \<Rightarrow> unit ck" where
  "clri idesc verbose =
     andthen (ginode (id_number idesc)) (\<lambda>dp.
     andthen (only_if verbose (andthen pwarn (\<lambda>_. pinode (id_number idesc)))) (\<lambda>_.
     andthen preen_or_reply (\<lambda>yes.
     only_if yes (andthen (add_files (- 1)) (\<lambda>_. drop_inode dp idesc)))))"

definition freeino :: "nat \<Rightarrow> unit ck" where
  "freeino ino =
     andthen (ginode ino) (\<lambda>dp.
     andthen (drop_inode dp (new_inodesc ADDR Pass4check ino)) (\<lambda>_.
     add_files (- 1)))"

definition first_unused :: "(nat \<Rightarrow> istate) \<Rightarrow> nat \<Rightarrow> nat \<Rightarrow> nat option" where
  "first_unused st from lim = List.find (\<lambda>i. st i = USTATE) [from..<lim]"

definition host_time :: "u32 ck" where
  "host_time = on_device (\<lambda>_. sys_os time)"

text \<open>The number of the inode, 0 for none.\<close>

definition allocino :: "nat \<Rightarrow> u16 \<Rightarrow> nat ck" where
  "allocino request ty =
     andthen (gets (\<lambda>s. (ctx_statemap s, ctx_imax s))) (\<lambda>(st, imax).
     if request \<noteq> 0 \<and> st request \<noteq> USTATE then ret 0
     else
     case first_unused st (if request = 0 then ROOTINO else request) imax of None \<Rightarrow> ret 0
     | Some ino \<Rightarrow>
       if ty AND IFMT \<notin> {IFDIR, IFREG, IFLNK} then ret 0
       else
       andthen (set_statemap ino (if ty AND IFMT = IFDIR then DSTATE else FSTATE)) (\<lambda>_.
       andthen (ginode ino) (\<lambda>dp.
       andthen (allocblk 1) (\<lambda>blk.
       andthen (edit_dinode dp (put_db 0 blk)) (\<lambda>_.
       if blk = 0 then andthen (set_statemap ino USTATE) (\<lambda>_. ret 0)
       else
       andthen host_time (\<lambda>now.
       andthen (gets (\<lambda>s. (fs_fsize s, fs_nspf s))) (\<lambda>(fsize, nspf).
       andthen (edit_dinode dp (\<lambda>d. put_blocks nspf (put_size fsize
         (put32 (put32 (put32 (put16 d 0 ty) 16 now) 24 now) 32 now)))) (\<lambda>_.
       andthen (add_files 1) (\<lambda>_.
       andthen inodirty (\<lambda>_.
       ret ino))))))))))"

section \<open>Descending into a directory\<close>

definition MINDIRSIZE :: int where "MINDIRSIZE = 24"

text \<open>The directory that is being entered: its length is checked, then its blocks are traversed.\<close>

definition enter_directory :: "caller \<Rightarrow> inodesc \<Rightarrow> nat \<Rightarrow> unit ck" where
  "enter_directory call parent inumber =
     andthen (ginode inumber) (\<lambda>dp.
     andthen (dinode dp) (\<lambda>d.
     if di_size d = 0 then
       andthen pwarn (\<lambda>_.
       andthen (pinode inumber) (\<lambda>_.
       andthen pwarn (\<lambda>_.
       andthen preen_or_reply (\<lambda>yes.
       only_if yes (set_statemap inumber DCLEAR)))))
     else
     andthen (only_if (di_size d < MINDIRSIZE)
       (andthen (direrr inumber) (\<lambda>_.
        andthen (edit_dinode dp (put_size MINDIRSIZE)) (\<lambda>_.
        andthen reply (\<lambda>yes. only_if yes inodirty))))) (\<lambda>_.
     andthen (dinode dp) (\<lambda>d.
     andthen (only_if (di_size d AND 1023 \<noteq> 0)
       (andthen pwarn (\<lambda>_.
        andthen (edit_dinode dp (put_size (s32 (di_size d + 1023) sdiv 1024 * 1024))) (\<lambda>_.
        andthen preen_or_reply (\<lambda>yes. only_if yes inodirty))))) (\<lambda>_.
     andthen (ckinode call dp ((new_inodesc DATA (id_func parent) inumber)\<lparr>id_parent := id_number parent\<rparr>))
       (\<lambda>_. skip))))))"

definition descend_with :: "caller \<Rightarrow> inodesc \<Rightarrow> nat \<Rightarrow> unit ck" where
  "descend_with call parent inumber =
     andthen (statemap inumber) (\<lambda>st.
     if st \<noteq> DSTATE then errexit
     else andthen (set_statemap inumber DFOUND) (\<lambda>_. enter_directory call parent inumber))"

definition call_with :: "(inodesc \<Rightarrow> nat \<Rightarrow> unit ck) \<Rightarrow> caller" where
  "call_with desc idesc = (if id_func idesc = Pass2check then pass2check desc idesc else call_flat idesc)"

text \<open>
  The nesting of descents is bounded by \<open>depth\<close>. A directory is entered in state \<open>DSTATE\<close> only and
  is \<open>DFOUND\<close> while it is scanned, so that the number of inodes is a bound.
\<close>

primrec descend_to :: "nat \<Rightarrow> inodesc \<Rightarrow> nat \<Rightarrow> unit ck" where
  "descend_to 0 parent inumber = fail UNDEF"
| "descend_to (Suc depth) parent inumber = descend_with (call_with (descend_to depth)) parent inumber"

definition descend :: "inodesc \<Rightarrow> nat \<Rightarrow> unit ck" where
  "descend parent inumber = andthen (gets ctx_imax) (\<lambda>imax. descend_to (imax + 2) parent inumber)"

section \<open>Directories\<close>

definition emptydir :: buf where
  "emptydir = put16 (\<lambda>_. 0) 4 1024"

definition dirhead :: "nat \<Rightarrow> nat \<Rightarrow> buf" where
  "dirhead self parent = put_entry 12 parent 1012 dotdot (put_entry 0 self 12 dot_name (\<lambda>_. 0))"

definition chunk_starts :: "int \<Rightarrow> nat list" where
  "chunk_starts sz = map (\<lambda>i. (i + 1) * 1024) [0..<nat ((sz - 1) div 1024)]"

definition fill_chunks :: "int \<Rightarrow> buf \<Rightarrow> buf" where
  "fill_chunks sz b = fold (\<lambda>p b. blit b p 24 emptydir) (chunk_starts sz) b"

text \<open>\<open>dblksize\<close> of the block \<open>lbn\<close> of an inode of the given size.\<close>

definition dblksize :: "int \<Rightarrow> int \<Rightarrow> int ck" where
  "dblksize sz lbn =
     andthen (gets fs_bshift) (\<lambda>n.
     andthen (shift_left (lbn + 1) n) (\<lambda>limit.
     if 12 \<le> lbn \<or> limit \<le> sz then gets fs_bsize
     else gets (\<lambda>s. fragroundup (blkoff sz s) s)))"

definition file_errs :: "nat ck" where
  "file_errs = gets (\<lambda>s. b_errs (ctx_fileblk s))"

text \<open>\<open>expanddir\<close>: the new block, with the first chunk of the last one, goes in front of that.\<close>

definition undo_expand :: "nat \<Rightarrow> nat \<Rightarrow> int \<Rightarrow> bool ck" where
  "undo_expand dp lastbn newblk =
     andthen (gets (\<lambda>s. (fs_bsize s, fs_frag s))) (\<lambda>(bsize, frag).
     andthen NSPB (\<lambda>nspb.
     andthen (edit_dinode dp (\<lambda>d.
       let d = put_db (lastbn + 1) 0 (put_db lastbn (di_db d (lastbn + 1)) d) in
       put_blocks (di_blocks d - nspb) (put_size (di_size d - bsize) d))) (\<lambda>_.
     andthen (freeblk newblk frag) (\<lambda>_.
     ret False))))"

definition expand_blocks :: "nat \<Rightarrow> nat \<Rightarrow> int \<Rightarrow> bool ck" where
  "expand_blocks dp lastbn newblk =
     (let bad = undo_expand dp lastbn newblk in
      andthen (dinode dp) (\<lambda>d.
      andthen (dblksize (di_size d) (int lastbn + 1)) (\<lambda>oldsize.
      andthen (getblk Fileblk (di_db d (lastbn + 1)) oldsize) (\<lambda>_.
      andthen file_errs (\<lambda>errs.
      if errs \<noteq> 0 then bad
      else
      andthen (data_of Fileblk) (\<lambda>firstblk.
      andthen (gets fs_bsize) (\<lambda>bsize.
      andthen (getblk Fileblk newblk bsize) (\<lambda>_.
      andthen file_errs (\<lambda>errs.
      if errs \<noteq> 0 then bad
      else
      andthen (edit Fileblk (\<lambda>b. fill_chunks bsize (blit b 0 1024 firstblk))) (\<lambda>_.
      andthen (set_dirty Fileblk) (\<lambda>_.
      andthen (getblk Fileblk (di_db d (lastbn + 1)) oldsize) (\<lambda>_.
      andthen file_errs (\<lambda>errs.
      if errs \<noteq> 0 then bad
      else
      andthen (edit Fileblk (\<lambda>b. blit b 0 24 emptydir)) (\<lambda>_.
      andthen pwarn (\<lambda>_.
      andthen preen_or_reply (\<lambda>yes.
      if \<not> yes then bad
      else
      andthen (set_dirty Fileblk) (\<lambda>_.
      andthen inodirty (\<lambda>_.
      ret True))))))))))))))))))"

definition expanddir :: "nat \<Rightarrow> bool ck" where
  "expanddir dp =
     andthen (dinode dp) (\<lambda>d.
     andthen (lblkno (di_size d)) (\<lambda>lastbn.
     if 11 \<le> lastbn then ret False
     else if lastbn < 0 then fail UNDEF
     else
     andthen (gets (\<lambda>s. (fs_frag s, fs_bsize s))) (\<lambda>(frag, bsize).
     andthen (allocblk frag) (\<lambda>newblk.
     if newblk = 0 then ret False
     else
     andthen NSPB (\<lambda>nspb.
     let n = nat lastbn in
     andthen (edit_dinode dp (\<lambda>d.
       let d = put_db n newblk (put_db (n + 1) (di_db d n) d) in
       put_blocks (di_blocks d + nspb) (put_size (di_size d + bsize) d))) (\<lambda>_.
     expand_blocks dp n newblk))))))"

definition makeentry :: "nat \<Rightarrow> nat \<Rightarrow> u8 list \<Rightarrow> bool ck" where
  "makeentry parent ino name =
     andthen (gets ctx_imax) (\<lambda>imax.
     if parent < ROOTINO \<or> imax \<le> parent \<or> ino < ROOTINO \<or> imax \<le> ino then ret False
     else
     let idesc = (new_inodesc DATA Mkentry parent)\<lparr>id_parent := ino, id_name := name\<rparr> in
     andthen (ginode parent) (\<lambda>dp.
     andthen (dinode dp) (\<lambda>d.
     andthen (only_if (di_size d smod 1024 \<noteq> 0)
       (andthen (edit_dinode dp (put_size (s32 (di_size d + 1023) sdiv 1024 * 1024))) (\<lambda>_. inodirty))) (\<lambda>_.
     andthen (ckinode call_flat dp idesc) (\<lambda>(n, idesc).
     if has n ALTERED then ret True
     else
     andthen (expanddir dp) (\<lambda>ok.
     if \<not> ok then ret False
     else andthen (ckinode call_flat dp idesc) (\<lambda>(n, _). ret (has n ALTERED))))))))"

definition allocdir :: "nat \<Rightarrow> nat \<Rightarrow> nat ck" where
  "allocdir parent request =
     andthen (allocino request (IFDIR OR 0x1ed)) (\<lambda>ino.
     andthen (ginode ino) (\<lambda>dp.
     andthen (dinode dp) (\<lambda>d.
     andthen (gets fs_fsize) (\<lambda>fsize.
     andthen (getblk Fileblk (di_db d 0) fsize) (\<lambda>_.
     andthen file_errs (\<lambda>errs.
     if errs \<noteq> 0 then andthen (freeino ino) (\<lambda>_. ret 0)
     else
     andthen (edit Fileblk (\<lambda>b. fill_chunks fsize (blit b 0 24 (dirhead ino parent)))) (\<lambda>_.
     andthen (set_dirty Fileblk) (\<lambda>_.
     andthen (edit_dinode dp (\<lambda>d. put16 d 2 2)) (\<lambda>_.
     andthen inodirty (\<lambda>_.
     let found = modify (\<lambda>s. s\<lparr>ctx_lncntp := (ctx_lncntp s)(ino := 2)\<rparr>) in
     if ino = ROOTINO then andthen found (\<lambda>_. ret ino)
     else
     andthen (statemap parent) (\<lambda>st.
     if st \<noteq> DSTATE \<and> st \<noteq> DFOUND then andthen (freeino ino) (\<lambda>_. ret 0)
     else
     andthen (set_statemap ino st) (\<lambda>_.
     andthen (only_if (st = DSTATE) (andthen found (\<lambda>_. add_lncnt parent 1))) (\<lambda>_.
     andthen (ginode parent) (\<lambda>pdp.
     andthen (edit_dinode pdp (add_nlink 1)) (\<lambda>_.
     andthen inodirty (\<lambda>_.
     ret ino))))))))))))))))"

definition freedir :: "nat \<Rightarrow> nat \<Rightarrow> unit ck" where
  "freedir ino parent =
     andthen (only_if (ino \<noteq> parent)
       (andthen (ginode parent) (\<lambda>dp.
        andthen (edit_dinode dp (add_nlink (- 1))) (\<lambda>_. inodirty)))) (\<lambda>_.
     freeino ino)"

section \<open>Reconnecting an inode\<close>

fun decimal_digits :: "nat \<Rightarrow> nat" where
  "decimal_digits n = (if n = 0 then 0 else 1 + decimal_digits (n div 10))"

declare decimal_digits.simps [simp del]

primrec digits_of :: "nat \<Rightarrow> nat \<Rightarrow> u8 list" where
  "digits_of n 0 = []"
| "digits_of n (Suc k) = digits_of (n div 10) k @ [of_nat (n mod 10) + 0x30]"

text \<open>A \<open>#\<close> and the number, with as many digits as \<open>imax\<close> has.\<close>

definition lftempname :: "nat \<Rightarrow> nat \<Rightarrow> u8 list" where
  "lftempname imax ino = 0x23 # digits_of ino (decimal_digits imax)"

definition lfname :: "u8 list" where
  "lfname = [0x6c, 0x6f, 0x73, 0x74, 0x2b, 0x66, 0x6f, 0x75, 0x6e, 0x64]"

definition cannot_link :: "bool ck" where
  "cannot_link = andthen pfatal (\<lambda>_. ret False)"

definition set_lfdir :: "nat \<Rightarrow> unit ck" where
  "set_lfdir ino = modify (\<lambda>s. s\<lparr>ctx_lfdir := ino\<rparr>)"

text \<open>Finding or making \<open>lost+found\<close>.\<close>

definition find_lfdir :: "unit ck" where
  "find_lfdir =
     andthen (ginode ROOTINO) (\<lambda>dp.
     andthen (ckinode call_flat dp ((new_inodesc DATA Findino ROOTINO)\<lparr>id_name := lfname\<rparr>)) (\<lambda>(_, idesc).
     andthen (gets ctx_imax) (\<lambda>imax.
     if ROOTINO \<le> id_parent idesc \<and> id_parent idesc < imax then set_lfdir (id_parent idesc)
     else
     andthen pwarn (\<lambda>_.
     andthen preen_or_reply (\<lambda>yes.
     only_if yes
       (andthen (allocdir ROOTINO 0) (\<lambda>lfdir.
        andthen (set_lfdir lfdir) (\<lambda>_.
        only_if (lfdir \<noteq> 0)
          (andthen (makeentry ROOTINO lfdir lfname) (\<lambda>ok.
           only_if (\<not> ok) (andthen (freedir lfdir ROOTINO) (\<lambda>_. set_lfdir 0))))))))))))"

text \<open>
  \<open>adjust\<close> and \<open>linkup\<close> call each other: \<open>linkup\<close> adjusts the inode that \<open>lost+found\<close> was when it is
  not a directory. That inner \<open>adjust\<close> can only call \<open>linkup\<close> with the new \<open>lost+found\<close> in place, so
  that two levels are enough; the first argument counts them.
\<close>

definition adjust_with :: "(nat \<Rightarrow> nat \<Rightarrow> bool ck) \<Rightarrow> inodesc \<Rightarrow> u16 \<Rightarrow> unit ck" where
  "adjust_with link idesc lcnt =
     andthen (ginode (id_number idesc)) (\<lambda>dp.
     andthen (dinode dp) (\<lambda>d.
     if di_nlink d = lcnt then
       andthen (link (id_number idesc) 0) (\<lambda>linked.
       only_if (\<not> linked) (clri idesc False))
     else
     andthen pwarn (\<lambda>_.
     andthen (pinode (id_number idesc)) (\<lambda>_.
     andthen (gets ctx_preen) (\<lambda>preen.
     andthen (only_if (preen \<and> sint lcnt < 0) pfatal) (\<lambda>_.
     andthen preen_or_reply (\<lambda>yes.
     only_if yes (andthen (edit_dinode dp (add_nlink (- lcnt))) (\<lambda>_. inodirty)))))))))"

definition reallocate_lfdir :: "(inodesc \<Rightarrow> u16 \<Rightarrow> unit ck) \<Rightarrow> nat \<Rightarrow> bool ck" where
  "reallocate_lfdir adjust oldlfdir =
     andthen (allocdir ROOTINO 0) (\<lambda>lfdir.
     andthen (set_lfdir lfdir) (\<lambda>_.
     if lfdir = 0 then cannot_link
     else
     andthen (ginode ROOTINO) (\<lambda>dp.
     andthen (ckinode call_flat dp ((new_inodesc DATA Chgino ROOTINO)\<lparr>id_parent := lfdir, id_name := lfname\<rparr>))
       (\<lambda>(n, idesc).
     if \<not> has n ALTERED then cannot_link
     else
     andthen inodirty (\<lambda>_.
     andthen (gets (\<lambda>s. ctx_lncntp s oldlfdir)) (\<lambda>lcnt.
     andthen (adjust (idesc\<lparr>id_type := ADDR, id_func := Pass4check, id_number := oldlfdir\<rparr>) (lcnt + 1)) (\<lambda>_.
     andthen (modify (\<lambda>s. s\<lparr>ctx_lncntp := (ctx_lncntp s)(oldlfdir := 0)\<rparr>)) (\<lambda>_.
     ret True))))))))"

definition connect :: "nat \<Rightarrow> bool \<Rightarrow> bool ck" where
  "connect orphan lostdir =
     andthen (gets (\<lambda>s. (ctx_lfdir s, ctx_imax s))) (\<lambda>(lfdir, imax).
     andthen (statemap lfdir) (\<lambda>st.
     if st \<noteq> DFOUND then cannot_link
     else
     let name = lftempname imax orphan in
     andthen (modify (\<lambda>s. s\<lparr>ctx_pathp := 1 + length lfname\<rparr>)) (\<lambda>_.
     andthen (makeentry lfdir orphan name) (\<lambda>ok.
     if \<not> ok then cannot_link
     else
     andthen (add_lncnt orphan (- 1)) (\<lambda>_.
     andthen (modify (\<lambda>s. s\<lparr>ctx_pathp := 2 + length lfname + length name\<rparr>)) (\<lambda>_.
     if \<not> lostdir then ret True
     else
     andthen (ginode orphan) (\<lambda>dp.
     andthen (ckinode call_flat dp ((new_inodesc DATA Chgino orphan)\<lparr>id_parent := lfdir, id_name := dotdot\<rparr>)) (\<lambda>_.
     andthen (ginode lfdir) (\<lambda>dp.
     andthen (edit_dinode dp (add_nlink 1)) (\<lambda>_.
     andthen inodirty (\<lambda>_.
     andthen (add_lncnt lfdir 1) (\<lambda>_.
     andthen pwarn (\<lambda>_.
     ret True)))))))))))))"

definition linkup_with :: "(inodesc \<Rightarrow> u16 \<Rightarrow> unit ck) \<Rightarrow> nat \<Rightarrow> nat \<Rightarrow> bool ck" where
  "linkup_with adjust orphan pdir =
     andthen (ginode orphan) (\<lambda>dp.
     andthen (dinode dp) (\<lambda>d.
     let lostdir = DIRCT d in
     andthen pwarn (\<lambda>_.
     andthen (pinode orphan) (\<lambda>_.
     andthen (gets ctx_preen) (\<lambda>preen.
     andthen (if preen then ret (di_size d \<noteq> 0) else reply) (\<lambda>yes.
     if \<not> yes then ret False
     else
     andthen (modify (\<lambda>s. s\<lparr>ctx_pathp := 1\<rparr>)) (\<lambda>_.
     andthen (gets ctx_lfdir) (\<lambda>lfdir.
     andthen (only_if (lfdir = 0) find_lfdir) (\<lambda>_.
     andthen (gets ctx_lfdir) (\<lambda>lfdir.
     if lfdir = 0 then cannot_link
     else
     andthen (ginode lfdir) (\<lambda>dp.
     andthen (dinode dp) (\<lambda>d.
     andthen (if DIRCT d then ret True
       else
         andthen pfatal (\<lambda>_.
         andthen reply (\<lambda>yes.
         if \<not> yes then ret False else reallocate_lfdir adjust lfdir))) (\<lambda>ok.
     if \<not> ok then ret False else connect orphan lostdir)))))))))))))"

primrec linkup_to :: "nat \<Rightarrow> nat \<Rightarrow> nat \<Rightarrow> bool ck" where
  "linkup_to 0 orphan pdir = fail UNDEF"
| "linkup_to (Suc n) orphan pdir = linkup_with (adjust_with (linkup_to n)) orphan pdir"

definition linkup :: "nat \<Rightarrow> nat \<Rightarrow> bool ck" where
  "linkup = linkup_to 2"

definition adjust :: "inodesc \<Rightarrow> u16 \<Rightarrow> unit ck" where
  "adjust = adjust_with linkup"

end
