(* ===== verification/FsckFrame.thy ===== *)
theory FsckFrame
  imports FsckRepair
begin

text \<open>
  What the services of the checker leave alone, and when two runs agree. A predicate on the context that
  does not depend on the device, the buffer of inodes and the operator is kept by all services; one
  that does not depend on the other buffers and the counts either is kept by the traversals, whatever
  function they call, as long as this function keeps it.
\<close>

section \<open>Two runs that agree and keep an invariant\<close>

definition agree :: "(fsck_ctx \<Rightarrow> bool) \<Rightarrow> 'a ck \<Rightarrow> 'a ck \<Rightarrow> bool" where
  "agree I f g \<longleftrightarrow> (\<forall>s. I s \<longrightarrow> f s = g s \<and> I (snd (f s)))"

named_theorems agree_intros "how runs that agree are composed"

lemma agreeD: "agree I f g \<Longrightarrow> I s \<Longrightarrow> f s = g s" "agree I f g \<Longrightarrow> I s \<Longrightarrow> f s = (r, t) \<Longrightarrow> I t"
  by (auto simp: agree_def dest!: spec [of _ s])

lemma agree_snd: "agree I f g \<Longrightarrow> I s \<Longrightarrow> I (snd (g s))"
  by (metis agree_def)

lemma agree_ret [agree_intros]: "agree I (ret x) (ret x)"
  by (simp add: agree_def)

lemma agree_fail [agree_intros]: "agree I (fail e) (fail e)"
  by (simp add: agree_def)

lemma agree_gets [agree_intros]: "agree I (gets f) (gets f)"
  by (simp add: agree_def gets_def)

lemma agree_modify: "(\<And>s. I s \<Longrightarrow> I (u s)) \<Longrightarrow> agree I (modify u) (modify u)"
  by (simp add: agree_def modify_def)

lemma agree_andthen [agree_intros]:
  assumes "agree I f g" "\<And>x. agree I (h x) (k x)"
  shows "agree I (andthen f h) (andthen g k)"
  unfolding agree_def
proof (intro allI impI)
  fix s assume I: "I s"
  obtain r t where r: "f s = (r, t)" by fastforce
  then have "g s = (r, t)" "I t" using agreeD [OF assms(1) I] by auto
  moreover have "h x t = k x t" "I (snd (k x t))" for x 
    by (rule agreeD(1) [OF assms(2) \<open>I t\<close>], rule agree_snd [OF assms(2) \<open>I t\<close>])
  ultimately show "andthen f h s = andthen g k s \<and> I (snd (andthen f h s))"
    using r by (cases r) (simp_all add: andthen_def)
qed

lemma agree_attempt [agree_intros]:
  assumes "agree I f g" "\<And>x. agree I (h x) (k x)"
  shows "agree I (attempt f h) (attempt g k)"
  unfolding agree_def
proof (intro allI impI)
  fix s assume I: "I s"
  obtain r t where r: "f s = (r, t)" by fastforce
  then have "g s = (r, t)" "I t" using agreeD [OF assms(1) I] by auto
  then show "attempt f h s = attempt g k s \<and> I (snd (attempt f h s))"
    using r agree_def [THEN iffD1, OF assms(2) [of r]] by (simp add: attempt_def) metis
qed

lemma agree_if [agree_intros]:
  "(b \<Longrightarrow> agree I f g) \<Longrightarrow> (\<not> b \<Longrightarrow> agree I h k) \<Longrightarrow> agree I (if b then f else h) (if b then g else k)"
  by simp

lemma agree_option [agree_intros]:
  "agree I f g \<Longrightarrow> (\<And>x. agree I (h x) (k x)) \<Longrightarrow>
    agree I (case r of None \<Rightarrow> f | Some x \<Rightarrow> h x) (case r of None \<Rightarrow> g | Some x \<Rightarrow> k x)"
  by (cases r) simp_all

lemma agree_sum [agree_intros]:
  "(\<And>e. agree I (f e) (g e)) \<Longrightarrow> (\<And>x. agree I (h x) (k x)) \<Longrightarrow>
    agree I (case r of Inl e \<Rightarrow> f e | Inr x \<Rightarrow> h x) (case r of Inl e \<Rightarrow> g e | Inr x \<Rightarrow> k x)"
  by (cases r) simp_all

lemma agree_prod [agree_intros]:
  "(\<And>x y. agree I (h x y) (k x y)) \<Longrightarrow> agree I (case p of (x, y) \<Rightarrow> h x y) (case p of (x, y) \<Rightarrow> k x y)"
  by (cases p) simp

lemma agree_skip [agree_intros]: "agree I skip skip"
  by (simp add: skip_def agree_ret)

lemma agree_only_if [agree_intros]: "(b \<Longrightarrow> agree I f g) \<Longrightarrow> agree I (only_if b f) (only_if b g)"
  by (simp add: only_if_def agree_skip)

lemma agree_errexit [agree_intros]: "agree I errexit errexit"
  by (simp add: errexit_def fsck_abort_def agree_fail)

lemma agree_c_div [agree_intros]: "agree I (c_div x y) (c_div x y)" "agree I (howmany x y) (howmany x y)"
  by (simp_all add: c_div_def howmany_def agree_fail agree_ret)

lemma agree_shift [agree_intros]: "agree I (shift_right x n) (shift_right x n)" "agree I (numfrags x) (numfrags x)"
  unfolding numfrags_def shift_right_def by (intro agree_intros)+

lemma agree_data_of [agree_intros]: "agree I (data_of a) (data_of a)"
  by (simp add: data_of_def agree_gets)

lemma agree_dinode [agree_intros]: "agree I (dinode dp) (dinode dp)"
  unfolding dinode_def by (intro agree_intros)

lemma agree_itod [agree_intros]: "agree I (itod x) (itod x)"
  by (simp add: agree_def itod_def Let_def)

lemma agree_statemap [agree_intros]: "agree I (statemap ino) (statemap ino)"
  by (simp add: statemap_def agree_gets)

lemma agree_outrange [agree_intros]: "agree I (outrange x n) (outrange x n)"
  unfolding outrange_def by (intro agree_intros)

lemma agree_getbmap [agree_intros]: "agree I (getbmap x) (getbmap x)"
  by (simp add: agree_def getbmap_def)

lemma agree_block_bytes [agree_intros]: "agree I (block_bytes x) (block_bytes x)"
  by (simp add: block_bytes_def agree_gets)

section \<open>The services\<close>

locale serviced =
  fixes I :: "fsck_ctx \<Rightarrow> bool"
  assumes dev: "I s \<Longrightarrow> I (s\<lparr>ctx_dev := d\<rparr>)"
    and written: "I s \<Longrightarrow> I (s\<lparr>ctx_mod := m\<rparr>)"
    and errors: "I s \<Longrightarrow> I (s\<lparr>ctx_error_count := e\<rparr>)"
    and exits: "I s \<Longrightarrow> I (s\<lparr>ctx_exitstat := x\<rparr>)"
    and typed: "I s \<Longrightarrow> I (s\<lparr>ctx_stdin := i\<rparr>)"
    and inodes: "I s \<Longrightarrow> I (s\<lparr>ctx_inoblk := a\<rparr>)"
    and start: "I s \<Longrightarrow> I (s\<lparr>ctx_startinum := n\<rparr>)"
begin

lemma pwarn [agree_intros]: "agree I pwarn pwarn"
  unfolding pwarn_def by (rule agree_modify) (rule errors)

lemma pfatal [agree_intros]: "agree I pfatal pfatal"
  unfolding pfatal_def fsck_abort_def by (intro agree_intros)

lemma reply [agree_intros]: "agree I reply reply"
  unfolding reply_def by (intro agree_intros agree_modify exits typed)

lemma preen_or_reply [agree_intros]: "agree I preen_or_reply preen_or_reply"
  unfolding preen_or_reply_def by (intro agree_intros)

lemma on_device [agree_intros]: "agree I (on_device m) (on_device m)"
  by (simp add: agree_def on_device_def dev split: prod.splits)

lemma trying [agree_intros]: "agree I m m \<Longrightarrow> agree I (trying m) (trying m)"
  unfolding trying_def by (intro agree_intros)

lemma file_io [agree_intros]:
  "agree I (file_pread n off) (file_pread n off)" "agree I (file_pwrite b n off) (file_pwrite b n off)"
  unfolding file_pread_def file_pwrite_def by (intro agree_intros)+

lemma rwerr [agree_intros]: "agree I rwerr rwerr"
  unfolding rwerr_def by (intro agree_intros)

lemma read_sectors [agree_intros]: "agree I (read_sectors off is errs b) (read_sectors off is errs b)"
  by (induction "is" arbitrary: errs b) (simp_all, (intro agree_intros | simp)+)

lemma bread [agree_intros]: "agree I (bread room b blk sz) (bread room b blk sz)"
  unfolding bread_def Let_def by (intro agree_intros)

lemma write_sectors [agree_intros]: "agree I (write_sectors off is b) (write_sectors off is b)"
  by (induction "is") (simp_all, (intro agree_intros | simp)+)

lemma bwrite [agree_intros]: "agree I (bwrite b blk sz) (bwrite b blk sz)"
  unfolding bwrite_def Let_def by (intro agree_intros agree_modify written)

lemma write_csums [agree_intros]: "agree I (write_csums js) (write_csums js)"
  by (induction js) (simp_all, (intro agree_intros | simp)+)

lemma flush_area [agree_intros]: "agree I (flush_area x bp) (flush_area x bp)"
  unfolding flush_area_def Let_def by (intro agree_intros)

lemma getblk_area [agree_intros]: "agree I (getblk_area x bp blk sz) (getblk_area x bp blk sz)"
  unfolding getblk_area_def Let_def by (intro agree_intros)

lemma getblk_inodes [agree_intros]: "agree I (getblk Inoblk blk sz) (getblk Inoblk blk sz)"
  unfolding getblk_def by (intro agree_intros agree_modify) (simp add: inodes)

lemma edit_inodes [agree_intros]:
  "agree I (edit Inoblk f) (edit Inoblk f)" "agree I (set_dirty Inoblk) (set_dirty Inoblk)"
  unfolding edit_def set_dirty_def by (intro agree_modify, simp add: inodes)+

lemma edit_dinode [agree_intros]: "agree I (edit_dinode dp f) (edit_dinode dp f)" "agree I inodirty inodirty"
  unfolding edit_dinode_def inodirty_def by (intro agree_intros)+

lemma ginode [agree_intros]: "agree I (ginode ino) (ginode ino)"
  unfolding ginode_def by (intro agree_intros agree_modify start)

lemma pinode [agree_intros]: "agree I (pinode ino) (pinode ino)"
  unfolding pinode_def by (intro agree_intros)

lemma direrr [agree_intros]: "agree I (direrr ino) (direrr ino)"
  unfolding direrr_def by (intro agree_intros)

lemma dofix [agree_intros]: "agree I (dofix idesc) (dofix idesc)"
  unfolding dofix_def by (cases "id_fix idesc") (simp_all only: fixstate.case, (intro agree_intros)+)

lemma fix_flag [agree_intros]: "agree I fix_flag fix_flag"
  unfolding fix_flag_def by (intro agree_intros)

end

section \<open>The traversals\<close>

text \<open>One round of \<open>dirscan\<close>, in monadic form.\<close>

lemma dirscan_loop_unfold:
  "dirscan_loop call blksiz idesc =
     andthen (fsck_readdir idesc) (\<lambda>(p, scanned). case p of
       None \<Rightarrow> ret ((if 0 < id_filesize scanned then KEEPON else STOP), scanned)
     | Some dp \<Rightarrow>
       andthen (gets (\<lambda>s. b_data (ctx_fileblk s))) (\<lambda>b.
       let dsize = nat (dirent_reclen b dp) in
       if 1024 < dsize then fail UNDEF
       else
       andthen (call (scanned\<lparr>id_dirp := clip dsize (\<lambda>i. b (dp + i))\<rparr>)) (\<lambda>(n, after).
       andthen (write_entry blksiz dp dsize n after) (\<lambda>n.
       if has n STOP then ret (n, after)
       else if id_loc after \<le> id_loc idesc \<or> blksiz \<le> id_loc idesc then fail UNDEF
       else dirscan_loop call blksiz after))))" (is "?l = ?r")
proof
  fix s
  show "?l s = ?r s"
    by (subst dirscan_loop.simps)
      (simp add: andthen_def gets_def Let_def split: prod.splits sum.splits option.splits)
qed

locale traversed = serviced +
  assumes dirs: "I s \<Longrightarrow> I (s\<lparr>ctx_fileblk := a\<rparr>)"
    and super: "I s \<Longrightarrow> I (s\<lparr>ctx_sblk := a\<rparr>)"
    and group: "I s \<Longrightarrow> I (s\<lparr>ctx_cgblk := a\<rparr>)"
    and path: "I s \<Longrightarrow> I (s\<lparr>ctx_pathp := n\<rparr>)"
    and links: "I s \<Longrightarrow> I (s\<lparr>ctx_lncntp := l\<rparr>)"
begin

lemma set_area: "I s \<Longrightarrow> I (set_area a bp s)"
  by (cases a) (simp_all add: inodes dirs super group)

lemma getblk [agree_intros]: "agree I (getblk a blk sz) (getblk a blk sz)"
  unfolding getblk_def by (intro agree_intros agree_modify set_area)

lemma edit [agree_intros]: "agree I (edit a f) (edit a f)" "agree I (set_dirty a) (set_dirty a)"
  unfolding edit_def set_dirty_def by (intro agree_modify set_area, assumption)+

lemma write_entry [agree_intros]: "agree I (write_entry x dp k n d) (write_entry x dp k n d)"
  unfolding write_entry_def by (intro agree_intros)

lemma add_lncnt [agree_intros]: "agree I (add_lncnt ino d) (add_lncnt ino d)"
  unfolding add_lncnt_def by (intro agree_modify links)

lemma dirent_fix [agree_intros]: "agree I (dirent_fix idesc) (dirent_fix idesc)"
  unfolding dirent_fix_def by (intro agree_intros)

lemma next_entry [agree_intros]: "agree I (next_entry idesc n) (next_entry idesc n)"
  unfolding next_entry_def Let_def by (intro agree_intros)

lemma fsck_readdir [agree_intros]: "agree I (fsck_readdir idesc) (fsck_readdir idesc)"
  unfolding fsck_readdir_def Let_def by (intro agree_intros)

lemma dirscan_loop:
  assumes call: "\<And>d. agree I (call d) (call' d)"
  shows "agree I (dirscan_loop call blksiz idesc) (dirscan_loop call' blksiz idesc)"
proof (induction "nat (blksiz - id_loc idesc)" arbitrary: idesc rule: less_induct)
  case less
  have later: "agree I (dirscan_loop call blksiz d) (dirscan_loop call' blksiz d)"
    if "\<not> (id_loc d \<le> id_loc idesc \<or> blksiz \<le> id_loc idesc)" for d
    using that by (intro less) auto
  show ?case
    unfolding dirscan_loop_unfold [of _ _ idesc] Let_def by (intro agree_intros call later)
qed

lemma dirscan:
  assumes call: "\<And>d. agree I (call d) (call' d)"
  shows "agree I (dirscan call idesc) (dirscan call' idesc)"
  unfolding dirscan_def Let_def by (intro agree_intros dirscan_loop call)

lemma pointer_loop:
  assumes "\<And>i d. agree I (f i d) (g i d)"
  shows "agree I (pointer_loop f ps idesc) (pointer_loop g ps idesc)"
proof (induction ps arbitrary: idesc)
  case (Cons p ps)
  show ?case unfolding pointer_loop.simps by (intro agree_intros assms Cons)
qed (simp add: agree_ret)

lemma clear_tail [agree_intros]: "agree I (clear_tail is idesc a) (clear_tail is idesc a)"
proof (induction "is" arbitrary: idesc a)
  case (Cons i "is")
  show ?case unfolding clear_tail.simps by (intro agree_intros Cons)
qed (simp add: agree_ret)

lemma iblock:
  assumes call: "\<And>d. agree I (call d) (call' d)"
  shows "agree I (iblock call lev idesc isiz) (iblock call' lev idesc isiz)"
proof (induction lev arbitrary: idesc isiz)
  case 0
  show ?case unfolding iblock.simps by (intro agree_intros)
next
  case (Suc lev)
  have func: "agree I ((if ty = ADDR then call else dirscan call) d) ((if ty = ADDR then call' else dirscan call') d)"
    for ty d using call dirscan [OF call] by simp
  show ?case unfolding iblock.simps Let_def
    by (intro agree_intros call func pointer_loop Suc)
qed

lemma ck_direct:
  assumes call: "\<And>d. agree I (call d) (call' d)"
  shows "agree I (ck_direct call d is ndb idesc) (ck_direct call' d is ndb idesc)"
proof (induction "is" arbitrary: ndb idesc)
  case (Cons i "is")
  show ?case unfolding ck_direct.simps Let_def by (intro agree_intros call dirscan Cons)
qed (simp add: agree_ret)

lemma ck_indirect:
  assumes call: "\<And>d. agree I (call d) (call' d)"
  shows "agree I (ck_indirect call d isiz ns idesc) (ck_indirect call' d isiz ns idesc)"
proof (induction ns arbitrary: idesc)
  case (Cons n ns)
  show ?case unfolding ck_indirect.simps by (intro agree_intros iblock call Cons)
qed (simp add: agree_ret)

lemma ckinode:
  assumes call: "\<And>d. agree I (call d) (call' d)"
  shows "agree I (ckinode call dp idesc) (ckinode call' dp idesc)"
  unfolding ckinode_def Let_def by (intro agree_intros ck_direct ck_indirect call)

end

section \<open>Functions on blocks and entries\<close>

text \<open>The pass that changes the state of an inode never changes one that has been found.\<close>

locale finding = traversed +
  assumes blocks: "I s \<Longrightarrow> I (s\<lparr>ctx_blockmap := b\<rparr>)"
    and count: "I s \<Longrightarrow> I (s\<lparr>ctx_n_blks := n\<rparr>)"
    and duplicates: "I s \<Longrightarrow> I (s\<lparr>ctx_duplist := ds\<rparr>)"
    and more: "I s \<Longrightarrow> I (s\<lparr>ctx_duplist := ds, ctx_muldup := mu\<rparr>)"
    and heads: "I s \<Longrightarrow> I (s\<lparr>ctx_duplist := ds, ctx_duphead := h\<rparr>)"
    and bad: "I s \<Longrightarrow> I (s\<lparr>ctx_badblk := x\<rparr>)"
    and dup: "I s \<Longrightarrow> I (s\<lparr>ctx_dupblk := x\<rparr>)"
    and state: "I s \<Longrightarrow> ctx_statemap s i \<noteq> DFOUND \<Longrightarrow> I (s\<lparr>ctx_statemap := (ctx_statemap s)(i := st)\<rparr>)"
begin

lemma setbmap [agree_intros]: "agree I (setbmap x) (setbmap x)" "agree I (clrbmap x) (clrbmap x)"
  by (simp_all add: agree_def setbmap_def clrbmap_def blocks)

lemma mark [agree_intros]:
  "agree I (andthen (statemap ino) (\<lambda>st. case st of
       FSTATE \<Rightarrow> set_statemap ino FCLEAR | DSTATE \<Rightarrow> set_statemap ino DCLEAR
     | FCLEAR \<Rightarrow> skip | DCLEAR \<Rightarrow> skip | _ \<Rightarrow> errexit))
    (andthen (statemap ino) (\<lambda>st. case st of
       FSTATE \<Rightarrow> set_statemap ino FCLEAR | DSTATE \<Rightarrow> set_statemap ino DCLEAR
     | FCLEAR \<Rightarrow> skip | DCLEAR \<Rightarrow> skip | _ \<Rightarrow> errexit))"
  by (auto simp: agree_def statemap_def gets_def andthen_def set_statemap_def modify_def skip_def errexit_def
      fsck_abort_def state split: istate.splits)

lemma blkerr [agree_intros]: "agree I (blkerr ino) (blkerr ino)"
  unfolding blkerr_def by (intro agree_intros)

lemma add_dup [agree_intros]: "agree I (add_dup blk) (add_dup blk)"
  unfolding add_dup_def by (intro agree_modify) (simp add: more Let_def split: option.split)

lemma go_on_or_exit [agree_intros]: "agree I go_on_or_exit go_on_or_exit"
  unfolding go_on_or_exit_def by (intro agree_intros)

lemma pass1_frags [agree_intros]: "agree I (pass1_frags out n blk idesc res) (pass1_frags out n blk idesc res)"
proof (induction n arbitrary: blk idesc res)
  case (Suc n)
  show ?case unfolding pass1_frags.simps Let_def by (intro agree_intros agree_modify count dup Suc)
qed (simp add: agree_ret)

lemma pass1check [agree_intros]: "agree I (pass1check idesc) (pass1check idesc)"
  unfolding pass1check_def Let_def by (intro agree_intros agree_modify bad)

lemma pass1b_list [agree_intros]: "agree I (pass1b_list ino blk is) (pass1b_list ino blk is)"
proof (induction "is")
  case (Cons i "is")
  show ?case unfolding pass1b_list.simps by (intro agree_intros agree_modify heads Cons)
qed (simp add: agree_skip)

lemma pass1b_frags [agree_intros]: "agree I (pass1b_frags n blk idesc res) (pass1b_frags n blk idesc res)"
proof (induction n arbitrary: blk idesc res)
  case (Suc n)
  show ?case unfolding pass1b_frags.simps by (intro agree_intros Suc)
qed (simp add: agree_ret)

lemma pass4_frags [agree_intros]: "agree I (pass4_frags n blk res) (pass4_frags n blk res)"
proof (induction n arbitrary: blk res)
  case (Suc n)
  show ?case unfolding pass4_frags.simps by (intro agree_intros agree_modify duplicates count Suc)
qed (simp add: agree_ret)

lemma call_flat: "agree I (call_flat idesc) (call_flat idesc)"
  unfolding call_flat_def findname_def findino_def mkentry_def chgino_def pass1bcheck_def pass4check_def Let_def
  by (cases "id_func idesc") (simp_all only: idfunc.case, (intro agree_intros)+)

lemma path_walk [agree_intros]: "agree I (path_walk fuel cp ino idesc) (path_walk fuel cp ino idesc)"
proof (induction fuel arbitrary: cp ino idesc)
  case (Suc fuel)
  show ?case unfolding path_walk.simps Let_def by (intro agree_intros ckinode call_flat Suc)
next
  case 0
  show ?case unfolding path_walk.simps by (intro agree_intros)
qed

lemma getpathname [agree_intros]: "agree I (getpathname ino) (getpathname ino)"
  unfolding getpathname_def by (intro agree_intros)

lemma check_dots [agree_intros]:
  "agree I (check_dot idesc) (check_dot idesc)" "agree I (check_dotdot p fl idesc) (check_dotdot p fl idesc)"
  unfolding check_dot_def check_dotdot_def Let_def by (intro agree_intros)+

lemma check_state:
  assumes "agree I (desc idesc ino) (desc' idesc ino)"
  shows "agree I (check_state desc idesc ino st) (check_state desc' idesc ino st)"
  unfolding check_state_def Let_def
  by (cases st) (simp_all only: istate.case, (intro agree_intros assms)+)

end

end
