(* ===== verification/FsckPasses.thy ===== *)
theory FsckPasses
  imports FsckRepair
begin

text \<open>
  The five passes of the checker (\<open>src/src/fsck/pass1.c\<close> to \<open>pass5.c\<close>), reading the superblock
  (\<open>setup.c\<close>) and the run over one file system (\<open>session.c\<close>). The image is open when \<open>setup\<close> starts;
  whether the host has it mounted is part of the context.
\<close>

primrec each :: "('a \<Rightarrow> unit ck) \<Rightarrow> 'a list \<Rightarrow> unit ck" where
  "each f [] = skip"
| "each f (x # xs) = andthen (f x) (\<lambda>_. each f xs)"

section \<open>Pass 1: blocks and inodes\<close>

definition reserve_group :: "nat \<Rightarrow> unit ck" where
  "reserve_group c =
     andthen (gets (\<lambda>s. (cgbase (int c) s, cgsblock (int c) s, cgdmin (int c) s, fs_cssize s, fs_fsize s)))
       (\<lambda>(base, sblk, cgd, cssize, fsize).
     if c = 0 then andthen (howmany cssize fsize) (\<lambda>n. set_run base (nat (s32 (cgd + n) - base)))
     else set_run sblk (nat (cgd - sblk)))"

text \<open>The first of the indirect pointers that has to be 0 in an inode of \<open>ndb\<close> further blocks.\<close>

function indirect_levels :: "int \<Rightarrow> int \<Rightarrow> nat \<Rightarrow> nat option" where
  "indirect_levels ni ndb j =
     (if ndb \<le> 0 then Some j
      else if ni = 0 \<or> ni = 1 then None
      else indirect_levels ni (ndb sdiv ni) (j + 1))"
  by pat_completeness auto
termination
proof (relation "measure (\<lambda>(ni, ndb, j). nat ndb)", goal_cases)
  case (2 ni ndb j)
  have "ndb sdiv ni < ndb"
  proof (cases "0 < ni")
    case True
    with 2 show ?thesis by (simp add: signed_divide_int_def int_div_less_self)
  next
    case False
    with 2 have "ndb sdiv ni = - (ndb div (- ni))" "0 \<le> ndb div (- ni)"
      by (simp_all add: signed_divide_int_def pos_imp_zdiv_nonneg_iff)
    with 2 show ?thesis by simp
  qed
  with 2 show ?case by simp
qed simp

definition pointers_ok :: "buf \<Rightarrow> int \<Rightarrow> int \<Rightarrow> bool option" where
  "pointers_ok d ndb ni =
     (if \<not> list_all (\<lambda>j. di_db d j = 0) [nat ndb..<NDADDR] then Some False
      else map_option (\<lambda>j. list_all (\<lambda>j. di_ib d j = 0) [j..<3]) (indirect_levels ni (ndb - 12) 0))"

definition unknown_inode :: "nat \<Rightarrow> nat \<Rightarrow> unit ck" where
  "unknown_inode inumber dp =
     andthen pfatal (\<lambda>_.
     andthen (set_statemap inumber FCLEAR) (\<lambda>_.
     andthen reply (\<lambda>yes.
     only_if yes
       (andthen (set_statemap inumber USTATE) (\<lambda>_.
        andthen (zapino dp) (\<lambda>_. inodirty))))))"

definition pass1_unallocated :: "nat \<Rightarrow> nat \<Rightarrow> buf \<Rightarrow> unit ck" where
  "pass1_unallocated inumber dp d =
     andthen (only_if (\<not> (list_all (\<lambda>j. di_db d j = 0) [0..<12] \<and> list_all (\<lambda>j. di_ib d j = 0) [0..<3] \<and>
         di_mode d = 0 \<and> di_size d = 0))
       (andthen pfatal (\<lambda>_.
        andthen reply (\<lambda>yes.
        only_if yes (andthen (zapino dp) (\<lambda>_. inodirty)))))) (\<lambda>_.
     set_statemap inumber USTATE)"

definition is_fastlink :: "buf \<Rightarrow> bool" where
  "is_fastlink d \<longleftrightarrow> di_icflags d AND 1 \<noteq> 0"

text \<open>An inode of a known type: its links, its state, its blocks and their number.\<close>

definition pass1_count :: "nat \<Rightarrow> nat \<Rightarrow> buf \<Rightarrow> unit ck" where
  "pass1_count inumber dp d =
     andthen (add_files 1) (\<lambda>_.
     andthen (modify (\<lambda>s. s\<lparr>ctx_lncntp := (ctx_lncntp s)(inumber := di_nlink d)\<rparr>)) (\<lambda>_.
     andthen (only_if (sint (di_nlink d) \<le> 0)
       (modify (\<lambda>s. s\<lparr>ctx_zlnhead := inumber # ctx_zlnhead s\<rparr>))) (\<lambda>_.
     andthen (set_statemap inumber (if DIRCT d then DSTATE else FSTATE)) (\<lambda>_.
     andthen (modify (\<lambda>s. s\<lparr>ctx_badblk := 0, ctx_dupblk := 0\<rparr>)) (\<lambda>_.
     if is_fastlink d then skip
     else
     andthen (ckinode call_flat dp (new_inodesc ADDR Pass1check inumber)) (\<lambda>(_, idesc).
     andthen (gets fs_nspf) (\<lambda>nspf.
     let count = s32 (id_entryno idesc * nspf) in
     andthen (dinode dp) (\<lambda>d.
     only_if (di_blocks d \<noteq> count)
       (andthen pwarn (\<lambda>_.
        andthen preen_or_reply (\<lambda>yes.
        only_if yes (andthen (edit_dinode dp (put_blocks count)) (\<lambda>_. inodirty)))))))))))))"

definition pass1_allocated :: "nat \<Rightarrow> nat \<Rightarrow> buf \<Rightarrow> unit ck" where
  "pass1_allocated inumber dp d =
     andthen (gets (\<lambda>s. (fs_bsize s, fs_nindir s))) (\<lambda>(bsize, ni).
     andthen (howmany (di_size d) bsize) (\<lambda>ndb.
     let ndb = (if SPECIAL d then ndb + 1 else ndb) in
     if is_fastlink d then
       if di_mode d AND IFMT \<noteq> IFLNK then
         andthen pfatal (\<lambda>_.
         andthen reply (\<lambda>yes.
         if yes then
           andthen (zapino dp) (\<lambda>_. andthen inodirty (\<lambda>_. set_statemap inumber USTATE))
         else set_statemap inumber FCLEAR))
       else if ftypeok d then pass1_count inumber dp d else unknown_inode inumber dp
     else
     case pointers_ok d ndb ni of
       None \<Rightarrow> fail UNDEF
     | Some ok \<Rightarrow> if ok \<and> ftypeok d then pass1_count inumber dp d else unknown_inode inumber dp))"

definition pass1_inode :: "nat \<Rightarrow> unit ck" where
  "pass1_inode inumber =
     andthen (ginode inumber) (\<lambda>dp.
     andthen (dinode dp) (\<lambda>d.
     if \<not> ALLOC d then pass1_unallocated inumber dp d
     else
     andthen (modify (\<lambda>s. s\<lparr>ctx_lastino := inumber\<rparr>)) (\<lambda>_.
     if di_size d < 0 then unknown_inode inumber dp
     else
     andthen (gets (\<lambda>s. (ctx_preen s, fs_fsize s))) (\<lambda>(preen, fsize).
     andthen (if \<not> preen \<and> di_mode d AND IFMT = IFMT then reply else ret False) (\<lambda>hold.
     andthen (only_if hold
       (andthen (edit_dinode dp (\<lambda>d. put16 (put_size fsize d) 0 (IFREG OR 0x180))) (\<lambda>_. inodirty))) (\<lambda>_.
     andthen (dinode dp) (\<lambda>d.
     pass1_allocated inumber dp d)))))))"

definition inode_count :: "fsck_ctx \<Rightarrow> nat" where
  "inode_count s = nat (fs_ncg s) * nat (fs_ipg s)"

definition pass1 :: "unit ck" where
  "pass1 =
     andthen (gets (\<lambda>s. (nat (fs_ncg s), inode_count s))) (\<lambda>(ncg, ninodes).
     andthen (each reserve_group [0..<ncg]) (\<lambda>_.
     andthen (modify (\<lambda>s. s\<lparr>ctx_n_files := 0, ctx_n_blks := 0\<rparr>)) (\<lambda>_.
     each pass1_inode [ROOTINO..<ninodes])))"

section \<open>Pass 1b: the first uses of duplicate blocks\<close>

primrec pass1b_inodes :: "nat list \<Rightarrow> unit ck" where
  "pass1b_inodes [] = skip"
| "pass1b_inodes (inumber # rest) =
     andthen (ginode inumber) (\<lambda>dp.
     andthen (statemap inumber) (\<lambda>st.
     if st = USTATE then pass1b_inodes rest
     else
     andthen (ckinode call_flat dp (new_inodesc ADDR Pass1bcheck inumber)) (\<lambda>(n, _).
     if has n STOP then skip else pass1b_inodes rest)))"

definition pass1b :: "unit ck" where
  "pass1b =
     andthen (modify (\<lambda>s. s\<lparr>ctx_duphead := 0\<rparr>)) (\<lambda>_.
     andthen (gets inode_count) (\<lambda>ninodes.
     andthen (pass1b_inodes [ROOTINO..<ninodes]) (\<lambda>_.
     flush Inoblk)))"

section \<open>Pass 2: path names\<close>

definition root_desc :: inodesc where
  "root_desc = new_inodesc ADDR Pass2check ROOTINO"

definition allocate_root :: "unit ck" where
  "allocate_root = andthen (allocdir ROOTINO ROOTINO) (\<lambda>ino.
     if ino \<noteq> ROOTINO then errexit else descend root_desc ROOTINO)"

definition enter_root :: "unit ck" where
  "enter_root = andthen (set_statemap ROOTINO DSTATE) (\<lambda>_. descend root_desc ROOTINO)"

definition pass2 :: "unit ck" where
  "pass2 =
     andthen (modify (\<lambda>s. s\<lparr>ctx_pathp := 0\<rparr>)) (\<lambda>_.
     andthen (statemap ROOTINO) (\<lambda>st. case st of
       USTATE \<Rightarrow>
         andthen pfatal (\<lambda>_. andthen reply (\<lambda>yes. if \<not> yes then errexit else allocate_root))
     | DCLEAR \<Rightarrow>
         andthen pfatal (\<lambda>_.
         andthen reply (\<lambda>yes.
         if yes then andthen (freeino ROOTINO) (\<lambda>_. allocate_root)
         else
         andthen reply (\<lambda>yes. if \<not> yes then errexit else enter_root)))
     | DSTATE \<Rightarrow> descend root_desc ROOTINO
     | DFOUND \<Rightarrow> errexit
     | UNSET \<Rightarrow> errexit
     | _ \<Rightarrow>
         andthen pfatal (\<lambda>_.
         andthen reply (\<lambda>yes.
         if yes then andthen (freeino ROOTINO) (\<lambda>_. allocate_root)
         else
         andthen reply (\<lambda>yes.
         if \<not> yes then errexit
         else
         andthen (ginode ROOTINO) (\<lambda>dp.
         andthen (edit_dinode dp (\<lambda>d. put16 d 0 ((di_mode d AND NOT IFMT) OR IFDIR))) (\<lambda>_.
         andthen inodirty (\<lambda>_.
         enter_root))))))))"

section \<open>Pass 3: directories without a parent\<close>

text \<open>
  The walk to the topmost directory without a parent; the result is that directory and the parent
  its entry \<open>..\<close> names. The count is limited by the number of directories in the totals.
\<close>

function find_orphan :: "int \<Rightarrow> int \<Rightarrow> nat \<Rightarrow> inodesc \<Rightarrow> (nat \<times> nat) ck" where
  "find_orphan ndir loopcnt orphan idesc s =
     (if orphan < ROOTINO \<or> ctx_imax s < orphan then (Inr (orphan, orphan), s)
      else
      case (andthen (ginode orphan) (\<lambda>dp.
        ckinode call_flat dp (idesc\<lparr>id_parent := 0, id_number := orphan\<rparr>))) s of
        (Inl e, s) \<Rightarrow> (Inl e, s)
      | (Inr (_, idesc), s) \<Rightarrow>
        let parent = id_parent idesc in
        if parent = 0 \<or> ndir \<le> loopcnt \<or> ctx_statemap s parent \<noteq> DSTATE then (Inr (orphan, parent), s)
        else find_orphan ndir (loopcnt + 1) parent idesc s)"
  by pat_completeness auto
termination
  by (relation "measure (\<lambda>(ndir, loopcnt, orphan, idesc, s). nat (ndir - loopcnt))") auto

declare find_orphan.simps [simp del]

definition pass3_inode :: "nat \<Rightarrow> unit ck" where
  "pass3_inode inumber =
     andthen (statemap inumber) (\<lambda>st.
     if st \<noteq> DSTATE then skip
     else
     andthen (modify (\<lambda>s. s\<lparr>ctx_pathp := 1\<rparr>)) (\<lambda>_.
     andthen (gets fs_cs_ndir) (\<lambda>ndir.
     andthen (find_orphan ndir 0 inumber ((new_inodesc DATA Findino 0)\<lparr>id_name := dotdot\<rparr>)) (\<lambda>(orphan, parent).
     andthen (linkup orphan parent) (\<lambda>linked.
     andthen (gets ctx_lfdir) (\<lambda>lfdir.
     only_if linked (descend (new_inodesc DATA Pass2check lfdir) orphan)))))))"

definition pass3 :: "unit ck" where
  "pass3 = andthen (gets ctx_lastino) (\<lambda>lastino. each pass3_inode [ROOTINO..<lastino + 1])"

section \<open>Pass 4: link counts\<close>

text \<open>The entry of the list that has the inode takes the value of the head, which goes.\<close>

definition take_zlncnt :: "nat \<Rightarrow> nat list \<Rightarrow> nat list option" where
  "take_zlncnt ino zs = (if ino \<in> set zs
     then Some (tl (zs[length (takeWhile (\<lambda>z. z \<noteq> ino) zs) := hd zs])) else None)"

definition pass4_inode :: "nat \<Rightarrow> unit ck" where
  "pass4_inode inumber =
     (let idesc = new_inodesc ADDR Pass4check inumber in
      andthen (statemap inumber) (\<lambda>st.
      if st = FSTATE \<or> st = DFOUND then
        andthen (gets (\<lambda>s. (ctx_lncntp s inumber, ctx_zlnhead s))) (\<lambda>(n, zs).
        if n \<noteq> 0 then adjust idesc n
        else case take_zlncnt inumber zs of None \<Rightarrow> skip
        | Some zs \<Rightarrow>
          andthen (modify (\<lambda>s. s\<lparr>ctx_zlnhead := zs\<rparr>)) (\<lambda>_. clri idesc True))
      else if st = DSTATE \<or> st = DCLEAR \<or> st = FCLEAR then clri idesc True
      else if st = USTATE then skip
      else errexit))"

definition pass4 :: "unit ck" where
  "pass4 = andthen (gets ctx_lastino) (\<lambda>lastino. each pass4_inode [ROOTINO..<lastino + 1])"

section \<open>Pass 5: the cylinder groups\<close>

definition CG_IUSED :: nat where "CG_IUSED = 724"
definition CG_FREE :: nat where "CG_FREE = 984"
definition CG_MAGIC :: int where "CG_MAGIC = 0x090255"
definition MAXCPG :: int where "MAXCPG = 32"
definition NRPOS :: int where "NRPOS = 8"

definition cg_int :: "nat \<Rightarrow> buf \<Rightarrow> int" where
  "cg_int p b = sint (get32 b p)"

definition add32 :: "nat \<Rightarrow> int \<Rightarrow> buf \<Rightarrow> buf" where
  "add32 p d b = put32 b p (get32 b p + of_int d)"

definition add16 :: "nat \<Rightarrow> u16 \<Rightarrow> buf \<Rightarrow> buf" where
  "add16 p d b = put16 b p (get16 b p + d)"

text \<open>The cylinder and the rotational position of a block; \<open>None\<close> for a division by zero.\<close>

definition cbtocylno :: "int \<Rightarrow> fsck_ctx \<Rightarrow> int option" where
  "cbtocylno bno s = (if fs_spc s = 0 then None else Some (s32 (bno * fs_nspf s) sdiv fs_spc s))"

definition cbtorpos :: "int \<Rightarrow> fsck_ctx \<Rightarrow> int option" where
  "cbtorpos bno s = (if fs_spc s = 0 \<or> fs_nsect s = 0 then None
     else Some (s32 (s32 (bno * fs_nspf s) smod fs_spc s smod fs_nsect s * NRPOS) sdiv fs_nsect s))"

text \<open>A free block at \<open>i\<close>: the totals by cylinder and by position.\<close>

definition count_rotation :: "fsck_ctx \<Rightarrow> int \<Rightarrow> buf \<Rightarrow> buf option" where
  "count_rotation s i b =
     (case (cbtocylno i s, cbtorpos i s) of
        (Some j, Some rpos) \<Rightarrow>
          if j < 0 \<or> MAXCPG \<le> j \<or> rpos < 0 \<or> NRPOS \<le> rpos then None
          else Some (add16 (212 + nat j * 16 + nat rpos * 2) 1 (add32 (84 + nat j * 4) 1 b))
      | _ \<Rightarrow> None)"

definition frsum_of :: "buf \<Rightarrow> nat \<Rightarrow> u32" where
  "frsum_of b k = get32 b (52 + k * 4)"

definition put_frsum :: "(nat \<Rightarrow> u32) \<Rightarrow> buf \<Rightarrow> buf" where
  "put_frsum l b = fold (\<lambda>k b. put32 b (52 + k * 4) (l k)) [0..<8] b"

definition account_frags :: "nat \<Rightarrow> nat \<Rightarrow> buf \<Rightarrow> buf option" where
  "account_frags frag i b =
     map_option (\<lambda>l. put_frsum l b) (fragacct frag (blkmap frag b CG_FREE i) (frsum_of b) 1)"

text \<open>The fragments \<open>i, \<dots>, i + n - 1\<close> of the group at \<open>dbase\<close> that are not in the map of used blocks.\<close>

definition unused_frags :: "fsck_ctx \<Rightarrow> int \<Rightarrow> nat \<Rightarrow> nat \<Rightarrow> nat list" where
  "unused_frags s dbase i n = filter (\<lambda>k. \<not> free_bit (ctx_blockmap s) 0 (nat (dbase + int k))) [i..<i + n]"

definition set_bits :: "nat \<Rightarrow> nat list \<Rightarrow> buf \<Rightarrow> buf" where
  "set_bits off ks b = fold (\<lambda>k. set_bit8 off k) ks b"

definition rebuild_block :: "fsck_ctx \<Rightarrow> int \<Rightarrow> nat \<Rightarrow> buf \<Rightarrow> buf option" where
  "rebuild_block s dbase i b =
     (let frag = nat (fs_frag s);
          free = unused_frags s dbase i frag;
          frags = length free;
          b = set_bits CG_FREE free b in
      if frags = frag then count_rotation s (int i) (add32 28 1 b)
      else if 0 < frags then account_frags frag i (add32 36 (int frags) b)
      else Some b)"

primrec rebuild_blocks :: "fsck_ctx \<Rightarrow> int \<Rightarrow> nat list \<Rightarrow> buf \<Rightarrow> buf option" where
  "rebuild_blocks s dbase [] b = Some b"
| "rebuild_blocks s dbase (i # is) b = (case rebuild_block s dbase i b of
     None \<Rightarrow> None | Some b \<Rightarrow> rebuild_blocks s dbase is b)"

text \<open>The fragments behind the last whole block.\<close>

definition rebuild_tail :: "fsck_ctx \<Rightarrow> int \<Rightarrow> nat \<Rightarrow> nat \<Rightarrow> buf \<Rightarrow> buf option" where
  "rebuild_tail s dbase i n b =
     (let free = unused_frags s dbase i n;
          b = add32 36 (int (length free)) (set_bits CG_FREE free b) in
      if n \<noteq> 0 then account_frags (nat (fs_frag s)) i b else Some b)"

text \<open>The map of the fragments and the counters that depend on it; \<open>dmax\<close> is the end of the group.\<close>

definition rebuild_frags :: "fsck_ctx \<Rightarrow> int \<Rightarrow> int \<Rightarrow> buf \<Rightarrow> buf option" where
  "rebuild_frags s dbase dmax b =
     (let frag = nat (fs_frag s); n = nat (dmax - dbase); whole = n div frag in
      if fs_frag s \<le> 0 \<or> 0 < n \<and> \<not> (in_map dbase s \<and> in_map (dmax - 1) s) then None
      else case rebuild_blocks s dbase (map (\<lambda>k. k * frag) [0..<whole]) b of None \<Rightarrow> None
      | Some b \<Rightarrow> rebuild_tail s dbase (whole * frag) (n mod frag) b)"

text \<open>The inodes: the map, the number of free ones and the number of directories.\<close>

definition rebuild_inode :: "(nat \<Rightarrow> istate) \<Rightarrow> nat \<Rightarrow> nat \<Rightarrow> buf \<Rightarrow> buf option" where
  "rebuild_inode st first i b =
     (let j = first + i; used = (\<lambda>b. set_bit8 CG_IUSED i (add32 32 (- 1) b)) in
      case st j of
        USTATE \<Rightarrow> Some b
      | FSTATE \<Rightarrow> Some (used b)
      | FCLEAR \<Rightarrow> Some (used b)
      | UNSET \<Rightarrow> if j < ROOTINO then Some b else None
      | _ \<Rightarrow> Some (used (add32 24 1 b)))"

primrec rebuild_inodes :: "(nat \<Rightarrow> istate) \<Rightarrow> nat \<Rightarrow> nat list \<Rightarrow> buf \<Rightarrow> buf option" where
  "rebuild_inodes st first [] b = Some b"
| "rebuild_inodes st first (i # is) b = (case rebuild_inode st first i b of
     None \<Rightarrow> None | Some b \<Rightarrow> rebuild_inodes st first is b)"

text \<open>The header: the group as it is found is \<open>old\<close>.\<close>

definition rotor :: "nat \<Rightarrow> int \<Rightarrow> buf \<Rightarrow> u32" where
  "rotor p limit old = (if cg_int p old < limit then get32 old p else 0)"

definition rebuild_header :: "fsck_ctx \<Rightarrow> nat \<Rightarrow> int \<Rightarrow> u32 \<Rightarrow> buf \<Rightarrow> buf" where
  "rebuild_header s c ndblk now old =
     (let b = put32 (\<lambda>_. 0) 980 (of_int CG_MAGIC);
          b = put32 b 8 (if cg_int 8 old < uint now then get32 old 8 else now);
          b = put32 b 12 (of_nat c);
          b = put16 b 16 (of_int (if int c = fs_ncg s - 1 then fs_ncyl s smod fs_cpg s else fs_cpg s));
          b = put16 b 18 (of_int (fs_ipg s));
          b = put32 b 20 (of_int ndblk);
          b = put32 b 32 (of_int (fs_ipg s));
          b = put32 b 40 (rotor 40 ndblk old);
          b = put32 b 44 (rotor 44 ndblk old) in
      put32 b 48 (rotor 48 (sint (of_int (fs_ipg s) :: u16)) old))"

definition rebuild_root :: "nat \<Rightarrow> buf \<Rightarrow> buf" where
  "rebuild_root c b = (if c = 0
     then fold (\<lambda>i b. add32 32 (- 1) (set_bit8 CG_IUSED i b)) [0..<ROOTINO] b else b)"

definition group_end :: "fsck_ctx \<Rightarrow> nat \<Rightarrow> int" where
  "group_end s c = min (s32 (cgbase (int c) s + fs_fpg s)) (fs_size s)"

text \<open>
  The group as it should be. An inode in no state ends the check; all other ways to \<open>None\<close> are
  undefined.
\<close>

definition rebuild_group :: "fsck_ctx \<Rightarrow> nat \<Rightarrow> u32 \<Rightarrow> buf \<Rightarrow> errno + buf" where
  "rebuild_group s c now old =
     (let dbase = cgbase (int c) s; dmax = group_end s c; ndblk = s32 (dmax - dbase) in
      if fs_cpg s = 0 \<or> fs_cgsize s < 0 \<or> MAXBSIZE < fs_cgsize s then Inl UNDEF
      else
      case rebuild_inodes (ctx_statemap s) (nat (fs_ipg s) * c) [0..<nat (fs_ipg s)]
          (rebuild_header s c ndblk now old) of
        None \<Rightarrow> Inl (EXIT 8)
      | Some b \<Rightarrow> (case rebuild_frags s dbase dmax (rebuild_root c b) of
          None \<Rightarrow> Inl UNDEF | Some b \<Rightarrow> Inr b))"

definition same_bytes :: "buf \<Rightarrow> buf \<Rightarrow> nat \<Rightarrow> nat \<Rightarrow> bool" where
  "same_bytes a b p n = list_all (\<lambda>i. a i = b i) [p..<p + n]"

text \<open>Comparing a range with what it should be, and correcting it.\<close>

definition correct :: "area \<Rightarrow> buf \<Rightarrow> nat \<Rightarrow> nat \<Rightarrow> inodesc \<Rightarrow> inodesc ck" where
  "correct a new p n idesc =
     andthen (data_of a) (\<lambda>old.
     if same_bytes new old p n then ret idesc
     else
     andthen (dofix idesc) (\<lambda>(yes, idesc).
     andthen (only_if yes
       (andthen (edit a (\<lambda>b. blit b p n (\<lambda>i. new (p + i)))) (\<lambda>_. set_dirty a))) (\<lambda>_.
     ret idesc)))"

definition map_size :: "fsck_ctx \<Rightarrow> nat" where
  "map_size s = 260 + nat ((fs_fpg s + 7) sdiv 8)"

text \<open>The entry of the group in the summary area.\<close>

definition correct_csum :: "nat \<Rightarrow> buf \<Rightarrow> inodesc \<Rightarrow> inodesc ck" where
  "correct_csum c new idesc =
     andthen (gets (\<lambda>s. (fs_csshift s, fs_csmask s))) (\<lambda>(sh, m).
     andthen (shift_right (int c) sh) (\<lambda>j.
     let p = nat (int c AND NOT m) * 16 in
     if j < 0 \<or> 32 \<le> j then fail UNDEF
     else
     andthen (gets (\<lambda>s. ctx_csp s (nat j))) (\<lambda>old.
     if list_of new 24 16 = list_of old p 16 then ret idesc
     else
     andthen (dofix idesc) (\<lambda>(yes, idesc).
     andthen (only_if yes
       (andthen (modify (\<lambda>s. s\<lparr>ctx_csp := (ctx_csp s)(nat j := blit old p 16 (\<lambda>i. new (24 + i)))\<rparr>)) (\<lambda>_.
        set_dirty Sblk))) (\<lambda>_.
     ret idesc)))))"

text \<open>The totals, at the place they have in the superblock.\<close>

definition add_totals :: "buf \<Rightarrow> buf \<Rightarrow> buf" where
  "add_totals totals new = fold (\<lambda>k b. put32 b (192 + k * 4) (get32 b (192 + k * 4) + get32 new (24 + k * 4)))
     [0..<4] totals"

primrec pass5_groups :: "nat list \<Rightarrow> u32 \<Rightarrow> buf \<Rightarrow> inodesc \<Rightarrow> (buf \<times> inodesc) ck" where
  "pass5_groups [] now totals idesc = ret (totals, idesc)"
| "pass5_groups (c # cs) now totals idesc =
     andthen (gets (\<lambda>s. (cgtod (int c) s, fs_cgsize s))) (\<lambda>(blk, sz).
     andthen (getblk Cgblk blk sz) (\<lambda>_.
     andthen (data_of Cgblk) (\<lambda>old.
     andthen (only_if (cg_int 980 old \<noteq> CG_MAGIC) pfatal) (\<lambda>_.
     andthen (gets (\<lambda>s. (rebuild_group s c now old, map_size s))) (\<lambda>(r, msize). case r of
       Inl e \<Rightarrow> fail e
     | Inr new \<Rightarrow>
       andthen (correct Cgblk new CG_IUSED msize idesc) (\<lambda>idesc.
       andthen (correct Cgblk new 0 CG_IUSED idesc) (\<lambda>idesc.
       andthen (correct_csum c new idesc) (\<lambda>idesc.
       pass5_groups cs now (add_totals totals new) idesc))))))))"

definition pass5 :: "unit ck" where
  "pass5 =
     andthen host_time (\<lambda>now.
     andthen (gets fs_ncg) (\<lambda>ncg.
     andthen (pass5_groups [0..<nat ncg] now (\<lambda>_. 0) (new_inodesc ADDR Pass4check 0)) (\<lambda>(totals, idesc).
     andthen (data_of Sblk) (\<lambda>old.
     if same_bytes totals old 192 16 then skip
     else
     andthen (dofix idesc) (\<lambda>(yes, _).
     only_if yes
       (andthen (edit Sblk (\<lambda>b. (blit b 192 16 (\<lambda>i. totals (192 + i)))(210 := 0, 208 := 0))) (\<lambda>_.
        set_dirty Sblk)))))))"

end
