(* ===== verification/FsckGroups.thy ===== *)
theory FsckGroups
  imports FsckPasses AllocOk
begin

text \<open>
  The cylinder groups that pass 5 computes from the map of used blocks: the map of free fragments is
  its complement, and the counters of the group are those of the map, as the allocator keeps them.
\<close>

section \<open>Cells in the order of the host\<close>

lemma get_put32 [cell_simps]: "get32 (put32 b p v) p = v"
proof (rule bit_word_eqI)
  fix n assume "n < LENGTH(32)"
  then show "bit (get32 (put32 b p v) p) n \<longleftrightarrow> bit v n"
    unfolding get32_def read_le32_def put32_def
    by (cases "n < 8"; cases "n < 16"; cases "n < 24") (auto simp: bit_simps)
qed

lemma put32_other [cell_simps]: "i < p \<or> p + 4 \<le> i \<Longrightarrow> put32 b p v i = b i"
  by (auto simp: put32_def)

lemma put16_other [cell_simps]: "i < p \<or> p + 2 \<le> i \<Longrightarrow> put16 b p v i = b i"
  by (auto simp: put16_def)

lemma get32_cong: "(\<And>i. p \<le> i \<Longrightarrow> i < p + 4 \<Longrightarrow> b i = c i) \<Longrightarrow> get32 b p = get32 c p"
  by (simp add: get32_def read_le32_def)

lemma get32_put32_other [cell_simps]: "q + 4 \<le> p \<or> p + 4 \<le> q \<Longrightarrow> get32 (put32 b p v) q = get32 b q"
  by (rule get32_cong) (auto simp: cell_simps)

lemma get32_put16_other [cell_simps]: "q + 4 \<le> p \<or> p + 2 \<le> q \<Longrightarrow> get32 (put16 b p v) q = get32 b q"
  by (rule get32_cong) (auto simp: cell_simps)

lemma get32_add32 [cell_simps]: "get32 (add32 p d b) p = get32 b p + of_int d"
  "q + 4 \<le> p \<or> p + 4 \<le> q \<Longrightarrow> get32 (add32 p d b) q = get32 b q"
  by (simp_all add: add32_def cell_simps)

lemma get32_add16 [cell_simps]: "q + 4 \<le> p \<or> p + 2 \<le> q \<Longrightarrow> get32 (add16 p d b) q = get32 b q"
  by (simp add: add16_def cell_simps)

text \<open>A change below the map does not change the map.\<close>

lemma free_bit_cong: "(\<And>i. off \<le> i \<Longrightarrow> b i = c i) \<Longrightarrow> free_bit b off = free_bit c off"
  by (simp add: fun_eq_iff free_bit_iff)

lemma free_map_put [cell_simps]:
  "p + 4 \<le> 984 \<Longrightarrow> free_map (put32 b p v) = free_map b"
  "p + 2 \<le> 984 \<Longrightarrow> free_map (put16 b p u) = free_map b"
  "p + 4 \<le> 984 \<Longrightarrow> free_map (add32 p d b) = free_map b"
  "p + 2 \<le> 984 \<Longrightarrow> free_map (add16 p u b) = free_map b"
  unfolding free_map_def add32_def add16_def CG_FREE_OFF_def
  by (rule free_bit_cong; simp add: cell_simps)+

lemma CG_FREE_eq: "CG_FREE = CG_FREE_OFF"
  by (simp add: FsckPasses.CG_FREE_def CG_FREE_OFF_def)

lemma set_bits_free [cell_simps]:
  "free_map (set_bits CG_FREE ks b) = (\<lambda>k. free_map b k \<or> k \<in> set ks)"
  unfolding set_bits_def CG_FREE_eq
  by (induction ks arbitrary: b) (auto simp: free_map_set_bit)

lemma set_bits_below [cell_simps]: "i < off \<Longrightarrow> set_bits off ks b i = b i"
  unfolding set_bits_def by (induction ks arbitrary: b) auto

lemma get32_set_bits [cell_simps]: "p + 4 \<le> off \<Longrightarrow> get32 (set_bits off ks b) p = get32 b p"
  by (rule get32_cong) (simp add: cell_simps)

text \<open>The counts of runs, written back.\<close>

lemma put_frsum_unfold: "put_frsum l b = put32 (put32 (put32 (put32 (put32 (put32 (put32 (put32 b
    52 (l 0)) 56 (l 1)) 60 (l 2)) 64 (l 3)) 68 (l 4)) 72 (l 5)) 76 (l 6)) 80 (l 7)"
proof -
  have "[0..<8] = [0, 1, 2, 3, 4, 5, 6, 7 :: nat]" by (simp add: upt_rec)
  then show ?thesis by (simp add: put_frsum_def)
qed

lemma frsum_put_frsum: "k < 8 \<Longrightarrow> frsum_of (put_frsum l b) k = l k"
proof -
  assume "k < 8"
  then consider "k = 0" | "k = 1" | "k = 2" | "k = 3" | "k = 4" | "k = 5" | "k = 6" | "k = 7" by linarith
  then show ?thesis by cases (simp_all add: put_frsum_unfold frsum_of_def cell_simps)
qed

lemma put_frsum_other [cell_simps]:
  "p + 4 \<le> 52 \<Longrightarrow> get32 (put_frsum l b) p = get32 b p"
  "free_map (put_frsum l b) = free_map b"
  by (simp_all add: put_frsum_unfold cell_simps)

section \<open>The accounts, block by block\<close>

text \<open>The accounts of the first \<open>nb\<close> blocks, read in the order of the host.\<close>

definition host_accounts :: "nat \<Rightarrow> nat \<Rightarrow> buf \<Rightarrow> bool" where
  "host_accounts n nb b \<longleftrightarrow>
     get32 b 28 = (\<Sum>c<nb. if blk_full (free_map b) n c then 1 else 0) \<and>
     get32 b 36 = (\<Sum>c<nb. of_nat (blk_frags (free_map b) n c)) \<and>
     (\<forall>k. 1 \<le> k \<and> k < n \<longrightarrow> frsum_of b k = (\<Sum>c<nb. of_nat (blk_runs (free_map b) n c k)))"

lemma host_accounts_Suc:
  assumes "host_accounts n m b"
    and same: "\<And>k. k < m * n \<Longrightarrow> free_map c k = free_map b k"
    and full: "get32 c 28 = get32 b 28 + (if blk_full (free_map c) n m then 1 else 0)"
    and frags: "get32 c 36 = get32 b 36 + of_nat (blk_frags (free_map c) n m)"
    and runs: "\<And>k. 1 \<le> k \<Longrightarrow> k < n \<Longrightarrow> frsum_of c k = frsum_of b k + of_nat (blk_runs (free_map c) n m k)"
  shows "host_accounts n (Suc m) c"
proof -
  have below: "d * n + i < m * n" if "d < m" "i < n" for d i
  proof -
    have "d * n + i < (d + 1) * n" using that by simp
    also have "\<dots> \<le> m * n" using that by (intro mult_le_mono1) simp
    finally show ?thesis .
  qed
  have blk: "blk_full (free_map c) n d = blk_full (free_map b) n d"
    "blk_frags (free_map c) n d = blk_frags (free_map b) n d"
    "blk_runs (free_map c) n d k = blk_runs (free_map b) n d k" if "d < m" for d k
    using blk_cong [of n "free_map c" d "free_map b"] same below that by blast+
  show ?thesis using assms(1) unfolding host_accounts_def by (simp add: full frags runs blk)
qed

lemma no_shorter_run: "(\<And>j. j < n \<Longrightarrow> P j) \<Longrightarrow> k < n \<Longrightarrow> \<not> max_run P n i k"
  unfolding max_run_def by (cases "i = 0") (auto dest: meta_spec [of _ "i - 1"])

lemma blk_full_runs: "blk_full F n b \<Longrightarrow> k < n \<Longrightarrow> blk_runs F n b k = 0"
  using no_shorter_run [of n "\<lambda>i. F (b * n + i)" k] by (simp add: blk_full_def blk_runs_def runs_def)

lemma account_frags:
  assumes frag: "frag \<in> {1, 2, 4, 8}" and run: "account_frags frag (m * frag) b = Some c"
  shows "p + 4 \<le> 52 \<Longrightarrow> get32 c p = get32 b p" "free_map c = free_map b"
    and "1 \<le> k \<Longrightarrow> k < frag \<Longrightarrow> frsum_of c k = frsum_of b k + of_nat (blk_runs (free_map b) frag m k)"
proof -
  let ?m = "blkmap frag b CG_FREE (m * frag)"
  obtain l where l: "fragacct frag ?m (frsum_of b) 1 = Some l"
    "\<And>k. 0 < k \<Longrightarrow> k < frag \<Longrightarrow> l k = frsum_of b k + of_nat (runs (bit (int ?m)) frag k)"
    using fragacct_runs [OF frag blkmap_bits(2) [OF frag], of b CG_FREE m "frsum_of b" 1] by auto
  then have c: "c = put_frsum l b" using run by (simp add: account_frags_def)
  show "p + 4 \<le> 52 \<Longrightarrow> get32 c p = get32 b p" "free_map c = free_map b" by (simp_all add: c cell_simps)
  assume k: "1 \<le> k" "k < frag"
  have "max_run (bit (int ?m)) frag i k = max_run (\<lambda>i. free_map b (m * frag + i)) frag i k" for i
    using blkmap_bits(1) [OF frag] by (intro max_run_cong) (simp add: free_map_def CG_FREE_eq)
  then have "runs (bit (int ?m)) frag k = blk_runs (free_map b) frag m k"
    by (simp add: blk_runs_def runs_def)
  moreover have "k < 8" using k frag by auto
  ultimately show "frsum_of c k = frsum_of b k + of_nat (blk_runs (free_map b) frag m k)"
    using k l(2) by (simp add: c frsum_put_frsum)
qed

text \<open>The free fragments of a block, as the pass collects them.\<close>

definition unused :: "fsck_ctx \<Rightarrow> int \<Rightarrow> nat \<Rightarrow> bool" where
  "unused s dbase k \<longleftrightarrow> \<not> free_bit (ctx_blockmap s) 0 (nat (dbase + int k))"

lemma unused_frags_set: "set (unused_frags s dbase i n) = {k. i \<le> k \<and> k < i + n \<and> unused s dbase k}"
  by (auto simp: unused_frags_def unused_def)

lemma length_unused_frags: "length (unused_frags s dbase i n) = card {j. j < n \<and> unused s dbase (i + j)}"
proof -
  have "length (unused_frags s dbase i n) = card {k. i \<le> k \<and> k < i + n \<and> unused s dbase k}"
    unfolding unused_frags_set [symmetric]
    by (rule distinct_card [symmetric]) (simp add: unused_frags_def)
  also have "{k. i \<le> k \<and> k < i + n \<and> unused s dbase k} = (+) i ` {j. j < n \<and> unused s dbase (i + j)}"
  proof (intro equalityI subsetI)
    fix k assume "k \<in> {k. i \<le> k \<and> k < i + n \<and> unused s dbase k}"
    then have "k = i + (k - i)" "k - i < n" "unused s dbase (i + (k - i))" by auto
    then show "k \<in> (+) i ` {j. j < n \<and> unused s dbase (i + j)}" by blast
  qed auto
  also have "card \<dots> = card {j. j < n \<and> unused s dbase (i + j)}" by (simp add: card_image)
  finally show ?thesis .
qed

lemma all_unused: "length (unused_frags s dbase i n) = n \<longleftrightarrow> (\<forall>j<n. unused s dbase (i + j))"
proof -
  have "{j. j < n \<and> unused s dbase (i + j)} \<subseteq> {..<n}" by blast
  then have "card {j. j < n \<and> unused s dbase (i + j)} = n \<longleftrightarrow>
      {j. j < n \<and> unused s dbase (i + j)} = {..<n}"
    by (metis card_lessThan card_subset_eq finite_lessThan)
  then show ?thesis unfolding length_unused_frags by auto
qed

text \<open>What a group looks like when the pass has done its first \<open>m\<close> blocks.\<close>

definition done_blocks :: "fsck_ctx \<Rightarrow> int \<Rightarrow> nat \<Rightarrow> nat \<Rightarrow> nat \<Rightarrow> buf \<Rightarrow> bool" where
  "done_blocks s dbase n m e b \<longleftrightarrow> host_accounts n m b \<and> free_map b = (\<lambda>k. k < e \<and> unused s dbase k)"

lemma set_bits_done:
  assumes "done_blocks s dbase n m (m * n) b"
  shows "free_map (set_bits CG_FREE (unused_frags s dbase (m * n) j) b) = (\<lambda>k. k < m * n + j \<and> unused s dbase k)"
  using assms unfolding done_blocks_def set_bits_free unused_frags_set by (auto intro!: ext)

lemma blk_full_done:
  assumes "F = (\<lambda>k. k < m * n + j \<and> unused s dbase k)" "j \<le> n"
  shows "blk_full F n m \<longleftrightarrow> j = n \<and> length (unused_frags s dbase (m * n) j) = j"
proof
  assume full: "blk_full F n m"
  show "j = n \<and> length (unused_frags s dbase (m * n) j) = j"
  proof (cases "n = 0")
    case False
    then have "n - 1 < j" using full assms by (auto simp: blk_full_def)
    then show ?thesis using full assms by (auto simp: blk_full_def all_unused)
  qed (use assms in \<open>simp add: unused_frags_def\<close>)
next
  assume "j = n \<and> length (unused_frags s dbase (m * n) j) = j"
  then show "blk_full F n m" using assms(1) by (auto simp: blk_full_def all_unused)
qed

lemma blk_frags_done:
  assumes "F = (\<lambda>k. k < m * n + j \<and> unused s dbase k)" "j \<le> n"
  shows "blk_frags F n m = (if blk_full F n m then 0 else length (unused_frags s dbase (m * n) j))"
proof -
  have "{i. i < n \<and> F (m * n + i)} = {i. i < j \<and> unused s dbase (m * n + i)}" using assms by auto
  then show ?thesis by (simp add: blk_frags_def length_unused_frags)
qed

lemma count_rotation_frame:
  assumes "count_rotation s i b = Some c"
  shows "p + 4 \<le> 84 \<Longrightarrow> get32 c p = get32 b p" "free_map c = free_map b"
proof -
  obtain j r where j: "0 \<le> j" "j < MAXCPG" "0 \<le> r" "r < FsckPasses.NRPOS"
    "c = add16 (212 + nat j * 16 + nat r * 2) 1 (add32 (84 + nat j * 4) 1 b)"
    using assms by (fastforce simp: count_rotation_def not_le not_less split: option.splits if_splits)
  then have bounds: "nat j < 32" "nat r < 8" by (simp_all add: MAXCPG_def FsckPasses.NRPOS_def)
  show "p + 4 \<le> 84 \<Longrightarrow> get32 c p = get32 b p" "free_map c = free_map b"
    using bounds by (simp_all add: j(5) cell_simps)
qed

lemma rebuild_block_done:
  assumes frag: "frag \<in> {1, 2, 4, 8}" "nat (fs_frag s) = frag"
    and before: "done_blocks s dbase frag m (m * frag) b"
    and run: "rebuild_block s dbase (m * frag) b = Some c"
  shows "done_blocks s dbase frag (Suc m) (Suc m * frag) c"
proof -
  let ?free = "unused_frags s dbase (m * frag) frag"
  let ?b = "set_bits CG_FREE ?free b"
  let ?F = "\<lambda>k. k < m * frag + frag \<and> unused s dbase k"
  have F: "free_map ?b = ?F" by (rule set_bits_done [OF before])
  have cells: "get32 ?b p = get32 b p" if "p + 4 \<le> 984" for p
    using that by (simp add: cell_simps FsckPasses.CG_FREE_def)
  then have sums: "frsum_of ?b k = frsum_of b k" if "k < 8" for k using that by (simp add: frsum_of_def)
  have full: "blk_full ?F frag m \<longleftrightarrow> length ?free = frag" by (subst blk_full_done [OF refl]) auto
  have frags: "blk_frags ?F frag m = (if length ?free = frag then 0 else length ?free)"
    by (simp add: blk_frags_done [OF refl] full)
  have pos: "0 < frag" "\<And>k. k < frag \<Longrightarrow> k < 8" using frag by auto
  consider (all) "length ?free = frag" | (some) "length ?free \<noteq> frag" "0 < length ?free" | (none) "length ?free = 0"
    by linarith
  then have "free_map c = ?F \<and> get32 c 28 = get32 b 28 + (if blk_full ?F frag m then 1 else 0) \<and>
      get32 c 36 = get32 b 36 + of_nat (blk_frags ?F frag m) \<and>
      (\<forall>k. 1 \<le> k \<and> k < frag \<longrightarrow> frsum_of c k = frsum_of b k + of_nat (blk_runs ?F frag m k))"
  proof cases
    case all
    then have c: "count_rotation s (int (m * frag)) (add32 28 1 ?b) = Some c"
      using run by (simp add: rebuild_block_def frag(2) Let_def)
    have "frsum_of c k = frsum_of b k + of_nat (blk_runs ?F frag m k)" if "1 \<le> k" "k < frag" for k
      using that all pos(2) [of k] blk_full_runs [of ?F frag m k] full sums
      by (simp add: frsum_of_def count_rotation_frame(1) [OF c] cell_simps cells)
    then show ?thesis
      using all by (simp add: full frags count_rotation_frame [OF c] get32_add32 free_map_put F cells)
  next
    case some
    then have c: "account_frags frag (m * frag) (add32 36 (int (length ?free)) ?b) = Some c"
      using run by (simp add: rebuild_block_def frag(2) Let_def)
    have "frsum_of c k = frsum_of b k + of_nat (blk_runs ?F frag m k)" if "1 \<le> k" "k < frag" for k
      using account_frags(3) [OF frag(1) c that] sums [of k] pos(2) [of k] that
      by (simp add: get32_add32 free_map_put F frsum_of_def)
    then show ?thesis
      using some by (simp add: full frags account_frags(1,2) [OF frag(1) c] get32_add32 free_map_put F cells)
  next
    case none
    then have c: "c = ?b" using run pos by (simp add: rebuild_block_def frag(2) Let_def)
    have "set ?free = {}" using none by simp
    then have "\<not> ?F (m * frag + i)" if "i < frag" for i using that unfolding unused_frags_set by auto
    from blk_none [of frag ?F m, OF this pos(1)] show ?thesis
      using none pos by (simp add: c full frags F cells sums del: length_0_conv)
  qed
  then show ?thesis
    using host_accounts_Suc [of frag m b c] before
    by (simp add: done_blocks_def add.commute [of frag])
qed

lemma rebuild_blocks_done:
  assumes frag: "frag \<in> {1, 2, 4, 8}" "nat (fs_frag s) = frag"
  shows "done_blocks s dbase frag m (m * frag) b \<Longrightarrow>
    rebuild_blocks s dbase (map (\<lambda>k. k * frag) [m..<m + w]) b = Some c \<Longrightarrow>
    done_blocks s dbase frag (m + w) ((m + w) * frag) c"
proof (induction w arbitrary: m b)
  case (Suc w)
  have "[m..<m + Suc w] = m # [Suc m..<Suc m + w]" by (simp add: upt_conv_Cons)
  then obtain b' where "rebuild_block s dbase (m * frag) b = Some b'"
    and rest: "rebuild_blocks s dbase (map (\<lambda>k. k * frag) [Suc m..<Suc m + w]) b' = Some c"
    using Suc.prems(2) by (auto split: option.splits)
  from rebuild_block_done [OF frag Suc.prems(1) this(1)] have "done_blocks s dbase frag (Suc m) (Suc m * frag) b'" .
  from Suc.IH [OF this rest] show ?case by (simp add: add.commute add.left_commute)
qed simp

lemma rebuild_tail_done:
  assumes frag: "frag \<in> {1, 2, 4, 8}" "nat (fs_frag s) = frag"
    and before: "done_blocks s dbase frag m (m * frag) b" and j: "j < frag"
    and run: "rebuild_tail s dbase (m * frag) j b = Some c"
  shows "done_blocks s dbase frag (m + (if j = 0 then 0 else 1)) (m * frag + j) c"
proof -
  let ?free = "unused_frags s dbase (m * frag) j"
  let ?b = "set_bits CG_FREE ?free b"
  let ?F = "\<lambda>k. k < m * frag + j \<and> unused s dbase k"
  have F: "free_map ?b = ?F" by (rule set_bits_done [OF before])
  have cells: "get32 ?b p = get32 b p" if "p + 4 \<le> 984" for p
    using that by (simp add: cell_simps FsckPasses.CG_FREE_def)
  show ?thesis
  proof (cases "j = 0")
    case True
    then have "c = add32 36 0 b" using run by (simp add: rebuild_tail_def unused_frags_def set_bits_def Let_def)
    with before True show ?thesis
      by (simp add: done_blocks_def host_accounts_def frsum_of_def cell_simps)
  next
    case False
    then have c: "account_frags frag (m * frag) (add32 36 (int (length ?free)) ?b) = Some c"
      using run by (simp add: rebuild_tail_def frag(2) Let_def)
    have full: "\<not> blk_full ?F frag m" using j by (subst blk_full_done [OF refl]) auto
    have "blk_frags ?F frag m = length ?free" using j full by (simp add: blk_frags_done [OF refl])
    moreover have "frsum_of c k = frsum_of b k + of_nat (blk_runs ?F frag m k)" if "1 \<le> k" "k < frag" for k
    proof -
      have "k < 8" using that frag(1) by auto
      then have "frsum_of ?b k = frsum_of b k" by (simp add: frsum_of_def cells)
      then show ?thesis
        using account_frags(3) [OF frag(1) c that] by (simp add: get32_add32 free_map_put F frsum_of_def)
    qed
    moreover have "free_map c = ?F" "get32 c 28 = get32 b 28" "get32 c 36 = get32 b 36 + of_nat (length ?free)"
      by (simp_all add: account_frags(1,2) [OF frag(1) c] get32_add32 free_map_put F cells)
    ultimately show ?thesis
      using host_accounts_Suc [of frag m b c] before False full by (simp add: done_blocks_def)
  qed
qed

text \<open>All fragments of a group of \<open>n\<close> fragments.\<close>

lemma rebuild_frags_done:
  assumes frag: "frag \<in> {1, 2, 4, 8}" "nat (fs_frag s) = frag"
    and run: "rebuild_frags s dbase dmax b = Some c" and n: "n = nat (dmax - dbase)"
    and zero: "free_map b = (\<lambda>_. False)" "host_accounts frag 0 b"
  shows "host_accounts frag (nblk frag n) c" "free_map c = (\<lambda>k. k < n \<and> unused s dbase k)"
proof -
  obtain b' where b': "rebuild_blocks s dbase (map (\<lambda>k. k * frag) [0..<0 + n div frag]) b = Some b'"
    and tail: "rebuild_tail s dbase (n div frag * frag) (n mod frag) b' = Some c"
    using run by (auto simp: rebuild_frags_def Let_def frag(2) n split: if_splits option.splits)
  have "done_blocks s dbase frag 0 (0 * frag) b" using zero by (simp add: done_blocks_def)
  from rebuild_blocks_done [OF frag this b']
  have "done_blocks s dbase frag (n div frag) (n div frag * frag) b'" by simp
  moreover have pos: "0 < frag" using frag(1) by auto
  ultimately have "done_blocks s dbase frag (n div frag + (if n mod frag = 0 then 0 else 1))
      (n div frag * frag + n mod frag) c"
    using rebuild_tail_done [OF frag _ _ tail] by simp
  moreover have "nblk frag n = n div frag + (if n mod frag = 0 then 0 else 1)"
    using frag(1) unfolding nblk_def by (elim insertE) (simp_all, presburger+)
  ultimately show "host_accounts frag (nblk frag n) c" "free_map c = (\<lambda>k. k < n \<and> unused s dbase k)"
    by (simp_all add: done_blocks_def)
qed

text \<open>Only the counters of blocks and fragments, the rotational counts and the map change.\<close>

definition frag_side :: "nat \<Rightarrow> bool" where
  "frag_side i \<longleftrightarrow> 28 \<le> i \<and> i < 32 \<or> 36 \<le> i \<and> i < 40 \<or> 52 \<le> i \<and> i < 724 \<or> 984 \<le> i"

lemma account_frags_frame: "account_frags frag m b = Some c \<Longrightarrow> \<not> frag_side i \<Longrightarrow> c i = b i"
  by (auto simp: account_frags_def put_frsum_unfold put32_other frag_side_def)

lemma set_bits_frame: "\<not> frag_side i \<Longrightarrow> set_bits CG_FREE ks b i = b i"
  by (simp add: set_bits_below FsckPasses.CG_FREE_def frag_side_def)

lemma account_frags_add_frame:
  "account_frags frag m (add32 36 d b) = Some c \<Longrightarrow> \<not> frag_side i \<Longrightarrow> c i = b i"
  by (drule (1) account_frags_frame) (auto simp: add32_def put32_other frag_side_def)

lemma count_rotation_add_frame:
  assumes "count_rotation s j (add32 28 d b) = Some c" "\<not> frag_side i"
  shows "c i = b i"
proof -
  obtain j r where j: "0 \<le> j" "j < MAXCPG" "0 \<le> r" "r < FsckPasses.NRPOS"
    "c = add16 (212 + nat j * 16 + nat r * 2) 1 (add32 (84 + nat j * 4) 1 (add32 28 d b))"
    using assms(1) by (fastforce simp: count_rotation_def not_le not_less split: option.splits if_splits)
  then have "nat j < 32" "nat r < 8" by (simp_all add: MAXCPG_def FsckPasses.NRPOS_def)
  then show ?thesis using assms(2) unfolding frag_side_def j(5)
    by (auto simp: add16_def add32_def put16_other put32_other)
qed

lemma rebuild_block_frame: "rebuild_block s dbase k b = Some c \<Longrightarrow> \<not> frag_side i \<Longrightarrow> c i = b i"
  by (auto simp: rebuild_block_def Let_def set_bits_frame split: if_splits
      dest: account_frags_add_frame count_rotation_add_frame)

lemma rebuild_blocks_frame: "rebuild_blocks s dbase ks b = Some c \<Longrightarrow> \<not> frag_side i \<Longrightarrow> c i = b i"
  by (induction ks arbitrary: b) (auto split: option.splits dest: rebuild_block_frame)

lemma rebuild_tail_frame: "rebuild_tail s dbase k n b = Some c \<Longrightarrow> \<not> frag_side i \<Longrightarrow> c i = b i"
  by (auto simp: rebuild_tail_def Let_def set_bits_frame split: if_splits dest: account_frags_add_frame)
    (auto simp: add32_def put32_other frag_side_def unused_frags_def set_bits_def)

lemma rebuild_frags_frame: "rebuild_frags s dbase dmax b = Some c \<Longrightarrow> \<not> frag_side i \<Longrightarrow> c i = b i"
  by (clarsimp simp: rebuild_frags_def Let_def split: if_splits option.splits)
    (metis rebuild_blocks_frame rebuild_tail_frame)

section \<open>The inodes\<close>

definition in_use :: "istate \<Rightarrow> bool" where "in_use st \<longleftrightarrow> st \<noteq> USTATE \<and> st \<noteq> UNSET"
definition is_directory :: "istate \<Rightarrow> bool" where "is_directory st \<longleftrightarrow> st \<in> {DSTATE, DCLEAR, DFOUND}"

text \<open>The inodes below \<open>k\<close> are entered: their bits, the free ones and the directories.\<close>

definition done_inodes :: "nat \<Rightarrow> (nat \<Rightarrow> istate) \<Rightarrow> nat \<Rightarrow> buf \<Rightarrow> bool" where
  "done_inodes ipg st k b \<longleftrightarrow> (\<forall>i<ipg. inode_used b i \<longleftrightarrow> i < k \<and> in_use (st i)) \<and>
     get32 b 32 = (\<Sum>i<ipg. if inode_used b i then 0 else 1) \<and>
     get32 b 24 = (\<Sum>i<k. if is_directory (st i) then 1 else 0)"

lemma CG_IUSED_eq: "CG_IUSED = CG_IUSED_OFF"
  by (simp add: FsckPasses.CG_IUSED_def CG_IUSED_OFF_def)

lemma inode_used_put [cell_simps]:
  "p + 4 \<le> 724 \<Longrightarrow> inode_used (put32 b p v) = inode_used b"
  "p + 2 \<le> 724 \<Longrightarrow> inode_used (put16 b p u) = inode_used b"
  "p + 4 \<le> 724 \<Longrightarrow> inode_used (add32 p d b) = inode_used b"
  unfolding inode_used_def [abs_def] add32_def CG_IUSED_OFF_def
  by (rule free_bit_cong; simp add: cell_simps)+

lemma inode_used_set [cell_simps]: "inode_used (set_bit8 CG_IUSED i b) = (\<lambda>k. inode_used b k \<or> k = i)"
  by (simp add: inode_used_def [abs_def] CG_IUSED_eq fun_eq_iff)

lemma get32_set_used [cell_simps]: "p + 4 \<le> 724 \<Longrightarrow> get32 (set_bit8 CG_IUSED i b) p = get32 b p"
  by (rule get32_cong) (simp add: FsckPasses.CG_IUSED_def)

lemma inode_entered:
  assumes "i < ipg" "\<not> inode_used b i" "get32 b 32 = (\<Sum>i<ipg. if inode_used b i then 0 else 1 :: u32)"
  shows "get32 b 32 - 1 = (\<Sum>k<ipg. if inode_used b k \<or> k = i then 0 else 1 :: u32)"
  using sum_update_word [OF assms(1), of "\<lambda>k. if inode_used b k \<or> k = i then 0 else 1"
      "\<lambda>k. if inode_used b k then 0 else 1"] assms(2,3) by simp

lemma rebuild_inode_done:
  assumes "done_inodes ipg (\<lambda>i. st (first + i)) k b" "k < ipg" "rebuild_inode st first k b = Some c"
  shows "done_inodes ipg (\<lambda>i. st (first + i)) (Suc k) c"
proof -
  note before = assms(1) [unfolded done_inodes_def]
  have free: "\<not> inode_used b k" using before assms(2) by simp
  have map: "i < Suc k \<and> in_use (st (first + i)) \<longleftrightarrow> inode_used b i \<or> i = k \<and> in_use (st (first + k))"
    if "i < ipg" for i
    using before that by (auto simp: less_Suc_eq)
  have "get32 b 32 = (\<Sum>i<ipg. if inode_used b i then 0 else 1)" using before by blast
  note entered = inode_entered [OF assms(2) free this]
  let ?use = "in_use (st (first + k))" and ?dir = "is_directory (st (first + k))"
  have c: "c = (if ?use then set_bit8 CG_IUSED k (add32 32 (- 1) (if ?dir then add32 24 1 b else b)) else b)"
    using assms(3)
    by (cases "st (first + k)")
      (auto simp: rebuild_inode_def Let_def in_use_def is_directory_def split: if_splits)
  have used: "inode_used c = (\<lambda>i. inode_used b i \<or> i = k \<and> ?use)"
    by (cases ?use) (simp_all add: c cell_simps)
  have "get32 c 32 = (\<Sum>i<ipg. if inode_used c i then 0 else 1)"
  proof (cases ?use)
    case True
    then have "get32 c 32 = get32 b 32 - 1" by (simp add: c cell_simps)
    then show ?thesis using entered True by (simp add: used)
  next
    case False
    then show ?thesis using before by (simp add: used) (simp add: c)
  qed
  moreover have "get32 c 24 = get32 b 24 + (if ?dir then 1 else 0)"
    by (auto simp: c cell_simps is_directory_def in_use_def)
  ultimately show ?thesis using before by (simp add: done_inodes_def used map)
qed

lemma rebuild_inodes_done:
  "done_inodes ipg (\<lambda>i. st (first + i)) k b \<Longrightarrow> k + n \<le> ipg \<Longrightarrow>
    rebuild_inodes st first [k..<k + n] b = Some c \<Longrightarrow> done_inodes ipg (\<lambda>i. st (first + i)) (k + n) c"
proof (induction n arbitrary: k b)
  case (Suc n)
  have "[k..<k + Suc n] = k # [Suc k..<Suc k + n]" by (simp add: upt_conv_Cons)
  then obtain b' where "rebuild_inode st first k b = Some b'"
    and rest: "rebuild_inodes st first [Suc k..<Suc k + n] b' = Some c"
    using Suc.prems(3) by (auto split: option.splits)
  with rebuild_inode_done [OF Suc.prems(1)] Suc.prems(2)
  have "done_inodes ipg (\<lambda>i. st (first + i)) (Suc k) b'" by simp
  from Suc.IH [OF this _ rest] Suc.prems(2) show ?case by simp
qed simp

section \<open>The whole group\<close>

lemma header_cells:
  "get32 (rebuild_header s c nd now old) 980 = of_int FsckPasses.CG_MAGIC"
  "get32 (rebuild_header s c nd now old) 20 = of_int nd"
  "get32 (rebuild_header s c nd now old) 24 = 0"
  "get32 (rebuild_header s c nd now old) 28 = 0"
  "get32 (rebuild_header s c nd now old) 32 = of_int (fs_ipg s)"
  "get32 (rebuild_header s c nd now old) 36 = 0"
  "52 \<le> p \<and> p + 4 \<le> 84 \<Longrightarrow> get32 (rebuild_header s c nd now old) p = 0"
  by (simp_all add: rebuild_header_def Let_def cell_simps) (simp_all add: get32_def read_le32_def)

lemma header_maps:
  "free_map (rebuild_header s c nd now old) = (\<lambda>_. False)"
  "i < 2048 \<Longrightarrow> \<not> inode_used (rebuild_header s c nd now old) i"
proof -
  show "free_map (rebuild_header s c nd now old) = (\<lambda>_. False)"
    by (simp add: rebuild_header_def Let_def free_map_def free_bit_iff fun_eq_iff CG_FREE_OFF_def
        put32_other put16_other)
  assume "i < 2048"
  then have "724 + i div 8 < 980" by linarith
  then show "\<not> inode_used (rebuild_header s c nd now old) i"
    by (simp add: rebuild_header_def Let_def inode_used_def free_bit_iff CG_IUSED_OFF_def
        put32_other put16_other)
qed

lemma host_accounts_0:
  "get32 b 28 = 0 \<Longrightarrow> get32 b 36 = 0 \<Longrightarrow> (\<And>p. 52 \<le> p \<and> p + 4 \<le> 84 \<Longrightarrow> get32 b p = 0) \<Longrightarrow> n \<le> 8 \<Longrightarrow>
    host_accounts n 0 b"
  by (simp add: host_accounts_def frsum_of_def)

text \<open>The root inodes of the first group, whose two first inodes are in no state.\<close>

definition group_inode :: "fsck_ctx \<Rightarrow> nat \<Rightarrow> nat \<Rightarrow> bool" where
  "group_inode s c i \<longleftrightarrow> in_use (ctx_statemap s (nat (fs_ipg s) * c + i)) \<or> c = 0 \<and> i < ROOTINO"

lemma rebuild_root_done:
  assumes before: "done_inodes (nat (fs_ipg s)) (\<lambda>i. ctx_statemap s (nat (fs_ipg s) * c + i)) (nat (fs_ipg s)) b"
    and ipg: "2 \<le> fs_ipg s" "c = 0 \<Longrightarrow> ctx_statemap s 0 = UNSET" "c = 0 \<Longrightarrow> ctx_statemap s 1 = UNSET"
  shows "\<forall>i<nat (fs_ipg s). inode_used (rebuild_root c b) i \<longleftrightarrow> group_inode s c i"
    and "get32 (rebuild_root c b) 32 = (\<Sum>i<nat (fs_ipg s). if inode_used (rebuild_root c b) i then 0 else 1)"
    and "get32 (rebuild_root c b) 24 = get32 b 24"
proof -
  let ?n = "nat (fs_ipg s)"
  note b = before [unfolded done_inodes_def]
  have "(\<forall>i<?n. inode_used (rebuild_root c b) i \<longleftrightarrow> group_inode s c i) \<and>
      get32 (rebuild_root c b) 32 = (\<Sum>i<?n. if inode_used (rebuild_root c b) i then 0 else 1) \<and>
      get32 (rebuild_root c b) 24 = get32 b 24"
  proof (cases "c = 0")
    case False
    then show ?thesis using b by (simp add: rebuild_root_def group_inode_def)
  next
    case True
    let ?b0 = "set_bit8 CG_IUSED 0 b"
    have root: "[0..<ROOTINO] = [0, 1]" by (simp add: ROOTINO_def upt_rec)
    then have r: "rebuild_root c b = add32 32 (- 1) (set_bit8 CG_IUSED 1 (add32 32 (- 1) (set_bit8 CG_IUSED 0 b)))"
      using True by (simp add: rebuild_root_def)
    have used: "inode_used (rebuild_root c b) = (\<lambda>i. (inode_used b i \<or> i = 0) \<or> i = 1)"
      by (simp add: r cell_simps)
    have free: "\<not> inode_used b 0" "\<not> inode_used b 1" using b True ipg by (auto simp: in_use_def)
    have b0: "inode_used ?b0 = (\<lambda>i. inode_used b i \<or> i = 0)" by (simp add: cell_simps)
    have "get32 b 32 - 1 - 1 = (\<Sum>i<?n. if (inode_used b i \<or> i = 0) \<or> i = 1 then 0 else 1)"
      using inode_entered [of 0 ?n b] inode_entered [of 1 ?n "add32 32 (- 1) ?b0"] free ipg(1) b
      by (simp add: b0 inode_used_put get32_add32 get32_set_used)
    moreover have "get32 (rebuild_root c b) 32 = get32 b 32 - 1 - 1" "get32 (rebuild_root c b) 24 = get32 b 24"
      by (simp_all add: r cell_simps)
    moreover have "\<forall>i<?n. inode_used (rebuild_root c b) i \<longleftrightarrow> group_inode s c i"
      unfolding used group_inode_def using b True by (auto simp: ROOTINO_def)
    ultimately show ?thesis unfolding used by metis
  qed
  then show "\<forall>i<?n. inode_used (rebuild_root c b) i \<longleftrightarrow> group_inode s c i"
    "get32 (rebuild_root c b) 32 = (\<Sum>i<?n. if inode_used (rebuild_root c b) i then 0 else 1)"
    "get32 (rebuild_root c b) 24 = get32 b 24"
    by blast+
qed

text \<open>On the disk the fields are in big-endian order; the maps are the same bytes.\<close>

lemma words_at_mem: "(p, 4) \<in> set (words_at q n) \<longleftrightarrow> (\<exists>i<n. p = q + i * 4)"
  by (auto simp: words_at_def image_iff)

lemma cg_field_cells:
  "p \<in> {20, 24, 28, 32, 36, 980} \<Longrightarrow> read_be32 (swap_cgblock b) p = get32 b p"
  "k < 8 \<Longrightarrow> read_be32 (swap_cgblock b) (52 + k * 4) = get32 b (52 + k * 4)"
proof -
  have cs: "(24 + i * 4, 4) \<in> set cg_fields" if "i < 4" for i
    using that by (auto simp: cg_fields_def csum_fields_def words_at_mem)
  have "(20, 4) \<in> set cg_fields" "(980, 4) \<in> set cg_fields" by (simp_all add: cg_fields_def)
  with cs [of 0] cs [of 1] cs [of 2] cs [of 3] have "p \<in> {20, 24, 28, 32, 36, 980} \<Longrightarrow> (p, 4) \<in> set cg_fields" by auto
  then show "p \<in> {20, 24, 28, 32, 36, 980} \<Longrightarrow> read_be32 (swap_cgblock b) p = get32 b p"
    unfolding swap_cgblock_def by (rule read_swapped(1) [OF cg_fields_ok])
  assume "k < 8"
  then have "(52 + k * 4, 4) \<in> set cg_fields" by (auto simp: cg_fields_def words_at_mem)
  then show "read_be32 (swap_cgblock b) (52 + k * 4) = get32 b (52 + k * 4)"
    unfolding swap_cgblock_def by (rule read_swapped(1) [OF cg_fields_ok])
qed

lemma cg_fields_below: "\<forall>(p, n) \<in> set cg_fields. p + n \<le> 724 \<or> (p, n) = (980, 4)"
  by (auto simp: cg_fields_def csum_fields_def words_at_def halves_at_def)

lemma swap_cgblock_maps:
  "free_map (swap_cgblock b) = free_map b"
  "i < 2048 \<Longrightarrow> inode_used (swap_cgblock b) i = inode_used b i"
proof -
  have same: "swap_cgblock b i = b i" if "724 \<le> i" "\<not> (980 \<le> i \<and> i < 984)" for i
    unfolding swap_cgblock_def using that cg_fields_below
    by (intro swap_fields_out [OF cg_fields_ok]) fastforce
  then show "free_map (swap_cgblock b) = free_map b" by (intro free_map_cong) (simp add: CG_FREE_OFF_def)
  assume "i < 2048"
  then have "724 + i div 8 < 980" by linarith
  then show "inode_used (swap_cgblock b) i = inode_used b i"
    by (simp add: inode_used_def free_bit_iff CG_IUSED_OFF_def same)
qed

text \<open>
  What pass 5 relies on: a known number of fragments per block, at most \<open>MAXIPG\<close> inodes per group,
  no overflow in the addresses, and the two inodes before the root in no state.
\<close>

definition group_checked :: "fsck_ctx \<Rightarrow> nat \<Rightarrow> bool" where
  "group_checked s c \<longleftrightarrow> fs_frag s \<in> {1, 2, 4, 8} \<and> 2 \<le> fs_ipg s \<and> fs_ipg s \<le> 2048 \<and>
     cgbase (int c) s + fs_fpg s < 2 ^ 31 \<and> 0 \<le> cgbase (int c) s \<and> cgbase (int c) s \<le> group_end s c \<and>
     ctx_statemap s 0 = UNSET \<and> ctx_statemap s 1 = UNSET"

definition describes :: "nextufs_image \<Rightarrow> fsck_ctx \<Rightarrow> bool" where
  "describes img s \<longleftrightarrow> uint (frags_per_block (sb img)) = fs_frag s \<and>
     uint (frags_per_group (sb img)) = fs_fpg s \<and> uint (inodes_per_group (sb img)) = fs_ipg s"

lemma s32_id: "- (2 ^ 31) \<le> x \<Longrightarrow> x < 2 ^ 31 \<Longrightarrow> s32 x = x"
  by (simp add: s32_def sint_sbintrunc' signed_take_bit_int_eq_self)

text \<open>Entering inodes leaves the fragments alone.\<close>

definition inode_side :: "nat \<Rightarrow> bool" where
  "inode_side i \<longleftrightarrow> 24 \<le> i \<and> i < 28 \<or> 32 \<le> i \<and> i < 36 \<or> 724 \<le> i \<and> i < 980"

lemma set_used_frame: "k < 2048 \<Longrightarrow> \<not> inode_side i \<Longrightarrow> set_bit8 CG_IUSED k b i = b i"
  by (auto simp: set_bit8_def FsckPasses.CG_IUSED_def inode_side_def)

lemma inode_add_frame: "\<not> inode_side i \<Longrightarrow> add32 32 d b i = b i" "\<not> inode_side i \<Longrightarrow> add32 24 d b i = b i"
  by (auto simp: add32_def put32_other inode_side_def)

lemma rebuild_inode_frame:
  "rebuild_inode st first k b = Some c \<Longrightarrow> k < 2048 \<Longrightarrow> \<not> inode_side i \<Longrightarrow> c i = b i"
  by (cases "st (first + k)") (auto simp: rebuild_inode_def Let_def set_used_frame inode_add_frame split: if_splits)

lemma rebuild_inodes_frame:
  "rebuild_inodes st first ks b = Some c \<Longrightarrow> \<forall>k\<in>set ks. k < 2048 \<Longrightarrow> \<not> inode_side i \<Longrightarrow> c i = b i"
  by (induction ks arbitrary: b) (auto split: option.splits dest: rebuild_inode_frame)

lemma rebuild_root_frame: "\<not> inode_side i \<Longrightarrow> rebuild_root c b i = b i"
proof -
  have root: "[0..<ROOTINO] = [0, 1]" by (simp add: ROOTINO_def upt_rec)
  show "\<not> inode_side i \<Longrightarrow> rebuild_root c b i = b i"
    by (simp add: rebuild_root_def root set_used_frame inode_add_frame)
qed

definition group_frags :: "fsck_ctx \<Rightarrow> nat \<Rightarrow> nat" where
  "group_frags s c = nat (group_end s c - cgbase (int c) s)"

lemma rebuild_group_done:
  assumes run: "rebuild_group s c now old = Inr new" and ok: "group_checked s c"
  shows "host_accounts (nat (fs_frag s)) (nblk (nat (fs_frag s)) (group_frags s c)) new"
    and "free_map new = (\<lambda>k. k < group_frags s c \<and> unused s (cgbase (int c) s) k)"
    and "\<forall>i<nat (fs_ipg s). inode_used new i \<longleftrightarrow> group_inode s c i"
    and "get32 new 32 = (\<Sum>i<nat (fs_ipg s). if inode_used new i then 0 else 1)"
    and "get32 new 24 = (\<Sum>i<nat (fs_ipg s). if is_directory (ctx_statemap s (nat (fs_ipg s) * c + i)) then 1 else 0)"
    and "get32 new 20 = of_nat (group_frags s c)" "get32 new 980 = of_int FsckPasses.CG_MAGIC"
    and "int (group_frags s c) \<le> fs_fpg s" "group_frags s c < 2 ^ 31"
proof -
  let ?base = "cgbase (int c) s" and ?n = "nat (fs_ipg s)" and ?frag = "nat (fs_frag s)"
  have frag: "?frag \<in> {1, 2, 4, 8}" using ok by (auto simp: group_checked_def)
  have "0 \<le> ?base" "?base \<le> group_end s c" "?base + fs_fpg s < 2 ^ 31" using ok by (simp_all add: group_checked_def)
  moreover have "group_end s c \<le> s32 (?base + fs_fpg s)" by (simp add: group_end_def)
  moreover have "s32 (?base + fs_fpg s) < 2 ^ 31" using sint_less [of "of_int (?base + fs_fpg s) :: u32"] by (simp add: s32_def)
  moreover have "- (2 ^ 31) \<le> fs_fpg s"
    using sint_greater_eq [of "get32 (b_data (ctx_sblk s)) 188"] by (simp add: fs_fpg_def sb_int_def)
  ultimately have "group_end s c - ?base < 2 ^ 31" "0 \<le> group_end s c - ?base"
    and len: "int (group_frags s c) \<le> fs_fpg s"
    by (simp_all add: s32_id group_frags_def)
  then have nd: "s32 (group_end s c - ?base) = int (group_frags s c)" "group_frags s c < 2 ^ 31"
    by (simp_all add: s32_id group_frags_def)
  let ?h = "rebuild_header s c (int (group_frags s c)) now old"
  obtain b where b: "rebuild_inodes (ctx_statemap s) (?n * c) [0..<0 + ?n] ?h = Some b"
    and new: "rebuild_frags s ?base (group_end s c) (rebuild_root c b) = Some new"
    using run by (auto simp: rebuild_group_def Let_def nd split: if_splits option.splits)
  have ipg: "2 \<le> fs_ipg s" "?n \<le> 2048" using ok by (auto simp: group_checked_def)
  have states: "c = 0 \<Longrightarrow> ctx_statemap s 0 = UNSET" "c = 0 \<Longrightarrow> ctx_statemap s 1 = UNSET"
    using ok by (simp_all add: group_checked_def)
  let ?st = "\<lambda>i. ctx_statemap s (?n * c + i)"
  have "(of_int (fs_ipg s) :: u32) = of_nat ?n" using ipg(1) by simp
  then have "done_inodes ?n ?st 0 ?h" using ipg(2) by (simp add: done_inodes_def header_cells header_maps)
  from rebuild_inodes_done [OF this _ b] have inodes: "done_inodes ?n ?st ?n b" by simp
  let ?r = "rebuild_root c b"
  have side: "?r i = ?h i" if "\<not> inode_side i" for i
    using rebuild_root_frame [OF that] rebuild_inodes_frame [OF b _ that] ipg(2) by simp
  have cells: "get32 ?r p = get32 ?h p" if "p = 20 \<or> p = 28 \<or> 36 \<le> p \<and> p + 4 \<le> 724 \<or> 980 \<le> p" for p
    using that by (intro get32_cong side) (auto simp: inode_side_def)
  have map: "free_map ?r = (\<lambda>_. False)"
    using free_map_cong [of ?r ?h] side header_maps(1) by (simp add: inode_side_def CG_FREE_OFF_def)
  have "host_accounts ?frag 0 ?r" using frag by (intro host_accounts_0) (auto simp: cells header_cells)
  note frags = rebuild_frags_done [OF frag refl new refl map this]
  then show "host_accounts ?frag (nblk ?frag (group_frags s c)) new"
    "free_map new = (\<lambda>k. k < group_frags s c \<and> unused s ?base k)"
    by (simp_all add: group_frags_def)
  have kept: "get32 new p = get32 ?r p" if "p \<in> {20, 24, 32, 980}" for p
    using that by (intro get32_cong rebuild_frags_frame [OF new]) (auto simp: frag_side_def)
  have bits: "inode_used new i = inode_used ?r i" if "i < ?n" for i
  proof -
    have "724 + i div 8 < 980" using that ipg(2) by linarith
    then show ?thesis
      using rebuild_frags_frame [OF new, of "724 + i div 8"]
      by (simp add: inode_used_def free_bit_iff CG_IUSED_OFF_def frag_side_def)
  qed
  note root = rebuild_root_done [OF inodes ipg(1) states]
  show "\<forall>i<?n. inode_used new i \<longleftrightarrow> group_inode s c i" using root(1) bits by simp
  show "get32 new 32 = (\<Sum>i<?n. if inode_used new i then 0 else 1)" using root(2) by (simp add: kept bits)
  show "get32 new 24 = (\<Sum>i<?n. if is_directory (ctx_statemap s (?n * c + i)) then 1 else 0)"
    using inodes by (simp add: kept root(3) done_inodes_def)
  show "get32 new 20 = of_nat (group_frags s c)" "get32 new 980 = of_int FsckPasses.CG_MAGIC"
    by (simp_all add: kept cells header_cells)
  show "group_frags s c < 2 ^ 31" by (rule nd(2))
  show "int (group_frags s c) \<le> fs_fpg s" using len by simp
qed

section \<open>The group in the order of the disk\<close>

lemma cg_accounts_swapped:
  assumes "host_accounts n nb b" "n \<le> 8"
  shows "cg_accounts n nb (swap_cgblock b)"
  using assms cg_field_cells(1) [of 28 b] cg_field_cells(1) [of 36 b] cg_field_cells(2) [of _ b]
  by (simp add: cg_accounts_def host_accounts_def frsum_of_def frsum_off_def swap_cgblock_maps cg_offsets)

lemma cg_wf_swapped:
  assumes img: "unat (frags_per_block (sb img)) = n" "unat (frags_per_group (sb img)) = fpg"
      "unat (inodes_per_group (sb img)) = ipg"
    and accounts: "host_accounts n (nblk n nd) b" "n \<le> 8"
    and cells: "get32 b 20 = of_nat nd" "nd < 2 ^ 32" "nd \<le> fpg" "get32 b 980 = of_int FsckPasses.CG_MAGIC"
    and map: "\<And>k. nd \<le> k \<Longrightarrow> k < nblk n nd * n \<Longrightarrow> \<not> free_map b k"
    and inodes: "get32 b 32 = (\<Sum>i<ipg. if inode_used b i then 0 else 1)" "ipg \<le> 2048"
  shows "cg_wf img (swap_cgblock b)"
proof -
  have limit: "unat (read_be32 (swap_cgblock b) CG_NDBLK_OFF) = nd"
    using cg_field_cells(1) [of 20 b] cells(1,2) by (simp add: cg_offsets unsigned_of_nat take_bit_nat_eq_self)
  have magic: "read_be32 (swap_cgblock b) CG_MAGIC_OFF = CgBitmap.CG_MAGIC"
    using cg_field_cells(1) [of 980 b] cells(4) by (simp add: cg_offsets CgBitmap.CG_MAGIC_def FsckPasses.CG_MAGIC_def)
  have "inode_accounts ipg (swap_cgblock b)"
    using cg_field_cells(1) [of 32 b] inodes by (simp add: inode_accounts_def cg_offsets swap_cgblock_maps)
  then show ?thesis
    using cg_accounts_swapped [OF accounts] cells(3) magic map
    by (simp add: cg_wf_def Let_def img limit swap_cgblock_maps)
qed

end
