(* ===== verification/FsckEntries.thy ===== *)
theory FsckEntries
  imports FsckFrame FsckGroups
begin

text \<open>
  The entries that a traversal of a directory hands to its function: they are well formed, whatever the
  block on the disk holds.
\<close>

section \<open>Cells of an entry\<close>

lemma get_put16 [cell_simps]: "get16 (put16 b p v) p = v"
  unfolding get16_def put16_def by (rule bit_word_eqI) (auto simp: bit_simps)

lemma get16_cong: "(\<And>i. p \<le> i \<Longrightarrow> i < p + 2 \<Longrightarrow> b i = c i) \<Longrightarrow> get16 b p = get16 c p"
  by (simp add: get16_def)

lemma get16_other [cell_simps]:
  "q + 2 \<le> p \<or> p + 4 \<le> q \<Longrightarrow> get16 (put32 b p v) q = get16 b q"
  "q + 2 \<le> p \<or> p + 2 \<le> q \<Longrightarrow> get16 (put16 b p u) q = get16 b q"
  "q + 2 \<le> p \<or> p + n \<le> q \<Longrightarrow> get16 (blit b p n f) q = get16 b q"
  "i < q \<or> q + 2 \<le> i \<Longrightarrow> get16 (b(i := x)) q = get16 b q"
  by (rule get16_cong; auto simp: cell_simps blit_def)+

lemma get32_blit_other [cell_simps]:
  "q + 4 \<le> p \<or> p + n \<le> q \<Longrightarrow> get32 (blit b p n f) q = get32 b q"
  "i < q \<or> q + 4 \<le> i \<Longrightarrow> get32 (b(i := x)) q = get32 b q"
  by (rule get32_cong; auto simp: blit_def)+

lemma and_3: "(x :: int) AND 3 = x mod 4"
  using take_bit_eq_mask [of 2 x] by (simp add: take_bit_eq_mod mask_eq_exp_minus_1)

lemma smod_nonneg: "0 \<le> (x :: int) \<Longrightarrow> x smod 1024 = x mod 1024"
  by (cases "x = 0") (simp_all add: signed_modulo_int_def signed_divide_int_def)

text \<open>The room of an entry is a multiple of 4 and holds at least an empty name.\<close>

lemma DIRSIZ_eq: "DIRSIZ n = 8 + 4 * ((int n + 4) div 4)"
proof -
  let ?x = "int n + 4"
  have "(?x AND 3) OR (?x AND NOT 3) = ?x"
    by (rule bit_eqI) (auto simp: bit_simps)
  moreover have "(?x AND 3) OR (?x AND NOT 3) = (?x AND 3) + (?x AND NOT 3)"
    by (rule disjunctive_add [symmetric]) (auto simp: bit_simps)
  ultimately have "?x AND NOT 3 = ?x - ?x mod 4" unfolding and_3 by linarith
  then have "?x AND NOT 3 = 4 * (?x div 4)" using minus_mod_eq_mult_div [of ?x 4] by linarith
  moreover have eq: "int n + 1 + 3 = ?x" by simp
  ultimately show ?thesis unfolding DIRSIZ_def eq by simp
qed

lemma DIRSIZ_ge: "12 \<le> DIRSIZ n"
  unfolding DIRSIZ_eq by simp

section \<open>Entries\<close>

definition entry_ok :: "nat \<Rightarrow> buf \<Rightarrow> nat \<Rightarrow> bool" where
  "entry_ok imax b p \<longleftrightarrow> dirent_reclen b p mod 4 = 0 \<and> int p mod 1024 + dirent_reclen b p \<le> 1024 \<and>
     dirent_ino b p < imax \<and> dirent_namlen b p \<le> 255 \<and> DIRSIZ (dirent_namlen b p) \<le> dirent_reclen b p \<and>
     (dirent_ino b p = 0 \<or> b (p + 8 + dirent_namlen b p) = 0 \<and>
       (\<forall>i<dirent_namlen b p. b (p + 8 + i) \<noteq> 0 \<and> b (p + 8 + i) AND 0x80 = 0))"

lemma dircheck_entry_ok:
  assumes "dircheck imax idesc b (nat (id_loc idesc))" "0 \<le> id_loc idesc"
  shows "entry_ok imax b (nat (id_loc idesc))"
  using assms
  by (auto simp: dircheck_def entry_ok_def Let_def spaceleft_def smod_nonneg and_3 list_all_iff)

lemma empty_chunk_ok:
  assumes "0 < imax" "p mod 1024 = 0"
  shows "entry_ok imax (empty_chunk p b) p" "dirent_reclen (empty_chunk p b) p = 1024"
proof -
  have "dirent_ino (empty_chunk p b) p = 0" "dirent_namlen (empty_chunk p b) p = 0"
    "dirent_reclen (empty_chunk p b) p = 1024"
    by (simp_all add: empty_chunk_def dirent_ino_def dirent_namlen_def dirent_reclen_def cell_simps)
  moreover have "int p mod 1024 = 0" using assms(2) by presburger
  ultimately show "entry_ok imax (empty_chunk p b) p" "dirent_reclen (empty_chunk p b) p = 1024"
    using assms(1) by (simp_all add: entry_ok_def DIRSIZ_eq)
qed

text \<open>An entry that is extended to the end of its chunk.\<close>

lemma widened_ok:
  assumes ok: "entry_ok imax b p" and p: "p mod 4 = 0"
    and n: "n = 1024 - int p mod 1024"
  shows "entry_ok imax (put16 b (p + 4) (of_int n)) p" "dirent_reclen (put16 b (p + 4) (of_int n)) p = n"
proof -
  let ?c = "put16 b (p + 4) (of_int n)"
  have range: "0 < n" "n \<le> 1024" using n pos_mod_bound [of 1024 "int p"] pos_mod_sign [of 1024 "int p"] by linarith+
  then have "uint (of_int n :: u16) = n" by (simp add: unsigned_of_int take_bit_int_eq_self del: of_int_numeral)
  then have rec: "dirent_reclen ?c p = n" by (simp add: dirent_reclen_def cell_simps)
  have same: "dirent_ino ?c p = dirent_ino b p" "dirent_namlen ?c p = dirent_namlen b p"
    by (simp_all add: dirent_ino_def dirent_namlen_def cell_simps)
  have name: "?c (p + 8 + i) = b (p + 8 + i)" for i by (simp add: put16_other)
  have "4 dvd int p" using p by presburger
  then have "4 dvd int p mod 1024" by (intro dvd_mod) simp_all
  then have "n mod 4 = 0" unfolding n dvd_eq_mod_eq_0 [symmetric] by (intro dvd_diff) simp_all
  moreover have "dirent_reclen b p \<le> n" using ok n by (auto simp: entry_ok_def)
  ultimately show "entry_ok imax ?c p" "dirent_reclen ?c p = n"
    using ok rec n unfolding entry_ok_def same name by auto
qed

section \<open>Reading an entry\<close>

definition same_block :: "fsck_ctx \<Rightarrow> fsck_ctx \<Rightarrow> bool" where
  "same_block s t \<longleftrightarrow> ctx_imax t = ctx_imax s \<and> ctx_sblk t = ctx_sblk s \<and> ctx_fileblk t = ctx_fileblk s"

interpretation entries: serviced "same_block s" for s
  by unfold_locales (simp_all add: same_block_def)

lemma same_block_refl: "same_block s s"
  by (simp add: same_block_def)

lemma same_block_fsize: "same_block s t \<Longrightarrow> fs_fsize t = fs_fsize s \<and> fsbtodb x t = fsbtodb x s"
  by (simp add: same_block_def fs_fsize_def sb_int_def fsbtodb_def)

text \<open>Where the scan of a directory block stands between two entries.\<close>

definition block_len :: "inodesc \<Rightarrow> fsck_ctx \<Rightarrow> int" where
  "block_len idesc s = s32 (id_numfrags idesc * fs_fsize s)"

definition at_entry :: "inodesc \<Rightarrow> fsck_ctx \<Rightarrow> bool" where
  "at_entry idesc s \<longleftrightarrow> 0 \<le> id_loc idesc \<and> id_loc idesc mod 4 = 0 \<and>
     (id_loc idesc mod 1024 = 0 \<or> id_filesize idesc \<le> 0 \<or> block_len idesc s \<le> id_loc idesc \<or>
      b_bno (ctx_fileblk s) = fsbtodb (id_blkno idesc) s \<and>
      dircheck (ctx_imax s) idesc (b_data (ctx_fileblk s)) (nat (id_loc idesc)))"

lemma getblk_fileblk:
  assumes "getblk Fileblk blk sz s = (Inr u, t)"
  shows "ctx_imax t = ctx_imax s" "ctx_sblk t = ctx_sblk s" "b_bno (ctx_fileblk t) = fsbtodb blk s"
    "b_bno (ctx_fileblk s) = fsbtodb blk s \<Longrightarrow> t = s"
proof -
  obtain bp s' where bp: "getblk_area False (ctx_fileblk s) blk sz s = (Inr bp, s')" "t = s'\<lparr>ctx_fileblk := bp\<rparr>"
    using assms by (auto simp: getblk_def andthen_Inr gets_def modify_def)
  have "same_block s s'"
    by (rule agreeD(2) [OF entries.getblk_area same_block_refl bp(1)])
  moreover have "b_bno bp = fsbtodb blk s"
    using bp(1) by (auto simp: getblk_area_def andthen_Inr gets_def Let_def split: if_splits prod.splits)
  ultimately show "ctx_imax t = ctx_imax s" "ctx_sblk t = ctx_sblk s" "b_bno (ctx_fileblk t) = fsbtodb blk s"
    using bp(2) by (simp_all add: same_block_def)
  show "t = s" if "b_bno (ctx_fileblk s) = fsbtodb blk s"
    using that bp by (auto simp: getblk_area_def andthen_Inr gets_def)
qed

lemma dofix_idesc:
  "dofix idesc s = (Inr (yes, idesc'), t) \<Longrightarrow> \<exists>f. idesc' = idesc\<lparr>id_fix := f\<rparr>"
  by (cases idesc; cases "id_fix idesc") (auto simp: dofix_def andthen_Inr split: if_splits)

lemma dirent_fix_Inr:
  assumes "dirent_fix idesc s = (Inr idesc', t)"
  shows "(\<exists>f. idesc' = idesc\<lparr>id_fix := f\<rparr>) \<and> ctx_imax t = ctx_imax s \<and> ctx_sblk t = ctx_sblk s \<and>
    b_data (ctx_fileblk t) = b_data (ctx_fileblk s) \<and> b_bno (ctx_fileblk t) = b_bno (ctx_fileblk s)"
proof -
  obtain yes s' where "dofix idesc s = (Inr (yes, idesc'), s')"
    "only_if yes (set_dirty Fileblk) s' = (Inr (), t)"
    using assms by (auto simp: dirent_fix_def andthen_Inr)
  moreover from this(1) have "same_block s s'"
    by (rule agreeD(2) [OF entries.dofix same_block_refl])
  ultimately show ?thesis using dofix_idesc [of idesc s yes idesc' s']
    by (auto simp: only_if_def set_dirty_def modify_def skip_def same_block_def split: if_splits)
qed

definition moved :: "int \<Rightarrow> inodesc \<Rightarrow> inodesc" where
  "moved n idesc = idesc\<lparr>id_loc := id_loc idesc + n, id_filesize := id_filesize idesc - n\<rparr>"

lemma next_entry_Inr:
  assumes "next_entry idesc len s = (Inr (Some p, idesc'), t)"
  defines "b \<equiv> b_data (ctx_fileblk s)" and "q \<equiv> nat (id_loc idesc)"
  defines "d \<equiv> moved (dirent_reclen b q) idesc"
  shows "p = q \<and>
    ((id_loc d smod 1024 = 0 \<or> \<not> (id_loc d < len \<and> 0 < id_filesize d \<and>
        \<not> dircheck (ctx_imax s) d b (nat (id_loc d)))) \<and> idesc' = d \<and> t = s \<or>
     id_loc d smod 1024 \<noteq> 0 \<and> dirent_fix (moved (spaceleft d) d)
       (s\<lparr>ctx_fileblk := (ctx_fileblk s)\<lparr>b_data := put16 b (q + 4) (of_int (dirent_reclen b q + spaceleft d))\<rparr>\<rparr>)
       = (Inr idesc', t))"
  using assms(1) unfolding next_entry_def Let_def moved_def [symmetric]
  unfolding andthen_def gets_def data_of_def edit_def modify_def d_def b_def q_def ret_def
  by (auto simp del: of_int_add split: if_splits prod.splits sum.splits)

lemma next_entry_ok:
  assumes run: "next_entry idesc len s = (Inr (Some p, idesc'), t)" and len: "len = block_len idesc s"
    and loc: "0 \<le> id_loc idesc" "id_loc idesc mod 4 = 0"
    and bno: "b_bno (ctx_fileblk s) = fsbtodb (id_blkno idesc) s"
    and ok: "entry_ok (ctx_imax s) (b_data (ctx_fileblk s)) (nat (id_loc idesc))"
  shows "p = nat (id_loc idesc) \<and> entry_ok (ctx_imax t) (b_data (ctx_fileblk t)) p \<and>
    id_loc idesc' = id_loc idesc + dirent_reclen (b_data (ctx_fileblk t)) p \<and> at_entry idesc' t"
proof -
  let ?b = "b_data (ctx_fileblk s)"
  define q where "q = nat (id_loc idesc)"
  define r where "r = dirent_reclen ?b q"
  define d where "d = idesc\<lparr>id_loc := id_loc idesc + r, id_filesize := id_filesize idesc - r\<rparr>"
  have r: "0 \<le> r" by (simp add: r_def dirent_reclen_def)
  have q: "int q = id_loc idesc" using loc by (simp add: q_def)
  have chunk: "r mod 4 = 0" "int q mod 1024 + r \<le> 1024" using ok by (auto simp: entry_ok_def r_def q_def)
  have dloc: "0 \<le> id_loc d" "id_loc d mod 4 = 0" using loc r chunk(1) by (auto simp: d_def mod_add_eq [symmetric])
  have smod: "id_loc d smod 1024 = id_loc d mod 1024" using dloc(1) by (rule smod_nonneg)
  have d: "d = moved (dirent_reclen ?b (nat (id_loc idesc))) idesc" by (simp add: d_def moved_def r_def q_def)
  consider
    (last) "id_loc d mod 1024 = 0" "p = q" "idesc' = d" "t = s"
    | (valid) "\<not> (id_loc d < len \<and> 0 < id_filesize d \<and> \<not> dircheck (ctx_imax s) d ?b (nat (id_loc d)))"
        "p = q" "idesc' = d" "t = s"
    | (wide) e where "id_loc d mod 1024 \<noteq> 0" "p = q" "e = moved (spaceleft d) d"
        "dirent_fix e (s\<lparr>ctx_fileblk := (ctx_fileblk s)
          \<lparr>b_data := put16 ?b (q + 4) (of_int (r + spaceleft d))\<rparr>\<rparr>) = (Inr idesc', t)"
    using next_entry_Inr [OF run, folded d, folded q_def, folded r_def] unfolding smod by blast
  then show ?thesis
  proof cases
    case last
    then show ?thesis using ok dloc by (simp add: at_entry_def q_def r_def d_def)
  next
    case valid
    have "at_entry d s"
      using dloc valid(1) len bno by (auto simp: at_entry_def d_def block_len_def)
    then show ?thesis using ok valid by (simp add: q_def [symmetric] r_def d_def)
  next
    case wide
    let ?n = "1024 - int q mod 1024"
    have "id_loc d mod 1024 = (int q mod 1024 + r) mod 1024" by (simp add: d_def q mod_simps)
    moreover have "int q mod 1024 + r \<noteq> 1024" using wide(1) calculation by auto
    ultimately have md: "id_loc d mod 1024 = int q mod 1024 + r"
      using chunk(2) r pos_mod_sign [of 1024 "int q"] by simp
    have left: "r + spaceleft d = ?n" unfolding spaceleft_def smod md by simp
    have "q mod 4 = 0" using loc(2) q by presburger
    note w = widened_ok [OF ok [folded q_def] this, of ?n, OF refl]
    note fixed = dirent_fix_Inr [OF wide(4)]
    have data: "b_data (ctx_fileblk t) = put16 ?b (q + 4) (of_int ?n)" "ctx_imax t = ctx_imax s"
      using fixed by (simp_all add: left)
    have e: "id_loc e = id_loc idesc + ?n" using wide(3) left by (simp add: d_def moved_def)
    then have loc': "id_loc idesc' = id_loc idesc + ?n" using fixed by auto
    have end_chunk: "id_loc idesc + ?n = 1024 * (int q div 1024 + 1)"
      using div_mult_mod_eq [of "int q" 1024] unfolding q distrib_left by linarith
    have "(id_loc idesc + ?n) mod 1024 = 0" unfolding end_chunk by simp
    moreover have "0 \<le> id_loc idesc + ?n" using loc(1) pos_mod_bound [of 1024 "int q"] by linarith
    moreover have "(id_loc idesc + ?n) mod 4 = 0"
      unfolding end_chunk dvd_eq_mod_eq_0 [symmetric] by (intro dvd_mult2) simp
    ultimately have "at_entry idesc' t" by (simp add: at_entry_def loc')
    with w data loc' wide(2) show ?thesis by (simp add: q_def)
  qed
qed

end
