(* ===== verification/FsckAlloc.thy ===== *)
theory FsckAlloc
  imports FsckScan CgBitmap
begin

text \<open>
  How \<open>allocblk\<close> finds a run of unused fragments: the loops over the map of used blocks.
\<close>

definition used :: "fsck_ctx \<Rightarrow> int \<Rightarrow> bool" where
  "used s blk \<longleftrightarrow> free_bit (ctx_blockmap s) 0 (nat blk)"

lemma getbmap_Inr: "getbmap blk s = (Inr x, t) \<longleftrightarrow> in_map blk s \<and> x = used s blk \<and> t = s"
  by (auto simp: getbmap_def used_def)

lemma taken_from_Inr:
  "taken_from blk k n s = (Inr r, t) \<Longrightarrow> t = s \<and> k \<le> r \<and> r \<le> k + n \<and>
     (\<forall>i. k \<le> i \<and> i < r \<longrightarrow> \<not> used s (blk + int i)) \<and> (r < k + n \<longrightarrow> used s (blk + int r))"
proof (induction n arbitrary: k)
  case (Suc n)
  show ?case
  proof (cases "used s (blk + int k)")
    case True
    then show ?thesis using Suc.prems by (auto simp: andthen_Inr getbmap_Inr)
  next
    case False
    then have "taken_from blk (k + 1) n s = (Inr r, t)" using Suc.prems by (auto simp: andthen_Inr getbmap_Inr)
    note rest = Suc.IH [OF this]
    have "\<not> used s (blk + int i)" if "k \<le> i" "i < r" for i
      using rest that False by (cases "i = k") auto
    with rest show ?thesis by auto
  qed
qed auto

lemma set_run_Inr:
  "set_run blk n s = (Inr u, t) \<Longrightarrow> \<exists>m. t = s\<lparr>ctx_blockmap := m\<rparr> \<and>
     (\<forall>j\<ge>0. free_bit m 0 (nat j) \<longleftrightarrow> used s j \<or> blk \<le> j \<and> j < blk + int n)"
proof (induction n arbitrary: blk s)
  case 0
  then show ?case by (auto simp: skip_def used_def intro: exI [of _ "ctx_blockmap s"])
next
  case (Suc n)
  let ?s = "s\<lparr>ctx_blockmap := set_bit8 0 (nat blk) (ctx_blockmap s)\<rparr>"
  have blk: "0 \<le> blk" and "set_run (blk + 1) n ?s = (Inr u, t)"
    using Suc.prems by (auto simp: andthen_Inr setbmap_def in_map_def split: if_splits)
  from Suc.IH [OF this(2)] obtain m where "t = ?s\<lparr>ctx_blockmap := m\<rparr>"
    "\<forall>j\<ge>0. free_bit m 0 (nat j) \<longleftrightarrow> used ?s j \<or> blk + 1 \<le> j \<and> j < blk + 1 + int n" by blast
  moreover have "used ?s j \<longleftrightarrow> used s j \<or> j = blk" if "0 \<le> j" for j
    using that blk by (auto simp: used_def)
  ultimately show ?case by (intro exI [of _ m]) auto
qed

text \<open>The state after the run of \<open>n\<close> fragments at \<open>blk\<close> has been taken.\<close>

definition run_taken :: "int \<Rightarrow> nat \<Rightarrow> fsck_ctx \<Rightarrow> fsck_ctx \<Rightarrow> bool" where
  "run_taken blk n s t \<longleftrightarrow> (\<forall>k<n. \<not> used s (blk + int k)) \<and>
     (\<exists>m. t = s\<lparr>ctx_blockmap := m, ctx_n_blks := s32 (ctx_n_blks s + int n)\<rparr> \<and>
       (\<forall>j\<ge>0. used t j \<longleftrightarrow> used s j \<or> blk \<le> j \<and> j < blk + int n))"

lemma alloc_in_block_Inr:
  assumes "alloc_in_block i frag n j s = (Inr r, t)" "0 < n"
  shows "case r of
      None \<Rightarrow> t = s \<and> (\<forall>p. j \<le> p \<and> p + n \<le> frag \<longrightarrow> (\<exists>q<n. used s (i + int (p + q))))
    | Some blk \<Rightarrow> \<exists>p. p + n \<le> frag \<and> blk = i + int p \<and> run_taken blk n s t"
  using assms
proof (induction i frag n j arbitrary: s t rule: alloc_in_block.induct)
  case (1 i frag n j)
  show ?case
  proof (cases "j + n \<le> frag")
    case False
    then show ?thesis using "1.prems" by (auto simp: alloc_in_block.simps [of i frag n j])
  next
    case fits: True
    note unroll = "1.prems"(1) [unfolded alloc_in_block.simps [of i frag n j]]
    show ?thesis
    proof (cases "used s (i + int j)")
      case True
      then have "alloc_in_block i frag n (j + 1) s = (Inr r, t)"
        using unroll fits by (auto simp: andthen_Inr getbmap_Inr)
      note later = "1.IH"(1) [OF fits TrueI this "1.prems"(2)]
      have "\<exists>q<n. used s (i + int (j + q))" using True "1.prems"(2) by (intro exI [of _ 0]) simp
      with later show ?thesis by (cases r) (auto, metis le_antisym not_less_eq_eq)
    next
      case False
      then obtain k where k: "taken_from (i + int j) 1 (n - 1) s = (Inr k, s)"
        and rest: "(if k < n then alloc_in_block i frag n (j + k + 1)
          else andthen (set_run (i + int j) n) (\<lambda>_.
            andthen (modify (\<lambda>s. s\<lparr>ctx_n_blks := s32 (ctx_n_blks s + int n)\<rparr>)) (\<lambda>_.
            ret (Some (i + int j))))) s = (Inr r, t)"
        using unroll fits by (auto simp: andthen_Inr getbmap_Inr) (metis taken_from_Inr)
      note run = taken_from_Inr [OF k]
      show ?thesis
      proof (cases "k < n")
        case True
        then have tk: "used s (i + int (j + k))" using run by (simp add: algebra_simps)
        have "alloc_in_block i frag n (j + k + 1) s = (Inr r, t)" using rest True by simp
        then have later: "case r of
            None \<Rightarrow> t = s \<and> (\<forall>p. j + k + 1 \<le> p \<and> p + n \<le> frag \<longrightarrow> (\<exists>q<n. used s (i + int (p + q))))
          | Some blk \<Rightarrow> \<exists>p. p + n \<le> frag \<and> blk = i + int p \<and> run_taken blk n s t"
          using "1.IH"(2) [OF fits, of False k] True "1.prems"(2) by blast
        have "\<exists>q<n. used s (i + int (p + q))" if "j \<le> p" "p \<le> j + k" for p
          using that tk True by (intro exI [of _ "j + k - p"]) auto
        with later show ?thesis by (cases r) (auto, metis Suc_leI not_le Suc_eq_plus1)
      next
        case False
        then have kn: "k = n" using run "1.prems"(2) by simp
        obtain t' where t': "set_run (i + int j) n s = (Inr (), t')" "r = Some (i + int j)"
          "t = t'\<lparr>ctx_n_blks := s32 (ctx_n_blks t' + int n)\<rparr>"
          using rest False by (auto simp: andthen_Inr modify_def)
        obtain m where m: "t' = s\<lparr>ctx_blockmap := m\<rparr>"
          "\<forall>q\<ge>0. free_bit m 0 (nat q) \<longleftrightarrow> used s q \<or> i + int j \<le> q \<and> q < i + int j + int n"
          using set_run_Inr [OF t'(1)] by blast
        have "\<not> used s (i + int j + int q)" if "q < n" for q
          using run kn that \<open>\<not> used s (i + int j)\<close> by (cases "q = 0") auto
        with m t' fits show ?thesis by (auto simp: run_taken_def used_def)
      qed
    qed
  qed
qed

lemma alloc_loop_Inr:
  assumes "alloc_loop frag n is s = (Inr blk, t)" "0 < n"
  shows "(\<exists>i\<in>set is. \<exists>p. p + n \<le> frag \<and> blk = i + int p \<and> run_taken blk n s t) \<or>
    blk = 0 \<and> t = s \<and> (\<forall>i\<in>set is. \<forall>p. p + n \<le> frag \<longrightarrow> (\<exists>q<n. used s (i + int (p + q))))"
  using assms(1)
proof (induction "is")
  case (Cons i "is")
  then obtain r u where r: "alloc_in_block i frag n 0 s = (Inr r, u)"
    "(case r of Some blk \<Rightarrow> ret blk | None \<Rightarrow> alloc_loop frag n is) u = (Inr blk, t)"
    by (auto simp: andthen_Inr)
  show ?case
  proof (cases r)
    case None
    note none = alloc_in_block_Inr [OF r(1) assms(2), unfolded None option.case]
    with r(2) None have "alloc_loop frag n is s = (Inr blk, t)" by simp
    from Cons.IH [OF this] none show ?thesis by auto
  next
    case (Some b)
    from alloc_in_block_Inr [OF r(1) assms(2)] r(2) show ?thesis by (auto simp: Some)
  qed
qed (use assms in auto)

lemma block_starts_set:
  assumes "0 < frag"
  shows "set (block_starts frag fmax) = {b * frag |b. 0 \<le> b \<and> b * frag < fmax - frag}"
proof -
  have "b < (fmax - 1) div frag \<longleftrightarrow> b * frag < fmax - frag" for b
  proof -
    have "b < (fmax - 1) div frag \<longleftrightarrow> b + 1 \<le> (fmax - 1) div frag" by linarith
    also have "\<dots> \<longleftrightarrow> (b + 1) * frag \<le> fmax - 1"
    proof
      assume "b + 1 \<le> (fmax - 1) div frag"
      then have "(b + 1) * frag \<le> (fmax - 1) div frag * frag" using assms by (intro mult_right_mono) auto
      also have "\<dots> \<le> fmax - 1" using div_mult_mod_eq [of "fmax - 1" frag] pos_mod_sign [OF assms, of "fmax - 1"] by linarith
      finally show "(b + 1) * frag \<le> fmax - 1" .
    next
      assume "(b + 1) * frag \<le> fmax - 1"
      from zdiv_mono1 [OF this assms] assms show "b + 1 \<le> (fmax - 1) div frag" by simp
    qed
    finally show ?thesis by (simp add: algebra_simps) linarith
  qed
  moreover have "int ` {0..<nat ((fmax - 1) div frag)} = {b. 0 \<le> b \<and> b < (fmax - 1) div frag}"
    unfolding image_int_atLeastLessThan by auto
  moreover have "set (block_starts frag fmax) = (\<lambda>b. b * frag) ` (int ` {0..<nat ((fmax - 1) div frag)})"
    by (simp add: block_starts_def image_image)
  ultimately show ?thesis by auto
qed

end
