(* ===== verification/FsckDescend.thy ===== *)
theory FsckDescend
  imports FsckFrame
begin

text \<open>
  The descent of pass 2 into the directories ends: a directory is entered only in state \<open>DSTATE\<close> and is
  \<open>DFOUND\<close> from then on, so that the descents that are open at any time are into different inodes, and
  the number of inodes bounds their nesting. The bound of the model is never reached.
\<close>

definition on_path :: "nat set \<Rightarrow> nat \<Rightarrow> fsck_ctx \<Rightarrow> bool" where
  "on_path S m s \<longleftrightarrow> ctx_imax s = m \<and> (\<forall>i\<in>S. ctx_statemap s i = DFOUND)"

interpretation path: finding "on_path S m" for S m
  by unfold_locales (auto simp: on_path_def)

text \<open>Runs that agree from \<open>P\<close> on, and end in \<open>Q\<close>.\<close>

definition agree_to :: "(fsck_ctx \<Rightarrow> bool) \<Rightarrow> (fsck_ctx \<Rightarrow> bool) \<Rightarrow> 'a ck \<Rightarrow> 'a ck \<Rightarrow> bool" where
  "agree_to P Q f g \<longleftrightarrow> (\<forall>s. P s \<longrightarrow> f s = g s \<and> Q (snd (g s)))"

lemma agree_to_weaken:
  "agree R f g \<Longrightarrow> (\<And>s. P s \<Longrightarrow> R s) \<Longrightarrow> (\<And>s. R s \<Longrightarrow> Q s) \<Longrightarrow> agree_to P Q f g"
  by (simp add: agree_to_def agreeD agree_snd)

lemma agree_to_andthen:
  assumes "agree P f f" "\<And>x. agree_to P Q (h x) (k x)" "\<And>s. P s \<Longrightarrow> Q s"
  shows "agree_to P Q (andthen f h) (andthen f k)"
  unfolding agree_to_def
proof (intro allI impI)
  fix s assume P: "P s"
  obtain r t where r: "f s = (r, t)" by fastforce
  then have t: "P t" using agreeD(2) [OF assms(1) P] by simp
  then have "h x t = k x t" "Q (snd (k x t))" for x using assms(2) [of x] by (auto simp: agree_to_def)
  then show "andthen f h s = andthen f k s \<and> Q (snd (andthen f k s))"
    using r assms(3) [OF t] by (cases r) (simp_all add: andthen_def)
qed

lemma agree_to_if:
  "(b \<Longrightarrow> agree_to P Q f g) \<Longrightarrow> (\<not> b \<Longrightarrow> agree_to P Q h k) \<Longrightarrow>
    agree_to P Q (if b then f else h) (if b then g else k)"
  by simp

lemma agree_to_step:
  assumes "\<And>s. P s \<Longrightarrow> R (u s)" "agree_to R Q f g"
  shows "agree_to P Q (andthen (modify u) (\<lambda>_. f)) (andthen (modify u) (\<lambda>_. g))"
  using assms by (simp add: agree_to_def andthen_def modify_def)

lemma agree_andthen_gets:
  assumes "\<And>s. I s \<Longrightarrow> agree I (h (f s)) (k (f s))"
  shows "agree I (andthen (gets f) h) (andthen (gets f) k)"
proof -
  have "h (f s) s = k (f s) s" "I (snd (k (f s) s))" if "I s" for s
    using agreeD(1) [OF assms [OF that] that] agree_snd [OF assms [OF that] that] by simp_all
  then show ?thesis by (simp add: agree_def andthen_def gets_def)
qed

lemma agree_andthen_read:
  assumes "\<And>st. agree_to (\<lambda>s. I s \<and> ctx_statemap s ino = st) I (h st) (k st)"
  shows "agree I (andthen (statemap ino) h) (andthen (statemap ino) k)"
proof -
  have "h (ctx_statemap s ino) s = k (ctx_statemap s ino) s" "I (snd (k (ctx_statemap s ino) s))" if "I s" for s
    using assms [of "ctx_statemap s ino"] that by (simp_all add: agree_to_def)
  then show ?thesis by (simp add: agree_def statemap_def andthen_def gets_def)
qed

text \<open>The check of the inode of an entry, and of an entry.\<close>

lemma serviced_state: "serviced (\<lambda>s. on_path S m s \<and> ctx_statemap s ino = st)"
  by unfold_locales (auto simp: on_path_def)

lemma agree_check_inode:
  assumes desc: "\<And>ino. ino \<le> m \<Longrightarrow> agree (on_path S m) (desc idesc ino) (desc' idesc ino)"
  shows "agree (on_path S m) (check_inode desc idesc ino) (check_inode desc' idesc ino)"
  unfolding check_inode_def
proof (rule agree_andthen_gets)
  fix s assume "on_path S m s"
  then have m: "ctx_imax s = m" by (simp add: on_path_def)
  show "agree (on_path S m)
    (if ctx_imax s < ino \<or> ino = 0 then
       andthen (direrr ino) (\<lambda>_. andthen reply (\<lambda>remove. ret (remove, False)))
     else
     andthen (statemap ino) (\<lambda>st.
     if st = DCLEAR \<or> st = FCLEAR then
       andthen (direrr ino) (\<lambda>_.
       andthen reply (\<lambda>remove.
       if remove then ret (True, False)
       else
       andthen (ginode ino) (\<lambda>dp.
       andthen (dinode dp) (\<lambda>d.
       let st = (if DIRCT d then DSTATE else FSTATE) in
       andthen (set_statemap ino st) (\<lambda>_.
       check_state desc idesc ino st)))))
     else check_state desc idesc ino st))
    (if ctx_imax s < ino \<or> ino = 0 then
       andthen (direrr ino) (\<lambda>_. andthen reply (\<lambda>remove. ret (remove, False)))
     else
     andthen (statemap ino) (\<lambda>st.
     if st = DCLEAR \<or> st = FCLEAR then
       andthen (direrr ino) (\<lambda>_.
       andthen reply (\<lambda>remove.
       if remove then ret (True, False)
       else
       andthen (ginode ino) (\<lambda>dp.
       andthen (dinode dp) (\<lambda>d.
       let st = (if DIRCT d then DSTATE else FSTATE) in
       andthen (set_statemap ino st) (\<lambda>_.
       check_state desc' idesc ino st)))))
     else check_state desc' idesc ino st))"
  proof (cases "ctx_imax s < ino \<or> ino = 0")
    case True
    then show ?thesis by (simp only: if_True) (intro agree_intros path.direrr path.reply)
  next
    case False
    then have state: "agree (on_path S m) (check_state desc idesc ino st) (check_state desc' idesc ino st)" for st
      using desc m by (intro path.check_state) simp
    note srv = serviced_state [of S m ino]
    show ?thesis
      unfolding if_not_P [OF False] Let_def set_statemap_def
      by (intro agree_andthen_read agree_to_if agree_to_andthen serviced.direrr [OF srv] serviced.reply [OF srv]
          serviced.ginode [OF srv] agree_dinode agree_to_step [where R = "on_path S m"]
          agree_to_weaken [OF state] agree_to_weaken [OF agree_ret])
        (auto simp: on_path_def)
  qed
qed

lemma agree_pass2check:
  assumes desc: "\<And>idesc ino. ino \<le> m \<Longrightarrow> agree (on_path S m) (desc idesc ino) (desc' idesc ino)"
  shows "agree (on_path S m) (pass2check desc idesc) (pass2check desc' idesc)"
  unfolding pass2check_def Let_def
  by (intro agree_intros path.check_dots path.direrr path.fix_flag agree_modify path.path agree_check_inode desc)
    assumption+

lemma agree_call_with:
  assumes "\<And>idesc ino. ino \<le> m \<Longrightarrow> agree (on_path S m) (desc idesc ino) (desc' idesc ino)"
  shows "agree (on_path S m) (call_with desc idesc) (call_with desc' idesc)"
  unfolding call_with_def by (intro agree_intros agree_pass2check path.call_flat assms)

text \<open>Entering a directory adds it to the path.\<close>

lemma agree_enter_directory:
  assumes call: "\<And>d. agree (on_path (insert i S) m) (call d) (call' d)" and i: "i \<notin> S"
  shows "agree_to (on_path (insert i S) m) (on_path S m) (enter_directory call parent i) (enter_directory call' parent i)"
proof -
  let ?I = "on_path (insert i S) m"
  have sub: "on_path S m s" if "?I s" for s using that by (simp add: on_path_def)
  have clear: "agree_to ?I (on_path S m) (only_if yes (set_statemap i DCLEAR)) (only_if yes (set_statemap i DCLEAR))" for yes
    using i by (auto simp: agree_to_def only_if_def set_statemap_def modify_def skip_def on_path_def)
  have scan: "agree ?I (andthen (ckinode call dp d) (\<lambda>_. skip)) (andthen (ckinode call' dp d) (\<lambda>_. skip))" for dp d
    by (intro agree_intros path.ckinode call)
  have fix1: "agree ?I (only_if b (andthen (direrr i) (\<lambda>_. andthen (edit_dinode dp f) (\<lambda>_.
      andthen reply (\<lambda>yes. only_if yes inodirty)))))
    (only_if b (andthen (direrr i) (\<lambda>_. andthen (edit_dinode dp f) (\<lambda>_.
      andthen reply (\<lambda>yes. only_if yes inodirty)))))" for b dp f
    by (intro agree_intros path.direrr path.edit_dinode path.reply)
  have fix2: "agree ?I (only_if b (andthen pwarn (\<lambda>_. andthen (edit_dinode dp f) (\<lambda>_.
      andthen preen_or_reply (\<lambda>yes. only_if yes inodirty)))))
    (only_if b (andthen pwarn (\<lambda>_. andthen (edit_dinode dp f) (\<lambda>_.
      andthen preen_or_reply (\<lambda>yes. only_if yes inodirty)))))" for b dp f
    by (intro agree_intros path.pwarn path.edit_dinode path.preen_or_reply)
  show ?thesis
    unfolding enter_directory_def
    by (intro agree_to_andthen agree_to_if path.ginode agree_dinode path.pwarn path.pinode path.preen_or_reply
        clear fix1 fix2 agree_to_weaken [OF scan]) (auto intro: sub)
qed

lemma agree_descend_with:
  assumes call: "\<And>d. i \<notin> S \<Longrightarrow> agree (on_path (insert i S) m) (call d) (call' d)"
  shows "agree (on_path S m) (descend_with call parent i) (descend_with call' parent i)"
  unfolding descend_with_def
proof (rule agree_andthen_read)
  fix st
  let ?P = "\<lambda>s. on_path S m s \<and> ctx_statemap s i = st"
  show "agree_to ?P (on_path S m)
     (if st \<noteq> DSTATE then errexit
      else andthen (set_statemap i DFOUND) (\<lambda>_. enter_directory call parent i))
     (if st \<noteq> DSTATE then errexit
      else andthen (set_statemap i DFOUND) (\<lambda>_. enter_directory call' parent i))"
  proof (cases "st = DSTATE \<and> i \<notin> S")
    case False
    then have "st \<noteq> DSTATE \<or> (\<forall>s. \<not> ?P s)" by (auto simp: on_path_def)
    then show ?thesis by (auto simp: agree_to_def errexit_def fsck_abort_def)
  next
    case True
    then have "agree_to (on_path (insert i S) m) (on_path S m) (enter_directory call parent i) (enter_directory call' parent i)"
      by (intro agree_enter_directory call) auto
    then have "agree_to ?P (on_path S m) (andthen (set_statemap i DFOUND) (\<lambda>_. enter_directory call parent i))
        (andthen (set_statemap i DFOUND) (\<lambda>_. enter_directory call' parent i))"
      unfolding set_statemap_def by (rule agree_to_step [rotated]) (simp add: on_path_def)
    then show ?thesis using True by simp
  qed
qed

text \<open>With more depth than directories that are not on the path, the depth does not matter.\<close>

lemma agree_descend_to:
  assumes "card ({..m} - S) < d" "card ({..m} - S) < d'" "i \<le> m"
  shows "agree (on_path S m) (descend_to d parent i) (descend_to d' parent i)"
  using assms
proof (induction "card ({..m} - S)" arbitrary: S d d' parent i rule: less_induct)
  case less
  obtain e where e1: "d = Suc e" using less.prems(1) by (cases d) auto
  obtain e' where e2: "d' = Suc e'" using less.prems(2) by (cases d') auto
  note e = e1 e2
  have "agree (on_path (insert i S) m) (call_with (descend_to e) x) (call_with (descend_to e') x)" if "i \<notin> S" for x
  proof (rule agree_call_with)
    fix idesc j assume "j \<le> m"
    have eq: "{..m} - S = insert i ({..m} - insert i S)" using that less.prems(3) by auto
    have "card ({..m} - S) = Suc (card ({..m} - insert i S))"
      by (subst eq, rule card_insert_disjoint) simp_all
    then show "agree (on_path (insert i S) m) (descend_to e idesc j) (descend_to e' idesc j)"
      using less.prems(1,2) e \<open>j \<le> m\<close> by (intro less.hyps) simp_all
  qed
  then show ?case unfolding e descend_to.simps by (intro agree_descend_with)
qed

text \<open>The bound of \<open>descend\<close> is enough: any larger one gives the same run.\<close>

lemma descend_depth_enough:
  assumes "i \<le> ctx_imax s" "ctx_imax s + 2 \<le> d"
  shows "descend_to d parent i s = descend parent i s"
proof -
  have I: "on_path {} (ctx_imax s) s" by (simp add: on_path_def)
  have "agree (on_path {} (ctx_imax s)) (descend_to d parent i) (descend_to (ctx_imax s + 2) parent i)"
    using assms by (intro agree_descend_to) auto
  from agreeD(1) [OF this I] show ?thesis by (simp add: descend_def andthen_def gets_def)
qed

end
