(* ===== verification/FsckSession.thy ===== *)
theory FsckSession
  imports FsckPasses
begin

text \<open>
  Reading and checking the superblock (\<open>src/src/fsck/setup.c\<close>), the fresh context (\<open>state.c\<close>) and the
  check of one file system (\<open>session.c\<close>). The image is open already; \<open>calloc\<close> does not fail.
\<close>

section \<open>The fresh context\<close>

record fsck_runtime_options =
  opt_Pflag :: bool
  opt_nflag :: bool
  opt_yflag :: bool
  opt_bflag :: int
  opt_preen :: bool

text \<open>
  The context of a run on an open image, with what the operator will type. What the host says about
  mounted file systems comes with it.
\<close>

definition fsck_ctx_init_from_runtime ::
    "fsck_runtime_options \<Rightarrow> nextufs_image \<Rightarrow> sys \<Rightarrow> u8 list \<Rightarrow> bool \<Rightarrow> bool \<Rightarrow> bool \<Rightarrow> fsck_ctx" where
  "fsck_ctx_init_from_runtime opts img dev input mounted rootfs readonlyfs =
     (let area = (empty_area BT_UNKNOWN)\<lparr>b_bno := 0\<rparr> in
      \<lparr>ctx_inoblk = area, ctx_fileblk = area, ctx_sblk = area, ctx_cgblk = area,
       ctx_image = img, ctx_dev = dev, ctx_mod = False, ctx_duplist = [], ctx_muldup = None,
       ctx_zlnhead = [], ctx_needswap = False, ctx_rootfs = rootfs, ctx_readonlyfs = readonlyfs,
       ctx_mountedfs = mounted, ctx_Pflag = opt_Pflag opts, ctx_nflag = opt_nflag opts,
       ctx_yflag = opt_yflag opts, ctx_bflag = opt_bflag opts, ctx_preen = opt_preen opts,
       ctx_exitstat = 0, ctx_blockmap = (\<lambda>_. 0), ctx_statemap = (\<lambda>_. UNSET),
       ctx_lncntp = (\<lambda>_. 0), ctx_pathp = 0, ctx_fs_maxblock = 0, ctx_imax = 0, ctx_lastino = 0,
       ctx_lfdir = 0, ctx_bmapsz = 0, ctx_n_blks = 0, ctx_n_files = 0, ctx_badblk = 0,
       ctx_dupblk = 0, ctx_duphead = 0, ctx_startinum = 0, ctx_error_count = 0,
       ctx_csp = (\<lambda>_ _. 0), ctx_stdin = input\<rparr>)"

section \<open>The superblock\<close>

definition SBSIZE :: int where "SBSIZE = 8192"
definition FS_MAGIC :: int where "FS_MAGIC = 0x011954"

definition badsb :: "bool ck" where
  "badsb = andthen pwarn (\<lambda>_. andthen pfatal (\<lambda>_. ret False))"

definition init_areas :: "unit ck" where
  "init_areas = modify (\<lambda>s. s\<lparr>ctx_mod := False, ctx_lfdir := 0,
     ctx_sblk := (ctx_sblk s)\<lparr>b_dirty := False, b_swapped := False, b_type := BT_SUPER, b_bno := -1\<rparr>,
     ctx_fileblk := (ctx_fileblk s)\<lparr>b_dirty := False, b_swapped := False, b_type := BT_DIR, b_bno := -1\<rparr>,
     ctx_inoblk := (ctx_inoblk s)\<lparr>b_dirty := False, b_swapped := False, b_type := BT_INODE, b_bno := -1\<rparr>,
     ctx_cgblk := (ctx_cgblk s)\<lparr>b_dirty := False, b_swapped := False, b_type := BT_CG, b_bno := -1\<rparr>\<rparr>)"

text \<open>The superblock at \<open>super\<close>, in the order of the host; its magic number tells the order on the disk.\<close>

definition read_superblock :: "int \<Rightarrow> bool ck" where
  "read_superblock super =
     andthen (data_of Sblk) (\<lambda>b.
     andthen (bread MAXBSIZE b super SBSIZE) (\<lambda>(errs, d).
     if errs \<noteq> 0 then ret False
     else
     let swapped = swap_superblock d;
         swp = (cg_int 1372 d \<noteq> FS_MAGIC \<and> cg_int 1372 swapped = FS_MAGIC);
         d = (if swp then swapped else d) in
     andthen (modify (\<lambda>s. s\<lparr>ctx_needswap := swp,
       ctx_sblk := (ctx_sblk s)\<lparr>b_data := d, b_bno := super, b_size := SBSIZE, b_swapped := swp\<rparr>\<rparr>)) (\<lambda>_.
     ret True)))"

definition superblock_sane :: "fsck_ctx \<Rightarrow> bool" where
  "superblock_sane s \<longleftrightarrow> sb_magic s = FS_MAGIC \<and> 1 \<le> fs_ncg s \<and> 1 \<le> fs_cpg s \<and> fs_cpg s \<le> MAXCPG \<and>
     \<not> (s32 (fs_ncg s * fs_cpg s) < fs_ncyl s \<or> fs_ncyl s \<le> s32 ((fs_ncg s - 1) * fs_cpg s)) \<and>
     fs_sbsize s \<le> SBSIZE"

definition fix_superblock :: "bool \<Rightarrow> nat \<Rightarrow> u32 \<Rightarrow> unit ck" where
  "fix_superblock wrong p v = only_if wrong
     (andthen pfatal (\<lambda>_.
      andthen reply (\<lambda>yes.
      only_if yes (andthen (edit Sblk (\<lambda>b. put32 b p v)) (\<lambda>_. set_dirty Sblk)))))"

text \<open>The ranges that may differ between the superblock and its copies.\<close>

definition may_differ :: "(nat \<times> nat) list" where
  "may_differ = [(0, 4), (4, 4), (32, 4), (192, 16), (724, 4), (208, 1), (209, 1), (210, 1), (211, 1),
     (88, 4), (60, 4), (128, 4), (64, 4), (92, 4), (728, 128), (212, 512)]"

definition copy_ranges :: "(nat \<times> nat) list \<Rightarrow> buf \<Rightarrow> buf \<Rightarrow> buf" where
  "copy_ranges rs from_sb alt = fold (\<lambda>(p, n) b. blit b p n (\<lambda>i. from_sb (p + i))) rs alt"

text \<open>The comparison with the copy in the last group: \<open>False\<close> ends the check.\<close>

definition check_alternate :: "bool ck" where
  "check_alternate =
     andthen (gets (\<lambda>s. (cgsblock (fs_ncg s - 1) s, fs_sbsize s))) (\<lambda>(blk, sz).
     andthen (getblk_area False (empty_area BT_SUPER) blk sz) (\<lambda>alt.
     if b_errs alt \<noteq> 0 then ret False
     else
     andthen (data_of Sblk) (\<lambda>d.
     if same_bytes d (copy_ranges may_differ d (b_data alt)) 0 (nat sz) then ret True else badsb)))"

text \<open>Reading the summary area, of which the context has room for 32 blocks.\<close>

primrec read_csums :: "(nat \<times> int) list \<Rightarrow> bool ck" where
  "read_csums [] = ret True"
| "read_csums (jn # rest) = (case jn of (j, sz) \<Rightarrow>
     if 32 \<le> j then fail UNDEF
     else
     andthen (gets (\<lambda>s. (ctx_needswap s, fsbtodb (s32 (fs_csaddr s + int j * fs_frag s)) s))) (\<lambda>(swp, at).
     andthen (bread sz (\<lambda>_. 0) at sz) (\<lambda>(errs, d).
     andthen (modify (\<lambda>s. s\<lparr>ctx_csp := (ctx_csp s)(j := if swp \<and> errs = 0 then swap_csum_block sz d else d)\<rparr>)) (\<lambda>_.
     if errs \<noteq> 0 then ret False else read_csums rest))))"

definition init_maps :: "unit ck" where
  "init_maps =
     andthen (gets ctx_fs_maxblock) (\<lambda>fmax.
     andthen (howmany fmax 8) (\<lambda>n.
     modify (\<lambda>s. s\<lparr>ctx_bmapsz := (n + 1) sdiv 2 * 2, ctx_blockmap := (\<lambda>_. 0),
       ctx_statemap := (\<lambda>_. UNSET), ctx_lncntp := (\<lambda>_. 0)\<rparr>)))"

text \<open>\<open>setup\<close> from the open image on; \<open>False\<close> is the null pointer.\<close>

definition setup_checks :: "bool ck" where
  "setup_checks =
     andthen (gets (\<lambda>s. (ctx_nflag s \<or> \<not> file_is_writable s) \<and> ctx_preen s)) (\<lambda>no_write.
     andthen (only_if no_write pfatal) (\<lambda>_.
     andthen init_areas (\<lambda>_.
     andthen (gets ctx_bflag) (\<lambda>bflag.
     andthen (read_superblock (if bflag \<noteq> 0 then bflag else SBLOCK)) (\<lambda>ok.
     if \<not> ok then ret False
     else
     andthen (gets superblock_sane) (\<lambda>sane.
     if \<not> sane then badsb
     else
     andthen (gets fs_optim) (\<lambda>opt.
     andthen (fix_superblock (opt \<noteq> 0 \<and> opt \<noteq> 1) 128 0) (\<lambda>_.
     andthen (gets fs_minfree) (\<lambda>mf.
     andthen (fix_superblock (mf < 0 \<or> 99 < mf) 60 10) (\<lambda>_.
     andthen (if bflag \<noteq> 0 then ret True else check_alternate) (\<lambda>ok.
     if \<not> ok then ret False
     else
     andthen (modify (\<lambda>s. s\<lparr>ctx_fs_maxblock := fs_size s,
       ctx_imax := nat (s32 (fs_ncg s * fs_ipg s) mod 2 ^ 64)\<rparr>)) (\<lambda>_.
     andthen (gets id) (\<lambda>s.
     if 0 < fs_cssize s \<and> fs_bsize s \<le> 0 then fail UNDEF
     else
     andthen (read_csums (csum_blocks s)) (\<lambda>ok.
     if \<not> ok then ret False
     else andthen init_maps (\<lambda>_. ret True)))))))))))))))"

section \<open>The check of a file system\<close>

definition FS_STATE_CLEAN :: u8 where "FS_STATE_CLEAN = 1"
definition FS_STATE_DIRTY :: u8 where "FS_STATE_DIRTY = 2"

definition sb_fs_state :: "fsck_ctx \<Rightarrow> u8" where
  "sb_fs_state s = b_data (ctx_sblk s) 209"

definition expected_state :: "fsck_ctx \<Rightarrow> u8" where
  "expected_state s = (if ctx_mountedfs s \<and> \<not> ctx_readonlyfs s then FS_STATE_DIRTY else FS_STATE_CLEAN)"

definition all_passes :: "unit ck" where
  "all_passes =
     andthen pass1 (\<lambda>_.
     andthen (gets (\<lambda>s. (ctx_duplist s \<noteq> [], ctx_preen s))) (\<lambda>(dups, preen).
     andthen (only_if dups (andthen (only_if preen pfatal) (\<lambda>_. pass1b))) (\<lambda>_.
     andthen pass2 (\<lambda>_.
     andthen pass3 (\<lambda>_.
     andthen pass4 (\<lambda>_. pass5))))))"

definition finish_check :: "unit ck" where
  "finish_check =
     andthen (modify (\<lambda>s. s\<lparr>ctx_zlnhead := [], ctx_duplist := []\<rparr>)) (\<lambda>_.
     andthen (gets (\<lambda>s. ctx_preen s \<or> ctx_error_count s = 0 \<and> sb_fs_state s \<noteq> expected_state s)) (\<lambda>clean.
     andthen (only_if clean
       (andthen (edit Sblk (\<lambda>b. b(209 := FS_STATE_CLEAN))) (\<lambda>_. set_dirty Sblk))) (\<lambda>_.
     andthen (gets ctx_mod) (\<lambda>modified.
     andthen (only_if modified
       (andthen host_time (\<lambda>now.
        andthen (edit Sblk (\<lambda>b. put32 b 32 now)) (\<lambda>_. set_dirty Sblk)))) (\<lambda>_.
     andthen ckfini (\<lambda>_.
     andthen (gets (\<lambda>s. ctx_mod s \<and> ctx_mountedfs s)) (\<lambda>reboot.
     if reboot then fail (EXIT 4) else skip)))))))"

definition checkfilesys_active :: "unit ck" where
  "checkfilesys_active =
     andthen setup_checks (\<lambda>ok.
     if \<not> ok then
       andthen (modify (\<lambda>s. s\<lparr>ctx_exitstat := 8\<rparr>)) (\<lambda>_.
       andthen (gets ctx_preen) (\<lambda>preen. only_if preen pfatal))
     else
     andthen (gets (\<lambda>s. ctx_preen s \<and> sb_fs_state s = expected_state s \<and> \<not> ctx_Pflag s)) (\<lambda>clean.
     if clean then skip
     else andthen all_passes (\<lambda>_. finish_check)))"

text \<open>The status of the run and the state it leaves.\<close>

definition checkfilesys :: "fsck_ctx \<Rightarrow> int \<times> fsck_ctx" where
  "checkfilesys s = (case checkfilesys_active s of
     (Inr _, t) \<Rightarrow> (ctx_exitstat t, t)
   | (Inl (EXIT n), t) \<Rightarrow> (int n, t)
   | (Inl _, t) \<Rightarrow> (-1, t))"

end
