(* ===== verification/FsckClaims.thy ===== *)
theory FsckClaims
  imports FsckEntries FsckAlloc FsckDescend FsckSession Tiny
begin

text \<open>
  Properties of the checker: the group that pass 5 computes, the descent into directories, the reading
  of directory entries, the tables of fragment patterns, the byte order of directories, the allocation
  of blocks, and places where the checker errs.
\<close>

section \<open>The rebuilt group\<close>

lemma unat_describes:
  assumes "describes img s"
  shows "unat (frags_per_block (sb img)) = nat (fs_frag s)" "unat (frags_per_group (sb img)) = nat (fs_fpg s)"
    "unat (inodes_per_group (sb img)) = nat (fs_ipg s)"
  using assms by (simp_all add: describes_def flip: nat_uint_eq)

text \<open>
  C4. The group that pass 5 computes from its maps is well formed in the sense of the allocator: the
  magic number, the accounts of blocks, fragments and runs and the count of free inodes agree with the
  maps. A fragment is free when the map of used blocks does not have it, an inode is used when its
  state says so.
\<close>

theorem rebuilt_group_well_formed:
  assumes "rebuild_group s c now old = Inr new" "group_checked s c" "describes img s"
  shows "cg_wf img (swap_cgblock new) \<and>
    (\<forall>k. free_map (swap_cgblock new) k \<longleftrightarrow>
       k < group_frags s c \<and> \<not> free_bit (ctx_blockmap s) 0 (nat (cgbase (int c) s + int k))) \<and>
    (\<forall>i<nat (fs_ipg s). inode_used (swap_cgblock new) i \<longleftrightarrow> group_inode s c i)"
proof -
  note built = rebuild_group_done [OF assms(1,2)]
  have small: "nat (fs_frag s) \<in> {1, 2, 4, 8}" "fs_ipg s \<le> 2048" "nat (fs_frag s) \<le> 8"
    using assms(2) by (auto simp: group_checked_def)
  have "cg_wf img (swap_cgblock new)"
    by (rule cg_wf_swapped [OF unat_describes [OF assms(3)] built(1) small(3) built(6)])
      (use built(2,4,7,8,9) small(2) in \<open>auto simp: nat_le_iff\<close>)
  then show ?thesis
    using built(2,3) small(2) by (simp add: swap_cgblock_maps unused_def)
qed

text \<open>A file system of one group, with four fragments of one block each, and its state after pass 4.\<close>

definition check_sb :: buf where
  "check_sb = fold (\<lambda>(p, v) b. put32 b p v)
     [(36, 4), (44, 1), (48, 1024), (52, 1024), (56, 1), (124, 1), (160, 1024), (168, 2), (172, 4), (176, 1), (180, 1),
      (184, 4), (188, 4)] (\<lambda>_. 0)"

definition check_ctx :: fsck_ctx where
  "check_ctx = (fsck_ctx_init_from_runtime \<lparr>opt_Pflag = False, opt_nflag = False, opt_yflag = True, opt_bflag = 0,
       opt_preen = False\<rparr> tiny_image tiny_state [] False False False)
     \<lparr>ctx_sblk := (empty_area BT_SUPER)\<lparr>b_data := check_sb\<rparr>, ctx_imax := 4, ctx_fs_maxblock := 4,
      ctx_bmapsz := 2,
      ctx_blockmap := (\<lambda>i. if i = 0 then 0xd else 0),
      ctx_statemap := (\<lambda>i. if i < 2 then UNSET else if i = 2 then DFOUND else USTATE)\<rparr>"

lemma check_fields:
  "fs_size check_ctx = 4" "fs_ncg check_ctx = 1" "fs_frag check_ctx = 1" "fs_nspf check_ctx = 1"
  "fs_cgsize check_ctx = 1024" "fs_nsect check_ctx = 2" "fs_spc check_ctx = 4" "fs_ncyl check_ctx = 1"
  "fs_cpg check_ctx = 1" "fs_ipg check_ctx = 4" "fs_fpg check_ctx = 4"
  "fs_sblkno check_ctx = 0" "fs_dblkno check_ctx = 0" "fs_cgoffset check_ctx = 0"
  by (simp_all add: fs_size_def fs_ncg_def fs_frag_def fs_nspf_def fs_cgsize_def fs_nsect_def fs_spc_def
      fs_ncyl_def fs_cpg_def fs_ipg_def fs_fpg_def fs_sblkno_def fs_dblkno_def fs_cgoffset_def sb_int_def
      check_ctx_def check_sb_def cell_simps get32_def [of "\<lambda>_. 0"] read_le32_def)

lemma check_maps:
  "ctx_bmapsz check_ctx = 2" "ctx_blockmap check_ctx = (\<lambda>i. if i = 0 then 0xd else 0)"
  "ctx_statemap check_ctx = (\<lambda>i. if i < 2 then UNSET else if i = 2 then DFOUND else USTATE)"
  by (simp_all add: check_ctx_def fun_eq_iff)

lemma check_end: "cgbase 0 check_ctx = 0" "group_end check_ctx 0 = 4"
  by (simp_all add: cgbase_def group_end_def check_fields s32_id)

lemma check_group_checked: "group_checked check_ctx 0"
  by (simp add: group_checked_def check_fields check_end check_maps)

lemma check_unused:
  "unused_frags check_ctx 0 0 1 = []" "unused_frags check_ctx 0 1 1 = [1]"
  "unused_frags check_ctx 0 2 1 = []" "unused_frags check_ctx 0 3 1 = []"
  by (simp_all add: unused_frags_def check_maps free_bit_iff)

lemma check_rotation: "\<exists>c. count_rotation check_ctx 1 b = Some c"
proof -
  have "s32 1 sdiv 4 = 0" "s32 (s32 1 smod 4 smod 2 * 8) sdiv 2 = 4" by code_simp+
  then show ?thesis
    by (simp add: count_rotation_def cbtocylno_def cbtorpos_def check_fields MAXCPG_def FsckPasses.NRPOS_def)
qed

lemma check_frags: "\<exists>c. rebuild_frags check_ctx 0 4 b = Some c"
proof -
  have four: "[0..<4] = [0, 1, 2, 3 :: nat]" by (simp add: upt_rec)
  obtain c where c: "count_rotation check_ctx 1 (add32 28 1 (set_bits CG_FREE [1] b)) = Some c"
    using check_rotation by blast
  have id: "set_bits CG_FREE [] b = b" for b by (simp add: set_bits_def)
  have "rebuild_block check_ctx 0 0 b = Some b" "rebuild_block check_ctx 0 1 b = Some c"
    "rebuild_block check_ctx 0 2 c = Some c" "rebuild_block check_ctx 0 3 c = Some c"
    using c by (simp_all add: rebuild_block_def check_fields check_unused [simplified] id Let_def)
  then show ?thesis
    by (simp add: rebuild_frags_def check_fields four in_map_def check_maps rebuild_tail_def Let_def)
qed

lemma check_rebuilds: "\<exists>new. rebuild_group check_ctx 0 now old = Inr new"
proof -
  have four: "[0..<4] = [0, 1, 2, 3 :: nat]" by (simp add: upt_rec)
  have "\<exists>b. rebuild_inodes (ctx_statemap check_ctx) 0 [0..<4] h = Some b" for h
    by (simp add: four rebuild_inode_def check_maps ROOTINO_def)
  then show ?thesis
    using check_frags
    by (auto simp: rebuild_group_def check_fields check_end s32_id MAXBSIZE_def split: option.splits)
      (metis option.distinct(1))+
qed

lemma rebuilt_group_well_formed_witness:
  "\<exists>img new. rebuild_group check_ctx 0 7 (\<lambda>_. 0) = Inr new \<and> cg_wf img (swap_cgblock new) \<and>
     free_map (swap_cgblock new) 1 \<and> \<not> free_map (swap_cgblock new) 0 \<and> inode_used (swap_cgblock new) 2"
proof -
  let ?img = "tiny_image\<lparr>sb := tiny_sb\<lparr>frags_per_block := 1, frags_per_group := 4, inodes_per_group := 4\<rparr>\<rparr>"
  have d: "describes ?img check_ctx" by (simp add: describes_def check_fields)
  obtain new where new: "rebuild_group check_ctx 0 7 (\<lambda>_. 0) = Inr new" using check_rebuilds by blast
  have sz: "group_frags check_ctx 0 = 4" by (simp add: group_frags_def check_end)
  have bits: "\<not> free_bit (ctx_blockmap check_ctx) 0 1" "free_bit (ctx_blockmap check_ctx) 0 0"
    by (simp_all add: check_maps free_bit_iff)
  show ?thesis
    using rebuilt_group_well_formed [OF new check_group_checked d] new bits
    by (intro exI [of _ ?img] exI [of _ new])
      (simp add: check_end sz check_fields group_inode_def check_maps in_use_def)
qed

section \<open>The descent into directories\<close>

lemma check_imax: "ctx_imax check_ctx = 4"
  by (simp add: check_ctx_def)

text \<open>
  C12. Pass 2 ends: \<open>descend\<close> calls itself through the traversal of the directory it enters, and a
  bound on the depth of this recursion of two more than the number of inodes is never reached,
  because each call marks another directory as found and no call undoes a mark. Any larger bound gives the
  same run, whatever the disk holds and the operator answers.
\<close>

theorem descend_reaches_no_bound:
  assumes "i \<le> ctx_imax s" "ctx_imax s + 2 \<le> d"
  shows "descend_to d parent i s = descend parent i s"
  using assms by (rule descend_depth_enough)

lemma descend_reaches_no_bound_witness:
  "descend_to 9 (new_inodesc DATA Pass2check 2) 2 check_ctx = descend (new_inodesc DATA Pass2check 2) 2 check_ctx"
  by (rule descend_reaches_no_bound) (simp_all add: check_imax)

section \<open>Entries of directories\<close>

text \<open>
  C33. Whatever the block of a directory holds, an entry that \<open>fsck_readdir\<close> returns is well formed in the
  buffer: it lies in one chunk of 1024 bytes, its length is a multiple of 4 and covers its name, its
  inode is below the maximum and its name is a C string without 8-bit characters. The scan advances by
  the length of the entry and stands in front of an entry, or at the end, again.
\<close>

theorem fsck_readdir_returns_valid_entry:
  assumes run: "fsck_readdir idesc s = (Inr (Some p, idesc'), t)"
    and at: "at_entry idesc s" and imax: "0 < ctx_imax s"
  shows "p = nat (id_loc idesc) \<and> entry_ok (ctx_imax t) (b_data (ctx_fileblk t)) p \<and>
    id_loc idesc' = id_loc idesc + dirent_reclen (b_data (ctx_fileblk t)) p \<and> at_entry idesc' t"
proof -
  let ?len = "block_len idesc s" and ?q = "nat (id_loc idesc)"
  have loc: "0 \<le> id_loc idesc" "id_loc idesc mod 4 = 0" using at by (auto simp: at_entry_def)
  obtain u where u: "getblk Fileblk (id_blkno idesc) ?len s = (Inr (), u)"
    using run by (auto simp: fsck_readdir_def block_bytes_def block_len_def andthen_Inr gets_def)
  note got = getblk_fileblk [OF u]
  have len: "?len = block_len idesc u" "fsbtodb (id_blkno idesc) s = fsbtodb (id_blkno idesc) u"
    using got(2) by (simp_all add: block_len_def fsbtodb_def fs_fsize_def sb_int_def)
  let ?b = "b_data (ctx_fileblk u)"
  let ?fixed = "u\<lparr>ctx_fileblk := (ctx_fileblk u)\<lparr>b_data := empty_chunk ?q ?b\<rparr>\<rparr>"
  have smod: "id_loc idesc smod 1024 = id_loc idesc mod 1024" using loc(1) by (rule smod_nonneg)
  have branch: "if id_loc idesc mod 1024 = 0 \<and> 0 < id_filesize idesc \<and> id_loc idesc < ?len \<and> \<not> dircheck (ctx_imax u) idesc ?b ?q
    then p = ?q \<and> dirent_fix (moved 1024 idesc) ?fixed = (Inr idesc', t)
    else next_entry idesc ?len u = (Inr (Some p, idesc'), t)"
    using run u unfolding fsck_readdir_def Let_def moved_def [symmetric] block_bytes_def block_len_def [symmetric] smod
    by (auto simp: andthen_def gets_def edit_def modify_def ret_def split: if_splits prod.splits sum.splits)
  then show ?thesis
  proof (cases "id_loc idesc mod 1024 = 0 \<and> 0 < id_filesize idesc \<and> id_loc idesc < ?len \<and> \<not> dircheck (ctx_imax u) idesc ?b ?q")
    case True
    then have p: "p = ?q" and fx: "dirent_fix (moved 1024 idesc) ?fixed = (Inr idesc', t)"
      using branch unfolding if_P [OF True] by blast+
    note fixed = dirent_fix_Inr [OF fx]
    have "?q mod 1024 = 0" using True loc(1) nat_mod_distrib [of "id_loc idesc" 1024] by simp
    note chunk = empty_chunk_ok [OF imax [folded got(1)] this, of ?b]
    have "id_loc idesc' = id_loc idesc + 1024" using fixed by (auto simp: moved_def)
    moreover from this have "at_entry idesc' t" using loc True by (simp add: at_entry_def mod_add_eq [symmetric])
    ultimately show ?thesis using p chunk fixed by auto
  next
    case False
    then have nx: "next_entry idesc ?len u = (Inr (Some p, idesc'), t)"
      using branch unfolding if_not_P [OF False] by blast
    then have more: "0 < id_filesize idesc" "id_loc idesc < ?len"
      by (auto simp: next_entry_def split: if_splits)
    have "dircheck (ctx_imax u) idesc ?b ?q"
    proof (cases "id_loc idesc mod 1024 = 0")
      case True
      then show ?thesis using False more by simp
    next
      case inside: False
      then have "b_bno (ctx_fileblk s) = fsbtodb (id_blkno idesc) s" "dircheck (ctx_imax s) idesc (b_data (ctx_fileblk s)) ?q"
        using at more by (auto simp: at_entry_def)
      then show ?thesis using got(4) by simp
    qed
    note ok = dircheck_entry_ok [OF this loc(1)]
    show ?thesis by (rule next_entry_ok [OF nx len(1) loc got(3) [unfolded len(2)] ok])
  qed
qed

text \<open>A directory block in the buffer that is zeroed, and so corrupt; the operator has asked for fixes.\<close>

definition zeroed_dir_ctx :: fsck_ctx where
  "zeroed_dir_ctx = check_ctx\<lparr>ctx_fileblk := (empty_area BT_DIR)\<lparr>b_bno := 0, b_data := (\<lambda>_. 0)\<rparr>\<rparr>"

definition dir_idesc :: inodesc where
  "dir_idesc = (new_inodesc DATA Pass2check 2)\<lparr>id_fix := FIX, id_numfrags := 1, id_filesize := 1024\<rparr>"

lemma fsck_readdir_returns_valid_entry_witness:
  "\<exists>idesc' t. fsck_readdir dir_idesc zeroed_dir_ctx = (Inr (Some 0, idesc'), t) \<and>
     entry_ok 4 (b_data (ctx_fileblk t)) 0 \<and> id_loc idesc' = dirent_reclen (b_data (ctx_fileblk t)) 0"
proof -
  have fsize: "fs_fsize zeroed_dir_ctx = 1024"
    by (simp add: fs_fsize_def sb_int_def zeroed_dir_ctx_def check_ctx_def check_sb_def cell_simps)
  have blk: "fsbtodb 0 zeroed_dir_ctx = 0" by (simp add: Fsck.fsbtodb_def)
  have start: "at_entry dir_idesc zeroed_dir_ctx" by (simp add: at_entry_def dir_idesc_def new_inodesc_def)
  have imax: "ctx_imax zeroed_dir_ctx = 4" by (simp add: zeroed_dir_ctx_def check_imax)
  have bad: "\<not> dircheck 4 dir_idesc (\<lambda>_. 0) 0"
    by (simp add: dircheck_def dirent_reclen_def get16_def Let_def)
  have zero: "(0 :: int) smod 1024 = 0" by (simp add: smod_nonneg)
  have "\<exists>idesc' t. fsck_readdir dir_idesc zeroed_dir_ctx = (Inr (Some 0, idesc'), t) \<and> ctx_imax t = 4"
    using bad imax fsize blk
    by (simp add: fsck_readdir_def block_bytes_def getblk_def getblk_area_def andthen_def gets_def edit_def
        modify_def dirent_fix_def dofix_def only_if_def set_dirty_def skip_def s32_id Let_def zero
        dir_idesc_def new_inodesc_def)
      (simp add: zeroed_dir_ctx_def empty_area_def)
  then obtain idesc' t where run: "fsck_readdir dir_idesc zeroed_dir_ctx = (Inr (Some 0, idesc'), t)"
    and t: "ctx_imax t = 4" by blast
  from fsck_readdir_returns_valid_entry [OF run start] imax
  have "entry_ok (ctx_imax t) (b_data (ctx_fileblk t)) 0 \<and>
    id_loc idesc' = dirent_reclen (b_data (ctx_fileblk t)) 0"
    by (simp add: dir_idesc_def new_inodesc_def)
  then show ?thesis using run t by auto
qed

section \<open>Tables of fragment patterns\<close>

text \<open>
  C34. \<open>fragacct\<close>, which looks the map of a block up in the tables \<open>fragtbl\<close>, \<open>around\<close> and \<open>inside\<close>,
  adds what \<open>nextufs__count_free_runs_in_block\<close>, which scans the bits of the map, counts for the same block.
\<close>

theorem fragacct_counts_runs:
  assumes "frag \<in> {1, 2, 4, 8}"
  shows "\<exists>l'. fragacct frag (blkmap frag b off (h * frag)) l cnt = Some l' \<and>
    (\<forall>k. 0 < k \<and> k < frag \<longrightarrow> l' k = l k + cnt * count_free_runs_in_block b off (h * frag) (of_nat frag) k)"
proof -
  let ?m = "blkmap frag b off (h * frag)"
  obtain l' where l': "fragacct frag ?m l cnt = Some l'"
    "\<And>k. 0 < k \<Longrightarrow> k < frag \<Longrightarrow> l' k = l k + cnt * of_nat (runs (bit (int ?m)) frag k)"
    using fragacct_runs [OF assms blkmap_bits(2) [OF assms], of b off h l cnt] by auto
  have "max_run (bit (int ?m)) frag i k = max_run (\<lambda>i. free_bit b off (h * frag + i)) frag i k" for i k
    by (intro max_run_cong) (simp add: blkmap_bits(1) [OF assms])
  then have "runs (bit (int ?m)) frag k = runs (\<lambda>i. free_bit b off (h * frag + i)) frag k" for k
    by (simp add: runs_def)
  with l' show ?thesis by (auto simp: count_free_runs_eq)
qed

lemma fragacct_counts_runs_witness:
  "\<exists>l'. fragacct 8 (blkmap 8 (\<lambda>_. 0xb5) 0 8) (\<lambda>_. 0) 1 = Some l' \<and> l' 1 = 3 \<and> l' 2 = 1"
proof -
  have "count_free_runs_in_block (\<lambda>_. 0xb5) 0 8 8 1 = 3" "count_free_runs_in_block (\<lambda>_. 0xb5) 0 8 8 2 = 1"
    by code_simp+
  then show ?thesis using fragacct_counts_runs [of 8 "\<lambda>_. 0xb5" 0 1 "\<lambda>_. 0" 1] by auto
qed

section \<open>The byte order of directories\<close>

text \<open>
  C35. \<open>swap_dirblock\<close> in the writing direction undoes itself in the reading direction on a block
  whose records, up to the first of length 0, are at least as long as a record header.
\<close>

theorem swap_dirblock_roundtrip:
  "long_records sz 0 b \<Longrightarrow> swap_dirblock sz True (swap_dirblock sz False b) = b"
  unfolding swap_dirblock_def by (rule swap_entries_twice)

lemma swap_dirblock_roundtrip_witness:
  "let b = (\<lambda>_. 0)(3 := 2, 5 := 12, 7 := 1, 8 := 0x2e, 16 := 3, 17 := 0xf4) in
    swap_dirblock 1024 True (swap_dirblock 1024 False b) = b"
  unfolding Let_def
  by (rule swap_dirblock_roundtrip) (simp add: long_records.simps read_be16_def)

lemma unat_two_bytes: "unat (push_bit 8 (ucast (x :: u8)) OR ucast (y :: u8) :: u16) = 256 * unat x + unat y"
proof -
  have "push_bit 8 (ucast x) OR ucast y = push_bit 8 (ucast x) + (ucast y :: u16)"
    by (rule disjunctive_add [symmetric]) (auto simp: bit_simps dest: bit_imp_le_length)
  moreover have "unat x < 256" "unat y < 256" using unsigned_less [of x] unsigned_less [of y] by simp_all
  ultimately show ?thesis
    by (simp add: unat_word_ariths unsigned_push_bit_eq unsigned_ucast_eq push_bit_eq_mult take_bit_nat_eq_self)
qed

lemma swap_dirblock_stops:
  "8 \<le> sz \<Longrightarrow> read_be16 b 4 = 0 \<Longrightarrow> 8 \<le> i \<Longrightarrow> swap_dirblock sz False b i = b i"
  unfolding swap_dirblock_def by (subst read_pass) (simp add: Let_def dirent_frame)

text \<open>
  C38. A record of length 0 at the front of a block, which \<open>fsck_readdir\<close> would repair, hides all entries
  behind it: \<open>swap_dirblock\<close> stops there and leaves them in the byte order of the disk, and \<open>dircheck\<close> then
  rejects every one of them that was valid.
\<close>

theorem zero_record_hides_entries:
  assumes "8 \<le> sz" "read_be16 b 4 = 0" "8 \<le> p" "0 \<le> id_loc idesc"
    and len: "12 \<le> unat (read_be16 b (p + 4))" "unat (read_be16 b (p + 4)) \<le> 1024"
  shows "\<not> dircheck imax idesc (swap_dirblock sz False b) p"
proof
  let ?c = "swap_dirblock sz False b"
  assume ok: "dircheck imax idesc ?c p"
  let ?x = "unat (b (p + 4))" and ?y = "unat (b (p + 5))"
  have at: "p + 4 + 1 = p + 5" by simp
  have "?c (p + 4) = b (p + 4)" "?c (p + 4 + 1) = b (p + 5)" unfolding at
    using swap_dirblock_stops [OF assms(1,2), of "p + 4"] swap_dirblock_stops [OF assms(1,2), of "p + 5"] assms(3)
    by auto
  then have le: "dirent_reclen ?c p = int (256 * ?y + ?x)"
    using unat_two_bytes [of "b (p + 5)" "b (p + 4)"]
    unfolding dirent_reclen_def get16_def or.commute [of "ucast _"] by (metis of_nat_unat)
  have be: "unat (read_be16 b (p + 4)) = 256 * ?x + ?y"
    unfolding read_be16_def at by (rule unat_two_bytes)
  have "0 \<le> id_loc idesc smod 1024"
    using assms(4) by (cases "id_loc idesc = 0") (simp_all add: signed_modulo_int_def signed_divide_int_def)
  then have rules: "int (256 * ?y + ?x) \<le> 1024" "int (256 * ?y + ?x) AND 3 = 0" "12 \<le> int (256 * ?y + ?x)"
    using ok DIRSIZ_ge [of "dirent_namlen ?c p"] by (auto simp: dircheck_def Let_def le spaceleft_def)
  from rules(2) have "(256 * ?y + ?x) mod 4 = 0" 
    using and_low(2) [of "256 * ?y + ?x"] of_nat_and_eq [of "256 * ?y + ?x" 3, where 'a = int] by simp
  moreover have "(256 * ?y + ?x) mod 4 = ?x mod 4"
    using mod_mult_self2 [of ?x 4 "64 * ?y"] by (simp add: add.commute)
  moreover have "?x \<le> 4" using len(2) be by linarith
  ultimately have "?x = 0 \<or> ?x = 4" by presburger
  then show False using rules(1,3) be len by auto
qed

lemma zero_record_hides_entries_witness:
  "\<not> dircheck 10 (new_inodesc DATA Pass2check 2) (swap_dirblock 1024 False ((\<lambda>_. 0)(17 := 12))) 12"
  by (rule zero_record_hides_entries) (simp_all add: read_be16_def new_inodesc_def)

section \<open>Allocation of blocks\<close>

text \<open>
  C36. \<open>allocblk\<close> hands out a free run of fragments inside one whole block below the end of the file
  system and marks exactly this run as used; it returns 0 without a change only when no such block but
  the last has room.
\<close>

theorem allocblk_takes_free_run:
  assumes "allocblk n s = (Inr blk, t)" "0 < n" "n \<le> fs_frag s"
  shows "(0 \<le> blk \<and> blk mod fs_frag s + n \<le> fs_frag s \<and> blk + n \<le> ctx_fs_maxblock s \<and>
      (\<forall>j. blk \<le> j \<and> j < blk + n \<longrightarrow> \<not> used s j) \<and>
      (\<forall>j\<ge>0. used t j \<longleftrightarrow> used s j \<or> blk \<le> j \<and> j < blk + n)) \<or>
    blk = 0 \<and> t = s \<and>
      (\<forall>b p. 0 \<le> b \<and> b * fs_frag s < ctx_fs_maxblock s - fs_frag s \<and> 0 \<le> p \<and> p + n \<le> fs_frag s \<longrightarrow>
        (\<exists>q. 0 \<le> q \<and> q < n \<and> used s (b * fs_frag s + p + q)))"
proof -
  let ?frag = "fs_frag s" and ?fmax = "ctx_fs_maxblock s"
  have pos: "0 < ?frag" "0 < nat n" using assms by auto
  have "alloc_loop (nat ?frag) (nat n) (block_starts ?frag ?fmax) s = (Inr blk, t)"
    using assms by (simp add: allocblk_def andthen_def gets_def)
  from alloc_loop_Inr [OF this pos(2)]
  consider (taken) i p where "i \<in> set (block_starts ?frag ?fmax)" "p + nat n \<le> nat ?frag" "blk = i + int p"
      "run_taken blk (nat n) s t"
    | (none) "blk = 0" "t = s" "\<And>i p. i \<in> set (block_starts ?frag ?fmax) \<Longrightarrow> p + nat n \<le> nat ?frag \<Longrightarrow>
        \<exists>q<nat n. used s (i + int (p + q))"
    by blast
  then show ?thesis
  proof cases
    case taken
    then obtain b where b: "i = b * ?frag" "0 \<le> b" "b * ?frag < ?fmax - ?frag"
      using block_starts_set [OF pos(1)] by auto
    have p: "int p + n \<le> ?frag" "0 \<le> i" using taken(2) assms pos b(1,2) by auto
    then have "blk mod ?frag = int p" using taken(3) b(1) assms(2) by simp
    moreover have "\<not> used s j" if "blk \<le> j" "j < blk + n" for j
      using taken(4) that assms(2) unfolding run_taken_def
      by (metis add_diff_cancel_left' add_diff_eq diff_add_cancel int_nat_eq less_diff_eq nat_less_iff zle_iff_zadd
          zless_nat_eq_int_zless diff_ge_0_iff_ge)
    ultimately show ?thesis
      using taken(3,4) p b(1,3) assms(2) by (intro disjI1) (auto simp: run_taken_def)
  next
    case none
    have "\<exists>q. 0 \<le> q \<and> q < n \<and> used s (b * ?frag + p + q)"
      if "0 \<le> b" "b * ?frag < ?fmax - ?frag" "0 \<le> p" "p + n \<le> ?frag" for b p
    proof -
      have "b * ?frag \<in> set (block_starts ?frag ?fmax)" using block_starts_set [OF pos(1)] that by auto
      moreover have "nat p + nat n \<le> nat ?frag" using that assms(2) by linarith
      ultimately obtain q where "q < nat n" "used s (b * ?frag + int (nat p + q))" using none(3) by blast
      then show ?thesis using that(3) by (intro exI [of _ "int q"]) (simp add: add.assoc)
    qed
    with none show ?thesis by blast
  qed
qed

lemma allocblk_takes_free_run_witness:
  "\<exists>t. allocblk 1 check_ctx = (Inr 1, t) \<and> used t 1 \<and> \<not> used t 4"
proof -
  let ?s = check_ctx
  have fmax: "ctx_fs_maxblock ?s = 4" by (simp add: check_ctx_def)
  have map: "used ?s 0" "\<not> used ?s 1" "\<not> used ?s 4" "in_map 0 ?s" "in_map 1 ?s"
    using check_maps by (simp_all add: used_def in_map_def free_bit_iff)
  have blocks: "block_starts 1 4 = [0, 1, 2]" by (simp add: block_starts_def upt_rec)
  have "\<exists>t. allocblk 1 ?s = (Inr 1, t)"
    using map by (simp add: allocblk_def andthen_def gets_def check_fields fmax blocks alloc_in_block.simps getbmap_def used_def
      setbmap_def modify_def skip_def)
  then obtain t where run: "allocblk 1 ?s = (Inr 1, t)" by blast
  from allocblk_takes_free_run [OF run] map show ?thesis by (auto simp: check_fields run)
qed

section \<open>Where the checker errs\<close>

text \<open>
  C37. \<open>outrange\<close> accepts the negative block numbers of a damaged inode that do not reach group -1 by
  division towards zero, and \<open>pass1check\<close> then reads the map of used blocks outside its memory.
\<close>

theorem outrange_accepts_negative:
  assumes "- fs_fpg s < blk" "blk < 0" "0 < cnt" "blk + cnt \<le> 0" "0 \<le> cgsblock 0 s" "0 \<le> cgdmin 0 s"
    "0 \<le> ctx_fs_maxblock s"
  shows "outrange blk cnt s = (Inr False, s) \<and>
    pass1check ((new_inodesc ADDR Pass1check ino)\<lparr>id_blkno := blk, id_numfrags := cnt\<rparr>) s = (Inl UNDEF, s)"
proof -
  have fpg: "fs_fpg s < 2 ^ 31" using sint_less [of "get32 (b_data (ctx_sblk s)) 188"] by (simp add: fs_fpg_def sb_int_def)
  have sum: "s32 (blk + cnt) = blk + cnt" using assms fpg by (intro s32_id) auto
  have div: "blk sdiv fs_fpg s = 0" using assms(1,2) by (simp add: signed_divide_int_def div_pos_pos_trivial)
  have out: "outrange blk cnt s = (Inr False, s)"
    using assms by (simp add: outrange_def c_div_def andthen_def gets_def sum div)
  obtain n where n: "nat cnt = Suc n" using assms(3) by (cases "nat cnt") auto
  have "pass1check ((new_inodesc ADDR Pass1check ino)\<lparr>id_blkno := blk, id_numfrags := cnt\<rparr>) s = (Inl UNDEF, s)"
    using assms(2)
    by (simp add: pass1check_def out n getbmap_def in_map_def andthen_def)
  with out show ?thesis by blast
qed

lemma outrange_accepts_negative_witness:
  "outrange (- 2) 2 check_ctx = (Inr False, check_ctx) \<and>
    pass1check ((new_inodesc ADDR Pass1check 2)\<lparr>id_blkno := - 2, id_numfrags := 2\<rparr>) check_ctx = (Inl UNDEF, check_ctx)"
proof (rule outrange_accepts_negative)
  show "0 \<le> cgsblock 0 check_ctx" "0 \<le> cgdmin 0 check_ctx"
    by (simp_all add: Fsck.cgsblock_def Fsck.cgdmin_def Fsck.cgstart_def check_end check_fields s32_id)
qed (simp_all add: check_fields, simp add: check_ctx_def)

text \<open>What \<open>check_dotdot\<close> does with an entry \<open>.\<close> at the front: two minimal records, the second free.\<close>

lemma split_record:
  defines "e d \<equiv> put16 (fill (put16 d 4 12) 12 12 0) 16 12"
  shows "dirent_ino (e d) 12 = 0" "dirent_reclen (e d) 0 = 12" "dirent_reclen (e d) 12 = 12"
proof -
  have "get32 (e d) 12 = get32 (fill (put16 d 4 12) 12 12 0) 12" by (simp add: cell_simps e_def)
  also have "\<dots> = 0" by (simp add: get32_def read_le32_def fill_def blit_def)
  finally show "dirent_ino (e d) 12 = 0" by (simp add: dirent_ino_def)
qed (simp_all add: e_def dirent_reclen_def cell_simps fill_def)

text \<open>
  When a directory has a first entry with room behind it but no \<open>..\<close> there, \<open>check_dotdot\<close> makes one of
  the split-off space, but gives both records the length of a minimal entry: the rest of the chunk does
  not belong to any entry any more.
\<close>

theorem missing_dotdot_loses_space:
  assumes run: "check_dotdot 0 fl idesc s = (Inr (p, fl', idesc'), s')"
    and first: "id_entryno idesc = 0" "dirent_namlen (id_dirp idesc) 0 = 1" 
    and room: "24 \<le> dirent_reclen (id_dirp idesc) 0"
  shows "p = 12 \<and> dirent_reclen (id_dirp idesc') 0 = 12 \<and> dirent_reclen (id_dirp idesc') 12 = 12"
proof -
  let ?d = "id_dirp idesc"
  let ?e = "put16 (fill (put16 ?d 4 12) 12 12 0) 16 12"
  have sz: "DIRSIZ 1 = 12" by code_simp
  have new: "dirent_reclen (put_proto 12 n 12 dotdot ?e) 0 = 12" "dirent_reclen (put_proto 12 n 12 dotdot ?e) 12 = 12" for n
    by (simp_all add: put_proto_def put_entry_def dirent_reclen_def cell_simps fill_def)
  have "p = 12 \<and> (\<exists>n. id_dirp idesc' = put_proto 12 n 12 dotdot ?e)"
    using run first room split_record(1,3) [of ?d]
    by (auto simp: check_dotdot_def sz [simplified] Let_def andthen_Inr)
  with new show ?thesis by auto
qed

text \<open>A directory that holds only its own entry.\<close>

definition lone_dot :: inodesc where
  "lone_dot = (new_inodesc DATA Pass2check 5)\<lparr>id_dirp := put_entry 0 2 1024 dot_name (\<lambda>_. 0)\<rparr>"

lemma missing_dotdot_loses_space_witness:
  "\<exists>fl idesc t. check_dotdot 0 0 lone_dot check_ctx = (Inr (12, fl, idesc), t) \<and>
     dirent_reclen (id_dirp idesc) 0 = 12 \<and> dirent_reclen (id_dirp idesc) 12 = 12"
proof -
  have d: "dirent_namlen (id_dirp lone_dot) 0 = 1" "dirent_reclen (id_dirp lone_dot) 0 = 1024"
    "id_entryno lone_dot = 0" "id_number lone_dot = 5"
    by (simp_all add: lone_dot_def new_inodesc_def put_entry_def dirent_namlen_def dirent_reclen_def dot_name_def
        cell_simps)
  have say: "\<exists>t. direrr 5 s = (Inr (), t) \<and> (\<exists>fl u. fix_flag t = (Inr fl, u))"
    if "ctx_imax s = 4" "\<not> ctx_preen s" "ctx_yflag s" for s
    using that by (simp add: direrr_def pinode_def pwarn_def pfatal_def fix_flag_def reply_def only_if_def skip_def
        andthen_def gets_def modify_def)
  define s where "s = check_ctx\<lparr>ctx_lncntp := (ctx_lncntp check_ctx)(2 := ctx_lncntp check_ctx 2 - 1)\<rparr>"
  obtain t fl u where said: "direrr 5 s = (Inr (), t)" "fix_flag t = (Inr fl, u)"
    using say [of s] by (auto simp: s_def check_ctx_def fsck_ctx_init_from_runtime_def Let_def)
  have "DIRSIZ 1 = 12" by code_simp
  moreover have "dirent_ino (id_dirp lone_dot) 0 = 2"
    by (simp add: lone_dot_def new_inodesc_def put_entry_def dirent_ino_def dot_name_def cell_simps)
  ultimately have "\<exists>p fl idesc t. check_dotdot 0 0 lone_dot check_ctx = (Inr (p, fl, idesc), t)"
    using said split_record(1,3) [of "id_dirp lone_dot"] d
    by (simp add: check_dotdot_def Let_def andthen_def add_lncnt_def modify_def s_def [symmetric])
  then obtain p fl idesc t where run: "check_dotdot 0 0 lone_dot check_ctx = (Inr (p, fl, idesc), t)" by blast
  from missing_dotdot_loses_space [OF run] run d show ?thesis by auto
qed

end
