(* ===== verification/Format.thy ===== *)
theory Format
  imports HostIO FsckPasses
begin

text \<open>
  The formatter (\<open>src/src/mkimg_format\<close>): its options and its state (\<open>format.h\<close>), and the transfer of
  structures to the image in the byte order of the disk (\<open>format_io.c\<close>). The superblock is a record of
  C integers; the cylinder group, the summary and the inodes are buffers in the order of the host, with
  the cell operations the checker uses too. A C overflow or an access outside an array is \<open>UNDEF\<close>, the
  exits with an error are \<open>EXIT 1\<close>; messages are left out.
\<close>

section \<open>Constants\<close>

definition BBSIZE :: int where "BBSIZE = 8192"
definition SBSIZE :: int where "SBSIZE = 8192"
definition MINBSIZE :: int where "MINBSIZE = 4096"
definition MAXBSIZE :: int where "MAXBSIZE = 8192"
definition DEV_BSIZE :: int where "DEV_BSIZE = 1024"
definition MAXFRAG :: int where "MAXFRAG = 8"
definition MAXIPG :: int where "MAXIPG = 2048"
definition MAXCPG :: int where "MAXCPG = 32"
definition NRPOS :: int where "NRPOS = 8"
definition DESCPG :: int where "DESCPG = 16"
definition MINFREE :: int where "MINFREE = 10"
definition NBPI :: int where "NBPI = 2048"
definition ROTDELAY :: int where "ROTDELAY = 4"
definition MAXCONTIG :: int where "MAXCONTIG = 1"
definition FORMAT_COMPAT_MAX_SECTORS :: int where "FORMAT_COMPAT_MAX_SECTORS = 4294836224 div 1024"
definition SBLOCK :: int where "SBLOCK = 8"
definition LOSTFOUNDINO :: nat where "LOSTFOUNDINO = 3"

text \<open>The sizes of \<open>struct fs\<close>, \<open>struct cg\<close>, \<open>struct csum\<close> and \<open>struct dinode\<close>.\<close>

definition sizeof_fs :: int where "sizeof_fs = 1380"
definition sizeof_cg :: int where "sizeof_cg = 988"
definition sizeof_csum :: int where "sizeof_csum = 16"
definition sizeof_dinode :: int where "sizeof_dinode = 128"

text \<open>Arithmetic on C integers of 32 and 64 bits.\<close>

definition i32 :: "int \<Rightarrow> ('s, int) io" where
  "i32 x = (if - (2 ^ 31) \<le> x \<and> x < 2 ^ 31 then ret x else fail UNDEF)"

definition i64 :: "int \<Rightarrow> ('s, int) io" where
  "i64 x = (if - (2 ^ 63) \<le> x \<and> x < 2 ^ 63 then ret x else fail UNDEF)"

definition roundup :: "int \<Rightarrow> int \<Rightarrow> int" where
  "roundup x y = (x + (y - 1)) div y * y"

definition ceil_div :: "int \<Rightarrow> int \<Rightarrow> int" where
  "ceil_div x y = (x + (y - 1)) div y"

section \<open>Options and state\<close>

record nextufs_format_options =
  fo_target :: bool
  fo_size_1k_sectors :: nat
  fo_nsect :: int
  fo_ntrak :: int
  fo_bsize :: int
  fo_fsize :: int
  fo_cpg :: int
  fo_minfree :: int
  fo_rps :: int
  fo_nbpi :: int
  fo_opt :: u8
  fo_dry_run :: bool
  fo_force_size :: bool
  fo_no_create :: bool
  fo_base_offset :: int

text \<open>\<open>nextufs_format_defaults\<close>; \<open>opt\<close> is the letter t.\<close>

definition format_defaults :: nextufs_format_options where
  "format_defaults = \<lparr>fo_target = False, fo_size_1k_sectors = 0, fo_nsect = 32, fo_ntrak = 16, fo_bsize = 8192,
     fo_fsize = 1024, fo_cpg = 0, fo_minfree = MINFREE, fo_rps = 60, fo_nbpi = NBPI, fo_opt = 0x74,
     fo_dry_run = False, fo_force_size = False, fo_no_create = False, fo_base_offset = 0\<rparr>"

text \<open>\<open>struct fs\<close>. The totals are words, the tables functions; what stays zero is left out.\<close>

record format_sblock =
  m_sblkno :: int
  m_cblkno :: int
  m_iblkno :: int
  m_dblkno :: int
  m_cgoffset :: int
  m_cgmask :: int
  m_time :: u32
  m_size :: int
  m_dsize :: int
  m_ncg :: int
  m_bsize :: int
  m_fsize :: int
  m_frag :: int
  m_minfree :: int
  m_rotdelay :: int
  m_rps :: int
  m_bmask :: int
  m_fmask :: int
  m_bshift :: int
  m_fshift :: int
  m_maxcontig :: int
  m_maxbpg :: int
  m_fragshift :: int
  m_fsbtodb :: int
  m_sbsize :: int
  m_csmask :: int
  m_csshift :: int
  m_nindir :: int
  m_inopb :: int
  m_nspf :: int
  m_optim :: int
  m_csaddr :: int
  m_cssize :: int
  m_cgsize :: int
  m_ntrak :: int
  m_nsect :: int
  m_spc :: int
  m_ncyl :: int
  m_cpg :: int
  m_ipg :: int
  m_fpg :: int
  m_cs_ndir :: u32
  m_cs_nbfree :: u32
  m_cs_nifree :: u32
  m_cs_nffree :: u32
  m_state :: u8
  m_cpc :: int
  m_postbl :: "nat \<Rightarrow> int"
  m_magic :: int
  m_rotbl :: buf

text \<open>\<open>struct nextufs_format\<close>: the superblock, one group, the summary, the clock and the open file.\<close>

record format_ctx =
  f_sblock :: format_sblock
  f_acg :: buf
  f_csums :: buf
  f_utime :: u32
  f_nflag :: bool
  f_base :: int
  f_dev :: "hostfile \<times> os"

type_synonym 'a fmt = "(format_ctx, 'a) io"

definition gets :: "('s \<Rightarrow> 'a) \<Rightarrow> ('s, 'a) io" where
  "gets f = (\<lambda>s. (Inr (f s), s))"

definition modify :: "('s \<Rightarrow> 's) \<Rightarrow> ('s, unit) io" where
  "modify u = (\<lambda>s. (Inr (), u s))"

definition edit_acg :: "(buf \<Rightarrow> buf) \<Rightarrow> unit fmt" where
  "edit_acg u = modify (\<lambda>s. s\<lparr>f_acg := u (f_acg s)\<rparr>)"

definition edit_sblock :: "(format_sblock \<Rightarrow> format_sblock) \<Rightarrow> unit fmt" where
  "edit_sblock u = modify (\<lambda>s. s\<lparr>f_sblock := u (f_sblock s)\<rparr>)"

definition edit_csums :: "(buf \<Rightarrow> buf) \<Rightarrow> unit fmt" where
  "edit_csums u = modify (\<lambda>s. s\<lparr>f_csums := u (f_csums s)\<rparr>)"

text \<open>\<open>format_abort\<close>: the jump back makes \<open>nextufs_format\<close> return 1.\<close>

definition format_abort :: "'a fmt" where
  "format_abort = fail (EXIT 1)"

section \<open>Addresses\<close>

text \<open>Shifts of addresses, and the places of the parts of a group.\<close>

definition fsbtodb :: "format_sblock \<Rightarrow> int \<Rightarrow> ('s, int) io" where
  "fsbtodb fs b = i32 (b * 2 ^ nat (m_fsbtodb fs))"

definition dbtofsb :: "format_sblock \<Rightarrow> int \<Rightarrow> int" where
  "dbtofsb fs b = b div 2 ^ nat (m_fsbtodb fs)"

definition cgbase :: "format_sblock \<Rightarrow> int \<Rightarrow> ('s, int) io" where
  "cgbase fs c = i32 (m_fpg fs * c)"

definition cgstart :: "format_sblock \<Rightarrow> int \<Rightarrow> ('s, int) io" where
  "cgstart fs c = andthen (cgbase fs c) (\<lambda>b. i32 (b + m_cgoffset fs * (c AND NOT (m_cgmask fs))))"

definition cgsblock :: "format_sblock \<Rightarrow> int \<Rightarrow> ('s, int) io" where
  "cgsblock fs c = andthen (cgstart fs c) (\<lambda>b. i32 (b + m_sblkno fs))"

definition cgtod :: "format_sblock \<Rightarrow> int \<Rightarrow> ('s, int) io" where
  "cgtod fs c = andthen (cgstart fs c) (\<lambda>b. i32 (b + m_cblkno fs))"

definition cgimin :: "format_sblock \<Rightarrow> int \<Rightarrow> ('s, int) io" where
  "cgimin fs c = andthen (cgstart fs c) (\<lambda>b. i32 (b + m_iblkno fs))"

definition cgdmin :: "format_sblock \<Rightarrow> int \<Rightarrow> ('s, int) io" where
  "cgdmin fs c = andthen (cgstart fs c) (\<lambda>b. i32 (b + m_dblkno fs))"

definition NSPB :: "format_sblock \<Rightarrow> int" where
  "NSPB fs = m_nspf fs * 2 ^ nat (m_fragshift fs)"

definition INOPF :: "format_sblock \<Rightarrow> int" where
  "INOPF fs = m_inopb fs div 2 ^ nat (m_fragshift fs)"

definition MAXBPG :: "format_sblock \<Rightarrow> int" where
  "MAXBPG fs = 8 * (m_bsize fs - sizeof_cg) div 2 ^ nat (m_fragshift fs)"

definition numfrags :: "format_sblock \<Rightarrow> int \<Rightarrow> int" where
  "numfrags fs loc = loc div 2 ^ nat (m_fshift fs)"

definition fragroundup :: "format_sblock \<Rightarrow> int \<Rightarrow> int" where
  "fragroundup fs sz = (sz + m_fsize fs - 1) AND m_fmask fs"

section \<open>Transfers\<close>

text \<open>A single call each; a short one is an error.\<close>

definition wtfs :: "int \<Rightarrow> nat \<Rightarrow> buf \<Rightarrow> unit fmt" where
  "wtfs bno sz bf = (\<lambda>s.
     let offset = f_base s + bno * DEV_BSIZE in
     if f_nflag s then (Inr (), s)
     else if offset < 0 then (Inl (EXIT 1), s)
     else case pwrite bf sz offset (f_dev s) of (r, d) \<Rightarrow>
       (if r = Inr sz then Inr () else Inl (EXIT 1), s\<lparr>f_dev := d\<rparr>))"

definition rdfs :: "int \<Rightarrow> nat \<Rightarrow> buf \<Rightarrow> buf fmt" where
  "rdfs bno sz bf = (\<lambda>s.
     let offset = f_base s + bno * DEV_BSIZE; (hf, os) = f_dev s in
     if offset < 0 then (Inl (EXIT 1), s)
     else case pread hf sz offset os of (r, os) \<Rightarrow>
       (if r = Inr sz then Inr (blit bf 0 sz (\<lambda>i. fbytes hf (nat offset + i))) else Inl (EXIT 1),
        s\<lparr>f_dev := (hf, os)\<rparr>))"

text \<open>The fields the formatter swaps: those the checker swaps, and the placeholders for pointers.\<close>

definition format_superblock_fields :: "(nat \<times> nat) list" where
  "format_superblock_fields = words_at 0 2 @ words_at 8 31 @ words_at 132 5 @ words_at 152 10 @ csum_fields 192 @
     [(724, 4)] @ words_at 728 32 @ [(856, 4)] @ halves_at 860 256 @ [(1372, 4)]"

definition format_swap_superblock :: "buf \<Rightarrow> buf" where
  "format_swap_superblock b = swap_fields format_superblock_fields b"

definition format_swap_cg :: "buf \<Rightarrow> buf" where
  "format_swap_cg b = swap_fields (words_at 0 2 @ cg_fields) b"

definition format_swap_inodes :: "nat \<Rightarrow> buf \<Rightarrow> buf" where
  "format_swap_inodes cnt b = fold (\<lambda>i. swap_fields (dinode_fields (i * 128))) [0..<cnt] b"

definition format_swap_csums :: "nat \<Rightarrow> buf \<Rightarrow> buf" where
  "format_swap_csums cnt b = fold (\<lambda>i. swap_fields (csum_fields (i * 16))) [0..<cnt] b"

text \<open>The superblock in memory, in the order of the host.\<close>

definition sblock_words :: "format_sblock \<Rightarrow> (nat \<times> u32) list" where
  "sblock_words fs =
     [(8, of_int (m_sblkno fs)), (12, of_int (m_cblkno fs)), (16, of_int (m_iblkno fs)),
      (20, of_int (m_dblkno fs)), (24, of_int (m_cgoffset fs)), (28, of_int (m_cgmask fs)),
      (32, m_time fs), (36, of_int (m_size fs)), (40, of_int (m_dsize fs)), (44, of_int (m_ncg fs)),
      (48, of_int (m_bsize fs)), (52, of_int (m_fsize fs)), (56, of_int (m_frag fs)),
      (60, of_int (m_minfree fs)), (64, of_int (m_rotdelay fs)), (68, of_int (m_rps fs)),
      (72, of_int (m_bmask fs)), (76, of_int (m_fmask fs)), (80, of_int (m_bshift fs)),
      (84, of_int (m_fshift fs)), (88, of_int (m_maxcontig fs)), (92, of_int (m_maxbpg fs)),
      (96, of_int (m_fragshift fs)), (100, of_int (m_fsbtodb fs)), (104, of_int (m_sbsize fs)),
      (108, of_int (m_csmask fs)), (112, of_int (m_csshift fs)), (116, of_int (m_nindir fs)),
      (120, of_int (m_inopb fs)), (124, of_int (m_nspf fs)), (128, of_int (m_optim fs)),
      (152, of_int (m_csaddr fs)), (156, of_int (m_cssize fs)), (160, of_int (m_cgsize fs)),
      (164, of_int (m_ntrak fs)), (168, of_int (m_nsect fs)), (172, of_int (m_spc fs)),
      (176, of_int (m_ncyl fs)), (180, of_int (m_cpg fs)), (184, of_int (m_ipg fs)),
      (188, of_int (m_fpg fs)), (192, m_cs_ndir fs), (196, m_cs_nbfree fs), (200, m_cs_nifree fs),
      (204, m_cs_nffree fs), (856, of_int (m_cpc fs)), (1372, of_int (m_magic fs))]"

definition sblock_bytes :: "format_sblock \<Rightarrow> buf" where
  "sblock_bytes fs =
     (let b = blit (\<lambda>_. 0) 1376 6816 (m_rotbl fs);
          b = fold (\<lambda>i b. put16 b (860 + i * 2) (of_int (m_postbl fs i))) [0..<256] b;
          b = b(209 := m_state fs) in
      fold (\<lambda>(p, v) b. put32 b p v) (sblock_words fs) b)"

definition write_superblock :: "int \<Rightarrow> unit fmt" where
  "write_superblock bno = andthen (gets f_sblock) (\<lambda>fs.
     wtfs bno (nat SBSIZE) (format_swap_superblock (sblock_bytes fs)))"

definition write_csum_block :: "int \<Rightarrow> nat \<Rightarrow> buf \<Rightarrow> unit fmt" where
  "write_csum_block bno sz cs =
     (if nat MAXBSIZE < sz then fail UNDEF
      else wtfs bno sz (format_swap_csums (sz div 16) (blit (\<lambda>_. 0) 0 sz cs)))"

text \<open>The copies in the stack have room for \<open>MAXBSIZE\<close> bytes.\<close>

definition write_cg_block :: "int \<Rightarrow> unit fmt" where
  "write_cg_block bno = andthen (gets (\<lambda>s. (m_bsize (f_sblock s), f_acg s))) (\<lambda>(bsize, acg).
     if MAXBSIZE < bsize then fail UNDEF
     else wtfs bno (nat bsize) (format_swap_cg acg))"

definition read_cg_block :: "int \<Rightarrow> unit fmt" where
  "read_cg_block bno = andthen (gets (\<lambda>s. (m_cgsize (f_sblock s), f_acg s))) (\<lambda>(cgsize, acg).
     if cgsize < 0 \<or> MAXBSIZE < cgsize then fail UNDEF
     else andthen (rdfs bno (nat cgsize) acg) (\<lambda>b. modify (\<lambda>s. s\<lparr>f_acg := format_swap_cg b\<rparr>)))"

text \<open>A copy on the heap; the failure of \<open>malloc\<close> ends the program.\<close>

definition format_malloc :: "bool fmt" where
  "format_malloc = (\<lambda>s. let (hf, os) = f_dev s in
     case malloc os of (r, os) \<Rightarrow> (Inr (r = Inr ()), s\<lparr>f_dev := (hf, os)\<rparr>))"

definition write_inode_block :: "int \<Rightarrow> nat \<Rightarrow> buf \<Rightarrow> unit fmt" where
  "write_inode_block bno cnt dp = andthen format_malloc (\<lambda>ok.
     if \<not> ok then format_abort
     else wtfs bno (cnt * 128) (format_swap_inodes cnt (clip (cnt * 128) dp)))"

definition read_inode_block :: "int \<Rightarrow> buf fmt" where
  "read_inode_block bno = andthen (gets (\<lambda>s. (m_bsize (f_sblock s), m_inopb (f_sblock s)))) (\<lambda>(bsize, inopb).
     if MAXBSIZE < bsize then fail UNDEF
     else andthen (rdfs bno (nat bsize) (\<lambda>_. 0)) (\<lambda>b. ret (format_swap_inodes (nat inopb) b)))"

definition write_dir_block :: "int \<Rightarrow> int \<Rightarrow> buf \<Rightarrow> unit fmt" where
  "write_dir_block bno sz b = wtfs bno (nat sz) b"

text \<open>An entry, directly in the order of the disk.\<close>

definition put_dirent :: "nat \<Rightarrow> u32 \<Rightarrow> u16 \<Rightarrow> u16 \<Rightarrow> u8 list \<Rightarrow> buf \<Rightarrow> buf" where
  "put_dirent dst ino rl nl name b =
     (let b = blit b dst (unat rl) (\<lambda>_. 0);
          b = write_be16 (write_be16 (write_be32 b dst ino) (dst + 4) rl) (dst + 6) nl in
      if name \<noteq> [] \<and> nl \<noteq> 0 then blit b (dst + 8) (unat nl) (bytes_of name) else b)"

section \<open>Blocks in the map\<close>

text \<open>The formatter's own copies: a number of fragments that is not a case of the switch changes nothing.\<close>

definition format_isblock :: "format_sblock \<Rightarrow> buf \<Rightarrow> nat \<Rightarrow> bool" where
  "format_isblock fs b h = (isblock (nat (m_frag fs)) b CG_FREE h = Some True)"

definition format_clrblock :: "format_sblock \<Rightarrow> nat \<Rightarrow> buf \<Rightarrow> buf" where
  "format_clrblock fs h b = (case clrblock (nat (m_frag fs)) CG_FREE h b of None \<Rightarrow> b | Some c \<Rightarrow> c)"

definition format_setblock :: "format_sblock \<Rightarrow> nat \<Rightarrow> buf \<Rightarrow> buf" where
  "format_setblock fs h b = (case setblock (nat (m_frag fs)) CG_FREE h b of None \<Rightarrow> b | Some c \<Rightarrow> c)"

end
