(* ===== verification/FormatGeometry.thy ===== *)
theory FormatGeometry
  imports Format
begin

text \<open>
  The geometry of a new file system: the part of \<open>nextufs_format\<close> (\<open>format.c\<close>) that fills the
  superblock in from the options, in the order of the code. Every check that ends the program is there;
  what is only printed is not.
\<close>

definition format_exit :: "('s, 'a) io" where
  "format_exit = fail (EXIT 1)"

text \<open>The loops \<open>for (n = 0, i = x; i > 1; i >>= 1) n++\<close>.\<close>

function shift_count :: "int \<Rightarrow> int" where
  "shift_count i = (if 1 < i then 1 + shift_count (i div 2) else 0)"
  by pat_completeness auto
termination
  by (relation "measure nat") auto

declare shift_count.simps [simp del]

definition POWEROF2 :: "int \<Rightarrow> ('s, bool) io" where
  "POWEROF2 num = andthen (i32 (num - 1)) (\<lambda>m. ret (num AND m = 0))"

section \<open>The device and the blocks\<close>

definition blank_sblock :: format_sblock where
  "blank_sblock = \<lparr>m_sblkno = 0, m_cblkno = 0, m_iblkno = 0, m_dblkno = 0, m_cgoffset = 0, m_cgmask = 0,
     m_time = 0, m_size = 0, m_dsize = 0, m_ncg = 0, m_bsize = 0, m_fsize = 0, m_frag = 0, m_minfree = 0,
     m_rotdelay = 0, m_rps = 0, m_bmask = 0, m_fmask = 0, m_bshift = 0, m_fshift = 0, m_maxcontig = 0,
     m_maxbpg = 0, m_fragshift = 0, m_fsbtodb = 0, m_sbsize = 0, m_csmask = 0, m_csshift = 0, m_nindir = 0,
     m_inopb = 0, m_nspf = 0, m_optim = 0, m_csaddr = 0, m_cssize = 0, m_cgsize = 0, m_ntrak = 0, m_nsect = 0,
     m_spc = 0, m_ncyl = 0, m_cpg = 0, m_ipg = 0, m_fpg = 0, m_cs_ndir = 0, m_cs_nbfree = 0, m_cs_nifree = 0,
     m_cs_nffree = 0, m_state = 0, m_cpc = 0, m_postbl = (\<lambda>_. 0), m_magic = 0, m_rotbl = (\<lambda>_. 0)\<rparr>"

definition geometry_disk :: "nextufs_format_options \<Rightarrow> format_sblock \<Rightarrow> ('s, format_sblock) io" where
  "geometry_disk opts fs =
     (let fs = fs\<lparr>m_nsect := fo_nsect opts, m_ntrak := fo_ntrak opts\<rparr> in
      if m_ntrak fs \<le> 0 then format_exit
      else if m_nsect fs \<le> 0 then format_exit
      else andthen (i32 (m_ntrak fs * m_nsect fs)) (\<lambda>spc. ret (fs\<lparr>m_spc := spc\<rparr>)))"

definition geometry_blocks :: "nextufs_format_options \<Rightarrow> format_sblock \<Rightarrow> ('s, format_sblock) io" where
  "geometry_blocks opts fs =
     (let bsize = fo_bsize opts; fsize = fo_fsize opts in
      andthen (POWEROF2 bsize) (\<lambda>p.
      if \<not> p then format_exit
      else
      andthen (POWEROF2 fsize) (\<lambda>p.
      if \<not> p then format_exit
      else if fsize < DEV_BSIZE then format_exit
      else if bsize < MINBSIZE then format_exit
      else if bsize < fsize then format_exit
      else
      let frag = bsize div 2 ^ nat (shift_count fsize) in
      if MAXFRAG < frag then format_exit
      else ret (fs\<lparr>m_bsize := bsize, m_fsize := fsize, m_bmask := NOT (bsize - 1), m_fmask := NOT (fsize - 1),
        m_bshift := shift_count bsize, m_fshift := shift_count fsize, m_frag := frag,
        m_fragshift := shift_count frag, m_nindir := bsize div 4, m_inopb := bsize div sizeof_dinode,
        m_nspf := fsize div DEV_BSIZE, m_fsbtodb := shift_count (fsize div DEV_BSIZE)\<rparr>))))"

section \<open>The parts of a group\<close>

text \<open>\<open>fs_cpc\<close>: the cylinders after which the rotational layout repeats.\<close>

function cpc_loop :: "int \<Rightarrow> int \<Rightarrow> int" where
  "cpc_loop cpc i = (if 1 < cpc \<and> even i then cpc_loop (cpc div 2) (i div 2) else cpc)"
  by pat_completeness auto
termination
  by (relation "measure (\<lambda>(cpc, i). nat cpc)") auto

declare cpc_loop.simps [simp del]

text \<open>The shifts of the mask drop bits beyond 32.\<close>

definition cg_mask :: "int \<Rightarrow> bool \<Rightarrow> int" where
  "cg_mask ntrak p = s32 (- (2 ^ nat (shift_count ntrak + (if p then 0 else 1))))"

definition geometry_layout :: "format_sblock \<Rightarrow> ('s, format_sblock) io" where
  "geometry_layout fs =
     (let frag = m_frag fs; fsize = m_fsize fs;
          sblkno = roundup (ceil_div (BBSIZE + SBSIZE) fsize) frag;
          cblkno = sblkno + roundup (ceil_div SBSIZE fsize) frag;
          iblkno = cblkno + frag in
      andthen (i32 (m_nsect fs + (fsize div DEV_BSIZE - 1))) (\<lambda>_.
      andthen (i32 (ceil_div (m_nsect fs) (fsize div DEV_BSIZE) + (frag - 1))) (\<lambda>_.
      andthen (POWEROF2 (m_ntrak fs)) (\<lambda>p.
      let cpc = cpc_loop (NSPB fs) (m_spc fs) in
      if MAXCPG < cpc then format_exit
      else ret (fs\<lparr>m_sblkno := sblkno, m_cblkno := cblkno, m_iblkno := iblkno,
        m_cgoffset := roundup (ceil_div (m_nsect fs) (fsize div DEV_BSIZE)) frag,
        m_cgmask := cg_mask (m_ntrak fs) p, m_cpc := cpc\<rparr>)))))"

text \<open>The fragments of a group of \<open>cpg\<close> cylinders.\<close>

definition group_fragments :: "format_sblock \<Rightarrow> int \<Rightarrow> ('s, int) io" where
  "group_fragments fs cyls = andthen (i32 (cyls * m_spc fs)) (\<lambda>x. ret (x div m_nspf fs))"

function group_loop :: "format_sblock \<Rightarrow> int \<Rightarrow> int \<Rightarrow> ('s, int \<times> int) io" where
  "group_loop fs cyls fpg =
     (if MAXBPG fs < fpg div m_frag fs \<and> m_cpc fs < cyls \<and> 0 < m_cpc fs
      then andthen (group_fragments fs (cyls - m_cpc fs)) (\<lambda>fpg. group_loop fs (cyls - m_cpc fs) fpg)
      else ret (cyls, fpg))"
  by pat_completeness auto
termination
  by (relation "measure (\<lambda>(fs, cyls, fpg). nat cyls)") auto

declare group_loop.simps [simp del]

definition geometry_groups :: "nextufs_format_options \<Rightarrow> format_sblock \<Rightarrow> ('s, format_sblock) io" where
  "geometry_groups opts fs =
     andthen (if 0 < fo_cpg opts
       then andthen (group_fragments fs (fo_cpg opts)) (\<lambda>fpg. ret (fo_cpg opts, fpg))
       else andthen (group_fragments fs (max (m_cpc fs) DESCPG)) (\<lambda>fpg.
         group_loop fs (max (m_cpc fs) DESCPG) fpg)) (\<lambda>(cyls, fpg).
     if cyls < 1 then format_exit
     else if MAXCPG < cyls then format_exit
     else if cyls smod m_cpc fs \<noteq> 0 then format_exit
     else ret (fs\<lparr>m_cpg := cyls, m_fpg := fpg\<rparr>))"

section \<open>The size and the rotational tables\<close>

definition geometry_size :: "int \<Rightarrow> format_sblock \<Rightarrow> ('s, format_sblock \<times> int) io" where
  "geometry_size nsec fs =
     (let fssize = dbtofsb fs nsec; ncy = s32 (fssize * m_nspf fs sdiv m_spc fs) in
      andthen (i32 (ncy * m_spc fs)) (\<lambda>covered.
      andthen (if covered < fssize * m_nspf fs then i32 (ncy + 1) else ret ncy) (\<lambda>ncy.
      if ncy < 1 then format_exit
      else ret (fs\<lparr>m_size := s32 fssize, m_ncyl := ncy\<rparr>, fssize))))"

text \<open>The cylinder and the rotational position of the block at fragment \<open>i\<close>.\<close>

definition cbtocylno :: "format_sblock \<Rightarrow> int \<Rightarrow> int" where
  "cbtocylno fs i = i * m_nspf fs sdiv m_spc fs"

definition cbtorpos :: "format_sblock \<Rightarrow> int \<Rightarrow> int" where
  "cbtorpos fs i = i * m_nspf fs smod m_spc fs smod m_nsect fs * NRPOS sdiv m_nsect fs"

definition add_rotation :: "int \<Rightarrow> format_sblock \<Rightarrow> format_sblock" where
  "add_rotation i fs =
     (let at = nat (cbtocylno fs i * NRPOS + cbtorpos fs i); blk = i sdiv m_frag fs; hd0 = m_postbl fs at in
      fs\<lparr>m_rotbl := (m_rotbl fs)(nat blk := (if hd0 = - 1 then 0 else of_int (hd0 - blk))),
         m_postbl := (m_postbl fs)(at := sint (of_int blk :: u16))\<rparr>)"

text \<open>The first fragments of the blocks of a cycle, the last one first.\<close>

definition cycle_blocks :: "format_sblock \<Rightarrow> int list" where
  "cycle_blocks fs = (let blk = m_spc fs * m_cpc fs div m_nspf fs in
     rev (map (\<lambda>k. int k * m_frag fs) [0..<nat (ceil_div blk (m_frag fs))]))"

definition geometry_tables :: "format_sblock \<Rightarrow> ('s, format_sblock) io" where
  "geometry_tables fs =
     (if m_ntrak fs = 1 then ret (fs\<lparr>m_cpc := 0\<rparr>)
      else
      andthen (i32 (m_spc fs * m_cpc fs)) (\<lambda>cycle.
      if (SBSIZE - sizeof_fs) * NSPB fs < cycle \<or> 2 ^ 8 * NSPB fs < m_nsect fs
      then ret (fs\<lparr>m_cpc := 0\<rparr>)
      else ret (fold add_rotation (cycle_blocks fs) (fs\<lparr>m_postbl := \<lambda>_. - 1\<rparr>))))"

section \<open>Limits and inodes\<close>

definition geometry_limits :: "format_sblock \<Rightarrow> ('s, format_sblock) io" where
  "geometry_limits fs =
     (if MAXBPG fs * NSPB fs < m_spc fs then format_exit
      else if MAXBPG fs * m_frag fs < m_fpg fs then format_exit
      else
      let ncg = m_ncyl fs div m_cpg fs;
          ncg = (if m_ncyl fs mod m_cpg fs \<noteq> 0 then ncg + 1 else ncg) in
      andthen (i32 (m_spc fs * m_cpg fs)) (\<lambda>x.
      if x mod m_nspf fs \<noteq> 0 then format_exit
      else ret (fs\<lparr>m_cgsize := fragroundup fs (sizeof_cg + ceil_div (m_fpg fs) 8), m_ncg := ncg\<rparr>)))"

definition geometry_inodes :: "nextufs_format_options \<Rightarrow> int \<Rightarrow> format_sblock \<Rightarrow> ('s, format_sblock) io" where
  "geometry_inodes opts fssize fs =
     (let density = (if 0 < fo_nbpi opts then fo_nbpi opts else max NBPI (m_fsize fs));
          i = m_iblkno fs + MAXIPG div INOPF fs in
      andthen (i64 ((fssize - m_ncg fs * i) * m_fsize fs)) (\<lambda>bytes.
      let inos = bytes sdiv density sdiv m_inopb fs;
          inos = (if inos \<le> 0 then 1 else inos);
          ipg = s32 ((inos sdiv m_ncg fs + 1) * m_inopb fs);
          ipg = (if MAXIPG < ipg then MAXIPG else ipg) in
      ret (fs\<lparr>m_ipg := ipg, m_dblkno := m_iblkno fs + ipg sdiv INOPF fs\<rparr>)))"

text \<open>Where the data of a group starts, counted from the group.\<close>

definition data_start :: "format_sblock \<Rightarrow> int \<Rightarrow> int" where
  "data_start fs c = m_cgoffset fs * (c AND NOT (m_cgmask fs)) + m_dblkno fs"

text \<open>A last group without room for data is given up, and the size with it.\<close>

definition geometry_room :: "int \<Rightarrow> format_sblock \<Rightarrow> ('s, format_sblock) io" where
  "geometry_room fssize fs =
     (if m_fpg fs \<le> data_start fs (min (NOT (m_cgmask fs)) (m_ncg fs - 1)) then format_exit
      else
      let j = m_ncg fs - 1; i = fssize - j * m_fpg fs in
      if i < m_fpg fs \<and> i < data_start fs j
      then
        let ncy = m_ncyl fs - m_ncyl fs mod m_cpg fs in
        andthen (i32 (ncy * m_spc fs)) (\<lambda>x.
        ret (fs\<lparr>m_ncg := m_ncg fs - 1, m_ncyl := ncy, m_size := x div m_nspf fs\<rparr>))
      else ret fs)"

definition geometry_summary :: "nextufs_format_options \<Rightarrow> format_sblock \<Rightarrow> ('s, format_sblock) io" where
  "geometry_summary opts fs =
     (let i = m_bsize fs div sizeof_csum in
      andthen (i32 (m_spc fs * m_cpc fs)) (\<lambda>cycle.
      ret (fs\<lparr>m_csaddr := m_dblkno fs, m_cssize := fragroundup fs (m_ncg fs * sizeof_csum),
        m_csmask := NOT (i - 1), m_csshift := shift_count i,
        m_sbsize := fragroundup fs (sizeof_fs + ceil_div cycle (NSPB fs)), m_magic := 0x011954,
        m_rotdelay := ROTDELAY,
        m_minfree := (if 0 \<le> fo_minfree opts \<and> fo_minfree opts \<le> 99 then fo_minfree opts else MINFREE),
        m_maxcontig := MAXCONTIG, m_maxbpg := m_fsize fs div 4, m_rps := fo_rps opts,
        m_optim := (if fo_opt opts = 0x73 then 1 else 0),
        m_cs_ndir := 0, m_cs_nbfree := 0, m_cs_nifree := 0, m_cs_nffree := 0, m_state := 1\<rparr>)))"

section \<open>All of it\<close>

definition geometry :: "nextufs_format_options \<Rightarrow> ('s, format_sblock) io" where
  "geometry opts =
     andthen (geometry_disk opts blank_sblock) (\<lambda>fs.
     andthen (geometry_blocks opts fs) (\<lambda>fs.
     andthen (geometry_layout fs) (\<lambda>fs.
     andthen (geometry_groups opts fs) (\<lambda>fs.
     andthen (geometry_size (int (fo_size_1k_sectors opts)) fs) (\<lambda>(fs, fssize).
     andthen (geometry_tables fs) (\<lambda>fs.
     andthen (geometry_limits fs) (\<lambda>fs.
     andthen (geometry_inodes opts fssize fs) (\<lambda>fs.
     andthen (geometry_room fssize fs) (\<lambda>fs.
     geometry_summary opts fs)))))))))"

end
