(* ===== verification/FormatCg.thy ===== *)
theory FormatCg
  imports FormatGeometry
begin

text \<open>
  Filling the new file system in (\<open>format_fsinit.c\<close>): the groups (\<open>initcg\<close>), the two directories
  (\<open>fsinit\<close>, \<open>makedir\<close>, \<open>alloc\<close>, \<open>iput\<close>), and \<open>nextufs_format\<close> itself.
\<close>

section \<open>A group\<close>

definition clear_bits :: "nat \<Rightarrow> nat list \<Rightarrow> buf \<Rightarrow> buf" where
  "clear_bits off ks b = fold (clear_bit off) ks b"

definition zero_words :: "nat \<Rightarrow> nat \<Rightarrow> buf \<Rightarrow> buf" where
  "zero_words p n b = fold (\<lambda>k b. put32 b (p + k * 4) 0) [0..<n] b"

text \<open>The header, with all counters zero.\<close>

definition group_header :: "format_sblock \<Rightarrow> nat \<Rightarrow> int \<Rightarrow> u32 \<Rightarrow> buf \<Rightarrow> buf" where
  "group_header fs c ndblk now b =
     (let b = put32 b 8 now;
          b = put32 b 980 (of_int FsckPasses.CG_MAGIC);
          b = put32 b 12 (of_nat c);
          b = put16 b 16 (of_int (if int c = m_ncg fs - 1 then m_ncyl fs smod m_cpg fs else m_cpg fs));
          b = put16 b 18 (of_int (m_ipg fs));
          b = put32 b 20 (of_int ndblk);
          b = zero_words 24 4 b;
          b = zero_words 40 3 b in
      zero_words 52 (nat (m_frag fs)) b)"

text \<open>The map of the inodes, in steps of a block of inodes.\<close>

function clear_inodes :: "nat \<Rightarrow> nat \<Rightarrow> nat \<Rightarrow> buf \<Rightarrow> nat \<times> buf" where
  "clear_inodes ipg inopb i b =
     (if i < ipg \<and> 0 < inopb
      then clear_inodes ipg inopb (i + inopb) (add32 32 (int inopb) (clear_bits CG_IUSED [i..<i + inopb] b))
      else (i, b))"
  by pat_completeness auto
termination
  by (relation "measure (\<lambda>(ipg, inopb, i, b). ipg - i)") auto

declare clear_inodes.simps [simp del]

definition group_inodes :: "format_sblock \<Rightarrow> nat \<Rightarrow> buf \<Rightarrow> buf" where
  "group_inodes fs c b =
     (let (i, b) = clear_inodes (nat (m_ipg fs)) (nat (m_inopb fs)) 0 b;
          (i, b) = (if c = 0 then (ROOTINO, fold (\<lambda>i b. add32 32 (- 1) (set_bit8 CG_IUSED i b)) [0..<ROOTINO] b)
            else (i, b)) in
      clear_bits CG_IUSED [i..<nat MAXIPG] b)"

definition clear_rotation :: "buf \<Rightarrow> buf" where
  "clear_rotation b = fold (\<lambda>i b. fold (\<lambda>j b. put16 b (212 + i * 16 + j * 2) 0) [0..<nat NRPOS]
     (put32 b (84 + i * 4) 0)) [0..<nat MAXCPG] b"

text \<open>The counts of the free blocks by cylinder and position. \<open>None\<close> is an access outside the arrays.\<close>

definition count_block :: "format_sblock \<Rightarrow> int \<Rightarrow> int \<Rightarrow> buf \<Rightarrow> buf option" where
  "count_block fs d n b =
     (let j = cbtocylno fs d; r = cbtorpos fs d in
      if j < 0 \<or> MAXCPG \<le> j \<or> r < 0 \<or> NRPOS \<le> r then None
      else Some (add16 (212 + nat j * 16 + nat r * 2) (of_int n) (add32 (84 + nat j * 4) n b)))"

primrec free_blocks :: "format_sblock \<Rightarrow> nat list \<Rightarrow> buf \<Rightarrow> buf option" where
  "free_blocks fs [] b = Some b"
| "free_blocks fs (d # ds) b =
     (case count_block fs (int d) 1 (add32 28 1 (format_setblock fs (d div nat (m_frag fs)) b)) of
        None \<Rightarrow> None | Some b \<Rightarrow> free_blocks fs ds b)"

definition clear_blocks :: "format_sblock \<Rightarrow> nat list \<Rightarrow> buf \<Rightarrow> buf" where
  "clear_blocks fs ds b = fold (\<lambda>d. format_clrblock fs (d div nat (m_frag fs))) ds b"

text \<open>The positions of a loop from \<open>lo\<close> below \<open>hi\<close> in steps of a block, and where it ends.\<close>

definition block_steps :: "nat \<Rightarrow> nat \<Rightarrow> nat \<Rightarrow> nat" where
  "block_steps frag lo hi = (hi - lo + frag - 1) div frag"

definition block_list :: "nat \<Rightarrow> nat \<Rightarrow> nat \<Rightarrow> nat list" where
  "block_list frag lo n = map (\<lambda>k. lo + k * frag) [0..<n]"

text \<open>Free fragments \<open>lo, \<dots>, hi - 1\<close> that do not make up a block.\<close>

definition free_frags :: "nat \<Rightarrow> nat \<Rightarrow> buf \<Rightarrow> buf" where
  "free_frags lo hi b = add32 36 (int (hi - lo)) (set_bits CG_FREE [lo..<hi] (add32 (52 + (hi - lo) * 4) 1 b))"

text \<open>The blocks in front of the superblock copy: reserved in group 0, data in the others.\<close>

definition map_front :: "format_sblock \<Rightarrow> nat \<Rightarrow> nat \<Rightarrow> buf \<Rightarrow> buf option" where
  "map_front fs c dlower b =
     (let frag = nat (m_frag fs); ds = block_list frag 0 (block_steps frag 0 dlower) in
      if c = 0 then Some (clear_blocks fs ds b) else free_blocks fs ds b)"

text \<open>From the superblock copy up to the data, with the fragments of the last block that are left.\<close>

definition map_reserved :: "format_sblock \<Rightarrow> nat \<Rightarrow> nat \<Rightarrow> buf \<Rightarrow> nat \<times> buf" where
  "map_reserved fs d dupper b =
     (let frag = nat (m_frag fs); n = block_steps frag d dupper; e = d + n * frag;
          b = clear_blocks fs (block_list frag d n) b in
      (e, if dupper < e then free_frags dupper e b else b))"

text \<open>The data, the fragments behind the last block, and the rest of the map.\<close>

definition map_data :: "format_sblock \<Rightarrow> nat \<Rightarrow> nat \<Rightarrow> buf \<Rightarrow> buf option" where
  "map_data fs d ndblk b =
     (let frag = nat (m_frag fs); n = (ndblk - d) div frag; e = d + n * frag in
      case free_blocks fs (block_list frag d n) b of None \<Rightarrow> None
      | Some b \<Rightarrow>
        let (e, b) = (if e < ndblk
              then (e + frag, clear_bits CG_FREE [ndblk..<e + frag] (free_frags e ndblk b))
              else (e, b)) in
        Some (fold (format_clrblock fs) [e div frag..<nat (MAXBPG fs)] b))"

definition group_map :: "format_sblock \<Rightarrow> nat \<Rightarrow> int \<Rightarrow> int \<Rightarrow> int \<Rightarrow> buf \<Rightarrow> buf option" where
  "group_map fs c dlower dupper ndblk b =
     (let frag = nat (m_frag fs) in
      if MAXBSIZE < m_bsize fs \<or> m_frag fs \<le> 0 \<or> dlower < 0 \<or> dupper < 0 \<or> ndblk < 0 then None
      else case map_front fs c (nat dlower) b of None \<Rightarrow> None
      | Some b \<Rightarrow>
        let (d, b) = map_reserved fs (block_steps frag 0 (nat dlower) * frag) (nat dupper) b in
        map_data fs d (nat ndblk) b)"

text \<open>The counters of the group go to the totals and to the summary.\<close>

definition add_group_totals :: "buf \<Rightarrow> format_sblock \<Rightarrow> format_sblock" where
  "add_group_totals b fs = fs\<lparr>m_cs_ndir := m_cs_ndir fs + get32 b 24, m_cs_nbfree := m_cs_nbfree fs + get32 b 28,
     m_cs_nifree := m_cs_nifree fs + get32 b 32, m_cs_nffree := m_cs_nffree fs + get32 b 36\<rparr>"

definition initcg :: "nat \<Rightarrow> unit fmt" where
  "initcg c =
     andthen (gets (\<lambda>s. (f_sblock s, f_utime s))) (\<lambda>(fs, now).
     andthen (cgbase fs (int c)) (\<lambda>cbase.
     andthen (i32 (cbase + m_fpg fs)) (\<lambda>fin.
     andthen (cgsblock fs (int c)) (\<lambda>lower.
     andthen (cgdmin fs (int c)) (\<lambda>upper.
     let ndblk = min fin (m_size fs) - cbase; dlower = lower - cbase; dupper = upper - cbase in
     andthen (if m_ipg fs < 0 \<or> MAXIPG < m_ipg fs then fail UNDEF
       else edit_acg (\<lambda>b. group_inodes fs c (group_header fs c ndblk now b))) (\<lambda>_.
     andthen (cgimin fs (int c)) (\<lambda>iblk.
     andthen (fsbtodb fs iblk) (\<lambda>blk.
     andthen (write_inode_block blk (nat (m_ipg fs)) (\<lambda>_. 0)) (\<lambda>_.
     let dupper = (if c = 0 then dupper + ceil_div (m_cssize fs) (m_fsize fs) else dupper) in
     andthen (gets f_acg) (\<lambda>b.
     case group_map fs c dlower dupper ndblk (clear_rotation b) of None \<Rightarrow> fail UNDEF
     | Some b \<Rightarrow>
       andthen (edit_acg (\<lambda>_. b)) (\<lambda>_.
       andthen (edit_sblock (\<lambda>fs. add_group_totals b (fs\<lparr>m_dsize := m_dsize fs +
         (if c = 0 then 0 else dlower) + (ndblk - dupper)\<rparr>))) (\<lambda>_.
       andthen (edit_csums (\<lambda>cs. blit cs (c * 16) 16 (\<lambda>i. b (24 + i)))) (\<lambda>_.
       andthen (cgtod fs (int c)) (\<lambda>cblk.
       andthen (fsbtodb fs cblk) (\<lambda>blk.
       write_cg_block blk)))))))))))))))"

section \<open>The first directories\<close>

definition add_totals_alloc :: "format_sblock \<Rightarrow> u32 \<Rightarrow> u32 \<Rightarrow> u32 \<Rightarrow> format_sblock" where
  "add_totals_alloc fs ndir nbfree nffree = fs\<lparr>m_cs_ndir := m_cs_ndir fs + ndir,
     m_cs_nbfree := m_cs_nbfree fs + nbfree, m_cs_nffree := m_cs_nffree fs + nffree\<rparr>"

text \<open>
  \<open>alloc\<close>, for a directory: the first free block of group 0; 0, after a message, when there is none. Of
  a block of which only a part is wanted the other fragments stay free.
\<close>

definition alloc_group :: "format_sblock \<Rightarrow> int \<Rightarrow> nat \<Rightarrow> buf \<Rightarrow> (nat \<times> buf) option" where
  "alloc_group fs sz d b =
     (let frag = nat (m_frag fs);
          b = add32 24 1 (add32 28 (- 1) (format_clrblock fs (d div frag) b));
          n = nat (ceil_div sz (m_fsize fs)); left = frag - n in
      case count_block fs (int d) (- 1) b of None \<Rightarrow> None
      | Some b \<Rightarrow>
        if sz = m_bsize fs then Some (0, b)
        else Some (left, set_bits CG_FREE [d + n..<d + frag] (add32 (52 + left * 4) 1 (add32 36 (int left) b))))"

definition first_block :: "format_sblock \<Rightarrow> buf \<Rightarrow> nat option" where
  "first_block fs b = List.find (\<lambda>d. format_isblock fs b (d div nat (m_frag fs)))
     (block_list (nat (m_frag fs)) 0 (block_steps (nat (m_frag fs)) 0 (nat (cg_int 20 b))))"

definition alloc :: "int \<Rightarrow> int fmt" where
  "alloc sz =
     andthen (gets f_sblock) (\<lambda>fs.
     andthen (cgtod fs 0) (\<lambda>cblk.
     andthen (fsbtodb fs cblk) (\<lambda>blk.
     andthen (read_cg_block blk) (\<lambda>_.
     andthen (gets f_acg) (\<lambda>b.
     if cg_int 980 b \<noteq> FsckPasses.CG_MAGIC then ret 0
     else if get32 b 28 = 0 then ret 0
     else case first_block fs b of None \<Rightarrow> ret 0
     | Some d \<Rightarrow>
       if m_cssize fs < 16 then fail UNDEF
       else case alloc_group fs sz d b of None \<Rightarrow> fail UNDEF
       | Some (left, b) \<Rightarrow>
         andthen (edit_acg (\<lambda>_. b)) (\<lambda>_.
         andthen (edit_sblock (\<lambda>fs. add_totals_alloc fs 1 (- 1) (of_nat left))) (\<lambda>_.
         andthen (edit_csums (\<lambda>cs. add32 12 (int left) (add32 0 1 (add32 4 (- 1) cs)))) (\<lambda>_.
         andthen (write_cg_block blk) (\<lambda>_.
         ret (int d))))))))))"

text \<open>\<open>iput\<close>: the inode is given by its number and its bytes in the order of the host.\<close>

definition iput :: "nat \<Rightarrow> buf \<Rightarrow> unit fmt" where
  "iput ino ic =
     andthen (gets f_sblock) (\<lambda>fs.
     andthen (cgtod fs 0) (\<lambda>cblk.
     andthen (fsbtodb fs cblk) (\<lambda>blk.
     andthen (read_cg_block blk) (\<lambda>_.
     andthen (gets f_acg) (\<lambda>b.
     if cg_int 980 b \<noteq> FsckPasses.CG_MAGIC then format_abort
     else
     andthen (edit_acg (\<lambda>b. set_bit8 CG_IUSED ino (add32 32 (- 1) b))) (\<lambda>_.
     andthen (write_cg_block blk) (\<lambda>_.
     andthen (edit_sblock (\<lambda>fs. fs\<lparr>m_cs_nifree := m_cs_nifree fs - 1\<rparr>)) (\<lambda>_.
     if m_cssize fs < 16 then fail UNDEF
     else
     andthen (edit_csums (add32 8 (- 1))) (\<lambda>_.
     if m_ipg fs * m_ncg fs \<le> int ino then format_abort
     else
     let ipg = nat (m_ipg fs); inopb = nat (m_inopb fs) in
     andthen (cgimin fs (int (ino div ipg))) (\<lambda>im.
     andthen (i32 (im + int (ino mod ipg div inopb) * 2 ^ nat (m_fragshift fs))) (\<lambda>d.
     andthen (fsbtodb fs d) (\<lambda>blk.
     andthen (read_inode_block blk) (\<lambda>dp.
     write_inode_block blk inopb (blit dp (ino mod inopb * 128) 128 ic))))))))))))))"

text \<open>\<open>makedir\<close>: the last entry takes the rest of the block. An entry is a number and a name.\<close>

fun makedir_loop :: "nat \<Rightarrow> nat \<Rightarrow> (nat \<times> u8 list) list \<Rightarrow> buf \<Rightarrow> buf" where
  "makedir_loop cp spcleft [] b = b"
| "makedir_loop cp spcleft [(ino, nm)] b =
     put_dirent cp (of_nat ino) (of_nat spcleft) (of_nat (length nm)) nm b"
| "makedir_loop cp spcleft ((ino, nm) # e # es) b =
     (let rl = nat (DIRSIZ (length nm)) in
      makedir_loop (cp + rl) (spcleft - rl) (e # es)
        (put_dirent cp (of_nat ino) (of_nat rl) (of_nat (length nm)) nm b))"

definition makedir :: "(nat \<times> u8 list) list \<Rightarrow> buf" where
  "makedir protos = makedir_loop 0 1024 protos (\<lambda>_. 0)"

definition root_dir :: "(nat \<times> u8 list) list" where
  "root_dir = [(ROOTINO, [0x2e]), (ROOTINO, [0x2e, 0x2e]),
     (LOSTFOUNDINO, [0x6c, 0x6f, 0x73, 0x74, 0x2b, 0x66, 0x6f, 0x75, 0x6e, 0x64])]"

definition lost_found_dir :: "(nat \<times> u8 list) list" where
  "lost_found_dir = [(LOSTFOUNDINO, [0x2e]), (ROOTINO, [0x2e, 0x2e])]"

text \<open>The block of \<open>lost+found\<close>: empty chunks behind the first.\<close>

definition lost_found_block :: "int \<Rightarrow> buf" where
  "lost_found_block bsize =
     fold (\<lambda>k. put_dirent ((k + 1) * 1024) 0 1024 0 []) [0..<nat (ceil_div (bsize - 1024) 1024)]
       (makedir lost_found_dir)"

text \<open>The fields of a directory inode: \<open>IFDIR | UMASK\<close>, links, size, times, first block and blocks.\<close>

definition directory_inode :: "format_sblock \<Rightarrow> u32 \<Rightarrow> u16 \<Rightarrow> int \<Rightarrow> int \<Rightarrow> buf" where
  "directory_inode fs now nl sz blk =
     (let b = fold (\<lambda>p b. put32 b p now) [16, 24, 32] (\<lambda>_. 0);
          b = put16 (put16 b 0 0x41ed) 2 nl;
          b = put32 b 12 (of_int sz);
          b = put32 b 40 (of_int blk) in
      put32 b 104 (of_int (fragroundup fs sz div 1024)))"

definition fsinit :: "unit fmt" where
  "fsinit =
     andthen (gets (\<lambda>s. (f_sblock s, f_utime s))) (\<lambda>(fs, now).
     andthen (alloc (m_bsize fs)) (\<lambda>d.
     andthen (fsbtodb fs d) (\<lambda>blk.
     andthen (write_dir_block blk (m_bsize fs) (lost_found_block (m_bsize fs))) (\<lambda>_.
     andthen (iput LOSTFOUNDINO (directory_inode fs now 2 (m_bsize fs) d)) (\<lambda>_.
     andthen (alloc (m_fsize fs)) (\<lambda>d.
     andthen (fsbtodb fs d) (\<lambda>blk.
     andthen (write_dir_block blk (m_fsize fs) (makedir root_dir)) (\<lambda>_.
     iput ROOTINO (directory_inode fs now 3 1024 d)))))))))"

section \<open>The program\<close>

text \<open>Opening the target, for writing unless it is a dry run, and for reading.\<close>

definition format_open :: "bool \<Rightarrow> unit fmt" where
  "format_open create = (\<lambda>s. let (hf, os) = f_dev s in
     case events os (ticks os) of
       OsFail _ \<Rightarrow> (Inl (EXIT 1), s\<lparr>f_dev := (hf, tick os)\<rparr>)
     | _ \<Rightarrow> (Inr (), s\<lparr>f_dev := (if create then hf\<lparr>fsize := 0\<rparr> else hf, tick os)\<rparr>))"

definition format_time :: "unit fmt" where
  "format_time = (\<lambda>s. let (hf, os) = f_dev s in
     case time os of (Inr t, os) \<Rightarrow> (Inr (), s\<lparr>f_utime := t, f_dev := (hf, os)\<rparr>)
     | (Inl e, os) \<Rightarrow> (Inl e, s))"

primrec in_turn :: "('a \<Rightarrow> unit fmt) \<Rightarrow> 'a list \<Rightarrow> unit fmt" where
  "in_turn f [] = ret ()"
| "in_turn f (x # xs) = andthen (f x) (\<lambda>_. in_turn f xs)"

text \<open>The summary, a block at a time.\<close>

definition write_summary :: "nat \<Rightarrow> unit fmt" where
  "write_summary k =
     andthen (gets (\<lambda>s. (f_sblock s, f_csums s))) (\<lambda>(fs, cs).
     let i = int k * m_bsize fs in
     andthen (i32 (m_csaddr fs + numfrags fs i)) (\<lambda>d.
     andthen (fsbtodb fs d) (\<lambda>blk.
     write_csum_block blk (nat (min (m_cssize fs - i) (m_bsize fs))) (\<lambda>p. cs (nat i + p)))))"

definition write_copy :: "nat \<Rightarrow> unit fmt" where
  "write_copy c = andthen (gets f_sblock) (\<lambda>fs.
     andthen (cgsblock fs (int c)) (\<lambda>d.
     andthen (fsbtodb fs d) (\<lambda>blk. write_superblock blk)))"

definition write_metadata :: "unit fmt" where
  "write_metadata =
     andthen (modify (\<lambda>s. s\<lparr>f_sblock := (f_sblock s)\<lparr>m_time := f_utime s\<rparr>\<rparr>)) (\<lambda>_.
     andthen (write_superblock SBLOCK) (\<lambda>_.
     andthen (gets f_sblock) (\<lambda>fs.
     andthen (in_turn write_summary [0..<nat (ceil_div (m_cssize fs) (m_bsize fs))]) (\<lambda>_.
     in_turn write_copy [0..<nat (m_ncg fs)]))))"

definition format_body :: "nextufs_format_options \<Rightarrow> unit fmt" where
  "format_body opts =
     andthen format_time (\<lambda>_.
     if \<not> fo_target opts \<or> fo_size_1k_sectors opts = 0 \<or> 2 ^ 63 - 1 < fo_size_1k_sectors opts then format_exit
     else if \<not> fo_force_size opts \<and> FORMAT_COMPAT_MAX_SECTORS < int (fo_size_1k_sectors opts) then format_exit
     else
     andthen (if fo_dry_run opts then ret () else format_open (\<not> fo_no_create opts)) (\<lambda>_.
     andthen (format_open False) (\<lambda>_.
     andthen (wtfs (s32 (int (fo_size_1k_sectors opts) - 1)) 1024 (\<lambda>_. 0)) (\<lambda>_.
     andthen (geometry opts) (\<lambda>fs.
     andthen (edit_sblock (\<lambda>_. fs)) (\<lambda>_.
     andthen format_malloc (\<lambda>ok.
     if \<not> ok then fail UNDEF
     else
     andthen (in_turn initcg [0..<nat (m_ncg fs)]) (\<lambda>_.
     if fo_dry_run opts then ret ()
     else
     andthen fsinit (\<lambda>_.
     write_metadata)))))))))"

definition format_fresh :: "nextufs_format_options \<Rightarrow> hostfile \<times> os \<Rightarrow> format_ctx" where
  "format_fresh opts dev = \<lparr>f_sblock = blank_sblock, f_acg = (\<lambda>_. 0), f_csums = (\<lambda>_. 0), f_utime = 0,
     f_nflag = fo_dry_run opts, f_base = fo_base_offset opts, f_dev = dev\<rparr>"

definition nextufs_format :: "nextufs_format_options \<Rightarrow> (hostfile \<times> os, unit) io" where
  "nextufs_format opts dev = (case format_body opts (format_fresh opts dev) of (r, s) \<Rightarrow> (r, f_dev s))"

end
