(* ===== verification/FormatOk.thy ===== *)
theory FormatOk
  imports FormatCg FsckGroups
begin

text \<open>
  The group that \<open>initcg\<close> builds: the map is filled in block by block in ascending order, so that the
  accounts of the blocks done so far grow by one block at a time; the inodes likewise.
\<close>

section \<open>Blocks of the map\<close>

lemma runs_interval:
  assumes "a < b" "b \<le> n" "b - a < n"
  shows "runs (\<lambda>i. a \<le> i \<and> i < b) n k = (if k = b - a then 1 else 0)"
proof -
  have "max_run (\<lambda>i. a \<le> i \<and> i < b) n i k \<longleftrightarrow> i = a \<and> k = b - a" for i
  proof
    assume run: "max_run (\<lambda>i. a \<le> i \<and> i < b) n i k"
    then have k: "0 < k" "i + k \<le> n" and all: "\<And>j. i \<le> j \<Longrightarrow> j < i + k \<Longrightarrow> a \<le> j \<and> j < b"
      and ends: "i = 0 \<or> \<not> (a \<le> i - 1 \<and> i - 1 < b)" "i + k = n \<or> \<not> (a \<le> i + k \<and> i + k < b)"
      by (auto simp: max_run_def)
    have "a \<le> i" "i < b" using all [of i] k by auto
    moreover have "i \<le> i + k - 1" "i + k - 1 < i + k" using k by auto
    from all [OF this] have "i + k \<le> b" by linarith
    ultimately show "i = a \<and> k = b - a" using ends k assms by auto
  qed (use assms in \<open>auto simp: max_run_def\<close>)
  then have "{i. max_run (\<lambda>i. a \<le> i \<and> i < b) n i k} = (if k = b - a then {a} else {})" by auto
  then show ?thesis by (simp add: runs_def)
qed

lemma block_bits:
  assumes "m * n \<le> k" "k < Suc m * n"
  shows "\<exists>i<n. k = m * n + i"
  using assms by (intro exI [of _ "k - m * n"]) auto

lemma host_accounts_cong:
  assumes "host_accounts n m b" "n \<le> 8"
    and map: "\<And>k. k < m * n \<Longrightarrow> free_map c k = free_map b k"
    and cells: "\<And>p. 28 \<le> p \<Longrightarrow> p + 4 \<le> 84 \<Longrightarrow> get32 c p = get32 b p"
  shows "host_accounts n m c"
proof -
  have below: "d * n + i < m * n" if "d < m" "i < n" for d i
  proof -
    have "d * n + i < (d + 1) * n" using that by simp
    also have "\<dots> \<le> m * n" using that by (intro mult_le_mono1) simp
    finally show ?thesis .
  qed
  have blk: "blk_full (free_map c) n d = blk_full (free_map b) n d"
    "blk_frags (free_map c) n d = blk_frags (free_map b) n d"
    "blk_runs (free_map c) n d k = blk_runs (free_map b) n d k" if "d < m" for d k
    using blk_cong [of n "free_map c" d "free_map b"] map below that by blast+
  have "frsum_of c k = frsum_of b k" if "k < n" for k
    using that assms(2) cells by (simp add: frsum_of_def)
  then show ?thesis using assms(1) unfolding host_accounts_def by (simp add: cells blk)
qed

text \<open>A run of free fragments inside the next block.\<close>

lemma host_accounts_run:
  assumes before: "host_accounts n m b" and n: "0 < n"
    and same: "\<And>k. k < m * n \<Longrightarrow> free_map c k = free_map b k"
    and block: "\<And>i. i < n \<Longrightarrow> free_map c (m * n + i) \<longleftrightarrow> lo \<le> i \<and> i < hi"
    and run: "lo < hi" "hi \<le> n" "hi - lo < n"
    and cells: "get32 c 28 = get32 b 28" "get32 c 36 = get32 b 36 + of_nat (hi - lo)"
    and frsum: "\<And>k. 1 \<le> k \<Longrightarrow> k < n \<Longrightarrow> frsum_of c k = frsum_of b k + (if k = hi - lo then 1 else 0)"
  shows "host_accounts n (Suc m) c"
proof (rule host_accounts_Suc [OF before same])
  have full: "\<not> blk_full (free_map c) n m"
  proof (cases "lo = 0")
    case True
    then have "\<not> free_map c (m * n + hi)" "hi < n" using block [of hi] run by auto
    then show ?thesis by (auto simp: blk_full_def)
  next
    case False
    then have "\<not> free_map c (m * n + 0)" using block [of 0] n by simp
    then show ?thesis using n unfolding blk_full_def by blast
  qed
  have set: "{i. i < n \<and> free_map c (m * n + i)} = {lo..<hi}" using block run by auto
  show "get32 c 28 = get32 b 28 + (if blk_full (free_map c) n m then 1 else 0)" by (simp add: full cells)
  show "get32 c 36 = get32 b 36 + of_nat (blk_frags (free_map c) n m)"
    by (simp add: blk_frags_def full set cells)
  fix k assume k: "1 \<le> k" "k < n"
  have "max_run (\<lambda>i. free_map c (m * n + i)) n i k = max_run (\<lambda>i. lo \<le> i \<and> i < hi) n i k" for i
    by (rule max_run_cong) (rule block)
  then have "blk_runs (free_map c) n m k = runs (\<lambda>i. lo \<le> i \<and> i < hi) n k"
    by (simp add: blk_runs_def runs_def)
  then show "frsum_of c k = frsum_of b k + of_nat (blk_runs (free_map c) n m k)"
    using runs_interval [OF run] frsum [OF k] by simp
qed

section \<open>The steps\<close>

text \<open>What a step may change: the counters of blocks and fragments, the rotational counts, the map.\<close>

definition frag_of :: "format_sblock \<Rightarrow> nat" where
  "frag_of fs = nat (m_frag fs)"

definition frags_ok :: "format_sblock \<Rightarrow> bool" where
  "frags_ok fs \<longleftrightarrow> frag_of fs \<in> {1, 2, 4, 8}"

lemma frags_ok_bounds: "frags_ok fs \<Longrightarrow> 0 < frag_of fs \<and> frag_of fs \<le> 8"
  by (auto simp: frags_ok_def)

lemma format_clrblock_map:
  assumes "frags_ok fs"
  shows "free_map (format_clrblock fs h b) k \<longleftrightarrow> free_map b k \<and> \<not> (h * frag_of fs \<le> k \<and> k < h * frag_of fs + frag_of fs)"
    and "i < 984 \<Longrightarrow> format_clrblock fs h b i = b i"
proof -
  obtain c where c: "clrblock (frag_of fs) CG_FREE h b = Some c"
    using assms by (auto simp: frags_ok_def block_forms Let_def)
  then have "format_clrblock fs h b = c" by (simp add: format_clrblock_def frag_of_def)
  then show "free_map (format_clrblock fs h b) k \<longleftrightarrow> free_map b k \<and> \<not> (h * frag_of fs \<le> k \<and> k < h * frag_of fs + frag_of fs)"
    "i < 984 \<Longrightarrow> format_clrblock fs h b i = b i"
    using free_bit_clrblock [OF assms [unfolded frags_ok_def] c] block_frame(1) [OF assms [unfolded frags_ok_def] c]
    by (simp_all add: free_map_def CG_FREE_eq CG_FREE_OFF_def)
qed

lemma format_setblock_map:
  assumes "frags_ok fs"
  shows "free_map (format_setblock fs h b) k \<longleftrightarrow> free_map b k \<or> h * frag_of fs \<le> k \<and> k < h * frag_of fs + frag_of fs"
    and "i < 984 \<Longrightarrow> format_setblock fs h b i = b i"
proof -
  obtain c where c: "setblock (frag_of fs) CG_FREE h b = Some c"
    using assms by (auto simp: frags_ok_def block_forms Let_def)
  then have "format_setblock fs h b = c" by (simp add: format_setblock_def frag_of_def)
  then show "free_map (format_setblock fs h b) k \<longleftrightarrow> free_map b k \<or> h * frag_of fs \<le> k \<and> k < h * frag_of fs + frag_of fs"
    "i < 984 \<Longrightarrow> format_setblock fs h b i = b i"
    using free_bit_setblock [OF assms [unfolded frags_ok_def] c] block_frame(2) [OF assms [unfolded frags_ok_def] c]
    by (simp_all add: free_map_def CG_FREE_eq CG_FREE_OFF_def)
qed

lemma get32_below: "(\<And>i. i < 984 \<Longrightarrow> c i = b i) \<Longrightarrow> p + 4 \<le> 984 \<Longrightarrow> get32 c p = get32 b p"
  by (rule get32_cong) simp

lemma count_block_frame:
  assumes "count_block fs d n b = Some c"
  shows "p + 4 \<le> 84 \<Longrightarrow> get32 c p = get32 b p" "free_map c = free_map b"
    and "i < 84 \<or> 724 \<le> i \<Longrightarrow> c i = b i"
proof -
  obtain j r where j: "0 \<le> j" "j < 32" "0 \<le> r" "r < 8"
    "c = add16 (212 + nat j * 16 + nat r * 2) (of_int n) (add32 (84 + nat j * 4) n b)"
    using assms by (fastforce simp: count_block_def Let_def not_le not_less Format.MAXCPG_def Format.NRPOS_def split: if_splits)
  then have bounds: "nat j < 32" "nat r < 8" by simp_all
  show "p + 4 \<le> 84 \<Longrightarrow> get32 c p = get32 b p" "free_map c = free_map b"
    using bounds by (simp_all add: j(5) cell_simps)
  show "i < 84 \<or> 724 \<le> i \<Longrightarrow> c i = b i"
    using bounds unfolding j(5) add16_def add32_def by (subst put16_other; auto simp: put32_other)
qed

text \<open>A block that becomes free, and one that is not.\<close>

definition block_step :: "format_sblock \<Rightarrow> nat \<Rightarrow> buf \<Rightarrow> buf option" where
  "block_step fs h b = count_block fs (int (h * frag_of fs)) 1 (add32 28 1 (format_setblock fs h b))"

lemma block_step_done:
  assumes fs: "frags_ok fs" and run: "block_step fs m b = Some c"
  shows "host_accounts (frag_of fs) m b \<Longrightarrow> host_accounts (frag_of fs) (Suc m) c"
    and "free_map c k \<longleftrightarrow> free_map b k \<or> m * frag_of fs \<le> k \<and> k < Suc m * frag_of fs"
    and "\<not> frag_side i \<Longrightarrow> c i = b i"
proof -
  let ?n = "frag_of fs" and ?b = "format_setblock fs m b"
  note cb = run [unfolded block_step_def]
  note low = format_setblock_map(2) [OF fs]
  have cells: "get32 ?b p = get32 b p" if "p + 4 \<le> 984" for p by (rule get32_below [OF low that])
  have map: "free_map c k \<longleftrightarrow> free_map b k \<or> m * ?n \<le> k \<and> k < Suc m * ?n" for k
    by (simp add: count_block_frame(2) [OF cb] cell_simps format_setblock_map(1) [OF fs] add.commute)
  then show "free_map c k \<longleftrightarrow> free_map b k \<or> m * ?n \<le> k \<and> k < Suc m * ?n" .
  have n: "0 < ?n" "?n \<le> 8" using frags_ok_bounds [OF fs] by auto
  have full: "blk_full (free_map c) ?n m" by (auto simp: blk_full_def map)
  show "host_accounts ?n m b \<Longrightarrow> host_accounts ?n (Suc m) c"
  proof (rule host_accounts_Suc)
    show "get32 c 28 = get32 b 28 + (if blk_full (free_map c) ?n m then 1 else 0)"
      by (simp add: full count_block_frame(1) [OF cb] get32_add32 cells)
    show "get32 c 36 = get32 b 36 + of_nat (blk_frags (free_map c) ?n m)"
      by (simp add: full blk_frags_def count_block_frame(1) [OF cb] get32_add32 cells)
    fix k assume "1 \<le> k" "k < ?n"
    then show "frsum_of c k = frsum_of b k + of_nat (blk_runs (free_map c) ?n m k)"
      using n by (simp add: blk_full_runs [OF full] frsum_of_def count_block_frame(1) [OF cb] get32_add32 cells)
  qed (auto simp: map)
  assume i: "\<not> frag_side i"
  then have "c i = add32 28 1 ?b i" by (intro count_block_frame(3) [OF cb]) (auto simp: frag_side_def)
  with i low [of i] show "c i = b i" by (auto simp: add32_def put32_other frag_side_def)
qed

lemma clear_step_done:
  assumes fs: "frags_ok fs"
  defines "c b m \<equiv> format_clrblock fs m b"
  shows "host_accounts (frag_of fs) m b \<Longrightarrow> host_accounts (frag_of fs) (Suc m) (c b m)"
    and "free_map (c b m) k \<longleftrightarrow> free_map b k \<and> \<not> (m * frag_of fs \<le> k \<and> k < Suc m * frag_of fs)"
    and "\<not> frag_side i \<Longrightarrow> c b m i = b i"
proof -
  let ?n = "frag_of fs"
  note low = format_clrblock_map(2) [OF fs]
  have cells: "get32 (c b m) p = get32 b p" if "p + 4 \<le> 984" for p
    unfolding c_def by (rule get32_below [OF low that])
  have map: "free_map (c b m) k \<longleftrightarrow> free_map b k \<and> \<not> (m * ?n \<le> k \<and> k < Suc m * ?n)" for k
    by (simp add: c_def format_clrblock_map(1) [OF fs] add.commute)
  then show "free_map (c b m) k \<longleftrightarrow> free_map b k \<and> \<not> (m * ?n \<le> k \<and> k < Suc m * ?n)" .
  have n: "0 < ?n" "?n \<le> 8" using frags_ok_bounds [OF fs] by auto
  have "\<not> free_map (c b m) (m * ?n + i)" if "i < ?n" for i using that by (simp add: map)
  note none = blk_none [of ?n "free_map (c b m)" m, OF this n(1)]
  show "host_accounts ?n m b \<Longrightarrow> host_accounts ?n (Suc m) (c b m)"
    using n by (elim host_accounts_Suc) (auto simp: map none cells frsum_of_def)
  show "\<not> frag_side i \<Longrightarrow> c b m i = b i" unfolding c_def by (rule low) (simp add: frag_side_def)
qed

section \<open>Runs of blocks\<close>

lemma block_list_blocks:
  "block_list F (m * F) (Suc n) = m * F # block_list F (Suc m * F) n"
proof -
  have "map (\<lambda>k. m * F + k * F) [0..<Suc n] = m * F # map (\<lambda>k. m * F + Suc k * F) [0..<n]"
    by (simp add: upt_conv_Cons map_Suc_upt [symmetric] del: upt_Suc)
  then show ?thesis by (simp add: block_list_def algebra_simps)
qed

lemma split_blocks:
  fixes m n F k :: nat
  shows "m * F \<le> k \<and> k < (m + Suc n) * F \<longleftrightarrow>
    m * F \<le> k \<and> k < Suc m * F \<or> Suc m * F \<le> k \<and> k < (Suc m + n) * F"
proof -
  have range: "x \<le> y \<Longrightarrow> y \<le> z \<Longrightarrow> x \<le> k \<and> k < z \<longleftrightarrow> x \<le> k \<and> k < y \<or> y \<le> k \<and> k < z" for x y z :: nat
    by auto
  have "m * F \<le> Suc m * F" "Suc m * F \<le> (Suc m + n) * F" by (rule mult_le_mono1, simp)+
  from range [OF this] show ?thesis by simp
qed

lemma free_blocks_done:
  assumes fs: "frags_ok fs" and run: "free_blocks fs (block_list (frag_of fs) (m * frag_of fs) n) b = Some c"
  shows "host_accounts (frag_of fs) m b \<Longrightarrow> host_accounts (frag_of fs) (m + n) c"
    and "free_map c k \<longleftrightarrow> free_map b k \<or> m * frag_of fs \<le> k \<and> k < (m + n) * frag_of fs"
    and "\<not> frag_side i \<Longrightarrow> c i = b i"
proof -
  let ?F = "frag_of fs"
  have "(host_accounts ?F m b \<longrightarrow> host_accounts ?F (m + n) c) \<and>
    (\<forall>k. free_map c k \<longleftrightarrow> free_map b k \<or> m * ?F \<le> k \<and> k < (m + n) * ?F) \<and> (\<forall>i. \<not> frag_side i \<longrightarrow> c i = b i)"
    using run
  proof (induction n arbitrary: m b)
    case 0
    then show ?case by (auto simp: block_list_def)
  next
    case (Suc n)
    have "m * ?F div nat (m_frag fs) = m" using frags_ok_bounds [OF fs] by (simp add: frag_of_def)
    then obtain b' where step: "block_step fs m b = Some b'"
      and rest: "free_blocks fs (block_list ?F (Suc m * ?F) n) b' = Some c"
      using Suc.prems by (auto simp: block_list_blocks block_step_def split: option.splits)
    note stepped = block_step_done [OF fs step]
    show ?case using Suc.IH [OF rest] stepped(1,3) unfolding split_blocks stepped(2) by auto
  qed
  then show "host_accounts ?F m b \<Longrightarrow> host_accounts ?F (m + n) c"
    "free_map c k \<longleftrightarrow> free_map b k \<or> m * ?F \<le> k \<and> k < (m + n) * ?F" "\<not> frag_side i \<Longrightarrow> c i = b i"
    by blast+
qed

lemma clear_blocks_done:
  assumes fs: "frags_ok fs"
  defines "c m n b \<equiv> clear_blocks fs (block_list (frag_of fs) (m * frag_of fs) n) b"
  shows "host_accounts (frag_of fs) m b \<Longrightarrow> host_accounts (frag_of fs) (m + n) (c m n b)"
    and "free_map (c m n b) k \<longleftrightarrow> free_map b k \<and> \<not> (m * frag_of fs \<le> k \<and> k < (m + n) * frag_of fs)"
    and "\<not> frag_side i \<Longrightarrow> c m n b i = b i"
proof -
  let ?F = "frag_of fs"
  have "(host_accounts ?F m b \<longrightarrow> host_accounts ?F (m + n) (c m n b)) \<and>
    (\<forall>k. free_map (c m n b) k \<longleftrightarrow> free_map b k \<and> \<not> (m * ?F \<le> k \<and> k < (m + n) * ?F)) \<and>
    (\<forall>i. \<not> frag_side i \<longrightarrow> c m n b i = b i)"
  proof (induction n arbitrary: m b)
    case 0
    then show ?case by (auto simp: c_def block_list_def clear_blocks_def)
  next
    case (Suc n)
    have "m * ?F div nat (m_frag fs) = m" using frags_ok_bounds [OF fs] by (simp add: frag_of_def)
    then have step: "c m (Suc n) b = c (Suc m) n (format_clrblock fs m b)"
      by (simp add: c_def clear_blocks_def block_list_blocks del: mult_Suc)
    note stepped = clear_step_done [OF fs, where m = m and b = b]
    show ?case using Suc.IH [of "Suc m" "format_clrblock fs m b"] stepped(1,3)
      unfolding step split_blocks stepped(2) by auto
  qed
  then show "host_accounts ?F m b \<Longrightarrow> host_accounts ?F (m + n) (c m n b)"
    "free_map (c m n b) k \<longleftrightarrow> free_map b k \<and> \<not> (m * ?F \<le> k \<and> k < (m + n) * ?F)"
    "\<not> frag_side i \<Longrightarrow> c m n b i = b i"
    by blast+
qed

lemma free_frags_cells:
  assumes "hi - lo < 8"
  shows "get32 (free_frags lo hi b) 28 = get32 b 28" "get32 (free_frags lo hi b) 36 = get32 b 36 + of_nat (hi - lo)"
    and "k < 8 \<Longrightarrow> frsum_of (free_frags lo hi b) k = frsum_of b k + (if k = hi - lo then 1 else 0)"
    and "free_map (free_frags lo hi b) j \<longleftrightarrow> free_map b j \<or> lo \<le> j \<and> j < hi"
    and "\<not> frag_side i \<Longrightarrow> free_frags lo hi b i = b i"
proof -
  have p: "52 + (hi - lo) * 4 + 4 \<le> 84" using assms by simp
  show "get32 (free_frags lo hi b) 28 = get32 b 28" "get32 (free_frags lo hi b) 36 = get32 b 36 + of_nat (hi - lo)"
    using p by (simp_all add: free_frags_def cell_simps FsckPasses.CG_FREE_def)
  show "k < 8 \<Longrightarrow> frsum_of (free_frags lo hi b) k = frsum_of b k + (if k = hi - lo then 1 else 0)"
    using p by (cases "k < hi - lo"; cases "k = hi - lo")
      (simp_all add: free_frags_def frsum_of_def cell_simps FsckPasses.CG_FREE_def)
  show "free_map (free_frags lo hi b) j \<longleftrightarrow> free_map b j \<or> lo \<le> j \<and> j < hi"
    using p by (simp add: free_frags_def cell_simps)
  show "\<not> frag_side i \<Longrightarrow> free_frags lo hi b i = b i"
    using p by (auto simp: free_frags_def add32_def put32_other set_bits_below FsckPasses.CG_FREE_def frag_side_def)
qed

section \<open>The map of a group\<close>

lemma block_steps_bounds:
  assumes "0 < F" "lo \<le> hi"
  shows "hi \<le> lo + block_steps F lo hi * F" "lo + block_steps F lo hi * F < hi + F"
proof -
  have "(hi - lo + F - 1) div F * F + (hi - lo + F - 1) mod F = hi - lo + F - 1" by (rule div_mult_mod_eq)
  moreover have "(hi - lo + F - 1) mod F < F" using assms(1) by simp
  ultimately show "hi \<le> lo + block_steps F lo hi * F" "lo + block_steps F lo hi * F < hi + F"
    using assms unfolding block_steps_def by linarith+
qed

lemma map_reserved_done:
  assumes fs: "frags_ok fs" and d: "m * frag_of fs \<le> dupper"
    and run: "map_reserved fs (m * frag_of fs) dupper b = (e, c)"
  shows "\<exists>m'. e = m' * frag_of fs \<and> m \<le> m' \<and> dupper \<le> e \<and> e < dupper + frag_of fs \<and>
     (host_accounts (frag_of fs) m b \<longrightarrow> host_accounts (frag_of fs) m' c) \<and>
     (\<forall>k<e. free_map c k \<longleftrightarrow> k < m * frag_of fs \<and> free_map b k \<or> dupper \<le> k) \<and>
     (\<forall>i. \<not> frag_side i \<longrightarrow> c i = b i)"
proof -
  let ?F = "frag_of fs"
  define n where "n = block_steps ?F (m * ?F) dupper"
  define b' where "b' = clear_blocks fs (block_list ?F (m * ?F) n) b"
  have pos: "0 < ?F" "?F \<le> 8" using frags_ok_bounds [OF fs] by auto
  note bounds = block_steps_bounds [OF pos(1) d, folded n_def]
  have e: "e = (m + n) * ?F" and c: "c = (if dupper < e then free_frags dupper e b' else b')"
    using run by (auto simp: map_reserved_def Let_def n_def b'_def frag_of_def [symmetric] add_mult_distrib)
  have ends: "dupper \<le> e" "e < dupper + ?F" using bounds by (simp_all add: e add_mult_distrib)
  note cleared = clear_blocks_done [OF fs, where m = m and n = n and b = b, folded b'_def]
  have map: "free_map c k \<longleftrightarrow> k < m * ?F \<and> free_map b k \<or> dupper \<le> k" if "k < e" for k
    using that ends d free_frags_cells(4) [of e dupper b' k] pos cleared(2) [of k] by (auto simp: c e)
  have frame: "c i = b i" if "\<not> frag_side i" for i
    using that cleared(3) [OF that] free_frags_cells(5) [of e dupper i b'] ends pos by (auto simp: c)
  have "host_accounts ?F (m + n) c" if before: "host_accounts ?F m b"
  proof (cases "dupper < e")
    case False
    then show ?thesis using cleared(1) [OF before] by (simp add: c)
  next
    case True
    then obtain n' where n': "n = Suc n'" using d by (cases n) (auto simp: e)
    define a where "a = clear_blocks fs (block_list ?F (m * ?F) n') b"
    note begun = clear_blocks_done [OF fs, where m = m and n = n' and b = b, folded a_def]
    have last: "e = (m + n') * ?F + ?F" by (simp add: e n')
    have lower: "(m + n') * ?F \<le> dupper" using ends(2) last by linarith
    let ?lo = "dupper - (m + n') * ?F"
    have hi_lo: "e - dupper < 8" "?F - ?lo = e - dupper" using ends pos lower last by auto
    note cells = free_frags_cells [OF hi_lo(1), where b = b']
    have "b' = format_clrblock fs (m + n') a"
      using pos by (simp add: b'_def a_def n' clear_blocks_def block_list_def frag_of_def flip: add_mult_distrib)
    then have same: "get32 b' p = get32 a p" if "p + 4 \<le> 984" for p
      using get32_below [OF format_clrblock_map(2) [OF fs] that] by simp
    have c: "c = free_frags dupper e b'" using True by (simp add: c)
    have sum: "(m + Suc n') * ?F = e" using e n' by simp
    have "host_accounts ?F (Suc (m + n')) c"
    proof (rule host_accounts_run [OF begun(1) [OF before] pos(1), where lo = ?lo and hi = ?F])
      show "free_map c k = free_map a k" if "k < (m + n') * ?F" for k
        using that map [of k] begun(2) [of k] lower last by auto
      show "free_map c ((m + n') * ?F + i) \<longleftrightarrow> ?lo \<le> i \<and> i < ?F" if "i < ?F" for i
        using that map [of "(m + n') * ?F + i"] lower last by (auto simp: add_mult_distrib)
      show "?lo < ?F" "?F \<le> ?F" "?F - ?lo < ?F" using lower last True ends by auto
      show "get32 c 28 = get32 a 28" "get32 c 36 = get32 a 36 + of_nat (?F - ?lo)"
        by (simp_all add: c cells same hi_lo(2))
      show "frsum_of c k = frsum_of a k + (if k = ?F - ?lo then 1 else 0)" if "1 \<le> k" "k < ?F" for k
        using that pos by (simp add: c cells hi_lo(2)) (simp add: frsum_of_def same)
    qed
    then show ?thesis by (simp add: n')
  qed
  then show ?thesis using e ends map frame by (intro exI [of _ "m + n"]) auto
qed

lemma clear_bits_map:
  "free_map (clear_bits CG_FREE ks b) k \<longleftrightarrow> free_map b k \<and> k \<notin> set ks"
  "i < 984 \<Longrightarrow> clear_bits CG_FREE ks b i = b i"
proof -
  show "free_map (clear_bits CG_FREE ks b) k \<longleftrightarrow> free_map b k \<and> k \<notin> set ks"
    unfolding clear_bits_def CG_FREE_eq by (induction ks arbitrary: b) (auto simp: free_map_def)
  show "i < 984 \<Longrightarrow> clear_bits CG_FREE ks b i = b i"
    unfolding clear_bits_def by (induction ks arbitrary: b) (auto simp: clear_bit_def FsckPasses.CG_FREE_def)
qed

lemma clear_rest_map:
  assumes fs: "frags_ok fs"
  shows "k < x * frag_of fs \<Longrightarrow> free_map (fold (format_clrblock fs) [x..<y] b) k = free_map b k"
    and "i < 984 \<Longrightarrow> fold (format_clrblock fs) [x..<y] b i = b i"
proof -
  have "k < x * frag_of fs \<Longrightarrow> \<forall>h\<in>set hs. x \<le> h \<Longrightarrow> free_map (fold (format_clrblock fs) hs b) k = free_map b k"
    for hs
  proof (induction hs arbitrary: b)
    case (Cons h hs)
    have "x * frag_of fs \<le> h * frag_of fs" using Cons.prems(2) by (intro mult_le_mono1) simp
    with Cons.prems(1) have "k < h * frag_of fs" by (rule less_le_trans)
    then show ?case using Cons by (auto simp: format_clrblock_map(1) [OF fs])
  qed simp
  then show "k < x * frag_of fs \<Longrightarrow> free_map (fold (format_clrblock fs) [x..<y] b) k = free_map b k" by simp
  have "i < 984 \<Longrightarrow> fold (format_clrblock fs) hs b i = b i" for hs
    by (induction hs arbitrary: b) (simp_all add: format_clrblock_map(2) [OF fs])
  then show "i < 984 \<Longrightarrow> fold (format_clrblock fs) [x..<y] b i = b i" by blast
qed

lemma frag_side_984: "\<not> frag_side i \<Longrightarrow> i < 984"
  by (auto simp: frag_side_def)

lemma map_data_done:
  assumes fs: "frags_ok fs" and d: "m * frag_of fs \<le> ndblk"
    and run: "map_data fs (m * frag_of fs) ndblk b = Some c"
    and before: "host_accounts (frag_of fs) m b"
  shows "host_accounts (frag_of fs) (nblk (frag_of fs) ndblk) c"
    and "\<forall>k<nblk (frag_of fs) ndblk * frag_of fs. free_map c k \<longleftrightarrow>
      k < m * frag_of fs \<and> free_map b k \<or> m * frag_of fs \<le> k \<and> k < ndblk"
    and "\<forall>i. \<not> frag_side i \<longrightarrow> c i = b i"
proof -
  let ?F = "frag_of fs"
  have pos: "0 < ?F" "?F \<le> 8" using frags_ok_bounds [OF fs] by auto
  define n where "n = (ndblk - m * ?F) div ?F"
  define e where "e = (m + n) * ?F"
  have split: "n * ?F + (ndblk - m * ?F) mod ?F = ndblk - m * ?F" unfolding n_def by (rule div_mult_mod_eq)
  moreover have "(ndblk - m * ?F) mod ?F < ?F" using pos(1) by simp
  ultimately have e: "e \<le> ndblk" "ndblk < e + ?F" using d by (simp_all add: e_def add_mult_distrib)
  have start: "m * ?F + n * ?F = e" by (simp add: e_def add_mult_distrib)
  obtain b1 where b1: "free_blocks fs (block_list ?F (m * ?F) n) b = Some b1"
    using run by (auto simp: map_data_def Let_def n_def frag_of_def [symmetric] split: option.splits)
  note freed = free_blocks_done [OF fs b1]
  let ?tail = "e < ndblk"
  define M where "M = (if ?tail then Suc (m + n) else m + n)"
  define c1 where "c1 = (if ?tail then clear_bits CG_FREE [ndblk..<e + ?F] (free_frags e ndblk b1) else b1)"
  have M: "nblk ?F ndblk = M" unfolding nblk_def
  proof (rule div_nat_eqI)
    show "?F * M \<le> ndblk + ?F - 1" "ndblk + ?F - 1 < ?F * Suc M"
      using e pos(1) by (auto simp: M_def e_def algebra_simps)
  qed
  have whole: "e div ?F = m + n" "(e + ?F) div ?F = Suc (m + n)" using pos(1) by (simp_all add: e_def)
  have c: "c = fold (format_clrblock fs) [M..<nat (MAXBPG fs)] c1"
    using run b1 whole unfolding map_data_def Let_def frag_of_def [symmetric] n_def [symmetric] start
    by (simp add: M_def c1_def split: if_splits)
  have map1: "free_map c1 k \<longleftrightarrow> k < m * ?F \<and> free_map b k \<or> m * ?F \<le> k \<and> k < ndblk" if "k < M * ?F" for k
  proof (cases ?tail)
    case True
    have hl: "ndblk - e < 8" using e pos by linarith
    have top: "M * ?F = e + ?F" using True by (simp add: M_def e_def)
    have "m * ?F \<le> e" by (simp add: e_def)
    then show ?thesis using that True top e
      by (auto simp: c1_def clear_bits_map(1) free_frags_cells(4) [OF hl] freed(2) e_def [symmetric])
  next
    case False
    then have "e = ndblk" using e by simp
    moreover have "M * ?F = e" using False by (simp add: M_def e_def)
    ultimately show ?thesis using that False by (auto simp: c1_def freed(2) e_def [symmetric])
  qed
  have acc1: "host_accounts ?F M c1"
  proof (cases ?tail)
    case False
    then show ?thesis using freed(1) [OF before] by (simp add: c1_def M_def)
  next
    case True
    have hl: "ndblk - e < 8" using e pos by linarith
    note cells = free_frags_cells [OF hl, where b = b1]
    have same: "get32 c1 p = get32 (free_frags e ndblk b1) p" if "p + 4 \<le> 984" for p
      using True get32_below [OF clear_bits_map(2) that] by (simp add: c1_def)
    have "host_accounts ?F (Suc (m + n)) c1"
    proof (rule host_accounts_run [OF freed(1) [OF before] pos(1), where lo = 0 and hi = "ndblk - e"])
      have top: "M * ?F = e + ?F" using True by (simp add: M_def e_def)
      show "free_map c1 k = free_map b1 k" if "k < (m + n) * ?F" for k
        using that map1 [of k] top e True by (auto simp: freed(2) e_def [symmetric])
      show "free_map c1 ((m + n) * ?F + i) \<longleftrightarrow> 0 \<le> i \<and> i < ndblk - e" if "i < ?F" for i
        using that map1 [of "e + i"] top e start by (auto simp: e_def [symmetric])
      show "0 < ndblk - e" "ndblk - e \<le> ?F" "ndblk - e - 0 < ?F" using True e by auto
      show "get32 c1 28 = get32 b1 28" "get32 c1 36 = get32 b1 36 + of_nat (ndblk - e - 0)"
        by (simp_all add: same cells)
      show "frsum_of c1 k = frsum_of b1 k + (if k = ndblk - e - 0 then 1 else 0)" if "1 \<le> k" "k < ?F" for k
        using that pos cells(3) [of k] by (simp add: frsum_of_def same)
    qed
    then show ?thesis using True by (simp add: M_def)
  qed
  have final: "free_map c k = free_map c1 k" if "k < M * ?F" for k
    unfolding c by (rule clear_rest_map(1) [OF fs that])
  show "host_accounts ?F (nblk ?F ndblk) c" unfolding M
    by (rule host_accounts_cong [OF acc1 pos(2) final]) (simp_all add: c get32_below [OF clear_rest_map(2) [OF fs]])
  show "\<forall>k<nblk ?F ndblk * ?F. free_map c k \<longleftrightarrow>
      k < m * ?F \<and> free_map b k \<or> m * ?F \<le> k \<and> k < ndblk"
    unfolding M using final map1 by simp
  have "ndblk - e < 8" using e pos by linarith
  then show "\<forall>i. \<not> frag_side i \<longrightarrow> c i = b i"
    using freed(3) free_frags_cells(5) by (simp add: c c1_def clear_rest_map(2) [OF fs] clear_bits_map(2) frag_side_984)
qed

text \<open>The fragments of a group that are free: those in front of the superblock copy, except in group 0, and the data.\<close>

definition group_free :: "nat \<Rightarrow> nat \<Rightarrow> nat \<Rightarrow> nat \<Rightarrow> nat \<Rightarrow> bool" where
  "group_free c dlower dupper ndblk k \<longleftrightarrow> c \<noteq> 0 \<and> k < dlower \<or> dupper \<le> k \<and> k < ndblk"

lemma group_map_done:
  assumes fs: "frags_ok fs" and lower: "dlower = L * frag_of fs" "dlower \<le> dupper"
    and room: "(dupper + frag_of fs - 1) div frag_of fs * frag_of fs \<le> ndblk"
    and run: "group_map fs c (int dlower) (int dupper) (int ndblk) b = Some new"
    and before: "host_accounts (frag_of fs) 0 b"
  shows "host_accounts (frag_of fs) (nblk (frag_of fs) ndblk) new"
    and "\<forall>k<nblk (frag_of fs) ndblk * frag_of fs. free_map new k \<longleftrightarrow> group_free c dlower dupper ndblk k"
    and "\<forall>i. \<not> frag_side i \<longrightarrow> new i = b i"
proof -
  let ?F = "frag_of fs"
  have pos: "0 < ?F" using frags_ok_bounds [OF fs] by auto
  have steps: "block_steps ?F 0 dlower = L"
    using div_nat_eqI [of ?F L "L * ?F + ?F - 1"] pos by (simp add: block_steps_def lower(1) algebra_simps)
  obtain b1 where b1: "map_front fs c dlower b = Some b1"
    and rest: "(let (d, b) = map_reserved fs (L * ?F) dupper b1 in map_data fs d ndblk b) = Some new"
    using run by (auto simp: group_map_def Let_def frag_of_def [symmetric] steps split: if_splits option.splits)
  have front: "host_accounts ?F L b1 \<and> (\<forall>k<dlower. free_map b1 k \<longleftrightarrow> c \<noteq> 0) \<and> (\<forall>i. \<not> frag_side i \<longrightarrow> b1 i = b i)"
  proof (cases "c = 0")
    case True
    then have "b1 = clear_blocks fs (block_list ?F (0 * ?F) L) b"
      using b1 by (simp add: map_front_def Let_def frag_of_def [symmetric] steps)
    then show ?thesis
      using clear_blocks_done [OF fs, where m = 0 and n = L and b = b] before True by (auto simp: lower(1))
  next
    case False
    then have "free_blocks fs (block_list ?F (0 * ?F) L) b = Some b1"
      using b1 by (simp add: map_front_def Let_def frag_of_def [symmetric] steps)
    from free_blocks_done [OF fs this] before False show ?thesis by (auto simp: lower(1))
  qed
  obtain e b2 where b2: "map_reserved fs (L * ?F) dupper b1 = (e, b2)" and data: "map_data fs e ndblk b2 = Some new"
    using rest by (auto split: prod.splits)
  obtain m' where m': "e = m' * ?F" "L \<le> m'" "dupper \<le> e" "e < dupper + ?F" "host_accounts ?F m' b2"
    "\<forall>k<e. free_map b2 k \<longleftrightarrow> k < dlower \<and> free_map b1 k \<or> dupper \<le> k" "\<forall>i. \<not> frag_side i \<longrightarrow> b2 i = b1 i"
    using map_reserved_done [OF fs lower(2) [unfolded lower(1)] b2] front by (auto simp: lower(1))
  have "(dupper + ?F - 1) div ?F = m'"
    by (rule div_nat_eqI) (use m'(1,3,4) pos in \<open>auto simp: algebra_simps\<close>)
  then have e: "m' * ?F \<le> ndblk" using room by simp
  note done' = map_data_done [OF fs e data [unfolded m'(1)] m'(5)]
  show "host_accounts ?F (nblk ?F ndblk) new" by (rule done'(1))
  have "dlower \<le> m' * ?F" using m'(2) unfolding lower(1) by (rule mult_le_mono1)
  then show "\<forall>k<nblk ?F ndblk * ?F. free_map new k \<longleftrightarrow> group_free c dlower dupper ndblk k"
    using done'(2) m'(1,3,6) front e by (auto simp: group_free_def)
  show "\<forall>i. \<not> frag_side i \<longrightarrow> new i = b i" using done'(3) m'(7) front by simp
qed

section \<open>The inodes of a group\<close>

lemma clear_used:
  "inode_used (clear_bits CG_IUSED ks b) k \<longleftrightarrow> inode_used b k \<and> k \<notin> set ks"
  "\<forall>k\<in>set ks. k < 2048 \<Longrightarrow> i < 724 \<or> 980 \<le> i \<Longrightarrow> clear_bits CG_IUSED ks b i = b i"
proof -
  show "inode_used (clear_bits CG_IUSED ks b) k \<longleftrightarrow> inode_used b k \<and> k \<notin> set ks"
    unfolding clear_bits_def CG_IUSED_eq inode_used_def by (induction ks arbitrary: b) auto
  show "\<forall>k\<in>set ks. k < 2048 \<Longrightarrow> i < 724 \<or> 980 \<le> i \<Longrightarrow> clear_bits CG_IUSED ks b i = b i"
    unfolding clear_bits_def by (induction ks arbitrary: b) (auto simp: clear_bit_def FsckPasses.CG_IUSED_def)
qed

lemma clear_inodes_done:
  assumes "i \<le> ipg" "inopb dvd ipg - i" "0 < inopb" "ipg \<le> 2048"
  shows "\<exists>c. clear_inodes ipg inopb i b = (ipg, c) \<and>
    (\<forall>k. inode_used c k \<longleftrightarrow> inode_used b k \<and> \<not> (i \<le> k \<and> k < ipg)) \<and>
    get32 c 32 = get32 b 32 + of_nat (ipg - i) \<and> (\<forall>j. \<not> inode_side j \<longrightarrow> c j = b j)"
  using assms
proof (induction ipg inopb i b rule: clear_inodes.induct)
  case (1 ipg inopb i b)
  show ?case
  proof (cases "i < ipg")
    case False
    then show ?thesis using "1.prems" by (intro exI [of _ b]) (auto simp: clear_inodes.simps [of ipg inopb ipg])
  next
    case True
    let ?b = "add32 32 (int inopb) (clear_bits CG_IUSED [i..<i + inopb] b)"
    have "inopb \<le> ipg - i" using "1.prems"(2) True by (intro dvd_imp_le) simp_all
    then have next': "i + inopb \<le> ipg" using True by simp
    have "inopb dvd ipg - i - inopb" by (rule dvd_diff_nat [OF "1.prems"(2) dvd_refl])
    then have "inopb dvd ipg - (i + inopb)" by (simp only: diff_diff_left)
    then obtain c where c: "clear_inodes ipg inopb (i + inopb) ?b = (ipg, c)"
      "\<forall>k. inode_used c k \<longleftrightarrow> inode_used ?b k \<and> \<not> (i + inopb \<le> k \<and> k < ipg)"
      "get32 c 32 = get32 ?b 32 + of_nat (ipg - (i + inopb))" "\<forall>j. \<not> inode_side j \<longrightarrow> c j = ?b j"
      using "1.IH" True "1.prems" next' by blast
    have low: "\<forall>k\<in>set [i..<i + inopb]. k < 2048" using next' "1.prems"(4) by auto
    have cells: "get32 (clear_bits CG_IUSED [i..<i + inopb] b) 32 = get32 b 32"
      using clear_used(2) [OF low] by (intro get32_cong) simp
    have "ipg - i = inopb + (ipg - (i + inopb))" using next' by simp
    then have "(of_nat (ipg - i) :: u32) = of_nat inopb + of_nat (ipg - (i + inopb))" by (metis of_nat_add)
    then have "get32 c 32 = get32 b 32 + of_nat (ipg - i)" by (simp add: c(3) cell_simps cells)
    moreover have "c j = b j" if "\<not> inode_side j" for j
    proof -
      have "j < 724 \<or> 980 \<le> j" using that by (auto simp: inode_side_def)
      then show ?thesis using c(4) that clear_used(2) [OF low, of j b] by (simp add: inode_add_frame)
    qed
    moreover have "inode_used c k \<longleftrightarrow> inode_used b k \<and> \<not> (i \<le> k \<and> k < ipg)" for k
    proof -
      have "inode_used ?b k \<longleftrightarrow> inode_used b k \<and> \<not> (i \<le> k \<and> k < i + inopb)" by (simp add: cell_simps clear_used(1))
      then show ?thesis using spec [OF c(2), of k] next' by auto
    qed
    ultimately show ?thesis
      using c(1) True "1.prems"(3) by (simp add: clear_inodes.simps [of ipg inopb i])
  qed
qed

lemma group_inodes_done:
  fixes c :: nat and b :: buf
  assumes "0 < m_inopb fs" "nat (m_inopb fs) dvd nat (m_ipg fs)" "m_ipg fs \<le> 2048"
  defines "new \<equiv> group_inodes fs c b"
  shows "k < 2048 \<Longrightarrow> inode_used new k \<longleftrightarrow> c = 0 \<and> k < 2"
    and "get32 new 32 = get32 b 32 + of_nat (nat (m_ipg fs)) - (if c = 0 then 2 else 0)"
    and "\<not> inode_side i \<Longrightarrow> new i = b i"
proof -
  obtain b1 where b1: "clear_inodes (nat (m_ipg fs)) (nat (m_inopb fs)) 0 b = (nat (m_ipg fs), b1)"
    "\<forall>k. inode_used b1 k \<longleftrightarrow> inode_used b k \<and> \<not> k < nat (m_ipg fs)"
    "get32 b1 32 = get32 b 32 + of_nat (nat (m_ipg fs))" "\<forall>j. \<not> inode_side j \<longrightarrow> b1 j = b j"
    using clear_inodes_done [of 0 "nat (m_ipg fs)" "nat (m_inopb fs)" b] assms(1-3) by (auto simp: nat_le_iff)
  have root: "[0..<ROOTINO] = [0, 1]" by (simp add: ROOTINO_def upt_rec)
  define r where "r = (if c = 0 then ROOTINO else nat (m_ipg fs))"
  define b2 where "b2 = (if c = 0 then fold (\<lambda>i b. add32 32 (- 1) (set_bit8 CG_IUSED i b)) [0..<ROOTINO] b1 else b1)"
  have new: "new = clear_bits CG_IUSED [r..<2048] b2"
    by (simp add: new_def group_inodes_def b1(1) r_def b2_def Format.MAXIPG_def Let_def)
  have low: "\<forall>k\<in>set [r..<2048]. k < 2048" by simp
  have used2: "inode_used b2 k \<longleftrightarrow> c = 0 \<and> k < 2 \<or> inode_used b1 k" for k
    by (auto simp: b2_def root cell_simps)
  show "k < 2048 \<Longrightarrow> inode_used new k \<longleftrightarrow> c = 0 \<and> k < 2"
    unfolding new clear_used(1) used2 using b1(2) by (auto simp: r_def ROOTINO_def)
  have "get32 new 32 = get32 b2 32"
    unfolding new using clear_used(2) [OF low] by (intro get32_cong) simp
  then show "get32 new 32 = get32 b 32 + of_nat (nat (m_ipg fs)) - (if c = 0 then 2 else 0)"
    by (simp add: b2_def root cell_simps b1(3))
  assume i: "\<not> inode_side i"
  then have "i < 724 \<or> 980 \<le> i" by (auto simp: inode_side_def)
  then have "new i = b2 i" unfolding new by (rule clear_used(2) [OF low])
  also have "\<dots> = b1 i" by (simp add: b2_def root set_used_frame inode_add_frame i)
  finally show "new i = b i" using b1(4) i by simp
qed

end
