(* ===== verification/FormatGroup.thy ===== *)
theory FormatGroup
  imports FormatOk
begin

text \<open>
  \<open>initcg\<close> as a whole: the group it leaves in memory and on the disk is well formed.
\<close>

section \<open>Geometry\<close>

text \<open>What the geometry of a new file system guarantees to the group builder.\<close>

definition geometry_sound :: "format_sblock \<Rightarrow> bool" where
  "geometry_sound fs \<longleftrightarrow> frags_ok fs \<and> m_bsize fs = m_frag fs * m_fsize fs \<and> 0 < m_fsize fs \<and>
     m_bsize fs \<le> MAXBSIZE \<and> 0 < m_inopb fs \<and> m_inopb fs dvd m_ipg fs \<and> 2 \<le> m_ipg fs \<and> m_ipg fs \<le> MAXIPG \<and>
     m_frag fs dvd m_sblkno fs \<and> m_frag fs dvd m_cgoffset fs \<and> 0 \<le> m_cgoffset fs \<and>
     0 \<le> m_sblkno fs \<and> m_sblkno fs \<le> m_dblkno fs \<and> 0 < m_fpg fs"

text \<open>The fragments of a group, and where its superblock copy and its data start.\<close>

definition group_size :: "format_sblock \<Rightarrow> nat \<Rightarrow> nat" where
  "group_size fs c = nat (min (m_fpg fs) (m_size fs - m_fpg fs * int c))"

definition copy_start :: "format_sblock \<Rightarrow> nat \<Rightarrow> nat" where
  "copy_start fs c = nat (m_cgoffset fs * (int c AND NOT (m_cgmask fs)) + m_sblkno fs)"

definition free_start :: "format_sblock \<Rightarrow> nat \<Rightarrow> nat" where
  "free_start fs c = nat (data_start fs (int c) + (if c = 0 then ceil_div (m_cssize fs) (m_fsize fs) else 0))"

text \<open>The metadata of the group, rounded to blocks, lies inside it.\<close>

definition group_room :: "format_sblock \<Rightarrow> nat \<Rightarrow> bool" where
  "group_room fs c \<longleftrightarrow> m_fpg fs * int c < m_size fs \<and> 0 \<le> m_cssize fs \<and>
     (free_start fs c + frag_of fs - 1) div frag_of fs * frag_of fs \<le> group_size fs c"

definition describes_format :: "nextufs_image \<Rightarrow> format_sblock \<Rightarrow> bool" where
  "describes_format img fs \<longleftrightarrow> uint (frags_per_block (sb img)) = m_frag fs \<and>
     uint (frags_per_group (sb img)) = m_fpg fs \<and> uint (inodes_per_group (sb img)) = m_ipg fs"

section \<open>The header\<close>

lemma zero_words_other: "i < p \<or> p + n * 4 \<le> i \<Longrightarrow> zero_words p n b i = b i"
  by (induction n) (auto simp: zero_words_def put32_other)

lemma zero_words_cell: "k < n \<Longrightarrow> get32 (zero_words p n b) (p + k * 4) = 0"
proof (induction n)
  case (Suc n)
  show ?case
  proof (cases "k = n")
    case False
    then have "k < n" using Suc.prems by simp
    then show ?thesis using Suc.IH by (simp add: zero_words_def cell_simps)
  qed (simp add: zero_words_def cell_simps)
qed simp

lemma zero_words_cell_other: "q + 4 \<le> p \<or> p + n * 4 \<le> q \<Longrightarrow> get32 (zero_words p n b) q = get32 b q"
  by (rule get32_cong) (auto intro: zero_words_other)

lemma group_header_cells:
  assumes "frags_ok fs"
  shows "get32 (group_header fs c nd now b) 20 = of_int nd" "get32 (group_header fs c nd now b) 28 = 0"
    "get32 (group_header fs c nd now b) 32 = 0" "get32 (group_header fs c nd now b) 36 = 0"
    "get32 (group_header fs c nd now b) 24 = 0"
    "get32 (group_header fs c nd now b) 980 = of_int FsckPasses.CG_MAGIC"
    and "k < frag_of fs \<Longrightarrow> frsum_of (group_header fs c nd now b) k = 0"
proof -
  have n: "nat (m_frag fs) \<le> 8" using frags_ok_bounds [OF assms] by (simp add: frag_of_def)
  show "get32 (group_header fs c nd now b) 20 = of_int nd"
    "get32 (group_header fs c nd now b) 980 = of_int FsckPasses.CG_MAGIC"
    using n by (simp_all add: group_header_def Let_def zero_words_cell_other cell_simps)
  show "get32 (group_header fs c nd now b) 28 = 0" "get32 (group_header fs c nd now b) 32 = 0"
    "get32 (group_header fs c nd now b) 36 = 0" "get32 (group_header fs c nd now b) 24 = 0"
    using zero_words_cell [of 1 4 24] zero_words_cell [of 2 4 24] zero_words_cell [of 3 4 24] zero_words_cell [of 0 4 24]
    by (simp_all add: group_header_def Let_def zero_words_cell_other)
  show "k < frag_of fs \<Longrightarrow> frsum_of (group_header fs c nd now b) k = 0"
    by (simp add: group_header_def Let_def frsum_of_def frag_of_def zero_words_cell)
qed

section \<open>Preparing the group\<close>

lemma clear_rotation_other: "i < 84 \<or> 724 \<le> i \<Longrightarrow> clear_rotation b i = b i"
proof -
  assume i: "i < 84 \<or> 724 \<le> i"
  have inner: "fold (\<lambda>j b. put16 b (212 + k * 16 + j * 2) 0) [0..<n] c i = c i" if "k < 32" "n \<le> 8" for k n c
    using i that by (induction n) (auto simp: put16_other)
  have "fold (\<lambda>k b. fold (\<lambda>j b. put16 b (212 + k * 16 + j * 2) 0) [0..<8] (put32 b (84 + k * 4) 0)) [0..<n] b i = b i"
    if "n \<le> 32" for n
    using that
  proof (induction n)
    case (Suc n)
    then show ?case using i inner [of n 8] by (auto simp: put32_other)
  qed simp
  from this [of 32] show ?thesis by (simp add: clear_rotation_def Format.NRPOS_def Format.MAXCPG_def)
qed

text \<open>The group before its map is filled in.\<close>

lemma prepared_group:
  fixes c :: nat and nd :: int and now :: u32 and acg :: buf
  assumes fs: "geometry_sound fs"
  defines "b \<equiv> clear_rotation (group_inodes fs c (group_header fs c nd now acg))"
  shows "host_accounts (frag_of fs) 0 b" "get32 b 20 = of_int nd"
    "get32 b 980 = of_int FsckPasses.CG_MAGIC"
    "get32 b 32 = of_nat (nat (m_ipg fs)) - (if c = 0 then 2 else 0)"
    "k < 2048 \<Longrightarrow> inode_used b k \<longleftrightarrow> c = 0 \<and> k < 2"
proof -
  let ?h = "group_header fs c nd now acg"
  have ok: "frags_ok fs" "0 < m_inopb fs" "nat (m_inopb fs) dvd nat (m_ipg fs)" "m_ipg fs \<le> 2048"
    using fs by (auto simp: geometry_sound_def Format.MAXIPG_def nat_dvd_iff)
  note inodes = group_inodes_done [OF ok(2-4), where c = c and b = ?h]
  note header = group_header_cells [OF ok(1), where c = c and nd = nd and now = now and b = acg]
  have rot: "get32 b p = get32 (group_inodes fs c ?h) p" if "p + 4 \<le> 84 \<or> 724 \<le> p" for p
    unfolding b_def using that by (intro get32_cong clear_rotation_other) auto
  have side: "get32 (group_inodes fs c ?h) p = get32 ?h p" if "p \<in> {20, 28, 36, 980} \<or> 52 \<le> p \<and> p + 4 \<le> 84 " for p
    using that by (intro get32_cong inodes(3)) (auto simp: inode_side_def)
  have small: "k < frag_of fs \<Longrightarrow> k < 8" for k using frags_ok_bounds [OF ok(1)] by simp
  have "frsum_of b k = 0" if "k < frag_of fs" for k
    using small [OF that] header(7) [OF that] by (simp add: frsum_of_def rot side)
  then show "host_accounts (frag_of fs) 0 b"
    by (simp add: host_accounts_def rot side header(2,4))
  show "get32 b 20 = of_int nd" "get32 b 980 = of_int FsckPasses.CG_MAGIC"
    by (simp_all add: rot side header)
  show "get32 b 32 = of_nat (nat (m_ipg fs)) - (if c = 0 then 2 else 0)"
    using inodes(2) by (simp add: rot header(3))
  assume "k < 2048"
  then have "724 + k div 8 < 980" by linarith
  then have "inode_used b k = inode_used (group_inodes fs c ?h) k"
    by (simp add: b_def inode_used_def free_bit_iff CG_IUSED_OFF_def clear_rotation_other)
  then show "inode_used b k \<longleftrightarrow> c = 0 \<and> k < 2" using inodes(1) [OF \<open>k < 2048\<close>] by simp
qed

section \<open>The group in memory\<close>

lemma unused_inodes_sum:
  "2 \<le> n \<Longrightarrow> (\<Sum>i<n. if q \<and> i < 2 then 0 else 1 :: u32) = of_nat n - (if q then 2 else 0)"
proof -
  assume "2 \<le> n"
  then obtain m where n: "n = Suc (Suc m)" by (metis Suc_le_D numeral_2_eq_2 Suc_le_mono)
  show ?thesis unfolding n sum.lessThan_Suc_shift by simp
qed

lemma layout_starts:
  assumes "geometry_sound fs" "0 \<le> m_cssize fs"
  shows "\<exists>L. copy_start fs c = L * frag_of fs" "copy_start fs c \<le> free_start fs c"
    "int (copy_start fs c) = m_cgoffset fs * (int c AND NOT (m_cgmask fs)) + m_sblkno fs"
    "int (free_start fs c) = data_start fs (int c) + (if c = 0 then ceil_div (m_cssize fs) (m_fsize fs) else 0)"
proof -
  let ?x = "int c AND NOT (m_cgmask fs)"
  have fs: "frags_ok fs" "m_bsize fs = m_frag fs * m_fsize fs" "m_frag fs dvd m_sblkno fs"
    "m_frag fs dvd m_cgoffset fs" "0 \<le> m_cgoffset fs" "0 \<le> m_sblkno fs" "m_sblkno fs \<le> m_dblkno fs" "0 < m_fsize fs"
    using assms(1) by (auto simp: geometry_sound_def)
  have x: "0 \<le> m_cgoffset fs * ?x" using fs(5) by (intro mult_nonneg_nonneg) simp_all
  show copy: "int (copy_start fs c) = m_cgoffset fs * ?x + m_sblkno fs" using x fs(6) by (simp add: copy_start_def)
  have "0 \<le> ceil_div (m_cssize fs) (m_fsize fs)"
    using fs(8) assms(2) by (simp add: ceil_div_def pos_imp_zdiv_nonneg_iff)
  then show free: "int (free_start fs c) = data_start fs (int c) + (if c = 0 then ceil_div (m_cssize fs) (m_fsize fs) else 0)"
    using x fs(6,7) by (auto simp: free_start_def data_start_def)
  show "copy_start fs c \<le> free_start fs c"
    using fs(7) \<open>0 \<le> ceil_div _ _\<close> copy free by (simp add: data_start_def flip: of_nat_le_iff [where 'a = int])
  have F: "int (frag_of fs) = m_frag fs" using frags_ok_bounds [OF fs(1)] by (simp add: frag_of_def)
  have "m_frag fs dvd m_cgoffset fs * ?x + m_sblkno fs" using fs(3,4) by (intro dvd_add dvd_mult2)
  then have "int (frag_of fs) dvd int (copy_start fs c)" unfolding F copy .
  then have "frag_of fs dvd copy_start fs c" by simp
  then show "\<exists>L. copy_start fs c = L * frag_of fs" by (metis dvd_def mult.commute)
qed

definition group_prepared :: "format_sblock \<Rightarrow> nat \<Rightarrow> u32 \<Rightarrow> buf \<Rightarrow> buf" where
  "group_prepared fs c now acg = clear_rotation (group_inodes fs c (group_header fs c (int (group_size fs c)) now acg))"

lemma built_group:
  assumes fs: "geometry_sound fs" and room: "group_room fs c" and img: "describes_format img fs"
    and run: "group_map fs c (int (copy_start fs c)) (int (free_start fs c)) (int (group_size fs c))
      (group_prepared fs c now acg) = Some new"
  shows "cg_wf img (format_swap_cg new)"
    and "\<forall>k<group_size fs c. free_map (format_swap_cg new) k \<longleftrightarrow>
      group_free c (copy_start fs c) (free_start fs c) (group_size fs c) k"
    and "\<forall>i<nat (m_ipg fs). inode_used (format_swap_cg new) i \<longleftrightarrow> c = 0 \<and> i < 2"
    and "get32 new 20 = of_nat (group_size fs c)"
proof -
  let ?F = "frag_of fs" and ?n = "group_size fs c"
  have ok: "frags_ok fs" "2 \<le> m_ipg fs" "m_ipg fs \<le> 2048"
    using fs by (auto simp: geometry_sound_def Format.MAXIPG_def)
  have cs: "0 \<le> m_cssize fs" using room by (simp add: group_room_def)
  obtain L where L: "copy_start fs c = L * ?F" using layout_starts(1) [OF fs cs] by blast
  note prep = prepared_group [OF fs, where c = c and nd = "int ?n" and now = now and acg = acg,
      folded group_prepared_def]
  have "(free_start fs c + ?F - 1) div ?F * ?F \<le> ?n" using room by (simp add: group_room_def)
  note map = group_map_done [OF ok(1) L layout_starts(2) [OF fs cs] this run prep(1)]
  define b0 where "b0 = swap_fields (words_at 0 2) new"
  have b0: "b0 i = new i" if "8 \<le> i" for i
    unfolding b0_def using that by (intro swap_fields_out [OF words_at_ok]) (auto simp: words_at_def)
  have cells: "get32 b0 p = get32 new p" if "8 \<le> p" for p using that by (intro get32_cong b0) simp
  have frame: "get32 new p = get32 (group_prepared fs c now acg) p" if "p \<in> {20, 32, 980}" for p
    using that map(3) by (intro get32_cong) (auto simp: frag_side_def)
  have free0: "free_map b0 = free_map new" by (intro free_map_cong b0) (simp add: CG_FREE_OFF_def)
  have used0: "inode_used b0 i \<longleftrightarrow> c = 0 \<and> i < 2" if "i < 2048" for i
  proof -
    have "724 + i div 8 < 980" using that by linarith
    then have "inode_used b0 i = inode_used (group_prepared fs c now acg) i"
      using map(3) by (simp add: inode_used_def free_bit_iff CG_IUSED_OFF_def b0 frag_side_def)
    with prep(5) [OF that] show ?thesis by simp
  qed
  have acc: "host_accounts ?F (nblk ?F ?n) b0"
    by (rule host_accounts_cong [OF map(1)]) (use frags_ok_bounds [OF ok(1)] in \<open>simp_all add: free0 cells\<close>)
  have "uint (frags_per_block (sb img)) = m_frag fs"
    "uint (frags_per_group (sb img)) = m_fpg fs" "uint (inodes_per_group (sb img)) = m_ipg fs"
    using img by (auto simp: describes_format_def)
  then have unats: "unat (frags_per_block (sb img)) = ?F" "unat (frags_per_group (sb img)) = nat (m_fpg fs)"
    "unat (inodes_per_group (sb img)) = nat (m_ipg fs)"
    by (simp_all add: frag_of_def flip: nat_uint_eq)
  have size: "?n \<le> nat (m_fpg fs)" by (simp add: group_size_def nat_mono)
  have "nat (m_fpg fs) < 2 ^ 32" using unats(2) unsigned_less [where 'a = nat, of "frags_per_group (sb img)"] by simp
  then have size32: "?n < 2 ^ 32" using size by simp
  have sum: "get32 b0 32 = (\<Sum>i<nat (m_ipg fs). if inode_used b0 i then 0 else 1)"
  proof -
    have "(\<Sum>i<nat (m_ipg fs). if inode_used b0 i then 0 else 1 :: u32) =
        (\<Sum>i<nat (m_ipg fs). if c = 0 \<and> i < 2 then 0 else 1)"
      using ok(3) by (intro sum.cong refl) (simp add: used0)
    then show ?thesis
      using ok(2) by (simp add: unused_inodes_sum cells frame prep(4) nat_le_iff)
  qed
  have swap: "format_swap_cg new = swap_cgblock b0"
    by (simp add: format_swap_cg_def swap_cgblock_def b0_def)
  show "cg_wf img (format_swap_cg new)" unfolding swap
  proof (rule cg_wf_swapped [OF unats acc _ _ size32 size])
    show "get32 b0 20 = of_nat ?n" "get32 b0 980 = of_int FsckPasses.CG_MAGIC"
      using prep(2,3) by (simp_all add: cells frame)
    show "\<not> free_map b0 k" if "?n \<le> k" "k < nblk ?F ?n * ?F" for k
    proof -
      have "copy_start fs c \<le> free_start fs c" by (rule layout_starts(2) [OF fs cs])
      moreover have "free_start fs c \<le> ?n"
        using block_steps_bounds(1) [of ?F 0 "free_start fs c"] room frags_ok_bounds [OF ok(1)]
        by (simp add: block_steps_def group_room_def)
      ultimately show ?thesis using map(2) that by (simp add: free0 group_free_def)
    qed
  qed (use frags_ok_bounds [OF ok(1)] sum ok(3) in \<open>auto simp: nat_le_iff\<close>)
  have "?n \<le> nblk ?F ?n * ?F"
    using block_steps_bounds(1) [of ?F 0 ?n] frags_ok_bounds [OF ok(1)] by (simp add: block_steps_def nblk_def)
  then show "\<forall>k<?n. free_map (format_swap_cg new) k \<longleftrightarrow> group_free c (copy_start fs c) (free_start fs c) ?n k"
    using map(2) by (simp add: swap swap_cgblock_maps free0)
  show "\<forall>i<nat (m_ipg fs). inode_used (format_swap_cg new) i \<longleftrightarrow> c = 0 \<and> i < 2"
    using ok(3) by (simp add: swap swap_cgblock_maps used0)
  show "get32 new 20 = of_nat ?n" using prep(2) by (simp add: frame)
qed

section \<open>The group on the disk\<close>

lemma i32_Inr: "i32 x s = (Inr y, t) \<longleftrightarrow> - (2 ^ 31) \<le> x \<and> x < 2 ^ 31 \<and> y = x \<and> t = s"
  by (auto simp: i32_def ret_def fail_def)

lemma edits [simp]:
  "gets f s = (Inr x, t) \<longleftrightarrow> x = f s \<and> t = s"
  "edit_acg u s = (Inr (), t) \<longleftrightarrow> t = s\<lparr>f_acg := u (f_acg s)\<rparr>"
  "edit_sblock v s = (Inr (), t) \<longleftrightarrow> t = s\<lparr>f_sblock := v (f_sblock s)\<rparr>"
  "edit_csums u s = (Inr (), t) \<longleftrightarrow> t = s\<lparr>f_csums := u (f_csums s)\<rparr>"
  by (auto simp: gets_def edit_acg_def edit_sblock_def edit_csums_def modify_def)

lemma addresses_Inr:
  "cgbase fs c s = (Inr b, t) \<Longrightarrow> b = m_fpg fs * c \<and> t = s"
  "cgsblock fs c s = (Inr b, t) \<Longrightarrow> b = m_fpg fs * c + m_cgoffset fs * (c AND NOT (m_cgmask fs)) + m_sblkno fs \<and> t = s"
  "cgtod fs c s = (Inr b, t) \<Longrightarrow> b = m_fpg fs * c + m_cgoffset fs * (c AND NOT (m_cgmask fs)) + m_cblkno fs \<and> t = s"
  "cgimin fs c s = (Inr b, t) \<Longrightarrow> b = m_fpg fs * c + m_cgoffset fs * (c AND NOT (m_cgmask fs)) + m_iblkno fs \<and> t = s"
  "cgdmin fs c s = (Inr b, t) \<Longrightarrow> b = m_fpg fs * c + data_start fs c \<and> t = s"
  "fsbtodb fs d s = (Inr b, t) \<Longrightarrow> b = d * 2 ^ nat (m_fsbtodb fs) \<and> t = s"
  by (auto simp: cgbase_def cgstart_def cgsblock_def cgtod_def cgimin_def cgdmin_def Format.fsbtodb_def andthen_Inr
      i32_Inr data_start_def)

text \<open>A write that goes through has put the bytes in their place, and changes nothing but the device.\<close>

lemma wtfs_dev: "wtfs bno n b s = (Inr (), t) \<Longrightarrow> t = s\<lparr>f_dev := f_dev t\<rparr>"
  by (cases "f_nflag s") (auto simp: wtfs_def Let_def split: if_splits prod.splits)

lemma wtfs_Inr:
  assumes "wtfs bno n b s = (Inr (), t)" "0 < n" "\<not> f_nflag s"
  shows "0 \<le> f_base s + bno * 1024"
    "i < n \<Longrightarrow> file_byte (fst (f_dev t)) (nat (f_base s + bno * 1024) + i) = b i"
proof -
  let ?off = "f_base s + bno * 1024"
  obtain f os where dev: "f_dev s = (f, os)" by fastforce
  have off: "0 \<le> ?off" and "pwrite b n ?off (f, os) = (Inr n, f_dev t)"
    using assms(1,3) dev by (auto simp: wtfs_def Let_def Format.DEV_BSIZE_def split: if_splits prod.splits)
  then have "f_dev t = (file_write f (nat ?off) n b, tick os)"
    using assms(2) by (auto simp: pwrite_def split: if_splits sum.splits)
  then show "0 \<le> ?off" "i < n \<Longrightarrow> file_byte (fst (f_dev t)) (nat ?off + i) = b i"
    using off by (simp_all add: blit_def)
qed

lemma wtfs_frame:
  assumes "wtfs bno n b s = (Inr (), t)" "int p < f_base s + bno * 1024 \<or> f_base s + bno * 1024 + int n \<le> int p"
  shows "file_byte (fst (f_dev t)) p = file_byte (fst (f_dev s)) p"
proof (cases "f_nflag s \<or> n = 0")
  case True
  then show ?thesis using assms(1)
    by (auto simp: wtfs_def Let_def pwrite_def split: if_splits prod.splits sum.splits)
next
  case False
  let ?off = "f_base s + bno * 1024"
  obtain f os where dev: "f_dev s = (f, os)" by fastforce
  have off: "0 \<le> ?off" and "pwrite b n ?off (f, os) = (Inr n, f_dev t)"
    using assms(1) False dev by (auto simp: wtfs_def Let_def Format.DEV_BSIZE_def split: if_splits prod.splits)
  then have "f_dev t = (file_write f (nat ?off) n b, tick os)"
    using False by (auto simp: pwrite_def split: if_splits sum.splits)
  then show ?thesis using assms(2) off by (auto simp: dev blit_def)
qed

lemma write_inode_block_Inr:
  assumes "write_inode_block bno n b s = (Inr (), t)"
  shows "t = s\<lparr>f_dev := f_dev t\<rparr>"
    and "int p < f_base s + bno * 1024 \<or> f_base s + bno * 1024 + int n * 128 \<le> int p \<Longrightarrow>
      file_byte (fst (f_dev t)) p = file_byte (fst (f_dev s)) p"
proof -
  obtain u where u: "format_malloc s = (Inr True, u)"
    and w: "wtfs bno (n * 128) (format_swap_inodes n (clip (n * 128) b)) u = (Inr (), t)"
    using assms by (auto simp: write_inode_block_def andthen_Inr format_abort_def fail_def split: if_splits)
  have same: "u = s\<lparr>f_dev := f_dev u\<rparr>" "fst (f_dev u) = fst (f_dev s)"
    using u by (auto simp: format_malloc_def Let_def split: prod.splits)
  moreover have "t = u\<lparr>f_dev := f_dev t\<rparr>" using w by (rule wtfs_dev)
  ultimately show "t = s\<lparr>f_dev := f_dev t\<rparr>" using same(1) by (cases s, cases u, cases t) simp
  have "f_base u = f_base s" by (subst same(1)) simp
  then show "file_byte (fst (f_dev t)) p = file_byte (fst (f_dev s)) p"
    if "int p < f_base s + bno * 1024 \<or> f_base s + bno * 1024 + int n * 128 \<le> int p"
    using wtfs_frame [OF w, of p] that same(2) by simp
qed

definition inode_address :: "format_sblock \<Rightarrow> nat \<Rightarrow> int" where
  "inode_address fs c =
     (m_fpg fs * int c + m_cgoffset fs * (int c AND NOT (m_cgmask fs)) + m_iblkno fs) * 2 ^ nat (m_fsbtodb fs)"

definition cg_address :: "format_sblock \<Rightarrow> nat \<Rightarrow> int" where
  "cg_address fs c = (m_fpg fs * int c + m_cgoffset fs * (int c AND NOT (m_cgmask fs)) + m_cblkno fs) * 2 ^ nat (m_fsbtodb fs)"

lemma group_room_counts:
  "group_room fs c \<Longrightarrow> 0 \<le> m_cssize fs \<and> m_fpg fs * int c < m_size fs"
  by (simp add: group_room_def)

lemma initcg_runs:
  assumes run: "initcg c s = (Inr (), t)" and fs: "geometry_sound (f_sblock s)"
    and counts: "0 \<le> m_cssize (f_sblock s) \<and> m_fpg (f_sblock s) * int c < m_size (f_sblock s)"
  shows "\<exists>new. group_map (f_sblock s) c (int (copy_start (f_sblock s) c)) (int (free_start (f_sblock s) c))
      (int (group_size (f_sblock s) c)) (group_prepared (f_sblock s) c (f_utime s) (f_acg s)) = Some new \<and>
    f_acg t = new \<and> f_csums t = blit (f_csums s) (c * 16) 16 (\<lambda>i. new (24 + i)) \<and>
    (\<not> f_nflag s \<longrightarrow> (\<forall>i<nat (m_bsize (f_sblock s)).
      file_byte (fst (f_dev t)) (nat (f_base s + cg_address (f_sblock s) c * 1024) + i) = format_swap_cg new i)) \<and>
    (\<exists>x. f_sblock t = add_group_totals new ((f_sblock s)\<lparr>m_dsize := x\<rparr>)) \<and>
    f_base t = f_base s \<and> f_nflag t = f_nflag s \<and> f_utime t = f_utime s \<and>
    (\<forall>p. (int p < f_base s + inode_address (f_sblock s) c * 1024 \<or>
        f_base s + inode_address (f_sblock s) c * 1024 + m_ipg (f_sblock s) * 128 \<le> int p) \<and>
      (int p < f_base s + cg_address (f_sblock s) c * 1024 \<or>
        f_base s + cg_address (f_sblock s) c * 1024 + m_bsize (f_sblock s) \<le> int p) \<longrightarrow>
      file_byte (fst (f_dev t)) p = file_byte (fst (f_dev s)) p)"
proof -
  let ?fs = "f_sblock s"
  let ?size = "min (m_fpg ?fs * int c + m_fpg ?fs) (m_size ?fs) - m_fpg ?fs * int c"
  have cs: "0 \<le> m_cssize ?fs" "m_fpg ?fs * int c < m_size ?fs" using counts by simp_all
  have "0 < m_fpg ?fs" using fs by (simp add: geometry_sound_def)
  then have size: "int (group_size ?fs c) = ?size" using cs by (simp add: group_size_def)
  note starts = layout_starts(3,4) [OF fs cs(1), of c]
  have bsize: "0 < nat (m_bsize ?fs)"
    using fs frags_ok_bounds [of ?fs] by (auto simp: geometry_sound_def frag_of_def intro: mult_pos_pos)
  let ?acg = "group_inodes ?fs c (group_header ?fs c ?size (f_utime s) (f_acg s))"
  have ipg: "\<not> (m_ipg ?fs < 0 \<or> MAXIPG < m_ipg ?fs)" using fs by (auto simp: geometry_sound_def)
  let ?up = "m_fpg ?fs * int c + data_start ?fs (int c) - m_fpg ?fs * int c"
  let ?low = "m_fpg ?fs * int c + m_cgoffset ?fs * (int c AND NOT (m_cgmask ?fs)) + m_sblkno ?fs - m_fpg ?fs * int c"
  let ?dup = "if c = 0 then ?up + ceil_div (m_cssize ?fs) (m_fsize ?fs) else ?up"
  obtain u new where
    inodes: "write_inode_block (inode_address ?fs c) (nat (m_ipg ?fs)) (\<lambda>_. 0) (s\<lparr>f_acg := ?acg\<rparr>) = (Inr (), u)"
    and map: "group_map ?fs c ?low ?dup ?size (clear_rotation (f_acg u)) = Some new"
    and cg: "write_cg_block (cg_address ?fs c) (u\<lparr>f_acg := new, f_sblock := add_group_totals new
        ((f_sblock u)\<lparr>m_dsize := m_dsize (f_sblock u) + (if c = 0 then 0 else ?low) + (?size - ?dup)\<rparr>),
        f_csums := blit (f_csums u) (c * 16) 16 (\<lambda>i. new (24 + i))\<rparr>) = (Inr (), t)"
    using run ipg unfolding initcg_def Let_def cg_address_def inode_address_def
    by (clarsimp simp: andthen_Inr i32_Inr fail_def split: option.splits split del: if_split dest!: addresses_Inr)
  have dl: "?low = int (copy_start ?fs c)" "?dup = int (free_start ?fs c)" using starts by simp_all
  obtain d where u: "u = s\<lparr>f_acg := ?acg, f_dev := d\<rparr>" using write_inode_block_Inr(1) [OF inodes] by blast
  have acg: "f_acg u = ?acg" "f_csums u = f_csums s" "f_sblock u = ?fs" "f_base u = f_base s" "f_nflag u = f_nflag s"
    by (simp_all add: u)
  let ?v = "u\<lparr>f_acg := new, f_sblock := add_group_totals new
        ((f_sblock u)\<lparr>m_dsize := m_dsize (f_sblock u) + (if c = 0 then 0 else ?low) + (?size - ?dup)\<rparr>),
        f_csums := blit (f_csums u) (c * 16) 16 (\<lambda>i. new (24 + i))\<rparr>"
  have w: "wtfs (cg_address ?fs c) (nat (m_bsize ?fs)) (format_swap_cg new) ?v = (Inr (), t)"
    using cg by (simp add: write_cg_block_def andthen_Inr add_group_totals_def acg fail_def split: if_splits)
  obtain d' where t: "t = ?v\<lparr>f_dev := d'\<rparr>" using wtfs_dev [OF w] by blast
  have "f_acg t = new" "f_csums t = blit (f_csums s) (c * 16) 16 (\<lambda>i. new (24 + i))"
    by (simp_all add: t acg(2))
  moreover have "file_byte (fst (f_dev t)) (nat (f_base s + cg_address ?fs c * 1024) + i) = format_swap_cg new i"
    if "\<not> f_nflag s" "i < nat (m_bsize ?fs)" for i
    using wtfs_Inr(2) [OF w bsize _ that(2)] that(1) by (simp add: acg)
  moreover have "f_sblock t = add_group_totals new (?fs\<lparr>m_dsize :=
      m_dsize ?fs + (if c = 0 then 0 else ?low) + (?size - ?dup)\<rparr>)"
    "f_base t = f_base s" "f_nflag t = f_nflag s" "f_utime t = f_utime s"
    by (simp_all add: t u)
  moreover have "file_byte (fst (f_dev t)) p = file_byte (fst (f_dev s)) p"
    if "int p < f_base s + inode_address ?fs c * 1024 \<or>
        f_base s + inode_address ?fs c * 1024 + m_ipg ?fs * 128 \<le> int p"
      and "int p < f_base s + cg_address ?fs c * 1024 \<or> f_base s + cg_address ?fs c * 1024 + m_bsize ?fs \<le> int p" for p
  proof -
    have "file_byte (fst (f_dev t)) p = file_byte (fst (f_dev u)) p"
      using wtfs_frame [OF w, of p] that(2) bsize by (simp add: acg)
    also have "\<dots> = file_byte (fst (f_dev s)) p"
      using write_inode_block_Inr(2) [OF inodes, of p] that(1) ipg by (simp add: not_less)
    finally show ?thesis .
  qed
  ultimately show ?thesis
    using map unfolding dl acg(1) size [symmetric] group_prepared_def by (intro exI [of _ new] conjI) auto
qed

lemmas initcg_Inr = initcg_runs [OF _ _ group_room_counts]

section \<open>A first group without room\<close>

text \<open>When the metadata of group 0, rounded to blocks, goes beyond its end, the fragments behind the end are free.\<close>

lemma group_map_overrun:
  assumes fs: "frags_ok fs" and lower: "dlower = L * frag_of fs" "dlower \<le> dupper"
    and run: "group_map fs 0 (int dlower) (int dupper) (int ndblk) b = Some new"
    and k: "dupper \<le> k" "ndblk \<le> k" "k < (dupper + frag_of fs - 1) div frag_of fs * frag_of fs"
  shows "free_map new k"
proof -
  let ?F = "frag_of fs"
  have pos: "0 < ?F" using frags_ok_bounds [OF fs] by auto
  have steps: "block_steps ?F 0 dlower = L"
    using div_nat_eqI [of ?F L "L * ?F + ?F - 1"] pos by (simp add: block_steps_def lower(1) algebra_simps)
  obtain b1 e b2 where b2: "map_reserved fs (L * ?F) dupper b1 = (e, b2)" and data: "map_data fs e ndblk b2 = Some new"
    using run by (auto simp: group_map_def Let_def frag_of_def [symmetric] steps split: if_splits option.splits prod.splits)
  obtain m' where m': "e = m' * ?F" "dupper \<le> e" "e < dupper + ?F"
    "\<forall>k<e. free_map b2 k \<longleftrightarrow> k < L * ?F \<and> free_map b1 k \<or> dupper \<le> k"
    using map_reserved_done [OF fs lower(2) [unfolded lower(1)] b2] by blast
  have "(dupper + ?F - 1) div ?F = m'"
    by (rule div_nat_eqI) (use m'(1-3) pos in \<open>auto simp: algebra_simps\<close>)
  then have k': "k < e" using k(3) m'(1) by simp
  then have "ndblk \<le> e" using k(2) by simp
  then have "new = fold (format_clrblock fs) [e div ?F..<nat (MAXBPG fs)] b2"
    using data by (simp add: map_data_def Let_def frag_of_def [symmetric] block_list_def)
  then have "free_map new k = free_map b2 k" using clear_rest_map(1) [OF fs, of k "e div ?F"] k' m'(1) pos by simp
  then show ?thesis using m'(4) k' k(1) by blast
qed

end
