(* ===== verification/FormatSound.thy ===== *)
theory FormatSound
  imports FormatGroup
begin

text \<open>
  The geometry that \<open>nextufs_format\<close> computes is sound: each step of the computation establishes its part.
\<close>

section \<open>Powers of two\<close>

lemma power_of_two:
  fixes x :: int
  assumes "0 < x" "x AND (x - 1) = 0"
  shows "\<exists>k. x = 2 ^ k"
  using assms
proof (induction "nat x" arbitrary: x rule: less_induct)
  case less
  show ?case
  proof (cases "even x")
    case False
    then obtain y where y: "x = 2 * y + 1" by (elim oddE)
    have "x AND (x - 1) = x - 1" by (subst and_int_rec) (simp add: y)
    then have "x = 2 ^ 0" using less.prems by simp
    then show ?thesis ..
  next
    case True
    then obtain y where y: "x = 2 * y" by blast
    have "(2 * y - 1) div 2 = y - 1" by linarith
    then have "x AND (x - 1) = 2 * (y AND (y - 1))" by (subst and_int_rec) (simp add: y)
    then obtain k where "y = 2 ^ k" using less.hyps [of y] less.prems y by auto
    then have "x = 2 ^ Suc k" by (simp add: y)
    then show ?thesis ..
  qed
qed

lemma POWEROF2_Inr:
  "POWEROF2 x s = (Inr True, t) \<Longrightarrow> 0 < x \<Longrightarrow> \<exists>k. x = 2 ^ k"
  "POWEROF2 x s = (Inr p, t) \<Longrightarrow> t = s"
  by (auto simp: POWEROF2_def andthen_Inr i32_Inr ret_def intro: power_of_two)

lemma shift_count_power: "shift_count (2 ^ k) = int k"
proof (induction k)
  case (Suc k)
  have "(1 :: int) < 2 ^ Suc k" by (rule one_less_power) simp_all
  then show ?case using Suc by (simp add: shift_count.simps [of "2 * 2 ^ k"])
qed (simp add: shift_count.simps)

lemma small_powers: "(2 :: int) ^ k \<le> 8 \<Longrightarrow> (2 :: int) ^ k \<in> {1, 2, 4, 8}"
proof -
  assume "(2 :: int) ^ k \<le> 8"
  then have "(2 :: int) ^ k \<le> 2 ^ 3" by simp
  then have "k \<le> 3" by (simp only: power_increasing_iff)
  then consider "k = 0" | "k = 1" | "k = 2" | "k = 3" by linarith
  then show ?thesis by cases simp_all
qed

section \<open>The steps\<close>

lemma geometry_disk_Inr:
  "geometry_disk opts fs s = (Inr gs, t) \<Longrightarrow>
    \<exists>nsect ntrak. gs = fs\<lparr>m_nsect := nsect, m_ntrak := ntrak, m_spc := ntrak * nsect\<rparr> \<and> 0 < nsect \<and> 0 < ntrak \<and>
      ntrak * nsect < 2 ^ 31"
  by (intro exI [of _ "fo_nsect opts"] exI [of _ "fo_ntrak opts"])
    (auto simp: geometry_disk_def Let_def andthen_Inr i32_Inr format_exit_def fail_def ret_def split: if_splits)

text \<open>The sizes are \<open>2 ^ a\<close> and \<open>2 ^ b\<close>.\<close>

lemma geometry_blocks_Inr:
  assumes "geometry_blocks opts fs s = (Inr gs, t)"
  shows "\<exists>a b. fo_bsize opts = 2 ^ a \<and> 12 \<le> a \<and> 10 \<le> b \<and> b \<le> a \<and> a \<le> b + 3 \<and>
    gs = fs\<lparr>m_bsize := 2 ^ a, m_fsize := 2 ^ b, m_bmask := NOT (2 ^ a - 1), m_fmask := NOT (2 ^ b - 1),
      m_bshift := int a, m_fshift := int b, m_frag := 2 ^ (a - b), m_fragshift := int (a - b),
      m_nindir := 2 ^ a div 4, m_inopb := 2 ^ (a - 7), m_nspf := 2 ^ (b - 10), m_fsbtodb := int (b - 10)\<rparr>"
proof -
  let ?bs = "fo_bsize opts" and ?fz = "fo_fsize opts"
  let ?frag = "?bs div 2 ^ nat (shift_count ?fz)"
  obtain u v where p: "POWEROF2 ?bs s = (Inr True, u)" "POWEROF2 ?fz u = (Inr True, v)"
    and c: "1024 \<le> ?fz" "4096 \<le> ?bs" "?fz \<le> ?bs" "?frag \<le> 8"
    and gs: "gs = fs\<lparr>m_bsize := ?bs, m_fsize := ?fz, m_bmask := NOT (?bs - 1), m_fmask := NOT (?fz - 1),
        m_bshift := shift_count ?bs, m_fshift := shift_count ?fz, m_frag := ?frag,
        m_fragshift := shift_count ?frag, m_nindir := ?bs div 4, m_inopb := ?bs div sizeof_dinode,
        m_nspf := ?fz div Format.DEV_BSIZE, m_fsbtodb := shift_count (?fz div Format.DEV_BSIZE)\<rparr>"
    using assms
    by (auto simp: geometry_blocks_def Let_def andthen_Inr format_exit_def fail_def ret_def Format.DEV_BSIZE_def
        MINBSIZE_def MAXFRAG_def split: if_splits)
  obtain a where a: "?bs = 2 ^ a" using POWEROF2_Inr(1) [OF p(1)] c(2) by fastforce
  obtain b where b: "?fz = 2 ^ b" using POWEROF2_Inr(1) [OF p(2)] c(1) by fastforce
  have "(2 :: int) ^ 12 \<le> 2 ^ a" "(2 :: int) ^ 10 \<le> 2 ^ b" "(2 :: int) ^ b \<le> 2 ^ a" using c a b by simp_all
  then have ab: "12 \<le> a" "10 \<le> b" "b \<le> a" by (simp_all only: power_increasing_iff)
  have quot: "(2 :: int) ^ m div 2 ^ n = 2 ^ (m - n)" if "n \<le> m" for m n
    using that by (simp add: power_diff)
  have frag: "?frag = 2 ^ (a - b)" by (simp add: a b shift_count_power quot ab)
  with c(4) have "(2 :: int) ^ (a - b) \<le> 2 ^ 3" by simp
  then have "a - b \<le> 3" by (simp only: power_increasing_iff)
  moreover have "?bs div 128 = 2 ^ (a - 7)" "?fz div 1024 = 2 ^ (b - 10)"
    using quot [of 7 a] quot [of 10 b] ab by (simp_all add: a b)
  moreover have "shift_count ?frag = int (a - b)" "shift_count ?bs = int a" "shift_count ?fz = int b"
    unfolding frag by (simp_all only: a b shift_count_power)
  moreover have "shift_count (?fz div 1024) = int (b - 10)" using calculation(3) by (simp only: shift_count_power)
  ultimately have "gs = fs\<lparr>m_bsize := 2 ^ a, m_fsize := 2 ^ b, m_bmask := NOT (2 ^ a - 1), m_fmask := NOT (2 ^ b - 1),
      m_bshift := int a, m_fshift := int b, m_frag := 2 ^ (a - b), m_fragshift := int (a - b),
      m_nindir := 2 ^ a div 4, m_inopb := 2 ^ (a - 7), m_nspf := 2 ^ (b - 10), m_fsbtodb := int (b - 10)\<rparr>"
    by (simp only: gs frag sizeof_dinode_def Format.DEV_BSIZE_def) (simp add: a b quot ab)
  moreover have "a \<le> b + 3" using \<open>a - b \<le> 3\<close> by simp
  ultimately show ?thesis using a ab by blast
qed


text \<open>Rounding up.\<close>

lemma roundup_dvd [simp]: "y dvd roundup x y"
  by (simp add: roundup_def)

lemma roundup_nonneg: "0 \<le> x \<Longrightarrow> 0 < y \<Longrightarrow> 0 \<le> roundup x y"
  by (simp add: roundup_def pos_imp_zdiv_nonneg_iff)

lemma ceil_div_nonneg: "0 \<le> x \<Longrightarrow> 0 < y \<Longrightarrow> 0 \<le> ceil_div x y"
  by (simp add: ceil_div_def pos_imp_zdiv_nonneg_iff)

lemma cpc_loop_pos: "1 \<le> c \<Longrightarrow> 1 \<le> cpc_loop c i"
proof (induction c i rule: cpc_loop.induct)
  case (1 c i)
  show ?case
  proof (cases "1 < c \<and> even i")
    case True
    then have "1 \<le> cpc_loop (c div 2) (i div 2)" by (intro "1.IH") linarith+
    then show ?thesis using True by (subst cpc_loop.simps) simp
  next
    case False
    then have "cpc_loop c i = c" by (subst cpc_loop.simps) auto
    then show ?thesis using "1.prems" by simp
  qed
qed

lemma shift_count_less: "i < 2 ^ n \<Longrightarrow> 0 < n \<Longrightarrow> 0 \<le> shift_count i \<and> shift_count i < int n"
proof (induction i arbitrary: n rule: shift_count.induct)
  case (1 i)
  show ?case
  proof (cases "1 < i")
    case True
    then obtain m where m: "n = Suc m" "0 < m" using "1.prems" by (cases n; cases "n - 1") auto
    then have "i div 2 < 2 ^ m" using "1.prems"(1) by simp
    then show ?thesis using "1.IH" [OF True, of m] True m by (simp add: shift_count.simps [of i])
  qed (use "1.prems"(2) in \<open>simp add: shift_count.simps [of i]\<close>)
qed

lemma cg_mask_power: "ntrak < 2 ^ 31 \<Longrightarrow> \<exists>k. cg_mask ntrak p = - (2 ^ k)"
proof -
  assume "ntrak < 2 ^ 31"
  then have "0 \<le> shift_count ntrak" "shift_count ntrak < 31" using shift_count_less [of ntrak 31] by simp_all
  then have "nat (shift_count ntrak + (if p then 0 else 1)) \<le> 31" by (cases p) simp_all
  then obtain k where k: "nat (shift_count ntrak + (if p then 0 else 1)) = k" "k \<le> 31" by blast
  have "(2 :: int) ^ k \<le> 2 ^ 31" using k(2) by (intro power_increasing) simp_all
  moreover have "(0 :: int) < 2 ^ k" by simp
  ultimately have "cg_mask ntrak p = - (2 ^ k)" unfolding cg_mask_def k(1) by (intro s32_id; linarith)
  then show ?thesis ..
qed

lemma geometry_layout_Inr:
  assumes "geometry_layout fs s = (Inr gs, t)" "0 < m_nsect fs" "0 < m_frag fs" "1024 \<le> m_fsize fs" "0 < m_nspf fs"
  shows "\<exists>copy group inodes off p cpc.
    gs = fs\<lparr>m_sblkno := copy, m_cblkno := group, m_iblkno := inodes, m_cgoffset := off,
      m_cgmask := cg_mask (m_ntrak fs) p, m_cpc := cpc\<rparr> \<and>
    m_frag fs dvd copy \<and> 0 \<le> copy \<and> copy \<le> inodes \<and> copy \<le> group \<and> inodes = group + m_frag fs \<and> m_frag fs dvd inodes \<and> m_frag fs dvd off \<and> 0 \<le> off \<and> 1 \<le> cpc"
proof -
  let ?copy = "roundup (ceil_div (BBSIZE + SBSIZE) (m_fsize fs)) (m_frag fs)"
  let ?group = "?copy + roundup (ceil_div SBSIZE (m_fsize fs)) (m_frag fs)"
  let ?off = "roundup (ceil_div (m_nsect fs) (m_fsize fs div Format.DEV_BSIZE)) (m_frag fs)"
  obtain p where gs: "gs = fs\<lparr>m_sblkno := ?copy, m_cblkno := ?group, m_iblkno := ?group + m_frag fs, m_cgoffset := ?off,
      m_cgmask := cg_mask (m_ntrak fs) p, m_cpc := cpc_loop (NSPB fs) (m_spc fs)\<rparr>"
    using assms(1)
    by (auto simp: geometry_layout_def Let_def andthen_Inr format_exit_def fail_def ret_def split: if_splits)
  have "0 \<le> ?copy" "0 \<le> roundup (ceil_div SBSIZE (m_fsize fs)) (m_frag fs)"
    using assms(3,4) by (intro roundup_nonneg ceil_div_nonneg; simp add: BBSIZE_def SBSIZE_def)+
  moreover have "0 < m_fsize fs div Format.DEV_BSIZE"
    using assms(4) by (simp add: Format.DEV_BSIZE_def pos_imp_zdiv_pos_iff)
  then have "0 \<le> ?off" using assms(2,3) by (intro roundup_nonneg ceil_div_nonneg) simp_all
  moreover have "m_nspf fs * 1 \<le> NSPB fs" unfolding NSPB_def by (rule mult_left_mono) (use assms(5) in simp_all)
  then have "1 \<le> cpc_loop (NSPB fs) (m_spc fs)" using assms(5) by (intro cpc_loop_pos) linarith
  ultimately show ?thesis using gs assms(3) by fastforce
qed

lemma group_fragments_Inr: "group_fragments fs cyls s = (Inr x, t) \<Longrightarrow> x = cyls * m_spc fs div m_nspf fs"
  by (auto simp: group_fragments_def andthen_Inr i32_Inr ret_def)

lemma group_loop_Inr:
  "group_loop fs cyls fpg s = (Inr (k, x), t) \<Longrightarrow> fpg = cyls * m_spc fs div m_nspf fs \<Longrightarrow>
    x = k * m_spc fs div m_nspf fs"
proof (induction fs cyls fpg arbitrary: s rule: group_loop.induct)
  case (1 fs cyls fpg)
  show ?case
  proof (cases "MAXBPG fs < fpg div m_frag fs \<and> m_cpc fs < cyls \<and> 0 < m_cpc fs")
    case True
    then obtain y u where y: "group_fragments fs (cyls - m_cpc fs) s = (Inr y, u)"
      and r: "group_loop fs (cyls - m_cpc fs) y u = (Inr (k, x), t)"
      using "1.prems"(1) by (subst (asm) group_loop.simps) (auto simp: andthen_Inr)
    show ?thesis by (rule "1.IH" [OF True r group_fragments_Inr [OF y]])
  next
    case False
    then show ?thesis using "1.prems" by (subst (asm) group_loop.simps) (auto simp: ret_def)
  qed
qed

lemma geometry_groups_Inr:
  "geometry_groups opts fs s = (Inr gs, t) \<Longrightarrow>
    \<exists>cyls. gs = fs\<lparr>m_cpg := cyls, m_fpg := cyls * m_spc fs div m_nspf fs\<rparr> \<and> 1 \<le> cyls \<and> cyls \<le> 32"
  by (auto simp: geometry_groups_def andthen_Inr format_exit_def fail_def ret_def Format.MAXCPG_def
      split: if_splits dest!: group_fragments_Inr group_loop_Inr)

text \<open>Quotients of C where nothing is negative.\<close>

lemma sdiv_nonneg: "0 \<le> x \<Longrightarrow> 0 < y \<Longrightarrow> x sdiv y = x div (y :: int)"
  by (auto simp: signed_divide_int_def sgn_if)

lemma sdiv_neg: "x \<le> 0 \<Longrightarrow> 0 < y \<Longrightarrow> x sdiv y \<le> (0 :: int)"
  by (auto simp: signed_divide_int_def sgn_if pos_imp_zdiv_nonneg_iff)

lemma quotient_le: "0 < y \<Longrightarrow> x div y * y \<le> (x :: int)"
  by (simp flip: minus_mod_eq_div_mult)

lemma quotient_bounds:
  fixes x y :: int
  assumes "0 \<le> x" "0 < y"
  shows "0 \<le> x div y" "x div y \<le> x" "x div y * y \<le> x" "x < (x div y + 1) * y"
proof -
  have "x = x div y * y + x mod y" by simp
  then show "x div y * y \<le> x" "x < (x div y + 1) * y"
    using pos_mod_bound [OF assms(2), of x] pos_mod_sign [OF assms(2), of x] unfolding distrib_right mult_1
    by linarith+
  show "0 \<le> x div y" using assms by (simp add: pos_imp_zdiv_nonneg_iff)
  then have "x div y * 1 \<le> x div y * y" using assms(2) by (intro mult_left_mono) simp_all
  with \<open>x div y * y \<le> x\<close> show "x div y \<le> x" by simp
qed

lemma rounded_up_bounds:
  fixes x y :: int
  assumes "0 \<le> x" "0 < y"
  shows "x \<le> (if x mod y \<noteq> 0 then x div y + 1 else x div y) * y"
    "0 < x \<Longrightarrow> ((if x mod y \<noteq> 0 then x div y + 1 else x div y) - 1) * y < x"
proof -
  have x: "x = x div y * y + x mod y" by simp
  show "x \<le> (if x mod y \<noteq> 0 then x div y + 1 else x div y) * y"
  proof (cases "x mod y = 0")
    case True
    then show ?thesis using x by simp
  next
    case False
    then show ?thesis using quotient_bounds(4) [OF assms] by simp
  qed
  show "((if x mod y \<noteq> 0 then x div y + 1 else x div y) - 1) * y < x" if "0 < x"
  proof (cases "x mod y = 0")
    case True
    then show ?thesis using x that assms(2) by (simp add: left_diff_distrib)
  next
    case False
    then have "0 < x mod y" using pos_mod_sign [OF assms(2), of x] by linarith
    then have "x div y * y < x" using x by linarith
    then show ?thesis using False by simp
  qed
qed

text \<open>No computed size wraps around for a size of the formatter: the cylinders cover all fragments.\<close>

lemma geometry_size_Inr:
  assumes run: "geometry_size (int n) fs s = (Inr (gs, fz), t)" and n: "int n \<le> FORMAT_COMPAT_MAX_SECTORS"
    and spc: "0 < m_spc fs" and nspf: "m_nspf fs = 2 ^ nat (m_fsbtodb fs)"
  shows "\<exists>ncy. gs = fs\<lparr>m_size := fz, m_ncyl := ncy\<rparr> \<and> fz = int n div m_nspf fs \<and> fz * m_nspf fs \<le> ncy * m_spc fs \<and>
    1 \<le> ncy \<and> (ncy - 1) * m_spc fs < fz * m_nspf fs"
proof -
  let ?fz = "int n div m_nspf fs" and ?spc = "m_spc fs"
  let ?total = "?fz * m_nspf fs"
  let ?q = "?total div ?spc"
  have pos: "0 < m_nspf fs" by (simp add: nspf)
  note fz = quotient_bounds [of "int n", OF _ pos, simplified]
  have total: "0 \<le> ?total" using fz(1) pos by simp
  note q = quotient_bounds [OF total spc]
  have small: "int n < 2 ^ 31" using n by (simp add: FORMAT_COMPAT_MAX_SECTORS_def)
  have s32: "s32 ?fz = ?fz" "s32 ?q = ?q" using fz q small by (intro s32_id; linarith)+
  have "?total = ?q * ?spc + ?total mod ?spc" by simp
  then have less: "?q * ?spc < ?total \<longleftrightarrow> ?total mod ?spc \<noteq> 0" using pos_mod_sign [OF spc, of ?total] by linarith
  let ?n = "if ?total mod ?spc \<noteq> 0 then ?q + 1 else ?q"
  have "gs = fs\<lparr>m_size := ?fz, m_ncyl := ?n\<rparr> \<and> fz = ?fz \<and> 1 \<le> ?n"
    using run by (auto simp: geometry_size_def Let_def dbtofsb_def andthen_Inr i32_Inr format_exit_def fail_def ret_def
        s32 sdiv_nonneg [OF total spc] less simp flip: nspf split: if_splits)
  moreover have "0 < ?total"
  proof (rule ccontr)
    assume "\<not> 0 < ?total"
    then have "?total = 0" using total by linarith
    then have "?n = 0" by (simp only: div_0 mod_0) simp
    with calculation show False by linarith
  qed
  moreover note rounded_up_bounds [OF total spc]
  ultimately show ?thesis by blast
qed

lemma fold_rotation: "\<exists>rot pos. fold add_rotation ks fs = fs\<lparr>m_rotbl := rot, m_postbl := pos\<rparr>"
proof (induction ks arbitrary: fs)
  case (Cons k ks)
  obtain rot pos where "add_rotation k fs = fs\<lparr>m_rotbl := rot, m_postbl := pos\<rparr>"
    by (simp add: add_rotation_def Let_def)
  then show ?case using Cons [of "add_rotation k fs"] by fastforce
next
  case Nil
  have "fold add_rotation [] fs = fs\<lparr>m_rotbl := m_rotbl fs, m_postbl := m_postbl fs\<rparr>" by simp
  then show ?case by blast
qed

lemma geometry_tables_Inr:
  "geometry_tables fs s = (Inr gs, t) \<Longrightarrow> \<exists>cpc rot pos. gs = fs\<lparr>m_cpc := cpc, m_rotbl := rot, m_postbl := pos\<rparr>"
proof -
  assume run: "geometry_tables fs s = (Inr gs, t)"
  obtain rot pos where fold: "fold add_rotation (cycle_blocks fs) (fs\<lparr>m_postbl := \<lambda>_. - 1\<rparr>) =
      fs\<lparr>m_postbl := \<lambda>_. - 1, m_rotbl := rot, m_postbl := pos\<rparr>"
    using fold_rotation [of "cycle_blocks fs" "fs\<lparr>m_postbl := \<lambda>_. - 1\<rparr>"] by blast
  from run consider "gs = fs\<lparr>m_cpc := 0\<rparr>" | "gs = fold add_rotation (cycle_blocks fs) (fs\<lparr>m_postbl := \<lambda>_. - 1\<rparr>)"
    by (auto simp: geometry_tables_def andthen_Inr ret_def split: if_splits)
  then show ?thesis
  proof cases
    case 1
    then have "gs = fs\<lparr>m_cpc := 0, m_rotbl := m_rotbl fs, m_postbl := m_postbl fs\<rparr>" by simp
    then show ?thesis by blast
  next
    case 2
    then have "gs = fs\<lparr>m_cpc := m_cpc fs, m_rotbl := rot, m_postbl := pos\<rparr>" by (simp add: fold)
    then show ?thesis by blast
  qed
qed

lemma geometry_limits_Inr:
  assumes "geometry_limits fs s = (Inr gs, t)" "1 \<le> m_cpg fs" "1 \<le> m_ncyl fs"
  shows "\<exists>cgsize ncg. gs = fs\<lparr>m_cgsize := cgsize, m_ncg := ncg\<rparr> \<and> m_fpg fs \<le> MAXBPG fs * m_frag fs \<and>
    m_spc fs * m_cpg fs mod m_nspf fs = 0 \<and> m_ncyl fs \<le> ncg * m_cpg fs \<and> 1 \<le> ncg \<and> (ncg - 1) * m_cpg fs < m_ncyl fs"
proof -
  define n where "n = (if m_ncyl fs mod m_cpg fs \<noteq> 0 then m_ncyl fs div m_cpg fs + 1 else m_ncyl fs div m_cpg fs)"
  have "gs = fs\<lparr>m_cgsize := fragroundup fs (sizeof_cg + ceil_div (m_fpg fs) 8), m_ncg := n\<rparr>"
    and "m_fpg fs \<le> MAXBPG fs * m_frag fs" "m_spc fs * m_cpg fs mod m_nspf fs = 0"
    using assms(1) unfolding n_def
    by (auto simp: geometry_limits_def Let_def andthen_Inr i32_Inr format_exit_def fail_def ret_def split: if_splits)
  moreover have n: "m_ncyl fs \<le> n * m_cpg fs" "(n - 1) * m_cpg fs < m_ncyl fs"
    using rounded_up_bounds [of "m_ncyl fs" "m_cpg fs"] assms(2,3) by (simp_all add: n_def)
  moreover have "1 \<le> n"
  proof (rule ccontr)
    assume "\<not> 1 \<le> n"
    then have "n * m_cpg fs \<le> 0" using assms(2) by (intro mult_nonpos_nonneg) simp_all
    then show False using n(1) assms(3) by linarith
  qed
  ultimately show ?thesis by (intro exI conjI)
qed

lemma i64_Inr: "i64 x s = (Inr y, t) \<longleftrightarrow> - (2 ^ 63) \<le> x \<and> x < 2 ^ 63 \<and> y = x \<and> t = s"
  by (auto simp: i64_def ret_def fail_def)

text \<open>The inodes of a group fill whole blocks, and there are at least two of them.\<close>

lemma geometry_inodes_Inr:
  assumes run: "geometry_inodes opts fz fs s = (Inr gs, t)"
    and inopb: "m_inopb fs = 2 ^ e" "1 \<le> e" "e \<le> 6"
    and ncg: "1 \<le> m_ncg fs" and frag: "m_fragshift fs = int g" "g \<le> e"
    and start: "0 \<le> m_iblkno fs" and fsize: "1 \<le> m_fsize fs" "m_fsize fs \<le> 8192"
    and cover: "fz \<le> m_ncg fs * m_fpg fs" and fpg: "m_fpg fs \<le> 65536"
  shows "\<exists>ipg. gs = fs\<lparr>m_ipg := ipg, m_dblkno := m_iblkno fs + ipg div 2 ^ (e - g)\<rparr> \<and>
    2 ^ e dvd ipg \<and> 2 \<le> ipg \<and> ipg \<le> 2048"
proof -
  define density where "density = (if 0 < fo_nbpi opts then fo_nbpi opts else max NBPI (m_fsize fs))"
  define bytes where "bytes = (fz - m_ncg fs * (m_iblkno fs + MAXIPG div INOPF fs)) * m_fsize fs"
  define wanted where "wanted = (let n = bytes sdiv density sdiv m_inopb fs in if n \<le> 0 then 1 else n)"
  define blocks where "blocks = wanted div m_ncg fs + 1"
  have inopf: "INOPF fs = 2 ^ (e - g)" using frag by (simp add: INOPF_def inopb(1) power_diff)
  have density: "1 \<le> density" by (auto simp: density_def NBPI_def)
  have wanted: "1 \<le> wanted" by (simp add: wanted_def Let_def)
  have used: "wanted = 1 \<or> wanted * m_inopb fs \<le> bytes"
  proof (cases "0 \<le> bytes")
    case True
    note d = quotient_bounds [OF True, of density] and b = quotient_bounds [of "bytes div density" "m_inopb fs"]
    have "bytes div density div m_inopb fs * m_inopb fs \<le> bytes" using b(3) d(1,2) density inopb(1) by simp
    then show ?thesis using d(1) density inopb(1)
      by (auto simp: wanted_def Let_def sdiv_nonneg [OF True] sdiv_nonneg)
  next
    case False
    then have "bytes sdiv density sdiv m_inopb fs \<le> 0" using density inopb(1) by (intro sdiv_neg) simp_all
    then show ?thesis by (simp add: wanted_def)
  qed
  let ?q = "wanted div m_ncg fs"
  have q: "0 \<le> ?q" "?q \<le> wanted" "?q * m_ncg fs \<le> wanted"
    using quotient_bounds [of wanted "m_ncg fs"] wanted ncg by simp_all
  have power: "(2 :: int) ^ 1 \<le> 2 ^ e" "(2 :: int) ^ e \<le> 2 ^ 6" using inopb(2,3) by (intro power_increasing; simp)+
  have small: "?q * m_inopb fs \<le> 65536 * 8192"
    using used
  proof
    assume "wanted = 1"
    then have "?q * m_inopb fs \<le> 1 * m_inopb fs" using q(2) by (intro mult_right_mono) (simp_all add: inopb(1))
    also have "1 * m_inopb fs \<le> 65536 * 8192" using power(2) by (simp add: inopb(1))
    finally show ?thesis .
  next
    assume "wanted * m_inopb fs \<le> bytes"
    moreover have "?q * m_ncg fs * m_inopb fs \<le> wanted * m_inopb fs" using q(3) by (intro mult_right_mono) (simp_all add: inopb(1))
    moreover have "0 \<le> m_ncg fs * (m_iblkno fs + MAXIPG div INOPF fs)"
      using ncg start by (intro mult_nonneg_nonneg) (simp_all add: inopf Format.MAXIPG_def pos_imp_zdiv_nonneg_iff)
    then have "bytes \<le> m_ncg fs * m_fpg fs * m_fsize fs"
      unfolding bytes_def using fsize(1) cover by (intro mult_right_mono) simp_all
    ultimately have "m_ncg fs * (?q * m_inopb fs) \<le> m_ncg fs * (m_fpg fs * m_fsize fs)" by (simp add: ac_simps)
    then have "?q * m_inopb fs \<le> m_fpg fs * m_fsize fs" using ncg by simp
    also have "\<dots> \<le> 65536 * m_fsize fs" using fpg fsize(1) by (intro mult_right_mono) simp_all
    also have "\<dots> \<le> 65536 * 8192" using fsize(2) by simp
    finally show ?thesis .
  qed
  have "m_inopb fs \<le> blocks * m_inopb fs" "blocks * m_inopb fs \<le> 536870976"
    using q(1) small power unfolding blocks_def by (simp_all add: distrib_right inopb(1))
  moreover have "2 \<le> m_inopb fs" using power by (simp add: inopb(1))
  ultimately have "2 \<le> blocks * m_inopb fs" "blocks * m_inopb fs < 2147483648" by linarith+
  then have ipg: "s32 (blocks * m_inopb fs) = blocks * m_inopb fs" "2 \<le> blocks * m_inopb fs"
    by (simp_all add: s32_id)
  let ?ipg = "min (blocks * m_inopb fs) MAXIPG"
  have "gs = (let ipg = s32 ((wanted sdiv m_ncg fs + 1) * m_inopb fs); ipg = (if MAXIPG < ipg then MAXIPG else ipg) in
      fs\<lparr>m_ipg := ipg, m_dblkno := m_iblkno fs + ipg sdiv INOPF fs\<rparr>)"
    using run unfolding geometry_inodes_def Let_def density_def [symmetric] bytes_def [symmetric] wanted_def
    by (clarsimp simp: andthen_Inr i64_Inr ret_def)
  moreover have "wanted sdiv m_ncg fs = ?q" using wanted ncg by (simp add: sdiv_nonneg)
  ultimately have "gs = fs\<lparr>m_ipg := ?ipg, m_dblkno := m_iblkno fs + ?ipg sdiv INOPF fs\<rparr>"
    using ipg(1) by (simp add: blocks_def min_def Let_def)
  moreover have "?ipg sdiv INOPF fs = ?ipg div 2 ^ (e - g)"
    using ipg(2) by (simp add: inopf Format.MAXIPG_def sdiv_nonneg)
  moreover have "(2 :: int) ^ e dvd 2 ^ 11" by (rule le_imp_power_dvd) (use inopb(3) in simp)
  then have "2 ^ e dvd ?ipg" by (auto simp: min_def inopb(1) Format.MAXIPG_def)
  moreover have "2 \<le> ?ipg" "?ipg \<le> 2048" using ipg(2) by (simp_all add: Format.MAXIPG_def)
  ultimately show ?thesis by (intro exI [of _ ?ipg]) simp
qed

text \<open>The last group is kept when its data starts inside it.\<close>

lemma geometry_room_Inr:
  assumes "geometry_room fz fs s = (Inr gs, t)"
  shows "data_start fs (min (NOT (m_cgmask fs)) (m_ncg fs - 1)) < m_fpg fs"
    and "gs = fs \<and> (m_fpg fs \<le> fz - (m_ncg fs - 1) * m_fpg fs \<or>
        data_start fs (m_ncg fs - 1) \<le> fz - (m_ncg fs - 1) * m_fpg fs) \<or>
      gs = fs\<lparr>m_ncg := m_ncg fs - 1, m_ncyl := m_ncyl fs - m_ncyl fs mod m_cpg fs,
        m_size := (m_ncyl fs - m_ncyl fs mod m_cpg fs) * m_spc fs div m_nspf fs\<rparr> \<and>
      fz - (m_ncg fs - 1) * m_fpg fs < m_fpg fs"
  using assms by (auto simp: geometry_room_def Let_def andthen_Inr i32_Inr format_exit_def fail_def ret_def
      split: if_splits)

definition same_groups :: "format_sblock \<Rightarrow> format_sblock \<Rightarrow> bool" where
  "same_groups fs gs \<longleftrightarrow> m_frag gs = m_frag fs \<and> m_bsize gs = m_bsize fs \<and> m_fsize gs = m_fsize fs \<and>
     m_inopb gs = m_inopb fs \<and> m_ipg gs = m_ipg fs \<and> m_sblkno gs = m_sblkno fs \<and> m_iblkno gs = m_iblkno fs \<and>
     m_cgoffset gs = m_cgoffset fs \<and> m_cgmask gs = m_cgmask fs \<and> m_dblkno gs = m_dblkno fs \<and>
     m_fpg gs = m_fpg fs \<and> m_ncg gs = m_ncg fs \<and> m_size gs = m_size fs \<and> m_cblkno gs = m_cblkno fs \<and>
     m_fsbtodb gs = m_fsbtodb fs \<and> m_nspf gs = m_nspf fs \<and> m_nsect gs = m_nsect fs \<and> m_spc gs = m_spc fs \<and>
     m_cpg gs = m_cpg fs"

lemma geometry_summary_Inr:
  "geometry_summary opts fs s = (Inr gs, t) \<Longrightarrow>
    same_groups fs gs \<and> m_cssize gs = fragroundup fs (m_ncg fs * sizeof_csum)"
  by (auto simp: geometry_summary_def Let_def andthen_Inr ret_def same_groups_def)

section \<open>All of it\<close>

lemma block_powers:
  assumes "12 \<le> a" "(2 :: int) ^ a \<le> 8192" "10 \<le> b" "b \<le> a" "a \<le> b + 3"
  shows "a \<le> 13" "nat (2 ^ (a - b)) \<in> {1, 2, 4, 8}" "(2 :: int) ^ a = 2 ^ (a - b) * 2 ^ b"
    "1024 \<le> (2 :: int) ^ b" "(2 :: int) ^ b \<le> 8192" "8 * (2 ^ a - 988) div 2 ^ (a - b) * 2 ^ (a - b) \<le> (65536 :: int)"
proof -
  have "(2 :: int) ^ a \<le> 2 ^ 13" using assms(2) by simp
  then show a: "a \<le> 13" by (simp only: power_increasing_iff)
  have "a - b = 0 \<or> a - b = 1 \<or> a - b = 2 \<or> a - b = 3" using assms by linarith
  then show "nat (2 ^ (a - b)) \<in> {1, 2, 4, 8}" by (elim disjE) simp_all
  show "(2 :: int) ^ a = 2 ^ (a - b) * 2 ^ b" using assms(4) by (simp flip: power_add)
  have "(2 :: int) ^ 10 \<le> 2 ^ b" "(2 :: int) ^ b \<le> 2 ^ 13" using assms a by (intro power_increasing; simp)+
  then show "1024 \<le> (2 :: int) ^ b" "(2 :: int) ^ b \<le> 8192" by simp_all
  have "8 * (2 ^ a - 988) div 2 ^ (a - b) * 2 ^ (a - b) \<le> (8 * (2 ^ a - 988) :: int)"
    by (rule quotient_le) simp
  also have "\<dots> \<le> 65536" using assms(2) by simp
  finally show "8 * (2 ^ a - 988) div 2 ^ (a - b) * 2 ^ (a - b) \<le> (65536 :: int)" .
qed

text \<open>What is known of a computed geometry, before the last group is looked at.\<close>

definition layout_sound :: "format_sblock \<Rightarrow> bool" where
  "layout_sound fs \<longleftrightarrow> m_sblkno fs \<le> m_cblkno fs \<and> m_iblkno fs = m_cblkno fs + m_frag fs \<and>
     m_fsize fs = 1024 * 2 ^ nat (m_fsbtodb fs) \<and> m_nspf fs = 2 ^ nat (m_fsbtodb fs) \<and>
     m_ipg fs * 128 = (m_dblkno fs - m_iblkno fs) * m_fsize fs \<and> 0 < m_nsect fs \<and> 0 < m_spc fs \<and>
     m_fpg fs * m_nspf fs = m_cpg fs * m_spc fs \<and> 1 \<le> m_cpg fs \<and> m_cpg fs \<le> 32 \<and>
     m_ncg fs * m_fpg fs * m_nspf fs < 2 ^ 30"

definition geometry_known :: "format_sblock \<Rightarrow> int \<Rightarrow> bool" where
  "geometry_known fs fz \<longleftrightarrow> geometry_sound fs \<and> layout_sound fs \<and> m_frag fs dvd m_dblkno fs \<and> 0 < m_spc fs \<and> 0 < m_nspf fs \<and>
     0 < m_cpg fs \<and> 1 \<le> m_ncg fs \<and> m_size fs = fz \<and>
     m_fpg fs * m_nspf fs = m_cpg fs * m_spc fs \<and>
     fz * m_nspf fs \<le> m_ncyl fs * m_spc fs \<and> (m_ncyl fs - 1) * m_spc fs < fz * m_nspf fs \<and>
     m_ncyl fs \<le> m_ncg fs * m_cpg fs \<and> (m_ncg fs - 1) * m_cpg fs < m_ncyl fs \<and>
     (\<exists>k. m_cgmask fs = - (2 ^ k))"

lemma geometry_known:
  fixes s t :: 's
  assumes run: "geometry opts s = (Inr gs, t)"
    and small: "fo_bsize opts \<le> MAXBSIZE" "int (fo_size_1k_sectors opts) \<le> FORMAT_COMPAT_MAX_SECTORS"
  shows "\<exists>fs fz hs (u :: 's) v w. geometry_known fs fz \<and> geometry_room fz fs u = (Inr hs, v) \<and>
    geometry_summary opts hs v = (Inr gs, w)"
proof -
  obtain f1 s1 f2 s2 f3 s3 f4 s4 f5 fz s5 f6 s6 f7 s7 f8 s8 f9 s9 where
    g1: "geometry_disk opts blank_sblock s = (Inr f1, s1)" and g2: "geometry_blocks opts f1 s1 = (Inr f2, s2)"
    and g3: "geometry_layout f2 s2 = (Inr f3, s3)" and g4: "geometry_groups opts f3 s3 = (Inr f4, s4)"
    and g5: "geometry_size (int (fo_size_1k_sectors opts)) f4 s4 = (Inr (f5, fz), s5)"
    and g6: "geometry_tables f5 s5 = (Inr f6, s6)" and g7: "geometry_limits f6 s6 = (Inr f7, s7)"
    and g8: "geometry_inodes opts fz f7 s7 = (Inr f8, s8)" and g9: "geometry_room fz f8 s8 = (Inr f9, s9)"
    and g10: "geometry_summary opts f9 s9 = (Inr gs, t)"
    using run by (auto simp: geometry_def andthen_Inr)
  obtain nsect ntrak where f1: "f1 = blank_sblock\<lparr>m_nsect := nsect, m_ntrak := ntrak, m_spc := ntrak * nsect\<rparr>"
    and disk: "0 < nsect" "0 < ntrak" "ntrak * nsect < 2 ^ 31" using geometry_disk_Inr [OF g1] by blast
  obtain a b where ab: "fo_bsize opts = 2 ^ a" "12 \<le> a" "10 \<le> b" "b \<le> a" "a \<le> b + 3"
    and f2: "f2 = f1\<lparr>m_bsize := 2 ^ a, m_fsize := 2 ^ b, m_bmask := NOT (2 ^ a - 1), m_fmask := NOT (2 ^ b - 1),
      m_bshift := int a, m_fshift := int b, m_frag := 2 ^ (a - b), m_fragshift := int (a - b),
      m_nindir := 2 ^ a div 4, m_inopb := 2 ^ (a - 7), m_nspf := 2 ^ (b - 10), m_fsbtodb := int (b - 10)\<rparr>"
    using geometry_blocks_Inr [OF g2] by blast
  have "(2 :: int) ^ a \<le> 8192" using small(1) ab(1) by (simp add: Format.MAXBSIZE_def)
  note powers = block_powers [OF ab(2) this ab(3-5)]
  obtain copy group inodes off p cpc where
    f3: "f3 = f2\<lparr>m_sblkno := copy, m_cblkno := group, m_iblkno := inodes, m_cgoffset := off,
      m_cgmask := cg_mask ntrak p, m_cpc := cpc\<rparr>"
    and layout: "2 ^ (a - b) dvd copy" "0 \<le> copy" "copy \<le> inodes" "2 ^ (a - b) dvd inodes" "2 ^ (a - b) dvd off" "0 \<le> off"
      "copy \<le> group" "inodes = group + 2 ^ (a - b)"
    using geometry_layout_Inr [OF g3] disk(1) powers(4) by (auto simp: f2 f1)
  let ?spc = "ntrak * nsect" and ?nspf = "2 ^ (b - 10) :: int"
  have spc: "0 < ?spc" using disk by (intro mult_pos_pos)
  obtain cyls where f4: "f4 = f3\<lparr>m_cpg := cyls, m_fpg := cyls * ?spc div ?nspf\<rparr>" and cyls: "1 \<le> cyls" "cyls \<le> 32"
    using geometry_groups_Inr [OF g4] by (auto simp: f3 f2 f1)
  obtain ncy where f5: "f5 = f4\<lparr>m_size := fz, m_ncyl := ncy\<rparr>"
    and size: "fz * ?nspf \<le> ncy * ?spc" "1 \<le> ncy" "(ncy - 1) * ?spc < fz * ?nspf"
      "fz = int (fo_size_1k_sectors opts) div ?nspf"
    using geometry_size_Inr [OF g5 small(2)] spc by (auto simp: f4 f3 f2 f1)
  obtain cpc' rot pos where f6: "f6 = f5\<lparr>m_cpc := cpc', m_rotbl := rot, m_postbl := pos\<rparr>"
    using geometry_tables_Inr [OF g6] by blast
  have at6: "m_cpg f6 = cyls" "m_ncyl f6 = ncy" "m_spc f6 = ?spc" "m_nspf f6 = ?nspf"
    by (simp_all add: f6 f5 f4 f3 f2 f1)
  obtain cgsize ncg where f7: "f7 = f6\<lparr>m_cgsize := cgsize, m_ncg := ncg\<rparr>"
    and limits: "m_fpg f6 \<le> MAXBPG f6 * m_frag f6" "?spc * cyls mod ?nspf = 0" "ncy \<le> ncg * cyls" "1 \<le> ncg"
      "(ncg - 1) * cyls < ncy"
    using geometry_limits_Inr [OF g7, unfolded at6, OF cyls(1) size(2)] by (elim exE conjE) (rule that)
  have at7: "m_inopb f7 = 2 ^ (a - 7)" "m_ncg f7 = ncg" "m_fragshift f7 = int (a - b)" "m_iblkno f7 = inodes"
    "m_fsize f7 = 2 ^ b" "m_fpg f7 = cyls * ?spc div ?nspf"
    by (simp_all add: f7 f6 f5 f4 f3 f2 f1)
  have fpg: "cyls * ?spc div ?nspf * ?nspf = cyls * ?spc"
    using limits(2) by (simp add: ac_simps dvd_div_mult_self mod_0_imp_dvd)
  have cover: "fz \<le> ncg * (cyls * ?spc div ?nspf)"
  proof -
    have "fz * ?nspf \<le> ncy * ?spc" by (rule size(1))
    also have "\<dots> \<le> ncg * cyls * ?spc" using limits(3) spc by (intro mult_right_mono) simp_all
    also have "\<dots> = ncg * (cyls * ?spc div ?nspf) * ?nspf" by (simp only: mult.assoc fpg)
    finally show ?thesis by (simp only: mult_le_cancel_right) simp
  qed
  have large: "cyls * ?spc div ?nspf \<le> 65536"
    using limits(1) powers(6) by (simp add: f6 f5 f4 f3 f2 f1 MAXBPG_def sizeof_cg_def)
  have exps: "1 \<le> a - 7" "a - 7 \<le> 6" "a - b \<le> a - 7" "a - 7 - (a - b) = b - 7" "a - 7 = a - b + (b - 7)"
    using ab powers(1) by simp_all
  obtain ipg where f8: "f8 = f7\<lparr>m_ipg := ipg, m_dblkno := inodes + ipg div 2 ^ (b - 7)\<rparr>"
    and ipg: "2 ^ (a - 7) dvd ipg" "2 \<le> ipg" "ipg \<le> 2048"
    using geometry_inodes_Inr [OF g8, unfolded at7, OF refl exps(1,2) limits(4) refl exps(3) _ _ powers(5) cover large, unfolded exps(4)]
      layout powers(4) by auto
  have known: "geometry_known f8 fz"
  proof -
    have at8: "m_frag f8 = 2 ^ (a - b)" "m_bsize f8 = 2 ^ a" "m_fsize f8 = 2 ^ b" "m_inopb f8 = 2 ^ (a - 7)"
      "m_ipg f8 = ipg" "m_sblkno f8 = copy" "m_cgoffset f8 = off" "m_dblkno f8 = inodes + ipg div 2 ^ (b - 7)"
      "m_fpg f8 = cyls * ?spc div ?nspf" "m_ncg f8 = ncg" "m_size f8 = fz" "m_cpg f8 = cyls" "m_spc f8 = ?spc"
      "m_nspf f8 = ?nspf" "m_ncyl f8 = ncy" "m_cgmask f8 = cg_mask ntrak p" "m_cblkno f8 = group"
      "m_iblkno f8 = inodes" "m_fsbtodb f8 = int (b - 10)" "m_nsect f8 = nsect"
      by (simp_all add: f8 f7 f6 f5 f4 f3 f2 f1)
    have "0 < cyls * ?spc" using mult_pos_pos [OF _ spc, of cyls] cyls by simp
    then have "0 < cyls * ?spc div ?nspf * ?nspf" by (simp only: fpg)
    then have pos: "0 < cyls * ?spc div ?nspf" by (rule zero_less_mult_pos2) simp
    obtain m where m: "ipg = 2 ^ (a - b) * 2 ^ (b - 7) * m" using ipg(1) by (auto simp: exps(5) power_add)
    then have "ipg div 2 ^ (b - 7) = 2 ^ (a - b) * m" by simp
    then have "2 ^ (a - b) dvd inodes + ipg div 2 ^ (b - 7)" using layout(4) by simp
    moreover have "copy \<le> inodes + ipg div 2 ^ (b - 7)" using layout(3) ipg(2) by (simp add: add_increasing2 pos_imp_zdiv_nonneg_iff)
    moreover have "ntrak * 1 \<le> ntrak * nsect" using disk by (intro mult_left_mono) simp_all
    then have "\<exists>k. cg_mask ntrak p = - (2 ^ k)" using disk(3) by (intro cg_mask_power) linarith
    moreover have "layout_sound f8"
    proof -
      have shifted: "(2 :: int) ^ b = 1024 * ?nspf" using power_add [of "2 :: int" 10 "b - 10"] ab(3) by simp
      have "ipg * 128 = ipg div 2 ^ (b - 7) * 2 ^ b"
        using power_add [of "2 :: int" 7 "b - 7"] ab(3) m by simp
      moreover have "ncg * (cyls * ?spc div ?nspf) * ?nspf < 2 ^ 30"
      proof -
        have "ncg * (cyls * ?spc div ?nspf) * ?nspf = (ncg - 1) * cyls * ?spc + cyls * ?spc"
          by (simp only: mult.assoc fpg) (simp add: algebra_simps)
        also have "(ncg - 1) * cyls * ?spc \<le> (ncy - 1) * ?spc" using limits(5) spc by (intro mult_right_mono) simp_all
        also have "(ncy - 1) * ?spc < 2 ^ 29"
        proof -
          have "fz * ?nspf \<le> int (fo_size_1k_sectors opts)" unfolding size(4) by (rule quotient_le) simp
          then show ?thesis using size(3) small(2) by (simp add: FORMAT_COMPAT_MAX_SECTORS_def)
        qed
        also have "cyls * ?spc \<le> 2 ^ 29"
        proof -
          have "1024 * ?nspf \<le> 8192" using powers(5) unfolding shifted .
          then have "cyls * ?spc div ?nspf * ?nspf \<le> 65536 * 8" using large by (intro mult_mono) simp_all
          then show ?thesis by (simp add: fpg)
        qed
        finally show ?thesis by simp
      qed
      ultimately show ?thesis
        unfolding layout_sound_def at8 using layout(7,8) disk(1) spc fpg cyls shifted by simp
    qed
    ultimately show ?thesis
      unfolding geometry_known_def geometry_sound_def frags_ok_def frag_of_def at8
      using powers(2,3,4) \<open>2 ^ a \<le> 8192\<close> ipg layout(1-6) pos cyls(1) spc limits(3-5) size(1,3) fpg
      by (simp add: Format.MAXBSIZE_def Format.MAXIPG_def ac_simps)
  qed
  show ?thesis using known g9 g10 by blast
qed

lemma geometry_sound_same: "same_groups fs gs \<Longrightarrow> geometry_sound gs \<longleftrightarrow> geometry_sound fs"
  by (simp add: same_groups_def geometry_sound_def frags_ok_def frag_of_def)

lemma layout_sound_same: "same_groups fs gs \<Longrightarrow> layout_sound gs \<longleftrightarrow> layout_sound fs"
  by (simp add: same_groups_def layout_sound_def)

lemma geometry_room_keeps:
  assumes "geometry_room fz fs s = (Inr gs, t)"
  shows "geometry_sound gs \<longleftrightarrow> geometry_sound fs" "data_start gs c = data_start fs c" "m_fpg gs = m_fpg fs"
    "m_ncg gs \<le> m_ncg fs" "m_frag gs = m_frag fs" "m_dblkno gs = m_dblkno fs"
    "geometry_sound fs \<Longrightarrow> layout_sound fs \<Longrightarrow> layout_sound gs"
proof -
  have "gs = fs \<or> gs = fs\<lparr>m_ncg := m_ncg fs - 1, m_ncyl := m_ncyl fs - m_ncyl fs mod m_cpg fs,
      m_size := (m_ncyl fs - m_ncyl fs mod m_cpg fs) * m_spc fs div m_nspf fs\<rparr>"
    using geometry_room_Inr(2) [OF assms] by auto
  then have "\<exists>n k z. gs = fs\<lparr>m_ncg := n, m_ncyl := k, m_size := z\<rparr> \<and> n \<le> m_ncg fs"
  proof (elim disjE conjE)
    assume "gs = fs"
    then have "gs = fs\<lparr>m_ncg := m_ncg fs, m_ncyl := m_ncyl fs, m_size := m_size fs\<rparr>" by simp
    then show ?thesis by blast
  next
    assume "gs = fs\<lparr>m_ncg := m_ncg fs - 1, m_ncyl := m_ncyl fs - m_ncyl fs mod m_cpg fs,
        m_size := (m_ncyl fs - m_ncyl fs mod m_cpg fs) * m_spc fs div m_nspf fs\<rparr>"
    moreover have "m_ncg fs - 1 \<le> m_ncg fs" by simp
    ultimately show ?thesis by blast
  qed
  then obtain n k z where gs: "gs = fs\<lparr>m_ncg := n, m_ncyl := k, m_size := z\<rparr>" "n \<le> m_ncg fs" by blast
  show "geometry_sound gs \<longleftrightarrow> geometry_sound fs" "data_start gs c = data_start fs c" "m_fpg gs = m_fpg fs"
    "m_ncg gs \<le> m_ncg fs" "m_frag gs = m_frag fs" "m_dblkno gs = m_dblkno fs"
    using gs(2) by (simp_all add: gs(1) geometry_sound_def frags_ok_def frag_of_def data_start_def)
  show "layout_sound gs" if "geometry_sound fs" "layout_sound fs"
  proof -
    have "0 \<le> m_fpg fs * m_nspf fs" using that by (intro mult_nonneg_nonneg) (simp_all add: geometry_sound_def layout_sound_def)
    then have "n * (m_fpg fs * m_nspf fs) \<le> m_ncg fs * (m_fpg fs * m_nspf fs)" using gs(2) by (rule mult_right_mono [rotated])
    then have "n * m_fpg fs * m_nspf fs < 2 ^ 30" if "m_ncg fs * m_fpg fs * m_nspf fs < 2 ^ 30"
      using that by (simp only: mult.assoc)
    then show ?thesis using that(2) by (auto simp: gs(1) layout_sound_def)
  qed
qed

section \<open>Room for the metadata\<close>

lemma data_start_max:
  fixes c n :: int
  assumes "m_cgmask fs = - (2 ^ k)" "0 \<le> m_cgoffset fs" "0 \<le> c" "c \<le> n"
  shows "data_start fs c \<le> data_start fs (min (NOT (m_cgmask fs)) n)"
proof -
  have mask: "NOT (m_cgmask fs) = 2 ^ k - 1" by (simp add: assms(1) not_eq_complement)
  have low: "x AND (2 ^ k - 1) = x mod 2 ^ k" for x :: int
    using take_bit_eq_mask [of k x] by (simp add: mask_eq_exp_minus_1 take_bit_eq_mod)
  have "c mod 2 ^ k \<le> c" using assms(3) by (simp add: zmod_le_nonneg_dividend)
  moreover have "c mod 2 ^ k < 2 ^ k" "0 < (2 :: int) ^ k" by simp_all
  ultimately have "c mod 2 ^ k \<le> min (2 ^ k - 1) n" using assms(4) by linarith
  moreover have "min (2 ^ k - 1) n mod 2 ^ k = min (2 ^ k - 1) n"
    using assms(3,4) by (intro mod_pos_pos_trivial) auto
  ultimately show ?thesis
    unfolding data_start_def mask low using assms(2) by (simp add: mult_left_mono)
qed

lemma known_groups:
  assumes "geometry_known fs fz"
  shows "m_fpg fs * (m_ncg fs - 1) < fz" "m_ncg fs - 1 \<le> m_ncyl fs div m_cpg fs"
    "(m_ncyl fs - m_ncyl fs mod m_cpg fs) * m_spc fs div m_nspf fs = m_ncyl fs div m_cpg fs * m_fpg fs"
proof -
  have fs: "0 < m_spc fs" "0 < m_nspf fs" "0 < m_cpg fs" "m_fpg fs * m_nspf fs = m_cpg fs * m_spc fs"
    "(m_ncyl fs - 1) * m_spc fs < fz * m_nspf fs" "(m_ncg fs - 1) * m_cpg fs < m_ncyl fs"
    using assms by (auto simp: geometry_known_def)
  have "m_fpg fs * (m_ncg fs - 1) * m_nspf fs = (m_ncg fs - 1) * m_cpg fs * m_spc fs"
    using fs(4) by (simp add: algebra_simps)
  also have "\<dots> \<le> (m_ncyl fs - 1) * m_spc fs" using fs(1,6) by (intro mult_right_mono) simp_all
  also have "\<dots> < fz * m_nspf fs" by (rule fs(5))
  finally show "m_fpg fs * (m_ncg fs - 1) < fz" using fs(2) by simp
  have "(m_ncg fs - 1) * m_cpg fs div m_cpg fs \<le> m_ncyl fs div m_cpg fs"
    using fs(3,6) by (intro zdiv_mono1) simp_all
  then show "m_ncg fs - 1 \<le> m_ncyl fs div m_cpg fs" using fs(3) by simp
  have "(m_ncyl fs - m_ncyl fs mod m_cpg fs) * m_spc fs = m_ncyl fs div m_cpg fs * (m_cpg fs * m_spc fs)"
    by (simp add: minus_mod_eq_div_mult)
  also have "\<dots> = m_ncyl fs div m_cpg fs * m_fpg fs * m_nspf fs" by (simp only: fs(4) [symmetric] mult.assoc)
  finally show "(m_ncyl fs - m_ncyl fs mod m_cpg fs) * m_spc fs div m_nspf fs = m_ncyl fs div m_cpg fs * m_fpg fs"
    using fs(2) by simp
qed

text \<open>The data of a group starts inside it; for group 0 the summary is not counted.\<close>

lemma known_room:
  assumes known: "geometry_known fs fz" and room: "geometry_room fz fs s = (Inr gs, t)" and c: "int c < m_ncg gs"
  shows "m_fpg gs * int c < m_size gs" "data_start gs (int c) \<le> int (group_size gs c)"
proof -
  note keeps = geometry_room_keeps(2-4) [OF room]
  obtain k where k: "m_cgmask fs = - (2 ^ k)" and fs: "0 \<le> m_cgoffset fs" "0 < m_fpg fs" "m_size fs = fz"
    using known by (auto simp: geometry_known_def geometry_sound_def)
  have "data_start fs (int c) \<le> data_start fs (min (NOT (m_cgmask fs)) (m_ncg fs - 1))"
    using c keeps(3) by (intro data_start_max [OF k fs(1)]) simp_all
  then have start: "data_start fs (int c) < m_fpg fs" using geometry_room_Inr(1) [OF room] by simp
  have upto: "m_fpg fs * (int c + 1) \<le> m_fpg fs * n" if "int c + 1 \<le> n" for n
    using that fs(2) by (intro mult_left_mono) simp_all
  note groups = known_groups [OF known]
  have main: "m_fpg fs * int c < m_size gs \<and>
      (m_fpg fs \<le> m_size gs - m_fpg fs * int c \<or> data_start fs (int c) \<le> m_size gs - m_fpg fs * int c)"
    using geometry_room_Inr(2) [OF room]
  proof (elim disjE conjE)
    assume gs: "gs = fs" and last: "m_fpg fs \<le> fz - (m_ncg fs - 1) * m_fpg fs"
    have "m_fpg fs * (int c + 1) \<le> m_fpg fs * m_ncg fs" using c gs by (intro upto) simp
    then show ?thesis using last fs(2,3) by (simp add: gs algebra_simps)
  next
    assume gs: "gs = fs" and last: "data_start fs (m_ncg fs - 1) \<le> fz - (m_ncg fs - 1) * m_fpg fs"
    show ?thesis
    proof (cases "int c = m_ncg fs - 1")
      case True
      then show ?thesis using last groups(1) fs(3) by (simp add: gs ac_simps)
    next
      case False
      then have "m_fpg fs * (int c + 1) \<le> m_fpg fs * (m_ncg fs - 1)" using c gs by (intro upto) simp
      then show ?thesis using groups(1) fs(2,3) by (simp add: gs algebra_simps)
    qed
  next
    assume gs: "gs = fs\<lparr>m_ncg := m_ncg fs - 1, m_ncyl := m_ncyl fs - m_ncyl fs mod m_cpg fs,
        m_size := (m_ncyl fs - m_ncyl fs mod m_cpg fs) * m_spc fs div m_nspf fs\<rparr>"
    have "m_fpg fs * (int c + 1) \<le> m_fpg fs * (m_ncyl fs div m_cpg fs)"
      using c groups(2) by (intro upto) (simp add: gs)
    moreover have "m_size gs = m_ncyl fs div m_cpg fs * m_fpg fs" by (simp add: gs groups(3))
    moreover have "int c < m_ncyl fs div m_cpg fs" using c groups(2) by (simp add: gs)
    ultimately show ?thesis using fs(2) by (simp add: algebra_simps)
  qed
  then show "m_fpg gs * int c < m_size gs" by (simp add: keeps)
  from main start show "data_start gs (int c) \<le> int (group_size gs c)"
    by (auto simp: keeps group_size_def)
qed

text \<open>A computed geometry is sound, and every group but the first has room for its metadata.\<close>

lemma geometry_results:
  fixes s t :: 's
  assumes run: "geometry opts s = (Inr fs, t)"
    and small: "fo_bsize opts \<le> MAXBSIZE" "int (fo_size_1k_sectors opts) \<le> FORMAT_COMPAT_MAX_SECTORS"
  shows "geometry_sound fs" "layout_sound fs" "int c < m_ncg fs \<Longrightarrow> 0 < c \<Longrightarrow> group_room fs c"
proof -
  obtain hs gs fz and u v w :: 's where known: "geometry_known hs fz" and room: "geometry_room fz hs u = (Inr gs, v)"
    and summary: "geometry_summary opts gs v = (Inr fs, w)"
    using geometry_known [OF run small] by blast
  note same = geometry_summary_Inr [OF summary]
  have "geometry_sound hs" "m_frag hs dvd m_dblkno hs" using known by (simp_all add: geometry_known_def)
  then show sound: "geometry_sound fs" using same geometry_room_keeps(1) [OF room] geometry_sound_same by blast
  show "layout_sound fs"
    using known same geometry_room_keeps(7) [OF room] layout_sound_same [of gs fs] by (auto simp: geometry_known_def)
  assume c: "int c < m_ncg fs" "0 < c"
  have at: "m_frag fs = m_frag hs" "m_dblkno fs = m_dblkno hs" "m_ncg fs = m_ncg gs" "m_fpg fs = m_fpg gs"
    "m_size fs = m_size gs" "data_start fs (int c) = data_start gs (int c)" "group_size fs c = group_size gs c"
    using same geometry_room_keeps(5,6) [OF room]
    by (simp_all add: same_groups_def data_start_def group_size_def)
  note found = known_room [OF known room, of c] c(1)
  have frag: "0 < m_frag fs" "m_frag fs dvd m_dblkno fs" "m_frag fs dvd m_cgoffset fs" "int (frag_of fs) = m_frag fs"
    using sound \<open>m_frag hs dvd m_dblkno hs\<close> frags_ok_bounds [of fs]
    by (auto simp: geometry_sound_def at frag_of_def)
  have "0 < m_fsize gs" using sound same by (simp add: geometry_sound_def same_groups_def)
  then have cs: "0 \<le> m_cssize fs" using same c(1) at(3) by (simp add: fragroundup_def sizeof_csum_def)
  have start: "int (free_start fs c) = data_start fs (int c)"
    using layout_starts(4) [OF sound cs, of c] c(2) by simp
  have "m_frag fs dvd data_start fs (int c)" unfolding data_start_def using frag(2,3) by (intro dvd_add dvd_mult2)
  then have "frag_of fs dvd free_start fs c" using start frag(4) by (metis int_dvd_int_iff)
  then obtain m where m: "free_start fs c = frag_of fs * m" ..
  have "(frag_of fs * m + frag_of fs - 1) div frag_of fs = m"
    using frag(1) by (intro div_nat_eqI) (simp_all add: frag_of_def)
  then have "(free_start fs c + frag_of fs - 1) div frag_of fs * frag_of fs = free_start fs c" by (simp add: m)
  then show "group_room fs c" using found cs start unfolding group_room_def by (simp add: at)
qed

end
