(* ===== verification/FormatAll.thy ===== *)
theory FormatAll
  imports FormatSound
begin

text \<open>
  All groups of a new file system: each is built in its own part of the disk, so that all of them are there
  when the loop over the groups is done, and on a well-behaved host the loop goes through.
\<close>

section \<open>A group keeps to its own part of the disk\<close>

text \<open>The bytes of a group, counted from the start of the file system.\<close>

definition group_begin :: "format_sblock \<Rightarrow> nat \<Rightarrow> int" where
  "group_begin fs c = m_fpg fs * int c * m_fsize fs"

definition group_end :: "format_sblock \<Rightarrow> nat \<Rightarrow> int" where
  "group_end fs c = (m_fpg fs * int c + int (group_size fs c)) * m_fsize fs"

lemma data_inside:
  assumes "geometry_sound fs" "group_room fs c"
  shows "data_start fs (int c) \<le> int (group_size fs c)" "int (group_size fs c) \<le> m_fpg fs"
proof -
  have fs: "frags_ok fs" "0 < m_fsize fs" "0 < m_fpg fs" using assms(1) by (auto simp: geometry_sound_def)
  have room: "0 \<le> m_cssize fs" "m_fpg fs * int c < m_size fs" using assms(2) by (simp_all add: group_room_def)
  have "0 \<le> ceil_div (m_cssize fs) (m_fsize fs)" using room(1) fs(2) by (rule ceil_div_nonneg)
  then have "data_start fs (int c) \<le> int (free_start fs c)" using layout_starts(4) [OF assms(1) room(1), of c] by simp
  moreover have "free_start fs c \<le> group_size fs c"
    using block_steps_bounds(1) [of "frag_of fs" 0 "free_start fs c"] assms(2) frags_ok_bounds [OF fs(1)]
    by (simp add: block_steps_def group_room_def)
  ultimately show "data_start fs (int c) \<le> int (group_size fs c)" by simp
  show "int (group_size fs c) \<le> m_fpg fs" using fs(3) room(2) by (simp add: group_size_def)
qed

lemma group_places:
  assumes "geometry_sound fs" "layout_sound fs" "group_room fs c"
  shows "group_begin fs c \<le> cg_address fs c * 1024" "cg_address fs c * 1024 + m_bsize fs = inode_address fs c * 1024"
    "inode_address fs c * 1024 + m_ipg fs * 128 \<le> group_end fs c" "group_end fs c \<le> group_begin fs (Suc c)"
    "0 \<le> m_ipg fs * 128" "0 \<le> m_bsize fs"
proof -
  let ?off = "m_cgoffset fs * (int c AND NOT (m_cgmask fs))"
  have fs: "frags_ok fs" "m_bsize fs = m_frag fs * m_fsize fs" "0 < m_fsize fs" "2 \<le> m_ipg fs" "0 \<le> m_cgoffset fs"
    "0 \<le> m_sblkno fs" "0 < m_fpg fs"
    using assms(1) by (auto simp: geometry_sound_def)
  have lay: "m_sblkno fs \<le> m_cblkno fs" "m_iblkno fs = m_cblkno fs + m_frag fs"
    "m_fsize fs = 1024 * 2 ^ nat (m_fsbtodb fs)" "m_ipg fs * 128 = (m_dblkno fs - m_iblkno fs) * m_fsize fs"
    using assms(2) by (auto simp: layout_sound_def)
  have frag: "0 < m_frag fs" "int (frag_of fs) = m_frag fs"
    using frags_ok_bounds [OF fs(1)] by (simp_all add: frag_of_def)
  have off: "0 \<le> ?off" using fs(5) by (intro mult_nonneg_nonneg) simp_all
  have cg: "cg_address fs c * 1024 = (m_fpg fs * int c + ?off + m_cblkno fs) * m_fsize fs"
    by (simp add: cg_address_def lay(3))
  have ino: "inode_address fs c * 1024 = (m_fpg fs * int c + ?off + m_iblkno fs) * m_fsize fs"
    by (simp add: inode_address_def lay(3))
  show "group_begin fs c \<le> cg_address fs c * 1024"
    unfolding group_begin_def cg using off fs(3,6) lay(1) by (intro mult_right_mono) simp_all
  show "cg_address fs c * 1024 + m_bsize fs = inode_address fs c * 1024"
    by (simp add: cg ino fs(2) lay(2) algebra_simps)
  have "inode_address fs c * 1024 + m_ipg fs * 128 = (m_fpg fs * int c + data_start fs (int c)) * m_fsize fs"
    by (simp add: ino lay(4) data_start_def algebra_simps)
  moreover note inside = data_inside [OF assms(1,3)]
  ultimately show "inode_address fs c * 1024 + m_ipg fs * 128 \<le> group_end fs c"
    unfolding group_end_def using fs(3) by (simp add: mult_right_mono)
  show "group_end fs c \<le> group_begin fs (Suc c)"
    unfolding group_end_def group_begin_def using fs(3) inside(2) by (intro mult_right_mono) (simp_all add: algebra_simps)
  show "0 \<le> m_ipg fs * 128" "0 \<le> m_bsize fs" using fs(2-4) frag(1) by simp_all
qed

lemma group_begin_mono:
  "geometry_sound fs \<Longrightarrow> c \<le> d \<Longrightarrow> group_begin fs c \<le> group_begin fs d"
  unfolding group_begin_def geometry_sound_def by (intro mult_right_mono mult_left_mono) simp_all

section \<open>What does not change\<close>

text \<open>Only the totals of the superblock in memory change.\<close>

definition same_layout :: "format_ctx \<Rightarrow> format_ctx \<Rightarrow> bool" where
  "same_layout s t \<longleftrightarrow> same_groups (f_sblock s) (f_sblock t) \<and> m_cssize (f_sblock t) = m_cssize (f_sblock s) \<and>
     f_base t = f_base s \<and> f_nflag t = f_nflag s"

lemma same_layout_facts:
  assumes "same_layout s t"
  shows "geometry_sound (f_sblock t) \<longleftrightarrow> geometry_sound (f_sblock s)"
    "layout_sound (f_sblock t) \<longleftrightarrow> layout_sound (f_sblock s)"
    "group_room (f_sblock t) = group_room (f_sblock s)" "group_size (f_sblock t) = group_size (f_sblock s)"
    "copy_start (f_sblock t) = copy_start (f_sblock s)" "free_start (f_sblock t) = free_start (f_sblock s)"
    "describes_format img (f_sblock t) = describes_format img (f_sblock s)"
    "cg_address (f_sblock t) = cg_address (f_sblock s)" "inode_address (f_sblock t) = inode_address (f_sblock s)"
    "m_bsize (f_sblock t) = m_bsize (f_sblock s)" "m_ipg (f_sblock t) = m_ipg (f_sblock s)"
    "m_ncg (f_sblock t) = m_ncg (f_sblock s)" "m_fsize (f_sblock t) = m_fsize (f_sblock s)"
    "m_frag (f_sblock t) = m_frag (f_sblock s)" "f_base t = f_base s" "f_nflag t = f_nflag s"
    "group_begin (f_sblock t) = group_begin (f_sblock s)" "group_end (f_sblock t) = group_end (f_sblock s)"
proof -
  let ?f = "f_sblock s" and ?g = "f_sblock t"
  have same: "same_groups ?f ?g" and eqs: "m_frag ?g = m_frag ?f" "m_bsize ?g = m_bsize ?f" "m_fsize ?g = m_fsize ?f"
    "m_ipg ?g = m_ipg ?f" "m_sblkno ?g = m_sblkno ?f" "m_iblkno ?g = m_iblkno ?f" "m_cgoffset ?g = m_cgoffset ?f"
    "m_cgmask ?g = m_cgmask ?f" "m_dblkno ?g = m_dblkno ?f" "m_fpg ?g = m_fpg ?f" "m_ncg ?g = m_ncg ?f"
    "m_size ?g = m_size ?f" "m_cblkno ?g = m_cblkno ?f" "m_fsbtodb ?g = m_fsbtodb ?f" "m_cssize ?g = m_cssize ?f"
    using assms by (simp_all add: same_layout_def same_groups_def)
  show "geometry_sound ?g \<longleftrightarrow> geometry_sound ?f" "layout_sound ?g \<longleftrightarrow> layout_sound ?f"
    using same by (rule geometry_sound_same layout_sound_same)+
  show size: "group_size ?g = group_size ?f" and start: "copy_start ?g = copy_start ?f" "free_start ?g = free_start ?f"
    by (simp_all add: fun_eq_iff group_size_def copy_start_def free_start_def data_start_def eqs)
  show "group_room ?g = group_room ?f"
    by (simp add: fun_eq_iff group_room_def size start frag_of_def eqs)
  show "describes_format img ?g = describes_format img ?f" "cg_address ?g = cg_address ?f"
    "inode_address ?g = inode_address ?f" "group_begin ?g = group_begin ?f" "group_end ?g = group_end ?f"
    by (simp_all add: fun_eq_iff describes_format_def cg_address_def inode_address_def group_begin_def group_end_def
        size eqs)
  show "m_bsize ?g = m_bsize ?f" "m_ipg ?g = m_ipg ?f" "m_ncg ?g = m_ncg ?f" "m_fsize ?g = m_fsize ?f"
    "m_frag ?g = m_frag ?f" by (rule eqs)+
  show "f_base t = f_base s" "f_nflag t = f_nflag s" using assms by (simp_all add: same_layout_def)
qed

lemma same_layout_trans: "same_layout s t \<Longrightarrow> same_layout t u \<Longrightarrow> same_layout s u"
  by (simp add: same_layout_def same_groups_def)

lemma same_layout_refl: "same_layout s s"
  by (simp add: same_layout_def same_groups_def)

section \<open>One group\<close>

definition cs_total :: "format_sblock \<Rightarrow> nat \<Rightarrow> u32" where
  "cs_total fs j = [m_cs_ndir fs, m_cs_nbfree fs, m_cs_nifree fs, m_cs_nffree fs] ! j"

text \<open>Group \<open>c\<close> is on the disk as a new group, and its entry of the summary agrees with it.\<close>

definition group_on_disk :: "nextufs_image \<Rightarrow> format_ctx \<Rightarrow> nat \<Rightarrow> bool" where
  "group_on_disk img s c \<longleftrightarrow> (let fs = f_sblock s in \<exists>g.
     (\<forall>i<nat (m_bsize fs). file_byte (fst (f_dev s)) (nat (f_base s + cg_address fs c * 1024) + i) = g i) \<and>
     cg_wf img g \<and> read_be32 g CG_NDBLK_OFF = of_nat (group_size fs c) \<and>
     (\<forall>k<group_size fs c. free_map g k \<longleftrightarrow> group_free c (copy_start fs c) (free_start fs c) (group_size fs c) k) \<and>
     (\<forall>i<nat (m_ipg fs). inode_used g i \<longleftrightarrow> c = 0 \<and> i < 2) \<and>
     (\<forall>j<4. get32 (f_csums s) (c * 16 + j * 4) = read_be32 g (24 + j * 4)))"

lemma swapped_cells:
  "j < 4 \<Longrightarrow> read_be32 (format_swap_cg b) (24 + j * 4) = get32 b (24 + j * 4)"
  "p \<in> {20, 28, 980} \<Longrightarrow> read_be32 (format_swap_cg b) p = get32 b p"
proof -
  have fields: "fields_ok 0 (words_at 0 2 @ cg_fields)"
    by (simp add: cg_fields_def csum_fields_def fields_ok_arrays)
  show "read_be32 (format_swap_cg b) (24 + j * 4) = get32 b (24 + j * 4)" if "j < 4"
  proof -
    have "(24 + j * 4, 4) \<in> set (words_at 0 2 @ cg_fields)"
      using that by (auto simp: words_at_def cg_fields_def csum_fields_def less_4)
    then show ?thesis unfolding format_swap_cg_def by (rule read_swapped(1) [OF fields])
  qed
  show "read_be32 (format_swap_cg b) p = get32 b p" if "p \<in> {20, 28, 980}"
  proof -
    have "(p, 4) \<in> set (words_at 0 2 @ cg_fields)"
      using that by (auto simp: words_at_def cg_fields_def csum_fields_def)
    then show ?thesis unfolding format_swap_cg_def by (rule read_swapped(1) [OF fields])
  qed
qed

lemma add_group_totals_layout:
  "same_groups fs (add_group_totals b (fs\<lparr>m_dsize := x\<rparr>))" "m_cssize (add_group_totals b (fs\<lparr>m_dsize := x\<rparr>)) = m_cssize fs"
  "j < 4 \<Longrightarrow> cs_total (add_group_totals b (fs\<lparr>m_dsize := x\<rparr>)) j = cs_total fs j + get32 b (24 + j * 4)"
proof -
  show "same_groups fs (add_group_totals b (fs\<lparr>m_dsize := x\<rparr>))"
    "m_cssize (add_group_totals b (fs\<lparr>m_dsize := x\<rparr>)) = m_cssize fs"
    by (simp_all add: same_groups_def add_group_totals_def)
  assume "j < 4"
  then consider "j = 0" | "j = 1" | "j = 2" | "j = 3" by linarith
  then show "cs_total (add_group_totals b (fs\<lparr>m_dsize := x\<rparr>)) j = cs_total fs j + get32 b (24 + j * 4)"
    by cases (simp_all add: cs_total_def add_group_totals_def)
qed

lemma initcg_group:
  assumes run: "initcg c s = (Inr (), t)" and fs: "geometry_sound (f_sblock s)" "layout_sound (f_sblock s)"
    and room: "group_room (f_sblock s) c" and img: "describes_format img (f_sblock s)"
    and real: "\<not> f_nflag s"
  shows "same_layout s t" "group_on_disk img t c"
    "int p < f_base s + group_begin (f_sblock s) c \<or> f_base s + group_end (f_sblock s) c \<le> int p \<Longrightarrow>
      file_byte (fst (f_dev t)) p = file_byte (fst (f_dev s)) p"
    "p < c * 16 \<or> c * 16 + 16 \<le> p \<Longrightarrow> f_csums t p = f_csums s p"
    "j < 4 \<Longrightarrow> cs_total (f_sblock t) j = cs_total (f_sblock s) j + get32 (f_csums t) (c * 16 + j * 4)"
proof -
  let ?fs = "f_sblock s"
  obtain new x where
    map: "group_map ?fs c (int (copy_start ?fs c)) (int (free_start ?fs c)) (int (group_size ?fs c))
      (group_prepared ?fs c (f_utime s) (f_acg s)) = Some new"
    and csums: "f_csums t = blit (f_csums s) (c * 16) 16 (\<lambda>i. new (24 + i))"
    and disk: "\<forall>i<nat (m_bsize ?fs). file_byte (fst (f_dev t)) (nat (f_base s + cg_address ?fs c * 1024) + i) = format_swap_cg new i"
    and sb: "f_sblock t = add_group_totals new (?fs\<lparr>m_dsize := x\<rparr>)" "f_base t = f_base s" "f_nflag t = f_nflag s"
    and frame: "\<forall>p. (int p < f_base s + inode_address ?fs c * 1024 \<or>
        f_base s + inode_address ?fs c * 1024 + m_ipg ?fs * 128 \<le> int p) \<and>
      (int p < f_base s + cg_address ?fs c * 1024 \<or> f_base s + cg_address ?fs c * 1024 + m_bsize ?fs \<le> int p) \<longrightarrow>
      file_byte (fst (f_dev t)) p = file_byte (fst (f_dev s)) p"
    using initcg_Inr [OF run fs(1) room] real by blast
  show same: "same_layout s t" unfolding same_layout_def by (simp add: sb add_group_totals_layout)
  note built = built_group [OF fs(1) room img map]
  have entry: "get32 (f_csums t) (c * 16 + j * 4) = get32 new (24 + j * 4)" if "j < 4" for j
    using that unfolding csums get32_def read_le32_def by (simp add: blit_def)
  show "group_on_disk img t c"
    unfolding group_on_disk_def same_layout_facts [OF same] Let_def
    by (intro exI [of _ "format_swap_cg new"] conjI) (use disk built entry in \<open>simp_all add: swapped_cells CG_NDBLK_OFF_def\<close>)
  show "file_byte (fst (f_dev t)) p = file_byte (fst (f_dev s)) p"
    if "int p < f_base s + group_begin ?fs c \<or> f_base s + group_end ?fs c \<le> int p"
  proof (rule frame [rule_format])
    show "(int p < f_base s + inode_address ?fs c * 1024 \<or>
        f_base s + inode_address ?fs c * 1024 + m_ipg ?fs * 128 \<le> int p) \<and>
      (int p < f_base s + cg_address ?fs c * 1024 \<or> f_base s + cg_address ?fs c * 1024 + m_bsize ?fs \<le> int p)"
      using that group_places [OF fs room] by linarith
  qed
  show "p < c * 16 \<or> c * 16 + 16 \<le> p \<Longrightarrow> f_csums t p = f_csums s p"
    by (auto simp: csums blit_def)
  show "j < 4 \<Longrightarrow> cs_total (f_sblock t) j = cs_total (f_sblock s) j + get32 (f_csums t) (c * 16 + j * 4)"
    by (simp add: sb add_group_totals_layout entry)
qed

section \<open>The loop over the groups\<close>

lemma in_turn_append: "in_turn f (xs @ ys) = andthen (in_turn f xs) (\<lambda>_. in_turn f ys)"
proof (induction xs)
  case (Cons x xs)
  then show ?case by (auto simp: fun_eq_iff andthen_def split: prod.splits sum.splits)
qed (simp add: andthen_def ret_def fun_eq_iff)

lemma in_turn_Suc:
  "in_turn f [0..<Suc n] s = (Inr (), t) \<longleftrightarrow> (\<exists>u. in_turn f [0..<n] s = (Inr (), u) \<and> f n u = (Inr (), t))"
  by (auto simp: in_turn_append andthen_Inr ret_def)

text \<open>A group that is there stays when nothing happens before the end of it.\<close>

lemma group_on_disk_stays:
  assumes there: "group_on_disk img s c" and same: "same_layout s t"
    and fs: "geometry_sound (f_sblock s)" "layout_sound (f_sblock s)" "group_room (f_sblock s) c" and base: "0 \<le> f_base s"
    and disk: "\<And>p. int p < f_base s + group_end (f_sblock s) c \<Longrightarrow>
      file_byte (fst (f_dev t)) p = file_byte (fst (f_dev s)) p"
    and csums: "\<And>p. p < c * 16 + 16 \<Longrightarrow> f_csums t p = f_csums s p"
  shows "group_on_disk img t c"
proof -
  let ?fs = "f_sblock s"
  have "file_byte (fst (f_dev t)) (nat (f_base s + cg_address ?fs c * 1024) + i) =
      file_byte (fst (f_dev s)) (nat (f_base s + cg_address ?fs c * 1024) + i)" if "i < nat (m_bsize ?fs)" for i
  proof (rule disk)
    note places = group_places [OF fs]
    have "0 \<le> group_begin ?fs c"
      using fs(1) by (simp add: group_begin_def geometry_sound_def)
    then show "int (nat (f_base s + cg_address ?fs c * 1024) + i) < f_base s + group_end ?fs c"
      using places base that by simp
  qed
  moreover have "get32 (f_csums t) (c * 16 + j * 4) = get32 (f_csums s) (c * 16 + j * 4)" if "j < 4" for j
    using that by (intro get32_cong csums) simp
  ultimately show ?thesis using there unfolding group_on_disk_def Let_def same_layout_facts [OF same] by auto
qed

lemma groups_built:
  assumes run: "in_turn initcg [0..<n] s = (Inr (), t)" and fs: "geometry_sound (f_sblock s)" "layout_sound (f_sblock s)"
    and room: "\<And>c. c < n \<Longrightarrow> group_room (f_sblock s) c" and img: "describes_format img (f_sblock s)"
    and real: "\<not> f_nflag s" and base: "0 \<le> f_base s"
  shows "same_layout s t \<and> (\<forall>c<n. group_on_disk img t c) \<and>
    (\<forall>j<4. cs_total (f_sblock t) j = cs_total (f_sblock s) j + (\<Sum>c<n. get32 (f_csums t) (c * 16 + j * 4)))"
  using run room
proof (induction n arbitrary: t)
  case 0
  then show ?case by (simp add: ret_def same_layout_refl)
next
  case (Suc n)
  obtain u where u: "in_turn initcg [0..<n] s = (Inr (), u)" and step: "initcg n u = (Inr (), t)"
    using Suc.prems(1) unfolding in_turn_Suc by blast
  have IH: "same_layout s u" "\<And>c. c < n \<Longrightarrow> group_on_disk img u c"
    "\<And>j. j < 4 \<Longrightarrow> cs_total (f_sblock u) j = cs_total (f_sblock s) j + (\<Sum>c<n. get32 (f_csums u) (c * 16 + j * 4))"
    using Suc.IH [OF u] Suc.prems(2) by simp_all
  note facts = same_layout_facts [OF IH(1)]
  have now: "geometry_sound (f_sblock u)" "layout_sound (f_sblock u)" "\<And>c. c < Suc n \<Longrightarrow> group_room (f_sblock u) c"
    "describes_format img (f_sblock u)" "\<not> f_nflag u" "0 \<le> f_base u"
    using fs Suc.prems(2) img real base by (simp_all add: facts)
  note group = initcg_group [OF step now(1,2) now(3) [OF lessI] now(4,5)]
  have stays: "group_on_disk img t c" if "c < n" for c
  proof (rule group_on_disk_stays [OF IH(2) [OF that] group(1) now(1,2) now(3) now(6)])
    show "c < Suc n" using that by simp
    fix p
    have "group_end (f_sblock u) c \<le> group_begin (f_sblock u) n"
      using group_places(4) [OF now(1,2) now(3) [of c]] group_begin_mono [OF now(1), of "Suc c" n] that by simp
    then show "int p < f_base u + group_end (f_sblock u) c \<Longrightarrow> file_byte (fst (f_dev t)) p = file_byte (fst (f_dev u)) p"
      by (intro group(3)) simp_all
    show "p < c * 16 + 16 \<Longrightarrow> f_csums t p = f_csums u p" using that by (intro group(4)) simp_all
  qed
  have "get32 (f_csums t) (c * 16 + j * 4) = get32 (f_csums u) (c * 16 + j * 4)" if "c < n" "j < 4" for c j
    using that by (intro get32_cong group(4)) simp_all
  then have "(\<Sum>c<n. get32 (f_csums t) (c * 16 + j * 4)) = (\<Sum>c<n. get32 (f_csums u) (c * 16 + j * 4))" if "j < 4" for j
    using that by (intro sum.cong) simp_all
  then have "cs_total (f_sblock t) j = cs_total (f_sblock s) j + (\<Sum>c<Suc n. get32 (f_csums t) (c * 16 + j * 4))" if "j < 4" for j
    using group(5) [OF that] IH(3) that by (simp add: ac_simps)
  then show ?case using same_layout_trans [OF IH(1) group(1)] stays group(2) by (auto simp: less_Suc_eq)
qed

section \<open>The loop goes through\<close>

lemma quotient_less: "x < n * y \<Longrightarrow> 0 < y \<Longrightarrow> x div y < (n :: int)"
proof -
  assume x: "x < n * y" "0 < y"
  then have "x div y * y < n * y" using quotient_le [of y x] by linarith
  then show ?thesis using x(2) by simp
qed

text \<open>Every free block of a group has a cylinder and a rotational position in the tables.\<close>

lemma smod_is_mod: "0 \<le> x \<Longrightarrow> 0 < y \<Longrightarrow> x smod y = x mod (y :: int)"
  by (auto simp: signed_modulo_int_def sgn_if)

lemma count_block_Some:
  assumes "layout_sound fs" "int d < m_fpg fs"
  shows "\<exists>c. count_block fs (int d) n b = Some c"
proof -
  have fs: "0 < m_nsect fs" "0 < m_spc fs" "m_fpg fs * m_nspf fs = m_cpg fs * m_spc fs" "m_cpg fs \<le> 32" "0 < m_nspf fs"
    using assms(1) by (auto simp: layout_sound_def)
  let ?x = "int d * m_nspf fs"
  have x: "0 \<le> ?x" using fs(5) by simp
  have "?x < m_cpg fs * m_spc fs" unfolding fs(3) [symmetric] using assms(2) fs(5) by (rule mult_strict_right_mono)
  also have "\<dots> \<le> 32 * m_spc fs" using fs(2,4) by (intro mult_right_mono) simp_all
  finally have "?x div m_spc fs < 32" using fs(2) by (rule quotient_less)
  moreover have "0 \<le> ?x div m_spc fs" using quotient_bounds(1) [OF x fs(2)] .
  moreover have "?x mod m_spc fs mod m_nsect fs * 8 < 8 * m_nsect fs" "0 \<le> ?x mod m_spc fs mod m_nsect fs * 8"
    using fs(1) by simp_all
  then have "?x mod m_spc fs mod m_nsect fs * 8 div m_nsect fs < 8" "0 \<le> ?x mod m_spc fs mod m_nsect fs * 8 div m_nsect fs"
    using fs(1) by (auto intro: quotient_less simp: pos_imp_zdiv_nonneg_iff)
  ultimately show ?thesis
    using x fs(1,2) by (simp add: count_block_def Let_def cbtocylno_def cbtorpos_def sdiv_nonneg smod_is_mod
        Format.NRPOS_def Format.MAXCPG_def)
qed

lemma free_blocks_Some:
  "layout_sound fs \<Longrightarrow> \<forall>d\<in>set ds. int d < m_fpg fs \<Longrightarrow> \<exists>c. free_blocks fs ds b = Some c"
proof (induction ds arbitrary: b)
  case (Cons d ds)
  obtain c where "count_block fs (int d) 1 (add32 28 1 (format_setblock fs (d div nat (m_frag fs)) b)) = Some c"
    using count_block_Some [OF Cons.prems(1)] Cons.prems(2) by fastforce
  then show ?case using Cons by simp
qed simp

lemma block_list_less: "d \<in> set (block_list frag lo n) \<Longrightarrow> lo + n * frag < hi + frag \<Longrightarrow> d < hi"
proof -
  assume "d \<in> set (block_list frag lo n)" and hi: "lo + n * frag < hi + frag"
  then obtain k where d: "d = lo + k * frag" "k < n" unfolding block_list_def set_map by fastforce
  then have "(k + 1) * frag \<le> n * frag" by (intro mult_le_mono1) simp
  then show "d < hi" using hi d(1) by (simp add: distrib_right)
qed

lemma group_map_Some:
  assumes fs: "geometry_sound fs" "layout_sound fs" and room: "group_room fs c"
  shows "\<exists>new. group_map fs c (int (copy_start fs c)) (int (free_start fs c)) (int (group_size fs c)) b = Some new"
proof -
  have ok: "frags_ok fs" "m_bsize fs \<le> MAXBSIZE" "0 < m_fpg fs" using fs(1) by (auto simp: geometry_sound_def)
  have frag: "0 < m_frag fs" "nat (m_frag fs) = frag_of fs" "0 < frag_of fs"
    using frags_ok_bounds [OF ok(1)] by (simp_all add: frag_of_def)
  have cs: "0 \<le> m_cssize fs" and room': "(free_start fs c + frag_of fs - 1) div frag_of fs * frag_of fs \<le> group_size fs c"
    using room by (simp_all add: group_room_def)
  have size: "int (group_size fs c) \<le> m_fpg fs" using ok(3) room by (simp add: group_size_def group_room_def)
  have order: "copy_start fs c \<le> free_start fs c" "free_start fs c \<le> group_size fs c"
    using layout_starts(2) [OF fs(1) cs] block_steps_bounds(1) [of "frag_of fs" 0 "free_start fs c"] frag(3) room'
    by (simp_all add: block_steps_def)
  have front: "\<exists>b'. map_front fs c (copy_start fs c) b = Some b'"
  proof (cases "c = 0")
    case False
    have "0 + block_steps (frag_of fs) 0 (copy_start fs c) * frag_of fs < copy_start fs c + frag_of fs"
      using block_steps_bounds [of "frag_of fs" 0 "copy_start fs c"] frag(3) by simp
    note block_list_less [OF _ this]
    then have "int d < m_fpg fs" if "d \<in> set (block_list (frag_of fs) 0 (block_steps (frag_of fs) 0 (copy_start fs c)))" for d
      using that order size by fastforce
    then obtain x where "free_blocks fs (block_list (frag_of fs) 0 (block_steps (frag_of fs) 0 (copy_start fs c))) b = Some x"
      using free_blocks_Some [OF fs(2)] by blast
    then show ?thesis using False by (simp add: map_front_def Let_def frag(2))
  qed (simp add: map_front_def Let_def)
  have data: "\<exists>b''. map_data fs d (group_size fs c) b' = Some b''" for d b'
  proof -
    let ?n = "(group_size fs c - d) div frag_of fs"
    have "e < group_size fs c" if e: "e \<in> set (block_list (frag_of fs) d ?n)" for e
    proof (cases "?n = 0")
      case False
      have "?n * frag_of fs \<le> group_size fs c - d" by simp
      moreover have "0 < ?n * frag_of fs" using False frag(3) by simp
      ultimately have "d + ?n * frag_of fs < group_size fs c + frag_of fs" using frag(3) by linarith
      then show ?thesis by (rule block_list_less [OF e])
    qed (use e in \<open>simp add: block_list_def\<close>)
    then obtain x where "free_blocks fs (block_list (frag_of fs) d ?n) b' = Some x"
      using free_blocks_Some [OF fs(2), of "block_list (frag_of fs) d ?n" b'] size by fastforce
    then show ?thesis by (simp add: map_data_def Let_def frag(2) split: prod.splits)
  qed
  show ?thesis
    using front data ok(2) frag(1) by (auto simp: group_map_def Let_def not_less split: prod.splits option.splits)
qed

text \<open>A host whose calls succeed, and do so in full.\<close>

definition cooperative :: "format_ctx \<Rightarrow> bool" where
  "cooperative s \<longleftrightarrow> (\<forall>k. events (snd (f_dev s)) k = OsFull)"

lemma wtfs_completes:
  assumes "cooperative s" "0 \<le> f_base s + bno * 1024"
  shows "\<exists>d. wtfs bno n b s = (Inr (), s\<lparr>f_dev := d\<rparr>) \<and> cooperative (s\<lparr>f_dev := d\<rparr>)"
proof (cases "f_nflag s")
  case True
  then have "wtfs bno n b s = (Inr (), s\<lparr>f_dev := f_dev s\<rparr>)" by (simp add: wtfs_def)
  then show ?thesis using assms(1) by (metis format_ctx.surjective format_ctx.update_convs(7))
next
  case False
  obtain f os where dev: "f_dev s = (f, os)" by fastforce
  show ?thesis
    by (rule exI [of _ "(if n = 0 then f else file_write f (nat (f_base s + bno * 1024)) n b, tick os)"])
      (use dev assms False in \<open>simp add: wtfs_def Let_def Format.DEV_BSIZE_def cooperative_def pwrite_def tick_def\<close>)
qed

lemma write_inode_block_completes:
  assumes "cooperative s" "0 \<le> f_base s + bno * 1024"
  shows "\<exists>d. write_inode_block bno n b s = (Inr (), s\<lparr>f_dev := d\<rparr>) \<and> cooperative (s\<lparr>f_dev := d\<rparr>)"
proof -
  obtain f os where dev: "f_dev s = (f, os)" by fastforce
  let ?u = "s\<lparr>f_dev := (f, tick os)\<rparr>"
  have "format_malloc s = (Inr True, ?u)" using assms(1) dev by (simp add: format_malloc_def malloc_def cooperative_def)
  moreover have "cooperative ?u" using assms(1) dev by (simp add: cooperative_def tick_def)
  then obtain d where "wtfs bno (n * 128) (format_swap_inodes n (clip (n * 128) b)) ?u = (Inr (), ?u\<lparr>f_dev := d\<rparr>)"
    "cooperative (?u\<lparr>f_dev := d\<rparr>)"
    using wtfs_completes [of ?u bno] assms(2) by fastforce
  ultimately show ?thesis by (intro exI [of _ d]) (simp add: write_inode_block_def andthen_def)
qed

lemma addresses_fit:
  assumes fs: "geometry_sound fs" "layout_sound fs" and room: "data_start fs (int c) \<le> m_fpg fs" and c: "int c < m_ncg fs"
  defines "start \<equiv> m_fpg fs * int c + m_cgoffset fs * (int c AND NOT (m_cgmask fs))"
  shows "\<And>s. cgbase fs (int c) s = (Inr (m_fpg fs * int c), s)"
    "i32 (m_fpg fs * int c + m_fpg fs) s = (Inr (m_fpg fs * int c + m_fpg fs), s)"
    "cgsblock fs (int c) s = (Inr (start + m_sblkno fs), s)"
    "cgdmin fs (int c) s = (Inr (start + m_dblkno fs), s)"
    "cgimin fs (int c) s = (Inr (start + m_iblkno fs), s)"
    "cgtod fs (int c) s = (Inr (start + m_cblkno fs), s)"
    "fsbtodb fs (start + m_iblkno fs) s = (Inr (inode_address fs c), s)"
    "fsbtodb fs (start + m_cblkno fs) s = (Inr (cg_address fs c), s)"
    "0 \<le> inode_address fs c" "0 \<le> cg_address fs c"
proof -
  let ?k = "nat (m_fsbtodb fs)"
  have fs': "frags_ok fs" "0 < m_fsize fs" "2 \<le> m_ipg fs" "0 \<le> m_cgoffset fs" "0 \<le> m_sblkno fs" "0 < m_fpg fs"
    using fs(1) by (auto simp: geometry_sound_def)
  have lay: "m_sblkno fs \<le> m_cblkno fs" "m_iblkno fs = m_cblkno fs + m_frag fs" "m_nspf fs = 2 ^ ?k"
    "m_ipg fs * 128 = (m_dblkno fs - m_iblkno fs) * m_fsize fs" "m_ncg fs * m_fpg fs * m_nspf fs < 2 ^ 30"
    using fs(2) by (auto simp: layout_sound_def)
  have frag: "0 < m_frag fs" using frags_ok_bounds [OF fs'(1)] by (simp add: frag_of_def)
  have "0 < (m_dblkno fs - m_iblkno fs) * m_fsize fs" using fs'(3) by (simp flip: lay(4))
  then have data: "m_iblkno fs < m_dblkno fs" using fs'(2) by (simp add: zero_less_mult_iff)
  have off: "0 \<le> m_cgoffset fs * (int c AND NOT (m_cgmask fs))" "0 \<le> m_fpg fs * int c"
    using fs'(4,6) by (auto intro: mult_nonneg_nonneg)
  have "m_fpg fs * (int c + 1) \<le> m_fpg fs * m_ncg fs" using c fs'(6) by (intro mult_left_mono) simp_all
  then have "m_fpg fs * (int c + 1) * 2 ^ ?k \<le> m_fpg fs * m_ncg fs * 2 ^ ?k" by (rule mult_right_mono) simp
  then have top: "m_fpg fs * (int c + 1) * 2 ^ ?k < 2 ^ 30" using lay(5) by (simp add: lay(3) ac_simps)
  have "start + m_dblkno fs \<le> m_fpg fs * (int c + 1)"
    using room by (simp add: start_def data_start_def algebra_simps)
  then have le: "x \<le> m_fpg fs * (int c + 1)" if "x \<le> start + m_dblkno fs" for x using that by linarith
  have small: "x * 2 ^ ?k < 2 ^ 30 \<and> x < 2 ^ 30" if "0 \<le> x" "x \<le> m_fpg fs * (int c + 1)" for x
  proof -
    have "x * 2 ^ ?k \<le> m_fpg fs * (int c + 1) * 2 ^ ?k" using that(2) by (rule mult_right_mono) simp
    moreover have "x * 1 \<le> x * 2 ^ ?k" using that(1) by (intro mult_left_mono) simp_all
    ultimately show ?thesis using top by linarith
  qed
  have places: "0 \<le> start" "start + m_sblkno fs \<le> start + m_dblkno fs" "start + m_cblkno fs \<le> start + m_dblkno fs"
    "start + m_iblkno fs \<le> start + m_dblkno fs" "start \<le> start + m_dblkno fs" "m_fpg fs * int c \<le> start + m_dblkno fs"
    "0 \<le> m_cblkno fs" "0 \<le> m_iblkno fs" "0 \<le> m_dblkno fs"
    using off data lay(1,2) fs'(5) frag by (simp_all add: start_def)
  have ok: "i32 x u = (Inr x, u)" "i32 (x * 2 ^ ?k) u = (Inr (x * 2 ^ ?k), u)" if "0 \<le> x" "x \<le> m_fpg fs * (int c + 1)" for x u
  proof -
    have big: "(2 :: int) ^ 30 = 1073741824" "(2 :: int) ^ 31 = 2147483648" by simp_all
    have "0 \<le> x * 2 ^ ?k" using that(1) by simp
    then have "- (2 ^ 31) \<le> x * 2 ^ ?k" "- (2 ^ 31) \<le> x" "x * 2 ^ ?k < 2 ^ 31" "x < 2 ^ 31"
      using small [OF that] that(1) unfolding big by linarith+
    then show "i32 x u = (Inr x, u)" "i32 (x * 2 ^ ?k) u = (Inr (x * 2 ^ ?k), u)" by (simp_all add: i32_def ret_def)
  qed
  show base: "cgbase fs (int c) u = (Inr (m_fpg fs * int c), u)" for u
    unfolding cgbase_def by (rule ok(1) [OF off(2) le [OF places(6)]])
  show "i32 (m_fpg fs * int c + m_fpg fs) s = (Inr (m_fpg fs * int c + m_fpg fs), s)"
    using ok(1) [of "m_fpg fs * int c + m_fpg fs"] off(2) fs'(6) by (simp add: algebra_simps)
  have first: "cgstart fs (int c) u = (Inr start, u)" for u
    unfolding cgstart_def using ok(1) [OF places(1) le [OF places(5)]] by (simp add: andthen_def base start_def)
  have parts: "i32 (start + y) u = (Inr (start + y), u)" "i32 ((start + y) * 2 ^ ?k) u = (Inr ((start + y) * 2 ^ ?k), u)"
    if "0 \<le> y" "y \<le> m_dblkno fs" for y u
  proof -
    have "0 \<le> start + y" "start + y \<le> m_fpg fs * (int c + 1)"
      using that places(1) le [of "start + m_dblkno fs"] by linarith+
    then show "i32 (start + y) u = (Inr (start + y), u)" "i32 ((start + y) * 2 ^ ?k) u = (Inr ((start + y) * 2 ^ ?k), u)"
      by (rule ok)+
  qed
  note at = cgsblock_def cgdmin_def cgimin_def cgtod_def andthen_def first
  show "cgsblock fs (int c) s = (Inr (start + m_sblkno fs), s)" "cgdmin fs (int c) s = (Inr (start + m_dblkno fs), s)"
    "cgimin fs (int c) s = (Inr (start + m_iblkno fs), s)" "cgtod fs (int c) s = (Inr (start + m_cblkno fs), s)"
    using parts(1) [OF fs'(5)] parts(1) [OF _ order_refl] parts(1) [OF places(8) less_imp_le [OF data]]
      parts(1) [OF places(7)] places by (simp_all add: at)
  have "0 \<le> start + m_iblkno fs" "0 \<le> start + m_cblkno fs" using places by simp_all
  then show "fsbtodb fs (start + m_iblkno fs) s = (Inr (inode_address fs c), s)" "0 \<le> inode_address fs c"
    "fsbtodb fs (start + m_cblkno fs) s = (Inr (cg_address fs c), s)" "0 \<le> cg_address fs c"
    using parts(2) places unfolding Format.fsbtodb_def inode_address_def cg_address_def start_def by simp_all
qed

lemma data_inside_room: "geometry_sound fs \<Longrightarrow> group_room fs c \<Longrightarrow> data_start fs (int c) \<le> m_fpg fs"
  using data_inside by fastforce

lemma initcg_goes_through:
  assumes fs: "geometry_sound (f_sblock s)" "layout_sound (f_sblock s)" and c: "int c < m_ncg (f_sblock s)"
    and counts: "0 \<le> m_cssize (f_sblock s) \<and> m_fpg (f_sblock s) * int c < m_size (f_sblock s)"
    and data: "data_start (f_sblock s) (int c) \<le> m_fpg (f_sblock s)"
    and maps: "\<And>b. \<exists>new. group_map (f_sblock s) c (int (copy_start (f_sblock s) c)) (int (free_start (f_sblock s) c))
      (int (group_size (f_sblock s) c)) b = Some new"
    and base: "0 \<le> f_base s" and host: "cooperative s"
  shows "\<exists>t. initcg c s = (Inr (), t) \<and> cooperative t"
proof -
  let ?fs = "f_sblock s"
  let ?size = "min (m_fpg ?fs * int c + m_fpg ?fs) (m_size ?fs) - m_fpg ?fs * int c"
  note at = addresses_fit [OF fs data c]
  have cs: "0 \<le> m_cssize ?fs" "m_fpg ?fs * int c < m_size ?fs" using counts by simp_all
  have fs': "0 < m_fpg ?fs" "2 \<le> m_ipg ?fs" "m_ipg ?fs \<le> MAXIPG" "m_bsize ?fs \<le> MAXBSIZE"
    using fs(1) by (auto simp: geometry_sound_def)
  have size: "int (group_size ?fs c) = ?size" using cs fs'(1) by (simp add: group_size_def)
  note starts = layout_starts(3,4) [OF fs(1) cs(1), of c]
  let ?acg = "group_inodes ?fs c (group_header ?fs c ?size (f_utime s) (f_acg s))"
  let ?s = "s\<lparr>f_acg := ?acg\<rparr>"
  obtain d where inodes: "write_inode_block (inode_address ?fs c) (nat (m_ipg ?fs)) (\<lambda>_. 0) ?s = (Inr (), ?s\<lparr>f_dev := d\<rparr>)"
    and host': "cooperative (?s\<lparr>f_dev := d\<rparr>)"
    using write_inode_block_completes [of ?s "inode_address ?fs c" "nat (m_ipg ?fs)" "\<lambda>_. 0"] host base at(9)
    by (auto simp: cooperative_def)
  obtain new where map: "group_map ?fs c (int (copy_start ?fs c)) (int (free_start ?fs c)) (int (group_size ?fs c))
      (clear_rotation ?acg) = Some new"
    using maps by blast
  let ?start = "m_fpg ?fs * int c + m_cgoffset ?fs * (int c AND NOT (m_cgmask ?fs))"
  let ?up = "?start + m_dblkno ?fs - m_fpg ?fs * int c" and ?low = "?start + m_sblkno ?fs - m_fpg ?fs * int c"
  let ?dup = "if c = 0 then ?up + ceil_div (m_cssize ?fs) (m_fsize ?fs) else ?up"
  have dl: "?low = int (copy_start ?fs c)" "?dup = int (free_start ?fs c)" "?size = int (group_size ?fs c)"
    using starts size by (simp_all add: data_start_def)
  let ?u = "?s\<lparr>f_dev := d\<rparr>"
  let ?v = "?u\<lparr>f_acg := new, f_sblock := add_group_totals new (?fs\<lparr>m_dsize := m_dsize ?fs +
      (if c = 0 then 0 else ?low) + (?size - ?dup)\<rparr>), f_csums := blit (f_csums s) (c * 16) 16 (\<lambda>i. new (24 + i))\<rparr>"
  have "initcg c s = write_cg_block (cg_address ?fs c) ?v"
    using inodes map [folded dl] fs'(2,3)
    by (simp add: initcg_def Let_def andthen_def gets_def edit_acg_def edit_sblock_def edit_csums_def modify_def at not_less)
  moreover have "cooperative ?v" "0 \<le> f_base ?v + cg_address ?fs c * 1024"
    using host' base at(10) by (simp_all add: cooperative_def)
  from wtfs_completes [OF this]
  obtain d' where "wtfs (cg_address ?fs c) (nat (m_bsize ?fs)) (format_swap_cg new) ?v = (Inr (), ?v\<lparr>f_dev := d'\<rparr>)"
    "cooperative (?v\<lparr>f_dev := d'\<rparr>)"
    by blast
  ultimately show ?thesis
    using fs'(4) by (simp add: write_cg_block_def andthen_def gets_def add_group_totals_def)
qed

lemma initcg_completes:
  assumes "geometry_sound (f_sblock s)" "layout_sound (f_sblock s)" "group_room (f_sblock s) c"
    and "int c < m_ncg (f_sblock s)" "0 \<le> f_base s" "cooperative s"
  shows "\<exists>t. initcg c s = (Inr (), t) \<and> cooperative t"
  using assms group_room_counts data_inside_room group_map_Some by (intro initcg_goes_through) blast+

lemma initcg_same:
  "initcg c s = (Inr (), t) \<Longrightarrow> geometry_sound (f_sblock s) \<Longrightarrow> group_room (f_sblock s) c \<Longrightarrow> same_layout s t"
  by (drule (2) initcg_Inr) (auto simp: same_layout_def add_group_totals_layout)

lemma groups_complete:
  assumes fs: "geometry_sound (f_sblock s)" "layout_sound (f_sblock s)" and n: "int n \<le> m_ncg (f_sblock s)"
    and room: "\<And>c. c < n \<Longrightarrow> group_room (f_sblock s) c" and base: "0 \<le> f_base s" and host: "cooperative s"
  shows "\<exists>t. in_turn initcg [0..<n] s = (Inr (), t) \<and> cooperative t \<and> same_layout s t"
  using n room
proof (induction n)
  case 0
  then show ?case using host by (simp add: ret_def same_layout_refl)
next
  case (Suc n)
  obtain u where u: "in_turn initcg [0..<n] s = (Inr (), u)" "cooperative u" "same_layout s u"
    using Suc.IH Suc.prems by auto
  note facts = same_layout_facts [OF u(3)]
  have room: "group_room (f_sblock u) n" using Suc.prems(2) [of n] by (simp add: facts)
  obtain t where t: "initcg n u = (Inr (), t)" "cooperative t"
    using initcg_completes [of u n] fs room Suc.prems(1) base u(2) by (auto simp: facts)
  moreover have "same_layout u t" using initcg_same [OF t(1) _ room] fs(1) by (simp add: facts)
  ultimately show ?case unfolding in_turn_Suc using u same_layout_trans by blast
qed

section \<open>The superblock\<close>

lemma format_superblock_fields_ok: "fields_ok 0 format_superblock_fields"
  by (simp add: format_superblock_fields_def csum_fields_def fields_ok_arrays)

lemma sblock_word: "(p, v) \<in> set (sblock_words fs) \<Longrightarrow> get32 (sblock_bytes fs) p = v"
  by (simp add: sblock_bytes_def sblock_words_def Let_def) (elim disjE conjE; simp add: cell_simps)

lemma sblock_word_swapped:
  assumes "(p, v) \<in> set (sblock_words fs)"
  shows "read_be32 (format_swap_superblock (sblock_bytes fs)) p = v"
proof -
  have "(p, 4) \<in> set format_superblock_fields"
    using assms by (auto simp: sblock_words_def format_superblock_fields_def words_at_def csum_fields_def)
  then show ?thesis
    unfolding format_swap_superblock_def using read_swapped(1) [OF format_superblock_fields_ok] sblock_word [OF assms]
    by simp
qed

end
