(* ===== verification/FormatFront.thy ===== *)
theory FormatFront
  imports FormatAll
begin

text \<open>
  Where the formatter writes: never in front of the file system, and after the superblock is there, never into
  it again. So what stands in front of the file system, such as the copies of a disk label, survives, and the
  library finds the superblock that the formatter has computed.
\<close>

section \<open>The superblock on the disk\<close>

lemma uint_of_int: "0 \<le> x \<Longrightarrow> x < 2 ^ 32 \<Longrightarrow> uint (of_int x :: u32) = x"
  by (simp add: uint_word_of_int_eq take_bit_int_eq_self)

text \<open>The superblock as it is written describes the groups to the library.\<close>

lemma written_superblock_describes:
  assumes fs: "geometry_sound fs" "layout_sound fs" and ncg: "1 \<le> m_ncg fs"
    and img: "sb img = decode_superblock (format_swap_superblock (sblock_bytes fs))"
  shows "describes_format img fs"
proof -
  have fs': "frags_ok fs" "2 \<le> m_ipg fs" "m_ipg fs \<le> 2048" "0 < m_fpg fs"
    and lay: "m_ncg fs * m_fpg fs * m_nspf fs < 2 ^ 30" "m_nspf fs = 2 ^ nat (m_fsbtodb fs)"
    using fs by (auto simp: geometry_sound_def layout_sound_def Format.MAXIPG_def)
  have frag: "0 < m_frag fs" "m_frag fs \<le> 8" using frags_ok_bounds [OF fs'(1)] by (auto simp: frag_of_def)
  have "1 * m_fpg fs \<le> m_ncg fs * m_fpg fs" using ncg fs'(4) by (intro mult_right_mono) simp_all
  moreover have "0 \<le> m_ncg fs * m_fpg fs" using ncg fs'(4) by simp
  then have "m_ncg fs * m_fpg fs * 1 \<le> m_ncg fs * m_fpg fs * m_nspf fs" by (rule mult_left_mono [rotated]) (simp add: lay(2))
  ultimately have "m_fpg fs < 2 ^ 30" using lay(1) by linarith
  moreover have "frags_per_block (sb img) = of_int (m_frag fs)" "frags_per_group (sb img) = of_int (m_fpg fs)"
    "inodes_per_group (sb img) = of_int (m_ipg fs)"
    unfolding img decode_superblock_def by (simp_all add: sblock_word_swapped sblock_words_def)
  ultimately show ?thesis using fs' frag by (simp add: describes_format_def uint_of_int)
qed

section \<open>What the run of the program keeps\<close>

text \<open>Only totals and times of the superblock in memory change behind the geometry.\<close>

definition blank_totals :: "format_sblock \<Rightarrow> format_sblock" where
  "blank_totals fs = fs\<lparr>m_cs_ndir := 0, m_cs_nbfree := 0, m_cs_nifree := 0, m_cs_nffree := 0, m_dsize := 0, m_time := 0\<rparr>"

definition only_totals :: "format_sblock \<Rightarrow> format_sblock \<Rightarrow> bool" where
  "only_totals fs gs \<longleftrightarrow> blank_totals gs = blank_totals fs"

lemma only_totals_refl [simp]: "only_totals fs fs"
  by (simp add: only_totals_def)

lemma only_totals_updates [simp]:
  "only_totals fs (add_group_totals b gs) \<longleftrightarrow> only_totals fs gs"
  "only_totals fs (gs\<lparr>m_dsize := x\<rparr>) \<longleftrightarrow> only_totals fs gs"
  "only_totals fs (gs\<lparr>m_cs_nifree := u\<rparr>) \<longleftrightarrow> only_totals fs gs"
  "only_totals fs (gs\<lparr>m_time := u\<rparr>) \<longleftrightarrow> only_totals fs gs"
  "only_totals fs (add_totals_alloc gs u v w) \<longleftrightarrow> only_totals fs gs"
  by (simp_all add: only_totals_def blank_totals_def add_group_totals_def add_totals_alloc_def)

lemma only_totals_field: "(\<And>gs. f (blank_totals gs) = f gs) \<Longrightarrow> only_totals fs gs \<Longrightarrow> f gs = f fs"
  unfolding only_totals_def by metis

lemma only_totals_fields:
  assumes "only_totals fs gs"
  shows "m_fpg gs = m_fpg fs" "m_cgoffset gs = m_cgoffset fs" "m_cgmask gs = m_cgmask fs" "m_sblkno gs = m_sblkno fs"
    "m_cblkno gs = m_cblkno fs" "m_iblkno gs = m_iblkno fs" "m_dblkno gs = m_dblkno fs" "m_csaddr gs = m_csaddr fs"
    "m_fsbtodb gs = m_fsbtodb fs" "m_bsize gs = m_bsize fs" "m_fsize gs = m_fsize fs" "m_magic gs = m_magic fs"
    "m_size gs = m_size fs" "m_ncg gs = m_ncg fs"
  by (rule only_totals_field [OF _ assms], simp add: blank_totals_def)+

text \<open>The metadata of every group lies behind the boot area and the first superblock, 16 sectors.\<close>

definition placed :: "format_sblock \<Rightarrow> bool" where
  "placed fs \<longleftrightarrow> 0 \<le> m_fpg fs \<and> 0 \<le> m_cgoffset fs \<and> 0 \<le> m_sblkno fs \<and> 16 \<le> m_sblkno fs * 2 ^ nat (m_fsbtodb fs) \<and>
     m_sblkno fs \<le> m_cblkno fs \<and> m_cblkno fs \<le> m_iblkno fs \<and> m_iblkno fs \<le> m_dblkno fs \<and>
     m_csaddr fs = m_dblkno fs \<and> 0 \<le> m_bsize fs"

lemma placed_only: "only_totals fs gs \<Longrightarrow> placed gs \<longleftrightarrow> placed fs"
  by (simp add: placed_def only_totals_fields)

text \<open>The first \<open>lim\<close> bytes of the file system and all in front of it are those of \<open>g\<close>; the file has \<open>n\<close> bytes or more.\<close>

definition kept :: "format_sblock \<Rightarrow> int \<Rightarrow> int \<Rightarrow> nat \<Rightarrow> buf \<Rightarrow> format_ctx \<Rightarrow> bool" where
  "kept fs base lim n g s \<longleftrightarrow> f_base s = base \<and> \<not> f_nflag s \<and> only_totals fs (f_sblock s) \<and> n \<le> fsize (fst (f_dev s)) \<and>
     (\<forall>p. int p < base + lim \<longrightarrow> file_byte (fst (f_dev s)) p = g p)"

text \<open>An operation that keeps it, with what is known of its result.\<close>

definition keeping :: "(format_ctx \<Rightarrow> bool) \<Rightarrow> 'a fmt \<Rightarrow> ('a \<Rightarrow> bool) \<Rightarrow> bool" where
  "keeping K m P \<longleftrightarrow> (\<forall>s x t. K s \<longrightarrow> m s = (Inr x, t) \<longrightarrow> K t \<and> P x)"

lemma keepingD: "keeping K m P \<Longrightarrow> K s \<Longrightarrow> m s = (Inr x, t) \<Longrightarrow> K t \<and> P x"
  by (simp add: keeping_def)

named_theorems keeping_rules "operations of the formatter and what they keep"

lemma keeping_andthen [keeping_rules]:
  "keeping K m P \<Longrightarrow> (\<And>x. P x \<Longrightarrow> keeping K (k x) R) \<Longrightarrow> keeping K (andthen m k) R"
  unfolding keeping_def andthen_Inr by meson

lemma keeping_basic [keeping_rules]:
  "P x \<Longrightarrow> keeping K (ret x) P" "keeping K (fail e) P" "keeping K format_abort P" "keeping K format_exit P"
  "keeping K (Format.gets f) (\<lambda>x. \<exists>s. K s \<and> x = f s)" "keeping K (i32 i) (\<lambda>x. x = i)"
  by (auto simp: keeping_def format_abort_def format_exit_def Format.gets_def i32_Inr)

lemma keeping_if [keeping_rules]:
  "(b \<Longrightarrow> keeping K m P) \<Longrightarrow> (\<not> b \<Longrightarrow> keeping K k P) \<Longrightarrow> keeping K (if b then m else k) P"
  by simp

lemma keeping_option [keeping_rules]:
  "keeping K m P \<Longrightarrow> (\<And>x. keeping K (f x) P) \<Longrightarrow> keeping K (case r of None \<Rightarrow> m | Some x \<Rightarrow> f x) P"
  by (cases r) simp_all

lemma keeping_pair [keeping_rules]:
  "(\<And>x y. p = (x, y) \<Longrightarrow> keeping K (f x y) P) \<Longrightarrow> keeping K (case p of (x, y) \<Rightarrow> f x y) P"
  by (cases p) simp

lemma keeping_in_turn [keeping_rules]:
  "(\<And>x. keeping K (f x) (\<lambda>_. True)) \<Longrightarrow> keeping K (in_turn f xs) (\<lambda>_. True)"
  by (induction xs) (auto intro!: keeping_rules)

lemma keeping_edits [keeping_rules]:
  "keeping (kept fs base lim n g) (edit_acg v) (\<lambda>_. True)"
  "keeping (kept fs base lim n g) (edit_csums v) (\<lambda>_. True)"
  by (simp_all add: keeping_def kept_def)

lemma keeping_edit_sblock [keeping_rules]:
  "(\<And>gs. only_totals fs gs \<Longrightarrow> only_totals fs (w gs)) \<Longrightarrow> keeping (kept fs base lim n g) (edit_sblock w) (\<lambda>_. True)"
  by (simp add: keeping_def kept_def)

lemma wtfs_size:
  assumes "wtfs bno k b s = (Inr (), t)" "\<not> f_nflag s" "0 < k"
  shows "f_base s + bno * 1024 + int k \<le> int (fsize (fst (f_dev t)))"
proof -
  let ?off = "f_base s + bno * 1024"
  obtain f os where dev: "f_dev s = (f, os)" by fastforce
  have off: "0 \<le> ?off" and "pwrite b k ?off (f, os) = (Inr k, f_dev t)"
    using assms dev by (auto simp: wtfs_def Let_def Format.DEV_BSIZE_def split: if_splits prod.splits)
  then have "f_dev t = (file_write f (nat ?off) k b, tick os)"
    using assms(3) by (auto simp: pwrite_def split: if_splits sum.splits)
  then show ?thesis using off by simp
qed

lemma keeping_wtfs [keeping_rules]:
  assumes "lim \<le> bno * 1024"
  shows "keeping (kept fs base lim n g) (wtfs bno k b) (\<lambda>_. True)"
  unfolding keeping_def
proof (intro allI impI conjI)
  fix s x t assume K: "kept fs base lim n g s" and run: "wtfs bno k b s = (Inr x, t)"
  have t: "t = s\<lparr>f_dev := f_dev t\<rparr>" using run wtfs_dev [of bno k b s t] by simp
  have "fsize (fst (f_dev s)) \<le> fsize (fst (f_dev t))"
    using run by (auto simp: wtfs_def Let_def pwrite_def split: if_splits prod.splits sum.splits)
  moreover have "file_byte (fst (f_dev t)) p = file_byte (fst (f_dev s)) p" if "int p < base + lim" for p
    using run that K assms by (intro wtfs_frame [of bno k b s t p]) (simp_all add: kept_def)
  ultimately have "kept fs base lim n g (s\<lparr>f_dev := f_dev t\<rparr>)" using K by (auto simp: kept_def)
  then show "kept fs base lim n g t" by (subst t)
qed simp

lemma keeping_quiet:
  assumes "\<And>s x t. m s = (Inr x, t) \<Longrightarrow> \<exists>os. t = s\<lparr>f_dev := (fst (f_dev s), os)\<rparr>"
  shows "keeping (kept fs base lim n g) m (\<lambda>_. True)"
  unfolding keeping_def by (auto simp: kept_def dest!: assms)

lemma keeping_dev [keeping_rules]:
  "keeping (kept fs base lim n g) (rdfs bno k b) (\<lambda>_. True)" "keeping (kept fs base lim n g) format_malloc (\<lambda>_. True)"
  by (rule keeping_quiet; auto simp: rdfs_def format_malloc_def Let_def split: prod.splits if_splits)+

lemma keeping_modify_acg [keeping_rules]:
  "keeping (kept fs base lim n g) (Format.modify (\<lambda>s. s\<lparr>f_acg := v s\<rparr>)) (\<lambda>_. True)"
  by (simp add: keeping_def kept_def Format.modify_def)

section \<open>Addresses\<close>

lemma group_start:
  assumes "placed fs" "0 \<le> (c :: int)"
  shows "0 \<le> m_fpg fs * c + m_cgoffset fs * (c AND NOT (m_cgmask fs))"
  using assms by (intro add_nonneg_nonneg mult_nonneg_nonneg) (simp_all add: placed_def)

lemma keeping_addresses [keeping_rules]:
  assumes "placed fs" "0 \<le> c"
  shows "keeping K (cgsblock fs c) (\<lambda>d. m_sblkno fs \<le> d)" "keeping K (cgtod fs c) (\<lambda>d. m_sblkno fs \<le> d)"
    "keeping K (cgimin fs c) (\<lambda>d. m_sblkno fs \<le> d)" "keeping K (cgdmin fs c) (\<lambda>d. m_sblkno fs \<le> d)"
  using group_start [OF assms] assms(1) unfolding keeping_def
  by (auto dest!: addresses_Inr simp: placed_def data_start_def)

lemma keeping_cgbase [keeping_rules]: "keeping K (cgbase fs c) (\<lambda>_. True)"
  by (auto simp: keeping_def dest: addresses_Inr)

lemma placed_sector: "placed fs \<Longrightarrow> m_sblkno fs \<le> d \<Longrightarrow> 16 \<le> d * 2 ^ nat (m_fsbtodb fs)"
proof -
  assume fs: "placed fs" and d: "m_sblkno fs \<le> d"
  have "m_sblkno fs * 2 ^ nat (m_fsbtodb fs) \<le> d * 2 ^ nat (m_fsbtodb fs)" using d by (rule mult_right_mono) simp
  then show ?thesis using fs by (simp only: placed_def) linarith
qed

lemma keeping_behind [keeping_rules]:
  "placed fs \<Longrightarrow> m_sblkno fs \<le> d \<Longrightarrow> keeping K (fsbtodb fs d) (\<lambda>b. 16 \<le> b)"
  by (auto simp: keeping_def dest!: addresses_Inr placed_sector)

lemma keeping_sector: "0 \<le> d \<Longrightarrow> keeping K (fsbtodb fs d) (\<lambda>b. 0 \<le> b)"
  by (auto simp: keeping_def dest!: addresses_Inr)

lemma kept_placed: "placed fs \<Longrightarrow> kept fs base lim n g s \<Longrightarrow> placed (f_sblock s)"
  using placed_only unfolding kept_def by blast

section \<open>Groups\<close>

lemma keeping_write_inodes [keeping_rules]:
  "lim \<le> bno * 1024 \<Longrightarrow> keeping (kept fs base lim n g) (write_inode_block bno k b) (\<lambda>_. True)"
  unfolding write_inode_block_def by (rule keeping_rules | assumption)+

lemma keeping_write_cg [keeping_rules]:
  "lim \<le> bno * 1024 \<Longrightarrow> keeping (kept fs base lim n g) (write_cg_block bno) (\<lambda>_. True)"
  unfolding write_cg_block_def by (rule keeping_rules | assumption)+

lemma keeping_initcg:
  assumes "placed fs" "lim \<le> 16384"
  shows "keeping (kept fs base lim n g) (initcg c) (\<lambda>_. True)"
  unfolding initcg_def Let_def
  by (rule keeping_rules | (use assms in \<open>auto dest!: kept_placed [OF assms(1)]\<close>; fail))+

section \<open>The first directories\<close>

lemma keeping_transfers [keeping_rules]:
  "lim \<le> bno * 1024 \<Longrightarrow> keeping (kept fs base lim n g) (write_superblock bno) (\<lambda>_. True)"
  "lim \<le> bno * 1024 \<Longrightarrow> keeping (kept fs base lim n g) (write_csum_block bno sz cs) (\<lambda>_. True)"
  "lim \<le> bno * 1024 \<Longrightarrow> keeping (kept fs base lim n g) (write_dir_block bno w b) (\<lambda>_. True)"
  "keeping (kept fs base lim n g) (read_cg_block bno) (\<lambda>_. True)"
  "keeping (kept fs base lim n g) (read_inode_block bno) (\<lambda>_. True)"
  unfolding write_superblock_def write_csum_block_def write_dir_block_def read_cg_block_def read_inode_block_def
  by (rule keeping_rules TrueI | assumption)+

lemma keeping_alloc:
  assumes "placed fs"
  shows "keeping (kept fs base 0 n g) (alloc sz) (\<lambda>d. 0 \<le> d)"
  unfolding alloc_def
  by (rule keeping_rules | (use assms in \<open>auto dest!: kept_placed [OF assms]\<close>; fail))+

lemma keeping_iput:
  assumes "placed fs"
  shows "keeping (kept fs base 0 n g) (iput ino ic) (\<lambda>_. True)"
  unfolding iput_def Let_def
  by (rule keeping_rules | (use assms in \<open>auto dest!: kept_placed [OF assms] simp: add_increasing2\<close>; fail))+

lemma keeping_fsinit:
  assumes "placed fs"
  shows "keeping (kept fs base 0 n g) fsinit (\<lambda>_. True)"
  unfolding fsinit_def
  by (rule keeping_rules keeping_alloc keeping_iput keeping_sector | (use assms in \<open>auto dest!: kept_placed [OF assms]\<close>; fail))+

section \<open>The last writes\<close>

lemma summary_place: "placed fs \<Longrightarrow> m_sblkno fs \<le> m_csaddr fs + Format.numfrags fs (int k * m_bsize fs)"
  by (intro add_increasing2) (simp_all add: placed_def numfrags_def pos_imp_zdiv_nonneg_iff)

lemma keeping_write_summary:
  assumes "placed fs"
  shows "keeping (kept fs base 16384 n g) (write_summary k) (\<lambda>_. True)"
  unfolding write_summary_def Let_def
  by (rule keeping_rules | (use assms in \<open>auto dest!: kept_placed [OF assms] intro: summary_place\<close>; fail))+

lemma keeping_write_copy:
  assumes "placed fs"
  shows "keeping (kept fs base 16384 n g) (write_copy c) (\<lambda>_. True)"
  unfolding write_copy_def
  by (rule keeping_rules | (use assms in \<open>auto dest!: kept_placed [OF assms]\<close>; fail))+

text \<open>The superblock is written first and stays.\<close>

lemma write_metadata_keeps:
  assumes "placed fs" "0 \<le> base" "kept fs base 0 n g s" and run: "write_metadata s = (Inr (), t)"
  shows "kept fs base 0 n g t" "base + 16384 \<le> int (fsize (fst (f_dev t)))" "\<exists>gs. only_totals fs gs \<and> (\<forall>i<8192.
    file_byte (fst (f_dev t)) (nat base + 8192 + i) = format_swap_superblock (sblock_bytes gs) i)"
proof -
  let ?u = "s\<lparr>f_sblock := (f_sblock s)\<lparr>m_time := f_utime s\<rparr>\<rparr>"
  obtain v where sb: "write_superblock Format.SBLOCK ?u = (Inr (), v)"
    and rest: "andthen (in_turn write_summary [0..<nat (ceil_div (m_cssize (f_sblock v)) (m_bsize (f_sblock v)))])
      (\<lambda>_. in_turn write_copy [0..<nat (m_ncg (f_sblock v))]) v = (Inr (), t)"
    using run by (auto simp: write_metadata_def andthen_Inr Format.modify_def)
  have u: "kept fs base 0 n g ?u" using assms(3) by (simp add: kept_def)
  have v: "kept fs base 0 n g v"
    using keepingD [OF keeping_transfers(1) u sb] by (simp add: Format.SBLOCK_def)
  let ?w = "file_byte (fst (f_dev v))"
  have wt: "wtfs 8 8192 (format_swap_superblock (sblock_bytes (f_sblock ?u))) ?u = (Inr (), v)"
    using sb by (simp add: write_superblock_def andthen_Inr Format.SBLOCK_def SBSIZE_def)
  have at: "?w (nat base + 8192 + i) = format_swap_superblock (sblock_bytes (f_sblock ?u)) i" if "i < 8192" for i
  proof -
    have "nat (base + 8192) = nat base + 8192" using assms(2) by simp
    then show ?thesis using wtfs_Inr(2) [OF wt _ _ that] u by (simp add: kept_def)
  qed
  have len: "base + 16384 \<le> int (fsize (fst (f_dev v)))"
    using wtfs_size [OF wt] u by (simp add: kept_def)
  let ?n = "max n (fsize (fst (f_dev v)))"
  have "keeping (kept fs base 16384 ?n ?w) (andthen (in_turn write_summary ks) (\<lambda>_. in_turn write_copy cs)) (\<lambda>_. True)" for ks cs
    by (rule keeping_andthen keeping_in_turn keeping_write_summary keeping_write_copy assms(1))+
  moreover have "kept fs base 16384 ?n ?w v" using v by (simp add: kept_def)
  ultimately have t: "kept fs base 16384 ?n ?w t" using rest unfolding keeping_def by blast
  then show "kept fs base 0 n g t" "base + 16384 \<le> int (fsize (fst (f_dev t)))" using v len by (simp_all add: kept_def)
  have "only_totals fs (f_sblock ?u)" using u by (simp add: kept_def)
  moreover have "file_byte (fst (f_dev t)) (nat base + 8192 + i) = ?w (nat base + 8192 + i)" if "i < 8192" for i
    using t that assms(2) unfolding kept_def by simp
  ultimately show "\<exists>gs. only_totals fs gs \<and> (\<forall>i<8192.
      file_byte (fst (f_dev t)) (nat base + 8192 + i) = format_swap_superblock (sblock_bytes gs) i)"
    using at by metis
qed

section \<open>The geometry\<close>

lemma ceil_div_covers: "0 < y \<Longrightarrow> x \<le> ceil_div x y * y"
proof -
  assume "0 < y"
  then have "(x + y - 1) mod y < y" by simp
  moreover have "(x + y - 1) div y * y + (x + y - 1) mod y = x + y - 1" by simp
  ultimately have "x \<le> (x + y - 1) div y * y" by linarith
  then show ?thesis by (simp add: ceil_div_def add_diff_eq)
qed

lemma roundup_covers: "0 < y \<Longrightarrow> x \<le> roundup x y"
  using ceil_div_covers [of y x] by (simp add: roundup_def ceil_div_def)

text \<open>The fields that the steps of the computation set once and for all.\<close>

definition block_fields :: "format_sblock \<Rightarrow> int list" where
  "block_fields fs = [m_bsize fs, m_fsize fs, m_sblkno fs, m_fmask fs, m_fshift fs, m_inopb fs, m_frag fs, m_fragshift fs]"

lemma geometry_fields:
  assumes run: "geometry opts s = (Inr fs, t)"
  shows "m_magic fs = 0x011954" "m_bsize fs = fo_bsize opts" "m_fsize fs = fo_fsize opts" "m_csaddr fs = m_dblkno fs"
    "16384 \<le> m_sblkno fs * m_fsize fs"
    and "\<exists>a b. 12 \<le> a \<and> 10 \<le> b \<and> b \<le> a \<and> m_bsize fs = 2 ^ a \<and> m_fsize fs = 2 ^ b \<and> m_fmask fs = NOT (2 ^ b - 1) \<and>
      m_fshift fs = int b \<and> m_inopb fs = 2 ^ (a - 7) \<and> m_frag fs = 2 ^ (a - b) \<and> m_fragshift fs = int (a - b)"
    and "m_cgsize fs = fragroundup fs (sizeof_cg + ceil_div (m_fpg fs) 8)" "m_fpg fs \<le> MAXBPG fs * m_frag fs"
    and "m_cssize fs = fragroundup fs (m_ncg fs * sizeof_csum)"
proof -
  obtain f1 s1 f2 s2 f3 s3 f4 s4 f5 fz s5 f6 s6 f7 s7 f8 s8 f9 s9 where
    g1: "geometry_disk opts blank_sblock s = (Inr f1, s1)" and g2: "geometry_blocks opts f1 s1 = (Inr f2, s2)"
    and g3: "geometry_layout f2 s2 = (Inr f3, s3)" and g4: "geometry_groups opts f3 s3 = (Inr f4, s4)"
    and g5: "geometry_size (int (fo_size_1k_sectors opts)) f4 s4 = (Inr (f5, fz), s5)"
    and g6: "geometry_tables f5 s5 = (Inr f6, s6)" and g7: "geometry_limits f6 s6 = (Inr f7, s7)"
    and g8: "geometry_inodes opts fz f7 s7 = (Inr f8, s8)" and g9: "geometry_room fz f8 s8 = (Inr f9, s9)"
    and g10: "geometry_summary opts f9 s9 = (Inr fs, t)"
    using run by (auto simp: geometry_def andthen_Inr)
  note parts = Let_def andthen_Inr i32_Inr i64_Inr format_exit_def fail_def ret_def block_fields_def
  have opts: "m_bsize f2 = fo_bsize opts" "m_fsize f2 = fo_fsize opts"
    using g2 by (auto simp: geometry_blocks_def parts split: if_splits)
  obtain a b where ab: "12 \<le> a" "10 \<le> b" "b \<le> a" and f2: "m_bsize f2 = 2 ^ a" "m_fsize f2 = 2 ^ b" "m_fmask f2 = NOT (2 ^ b - 1)"
    "m_fshift f2 = int b" "m_inopb f2 = 2 ^ (a - 7)" "m_frag f2 = 2 ^ (a - b)" "m_fragshift f2 = int (a - b)"
    using geometry_blocks_Inr [OF g2] by auto
  have pos: "0 < m_fsize f2" "0 < m_frag f2" by (simp_all add: f2)
  have f3: "m_bsize f3 = m_bsize f2" "m_fsize f3 = m_fsize f2" "m_fmask f3 = m_fmask f2" "m_fshift f3 = m_fshift f2"
    "m_inopb f3 = m_inopb f2" "m_frag f3 = m_frag f2" "m_fragshift f3 = m_fragshift f2"
    "m_sblkno f3 = roundup (ceil_div 16384 (m_fsize f2)) (m_frag f2)"
    using g3 by (auto simp: geometry_layout_def parts BBSIZE_def SBSIZE_def split: if_splits)
  have "16384 \<le> ceil_div 16384 (m_fsize f2) * m_fsize f2" using pos(1) by (rule ceil_div_covers)
  also have "\<dots> \<le> m_sblkno f3 * m_fsize f3"
    unfolding f3 using roundup_covers [OF pos(2)] pos(1) by (intro mult_right_mono) simp_all
  finally have start: "16384 \<le> m_sblkno f3 * m_fsize f3" .
  have f6: "block_fields f6 = block_fields f3"
  proof -
    have "block_fields f4 = block_fields f3" using g4 by (auto simp: geometry_groups_def parts split: if_splits)
    moreover have "block_fields f5 = block_fields f4" using g5 by (auto simp: geometry_size_def parts split: if_splits)
    moreover have "block_fields f6 = block_fields f5" using geometry_tables_Inr [OF g6] by (auto simp: block_fields_def)
    ultimately show ?thesis by simp
  qed
  have f7: "block_fields f7 = block_fields f6" "m_fpg f7 = m_fpg f6" "m_fpg f6 \<le> MAXBPG f6 * m_frag f6"
    "m_cgsize f7 = fragroundup f6 (sizeof_cg + ceil_div (m_fpg f6) 8)"
    using g7 by (auto simp: geometry_limits_def parts split: if_splits)
  have f8: "block_fields f8 = block_fields f7" "m_fpg f8 = m_fpg f7" "m_cgsize f8 = m_cgsize f7"
    using g8 by (auto simp: geometry_inodes_def parts split: if_splits)
  have f9: "block_fields f9 = block_fields f8" "m_fpg f9 = m_fpg f8" "m_cgsize f9 = m_cgsize f8"
    using geometry_room_Inr(2) [OF g9] by (auto simp: block_fields_def)
  have f10: "block_fields fs = block_fields f9" "m_fpg fs = m_fpg f9" "m_cgsize fs = m_cgsize f9" "m_ncg fs = m_ncg f9"
    "m_magic fs = 0x011954" "m_csaddr fs = m_dblkno fs" "m_cssize fs = fragroundup f9 (m_ncg f9 * sizeof_csum)"
    using g10 by (auto simp: geometry_summary_def parts)
  have same: "block_fields fs = block_fields f3" using f10(1) f9(1) f8(1) f7(1) f6 by simp
  then have fields: "m_bsize fs = m_bsize f3" "m_fsize fs = m_fsize f3" "m_sblkno fs = m_sblkno f3" "m_fmask fs = m_fmask f3"
    "m_fshift fs = m_fshift f3" "m_inopb fs = m_inopb f3" "m_frag fs = m_frag f3" "m_fragshift fs = m_fragshift f3"
    by (simp_all add: block_fields_def)
  have round: "fragroundup fs x = fragroundup f6 x" "fragroundup fs x = fragroundup f9 x" "MAXBPG fs = MAXBPG f6"
    "m_frag fs = m_frag f6" for x
    using f10(1) f9(1) f8(1) f7(1) by (simp_all add: block_fields_def fragroundup_def MAXBPG_def)
  show "m_magic fs = 0x011954" "m_csaddr fs = m_dblkno fs" by (rule f10)+
  show "m_bsize fs = fo_bsize opts" "m_fsize fs = fo_fsize opts" "16384 \<le> m_sblkno fs * m_fsize fs"
    using fields f3 opts start by simp_all
  show "\<exists>a b. 12 \<le> a \<and> 10 \<le> b \<and> b \<le> a \<and> m_bsize fs = 2 ^ a \<and> m_fsize fs = 2 ^ b \<and> m_fmask fs = NOT (2 ^ b - 1) \<and>
      m_fshift fs = int b \<and> m_inopb fs = 2 ^ (a - 7) \<and> m_frag fs = 2 ^ (a - b) \<and> m_fragshift fs = int (a - b)"
    using fields f3 f2 ab by (intro exI [of _ a] exI [of _ b]) simp
  show "m_cgsize fs = fragroundup fs (sizeof_cg + ceil_div (m_fpg fs) 8)" "m_fpg fs \<le> MAXBPG fs * m_frag fs"
    "m_cssize fs = fragroundup fs (m_ncg fs * sizeof_csum)"
    using round f7 f8 f9 f10 by simp_all
qed

lemma geometry_placed:
  assumes run: "geometry opts s = (Inr fs, t)"
    and small: "fo_bsize opts \<le> MAXBSIZE" "int (fo_size_1k_sectors opts) \<le> FORMAT_COMPAT_MAX_SECTORS"
  shows "placed fs"
proof -
  note sound = geometry_results(1,2) [OF assms] and fields = geometry_fields [OF run]
  have fs: "m_fsize fs = 1024 * 2 ^ nat (m_fsbtodb fs)" "m_ipg fs * 128 = (m_dblkno fs - m_iblkno fs) * m_fsize fs"
    "0 < m_fsize fs" "2 \<le> m_ipg fs" "m_iblkno fs = m_cblkno fs + m_frag fs" "0 < m_frag fs" "0 < m_fpg fs"
    "0 \<le> m_cgoffset fs" "0 \<le> m_sblkno fs" "m_sblkno fs \<le> m_cblkno fs" "m_bsize fs = m_frag fs * m_fsize fs"
    using sound frags_ok_bounds [of fs] by (auto simp: geometry_sound_def layout_sound_def frag_of_def)
  have "16384 \<le> m_sblkno fs * (1024 * 2 ^ nat (m_fsbtodb fs))" using fields(5) unfolding fs(1) .
  then have "16 \<le> m_sblkno fs * 2 ^ nat (m_fsbtodb fs)" by linarith
  moreover have "0 < (m_dblkno fs - m_iblkno fs) * m_fsize fs" using fs(4) unfolding fs(2) [symmetric] by simp
  then have "m_iblkno fs < m_dblkno fs" using fs(3) by (simp add: zero_less_mult_iff)
  moreover have "0 \<le> m_bsize fs" using fs(3,6,11) by simp
  ultimately show ?thesis using fs fields(4) by (simp add: placed_def)
qed

text \<open>The computation does not touch the state.\<close>

lemma keeping_pure:
  "keeping K m (\<lambda>_. True) \<Longrightarrow> (\<And>x. keeping K (k x) (\<lambda>_. True)) \<Longrightarrow> keeping K (andthen m k) (\<lambda>_. True)"
  "keeping K (ret x) (\<lambda>_. True)" "keeping K (i32 i) (\<lambda>_. True)" "keeping K (i64 i) (\<lambda>_. True)"
  by (blast intro: keeping_andthen) (simp_all add: keeping_def i32_Inr i64_Inr)

lemma keeping_group_fragments: "keeping K (group_fragments fs cyls) (\<lambda>_. True)"
  unfolding group_fragments_def by (intro keeping_pure)

lemma keeping_group_loop: "keeping K (group_loop fs cyls fpg) (\<lambda>_. True)"
proof (induction fs cyls fpg rule: group_loop.induct)
  case (1 fs cyls fpg)
  show ?case
    by (subst group_loop.simps) (intro keeping_if keeping_pure keeping_group_fragments "1.IH")
qed

lemma keeping_geometry: "keeping K (geometry opts) (\<lambda>_. True)"
  unfolding geometry_def geometry_disk_def geometry_blocks_def geometry_layout_def geometry_groups_def geometry_size_def
    geometry_tables_def geometry_limits_def geometry_inodes_def geometry_room_def geometry_summary_def POWEROF2_def Let_def
  by (intro keeping_group_fragments keeping_pure keeping_basic(4) keeping_if keeping_pair keeping_group_loop)

section \<open>The program\<close>

lemma keeping_open [keeping_rules]: "keeping (kept fs base lim n g) (format_open False) (\<lambda>_. True)"
  by (rule keeping_quiet) (auto simp: format_open_def Let_def split: prod.splits os_event.splits)

lemma format_time_keeps: "kept fs base lim n g s \<Longrightarrow> format_time s = (Inr (), t) \<Longrightarrow> kept fs base lim n g t"
  by (auto simp: format_time_def Let_def kept_def split: prod.splits sum.splits)

lemma last_sector: "0 < n \<Longrightarrow> int n \<le> FORMAT_COMPAT_MAX_SECTORS \<Longrightarrow> 0 \<le> s32 (int n - 1)"
  by (subst s32_id) (auto simp: FORMAT_COMPAT_MAX_SECTORS_def)

lemma nextufs_format_keeps:
  assumes run: "nextufs_format opts (hf, os) = (Inr (), (hf', os'))"
    and opts: "\<not> fo_dry_run opts" "fo_no_create opts" "\<not> fo_force_size opts" "fo_bsize opts \<le> MAXBSIZE" "0 \<le> fo_base_offset opts"
  shows "fsize hf \<le> fsize hf'" "fo_base_offset opts + 16384 \<le> int (fsize hf')" "int p < fo_base_offset opts \<Longrightarrow> file_byte hf' p = file_byte hf p"
    "\<exists>fs gs (s :: format_ctx) t. geometry opts s = (Inr fs, t) \<and> only_totals fs gs \<and> (\<forall>i<8192.
      file_byte hf' (nat (fo_base_offset opts) + 8192 + i) = format_swap_superblock (sblock_bytes gs) i)"
proof -
  let ?base = "fo_base_offset opts" and ?n = "fsize hf" and ?g = "file_byte hf"
  let ?s = "format_fresh opts (hf, os)"
  obtain z where z: "format_body opts ?s = (Inr (), z)" "f_dev z = (hf', os')"
    using run by (auto simp: nextufs_format_def split: prod.splits)
  have size: "0 < fo_size_1k_sectors opts" "int (fo_size_1k_sectors opts) \<le> FORMAT_COMPAT_MAX_SECTORS"
    using z(1) opts(1-3) by (auto simp: format_body_def andthen_Inr format_exit_def fail_def split: if_splits)
  have limits: "\<not> (\<not> fo_target opts \<or> fo_size_1k_sectors opts = 0 \<or> 2 ^ 63 - 1 < fo_size_1k_sectors opts)"
    using z(1) by (auto simp: format_body_def andthen_Inr format_exit_def fail_def split: if_splits)
  obtain a b fs c d e where a: "format_time ?s = (Inr (), a)"
    and b: "andthen (format_open False) (\<lambda>_. andthen (format_open False) (\<lambda>_.
      wtfs (s32 (int (fo_size_1k_sectors opts) - 1)) 1024 (\<lambda>_. 0))) a = (Inr (), b)"
    and c: "geometry opts b = (Inr fs, c)" and d: "format_malloc (c\<lparr>f_sblock := fs\<rparr>) = (Inr True, d)"
    and e: "andthen (in_turn initcg [0..<nat (m_ncg fs)]) (\<lambda>_. fsinit) d = (Inr (), e)" "write_metadata e = (Inr (), z)"
    using z(1) opts(1-3) limits
    by (auto simp: format_body_def andthen_Inr format_exit_def fail_def split: if_splits)
  have "kept blank_sblock ?base 0 ?n ?g ?s"
    using opts(1) by (simp add: kept_def format_fresh_def)
  then have "kept blank_sblock ?base 0 ?n ?g a" using a by (rule format_time_keeps)
  moreover have "keeping (kept blank_sblock ?base 0 ?n ?g) (andthen (format_open False) (\<lambda>_. andthen (format_open False) (\<lambda>_.
      wtfs (s32 (int (fo_size_1k_sectors opts) - 1)) 1024 (\<lambda>_. 0)))) (\<lambda>_. True)"
    by (rule keeping_rules | (use last_sector [OF size] in simp; fail))+
  ultimately have "kept blank_sblock ?base 0 ?n ?g b" using b unfolding keeping_def by blast
  then have "kept blank_sblock ?base 0 ?n ?g c" using c keeping_geometry unfolding keeping_def by blast
  then have cs: "kept fs ?base 0 ?n ?g (c\<lparr>f_sblock := fs\<rparr>)" by (simp add: kept_def)
  have placed: "placed fs" using geometry_placed [OF c opts(4) size(2)] .
  have "kept fs ?base 0 ?n ?g d" using keepingD [OF keeping_dev(2) cs d] by simp
  moreover have "keeping (kept fs ?base 0 ?n ?g) (andthen (in_turn initcg ks) (\<lambda>_. fsinit)) (\<lambda>_. True)" for ks
    by (rule keeping_andthen keeping_in_turn keeping_initcg [OF placed] keeping_fsinit [OF placed] | simp)+
  ultimately have "kept fs ?base 0 ?n ?g e" using e(1) unfolding keeping_def by blast
  from write_metadata_keeps [OF placed opts(5) this e(2)] c
  show "fsize hf \<le> fsize hf'" "fo_base_offset opts + 16384 \<le> int (fsize hf')" "int p < fo_base_offset opts \<Longrightarrow> file_byte hf' p = file_byte hf p"
    "\<exists>fs gs (s :: format_ctx) t. geometry opts s = (Inr fs, t) \<and> only_totals fs gs \<and> (\<forall>i<8192.
      file_byte hf' (nat (fo_base_offset opts) + 8192 + i) = format_swap_superblock (sblock_bytes gs) i)"
    unfolding kept_def z(2) by auto
qed

end
