(* ===== verification/FormatLive.thy ===== *)
theory FormatLive
  imports FormatFront
begin

text \<open>
  On a host whose calls succeed \<open>nextufs_format\<close> goes through: behind the groups, the first directories find group 0
  as it was built, and the last writes have all their addresses in range.
\<close>

section \<open>Facts about the geometry\<close>

lemma and_not_ones: "x AND NOT (2 ^ b - 1) = x div 2 ^ b * (2 ^ b :: int)"
proof -
  have "x AND NOT (mask b) = push_bit b (drop_bit b x)" by (rule bit_eqI) (auto simp: bit_simps)
  then show ?thesis by (simp add: mask_eq_exp_minus_1 push_bit_eq_mult drop_bit_eq_div)
qed

lemma fragroundup_eq:
  "m_fsize fs = 2 ^ b \<Longrightarrow> m_fmask fs = NOT (2 ^ b - 1) \<Longrightarrow> fragroundup fs x = ceil_div x (m_fsize fs) * m_fsize fs"
  by (simp add: fragroundup_def and_not_ones ceil_div_def add_diff_eq)

lemma ceil_div_least:
  fixes x y k :: int
  assumes "0 < y" "x \<le> k * y"
  shows "ceil_div x y \<le> k"
proof -
  have "(x + (y - 1)) div y < k + 1" using assms by (intro quotient_less) (simp_all add: algebra_simps)
  then show ?thesis by (simp add: ceil_div_def)
qed

lemma geometry_bound:
  assumes run: "geometry opts s = (Inr fs, t)"
  shows "m_fpg fs \<le> 8 * (m_bsize fs - 988)"
proof -
  obtain a b where at: "m_frag fs = 2 ^ (a - b)" "m_fragshift fs = int (a - b)" using geometry_fields(6) [OF run] by blast
  have "m_fpg fs \<le> 8 * (m_bsize fs - 988) div 2 ^ (a - b) * 2 ^ (a - b)"
    using geometry_fields(8) [OF run] by (simp add: MAXBPG_def sizeof_cg_def at)
  also have "\<dots> \<le> 8 * (m_bsize fs - 988)" by (rule quotient_le) simp
  finally show ?thesis .
qed

lemma geometry_summary_room:
  assumes run: "geometry opts s = (Inr fs, t)" and "1 \<le> m_ncg fs"
  shows "16 \<le> m_cssize fs"
proof -
  obtain b where at: "m_fsize fs = 2 ^ b" "m_fmask fs = NOT (2 ^ b - 1)" using geometry_fields(6) [OF run] by blast
  then have "0 < m_fsize fs" by simp
  then show ?thesis
    using ceil_div_covers [of "m_fsize fs" "m_ncg fs * 16"] assms(2)
    by (simp add: geometry_fields(9) [OF run] fragroundup_eq [OF at] sizeof_csum_def)
qed

text \<open>What the rest of the program needs of the geometry.\<close>

definition finishing :: "format_sblock \<Rightarrow> bool" where
  "finishing fs \<longleftrightarrow> geometry_sound fs \<and> layout_sound fs \<and> placed fs \<and> 1 \<le> m_ncg fs \<and>
     (\<forall>c. int c < m_ncg fs \<longrightarrow> group_room fs c) \<and> 16 \<le> m_cssize fs \<and> 0 \<le> m_cgsize fs \<and> m_cgsize fs \<le> m_bsize fs \<and>
     988 + ceil_div (m_fpg fs) 8 \<le> m_cgsize fs \<and> m_inopb fs * 128 = m_bsize fs \<and> 4 \<le> m_inopb fs \<and>
     m_fsize fs = 2 ^ nat (m_fshift fs) \<and> 1024 \<le> m_fsize fs"

lemma finishingD:
  assumes "finishing fs"
  shows "geometry_sound fs" "layout_sound fs" "placed fs" "1 \<le> m_ncg fs" "\<And>c. int c < m_ncg fs \<Longrightarrow> group_room fs c"
    "16 \<le> m_cssize fs" "0 \<le> m_cgsize fs" "m_cgsize fs \<le> m_bsize fs" "988 + ceil_div (m_fpg fs) 8 \<le> m_cgsize fs"
    "m_inopb fs * 128 = m_bsize fs" "4 \<le> m_inopb fs" "m_fsize fs = 2 ^ nat (m_fshift fs)" "1024 \<le> m_fsize fs"
  using assms by (simp_all add: finishing_def)

lemma finishing_geometry:
  assumes run: "geometry opts s = (Inr fs, t)"
    and small: "fo_bsize opts \<le> MAXBSIZE" "int (fo_size_1k_sectors opts) \<le> FORMAT_COMPAT_MAX_SECTORS"
    and first: "group_room fs 0" "1 \<le> m_ncg fs"
  shows "finishing fs"
proof -
  note sound = geometry_results [OF run small] and fields = geometry_fields [OF run]
  obtain a b where ab: "10 \<le> b" "b \<le> a" "12 \<le> a" and at: "m_bsize fs = 2 ^ a" "m_fsize fs = 2 ^ b" "m_fmask fs = NOT (2 ^ b - 1)"
    "m_fshift fs = int b" "m_inopb fs = 2 ^ (a - 7)" "m_frag fs = 2 ^ (a - b)" "m_fragshift fs = int (a - b)"
    using fields(6) by blast
  note round = fragroundup_eq [OF at(2,3)]
  have fsize: "0 < m_fsize fs" "1024 \<le> m_fsize fs"
    using power_increasing [OF ab(1), of "2 :: int"] by (simp_all add: at)
  have blocks: "m_bsize fs = m_frag fs * m_fsize fs" using ab by (simp add: at flip: power_add)
  have "ceil_div (m_fpg fs) 8 \<le> m_bsize fs - 988"
    using geometry_bound [OF run] by (intro ceil_div_least) simp_all
  then have "988 + ceil_div (m_fpg fs) 8 \<le> m_frag fs * m_fsize fs" using blocks by simp
  then have "ceil_div (988 + ceil_div (m_fpg fs) 8) (m_fsize fs) \<le> m_frag fs" by (rule ceil_div_least [OF fsize(1)])
  then have "ceil_div (988 + ceil_div (m_fpg fs) 8) (m_fsize fs) * m_fsize fs \<le> m_bsize fs"
    unfolding blocks using fsize(1) by (intro mult_right_mono) simp_all
  moreover have "988 + ceil_div (m_fpg fs) 8 \<le> ceil_div (988 + ceil_div (m_fpg fs) 8) (m_fsize fs) * m_fsize fs"
    by (rule ceil_div_covers [OF fsize(1)])
  moreover have "0 \<le> ceil_div (m_fpg fs) 8"
    using sound(1) by (intro ceil_div_nonneg) (simp_all add: geometry_sound_def)
  moreover have "16 \<le> m_cssize fs" by (rule geometry_summary_room [OF run first(2)])
  moreover have "(2 :: int) ^ 2 \<le> 2 ^ (a - 7)" "(2 :: int) ^ (a - 7) * 128 = 2 ^ a"
  proof -
    show "(2 :: int) ^ 2 \<le> 2 ^ (a - 7)" using ab(3) by (intro power_increasing) simp_all
    have "(2 :: int) ^ (a - 7) * 2 ^ 7 = 2 ^ a" using ab(3) by (simp only: power_add [symmetric]) simp
    then show "(2 :: int) ^ (a - 7) * 128 = 2 ^ a" by simp
  qed
  moreover have "group_room fs c" if "int c < m_ncg fs" for c
    using sound(3) [of c] first(1) that by (cases "c = 0") simp_all
  ultimately show ?thesis
    using sound(1,2) geometry_placed [OF run small] first(2) fsize fields(7)
    by (simp add: finishing_def round sizeof_cg_def at)
qed

text \<open>All of that is kept, and the addresses too, when only totals change.\<close>

lemma finishing_only:
  assumes "only_totals fs gs"
  shows "cgtod gs = (cgtod fs :: int \<Rightarrow> ('s, int) io)" "cgimin gs = (cgimin fs :: int \<Rightarrow> ('s, int) io)"
    "cgsblock gs = (cgsblock fs :: int \<Rightarrow> ('s, int) io)" "fsbtodb gs = (fsbtodb fs :: int \<Rightarrow> ('s, int) io)"
    "first_block gs = first_block fs" "alloc_group gs = alloc_group fs" "m_cssize gs = m_cssize fs"
    "m_ipg gs = m_ipg fs" "m_inopb gs = m_inopb fs" "m_bsize gs = m_bsize fs" "m_fsize gs = m_fsize fs" "m_frag gs = m_frag fs"
    "m_fragshift gs = m_fragshift fs" "m_ncg gs = m_ncg fs" "m_csaddr gs = m_csaddr fs" "m_cgsize gs = m_cgsize fs"
    "numfrags gs = numfrags fs" "cg_address gs = cg_address fs" "inode_address gs = inode_address fs"
proof -
  note addr = fun_eq_iff cgtod_def cgimin_def cgsblock_def cgstart_def cgbase_def Format.fsbtodb_def numfrags_def
    cg_address_def inode_address_def blank_totals_def
  note blocks = fun_eq_iff first_block_def alloc_group_def format_isblock_def format_clrblock_def count_block_def
    cbtocylno_def cbtorpos_def blank_totals_def
  show "cgtod gs = (cgtod fs :: int \<Rightarrow> ('s, int) io)" "cgimin gs = (cgimin fs :: int \<Rightarrow> ('s, int) io)"
    "cgsblock gs = (cgsblock fs :: int \<Rightarrow> ('s, int) io)" "fsbtodb gs = (fsbtodb fs :: int \<Rightarrow> ('s, int) io)"
    "numfrags gs = numfrags fs" "cg_address gs = cg_address fs" "inode_address gs = inode_address fs"
    by (rule only_totals_field [OF _ assms], simp add: addr)+
  show "first_block gs = first_block fs" "alloc_group gs = alloc_group fs"
    by (rule only_totals_field [OF _ assms], simp add: blocks cong: option.case_cong)+
  show "m_cssize gs = m_cssize fs"
    "m_ipg gs = m_ipg fs" "m_inopb gs = m_inopb fs" "m_bsize gs = m_bsize fs" "m_fsize gs = m_fsize fs" "m_frag gs = m_frag fs"
    "m_fragshift gs = m_fragshift fs" "m_ncg gs = m_ncg fs" "m_csaddr gs = m_csaddr fs" "m_cgsize gs = m_cgsize fs"
    by (rule only_totals_field [OF _ assms], simp add: blank_totals_def)+
qed

section \<open>Group 0 on the disk\<close>

text \<open>Of the group the magic number, its size, and that nothing in front of the data is free: on the disk and in memory.\<close>

definition disk_ok :: "format_sblock \<Rightarrow> buf \<Rightarrow> bool" where
  "disk_ok fs g \<longleftrightarrow> read_be32 g 980 = of_int FsckPasses.CG_MAGIC \<and> read_be32 g 20 = of_nat (group_size fs 0) \<and>
     (\<forall>k<group_size fs 0. free_map g k \<longrightarrow> free_start fs 0 \<le> k)"

definition acg_ok :: "format_sblock \<Rightarrow> buf \<Rightarrow> bool" where
  "acg_ok fs b \<longleftrightarrow> get32 b 980 = of_int FsckPasses.CG_MAGIC \<and> get32 b 20 = of_nat (group_size fs 0) \<and>
     (\<forall>k<group_size fs 0. free_map b k \<longrightarrow> free_start fs 0 \<le> k)"

lemma swapped_fields: "fields_ok 0 (words_at 0 2 @ cg_fields)"
  by (simp add: cg_fields_def csum_fields_def fields_ok_arrays)

lemma swap_cg_free: "free_map (format_swap_cg b) = free_map b"
proof -
  have "format_swap_cg b i = b i" if "984 \<le> i" for i
    unfolding format_swap_cg_def
    by (intro swap_fields_out [OF swapped_fields])
      (use that in \<open>auto simp: cg_fields_def csum_fields_def words_at_def halves_at_def\<close>)
  then show ?thesis by (intro free_map_cong) (simp add: CG_FREE_OFF_def)
qed

lemma swap_cg_cells:
  assumes "p \<in> {20, 28, 980}"
  shows "read_be32 (format_swap_cg b) p = get32 b p" "get32 (format_swap_cg b) p = read_be32 b p"
proof -
  note fields = swapped_fields
  have at: "(p, 4) \<in> set (words_at 0 2 @ cg_fields)"
    using assms by (auto simp: words_at_def cg_fields_def csum_fields_def)
  show "read_be32 (format_swap_cg b) p = get32 b p" unfolding format_swap_cg_def by (rule read_swapped(1) [OF fields at])
  show "get32 (format_swap_cg b) p = read_be32 b p" unfolding format_swap_cg_def by (rule get_swapped(1) [OF fields at])
qed

lemma disk_ok_swap: "disk_ok fs (format_swap_cg b) \<longleftrightarrow> acg_ok fs b" "acg_ok fs (format_swap_cg b) \<longleftrightarrow> disk_ok fs b"
  by (simp_all add: disk_ok_def acg_ok_def swap_cg_free swap_cg_cells)

lemma disk_ok_cong:
  assumes "finishing fs" "\<And>i. i < nat (m_cgsize fs) \<Longrightarrow> c i = b i"
  shows "disk_ok fs c \<longleftrightarrow> disk_ok fs b"
proof -
  have size: "988 + ceil_div (m_fpg fs) 8 \<le> m_cgsize fs" "0 < m_fpg fs"
    using assms(1) by (auto simp: finishing_def geometry_sound_def)
  have "0 \<le> ceil_div (m_fpg fs) 8" using size(2) by (intro ceil_div_nonneg) simp_all
  then have "988 \<le> nat (m_cgsize fs)" using size(1) by simp
  then have words: "read_be32 c p = read_be32 b p" if "p \<le> 980" for p
    using that assms(2) by (intro read_be32_cong) simp_all
  have "free_map c k = free_map b k" if k: "k < group_size fs 0" for k
  proof -
    have "int k < m_fpg fs" using k by (simp add: group_size_def)
    moreover have "m_fpg fs \<le> ceil_div (m_fpg fs) 8 * 8" by (rule ceil_div_covers) simp
    ultimately have "int (k div 8) < ceil_div (m_fpg fs) 8" by linarith
    then have "984 + k div 8 < nat (m_cgsize fs)" using size(1) by linarith
    then show ?thesis using assms(2) by (simp add: free_map_def free_bit_iff CG_FREE_OFF_def)
  qed
  then show ?thesis by (simp add: disk_ok_def words)
qed

definition first_group :: "format_sblock \<Rightarrow> format_ctx \<Rightarrow> buf" where
  "first_group fs s = (\<lambda>i. file_byte (fst (f_dev s)) (nat (f_base s + cg_address fs 0 * 1024) + i))"

lemma wp_fmt [wp_simps]:
  "wp (Format.gets f) E Q = (\<lambda>s. Q (f s) s)" "wp (Format.modify u) E R = (\<lambda>s. R () (u s))"
  "wp (edit_acg v) E R = (\<lambda>s. R () (s\<lparr>f_acg := v (f_acg s)\<rparr>))"
  "wp (edit_csums v) E R = (\<lambda>s. R () (s\<lparr>f_csums := v (f_csums s)\<rparr>))"
  "wp (edit_sblock w) E R = (\<lambda>s. R () (s\<lparr>f_sblock := w (f_sblock s)\<rparr>))"
  by (simp_all add: fun_eq_iff wp_def Format.gets_def Format.modify_def edit_acg_def edit_csums_def edit_sblock_def)

lemma wp_gets_then: "wp (andthen (Format.gets f) k) E Q s = wp (k (f s)) E Q s"
  by (simp add: wp_def andthen_def Format.gets_def)

text \<open>The state between the operations that make the directories.\<close>

definition live :: "format_sblock \<Rightarrow> format_ctx \<Rightarrow> bool" where
  "live fs s \<longleftrightarrow> cooperative s \<and> \<not> f_nflag s \<and> 0 \<le> f_base s \<and> only_totals fs (f_sblock s) \<and>
     f_base s + inode_address fs 0 * 1024 + m_ipg fs * 128 \<le> int (fsize (fst (f_dev s))) \<and> disk_ok fs (first_group fs s)"

lemma live_edits [simp]:
  "live fs (s\<lparr>f_acg := b\<rparr>) \<longleftrightarrow> live fs s" "live fs (s\<lparr>f_csums := b\<rparr>) \<longleftrightarrow> live fs s"
  by (simp_all add: live_def cooperative_def first_group_def)

lemma live_sblock: "live fs s \<Longrightarrow> only_totals fs gs \<Longrightarrow> live fs (s\<lparr>f_sblock := gs\<rparr>)"
  by (simp add: live_def cooperative_def first_group_def)

lemma live_places:
  assumes "finishing fs"
  shows "16384 \<le> cg_address fs 0 * 1024" "cg_address fs 0 * 1024 + m_bsize fs = inode_address fs 0 * 1024"
    "inode_address fs 0 * 1024 + m_ipg fs * 128 = m_dblkno fs * m_fsize fs" "m_dblkno fs \<le> int (free_start fs 0)"
    "int (free_start fs 0) \<le> int (group_size fs 0)" "int (group_size fs 0) \<le> m_fpg fs" "0 < m_bsize fs" "m_bsize fs \<le> m_ipg fs * 128" "m_ipg fs * 128 = int (nat (m_ipg fs) * 128)"
    "m_bsize fs = m_frag fs * m_fsize fs" "int (frag_of fs) = m_frag fs" "0 < m_frag fs"
proof -
  note fs = finishingD(1,2) [OF assms] and room = finishingD(5) [OF assms, of 0]
  have r: "group_room fs 0" using room finishingD(4) [OF assms] by simp
  have lay: "m_fsize fs = 1024 * 2 ^ nat (m_fsbtodb fs)" "m_ipg fs * 128 = (m_dblkno fs - m_iblkno fs) * m_fsize fs"
    using fs(2) by (simp_all add: layout_sound_def)
  have geo: "m_bsize fs = m_frag fs * m_fsize fs" "2 \<le> m_ipg fs" "m_inopb fs dvd m_ipg fs" "frags_ok fs"
    using fs(1) by (simp_all add: geometry_sound_def)
  show frag: "int (frag_of fs) = m_frag fs" "0 < m_frag fs"
    using frags_ok_bounds [OF geo(4)] by (simp_all add: frag_of_def)
  have place: "16 \<le> m_sblkno fs * 2 ^ nat (m_fsbtodb fs)" "m_sblkno fs \<le> m_cblkno fs"
    using finishingD(3) [OF assms] by (simp_all add: placed_def)
  have "m_sblkno fs * 2 ^ nat (m_fsbtodb fs) \<le> m_cblkno fs * 2 ^ nat (m_fsbtodb fs)"
    using place(2) by (rule mult_right_mono) simp
  then have "16 \<le> m_cblkno fs * 2 ^ nat (m_fsbtodb fs)" using place(1) by linarith
  then show "16384 \<le> cg_address fs 0 * 1024" by (simp only: cg_address_def) simp
  show "cg_address fs 0 * 1024 + m_bsize fs = inode_address fs 0 * 1024" by (rule group_places(2) [OF fs r])
  show "inode_address fs 0 * 1024 + m_ipg fs * 128 = m_dblkno fs * m_fsize fs"
    by (simp add: inode_address_def lay algebra_simps)
  have cs: "0 \<le> m_cssize fs" using finishingD(6) [OF assms] by simp
  have "0 \<le> ceil_div (m_cssize fs) (m_fsize fs)" using cs finishingD(13) [OF assms] by (intro ceil_div_nonneg) simp_all
  then show "m_dblkno fs \<le> int (free_start fs 0)" using layout_starts(4) [OF fs(1) cs, of 0] by (simp add: data_start_def)
  have "free_start fs 0 \<le> group_size fs 0"
    using block_steps_bounds(1) [of "frag_of fs" 0 "free_start fs 0"] r frags_ok_bounds [OF geo(4)]
    by (simp add: block_steps_def group_room_def)
  then show "int (free_start fs 0) \<le> int (group_size fs 0)" by simp
  show "int (group_size fs 0) \<le> m_fpg fs" by (rule data_inside(2) [OF fs(1) r])
  show "m_bsize fs = m_frag fs * m_fsize fs" "0 < m_bsize fs" "m_ipg fs * 128 = int (nat (m_ipg fs) * 128)"
    using geo(1,2) frag(2) finishingD(13) [OF assms] by simp_all
  have "m_inopb fs \<le> m_ipg fs" using geo(2,3) by (intro zdvd_imp_le) simp_all
  then show "m_bsize fs \<le> m_ipg fs * 128" using finishingD(10) [OF assms] by simp
qed

lemma wtfs_grows: "wtfs bno k b s = (Inr (), t) \<Longrightarrow> fsize (fst (f_dev s)) \<le> fsize (fst (f_dev t))"
  by (auto simp: wtfs_def Let_def pwrite_def split: if_splits prod.splits sum.splits)

lemma wp_live_wtfs:
  assumes fs: "finishing fs" and s: "live fs s" and "0 \<le> bno"
    and apart: "bno * 1024 + int k \<le> cg_address fs 0 * 1024 \<or> inode_address fs 0 * 1024 \<le> bno * 1024"
    and Q: "\<And>t. live fs t \<Longrightarrow> f_acg t = f_acg s \<Longrightarrow> Q () t"
  shows "wp (wtfs bno k b) (\<lambda>_ _. False) Q s"
proof -
  have base: "cooperative s" "0 \<le> f_base s + bno * 1024" "0 \<le> f_base s" using s assms(3) by (simp_all add: live_def)
  obtain d where run: "wtfs bno k b s = (Inr (), s\<lparr>f_dev := d\<rparr>)" and host: "cooperative (s\<lparr>f_dev := d\<rparr>)"
    using wtfs_completes [OF base(1,2)] by blast
  note places = live_places [OF fs]
  have "first_group fs (s\<lparr>f_dev := d\<rparr>) i = first_group fs s i" if "i < nat (m_cgsize fs)" for i
  proof -
    have "int i < m_cgsize fs" using that by (simp add: zless_nat_eq_int_zless)
    then have "int i < m_bsize fs" using finishingD(8) [OF fs] by simp
    then show ?thesis
      using wtfs_frame [OF run, of "nat (f_base s + cg_address fs 0 * 1024) + i"] apart places(1,2) base(3)
      by (simp add: first_group_def) linarith?
  qed
  moreover have "fsize (fst (f_dev s)) \<le> fsize (fst d)"
    using wtfs_grows [OF run] by simp
  ultimately have "live fs (s\<lparr>f_dev := d\<rparr>)"
    using s host disk_ok_cong [OF fs, of "first_group fs (s\<lparr>f_dev := d\<rparr>)" "first_group fs s"] by (simp add: live_def)
  then show ?thesis using run Q [of "s\<lparr>f_dev := d\<rparr>"] by (simp add: wp_def)
qed

lemma wp_live_write_cg:
  assumes fs: "finishing fs" and s: "live fs s" "acg_ok fs (f_acg s)"
    and Q: "\<And>t. live fs t \<Longrightarrow> acg_ok fs (f_acg t) \<Longrightarrow> Q () t"
  shows "wp (write_cg_block (cg_address fs 0)) (\<lambda>_ _. False) Q s"
proof -
  note places = live_places [OF fs]
  have base: "cooperative s" "0 \<le> f_base s + cg_address fs 0 * 1024" "\<not> f_nflag s" "0 \<le> f_base s"
    and gs: "only_totals fs (f_sblock s)" using s places(1) by (simp_all add: live_def)
  have bsize: "m_bsize (f_sblock s) = m_bsize fs" "m_bsize fs \<le> MAXBSIZE" "0 < nat (m_bsize fs)"
    using only_totals_fields(10) [OF gs] finishingD(1) [OF fs] places(7) by (simp_all add: geometry_sound_def)
  obtain d where run: "wtfs (cg_address fs 0) (nat (m_bsize fs)) (format_swap_cg (f_acg s)) s = (Inr (), s\<lparr>f_dev := d\<rparr>)"
    and host: "cooperative (s\<lparr>f_dev := d\<rparr>)"
    using wtfs_completes [OF base(1,2)] by blast
  have "first_group fs (s\<lparr>f_dev := d\<rparr>) i = format_swap_cg (f_acg s) i" if "i < nat (m_cgsize fs)" for i
  proof -
    have "i < nat (m_bsize fs)" using that finishingD(8) [OF fs] by linarith
    then show ?thesis using wtfs_Inr(2) [OF run bsize(3) base(3)] by (simp add: first_group_def)
  qed
  then have "disk_ok fs (first_group fs (s\<lparr>f_dev := d\<rparr>))"
    using disk_ok_cong [OF fs, of "first_group fs (s\<lparr>f_dev := d\<rparr>)"] s(2) by (simp add: disk_ok_swap)
  moreover have "fsize (fst (f_dev s)) \<le> fsize (fst d)" using wtfs_grows [OF run] by simp
  ultimately have "live fs (s\<lparr>f_dev := d\<rparr>)" using s(1) host by (auto simp: live_def)
  then have "Q () (s\<lparr>f_dev := d\<rparr>)" using Q s(2) by simp
  then show ?thesis
    using run bsize(1,2) by (simp add: wp_def write_cg_block_def andthen_def Format.gets_def not_less)
qed

lemma wp_live_rdfs:
  assumes s: "live fs s" and off: "0 \<le> bno" "f_base s + bno * 1024 + int k \<le> int (fsize (fst (f_dev s)))"
    and Q: "\<And>t. live fs t \<Longrightarrow> f_acg t = f_acg s \<Longrightarrow>
      Q (blit b 0 k (\<lambda>i. file_byte (fst (f_dev s)) (nat (f_base s + bno * 1024) + i))) t"
  shows "wp (rdfs bno k b) (\<lambda>_ _. False) Q s"
proof -
  obtain f os where dev: "f_dev s = (f, os)" by fastforce
  let ?off = "f_base s + bno * 1024"
  have base: "0 \<le> ?off" "events os (ticks os) = OsFull"
    using s off(1) by (simp_all add: live_def cooperative_def dev)
  have fit: "nat ?off + k \<le> fsize f" using off(2) base(1) by (simp add: dev)
  then have "min k (fsize f - nat ?off) = k" by simp
  moreover have "blit b 0 k (\<lambda>i. fbytes f (nat ?off + i)) = blit b 0 k (\<lambda>i. file_byte f (nat ?off + i))"
    using fit by (auto simp: blit_def file_byte_def clip_def fun_eq_iff)
  moreover have "live fs (s\<lparr>f_dev := (f, tick os)\<rparr>)"
    using s by (simp add: live_def cooperative_def first_group_def dev tick_def)
  ultimately show ?thesis
    using base Q [of "s\<lparr>f_dev := (f, tick os)\<rparr>"]
    by (simp add: wp_def rdfs_def dev Let_def Format.DEV_BSIZE_def pread_def)
qed

lemma live_fits:
  assumes "finishing fs" "live fs s"
  shows "f_base s + cg_address fs 0 * 1024 + m_bsize fs \<le> int (fsize (fst (f_dev s)))"
    "f_base s + inode_address fs 0 * 1024 + m_bsize fs \<le> int (fsize (fst (f_dev s)))"
  using assms(2) live_places(2,7,8) [OF assms(1)] by (simp_all add: live_def)

lemma wp_live_read_cg:
  assumes fs: "finishing fs" and s: "live fs s"
    and Q: "\<And>t. live fs t \<Longrightarrow> acg_ok fs (f_acg t) \<Longrightarrow> Q () t"
  shows "wp (read_cg_block (cg_address fs 0)) (\<lambda>_ _. False) Q s"
proof -
  note places = live_places [OF fs]
  have gs: "only_totals fs (f_sblock s)" using s by (simp add: live_def)
  have size: "m_cgsize (f_sblock s) = m_cgsize fs" "0 \<le> m_cgsize fs" "m_cgsize fs \<le> MAXBSIZE"
    using finishing_only(16) [OF gs] finishingD(1,7,8) [OF fs] by (auto simp: geometry_sound_def)
  let ?b = "blit (f_acg s) 0 (nat (m_cgsize fs)) (first_group fs s)"
  have "disk_ok fs ?b"
    using disk_ok_cong [OF fs, of ?b "first_group fs s"] s by (simp add: live_def blit_def)
  moreover have "wp (rdfs (cg_address fs 0) (nat (m_cgsize fs)) (f_acg s)) (\<lambda>_ _. False)
      (\<lambda>b t. b = ?b \<and> live fs t) s"
    by (rule wp_live_rdfs [OF s]) (use places(1) live_fits(1) [OF fs s] size(2) finishingD(8) [OF fs] in \<open>auto simp: first_group_def\<close>)
  ultimately have "wp (rdfs (cg_address fs 0) (nat (m_cgsize fs)) (f_acg s)) (\<lambda>_ _. False)
      (\<lambda>b t. Q () (t\<lparr>f_acg := format_swap_cg b\<rparr>)) s"
    by (elim wp_mono) (auto intro!: Q simp: disk_ok_swap)
  then show ?thesis
    using size by (simp add: read_cg_block_def wp_simps)
qed

section \<open>The first directories\<close>

lemma block_range:
  assumes "finishing fs" "0 \<le> x" "x \<le> m_fpg fs"
  shows "fsbtodb fs x s = (Inr (x * 2 ^ nat (m_fsbtodb fs)), s)" "x < 2 ^ 30"
proof -
  have fs: "m_nspf fs = 2 ^ nat (m_fsbtodb fs)" "m_ncg fs * m_fpg fs * m_nspf fs < 2 ^ 30"
    using finishingD(2) [OF assms(1)] unfolding layout_sound_def by blast+
  have big: "(2 :: int) ^ 30 = 1073741824" "(2 :: int) ^ 31 = 2147483648" by simp_all
  have "1 * m_fpg fs \<le> m_ncg fs * m_fpg fs" using finishingD(4) [OF assms(1)] assms(2,3) by (intro mult_right_mono) simp_all
  then have "x \<le> m_ncg fs * m_fpg fs" using assms(3) by simp
  then have "x * 2 ^ nat (m_fsbtodb fs) \<le> m_ncg fs * m_fpg fs * 2 ^ nat (m_fsbtodb fs)" by (rule mult_right_mono) simp
  also have "\<dots> < 2 ^ 30" using fs(2) unfolding fs(1) .
  finally have top: "x * 2 ^ nat (m_fsbtodb fs) < 2 ^ 30" .
  have "x * 1 \<le> x * 2 ^ nat (m_fsbtodb fs)" using assms(2) by (intro mult_left_mono) simp_all
  then show "x < 2 ^ 30" using top by simp
  have "0 \<le> x * 2 ^ nat (m_fsbtodb fs)" using assms(2) by simp
  then show "fsbtodb fs x s = (Inr (x * 2 ^ nat (m_fsbtodb fs)), s)"
    using top unfolding Format.fsbtodb_def i32_def big by (simp add: ret_def)
qed

lemma first_addresses:
  fixes k :: "int \<Rightarrow> ('s, 'a) io"
  assumes "finishing fs"
  shows "andthen (cgtod fs 0) (\<lambda>c. andthen (fsbtodb fs c) k) = k (cg_address fs 0)"
    "andthen (cgimin fs 0) (\<lambda>c. andthen (i32 c) (\<lambda>d. andthen (fsbtodb fs d) k)) = k (inode_address fs 0)"
proof -
  have c: "int 0 < m_ncg fs" using finishingD(4) [OF assms] by simp
  note at = addresses_fit [OF finishingD(1,2) [OF assms] data_inside_room [OF finishingD(1) [OF assms] finishingD(5) [OF assms c]] c]
  have "0 \<le> m_iblkno fs" "m_iblkno fs \<le> m_dblkno fs" using finishingD(3) [OF assms] by (simp_all add: placed_def)
  then have i: "0 \<le> m_iblkno fs" "m_iblkno fs < 2 ^ 30"
    using block_range(2) [OF assms, of "m_iblkno fs"] live_places(4-6) [OF assms] by simp_all
  have "i32 (m_iblkno fs) s = (Inr (m_iblkno fs), s)" for s :: 's
    using i by (simp add: i32_def ret_def)
  moreover have "cgtod fs 0 s = (Inr (m_cblkno fs), s)" "cgimin fs 0 s = (Inr (m_iblkno fs), s)"
    "fsbtodb fs (m_cblkno fs) s = (Inr (cg_address fs 0), s)" "fsbtodb fs (m_iblkno fs) s = (Inr (inode_address fs 0), s)"
    for s :: 's using at(5-8) [of s] by simp_all
  ultimately show "andthen (cgtod fs 0) (\<lambda>c. andthen (fsbtodb fs c) k) = k (cg_address fs 0)"
    "andthen (cgimin fs 0) (\<lambda>c. andthen (i32 c) (\<lambda>d. andthen (fsbtodb fs d) k)) = k (inode_address fs 0)"
    by (simp_all add: fun_eq_iff andthen_def)
qed

lemma sint_of_small_nat: "int n < 2 ^ 30 \<Longrightarrow> sint (of_nat n :: u32) = int n"
  using signed_take_bit_int_eq_self [of 31 "int n"] by (simp add: signed_of_nat)

text \<open>A block that is found free lies in the data.\<close>

lemma first_block_place:
  assumes fs: "finishing fs" and b: "acg_ok fs b" and found: "first_block fs b = Some d"
  shows "free_start fs 0 \<le> d" "int d < m_fpg fs"
proof -
  let ?F = "frag_of fs" and ?n = "group_size fs 0"
  note places = live_places [OF fs]
  have ok: "?F \<in> {1, 2, 4, 8}" "0 < ?F"
    using finishingD(1) [OF fs] frags_ok_bounds [of fs] by (auto simp: geometry_sound_def frags_ok_def)
  have "int ?n < 2 ^ 30" using block_range(2) [OF fs, of "int ?n"] places(6) by simp
  then have "nat (cg_int 20 b) = ?n"
    using b by (simp add: acg_ok_def cg_int_def sint_of_small_nat)
  then have find: "d \<in> set (block_list ?F 0 (block_steps ?F 0 ?n))" "format_isblock fs b (d div ?F)"
    using found by (auto simp: first_block_def frag_of_def [symmetric] find_Some_iff)
  then obtain k where k: "d = k * ?F" by (auto simp: block_list_def)
  have "block_steps ?F 0 ?n * ?F < ?n + ?F" using block_steps_bounds [of ?F 0 ?n] ok(2) by simp
  then have d: "d < ?n" using block_list_less [OF find(1), of ?n] by simp
  then show "int d < m_fpg fs" using places(6) by simp
  have "isblock ?F b CG_FREE k = Some True" using find(2) k ok(2) by (simp add: format_isblock_def frag_of_def)
  then have "free_map b d"
    using isblock_eq [OF ok(1)] ok(2) by (auto simp: block_is_free_iff k free_map_def CG_FREE_eq)
  then show "free_start fs 0 \<le> d" using b d by (simp add: acg_ok_def)
qed

lemma alloc_group_keeps:
  assumes fs: "finishing fs" and b: "acg_ok fs b" and d: "free_start fs 0 \<le> d" "int d < m_fpg fs" and sz: "0 < sz"
  shows "\<exists>left c. alloc_group fs sz d b = Some (left, c) \<and> acg_ok fs c"
proof -
  have ok: "frags_ok fs" using finishingD(1) [OF fs] by (simp add: geometry_sound_def)
  let ?F = "frag_of fs"
  let ?b = "add32 24 1 (add32 28 (- 1) (format_clrblock fs (d div ?F) b))"
  obtain c where c: "count_block fs (int d) (- 1) ?b = Some c" using count_block_Some [OF finishingD(2) [OF fs] d(2)] by blast
  have cells: "get32 c p = get32 b p" if "p = 20 \<or> p = 980" for p
  proof -
    have "get32 c p = get32 ?b p"
      using that count_block_frame(3) [OF c] by (intro get32_cong) auto
    also have "\<dots> = get32 (format_clrblock fs (d div ?F) b) p" using that by (auto simp: cell_simps)
    also have "\<dots> = get32 b p" using that format_clrblock_map(2) [OF ok] by (intro get32_cong) auto
    finally show ?thesis .
  qed
  have map: "free_map c k \<Longrightarrow> free_map b k" for k
    using format_clrblock_map(1) [OF ok] by (simp add: count_block_frame(2) [OF c] cell_simps)
  show ?thesis
  proof (cases "sz = m_bsize fs")
    case True
    then show ?thesis
      using b c cells map by (intro exI) (auto simp: alloc_group_def Let_def frag_of_def acg_ok_def)
  next
    case False
    let ?n = "nat (ceil_div sz (m_fsize fs))"
    let ?left = "?F - ?n"
    let ?c = "set_bits CG_FREE [d + ?n..<d + ?F] (add32 (52 + ?left * 4) 1 (add32 36 (int ?left) c))"
    have left: "?left \<le> 8" using frags_ok_bounds [OF ok] by auto
    have "get32 ?c p = get32 b p" if "p = 20 \<or> p = 980" for p
      using that left cells [OF that] by (auto simp: cell_simps FsckPasses.CG_FREE_def)
    moreover have "free_map ?c k \<longleftrightarrow> free_map c k \<or> k \<in> {d + ?n..<d + ?F}" for k
      using left by (simp add: cell_simps)
    ultimately have "acg_ok fs ?c" using b map d(1) by (auto simp: acg_ok_def)
    then show ?thesis using False c by (simp add: alloc_group_def Let_def frag_of_def)
  qed
qed

lemma wp_live_alloc:
  assumes fs: "finishing fs" and s: "live fs s" and sz: "0 < sz"
    and Q: "\<And>d t. live fs t \<Longrightarrow> d = 0 \<or> int (free_start fs 0) \<le> d \<Longrightarrow> 0 \<le> d \<Longrightarrow> d \<le> m_fpg fs \<Longrightarrow> Q d t"
  shows "wp (alloc sz) (\<lambda>_ _. False) Q s"
proof -
  have gs: "only_totals fs (f_sblock s)" using s by (simp add: live_def)
  have fpg: "0 \<le> m_fpg fs" using finishingD(1) [OF fs] by (simp add: geometry_sound_def)
  note same = finishing_only(1,4-7) [OF gs]
  have cs: "\<not> m_cssize fs < 16" using finishingD(6) [OF fs] by simp
  show ?thesis
    unfolding alloc_def
  proof (simp only: wp_gets_then same first_addresses [OF fs] wp_andthen [where m = "read_cg_block b" for b],
      rule wp_live_read_cg [OF fs s], simp only: wp_gets_then)
    fix t assume t: "live fs t" "acg_ok fs (f_acg t)"
    let ?b = "f_acg t"
    have magic: "cg_int 980 ?b = FsckPasses.CG_MAGIC"
      using t(2) by (simp add: acg_ok_def cg_int_def FsckPasses.CG_MAGIC_def)
    have none: "wp (ret 0) (\<lambda>_ _. False) Q t" using Q [OF t(1)] fpg by (simp add: wp_ret)
    have some: "wp (case alloc_group fs sz d ?b of None \<Rightarrow> fail UNDEF | Some (left, b) \<Rightarrow>
         andthen (edit_acg (\<lambda>_. b)) (\<lambda>_.
         andthen (edit_sblock (\<lambda>fs. add_totals_alloc fs 1 (- 1) (of_nat left))) (\<lambda>_.
         andthen (edit_csums (\<lambda>cs. add32 12 (int left) (add32 0 1 (add32 4 (- 1) cs)))) (\<lambda>_.
         andthen (write_cg_block (cg_address fs 0)) (\<lambda>_.
         ret (int d)))))) (\<lambda>_ _. False) Q t" if d: "first_block fs ?b = Some d" for d
    proof -
      note place = first_block_place [OF fs t(2) d]
      obtain left c where c: "alloc_group fs sz d ?b = Some (left, c)" "acg_ok fs c"
        using alloc_group_keeps [OF fs t(2) place sz] by blast
      let ?t = "t\<lparr>f_acg := c, f_sblock := add_totals_alloc (f_sblock t) 1 (- 1) (of_nat left),
        f_csums := add32 12 (int left) (add32 0 1 (add32 4 (- 1) (f_csums t)))\<rparr>"
      have "live fs ?t"
        using t(1) by (simp add: live_def cooperative_def first_group_def)
      then have "wp (write_cg_block (cg_address fs 0)) (\<lambda>_ _. False) (\<lambda>_. Q (int d)) ?t"
        by (rule wp_live_write_cg [OF fs]) (use c(2) Q place in auto)
      then show ?thesis by (simp add: c(1) wp_simps)
    qed
    show "wp (if cg_int 980 ?b \<noteq> FsckPasses.CG_MAGIC then ret 0 else if get32 ?b 28 = 0 then ret 0
       else case first_block fs ?b of None \<Rightarrow> ret 0
       | Some d \<Rightarrow> if m_cssize fs < 16 then fail UNDEF
         else case alloc_group fs sz d ?b of None \<Rightarrow> fail UNDEF
         | Some (left, b) \<Rightarrow>
           andthen (edit_acg (\<lambda>_. b)) (\<lambda>_.
           andthen (edit_sblock (\<lambda>fs. add_totals_alloc fs 1 (- 1) (of_nat left))) (\<lambda>_.
           andthen (edit_csums (\<lambda>cs. add32 12 (int left) (add32 0 1 (add32 4 (- 1) cs)))) (\<lambda>_.
           andthen (write_cg_block (cg_address fs 0)) (\<lambda>_.
           ret (int d)))))) (\<lambda>_ _. False) Q t"
      using none some cs by (cases "first_block fs ?b") (simp_all add: magic)
  qed
qed


lemma wp_live_malloc: "live fs s \<Longrightarrow> (\<And>t. live fs t \<Longrightarrow> f_acg t = f_acg s \<Longrightarrow> Q True t) \<Longrightarrow> wp format_malloc (\<lambda>_ _. False) Q s"
  by (auto simp: wp_def format_malloc_def malloc_def tick_def live_def cooperative_def first_group_def Let_def
      split: prod.splits)

lemma wp_live_write_inodes:
  assumes "finishing fs" "live fs s" and Q: "\<And>t. live fs t \<Longrightarrow> Q () t"
  shows "wp (write_inode_block (inode_address fs 0) k dp) (\<lambda>_ _. False) Q s"
proof -
  have "0 \<le> inode_address fs 0" using live_places(1,2,7) [OF assms(1)] by linarith
  then show ?thesis
    unfolding write_inode_block_def
    by (subst wp_andthen, intro wp_live_malloc [OF assms(2)])
      (simp, intro wp_live_wtfs [OF assms(1)], simp_all add: Q)
qed

lemma wp_live_read_inodes:
  assumes fs: "finishing fs" and s: "live fs s" and Q: "\<And>b t. live fs t \<Longrightarrow> Q b t"
  shows "wp (read_inode_block (inode_address fs 0)) (\<lambda>_ _. False) Q s"
proof -
  have gs: "only_totals fs (f_sblock s)" using s by (simp add: live_def)
  have size: "m_bsize (f_sblock s) = m_bsize fs" "m_bsize fs \<le> MAXBSIZE" "int (nat (m_bsize fs)) = m_bsize fs"
    using finishing_only(10) [OF gs] finishingD(1) [OF fs] live_places(7) [OF fs] by (auto simp: geometry_sound_def)
  have "0 \<le> inode_address fs 0" using live_places(1,2,7) [OF fs] by linarith
  then show ?thesis
    using size live_fits(2) [OF fs s]
    by (simp add: read_inode_block_def wp_simps) (intro wp_live_rdfs [OF s]; simp add: Q)
qed

lemma wp_live_iput:
  assumes fs: "finishing fs" and s: "live fs s" and ino: "ino < 4" and Q: "\<And>t. live fs t \<Longrightarrow> Q () t"
  shows "wp (iput ino ic) (\<lambda>_ _. False) Q s"
proof -
  have gs: "only_totals fs (f_sblock s)" using s by (simp add: live_def)
  note same = finishing_only(1-4,7-9,13,14) [OF gs]
  have cs: "\<not> m_cssize fs < 16" using finishingD(6) [OF fs] by simp
  have inopb: "4 \<le> m_inopb fs" "m_inopb fs \<le> m_ipg fs"
    using finishingD(10,11) [OF fs] live_places(8) [OF fs] by simp_all
  have few: "\<not> m_ipg fs * m_ncg fs \<le> int ino" "ino div nat (m_ipg fs) = 0" "ino mod nat (m_ipg fs) = ino"
    "ino div nat (m_inopb fs) = 0"
  proof -
    have "m_ipg fs * 1 \<le> m_ipg fs * m_ncg fs" using inopb finishingD(4) [OF fs] by (intro mult_left_mono) simp_all
    then show "\<not> m_ipg fs * m_ncg fs \<le> int ino" using inopb ino by linarith
    show "ino div nat (m_ipg fs) = 0" "ino mod nat (m_ipg fs) = ino" "ino div nat (m_inopb fs) = 0"
      using inopb ino by simp_all
  qed
  have last: "wp (andthen (cgimin fs 0) (\<lambda>im. andthen (i32 im) (\<lambda>d. andthen (fsbtodb fs d) (\<lambda>blk.
      andthen (read_inode_block blk) (\<lambda>dp. write_inode_block blk k (u dp)))))) (\<lambda>_ _. False) Q t" if "live fs t" for t k u
    by (simp add: first_addresses [OF fs] wp_simps)
      (intro wp_live_read_inodes [OF fs that] wp_live_write_inodes [OF fs] Q)
  show ?thesis
    unfolding iput_def Let_def
  proof (simp only: wp_gets_then same first_addresses [OF fs] wp_andthen [where m = "read_cg_block b" for b],
      rule wp_live_read_cg [OF fs s], simp only: wp_gets_then)
    fix t assume t: "live fs t" "acg_ok fs (f_acg t)"
    let ?b = "set_bit8 CG_IUSED ino (add32 32 (- 1) (f_acg t))"
    have magic: "cg_int 980 (f_acg t) = FsckPasses.CG_MAGIC"
      using t(2) by (simp add: acg_ok_def cg_int_def FsckPasses.CG_MAGIC_def)
    have b: "acg_ok fs ?b"
    proof -
      let ?c = "add32 32 (- 1) (f_acg t)"
      have rest: "?b i = ?c i" if "i < 724 \<or> 980 \<le> i" for i
        using that ino by (auto simp: set_bit8_def FsckPasses.CG_IUSED_def)
      have "get32 ?b 980 = get32 ?c 980" "get32 ?b 20 = get32 ?c 20" "free_map ?b = free_map ?c"
        by (intro get32_cong free_map_cong rest; simp add: CG_FREE_OFF_def)+
      then show ?thesis using t(2) by (simp add: acg_ok_def cell_simps)
    qed
    have more: "live fs (u\<lparr>f_sblock := (f_sblock u)\<lparr>m_cs_nifree := x\<rparr>\<rparr>)" if "live fs u" for u x
      using that by (simp add: live_def cooperative_def first_group_def)
    show "wp (if cg_int 980 (f_acg t) \<noteq> FsckPasses.CG_MAGIC then format_abort else
      andthen (edit_acg (\<lambda>b. set_bit8 CG_IUSED ino (add32 32 (- 1) b))) (\<lambda>_.
      andthen (write_cg_block (cg_address fs 0)) (\<lambda>_.
      andthen (edit_sblock (\<lambda>fs. fs\<lparr>m_cs_nifree := m_cs_nifree fs - 1\<rparr>)) (\<lambda>_.
      if m_cssize fs < 16 then fail UNDEF
      else
      andthen (edit_csums (add32 8 (- 1))) (\<lambda>_.
      if m_ipg fs * m_ncg fs \<le> int ino then format_abort
      else
      andthen (cgimin fs (int (ino div nat (m_ipg fs)))) (\<lambda>im.
      andthen (i32 (im + int (ino mod nat (m_ipg fs) div nat (m_inopb fs)) * 2 ^ nat (m_fragshift fs))) (\<lambda>d.
      andthen (fsbtodb fs d) (\<lambda>blk.
      andthen (read_inode_block blk) (\<lambda>dp.
      write_inode_block blk (nat (m_inopb fs)) (blit dp (ino mod nat (m_inopb fs) * 128) 128 ic))))))))))
      (\<lambda>_ _. False) Q t"
      unfolding few magic
      by (subst if_not_P, simp, simp only: wp_andthen [where m = "edit_acg v" for v] wp_andthen [where m = "write_cg_block v" for v] wp_fmt,
          rule wp_live_write_cg [OF fs])
        (use t(1) b cs few(1) in \<open>auto simp: wp_andthen [where m = "edit_sblock v" for v] wp_andthen [where m = "edit_csums v" for v]
          wp_fmt intro!: last more\<close>)
qed
qed

lemma wp_live_directory:
  assumes fs: "finishing fs" and s: "live fs s" and d: "d = 0 \<or> int (free_start fs 0) \<le> d" "0 \<le> d" "d \<le> m_fpg fs"
    and sz: "sz \<le> m_bsize fs" and Q: "\<And>t. live fs t \<Longrightarrow> Q () t"
  shows "wp (andthen (fsbtodb fs d) (\<lambda>blk. write_dir_block blk sz b)) (\<lambda>_ _. False) Q s"
proof -
  let ?blk = "d * 2 ^ nat (m_fsbtodb fs)"
  note places = live_places [OF fs]
  have fsize: "m_fsize fs = 1024 * 2 ^ nat (m_fsbtodb fs)" using finishingD(2) [OF fs] by (simp add: layout_sound_def)
  have "m_bsize fs \<le> 8192" using finishingD(1) [OF fs] by (simp add: geometry_sound_def Format.MAXBSIZE_def)
  moreover have "inode_address fs 0 * 1024 \<le> ?blk * 1024" if "int (free_start fs 0) \<le> d"
  proof -
    have "m_dblkno fs * m_fsize fs \<le> d * m_fsize fs" using places(4) that fsize by (intro mult_right_mono) simp_all
    moreover have "d * m_fsize fs = ?blk * 1024" by (simp add: fsize)
    ultimately show ?thesis using places(3,7,8) by linarith
  qed
  ultimately have "?blk * 1024 + int (nat sz) \<le> cg_address fs 0 * 1024 \<or> inode_address fs 0 * 1024 \<le> ?blk * 1024"
    using d(1) sz places(1,7) by auto
  then have "wp (wtfs ?blk (nat sz) b) (\<lambda>_ _. False) Q s"
    using d(2) by (intro wp_live_wtfs [OF fs s] Q) simp_all
  then show ?thesis by (simp add: wp_def andthen_def block_range(1) [OF fs d(2,3)] write_dir_block_def)
qed

lemma andthen_assoc: "andthen (andthen m k) l = andthen m (\<lambda>x. andthen (k x) l)"
  by (auto simp: andthen_def fun_eq_iff split: prod.splits sum.splits)

lemma wp_live_made_directory:
  assumes fs: "finishing fs" and s: "live fs s" and sz: "0 < sz" "sz \<le> m_bsize fs" and ino: "ino < 4"
    and Q: "\<And>t. live fs t \<Longrightarrow> Q () t"
  shows "wp (andthen (alloc sz) (\<lambda>d. andthen (fsbtodb fs d) (\<lambda>blk. andthen (write_dir_block blk sz b) (\<lambda>_. iput ino (ic d)))))
    (\<lambda>_ _. False) Q s"
  unfolding wp_andthen [where m = "alloc sz"]
proof (rule wp_live_alloc [OF fs s sz(1)])
  fix d t assume d: "live fs t" "d = 0 \<or> int (free_start fs 0) \<le> d" "0 \<le> d" "d \<le> m_fpg fs"
  have "wp (andthen (fsbtodb fs d) (\<lambda>blk. write_dir_block blk sz b)) (\<lambda>_ _. False) (\<lambda>_. wp (iput ino (ic d)) (\<lambda>_ _. False) Q) t"
    by (intro wp_live_directory [OF fs d(1) d(2-4) sz(2)] wp_live_iput [OF fs _ ino] Q)
  then show "wp (andthen (fsbtodb fs d) (\<lambda>blk. andthen (write_dir_block blk sz b) (\<lambda>_. iput ino (ic d)))) (\<lambda>_ _. False) Q t"
    by (simp add: wp_andthen)
qed

lemma wp_live_fsinit:
  assumes fs: "finishing fs" and s: "live fs s" and Q: "\<And>t. live fs t \<Longrightarrow> Q () t"
  shows "wp fsinit (\<lambda>_ _. False) Q s"
proof -
  have gs: "only_totals fs (f_sblock s)" using s by (simp add: live_def)
  note same = finishing_only(4,10,11) [OF gs]
  have sizes: "0 < m_bsize fs" "0 < m_fsize fs" "m_fsize fs \<le> m_bsize fs"
    using live_places(7,10,12) [OF fs] finishingD(13) [OF fs] by auto
  let ?first = "\<lambda>sz b (ic :: int \<Rightarrow> buf) ino. andthen (alloc sz) (\<lambda>d. andthen (fsbtodb fs d)
    (\<lambda>blk. andthen (write_dir_block blk sz b) (\<lambda>_. iput ino (ic d))))"
  have made: "fsinit = andthen (Format.gets (\<lambda>s. (f_sblock s, f_utime s))) (\<lambda>(fs, now).
     andthen (andthen (alloc (m_bsize fs)) (\<lambda>d. andthen (fsbtodb fs d) (\<lambda>blk.
       andthen (write_dir_block blk (m_bsize fs) (lost_found_block (m_bsize fs))) (\<lambda>_.
       iput LOSTFOUNDINO (directory_inode fs now 2 (m_bsize fs) d))))) (\<lambda>_.
     andthen (alloc (m_fsize fs)) (\<lambda>d. andthen (fsbtodb fs d) (\<lambda>blk.
     andthen (write_dir_block blk (m_fsize fs) (makedir root_dir)) (\<lambda>_.
     iput ROOTINO (directory_inode fs now 3 1024 d))))))"
    unfolding fsinit_def andthen_assoc ..
  show ?thesis
    unfolding made wp_gets_then prod.case same wp_andthen [where m = "andthen m k" for m k]
    by (intro wp_live_made_directory [OF fs] s Q sizes order_refl; simp add: LOSTFOUNDINO_def ROOTINO_def)
qed

section \<open>The last writes\<close>

definition going :: "format_sblock \<Rightarrow> format_ctx \<Rightarrow> bool" where
  "going fs s \<longleftrightarrow> cooperative s \<and> 0 \<le> f_base s \<and> only_totals fs (f_sblock s)"

lemma wp_in_turn:
  assumes "\<And>x s. x \<in> set xs \<Longrightarrow> K s \<Longrightarrow> wp (f x) E (\<lambda>_. K) s"
  shows "K s \<Longrightarrow> wp (in_turn f xs) E (\<lambda>_. K) s"
  using assms
proof (induction xs arbitrary: s)
  case (Cons x xs)
  have "wp (f x) E (\<lambda>_. K) s" using Cons.prems by simp
  then have "wp (f x) E (\<lambda>_. wp (in_turn f xs) E (\<lambda>_. K)) s" by (rule wp_mono) (use Cons in auto)
  then show ?case by (simp add: wp_andthen)
qed (simp add: wp_ret)

lemma wp_going_wtfs:
  assumes "going fs s" "0 \<le> bno"
  shows "wp (wtfs bno k b) (\<lambda>_ _. False) (\<lambda>_. going fs) s"
proof -
  have s: "cooperative s" "0 \<le> f_base s + bno * 1024" using assms by (simp_all add: going_def)
  obtain d where "wtfs bno k b s = (Inr (), s\<lparr>f_dev := d\<rparr>)" "cooperative (s\<lparr>f_dev := d\<rparr>)"
    using wtfs_completes [OF s] by blast
  then show ?thesis using assms(1) by (simp add: wp_def going_def)
qed

lemma wp_going_superblock: "going fs s \<Longrightarrow> 0 \<le> bno \<Longrightarrow> wp (write_superblock bno) (\<lambda>_ _. False) (\<lambda>_. going fs) s"
  by (simp add: write_superblock_def wp_simps wp_going_wtfs)

lemma wp_going_summary:
  assumes fs: "finishing fs" and s: "going fs s" and k: "int k < ceil_div (m_cssize fs) (m_bsize fs)"
  shows "wp (write_summary k) (\<lambda>_ _. False) (\<lambda>_. going fs) s"
proof -
  have gs: "only_totals fs (f_sblock s)" using s by (simp add: going_def)
  note same = finishing_only(4,7,10,15,17) [OF gs] and places = live_places [OF fs]
  let ?x = "m_csaddr fs + int k * m_frag fs"
  have fsize: "0 < m_fsize fs" "m_bsize fs = m_frag fs * m_fsize fs" using finishingD(13) [OF fs] places(10) by simp_all
  have "(int k + 1) * m_bsize fs \<le> ceil_div (m_cssize fs) (m_bsize fs) * m_bsize fs"
    using k places(7) by (intro mult_right_mono) simp_all
  also have "\<dots> \<le> m_cssize fs + (m_bsize fs - 1)"
    unfolding ceil_div_def by (rule quotient_le [OF places(7)])
  finally have i: "int k * m_bsize fs < m_cssize fs" by (simp add: algebra_simps)
  also have "\<dots> \<le> ceil_div (m_cssize fs) (m_fsize fs) * m_fsize fs" by (rule ceil_div_covers [OF fsize(1)])
  finally have "int k * m_frag fs * m_fsize fs < ceil_div (m_cssize fs) (m_fsize fs) * m_fsize fs" by (simp add: fsize(2) mult.assoc)
  then have "int k * m_frag fs < ceil_div (m_cssize fs) (m_fsize fs)" using fsize(1) by simp
  moreover have "int (free_start fs 0) = m_dblkno fs + ceil_div (m_cssize fs) (m_fsize fs)"
    using layout_starts(4) [OF finishingD(1) [OF fs], of 0] finishingD(6) [OF fs] by (simp add: data_start_def)
  moreover have at: "m_csaddr fs = m_dblkno fs" "0 \<le> m_dblkno fs" using finishingD(3) [OF fs] by (auto simp: placed_def)
  ultimately have x: "0 \<le> ?x" "?x \<le> m_fpg fs" using places(5,6,12) by simp_all
  have "numfrags fs (int k * m_bsize fs) = int k * m_frag fs"
    using fsize finishingD(12) [OF fs] by (simp add: numfrags_def)
  then have run: "andthen (i32 (m_csaddr fs + numfrags fs (int k * m_bsize fs))) (\<lambda>d. andthen (fsbtodb fs d) g) =
      g (?x * 2 ^ nat (m_fsbtodb fs))" for g :: "int \<Rightarrow> unit fmt"
    using block_range(2) [OF fs x] x(1) by (simp add: block_range(1) [OF fs x] fun_eq_iff andthen_def i32_def ret_def)
  have small: "nat MAXBSIZE < nat (min (m_cssize fs - int k * m_bsize fs) (m_bsize fs)) \<longleftrightarrow> False"
    using finishingD(1) [OF fs] by (auto simp: geometry_sound_def)
  show ?thesis
    unfolding write_summary_def Let_def wp_gets_then prod.case same run write_csum_block_def small if_False
    using x(1) by (intro wp_going_wtfs [OF s]) simp
qed

lemma wp_going_copy:
  assumes fs: "finishing fs" and s: "going fs s" and c: "int c < m_ncg fs"
  shows "wp (write_copy c) (\<lambda>_ _. False) (\<lambda>_. going fs) s"
proof -
  have gs: "only_totals fs (f_sblock s)" using s by (simp add: going_def)
  note same = finishing_only(3,4) [OF gs]
  note at = addresses_fit [OF finishingD(1,2) [OF fs] data_inside_room [OF finishingD(1) [OF fs] finishingD(5) [OF fs c]] c]
  let ?start = "m_fpg fs * int c + m_cgoffset fs * (int c AND NOT (m_cgmask fs))" and ?k = "2 ^ nat (m_fsbtodb fs) :: int"
  have place: "0 \<le> ?start" "0 \<le> m_sblkno fs" "m_sblkno fs \<le> m_cblkno fs"
    using group_start [OF finishingD(3) [OF fs], of "int c"] finishingD(3) [OF fs] by (simp_all add: placed_def)
  have top: "(?start + m_cblkno fs) * ?k < 2 ^ 31"
    using at(8) [of s] by (auto simp: Format.fsbtodb_def i32_def split: if_splits)
  have "(?start + m_sblkno fs) * ?k \<le> (?start + m_cblkno fs) * ?k" using place(3) by (intro mult_right_mono) simp_all
  then have up: "(?start + m_sblkno fs) * ?k < 2 ^ 31" using top by linarith
  have low: "0 \<le> (?start + m_sblkno fs) * ?k" using place(1,2) by simp
  then have "fsbtodb fs (?start + m_sblkno fs) s = (Inr ((?start + m_sblkno fs) * ?k), s)"
    using up unfolding Format.fsbtodb_def i32_def by (simp add: ret_def)
  then show ?thesis
    using wp_going_superblock [OF s low] at(3) [of s]
    unfolding write_copy_def wp_gets_then same by (simp add: wp_def andthen_def)
qed

lemma wp_going_metadata:
  assumes fs: "finishing fs" and s: "going fs s"
  shows "wp write_metadata (\<lambda>_ _. False) (\<lambda>_. going fs) s"
proof -
  have s': "going fs (s\<lparr>f_sblock := (f_sblock s)\<lparr>m_time := f_utime s\<rparr>\<rparr>)" using s by (simp add: going_def cooperative_def)
  have "wp (in_turn write_summary [0..<nat (ceil_div (m_cssize (f_sblock t)) (m_bsize (f_sblock t)))]) (\<lambda>_ _. False)
      (\<lambda>_. wp (in_turn write_copy [0..<nat (m_ncg (f_sblock t))]) (\<lambda>_ _. False) (\<lambda>_. going fs)) t" if t: "going fs t" for t
  proof -
    have gs: "only_totals fs (f_sblock t)" using t by (simp add: going_def)
    show ?thesis
      unfolding finishing_only(7,10,14) [OF gs]
      by (rule wp_mono [OF wp_in_turn [where K = "going fs", OF wp_going_summary [OF fs]]])
        (auto intro!: t wp_in_turn wp_going_copy [OF fs])
  qed
  then show ?thesis
    unfolding write_metadata_def wp_andthen wp_fmt
    by (intro wp_mono [OF wp_going_superblock [OF s']]) (simp_all add: Format.SBLOCK_def)
qed

section \<open>Behind the groups\<close>

lemma write_inode_block_size:
  assumes "write_inode_block bno n b s = (Inr (), t)" "\<not> f_nflag s" "0 < n"
  shows "f_base s + bno * 1024 + int (n * 128) \<le> int (fsize (fst (f_dev t)))"
proof -
  obtain d where "wtfs bno (n * 128) (format_swap_inodes n (clip (n * 128) b)) (s\<lparr>f_dev := d\<rparr>) = (Inr (), t)"
    using assms(1) by (auto simp: write_inode_block_def andthen_Inr format_malloc_def format_abort_def fail_def
      split: if_splits prod.splits)
  from wtfs_size [OF this] assms(2,3) show ?thesis by simp
qed

lemma initcg_size:
  assumes run: "initcg c s = (Inr (), t)" and "\<not> f_nflag s" "0 < m_ipg (f_sblock s)"
  shows "f_base s + inode_address (f_sblock s) c * 1024 + m_ipg (f_sblock s) * 128 \<le> int (fsize (fst (f_dev t)))"
proof -
  let ?fs = "f_sblock s"
  have ipg: "\<not> (m_ipg ?fs < 0 \<or> MAXIPG < m_ipg ?fs)"
    using run by (auto simp: initcg_def andthen_Inr fail_def Let_def split: if_splits)
  obtain u v w new x k where
    inodes: "write_inode_block (inode_address ?fs c) (nat (m_ipg ?fs)) (\<lambda>_. 0) (s\<lparr>f_acg := u\<rparr>) = (Inr (), v)"
    and cg: "write_cg_block k (v\<lparr>f_acg := new, f_sblock := x, f_csums := w\<rparr>) = (Inr (), t)"
    using run ipg unfolding initcg_def Let_def inode_address_def
    by (clarsimp simp: andthen_Inr i32_Inr fail_def split: option.splits split del: if_split dest!: addresses_Inr)
  have "f_base s + inode_address ?fs c * 1024 + int (nat (m_ipg ?fs) * 128) \<le> int (fsize (fst (f_dev v)))"
    using write_inode_block_size [OF inodes] assms(2,3) by simp
  also have "\<dots> \<le> int (fsize (fst (f_dev t)))"
    using cg by (auto simp: write_cg_block_def andthen_Inr fail_def split: if_splits dest!: wtfs_grows)
  finally show ?thesis using assms(3) by simp
qed

lemma groups_live:
  assumes fs: "finishing (f_sblock s)" and s: "\<not> f_nflag s" "0 \<le> f_base s" "cooperative s"
  shows "\<exists>t. in_turn initcg [0..<nat (m_ncg (f_sblock s))] s = (Inr (), t) \<and> live (f_sblock s) t"
proof -
  let ?fs = "f_sblock s"
  note geo = finishingD(1,2) [OF fs] and places = live_places [OF fs]
  let ?n = "nat (m_ncg ?fs)"
  have n: "0 < ?n" "int ?n = m_ncg ?fs" using finishingD(4) [OF fs] by simp_all
  have room: "group_room ?fs c" if "c < ?n" for c using finishingD(5) [OF fs] that n by simp
  obtain t where t: "in_turn initcg [0..<?n] s = (Inr (), t)" "cooperative t" "same_layout s t"
    using groups_complete [OF geo _ room s(2,3), of ?n] n(2) by auto
  have split: "[0..<?n] = 0 # [1..<?n]" using n(1) by (simp add: upt_rec)
  obtain u where u: "initcg 0 s = (Inr (), u)" "in_turn initcg [1..<?n] u = (Inr (), t)"
    using t(1) unfolding split by (auto simp: andthen_Inr)
  let ?g = "file_byte (fst (f_dev s))"
  have "kept ?fs (f_base s) (- f_base s) (fsize (fst (f_dev s))) ?g s" using s(1) by (simp add: kept_def)
  then have "kept ?fs (f_base s) (- f_base s) (fsize (fst (f_dev s))) ?g u"
    using keepingD [OF keeping_initcg [OF finishingD(3) [OF fs]] _ u(1)] s(2) by simp
  then have ku: "kept ?fs (f_base s) (- f_base s) (fsize (fst (f_dev u))) ?g u" by (simp add: kept_def)
  have "keeping (kept ?fs (f_base s) (- f_base s) (fsize (fst (f_dev u))) ?g) (in_turn initcg [1..<?n]) (\<lambda>_. True)"
    using s(2) by (intro keeping_in_turn keeping_initcg [OF finishingD(3) [OF fs]]) simp
  from keepingD [OF this ku u(2)] have kt: "kept ?fs (f_base s) (- f_base s) (fsize (fst (f_dev u))) ?g t" by simp
  have "0 < m_ipg ?fs" using geo(1) by (simp add: geometry_sound_def)
  note size = initcg_size [OF u(1) s(1) this]
  define im :: nextufs_image where "im = undefined\<lparr>sb := decode_superblock (format_swap_superblock (sblock_bytes ?fs))\<rparr>"
  have "describes_format im ?fs"
    by (rule written_superblock_describes [OF geo finishingD(4) [OF fs]]) (simp add: im_def)
  from groups_built [OF t(1) geo room this s(1,2)] n(1) have "group_on_disk im t 0" by blast
  then obtain g where g: "\<forall>i<nat (m_bsize (f_sblock t)).
      file_byte (fst (f_dev t)) (nat (f_base t + cg_address (f_sblock t) 0 * 1024) + i) = g i"
    "cg_wf im g" "read_be32 g 20 = of_nat (group_size (f_sblock t) 0)"
    "\<forall>k<group_size (f_sblock t) 0. free_map g k \<longleftrightarrow> group_free 0 (copy_start (f_sblock t) 0) (free_start (f_sblock t) 0)
      (group_size (f_sblock t) 0) k"
    unfolding group_on_disk_def Let_def CG_NDBLK_OFF_def by blast
  have gs: "only_totals ?fs (f_sblock t)" "f_base t = f_base s" "\<not> f_nflag t"
    "fsize (fst (f_dev u)) \<le> fsize (fst (f_dev t))" using kt by (simp_all add: kept_def)
  note same = finishing_only(10,18) [OF gs(1)] same_layout_facts [OF t(3)]
  have "disk_ok ?fs g"
    using g(2-4) unfolding same
    by (auto simp: disk_ok_def cg_wf_def Let_def group_free_def CgBitmap.CG_MAGIC_def FsckPasses.CG_MAGIC_def CG_MAGIC_OFF_def)
  moreover have "first_group ?fs t i = g i" if "i < nat (m_cgsize ?fs)" for i
  proof -
    have "i < nat (m_bsize ?fs)" using that finishingD(8) [OF fs] by linarith
    then show ?thesis using g(1) by (simp add: first_group_def same)
  qed
  ultimately have "disk_ok ?fs (first_group ?fs t)" using disk_ok_cong [OF fs, of "first_group ?fs t" g] by blast
  then have "live ?fs t"
    using t(2) gs s(2) size by (simp add: live_def)
  then show ?thesis using t(1) by blast
qed

section \<open>The program\<close>

text \<open>The computation of the geometry neither reads nor changes the state, so its result is the same everywhere.\<close>

definition stateless :: "(unit, 'a) io \<Rightarrow> ('s, 'a) io \<Rightarrow> bool" where
  "stateless m k \<longleftrightarrow> (\<forall>s. k s = (fst (m ()), s))"

lemma stateless_rules:
  "stateless m m' \<Longrightarrow> (\<And>x. stateless (k x) (k' x)) \<Longrightarrow> stateless (andthen m k) (andthen m' k')"
  "stateless (ret x) (ret x)" "stateless (i32 i) (i32 i)" "stateless (i64 i) (i64 i)" "stateless format_exit format_exit"
  by (auto simp: stateless_def andthen_def ret_def i32_def i64_def format_exit_def fail_def split: prod.splits sum.splits)

lemma stateless_if: "(b \<Longrightarrow> stateless m m') \<Longrightarrow> (\<not> b \<Longrightarrow> stateless k k') \<Longrightarrow> stateless (if b then m else k) (if b then m' else k')"
  by simp

lemma stateless_pair: "(\<And>x y. stateless (f x y) (g x y)) \<Longrightarrow> stateless (case p of (x, y) \<Rightarrow> f x y) (case p of (x, y) \<Rightarrow> g x y)"
  by (cases p) simp

lemma stateless_group_fragments: "stateless (group_fragments fs cyls) (group_fragments fs cyls)"
  unfolding group_fragments_def by (intro stateless_rules)

lemma stateless_group_loop: "stateless (group_loop fs cyls fpg) (group_loop fs cyls fpg)"
proof (induction fs cyls fpg rule: group_loop.induct)
  case (1 fs cyls fpg)
  show ?case
    by (subst (1 2) group_loop.simps) (intro stateless_if stateless_rules stateless_group_fragments "1.IH")
qed

lemma stateless_geometry: "stateless (geometry opts) (geometry opts)"
  unfolding geometry_def geometry_disk_def geometry_blocks_def geometry_layout_def geometry_groups_def geometry_size_def
    geometry_tables_def geometry_limits_def geometry_inodes_def geometry_room_def geometry_summary_def POWEROF2_def Let_def
  by (intro stateless_group_fragments stateless_rules stateless_if stateless_pair stateless_group_loop)

lemma geometry_anywhere:
  fixes s :: 's
  assumes "geometry opts () = (Inr fs, ())"
  shows "geometry opts s = (Inr fs, s)"
proof -
  have "stateless (geometry opts) (geometry opts :: ('s, format_sblock) io)" by (rule stateless_geometry)
  then show ?thesis using assms by (simp add: stateless_def)
qed

text \<open>A host whose calls all succeed lets the formatter go through, when group 0 has room for its metadata and the summary.\<close>

lemma wp_then:
  "wp m E R s \<Longrightarrow> (\<And>x t. R x t \<Longrightarrow> wp (k x) E Q t) \<Longrightarrow> wp (andthen m k) E Q s"
  unfolding wp_andthen by (erule wp_mono) simp_all

lemma nextufs_format_completes:
  assumes geo: "geometry opts () = (Inr fs, ())" and room: "group_room fs 0" "1 \<le> m_ncg fs"
    and opts: "fo_target opts" "\<not> fo_dry_run opts" "fo_bsize opts \<le> MAXBSIZE" "0 \<le> fo_base_offset opts"
      "0 < fo_size_1k_sectors opts" "int (fo_size_1k_sectors opts) \<le> FORMAT_COMPAT_MAX_SECTORS"
    and host: "\<forall>k. events os k = OsFull"
  shows "\<exists>d. nextufs_format opts (hf, os) = (Inr (), d)"
proof -
  have fs: "finishing fs" by (rule finishing_geometry [OF geo opts(3,6) room])
  let ?s = "format_fresh opts (hf, os)"
  let ?ok = "\<lambda>s. cooperative s \<and> \<not> f_nflag s \<and> 0 \<le> f_base s"
  have last: "0 \<le> s32 (int (fo_size_1k_sectors opts) - 1)" by (rule last_sector [OF opts(5,6)])
  have limits: "\<not> (\<not> fo_target opts \<or> fo_size_1k_sectors opts = 0 \<or> 2 ^ 63 - 1 < fo_size_1k_sectors opts)"
    "\<not> (\<not> fo_force_size opts \<and> FORMAT_COMPAT_MAX_SECTORS < int (fo_size_1k_sectors opts))"
    using opts(1,5,6) by (auto simp: FORMAT_COMPAT_MAX_SECTORS_def)
  have time: "wp format_time (\<lambda>_ _. False) (\<lambda>_. ?ok) ?s"
    using opts(2,4) host
    by (simp add: wp_def format_time_def format_fresh_def time_def tick_def cooperative_def)
  have openp: "wp (format_open b) (\<lambda>_ _. False) (\<lambda>_. ?ok) s" if "?ok s" for b s
    using that by (auto simp: wp_def format_open_def cooperative_def tick_def Let_def split: prod.splits)
  have alloc: "wp format_malloc (\<lambda>_ _. False) (\<lambda>ok s. ok \<and> ?ok s \<and> f_sblock s = fs) s"
    if "?ok s" "f_sblock s = fs" for s
    using that by (auto simp: wp_def format_malloc_def malloc_def cooperative_def tick_def Let_def split: prod.splits)
  have written: "wp (wtfs (s32 (int (fo_size_1k_sectors opts) - 1)) 1024 b) (\<lambda>_ _. False) (\<lambda>_. ?ok) s" if "?ok s" for b s
    using that last wtfs_completes [of s "s32 (int (fo_size_1k_sectors opts) - 1)" 1024 b] by (auto simp: wp_def)
  have groups: "wp (in_turn initcg [0..<nat (m_ncg fs)]) (\<lambda>_ _. False) (\<lambda>_. live fs) s" if "?ok s" "f_sblock s = fs" for s
    using groups_live [of s] that fs by (auto simp: wp_def)
  have finish: "wp write_metadata (\<lambda>_ _. False) (\<lambda>_ _. True) s" if "live fs s" for s
    by (rule wp_mono [OF wp_going_metadata [OF fs]]) (use that in \<open>simp_all add: live_def going_def\<close>)
  have "wp (format_body opts) (\<lambda>_ _. False) (\<lambda>_ _. True) ?s"
    unfolding format_body_def if_not_P [OF limits(1)] if_not_P [OF limits(2)] if_not_P [OF opts(2)]
  proof (rule wp_then [OF time], rule wp_then [OF openp], assumption, rule wp_then [OF openp], assumption,
      rule wp_then [OF written], assumption)
    fix s assume s: "?ok s"
    let ?rest = "\<lambda>gs :: format_sblock. andthen format_malloc (\<lambda>ok. if \<not> ok then fail UNDEF
      else andthen (in_turn initcg [0..<nat (m_ncg gs)]) (\<lambda>_. andthen fsinit (\<lambda>_. write_metadata)))"
    have dirs: "wp (andthen fsinit (\<lambda>_. write_metadata)) (\<lambda>_ _. False) (\<lambda>_ _. True) t" if "live fs t" for t
      unfolding wp_andthen by (rule wp_live_fsinit [OF fs that finish])
    have "wp (andthen (in_turn initcg [0..<nat (m_ncg fs)]) (\<lambda>_. andthen fsinit (\<lambda>_. write_metadata))) (\<lambda>_ _. False) (\<lambda>_ _. True) t"
      if "?ok t" "f_sblock t = fs" for t
      by (rule wp_then [OF groups [OF that] dirs])
    then have "wp (?rest fs) (\<lambda>_ _. False) (\<lambda>_ _. True) t" if "?ok t \<and> f_sblock t = fs" for t
      by (intro wp_then [OF alloc]) (use that in auto)
    moreover have "wp (geometry opts) (\<lambda>_ _. False) (\<lambda>gs t. gs = fs \<and> t = s) s"
      using geometry_anywhere [OF geo, of s] by (simp add: wp_def)
    ultimately show "wp (andthen (geometry opts) (\<lambda>gs. andthen (edit_sblock (\<lambda>_. gs)) (\<lambda>_. ?rest gs)))
        (\<lambda>_ _. False) (\<lambda>_ _. True) s"
      using s by (elim wp_then) (auto simp: wp_andthen wp_fmt cooperative_def)
  qed
  from wp_succeeds [OF this] show ?thesis by (auto simp: nextufs_format_def)
qed

section \<open>A first group without room\<close>

lemma geometry_data:
  fixes s t :: 's
  assumes run: "geometry opts s = (Inr fs, t)"
    and small: "fo_bsize opts \<le> MAXBSIZE" "int (fo_size_1k_sectors opts) \<le> FORMAT_COMPAT_MAX_SECTORS"
  shows "data_start fs 0 < m_fpg fs"
proof -
  obtain hs gs fz and u v w :: 's where known: "geometry_known hs fz" and room: "geometry_room fz hs u = (Inr gs, v)"
    and summary: "geometry_summary opts gs v = (Inr fs, w)"
    using geometry_known [OF run small] by blast
  have hs: "0 \<le> m_cgoffset hs" "1 \<le> m_ncg hs" using known by (auto simp: geometry_known_def geometry_sound_def)
  obtain k where mask: "m_cgmask hs = - (2 ^ k)" using known by (auto simp: geometry_known_def)
  have "NOT (m_cgmask hs) = 2 ^ k - 1" by (simp add: mask minus_eq_not_minus_1)
  then have "0 \<le> min (NOT (m_cgmask hs)) (m_ncg hs - 1)" using hs(2) by simp
  then have "data_start hs 0 \<le> data_start hs (min (NOT (m_cgmask hs)) (m_ncg hs - 1))"
    using hs(1) by (simp add: data_start_def)
  also have "\<dots> < m_fpg hs" by (rule geometry_room_Inr(1) [OF room])
  finally have "m_dblkno hs < m_fpg hs" by (simp add: data_start_def)
  moreover have "m_fpg gs = m_fpg hs" "m_dblkno gs = m_dblkno hs" using geometry_room_Inr(2) [OF room] by auto
  ultimately show ?thesis
    using geometry_summary_Inr [OF summary] by (simp add: data_start_def same_groups_def)
qed

lemma group_map_short:
  assumes fs: "frags_ok fs" "m_bsize fs \<le> MAXBSIZE" and lower: "dlower = L * frag_of fs" "dlower \<le> dupper"
    and short: "ndblk \<le> (dupper + frag_of fs - 1) div frag_of fs * frag_of fs"
  shows "\<exists>new. group_map fs 0 (int dlower) (int dupper) (int ndblk) b = Some new"
proof -
  let ?F = "frag_of fs"
  have pos: "0 < ?F" "0 < m_frag fs" using frags_ok_bounds [OF fs(1)] by (auto simp: frag_of_def)
  have steps: "block_steps ?F 0 dlower = L"
    using div_nat_eqI [of ?F L "L * ?F + ?F - 1"] pos by (simp add: block_steps_def lower(1) algebra_simps)
  obtain e c where r: "map_reserved fs (L * ?F) dupper (clear_blocks fs (block_list ?F 0 L) b) = (e, c)" by fastforce
  obtain m' where m': "e = m' * ?F" "dupper \<le> e" "e < dupper + ?F"
    using map_reserved_done [OF fs(1) lower(2) [unfolded lower(1)] r] by blast
  have "(dupper + ?F - 1) div ?F = m'"
    by (rule div_nat_eqI) (use m'(1-3) pos in \<open>auto simp: algebra_simps\<close>)
  then have "ndblk \<le> e" using short m'(1) by simp
  then show ?thesis
    using fs(2) pos r by (simp add: group_map_def map_front_def map_data_def Let_def frag_of_def [symmetric] steps block_list_def not_less)
qed

lemma first_group_overrun:
  assumes run: "initcg 0 s = (Inr (), t)" and fs: "geometry_sound (f_sblock s)" "0 \<le> m_cssize (f_sblock s)"
    and real: "\<not> f_nflag s" "m_fpg (f_sblock s) \<le> 8 * (m_bsize (f_sblock s) - 988)"
    and size: "0 < group_size (f_sblock s) 0"
    and k: "free_start (f_sblock s) 0 \<le> k" "group_size (f_sblock s) 0 \<le> k" "int k < m_fpg (f_sblock s)"
      "k < (free_start (f_sblock s) 0 + frag_of (f_sblock s) - 1) div frag_of (f_sblock s) * frag_of (f_sblock s)"
  shows "free_map (\<lambda>i. file_byte (fst (f_dev t)) (nat (f_base s + cg_address (f_sblock s) 0 * 1024) + i)) k"
proof -
  let ?fs = "f_sblock s" and ?g = "\<lambda>i. file_byte (fst (f_dev t)) (nat (f_base s + cg_address (f_sblock s) 0 * 1024) + i)"
  have sz: "0 < m_size ?fs" using size by (auto simp: group_size_def)
  obtain new where new: "group_map ?fs 0 (int (copy_start ?fs 0)) (int (free_start ?fs 0)) (int (group_size ?fs 0))
      (group_prepared ?fs 0 (f_utime s) (f_acg s)) = Some new"
    "\<forall>i<nat (m_bsize ?fs). ?g i = format_swap_cg new i"
    using initcg_runs [OF run fs(1)] fs(2) sz real(1) by auto
  have ok: "frags_ok ?fs" using fs(1) by (simp add: geometry_sound_def)
  obtain L where L: "copy_start ?fs 0 = L * frag_of ?fs" "copy_start ?fs 0 \<le> free_start ?fs 0"
    using layout_starts(1,2) [OF fs] by blast
  have "free_map new k" by (rule group_map_overrun [OF ok L new(1) k(1,2,4)])
  moreover have "984 + q < nat (m_bsize ?fs)" if "q * 8 \<le> k" for q
  proof -
    have "int q * 8 \<le> int k" using that by linarith
    then have "8 * (984 + int q) < 8 * m_bsize ?fs" using k(3) real(2) by simp
    then show ?thesis by (simp add: zless_nat_eq_int_zless)
  qed
  from this [of "k div 8"] have "?g (984 + k div 8) = format_swap_cg new (984 + k div 8)" using new(2) by simp
  then have "free_map ?g k = free_map (format_swap_cg new) k" by (simp add: free_map_def free_bit_iff CG_FREE_OFF_def)
  ultimately show ?thesis by (simp add: swap_cg_free)
qed

end
