(* ===== verification/FormatClaims.thy ===== *)
theory FormatClaims
  imports FormatLive Tiny
begin

text \<open>
  The properties of the formatter, with concrete instances on a file system of two groups.
\<close>

section \<open>The superblock\<close>

text \<open>C11. The superblock the formatter writes is the one the library reads, field by field.\<close>

theorem written_superblock_decoded:
  "decode_superblock (format_swap_superblock (sblock_bytes fs)) =
    \<lparr>sb_off = of_int (m_sblkno fs), cg_off = of_int (m_cblkno fs), ino_off = of_int (m_iblkno fs),
     data_off = of_int (m_dblkno fs), cg_delta = of_int (m_cgoffset fs), cg_cyc_mask = of_int (m_cgmask fs),
     write_time = m_time fs, frag_count = of_int (m_size fs), data_frag_count = of_int (m_dsize fs),
     cg_count = of_int (m_ncg fs), block_size = of_int (m_bsize fs), frag_size = of_int (m_fsize fs),
     frags_per_block = of_int (m_frag fs), minfree = of_int (m_minfree fs), rotdelay = of_int (m_rotdelay fs),
     rps = of_int (m_rps fs), block_mask = of_int (m_bmask fs), frag_mask = of_int (m_fmask fs),
     block_shift = of_int (m_bshift fs), frag_shift_calc = of_int (m_fshift fs), maxcontig = of_int (m_maxcontig fs),
     maxbpg = of_int (m_maxbpg fs), frag_shift = of_int (m_fragshift fs), fsbtodb = of_int (m_fsbtodb fs),
     super_size = of_int (m_sbsize fs), csum_mask = of_int (m_csmask fs), csum_shift = of_int (m_csshift fs),
     nindir = of_int (m_nindir fs), sectors_per_frag = of_int (m_nspf fs), optim = of_int (m_optim fs),
     inodes_per_block = of_int (m_inopb fs), cyl_summary_addr = of_int (m_csaddr fs), csum_size = of_int (m_cssize fs),
     cg_size = of_int (m_cgsize fs), tracks_per_cyl = of_int (m_ntrak fs), sectors_per_track = of_int (m_nsect fs),
     sectors_per_cyl = of_int (m_spc fs), ncyl = of_int (m_ncyl fs), cpg = of_int (m_cpg fs),
     inodes_per_group = of_int (m_ipg fs), frags_per_group = of_int (m_fpg fs), dir_count = m_cs_ndir fs,
     free_block_count = m_cs_nbfree fs, free_inode_count = m_cs_nifree fs, free_frag_count = m_cs_nffree fs,
     sb_state = m_state fs, fs_magic = of_int (m_magic fs)\<rparr>"
proof -
  have "format_swap_superblock (sblock_bytes fs) 209 = sblock_bytes fs 209"
    unfolding format_swap_superblock_def
    by (intro swap_fields_out [OF format_superblock_fields_ok])
      (auto simp: format_superblock_fields_def words_at_def halves_at_def csum_fields_def)
  also have "\<dots> = m_state fs" by (simp add: sblock_bytes_def sblock_words_def Let_def cell_simps)
  finally show ?thesis
    unfolding decode_superblock_def UFS_SUPER_MAGIC_OFFSET_def
    by (simp add: sblock_word_swapped sblock_words_def)
qed

section \<open>The geometry\<close>

text \<open>
  C9. A geometry that is accepted for blocks of at most 8192 bytes and a device of at most
  \<open>FORMAT_COMPAT_MAX_SECTORS\<close> sectors, which only \<open>--force-size\<close> lifts, is consistent: all sizes fit together, and
  every group except the first has room for its metadata.
\<close>

theorem geometry_leaves_room:
  assumes "geometry opts s = (Inr fs, t)" "fo_bsize opts \<le> MAXBSIZE"
    "int (fo_size_1k_sectors opts) \<le> FORMAT_COMPAT_MAX_SECTORS"
  shows "geometry_sound fs \<and> layout_sound fs \<and> (\<forall>c. 0 < c \<and> int c < m_ncg fs \<longrightarrow> group_room fs c)"
  using geometry_results [OF assms] by blast

text \<open>One track a cylinder, two groups of 512 fragments, the second one of 88.\<close>

definition small_opts :: nextufs_format_options where
  "small_opts = format_defaults\<lparr>fo_target := True, fo_size_1k_sectors := 600, fo_ntrak := 1\<rparr>"

definition small_fs :: format_sblock where
  "small_fs = (case geometry small_opts () of (Inr fs, _) \<Rightarrow> fs | _ \<Rightarrow> blank_sblock)"

lemma small_geometry: "geometry small_opts () = (Inr small_fs, ())"
proof -
  have "case geometry small_opts () of (Inr _, _) \<Rightarrow> True | _ \<Rightarrow> False" by code_simp
  then show ?thesis by (simp add: small_fs_def split: prod.splits sum.splits)
qed

lemma small_limits: "fo_bsize small_opts \<le> MAXBSIZE" "int (fo_size_1k_sectors small_opts) \<le> FORMAT_COMPAT_MAX_SECTORS"
  by (simp_all add: small_opts_def format_defaults_def Format.MAXBSIZE_def FORMAT_COMPAT_MAX_SECTORS_def)

lemma small_fields: "m_ncg small_fs = 2 \<and> m_fpg small_fs = 512 \<and> m_ipg small_fs = 64 \<and> m_frag small_fs = 8 \<and>
    m_size small_fs = 600 \<and> m_dblkno small_fs = 40 \<and> m_cssize small_fs = 1024 \<and> m_cgmask small_fs = - 1 \<and>
    m_cgoffset small_fs = 32"
  by code_simp

theorem geometry_leaves_room_witness:
  "geometry_sound small_fs \<and> layout_sound small_fs \<and> group_room small_fs 1"
  using geometry_leaves_room [OF small_geometry small_limits] small_fields by simp

section \<open>The groups\<close>

text \<open>
  C2. For blocks of at most 8192 bytes, a device within the compatibility limit, a first group that has room for its
  metadata and the summary, rounded to blocks (the formatter does not check this, see C40), and no dry run: when the
  loop over the groups has gone through, every group is on the disk with its accounts right, with exactly the data
  fragments free and the first two inodes of group 0 in use, and the summary and the totals agree with the groups.
\<close>

theorem format_builds_groups:
  assumes "geometry opts u = (Inr (f_sblock s), v)" "fo_bsize opts \<le> MAXBSIZE"
    "int (fo_size_1k_sectors opts) \<le> FORMAT_COMPAT_MAX_SECTORS"
    and "group_room (f_sblock s) 0" "\<not> f_nflag s" "0 \<le> f_base s"
    and "sb img = decode_superblock (format_swap_superblock (sblock_bytes (f_sblock s)))"
    and "in_turn initcg [0..<nat (m_ncg (f_sblock s))] s = (Inr (), t)"
  shows "(\<forall>c<nat (m_ncg (f_sblock s)). group_on_disk img t c) \<and>
    (\<forall>j<4. cs_total (f_sblock t) j = cs_total (f_sblock s) j +
      (\<Sum>c<nat (m_ncg (f_sblock s)). get32 (f_csums t) (c * 16 + j * 4)))"
proof (cases "1 \<le> m_ncg (f_sblock s)")
  case True
  note geo = geometry_results [OF assms(1-3)]
  have "group_room (f_sblock s) c" if "c < nat (m_ncg (f_sblock s))" for c
    using geo(3) [of c] assms(4) that by (cases "c = 0") simp_all
  then show ?thesis
    using groups_built [OF assms(8) geo(1,2) _ written_superblock_describes [OF geo(1,2) True assms(7)] assms(5,6)] by blast
next
  case False
  then show ?thesis using assms(8) by (simp add: ret_def)
qed

definition small_ctx :: format_ctx where
  "small_ctx = (format_fresh small_opts (\<lparr>fsize = 0, fbytes = \<lambda>_. 0\<rparr>, tiny_os))\<lparr>f_sblock := small_fs\<rparr>"

definition small_image :: nextufs_image where
  "small_image = tiny_image\<lparr>sb := decode_superblock (format_swap_superblock (sblock_bytes small_fs))\<rparr>"

lemma small_room: "group_room small_fs 0"
proof -
  have "0 * m_cgoffset small_fs = 0" by simp
  then show ?thesis by code_simp
qed

lemma small_ctx [simp]: "f_sblock small_ctx = small_fs" "\<not> f_nflag small_ctx" "f_base small_ctx = 0"
  "sb small_image = decode_superblock (format_swap_superblock (sblock_bytes small_fs))" "cooperative small_ctx"
  by (simp_all add: small_ctx_def format_fresh_def small_opts_def format_defaults_def small_image_def cooperative_def tiny_os_def)

lemma small_groups: "\<exists>t. in_turn initcg [0..<2] small_ctx = (Inr (), t)"
proof -
  note geo = geometry_results [OF small_geometry small_limits]
  have "group_room small_fs c" if "c < 2" for c
    using geo(3) [of c] small_room that small_fields by (cases "c = 0") simp_all
  then show ?thesis using groups_complete [of small_ctx 2] geo(1,2) small_fields by auto
qed

theorem format_builds_groups_witness:
  "\<exists>t. in_turn initcg [0..<2] small_ctx = (Inr (), t) \<and> group_on_disk small_image t 0 \<and> group_on_disk small_image t 1"
proof -
  obtain t where t: "in_turn initcg [0..<2] small_ctx = (Inr (), t)" using small_groups by blast
  have "\<forall>c<nat (m_ncg small_fs). group_on_disk small_image t c"
    using format_builds_groups [of small_opts "()" small_ctx "()" small_image t] t small_geometry small_limits small_room
      small_fields by simp
  then show ?thesis using t small_fields by auto
qed

section \<open>The whole run\<close>

text \<open>
  C10. On a host whose calls succeed the formatter goes through to the end, the groups, the first directories and the
  last writes: for a target that is named and is no dry run, blocks of at most 8192 bytes, a device within the
  compatibility limit, and a geometry with a group at least, the first of which has room for its metadata and the summary.
\<close>

theorem format_completes:
  assumes "geometry opts () = (Inr fs, ())" "group_room fs 0" "1 \<le> m_ncg fs"
    and "fo_target opts" "\<not> fo_dry_run opts" "fo_bsize opts \<le> MAXBSIZE" "0 \<le> fo_base_offset opts"
    and "0 < fo_size_1k_sectors opts" "int (fo_size_1k_sectors opts) \<le> FORMAT_COMPAT_MAX_SECTORS"
    and "\<forall>k. events os k = OsFull"
  shows "\<exists>d. nextufs_format opts (hf, os) = (Inr (), d)"
  using assms by (rule nextufs_format_completes)

theorem format_completes_witness:
  "\<exists>d. nextufs_format small_opts (\<lparr>fsize = 0, fbytes = \<lambda>_. 0\<rparr>, tiny_os) = (Inr (), d)"
proof (rule format_completes [OF small_geometry small_room _ _ _ small_limits(1) _ _ small_limits(2)])
  show "1 \<le> m_ncg small_fs" using small_fields by simp
qed (simp_all add: small_opts_def format_defaults_def tiny_os_def)

section \<open>Errors\<close>








definition dropped_opts :: nextufs_format_options where
  "dropped_opts = format_defaults\<lparr>fo_target := True, fo_size_1k_sectors := 84, fo_nsect := 64, fo_ntrak := 1,
     fo_cpg := 1\<rparr>"

text \<open>
  A last group that is given up because its metadata does not fit: when the device ends inside the last cylinder that
  the group could have, that cylinder is still counted, and the file system becomes larger than the device. So with 84
  sectors and a cylinder of 64 in each group, the new size is 128.
\<close>

lemma given_up_group_still_counted:
  assumes "geometry_room fz fs s = (Inr gs, t)" "m_ncg gs \<noteq> m_ncg fs"
    and "m_cpg fs dvd m_ncyl fs" "(fz + 1) * m_nspf fs \<le> m_ncyl fs * m_spc fs" "0 < m_nspf fs"
  shows "m_ncyl gs = m_ncyl fs \<and> fz < m_size gs"
proof -
  have gs: "gs = fs\<lparr>m_ncg := m_ncg fs - 1, m_ncyl := m_ncyl fs, m_size := m_ncyl fs * m_spc fs div m_nspf fs\<rparr>"
    using geometry_room_Inr(2) [OF assms(1)] assms(2,3) by (auto simp: dvd_imp_mod_0)
  have "(fz + 1) * m_nspf fs div m_nspf fs \<le> m_ncyl fs * m_spc fs div m_nspf fs"
    using assms(4,5) by (intro zdiv_mono1)
  then show ?thesis using assms(5) by (simp add: gs)
qed

lemma dropped_group_enlarges_file_system:
  "case geometry dropped_opts () of
     (Inr fs, _) \<Rightarrow> m_size fs = 128 \<and> m_size fs > int (fo_size_1k_sectors dropped_opts) \<and> m_ncg fs = 1 \<and> m_fpg fs = 64
   | _ \<Rightarrow> False"
  by code_simp

end
