(* ===== verification/Mount.thy ===== *)
theory Mount
  imports Quiet Sizes OpenImage
begin

text \<open>
  The mounted image (\<open>src/src/commands/mount.c\<close>): the options of the mount, and the requests that FUSE hands
  to the program. FUSE itself is the caller: its context (user and group of the request) is an argument of a
  request, what it does with the answers is left out. \<open>reopen\<close> and \<open>open_rw\<close> stand for the two ways in which
  the image is opened by its path: for the program's own image, and inside an operation that changes it. Both find
  the disk in the state that the last operation left. The allocations for the arguments of FUSE and the
  resolution of the path of the image (\<open>realpath\<close>) do not fail, and there are at least two arguments.
\<close>

section \<open>State\<close>

datatype mount_mode = MountSu | MountUser

text \<open>\<open>g_mount_uid_set\<close> and \<open>g_mount_gid_set\<close> tell whether the numbers are there.\<close>

record mount =
  mnt_img :: nextufs_image
  mnt_mode :: mount_mode
  mnt_readonly :: bool
  mnt_request_rw :: bool
  mnt_saw_access_opt :: bool
  mnt_uid :: "u32 option"
  mnt_gid :: "u32 option"

type_synonym 'a on_mount = "(mount \<times> sys, 'a) io"

type_synonym caller = "u32 \<times> u32"

definition on_image :: "(nextufs_image \<Rightarrow> 'a fs) \<Rightarrow> 'a on_mount" where
  "on_image f = (\<lambda>(m, s). case f (mnt_img m) s of (r, t) \<Rightarrow> (r, (m, t)))"

definition asking :: "(mount \<Rightarrow> 'a on_mount) \<Rightarrow> 'a on_mount" where
  "asking f = (\<lambda>(m, s). f m (m, s))"

definition effective_ids :: "mount \<Rightarrow> caller \<Rightarrow> u32 \<times> u32" where
  "effective_ids m who =
     ((case mnt_uid m of None \<Rightarrow> fst who | Some u \<Rightarrow> u), (case mnt_gid m of None \<Rightarrow> snd who | Some g \<Rightarrow> g))"

definition fill_mutation_ctx :: "mount \<Rightarrow> caller \<Rightarrow> nextufs_write_ctx" where
  "fill_mutation_ctx m who =
     \<lparr>policy = (if mnt_mode m = MountSu then WriteSu else WriteUser),
      cuid = fst (effective_ids m who), cgid = snd (effective_ids m who), groups = []\<rparr>"

section \<open>Options\<close>

text \<open>\<open>strtok_r\<close> with a comma.\<close>

fun option_tokens :: "u8 list \<Rightarrow> u8 list \<Rightarrow> u8 list list" where
  "option_tokens tok [] = (if tok = [] then [] else [tok])"
| "option_tokens tok (c # cs) =
     (if c = 0x2c then (if tok = [] then [] else [tok]) @ option_tokens [] cs else option_tokens (tok @ [c]) cs)"

definition parse_mode_option :: "u8 list \<Rightarrow> mount_mode option" where
  "parse_mode_option v = (if v = [0x73, 0x75] then Some MountSu
     else if v = [0x75, 0x73, 0x65, 0x72] then Some MountUser else None)"

definition parse_id_option :: "u8 list \<Rightarrow> u32 option" where
  "parse_id_option v = (case parse_u64 v of None \<Rightarrow> None
     | Some n \<Rightarrow> if 0xffffffff < n then None else Some (ucast n))"

definition opt_rw :: "u8 list" where "opt_rw = [0x72, 0x77]"
definition opt_ro :: "u8 list" where "opt_ro = [0x72, 0x6f]"
definition opt_mode :: "u8 list" where "opt_mode = [0x6d, 0x6f, 0x64, 0x65, 0x3d]"
definition opt_uid :: "u8 list" where "opt_uid = [0x75, 0x69, 0x64, 0x3d]"
definition opt_gid :: "u8 list" where "opt_gid = [0x67, 0x69, 0x64, 0x3d]"

text \<open>One option: the mount it leads to, and whether FUSE gets to see it.\<close>

definition mount_option :: "u8 list \<Rightarrow> mount \<Rightarrow> errno + (bool \<times> mount)" where
  "mount_option tok m =
     (if take 5 tok = opt_mode then
        (case parse_mode_option (drop 5 tok) of None \<Rightarrow> Inl EINVAL | Some md \<Rightarrow> Inr (False, m\<lparr>mnt_mode := md\<rparr>))
      else if take 4 tok = opt_uid then
        (case parse_id_option (drop 4 tok) of None \<Rightarrow> Inl EINVAL | Some u \<Rightarrow> Inr (False, m\<lparr>mnt_uid := Some u\<rparr>))
      else if take 4 tok = opt_gid then
        (case parse_id_option (drop 4 tok) of None \<Rightarrow> Inl EINVAL | Some g \<Rightarrow> Inr (False, m\<lparr>mnt_gid := Some g\<rparr>))
      else if tok = opt_rw then Inr (True, m\<lparr>mnt_request_rw := True, mnt_saw_access_opt := True\<rparr>)
      else if tok = opt_ro then Inr (True, m\<lparr>mnt_request_rw := False, mnt_saw_access_opt := True\<rparr>)
      else Inr (True, m))"

primrec mount_options :: "u8 list list \<Rightarrow> mount \<Rightarrow> errno + (u8 list list \<times> mount)" where
  "mount_options [] m = Inr ([], m)"
| "mount_options (tok # toks) m =
     (case mount_option tok m of Inl e \<Rightarrow> Inl e
      | Inr (keep, m) \<Rightarrow> (case mount_options toks m of Inl e \<Rightarrow> Inl e
        | Inr (kept, m) \<Rightarrow> Inr (if keep then tok # kept else kept, m)))"

text \<open>The arguments behind the image, and what FUSE gets of them.\<close>

definition opt_o :: "u8 list" where "opt_o = [0x2d, 0x6f]"

fun join_commas :: "u8 list list \<Rightarrow> u8 list" where
  "join_commas [] = []"
| "join_commas [tok] = tok"
| "join_commas (tok # toks) = tok @ 0x2c # join_commas toks"

fun build_fuse_args :: "u8 list list \<Rightarrow> mount \<Rightarrow> errno + (u8 list list \<times> mount)" where
  "build_fuse_args [] m = Inr ([], m)"
| "build_fuse_args [a] m = Inr ([a], m)"
| "build_fuse_args (a # b # args) m =
     (if a = opt_o then
        (case mount_options (option_tokens [] b) m of Inl e \<Rightarrow> Inl e
         | Inr (kept, m) \<Rightarrow> (case build_fuse_args args m of Inl e \<Rightarrow> Inl e
           | Inr (out, m) \<Rightarrow> Inr (if kept = [] then out else opt_o # join_commas kept # out, m)))
      else (case build_fuse_args (b # args) m of Inl e \<Rightarrow> Inl e | Inr (out, m) \<Rightarrow> Inr (a # out, m)))"

section \<open>Reading requests\<close>

text \<open>
  When the image cannot be opened again, it stays closed; what a failed attempt leaves in the fields of the
  closed image is not kept.
\<close>

definition closed_image :: nextufs_image where
  "closed_image = \<lparr>writable = False, source_is_container = False, image_size = 0, slice_base = 0, slice_size = 0,
     label_off = 0, label_version = 0, label_secsize = 0, label_front = 0, label_name = [], rootpartition = 0,
     used_disk_label = False, sb = empty_superblock\<rparr>"

definition refresh_image :: "(bool \<Rightarrow> nextufs_image fs) \<Rightarrow> unit on_mount" where
  "refresh_image reopen = (\<lambda>(m, s). case reopen (mnt_readonly m) s of
     (Inr img, t) \<Rightarrow> (Inr (), (m\<lparr>mnt_img := img\<rparr>, t))
   | (Inl e, t) \<Rightarrow> (Inl e, (m\<lparr>mnt_img := closed_image\<rparr>, (NoBackend, snd t))))"

definition require_writable :: "unit on_mount" where
  "require_writable = asking (\<lambda>m. if mnt_readonly m then fail EROFS else ret ())"

definition require_access :: "caller \<Rightarrow> nextufs_node \<Rightarrow> u32 \<Rightarrow> unit on_mount" where
  "require_access who node want = asking (\<lambda>m.
     if mnt_mode m = MountSu then ret ()
     else case node_check_access_bits node (fst (effective_ids m who)) (snd (effective_ids m who)) [] want
       (\<not> mnt_readonly m) of Inl e \<Rightarrow> fail e | Inr _ \<Rightarrow> ret ())"

definition fuse_getattr :: "u8 list \<Rightarrow> file_stat on_mount" where
  "fuse_getattr path = on_image (\<lambda>img. andthen (node_lookup img path False) (\<lambda>node. ret (node_stat node)))"

definition fuse_read :: "caller \<Rightarrow> u8 list \<Rightarrow> nat \<Rightarrow> u64 \<Rightarrow> (buf \<times> nat) on_mount" where
  "fuse_read who path n off =
     andthen (on_image (\<lambda>img. node_lookup img path True)) (\<lambda>node.
     andthen (require_access who node R_OK) (\<lambda>_.
     on_image (\<lambda>img. path_read img path off n (\<lambda>_. 0))))"

definition fuse_readlink :: "u8 list \<Rightarrow> nat \<Rightarrow> u8 list on_mount" where
  "fuse_readlink path n = on_image (\<lambda>img. path_readlink img path n)"

text \<open>The names handed to the filler, with their attributes.\<close>

definition readdir_cb :: "nextufs_node \<Rightarrow> u8 list \<Rightarrow> (u8 list \<times> file_stat option) list
    \<Rightarrow> (nat \<times> (u8 list \<times> file_stat option) list) fs" where
  "readdir_cb node name c =
     (let nm = takeWhile (\<lambda>ch. ch \<noteq> 0) (take 255 name) in
      ret (0, if nm = [0x2e] \<or> nm = [0x2e, 0x2e] then c else c @ [(nm, Some (node_stat node))]))"

definition fuse_readdir :: "caller \<Rightarrow> u8 list \<Rightarrow> (u8 list \<times> file_stat option) list on_mount" where
  "fuse_readdir who path =
     andthen (on_image (\<lambda>img. node_lookup img path True)) (\<lambda>node.
     if \<not> node_is_dir node then fail ENOTDIR
     else
     andthen (require_access who node (R_OK OR X_OK)) (\<lambda>_.
     andthen (on_image (\<lambda>img. directory_iterate_nodes_path img path True readdir_cb
       [([0x2e], None), ([0x2e, 0x2e], None)])) (\<lambda>(_, names). ret names)))"

definition fuse_access :: "caller \<Rightarrow> u8 list \<Rightarrow> u32 \<Rightarrow> unit on_mount" where
  "fuse_access who path want =
     andthen (on_image (\<lambda>img. node_lookup img path True)) (\<lambda>node. require_access who node want)"

definition fuse_statfs :: "file_statvfs on_mount" where
  "fuse_statfs = on_image (\<lambda>img. lift (fs_statvfs img))"

definition fuse_fsync :: "unit on_mount" where
  "fuse_fsync = asking (\<lambda>m. if mnt_readonly m then ret () else on_image image_fsync)"

section \<open>Changing requests\<close>

text \<open>
  What they have in common: not on a read-only mount, on behalf of the caller, and the image is opened again
  when the change has succeeded.
\<close>

record access_path =
  open_rw :: "nextufs_image fs"
  reopen :: "bool \<Rightarrow> nextufs_image fs"
  chain :: nat

definition changing :: "access_path \<Rightarrow> caller \<Rightarrow> (nextufs_write_ctx option \<Rightarrow> unit fs) \<Rightarrow> unit on_mount" where
  "changing op who change =
     andthen require_writable (\<lambda>_.
     andthen (asking (\<lambda>m. on_image (\<lambda>_. change (Some (fill_mutation_ctx m who))))) (\<lambda>_.
     refresh_image (reopen op)))"

definition O_WRONLY :: u32 where "O_WRONLY = 1"
definition O_RDWR :: u32 where "O_RDWR = 2"
definition O_ACCMODE :: u32 where "O_ACCMODE = 3"
definition O_TRUNC :: u32 where "O_TRUNC = 0x200"

definition fuse_open :: "access_path \<Rightarrow> caller \<Rightarrow> u8 list \<Rightarrow> u32 \<Rightarrow> unit on_mount" where
  "fuse_open op who path oflags =
     andthen (on_image (\<lambda>img. node_lookup img path True)) (\<lambda>node.
     if \<not> node_is_reg node then fail EISDIR
     else
     andthen (require_access who node
       (if oflags AND O_ACCMODE = O_RDWR then R_OK OR W_OK else if oflags AND O_ACCMODE = O_WRONLY then W_OK else R_OK)) (\<lambda>_.
     asking (\<lambda>m.
     if oflags AND (O_WRONLY OR O_RDWR) \<noteq> 0 \<and> mnt_readonly m then fail EROFS
     else if oflags AND O_TRUNC \<noteq> 0 then changing op who (\<lambda>ctx. path_truncate (open_rw op) ctx path 0)
     else ret ())))"

definition fuse_write :: "access_path \<Rightarrow> caller \<Rightarrow> u8 list \<Rightarrow> buf \<Rightarrow> nat \<Rightarrow> u64 \<Rightarrow> nat on_mount" where
  "fuse_write op who path data n off =
     andthen (changing op who (\<lambda>ctx. path_pwrite (open_rw op) ctx path data n off)) (\<lambda>_. ret n)"

definition fuse_create :: "access_path \<Rightarrow> caller \<Rightarrow> u8 list \<Rightarrow> u32 \<Rightarrow> u32 \<Rightarrow> unit on_mount" where
  "fuse_create op who path md oflags =
     andthen (changing op who (\<lambda>ctx. path_mknod (open_rw op) ctx path (IFREG OR (ucast md AND 0xfff)) 0)) (\<lambda>_.
     fuse_open op who path oflags)"

definition fuse_mknod :: "access_path \<Rightarrow> caller \<Rightarrow> u8 list \<Rightarrow> u32 \<Rightarrow> u64 \<Rightarrow> unit on_mount" where
  "fuse_mknod op who path md rdev =
     changing op who (\<lambda>ctx. path_mknod (open_rw op) ctx path (ucast md) (ucast rdev))"

definition fuse_unlink :: "access_path \<Rightarrow> caller \<Rightarrow> u8 list \<Rightarrow> unit on_mount" where
  "fuse_unlink op who path = changing op who (\<lambda>ctx. path_unlink (open_rw op) ctx path)"

definition fuse_mkdir :: "access_path \<Rightarrow> caller \<Rightarrow> u8 list \<Rightarrow> u32 \<Rightarrow> unit on_mount" where
  "fuse_mkdir op who path md = changing op who (\<lambda>ctx. path_mkdir (open_rw op) ctx path (ucast md))"

definition fuse_rmdir :: "access_path \<Rightarrow> caller \<Rightarrow> u8 list \<Rightarrow> unit on_mount" where
  "fuse_rmdir op who path = changing op who (\<lambda>ctx. path_rmdir (open_rw op) ctx path)"

definition fuse_rename :: "access_path \<Rightarrow> caller \<Rightarrow> u8 list \<Rightarrow> u8 list \<Rightarrow> u32 \<Rightarrow> unit on_mount" where
  "fuse_rename op who src dst oflags =
     (if oflags \<noteq> 0 then fail EINVAL
      else changing op who (\<lambda>ctx. path_rename (chain op) (open_rw op) ctx src dst))"

definition fuse_link :: "access_path \<Rightarrow> caller \<Rightarrow> u8 list \<Rightarrow> u8 list \<Rightarrow> unit on_mount" where
  "fuse_link op who src dst = changing op who (\<lambda>ctx. path_link (open_rw op) ctx src dst)"

definition fuse_symlink :: "access_path \<Rightarrow> caller \<Rightarrow> u8 list \<Rightarrow> u8 list \<Rightarrow> unit on_mount" where
  "fuse_symlink op who target path = changing op who (\<lambda>ctx. path_symlink (open_rw op) ctx target path)"

definition fuse_chmod :: "access_path \<Rightarrow> caller \<Rightarrow> u8 list \<Rightarrow> u32 \<Rightarrow> unit on_mount" where
  "fuse_chmod op who path md = changing op who (\<lambda>ctx. path_chmod (open_rw op) ctx path (ucast md))"

definition fuse_chown :: "access_path \<Rightarrow> caller \<Rightarrow> u8 list \<Rightarrow> u32 \<Rightarrow> u32 \<Rightarrow> unit on_mount" where
  "fuse_chown op who path user grp = changing op who (\<lambda>ctx. path_chown (open_rw op) ctx path user grp)"

definition fuse_truncate :: "access_path \<Rightarrow> caller \<Rightarrow> u8 list \<Rightarrow> int \<Rightarrow> unit on_mount" where
  "fuse_truncate op who path sz =
     (if sz < 0 then fail EINVAL
      else changing op who (\<lambda>ctx. path_truncate (open_rw op) ctx path (of_int sz)))"

definition fuse_utimens :: "access_path \<Rightarrow> caller \<Rightarrow> u8 list \<Rightarrow> u64 \<Rightarrow> u64 \<Rightarrow> unit on_mount" where
  "fuse_utimens op who path at mt =
     changing op who (\<lambda>ctx. path_utimes (open_rw op) ctx path (ucast at) (ucast mt))"

section \<open>The mount\<close>

text \<open>The table of requests, \<open>nextufs_ops\<close>; an answer is only kept where the theorems speak of it.\<close>

datatype request =
    ReqGetattr "u8 list" | ReqOpen "u8 list" u32 | ReqRead "u8 list" nat u64 | ReqWrite "u8 list" buf nat u64
  | ReqReadlink "u8 list" nat | ReqReaddir "u8 list" | ReqAccess "u8 list" u32 | ReqStatfs | ReqCreate "u8 list" u32 u32
  | ReqMknod "u8 list" u32 u64 | ReqUnlink "u8 list" | ReqMkdir "u8 list" u32 | ReqRmdir "u8 list"
  | ReqRename "u8 list" "u8 list" u32 | ReqLink "u8 list" "u8 list" | ReqSymlink "u8 list" "u8 list"
  | ReqChmod "u8 list" u32 | ReqChown "u8 list" u32 u32 | ReqTruncate "u8 list" int | ReqUtimens "u8 list" u64 u64 | ReqFsync

datatype answer =
    Done | Attributes file_stat | Data buf nat | Count nat | Target "u8 list"
  | Names "(u8 list \<times> file_stat option) list" | Statistics file_statvfs

definition answering :: "('a \<Rightarrow> answer) \<Rightarrow> 'a on_mount \<Rightarrow> answer on_mount" where
  "answering f m = andthen m (\<lambda>x. ret (f x))"

primrec dispatch :: "access_path \<Rightarrow> caller \<Rightarrow> request \<Rightarrow> answer on_mount" where
  "dispatch op who (ReqGetattr p) = answering Attributes (fuse_getattr p)"
| "dispatch op who (ReqOpen p oflags) = answering (\<lambda>_. Done) (fuse_open op who p oflags)"
| "dispatch op who (ReqRead p n off) = answering (\<lambda>(b, k). Data b k) (fuse_read who p n off)"
| "dispatch op who (ReqWrite p data n off) = answering Count (fuse_write op who p data n off)"
| "dispatch op who (ReqReadlink p n) = answering Target (fuse_readlink p n)"
| "dispatch op who (ReqReaddir p) = answering Names (fuse_readdir who p)"
| "dispatch op who (ReqAccess p want) = answering (\<lambda>_. Done) (fuse_access who p want)"
| "dispatch op who ReqStatfs = answering Statistics fuse_statfs"
| "dispatch op who (ReqCreate p md oflags) = answering (\<lambda>_. Done) (fuse_create op who p md oflags)"
| "dispatch op who (ReqMknod p md rdev) = answering (\<lambda>_. Done) (fuse_mknod op who p md rdev)"
| "dispatch op who (ReqUnlink p) = answering (\<lambda>_. Done) (fuse_unlink op who p)"
| "dispatch op who (ReqMkdir p md) = answering (\<lambda>_. Done) (fuse_mkdir op who p md)"
| "dispatch op who (ReqRmdir p) = answering (\<lambda>_. Done) (fuse_rmdir op who p)"
| "dispatch op who (ReqRename p q oflags) = answering (\<lambda>_. Done) (fuse_rename op who p q oflags)"
| "dispatch op who (ReqLink p q) = answering (\<lambda>_. Done) (fuse_link op who p q)"
| "dispatch op who (ReqSymlink t p) = answering (\<lambda>_. Done) (fuse_symlink op who t p)"
| "dispatch op who (ReqChmod p md) = answering (\<lambda>_. Done) (fuse_chmod op who p md)"
| "dispatch op who (ReqChown p user grp) = answering (\<lambda>_. Done) (fuse_chown op who p user grp)"
| "dispatch op who (ReqTruncate p sz) = answering (\<lambda>_. Done) (fuse_truncate op who p sz)"
| "dispatch op who (ReqUtimens p at mt) = answering (\<lambda>_. Done) (fuse_utimens op who p at mt)"
| "dispatch op who ReqFsync = answering (\<lambda>_. Done) fuse_fsync"

text \<open>\<open>nextufs_mount_main\<close> up to \<open>fuse_main\<close>; the image is not open before.\<close>

definition fresh_mount :: mount where
  "fresh_mount = \<lparr>mnt_img = closed_image, mnt_mode = MountSu, mnt_readonly = False, mnt_request_rw = False,
     mnt_saw_access_opt = False, mnt_uid = None, mnt_gid = None\<rparr>"

definition mount_start :: "access_path \<Rightarrow> u8 list list \<Rightarrow> sys \<Rightarrow> (errno + u8 list list) \<times> mount \<times> sys" where
  "mount_start op args s =
     (case build_fuse_args args fresh_mount of
        Inl e \<Rightarrow> (Inl (EXIT 1), (fresh_mount, s))
      | Inr (out, m) \<Rightarrow>
        let m = m\<lparr>mnt_readonly := \<not> mnt_request_rw m\<rparr>;
            out = (if \<not> mnt_request_rw m \<and> \<not> mnt_saw_access_opt m then out @ [opt_o, opt_ro] else out) in
        (case refresh_image (reopen op) (m, s) of (Inl e, x) \<Rightarrow> (Inl (EXIT 1), x) | (Inr _, x) \<Rightarrow> (Inr out, x)))"

text \<open>The states of a mount while it serves requests, of any callers and in any order.\<close>

inductive serves :: "access_path \<Rightarrow> mount \<times> sys \<Rightarrow> mount \<times> sys \<Rightarrow> bool" for op where
  start: "serves op x x"
| request: "serves op x y \<Longrightarrow> dispatch op who rq y = (r, z) \<Longrightarrow> serves op x z"

section \<open>A read-only mount\<close>

text \<open>An operation of the mount that leaves the disk and the way of mounting alone.\<close>

definition calm_mount :: "'a on_mount \<Rightarrow> bool" where
  "calm_mount f \<longleftrightarrow> (\<forall>m s r m' t. mnt_readonly m \<longrightarrow> f (m, s) = (r, (m', t)) \<longrightarrow> mnt_readonly m' \<and> fst t = fst s)"

named_theorems calm_mounts "operations that a read-only mount survives"

lemma calm_mount_ret [calm_mounts]: "calm_mount (ret x)" "calm_mount (fail e)"
  by (simp_all add: calm_mount_def ret_def fail_def)

lemma calm_mount_andthen [calm_mounts]:
  "calm_mount f \<Longrightarrow> (\<And>x. calm_mount (g x)) \<Longrightarrow> calm_mount (andthen f g)"
proof -
  assume f: "calm_mount f" and g: "\<And>x. calm_mount (g x)"
  show "calm_mount (andthen f g)"
    unfolding calm_mount_def
  proof (intro allI impI)
    fix m s r m' t assume m: "mnt_readonly m" and run: "andthen f g (m, s) = (r, (m', t))"
    obtain q k u where q: "f (m, s) = (q, (k, u))" by (cases "f (m, s)") auto
    have k: "mnt_readonly k" "fst u = fst s" using f m q unfolding calm_mount_def by blast+
    show "mnt_readonly m' \<and> fst t = fst s"
    proof (cases q)
      case (Inr x)
      then have "g x (k, u) = (r, (m', t))" using run q by (simp add: andthen_def)
      then have "mnt_readonly m' \<and> fst t = fst u" using g [of x] k(1) unfolding calm_mount_def by blast
      then show ?thesis using k(2) by simp
    qed (use run q k in \<open>auto simp: andthen_def\<close>)
  qed
qed

lemma calm_mount_if [calm_mounts]:
  "calm_mount f \<Longrightarrow> calm_mount g \<Longrightarrow> calm_mount (if b then f else g)"
  by simp

lemma calm_mount_case [calm_mounts]:
  "(\<And>x. calm_mount (f x)) \<Longrightarrow> (\<And>x. calm_mount (g x)) \<Longrightarrow> calm_mount (case r of Inl x \<Rightarrow> f x | Inr x \<Rightarrow> g x)"
  "(\<And>x y. calm_mount (k x y)) \<Longrightarrow> calm_mount (case p of (x, y) \<Rightarrow> k x y)"
  by (simp_all split: sum.splits prod.splits)

lemma calm_mount_image [calm_mounts]: "(\<And>img. quiet (f img)) \<Longrightarrow> calm_mount (on_image f)"
  unfolding calm_mount_def on_image_def using quiet_fst by (fastforce split: prod.splits)

lemma calm_mount_asking [calm_mounts]:
  "(\<And>m. mnt_readonly m \<Longrightarrow> calm_mount (f m)) \<Longrightarrow> calm_mount (asking f)"
  unfolding calm_mount_def asking_def by fast

lemma calm_mount_changing [calm_mounts]: "calm_mount (changing op who change)"
  unfolding calm_mount_def changing_def require_writable_def asking_def
  by (simp add: andthen_def fail_def)

lemma calm_mount_access [calm_mounts]: "calm_mount (require_access who node want)"
  unfolding require_access_def by (intro calm_mounts)

lemma calm_dispatch: "calm_mount (dispatch op who rq)"
  by (cases rq) (auto simp: answering_def fuse_getattr_def fuse_read_def fuse_readlink_def fuse_readdir_def fuse_access_def
    fuse_statfs_def fuse_fsync_def fuse_open_def fuse_write_def fuse_create_def fuse_mknod_def fuse_unlink_def
    fuse_mkdir_def fuse_rmdir_def fuse_rename_def fuse_link_def fuse_symlink_def fuse_chmod_def fuse_chown_def
    fuse_truncate_def fuse_utimens_def readdir_cb_def Let_def intro!: calm_mounts quiets)

lemma read_only_stays:
  "serves op x y \<Longrightarrow> mnt_readonly (fst x) \<Longrightarrow> mnt_readonly (fst y) \<and> fst (snd y) = fst (snd x)"
proof (induction rule: serves.induct)
  case (request x y who rq r z)
  obtain m s where "y = (m, s)" by (cases y)
  moreover obtain m' t where "z = (m', t)" by (cases z)
  ultimately show ?case using request calm_dispatch [of op who rq] unfolding calm_mount_def by fastforce
qed simp

text \<open>Without the option \<open>rw\<close> a mount is read-only.\<close>

lemma mount_option_rw: "mount_option tok m = Inr (keep, m') \<Longrightarrow> tok \<noteq> opt_rw \<Longrightarrow> \<not> mnt_request_rw m \<Longrightarrow> \<not> mnt_request_rw m'"
  by (auto simp: mount_option_def split: if_splits option.splits)

lemma mount_options_rw:
  "mount_options toks m = Inr (kept, m') \<Longrightarrow> opt_rw \<notin> set toks \<Longrightarrow> \<not> mnt_request_rw m \<Longrightarrow> \<not> mnt_request_rw m'"
  by (induction toks arbitrary: m kept) (auto split: sum.splits prod.splits dest: mount_option_rw)

lemma build_fuse_args_rw:
  "build_fuse_args args m = Inr (out, m') \<Longrightarrow> \<forall>a\<in>set args. opt_rw \<notin> set (option_tokens [] a) \<Longrightarrow>
    \<not> mnt_request_rw m \<Longrightarrow> \<not> mnt_request_rw m'"
proof (induction args m arbitrary: out m' rule: build_fuse_args.induct)
  case (3 a b args m)
  show ?case
  proof (cases "a = opt_o")
    case True
    then obtain kept k o' where k: "mount_options (option_tokens [] b) m = Inr (kept, k)"
      and r: "build_fuse_args args k = Inr (o', m')"
      using "3.prems"(1) by (auto split: sum.splits prod.splits)
    have "\<not> mnt_request_rw k" by (rule mount_options_rw [OF k]) (use "3.prems" in simp_all)
    then show ?thesis using "3.IH"(1) [OF True k refl r] "3.prems"(2) by simp
  next
    case False
    then obtain o' where "build_fuse_args (b # args) m = Inr (o', m')" using "3.prems"(1) by (auto split: sum.splits)
    then show ?thesis using "3.IH"(2) [OF False] "3.prems" by simp
  qed
qed simp_all

end
