(* ===== verification/MountClaims.thy ===== *)
theory MountClaims
  imports Mount Tiny
begin

text \<open>What a mount guarantees, whatever requests it serves.\<close>

text \<open>
  C31. Unless \<open>rw\<close> is among its options, a mount leaves the disk as it was when it started, whatever requests it serves, of
  whatever callers, in whatever order.
\<close>

theorem mount_without_rw_keeps_disk:
  assumes "mount_start op args s = (Inr out, (m, t))"
    and "\<forall>a\<in>set args. opt_rw \<notin> set (option_tokens [] a)"
    and "serves op (m, t) (k, u)"
  shows "disk u = disk t"
proof -
  obtain o' m' where args: "build_fuse_args args fresh_mount = Inr (o', m')"
    and refresh: "refresh_image (reopen op) (m'\<lparr>mnt_readonly := \<not> mnt_request_rw m'\<rparr>, s) = (Inr (), (m, t))"
    using assms(1) by (auto simp: mount_start_def Let_def split: sum.splits prod.splits)
  have "\<not> mnt_request_rw m'" by (rule build_fuse_args_rw [OF args assms(2)]) (simp add: fresh_mount_def)
  then have "mnt_readonly m" using refresh by (auto simp: refresh_image_def split: sum.splits prod.splits)
  then have "fst u = fst t" using read_only_stays [OF assms(3)] by simp
  then show ?thesis by (rule same_backend [THEN conjunct1])
qed

text \<open>The file system of \<open>Tiny\<close>, mounted with the option \<open>mode=user\<close>; the removal of a file is refused.\<close>

definition tiny_access :: access_path where
  "tiny_access = \<lparr>open_rw = ret tiny_image, reopen = (\<lambda>_. ret tiny_image), chain = 0\<rparr>"

definition tiny_args :: "u8 list list" where
  "tiny_args = [opt_o, opt_mode @ [0x75, 0x73, 0x65, 0x72]]"

definition tiny_mount :: mount where
  "tiny_mount = fresh_mount\<lparr>mnt_img := tiny_image, mnt_mode := MountUser, mnt_readonly := True\<rparr>"

lemma tiny_mounted: "mount_start tiny_access tiny_args tiny_state = (Inr [opt_o, opt_ro], (tiny_mount, tiny_state))"
  by (simp add: mount_start_def tiny_args_def opt_o_def opt_mode_def mount_option_def parse_mode_option_def fresh_mount_def
      tiny_mount_def refresh_image_def tiny_access_def ret_def Let_def)

lemma tiny_refused: "dispatch tiny_access (100, 100) (ReqUnlink [slash, 0x66]) (tiny_mount, tiny_state) =
    (Inl EROFS, (tiny_mount, tiny_state))"
  by (simp add: answering_def fuse_unlink_def changing_def require_writable_def asking_def andthen_def fail_def tiny_mount_def)

theorem mount_without_rw_keeps_disk_witness:
  "\<exists>k u. dispatch tiny_access (100, 100) (ReqUnlink [slash, 0x66]) (tiny_mount, tiny_state) = (Inl EROFS, (k, u)) \<and>
    disk u = disk tiny_state"
proof -
  have "serves tiny_access (tiny_mount, tiny_state) (tiny_mount, tiny_state)"
    by (rule serves.request [OF serves.start tiny_refused])
  moreover have "\<forall>a\<in>set tiny_args. opt_rw \<notin> set (option_tokens [] a)"
    by (simp add: tiny_args_def opt_o_def opt_mode_def opt_rw_def)
  ultimately show ?thesis using mount_without_rw_keeps_disk [OF tiny_mounted] tiny_refused by blast
qed

end
