(* ===== verification/Mkimg.thy ===== *)
theory Mkimg
  imports Resize FormatCg
begin

text \<open>
  The command that makes an image (\<open>src/src/commands/mkimg.c\<close>): its arguments, the creation of the target
  (\<open>src/src/core/source.c\<close>), the label and the file system. The state is the file under the path of the target,
  \<open>None\<close> where there is none, and the host. An exit of the command is \<open>EXIT n\<close>; success is exit status 0. What
  it prints is left out.
\<close>

section \<open>Creating a file\<close>

type_synonym 'a on_path = "(hostfile option \<times> os, 'a) io"

definition on_target :: "(hostfile \<times> os, 'a) io \<Rightarrow> 'a on_path" where
  "on_target m = (\<lambda>(f, s). case f of None \<Rightarrow> (Inl ENOENT, (f, s))
     | Some hf \<Rightarrow> (case m (hf, s) of (r, (hf, s)) \<Rightarrow> (r, (Some hf, s))))"

text \<open>The policies under which a file is made; the others of the enumeration open an image.\<close>

datatype target_policy = TargetCreate | TargetOverwrite

definition target_open :: "target_policy \<Rightarrow> unit on_path" where
  "target_open policy = (\<lambda>(f, s). case events s (ticks s) of
     OsFail e \<Rightarrow> (Inl e, (f, tick s))
   | _ \<Rightarrow> if policy = TargetCreate \<and> f \<noteq> None then (Inl EEXIST, (f, tick s))
          else (Inr (), (Some \<lparr>fsize = 0, fbytes = \<lambda>_. 0\<rparr>, tick s)))"

definition close_target :: "unit on_path" where
  "close_target = (\<lambda>(f, s). case events s (ticks s) of
     OsFail e \<Rightarrow> (Inl e, (f, tick s)) | _ \<Rightarrow> (Inr (), (f, tick s)))"

definition target_create_sized :: "target_policy \<Rightarrow> u64 \<Rightarrow> unit on_path" where
  "target_create_sized policy bytes =
     andthen (target_open policy) (\<lambda>_.
     andthen (on_error (on_target (ftruncate bytes)) (ignoring close_target)) (\<lambda>_.
     close_target))"

section \<open>Arguments\<close>

record mkimg_options =
  mk_raw :: bool
  mk_dry_run :: bool
  mk_force_size :: bool
  mk_force_overwrite :: bool
  mk_help :: bool
  mk_label :: "u8 list option"
  mk_target :: "u8 list option"
  mk_bytes :: u64
  mk_extra :: "u8 list list"

text \<open>\<open>strtol\<close> and the test against the range of \<open>int\<close>.\<close>

definition parse_int_arg :: "u8 list \<Rightarrow> int option" where
  "parse_int_arg s =
     (let s = dropWhile is_space s;
          neg = (s \<noteq> [] \<and> hd s = 0x2d);
          s = (if s \<noteq> [] \<and> (hd s = 0x2d \<or> hd s = 0x2b) then tl s else s);
          ds = takeWhile is_digit s; v = (if neg then - int (digits_value ds) else int (digits_value ds)) in
      if ds = [] \<or> dropWhile is_digit s \<noteq> [] \<or> v < - (2 ^ 31) \<or> 2 ^ 31 - 1 < v then None else Some v)"

text \<open>\<open>basename\<close> of the standard library, on a copy of the path, cut off at the length of the label.\<close>

definition basename :: "u8 list \<Rightarrow> u8 list" where
  "basename path =
     (let p = rev (dropWhile (\<lambda>c. c = 0x2f) (rev path)) in
      if path = [] then [0x2e] else if p = [] then [0x2f] else rev (takeWhile (\<lambda>c. c \<noteq> 0x2f) (rev p)))"

definition default_label :: "u8 list \<Rightarrow> u8 list" where
  "default_label path = take 24 (basename (take 1023 path))"

fun parse_loop :: "u8 list list \<Rightarrow> mkimg_options \<Rightarrow> mkimg_options option" where
  "parse_loop [] m = Some m"
| "parse_loop (a # args) m =
     (if a = ascii ''--raw'' then parse_loop args (m\<lparr>mk_raw := True\<rparr>)
      else if a = ascii ''--dry-run'' then parse_loop args (m\<lparr>mk_dry_run := True\<rparr>)
      else if a = ascii ''--force-size'' then parse_loop args (m\<lparr>mk_force_size := True\<rparr>)
      else if a = ascii ''--force-overwrite'' then parse_loop args (m\<lparr>mk_force_overwrite := True\<rparr>)
      else if a = ascii ''--label'' then
        (case args of [] \<Rightarrow> None | l # rest \<Rightarrow> parse_loop rest (m\<lparr>mk_label := Some l\<rparr>))
      else if a = ascii ''-h'' \<or> a = ascii ''--help'' then Some (m\<lparr>mk_help := True\<rparr>)
      else if a \<noteq> [] \<and> hd a = 0x2d then None
      else if mk_target m = None then parse_loop args (m\<lparr>mk_target := Some a\<rparr>)
      else if mk_bytes m = 0 then
        (case parse_size_bytes a BareSize1kSectors of None \<Rightarrow> None | Some n \<Rightarrow> parse_loop args (m\<lparr>mk_bytes := n\<rparr>))
      else if mk_raw m then Some (m\<lparr>mk_extra := a # args\<rparr>)
      else None)"

definition no_options :: mkimg_options where
  "no_options = \<lparr>mk_raw = False, mk_dry_run = False, mk_force_size = False, mk_force_overwrite = False,
     mk_help = False, mk_label = None, mk_target = None, mk_bytes = 0, mk_extra = []\<rparr>"

definition parse_args :: "u8 list list \<Rightarrow> mkimg_options option" where
  "parse_args args = (case parse_loop args no_options of None \<Rightarrow> None
     | Some m \<Rightarrow>
       if mk_help m then Some m
       else (case mk_target m of None \<Rightarrow> None | Some path \<Rightarrow>
         if mk_bytes m = 0 then None
         else if mk_raw m \<and> mk_label m \<noteq> None then None
         else if \<not> mk_raw m \<and> mk_extra m \<noteq> [] then None
         else Some (if mk_label m = None then m\<lparr>mk_label := Some (default_label path)\<rparr> else m)))"

text \<open>The numbers of a raw geometry, in the order of the arguments.\<close>

fun set_ints :: "(int \<Rightarrow> nextufs_format_options \<Rightarrow> nextufs_format_options) list \<Rightarrow> u8 list list
    \<Rightarrow> nextufs_format_options \<Rightarrow> nextufs_format_options option" where
  "set_ints (u # us) (a # args) fmt = (case parse_int_arg a of None \<Rightarrow> None | Some v \<Rightarrow> set_ints us args (u v fmt))"
| "set_ints us args fmt = Some fmt"

definition raw_geometry :: "(int \<Rightarrow> nextufs_format_options \<Rightarrow> nextufs_format_options) list" where
  "raw_geometry =
     [\<lambda>v. fo_nsect_update (\<lambda>_. v), \<lambda>v. fo_ntrak_update (\<lambda>_. v), \<lambda>v. fo_bsize_update (\<lambda>_. v),
      \<lambda>v. fo_fsize_update (\<lambda>_. v), \<lambda>v. fo_cpg_update (\<lambda>_. v), \<lambda>v. fo_minfree_update (\<lambda>_. v),
      \<lambda>v. fo_rps_update (\<lambda>_. v), \<lambda>v. fo_nbpi_update (\<lambda>_. v)]"

definition format_options_from_cli :: "mkimg_options \<Rightarrow> nat \<Rightarrow> nextufs_format_options option" where
  "format_options_from_cli m fs_sectors =
     (let fmt = format_defaults\<lparr>fo_target := mk_target m \<noteq> None, fo_size_1k_sectors := fs_sectors,
            fo_dry_run := mk_dry_run m, fo_force_size := mk_force_size m, fo_no_create := True,
            fo_base_offset := (if mk_raw m then 0 else int LABEL_FRONT_PORCH_BYTES)\<rparr> in
      if \<not> mk_raw m then
        Some (fmt\<lparr>fo_nsect := 32, fo_ntrak := 4, fo_bsize := 8192, fo_fsize := 1024, fo_cpg := 16, fo_minfree := 10,
          fo_rps := 60, fo_nbpi := 4096, fo_opt := 0x74\<rparr>)
      else if 9 < length (mk_extra m) then None
      else (case set_ints raw_geometry (mk_extra m) fmt of None \<Rightarrow> None
        | Some fmt \<Rightarrow>
          if length (mk_extra m) \<le> 8 then Some fmt
          else (case mk_extra m ! 8 of [c] \<Rightarrow> Some (fmt\<lparr>fo_opt := c\<rparr>) | _ \<Rightarrow> None)))"

section \<open>The command\<close>

definition create_output :: "mkimg_options \<Rightarrow> unit on_path" where
  "create_output m = target_create_sized (if mk_force_overwrite m then TargetOverwrite else TargetCreate) (mk_bytes m)"

definition write_image :: "mkimg_options \<Rightarrow> u64 \<Rightarrow> nextufs_format_options \<Rightarrow> unit on_path" where
  "write_image m slice_bytes fmt =
     andthen (or_else (create_output m) (EXIT 1)) (\<lambda>_.
     andthen (if mk_raw m then ret ()
       else or_else (on_target (label_write_path (mk_bytes m) slice_bytes (case mk_label m of None \<Rightarrow> [] | Some l \<Rightarrow> l))) (EXIT 1)) (\<lambda>_.
     on_target (nextufs_format fmt)))"

definition mkimg_main :: "u8 list list \<Rightarrow> unit on_path" where
  "mkimg_main args =
     (case parse_args args of None \<Rightarrow> fail (EXIT 2)
      | Some m \<Rightarrow>
        if mk_help m then ret ()
        else if \<not> mk_force_size m \<and> COMPAT_MAX_BYTES < mk_bytes m then fail (EXIT 1)
        else if mk_bytes m mod 1024 \<noteq> 0 then fail (EXIT 1)
        else if \<not> mk_raw m \<and> mk_bytes m \<le> of_nat LABEL_FRONT_PORCH_BYTES then fail (EXIT 1)
        else
          let slice_bytes = (if mk_raw m then mk_bytes m else mk_bytes m - of_nat LABEL_FRONT_PORCH_BYTES);
              fs_sectors = slice_bytes div 1024 in
          if 2 ^ 63 - 1 < unat fs_sectors then fail (EXIT 1)
          else case format_options_from_cli m (unat fs_sectors) of None \<Rightarrow> fail (EXIT 1)
          | Some fmt \<Rightarrow>
            if mk_dry_run m then ret ()
            else write_image m slice_bytes fmt)"

end
