(* ===== verification/MkimgClaims.thy ===== *)
theory MkimgClaims
  imports Mkimg FormatLive LabelClaims
begin

text \<open>
  An image that \<open>nextufs mkimg\<close> has made is one that the library opens: the label survives the formatting, and
  behind the slice it names the library finds the superblock of the formatter.
\<close>

section \<open>The label on the disk\<close>

lemma write_label_copy_Inr:
  assumes "write_label_copy off tb sl nc label (f, s) = (Inr (), (g, t))"
  shows "file_byte g = blit (file_byte f) (nat off) 768 (label_copy_bytes off tb sl nc label) \<and> fsize f \<le> fsize g"
  using assms unfolding write_label_copy_def LABEL_WRITE_SIZE_def
  by (elim write_exact_fd_prefix) auto

lemma label_written:
  assumes "label_write_path image_bytes slice_bytes label (f, s) = (Inr (), (g, t))"
  shows "\<exists>nc. (\<forall>i<768. file_byte g i = label_copy_bytes 0 (ucast (image_bytes div 1024)) (ucast (slice_bytes div 1024)) nc label i)"
    "fsize f \<le> fsize g"
proof -
  let ?tb = "ucast (image_bytes div 1024) :: u32" and ?sl = "ucast (slice_bytes div 1024) :: u32"
  let ?nc = "ucast (?tb div (4 * 32)) :: u16"
  obtain f0 s0 f1 s1 f2 s2 f3 s3 where o: "label_open (f, s) = (Inr (), (f0, s0))"
    and w: "write_label_copy 0 ?tb ?sl ?nc label (f0, s0) = (Inr (), (f1, s1))"
      "write_label_copy 7680 ?tb ?sl ?nc label (f1, s1) = (Inr (), (f2, s2))"
      "write_label_copy 15360 ?tb ?sl ?nc label (f2, s2) = (Inr (), (f3, s3))"
      "write_label_copy 23040 ?tb ?sl ?nc label (f3, s3) = (Inr (), (g, t))"
    using assms unfolding label_write_path_def Let_def LABEL_SECTOR_SIZE_def LABEL_COPY_COUNT_def LABEL_COPY_STRIDE_def
    by (auto simp: andthen_Inr ret_def fail_def upt_rec split: if_splits)
  have "f0 = f" using o by (auto simp: label_open_def split: os_event.splits)
  note w = w [unfolded this, THEN write_label_copy_Inr]
  show "fsize f \<le> fsize g" using w by linarith
  show "\<exists>nc. (\<forall>i<768. file_byte g i = label_copy_bytes 0 ?tb ?sl nc label i)"
    using w by (intro exI [of _ ?nc]) (simp add: blit_def)
qed

section \<open>Opening\<close>

lemma decode_superblock_clip: "decode_superblock (clip 2048 b) = decode_superblock b"
proof -
  have "read_be32 (clip 2048 b) p = read_be32 b p" if "p \<le> 2044" for p
    using that by (intro read_be32_cong) simp
  then show ?thesis by (simp add: decode_superblock_def UFS_SUPER_MAGIC_OFFSET_def)
qed

lemma wp_locate_labelled:
  assumes calm: "calm N s" and n: "180224 \<le> N" "image_size im = int N"
    and label: "\<forall>i<768. disk s i = label_copy_bytes 0 tb sl nc label i" "sl \<noteq> 0" "sl < 0xffffff" "163840 + unat sl * 1024 \<le> N"
    and super: "\<forall>i<8192. disk s (172032 + i) = b i" "superblock_ok (decode_superblock b)"
  shows "wp (locate_file_system im) (\<lambda>_ _. False) (\<lambda>im' _. used_disk_label im' \<and> slice_base im' = 163840 \<and>
    slice_size im' = int (unat sl * 1024) \<and> sb im' = decode_superblock b \<and> writable im' = writable im) s"
proof -
  let ?n = "min SCAN_LIMIT N"
  have scan: "(if 0 \<le> image_size im then min SCAN_LIMIT (nat (image_size im)) else SCAN_LIMIT) = ?n" by (simp add: n(2))
  have big: "180224 \<le> ?n" "?n \<le> N" using n(1) by (simp_all add: SCAN_LIMIT_def)
  obtain xs where xs: "label_offsets ?n = 0 # xs"
  proof -
    have limit: "min ?n LABEL_SCAN_LIMIT = 131072" using big by (simp add: LABEL_SCAN_LIMIT_def)
    have "[0..<257] = 0 # [1..<257]" using upt_conv_Cons [of 0 257] by simp
    then have "label_offsets ?n = filter (\<lambda>off. off + 7258 \<le> 131072) (map (\<lambda>i. i * 512) (0 # [1..<257]))"
      unfolding label_offsets_def Let_def limit LABEL_DECODE_SIZE_def DEV_SECTOR_SIZE_def by simp
    also have "\<dots> = 0 # filter (\<lambda>off. off + 7258 \<le> 131072) (map (\<lambda>i. i * 512) [1..<257])"
      by (simp only: list.map filter.simps) simp
    finally show ?thesis by (rule that)
  qed
  let ?buf = "clip ?n (\<lambda>i. disk s i)"
  have lb: "\<forall>i<LABEL_WRITE_SIZE. ?buf (0 + i) = label_copy_bytes 0 tb sl nc label i"
    using label(1) big(1) by (simp add: LABEL_WRITE_SIZE_def)
  have "LABEL_DECODE_SIZE \<le> ?n - 0" using big(1) by (simp add: LABEL_DECODE_SIZE_def)
  from new_label_decodes [OF lb this _ _ _ label(2,3)] obtain dl where
    dl: "label_decode (\<lambda>i. ?buf (0 + i)) (?n - 0) (int 0) = Some dl"
      "label_pick_slice dl = Some (163840, int (unat sl) * 1024)"
    by (auto simp: LABEL_FRONT_PORCH_BYTES_def)
  have version: "label_is_version (read_be32 (\<lambda>i. ?buf (0 + i)) 0)"
    using dl(1) by (auto simp: label_decode_def Let_def split: if_splits)
  have "read_be32 ?buf 173404 = read_be32 b 1372"
  proof -
    have "?buf (172032 + i) = b i" if "i < 8192" for i using super(1) big(1) that by simp
    from this [of 1372] this [of 1373] this [of 1374] this [of 1375] show ?thesis by (simp add: read_be32_def)
  qed
  then have magic: "read_be32 ?buf 173404 = UFS_FS_MAGIC"
    using super(2) by (simp add: superblock_ok_def decode_superblock_def UFS_SUPER_MAGIC_OFFSET_def)
  have sbuf: "decode_superblock (clip 2048 (\<lambda>i. disk t (172032 + i))) = decode_superblock b" if "disk t = disk s" for t
  proof -
    have "clip 2048 (\<lambda>i. disk t (172032 + i)) = clip 2048 b" using that super(1) by (auto simp: clip_def fun_eq_iff)
    then show ?thesis by (simp add: decode_superblock_clip)
  qed
  have slice: "0 < int (unat sl) * 1024" "163840 + int (unat sl) * 1024 \<le> image_size im" "163840 < image_size im"
  proof -
    have "0 < unat sl" using label(2) by (simp add: unat_gt_0)
    then show "0 < int (unat sl) * 1024" "163840 + int (unat sl) * 1024 \<le> image_size im" "163840 < image_size im"
      using label(4) unfolding n(2) by linarith+
  qed
  let ?good = "\<lambda>im'. used_disk_label im' \<and> slice_base im' = 163840 \<and>
    slice_size im' = int (unat sl * 1024) \<and> sb im' = decode_superblock b \<and> writable im' = writable im"
  let ?found = "\<lambda>p. im\<lparr>sb := p, slice_base := 163840, slice_size := int (unat sl) * 1024, label_off := dl_off dl,
    label_version := dl_version dl, label_secsize := dl_secsize dl, label_front := dl_front dl, label_name := dl_name dl,
    rootpartition := dl_rootpartition dl, used_disk_label := True\<rparr>"
  have away: "nat 163840 + UFS_SBLOCK_OFFSET + UFS_SUPER_MAGIC_OFFSET = 173404"
    by (simp add: UFS_SBLOCK_OFFSET_def UFS_SUPER_MAGIC_OFFSET_def)
  have no: "\<not> ((163840 :: int) < 0 \<or> image_size im \<le> 163840 \<or> int (unat sl) * 1024 \<le> 0 \<or>
      image_size im < 163840 + int (unat sl) * 1024 \<or> ?n < 173404 + 4 \<or> read_be32 ?buf 173404 \<noteq> UFS_FS_MAGIC)"
    using slice big magic by linarith
  have tried: "try_label im ?buf ?n 0 = andthen (try_superblock 163840) (\<lambda>p. ret (map_option ?found p))"
    using version unfolding try_label_def Let_def dl option.case prod.case away if_not_P [OF no] by (simp del: add_0)
  have super_read: "wp (try_superblock 163840) (\<lambda>_ _. False) (\<lambda>r _. r = Some (decode_superblock b)) t"
    if t: "calm N t" "disk t = disk s" for t
    unfolding try_superblock_def UFS_SBLOCK_OFFSET_def wp_simps
    by (rule wp_read_calm [OF t(1)]) (use n super(2) in \<open>simp_all add: wp_simps Let_def sbuf [OF t(2)]\<close>)
  have here: "wp (try_label im ?buf ?n 0) (\<lambda>_ _. False) (\<lambda>r _. \<exists>im'. r = Some im' \<and> ?good im') t"
    if "calm N t" "disk t = disk s" for t
    unfolding tried wp_andthen by (rule wp_mono [OF super_read [OF that]]) (simp_all add: wp_simps)
  have first: "wp (first_some (try_label im ?buf ?n) (label_offsets ?n)) (\<lambda>_ _. False) (\<lambda>r _. \<exists>im'. r = Some im' \<and> ?good im') t"
    if "calm N t" "disk t = disk s" for t
    unfolding xs first_some.simps wp_andthen by (rule wp_mono [OF here [OF that]]) (auto simp: wp_simps)
  show ?thesis
    unfolding locate_file_system_def scan Let_def wp_andthen wp_or_else
  proof (rule wp_malloc_calm [OF calm], rule wp_read_calm)
    fix t u assume t: "calm N t" "disk t = disk s" and u: "calm N u" "disk u = disk t"
    have c: "clip ?n (\<lambda>i. disk t (nat 0 + i)) = ?buf" using t(2) by simp
    show "wp (first_some (try_label im (clip ?n (\<lambda>i. disk t (nat 0 + i))) ?n) (label_offsets ?n)) (\<lambda>_ _. False)
      (\<lambda>x. wp (case x of None \<Rightarrow> andthen (first_some (try_magic im (clip ?n (\<lambda>i. disk t (nat 0 + i)))) (magic_offsets ?n))
        (\<lambda>r. case r of None \<Rightarrow> fail EINVAL | Some img \<Rightarrow> ret img) | Some img \<Rightarrow> ret img) (\<lambda>_ _. False) (\<lambda>im' _. ?good im')) u"
      unfolding c by (rule wp_mono [OF first]) (use u t in \<open>auto simp: wp_simps\<close>)
  qed (use big in simp_all)
qed

text \<open>The file under the path is opened, with its first 512 bytes no header of a VDI image.\<close>

lemma labelled_file_opens:
  assumes host: "host_open h path = Inr f" "\<forall>k. events os k = OsFull"
    and size: "180224 \<le> fsize f"
    and label: "\<forall>i<768. file_byte f i = label_copy_bytes 0 tb sl nc label i" "sl \<noteq> 0" "sl < 0xffffff"
      "163840 + unat sl * 1024 \<le> fsize f"
    and super: "\<forall>i<8192. file_byte f (172032 + i) = b i" "superblock_ok (decode_superblock b)"
  shows "\<exists>im t. open_with_mode (Suc n) h path wr (NoBackend, os) = (Inr im, t) \<and> used_disk_label im \<and>
    slice_base im = 163840 \<and> slice_size im = int (unat sl * 1024) \<and> sb im = decode_superblock b \<and> writable im = wr"
proof -
  let ?im = "\<lparr>writable = wr, source_is_container = False, image_size = int (fsize f), slice_base = 0, slice_size = 0,
    label_off = 0, label_version = 0, label_secsize = 0, label_front = 0, label_name = [], rootpartition = 0,
    used_disk_label = False, sb = empty_superblock\<rparr>"
  have ev: "\<forall>k. events (tick (tick os)) k = OsFull" using host(2) by (simp add: tick_def)
  from read_exact_fd_full [OF this, of 0 512 f] size obtain hdr t where
    rd: "read_exact_fd f 512 0 (tick (tick os)) = (Inr hdr, t)" and t: "events t = events (tick (tick os))" by auto
  have "hdr = clip 512 (file_byte f)" using read_exact_fd_Inr [OF rd] by simp
  then have "hdr i = label_body 0 tb sl nc label i" if "64 \<le> i" "i < 68" for i
    using label(1) copy_bytes [of i 0 tb sl nc label] that by simp
  then have "hdr 64 = 0" "hdr 65 = 0" "hdr 66 = 0" "hdr 67 = 0"
    by (simp_all add: label_body_def Let_def label_offs ascii_def put_string_in put_string_behind cell_bytes)
  then have "read_le32 hdr 64 = 0" by (simp add: read_le32_def)
  with rd t ev host have init: "init_backend (Suc n) h path os = (Inr \<lparr>at_backend = RawBackend f, at_container = False,
      at_image_size = int (fsize f), at_source_size = fsize f\<rparr>, tick t)"
    by (simp add: andthen_def host_call_def or_else_def malloc_def VDI_SIGNATURE_def tick_def)
  let ?u = "(RawBackend f, tick t)"
  have u: "calm (fsize f) ?u" "disk ?u = file_byte f" using t ev by (simp_all add: calm_def disk_def tick_def)
  from wp_succeeds [OF wp_locate_labelled [OF u(1) size _ label(1) [folded u(2)] label(2-4) super(1) [folded u(2)] super(2), of ?im]]
  obtain im v where loc: "locate_file_system ?im ?u = (Inr im, v)" and im: "used_disk_label im" "slice_base im = 163840"
    "slice_size im = int (unat sl * 1024)" "sb im = decode_superblock b" "writable im = wr"
    by auto
  have "attach_backend (Suc n) h path wr (NoBackend, os) = (Inr ?im, ?u)" using init by (simp add: attach_backend_def)
  with loc im show ?thesis by (intro exI [of _ im] exI [of _ v]) (simp add: open_with_mode_def andthen_def on_error_def)
qed

section \<open>The command\<close>

lemma on_target_Inr: "on_target m (f, s) = (Inr x, (g, t)) \<longleftrightarrow>
    (\<exists>hf hf'. f = Some hf \<and> g = Some hf' \<and> m (hf, s) = (Inr x, (hf', t)))"
  by (auto simp: on_target_def split: option.splits prod.splits)

lemma created:
  assumes "create_output m (f, s) = (Inr (), (g, t))"
  shows "\<exists>hf. g = Some hf \<and> fsize hf = unat (mk_bytes m)"
proof -
  obtain policy where run: "target_create_sized policy (mk_bytes m) (f, s) = (Inr (), (g, t))"
    using assms by (simp add: create_output_def)
  then obtain f1 s1 f2 s2 where o: "target_open policy (f, s) = (Inr (), (f1, s1))"
    and c: "on_target (ftruncate (mk_bytes m)) (f1, s1) = (Inr (), (f2, s2))" "close_target (f2, s2) = (Inr (), (g, t))"
    unfolding target_create_sized_def by (auto simp: andthen_Inr on_error_Inr)
  have "g = f2" using c(2) by (auto simp: close_target_def split: os_event.splits)
  moreover obtain hf hf' where "f2 = Some hf'" "ftruncate (mk_bytes m) (hf, s1) = (Inr (), (hf', s2))"
    using c(1) unfolding on_target_Inr by blast
  ultimately show ?thesis by (auto simp: ftruncate_def split: if_splits os_event.splits)
qed

lemma superblock_found:
  assumes run: "geometry opts s = (Inr fs, t)" and gs: "only_totals fs gs"
    and opts: "fo_bsize opts = 8192" "fo_fsize opts = 1024"
  defines "p \<equiv> decode_superblock (format_swap_superblock (sblock_bytes gs))"
  shows "superblock_ok p" "block_size p = 8192" "frag_size p = 1024"
proof -
  have "m_magic gs = 0x011954" "m_bsize gs = 8192" "m_fsize gs = 1024"
    using only_totals_fields(10-12) [OF gs] geometry_fields(1-3) [OF run] opts by simp_all
  then show "block_size p = 8192" "frag_size p = 1024" "superblock_ok p"
    unfolding p_def superblock_ok_def decode_superblock_def UFS_SUPER_MAGIC_OFFSET_def UFS_FS_MAGIC_def
    by (simp_all add: sblock_word_swapped sblock_words_def)
qed

lemma slice_blocks_eq:
  assumes "n \<le> COMPAT_MAX_BYTES" "n mod 1024 = 0" "\<not> n \<le> (163840 :: u64)"
  defines "sl \<equiv> ucast ((n - 163840) div 1024) :: u32"
  shows "unat sl * 1024 = unat n - 163840" "sl \<noteq> 0" "sl < 0xffffff" "163840 < unat n"
proof -
  have n: "163840 < unat n" "unat n < 2 ^ 32" "unat n mod 1024 = 0"
    using assms(1,3) arg_cong [OF assms(2), of unat] by (simp_all add: COMPAT_MAX_BYTES_def word_le_nat_alt unat_mod)
  have sub: "unat (n - 163840) = unat n - 163840" using assms(3) by (subst unat_sub) simp_all
  have "unat ((n - 163840) div 1024) = (unat n - 163840) div 1024" by (simp add: unat_div sub)
  moreover have "(unat n - 163840) div 1024 < 2 ^ 22" using n(2) by (simp add: less_mult_imp_div_less)
  ultimately have sl: "unat sl = (unat n - 163840) div 1024"
    by (simp add: sl_def unsigned_ucast_eq unsigned_take_bit_eq take_bit_nat_eq_self)
  obtain q where q: "unat n = q * 1024" using n(3) by (metis mod_0_imp_dvd dvd_div_mult_self)
  show "unat sl * 1024 = unat n - 163840" "163840 < unat n" using n(1) unfolding sl q by simp_all
  have "0 < unat sl" "unat sl < 0xffffff" using n(1,2) unfolding sl q by simp_all
  then show "sl \<noteq> 0" "sl < 0xffffff" by (simp_all add: unat_gt_0 word_less_nat_alt)
qed

text \<open>The options of the formatter when it runs on an image with a label.\<close>

definition labelled_format :: "mkimg_options \<Rightarrow> nextufs_format_options" where
  "labelled_format m = format_defaults\<lparr>fo_target := mk_target m \<noteq> None,
     fo_size_1k_sectors := unat ((mk_bytes m - 163840) div 1024), fo_no_create := True, fo_base_offset := 163840,
     fo_ntrak := 4, fo_cpg := 16, fo_minfree := 10, fo_nbpi := 4096\<rparr>"

lemma labelled_format_fields:
  "\<not> fo_dry_run (labelled_format m)" "fo_no_create (labelled_format m)" "\<not> fo_force_size (labelled_format m)"
  "fo_bsize (labelled_format m) \<le> MAXBSIZE" "0 \<le> fo_base_offset (labelled_format m)"
  "fo_base_offset (labelled_format m) = 163840" "fo_bsize (labelled_format m) = 8192" "fo_fsize (labelled_format m) = 1024"
  by (simp_all add: labelled_format_def format_defaults_def Format.MAXBSIZE_def)

lemma made_image_steps:
  assumes "parse_args args = Some m" "\<not> mk_help m" "\<not> mk_raw m" "\<not> mk_dry_run m" "\<not> mk_force_size m"
    and "mkimg_main args (f, os) = (Inr (), (g, os'))"
  shows "mk_bytes m \<le> COMPAT_MAX_BYTES" "mk_bytes m mod 1024 = 0" "\<not> mk_bytes m \<le> 163840"
    and "\<exists>hf0 s1 hf1 s2 hf label. fsize hf0 = unat (mk_bytes m) \<and>
      label_write_path (mk_bytes m) (mk_bytes m - 163840) label (hf0, s1) = (Inr (), (hf1, s2)) \<and>
      nextufs_format (labelled_format m) (hf1, s2) = (Inr (), (hf, os')) \<and> g = Some hf"
proof -
  show "mk_bytes m \<le> COMPAT_MAX_BYTES" "mk_bytes m mod 1024 = 0" "\<not> mk_bytes m \<le> 163840"
    using assms(6) unfolding mkimg_main_def assms(1) option.case
    by (auto simp: assms(2-5) fail_def LABEL_FRONT_PORCH_BYTES_def split: if_splits)
  have "format_options_from_cli m (unat ((mk_bytes m - 163840) div 1024)) = Some (labelled_format m)"
    using assms(3-5)
    by (simp add: format_options_from_cli_def labelled_format_def format_defaults_def LABEL_FRONT_PORCH_BYTES_def)
  then have "write_image m (mk_bytes m - 163840) (labelled_format m) (f, os) = (Inr (), (g, os'))"
    using assms(6) unfolding mkimg_main_def assms(1) option.case
    by (auto simp: assms(2-5) fail_def Let_def LABEL_FRONT_PORCH_BYTES_def split: if_splits)
  then obtain f1 s1 f2 s2 where "create_output m (f, os) = (Inr (), (f1, s1))"
    "on_target (label_write_path (mk_bytes m) (mk_bytes m - 163840) (case mk_label m of None \<Rightarrow> [] | Some l \<Rightarrow> l)) (f1, s1) =
      (Inr (), (f2, s2))"
    "on_target (nextufs_format (labelled_format m)) (f2, s2) = (Inr (), (g, os'))"
    using assms(3) by (auto simp: write_image_def andthen_Inr or_else_Inr)
  then show "\<exists>hf0 s1 hf1 s2 hf label. fsize hf0 = unat (mk_bytes m) \<and>
      label_write_path (mk_bytes m) (mk_bytes m - 163840) label (hf0, s1) = (Inr (), (hf1, s2)) \<and>
      nextufs_format (labelled_format m) (hf1, s2) = (Inr (), (hf, os')) \<and> g = Some hf"
    using created [of m f os f1 s1] unfolding on_target_Inr by blast
qed

text \<open>
  C39. An image that \<open>nextufs mkimg\<close> has made, with a label, without \<open>--force-size\<close> and not as a dry run, has at least the
  size that was asked for, and wherever it lies the library opens it, on a host whose calls succeed: through its label,
  with the slice behind the front porch of 160 KB as long as the rest of the size, and a superblock with blocks of 8192
  and fragments of 1024 bytes.
\<close>

theorem made_image_opens:
  assumes "parse_args args = Some m" "\<not> mk_help m" "\<not> mk_raw m" "\<not> mk_dry_run m" "\<not> mk_force_size m"
    and "mkimg_main args (f, os) = (Inr (), (g, os'))"
    and "\<forall>k. events calls k = OsFull"
  shows "\<exists>hf. g = Some hf \<and> unat (mk_bytes m) \<le> fsize hf \<and> (\<forall>h path wr. host_open h path = Inr hf \<longrightarrow>
    (\<exists>im t. open_with_mode 1 h path wr (NoBackend, calls) = (Inr im, t) \<and> used_disk_label im \<and> writable im = wr \<and>
      slice_base im = 163840 \<and> slice_base im + slice_size im = int (unat (mk_bytes m)) \<and>
      superblock_ok (sb im) \<and> block_size (sb im) = 8192 \<and> frag_size (sb im) = 1024))"
proof -
  let ?n = "mk_bytes m"
  note steps = made_image_steps [OF assms(1-6)]
  obtain hf0 s1 hf1 s2 hf label where c: "fsize hf0 = unat ?n"
    and l: "label_write_path ?n (?n - 163840) label (hf0, s1) = (Inr (), (hf1, s2))"
    and fm: "nextufs_format (labelled_format m) (hf1, s2) = (Inr (), (hf, os'))" and g: "g = Some hf"
    using steps(4) by blast
  note fmt = labelled_format_fields [of m]
  note keeps = nextufs_format_keeps [OF fm fmt(1-5), unfolded fmt(6)]
  obtain fs gs s t where geo: "geometry (labelled_format m) (s :: format_ctx) = (Inr fs, t)" "only_totals fs gs"
    "\<forall>i<8192. file_byte hf (nat 163840 + 8192 + i) = format_swap_superblock (sblock_bytes gs) i"
    using keeps(4) by blast
  note super = superblock_found [OF geo(1,2) fmt(7,8)]
  let ?sl = "ucast ((?n - 163840) div 1024) :: u32"
  note sl = slice_blocks_eq [OF steps(1-3)]
  obtain nc where nc: "\<forall>i<768. file_byte hf1 i = label_copy_bytes 0 (ucast (?n div 1024)) ?sl nc label i"
    using label_written(1) [OF l] by blast
  have label: "\<forall>i<768. file_byte hf i = label_copy_bytes 0 (ucast (?n div 1024)) ?sl nc label i"
    using nc keeps(3) by simp
  have size: "unat ?n \<le> fsize hf" using label_written(2) [OF l] keeps(1) c by simp
  have "int 180224 \<le> int (fsize hf)" using keeps(2) by simp
  then have room: "180224 \<le> fsize hf" by simp
  have "163840 + unat ?sl * 1024 \<le> fsize hf" using size sl(1,4) by simp
  note opens = labelled_file_opens [OF _ assms(7) room label sl(2,3) this _ super(1), where n = 0]
  have at: "\<forall>i<8192. file_byte hf (172032 + i) = format_swap_superblock (sblock_bytes gs) i" using geo(3) by simp
  have total: "163840 + int (unat ?sl * 1024) = int (unat ?n)" using sl(1,4) by linarith
  show ?thesis
  proof (intro exI [of _ hf] conjI g size allI impI)
    fix h :: host and path wr assume "host_open h path = Inr hf"
    from opens [OF this at, where wr = wr] obtain im t where im: "open_with_mode 1 h path wr (NoBackend, calls) = (Inr im, t)"
      "used_disk_label im" "slice_base im = 163840" "slice_size im = int (unat ?sl * 1024)"
      "sb im = decode_superblock (format_swap_superblock (sblock_bytes gs))" "writable im = wr"
      by auto
    then show "\<exists>im t. open_with_mode 1 h path wr (NoBackend, calls) = (Inr im, t) \<and> used_disk_label im \<and> writable im = wr \<and>
      slice_base im = 163840 \<and> slice_base im + slice_size im = int (unat ?n) \<and>
      superblock_ok (sb im) \<and> block_size (sb im) = 8192 \<and> frag_size (sb im) = 1024"
      using super total by (intro exI [of _ im] exI [of _ t]) simp
  qed
qed

text \<open>The command with the arguments \<open>t 800\<close>: an image of 800 sectors of 1 KB, where there is no file yet.\<close>

definition mkimg_args :: "u8 list list" where
  "mkimg_args = [[0x74], [0x38, 0x30, 0x30]]"

definition mkimg_opts :: mkimg_options where
  "mkimg_opts = no_options\<lparr>mk_label := Some [0x74], mk_target := Some [0x74], mk_bytes := 819200\<rparr>"

lemma mkimg_parsed: "parse_args mkimg_args = Some mkimg_opts"
proof -
  have "parse_size_bytes [0x38, 0x30, 0x30] BareSize1kSectors = Some 819200"
    by (simp add: parse_size_bytes_def strtoull10_def Sizes.is_space_def is_digit_def digits_value_def unit_multiplier_def
      suffix_multiplier_def KIB_BYTES_def Let_def)
  then show ?thesis
    by (simp add: parse_args_def mkimg_args_def mkimg_opts_def no_options_def ascii_def default_label_def basename_def)
qed

definition mkimg_format :: nextufs_format_options where
  "mkimg_format = format_defaults\<lparr>fo_target := True, fo_size_1k_sectors := 640, fo_no_create := True,
     fo_base_offset := 163840, fo_ntrak := 4, fo_cpg := 16, fo_minfree := 10, fo_nbpi := 4096\<rparr>"

lemma mkimg_geometry: "\<exists>fs. geometry mkimg_format () = (Inr fs, ()) \<and> group_room fs 0 \<and> 1 \<le> m_ncg fs"
proof -
  have "case geometry mkimg_format () of (Inr fs, _) \<Rightarrow> m_ncg fs = 1 \<and> 0 < m_size fs \<and> 0 \<le> m_cssize fs \<and>
      (nat (m_dblkno fs + ceil_div (m_cssize fs) (m_fsize fs)) + frag_of fs - 1) div frag_of fs * frag_of fs \<le> nat (min (m_fpg fs) (m_size fs))
    | _ \<Rightarrow> False"
    by code_simp
  then show ?thesis
    by (auto simp: group_room_def free_start_def data_start_def group_size_def split: prod.splits sum.splits)
qed

lemma wp_run_all:
  assumes "\<And>x s. K s \<Longrightarrow> wp (f x) E (\<lambda>_. K) s"
  shows "K s \<Longrightarrow> wp (run_all f xs) E (\<lambda>_. K) s"
proof (induction xs arbitrary: s)
  case (Cons x xs)
  have "wp (run_all f xs) E (\<lambda>m t. wp (ret (n + m)) E (\<lambda>_. K) t) t" if "K t" for n t
    using Cons.IH [OF that] by (simp add: wp_ret)
  then show ?case by (simp add: wp_andthen) (rule wp_mono [OF assms [OF Cons.prems]])
qed (simp add: wp_ret)

lemma label_write_completes:
  assumes host: "\<forall>k. events os k = OsFull" and small: "n \<le> COMPAT_MAX_BYTES" "l \<le> COMPAT_MAX_BYTES"
  shows "\<exists>g t. label_write_path n l label (f, os) = (Inr (), (g, t)) \<and> (\<forall>k. events t k = OsFull)"
proof -
  let ?K = "\<lambda>(_ :: hostfile, t). \<forall>k. events t k = OsFull"
  have copy: "wp (write_label_copy off tb sl nc label) (\<lambda>_ _. False) (\<lambda>_. ?K) s" if "?K s" "0 \<le> off" for off tb sl nc s
    using write_exact_fd_full [of "snd s" off "label_copy_bytes off tb sl nc label" 768 "fst s"] that
    by (auto simp: wp_def write_label_copy_def LABEL_WRITE_SIZE_def)
  have blocks: "unat (ucast (x div of_nat LABEL_SECTOR_SIZE) :: u32) \<le> 4194176" if "x \<le> COMPAT_MAX_BYTES" for x
  proof -
    have "unat x \<le> 4294836224" using that by (simp add: COMPAT_MAX_BYTES_def word_le_nat_alt)
    then have "unat (x div of_nat LABEL_SECTOR_SIZE) \<le> 4194176" by (simp add: unat_div LABEL_SECTOR_SIZE_def)
    then show ?thesis by (simp add: unsigned_ucast_eq unsigned_take_bit_eq take_bit_nat_eq_self)
  qed
  have sizes: "\<not> (0xffffff < (ucast (n div of_nat LABEL_SECTOR_SIZE) :: u32) \<or> 0xffffff < (ucast (l div of_nat LABEL_SECTOR_SIZE) :: u32))"
    "\<not> 0xffff < (ucast (n div of_nat LABEL_SECTOR_SIZE) :: u32) div (4 * 32)"
    using blocks [OF small(1)] blocks [OF small(2)] by (auto simp: word_less_nat_alt unat_div)
  have opened: "wp label_open (\<lambda>_ _. False) (\<lambda>_. ?K) (f, os)"
    using host by (simp add: wp_def label_open_def tick_def)
  have "wp (label_write_path n l label) (\<lambda>_ _. False) (\<lambda>_. ?K) (f, os)"
    unfolding label_write_path_def Let_def if_not_P [OF sizes(1)] if_not_P [OF sizes(2)]
    by (intro wp_then [OF opened] wp_then [OF wp_run_all [where K = ?K]]) (simp_all add: wp_simps copy)
  from wp_succeeds [OF this] show ?thesis by auto
qed

theorem made_image_opens_witness:
  "\<exists>hf os'. mkimg_main mkimg_args (None, tiny_os) = (Inr (), (Some hf, os')) \<and>
    (\<exists>im t. open_with_mode 1 \<lparr>host_open = \<lambda>_. Inr hf, host_dir = \<lambda>_. Inl ENOENT\<rparr> [slash] True (NoBackend, tiny_os) =
      (Inr im, t) \<and> used_disk_label im \<and> slice_base im = 163840 \<and> slice_size im = 655360)"
proof -
  have calm: "\<forall>k. events tiny_os k = OsFull" by (simp add: tiny_os_def)
  have opts: "\<not> mk_help mkimg_opts" "\<not> mk_raw mkimg_opts" "\<not> mk_dry_run mkimg_opts" "\<not> mk_force_size mkimg_opts"
    "mk_bytes mkimg_opts = 819200"
    by (simp_all add: mkimg_opts_def no_options_def)
  obtain f1 s1 where created: "create_output mkimg_opts (None, tiny_os) = (Inr (), (Some f1, s1))" "\<forall>k. events s1 k = OsFull"
    by (simp add: create_output_def target_create_sized_def target_open_def on_target_def ftruncate_def close_target_def
      andthen_def on_error_def opts tiny_os_def tick_def mkimg_opts_def no_options_def)
  have sizes: "819200 \<le> COMPAT_MAX_BYTES" "655360 \<le> COMPAT_MAX_BYTES" by (simp_all add: COMPAT_MAX_BYTES_def)
  obtain f2 s2 where label: "label_write_path 819200 655360 [0x74] (f1, s1) = (Inr (), (f2, s2))" "\<forall>k. events s2 k = OsFull"
    using label_write_completes [OF created(2) sizes] by blast
  obtain fs where fs: "geometry mkimg_format () = (Inr fs, ())" "group_room fs 0" "1 \<le> m_ncg fs" using mkimg_geometry by blast
  have "\<exists>d. nextufs_format mkimg_format (f2, s2) = (Inr (), d)"
    by (rule nextufs_format_completes [OF fs _ _ _ _ _ _ label(2)])
      (simp_all add: mkimg_format_def format_defaults_def Format.MAXBSIZE_def FORMAT_COMPAT_MAX_SECTORS_def)
  then obtain hf s3 where format: "nextufs_format mkimg_format (f2, s2) = (Inr (), (hf, s3))" by auto
  have fmt: "format_options_from_cli mkimg_opts 640 = Some mkimg_format"
    by (simp add: format_options_from_cli_def mkimg_format_def mkimg_opts_def no_options_def format_defaults_def
      LABEL_FRONT_PORCH_BYTES_def)
  have "mk_label mkimg_opts = Some [0x74]" by (simp add: mkimg_opts_def)
  then have "write_image mkimg_opts 655360 mkimg_format (None, tiny_os) = (Inr (), (Some hf, s3))"
    using created(1) label(1) format opts by (simp add: write_image_def andthen_def or_else_def on_target_def)
  then have run: "mkimg_main mkimg_args (None, tiny_os) = (Inr (), (Some hf, s3))"
    using fmt opts by (simp add: mkimg_main_def mkimg_parsed LABEL_FRONT_PORCH_BYTES_def COMPAT_MAX_BYTES_def)
  let ?h = "\<lparr>host_open = \<lambda>_. Inr hf, host_dir = \<lambda>_. Inl ENOENT\<rparr> :: host"
  have "host_open ?h [slash] = Inr hf" by simp
  then obtain im t where "open_with_mode 1 ?h [slash] True (NoBackend, tiny_os) = (Inr im, t)" "used_disk_label im"
    "slice_base im = 163840" "slice_base im + slice_size im = int (unat (mk_bytes mkimg_opts))"
    using made_image_opens [OF mkimg_parsed opts(1-4) run calm] by blast
  with run opts(5) show ?thesis by (intro exI [of _ hf] exI [of _ s3] conjI exI [of _ im] exI [of _ t]) simp_all
qed

end
